(* ===== verification/JsValue.thy ===== *)
theory JsValue
  imports Prelude
begin

text \<open>
  The part of the JavaScript language and standard library that the sources use: strings as
  sequences of UTF-16 code units, IEEE numbers, dynamic values with the own enumerable properties
  of an object in enumeration order, code point iteration, the UTF-8 encoder, the \<open>\s\<close> class of
  regular expressions, decimal printing and the UTC calendar of \<open>Date\<close> (ECMAScript \<open>MakeDay\<close> and
  \<open>YearFromTime\<close>).
\<close>

section \<open>Strings\<close>

type_synonym cunit = "16 word"
type_synonym ustring = "cunit list"

definition js :: "string \<Rightarrow> ustring" where
  "js s = map (\<lambda>c. of_nat (of_char c)) s"

definition isHigh :: "cunit \<Rightarrow> bool" where
  "isHigh u \<longleftrightarrow> 0xD800 \<le> u \<and> u \<le> 0xDBFF"

definition isLow :: "cunit \<Rightarrow> bool" where
  "isLow u \<longleftrightarrow> 0xDC00 \<le> u \<and> u \<le> 0xDFFF"

text \<open>\<open>for (const character of value)\<close>: a high surrogate followed by a low one is one code point.\<close>

fun code_points :: "ustring \<Rightarrow> nat list" where
  "code_points [] = []"
| "code_points [u] = [unat u]"
| "code_points (u # v # s) =
     (if isHigh u \<and> isLow v
      then (0x10000 + (unat u - 0xD800) * 0x400 + (unat v - 0xDC00)) # code_points s
      else unat u # code_points (v # s))"

text \<open>\<open>Array.from(value)\<close>: the code points of a string, each as the string it is.\<close>

fun char_strings :: "ustring \<Rightarrow> ustring list" where
  "char_strings [] = []"
| "char_strings [u] = [[u]]"
| "char_strings (u # v # s) =
     (if isHigh u \<and> isLow v then [u, v] # char_strings s else [u] # char_strings (v # s))"

text \<open>\<open>new TextEncoder().encode\<close>: UTF-8, an unpaired surrogate becoming U+FFFD.\<close>

definition utf8_bytes :: "nat \<Rightarrow> nat list" where
  "utf8_bytes c =
     (if c < 0x80 then [c]
      else if c < 0x800 then [0xC0 + c div 64, 0x80 + c mod 64]
      else if 0xD800 \<le> c \<and> c \<le> 0xDFFF then [0xEF, 0xBF, 0xBD]
      else if c < 0x10000 then [0xE0 + c div 4096, 0x80 + (c div 64) mod 64, 0x80 + c mod 64]
      else [0xF0 + c div 262144, 0x80 + (c div 4096) mod 64, 0x80 + (c div 64) mod 64, 0x80 + c mod 64])"

definition textEncode :: "ustring \<Rightarrow> nat list" where
  "textEncode s = concat (map utf8_bytes (code_points s))"

text \<open>WhiteSpace and LineTerminator, the class \<open>\s\<close>.\<close>

definition isSpace :: "cunit \<Rightarrow> bool" where
  "isSpace u \<longleftrightarrow> (0x09 \<le> u \<and> u \<le> 0x0D) \<or> u = 0x20 \<or> u = 0xA0 \<or> u = 0x1680
     \<or> (0x2000 \<le> u \<and> u \<le> 0x200A) \<or> u = 0x2028 \<or> u = 0x2029 \<or> u = 0x202F \<or> u = 0x205F
     \<or> u = 0x3000 \<or> u = 0xFEFF"

definition trim :: "ustring \<Rightarrow> ustring" where
  "trim s = rev (dropWhile isSpace (rev (dropWhile isSpace s)))"

definition isDigit :: "cunit \<Rightarrow> bool" where
  "isDigit u \<longleftrightarrow> 0x30 \<le> u \<and> u \<le> 0x39"

definition digitVal :: "cunit \<Rightarrow> nat" where
  "digitVal u = unat u - 0x30"

definition digitsVal :: "ustring \<Rightarrow> nat" where
  "digitsVal ds = foldl (\<lambda>n d. 10 * n + digitVal d) 0 ds"

fun dec_digits :: "nat \<Rightarrow> ustring" where
  "dec_digits n = (if n < 10 then [of_nat (0x30 + n)]
     else dec_digits (n div 10) @ [of_nat (0x30 + n mod 10)])"

declare dec_digits.simps [simp del]

definition startsWith :: "ustring \<Rightarrow> ustring \<Rightarrow> bool" where
  "startsWith s p \<longleftrightarrow> take (length p) s = p"

lemma of_nat_char_inj: "(of_nat (of_char c) :: cunit) = of_nat (of_char d) \<longleftrightarrow> c = d"
proof
  assume eq: "(of_nat (of_char c) :: cunit) = of_nat (of_char d)"
  have lt: "(of_char x :: nat) < 65536" for x
  proof -
    have "(of_char x :: nat) = of_char x mod 256"
      using of_char_of[of "of_char x :: nat"] by (simp only: char_of_char)
    also have "\<dots> < 256" by simp
    finally show ?thesis by (rule less_trans) simp
  qed
  from eq have "unat (of_nat (of_char c) :: cunit) = unat (of_nat (of_char d) :: cunit)" by simp
  then have "(of_char c :: nat) = of_char d"
    using lt[of c] lt[of d] by (simp add: unat_of_nat take_bit_eq_mod)
  then show "c = d" by (simp add: of_char_eq_iff)
qed simp

lemma js_eq_iff [simp]: "js s = js t \<longleftrightarrow> s = t"
proof (induction s arbitrary: t)
  case Nil
  then show ?case by (cases t) (simp_all add: js_def)
next
  case (Cons a s)
  then show ?case by (cases t) (simp_all add: js_def of_nat_char_inj)
qed

lemma js_eq_Nil [simp]: "js s = [] \<longleftrightarrow> s = []" "[] = js s \<longleftrightarrow> s = []"
  by (auto simp: js_def)

lemma js_append: "js (s @ t) = js s @ js t"
  by (simp add: js_def)

lemma length_js [simp]: "length (js s) = length s"
  by (simp add: js_def)

lemma concat_char_strings: "concat (char_strings s) = s"
  by (induction s rule: char_strings.induct) auto

lemma code_points_bound: "c \<in> set (code_points s) \<Longrightarrow> c < 0x110000"
proof (induction s rule: code_points.induct)
  case (2 u)
  then show ?case using unsigned_less[of u, where ?'a = nat] by simp
next
  case (3 u v s)
  have "unat u < 65536" "unat v < 65536" using unsigned_less[of u, where ?'a = nat] unsigned_less[of v, where ?'a = nat] by simp_all
  moreover have "isHigh u \<Longrightarrow> unat u \<le> 0xDBFF" "isLow v \<Longrightarrow> unat v \<le> 0xDFFF"
    by (auto simp: isHigh_def isLow_def word_le_nat_alt)
  ultimately show ?case using "3.IH" "3.prems" by (auto split: if_splits)
qed simp

section \<open>Numbers and values\<close>

datatype jsnum = Fin rat | PosInf | NegInf | NaN

datatype jsval =
    JUndef
  | JNull
  | JBool bool
  | JNum jsnum
  | JStr ustring
  | JArr "jsval list"
  | JObj bool "(ustring \<times> jsval) list"
  | JOther

text \<open>
  \<open>JObj plain props\<close>: \<open>plain\<close> says that the prototype is \<open>Object.prototype\<close> or \<open>null\<close>; \<open>props\<close> are
  the own enumerable string-keyed properties in enumeration order. A hole of a sparse array reads
  as \<open>JUndef\<close>. \<open>JOther\<close> stands for functions, symbols and big integers.
\<close>

definition MAX_SAFE_INTEGER :: rat where
  "MAX_SAFE_INTEGER = 9007199254740991"

fun isSafeInteger :: "jsnum \<Rightarrow> bool" where
  "isSafeInteger (Fin q) \<longleftrightarrow> of_int \<lfloor>q\<rfloor> = q \<and> - MAX_SAFE_INTEGER \<le> q \<and> q \<le> MAX_SAFE_INTEGER"
| "isSafeInteger _ \<longleftrightarrow> False"

fun isFiniteNum :: "jsnum \<Rightarrow> bool" where
  "isFiniteNum (Fin q) \<longleftrightarrow> True"
| "isFiniteNum _ \<longleftrightarrow> False"

fun negativeNum :: "jsnum \<Rightarrow> bool" where
  "negativeNum (Fin q) \<longleftrightarrow> q < 0"
| "negativeNum NegInf \<longleftrightarrow> True"
| "negativeNum _ \<longleftrightarrow> False"

fun natOfNum :: "jsnum \<Rightarrow> nat" where
  "natOfNum (Fin q) = nat \<lfloor>q\<rfloor>"
| "natOfNum _ = 0"

definition jnat :: "nat \<Rightarrow> jsval" where
  "jnat n = JNum (Fin (of_nat n))"

definition safeNat :: "nat \<Rightarrow> bool" where
  "safeNat n \<longleftrightarrow> n \<le> 9007199254740991"

text \<open>\<open>input?.key\<close> on any value: only an object has the own properties the sources ask for.\<close>

fun getProp :: "jsval \<Rightarrow> ustring \<Rightarrow> jsval" where
  "getProp (JObj p ps) k = (case map_of ps k of None \<Rightarrow> JUndef | Some v \<Rightarrow> v)"
| "getProp _ k = JUndef"

fun hasOwn :: "jsval \<Rightarrow> ustring \<Rightarrow> bool" where
  "hasOwn (JObj p ps) k = (map_of ps k \<noteq> None)"
| "hasOwn _ k = False"

text \<open>Values as a JSON parser or an object literal builds them: keys are distinct at every level.\<close>

fun wf_js :: "jsval \<Rightarrow> bool" where
  "wf_js (JArr vs) = list_all wf_js vs"
| "wf_js (JObj p ps) = (distinct (map fst ps) \<and> list_all (\<lambda>(k, v). wf_js v) ps)"
| "wf_js _ = True"

definition jnullable :: "('a \<Rightarrow> jsval) \<Rightarrow> 'a option \<Rightarrow> jsval" where
  "jnullable f x = (case x of None \<Rightarrow> JNull | Some y \<Rightarrow> f y)"

lemma jnat_safe [simp]:
  "isSafeInteger (Fin (of_nat n)) \<longleftrightarrow> safeNat n"
  "natOfNum (Fin (of_nat n)) = n"
proof -
  have "(of_nat n :: rat) \<le> 9007199254740991 \<longleftrightarrow> n \<le> 9007199254740991"
    by (metis of_nat_le_iff of_nat_numeral)
  moreover have "- 9007199254740991 \<le> (of_nat n :: rat)"
    by (rule order_trans[of _ 0]) simp_all
  ultimately show "isSafeInteger (Fin (of_nat n)) \<longleftrightarrow> safeNat n"
    by (simp add: safeNat_def MAX_SAFE_INTEGER_def)
qed simp

lemma natOfNum_safe: "isSafeInteger x \<Longrightarrow> \<not> negativeNum x \<Longrightarrow> safeNat (natOfNum x)"
proof (cases x)
  case (Fin q)
  assume "isSafeInteger x" "\<not> negativeNum x"
  with Fin have "of_int \<lfloor>q\<rfloor> = q" "q \<le> 9007199254740991"
    by (simp_all add: MAX_SAFE_INTEGER_def)
  then have "of_int \<lfloor>q\<rfloor> \<le> (of_int 9007199254740991 :: rat)" by simp
  then have "\<lfloor>q\<rfloor> \<le> 9007199254740991" by (simp only: of_int_le_iff)
  then show ?thesis using Fin by (simp add: safeNat_def nat_le_iff)
qed simp_all

lemma safe_num_of_nat:
  "isSafeInteger x \<Longrightarrow> \<not> negativeNum x \<Longrightarrow> x = Fin (of_nat (natOfNum x))"
proof (cases x)
  case (Fin q)
  assume "isSafeInteger x" "\<not> negativeNum x"
  with Fin obtain z where z: "q = of_int z" "0 \<le> q" by auto
  then have "0 \<le> z" by simp
  then have "(of_nat (nat z) :: rat) = of_int z" by (simp add: of_nat_nat)
  then show ?thesis using Fin z by simp
qed simp_all

lemma not_negative_of_nat [simp]: "\<not> negativeNum (Fin (of_nat n))"
  by simp

declare isSafeInteger.simps(1) [simp del] natOfNum.simps(1) [simp del] negativeNum.simps(1) [simp del]

section \<open>The UTC calendar of Date\<close>

definition dayFromYear :: "int \<Rightarrow> int" where
  "dayFromYear y = 365 * (y - 1970) + (y - 1969) div 4 - (y - 1901) div 100 + (y - 1601) div 400"

definition leapYear :: "int \<Rightarrow> bool" where
  "leapYear y \<longleftrightarrow> y mod 4 = 0 \<and> (y mod 100 \<noteq> 0 \<or> y mod 400 = 0)"

text \<open>Day within the year of the first day of month \<open>m\<close> (0 to 11; 12 gives the year's length).\<close>

definition monthStart :: "bool \<Rightarrow> int \<Rightarrow> int" where
  "monthStart leap m =
     (if m \<le> 0 then 0 else if m = 1 then 31 else
      (if leap then 1 else 0) +
      (if m = 2 then 59 else if m = 3 then 90 else if m = 4 then 120 else if m = 5 then 151
       else if m = 6 then 181 else if m = 7 then 212 else if m = 8 then 243 else if m = 9 then 273
       else if m = 10 then 304 else if m = 11 then 334 else 365))"

definition makeDay :: "int \<Rightarrow> int \<Rightarrow> int \<Rightarrow> int" where
  "makeDay y m d = dayFromYear (y + m div 12) + monthStart (leapYear (y + m div 12)) (m mod 12) + d - 1"

definition yearFromDay :: "int \<Rightarrow> int" where
  "yearFromDay n = (let y = 1970 + (400 * n) div 146097 in
     if dayFromYear (y + 1) \<le> n then y + 1 else if dayFromYear y \<le> n then y else y - 1)"

definition monthFromDay :: "int \<Rightarrow> int" where
  "monthFromDay n = (let y = yearFromDay n; l = leapYear y; w = n - dayFromYear y in
     if w < 31 then 0 else if w < monthStart l 2 then 1 else if w < monthStart l 3 then 2
     else if w < monthStart l 4 then 3 else if w < monthStart l 5 then 4
     else if w < monthStart l 6 then 5 else if w < monthStart l 7 then 6
     else if w < monthStart l 8 then 7 else if w < monthStart l 9 then 8
     else if w < monthStart l 10 then 9 else if w < monthStart l 11 then 10 else 11)"

definition dateFromDay :: "int \<Rightarrow> int" where
  "dateFromDay n = n - dayFromYear (yearFromDay n)
     - monthStart (leapYear (yearFromDay n)) (monthFromDay n) + 1"

definition daysInMonth :: "int \<Rightarrow> int \<Rightarrow> int" where
  "daysInMonth y m = monthStart (leapYear y) (m + 1) - monthStart (leapYear y) m"

lemma div_step:
  fixes x k :: int
  assumes "1 < k"
  shows "(x + 1) div k = x div k + (if (x + 1) mod k = 0 then 1 else 0)"
proof -
  have b: "0 \<le> x mod k" "x mod k < k" using assms by simp_all
  have d: "(x + 1) div k = x div k + (x mod k + 1) div k"
    using div_add1_eq[of x 1 k] assms by simp
  have m: "(x + 1) mod k = (x mod k + 1) mod k" by (simp add: mod_add_left_eq)
  show ?thesis
  proof (cases "x mod k + 1 = k")
    case True
    then show ?thesis using d m assms by simp
  next
    case False
    with b assms have "0 < x mod k + 1" "x mod k + 1 < k" by linarith+
    then show ?thesis using d m by simp
  qed
qed

lemma mod_shift: "c mod k = 0 \<Longrightarrow> (y - c) mod k = y mod k" for y c k :: int
  using mod_diff_right_eq[of y c k] by simp

lemma div_step_shift:
  fixes y c k :: int
  assumes "1 < k" and "c mod k = 0"
  shows "(y - c) div k = (y - (c + 1)) div k + (if y mod k = 0 then 1 else 0)"
proof -
  have e: "y - c = (y - (c + 1)) + 1" by simp
  have "(y - (c + 1) + 1) mod k = y mod k" using mod_shift[OF assms(2), of y] by (simp only: e[symmetric])
  then show ?thesis using div_step[OF assms(1), of "y - (c + 1)"] by (simp only: e[symmetric])
qed

lemma dayFromYear_Suc: "dayFromYear (y + 1) = dayFromYear y + (if leapYear y then 366 else 365)"
proof -
  define A B C where "A = (y - 1969) div 4" and "B = (y - 1901) div 100" and "C = (y - 1601) div 400"
  define p q r where "p \<longleftrightarrow> y mod 4 = 0" and "q \<longleftrightarrow> y mod 100 = 0" and "r \<longleftrightarrow> y mod 400 = 0"
  have m: "r \<Longrightarrow> q" "q \<Longrightarrow> p"
    by (auto simp: p_def q_def r_def mod_eq_0_iff_dvd intro: dvd_trans)
  have d: "(y - 1968) div 4 = A + (if p then 1 else 0)" "(y - 1900) div 100 = B + (if q then 1 else 0)"
    "(y - 1600) div 400 = C + (if r then 1 else 0)"
    unfolding A_def B_def C_def p_def q_def r_def
    by (rule div_step_shift[of 4 1968 y, simplified] div_step_shift[of 100 1900 y, simplified]
        div_step_shift[of 400 1600 y, simplified])+
  have "dayFromYear (y + 1)
      = 365 * (y - 1969) + (y - 1968) div 4 - (y - 1900) div 100 + (y - 1600) div 400"
    by (simp add: dayFromYear_def del: div_mult_self1 div_mult_self2)
  also have "\<dots> = 365 * (y - 1969) + (A + (if p then 1 else 0)) - (B + (if q then 1 else 0))
      + (C + (if r then 1 else 0))"
    by (simp only: d)
  also have "\<dots> = 365 * (y - 1970) + A - B + C + (if p \<and> (\<not> q \<or> r) then 366 else 365)"
    using m by (cases p; cases q; cases r) simp_all
  finally show ?thesis
    by (simp only: dayFromYear_def leapYear_def A_def B_def C_def p_def q_def r_def)
qed

lemma dayFromYear_mono: "y \<le> z \<Longrightarrow> dayFromYear y \<le> dayFromYear z"
proof (induction z rule: int_ge_induct)
  case (step i)
  then show ?case by (simp add: dayFromYear_Suc split: if_splits)
qed simp

lemma dayFromYear_estimate:
  assumes "146097 * q \<le> 400 * n" and "400 * n < 146097 * q + 146097"
  shows "dayFromYear (1970 + q - 1) \<le> n" and "n < dayFromYear (1970 + q + 2)"
proof -
  obtain a b c where abc: "q div 4 = a" "(q + 68) div 100 = b" "(q + 368) div 400 = c" by blast
  have "4 * a \<le> q" "q + 68 < 100 * b + 100" "400 * c \<le> q + 368" using abc by linarith+
  moreover have "dayFromYear (1970 + q - 1) = 365 * (q - 1) + a - b + c"
    using abc by (simp add: dayFromYear_def add.commute)
  ultimately show "dayFromYear (1970 + q - 1) \<le> n" using assms by (simp add: algebra_simps)
next
  obtain a b c where abc: "(q + 3) div 4 = a" "(q + 71) div 100 = b" "(q + 371) div 400 = c" by blast
  have "q + 3 < 4 * a + 4" "100 * b \<le> q + 71" "q + 371 < 400 * c + 400" using abc by linarith+
  moreover have "dayFromYear (1970 + q + 2) = 365 * (q + 2) + a - b + c"
    using abc by (simp add: dayFromYear_def add.commute)
  ultimately show "n < dayFromYear (1970 + q + 2)" using assms by (simp add: algebra_simps)
qed

lemma yearFromDay_bounds:
  "dayFromYear (yearFromDay n) \<le> n \<and> n < dayFromYear (yearFromDay n + 1)"
proof -
  define q where "q = (400 * n) div 146097"
  have "146097 * q \<le> 400 * n" "400 * n < 146097 * q + 146097"
    using pos_mod_bound[of 146097 "400 * n"] pos_mod_sign[of 146097 "400 * n"]
      mult_div_mod_eq[of 146097 "400 * n"] by (simp_all add: q_def)
  from dayFromYear_estimate[OF this] show ?thesis
    by (auto simp: yearFromDay_def Let_def q_def[symmetric] add.commute)
qed

lemma yearFromDay_unique: "dayFromYear y \<le> n \<Longrightarrow> n < dayFromYear (y + 1) \<Longrightarrow> yearFromDay n = y"
  using yearFromDay_bounds[of n] dayFromYear_mono[of "yearFromDay n + 1" y]
    dayFromYear_mono[of "y + 1" "yearFromDay n"] by linarith

lemma monthStart_values [simp]:
  "monthStart l 0 = 0" "monthStart l 1 = 31"
  "monthStart l 12 = (if l then 366 else 365)"
  by (simp_all add: monthStart_def)

lemma month_cases:
  fixes m :: int
  assumes "0 \<le> m" and "m \<le> 11"
  shows "m = 0 \<or> m = 1 \<or> m = 2 \<or> m = 3 \<or> m = 4 \<or> m = 5 \<or> m = 6 \<or> m = 7 \<or> m = 8 \<or> m = 9 \<or> m = 10 \<or> m = 11"
  using assms by presburger

lemma monthFromDay_range: "0 \<le> monthFromDay n \<and> monthFromDay n \<le> 11"
  by (simp add: monthFromDay_def Let_def)

lemma day_in_year: "0 \<le> n - dayFromYear (yearFromDay n)"
    "n - dayFromYear (yearFromDay n) < (if leapYear (yearFromDay n) then 366 else 365)"
  using yearFromDay_bounds[of n] dayFromYear_Suc[of "yearFromDay n"] by (auto split: if_splits)

lemma dateFromDay_range:
  "1 \<le> dateFromDay n \<and> dateFromDay n \<le> daysInMonth (yearFromDay n) (monthFromDay n)"
proof -
  define w l where "w = n - dayFromYear (yearFromDay n)" and "l = leapYear (yearFromDay n)"
  have w: "0 \<le> w" "w < (if l then 366 else 365)" using day_in_year[of n] by (simp_all add: w_def l_def)
  have "monthStart l (monthFromDay n) \<le> w \<and> w < monthStart l (monthFromDay n + 1)"
  proof -
    obtain m where m: "monthFromDay n = m" by blast
    have c: "m = (if w < 31 then 0 else if w < monthStart l 2 then 1 else if w < monthStart l 3 then 2
     else if w < monthStart l 4 then 3 else if w < monthStart l 5 then 4
     else if w < monthStart l 6 then 5 else if w < monthStart l 7 then 6
     else if w < monthStart l 8 then 7 else if w < monthStart l 9 then 8
     else if w < monthStart l 10 then 9 else if w < monthStart l 11 then 10 else 11)"
      unfolding m[symmetric] monthFromDay_def Let_def w_def l_def by (rule refl)
    have "monthStart l m \<le> w \<and> w < monthStart l (m + 1)"
    proof (cases l)
      case True
      then show ?thesis using w c by (simp add: monthStart_def split: if_split_asm)
    next
      case False
      then show ?thesis using w c by (simp add: monthStart_def split: if_split_asm)
    qed
    then show ?thesis by (simp add: m)
  qed
  then show ?thesis by (simp add: dateFromDay_def daysInMonth_def w_def l_def)
qed

lemma monthStart_bounds:
  assumes "0 \<le> m" and "m \<le> 11"
  shows "0 \<le> monthStart l m \<and> monthStart l (m + 1) \<le> monthStart l 12 \<and> monthStart l m < monthStart l (m + 1)"
  using month_cases[OF assms] by (auto simp: monthStart_def)

lemma monthFromDay_unique:
  assumes m: "0 \<le> m" "m \<le> 11" and y: "yearFromDay n = y"
    and w: "monthStart (leapYear y) m \<le> n - dayFromYear y" "n - dayFromYear y < monthStart (leapYear y) (m + 1)"
  shows "monthFromDay n = m"
proof -
  obtain w' where w': "n - dayFromYear y = w'" by blast
  show ?thesis
    using w month_cases[OF m] unfolding monthFromDay_def Let_def y w'
    by (cases "leapYear y"; elim disjE; simp add: monthStart_def)
qed

lemma makeDay_roundtrip:
  assumes m: "0 \<le> m" "m \<le> 11" and d: "1 \<le> d" "d \<le> daysInMonth y m"
  shows "yearFromDay (makeDay y m d) = y \<and> monthFromDay (makeDay y m d) = m \<and> dateFromDay (makeDay y m d) = d"
proof -
  let ?n = "makeDay y m d"
  have n: "?n = dayFromYear y + monthStart (leapYear y) m + d - 1" using m by (simp add: makeDay_def)
  have b: "monthStart (leapYear y) m \<le> ?n - dayFromYear y" "?n - dayFromYear y < monthStart (leapYear y) (m + 1)"
    using d by (simp_all add: n daysInMonth_def)
  have yr: "yearFromDay ?n = y"
    using b monthStart_bounds[OF m, of "leapYear y"] dayFromYear_Suc[of y]
    by (intro yearFromDay_unique) (simp_all split: if_splits)
  have mo: "monthFromDay ?n = m" by (rule monthFromDay_unique[OF m yr b])
  show ?thesis using yr mo by (simp add: dateFromDay_def n)
qed

text \<open>A UTC date-time in seconds and the six fields a \<open>Date\<close> reads back from it.\<close>

definition utcSeconds :: "int \<Rightarrow> int \<Rightarrow> int \<Rightarrow> int \<Rightarrow> int \<Rightarrow> int \<Rightarrow> int" where
  "utcSeconds y m d h mi s = 86400 * makeDay y m d + (3600 * h + 60 * mi + s)"

definition utcDay :: "int \<Rightarrow> int" where "utcDay t = t div 86400"
definition getUTCFullYear :: "int \<Rightarrow> int" where "getUTCFullYear t = yearFromDay (utcDay t)"
definition getUTCMonth :: "int \<Rightarrow> int" where "getUTCMonth t = monthFromDay (utcDay t)"
definition getUTCDate :: "int \<Rightarrow> int" where "getUTCDate t = dateFromDay (utcDay t)"
definition getUTCHours :: "int \<Rightarrow> int" where "getUTCHours t = t div 3600 mod 24"
definition getUTCMinutes :: "int \<Rightarrow> int" where "getUTCMinutes t = t div 60 mod 60"
definition getUTCSeconds :: "int \<Rightarrow> int" where "getUTCSeconds t = t mod 60"

lemmas utc_defs = getUTCFullYear_def getUTCMonth_def getUTCDate_def getUTCHours_def
  getUTCMinutes_def getUTCSeconds_def

lemma utcSeconds_time_fields:
  assumes "0 \<le> h" "h < 24" "0 \<le> mi" "mi < 60" "0 \<le> s" "s < 60"
  shows "utcDay (utcSeconds y m d h mi s) = makeDay y m d"
    "getUTCHours (utcSeconds y m d h mi s) = h"
    "getUTCMinutes (utcSeconds y m d h mi s) = mi"
    "getUTCSeconds (utcSeconds y m d h mi s) = s"
proof -
  obtain D where D: "makeDay y m d = D" by blast
  have "0 \<le> 3600 * h + 60 * mi + s" "3600 * h + 60 * mi + s < 86400" using assms by linarith+
  then show "utcDay (utcSeconds y m d h mi s) = makeDay y m d"
    by (simp add: utcDay_def utcSeconds_def D)
  have h: "(86400 * D + (3600 * h + 60 * mi + s)) div 3600 = 24 * D + h"
  proof -
    have "86400 * D + (3600 * h + 60 * mi + s) = (60 * mi + s) + (24 * D + h) * 3600" by simp
    moreover have "(60 * mi + s) div 3600 = 0" using assms by (intro div_pos_pos_trivial) linarith+
    ultimately show ?thesis by (simp add: div_mult_self1)
  qed
  have mi: "(86400 * D + (3600 * h + 60 * mi + s)) div 60 = (24 * D + h) * 60 + mi"
  proof -
    have "86400 * D + (3600 * h + 60 * mi + s) = s + ((24 * D + h) * 60 + mi) * 60" by simp
    moreover have "s div 60 = 0" using assms by (intro div_pos_pos_trivial) linarith+
    ultimately show ?thesis by (simp add: div_mult_self1)
  qed
  show "getUTCHours (utcSeconds y m d h mi s) = h"
    using assms by (simp add: getUTCHours_def utcSeconds_def D h)
  show "getUTCMinutes (utcSeconds y m d h mi s) = mi"
  proof -
    have "getUTCMinutes (utcSeconds y m d h mi s) = ((24 * D + h) * 60 + mi) mod 60"
      unfolding getUTCMinutes_def utcSeconds_def D mi by (rule refl)
    also have "\<dots> = (mi + (24 * D + h) * 60) mod 60" by (simp only: add.commute)
    also have "\<dots> = mi" using assms by (simp only: mod_mult_self1) simp
    finally show ?thesis .
  qed
  have "86400 * D + (3600 * h + 60 * mi + s) = s + ((24 * D + h) * 60 + mi) * 60" by simp
  then show "getUTCSeconds (utcSeconds y m d h mi s) = s"
    using assms by (simp only: getUTCSeconds_def utcSeconds_def D mod_mult_self1) simp
qed

text \<open>The read-back comparison of the timestamp readers accepts exactly the calendar's date-times.\<close>

lemma utc_readback_iff:
  fixes y m d h mi s :: int
  assumes "0 \<le> h" "0 \<le> mi" "0 \<le> s"
  defines "t \<equiv> utcSeconds y m d h mi s"
  shows "(getUTCFullYear t = y \<and> getUTCMonth t = m \<and> getUTCDate t = d \<and> getUTCHours t = h
      \<and> getUTCMinutes t = mi \<and> getUTCSeconds t = s)
    \<longleftrightarrow> 0 \<le> m \<and> m \<le> 11 \<and> 1 \<le> d \<and> d \<le> daysInMonth y m \<and> h < 24 \<and> mi < 60 \<and> s < 60"
    (is "?readback \<longleftrightarrow> ?valid")
proof
  assume b: ?readback
  have "h < 24" "mi < 60" "s < 60"
    using b pos_mod_bound[of 24 "t div 3600"] pos_mod_bound[of 60 "t div 60"] pos_mod_bound[of 60 t]
    by (simp_all add: utc_defs)
  then show ?valid
    using b monthFromDay_range[of "utcDay t"] dateFromDay_range[of "utcDay t"]
    by (auto simp: getUTCFullYear_def getUTCMonth_def getUTCDate_def)
next
  assume v: ?valid
  then show ?readback
    using utcSeconds_time_fields[OF assms(1) _ assms(2) _ assms(3)] makeDay_roundtrip[of m d y]
    by (simp add: t_def getUTCFullYear_def getUTCMonth_def getUTCDate_def)
qed

end
