(* ===== verification/MsgDecode.thy ===== *)
theory MsgDecode
  imports JsValue
begin

text \<open>
  The strict decoding primitives of the messaging contracts
  (\<^verbatim>\<open>packages/contracts/src/messaging/decode.ts\<close> and \<^verbatim>\<open>ids.ts\<close>). A reader that throws
  \<open>DecodeFailure\<close> is a function into \<open>decodeFailure + 'a\<close>; \<open>decodeWith\<close>, which turns the first
  failure into a result, is then the identity. The lemmas characterise every primitive by the values
  it accepts, so that decoders built from them are inverted by simplification.
\<close>

section \<open>Failures and readers\<close>

datatype decodeErrorCode =
    Not_object | Unknown_field | Missing_field | Wrong_type | Empty | Too_long | Too_deep
  | Control_character | Malformed_unicode | Unsupported_version | Unsafe_integer | Invalid_value
  | Invalid_limits | Duplicate | Mismatch | Digest_unavailable

datatype decodeFailure = DecodeFailure (path: ustring) (code: decodeErrorCode)

type_synonym 'a decoded = "decodeFailure + 'a"

definition fail :: "ustring \<Rightarrow> decodeErrorCode \<Rightarrow> 'a decoded" where
  "fail p c = Inl (DecodeFailure p c)"

definition check :: "bool \<Rightarrow> ustring \<Rightarrow> decodeErrorCode \<Rightarrow> unit decoded" where
  "check b p c = (if b then Inr () else fail p c)"

definition joinPath :: "ustring \<Rightarrow> ustring \<Rightarrow> ustring" where
  "joinPath p k = (if p = [] then k else p @ js ''.'' @ k)"

definition elementPath :: "ustring \<Rightarrow> nat \<Rightarrow> ustring" where
  "elementPath p i = p @ js ''['' @ dec_digits i @ js '']''"

record reader =
  rdPath :: ustring
  rdProps :: "(ustring \<times> jsval) list"

definition field :: "reader \<Rightarrow> string \<Rightarrow> jsval" where
  "field r k = (case map_of (rdProps r) (js k) of None \<Rightarrow> JUndef | Some v \<Rightarrow> v)"

definition atPath :: "reader \<Rightarrow> string \<Rightarrow> ustring" where
  "atPath r k = joinPath (rdPath r) (js k)"

text \<open>A plain object carrying exactly \<open>keys\<close>: the first unknown key in enumeration order fails,
  then the first missing key in the order of \<open>keys\<close>.\<close>

definition object :: "jsval \<Rightarrow> ustring \<Rightarrow> string list \<Rightarrow> reader decoded" where
  "object input p keys =
     (case input of
        JObj plain props \<Rightarrow>
          if \<not> plain then fail p Not_object
          else case find (\<lambda>k. k \<notin> set (map js keys)) (map fst props) of
            Some k \<Rightarrow> fail (joinPath p k) Unknown_field
          | None \<Rightarrow> (case find (\<lambda>k. map_of props (js k) = None) keys of
              Some k \<Rightarrow> fail (joinPath p (js k)) Missing_field
            | None \<Rightarrow> Inr \<lparr>rdPath = p, rdProps = props\<rparr>)
      | _ \<Rightarrow> fail p Not_object)"

definition array :: "jsval \<Rightarrow> ustring \<Rightarrow> jsval list decoded" where
  "array input p = (case input of JArr vs \<Rightarrow> Inr vs | _ \<Rightarrow> fail p Wrong_type)"

section \<open>Strings\<close>

definition utf8Length :: "ustring \<Rightarrow> nat" where
  "utf8Length s = sum_list (map (\<lambda>c. if c < 0x80 then 1 else if c < 0x800 then 2
     else if c < 0x10000 then 3 else 4) (code_points s))"

fun isWellFormed :: "ustring \<Rightarrow> bool" where
  "isWellFormed [] = True"
| "isWellFormed (u # s) =
     (if isHigh u then (case s of [] \<Rightarrow> False | v # t \<Rightarrow> if isLow v then isWellFormed t else False)
      else if isLow u then False
      else isWellFormed s)"

definition isControl :: "cunit \<Rightarrow> bool" where
  "isControl u \<longleftrightarrow> u \<le> 0x1F \<or> (0x7F \<le> u \<and> u \<le> 0x9F)"

definition isInvisible :: "cunit \<Rightarrow> bool" where
  "isInvisible u \<longleftrightarrow> u = 0x061C \<or> u = 0x200B \<or> u = 0x200E \<or> u = 0x200F
     \<or> (0x202A \<le> u \<and> u \<le> 0x202E) \<or> u = 0x2060 \<or> (0x2066 \<le> u \<and> u \<le> 0x2069) \<or> u = 0xFEFF"

definition textField :: "jsval \<Rightarrow> ustring \<Rightarrow> jsnum \<Rightarrow> ustring decoded" where
  "textField input p maxBytes =
     (case input of
        JStr s \<Rightarrow>
          if \<not> isSafeInteger maxBytes \<or> negativeNum maxBytes then fail p Invalid_limits
          else if \<not> isWellFormed s then fail p Malformed_unicode
          else if natOfNum maxBytes < utf8Length s then fail p Too_long
          else if 0 \<in> set s then fail p Control_character
          else Inr s
      | _ \<Rightarrow> fail p Wrong_type)"

definition label :: "jsval \<Rightarrow> ustring \<Rightarrow> jsnum \<Rightarrow> ustring decoded" where
  "label input p maxBytes = bindE (textField input p maxBytes) (\<lambda>value.
     if list_ex isControl value then fail p Control_character else Inr value)"

definition displayText :: "jsval \<Rightarrow> ustring \<Rightarrow> jsnum \<Rightarrow> ustring decoded" where
  "displayText input p maxBytes = bindE (label input p maxBytes) (\<lambda>value.
     if list_ex isInvisible value then fail p Control_character else Inr value)"

definition MAX_IDENTIFIER_BYTES :: nat where
  "MAX_IDENTIFIER_BYTES = 512"

definition identifierField :: "jsval \<Rightarrow> ustring \<Rightarrow> ustring decoded" where
  "identifierField input p = bindE (label input p (Fin (of_nat MAX_IDENTIFIER_BYTES))) (\<lambda>value.
     if length value = 0 then fail p Empty else Inr value)"

definition readId :: "jsval \<Rightarrow> ustring \<Rightarrow> ustring decoded" where
  "readId input p = identifierField input p"

definition idDecoder :: "jsval \<Rightarrow> ustring decoded" where
  "idDecoder input = readId input []"

definition nullable :: "jsval \<Rightarrow> (jsval \<Rightarrow> 'a decoded) \<Rightarrow> 'a option decoded" where
  "nullable input read = (if input = JNull then Inr None else bindE (read input) (\<lambda>x. Inr (Some x)))"

text \<open>A string literal union: \<open>allowed\<close> pairs each source literal with its constructor.\<close>

definition literal :: "jsval \<Rightarrow> ustring \<Rightarrow> (string \<times> 'a) list \<Rightarrow> 'a decoded" where
  "literal input p allowed =
     (case input of
        JStr s \<Rightarrow> (case map_of (map (\<lambda>(k, v). (js k, v)) allowed) s of
            Some v \<Rightarrow> Inr v
          | None \<Rightarrow> fail p Invalid_value)
      | _ \<Rightarrow> fail p Wrong_type)"

definition version :: "jsval \<Rightarrow> ustring \<Rightarrow> unit decoded" where
  "version input p = (if input = JNum (Fin 1) then Inr () else fail p Unsupported_version)"

definition safeInteger :: "jsval \<Rightarrow> ustring \<Rightarrow> nat decoded" where
  "safeInteger input p =
     (case input of
        JNum x \<Rightarrow>
          if \<not> isSafeInteger x then fail p Unsafe_integer
          else if negativeNum x then fail p Invalid_value
          else Inr (natOfNum x)
      | _ \<Rightarrow> fail p Wrong_type)"

section \<open>Timestamps\<close>

text \<open>The regular expression \<open>^(\d{4})-(\d{2})-(\d{2})T(\d{2}):(\d{2}):(\d{2})(?:\.\d{1,9})?Z$\<close>.\<close>

definition fractionSuffix :: "ustring \<Rightarrow> bool" where
  "fractionSuffix s \<longleftrightarrow> s = js ''Z'' \<or>
     (\<exists>ds \<in> set (map (\<lambda>n. take n (tl s)) [1..<10]).
        list_all isDigit ds \<and> ds \<noteq> [] \<and> s = js ''.'' @ ds @ js ''Z'')"

fun matchTimestamp :: "ustring \<Rightarrow> (nat \<times> nat \<times> nat \<times> nat \<times> nat \<times> nat) option" where
  "matchTimestamp (y1 # y2 # y3 # y4 # c1 # m1 # m2 # c2 # d1 # d2 # c3 # h1 # h2 # c4 # i1 # i2 # c5 # s1 # s2 # rest) =
     (if list_all isDigit [y1, y2, y3, y4, m1, m2, d1, d2, h1, h2, i1, i2, s1, s2]
         \<and> [c1, c2, c3, c4, c5] = js ''--T::'' \<and> fractionSuffix rest
      then Some (digitsVal [y1, y2, y3, y4], digitsVal [m1, m2], digitsVal [d1, d2],
                 digitsVal [h1, h2], digitsVal [i1, i2], digitsVal [s1, s2])
      else None)"
| "matchTimestamp _ = None"

definition readbackOk :: "nat \<times> nat \<times> nat \<times> nat \<times> nat \<times> nat \<Rightarrow> bool" where
  "readbackOk parts = (case parts of (year, month, day, hour, minute, second) \<Rightarrow>
     let t = utcSeconds (int year) (int month - 1) (int day) (int hour) (int minute) (int second) in
     getUTCFullYear t = int year \<and> getUTCMonth t = int month - 1 \<and> getUTCDate t = int day
     \<and> getUTCHours t = int hour \<and> getUTCMinutes t = int minute \<and> getUTCSeconds t = int second)"

definition utcTimestamp :: "jsval \<Rightarrow> ustring \<Rightarrow> ustring decoded" where
  "utcTimestamp input p =
     (case input of
        JStr s \<Rightarrow>
          (case matchTimestamp s of
             None \<Rightarrow> fail p Invalid_value
           | Some parts \<Rightarrow> if readbackOk parts then Inr s else fail p Invalid_value)
      | _ \<Rightarrow> fail p Wrong_type)"

section \<open>Content limits\<close>

record contentLimits =
  maxBodyBytes :: nat
  maxDisplayNameBytes :: nat
  maxRoomTitleBytes :: nat

definition positiveLimit :: "reader \<Rightarrow> string \<Rightarrow> nat decoded" where
  "positiveLimit r key = bindE (safeInteger (field r key) (atPath r key)) (\<lambda>value.
     if value = 0 then fail (atPath r key) Invalid_value else Inr value)"

definition decodeContentLimits :: "jsval \<Rightarrow> contentLimits decoded" where
  "decodeContentLimits input =
     bindE (object input [] [''maxBodyBytes'', ''maxDisplayNameBytes'', ''maxRoomTitleBytes'']) (\<lambda>r.
     bindE (positiveLimit r ''maxBodyBytes'') (\<lambda>b.
     bindE (positiveLimit r ''maxDisplayNameBytes'') (\<lambda>d.
     bindE (positiveLimit r ''maxRoomTitleBytes'') (\<lambda>t.
     Inr \<lparr>maxBodyBytes = b, maxDisplayNameBytes = d, maxRoomTitleBytes = t\<rparr>))))"

section \<open>What each primitive accepts\<close>

definition wfText :: "nat \<Rightarrow> ustring \<Rightarrow> bool" where
  "wfText n s \<longleftrightarrow> isWellFormed s \<and> utf8Length s \<le> n \<and> 0 \<notin> set s"

definition wfLabel :: "nat \<Rightarrow> ustring \<Rightarrow> bool" where
  "wfLabel n s \<longleftrightarrow> wfText n s \<and> (\<forall>u \<in> set s. \<not> isControl u)"

definition wfDisplay :: "nat \<Rightarrow> ustring \<Rightarrow> bool" where
  "wfDisplay n s \<longleftrightarrow> wfLabel n s \<and> (\<forall>u \<in> set s. \<not> isInvisible u)"

definition wfId :: "ustring \<Rightarrow> bool" where
  "wfId s \<longleftrightarrow> wfLabel MAX_IDENTIFIER_BYTES s \<and> s \<noteq> []"

definition wfTimestamp :: "ustring \<Rightarrow> bool" where
  "wfTimestamp s \<longleftrightarrow> (case matchTimestamp s of
     Some (y, m, d, h, mi, sec) \<Rightarrow> 1 \<le> m \<and> m \<le> 12 \<and> 1 \<le> d \<and> int d \<le> daysInMonth (int y) (int m - 1)
       \<and> h < 24 \<and> mi < 60 \<and> sec < 60
   | None \<Rightarrow> False)"

lemma fail_simps [simp]: "fail p c \<noteq> Inr x" "Inr x \<noteq> fail p c"
  by (simp_all add: fail_def)

lemma fail_eq_fail [simp]: "(fail p c = fail q d) \<longleftrightarrow> p = q \<and> c = d"
  by (simp add: fail_def)

lemma check_eq_Inr [result_simps]: "check b p c = Inr u \<longleftrightarrow> b"
  by (simp add: check_def)

lemma object_eq_Inr [result_simps]:
  "object input p keys = Inr r \<longleftrightarrow>
     (\<exists>props. input = JObj True props \<and> fst ` set props = js ` set keys
        \<and> r = \<lparr>rdPath = p, rdProps = props\<rparr>)"
proof (cases input)
  case (JObj plain props)
  have u: "find (\<lambda>k. k \<notin> set (map js keys)) (map fst props) = None \<longleftrightarrow> fst ` set props \<subseteq> js ` set keys"
    by (auto simp: find_None_iff)
  have m: "find (\<lambda>k. map_of props (js k) = None) keys = None \<longleftrightarrow> js ` set keys \<subseteq> fst ` set props"
    by (auto simp: find_None_iff map_of_eq_None_iff)
  have "object input p keys = Inr r \<longleftrightarrow> plain
      \<and> find (\<lambda>k. k \<notin> set (map js keys)) (map fst props) = None
      \<and> find (\<lambda>k. map_of props (js k) = None) keys = None \<and> r = \<lparr>rdPath = p, rdProps = props\<rparr>"
    unfolding object_def JObj by (simp split: option.split) auto
  then show ?thesis unfolding u m using JObj by auto
qed (simp_all add: object_def)

lemma array_eq_Inr [result_simps]: "array input p = Inr vs \<longleftrightarrow> input = JArr vs"
  by (auto simp: array_def split: jsval.splits)

lemma textField_eq_Inr [result_simps]:
  "textField input p x = Inr s \<longleftrightarrow>
     input = JStr s \<and> isSafeInteger x \<and> \<not> negativeNum x \<and> wfText (natOfNum x) s"
  by (auto simp: textField_def wfText_def split: jsval.splits if_splits)

lemma label_eq_Inr [result_simps]:
  "label input p x = Inr s \<longleftrightarrow>
     input = JStr s \<and> isSafeInteger x \<and> \<not> negativeNum x \<and> wfLabel (natOfNum x) s"
  by (auto simp: label_def result_simps wfLabel_def list_ex_iff)

lemma displayText_eq_Inr [result_simps]:
  "displayText input p x = Inr s \<longleftrightarrow>
     input = JStr s \<and> isSafeInteger x \<and> \<not> negativeNum x \<and> wfDisplay (natOfNum x) s"
  by (auto simp: displayText_def result_simps wfDisplay_def list_ex_iff)

lemma identifier_eq_Inr [result_simps]:
  "identifierField input p = Inr s \<longleftrightarrow> input = JStr s \<and> wfId s"
proof -
  have "safeNat MAX_IDENTIFIER_BYTES" by (simp add: safeNat_def MAX_IDENTIFIER_BYTES_def)
  then show ?thesis
    unfolding identifierField_def bindE_eq_Inr label_eq_Inr by (auto simp: wfId_def)
qed

lemma readId_eq_Inr [result_simps]: "readId input p = Inr s \<longleftrightarrow> input = JStr s \<and> wfId s"
  by (simp add: readId_def result_simps)

lemma nullable_eq_Inr [result_simps]:
  "nullable input read = Inr x \<longleftrightarrow>
     (if input = JNull then x = None else (\<exists>y. read input = Inr y \<and> x = Some y))"
  by (auto simp: nullable_def result_simps)

lemma literal_eq_Inr [result_simps]:
  "literal input p allowed = Inr v \<longleftrightarrow>
     (\<exists>s. input = JStr s \<and> map_of (map (\<lambda>(k, v). (js k, v)) allowed) s = Some v)"
  by (auto simp: literal_def split: jsval.splits option.splits)

lemma version_eq_Inr [result_simps]: "version input p = Inr u \<longleftrightarrow> input = jnat 1"
  by (simp add: version_def jnat_def)

lemma safeInteger_eq_Inr [result_simps]:
  "safeInteger input p = Inr n \<longleftrightarrow> input = jnat n \<and> safeNat n"
proof
  assume "safeInteger input p = Inr n"
  then obtain x where "input = JNum x" "isSafeInteger x" "\<not> negativeNum x" "n = natOfNum x"
    by (auto simp: safeInteger_def split: jsval.splits if_splits)
  then show "input = jnat n \<and> safeNat n"
    using safe_num_of_nat[of x] natOfNum_safe[of x] by (simp add: jnat_def)
next
  assume "input = jnat n \<and> safeNat n"
  then show "safeInteger input p = Inr n" by (simp add: safeInteger_def jnat_def)
qed

lemma readbackOk_iff:
  "readbackOk (y, m, d, h, mi, s) \<longleftrightarrow> 1 \<le> m \<and> m \<le> 12 \<and> 1 \<le> d \<and> int d \<le> daysInMonth (int y) (int m - 1)
     \<and> h < 24 \<and> mi < 60 \<and> s < 60"
  using utc_readback_iff[of "int h" "int mi" "int s" "int y" "int m - 1" "int d"]
  by (auto simp: readbackOk_def Let_def)

lemma utcTimestamp_eq_Inr [result_simps]:
  "utcTimestamp input p = Inr s \<longleftrightarrow> input = JStr s \<and> wfTimestamp s"
  by (auto simp: utcTimestamp_def wfTimestamp_def readbackOk_iff split: jsval.splits option.splits)

lemma jsval_neq_simps [simp]: "jnat n \<noteq> JNull" "jnat n \<noteq> JUndef" "JNull \<noteq> jnat n"
  by (simp_all add: jnat_def)

lemma jnat_inject [simp]: "jnat m = jnat n \<longleftrightarrow> m = n"
  by (simp add: jnat_def)

section \<open>Literal unions\<close>

definition litStr :: "(string \<times> 'a) list \<Rightarrow> 'a \<Rightarrow> string" where
  "litStr ls v = the (map_of (map (\<lambda>(k, v). (v, k)) ls) v)"

lemma map_of_literals:
  assumes "distinct (map fst ls)" and "distinct (map snd ls)" and "set (map snd ls) = UNIV"
  shows "map_of (map (\<lambda>(k, v). (js k, v)) ls) s = Some v \<longleftrightarrow> s = js (litStr ls v)"
proof -
  have d: "distinct (map fst (map (\<lambda>(k, v). (js k, v)) ls))"
  proof -
    have "map fst (map (\<lambda>(k, v). (js k, v)) ls) = map js (map fst ls)" by (simp add: case_prod_beta)
    then show ?thesis using assms(1) by (simp only: distinct_map) (simp add: inj_on_def)
  qed
  have i: "map_of (map (\<lambda>(k, v). (js k, v)) ls) s = Some v \<longleftrightarrow> (\<exists>k. s = js k \<and> (k, v) \<in> set ls)"
    using d by (subst map_of_eq_Some_iff) auto
  have d2: "distinct (map fst (map (\<lambda>(k, v). (v, k)) ls))"
    using assms(2) by (auto simp: comp_def case_prod_beta)
  obtain k where k: "(k, v) \<in> set ls" 
  proof -
    have "v \<in> set (map snd ls)" using assms(3) by simp
    then show ?thesis using that by auto
  qed
  then have "map_of (map (\<lambda>(k, v). (v, k)) ls) v = Some k"
    using d2 by (subst map_of_eq_Some_iff) force+
  then have l: "litStr ls v = k" by (simp add: litStr_def)
  have u: "(k', v) \<in> set ls \<Longrightarrow> k' = k" for k'
    using inj_onD[of snd "set ls" "(k', v)" "(k, v)"] k assms(2) by (simp add: distinct_map)
  show ?thesis unfolding i l using u k by blast
qed

lemma map_of_literals_butlast:
  assumes "distinct (map fst (ls @ [(k, w)]))" and "distinct (map snd (ls @ [(k, w)]))"
    and "set (map snd (ls @ [(k, w)])) = UNIV"
  shows "map_of (map (\<lambda>(k, v). (js k, v)) ls) s = Some v \<longleftrightarrow> s = js (litStr (ls @ [(k, w)]) v) \<and> v \<noteq> w"
proof -
  let ?f = "map (\<lambda>(k, v). (js k, v))"
  have "map_of (?f ls) (js k) = None" using assms(1) by (force simp: map_of_eq_None_iff)
  moreover have "map_of (?f ls) s \<noteq> Some w" using assms(2) by (force dest!: map_of_SomeD)
  ultimately have "map_of (?f ls) s = Some v \<longleftrightarrow> map_of (?f (ls @ [(k, w)])) s = Some v \<and> v \<noteq> w"
    by (auto simp: map_add_def split: option.splits if_splits)
  then show ?thesis by (simp only: map_of_literals[OF assms])
qed

section \<open>Exact objects\<close>

text \<open>The shape every strict decoder asks for, and the reader over it.\<close>

definition exactObject :: "jsval \<Rightarrow> string list \<Rightarrow> bool" where
  "exactObject j keys \<longleftrightarrow> (\<exists>props. j = JObj True props \<and> fst ` set props = js ` set keys)"

definition propOf :: "jsval \<Rightarrow> string \<Rightarrow> jsval" where
  "propOf j k = getProp j (js k)"

lemma object_iff:
  "object j p keys = Inr r \<longleftrightarrow> exactObject j keys \<and> rdPath r = p
     \<and> (\<exists>props. j = JObj True props \<and> rdProps r = props)"
  by (cases r) (auto simp: object_eq_Inr exactObject_def)

lemma object_reads:
  assumes "object j p keys = Inr r"
  shows "exactObject j keys" and "field r k = propOf j k" and "atPath r k = joinPath p (js k)"
  using assms by (auto simp: object_eq_Inr exactObject_def field_def propOf_def atPath_def)

text \<open>A decoder that opens an object and reads its fields succeeds iff the shape is exact and the
  reading succeeds on the reader made from it.\<close>

definition readerOf :: "jsval \<Rightarrow> ustring \<Rightarrow> reader" where
  "readerOf j p = \<lparr>rdPath = p, rdProps = (case j of JObj _ ps \<Rightarrow> ps | _ \<Rightarrow> [])\<rparr>"

lemma bind_object_iff:
  "bindE (object j p keys) f = Inr x \<longleftrightarrow> exactObject j keys \<and> f (readerOf j p) = Inr x"
  by (auto simp: bindE_eq_Inr object_eq_Inr exactObject_def readerOf_def)

lemma readerOf_simps [simp]:
  "exactObject j keys \<Longrightarrow> field (readerOf j p) k = propOf j k"
  "atPath (readerOf j p) k = joinPath p (js k)"
  by (auto simp: exactObject_def readerOf_def field_def propOf_def atPath_def)

lemma field_readerOf [simp]: "field (readerOf j p) k = propOf j k"
  by (cases j) (simp_all add: readerOf_def field_def propOf_def)

lemma jnullable_simps [simp]:
  "jnullable f None = JNull" "jnullable f (Some x) = f x"
  by (simp_all add: jnullable_def)

lemma nullable_id_iff:
  "nullable j (\<lambda>v. readId v p) = Inr x \<longleftrightarrow> j = jnullable JStr x \<and> (\<forall>s. x = Some s \<longrightarrow> wfId s)"
  "nullable j (\<lambda>v. identifierField v p) = Inr x \<longleftrightarrow> j = jnullable JStr x \<and> (\<forall>s. x = Some s \<longrightarrow> wfId s)"
  by (cases x; auto simp: result_simps)+

lemma nullable_timestamp_iff:
  "nullable j (\<lambda>v. utcTimestamp v p) = Inr x \<longleftrightarrow> j = jnullable JStr x \<and> (\<forall>s. x = Some s \<longrightarrow> wfTimestamp s)"
  by (cases x; auto simp: result_simps)

lemma literal_singleton_iff:
  "literal j p [(k, v)] = Inr w \<longleftrightarrow> j = JStr (js k) \<and> w = v"
  by (auto simp: result_simps split: if_splits)

lemmas decode_iffs = readId_eq_Inr identifier_eq_Inr nullable_id_iff nullable_timestamp_iff
  safeInteger_eq_Inr version_eq_Inr utcTimestamp_eq_Inr bind_object_iff

section \<open>Byte counts\<close>

lemma length_utf8_bytes:
  "length (utf8_bytes c) = (if c < 0x80 then 1 else if c < 0x800 then 2 else if c < 0x10000 then 3 else 4)"
  by (simp add: utf8_bytes_def)

lemma length_textEncode: "length (textEncode s) = utf8Length s"
  by (simp add: textEncode_def utf8Length_def length_concat comp_def length_utf8_bytes)

lemma surrogate_range: "isHigh u \<or> isLow u \<longleftrightarrow> 0xD800 \<le> unat u \<and> unat u \<le> 0xDFFF"
  by (auto simp: isHigh_def isLow_def word_le_nat_alt)

lemma isWellFormed_no_surrogate:
  "isWellFormed s \<longleftrightarrow> (\<forall>c \<in> set (code_points s). \<not> (0xD800 \<le> c \<and> c \<le> 0xDFFF))"
proof (induction s rule: code_points.induct)
  case (2 u)
  show ?case using surrogate_range[of u] by auto
next
  case (3 u v s)
  show ?case
  proof (cases "isHigh u \<and> isLow v")
    case True
    then show ?thesis using "3.IH"(1) by simp
  next
    case False
    then have "isWellFormed (u # v # s) \<longleftrightarrow> \<not> (isHigh u \<or> isLow u) \<and> isWellFormed (v # s)"
      by (auto split: if_splits)
    then show ?thesis using False "3.IH"(2) surrogate_range[of u] by (auto simp del: isWellFormed.simps)
  qed
qed simp

section \<open>Printable ASCII\<close>

lemma wellFormed_plain: "list_all (\<lambda>u. \<not> isHigh u \<and> \<not> isLow u) s \<Longrightarrow> isWellFormed s"
  by (induction s) auto

lemma ascii_wf:
  assumes "list_all (\<lambda>u. 0x20 \<le> u \<and> u < 0x7F) s"
  shows "utf8Length s = length s" "wfText (length s) s" "wfDisplay (length s) s"
proof -
  have r: "0x20 \<le> unat u \<and> unat u < 0x7F" if "u \<in> set s" for u
    using assms that by (auto simp: list_all_iff word_le_nat_alt word_less_nat_alt)
  have plain: "\<not> isHigh u \<and> \<not> isLow u \<and> \<not> isControl u \<and> u \<noteq> 0 \<and> \<not> isInvisible u" if "u \<in> set s" for u
  proof -
    have "u \<noteq> v" if "0x7F \<le> unat v" for v using r[OF \<open>u \<in> set s\<close>] that by auto
    then show ?thesis using r[OF that] by (auto simp: isHigh_def isLow_def isControl_def isInvisible_def word_le_nat_alt)
  qed
  have "code_points s = map unat s" using plain by (induction s rule: code_points.induct) auto
  then have "utf8Length s = sum_list (map (\<lambda>u. 1) s)"
    unfolding utf8Length_def using r by (simp add: comp_def) (rule arg_cong[of _ _ sum_list], force)
  then show len: "utf8Length s = length s" by (simp add: sum_list_triv)
  have "isWellFormed s" using plain by (intro wellFormed_plain) (simp add: list_all_iff)
  then show "wfText (length s) s" "wfDisplay (length s) s" using len plain by (auto simp: wfText_def wfDisplay_def wfLabel_def)
qed

lemma wfText_le: "wfText m s \<Longrightarrow> m \<le> n \<Longrightarrow> wfText n s" "wfDisplay m s \<Longrightarrow> m \<le> n \<Longrightarrow> wfDisplay n s"
  by (auto simp: wfText_def wfDisplay_def wfLabel_def)

lemma ascii_id: "list_all (\<lambda>u. 0x20 \<le> u \<and> u < 0x7F) s \<Longrightarrow> s \<noteq> [] \<Longrightarrow> length s \<le> 512 \<Longrightarrow> wfId s"
  using wfText_le(2)[OF ascii_wf(3), of s 512] by (simp add: wfId_def wfDisplay_def MAX_IDENTIFIER_BYTES_def)

end
