(* ===== verification/Identity.thy ===== *)
theory Identity
  imports MsgDecode
begin

text \<open>
  Identities, devices, revocation and recovery of the messaging contracts
  (\<^verbatim>\<open>identity.ts\<close>, \<^verbatim>\<open>devices.ts\<close>, \<^verbatim>\<open>revocation.ts\<close>, \<^verbatim>\<open>recovery.ts\<close> and the outcome type of
  \<^verbatim>\<open>outcomes.ts\<close>), with the exact set of values each decoder accepts.
\<close>

section \<open>Operation outcomes\<close>

datatype ('a, 'c) operationResult =
    Op_ok 'a
  | Op_rejected 'c
  | Op_unavailable
  | Op_outcome_unknown ustring

definition isCurrentGeneration :: "nat \<Rightarrow> nat \<Rightarrow> bool" where
  "isCurrentGeneration current notification \<longleftrightarrow> notification = current"

section \<open>Principals, participants and bindings\<close>

record authPrincipal =
  ap_ownerId :: ustring
  ap_providerIssuer :: ustring
  ap_providerSubject :: ustring
  ap_verifiedEmail :: ustring
  ap_sessionExpiresAt :: ustring

datatype participantKind = Human | Agent

definition participantKinds :: "(string \<times> participantKind) list" where
  "participantKinds = [(''human'', Human), (''agent'', Agent)]"

record participantView =
  pv_participantId :: ustring
  pv_kind :: participantKind
  pv_ownerId :: ustring
  pv_displayName :: ustring
  pv_deviceIds :: "ustring list"

record sessionBinding =
  sb_bindingId :: ustring
  sb_ownerId :: ustring
  sb_agentParticipantId :: ustring
  sb_deviceId :: ustring
  sb_harness :: ustring
  sb_sessionId :: ustring
  sb_generation :: nat

text \<open>\<open>^[^\s@]+@[^\s@]+$\<close>: exactly one at sign, with something other than space on both sides.\<close>

definition matchesEmail :: "ustring \<Rightarrow> bool" where
  "matchesEmail s \<longleftrightarrow> list_all (\<lambda>u. \<not> isSpace u) s \<and> length (filter (\<lambda>u. u = 0x40) s) = 1
     \<and> s \<noteq> [] \<and> hd s \<noteq> 0x40 \<and> last s \<noteq> 0x40"

definition decodeAuthPrincipal :: "jsval \<Rightarrow> authPrincipal decoded" where
  "decodeAuthPrincipal input =
     bindE (object input [] [''v'', ''ownerId'', ''providerIssuer'', ''providerSubject'', ''verifiedEmail'', ''sessionExpiresAt'']) (\<lambda>r.
     bindE (version (field r ''v'') (atPath r ''v'')) (\<lambda>_.
     bindE (readId (field r ''ownerId'') (atPath r ''ownerId'')) (\<lambda>ownerId.
     bindE (identifierField (field r ''providerIssuer'') (atPath r ''providerIssuer'')) (\<lambda>issuer.
     bindE (identifierField (field r ''providerSubject'') (atPath r ''providerSubject'')) (\<lambda>subject.
     bindE (identifierField (field r ''verifiedEmail'') (atPath r ''verifiedEmail'')) (\<lambda>email.
     bindE (utcTimestamp (field r ''sessionExpiresAt'') (atPath r ''sessionExpiresAt'')) (\<lambda>expires.
     bindE (check (matchesEmail email) (atPath r ''verifiedEmail'') Invalid_value) (\<lambda>_.
     bindE (check (\<not> matchesEmail ownerId) (atPath r ''ownerId'') Mismatch) (\<lambda>_.
     Inr \<lparr>ap_ownerId = ownerId, ap_providerIssuer = issuer, ap_providerSubject = subject,
          ap_verifiedEmail = email, ap_sessionExpiresAt = expires\<rparr>)))))))))"

definition sameProviderIdentity :: "authPrincipal \<Rightarrow> authPrincipal \<Rightarrow> bool" where
  "sameProviderIdentity a b \<longleftrightarrow>
     ap_providerIssuer a = ap_providerIssuer b \<and> ap_providerSubject a = ap_providerSubject b"

text \<open>\<open>deviceIds.forEach\<close>: the first position whose id already occurred fails.\<close>

fun firstRepeat :: "'a list \<Rightarrow> nat \<Rightarrow> 'a list \<Rightarrow> nat option" where
  "firstRepeat seen i [] = None"
| "firstRepeat seen i (x # xs) = (if x \<in> set seen then Some i else firstRepeat (x # seen) (Suc i) xs)"

definition readParticipantView :: "jsval \<Rightarrow> ustring \<Rightarrow> contentLimits \<Rightarrow> participantView decoded" where
  "readParticipantView input p limits =
     bindE (object input p [''participantId'', ''kind'', ''ownerId'', ''displayName'', ''deviceIds'']) (\<lambda>r.
     bindE (array (field r ''deviceIds'') (atPath r ''deviceIds'')) (\<lambda>vs.
     bindE (mapE (\<lambda>i v. readId v (elementPath (atPath r ''deviceIds'') i)) vs) (\<lambda>deviceIds.
     bindE (case firstRepeat [] 0 deviceIds of
              Some i \<Rightarrow> fail (elementPath (atPath r ''deviceIds'') i) Duplicate | None \<Rightarrow> Inr ()) (\<lambda>_.
     bindE (readId (field r ''participantId'') (atPath r ''participantId'')) (\<lambda>participantId.
     bindE (literal (field r ''kind'') (atPath r ''kind'') participantKinds) (\<lambda>kind.
     bindE (readId (field r ''ownerId'') (atPath r ''ownerId'')) (\<lambda>ownerId.
     bindE (displayText (field r ''displayName'') (atPath r ''displayName'')
              (Fin (of_nat (maxDisplayNameBytes limits)))) (\<lambda>displayName.
     bindE (check (length displayName \<noteq> 0) (atPath r ''displayName'') Empty) (\<lambda>_.
     Inr \<lparr>pv_participantId = participantId, pv_kind = kind, pv_ownerId = ownerId,
          pv_displayName = displayName, pv_deviceIds = deviceIds\<rparr>)))))))))"

definition decodeParticipantView :: "jsval \<Rightarrow> contentLimits \<Rightarrow> participantView decoded" where
  "decodeParticipantView input limits = readParticipantView input [] limits"

definition readSessionBinding :: "jsval \<Rightarrow> ustring \<Rightarrow> sessionBinding decoded" where
  "readSessionBinding input p =
     bindE (object input p [''v'', ''bindingId'', ''ownerId'', ''agentParticipantId'', ''deviceId'', ''harness'', ''sessionId'', ''generation'']) (\<lambda>r.
     bindE (version (field r ''v'') (atPath r ''v'')) (\<lambda>_.
     bindE (readId (field r ''bindingId'') (atPath r ''bindingId'')) (\<lambda>bindingId.
     bindE (readId (field r ''ownerId'') (atPath r ''ownerId'')) (\<lambda>ownerId.
     bindE (readId (field r ''agentParticipantId'') (atPath r ''agentParticipantId'')) (\<lambda>agent.
     bindE (readId (field r ''deviceId'') (atPath r ''deviceId'')) (\<lambda>deviceId.
     bindE (identifierField (field r ''harness'') (atPath r ''harness'')) (\<lambda>harness.
     bindE (identifierField (field r ''sessionId'') (atPath r ''sessionId'')) (\<lambda>sessionId.
     bindE (safeInteger (field r ''generation'') (atPath r ''generation'')) (\<lambda>generation.
     Inr \<lparr>sb_bindingId = bindingId, sb_ownerId = ownerId, sb_agentParticipantId = agent,
          sb_deviceId = deviceId, sb_harness = harness, sb_sessionId = sessionId,
          sb_generation = generation\<rparr>)))))))))"

definition decodeSessionBinding :: "jsval \<Rightarrow> sessionBinding decoded" where
  "decodeSessionBinding input = readSessionBinding input []"

definition sameSessionBinding :: "sessionBinding \<Rightarrow> sessionBinding \<Rightarrow> bool" where
  "sameSessionBinding a b \<longleftrightarrow> sb_bindingId a = sb_bindingId b \<and> sb_ownerId a = sb_ownerId b
     \<and> sb_agentParticipantId a = sb_agentParticipantId b \<and> sb_deviceId a = sb_deviceId b
     \<and> sb_harness a = sb_harness b \<and> sb_sessionId a = sb_sessionId b \<and> sb_generation a = sb_generation b"

definition MAX_RETURN_PATH_BYTES :: nat where
  "MAX_RETURN_PATH_BYTES = 2048"

definition isSameOriginReturnPath :: "ustring \<Rightarrow> bool" where
  "isSameOriginReturnPath p \<longleftrightarrow> startsWith p (js ''/'') \<and> \<not> startsWith p (js ''//'')
     \<and> \<not> list_ex (\<lambda>u. u = 0x5C \<or> u \<le> 0x1F \<or> u = 0x7F) p \<and> utf8Length p \<le> MAX_RETURN_PATH_BYTES"

section \<open>Devices\<close>

datatype deviceState = Dev_new | Dev_initializing | Dev_ready | Dev_locked | Dev_lost | Dev_revoked | Dev_failed

definition deviceStates :: "(string \<times> deviceState) list" where
  "deviceStates = [(''new'', Dev_new), (''initializing'', Dev_initializing), (''ready'', Dev_ready),
     (''locked'', Dev_locked), (''lost'', Dev_lost), (''revoked'', Dev_revoked), (''failed'', Dev_failed)]"

datatype deviceReason =
    Lease_unavailable | Storage_unavailable | Storage_cleared | Unsupported_environment
  | Key_material_missing | Recovery_required | Revoked_by_owner | Signed_out | Initialization_failed

definition DEVICE_REASONS :: "(string \<times> deviceReason) list" where
  "DEVICE_REASONS = [(''lease_unavailable'', Lease_unavailable), (''storage_unavailable'', Storage_unavailable),
     (''storage_cleared'', Storage_cleared), (''unsupported_environment'', Unsupported_environment),
     (''key_material_missing'', Key_material_missing), (''recovery_required'', Recovery_required),
     (''revoked_by_owner'', Revoked_by_owner), (''signed_out'', Signed_out),
     (''initialization_failed'', Initialization_failed)]"

record deviceView =
  dv_deviceId :: "ustring option"
  dv_state :: deviceState
  dv_generation :: nat
  dv_reason :: "deviceReason option"

definition NEEDS_ID :: "deviceState list" where
  "NEEDS_ID = [Dev_ready, Dev_locked, Dev_lost, Dev_revoked]"

definition NEEDS_REASON :: "deviceState list" where
  "NEEDS_REASON = [Dev_locked, Dev_lost, Dev_revoked, Dev_failed]"

definition decodeDeviceView :: "jsval \<Rightarrow> deviceView decoded" where
  "decodeDeviceView input =
     bindE (object input [] [''deviceId'', ''state'', ''generation'', ''reason'']) (\<lambda>r.
     bindE (nullable (field r ''deviceId'') (\<lambda>value. readId value (atPath r ''deviceId''))) (\<lambda>deviceId.
     bindE (literal (field r ''state'') (atPath r ''state'') deviceStates) (\<lambda>state.
     bindE (safeInteger (field r ''generation'') (atPath r ''generation'')) (\<lambda>generation.
     bindE (nullable (field r ''reason'') (\<lambda>value. literal value (atPath r ''reason'') DEVICE_REASONS)) (\<lambda>reason.
     bindE (check (\<not> (state \<in> set NEEDS_ID \<and> deviceId = None)) (atPath r ''deviceId'') Invalid_value) (\<lambda>_.
     bindE (check ((state \<in> set NEEDS_REASON) = (reason \<noteq> None)) (atPath r ''reason'') Mismatch) (\<lambda>_.
     Inr \<lparr>dv_deviceId = deviceId, dv_state = state, dv_generation = generation, dv_reason = reason\<rparr>)))))))"

section \<open>Revocation\<close>

datatype revocationTarget = Target_device | Target_binding

definition revocationTargets :: "(string \<times> revocationTarget) list" where
  "revocationTargets = [(''device'', Target_device), (''binding'', Target_binding)]"

datatype revocationState = Rev_pending | Rev_propagating | Rev_complete | Rev_partial

definition revocationStates :: "(string \<times> revocationState) list" where
  "revocationStates = [(''pending'', Rev_pending), (''propagating'', Rev_propagating),
     (''complete'', Rev_complete), (''partial'', Rev_partial)]"

record revocationRequest =
  rr_operationId :: ustring
  rr_targetKind :: revocationTarget
  rr_targetId :: ustring
  rr_expectedGeneration :: nat

record revocationProgress =
  rp_operationId :: ustring
  rp_targetKind :: revocationTarget
  rp_targetId :: ustring
  rp_generation :: nat
  rp_state :: revocationState

definition readSubject :: "reader \<Rightarrow> (revocationTarget \<times> ustring) decoded" where
  "readSubject r =
     bindE (literal (field r ''targetKind'') (atPath r ''targetKind'') revocationTargets) (\<lambda>targetKind.
     bindE (readId (field r ''targetId'') (atPath r ''targetId'')) (\<lambda>targetId.
     Inr (targetKind, targetId)))"

definition decodeRevocationRequest :: "jsval \<Rightarrow> revocationRequest decoded" where
  "decodeRevocationRequest input =
     bindE (object input [] [''operationId'', ''targetKind'', ''targetId'', ''expectedGeneration'']) (\<lambda>r.
     bindE (identifierField (field r ''operationId'') (atPath r ''operationId'')) (\<lambda>operationId.
     bindE (readSubject r) (\<lambda>(kind, target).
     bindE (safeInteger (field r ''expectedGeneration'') (atPath r ''expectedGeneration'')) (\<lambda>generation.
     Inr \<lparr>rr_operationId = operationId, rr_targetKind = kind, rr_targetId = target,
          rr_expectedGeneration = generation\<rparr>))))"

definition decodeRevocationProgress :: "jsval \<Rightarrow> revocationProgress decoded" where
  "decodeRevocationProgress input =
     bindE (object input [] [''operationId'', ''targetKind'', ''targetId'', ''generation'', ''state'']) (\<lambda>r.
     bindE (identifierField (field r ''operationId'') (atPath r ''operationId'')) (\<lambda>operationId.
     bindE (readSubject r) (\<lambda>(kind, target).
     bindE (safeInteger (field r ''generation'') (atPath r ''generation'')) (\<lambda>generation.
     bindE (literal (field r ''state'') (atPath r ''state'') revocationStates) (\<lambda>state.
     Inr \<lparr>rp_operationId = operationId, rp_targetKind = kind, rp_targetId = target,
          rp_generation = generation, rp_state = state\<rparr>)))))"

section \<open>Recovery\<close>

datatype recoveryUnavailableReason =
  Not_configured | Unsupported_substrate | Device_not_ready | Recovery_signed_out

definition RECOVERY_UNAVAILABLE_REASONS :: "(string \<times> recoveryUnavailableReason) list" where
  "RECOVERY_UNAVAILABLE_REASONS = [(''not_configured'', Not_configured),
     (''unsupported_substrate'', Unsupported_substrate), (''device_not_ready'', Device_not_ready),
     (''signed_out'', Recovery_signed_out)]"

datatype recoveryFailureReason =
  Secret_rejected | Backup_missing | Backup_corrupt | Recovery_storage_unavailable | Cancelled_locally

definition RECOVERY_FAILURE_REASONS :: "(string \<times> recoveryFailureReason) list" where
  "RECOVERY_FAILURE_REASONS = [(''secret_rejected'', Secret_rejected), (''backup_missing'', Backup_missing),
     (''backup_corrupt'', Backup_corrupt), (''storage_unavailable'', Recovery_storage_unavailable),
     (''cancelled_locally'', Cancelled_locally)]"

record recoveryCapabilities =
  rc_modes :: "ustring list"
  rc_unavailableReason :: "recoveryUnavailableReason option"

datatype recoveryState = Rec_locked | Rec_restoring | Rec_restored | Rec_partial | Rec_unrecoverable | Rec_failed

definition recoveryStates :: "(string \<times> recoveryState) list" where
  "recoveryStates = [(''locked'', Rec_locked), (''restoring'', Rec_restoring), (''restored'', Rec_restored),
     (''partial'', Rec_partial), (''unrecoverable'', Rec_unrecoverable), (''failed'', Rec_failed)]"

record recoveryStatus =
  rs_operationId :: ustring
  rs_mode :: ustring
  rs_state :: recoveryState
  rs_reason :: "recoveryFailureReason option"

definition decodeRecoveryCapabilities :: "jsval \<Rightarrow> recoveryCapabilities decoded" where
  "decodeRecoveryCapabilities input =
     bindE (object input [] [''modes'', ''unavailableReason'']) (\<lambda>r.
     bindE (array (field r ''modes'') (atPath r ''modes'')) (\<lambda>vs.
     bindE (mapE (\<lambda>i mode. identifierField mode (elementPath (atPath r ''modes'') i)) vs) (\<lambda>modes.
     bindE (nullable (field r ''unavailableReason'')
              (\<lambda>value. literal value (atPath r ''unavailableReason'') RECOVERY_UNAVAILABLE_REASONS)) (\<lambda>reason.
     bindE (check ((modes = []) = (reason \<noteq> None)) (atPath r ''unavailableReason'') Mismatch) (\<lambda>_.
     Inr \<lparr>rc_modes = modes, rc_unavailableReason = reason\<rparr>)))))"

definition decodeRecoveryStatus :: "jsval \<Rightarrow> recoveryStatus decoded" where
  "decodeRecoveryStatus input =
     bindE (object input [] [''operationId'', ''mode'', ''state'', ''reason'']) (\<lambda>r.
     bindE (identifierField (field r ''operationId'') (atPath r ''operationId'')) (\<lambda>operationId.
     bindE (identifierField (field r ''mode'') (atPath r ''mode'')) (\<lambda>mode.
     bindE (literal (field r ''state'') (atPath r ''state'') recoveryStates) (\<lambda>state.
     bindE (nullable (field r ''reason'') (\<lambda>value. literal value (atPath r ''reason'') RECOVERY_FAILURE_REASONS)) (\<lambda>reason.
     bindE (check ((state = Rec_failed \<or> state = Rec_unrecoverable) = (reason \<noteq> None)) (atPath r ''reason'') Mismatch) (\<lambda>_.
     Inr \<lparr>rs_operationId = operationId, rs_mode = mode, rs_state = state, rs_reason = reason\<rparr>))))))"

section \<open>Lemmas\<close>

lemma firstRepeat_None: "firstRepeat seen i xs = None \<longleftrightarrow> distinct xs \<and> set xs \<inter> set seen = {}"
  by (induction xs arbitrary: seen i) auto

lemma UNIV_enums:
  "(UNIV :: participantKind set) = {Human, Agent}"
  "(UNIV :: deviceState set) = {Dev_new, Dev_initializing, Dev_ready, Dev_locked, Dev_lost, Dev_revoked, Dev_failed}"
  "(UNIV :: deviceReason set) = {Lease_unavailable, Storage_unavailable, Storage_cleared,
     Unsupported_environment, Key_material_missing, Recovery_required, Revoked_by_owner, Signed_out, Initialization_failed}"
  by (auto intro: participantKind.exhaust deviceState.exhaust deviceReason.exhaust)

lemma literal_device_iff [result_simps]:
  "literal j p deviceStates = Inr v \<longleftrightarrow> j = JStr (js (litStr deviceStates v))"
  "literal j p DEVICE_REASONS = Inr w \<longleftrightarrow> j = JStr (js (litStr DEVICE_REASONS w))"
  unfolding literal_eq_Inr
  by (subst map_of_literals; auto simp: deviceStates_def DEVICE_REASONS_def UNIV_enums)+

lemma decodeDeviceView_eq:
  "decodeDeviceView j = Inr v \<longleftrightarrow>
     exactObject j [''deviceId'', ''state'', ''generation'', ''reason'']
     \<and> propOf j ''deviceId'' = jnullable JStr (dv_deviceId v)
     \<and> propOf j ''state'' = JStr (js (litStr deviceStates (dv_state v)))
     \<and> propOf j ''generation'' = jnat (dv_generation v)
     \<and> propOf j ''reason'' = jnullable (\<lambda>r. JStr (js (litStr DEVICE_REASONS r))) (dv_reason v)
     \<and> (\<forall>d. dv_deviceId v = Some d \<longrightarrow> wfId d) \<and> safeNat (dv_generation v)
     \<and> (dv_state v \<in> {Dev_ready, Dev_locked, Dev_lost, Dev_revoked} \<longrightarrow> dv_deviceId v \<noteq> None)
     \<and> (dv_state v \<in> {Dev_locked, Dev_lost, Dev_revoked, Dev_failed} \<longleftrightarrow> dv_reason v \<noteq> None)"
proof -
  have n: "nullable x (\<lambda>value. literal value p DEVICE_REASONS) = Inr r \<longleftrightarrow>
      x = jnullable (\<lambda>r. JStr (js (litStr DEVICE_REASONS r))) r" for x p r
    by (cases r) (auto simp: nullable_eq_Inr literal_device_iff)
  show ?thesis
    unfolding decodeDeviceView_def bind_object_iff
    unfolding bindE_eq_Inr nullable_id_iff literal_device_iff safeInteger_eq_Inr n check_eq_Inr
      NEEDS_ID_def NEEDS_REASON_def
    by (cases v) (simp, blast)
qed

end
