(* ===== verification/Listener.thy ===== *)
theory Listener
  imports MsgDecode
begin

text \<open>
  The harness-independent listener (\<^verbatim>\<open>packages/listener/src\<close>): the mode vocabulary and wake rule of
  \<^verbatim>\<open>modes.ts\<close>, the hook delivery decision of \<^verbatim>\<open>decision.ts\<close> and the frame bounding of \<^verbatim>\<open>frame.ts\<close>,
  whose binary search over code point boundaries is proved to find the longest fitting prefix.
\<close>

section \<open>Modes\<close>

datatype deliveryMode = Steer | Sync | Async

datatype listeningMode = Deliver deliveryMode | Mute

definition DELIVERY_MODES :: "(string \<times> deliveryMode) list" where
  "DELIVERY_MODES = [(''steer'', Steer), (''sync'', Sync), (''async'', Async)]"

definition LISTENING_MODES :: "(string \<times> listeningMode) list" where
  "LISTENING_MODES = map (\<lambda>(k, m). (k, Deliver m)) DELIVERY_MODES @ [(''mute'', Mute)]"

definition DEFAULT_LISTENING_MODE :: listeningMode where
  "DEFAULT_LISTENING_MODE = Deliver Sync"

text \<open>\<open>None\<close> is the single failure \<open>invalid_field\<close> at the root.\<close>

definition decodeListeningMode :: "jsval \<Rightarrow> listeningMode option" where
  "decodeListeningMode input = (case input of
     JStr s \<Rightarrow> map_of (map (\<lambda>(k, m). (js k, m)) LISTENING_MODES) s
   | _ \<Rightarrow> None)"

definition wakesOn :: "listeningMode \<Rightarrow> bool \<Rightarrow> bool \<Rightarrow> bool" where
  "wakesOn mode addressed fromAgent =
     (if mode = Mute then False
      else if mode = Deliver Async then addressed
      else mode = Deliver Steer \<or> addressed \<or> \<not> fromAgent)"

section \<open>Delivery decision\<close>

datatype hookEvent = Ev_start | Ev_prompt | Ev_tool | Ev_stop

record decisionInput =
  di_harness :: ustring
  di_event :: hookEvent
  di_continuation :: bool
  di_busy :: bool
  di_busyAgeMs :: "nat option"
  di_interruptedSinceBusy :: bool

record decision =
  deliverModes :: "deliveryMode list"
  markIdleOnly :: bool

definition decideDelivery :: "decisionInput \<Rightarrow> decision" where
  "decideDelivery input =
     (if di_event input = Ev_start then \<lparr>deliverModes = [], markIdleOnly = False\<rparr>
      else if di_event input = Ev_stop \<and> di_continuation input then \<lparr>deliverModes = [], markIdleOnly = True\<rparr>
      else
        let steerOnly = di_event input = Ev_tool
              \<or> (di_event input = Ev_prompt \<and> di_harness input = js ''claude'' \<and> di_busy input
                 \<and> (case di_busyAgeMs input of None \<Rightarrow> False | Some age \<Rightarrow> age < 120000)
                 \<and> \<not> di_interruptedSinceBusy input)
        in \<lparr>deliverModes = (if steerOnly then [Steer] else [Steer, Sync]), markIdleOnly = False\<rparr>)"

section \<open>Frames\<close>

definition MAX_FRAME_BYTES :: nat where
  "MAX_FRAME_BYTES = 64 * 1024"

definition MAX_FRAME_MESSAGES :: nat where
  "MAX_FRAME_MESSAGES = 50"

definition frameUtf8Length :: "ustring \<Rightarrow> nat" where
  "frameUtf8Length value = length (textEncode value)"

function searchCut :: "(nat \<Rightarrow> bool) \<Rightarrow> nat \<Rightarrow> nat \<Rightarrow> nat" where
  "searchCut fits low high =
     (if low < high then
        let middle = (low + high + 1) div 2 in
        if fits middle then searchCut fits middle high else searchCut fits low (middle - 1)
      else low)"
  by pat_completeness auto
termination
  by (relation "measure (\<lambda>(fits, low, high). high - low)") auto

declare searchCut.simps [simp del]

datatype frameError = Frame_metadata_too_large

definition cutBody :: "('e \<Rightarrow> ustring) \<Rightarrow> (ustring \<Rightarrow> 'e \<Rightarrow> 'e) \<Rightarrow> ustring \<Rightarrow> 'e \<Rightarrow> nat \<Rightarrow> 'e" where
  "cutBody getBody setBody suffix entry n =
     setBody (concat (take n (char_strings (getBody entry))) @ suffix) entry"

fun frameLoop :: "('e \<Rightarrow> ustring) \<Rightarrow> (ustring \<Rightarrow> 'e \<Rightarrow> 'e) \<Rightarrow> ('e list \<Rightarrow> ustring) \<Rightarrow> ustring \<Rightarrow> nat \<Rightarrow> bool
    \<Rightarrow> nat \<Rightarrow> nat \<Rightarrow> 'e list \<Rightarrow> 'e list \<Rightarrow> frameError + 'e list \<times> nat" where
  "frameLoop getBody setBody render suffix budget cutFirst i consumedCount rendered [] =
     Inr (rendered, consumedCount)"
| "frameLoop getBody setBody render suffix budget cutFirst i consumedCount rendered (entry # rest) =
     (if length rendered = MAX_FRAME_MESSAGES then Inr (rendered, consumedCount)
      else if frameUtf8Length (render (rendered @ [entry])) > budget then
        if rendered \<noteq> [] \<or> \<not> cutFirst then Inr (rendered, consumedCount)
        else
          let low = searchCut (\<lambda>middle. frameUtf8Length (render [cutBody getBody setBody suffix entry middle]) \<le> budget)
                0 (length (char_strings (getBody entry)));
              truncated = cutBody getBody setBody suffix entry low in
          if frameUtf8Length (render [truncated]) > budget then Inl Frame_metadata_too_large
          else Inr (rendered @ [truncated], i + 1)
      else frameLoop getBody setBody render suffix budget cutFirst (i + 1) (i + 1) (rendered @ [entry]) rest)"

definition selectFrame :: "('e \<Rightarrow> ustring) \<Rightarrow> (ustring \<Rightarrow> 'e \<Rightarrow> 'e) \<Rightarrow> 'e list \<Rightarrow> ('e list \<Rightarrow> ustring) \<Rightarrow> ustring
    \<Rightarrow> nat \<Rightarrow> bool \<Rightarrow> frameError + ustring option \<times> 'e list" where
  "selectFrame getBody setBody entries render suffix budget cutFirst =
     bindE (frameLoop getBody setBody render suffix budget cutFirst 0 0 [] entries) (\<lambda>(rendered, consumedCount).
       Inr (if rendered \<noteq> [] then Some (render rendered) else None, take consumedCount entries))"

section \<open>Lemmas\<close>

lemma searchCut_stop: "\<not> low < high \<Longrightarrow> searchCut fits low high = low"
  by (simp add: searchCut.simps)

lemma searchCut_halve:
  assumes "low < high"
  obtains m where "low < m" "m \<le> high"
    "fits m \<Longrightarrow> searchCut fits low high = searchCut fits m high"
    "\<not> fits m \<Longrightarrow> searchCut fits low high = searchCut fits low (m - 1)"
proof -
  obtain m where m: "(low + high + 1) div 2 = m" by blast
  have b: "low < m" "m \<le> high" using assms m by auto
  have "searchCut fits low high = (if fits m then searchCut fits m high else searchCut fits low (m - 1))"
    unfolding m[symmetric] using assms by (subst searchCut.simps) (simp only: Let_def if_True)
  with b that show ?thesis by simp
qed

lemma searchCut_greatest:
  assumes "low \<le> high"
    and mono: "\<And>m n. m \<le> n \<Longrightarrow> fits n \<Longrightarrow> fits m"
    and low: "low = 0 \<or> fits low"
  shows "(searchCut fits low high = 0 \<or> fits (searchCut fits low high)) \<and> searchCut fits low high \<le> high
    \<and> (\<forall>n. searchCut fits low high < n \<and> n \<le> high \<longrightarrow> \<not> fits n)"
  using assms(1) low
proof (induction "high - low" arbitrary: low high rule: less_induct)
  case less
  show ?case
  proof (cases "low < high")
    case True
    obtain m where m: "low < m" "m \<le> high"
      "fits m \<Longrightarrow> searchCut fits low high = searchCut fits m high"
      "\<not> fits m \<Longrightarrow> searchCut fits low high = searchCut fits low (m - 1)"
      by (rule searchCut_halve[OF True, of fits]) blast
    show ?thesis
    proof (cases "fits m")
      case fm: True
      show ?thesis using less.hyps[of high m] m fm by auto
    next
      case fm: False
      have up: "\<not> fits n" if "m \<le> n" for n using mono[OF that] fm by blast
      have ih: "(searchCut fits low (m - 1) = 0 \<or> fits (searchCut fits low (m - 1)))
        \<and> searchCut fits low (m - 1) \<le> m - 1
        \<and> (\<forall>n. searchCut fits low (m - 1) < n \<and> n \<le> m - 1 \<longrightarrow> \<not> fits n)"
        using m less.prems by (intro less.hyps) auto
      have "\<not> fits n" if "searchCut fits low (m - 1) < n" "n \<le> high" for n
        using ih up[of n] that by (cases "m \<le> n") auto
      then show ?thesis using ih m fm by auto
    qed
  next
    case False
    then show ?thesis using less.prems by (auto simp: searchCut_stop)
  qed
qed

lemma frameUtf8Length_eq: "frameUtf8Length s = utf8Length s"
  by (simp add: frameUtf8Length_def length_textEncode)

lemma searchCut_le: "low \<le> high \<Longrightarrow> searchCut fits low high \<le> high"
proof (induction "high - low" arbitrary: low high rule: less_induct)
  case less
  show ?case
  proof (cases "low < high")
    case True
    obtain m where m: "low < m" "m \<le> high"
      "fits m \<Longrightarrow> searchCut fits low high = searchCut fits m high"
      "\<not> fits m \<Longrightarrow> searchCut fits low high = searchCut fits low (m - 1)"
      by (rule searchCut_halve[OF True, of fits]) blast
    then show ?thesis
      using less.hyps[of high m] less.hyps[of "m - 1" low] by (cases "fits m") fastforce+
  qed (use less in \<open>simp add: searchCut_stop\<close>)
qed

text \<open>What the loop over the entries does from a state in which \<open>rendered\<close> fits: it takes a prefix of
  the rest, or, at the very first entry, that entry alone with its body cut.\<close>

definition fitsFrame :: "('e list \<Rightarrow> ustring) \<Rightarrow> nat \<Rightarrow> 'e list \<Rightarrow> bool" where
  "fitsFrame render budget es \<longleftrightarrow> frameUtf8Length (render es) \<le> budget"

definition stoppedAt :: "('e list \<Rightarrow> ustring) \<Rightarrow> nat \<Rightarrow> 'e list \<Rightarrow> 'e list \<Rightarrow> bool" where
  "stoppedAt render budget taken rest \<longleftrightarrow> rest = [] \<or> length taken = MAX_FRAME_MESSAGES
     \<or> \<not> fitsFrame render budget (taken @ [hd rest])"

lemma frameLoop_spec:
  assumes "frameLoop gb sb render suffix budget cutFirst i i rendered rest = Inr (out, n)"
    and "length rendered \<le> MAX_FRAME_MESSAGES" and "rendered = [] \<or> fitsFrame render budget rendered"
  shows "length out \<le> MAX_FRAME_MESSAGES \<and> (out = [] \<or> fitsFrame render budget out) \<and>
    ((\<exists>k \<le> length rest. n = i + k \<and> out = rendered @ take k rest
        \<and> stoppedAt render budget out (drop k rest)
        \<and> (out = [] \<longrightarrow> rest = [] \<or> \<not> cutFirst))
     \<or> (rendered = [] \<and> rest \<noteq> [] \<and> cutFirst \<and> n = i + 1 \<and> \<not> fitsFrame render budget [hd rest]
        \<and> out = [cutBody gb sb suffix (hd rest)
             (searchCut (\<lambda>m. fitsFrame render budget [cutBody gb sb suffix (hd rest) m]) 0
               (length (char_strings (gb (hd rest)))))]))"
  using assms
proof (induction rest arbitrary: i rendered)
  case Nil
  then show ?case by (auto simp: stoppedAt_def)
next
  case (Cons e rest)
  show ?case
  proof (cases "length rendered = MAX_FRAME_MESSAGES")
    case True
    then have "out = rendered" "n = i" using Cons.prems(1) by auto
    moreover have "rendered \<noteq> []" using True by (auto simp: MAX_FRAME_MESSAGES_def)
    ultimately show ?thesis
      using True Cons.prems(3) by (auto simp: stoppedAt_def intro!: exI[of _ 0])
  next
    case short: False
    show ?thesis
    proof (cases "fitsFrame render budget (rendered @ [e])")
      case True
      then have run: "frameLoop gb sb render suffix budget cutFirst (i + 1) (i + 1) (rendered @ [e]) rest = Inr (out, n)"
        using Cons.prems(1) short by (simp add: fitsFrame_def)
      show ?thesis
        using Cons.IH[OF run] True short Cons.prems(2)
        by (fastforce intro: exI[of _ "Suc _"])
    next
      case False
      then show ?thesis
        using Cons.prems short
        by (auto simp: fitsFrame_def stoppedAt_def not_le MAX_FRAME_MESSAGES_def Let_def
            split: if_splits intro!: exI[of _ 0])
    qed
  qed
qed

section \<open>Properties\<close>

text \<open>C38: A frame never exceeds its byte budget nor fifty messages; the consumed entries are a prefix of
  the pending ones; nothing is consumed without a frame; and the selection is maximal: it stops only
  at the end of the entries, at fifty messages, or at an entry that does not fit (the first entry is
  then delivered alone with its body cut at a code point boundary).\<close>

theorem selectFrame_bounded:
  assumes "selectFrame gb sb entries render suffix budget cutFirst = Inr (frame, consumed)"
  shows "length consumed \<le> MAX_FRAME_MESSAGES
    \<and> consumed = take (length consumed) entries
    \<and> (frame = None \<longleftrightarrow> consumed = [])
    \<and> (\<forall>f. frame = Some f \<longrightarrow> frameUtf8Length f \<le> budget)
    \<and> (entries \<noteq> [] \<and> cutFirst \<longrightarrow> consumed \<noteq> [])
    \<and> ((frame = (if consumed = [] then None else Some (render consumed))
            \<and> stoppedAt render budget consumed (drop (length consumed) entries))
         \<or> (cutFirst \<and> consumed = [hd entries] \<and> \<not> fitsFrame render budget consumed
            \<and> (\<exists>n \<le> length (char_strings (gb (hd entries))).
                 frame = Some (render [cutBody gb sb suffix (hd entries) n]))))"
proof -
  obtain out n where run: "frameLoop gb sb render suffix budget cutFirst 0 0 [] entries = Inr (out, n)"
    and f: "frame = (if out \<noteq> [] then Some (render out) else None)" and c: "consumed = take n entries"
    using assms by (auto simp: selectFrame_def bindE_eq_Inr)
  note spec = frameLoop_spec[OF run, simplified]
  have bounds: "length consumed \<le> MAX_FRAME_MESSAGES" "consumed = take (length consumed) entries"
    "frame = None \<longleftrightarrow> consumed = []" "\<forall>f. frame = Some f \<longrightarrow> frameUtf8Length f \<le> budget"
    "entries \<noteq> [] \<and> cutFirst \<longrightarrow> consumed \<noteq> []"
    using spec f c by (auto simp: MAX_FRAME_MESSAGES_def min_def fitsFrame_def split: if_splits)
  from spec consider
    (whole) k where "k \<le> length entries" "n = k" "out = take k entries" "stoppedAt render budget out (drop k entries)"
  | (cut) "entries \<noteq> []" "cutFirst" "n = 1" "\<not> fitsFrame render budget [hd entries]"
     "out = [cutBody gb sb suffix (hd entries)
             (searchCut (\<lambda>m. fitsFrame render budget [cutBody gb sb suffix (hd entries) m]) 0
               (length (char_strings (gb (hd entries)))))]"
    by auto
  then have "(frame = (if consumed = [] then None else Some (render consumed))
            \<and> stoppedAt render budget consumed (drop (length consumed) entries))
         \<or> (cutFirst \<and> consumed = [hd entries] \<and> \<not> fitsFrame render budget consumed
            \<and> (\<exists>n \<le> length (char_strings (gb (hd entries))).
                 frame = Some (render [cutBody gb sb suffix (hd entries) n])))"
  proof cases
    case whole
    then show ?thesis using f c by (auto simp: min_def)
  next
    case cut
    then have "consumed = [hd entries]" using c by (cases entries) auto
    then show ?thesis using cut f searchCut_le[of 0] by auto
  qed
  with bounds show ?thesis by blast
qed

theorem selectFrame_bounded_witness:
  "selectFrame id (\<lambda>b e. b) [js ''hello'', js ''you''] concat (js ''~'') 4 True
     = Inr (Some (js ''hel~''), [js ''hello''])
   \<and> length [js ''hello''] \<le> MAX_FRAME_MESSAGES"
proof -
  have run: "selectFrame id (\<lambda>b e. b) [js ''hello'', js ''you''] concat (js ''~'') 4 True
     = Inr (Some (js ''hel~''), [js ''hello''])"
    by code_simp
  show ?thesis using run selectFrame_bounded[OF run] by blast
qed

text \<open>Which modes a hook event delivers: nothing at session start, nothing but the idle mark at a
  continued stop, never \<open>async\<close>, always \<open>steer\<close> otherwise, and \<open>sync\<close> except at a tool boundary and at a
  Claude prompt of an uninterrupted turn recorded busy for less than two minutes.\<close>

theorem decideDelivery_modes:
  "(Steer \<in> set (deliverModes (decideDelivery d)) \<longleftrightarrow>
      di_event d \<noteq> Ev_start \<and> \<not> (di_event d = Ev_stop \<and> di_continuation d))
   \<and> (Sync \<in> set (deliverModes (decideDelivery d)) \<longleftrightarrow>
      (di_event d = Ev_stop \<and> \<not> di_continuation d)
      \<or> (di_event d = Ev_prompt \<and> (di_harness d \<noteq> js ''claude'' \<or> \<not> di_busy d \<or> di_interruptedSinceBusy d
           \<or> (\<forall>age. di_busyAgeMs d = Some age \<longrightarrow> 120000 \<le> age))))
   \<and> Async \<notin> set (deliverModes (decideDelivery d))
   \<and> (markIdleOnly (decideDelivery d) \<longleftrightarrow> di_event d = Ev_stop \<and> di_continuation d)"
  by (cases "di_event d"; cases "di_busyAgeMs d") (auto simp: decideDelivery_def Let_def)

text \<open>Attention is ordered: if an entry wakes an agent in some mode, it also wakes it in every mode of
  higher attention (steer, sync, async, mute in that order); mute never wakes, steer always does, and
  an addressed entry wakes every mode but mute.\<close>

theorem wakesOn_ordered:
  "(wakesOn (Deliver Async) a f \<longrightarrow> wakesOn (Deliver Sync) a f)
   \<and> (wakesOn (Deliver Sync) a f \<longrightarrow> wakesOn (Deliver Steer) a f)
   \<and> wakesOn (Deliver Steer) a f \<and> \<not> wakesOn Mute a f
   \<and> (m \<noteq> Mute \<longrightarrow> wakesOn m True f)
   \<and> (wakesOn (Deliver Sync) False f \<longleftrightarrow> \<not> f)"
  by (cases m) (auto simp: wakesOn_def)

theorem wakesOn_ordered_witness:
  "wakesOn (Deliver Async) True True \<and> wakesOn (Deliver Sync) True True"
  using wakesOn_ordered[of True True "Deliver Async"] by (simp add: wakesOn_def)

theorem decideDelivery_modes_witness:
  "Sync \<in> set (deliverModes (decideDelivery \<lparr>di_harness = js ''codex'', di_event = Ev_prompt,
     di_continuation = False, di_busy = True, di_busyAgeMs = Some 5, di_interruptedSinceBusy = False\<rparr>))"
  using decideDelivery_modes[of "\<lparr>di_harness = js ''codex'', di_event = Ev_prompt,
     di_continuation = False, di_busy = True, di_busyAgeMs = Some 5, di_interruptedSinceBusy = False\<rparr>"]
  by simp

text \<open>When the rendered size grows with the body, the binary search cuts the first body at the
  longest prefix of code points that fits: any longer prefix would exceed the budget.\<close>

theorem selectFrame_longest_cut:
  assumes grow: "\<And>m n. m \<le> n \<Longrightarrow>
      frameUtf8Length (render [cutBody gb sb suffix e m]) \<le> frameUtf8Length (render [cutBody gb sb suffix e n])"
    and big: "\<not> fitsFrame render budget [e]"
    and run: "selectFrame gb sb (e # es) render suffix budget True = Inr (frame, consumed)"
  shows "\<exists>n \<le> length (char_strings (gb e)). frame = Some (render [cutBody gb sb suffix e n])
    \<and> fitsFrame render budget [cutBody gb sb suffix e n]
    \<and> (\<forall>n'. n < n' \<and> n' \<le> length (char_strings (gb e)) \<longrightarrow> \<not> fitsFrame render budget [cutBody gb sb suffix e n'])"
proof -
  define fits where "fits = (\<lambda>m. fitsFrame render budget [cutBody gb sb suffix e m])"
  define k where "k = searchCut fits 0 (length (char_strings (gb e)))"
  have mono: "fits m" if "m \<le> n" "fits n" for m n
    using grow[OF that(1)] that(2) by (auto simp: fits_def fitsFrame_def)
  have best: "k \<le> length (char_strings (gb e)) \<and> (\<forall>n. k < n \<and> n \<le> length (char_strings (gb e)) \<longrightarrow> \<not> fits n)"
    using searchCut_greatest[of 0 "length (char_strings (gb e))" fits] mono by (auto simp: k_def)
  have "frame = Some (render [cutBody gb sb suffix e k]) \<and> fits k"
    using run big
    by (auto simp: selectFrame_def bindE_eq_Inr fitsFrame_def MAX_FRAME_MESSAGES_def Let_def fits_def k_def
        split: if_splits)
  then show ?thesis using best by (auto simp: fits_def)
qed

theorem selectFrame_longest_cut_witness:
  "selectFrame id (\<lambda>b e. b) [js ''hello''] concat [] 4 True = Inr (Some (js ''hell''), [js ''hello''])
   \<and> (\<exists>n \<le> length (char_strings (id (js ''hello''))).
        Some (js ''hell'') = Some (concat [cutBody id (\<lambda>b e. b) [] (js ''hello'') n])
        \<and> fitsFrame concat 4 [cutBody id (\<lambda>b e. b) [] (js ''hello'') n]
        \<and> (\<forall>n'. n < n' \<and> n' \<le> length (char_strings (id (js ''hello'')))
             \<longrightarrow> \<not> fitsFrame concat 4 [cutBody id (\<lambda>b e. b) [] (js ''hello'') n']))"
proof -
  have run: "selectFrame id (\<lambda>b e. b) [js ''hello''] concat [] 4 True = Inr (Some (js ''hell''), [js ''hello''])"
    by code_simp
  have cs: "char_strings (js ''hello'') = map js [''h'', ''e'', ''l'', ''l'', ''o'']" by code_simp
  have len: "frameUtf8Length (concat [cutBody id (\<lambda>b e. b) [] (js ''hello'') m]) = min m 5" for m
  proof -
    have "m = 0 \<or> m = 1 \<or> m = 2 \<or> m = 3 \<or> m = 4 \<or> 5 \<le> m" by linarith
    then have tk: "take m (char_strings (js ''hello'')) = take (min m 5) (map js [''h'', ''e'', ''l'', ''l'', ''o''])"
      and mem: "min m 5 \<in> set [0, 1, 2, 3, 4, 5]" by (auto simp: cs)
    have "\<forall>j \<in> set [0, 1, 2, 3, 4, 5]. frameUtf8Length (concat (take j (map js [''h'', ''e'', ''l'', ''l'', ''o'']))) = j"
      by code_simp
    from bspec[OF this mem] tk show ?thesis by (simp add: cutBody_def)
  qed
  have big: "\<not> fitsFrame concat 4 [js ''hello'']" by code_simp
  have grow: "frameUtf8Length (concat [cutBody id (\<lambda>b e. b) [] (js ''hello'') m])
      \<le> frameUtf8Length (concat [cutBody id (\<lambda>b e. b) [] (js ''hello'') n])" if "m \<le> n" for m n
    using that unfolding len by linarith
  show ?thesis using run selectFrame_longest_cut[OF grow big run] by blast
qed

end
