(* ===== verification/Delivery.thy ===== *)
theory Delivery
  imports MsgDecode
begin

text \<open>
  The delivery contracts: the decoding primitives of
  \<^verbatim>\<open>packages/contracts/src/delivery/decode.ts\<close> and \<^verbatim>\<open>ids.ts\<close> (their own error vocabulary of three codes)
  and the delivery receipts of \<^verbatim>\<open>receipts.ts\<close>. Names that the messaging contracts use too carry the
  suffix \<open>D\<close>. \<open>decodeWith\<close> also turns every foreign exception of an exotic object into \<open>invalid_field\<close>
  at the root; a value of the model has no getters or proxies, so it is the identity here as well.
\<close>

section \<open>Primitives\<close>

datatype deliveryErrorCode = D_invalid_version | D_invalid_field | D_limit_exceeded

datatype deliveryFailure = DeliveryFailure ustring deliveryErrorCode

type_synonym 'a decodedD = "deliveryFailure + 'a"

definition failD :: "ustring \<Rightarrow> deliveryErrorCode \<Rightarrow> 'a decodedD" where
  "failD f c = Inl (DeliveryFailure f c)"

definition checkD :: "bool \<Rightarrow> ustring \<Rightarrow> deliveryErrorCode \<Rightarrow> unit decodedD" where
  "checkD b f c = (if b then Inr () else failD f c)"

definition joinD :: "ustring \<Rightarrow> ustring \<Rightarrow> ustring" where
  "joinD f k = (if f \<noteq> [] then f @ js ''.'' @ k else k)"

record readerD =
  rdField :: ustring
  rdRecord :: "(ustring \<times> jsval) list"

definition fieldD :: "readerD \<Rightarrow> string \<Rightarrow> jsval" where
  "fieldD r k = (case map_of (rdRecord r) (js k) of None \<Rightarrow> JUndef | Some v \<Rightarrow> v)"

definition atD :: "readerD \<Rightarrow> string \<Rightarrow> ustring" where
  "atD r k = joinD (rdField r) (js k)"

definition objectD :: "jsval \<Rightarrow> ustring \<Rightarrow> string list \<Rightarrow> readerD decodedD" where
  "objectD input f keys =
     (case input of
        JObj plain props \<Rightarrow>
          if \<not> plain then failD f D_invalid_field
          else case find (\<lambda>k. k \<notin> set (map js keys)) (map fst props) of
            Some k \<Rightarrow> failD (joinD f k) D_invalid_field
          | None \<Rightarrow> (case find (\<lambda>k. map_of props (js k) = None) keys of
              Some k \<Rightarrow> failD (joinD f (js k)) D_invalid_field
            | None \<Rightarrow> Inr \<lparr>rdField = f, rdRecord = props\<rparr>)
      | _ \<Rightarrow> failD f D_invalid_field)"

definition utf8LengthD :: "ustring \<Rightarrow> nat" where
  "utf8LengthD s = foldl (\<lambda>bytes c. if c < 0x80 then bytes + 1 else if c < 0x800 then bytes + 2
     else if c < 0x10000 then bytes + 3 else bytes + 4) 0 (code_points s)"

fun isWellFormedD :: "ustring \<Rightarrow> bool" where
  "isWellFormedD [] = True"
| "isWellFormedD (u # s) =
     (if isHigh u then (case s of [] \<Rightarrow> False | v # t \<Rightarrow> if isLow v then isWellFormedD t else False)
      else if isLow u then False
      else isWellFormedD s)"

definition identifierD :: "jsval \<Rightarrow> ustring \<Rightarrow> ustring decodedD" where
  "identifierD input f =
     (case input of
        JStr s \<Rightarrow>
          if \<not> isWellFormedD s \<or> length s = 0 \<or> list_ex isControl s then failD f D_invalid_field
          else if utf8LengthD s > MAX_IDENTIFIER_BYTES then failD f D_limit_exceeded
          else Inr s
      | _ \<Rightarrow> failD f D_invalid_field)"

definition readIdD :: "jsval \<Rightarrow> ustring \<Rightarrow> ustring decodedD" where
  "readIdD input f = identifierD input f"

definition idDecoderD :: "jsval \<Rightarrow> ustring decodedD" where
  "idDecoderD input = readIdD input []"

definition literalD :: "jsval \<Rightarrow> ustring \<Rightarrow> (string \<times> 'a) list \<Rightarrow> 'a decodedD" where
  "literalD input f allowed =
     (case input of
        JStr s \<Rightarrow> (case map_of (map (\<lambda>(k, v). (js k, v)) allowed) s of
            Some v \<Rightarrow> Inr v | None \<Rightarrow> failD f D_invalid_field)
      | _ \<Rightarrow> failD f D_invalid_field)"

definition versionD :: "jsval \<Rightarrow> ustring \<Rightarrow> unit decodedD" where
  "versionD input f = (if input = JNum (Fin 1) then Inr () else failD f D_invalid_version)"

definition safeIntegerD :: "jsval \<Rightarrow> ustring \<Rightarrow> nat decodedD" where
  "safeIntegerD input f =
     (case input of
        JNum x \<Rightarrow> if \<not> isSafeInteger x \<or> negativeNum x then failD f D_invalid_field else Inr (natOfNum x)
      | _ \<Rightarrow> failD f D_invalid_field)"

definition nullableD :: "jsval \<Rightarrow> (jsval \<Rightarrow> 'a decodedD) \<Rightarrow> 'a option decodedD" where
  "nullableD input read = (if input = JNull then Inr None else bindE (read input) (\<lambda>x. Inr (Some x)))"

definition utcTimestampD :: "jsval \<Rightarrow> ustring \<Rightarrow> ustring decodedD" where
  "utcTimestampD input f =
     (case input of
        JStr s \<Rightarrow>
          (case matchTimestamp s of
             None \<Rightarrow> failD f D_invalid_field
           | Some parts \<Rightarrow> if readbackOk parts then Inr s else failD f D_invalid_field)
      | _ \<Rightarrow> failD f D_invalid_field)"

record deliveryLimits =
  maxSelectionEvents :: nat
  maxPayloadBytes :: nat

definition positiveLimitD :: "readerD \<Rightarrow> string \<Rightarrow> nat decodedD" where
  "positiveLimitD r key = bindE (safeIntegerD (fieldD r key) (atD r key)) (\<lambda>value.
     if value = 0 then failD (atD r key) D_invalid_field else Inr value)"

definition readDeliveryLimits :: "jsval \<Rightarrow> ustring \<Rightarrow> deliveryLimits decodedD" where
  "readDeliveryLimits input f =
     bindE (objectD input f [''maxSelectionEvents'', ''maxPayloadBytes'']) (\<lambda>r.
     bindE (positiveLimitD r ''maxSelectionEvents'') (\<lambda>e.
     bindE (positiveLimitD r ''maxPayloadBytes'') (\<lambda>b.
     Inr \<lparr>maxSelectionEvents = e, maxPayloadBytes = b\<rparr>)))"

definition decodeDeliveryLimits :: "jsval \<Rightarrow> deliveryLimits decodedD" where
  "decodeDeliveryLimits input = readDeliveryLimits input []"

section \<open>Receipts\<close>

datatype receiptKind =
    Rk_queued | Rk_dispatching | Rk_transport_written | Rk_harness_queued | Rk_context_consumed
  | Rk_completed | Rk_outcome_unknown | Rk_failed | Rk_cancel_requested | Rk_cancelled
  | Rk_agent_acknowledged

definition RECEIPT_KINDS_V1 :: "(string \<times> receiptKind) list" where
  "RECEIPT_KINDS_V1 = [(''queued'', Rk_queued), (''dispatching'', Rk_dispatching),
     (''transport_written'', Rk_transport_written), (''harness_queued'', Rk_harness_queued),
     (''context_consumed'', Rk_context_consumed), (''completed'', Rk_completed),
     (''outcome_unknown'', Rk_outcome_unknown), (''failed'', Rk_failed),
     (''cancel_requested'', Rk_cancel_requested), (''cancelled'', Rk_cancelled)]"

definition RECEIPT_KINDS_V2 :: "(string \<times> receiptKind) list" where
  "RECEIPT_KINDS_V2 = RECEIPT_KINDS_V1 @ [(''agent_acknowledged'', Rk_agent_acknowledged)]"

datatype receiptSource = Src_connector | Src_harness | Src_agent

definition RECEIPT_SOURCES_V1 :: "(string \<times> receiptSource) list" where
  "RECEIPT_SOURCES_V1 = [(''connector'', Src_connector), (''harness'', Src_harness)]"

definition RECEIPT_SOURCES_V2 :: "(string \<times> receiptSource) list" where
  "RECEIPT_SOURCES_V2 = RECEIPT_SOURCES_V1 @ [(''agent'', Src_agent)]"

datatype receiptErrorCode =
    Re_harness_unavailable | Re_harness_rejected | Re_session_unavailable | Re_busy_rejected
  | Re_stale_binding | Re_payload_digest_mismatch | Re_limit_exceeded | Re_disconnected | Re_timeout

definition RECEIPT_ERROR_CODES :: "(string \<times> receiptErrorCode) list" where
  "RECEIPT_ERROR_CODES = [(''harness_unavailable'', Re_harness_unavailable),
     (''harness_rejected'', Re_harness_rejected), (''session_unavailable'', Re_session_unavailable),
     (''busy_rejected'', Re_busy_rejected), (''stale_binding'', Re_stale_binding),
     (''payload_digest_mismatch'', Re_payload_digest_mismatch), (''limit_exceeded'', Re_limit_exceeded),
     (''disconnected'', Re_disconnected), (''timeout'', Re_timeout)]"

definition KINDS_WITH_ERROR :: "receiptKind list" where
  "KINDS_WITH_ERROR = [Rk_failed, Rk_outcome_unknown]"

record deliveryReceipt =
  rcpt_v :: nat
  rcpt_receiptId :: ustring
  rcpt_releaseId :: ustring
  rcpt_bindingId :: ustring
  rcpt_generation :: nat
  rcpt_kind :: receiptKind
  rcpt_observedAt :: ustring
  rcpt_source :: receiptSource
  rcpt_evidenceRef :: "ustring option"
  rcpt_errorCode :: "receiptErrorCode option"

definition RECEIPT_FIELDS :: "string list" where
  "RECEIPT_FIELDS = [''v'', ''receiptId'', ''releaseId'', ''bindingId'', ''generation'', ''kind'',
     ''observedAt'', ''source'', ''evidenceRef'', ''errorCode'']"

definition readDeliveryReceipt :: "readerD \<Rightarrow> nat \<Rightarrow> deliveryReceipt decodedD" where
  "readDeliveryReceipt r expectedVersion =
     bindE (checkD (fieldD r ''v'' = jnat expectedVersion) (atD r ''v'') D_invalid_version) (\<lambda>_.
     bindE (literalD (fieldD r ''kind'') (atD r ''kind'')
              (if expectedVersion = 1 then RECEIPT_KINDS_V1 else RECEIPT_KINDS_V2)) (\<lambda>kind.
     bindE (literalD (fieldD r ''source'') (atD r ''source'')
              (if expectedVersion = 1 then RECEIPT_SOURCES_V1 else RECEIPT_SOURCES_V2)) (\<lambda>source.
     bindE (nullableD (fieldD r ''evidenceRef'') (\<lambda>value. identifierD value (atD r ''evidenceRef''))) (\<lambda>evidenceRef.
     bindE (nullableD (fieldD r ''errorCode'') (\<lambda>value. literalD value (atD r ''errorCode'') RECEIPT_ERROR_CODES)) (\<lambda>errorCode.
     bindE (checkD (\<not> (expectedVersion = 2 \<and> kind = Rk_agent_acknowledged \<and> source \<noteq> Src_agent)) (atD r ''source'') D_invalid_field) (\<lambda>_.
     bindE (checkD (\<not> (expectedVersion = 2 \<and> source = Src_agent \<and> kind \<noteq> Rk_agent_acknowledged)) (atD r ''kind'') D_invalid_field) (\<lambda>_.
     bindE (checkD (\<not> (expectedVersion = 2 \<and> kind = Rk_agent_acknowledged \<and> evidenceRef = None)) (atD r ''evidenceRef'') D_invalid_field) (\<lambda>_.
     bindE (checkD (\<not> (errorCode \<noteq> None \<and> kind \<notin> set KINDS_WITH_ERROR)) (atD r ''errorCode'') D_invalid_field) (\<lambda>_.
     bindE (checkD (\<not> (kind = Rk_failed \<and> errorCode = None)) (atD r ''errorCode'') D_invalid_field) (\<lambda>_.
     bindE (readIdD (fieldD r ''receiptId'') (atD r ''receiptId'')) (\<lambda>receiptId.
     bindE (readIdD (fieldD r ''releaseId'') (atD r ''releaseId'')) (\<lambda>releaseId.
     bindE (readIdD (fieldD r ''bindingId'') (atD r ''bindingId'')) (\<lambda>bindingId.
     bindE (safeIntegerD (fieldD r ''generation'') (atD r ''generation'')) (\<lambda>generation.
     bindE (utcTimestampD (fieldD r ''observedAt'') (atD r ''observedAt'')) (\<lambda>observedAt.
     Inr \<lparr>rcpt_v = expectedVersion, rcpt_receiptId = receiptId, rcpt_releaseId = releaseId,
          rcpt_bindingId = bindingId, rcpt_generation = generation, rcpt_kind = kind,
          rcpt_observedAt = observedAt, rcpt_source = source, rcpt_evidenceRef = evidenceRef,
          rcpt_errorCode = errorCode\<rparr>)))))))))))))))"

definition decodeDeliveryReceiptV1 :: "jsval \<Rightarrow> deliveryReceipt decodedD" where
  "decodeDeliveryReceiptV1 input = bindE (objectD input [] RECEIPT_FIELDS) (\<lambda>r. readDeliveryReceipt r 1)"

definition decodeDeliveryReceiptV2 :: "jsval \<Rightarrow> deliveryReceipt decodedD" where
  "decodeDeliveryReceiptV2 input = bindE (objectD input [] RECEIPT_FIELDS) (\<lambda>r. readDeliveryReceipt r 2)"

definition decodeDeliveryReceiptTransport :: "jsval \<Rightarrow> deliveryReceipt decodedD" where
  "decodeDeliveryReceiptTransport input = bindE (objectD input [] RECEIPT_FIELDS) (\<lambda>r.
     if fieldD r ''v'' = jnat 1 then readDeliveryReceipt r 1
     else if fieldD r ''v'' = jnat 2 then readDeliveryReceipt r 2
     else failD (atD r ''v'') D_invalid_version)"

definition decodeDeliveryReceipt :: "jsval \<Rightarrow> deliveryReceipt decodedD" where
  "decodeDeliveryReceipt input = decodeDeliveryReceiptV1 input"

section \<open>What the primitives accept\<close>

lemma failD_simps [simp]: "failD p c \<noteq> Inr x" "Inr x \<noteq> failD p c"
  by (simp_all add: failD_def)

lemma checkD_eq_Inr [result_simps]: "checkD b p c = Inr u \<longleftrightarrow> b"
  by (simp add: checkD_def)

lemma utf8LengthD_eq: "utf8LengthD s = utf8Length s"
proof -
  have "foldl (\<lambda>bytes c. if c < 0x80 then bytes + 1 else if c < 0x800 then bytes + 2
     else if c < 0x10000 then bytes + 3 else bytes + 4) n cs
    = n + sum_list (map (\<lambda>c. if c < 0x80 then 1 else if c < 0x800 then 2
     else if c < 0x10000 then 3 else 4) cs)" for n :: nat and cs :: "nat list"
    by (induction cs arbitrary: n) auto
  then show ?thesis by (simp add: utf8LengthD_def utf8Length_def)
qed

lemma isWellFormedD_eq: "isWellFormedD s = isWellFormed s"
  by (induction s rule: isWellFormed.induct) (auto split: list.splits)

lemma control_zero: "isControl 0"
  by (simp add: isControl_def)

lemma identifierD_eq_Inr [result_simps]: "identifierD input p = Inr s \<longleftrightarrow> input = JStr s \<and> wfId s"
  using control_zero
  by (auto simp: identifierD_def wfId_def wfLabel_def wfText_def utf8LengthD_eq isWellFormedD_eq
      list_ex_iff not_less split: jsval.splits if_splits)

lemma readIdD_eq_Inr [result_simps]: "readIdD input p = Inr s \<longleftrightarrow> input = JStr s \<and> wfId s"
  by (simp add: readIdD_def result_simps)

lemma literalD_eq_Inr [result_simps]:
  "literalD input p allowed = Inr v \<longleftrightarrow>
     (\<exists>s. input = JStr s \<and> map_of (map (\<lambda>(k, v). (js k, v)) allowed) s = Some v)"
  by (auto simp: literalD_def split: jsval.splits option.splits)

lemma versionD_eq_Inr [result_simps]: "versionD input p = Inr u \<longleftrightarrow> input = jnat 1"
  by (simp add: versionD_def jnat_def)

lemma safeIntegerD_eq_Inr [result_simps]:
  "safeIntegerD input p = Inr n \<longleftrightarrow> input = jnat n \<and> safeNat n"
proof -
  have "safeIntegerD input p = Inr n \<longleftrightarrow> safeInteger input p = Inr n"
    by (auto simp: safeIntegerD_def safeInteger_def split: jsval.splits if_splits)
  then show ?thesis by (simp add: safeInteger_eq_Inr)
qed

lemma nullableD_eq_Inr [result_simps]:
  "nullableD input read = Inr x \<longleftrightarrow>
     (if input = JNull then x = None else (\<exists>y. read input = Inr y \<and> x = Some y))"
  by (auto simp: nullableD_def result_simps)

lemma utcTimestampD_eq_Inr [result_simps]:
  "utcTimestampD input p = Inr s \<longleftrightarrow> input = JStr s \<and> wfTimestamp s"
  by (auto simp: utcTimestampD_def wfTimestamp_def readbackOk_iff split: jsval.splits option.splits)

definition readerOfD :: "jsval \<Rightarrow> ustring \<Rightarrow> readerD" where
  "readerOfD j p = \<lparr>rdField = p, rdRecord = (case j of JObj _ ps \<Rightarrow> ps | _ \<Rightarrow> [])\<rparr>"

lemma objectD_eq_Inr [result_simps]:
  "objectD j p keys = Inr r \<longleftrightarrow> exactObject j keys \<and> r = readerOfD j p"
proof (cases j)
  case (JObj plain props)
  have u: "find (\<lambda>k. k \<notin> set (map js keys)) (map fst props) = None \<longleftrightarrow> fst ` set props \<subseteq> js ` set keys"
    by (auto simp: find_None_iff)
  have m: "find (\<lambda>k. map_of props (js k) = None) keys = None \<longleftrightarrow> js ` set keys \<subseteq> fst ` set props"
    by (auto simp: find_None_iff map_of_eq_None_iff)
  have "objectD j p keys = Inr r \<longleftrightarrow> plain
      \<and> find (\<lambda>k. k \<notin> set (map js keys)) (map fst props) = None
      \<and> find (\<lambda>k. map_of props (js k) = None) keys = None \<and> r = \<lparr>rdField = p, rdRecord = props\<rparr>"
    unfolding objectD_def JObj by (simp split: option.split) auto
  then show ?thesis unfolding u m using JObj by (auto simp: exactObject_def readerOfD_def)
qed (simp_all add: objectD_def exactObject_def)

lemma bind_objectD_iff:
  "bindE (objectD j p keys) f = Inr x \<longleftrightarrow> exactObject j keys \<and> f (readerOfD j p) = Inr x"
  by (auto simp: bindE_eq_Inr objectD_eq_Inr)

lemma fieldD_readerOfD [simp]: "fieldD (readerOfD j p) k = propOf j k"
  by (cases j) (simp_all add: readerOfD_def fieldD_def propOf_def)

section \<open>Receipt invariants\<close>

definition wfReceipt :: "deliveryReceipt \<Rightarrow> bool" where
  "wfReceipt x \<longleftrightarrow>
     (rcpt_v x = 1 \<longrightarrow> rcpt_kind x \<noteq> Rk_agent_acknowledged \<and> rcpt_source x \<noteq> Src_agent)
     \<and> (rcpt_kind x = Rk_agent_acknowledged \<longleftrightarrow> rcpt_source x = Src_agent)
     \<and> (rcpt_kind x = Rk_agent_acknowledged \<longrightarrow> rcpt_evidenceRef x \<noteq> None)
     \<and> (rcpt_errorCode x \<noteq> None \<longrightarrow> rcpt_kind x = Rk_failed \<or> rcpt_kind x = Rk_outcome_unknown)
     \<and> (rcpt_kind x = Rk_failed \<longrightarrow> rcpt_errorCode x \<noteq> None)
     \<and> wfId (rcpt_receiptId x) \<and> wfId (rcpt_releaseId x) \<and> wfId (rcpt_bindingId x)
     \<and> (\<forall>e. rcpt_evidenceRef x = Some e \<longrightarrow> wfId e)
     \<and> safeNat (rcpt_generation x) \<and> wfTimestamp (rcpt_observedAt x)"

definition receiptProps :: "jsval \<Rightarrow> deliveryReceipt \<Rightarrow> bool" where
  "receiptProps j x \<longleftrightarrow> exactObject j RECEIPT_FIELDS \<and> propOf j ''v'' = jnat (rcpt_v x)
     \<and> propOf j ''receiptId'' = JStr (rcpt_receiptId x) \<and> propOf j ''releaseId'' = JStr (rcpt_releaseId x)
     \<and> propOf j ''bindingId'' = JStr (rcpt_bindingId x) \<and> propOf j ''generation'' = jnat (rcpt_generation x)
     \<and> propOf j ''kind'' = JStr (js (litStr RECEIPT_KINDS_V2 (rcpt_kind x)))
     \<and> propOf j ''observedAt'' = JStr (rcpt_observedAt x)
     \<and> propOf j ''source'' = JStr (js (litStr RECEIPT_SOURCES_V2 (rcpt_source x)))
     \<and> propOf j ''evidenceRef'' = jnullable JStr (rcpt_evidenceRef x)
     \<and> propOf j ''errorCode'' = jnullable (\<lambda>c. JStr (js (litStr RECEIPT_ERROR_CODES c))) (rcpt_errorCode x)"

lemma UNIV_receipt_enums:
  "(UNIV :: receiptKind set) = {Rk_queued, Rk_dispatching, Rk_transport_written, Rk_harness_queued,
     Rk_context_consumed, Rk_completed, Rk_outcome_unknown, Rk_failed, Rk_cancel_requested, Rk_cancelled,
     Rk_agent_acknowledged}"
  "(UNIV :: receiptSource set) = {Src_connector, Src_harness, Src_agent}"
  "(UNIV :: receiptErrorCode set) = {Re_harness_unavailable, Re_harness_rejected, Re_session_unavailable,
     Re_busy_rejected, Re_stale_binding, Re_payload_digest_mismatch, Re_limit_exceeded, Re_disconnected, Re_timeout}"
  by (auto intro: receiptKind.exhaust receiptSource.exhaust receiptErrorCode.exhaust)

lemma literalD_v2_iff:
  "literalD j p RECEIPT_KINDS_V2 = Inr k \<longleftrightarrow> j = JStr (js (litStr RECEIPT_KINDS_V2 k))"
  "literalD j p RECEIPT_SOURCES_V2 = Inr s \<longleftrightarrow> j = JStr (js (litStr RECEIPT_SOURCES_V2 s))"
  "literalD j p RECEIPT_ERROR_CODES = Inr e \<longleftrightarrow> j = JStr (js (litStr RECEIPT_ERROR_CODES e))"
  unfolding literalD_eq_Inr
  by (subst map_of_literals; auto simp: RECEIPT_KINDS_V1_def RECEIPT_KINDS_V2_def RECEIPT_SOURCES_V1_def
      RECEIPT_SOURCES_V2_def RECEIPT_ERROR_CODES_def UNIV_receipt_enums)+

lemma literalD_v1_iff:
  "literalD j p RECEIPT_KINDS_V1 = Inr k \<longleftrightarrow> j = JStr (js (litStr RECEIPT_KINDS_V2 k)) \<and> k \<noteq> Rk_agent_acknowledged"
  "literalD j p RECEIPT_SOURCES_V1 = Inr s \<longleftrightarrow> j = JStr (js (litStr RECEIPT_SOURCES_V2 s)) \<and> s \<noteq> Src_agent"
  unfolding literalD_eq_Inr RECEIPT_KINDS_V2_def RECEIPT_SOURCES_V2_def
  by (subst map_of_literals_butlast; auto simp: RECEIPT_KINDS_V1_def RECEIPT_SOURCES_V1_def UNIV_receipt_enums)+

lemma nullableD_iffs:
  "nullableD j (\<lambda>value. identifierD value p) = Inr x \<longleftrightarrow> j = jnullable JStr x \<and> (\<forall>s. x = Some s \<longrightarrow> wfId s)"
  "nullableD j (\<lambda>value. literalD value p RECEIPT_ERROR_CODES) = Inr y
     \<longleftrightarrow> j = jnullable (\<lambda>c. JStr (js (litStr RECEIPT_ERROR_CODES c))) y"
  by (cases x; auto simp: nullableD_eq_Inr identifierD_eq_Inr)
    (cases y; auto simp: nullableD_eq_Inr literalD_v2_iff)

lemmas receipt_reads = bindE_eq_Inr checkD_eq_Inr literalD_v1_iff literalD_v2_iff nullableD_iffs
  readIdD_eq_Inr safeIntegerD_eq_Inr utcTimestampD_eq_Inr fieldD_readerOfD

lemma readDeliveryReceipt_v1:
  "exactObject j RECEIPT_FIELDS \<Longrightarrow> readDeliveryReceipt (readerOfD j []) 1 = Inr x \<longleftrightarrow>
     rcpt_v x = 1 \<and> receiptProps j x \<and> wfReceipt x"
  unfolding readDeliveryReceipt_def receiptProps_def wfReceipt_def KINDS_WITH_ERROR_def
  by (cases "rcpt_errorCode x"; cases "rcpt_kind x = Rk_agent_acknowledged"; cases x;
      simp add: receipt_reads; (rule iffI; elim conjE; hypsubst?; simp)?)

lemma readDeliveryReceipt_v2:
  "exactObject j RECEIPT_FIELDS \<Longrightarrow> readDeliveryReceipt (readerOfD j []) 2 = Inr x \<longleftrightarrow>
     rcpt_v x = 2 \<and> receiptProps j x \<and> wfReceipt x"
  unfolding readDeliveryReceipt_def receiptProps_def wfReceipt_def KINDS_WITH_ERROR_def
  by (cases "rcpt_errorCode x"; cases "rcpt_kind x = Rk_agent_acknowledged"; cases x;
      simp add: receipt_reads; (rule iffI; elim conjE; hypsubst?; simp)?)

section \<open>Properties\<close>

text \<open>The transport decoder accepts a receipt exactly when the input is a plain object with the ten
  receipt fields, of version 1 or 2, whose fields are the receipt's own (nothing is coerced or dropped)
  and which satisfies the receipt rules: an acknowledgement kind and an agent source come only
  together, only in version 2 and with evidence; only failed and outcome-unknown observations carry an
  error code, and failed always does.\<close>

theorem decodeDeliveryReceiptTransport_exact:
  "decodeDeliveryReceiptTransport j = Inr x \<longleftrightarrow>
     (rcpt_v x = 1 \<or> rcpt_v x = 2) \<and> receiptProps j x \<and> wfReceipt x"
proof -
  have v: "receiptProps j x \<Longrightarrow> propOf j ''v'' = jnat (rcpt_v x) \<and> exactObject j RECEIPT_FIELDS"
    by (simp add: receiptProps_def)
  show ?thesis
    unfolding decodeDeliveryReceiptTransport_def bind_objectD_iff
    using v readDeliveryReceipt_v1[of j x] readDeliveryReceipt_v2[of j x] by auto
qed

end
