(* ===== verification/ListeningMode.thy ===== *)
theory ListeningMode
  imports Delivery Listener
begin

text \<open>
  Listening-mode commands, capability support, route grants and the owner mailbox's view
  (\<^verbatim>\<open>packages/contracts/src/delivery/listening-mode.ts\<close>). The three shapes of \<open>ModeSupport\<close> share one
  record; which of its optional fields are present is the invariant \<open>wfModeSupport\<close> of its reader.
\<close>

datatype modeSupportStatus = Proven | Experimental | Blocked_without_wrapper | Unsupported | Unknown

definition MODE_SUPPORT_STATUSES :: "(string \<times> modeSupportStatus) list" where
  "MODE_SUPPORT_STATUSES = [(''proven'', Proven), (''experimental'', Experimental),
     (''blocked_without_wrapper'', Blocked_without_wrapper), (''unsupported'', Unsupported), (''unknown'', Unknown)]"

record modeSupport =
  ms_status :: modeSupportStatus
  ms_route :: ustring
  ms_testedVersion :: "ustring option"
  ms_evidenceRef :: "ustring option"
  ms_evidenceRevision :: "ustring option"
  ms_reason :: "ustring option"

record modeSupportMap =
  sup_steer :: modeSupport
  sup_sync :: modeSupport
  sup_async :: modeSupport

definition supportOf :: "modeSupportMap \<Rightarrow> deliveryMode \<Rightarrow> modeSupport" where
  "supportOf modes m = (case m of Steer \<Rightarrow> sup_steer modes | Sync \<Rightarrow> sup_sync modes | Async \<Rightarrow> sup_async modes)"

datatype grantCommandKind =
  Grant_experimental_route | Revoke_experimental_route | Grant_hard_cancel | Revoke_hard_cancel

definition OWNER_ROUTE_GRANT_COMMAND_KINDS :: "(string \<times> grantCommandKind) list" where
  "OWNER_ROUTE_GRANT_COMMAND_KINDS = [(''grant_experimental_route'', Grant_experimental_route),
     (''revoke_experimental_route'', Revoke_experimental_route), (''grant_hard_cancel'', Grant_hard_cancel),
     (''revoke_hard_cancel'', Revoke_hard_cancel)]"

datatype modeResultOutcome = Applied | Conflict | Refused

definition LISTENING_MODE_RESULT_OUTCOMES :: "(string \<times> modeResultOutcome) list" where
  "LISTENING_MODE_RESULT_OUTCOMES = [(''applied'', Applied), (''conflict'', Conflict), (''refused'', Refused)]"

record listeningModeCommand =
  lc_commandId :: ustring
  lc_bindingId :: ustring
  lc_expectedBindingGeneration :: nat
  lc_expectedVersion :: nat
  lc_requested :: deliveryMode
  lc_issuedAt :: ustring

record listeningModeResult =
  lr_commandId :: ustring
  lr_bindingId :: ustring
  lr_generation :: nat
  lr_outcome :: modeResultOutcome
  lr_version :: nat
  lr_requested :: "deliveryMode option"
  lr_effective :: "deliveryMode option"
  lr_reason :: "ustring option"

record ownerRouteGrantCommand =
  gc_kind :: grantCommandKind
  gc_commandId :: ustring
  gc_bindingId :: ustring
  gc_expectedBindingGeneration :: nat
  gc_expectedVersion :: nat
  gc_mode :: deliveryMode
  gc_route :: ustring
  gc_harnessVersion :: ustring
  gc_evidenceRevision :: ustring
  gc_issuedAt :: ustring

datatype grantKind = Experimental_route | Hard_cancel

definition grantKinds :: "(string \<times> grantKind) list" where
  "grantKinds = [(''experimental_route'', Experimental_route), (''hard_cancel'', Hard_cancel)]"

record routeGrant =
  rg_kind :: grantKind
  rg_bindingId :: ustring
  rg_generation :: nat
  rg_mode :: deliveryMode
  rg_route :: ustring
  rg_harnessVersion :: ustring
  rg_evidenceRevision :: ustring
  rg_grantRevision :: nat

datatype listeningModeActor = Actor_owner ustring | Actor_agent ustring | Actor_unknown

record listeningModeView =
  lv_bindingId :: ustring
  lv_generation :: nat
  lv_requested :: "deliveryMode option"
  lv_version :: nat
  lv_experimentalGrants :: "routeGrant list"
  lv_hardCancelGrants :: "routeGrant list"
  lv_lastChangedBy :: listeningModeActor
  lv_effective :: "deliveryMode option"
  lv_effectiveReason :: "ustring option"
  lv_support :: modeSupportMap

section \<open>Readers\<close>

datatype actorKind = Kind_owner | Kind_agent | Kind_unknown

definition readListeningModeActor :: "jsval \<Rightarrow> ustring \<Rightarrow> listeningModeActor decodedD" where
  "readListeningModeActor input f =
     (if input = JUndef then Inr Actor_unknown
      else bindE (literalD (getProp input (js ''kind'')) (f @ js ''.kind'')
             [(''owner'', Kind_owner), (''agent'', Kind_agent), (''unknown'', Kind_unknown)]) (\<lambda>kind.
        if kind = Kind_unknown then bindE (objectD input f [''kind'']) (\<lambda>_. Inr Actor_unknown)
        else bindE (objectD input f [''kind'', ''participantId'']) (\<lambda>r.
          bindE (readIdD (fieldD r ''participantId'') (atD r ''participantId'')) (\<lambda>participantId.
          Inr (if kind = Kind_owner then Actor_owner participantId else Actor_agent participantId)))))"

definition requiredReason :: "jsval \<Rightarrow> ustring \<Rightarrow> ustring decodedD" where
  "requiredReason input f = bindE (identifierD input f) (\<lambda>reason.
     if length (trim reason) = 0 then failD f D_invalid_field else Inr reason)"

definition readModeSupport :: "jsval \<Rightarrow> ustring \<Rightarrow> modeSupport decodedD" where
  "readModeSupport input f =
     bindE (literalD (getProp input (js ''status'')) (joinD f (js ''status'')) MODE_SUPPORT_STATUSES) (\<lambda>status.
     let hasTestedVersion = hasOwn input (js ''testedVersion'') in
     bindE (objectD input f ([''status'', ''route''] @ (if hasTestedVersion then [''testedVersion''] else [])
              @ [''evidenceRef'', ''evidenceRevision'', ''reason''])) (\<lambda>r.
     bindE (identifierD (fieldD r ''route'') (atD r ''route'')) (\<lambda>route.
     if status = Blocked_without_wrapper then
       bindE (checkD hasTestedVersion (atD r ''testedVersion'') D_invalid_field) (\<lambda>_.
       bindE (identifierD (fieldD r ''testedVersion'') (atD r ''testedVersion'')) (\<lambda>testedVersion.
       bindE (identifierD (fieldD r ''evidenceRef'') (atD r ''evidenceRef'')) (\<lambda>evidenceRef.
       bindE (identifierD (fieldD r ''evidenceRevision'') (atD r ''evidenceRevision'')) (\<lambda>evidenceRevision.
       bindE (requiredReason (fieldD r ''reason'') (atD r ''reason'')) (\<lambda>reason.
       Inr \<lparr>ms_status = status, ms_route = route, ms_testedVersion = Some testedVersion,
            ms_evidenceRef = Some evidenceRef, ms_evidenceRevision = Some evidenceRevision, ms_reason = Some reason\<rparr>)))))
     else if status = Proven \<or> status = Experimental then
       bindE (checkD hasTestedVersion (atD r ''testedVersion'') D_invalid_field) (\<lambda>_.
       bindE (identifierD (fieldD r ''testedVersion'') (atD r ''testedVersion'')) (\<lambda>testedVersion.
       bindE (identifierD (fieldD r ''evidenceRef'') (atD r ''evidenceRef'')) (\<lambda>evidenceRef.
       bindE (identifierD (fieldD r ''evidenceRevision'') (atD r ''evidenceRevision'')) (\<lambda>evidenceRevision.
       bindE (nullableD (fieldD r ''reason'') (\<lambda>value. requiredReason value (atD r ''reason''))) (\<lambda>reason.
       Inr \<lparr>ms_status = status, ms_route = route, ms_testedVersion = Some testedVersion,
            ms_evidenceRef = Some evidenceRef, ms_evidenceRevision = Some evidenceRevision, ms_reason = reason\<rparr>)))))
     else
       bindE (nullableD (fieldD r ''evidenceRef'') (\<lambda>value. identifierD value (atD r ''evidenceRef''))) (\<lambda>evidenceRef.
       bindE (nullableD (fieldD r ''evidenceRevision'') (\<lambda>value. identifierD value (atD r ''evidenceRevision''))) (\<lambda>evidenceRevision.
       bindE (checkD ((evidenceRef = None) = (evidenceRevision = None)) (atD r ''evidenceRevision'') D_invalid_field) (\<lambda>_.
       bindE (if hasTestedVersion
              then bindE (identifierD (fieldD r ''testedVersion'') (atD r ''testedVersion'')) (\<lambda>t. Inr (Some t))
              else Inr None) (\<lambda>testedVersion.
       bindE (requiredReason (fieldD r ''reason'') (atD r ''reason'')) (\<lambda>reason.
       Inr \<lparr>ms_status = status, ms_route = route, ms_testedVersion = testedVersion,
            ms_evidenceRef = evidenceRef, ms_evidenceRevision = evidenceRevision, ms_reason = Some reason\<rparr>))))))))"

definition decodeModeSupport :: "jsval \<Rightarrow> modeSupport decodedD" where
  "decodeModeSupport input = readModeSupport input []"

definition readModeSupportMap :: "jsval \<Rightarrow> ustring \<Rightarrow> modeSupportMap decodedD" where
  "readModeSupportMap input f =
     bindE (objectD input f [''steer'', ''sync'', ''async'']) (\<lambda>r.
     bindE (readModeSupport (fieldD r ''steer'') (atD r ''steer'')) (\<lambda>steer.
     bindE (readModeSupport (fieldD r ''sync'') (atD r ''sync'')) (\<lambda>sync.
     bindE (readModeSupport (fieldD r ''async'') (atD r ''async'')) (\<lambda>async.
     Inr \<lparr>sup_steer = steer, sup_sync = sync, sup_async = async\<rparr>))))"

definition decodeModeSupportMap :: "jsval \<Rightarrow> modeSupportMap decodedD" where
  "decodeModeSupportMap input = readModeSupportMap input []"

definition readRouteGrant :: "jsval \<Rightarrow> ustring \<Rightarrow> routeGrant decodedD" where
  "readRouteGrant item at_f =
     bindE (objectD item at_f [''v'', ''kind'', ''bindingId'', ''generation'', ''mode'', ''route'',
              ''harnessVersion'', ''evidenceRevision'', ''grantRevision'']) (\<lambda>g.
     bindE (versionD (fieldD g ''v'') (atD g ''v'')) (\<lambda>_.
     bindE (literalD (fieldD g ''kind'') (atD g ''kind'') grantKinds) (\<lambda>kind.
     bindE (readIdD (fieldD g ''bindingId'') (atD g ''bindingId'')) (\<lambda>bindingId.
     bindE (safeIntegerD (fieldD g ''generation'') (atD g ''generation'')) (\<lambda>generation.
     bindE (literalD (fieldD g ''mode'') (atD g ''mode'') DELIVERY_MODES) (\<lambda>mode.
     bindE (identifierD (fieldD g ''route'') (atD g ''route'')) (\<lambda>route.
     bindE (identifierD (fieldD g ''harnessVersion'') (atD g ''harnessVersion'')) (\<lambda>harnessVersion.
     bindE (identifierD (fieldD g ''evidenceRevision'') (atD g ''evidenceRevision'')) (\<lambda>evidenceRevision.
     bindE (safeIntegerD (fieldD g ''grantRevision'') (atD g ''grantRevision'')) (\<lambda>grantRevision.
     Inr \<lparr>rg_kind = kind, rg_bindingId = bindingId, rg_generation = generation, rg_mode = mode,
          rg_route = route, rg_harnessVersion = harnessVersion, rg_evidenceRevision = evidenceRevision,
          rg_grantRevision = grantRevision\<rparr>))))))))))"

definition readGrants :: "jsval \<Rightarrow> ustring \<Rightarrow> routeGrant list decodedD" where
  "readGrants value f = (case value of
     JArr items \<Rightarrow>
       if length items > 32 then failD f D_invalid_field
       else mapE (\<lambda>index item. readRouteGrant item (f @ js ''.'' @ dec_digits index)) items
   | _ \<Rightarrow> failD f D_invalid_field)"

definition decodeListeningModeView :: "jsval \<Rightarrow> listeningModeView decodedD" where
  "decodeListeningModeView input =
     bindE (objectD input [] [''bindingId'', ''generation'', ''requested'', ''version'', ''experimentalGrants'',
              ''hardCancelGrants'', ''lastChangedBy'', ''effective'', ''effectiveReason'', ''support'']) (\<lambda>r.
     bindE (readIdD (fieldD r ''bindingId'') (atD r ''bindingId'')) (\<lambda>bindingId.
     bindE (safeIntegerD (fieldD r ''generation'') (atD r ''generation'')) (\<lambda>generation.
     bindE (nullableD (fieldD r ''requested'') (\<lambda>value. literalD value (atD r ''requested'') DELIVERY_MODES)) (\<lambda>requested.
     bindE (safeIntegerD (fieldD r ''version'') (atD r ''version'')) (\<lambda>version.
     bindE (readGrants (fieldD r ''experimentalGrants'') (atD r ''experimentalGrants'')) (\<lambda>experimentalGrants.
     bindE (readGrants (fieldD r ''hardCancelGrants'') (atD r ''hardCancelGrants'')) (\<lambda>hardCancelGrants.
     bindE (readListeningModeActor (fieldD r ''lastChangedBy'') (atD r ''lastChangedBy'')) (\<lambda>lastChangedBy.
     bindE (nullableD (fieldD r ''effective'') (\<lambda>value. literalD value (atD r ''effective'') DELIVERY_MODES)) (\<lambda>effective.
     bindE (nullableD (fieldD r ''effectiveReason'') (\<lambda>value. requiredReason value (atD r ''effectiveReason''))) (\<lambda>effectiveReason.
     bindE (readModeSupportMap (fieldD r ''support'') (atD r ''support'')) (\<lambda>support.
     bindE (checkD (\<not> list_ex (\<lambda>grant. rg_bindingId grant \<noteq> bindingId \<or> rg_generation grant \<noteq> generation)
              (experimentalGrants @ hardCancelGrants)) (js ''grants'') D_invalid_field) (\<lambda>_.
     Inr \<lparr>lv_bindingId = bindingId, lv_generation = generation, lv_requested = requested, lv_version = version,
          lv_experimentalGrants = experimentalGrants, lv_hardCancelGrants = hardCancelGrants,
          lv_lastChangedBy = lastChangedBy, lv_effective = effective, lv_effectiveReason = effectiveReason,
          lv_support = support\<rparr>))))))))))))"

section \<open>Support maps, initial mode and grants\<close>

definition unknownModeSupport :: "ustring \<Rightarrow> ustring \<Rightarrow> ustring option \<Rightarrow> modeSupport" where
  "unknownModeSupport route reason testedVersion =
     \<lparr>ms_status = Unknown, ms_route = route, ms_testedVersion = testedVersion, ms_evidenceRef = None,
      ms_evidenceRevision = None, ms_reason = Some reason\<rparr>"

definition unknownModeSupportMap :: "ustring \<Rightarrow> ustring \<Rightarrow> ustring option \<Rightarrow> modeSupportMap" where
  "unknownModeSupportMap routePrefix reason testedVersion =
     \<lparr>sup_steer = unknownModeSupport (routePrefix @ js ''-steer'') reason testedVersion,
      sup_sync = unknownModeSupport (routePrefix @ js ''-sync'') reason testedVersion,
      sup_async = unknownModeSupport (routePrefix @ js ''-async'') reason testedVersion\<rparr>"

definition initialListeningMode :: "modeSupportMap \<Rightarrow> deliveryMode option \<times> ustring option" where
  "initialListeningMode modes =
     (let evidenced = list_ex (\<lambda>mode. ms_status (supportOf modes mode) = Proven
            \<or> ms_status (supportOf modes mode) = Experimental) [Steer, Sync, Async] in
      if \<not> evidenced then (None, None)
      else
        let sync = sup_sync modes; asyncSupport = sup_async modes;
            exactNegative = ms_status sync = Unsupported \<and> ms_testedVersion sync \<noteq> None
              \<and> ms_evidenceRef sync \<noteq> None \<and> ms_evidenceRevision sync \<noteq> None in
        if exactNegative \<and> ms_status asyncSupport = Proven then (Some Async, ms_reason sync)
        else (Some Sync, None))"

record grantMatchInput =
  gm_bindingId :: ustring
  gm_generation :: nat
  gm_grantRevision :: nat
  gm_mode :: deliveryMode
  gm_expectedKind :: grantKind
  gm_support :: modeSupport

definition routeGrantMatches :: "routeGrant \<Rightarrow> grantMatchInput \<Rightarrow> bool" where
  "routeGrantMatches grant input =
     (let support = gm_support input in
      if ms_status support \<noteq> Proven \<and> ms_status support \<noteq> Experimental then False
      else rg_kind grant = gm_expectedKind input
        \<and> rg_bindingId grant = gm_bindingId input
        \<and> rg_generation grant = gm_generation input
        \<and> rg_grantRevision grant = gm_grantRevision input
        \<and> rg_mode grant = gm_mode input
        \<and> rg_route grant = ms_route support
        \<and> Some (rg_harnessVersion grant) = ms_testedVersion support
        \<and> Some (rg_evidenceRevision grant) = ms_evidenceRevision support)"

section \<open>Commands and results\<close>

definition decodeListeningModeCommand :: "jsval \<Rightarrow> listeningModeCommand decodedD" where
  "decodeListeningModeCommand input =
     bindE (objectD input [] [''v'', ''commandId'', ''bindingId'', ''expectedBindingGeneration'',
              ''expectedVersion'', ''requested'', ''issuedAt'']) (\<lambda>r.
     bindE (versionD (fieldD r ''v'') (atD r ''v'')) (\<lambda>_.
     bindE (readIdD (fieldD r ''commandId'') (atD r ''commandId'')) (\<lambda>commandId.
     bindE (readIdD (fieldD r ''bindingId'') (atD r ''bindingId'')) (\<lambda>bindingId.
     bindE (safeIntegerD (fieldD r ''expectedBindingGeneration'') (atD r ''expectedBindingGeneration'')) (\<lambda>generation.
     bindE (safeIntegerD (fieldD r ''expectedVersion'') (atD r ''expectedVersion'')) (\<lambda>version.
     bindE (literalD (fieldD r ''requested'') (atD r ''requested'') DELIVERY_MODES) (\<lambda>requested.
     bindE (utcTimestampD (fieldD r ''issuedAt'') (atD r ''issuedAt'')) (\<lambda>issuedAt.
     Inr \<lparr>lc_commandId = commandId, lc_bindingId = bindingId, lc_expectedBindingGeneration = generation,
          lc_expectedVersion = version, lc_requested = requested, lc_issuedAt = issuedAt\<rparr>))))))))"

definition decodeListeningModeResult :: "jsval \<Rightarrow> listeningModeResult decodedD" where
  "decodeListeningModeResult input =
     bindE (objectD input [] [''v'', ''commandId'', ''bindingId'', ''generation'', ''outcome'', ''version'',
              ''requested'', ''effective'', ''reason'']) (\<lambda>r.
     bindE (versionD (fieldD r ''v'') (atD r ''v'')) (\<lambda>_.
     bindE (readIdD (fieldD r ''commandId'') (atD r ''commandId'')) (\<lambda>commandId.
     bindE (readIdD (fieldD r ''bindingId'') (atD r ''bindingId'')) (\<lambda>bindingId.
     bindE (safeIntegerD (fieldD r ''generation'') (atD r ''generation'')) (\<lambda>generation.
     bindE (literalD (fieldD r ''outcome'') (atD r ''outcome'') LISTENING_MODE_RESULT_OUTCOMES) (\<lambda>outcome.
     bindE (safeIntegerD (fieldD r ''version'') (atD r ''version'')) (\<lambda>version.
     bindE (nullableD (fieldD r ''requested'') (\<lambda>value. literalD value (atD r ''requested'') DELIVERY_MODES)) (\<lambda>requested.
     bindE (nullableD (fieldD r ''effective'') (\<lambda>value. literalD value (atD r ''effective'') DELIVERY_MODES)) (\<lambda>effective.
     bindE (nullableD (fieldD r ''reason'') (\<lambda>value. requiredReason value (atD r ''reason''))) (\<lambda>reason.
     Inr \<lparr>lr_commandId = commandId, lr_bindingId = bindingId, lr_generation = generation, lr_outcome = outcome,
          lr_version = version, lr_requested = requested, lr_effective = effective, lr_reason = reason\<rparr>))))))))))"

definition decodeOwnerRouteGrantCommand :: "jsval \<Rightarrow> ownerRouteGrantCommand decodedD" where
  "decodeOwnerRouteGrantCommand input =
     bindE (objectD input [] [''v'', ''kind'', ''commandId'', ''bindingId'', ''expectedBindingGeneration'',
              ''expectedVersion'', ''mode'', ''route'', ''harnessVersion'', ''evidenceRevision'', ''issuedAt'']) (\<lambda>r.
     bindE (versionD (fieldD r ''v'') (atD r ''v'')) (\<lambda>_.
     bindE (literalD (fieldD r ''kind'') (atD r ''kind'') OWNER_ROUTE_GRANT_COMMAND_KINDS) (\<lambda>kind.
     bindE (readIdD (fieldD r ''commandId'') (atD r ''commandId'')) (\<lambda>commandId.
     bindE (readIdD (fieldD r ''bindingId'') (atD r ''bindingId'')) (\<lambda>bindingId.
     bindE (safeIntegerD (fieldD r ''expectedBindingGeneration'') (atD r ''expectedBindingGeneration'')) (\<lambda>generation.
     bindE (safeIntegerD (fieldD r ''expectedVersion'') (atD r ''expectedVersion'')) (\<lambda>version.
     bindE (literalD (fieldD r ''mode'') (atD r ''mode'') DELIVERY_MODES) (\<lambda>mode.
     bindE (identifierD (fieldD r ''route'') (atD r ''route'')) (\<lambda>route.
     bindE (identifierD (fieldD r ''harnessVersion'') (atD r ''harnessVersion'')) (\<lambda>harnessVersion.
     bindE (identifierD (fieldD r ''evidenceRevision'') (atD r ''evidenceRevision'')) (\<lambda>evidenceRevision.
     bindE (utcTimestampD (fieldD r ''issuedAt'') (atD r ''issuedAt'')) (\<lambda>issuedAt.
     Inr \<lparr>gc_kind = kind, gc_commandId = commandId, gc_bindingId = bindingId,
          gc_expectedBindingGeneration = generation, gc_expectedVersion = version, gc_mode = mode,
          gc_route = route, gc_harnessVersion = harnessVersion, gc_evidenceRevision = evidenceRevision,
          gc_issuedAt = issuedAt\<rparr>))))))))))))"

section \<open>The JSON form of a support entry\<close>

text \<open>The object a \<open>ModeSupport\<close> is as JSON: an absent optional property is left out, \<open>null\<close> is kept.\<close>

definition encodeModeSupport :: "modeSupport \<Rightarrow> jsval" where
  "encodeModeSupport m = JObj True (
     [(js ''status'', JStr (js (litStr MODE_SUPPORT_STATUSES (ms_status m)))), (js ''route'', JStr (ms_route m))]
     @ (case ms_testedVersion m of None \<Rightarrow> [] | Some t \<Rightarrow> [(js ''testedVersion'', JStr t)])
     @ [(js ''evidenceRef'', jnullable JStr (ms_evidenceRef m)),
        (js ''evidenceRevision'', jnullable JStr (ms_evidenceRevision m)),
        (js ''reason'', jnullable JStr (ms_reason m))])"

section \<open>Sample values\<close>

definition sampleProven :: modeSupport where
  "sampleProven = \<lparr>ms_status = Proven, ms_route = js ''hook'', ms_testedVersion = Some (js ''2.1''),
     ms_evidenceRef = Some (js ''run-7''), ms_evidenceRevision = Some (js ''r2''), ms_reason = None\<rparr>"

definition sampleUnsupported :: modeSupport where
  "sampleUnsupported = sampleProven\<lparr>ms_status := Unsupported, ms_reason := Some (js ''no turn boundary'')\<rparr>"

definition sampleSupportMap :: jsval where
  "sampleSupportMap = JObj True [
     (js ''steer'', encodeModeSupport (unknownModeSupport (js ''x-steer'') (js ''untested'') None)),
     (js ''sync'', encodeModeSupport sampleUnsupported), (js ''async'', encodeModeSupport sampleProven)]"

definition sampleView :: jsval where
  "sampleView = JObj True [
     (js ''bindingId'', JStr (js ''b1'')), (js ''generation'', jnat 2), (js ''requested'', JStr (js ''async'')),
     (js ''version'', jnat 4),
     (js ''experimentalGrants'', JArr [JObj True [
        (js ''v'', jnat 1), (js ''kind'', JStr (js ''experimental_route'')), (js ''bindingId'', JStr (js ''b1'')),
        (js ''generation'', jnat 2), (js ''mode'', JStr (js ''async'')), (js ''route'', JStr (js ''hook'')),
        (js ''harnessVersion'', JStr (js ''2.1'')), (js ''evidenceRevision'', JStr (js ''r2'')),
        (js ''grantRevision'', jnat 3)]]),
     (js ''hardCancelGrants'', JArr []), (js ''lastChangedBy'', JObj True [(js ''kind'', JStr (js ''unknown''))]),
     (js ''effective'', JNull), (js ''effectiveReason'', JNull), (js ''support'', sampleSupportMap)]"

definition sampleGrant :: routeGrant where
  "sampleGrant = \<lparr>rg_kind = Experimental_route, rg_bindingId = js ''b1'', rg_generation = 2, rg_mode = Async,
     rg_route = js ''hook'', rg_harnessVersion = js ''2.1'', rg_evidenceRevision = js ''r2'', rg_grantRevision = 3\<rparr>"

definition sampleMatch :: grantMatchInput where
  "sampleMatch = \<lparr>gm_bindingId = js ''b1'', gm_generation = 2, gm_grantRevision = 3, gm_mode = Async,
     gm_expectedKind = Experimental_route, gm_support = sampleProven\<rparr>"

section \<open>Lemmas\<close>

definition wfModeSupport :: "modeSupport \<Rightarrow> bool" where
  "wfModeSupport m \<longleftrightarrow> wfId (ms_route m)
     \<and> (\<forall>t. ms_testedVersion m = Some t \<longrightarrow> wfId t) \<and> (\<forall>t. ms_evidenceRef m = Some t \<longrightarrow> wfId t)
     \<and> (\<forall>t. ms_evidenceRevision m = Some t \<longrightarrow> wfId t) \<and> (\<forall>t. ms_reason m = Some t \<longrightarrow> wfId t \<and> trim t \<noteq> [])
     \<and> ((ms_evidenceRef m = None) = (ms_evidenceRevision m = None))
     \<and> (ms_status m \<in> {Proven, Experimental, Blocked_without_wrapper} \<longrightarrow>
          ms_testedVersion m \<noteq> None \<and> ms_evidenceRef m \<noteq> None)
     \<and> (ms_status m \<notin> {Proven, Experimental} \<longrightarrow> ms_reason m \<noteq> None)"

lemma requiredReason_eq_Inr [result_simps]:
  "requiredReason j f = Inr s \<longleftrightarrow> j = JStr s \<and> wfId s \<and> trim s \<noteq> []"
  by (auto simp: requiredReason_def result_simps)

lemma nullableD_wf:
  "nullableD j (\<lambda>v. identifierD v p) = Inr x \<Longrightarrow> \<forall>s. x = Some s \<longrightarrow> wfId s"
  "nullableD j (\<lambda>v. requiredReason v p) = Inr y \<Longrightarrow> \<forall>s. y = Some s \<longrightarrow> wfId s \<and> trim s \<noteq> []"
  by (cases "j = JNull"; auto simp: nullableD_eq_Inr identifierD_eq_Inr requiredReason_eq_Inr)+

lemma optional_identifier_wf:
  "(if b then bindE (identifierD j p) (\<lambda>t. Inr (Some t)) else Inr None) = Inr x
     \<Longrightarrow> \<forall>s. x = Some s \<longrightarrow> wfId s"
  by (auto simp: bindE_eq_Inr identifierD_eq_Inr split: if_splits)

lemma readModeSupport_wf:
  assumes "readModeSupport j f = Inr m"
  shows "wfModeSupport m"
proof -
  show ?thesis
    using assms unfolding readModeSupport_def Let_def bindE_eq_Inr checkD_eq_Inr identifierD_eq_Inr
      requiredReason_eq_Inr if_distrib[of "\<lambda>x. x = Inr m"] sum.inject
    apply (elim exE conjE)
    subgoal for status r route
      by (cases status; simp only: modeSupportStatus.distinct if_True if_False simp_thms;
          elim exE conjE; ((drule nullableD_wf optional_identifier_wf)+)?; hypsubst?; simp add: wfModeSupport_def)
    done
qed

lemma readModeSupportMap_wf:
  "readModeSupportMap j f = Inr s \<Longrightarrow> wfModeSupport (supportOf s m)"
  unfolding readModeSupportMap_def
  by (cases m) (auto simp: bindE_eq_Inr supportOf_def dest: readModeSupport_wf)

lemma readGrants_length: "readGrants j f = Inr gs \<Longrightarrow> length gs \<le> 32"
  by (auto simp: readGrants_def mapE_eq_Inr split: jsval.splits if_splits)

lemma UNIV_modeSupportStatus: "UNIV = {Proven, Experimental, Blocked_without_wrapper, Unsupported, Unknown}"
  using modeSupportStatus.exhaust by blast

lemma literalD_status: "literalD (JStr (js (litStr MODE_SUPPORT_STATUSES st))) p MODE_SUPPORT_STATUSES = Inr st"
  by (cases st) (simp_all add: literalD_def MODE_SUPPORT_STATUSES_def litStr_def)

lemma encodeModeSupport_reads:
  "getProp (encodeModeSupport m) (js ''status'') = JStr (js (litStr MODE_SUPPORT_STATUSES (ms_status m)))"
  "hasOwn (encodeModeSupport m) (js ''testedVersion'') \<longleftrightarrow> ms_testedVersion m \<noteq> None"
  "propOf (encodeModeSupport m) ''route'' = JStr (ms_route m)"
  "propOf (encodeModeSupport m) ''evidenceRef'' = jnullable JStr (ms_evidenceRef m)"
  "propOf (encodeModeSupport m) ''evidenceRevision'' = jnullable JStr (ms_evidenceRevision m)"
  "propOf (encodeModeSupport m) ''reason'' = jnullable JStr (ms_reason m)"
  "ms_testedVersion m = Some t \<Longrightarrow> propOf (encodeModeSupport m) ''testedVersion'' = JStr t"
  by (cases "ms_testedVersion m"; simp add: encodeModeSupport_def propOf_def)+

lemma encodeModeSupport_object:
  "ms_testedVersion m = None \<Longrightarrow> objectD (encodeModeSupport m) f
     [''status'', ''route'', ''evidenceRef'', ''evidenceRevision'', ''reason''] = Inr (readerOfD (encodeModeSupport m) f)"
  "ms_testedVersion m = Some t \<Longrightarrow> objectD (encodeModeSupport m) f
     [''status'', ''route'', ''testedVersion'', ''evidenceRef'', ''evidenceRevision'', ''reason'']
     = Inr (readerOfD (encodeModeSupport m) f)"
  by (auto simp: objectD_eq_Inr encodeModeSupport_def exactObject_def)

lemma forward_reads:
  "wfId s \<Longrightarrow> identifierD (JStr s) p = Inr s"
  "wfId s \<Longrightarrow> trim s \<noteq> [] \<Longrightarrow> requiredReason (JStr s) p = Inr s"
  "nullableD JNull rd = Inr None"
  "nullableD (JStr s) rd = bindE (rd (JStr s)) (\<lambda>x. Inr (Some x))"
  "safeNat n \<Longrightarrow> safeIntegerD (jnat n) p = Inr n"
  "versionD (jnat 1) p = Inr ()"
  by (simp_all add: identifierD_eq_Inr requiredReason_eq_Inr nullableD_def safeIntegerD_eq_Inr versionD_eq_Inr)

lemma readModeSupport_encode:
  assumes "wfModeSupport m"
  shows "readModeSupport (encodeModeSupport m) f = Inr m"
proof -
  obtain st ro tv er ev re where m: "m = \<lparr>ms_status = st, ms_route = ro, ms_testedVersion = tv,
      ms_evidenceRef = er, ms_evidenceRevision = ev, ms_reason = re\<rparr>" by (cases m)
  from assms show ?thesis
    unfolding readModeSupport_def Let_def
    by (cases st; cases tv; cases er; cases ev; cases re)
      (simp_all add: literalD_status encodeModeSupport_reads encodeModeSupport_object forward_reads checkD_def
        wfModeSupport_def m)
qed

lemma sample_ids:
  "wfId (js ''hook'')" "wfId (js ''2.1'')" "wfId (js ''run-7'')" "wfId (js ''r2'')" "wfId (js ''b1'')"
  "wfId (js ''x-steer'')" "wfId (js ''untested'')" "wfId (js ''no turn boundary'')"
  "trim (js ''untested'') \<noteq> []" "trim (js ''no turn boundary'') \<noteq> []"
  by code_simp+

lemma sample_supports:
  "wfModeSupport sampleProven" "wfModeSupport sampleUnsupported"
  "wfModeSupport (unknownModeSupport (js ''x-steer'') (js ''untested'') None)"
  by (simp_all add: wfModeSupport_def sampleProven_def sampleUnsupported_def unknownModeSupport_def sample_ids)

lemma sampleSupportMap_reads:
  "readModeSupportMap sampleSupportMap f = Inr \<lparr>sup_steer = unknownModeSupport (js ''x-steer'') (js ''untested'') None,
     sup_sync = sampleUnsupported, sup_async = sampleProven\<rparr>"
  by (simp add: readModeSupportMap_def sampleSupportMap_def objectD_def fieldD_def readModeSupport_encode sample_supports)

lemma sampleView_reads:
  "\<exists>v. decodeListeningModeView sampleView = Inr v \<and> length (lv_experimentalGrants v) = 1"
  by (simp add: decodeListeningModeView_def sampleView_def objectD_def fieldD_def readIdD_def forward_reads sample_ids
      safeNat_def literalD_def DELIVERY_MODES_def readGrants_def readRouteGrant_def mapE_def
      grantKinds_def readListeningModeActor_def sampleSupportMap_reads checkD_def nullableD_def
      del: One_nat_def)

section \<open>Properties\<close>

text \<open>Encoding a support entry as JSON and reading it back returns the entry exactly when the entry
  is well formed: evidence present for the evidenced statuses, evidence reference and revision present
  together, a non-blank reason for every closed or blocked status.\<close>

theorem readModeSupport_roundtrip:
  "readModeSupport (encodeModeSupport m) f = Inr m \<longleftrightarrow> wfModeSupport m"
  using readModeSupport_encode readModeSupport_wf by blast

text \<open>The owner mailbox's snapshot decoder only accepts views in which every route grant is bound to
  the view's own binding and generation, at most 32 grants of each kind are listed, and every support
  entry is well formed.\<close>

theorem decodeListeningModeView_grants:
  assumes "decodeListeningModeView j = Inr v"
  shows "(\<forall>g \<in> set (lv_experimentalGrants v @ lv_hardCancelGrants v).
            rg_bindingId g = lv_bindingId v \<and> rg_generation g = lv_generation v)
    \<and> length (lv_experimentalGrants v) \<le> 32 \<and> length (lv_hardCancelGrants v) \<le> 32
    \<and> (\<forall>m. wfModeSupport (supportOf (lv_support v) m))"
  using assms unfolding decodeListeningModeView_def bindE_eq_Inr checkD_eq_Inr sum.inject
  by (elim exE conjE) ((drule readGrants_length)+, auto simp: list_ex_iff dest: readModeSupportMap_wf)

theorem decodeListeningModeView_grants_witness:
  "(case decodeListeningModeView sampleView of
      Inr v \<Rightarrow> length (lv_experimentalGrants v) = 1
        \<and> (\<forall>g \<in> set (lv_experimentalGrants v). rg_bindingId g = lv_bindingId v)
    | Inl e \<Rightarrow> False)"
  using sampleView_reads decodeListeningModeView_grants[of sampleView] by auto

text \<open>The initial mode of a session whose capabilities were decoded: nothing is requested exactly when no
  mode is proven or experimental; otherwise async is requested exactly when sync carries an exact, evidenced
  \<open>unsupported\<close> verdict and async is proven, and then a non-blank reason is always given; sync is requested
  in every other case. Steer is never chosen.\<close>

theorem initialListeningMode_cases:
  assumes "decodeModeSupportMap j = Inr s"
  shows "(fst (initialListeningMode s) = None \<longleftrightarrow>
            (\<forall>m. ms_status (supportOf s m) \<notin> {Proven, Experimental}))
    \<and> (fst (initialListeningMode s) = Some Async \<longleftrightarrow>
         ms_status (sup_sync s) = Unsupported \<and> ms_testedVersion (sup_sync s) \<noteq> None
         \<and> ms_evidenceRef (sup_sync s) \<noteq> None \<and> ms_status (sup_async s) = Proven)
    \<and> (fst (initialListeningMode s) = Some Async \<longrightarrow>
         (\<exists>r. snd (initialListeningMode s) = Some r \<and> trim r \<noteq> []))
    \<and> fst (initialListeningMode s) \<noteq> Some Steer"
proof -
  have w: "ms_status (sup_sync s) = Unsupported \<Longrightarrow> \<exists>r. ms_reason (sup_sync s) = Some r \<and> trim r \<noteq> []"
    "ms_evidenceRef (sup_sync s) = None \<longleftrightarrow> ms_evidenceRevision (sup_sync s) = None"
    using readModeSupportMap_wf[of j "[]" s Sync] assms by (auto simp: decodeModeSupportMap_def supportOf_def wfModeSupport_def)
  have modes: "(\<forall>m. P m) \<longleftrightarrow> P Steer \<and> P Sync \<and> P Async" for P
    using deliveryMode.exhaust by metis
  show ?thesis
    unfolding modes using w by (cases "ms_status (sup_sync s)"; simp add: initialListeningMode_def Let_def supportOf_def)
qed

theorem initialListeningMode_cases_witness:
  "(case decodeModeSupportMap sampleSupportMap of
      Inr s \<Rightarrow> fst (initialListeningMode s) = Some Async
        \<and> (\<exists>r. snd (initialListeningMode s) = Some r \<and> trim r \<noteq> [])
    | Inl e \<Rightarrow> False)"
  using initialListeningMode_cases[of sampleSupportMap] sampleSupportMap_reads[of "[]"]
  by (simp add: decodeModeSupportMap_def sampleUnsupported_def sampleProven_def)

text \<open>A route grant authorises one exact situation: two requests that match the same grant agree on
  binding, generation, grant revision, mode and kind, and on the route, harness version and evidence
  revision of the support entry, so any change to one of them stops the grant from matching.\<close>

theorem routeGrantMatches_pins:
  assumes "routeGrantMatches g a" and "routeGrantMatches g b"
  shows "gm_bindingId a = gm_bindingId b \<and> gm_generation a = gm_generation b
    \<and> gm_grantRevision a = gm_grantRevision b \<and> gm_mode a = gm_mode b \<and> gm_expectedKind a = gm_expectedKind b
    \<and> ms_route (gm_support a) = ms_route (gm_support b)
    \<and> ms_testedVersion (gm_support a) = ms_testedVersion (gm_support b)
    \<and> ms_evidenceRevision (gm_support a) = ms_evidenceRevision (gm_support b)
    \<and> ms_status (gm_support a) \<in> {Proven, Experimental}"
  using assms by (simp add: routeGrantMatches_def Let_def split: if_splits; metis)

theorem routeGrantMatches_pins_witness:
  "routeGrantMatches sampleGrant sampleMatch
   \<and> ms_testedVersion (gm_support sampleMatch) = ms_testedVersion (gm_support (sampleMatch\<lparr>gm_grantRevision := 3\<rparr>))"
proof -
  have "routeGrantMatches sampleGrant sampleMatch" by code_simp
  moreover have "routeGrantMatches sampleGrant (sampleMatch\<lparr>gm_grantRevision := 3\<rparr>)" by code_simp
  ultimately show ?thesis using routeGrantMatches_pins by blast
qed

end
