(* ===== verification/Json.thy ===== *)
theory Json
  imports MsgDecode "HOL-Library.List_Lexorder"
begin

text \<open>
  JSON values as the control store keeps them: which JavaScript values are JSON
  (\<open>isJsonValue\<close> of \<^verbatim>\<open>apps/control/src/runtime/control-store.ts\<close> and \<open>readJsonValue\<close> of
  \<^verbatim>\<open>packages/contracts/src/messaging/control-store.ts\<close>), structural equality, key-sorted
  canonical form, and \<open>JSON.stringify\<close>. The decimal text of a finite number is the runtime's
  \<open>Number::toString\<close>, a parameter \<open>numText\<close> here.
\<close>

section \<open>Values\<close>

definition MAX_JSON_DEPTH :: nat where
  "MAX_JSON_DEPTH = 64"

fun isJsonValue :: "nat \<Rightarrow> jsval \<Rightarrow> bool" where
  "isJsonValue depth (JArr vs) = (if depth > 64 then False else list_all (isJsonValue (depth + 1)) vs)"
| "isJsonValue depth (JObj plain ps) =
     (if depth > 64 then False else if \<not> plain then False else list_all (\<lambda>(k, v). isJsonValue (depth + 1) v) ps)"
| "isJsonValue depth (JNum x) = (if depth > 64 then False else isFiniteNum x)"
| "isJsonValue depth JUndef = False"
| "isJsonValue depth JOther = False"
| "isJsonValue depth v = (if depth > 64 then False else True)"

fun readJsonValue :: "jsval \<Rightarrow> ustring \<Rightarrow> nat \<Rightarrow> jsval decoded" where
  "readJsonValue (JArr vs) p depth =
     (if depth > MAX_JSON_DEPTH then fail p Too_deep
      else bindE (mapE (\<lambda>index r. r (elementPath p index)) (map (\<lambda>v q. readJsonValue v q (depth + 1)) vs))
             (\<lambda>_. Inr (JArr vs)))"
| "readJsonValue (JObj plain ps) p depth =
     (if depth > MAX_JSON_DEPTH then fail p Too_deep
      else if \<not> plain then fail p Wrong_type
      else bindE (mapE (\<lambda>_ r. r) (map (\<lambda>(k, v). readJsonValue v (p @ js ''.'' @ k) (depth + 1)) ps))
             (\<lambda>_. Inr (JObj plain ps)))"
| "readJsonValue (JNum x) p depth =
     (if depth > MAX_JSON_DEPTH then fail p Too_deep
      else if \<not> isFiniteNum x then fail p Invalid_value else Inr (JNum x))"
| "readJsonValue JUndef p depth = (if depth > MAX_JSON_DEPTH then fail p Too_deep else fail p Wrong_type)"
| "readJsonValue JOther p depth = (if depth > MAX_JSON_DEPTH then fail p Too_deep else fail p Wrong_type)"
| "readJsonValue v p depth = (if depth > MAX_JSON_DEPTH then fail p Too_deep else Inr v)"

text \<open>\<open>a === b\<close> on values that are not objects; two objects are compared structurally, which their
  identity implies.\<close>

function (sequential) sameJsonValue :: "jsval \<Rightarrow> jsval \<Rightarrow> bool" where
  "sameJsonValue (JArr xs) (JArr ys) =
     (length xs = length ys \<and> list_all (\<lambda>(x, y). sameJsonValue x y) (zip xs ys))"
| "sameJsonValue (JObj _ ps) (JObj _ qs) =
     (length ps = length qs
      \<and> list_all (\<lambda>(k, v). case map_of qs k of None \<Rightarrow> False | Some w \<Rightarrow> sameJsonValue v w) ps)"
| "sameJsonValue (JNum x) (JNum y) = (x = y \<and> x \<noteq> NaN)"
| "sameJsonValue (JStr s) (JStr t) = (s = t)"
| "sameJsonValue (JBool b) (JBool c) = (b = c)"
| "sameJsonValue JNull JNull = True"
| "sameJsonValue JUndef JUndef = True"
| "sameJsonValue _ _ = False"
  by pat_completeness auto
termination
  by (relation "measure (size \<circ> fst)")
    (auto simp: less_Suc_eq_le dest!: set_zip_leftD intro: size_list_estimation'[where f = size]
      size_list_estimation'[where f = "size_prod (\<lambda>x. 0) size"])

section \<open>Canonical form\<close>

text \<open>Own properties of an ordinary object enumerate array indices first, in ascending order, then
  the other keys in the order they were created.\<close>

definition arrayIndex :: "ustring \<Rightarrow> nat option" where
  "arrayIndex s = (if s \<noteq> [] \<and> list_all isDigit s \<and> dec_digits (digitsVal s) = s \<and> digitsVal s < 4294967295
     then Some (digitsVal s) else None)"

fun insertProp :: "ustring \<Rightarrow> 'a \<Rightarrow> (ustring \<times> 'a) list \<Rightarrow> (ustring \<times> 'a) list" where
  "insertProp k v [] = [(k, v)]"
| "insertProp k v ((l, w) # ps) =
     (if l = k then (k, v) # ps
      else case arrayIndex k of
        None \<Rightarrow> (l, w) # insertProp k v ps
      | Some i \<Rightarrow> (case arrayIndex l of
          None \<Rightarrow> (k, v) # (l, w) # ps
        | Some j \<Rightarrow> if j < i then (l, w) # insertProp k v ps else (k, v) # (l, w) # ps))"

text \<open>\<open>sorted[key] = v\<close> on an object literal: assigning to \<open>__proto__\<close> does not create a property.\<close>

definition assignProp :: "ustring \<Rightarrow> 'a \<Rightarrow> (ustring \<times> 'a) list \<Rightarrow> (ustring \<times> 'a) list" where
  "assignProp k v ps = (if k = js ''__proto__'' then ps else insertProp k v ps)"

fun canonicalize :: "jsval \<Rightarrow> jsval" where
  "canonicalize (JArr vs) = JArr (map canonicalize vs)"
| "canonicalize (JObj plain ps) =
     (let values = map (\<lambda>(k, v). (k, canonicalize v)) ps in
      JObj True (foldl (\<lambda>sorted key. case map_of values key of None \<Rightarrow> sorted | Some v \<Rightarrow> assignProp key v sorted)
        [] (sort (map fst ps))))"
| "canonicalize v = v"

section \<open>JSON.stringify\<close>

definition hexDigit :: "nat \<Rightarrow> cunit" where
  "hexDigit n = (if n < 10 then of_nat (0x30 + n) else of_nat (0x57 + n))"

definition unicodeEscape :: "cunit \<Rightarrow> ustring" where
  "unicodeEscape u = [0x5C, 0x75, hexDigit (unat u div 4096), hexDigit (unat u div 256 mod 16),
     hexDigit (unat u div 16 mod 16), hexDigit (unat u mod 16)]"

definition quoteUnit :: "cunit \<Rightarrow> ustring" where
  "quoteUnit u =
     (if u = 0x08 then [0x5C, 0x62] else if u = 0x09 then [0x5C, 0x74] else if u = 0x0A then [0x5C, 0x6E]
      else if u = 0x0C then [0x5C, 0x66] else if u = 0x0D then [0x5C, 0x72] else if u = 0x22 then [0x5C, 0x22]
      else if u = 0x5C then [0x5C, 0x5C] else if u < 0x20 \<or> isHigh u \<or> isLow u then unicodeEscape u else [u])"

fun quoteBody :: "ustring \<Rightarrow> ustring" where
  "quoteBody [] = []"
| "quoteBody [u] = quoteUnit u"
| "quoteBody (u # v # s) =
     (if isHigh u \<and> isLow v then u # v # quoteBody s else quoteUnit u @ quoteBody (v # s))"

definition quoteString :: "ustring \<Rightarrow> ustring" where
  "quoteString s = [0x22] @ quoteBody s @ [0x22]"

fun joinWith :: "cunit \<Rightarrow> ustring list \<Rightarrow> ustring" where
  "joinWith c [] = []"
| "joinWith c [x] = x"
| "joinWith c (x # y # zs) = x @ [c] @ joinWith c (y # zs)"

text \<open>\<open>undefined\<close> has no text: it is dropped from an object and becomes \<open>null\<close> in an array.\<close>

fun stringify :: "(rat \<Rightarrow> ustring) \<Rightarrow> jsval \<Rightarrow> ustring option" where
  "stringify numText (JArr vs) = Some ([0x5B] @ joinWith 0x2C (map (\<lambda>v. case stringify numText v of
       None \<Rightarrow> js ''null'' | Some t \<Rightarrow> t) vs) @ [0x5D])"
| "stringify numText (JObj plain ps) = Some ([0x7B] @ joinWith 0x2C (concat (map (\<lambda>(k, v).
       case stringify numText v of None \<Rightarrow> [] | Some t \<Rightarrow> [quoteString k @ [0x3A] @ t]) ps)) @ [0x7D])"
| "stringify numText (JNum (Fin q)) = Some (numText q)"
| "stringify numText (JNum x) = Some (js ''null'')"
| "stringify numText (JStr s) = Some (quoteString s)"
| "stringify numText (JBool b) = Some (if b then js ''true'' else js ''false'')"
| "stringify numText JNull = Some (js ''null'')"
| "stringify numText JUndef = None"
| "stringify numText JOther = None"

definition jsonText :: "(rat \<Rightarrow> ustring) \<Rightarrow> jsval \<Rightarrow> ustring" where
  "jsonText numText v = (case stringify numText v of None \<Rightarrow> js ''undefined'' | Some t \<Rightarrow> t)"

definition digestOf :: "(rat \<Rightarrow> ustring) \<Rightarrow> jsval \<Rightarrow> ustring option \<Rightarrow> ustring" where
  "digestOf numText value expiresAt = jsonText numText (JArr [canonicalize value, jnullable JStr expiresAt])"

section \<open>Structural equality\<close>

lemma sameJsonValue_refl: "isJsonValue d v \<Longrightarrow> wf_js v \<Longrightarrow> sameJsonValue v v"
proof (induction d v rule: isJsonValue.induct)
  case (1 depth vs)
  then show ?case by (auto simp: list_all_iff zip_same_conv_map split: if_splits)
next
  case (2 depth plain ps)
  then show ?case by (fastforce simp: list_all_iff split: if_splits)
next
  case (3 depth x)
  then show ?case by (cases x) (auto split: if_splits)
qed auto

end
