(* ===== verification/Effects.thy ===== *)
theory Effects
  imports Prelude
begin

text \<open>
  Effectful code by explicit state passing. A computation takes the world (files, blob stores, the
  moment in time, whatever the operation touches) and returns either a thrown value (\<open>Inl\<close>) or a
  result, together with the world it leaves. \<open>await\<close> is sequencing: what other processes do in
  between is part of how the world changes. \<open>tryS m k h\<close> is \<open>try { x = await m } catch (e) { h e }\<close>
  followed by the continuation \<open>k x\<close>, which the handler does not cover. The triples \<open>triple\<close> are total
  over both exits and carry the invariant proofs of the component theories.
\<close>

type_synonym ('s, 'e, 'a) eff = "'s \<Rightarrow> ('e + 'a) \<times> 's"

definition retS :: "'a \<Rightarrow> ('s, 'e, 'a) eff" where
  "retS x s = (Inr x, s)"

definition throwS :: "'e \<Rightarrow> ('s, 'e, 'a) eff" where
  "throwS e s = (Inl e, s)"

definition tryS :: "('s, 'e, 'a) eff \<Rightarrow> ('a \<Rightarrow> ('s, 'f, 'b) eff) \<Rightarrow> ('e \<Rightarrow> ('s, 'f, 'b) eff) \<Rightarrow> ('s, 'f, 'b) eff" where
  "tryS m k h s = (case m s of (Inl e, s') \<Rightarrow> h e s' | (Inr x, s') \<Rightarrow> k x s')"

definition bindS :: "('s, 'e, 'a) eff \<Rightarrow> ('a \<Rightarrow> ('s, 'e, 'b) eff) \<Rightarrow> ('s, 'e, 'b) eff" where
  "bindS m f = tryS m f throwS"

definition catchS :: "('s, 'e, 'a) eff \<Rightarrow> ('e \<Rightarrow> ('s, 'f, 'a) eff) \<Rightarrow> ('s, 'f, 'a) eff" where
  "catchS m h = tryS m retS h"

definition readS :: "('s \<Rightarrow> 'a) \<Rightarrow> ('s, 'e, 'a) eff" where
  "readS f s = (Inr (f s), s)"

definition updateS :: "('s \<Rightarrow> 's) \<Rightarrow> ('s, 'e, unit) eff" where
  "updateS f s = (Inr (), f s)"

section \<open>Evaluation\<close>

named_theorems eff_simps
  \<open>evaluation of effectful computations on a given state\<close>

lemma effects_run [eff_simps, simp]:
  "retS x s = (Inr x, s)"
  "throwS e s = (Inl e, s)"
  "readS f s = (Inr (f s), s)"
  "updateS g s = (Inr (), g s)"
  by (simp_all add: retS_def throwS_def readS_def updateS_def)

lemma tryS_run [eff_simps]:
  "m s = (Inr x, s') \<Longrightarrow> tryS m k h s = k x s'"
  "m s = (Inl e, s') \<Longrightarrow> tryS m k h s = h e s'"
  by (simp_all add: tryS_def)

lemma bindS_run [eff_simps]:
  "m s = (Inr x, s') \<Longrightarrow> bindS m f s = f x s'"
  "m s = (Inl e, s') \<Longrightarrow> bindS m f s = (Inl e, s')"
  by (simp_all add: bindS_def tryS_def)

lemma catchS_run [eff_simps]:
  "m s = (Inr x, s') \<Longrightarrow> catchS m h s = (Inr x, s')"
  "m s = (Inl e, s') \<Longrightarrow> catchS m h s = h e s'"
  by (simp_all add: catchS_def tryS_def)

lemma tryS_ret [simp]: "tryS (retS x) k h = k x" "tryS (throwS e) k h = h e"
  by (auto simp: tryS_def)

lemma bindS_ret [simp]: "bindS (retS x) f = f x" "bindS (throwS e) f = throwS e"
  by (auto simp: bindS_def)

lemma bindS_Inr: "bindS m f s = (Inr y, s') \<Longrightarrow> \<exists>x t. m s = (Inr x, t) \<and> f x t = (Inr y, s')"
  by (auto simp: bindS_def tryS_def split: prod.splits sum.splits)

section \<open>Triples\<close>

definition triple :: "('s \<Rightarrow> bool) \<Rightarrow> ('s, 'e, 'a) eff \<Rightarrow> ('a \<Rightarrow> 's \<Rightarrow> bool) \<Rightarrow> ('e \<Rightarrow> 's \<Rightarrow> bool) \<Rightarrow> bool" where
  "triple P m Q E \<longleftrightarrow> (\<forall>s. P s \<longrightarrow> (case m s of (Inr x, s') \<Rightarrow> Q x s' | (Inl e, s') \<Rightarrow> E e s'))"

lemma tripleI:
  "(\<And>s x s'. P s \<Longrightarrow> m s = (Inr x, s') \<Longrightarrow> Q x s') \<Longrightarrow> (\<And>s e s'. P s \<Longrightarrow> m s = (Inl e, s') \<Longrightarrow> E e s')
   \<Longrightarrow> triple P m Q E"
  by (auto simp: triple_def split: prod.split sum.split)

lemma tripleD:
  "triple P m Q E \<Longrightarrow> P s \<Longrightarrow> m s = (Inr x, s') \<Longrightarrow> Q x s'"
  "triple P m Q E \<Longrightarrow> P s \<Longrightarrow> m s = (Inl e, s') \<Longrightarrow> E e s'"
  by (force simp: triple_def)+

lemma triple_pre: "triple P m Q E \<Longrightarrow> (\<And>s. P' s \<Longrightarrow> P s) \<Longrightarrow> triple P' m Q E"
  by (auto simp: triple_def)

lemma triple_post:
  "triple P m Q E \<Longrightarrow> (\<And>x s. Q x s \<Longrightarrow> Q' x s) \<Longrightarrow> (\<And>e s. E e s \<Longrightarrow> E' e s) \<Longrightarrow> triple P m Q' E'"
  by (fastforce simp: triple_def split: prod.splits sum.splits)

lemma triple_ret: "(\<And>s. P s \<Longrightarrow> Q x s) \<Longrightarrow> triple P (retS x) Q E"
  by (simp add: triple_def)

lemma triple_throw: "(\<And>s. P s \<Longrightarrow> E e s) \<Longrightarrow> triple P (throwS e) Q E"
  by (simp add: triple_def)

lemma triple_read: "(\<And>s. P s \<Longrightarrow> Q (f s) s) \<Longrightarrow> triple P (readS f) Q E"
  by (simp add: triple_def)

lemma triple_update: "(\<And>s. P s \<Longrightarrow> Q () (g s)) \<Longrightarrow> triple P (updateS g) Q E"
  by (simp add: triple_def)

lemma triple_try:
  assumes m: "triple P m R F" and k: "\<And>x. triple (R x) (k x) Q E" and h: "\<And>e. triple (F e) (h e) Q E"
  shows "triple P (tryS m k h) Q E"
  unfolding triple_def
proof (intro allI impI)
  fix s
  assume P: "P s"
  obtain r s1 where r: "m s = (r, s1)" by (cases "m s")
  show "case tryS m k h s of (Inr x, s') \<Rightarrow> Q x s' | (Inl e, s') \<Rightarrow> E e s'"
  proof (cases r)
    case (Inl e)
    then have "F e s1" using tripleD(2)[OF m P] r by simp
    then show ?thesis using h[of e] r Inl by (simp add: triple_def tryS_run)
  next
    case (Inr x)
    then have "R x s1" using tripleD(1)[OF m P] r by simp
    then show ?thesis using k[of x] r Inr by (simp add: triple_def tryS_run)
  qed
qed

lemma triple_bind:
  "triple P m R E \<Longrightarrow> (\<And>x. triple (R x) (f x) Q E) \<Longrightarrow> triple P (bindS m f) Q E"
  unfolding bindS_def by (rule triple_try, assumption, assumption) (rule triple_throw)

lemma triple_catch:
  "triple P m Q F \<Longrightarrow> (\<And>e. triple (F e) (h e) Q E) \<Longrightarrow> triple P (catchS m h) Q E"
  unfolding catchS_def by (rule triple_try, assumption) (auto intro: triple_ret)

lemma triple_if:
  "(b \<Longrightarrow> triple P m Q E) \<Longrightarrow> (\<not> b \<Longrightarrow> triple P n Q E) \<Longrightarrow> triple P (if b then m else n) Q E"
  by simp

lemma triple_option:
  "(x = None \<Longrightarrow> triple P m Q E) \<Longrightarrow> (\<And>y. x = Some y \<Longrightarrow> triple P (f y) Q E)
   \<Longrightarrow> triple P (case x of None \<Rightarrow> m | Some y \<Rightarrow> f y) Q E"
  by (cases x) auto

lemma triple_conj: "triple P m Q E \<Longrightarrow> triple P' m Q' E' \<Longrightarrow>
    triple (\<lambda>s. P s \<and> P' s) m (\<lambda>x s. Q x s \<and> Q' x s) (\<lambda>e s. E e s \<and> E' e s)"
  by (fastforce simp: triple_def split: prod.splits sum.splits)

lemma triple_True: "triple P m (\<lambda>_ _. True) (\<lambda>_ _. True)"
  by (simp add: triple_def split: prod.split sum.split)

text \<open>A computation that never throws.\<close>

definition nothrow :: "('s, 'e, 'a) eff \<Rightarrow> bool" where
  "nothrow m \<longleftrightarrow> (\<forall>s. \<exists>x s'. m s = (Inr x, s'))"

lemma nothrow_ret [simp]: "nothrow (retS x)"
  by (simp add: nothrow_def)

lemma nothrow_read [simp]: "nothrow (readS f)" "nothrow (updateS g)"
  by (simp_all add: nothrow_def)

lemma nothrow_try [intro]:
  assumes "\<And>x. nothrow (k x)" and "\<And>e. nothrow (h e)"
  shows "nothrow (tryS m k h)"
  unfolding nothrow_def
proof
  fix s
  show "\<exists>x s'. tryS m k h s = (Inr x, s')"
    using assms unfolding nothrow_def by (cases "m s"; cases "fst (m s)") (auto simp: tryS_def)
qed

lemma nothrow_bind [intro]:
  assumes "nothrow m" and "\<And>x. nothrow (f x)"
  shows "nothrow (bindS m f)"
  unfolding nothrow_def
proof
  fix s
  obtain x s' where "m s = (Inr x, s')" using assms(1) unfolding nothrow_def by blast
  then show "\<exists>x s'. bindS m f s = (Inr x, s')"
    using assms(2) unfolding nothrow_def by (simp add: bindS_run)
qed

end
