(* ===== verification/ControlStore.thy ===== *)
theory ControlStore
  imports Json Effects
begin

text \<open>
  The \<open>ControlStore\<close> contract (\<^verbatim>\<open>packages/contracts/src/messaging/control-store.ts\<close>) and its adapter
  over a blob provider (\<^verbatim>\<open>apps/control/src/runtime/control-store.ts\<close>). The provider, the
  clock, \<open>Date.parse\<close>, SHA-256 and the diagnostic sinks are parameters (\<open>controlDeps\<close>); a provider call
  may fail, may take effect and still report failure, and may let other processes act on the world
  before it returns. A record write needs two blobs: a ledger entry that claims the operation
  identifier for one key and digest, and the record itself.
\<close>

section \<open>The contract\<close>

record controlRecord =
  cr_key :: ustring
  cr_revision :: ustring
  cr_operationId :: ustring
  cr_value :: jsval
  cr_expiresAt :: "ustring option"

datatype controlRead = Read_absent | Read_record controlRecord | Read_unavailable

record compareAndSetInput =
  ci_key :: ustring
  ci_expectedRevision :: "ustring option"
  ci_operationId :: ustring
  ci_value :: jsval
  ci_expiresAt :: "ustring option"

datatype writeResult =
    W_applied controlRecord
  | W_conflict "controlRecord option"
  | W_operation_mismatch
  | W_outcome_unknown ustring
  | W_unavailable

datatype resolveResult =
    Res_applied controlRecord
  | Res_not_applied
  | Res_outcome_unknown ustring
  | Res_unavailable

text \<open>\<open>dateParse\<close> is \<open>Date.parse\<close>, \<open>None\<close> its \<open>NaN\<close>: no comparison with it holds.\<close>

definition isRecordLive :: "(ustring \<Rightarrow> int option) \<Rightarrow> ustring option \<Rightarrow> int \<Rightarrow> bool" where
  "isRecordLive dateParse expiresAt nowMs = (case expiresAt of
     None \<Rightarrow> True
   | Some e \<Rightarrow> (case dateParse e of None \<Rightarrow> False | Some t \<Rightarrow> nowMs < t))"

definition decodeControlRecord :: "jsval \<Rightarrow> controlRecord decoded" where
  "decodeControlRecord input =
     bindE (object input [] [''key'', ''revision'', ''operationId'', ''value'', ''expiresAt'']) (\<lambda>r.
     bindE (identifierField (field r ''key'') (atPath r ''key'')) (\<lambda>key.
     bindE (identifierField (field r ''revision'') (atPath r ''revision'')) (\<lambda>revision.
     bindE (identifierField (field r ''operationId'') (atPath r ''operationId'')) (\<lambda>operationId.
     bindE (readJsonValue (field r ''value'') (atPath r ''value'') 0) (\<lambda>value.
     bindE (nullable (field r ''expiresAt'') (\<lambda>expiry. utcTimestamp expiry (atPath r ''expiresAt''))) (\<lambda>expiresAt.
     Inr \<lparr>cr_key = key, cr_revision = revision, cr_operationId = operationId, cr_value = value,
          cr_expiresAt = expiresAt\<rparr>))))))"

section \<open>The blob provider\<close>

record blob =
  bl_data :: jsval
  bl_etag :: "ustring option"

datatype writeCondition = OnlyIfMatch ustring | OnlyIfNew

record setResult =
  sr_modified :: bool
  sr_etag :: "ustring option"

text \<open>A thrown value is a JavaScript value; the adapter only looks at its \<open>status\<close>.\<close>

type_synonym ('w, 'a) act = "('w, jsval, 'a) eff"

record 'w blobsStoreLike =
  getWithMetadata :: "ustring \<Rightarrow> ('w, blob option) act"
  setJSON :: "ustring \<Rightarrow> jsval \<Rightarrow> writeCondition \<Rightarrow> ('w, setResult) act"

datatype diagScope = Scope_session | Scope_invitation | Scope_room_send | Scope_owner_mailbox | Scope_other

datatype diagStage =
    Record_corrupt | Read_error | Ledger_write_error | Ledger_read_error | Record_write_error
  | Record_confirm_error | Cas_unavailable | Cas_unknown

record diagEntry =
  dg_scope :: diagScope
  dg_stage :: diagStage
  dg_httpStatus :: "jsnum option"

record 'w controlDeps =
  records :: "'w blobsStoreLike"
  operations :: "'w blobsStoreLike"
  clock :: "'w \<Rightarrow> int"
  diagnostic :: "diagEntry \<Rightarrow> 'w \<Rightarrow> 'w"
  writeDiagnostic :: "diagEntry \<Rightarrow> 'w \<Rightarrow> 'w"
  dateParse :: "ustring \<Rightarrow> int option"
  sha256 :: "ustring \<Rightarrow> ustring"
  numText :: "rat \<Rightarrow> ustring"

section \<open>Envelopes and ledger entries\<close>

definition DEFINITE_REJECTION_STATUSES :: "rat list" where
  "DEFINITE_REJECTION_STATUSES = [400, 401, 403, 404, 409, 412, 413]"

definition isDefiniteRejection :: "jsval \<Rightarrow> bool" where
  "isDefiniteRejection error = (case getProp error (js ''status'') of
     JNum (Fin status) \<Rightarrow> status \<in> set DEFINITE_REJECTION_STATUSES
   | _ \<Rightarrow> False)"

record storedEnvelope =
  se_operationId :: ustring
  se_value :: jsval
  se_expiresAt :: "ustring option"

definition encodeEnvelope :: "storedEnvelope \<Rightarrow> jsval" where
  "encodeEnvelope e = JObj True [(js ''operationId'', JStr (se_operationId e)), (js ''value'', se_value e),
     (js ''expiresAt'', jnullable JStr (se_expiresAt e))]"

definition decodeEnvelope :: "jsval \<Rightarrow> storedEnvelope option" where
  "decodeEnvelope data =
     (case getProp data (js ''operationId'') of
        JStr operationId \<Rightarrow>
          if length operationId = 0 then None
          else (case getProp data (js ''expiresAt'') of
              JNull \<Rightarrow> if \<not> isJsonValue 0 (getProp data (js ''value'')) then None
                else Some \<lparr>se_operationId = operationId, se_value = getProp data (js ''value''), se_expiresAt = None\<rparr>
            | JStr expiresAt \<Rightarrow> if \<not> isJsonValue 0 (getProp data (js ''value'')) then None
                else Some \<lparr>se_operationId = operationId, se_value = getProp data (js ''value''),
                           se_expiresAt = Some expiresAt\<rparr>
            | _ \<Rightarrow> None)
      | _ \<Rightarrow> None)"

definition toRecord :: "ustring \<Rightarrow> ustring option \<Rightarrow> storedEnvelope \<Rightarrow> controlRecord" where
  "toRecord key etag envelope = \<lparr>cr_key = key, cr_revision = (case etag of None \<Rightarrow> [] | Some e \<Rightarrow> e),
     cr_operationId = se_operationId envelope, cr_value = se_value envelope, cr_expiresAt = se_expiresAt envelope\<rparr>"

definition sameWrite :: "controlRecord option \<Rightarrow> ustring \<Rightarrow> jsval \<Rightarrow> ustring option \<Rightarrow> bool" where
  "sameWrite rec operationId value expiresAt = (case rec of
     None \<Rightarrow> False
   | Some r \<Rightarrow> cr_operationId r = operationId \<and> cr_expiresAt r = expiresAt \<and> sameJsonValue (cr_value r) value)"

definition validEtag :: "ustring option \<Rightarrow> bool" where
  "validEtag etag = (case etag of None \<Rightarrow> False | Some e \<Rightarrow> length e > 0)"

definition ledgerEntry :: "ustring \<Rightarrow> ustring \<Rightarrow> jsval" where
  "ledgerEntry key digest = JObj True [(js ''key'', JStr key), (js ''digest'', JStr digest)]"

definition legacyLedgerProof :: "ustring \<Rightarrow> ustring \<Rightarrow> ustring \<Rightarrow> jsval" where
  "legacyLedgerProof key digest operationIdHash = JObj True [(js ''key'', JStr key), (js ''digest'', JStr digest),
     (js ''operationIdHash'', JStr operationIdHash)]"

definition sameLedgerEntry :: "jsval \<Rightarrow> ustring \<Rightarrow> ustring \<Rightarrow> bool" where
  "sameLedgerEntry data key digest \<longleftrightarrow>
     getProp data (js ''key'') = JStr key \<and> getProp data (js ''digest'') = JStr digest"

definition sameLegacyProof :: "jsval \<Rightarrow> ustring \<Rightarrow> ustring \<Rightarrow> ustring \<Rightarrow> bool" where
  "sameLegacyProof data key digest operationIdHash \<longleftrightarrow> sameLedgerEntry data key digest
     \<and> getProp data (js ''operationIdHash'') = JStr operationIdHash"

definition isHexDigit :: "cunit \<Rightarrow> bool" where
  "isHexDigit u \<longleftrightarrow> isDigit u \<or> (0x61 \<le> u \<and> u \<le> 0x66)"

definition isExchangeKey :: "ustring \<Rightarrow> bool" where
  "isExchangeKey key \<longleftrightarrow> startsWith key (js ''channel-access-exchange/'')
     \<and> length key = 24 + 64 \<and> list_all isHexDigit (drop 24 key)"

definition canonicalLegacyBoundClaim :: "'w controlDeps \<Rightarrow> ustring \<Rightarrow> storedEnvelope \<Rightarrow> bool" where
  "canonicalLegacyBoundClaim deps key envelope =
     (case se_value envelope of
        JObj plain ps \<Rightarrow>
          isExchangeKey key
          \<and> getProp (JObj plain ps) (js ''seq'') = jnat 1 \<and> getProp (JObj plain ps) (js ''phase'') = JStr (js ''bound'')
          \<and> se_operationId envelope = key @ js ''#1.bound.'' @ sha256 deps (jsonText (numText deps)
               (JArr [JStr (jsonText (numText deps) (JObj plain ps)), jnullable JStr (se_expiresAt envelope)]))
      | _ \<Rightarrow> False)"

section \<open>Keys and diagnostics\<close>

definition isSafeKeyUnit :: "cunit \<Rightarrow> bool" where
  "isSafeKeyUnit u \<longleftrightarrow> isDigit u \<or> (0x41 \<le> u \<and> u \<le> 0x5A) \<or> (0x61 \<le> u \<and> u \<le> 0x7A) \<or> u \<in> set (js ''/_.:@-'')"

fun splitOn :: "cunit \<Rightarrow> ustring \<Rightarrow> ustring list" where
  "splitOn c [] = [[]]"
| "splitOn c (u # s) = (if u = c then [] # splitOn c s
     else (case splitOn c s of [] \<Rightarrow> [[u]] | x # xs \<Rightarrow> (u # x) # xs))"

definition isSafeKey :: "ustring \<Rightarrow> bool" where
  "isSafeKey key \<longleftrightarrow> key \<noteq> [] \<and> list_all isSafeKeyUnit key
     \<and> \<not> list_ex (\<lambda>segment. segment = [] \<or> segment = js ''.'' \<or> segment = js ''..'') (splitOn 0x2F key)"

definition physicalKey :: "'w controlDeps \<Rightarrow> ustring \<Rightarrow> ustring" where
  "physicalKey deps key = (if isSafeKey key then key else js ''~v2/'' @ sha256 deps key)"

definition legacyFragmentKey :: "ustring \<Rightarrow> ustring option" where
  "legacyFragmentKey key = (if 0x23 \<in> set key then Some (takeWhile (\<lambda>u. u \<noteq> 0x23) key) else None)"

definition diagScopeOf :: "ustring \<Rightarrow> diagScope" where
  "diagScopeOf key =
     (if startsWith key (js ''auth.session.v1.'') then Scope_session
      else if startsWith key (js ''invitations.invite.'') then Scope_invitation
      else if startsWith key (js ''room-send-'') then Scope_room_send
      else if startsWith key (js ''owner-mailbox.'') \<or> startsWith key (js ''owner-mailbox-result.'')
      then Scope_owner_mailbox else Scope_other)"

definition httpStatusOf :: "jsval \<Rightarrow> jsnum option" where
  "httpStatusOf error = (case getProp error (js ''status'') of
     JNum (Fin q) \<Rightarrow> if of_int \<lfloor>q\<rfloor> = q \<and> 400 \<le> q \<and> q \<le> 599 then Some (Fin q) else None
   | _ \<Rightarrow> None)"

definition storeDiagnostic :: "'w controlDeps \<Rightarrow> ustring \<Rightarrow> diagStage \<Rightarrow> jsval \<Rightarrow> ('w, unit) act" where
  "storeDiagnostic deps key stage error =
     (let entry = \<lparr>dg_scope = diagScopeOf key, dg_stage = stage, dg_httpStatus = httpStatusOf error\<rparr> in
      if stage = Record_corrupt \<or> stage = Read_error then updateS (diagnostic deps entry)
      else updateS (writeDiagnostic deps entry))"

section \<open>Reading\<close>

record liveRead =
  lr_raw :: "blob option"
  lr_live :: "controlRecord option"
  lr_corrupt :: bool
  lr_envelope :: "storedEnvelope option"
  lr_legacy :: bool

definition legacyRaw :: "'w controlDeps \<Rightarrow> ustring \<Rightarrow> ('w, blob option) act" where
  "legacyRaw deps key = (case legacyFragmentKey key of
     None \<Rightarrow> retS None
   | Some oldKey \<Rightarrow> bindS (getWithMetadata (records deps) oldKey) (\<lambda>old.
       retS (case old of
         None \<Rightarrow> None
       | Some b \<Rightarrow> (case decodeEnvelope (bl_data b) of
           None \<Rightarrow> None
         | Some e \<Rightarrow> if startsWith (se_operationId e) (key @ js ''#'') then Some b else None))))"

definition interpretRaw :: "'w controlDeps \<Rightarrow> ustring \<Rightarrow> blob option \<Rightarrow> bool \<Rightarrow> int \<Rightarrow> liveRead" where
  "interpretRaw deps key raw legacy now = (case raw of
     None \<Rightarrow> \<lparr>lr_raw = None, lr_live = None, lr_corrupt = False, lr_envelope = None, lr_legacy = legacy\<rparr>
   | Some b \<Rightarrow>
       if \<not> validEtag (bl_etag b)
       then \<lparr>lr_raw = raw, lr_live = None, lr_corrupt = True, lr_envelope = None, lr_legacy = legacy\<rparr>
       else (case decodeEnvelope (bl_data b) of
           None \<Rightarrow> \<lparr>lr_raw = raw, lr_live = None, lr_corrupt = True, lr_envelope = None, lr_legacy = legacy\<rparr>
         | Some e \<Rightarrow>
             if \<not> isRecordLive (dateParse deps) (se_expiresAt e) now
             then \<lparr>lr_raw = raw, lr_live = None, lr_corrupt = False, lr_envelope = Some e, lr_legacy = legacy\<rparr>
             else \<lparr>lr_raw = raw, lr_live = Some (toRecord key (bl_etag b) e), lr_corrupt = False,
                   lr_envelope = Some e, lr_legacy = legacy\<rparr>))"

definition readLive :: "'w controlDeps \<Rightarrow> ustring \<Rightarrow> ('w, liveRead) act" where
  "readLive deps key =
     bindS (getWithMetadata (records deps) (physicalKey deps key)) (\<lambda>raw.
     case raw of
       Some b \<Rightarrow> readS (\<lambda>w. interpretRaw deps key (Some b) False (clock deps w))
     | None \<Rightarrow> bindS (legacyRaw deps key) (\<lambda>old.
         readS (\<lambda>w. interpretRaw deps key old (old \<noteq> None) (clock deps w))))"

section \<open>Claiming an operation identifier\<close>

datatype claimResult = Claimed bool | Claim_mismatch | Claim_unknown | Claim_unavailable

text \<open>The proof that an old, truncated ledger key belongs to one operation. \<open>Inl\<close> is an early
  return of the claim, \<open>Inr\<close> the held proof.\<close>

definition legacyProof ::
  "'w controlDeps \<Rightarrow> ustring \<Rightarrow> ustring \<Rightarrow> ustring \<Rightarrow> ('w, claimResult + blob) act" where
  "legacyProof deps oldKey entryKey entryDigest =
     (let proofKey = js ''~legacy/'' @ sha256 deps oldKey in
      bindS (getWithMetadata (operations deps) proofKey) (\<lambda>proof.
      case proof of
        Some p \<Rightarrow> retS (Inr p)
      | None \<Rightarrow>
          bindS (readLive deps entryKey) (\<lambda>rec.
          case lr_envelope rec of
            None \<Rightarrow> retS (Inl Claim_unknown)
          | Some e \<Rightarrow>
              if \<not> canonicalLegacyBoundClaim deps oldKey e
                \<or> digestOf (numText deps) (se_value e) (se_expiresAt e) \<noteq> entryDigest
              then retS (Inl Claim_unknown)
              else
                let operationIdHash = sha256 deps (se_operationId e) in
                bindS (setJSON (operations deps) proofKey
                         (legacyLedgerProof entryKey entryDigest operationIdHash) OnlyIfNew) (\<lambda>write.
                bindS (getWithMetadata (operations deps) proofKey) (\<lambda>again.
                case again of
                  None \<Rightarrow> retS (Inl Claim_unknown)
                | Some p \<Rightarrow>
                    if \<not> validEtag (bl_etag p) \<or> \<not> sameLegacyProof (bl_data p) entryKey entryDigest operationIdHash
                      \<or> (sr_modified write \<and> (\<not> validEtag (sr_etag write) \<or> sr_etag write \<noteq> bl_etag p))
                    then retS (Inl Claim_unknown)
                    else retS (Inr p))))))"

text \<open>What a legacy ledger entry, if present, says; \<open>None\<close> continues with the ordinary claim.\<close>

definition legacyDecision ::
  "'w controlDeps \<Rightarrow> ustring \<Rightarrow> ustring \<Rightarrow> ustring \<Rightarrow> ustring \<Rightarrow> blob option \<Rightarrow> ('w, claimResult option) act" where
  "legacyDecision deps oldKey operationId key digest old = (case old of
       None \<Rightarrow> retS None
     | Some b \<Rightarrow>
         if \<not> validEtag (bl_etag b) then retS (Some Claim_unknown)
         else (case (getProp (bl_data b) (js ''key''), getProp (bl_data b) (js ''digest'')) of
             (JStr entryKey, JStr entryDigest) \<Rightarrow>
               bindS (legacyProof deps oldKey entryKey entryDigest) (\<lambda>proof.
               case proof of
                 Inl r \<Rightarrow> retS (Some r)
               | Inr p \<Rightarrow>
                   (case getProp (bl_data p) (js ''operationIdHash'') of
                      JStr operationIdHash \<Rightarrow>
                        if \<not> validEtag (bl_etag p) \<or> \<not> sameLedgerEntry (bl_data p) entryKey entryDigest
                        then retS (Some Claim_unknown)
                        else if operationIdHash = sha256 deps operationId
                        then retS (Some (if sameLedgerEntry (bl_data b) key digest then Claimed True else Claim_mismatch))
                        else if entryKey = key \<and> entryDigest = digest then retS (Some Claim_unknown)
                        else retS None
                    | _ \<Rightarrow> retS (Some Claim_unknown)))
           | _ \<Rightarrow> retS (Some Claim_unknown)))"

definition legacyClaim ::
  "'w controlDeps \<Rightarrow> ustring \<Rightarrow> ustring \<Rightarrow> ustring \<Rightarrow> ustring \<Rightarrow> ('w, claimResult option) act" where
  "legacyClaim deps oldKey operationId key digest =
     bindS (getWithMetadata (operations deps) oldKey) (legacyDecision deps oldKey operationId key digest)"

text \<open>The ordinary claim: a conditional create of the ledger entry, confirmed by a strong read.\<close>

definition confirmClaim :: "'w controlDeps \<Rightarrow> ustring \<Rightarrow> ustring \<Rightarrow> ustring \<Rightarrow> setResult \<Rightarrow> ('w, claimResult) act" where
  "confirmClaim deps ledgerKey key digest result =
     (if sr_modified result then
        if \<not> validEtag (sr_etag result) then retS Claim_unknown
        else tryS (getWithMetadata (operations deps) ledgerKey)
          (\<lambda>confirmed. retS (case confirmed of
              None \<Rightarrow> Claim_unknown
            | Some c \<Rightarrow> if bl_etag c = sr_etag result \<and> sameLedgerEntry (bl_data c) key digest
                then Claimed False else Claim_unknown))
          (\<lambda>error. bindS (storeDiagnostic deps key Ledger_read_error error) (\<lambda>_. retS Claim_unknown))
      else
        tryS (getWithMetadata (operations deps) ledgerKey)
          (\<lambda>entry. retS (case entry of
              None \<Rightarrow> Claim_unknown
            | Some c \<Rightarrow>
                if \<not> validEtag (bl_etag c) then Claim_unknown
                else if sameLedgerEntry (bl_data c) key digest then Claimed True
                else (case (getProp (bl_data c) (js ''key''), getProp (bl_data c) (js ''digest'')) of
                    (JStr _, JStr _) \<Rightarrow> Claim_mismatch
                  | _ \<Rightarrow> Claim_unknown)))
          (\<lambda>error. bindS (storeDiagnostic deps key Ledger_read_error error) (\<lambda>_. retS Claim_unknown)))"

definition claimOperation :: "'w controlDeps \<Rightarrow> ustring \<Rightarrow> ustring \<Rightarrow> ustring \<Rightarrow> ('w, claimResult) act" where
  "claimOperation deps operationId key digest =
     (let ledgerKey = physicalKey deps operationId in
      tryS (case legacyFragmentKey operationId of
              None \<Rightarrow> retS None
            | Some oldKey \<Rightarrow> legacyClaim deps oldKey operationId key digest)
        (\<lambda>early. case early of
            Some r \<Rightarrow> retS r
          | None \<Rightarrow> tryS (setJSON (operations deps) ledgerKey (ledgerEntry key digest) OnlyIfNew)
              (confirmClaim deps ledgerKey key digest)
              (\<lambda>error. bindS (storeDiagnostic deps key Ledger_write_error error) (\<lambda>_.
                 retS (if isDefiniteRejection error then Claim_unavailable else Claim_unknown))))
        (\<lambda>error. bindS (storeDiagnostic deps key Ledger_read_error error) (\<lambda>_. retS Claim_unknown)))"

section \<open>The three operations\<close>

definition storeRead :: "'w controlDeps \<Rightarrow> ustring \<Rightarrow> ('w, controlRead) act" where
  "storeRead deps key = tryS (readLive deps key)
     (\<lambda>r. case lr_live r of
         Some record \<Rightarrow> retS (Read_record record)
       | None \<Rightarrow> if lr_corrupt r then bindS (storeDiagnostic deps key Record_corrupt JUndef) (\<lambda>_. retS Read_unavailable)
           else retS Read_absent)
     (\<lambda>error. bindS (storeDiagnostic deps key Read_error error) (\<lambda>_. retS Read_unavailable))"

definition unknownOr :: "jsval \<Rightarrow> ustring \<Rightarrow> writeResult" where
  "unknownOr error operationId =
     (if isDefiniteRejection error then W_unavailable else W_outcome_unknown operationId)"

text \<open>Copies a proven legacy record to its own key; \<open>None\<close> is \<open>outcome_unknown\<close>. Reading \<open>before.live!\<close>
  of an expired legacy record throws inside the \<open>try\<close>, which also ends in \<open>outcome_unknown\<close>.\<close>

definition migrateLegacy :: "'w controlDeps \<Rightarrow> ustring \<Rightarrow> liveRead \<Rightarrow> ('w, liveRead option) act" where
  "migrateLegacy deps key prior =
     (case (legacyFragmentKey key, lr_raw prior) of
        (Some oldKey, Some old) \<Rightarrow>
          catchS
            (bindS (setJSON (records deps) (physicalKey deps key) (bl_data old) OnlyIfNew) (\<lambda>copied.
             bindS (readLive deps key) (\<lambda>migrated.
             bindS (getWithMetadata (records deps) oldKey) (\<lambda>oldNow.
             case lr_live migrated of
               None \<Rightarrow> retS None
             | Some now \<Rightarrow>
                 if lr_legacy migrated \<or> lr_corrupt migrated
                   \<or> (case oldNow of None \<Rightarrow> None | Some b \<Rightarrow> bl_etag b) \<noteq> bl_etag old
                   \<or> (case lr_live prior of
                        None \<Rightarrow> True
                      | Some live \<Rightarrow> \<not> sameWrite (Some now) (cr_operationId live) (cr_value live) (cr_expiresAt live))
                   \<or> (sr_modified copied \<and> (\<not> validEtag (sr_etag copied) \<or> sr_etag copied \<noteq> Some (cr_revision now)))
                 then retS None
                 else retS (Some migrated)))))
            (\<lambda>error. retS None)
      | _ \<Rightarrow> retS None)"

text \<open>After the conditional write was answered: confirm a reported success by a strong read, and
  read again rather than guess after a failed precondition.\<close>

definition confirmWrite :: "'w controlDeps \<Rightarrow> compareAndSetInput \<Rightarrow> bool \<Rightarrow> setResult \<Rightarrow> ('w, writeResult) act" where
  "confirmWrite deps input isRetry result =
     (if sr_modified result then
        if \<not> validEtag (sr_etag result) then retS (W_outcome_unknown (ci_operationId input))
        else tryS (readLive deps (ci_key input))
          (\<lambda>after. case lr_live after of
              Some record \<Rightarrow>
                if Some (cr_revision record) = sr_etag result
                  \<and> sameWrite (Some record) (ci_operationId input) (ci_value input) (ci_expiresAt input)
                then retS (W_applied record) else retS (W_outcome_unknown (ci_operationId input))
            | None \<Rightarrow> retS (W_outcome_unknown (ci_operationId input)))
          (\<lambda>error. bindS (storeDiagnostic deps (ci_key input) Record_confirm_error error) (\<lambda>_.
             retS (W_outcome_unknown (ci_operationId input))))
      else
        tryS (readLive deps (ci_key input))
          (\<lambda>after.
             if lr_corrupt after then retS (W_outcome_unknown (ci_operationId input))
             else case lr_live after of
                 Some record \<Rightarrow>
                   if sameWrite (Some record) (ci_operationId input) (ci_value input) (ci_expiresAt input)
                   then retS (W_applied record)
                   else if isRetry then retS (W_outcome_unknown (ci_operationId input))
                   else retS (W_conflict (Some record))
               | None \<Rightarrow>
                   if isRetry then retS (W_outcome_unknown (ci_operationId input)) else retS (W_conflict None))
          (\<lambda>error. bindS (storeDiagnostic deps (ci_key input) Record_confirm_error error) (\<lambda>_.
             retS (unknownOr error (ci_operationId input)))))"

definition writeEnvelope :: "'w controlDeps \<Rightarrow> compareAndSetInput \<Rightarrow> bool \<Rightarrow> liveRead \<Rightarrow> ('w, writeResult) act" where
  "writeEnvelope deps input isRetry prior =
     (let envelope = encodeEnvelope \<lparr>se_operationId = ci_operationId input, se_value = ci_value input,
            se_expiresAt = ci_expiresAt input\<rparr>;
          conditions = (case lr_raw prior of
              None \<Rightarrow> OnlyIfNew
            | Some b \<Rightarrow> (case bl_etag b of None \<Rightarrow> OnlyIfNew | Some etag \<Rightarrow> OnlyIfMatch etag)) in
      tryS (setJSON (records deps) (physicalKey deps (ci_key input)) envelope conditions)
        (confirmWrite deps input isRetry)
        (\<lambda>error. bindS (storeDiagnostic deps (ci_key input) Record_write_error error) (\<lambda>_.
           retS (unknownOr error (ci_operationId input)))))"

definition writeRecord :: "'w controlDeps \<Rightarrow> compareAndSetInput \<Rightarrow> bool \<Rightarrow> ('w, writeResult) act" where
  "writeRecord deps input isRetry =
     tryS (readLive deps (ci_key input))
       (\<lambda>prior.
          if lr_corrupt prior then retS W_unavailable
          else if sameWrite (lr_live prior) (ci_operationId input) (ci_value input) (ci_expiresAt input)
          then retS (W_applied (the (lr_live prior)))
          else if map_option cr_revision (lr_live prior) \<noteq> ci_expectedRevision input
          then retS (if isRetry then W_outcome_unknown (ci_operationId input) else W_conflict (lr_live prior))
          else if lr_legacy prior
          then bindS (migrateLegacy deps (ci_key input) prior) (\<lambda>migrated.
            case migrated of
              None \<Rightarrow> retS (W_outcome_unknown (ci_operationId input))
            | Some m \<Rightarrow> writeEnvelope deps input isRetry m)
          else writeEnvelope deps input isRetry prior)
       (\<lambda>error. bindS (storeDiagnostic deps (ci_key input) Read_error error) (\<lambda>_.
          retS (unknownOr error (ci_operationId input))))"

definition compareAndSet :: "'w controlDeps \<Rightarrow> compareAndSetInput \<Rightarrow> ('w, writeResult) act" where
  "compareAndSet deps input =
     (let digest = digestOf (numText deps) (ci_value input) (ci_expiresAt input) in
      bindS (claimOperation deps (ci_operationId input) (ci_key input) digest) (\<lambda>claim.
      case claim of
        Claim_mismatch \<Rightarrow> retS W_operation_mismatch
      | Claim_unavailable \<Rightarrow> bindS (storeDiagnostic deps (ci_key input) Cas_unavailable JUndef) (\<lambda>_. retS W_unavailable)
      | Claim_unknown \<Rightarrow> bindS (storeDiagnostic deps (ci_key input) Cas_unknown JUndef) (\<lambda>_.
          retS (W_outcome_unknown (ci_operationId input)))
      | Claimed isRetry \<Rightarrow> writeRecord deps input isRetry))"

definition storeResolve :: "'w controlDeps \<Rightarrow> ustring \<Rightarrow> ustring \<Rightarrow> ('w, resolveResult) act" where
  "storeResolve deps key operationId =
     tryS (readLive deps key)
       (\<lambda>current. retS (case lr_live current of
           Some record \<Rightarrow> if cr_operationId record = operationId then Res_applied record
             else Res_outcome_unknown operationId
         | None \<Rightarrow>
             if lr_corrupt current then Res_unavailable
             else (case lr_envelope current of
                 Some envelope \<Rightarrow>
                   if se_operationId envelope = operationId
                   then Res_applied (toRecord key (case lr_raw current of None \<Rightarrow> None | Some b \<Rightarrow> bl_etag b) envelope)
                   else Res_outcome_unknown operationId
               | None \<Rightarrow> Res_not_applied)))
       (\<lambda>error. retS Res_unavailable)"

section \<open>The sequential specification\<close>

text \<open>
  What one \<open>compareAndSet\<close> does when nothing fails and no other process acts: \<open>claim\<close> is the ledger's
  entry for the operation identifier, \<open>current\<close> the live record of the key, \<open>revision\<close> the revision a
  write would get. The second component says whether the record is written.
\<close>

definition newRecord :: "compareAndSetInput \<Rightarrow> ustring \<Rightarrow> controlRecord" where
  "newRecord input revision = \<lparr>cr_key = ci_key input, cr_revision = revision, cr_operationId = ci_operationId input,
     cr_value = ci_value input, cr_expiresAt = ci_expiresAt input\<rparr>"

definition specCas :: "(ustring \<times> ustring) option \<Rightarrow> controlRecord option \<Rightarrow> bool \<Rightarrow> ustring \<Rightarrow> compareAndSetInput
    \<Rightarrow> ustring \<Rightarrow> writeResult \<times> bool" where
  "specCas claim current live digest input revision =
     (if claim \<noteq> None \<and> claim \<noteq> Some (ci_key input, digest) then (W_operation_mismatch, False)
      else if sameWrite current (ci_operationId input) (ci_value input) (ci_expiresAt input)
      then (W_applied (the current), False)
      else if map_option cr_revision current \<noteq> ci_expectedRevision input
      then (if claim = None then W_conflict current else W_outcome_unknown (ci_operationId input), False)
      else (if live then W_applied (newRecord input revision) else W_outcome_unknown (ci_operationId input), True))"

section \<open>Facts that hold for every provider\<close>

text \<open>A strong read of \<open>key\<close> returned this record.\<close>

definition observed :: "'w controlDeps \<Rightarrow> ustring \<Rightarrow> controlRecord \<Rightarrow> bool" where
  "observed deps key record \<longleftrightarrow> (\<exists>w r w'. readLive deps key w = (Inr r, w') \<and> lr_live r = Some record)"

lemma triple_self: "triple (\<lambda>_. True) m (\<lambda>x s'. \<exists>s. m s = (Inr x, s')) (\<lambda>_ _. True)"
  by (auto simp: triple_def split: prod.split sum.split)

lemma nothrow_storeDiagnostic [simp]: "nothrow (storeDiagnostic deps key stage error)"
  by (simp add: storeDiagnostic_def Let_def)

lemma nothrow_confirmClaim: "nothrow (confirmClaim deps l key digest result)"
  unfolding confirmClaim_def by (auto intro!: nothrow_try nothrow_bind)

lemma nothrow_claimOperation: "nothrow (claimOperation deps operationId key digest)"
  unfolding claimOperation_def Let_def
  by (auto intro!: nothrow_try nothrow_bind nothrow_confirmClaim split: option.split)

lemma nothrow_migrateLegacy: "nothrow (migrateLegacy deps key prior)"
  unfolding migrateLegacy_def catchS_def by (auto intro!: nothrow_try split: option.split)

lemma nothrow_confirmWrite: "nothrow (confirmWrite deps input isRetry result)"
  unfolding confirmWrite_def by (auto intro!: nothrow_try nothrow_bind split: option.split)

lemma nothrow_writeEnvelope: "nothrow (writeEnvelope deps input isRetry prior)"
  unfolding writeEnvelope_def Let_def by (intro nothrow_try nothrow_bind nothrow_confirmWrite) simp_all

lemma nothrow_writeRecord: "nothrow (writeRecord deps input isRetry)"
  unfolding writeRecord_def
  by (auto intro!: nothrow_try nothrow_bind nothrow_migrateLegacy nothrow_writeEnvelope split: option.split)

lemma nothrow_compareAndSet: "nothrow (compareAndSet deps input)"
  unfolding compareAndSet_def Let_def
  by (auto intro!: nothrow_bind nothrow_claimOperation nothrow_writeRecord split: claimResult.split)

text \<open>Every path that reports \<open>applied\<close> ends in a read that returned the record.\<close>

definition appliedOk :: "'w controlDeps \<Rightarrow> compareAndSetInput \<Rightarrow> writeResult \<Rightarrow> bool" where
  "appliedOk deps input result = (\<forall>record. result = W_applied record \<longrightarrow>
     observed deps (ci_key input) record
     \<and> sameWrite (Some record) (ci_operationId input) (ci_value input) (ci_expiresAt input))"

lemma appliedOk_simps [simp]:
  "appliedOk deps input (W_conflict c)" "appliedOk deps input W_operation_mismatch"
  "appliedOk deps input (W_outcome_unknown u)" "appliedOk deps input W_unavailable"
  "appliedOk deps input (unknownOr e u)"
  by (simp_all add: appliedOk_def unknownOr_def)

lemma appliedOk_I:
  "observed deps (ci_key input) record \<Longrightarrow>
   sameWrite (Some record) (ci_operationId input) (ci_value input) (ci_expiresAt input)
   \<Longrightarrow> appliedOk deps input (W_applied record)"
  by (simp add: appliedOk_def)

lemma triple_readLive:
  "triple (\<lambda>_. True) (readLive deps key) (\<lambda>r _. \<forall>record. lr_live r = Some record \<longrightarrow> observed deps key record) (\<lambda>_ _. True)"
  by (rule triple_post[OF triple_self]) (auto simp: observed_def)

lemma triple_ret_post: "Q x \<Longrightarrow> triple P (retS x) (\<lambda>r _. Q r) E"
  by (rule triple_ret)

lemma triple_diag_ret: "Q x \<Longrightarrow> triple P (bindS (storeDiagnostic deps key stage error) (\<lambda>_. retS x)) (\<lambda>r _. Q r) E"
  by (rule triple_bind[where R = "\<lambda>_ _. True"])
    (auto simp: storeDiagnostic_def Let_def intro: triple_update triple_ret)

lemmas read_triple = triple_try[OF triple_readLive, of _ _ _ "\<lambda>r _. Q r" for Q]

lemma triple_confirmWrite:
  "triple (\<lambda>_. True) (confirmWrite deps input isRetry result) (\<lambda>r _. appliedOk deps input r) (\<lambda>_ _. True)"
  unfolding confirmWrite_def
  by (auto intro!: triple_try[OF triple_readLive] triple_ret triple_diag_ret appliedOk_I split: option.split)

lemma triple_writeEnvelope:
  "triple (\<lambda>_. True) (writeEnvelope deps input isRetry prior) (\<lambda>r _. appliedOk deps input r) (\<lambda>_ _. True)"
  unfolding writeEnvelope_def Let_def
  by (rule triple_try[OF triple_True]) (auto intro!: triple_confirmWrite triple_diag_ret)

lemma triple_migrated:
  "triple P (bindS (migrateLegacy deps key prior) (\<lambda>migrated. case migrated of
      None \<Rightarrow> retS (W_outcome_unknown u) | Some m \<Rightarrow> writeEnvelope deps input isRetry m))
    (\<lambda>r _. appliedOk deps input r) (\<lambda>_ _. True)"
  by (rule triple_bind[OF triple_True]) (auto intro!: triple_option triple_ret triple_pre[OF triple_writeEnvelope])

lemma triple_writeRecord:
  "triple (\<lambda>_. True) (writeRecord deps input isRetry) (\<lambda>r _. appliedOk deps input r) (\<lambda>_ _. True)"
  unfolding writeRecord_def
proof (rule triple_try[OF triple_readLive])
  fix e :: jsval
  show "triple (\<lambda>_. True) (bindS (storeDiagnostic deps (ci_key input) Read_error e)
      (\<lambda>_. retS (unknownOr e (ci_operationId input)))) (\<lambda>r _. appliedOk deps input r) (\<lambda>_ _. True)"
    by (rule triple_diag_ret) simp
qed (intro triple_if triple_migrated triple_ret triple_pre[OF triple_writeEnvelope],
    auto simp: sameWrite_def intro!: appliedOk_I split: option.splits)

lemma triple_compareAndSet:
  "triple (\<lambda>_. True) (compareAndSet deps input) (\<lambda>r _. appliedOk deps input r) (\<lambda>_ _. True)"
  unfolding compareAndSet_def Let_def
  by (rule triple_bind[OF triple_True])
    (auto intro!: triple_ret triple_diag_ret triple_pre[OF triple_writeRecord] split: claimResult.split)

lemma interpretRaw_live:
  "lr_live (interpretRaw deps key raw legacy now) = Some r \<Longrightarrow> cr_key r = key \<and> cr_revision r \<noteq> []"
  by (auto simp: interpretRaw_def toRecord_def validEtag_def split: option.splits if_splits)

lemma observed_record:
  assumes "observed deps key r"
  shows "cr_key r = key \<and> cr_revision r \<noteq> []"
proof -
  obtain w lr w' where run: "readLive deps key w = (Inr lr, w')" "lr_live lr = Some r"
    using assms by (auto simp: observed_def)
  then have "\<exists>raw legacy now. lr = interpretRaw deps key raw legacy now"
    by (auto simp: readLive_def bindS_def tryS_def split: prod.splits sum.splits option.splits)
  then show ?thesis using run(2) interpretRaw_live by blast
qed

definition noConflict :: "writeResult \<Rightarrow> bool" where
  "noConflict result = (\<forall>current. result \<noteq> W_conflict current)"

lemma noConflict_simps [simp]:
  "noConflict (W_applied r)" "noConflict W_operation_mismatch" "noConflict (W_outcome_unknown u)" "noConflict W_unavailable"
  "noConflict (unknownOr e u)" "\<not> noConflict (W_conflict c)"
  by (simp_all add: noConflict_def unknownOr_def)

lemma retry_writeEnvelope:
  "triple P (writeEnvelope deps input True prior) (\<lambda>r _. noConflict r) (\<lambda>_ _. True)"
proof -
  have "triple (\<lambda>_. True) (confirmWrite deps input True result) (\<lambda>r _. noConflict r) (\<lambda>_ _. True)" for result
    unfolding confirmWrite_def
    by (auto intro!: triple_try[OF triple_True] triple_ret triple_diag_ret split: option.split)
  then show ?thesis
    unfolding writeEnvelope_def Let_def by (intro triple_try[OF triple_True] triple_diag_ret) simp_all
qed

lemma retry_writeRecord:
  "triple (\<lambda>_. True) (writeRecord deps input True) (\<lambda>r _. noConflict r) (\<lambda>_ _. True)"
  unfolding writeRecord_def
  by (auto intro!: triple_try[OF triple_True] triple_bind[OF triple_True] triple_ret triple_diag_ret retry_writeEnvelope
      split: option.split)

lemma conflict_claim:
  assumes run: "compareAndSet deps input w = (Inr (W_conflict current), w')"
  shows "\<exists>w1. claimOperation deps (ci_operationId input) (ci_key input)
    (digestOf (numText deps) (ci_value input) (ci_expiresAt input)) w = (Inr (Claimed False), w1)"
proof -
  obtain claim w1 where claim: "claimOperation deps (ci_operationId input) (ci_key input)
      (digestOf (numText deps) (ci_value input) (ci_expiresAt input)) w = (Inr claim, w1)"
    using run unfolding compareAndSet_def Let_def by (metis bindS_Inr)
  then obtain b where b: "claim = Claimed b" and rest: "writeRecord deps input b w1 = (Inr (W_conflict current), w')"
    using run by (cases claim) (auto simp: compareAndSet_def Let_def bindS_def tryS_def storeDiagnostic_def)
  have "b = False" using rest tripleD(1)[OF retry_writeRecord TrueI, of deps input w1 "W_conflict current" w'] by (cases b) auto
  then show ?thesis using claim b by simp
qed

section \<open>The operation ledger as an interface\<close>

text \<open>
  What the adapter relies on: a ledger entry, once there, stays as it is, whatever any process does
  between two calls (every writer creates entries with \<open>onlyIfNew\<close>), and a strong read of the ledger
  returns what is there. Nothing is asked of the record store, of reported write results or of failures.
\<close>

locale claim_ledger =
  fixes deps :: "'w controlDeps" and led :: "'w \<Rightarrow> ustring \<Rightarrow> blob option"
  assumes ledger_get_grows: "getWithMetadata (operations deps) k w = (r, w') \<Longrightarrow> led w \<subseteq>\<^sub>m led w'"
    and ledger_get_some: "getWithMetadata (operations deps) k w = (Inr (Some b), w') \<Longrightarrow> led w' k = Some b"
    and ledger_get_none: "getWithMetadata (operations deps) k w = (Inr None, w') \<Longrightarrow> led w k = None"
    and ledger_create_grows: "setJSON (operations deps) k d OnlyIfNew w = (r', w') \<Longrightarrow> led w \<subseteq>\<^sub>m led w'"
    and record_get_grows: "getWithMetadata (records deps) k w = (r, w') \<Longrightarrow> led w \<subseteq>\<^sub>m led w'"
    and record_set_grows: "setJSON (records deps) k d c w = (r', w') \<Longrightarrow> led w \<subseteq>\<^sub>m led w'"
    and diagnostics_grow: "led w \<subseteq>\<^sub>m led (diagnostic deps e w)" "led w \<subseteq>\<^sub>m led (writeDiagnostic deps e w)"
begin

definition grows :: "('w, 'a) act \<Rightarrow> bool" where
  "grows m \<longleftrightarrow> (\<forall>w r w'. m w = (r, w') \<longrightarrow> led w \<subseteq>\<^sub>m led w')"

lemma growsD: "grows m \<Longrightarrow> m w = (r, w') \<Longrightarrow> led w \<subseteq>\<^sub>m led w'"
  by (simp add: grows_def)

lemma grows_pure: "grows (retS x)" "grows (throwS e)" "grows (readS f)" "grows (\<lambda>w. (Inr (f w), w))"
  by (simp_all add: grows_def)

lemma grows_provider:
  "grows (getWithMetadata (operations deps) k)" "grows (setJSON (operations deps) k d OnlyIfNew)"
  "grows (getWithMetadata (records deps) k)" "grows (setJSON (records deps) k d c)"
  "grows (storeDiagnostic deps key stage error)"
  using ledger_get_grows ledger_create_grows record_get_grows record_set_grows diagnostics_grow
  by (auto simp: grows_def storeDiagnostic_def Let_def)

lemma grows_try:
  assumes "grows m" and "\<And>x. grows (k x)" and "\<And>e. grows (h e)"
  shows "grows (tryS m k h)"
  unfolding grows_def
proof (intro allI impI)
  fix w r w'
  assume run: "tryS m k h w = (r, w')"
  obtain a v where m: "m w = (a, v)" by (cases "m w")
  have "led v \<subseteq>\<^sub>m led w'"
    using run m assms(2,3) by (cases a) (auto simp: tryS_def dest: growsD)
  then show "led w \<subseteq>\<^sub>m led w'" using growsD[OF assms(1) m] by (rule map_le_trans[rotated])
qed

lemma grows_bind: "grows m \<Longrightarrow> (\<And>x. grows (f x)) \<Longrightarrow> grows (bindS m f)"
  unfolding bindS_def by (rule grows_try) (auto intro: grows_pure)

lemmas grows_intros = grows_pure grows_provider grows_try grows_bind

lemma grows_readLive: "grows (readLive deps key)"
  unfolding readLive_def legacyRaw_def by (auto intro!: grows_intros split: option.split)

lemma grows_migrateLegacy: "grows (migrateLegacy deps key prior)"
  unfolding migrateLegacy_def catchS_def by (auto intro!: grows_intros grows_readLive split: option.split)

lemma grows_confirmWrite: "grows (confirmWrite deps input isRetry result)"
  unfolding confirmWrite_def by (auto intro!: grows_intros grows_readLive split: option.split)

lemma grows_writeEnvelope: "grows (writeEnvelope deps input isRetry prior)"
  unfolding writeEnvelope_def Let_def by (intro grows_intros grows_confirmWrite)

lemma grows_writeRecord: "grows (writeRecord deps input isRetry)"
  unfolding writeRecord_def
  by (auto intro!: grows_intros grows_readLive grows_migrateLegacy grows_writeEnvelope split: option.split)

lemma grows_confirmClaim: "grows (confirmClaim deps l key digest result)"
  unfolding confirmClaim_def by (auto intro!: grows_intros)

lemma confirmClaim_claimed:
  assumes "confirmClaim deps l key digest result w = (Inr (Claimed b), w')"
  shows "\<exists>c. led w' l = Some c \<and> sameLedgerEntry (bl_data c) key digest"
proof -
  obtain r w1 where g: "getWithMetadata (operations deps) l w = (r, w1)" by (cases "getWithMetadata (operations deps) l w")
  have "r = Inr None \<Longrightarrow> False" "r = Inl e \<Longrightarrow> False" for e
    using assms g
    by (auto simp: confirmClaim_def tryS_def bindS_def storeDiagnostic_def Let_def split: if_splits)
  then obtain c where c: "r = Inr (Some c)" by (metis option.exhaust sum.exhaust)
  then have "w' = w1 \<and> sameLedgerEntry (bl_data c) key digest"
    using assms g
    by (auto simp: confirmClaim_def tryS_def split: if_splits jsval.splits)
  then show ?thesis using ledger_get_some g c by blast
qed

text \<open>No legacy ledger entry under the truncated form of the identifier.\<close>

definition noLegacyEntry :: "'w \<Rightarrow> ustring \<Rightarrow> bool" where
  "noLegacyEntry w operationId \<longleftrightarrow> (\<forall>oldKey. legacyFragmentKey operationId = Some oldKey \<longrightarrow> led w oldKey = None)"

lemma noLegacyEntry_earlier: "led w \<subseteq>\<^sub>m led w' \<Longrightarrow> noLegacyEntry w' i \<Longrightarrow> noLegacyEntry w i"
  by (auto simp: noLegacyEntry_def map_le_def dom_def)

lemma grows_legacyDecision: "grows (legacyDecision deps oldKey operationId key digest old)"
  unfolding legacyDecision_def legacyProof_def Let_def
  by (auto intro!: grows_intros grows_readLive split: option.split jsval.split sum.split)

lemma grows_legacyClaim: "grows (legacyClaim deps oldKey operationId key digest)"
  unfolding legacyClaim_def by (intro grows_intros grows_legacyDecision)

lemma grows_claimOperation: "grows (claimOperation deps operationId key digest)"
  unfolding claimOperation_def Let_def
  by (auto intro!: grows_intros grows_legacyClaim grows_confirmClaim split: option.split)

lemma grows_compareAndSet: "grows (compareAndSet deps input)"
  unfolding compareAndSet_def Let_def
  by (auto intro!: grows_intros grows_claimOperation grows_writeRecord split: claimResult.split)

lemma legacyClaim_absent:
  assumes "legacyClaim deps oldKey operationId key digest w = (Inr (Some r), w')" and "led w' oldKey = None"
  shows False
proof -
  obtain old w1 where g: "getWithMetadata (operations deps) oldKey w = (Inr old, w1)"
    and d: "legacyDecision deps oldKey operationId key digest old w1 = (Inr (Some r), w')"
    using bindS_Inr[OF assms(1)[unfolded legacyClaim_def]] by blast
  obtain b where b: "old = Some b" using d by (cases old) (auto simp: legacyDecision_def)
  have "led w1 \<subseteq>\<^sub>m led w'" using growsD[OF grows_legacyDecision d] .
  moreover have "led w1 oldKey = Some b" using ledger_get_some g b by blast
  ultimately show False using assms(2) by (auto simp: map_le_def dom_def)
qed

lemma claimOperation_claimed:
  assumes run: "claimOperation deps operationId key digest w = (Inr (Claimed b), w')"
    and free: "noLegacyEntry w' operationId"
  shows "\<exists>c. led w' (physicalKey deps operationId) = Some c \<and> sameLedgerEntry (bl_data c) key digest"
proof -
  let ?l = "physicalKey deps operationId"
  let ?first = "case legacyFragmentKey operationId of None \<Rightarrow> retS None
    | Some oldKey \<Rightarrow> legacyClaim deps oldKey operationId key digest"
  obtain a w1 where first: "?first w = (a, w1)" by (cases "?first w")
  have a: "a = Inr None"
  proof (rule ccontr)
    assume "a \<noteq> Inr None"
    then obtain e where "a = Inl e \<or> (\<exists>r. a = Inr (Some r))" by (metis option.exhaust sum.exhaust)
    moreover have "a \<noteq> Inl e" for e
      using run first by (auto simp: claimOperation_def tryS_def bindS_def storeDiagnostic_def Let_def)
    ultimately obtain r where r: "a = Inr (Some r)" by blast
    then have w1: "w1 = w'" using run first by (auto simp: claimOperation_def tryS_def Let_def)
    obtain oldKey where "legacyFragmentKey operationId = Some oldKey" using first r by (cases "legacyFragmentKey operationId") auto
    then show False using first r w1 free legacyClaim_absent[of oldKey] by (auto simp: noLegacyEntry_def)
  qed
  obtain x w2 where set: "setJSON (operations deps) ?l (ledgerEntry key digest) OnlyIfNew w1 = (x, w2)"
    by (cases "setJSON (operations deps) ?l (ledgerEntry key digest) OnlyIfNew w1")
  show ?thesis
  proof (cases x)
    case (Inl e)
    then show ?thesis using run first a set
      by (auto simp: claimOperation_def tryS_def bindS_def storeDiagnostic_def Let_def split: if_splits)
  next
    case (Inr result)
    then have "confirmClaim deps ?l key digest result w2 = (Inr (Claimed b), w')"
      using run first a set by (auto simp: claimOperation_def tryS_def Let_def)
    then show ?thesis by (rule confirmClaim_claimed)
  qed
qed

lemma compareAndSet_claims:
  assumes run: "compareAndSet deps input w = (Inr result, w')" and "result = W_applied record \<or> result = W_conflict current"
    and free: "noLegacyEntry w' (ci_operationId input)"
  shows "\<exists>c. led w' (physicalKey deps (ci_operationId input)) = Some c
    \<and> sameLedgerEntry (bl_data c) (ci_key input) (digestOf (numText deps) (ci_value input) (ci_expiresAt input))"
proof -
  obtain claim w1 where claim: "claimOperation deps (ci_operationId input) (ci_key input)
      (digestOf (numText deps) (ci_value input) (ci_expiresAt input)) w = (Inr claim, w1)"
    using run unfolding compareAndSet_def Let_def by (metis bindS_Inr)
  then obtain b where b: "claim = Claimed b" and rest: "writeRecord deps input b w1 = (Inr result, w')"
    using run assms(2)
    by (cases claim) (auto simp: compareAndSet_def Let_def bindS_def tryS_def storeDiagnostic_def)
  have g: "led w1 \<subseteq>\<^sub>m led w'" by (rule growsD[OF grows_writeRecord rest])
  show ?thesis
    using claimOperation_claimed[OF claim[unfolded b] noLegacyEntry_earlier[OF g free]] g
    by (auto simp: map_le_def dom_def)
qed

text \<open>An operation identifier never names two different writes, whatever happens in between.\<close>

lemma claim_unique:
  assumes first: "compareAndSet deps a w1 = (Inr (W_applied ra), w1')"
    and between: "led w1' \<subseteq>\<^sub>m led w2"
    and second: "compareAndSet deps b w2 = (Inr (W_applied rb), w2')"
    and same: "ci_operationId a = ci_operationId b" and free: "noLegacyEntry w2' (ci_operationId a)"
  shows "ci_key a = ci_key b \<and> digestOf (numText deps) (ci_value a) (ci_expiresAt a)
    = digestOf (numText deps) (ci_value b) (ci_expiresAt b)"
proof -
  have g: "led w1' \<subseteq>\<^sub>m led w2'" by (rule map_le_trans[OF between growsD[OF grows_compareAndSet second]])
  obtain ca where ca: "led w1' (physicalKey deps (ci_operationId a)) = Some ca"
    "sameLedgerEntry (bl_data ca) (ci_key a) (digestOf (numText deps) (ci_value a) (ci_expiresAt a))"
    using compareAndSet_claims[OF first _ noLegacyEntry_earlier[OF g free]] by blast
  obtain cb where cb: "led w2' (physicalKey deps (ci_operationId a)) = Some cb"
    "sameLedgerEntry (bl_data cb) (ci_key b) (digestOf (numText deps) (ci_value b) (ci_expiresAt b))"
    using compareAndSet_claims[OF second] same free by auto
  have "ca = cb" using g ca(1) cb(1) by (auto simp: map_le_def dom_def)
  then show ?thesis using ca(2) cb(2) by (simp add: sameLedgerEntry_def)
qed

end

section \<open>A quiet provider as an interface\<close>

definition condHolds :: "writeCondition \<Rightarrow> blob option \<Rightarrow> bool" where
  "condHolds c current = (case c of
     OnlyIfNew \<Rightarrow> current = None
   | OnlyIfMatch m \<Rightarrow> (case current of None \<Rightarrow> False | Some b \<Rightarrow> bl_etag b = Some m))"

definition claimOf :: "blob option \<Rightarrow> (ustring \<times> ustring) option" where
  "claimOf entry = (case entry of
     None \<Rightarrow> None
   | Some b \<Rightarrow> (case (getProp (bl_data b) (js ''key''), getProp (bl_data b) (js ''digest'')) of
       (JStr k, JStr d) \<Rightarrow> Some (k, d)
     | _ \<Rightarrow> None))"

text \<open>A state in which calls succeed and nobody else acts: reads are exact, conditional writes are exact.\<close>

locale quiet_provider =
  fixes deps :: "'w controlDeps" and recs :: "'w \<Rightarrow> ustring \<Rightarrow> blob option" and led :: "'w \<Rightarrow> ustring \<Rightarrow> blob option"
    and quiet :: "'w \<Rightarrow> bool"
  assumes rec_get: "quiet w \<Longrightarrow> getWithMetadata (records deps) k w = (Inr (recs w k), w)"
    and led_get: "quiet w \<Longrightarrow> getWithMetadata (operations deps) k w = (Inr (led w k), w)"
    and rec_set: "quiet w \<Longrightarrow> condHolds c (recs w k) \<Longrightarrow> c \<noteq> OnlyIfMatch [] \<Longrightarrow> \<exists>e w'. e \<noteq> [] \<and> quiet w'
        \<and> setJSON (records deps) k d c w = (Inr \<lparr>sr_modified = True, sr_etag = Some e\<rparr>, w')
        \<and> recs w' = (recs w)(k \<mapsto> \<lparr>bl_data = d, bl_etag = Some e\<rparr>) \<and> led w' = led w \<and> clock deps w' = clock deps w"
    and led_new: "quiet w \<Longrightarrow> led w k = None \<Longrightarrow> \<exists>e w'. e \<noteq> [] \<and> quiet w'
        \<and> setJSON (operations deps) k d OnlyIfNew w = (Inr \<lparr>sr_modified = True, sr_etag = Some e\<rparr>, w')
        \<and> led w' = (led w)(k \<mapsto> \<lparr>bl_data = d, bl_etag = Some e\<rparr>) \<and> recs w' = recs w \<and> clock deps w' = clock deps w"
    and led_old: "quiet w \<Longrightarrow> led w k \<noteq> None \<Longrightarrow> \<exists>r. \<not> sr_modified r
        \<and> setJSON (operations deps) k d OnlyIfNew w = (Inr r, w)"
    and etags: "quiet w \<Longrightarrow> recs w k = Some b \<Longrightarrow> validEtag (bl_etag b)"
      "quiet w \<Longrightarrow> led w k = Some b \<Longrightarrow> validEtag (bl_etag b)"
begin

definition liveAt :: "'w \<Rightarrow> ustring \<Rightarrow> liveRead" where
  "liveAt w key = interpretRaw deps key (recs w key) False (clock deps w)"

lemma safe_key: "isSafeKey key \<Longrightarrow> physicalKey deps key = key \<and> legacyFragmentKey key = None"
  by (auto simp: physicalKey_def legacyFragmentKey_def isSafeKey_def list_all_iff isSafeKeyUnit_def isDigit_def js_def)

lemma readLive_quiet:
  assumes "quiet w" and "isSafeKey key"
  shows "readLive deps key w = (Inr (liveAt w key), w)"
  using assms safe_key[OF assms(2)]
  by (cases "recs w key") (auto simp: readLive_def rec_get bindS_run liveAt_def legacyRaw_def)

lemma claimOperation_quiet:
  assumes q: "quiet w" and safe: "isSafeKey operationId" and dec: "led w operationId = None \<or> claimOf (led w operationId) \<noteq> None"
  shows "\<exists>w'. quiet w' \<and> recs w' = recs w \<and> clock deps w' = clock deps w
    \<and> claimOf (led w' operationId) = (case claimOf (led w operationId) of None \<Rightarrow> Some (key, digest) | Some kd \<Rightarrow> Some kd)
    \<and> (\<forall>k. k \<noteq> operationId \<longrightarrow> led w' k = led w k)
    \<and> claimOperation deps operationId key digest w = (Inr (case claimOf (led w operationId) of
        None \<Rightarrow> Claimed False | Some kd \<Rightarrow> if kd = (key, digest) then Claimed True else Claim_mismatch), w')"
proof (cases "led w operationId")
  case None
  obtain e w' where e: "e \<noteq> []" "quiet w'" "recs w' = recs w" "clock deps w' = clock deps w"
    "setJSON (operations deps) operationId (ledgerEntry key digest) OnlyIfNew w = (Inr \<lparr>sr_modified = True, sr_etag = Some e\<rparr>, w')"
    "led w' = (led w)(operationId \<mapsto> \<lparr>bl_data = ledgerEntry key digest, bl_etag = Some e\<rparr>)"
    using led_new[OF q None] by blast
  have "claimOperation deps operationId key digest w = (Inr (Claimed False), w')"
    using e safe_key[OF safe] led_get[OF e(2), of operationId]
    by (simp add: claimOperation_def tryS_def confirmClaim_def validEtag_def sameLedgerEntry_def ledgerEntry_def)
  then show ?thesis using e None by (auto simp: claimOf_def ledgerEntry_def)
next
  case (Some b)
  then obtain k d where kd: "claimOf (Some b) = Some (k, d)" using dec by auto
  then have p: "getProp (bl_data b) (js ''key'') = JStr k" "getProp (bl_data b) (js ''digest'') = JStr d"
    by (auto simp: claimOf_def split: jsval.splits)
  obtain r where "\<not> sr_modified r" "setJSON (operations deps) operationId (ledgerEntry key digest) OnlyIfNew w = (Inr r, w)"
    using led_old[OF q, of operationId] Some by auto
  then have "claimOperation deps operationId key digest w
      = (Inr (if (k, d) = (key, digest) then Claimed True else Claim_mismatch), w)"
    using safe_key[OF safe] led_get[OF q, of operationId] Some p etags(2)[OF q Some]
    by (simp add: claimOperation_def tryS_def confirmClaim_def sameLedgerEntry_def)
  then show ?thesis using q Some kd by auto
qed

lemma confirmWrite_quiet:
  assumes q: "quiet w" and safe: "isSafeKey (ci_key input)" and e: "e \<noteq> []" and op: "ci_operationId input \<noteq> []"
    and stored: "recs w (ci_key input) = Some \<lparr>bl_data = encodeEnvelope \<lparr>se_operationId = ci_operationId input,
      se_value = ci_value input, se_expiresAt = ci_expiresAt input\<rparr>, bl_etag = Some e\<rparr>"
    and json: "isJsonValue 0 (ci_value input)" "wf_js (ci_value input)"
  shows "confirmWrite deps input isRetry \<lparr>sr_modified = True, sr_etag = Some e\<rparr> w
    = (Inr (if isRecordLive (dateParse deps) (ci_expiresAt input) (clock deps w)
            then W_applied (newRecord input e) else W_outcome_unknown (ci_operationId input)), w)"
proof -
  have "decodeEnvelope (encodeEnvelope \<lparr>se_operationId = ci_operationId input, se_value = ci_value input,
      se_expiresAt = ci_expiresAt input\<rparr>) = Some \<lparr>se_operationId = ci_operationId input, se_value = ci_value input,
      se_expiresAt = ci_expiresAt input\<rparr>"
    using op json by (cases "ci_expiresAt input") (auto simp: decodeEnvelope_def encodeEnvelope_def)
  then have "liveAt w (ci_key input) = \<lparr>lr_raw = recs w (ci_key input),
      lr_live = (if isRecordLive (dateParse deps) (ci_expiresAt input) (clock deps w) then Some (newRecord input e) else None),
      lr_corrupt = False, lr_envelope = Some \<lparr>se_operationId = ci_operationId input, se_value = ci_value input,
      se_expiresAt = ci_expiresAt input\<rparr>, lr_legacy = False\<rparr>"
    using stored e by (simp add: liveAt_def interpretRaw_def validEtag_def toRecord_def newRecord_def)
  then show ?thesis
    using readLive_quiet[OF q safe] e sameJsonValue_refl[OF json]
    by (simp add: confirmWrite_def tryS_def validEtag_def newRecord_def sameWrite_def)
qed

lemma liveAt_raw [simp]: "lr_raw (liveAt w key) = recs w key" "lr_legacy (liveAt w key) = False"
  by (auto simp: liveAt_def interpretRaw_def split: option.splits)

lemma writeEnvelope_quiet:
  assumes q: "quiet w" and safe: "isSafeKey (ci_key input)" and op: "ci_operationId input \<noteq> []"
    and json: "isJsonValue 0 (ci_value input)" "wf_js (ci_value input)"
  shows "\<exists>w' e. quiet w' \<and> led w' = led w \<and> recs w' = (recs w)(ci_key input \<mapsto>
      \<lparr>bl_data = encodeEnvelope \<lparr>se_operationId = ci_operationId input, se_value = ci_value input,
        se_expiresAt = ci_expiresAt input\<rparr>, bl_etag = Some e\<rparr>) \<and> e \<noteq> [] \<and> clock deps w' = clock deps w
    \<and> writeEnvelope deps input isRetry (liveAt w (ci_key input)) w
      = (Inr (if isRecordLive (dateParse deps) (ci_expiresAt input) (clock deps w)
            then W_applied (newRecord input e) else W_outcome_unknown (ci_operationId input)), w')"
proof -
  let ?k = "ci_key input"
  let ?d = "encodeEnvelope \<lparr>se_operationId = ci_operationId input, se_value = ci_value input, se_expiresAt = ci_expiresAt input\<rparr>"
  let ?c = "case recs w ?k of None \<Rightarrow> OnlyIfNew | Some b \<Rightarrow> (case bl_etag b of None \<Rightarrow> OnlyIfNew | Some etag \<Rightarrow> OnlyIfMatch etag)"
  have "condHolds ?c (recs w ?k)" "?c \<noteq> OnlyIfMatch []"
    using etags(1)[OF q, of ?k] by (auto simp: condHolds_def validEtag_def split: option.splits)
  then obtain e w' where e: "e \<noteq> []" "quiet w'" "setJSON (records deps) ?k ?d ?c w = (Inr \<lparr>sr_modified = True, sr_etag = Some e\<rparr>, w')"
    "recs w' = (recs w)(?k \<mapsto> \<lparr>bl_data = ?d, bl_etag = Some e\<rparr>)" "led w' = led w" "clock deps w' = clock deps w"
    using rec_set[OF q] by blast
  have "writeEnvelope deps input isRetry (liveAt w ?k) w
      = confirmWrite deps input isRetry \<lparr>sr_modified = True, sr_etag = Some e\<rparr> w'"
    using e(3) safe_key[OF safe] by (simp add: writeEnvelope_def tryS_def Let_def)
  also have "\<dots> = (Inr (if isRecordLive (dateParse deps) (ci_expiresAt input) (clock deps w)
            then W_applied (newRecord input e) else W_outcome_unknown (ci_operationId input)), w')"
    using confirmWrite_quiet[OF e(2) safe e(1) op _ json] e(4,6) by simp
  finally show ?thesis using e by blast
qed

text \<open>One \<open>compareAndSet\<close> implements the sequential specification.\<close>

lemma compareAndSet_quiet:
  assumes q: "quiet w" and safe: "isSafeKey (ci_key input)" "isSafeKey (ci_operationId input)"
    and dec: "led w (ci_operationId input) = None \<or> claimOf (led w (ci_operationId input)) \<noteq> None"
    and sound: "\<not> lr_corrupt (liveAt w (ci_key input))"
    and json: "isJsonValue 0 (ci_value input)" "wf_js (ci_value input)"
  shows "\<exists>w' revision. quiet w' \<and> revision \<noteq> [] \<and> clock deps w' = clock deps w
    \<and> compareAndSet deps input w = (Inr (fst (specCas (claimOf (led w (ci_operationId input)))
         (lr_live (liveAt w (ci_key input))) (isRecordLive (dateParse deps) (ci_expiresAt input) (clock deps w))
         (digestOf (numText deps) (ci_value input) (ci_expiresAt input)) input revision)), w')
    \<and> recs w' = (if snd (specCas (claimOf (led w (ci_operationId input)))
         (lr_live (liveAt w (ci_key input))) (isRecordLive (dateParse deps) (ci_expiresAt input) (clock deps w))
         (digestOf (numText deps) (ci_value input) (ci_expiresAt input)) input revision)
       then (recs w)(ci_key input \<mapsto> \<lparr>bl_data = encodeEnvelope \<lparr>se_operationId = ci_operationId input,
          se_value = ci_value input, se_expiresAt = ci_expiresAt input\<rparr>, bl_etag = Some revision\<rparr>)
       else recs w)
    \<and> claimOf (led w' (ci_operationId input)) = (case claimOf (led w (ci_operationId input)) of
         None \<Rightarrow> Some (ci_key input, digestOf (numText deps) (ci_value input) (ci_expiresAt input)) | Some kd \<Rightarrow> Some kd)
    \<and> (\<forall>k. k \<noteq> ci_operationId input \<longrightarrow> led w' k = led w k)"
    (is "\<exists>w' revision. ?P w' revision")
proof -
  let ?k = "ci_key input" and ?op = "ci_operationId input"
  let ?dig = "digestOf (numText deps) (ci_value input) (ci_expiresAt input)"
  have op: "?op \<noteq> []" using safe(2) by (simp add: isSafeKey_def)
  obtain w1 where w1: "quiet w1" "recs w1 = recs w" "clock deps w1 = clock deps w"
    "claimOf (led w1 ?op) = (case claimOf (led w ?op) of None \<Rightarrow> Some (?k, ?dig) | Some kd \<Rightarrow> Some kd)"
    "\<forall>k. k \<noteq> ?op \<longrightarrow> led w1 k = led w k"
    "claimOperation deps ?op ?k ?dig w = (Inr (case claimOf (led w ?op) of
        None \<Rightarrow> Claimed False | Some kd \<Rightarrow> if kd = (?k, ?dig) then Claimed True else Claim_mismatch), w1)"
    using claimOperation_quiet[OF q safe(2) dec, of ?k ?dig] by blast
  have live: "liveAt w1 ?k = liveAt w ?k" using w1(2,3) by (simp add: liveAt_def)
  show ?thesis
  proof (cases "claimOf (led w ?op) \<noteq> None \<and> claimOf (led w ?op) \<noteq> Some (?k, ?dig)")
    case True
    then have "compareAndSet deps input w = (Inr W_operation_mismatch, w1)"
      using w1(6) by (auto simp: compareAndSet_def Let_def bindS_def tryS_def)
    then have "?P w1 [0]" using True w1 by (auto simp: specCas_def)
    then show ?thesis by blast
  next
    case ok: False
    define retry where "retry = (claimOf (led w ?op) \<noteq> None)"
    have start: "compareAndSet deps input w = writeRecord deps input retry w1"
      using ok w1(6) by (auto simp: compareAndSet_def Let_def bindS_def tryS_def retry_def split: option.splits)
    have body: "writeRecord deps input retry w1 =
      (if sameWrite (lr_live (liveAt w ?k)) ?op (ci_value input) (ci_expiresAt input)
       then (Inr (W_applied (the (lr_live (liveAt w ?k)))), w1)
       else if map_option cr_revision (lr_live (liveAt w ?k)) \<noteq> ci_expectedRevision input
       then (Inr (if retry then W_outcome_unknown ?op else W_conflict (lr_live (liveAt w ?k))), w1)
       else writeEnvelope deps input retry (liveAt w ?k) w1)"
      using readLive_quiet[OF w1(1) safe(1)] sound live by (simp add: writeRecord_def tryS_def)
    obtain w2 e where w2: "quiet w2" "led w2 = led w1" "recs w2 = (recs w)(?k \<mapsto>
        \<lparr>bl_data = encodeEnvelope \<lparr>se_operationId = ?op, se_value = ci_value input, se_expiresAt = ci_expiresAt input\<rparr>,
          bl_etag = Some e\<rparr>)" "e \<noteq> []" "clock deps w2 = clock deps w"
      "writeEnvelope deps input retry (liveAt w ?k) w1 = (Inr (if isRecordLive (dateParse deps) (ci_expiresAt input) (clock deps w)
            then W_applied (newRecord input e) else W_outcome_unknown ?op), w2)"
      using writeEnvelope_quiet[OF w1(1) safe(1) op json, of retry] live w1(2,3) by auto
    show ?thesis
    proof (cases "sameWrite (lr_live (liveAt w ?k)) ?op (ci_value input) (ci_expiresAt input)
        \<or> map_option cr_revision (lr_live (liveAt w ?k)) \<noteq> ci_expectedRevision input")
      case True
      then have "?P w1 e" using start body ok w1 w2(4) by (auto simp: specCas_def retry_def)
      then show ?thesis by blast
    next
      case False
      then have "?P w2 e" using start body ok w1 w2 by (auto simp: specCas_def retry_def)
      then show ?thesis by blast
    qed
  qed
qed

lemma storeRead_quiet:
  assumes "quiet w" "isSafeKey key" "\<not> lr_corrupt (liveAt w key)"
  shows "storeRead deps key w = (Inr (case lr_live (liveAt w key) of None \<Rightarrow> Read_absent | Some r \<Rightarrow> Read_record r), w)"
  using assms by (simp add: storeRead_def tryS_def readLive_quiet split: option.split)

lemma storeResolve_quiet:
  assumes "quiet w" "isSafeKey key" "lr_live (liveAt w key) = Some r"
  shows "storeResolve deps key u w = (Inr (if cr_operationId r = u then Res_applied r else Res_outcome_unknown u), w)"
  using assms by (simp add: storeResolve_def tryS_def readLive_quiet)

text \<open>A stored, live envelope reads as the record that was written.\<close>

lemma liveAt_stored:
  assumes "recs w (ci_key input) = Some \<lparr>bl_data = encodeEnvelope \<lparr>se_operationId = ci_operationId input,
      se_value = ci_value input, se_expiresAt = ci_expiresAt input\<rparr>, bl_etag = Some e\<rparr>"
    and "e \<noteq> []" "ci_operationId input \<noteq> []" "isJsonValue 0 (ci_value input)"
    and "isRecordLive (dateParse deps) (ci_expiresAt input) (clock deps w)"
  shows "lr_live (liveAt w (ci_key input)) = Some (newRecord input e) \<and> \<not> lr_corrupt (liveAt w (ci_key input))"
  using assms by (cases "ci_expiresAt input")
    (auto simp: liveAt_def interpretRaw_def validEtag_def decodeEnvelope_def encodeEnvelope_def toRecord_def newRecord_def)

text \<open>Creating a record: it is applied, read back, resolved, and the same request repeated is applied again.\<close>

lemma create_read:
  assumes q: "quiet w" and safe: "isSafeKey (ci_key input)" "isSafeKey (ci_operationId input)"
    and new: "recs w (ci_key input) = None" "led w (ci_operationId input) = None" "ci_expectedRevision input = None"
    and json: "isJsonValue 0 (ci_value input)" "wf_js (ci_value input)"
    and live: "isRecordLive (dateParse deps) (ci_expiresAt input) (clock deps w)"
  shows "\<exists>e w'. quiet w' \<and> compareAndSet deps input w = (Inr (W_applied (newRecord input e)), w')
    \<and> storeRead deps (ci_key input) w' = (Inr (Read_record (newRecord input e)), w')
    \<and> storeResolve deps (ci_key input) (ci_operationId input) w' = (Inr (Res_applied (newRecord input e)), w')
    \<and> (\<exists>w''. compareAndSet deps input w' = (Inr (W_applied (newRecord input e)), w'') \<and> recs w'' = recs w')"
proof -
  let ?k = "ci_key input" and ?op = "ci_operationId input"
  let ?dig = "digestOf (numText deps) (ci_value input) (ci_expiresAt input)"
  have op: "?op \<noteq> []" using safe(2) by (simp add: isSafeKey_def)
  have fresh: "lr_live (liveAt w ?k) = None" "\<not> lr_corrupt (liveAt w ?k)" using new(1) by (simp_all add: liveAt_def interpretRaw_def)
  have spec: "specCas (claimOf (led w ?op)) (lr_live (liveAt w ?k)) True ?dig input e = (W_applied (newRecord input e), True)" for e
    using new fresh by (simp add: specCas_def claimOf_def sameWrite_def)
  obtain w' e where w': "quiet w'" "e \<noteq> []" "clock deps w' = clock deps w"
    "compareAndSet deps input w = (Inr (W_applied (newRecord input e)), w')"
    "recs w' = (recs w)(?k \<mapsto> \<lparr>bl_data = encodeEnvelope \<lparr>se_operationId = ?op, se_value = ci_value input,
       se_expiresAt = ci_expiresAt input\<rparr>, bl_etag = Some e\<rparr>)"
    "claimOf (led w' ?op) = Some (?k, ?dig)"
    using compareAndSet_quiet[OF q safe _ fresh(2) json] live new(2) spec by (auto simp: claimOf_def)
  have st: "lr_live (liveAt w' ?k) = Some (newRecord input e)" "\<not> lr_corrupt (liveAt w' ?k)"
    using liveAt_stored[of w' input e] w' op json(1) live by auto
  have same: "sameWrite (Some (newRecord input e)) ?op (ci_value input) (ci_expiresAt input)"
    using sameJsonValue_refl[OF json] by (simp add: sameWrite_def newRecord_def)
  have again: "specCas (claimOf (led w' ?op)) (lr_live (liveAt w' ?k)) True ?dig input r = (W_applied (newRecord input e), False)" for r
    using w'(6) st(1) same by (simp add: specCas_def)
  have dec: "led w' ?op = None \<or> claimOf (led w' ?op) \<noteq> None" using w'(6) by simp
  have "\<exists>w''. compareAndSet deps input w' = (Inr (W_applied (newRecord input e)), w'') \<and> recs w'' = recs w'"
    using compareAndSet_quiet[OF w'(1) safe dec st(2) json] again live w'(3) by auto
  moreover have "storeRead deps ?k w' = (Inr (Read_record (newRecord input e)), w')"
    using storeRead_quiet[OF w'(1) safe(1) st(2)] st(1) by simp
  moreover have "storeResolve deps ?k ?op w' = (Inr (Res_applied (newRecord input e)), w')"
    using storeResolve_quiet[OF w'(1) safe(1) st(1)] by (simp add: newRecord_def)
  ultimately show ?thesis using w'(1,4) by blast
qed

end

end
