(* ===== verification/JsonText.thy ===== *)
theory JsonText
  imports Json
begin

text \<open>
  The digest the control store keeps in its ledger is collision free: \<open>JSON.stringify\<close> of the canonical
  form is injective up to the order of object keys, provided the runtime prints different numbers
  differently and no object has a \<open>__proto__\<close> key (which \<open>canonicalize\<close> drops).
\<close>

section \<open>Numbers\<close>

definition numUnit :: "cunit \<Rightarrow> bool" where
  "numUnit u \<longleftrightarrow> isDigit u \<or> u = 0x2B \<or> u = 0x2D \<or> u = 0x2E \<or> u = 0x65"

text \<open>What is used of \<open>Number::toString\<close>: it prints digits, signs, point and exponent mark only, and
  different numbers differently.\<close>

definition goodNumText :: "(rat \<Rightarrow> ustring) \<Rightarrow> bool" where
  "goodNumText nt \<longleftrightarrow> inj nt \<and> (\<forall>q. nt q \<noteq> [] \<and> list_all numUnit (nt q))"

definition delim :: "ustring \<Rightarrow> bool" where
  "delim r \<longleftrightarrow> (case r of [] \<Rightarrow> True | u # _ \<Rightarrow> \<not> numUnit u)"

lemma takeWhile_delim: "list_all P x \<Longrightarrow> (case r of [] \<Rightarrow> True | u # _ \<Rightarrow> \<not> P u) \<Longrightarrow> takeWhile P (x @ r) = x"
  by (induction x) (auto split: list.splits)

lemma number_prefix:
  assumes "goodNumText nt" "nt p @ r = nt q @ r'" "delim r" "delim r'"
  shows "p = q \<and> r = r'"
proof -
  have "nt p = nt q"
    using takeWhile_delim[of numUnit "nt p" r] takeWhile_delim[of numUnit "nt q" r'] assms
    by (simp add: goodNumText_def delim_def)
  then show ?thesis using assms by (simp add: goodNumText_def inj_eq)
qed

section \<open>Strings\<close>

definition hexVal :: "cunit \<Rightarrow> nat" where
  "hexVal u = (if u < 0x40 then unat u - 0x30 else unat u - 0x57)"

definition shortEscape :: "cunit \<Rightarrow> cunit" where
  "shortEscape c = (if c = 0x62 then 0x08 else if c = 0x74 then 0x09 else if c = 0x6E then 0x0A
     else if c = 0x66 then 0x0C else if c = 0x72 then 0x0D else c)"

text \<open>A reader of quoted strings: the content up to the closing quote, and the rest.\<close>

fun unquote :: "ustring \<Rightarrow> (ustring \<times> ustring) option" where
  "unquote [] = None"
| "unquote (u # s) =
     (if u = 0x22 then Some ([], s)
      else if u = 0x5C then (case s of
          c # t \<Rightarrow>
            if c = 0x75 then (case t of
                a # b # d # e # t' \<Rightarrow> map_option (apfst ((#) (of_nat (4096 * hexVal a + 256 * hexVal b + 16 * hexVal d + hexVal e))))
                  (unquote t')
              | _ \<Rightarrow> None)
            else map_option (apfst ((#) (shortEscape c))) (unquote t)
        | [] \<Rightarrow> None)
      else map_option (apfst ((#) u)) (unquote s))"

lemma hexVal_hexDigit: "n < 16 \<Longrightarrow> hexVal (hexDigit n) = n"
proof -
  assume "n < 16"
  then have "n \<in> set [0..<16]" by simp
  then show ?thesis by (auto simp: hexVal_def hexDigit_def upt_rec)
qed

lemma unquote_escape:
  "unquote (unicodeEscape u @ r) = map_option (apfst ((#) u)) (unquote r)"
proof -
  have lt: "unat u < 65536" using unsigned_less[of u, where ?'a = nat] by simp
  define n where "n = unat u"
  have n: "n < 65536" using lt by (simp add: n_def)
  have "4096 * (n div 4096) + 256 * (n div 256 mod 16) + 16 * (n div 16 mod 16) + n mod 16 = n"
  proof -
    have "n mod 4096 = 256 * (n mod 4096 div 256) + n mod 4096 mod 256" by simp
    moreover have "n mod 4096 div 256 = n div 256 mod 16"
      using mod_mult2_eq[of n 256 16] by simp
    moreover have "n mod 4096 mod 256 = n mod 256" by (simp add: mod_mod_cancel)
    moreover have "n mod 256 = 16 * (n mod 256 div 16) + n mod 256 mod 16" by simp
    moreover have "n mod 256 div 16 = n div 16 mod 16" using mod_mult2_eq[of n 16 16] by simp
    moreover have "n mod 256 mod 16 = n mod 16" by (simp add: mod_mod_cancel)
    moreover have "n = 4096 * (n div 4096) + n mod 4096" by simp
    ultimately show ?thesis by linarith
  qed
  moreover have "n div 4096 < 16" using n by simp
  ultimately have "(of_nat (4096 * hexVal (hexDigit (n div 4096)) + 256 * hexVal (hexDigit (n div 256 mod 16))
      + 16 * hexVal (hexDigit (n div 16 mod 16)) + hexVal (hexDigit (n mod 16))) :: cunit) = u"
    by (simp add: hexVal_hexDigit n_def)
  then show ?thesis by (simp add: unicodeEscape_def n_def)
qed

lemma unquote_unit: "unquote (quoteUnit u @ r) = map_option (apfst ((#) u)) (unquote r)"
  using unquote_escape[of u r] by (simp add: quoteUnit_def shortEscape_def)

lemma surrogate_raw: "isHigh u \<or> isLow u \<Longrightarrow> u \<noteq> 0x22 \<and> u \<noteq> 0x5C"
  by (auto simp: isHigh_def isLow_def)

lemma unquote_quoteBody: "unquote (quoteBody s @ 0x22 # r) = Some (s, r)"
proof (induction s rule: quoteBody.induct)
  case (2 u)
  then show ?case by (simp add: unquote_unit del: unquote.simps(2)) simp
next
  case (3 u v s)
  then show ?case
    using surrogate_raw[of u] surrogate_raw[of v] unquote_unit[of u]
    by (cases "isHigh u \<and> isLow v") auto
qed simp

lemma quote_prefix:
  assumes "quoteString s @ r = quoteString t @ r'"
  shows "s = t \<and> r = r'"
proof -
  have "quoteBody s @ 0x22 # r = quoteBody t @ 0x22 # r'" using assms by (simp add: quoteString_def)
  then have "unquote (quoteBody s @ 0x22 # r) = unquote (quoteBody t @ 0x22 # r')" by (rule arg_cong)
  then show ?thesis unfolding unquote_quoteBody by simp
qed

section \<open>Values\<close>

text \<open>JSON values all of whose objects are plain, the range of \<open>canonicalize\<close> on JSON values.\<close>

fun normalJson :: "jsval \<Rightarrow> bool" where
  "normalJson (JArr vs) = list_all normalJson vs"
| "normalJson (JObj plain ps) = (plain \<and> list_all (\<lambda>(k, v). normalJson v) ps)"
| "normalJson (JNum x) = isFiniteNum x"
| "normalJson JUndef = False"
| "normalJson JOther = False"
| "normalJson _ = True"

text \<open>\<open>closeList f c xs\<close>: the rest of a bracketed list after its first item.\<close>

fun closeList :: "('a \<Rightarrow> ustring) \<Rightarrow> cunit \<Rightarrow> 'a list \<Rightarrow> ustring" where
  "closeList f c [] = [c]"
| "closeList f c (x # xs) = 0x2C # f x @ closeList f c xs"

lemma joinWith_closeList: "joinWith 0x2C (map f (x # xs)) @ [c] = f x @ closeList f c xs"
  by (induction xs arbitrary: x) auto

definition separates :: "('a \<Rightarrow> ustring) \<Rightarrow> 'a \<Rightarrow> ('a \<Rightarrow> bool) \<Rightarrow> bool" where
  "separates f x Q \<longleftrightarrow> (\<forall>y r r'. Q y \<longrightarrow> f x @ r = f y @ r' \<longrightarrow> delim r \<longrightarrow> delim r' \<longrightarrow> x = y \<and> r = r')"

lemma separatesD:
  "separates f x Q \<Longrightarrow> Q y \<Longrightarrow> f x @ r = f y @ r' \<Longrightarrow> delim r \<Longrightarrow> delim r' \<Longrightarrow> x = y \<and> r = r'"
  by (simp add: separates_def)

lemma delim_closeList: "\<not> numUnit c \<Longrightarrow> delim (closeList f c xs @ r)"
  by (cases xs) (simp_all add: delim_def numUnit_def isDigit_def)

lemma closeList_inj:
  assumes "\<And>x. x \<in> set xs \<Longrightarrow> separates f x Q" and "\<And>y. y \<in> set ys \<Longrightarrow> Q y" and c: "c \<noteq> 0x2C" "\<not> numUnit c"
    and "closeList f c xs @ r = closeList f c ys @ r'"
  shows "xs = ys \<and> r = r'"
  using assms(1,2,5)
proof (induction xs arbitrary: ys)
  case Nil
  then show ?case using c by (cases ys) auto
next
  case (Cons x xs)
  obtain y zs where ys: "ys = y # zs" using Cons.prems(3) c by (cases ys) auto
  have "f x @ (closeList f c xs @ r) = f y @ (closeList f c zs @ r')" using Cons.prems(3) ys by simp
  then have "x = y \<and> closeList f c xs @ r = closeList f c zs @ r'"
    by (rule separatesD[where Q = Q, rotated 2]) (use Cons.prems(1,2) ys delim_closeList[OF c(2)] in auto)
  then show ?case using Cons.IH[of zs] Cons.prems(1,2) ys by auto
qed

lemma bracketed_inj:
  assumes "\<And>x. x \<in> set xs \<Longrightarrow> separates f x Q" and "\<And>y. y \<in> set ys \<Longrightarrow> Q y" and c: "c \<noteq> 0x2C" "\<not> numUnit c"
    and ne: "\<And>x. x \<in> set xs \<union> set ys \<Longrightarrow> f x \<noteq> [] \<and> hd (f x) \<noteq> c"
    and eq: "joinWith 0x2C (map f xs) @ [c] @ r = joinWith 0x2C (map f ys) @ [c] @ r'"
  shows "xs = ys \<and> r = r'"
proof (cases xs)
  case Nil
  have "ys = []"
  proof (rule ccontr)
    assume "ys \<noteq> []"
    then obtain y zs where "ys = y # zs" by (cases ys) auto
    then have "c # r = f y @ closeList f c zs @ r'"
      using eq Nil joinWith_closeList[of f y zs c] by (metis append.assoc append_Cons append_Nil joinWith.simps(1) list.simps(8))
    then show False using ne[of y] \<open>ys = y # zs\<close> by (cases "f y") auto
  qed
  then show ?thesis using Nil eq by simp
next
  case (Cons x xs')
  have l: "joinWith 0x2C (map f xs) @ [c] @ r = f x @ closeList f c xs' @ r"
    using Cons joinWith_closeList[of f x xs' c] by (metis append.assoc)
  obtain y zs where ys: "ys = y # zs"
    using eq l Cons ne[of x] by (cases ys; cases "f x") auto
  have "f x @ (closeList f c xs' @ r) = f y @ (closeList f c zs @ r')"
    using eq joinWith_closeList[of f x xs' c] joinWith_closeList[of f y zs c]
    unfolding Cons ys by (metis append.assoc)
  then have "x = y \<and> closeList f c xs' @ r = closeList f c zs @ r'"
    by (rule separatesD[where Q = Q, rotated 2]) (use assms(1,2) Cons ys delim_closeList[OF c(2)] in auto)
  then have h: "x = y" "closeList f c xs' @ r = closeList f c zs @ r'" by simp_all
  have "xs' = zs \<and> r = r'"
    by (rule closeList_inj[where Q = Q, OF _ _ c h(2)]) (use assms(1,2) Cons ys in auto)
  then show ?thesis using h(1) Cons ys by simp
qed

definition textOf :: "(rat \<Rightarrow> ustring) \<Rightarrow> jsval \<Rightarrow> ustring" where
  "textOf nt v = the (stringify nt v)"

definition memberText :: "(rat \<Rightarrow> ustring) \<Rightarrow> ustring \<times> jsval \<Rightarrow> ustring" where
  "memberText nt = (\<lambda>(k, v). quoteString k @ [0x3A] @ textOf nt v)"

lemma normal_stringify: "normalJson v \<Longrightarrow> \<exists>t. stringify nt v = Some t"
  by (induction nt v rule: stringify.induct) auto

lemma textOf_arr:
  "normalJson (JArr vs) \<Longrightarrow> textOf nt (JArr vs) = [0x5B] @ joinWith 0x2C (map (textOf nt) vs) @ [0x5D]"
proof -
  assume "normalJson (JArr vs)"
  then have "map (\<lambda>v. case stringify nt v of None \<Rightarrow> js ''null'' | Some t \<Rightarrow> t) vs = map (textOf nt) vs"
    using normal_stringify[of _ nt] by (fastforce simp: list_all_iff textOf_def)
  then have "stringify nt (JArr vs) = Some ([0x5B] @ joinWith 0x2C (map (textOf nt) vs) @ [0x5D])"
    by (simp only: stringify.simps)
  then show ?thesis unfolding textOf_def[of nt "JArr vs"] by simp
qed

lemma textOf_obj:
  "normalJson (JObj p ps) \<Longrightarrow> textOf nt (JObj p ps) = [0x7B] @ joinWith 0x2C (map (memberText nt) ps) @ [0x7D]"
proof -
  assume n: "normalJson (JObj p ps)"
  have "concat (map (\<lambda>(k, v). case stringify nt v of None \<Rightarrow> [] | Some t \<Rightarrow> [quoteString k @ [0x3A] @ t]) ps)
    = map (memberText nt) ps"
    using n
  proof (induction ps)
    case (Cons kv ps)
    obtain t where "stringify nt (snd kv) = Some t"
      using Cons.prems normal_stringify[of "snd kv" nt] by (cases kv) auto
    then show ?case using Cons by (cases kv) (auto simp: memberText_def textOf_def)
  qed simp
  then show ?thesis by (simp add: textOf_def)
qed

lemma textOf_scalar:
  "textOf nt (JNum (Fin q)) = nt q" "textOf nt (JStr s) = quoteString s" "textOf nt JNull = js ''null''"
  "textOf nt (JBool b) = (if b then js ''true'' else js ''false'')"
  by (simp_all add: textOf_def)

text \<open>The first code unit tells the kind of value.\<close>

datatype jsonKind = K_arr | K_obj | K_str | K_null | K_true | K_false | K_num

definition kindOf :: "jsval \<Rightarrow> jsonKind" where
  "kindOf v = (case v of JArr _ \<Rightarrow> K_arr | JObj _ _ \<Rightarrow> K_obj | JStr _ \<Rightarrow> K_str | JNull \<Rightarrow> K_null
     | JBool b \<Rightarrow> (if b then K_true else K_false) | _ \<Rightarrow> K_num)"

definition unitKind :: "cunit \<Rightarrow> jsonKind" where
  "unitKind u = (if u = 0x5B then K_arr else if u = 0x7B then K_obj else if u = 0x22 then K_str
     else if u = 0x6E then K_null else if u = 0x74 then K_true else if u = 0x66 then K_false else K_num)"

lemma num_unitKind: "numUnit u \<Longrightarrow> unitKind u = K_num \<and> u \<noteq> 0x5D \<and> u \<noteq> 0x7D"
  by (auto simp: numUnit_def unitKind_def isDigit_def)

lemma textOf_hd:
  assumes "goodNumText nt" and "normalJson v"
  shows "textOf nt v \<noteq> [] \<and> unitKind (hd (textOf nt v)) = kindOf v \<and> hd (textOf nt v) \<noteq> 0x5D \<and> hd (textOf nt v) \<noteq> 0x7D"
proof (cases v)
  case (JNum x)
  then obtain q where q: "x = Fin q" using assms(2) by (cases x) auto
  have "nt q \<noteq> []" using assms(1) by (simp add: goodNumText_def)
  then have "nt q \<noteq> []" "numUnit (hd (nt q))"
    using assms(1) hd_in_set[of "nt q"] by (auto simp: goodNumText_def list_all_iff simp del: hd_in_set)
  then show ?thesis using JNum q num_unitKind[of "hd (nt q)"] by (simp add: textOf_scalar kindOf_def)
qed (use assms(2) in \<open>auto simp: textOf_arr textOf_obj textOf_scalar kindOf_def unitKind_def quoteString_def js_def simp del: normalJson.simps(1,2)\<close>)

lemma kind_eq:
  assumes "goodNumText nt" "normalJson a" "normalJson b" "textOf nt a @ r = textOf nt b @ r'"
  shows "kindOf a = kindOf b"
  using textOf_hd[OF assms(1,2)] textOf_hd[OF assms(1,3)] assms(4) by (metis hd_append2)

lemma memberText_separates:
  assumes "separates (textOf nt) v normalJson"
  shows "separates (memberText nt) (k, v) (\<lambda>(l, w). normalJson w)"
  unfolding separates_def
proof (intro allI impI)
  fix y r r'
  assume y: "(\<lambda>(l, w). normalJson w) y" and eq: "memberText nt (k, v) @ r = memberText nt y @ r'" and d: "delim r" "delim r'"
  obtain l w where lw: "y = (l, w)" by (cases y)
  have "quoteString k @ (0x3A # textOf nt v @ r) = quoteString l @ (0x3A # textOf nt w @ r')"
    using eq lw by (simp add: memberText_def)
  then have "k = l \<and> 0x3A # textOf nt v @ r = 0x3A # textOf nt w @ r'" by (rule quote_prefix)
  then have "k = l" "textOf nt v @ r = textOf nt w @ r'" by simp_all
  then show "(k, v) = y \<and> r = r'" using separatesD[OF assms _ _ d, of w] y lw by simp
qed

lemma textOf_separates:
  assumes good: "goodNumText nt" and "normalJson a"
  shows "separates (textOf nt) a normalJson"
  using assms(2)
proof (induction a)
  case (JArr vs)
  show ?case unfolding separates_def
  proof (intro allI impI)
    fix y r r'
    assume y: "normalJson y" and eq: "textOf nt (JArr vs) @ r = textOf nt y @ r'" and d: "delim r" "delim r'"
    have "kindOf y = K_arr" using kind_eq[OF good JArr.prems y eq] by (simp add: kindOf_def)
    then obtain ws where ws: "y = JArr ws" by (cases y) (auto simp: kindOf_def split: if_splits)
    have "vs = ws \<and> r = r'"
    proof (rule bracketed_inj[where f = "textOf nt" and Q = normalJson and c = "0x5D"])
      show "joinWith 0x2C (map (textOf nt) vs) @ [0x5D] @ r = joinWith 0x2C (map (textOf nt) ws) @ [0x5D] @ r'"
        using eq JArr.prems y ws by (simp add: textOf_arr)
    qed (use JArr y ws textOf_hd[OF good] in \<open>auto simp: list_all_iff numUnit_def isDigit_def\<close>)
    then show "JArr vs = y \<and> r = r'" using ws by simp
  qed
next
  case (JObj p ps)
  show ?case unfolding separates_def
  proof (intro allI impI)
    fix y r r'
    assume y: "normalJson y" and eq: "textOf nt (JObj p ps) @ r = textOf nt y @ r'" and d: "delim r" "delim r'"
    have "kindOf y = K_obj" using kind_eq[OF good JObj.prems y eq] by (simp add: kindOf_def)
    then obtain p' qs where qs: "y = JObj p' qs" by (cases y) (auto simp: kindOf_def split: if_splits)
    have "ps = qs \<and> r = r'"
    proof (rule bracketed_inj[where f = "memberText nt" and Q = "\<lambda>(l, w). normalJson w" and c = "0x7D"])
      show "joinWith 0x2C (map (memberText nt) ps) @ [0x7D] @ r = joinWith 0x2C (map (memberText nt) qs) @ [0x7D] @ r'"
        using eq JObj.prems y qs by (simp add: textOf_obj)
      show "separates (memberText nt) x (\<lambda>(l, w). normalJson w)" if "x \<in> set ps" for x
        using memberText_separates[of nt "snd x" "fst x"] JObj that by (cases x) (fastforce simp: list_all_iff)
    qed (use y qs in \<open>auto simp: list_all_iff memberText_def quoteString_def numUnit_def isDigit_def\<close>)
    then show "JObj p ps = y \<and> r = r'" using qs JObj.prems y by simp
  qed
next
  case (JNum x)
  then obtain q where q: "x = Fin q" by (cases x) auto
  show ?case unfolding separates_def
  proof (intro allI impI)
    fix y r r'
    assume y: "normalJson y" and eq: "textOf nt (JNum x) @ r = textOf nt y @ r'" and d: "delim r" "delim r'"
    have "kindOf y = K_num" using kind_eq[OF good JNum.prems y eq] by (simp add: kindOf_def)
    then obtain q' where "y = JNum (Fin q')" using y by (cases y rule: normalJson.cases; case_tac x) (auto simp: kindOf_def split: if_splits)
    then show "JNum x = y \<and> r = r'" using number_prefix[OF good _ d, of q q'] eq q by (simp add: textOf_scalar)
  qed
next
  case (JStr s)
  show ?case unfolding separates_def
  proof (intro allI impI)
    fix y r r'
    assume y: "normalJson y" and eq: "textOf nt (JStr s) @ r = textOf nt y @ r'"
    have "kindOf y = K_str" using kind_eq[OF good JStr.prems y eq] by (simp add: kindOf_def)
    then obtain t where "y = JStr t" by (cases y) (auto simp: kindOf_def split: if_splits)
    then show "JStr s = y \<and> r = r'" using quote_prefix[of s r t r'] eq by (simp add: textOf_scalar)
  qed
next
  case JNull
  have "y = JNull \<and> r = r'" if "normalJson y" "textOf nt JNull @ r = textOf nt y @ r'" for y r r'
    using kind_eq[OF good JNull.prems that] that(2) by (cases y) (auto simp: kindOf_def split: if_splits)
  then show ?case by (auto simp: separates_def)
next
  case (JBool b)
  have "y = JBool b \<and> r = r'" if "normalJson y" "textOf nt (JBool b) @ r = textOf nt y @ r'" for y r r'
    using kind_eq[OF good JBool.prems that] that(2) by (cases y) (auto simp: kindOf_def split: if_splits)
  then show ?case by (auto simp: separates_def)
qed auto

lemma jsonText_inj:
  assumes "goodNumText nt" "normalJson a" "normalJson b" "jsonText nt a = jsonText nt b"
  shows "a = b"
proof -
  have "textOf nt a @ [] = textOf nt b @ []"
    using assms(4) normal_stringify[OF assms(2), of nt] normal_stringify[OF assms(3), of nt]
    by (auto simp: jsonText_def textOf_def)
  then show ?thesis using separatesD[OF textOf_separates[OF assms(1,2)] assms(3), of "[]" "[]"] by (simp add: delim_def)
qed

section \<open>Canonical form\<close>

text \<open>No object of the value has a \<open>__proto__\<close> key.\<close>

fun noProto :: "jsval \<Rightarrow> bool" where
  "noProto (JArr vs) = list_all noProto vs"
| "noProto (JObj p ps) = (js ''__proto__'' \<notin> fst ` set ps \<and> list_all (\<lambda>(k, v). noProto v) ps)"
| "noProto _ = True"

lemma map_of_insertProp: "map_of (insertProp k v ps) = (map_of ps)(k \<mapsto> v)"
  by (induction k v ps rule: insertProp.induct) (auto split: option.splits)

lemma set_insertProp: "fst ` set (insertProp k v ps) = insert k (fst ` set ps)"
  by (induction k v ps rule: insertProp.induct) (auto split: option.splits)

lemma distinct_insertProp:
  "k \<notin> fst ` set ps \<Longrightarrow> distinct (map fst ps) \<Longrightarrow> distinct (map fst (insertProp k v ps))"
  by (induction k v ps rule: insertProp.induct)
    (auto split: option.splits simp: set_insertProp[unfolded image_def] image_def)

text \<open>The properties assigned one after the other, for keys in any order.\<close>

definition assignAll :: "(ustring \<rightharpoonup> 'a) \<Rightarrow> (ustring \<times> 'a) list \<Rightarrow> ustring list \<Rightarrow> (ustring \<times> 'a) list" where
  "assignAll m = foldl (\<lambda>acc k. case m k of None \<Rightarrow> acc | Some v \<Rightarrow> assignProp k v acc)"

lemma canonicalize_obj:
  "canonicalize (JObj p ps) = JObj True (assignAll (map_of (map (\<lambda>(k, v). (k, canonicalize v)) ps)) [] (sort (map fst ps)))"
  by (simp add: assignAll_def Let_def)

lemma assignAll_props:
  assumes "js ''__proto__'' \<notin> set ks" and "\<forall>k \<in> set ks. m k \<noteq> None" and "distinct ks" and "set ks \<inter> fst ` set acc = {}"
    and "distinct (map fst acc)"
  shows "map_of (assignAll m acc ks) = (\<lambda>k. if k \<in> set ks then m k else map_of acc k)
    \<and> fst ` set (assignAll m acc ks) = fst ` set acc \<union> set ks \<and> distinct (map fst (assignAll m acc ks))"
  using assms
proof (induction ks arbitrary: acc)
  case (Cons k ks)
  obtain v where v: "m k = Some v" using Cons.prems by auto
  let ?acc = "insertProp k v acc"
  have step: "assignAll m acc (k # ks) = assignAll m ?acc ks"
    using v Cons.prems(1) by (auto simp: assignAll_def assignProp_def)
  have "map_of (assignAll m ?acc ks) = (\<lambda>k. if k \<in> set ks then m k else map_of ?acc k)
    \<and> fst ` set (assignAll m ?acc ks) = fst ` set ?acc \<union> set ks \<and> distinct (map fst (assignAll m ?acc ks))"
    by (rule Cons.IH) (use Cons.prems in \<open>auto simp: set_insertProp intro!: distinct_insertProp\<close>)
  then show ?case unfolding step using v Cons.prems(3) by (auto simp: set_insertProp map_of_insertProp fun_eq_iff)
qed (simp add: assignAll_def)

lemma map_of_canonical: "map_of (map (\<lambda>(k, v). (k, canonicalize v)) ps) k = map_option canonicalize (map_of ps k)"
  by (induction ps) auto

lemma canonical_props:
  assumes "wf_js (JObj p ps)" and "noProto (JObj p ps)"
  obtains qs where "canonicalize (JObj p ps) = JObj True qs" and "fst ` set qs = fst ` set ps"
    and "\<And>k. map_of qs k = map_option canonicalize (map_of ps k)"
proof -
  let ?m = "map_of (map (\<lambda>(k, v). (k, canonicalize v)) ps)"
  let ?ks = "sort (map fst ps)"
  have "map_of (assignAll ?m [] ?ks) = (\<lambda>k. if k \<in> set ?ks then ?m k else map_of [] k)
    \<and> fst ` set (assignAll ?m [] ?ks) = fst ` set ([] :: (ustring \<times> jsval) list) \<union> set ?ks
    \<and> distinct (map fst (assignAll ?m [] ?ks))"
    by (rule assignAll_props) (use assms in \<open>auto simp: map_of_canonical map_of_eq_None_iff\<close>)
  moreover have "?m k = None" if "k \<notin> set ?ks" for k
    using that by (auto simp: map_of_canonical map_of_eq_None_iff)
  ultimately show ?thesis
    using that[of "assignAll ?m [] ?ks"] by (auto simp: canonicalize_obj map_of_canonical simp del: canonicalize.simps)
qed

text \<open>Structural equality is equality of canonical forms.\<close>

lemma canonicalize_scalar:
  "canonicalize a = canonicalize b \<Longrightarrow> a = b \<or> (\<exists>vs ws. a = JArr vs \<and> b = JArr ws) \<or> (\<exists>p ps q qs. a = JObj p ps \<and> b = JObj q qs)"
  by (cases a; cases b) (auto simp: Let_def)

lemma obj_lengths:
  assumes "distinct (map fst ps)" "distinct (map fst qs)" "fst ` set ps = fst ` set qs"
  shows "length ps = length qs"
  using assms distinct_card[of "map fst ps"] distinct_card[of "map fst qs"] by simp

text \<open>JSON values without repeated or \<open>__proto__\<close> keys.\<close>

definition plainJson :: "jsval \<Rightarrow> bool" where
  "plainJson v \<longleftrightarrow> normalJson v \<and> wf_js v \<and> noProto v"

lemma plainJson_arr: "plainJson (JArr vs) \<longleftrightarrow> (\<forall>v \<in> set vs. plainJson v)"
  by (auto simp: plainJson_def list_all_iff)

lemma plainJson_obj:
  "plainJson (JObj p ps) \<longleftrightarrow> p \<and> distinct (map fst ps) \<and> js ''__proto__'' \<notin> fst ` set ps \<and> (\<forall>(k, v) \<in> set ps. plainJson v)"
  by (auto simp: plainJson_def list_all_iff)

lemma same_imp_canonical:
  "sameJsonValue a b \<Longrightarrow> plainJson a \<Longrightarrow> plainJson b \<Longrightarrow> canonicalize a = canonicalize b"
proof (induction a b rule: sameJsonValue.induct)
  case (1 xs ys)
  then have len: "length xs = length ys" by simp
  have "canonicalize (xs ! i) = canonicalize (ys ! i)" if i: "i < length xs" for i
  proof (rule "1.IH"[OF _ refl])
    show "(xs ! i, ys ! i) \<in> set (zip xs ys)" using i len by (auto simp: set_zip)
    then show "sameJsonValue (xs ! i) (ys ! i)" using "1.prems"(1) by (auto simp: list_all_iff)
  qed (use "1.prems" i len in \<open>auto simp: plainJson_arr\<close>)
  then show ?case using len by (auto intro: nth_equalityI)
next
  case (2 p ps q qs)
  note w = "2.prems"(2,3)[unfolded plainJson_obj]
  have "length ps = length qs" and sub: "\<And>k v. (k, v) \<in> set ps \<Longrightarrow> \<exists>w. map_of qs k = Some w \<and> sameJsonValue v w"
    using "2.prems"(1) by (auto simp: list_all_iff split: option.splits)
  then have keys: "fst ` set ps = fst ` set qs"
  proof -
    have "fst ` set ps \<subseteq> fst ` set qs" using sub by (force simp: map_of_eq_Some_iff w dest!: map_of_SomeD)
    moreover have "card (fst ` set ps) = card (fst ` set qs)"
      using w distinct_card[of "map fst ps"] distinct_card[of "map fst qs"] \<open>length ps = length qs\<close> by simp
    ultimately show ?thesis by (simp add: card_subset_eq)
  qed
  have lookup: "map_option canonicalize (map_of ps k) = map_option canonicalize (map_of qs k)" for k
  proof (cases "map_of ps k")
    case None
    then show ?thesis using keys by (metis map_of_eq_None_iff)
  next
    case (Some v)
    then have kv: "(k, v) \<in> set ps" by (rule map_of_SomeD)
    then obtain u where u: "map_of qs k = Some u" "sameJsonValue v u" using sub by blast
    have "canonicalize v = canonicalize u"
      by (rule "2.IH"[OF kv refl u(1) u(2)]) (use w kv u(1) in \<open>auto dest!: map_of_SomeD\<close>)
    then show ?thesis using Some u by simp
  qed
  have "map_of (map (\<lambda>(k, v). (k, canonicalize v)) ps) = map_of (map (\<lambda>(k, v). (k, canonicalize v)) qs)"
    using lookup by (auto simp: map_of_canonical fun_eq_iff)
  moreover have "sort (map fst ps) = sort (map fst qs)"
    using w keys by (intro sorted_distinct_set_unique) simp_all
  ultimately show ?case by (simp only: canonicalize_obj)
qed auto

lemma canonical_imp_same:
  "plainJson a \<Longrightarrow> plainJson b \<Longrightarrow> canonicalize a = canonicalize b \<Longrightarrow> sameJsonValue a b"
proof (induction a b rule: sameJsonValue.induct)
  case (1 xs ys)
  then have len: "length xs = length ys" by (simp, metis length_map)
  have "sameJsonValue (xs ! i) (ys ! i)" if i: "i < length xs" for i
  proof (rule "1.IH"[OF _ refl])
    show "(xs ! i, ys ! i) \<in> set (zip xs ys)" using i len by (auto simp: set_zip)
    show "canonicalize (xs ! i) = canonicalize (ys ! i)"
      using "1.prems"(3) i len by (auto dest: arg_cong[where f = "\<lambda>l. l ! i"])
  qed (use "1.prems" i len in \<open>auto simp: plainJson_arr\<close>)
  then show ?case using len by (auto simp: list_all_iff set_zip)
next
  case (2 p ps q qs)
  note w = "2.prems"(1,2)[unfolded plainJson_obj]
  obtain us where us: "canonicalize (JObj p ps) = JObj True us" "fst ` set us = fst ` set ps"
    "\<And>k. map_of us k = map_option canonicalize (map_of ps k)"
    by (rule canonical_props[of p ps]) (use "2.prems"(1) in \<open>auto simp: plainJson_def\<close>)
  obtain vs where vs: "canonicalize (JObj q qs) = JObj True vs" "fst ` set vs = fst ` set qs"
    "\<And>k. map_of vs k = map_option canonicalize (map_of qs k)"
    by (rule canonical_props[of q qs]) (use "2.prems"(2) in \<open>auto simp: plainJson_def\<close>)
  have eq: "us = vs" using us(1) vs(1) "2.prems"(3) by simp
  have len: "length ps = length qs" using obj_lengths[of ps qs] w us(2) vs(2) eq by simp
  have "\<exists>u. map_of qs k = Some u \<and> sameJsonValue v u" if kv: "(k, v) \<in> set ps" for k v
  proof -
    have "map_of ps k = Some v" using kv w by simp
    then have "map_option canonicalize (map_of qs k) = Some (canonicalize v)" using us(3)[of k] vs(3)[of k] eq by simp
    then obtain u where u: "map_of qs k = Some u" "canonicalize u = canonicalize v" by auto
    have "sameJsonValue v u"
      by (rule "2.IH"[OF kv refl u(1)]) (use w kv u in \<open>auto dest!: map_of_SomeD\<close>)
    then show ?thesis using u by blast
  qed
  then show ?case using len by (fastforce simp: list_all_iff)
next
  case (3 x y)
  then show ?case by (auto simp: plainJson_def)
qed (auto simp: Let_def plainJson_def)


lemma normal_insertProp:
  "list_all (\<lambda>(k, v). normalJson v) ps \<Longrightarrow> normalJson v \<Longrightarrow> list_all (\<lambda>(k, v). normalJson v) (insertProp k v ps)"
  by (induction k v ps rule: insertProp.induct) (auto split: option.splits)

lemma normal_canonicalize: "normalJson v \<Longrightarrow> normalJson (canonicalize v)"
proof (induction v rule: canonicalize.induct)
  case (2 plain ps)
  let ?m = "map_of (map (\<lambda>(k, v). (k, canonicalize v)) ps)"
  have vals: "?m k = Some v \<Longrightarrow> normalJson v" for k v
    using 2 by (fastforce simp: map_of_canonical list_all_iff dest: map_of_SomeD)
  have "list_all (\<lambda>(k, v). normalJson v) acc \<Longrightarrow> list_all (\<lambda>(k, v). normalJson v) (assignAll ?m acc ks)" for acc ks
  proof (induction ks arbitrary: acc)
    case (Cons k ks)
    show ?case
    proof (cases "?m k")
      case None
      then show ?thesis using Cons by (simp add: assignAll_def)
    next
      case (Some v)
      have "list_all (\<lambda>(k, v). normalJson v) (assignProp k v acc)"
        using Cons.prems vals[OF Some] by (simp add: assignProp_def normal_insertProp)
      then show ?thesis using Cons.IH Some by (simp add: assignAll_def)
    qed
  qed (simp add: assignAll_def)
  then show ?case unfolding canonicalize_obj by simp
qed (auto simp: list_all_iff)

lemma normal_jnullable: "normalJson (jnullable JStr x)"
  by (cases x) simp_all

lemma digest_eq:
  assumes "goodNumText nt" and "plainJson a" and "plainJson b"
  shows "digestOf nt a x = digestOf nt b y \<longleftrightarrow> sameJsonValue a b \<and> x = y"
proof -
  have n: "normalJson (JArr [canonicalize v, jnullable JStr z])" if "plainJson v" for v z
    using that by (simp add: normal_canonicalize normal_jnullable plainJson_def)
  have "digestOf nt a x = digestOf nt b y \<longleftrightarrow> JArr [canonicalize a, jnullable JStr x] = JArr [canonicalize b, jnullable JStr y]"
    unfolding digestOf_def using jsonText_inj[OF assms(1) n[OF assms(2)] n[OF assms(3)]] by metis
  also have "\<dots> \<longleftrightarrow> canonicalize a = canonicalize b \<and> x = y"
    by (cases x; cases y) auto
  finally show ?thesis using same_imp_canonical canonical_imp_same assms(2,3) by blast
qed

section \<open>A number printer\<close>

text \<open>Numerator and denominator in decimal: the assumption on the runtime's printer can be met.\<close>

definition sampleNumText :: "rat \<Rightarrow> ustring" where
  "sampleNumText q = (case quotient_of q of (n, d) \<Rightarrow>
     (if n < 0 then [0x2D] else []) @ dec_digits (nat \<bar>n\<bar>) @ [0x65] @ dec_digits (nat d))"

lemma isDigit_of_nat: "n < 10 \<Longrightarrow> isDigit (of_nat (0x30 + n)) \<and> digitVal (of_nat (0x30 + n)) = n"
proof -
  assume "n < 10"
  then have "n \<in> set [0..<10]" by simp
  then show ?thesis by (auto simp: isDigit_def digitVal_def upt_rec)
qed

lemma dec_digits_props: "list_all isDigit (dec_digits n) \<and> dec_digits n \<noteq> [] \<and> digitsVal (dec_digits n) = n"
proof (induction n rule: dec_digits.induct)
  case (1 n)
  show ?case
  proof (cases "n < 10")
    case True
    then show ?thesis using isDigit_of_nat[of n] by (simp add: dec_digits.simps[of n] digitsVal_def)
  next
    case False
    then show ?thesis
      using 1 isDigit_of_nat[of "n mod 10"] by (simp add: dec_digits.simps[of n] digitsVal_def)
  qed
qed

lemma digits_split:
  assumes "dec_digits a @ [0x65] @ dec_digits b = dec_digits c @ [0x65] @ dec_digits d"
  shows "a = c \<and> b = d"
proof -
  have e: "\<not> isDigit 0x65" by (simp add: isDigit_def)
  have "takeWhile isDigit (dec_digits x @ [0x65] @ r) = dec_digits x" for x r
    using takeWhile_delim[of isDigit "dec_digits x" "[0x65] @ r"] dec_digits_props[of x] e by simp
  then have "dec_digits a = dec_digits c" using assms by metis
  then show ?thesis using assms dec_digits_props by (metis append_same_eq same_append_eq)
qed

lemma sampleNumText_good: "goodNumText sampleNumText"
  unfolding goodNumText_def
proof (intro conjI allI)
  show "inj sampleNumText"
  proof (rule injI)
    fix p q
    assume eq: "sampleNumText p = sampleNumText q"
    obtain n d where p: "quotient_of p = (n, d)" by (cases "quotient_of p")
    obtain m e where q: "quotient_of q = (m, e)" by (cases "quotient_of q")
    have pos: "d > 0" "e > 0" using quotient_of_denom_pos[OF p] quotient_of_denom_pos[OF q] .
    have hd: "dec_digits x \<noteq> [] \<and> hd (dec_digits x) \<noteq> 0x2D" for x
    proof -
      have "hd (dec_digits x) \<in> set (dec_digits x)" using dec_digits_props[of x] by simp
      then have "isDigit (hd (dec_digits x))" using dec_digits_props[of x] by (simp add: list_all_iff)
      then show ?thesis using dec_digits_props[of x] by (auto simp: isDigit_def)
    qed
    have sign: "n < 0 \<longleftrightarrow> m < 0"
      using eq p q hd[of "nat \<bar>n\<bar>"] hd[of "nat \<bar>m\<bar>"]
      by (cases "dec_digits (nat \<bar>n\<bar>)"; cases "dec_digits (nat \<bar>m\<bar>)") (auto simp: sampleNumText_def split: if_splits)
    then have "nat \<bar>n\<bar> = nat \<bar>m\<bar> \<and> nat d = nat e"
      using eq p q by (intro digits_split) (auto simp: sampleNumText_def split: if_splits)
    then have "n = m" "d = e" using sign pos by linarith+
    then show "p = q" using p q by (metis quotient_of_inject)
  qed
  fix q
  show "sampleNumText q \<noteq> []" by (simp add: sampleNumText_def split: prod.split)
  show "list_all numUnit (sampleNumText q)"
    using dec_digits_props by (auto simp: sampleNumText_def list_all_iff numUnit_def split: prod.split)
qed

section \<open>Properties\<close>



text \<open>The restriction is needed: a \<open>__proto__\<close> property does not reach the digest, so two values that differ
  only there collide.\<close>

lemma digestOf_proto_collision:
  "digestOf nt (JObj True [(js ''__proto__'', v)]) x = digestOf nt (JObj True []) x
   \<and> \<not> sameJsonValue (JObj True [(js ''__proto__'', v)]) (JObj True [])"
  by (simp add: digestOf_def assignProp_def)

end
