(* ===== verification/LocalBlobs.thy ===== *)
theory LocalBlobs
  imports ControlStore JsonText
begin

text \<open>
  The disposable local blob store (\<^verbatim>\<open>apps/control/src/runtime/local-blob-store.ts\<close>) on a small
  model of the file system it uses. Every system call first lets other processes act and may then
  fail: \<open>fs_script\<close> holds, call by call, the foreign actions and an optional thrown error, and an
  empty script is a quiet machine. Other processes run the same code, so they replace a file only
  while nobody else holds its lock, and they only create ledger entries. A path is a folder and a
  file name; a file holds the parsed \<open>{ data, etag }\<close>. SHA-256 and \<open>randomUUID\<close> are parameters.
\<close>

type_synonym fpath = "ustring \<times> ustring"

record stored =
  st_data :: jsval
  st_etag :: ustring

datatype foreign =
    F_create fpath jsval ustring
  | F_replace fpath writeCondition jsval ustring
  | F_lock fpath
  | F_unlock fpath

record fsWorld =
  fs_files :: "fpath \<Rightarrow> stored option"
  fs_temps :: "ustring \<Rightarrow> stored option"
  fs_locks :: "fpath \<Rightarrow> bool option"
  fs_uuids :: nat
  fs_now :: int
  fs_script :: "(foreign list \<times> jsval option) list"

text \<open>\<open>fs_locks p = Some True\<close>: this process holds the lock directory of \<open>p\<close>; \<open>Some False\<close>: another one.\<close>

record localEnv =
  le_directory :: ustring
  le_namespace :: ustring
  le_sha256 :: "ustring \<Rightarrow> ustring"
  le_uuid :: "nat \<Rightarrow> ustring"

definition recordsStore :: "localEnv \<Rightarrow> ustring" where
  "recordsStore env = le_namespace env @ js ''-records''"

definition operationsStore :: "localEnv \<Rightarrow> ustring" where
  "operationsStore env = le_namespace env @ js ''-operations''"

definition folderFor :: "localEnv \<Rightarrow> ustring \<Rightarrow> ustring" where
  "folderFor env name = le_directory env @ js ''/'' @ le_sha256 env name"

definition pathFor :: "localEnv \<Rightarrow> ustring \<Rightarrow> ustring \<Rightarrow> fpath" where
  "pathFor env name key = (folderFor env name, le_sha256 env key @ js ''.json'')"

section \<open>System calls\<close>

definition condFails :: "writeCondition \<Rightarrow> stored option \<Rightarrow> bool" where
  "condFails c current = (case c of
     OnlyIfNew \<Rightarrow> current \<noteq> None
   | OnlyIfMatch m \<Rightarrow> m \<noteq> [] \<and> map_option st_etag current \<noteq> Some m)"

fun foreignStep :: "localEnv \<Rightarrow> fsWorld \<Rightarrow> foreign \<Rightarrow> fsWorld" where
  "foreignStep env w (F_create p d e) =
     (if fs_locks w p \<noteq> None \<or> condFails OnlyIfNew (fs_files w p) then w
      else w\<lparr>fs_files := (fs_files w)(p \<mapsto> \<lparr>st_data = d, st_etag = e\<rparr>)\<rparr>)"
| "foreignStep env w (F_replace p c d e) =
     (if fst p = folderFor env (operationsStore env) \<or> fs_locks w p \<noteq> None \<or> condFails c (fs_files w p) then w
      else w\<lparr>fs_files := (fs_files w)(p \<mapsto> \<lparr>st_data = d, st_etag = e\<rparr>)\<rparr>)"
| "foreignStep env w (F_lock p) =
     (if fs_locks w p = None then w\<lparr>fs_locks := (fs_locks w)(p \<mapsto> False)\<rparr> else w)"
| "foreignStep env w (F_unlock p) =
     (if fs_locks w p = Some False then w\<lparr>fs_locks := (fs_locks w)(p := None)\<rparr> else w)"

definition sys :: "localEnv \<Rightarrow> (fsWorld, 'a) act \<Rightarrow> (fsWorld, 'a) act" where
  "sys env call w = (case fs_script w of
     [] \<Rightarrow> call w
   | (foreigns, fault) # rest \<Rightarrow>
       let w' = foldl (foreignStep env) (w\<lparr>fs_script := rest\<rparr>) foreigns in
       (case fault of Some e \<Rightarrow> (Inl e, w') | None \<Rightarrow> call w'))"

text \<open>\<open>finally\<close>: the cleanup always runs, and its own failure replaces the outcome.\<close>

definition finallyS :: "('s, 'e, 'a) eff \<Rightarrow> ('s, 'e, 'b) eff \<Rightarrow> ('s, 'e, 'a) eff" where
  "finallyS m cleanup s = (case m s of (r, s') \<Rightarrow>
     (case cleanup s' of (Inl e, s'') \<Rightarrow> (Inl e, s'') | (Inr _, s'') \<Rightarrow> (r, s'')))"

section \<open>The store\<close>

definition readFile :: "localEnv \<Rightarrow> fpath \<Rightarrow> (fsWorld, stored option) act" where
  "readFile env fp = sys env (readS (\<lambda>w. fs_files w fp))"

definition lockUnavailable :: jsval where
  "lockUnavailable = JObj False [(js ''message'', JStr (js ''local control store lock unavailable''))]"

text \<open>One attempt to create the lock directory: \<open>Inr False\<close> is \<open>EEXIST\<close>.\<close>

definition mkdirLock :: "localEnv \<Rightarrow> fpath \<Rightarrow> (fsWorld, bool) act" where
  "mkdirLock env fp = sys env (\<lambda>w. if fs_locks w fp = None
     then (Inr True, w\<lparr>fs_locks := (fs_locks w)(fp \<mapsto> True)\<rparr>) else (Inr False, w))"

fun acquireLock :: "localEnv \<Rightarrow> fpath \<Rightarrow> nat \<Rightarrow> (fsWorld, bool) act" where
  "acquireLock env fp 0 = retS False"
| "acquireLock env fp (Suc attempts) = bindS (mkdirLock env fp) (\<lambda>acquired.
     if acquired then retS True else acquireLock env fp attempts)"

definition releaseLock :: "localEnv \<Rightarrow> fpath \<Rightarrow> (fsWorld, unit) act" where
  "releaseLock env fp = sys env (updateS (\<lambda>w. w\<lparr>fs_locks := (fs_locks w)(fp := None)\<rparr>))"

definition writeAndRename :: "localEnv \<Rightarrow> fpath \<Rightarrow> jsval \<Rightarrow> (fsWorld, ustring) act" where
  "writeAndRename env fp data =
     bindS (\<lambda>w. (Inr (le_uuid env (fs_uuids w)), w\<lparr>fs_uuids := Suc (fs_uuids w)\<rparr>)) (\<lambda>etag.
     finallyS
       (bindS (sys env (updateS (\<lambda>w. w\<lparr>fs_temps := (fs_temps w)(etag := None)\<rparr>))) (\<lambda>_.
        bindS (finallyS
                 (sys env (updateS (\<lambda>w. w\<lparr>fs_temps := (fs_temps w)(etag \<mapsto> \<lparr>st_data = data, st_etag = etag\<rparr>)\<rparr>)))
                 (sys env (retS ()))) (\<lambda>_.
        bindS (sys env (updateS (\<lambda>w. w\<lparr>fs_files := (fs_files w)(fp := fs_temps w etag)\<rparr>))) (\<lambda>_.
        retS etag))))
       (sys env (updateS (\<lambda>w. w\<lparr>fs_temps := (fs_temps w)(etag := None)\<rparr>))))"

definition lockedWrite :: "localEnv \<Rightarrow> fpath \<Rightarrow> jsval \<Rightarrow> writeCondition \<Rightarrow> (fsWorld, setResult) act" where
  "lockedWrite env fp data options =
     bindS (readFile env fp) (\<lambda>current.
     if condFails options current then retS \<lparr>sr_modified = False, sr_etag = map_option st_etag current\<rparr>
     else bindS (writeAndRename env fp data) (\<lambda>etag. retS \<lparr>sr_modified = True, sr_etag = Some etag\<rparr>))"

definition localSetJSON :: "localEnv \<Rightarrow> ustring \<Rightarrow> ustring \<Rightarrow> jsval \<Rightarrow> writeCondition \<Rightarrow> (fsWorld, setResult) act" where
  "localSetJSON env name key data options =
     bindS (sys env (retS ())) (\<lambda>_.
     let fp = pathFor env name key in
     bindS (acquireLock env fp 100) (\<lambda>acquired.
     if \<not> acquired then throwS lockUnavailable
     else finallyS (lockedWrite env fp data options) (releaseLock env fp)))"

definition localGet :: "localEnv \<Rightarrow> ustring \<Rightarrow> ustring \<Rightarrow> (fsWorld, blob option) act" where
  "localGet env name key = bindS (readFile env (pathFor env name key)) (\<lambda>r.
     retS (map_option (\<lambda>f. \<lparr>bl_data = st_data f, bl_etag = Some (st_etag f)\<rparr>) r))"

definition createLocalBlobStores :: "localEnv \<Rightarrow> ustring \<Rightarrow> fsWorld blobsStoreLike" where
  "createLocalBlobStores env name =
     \<lparr>getWithMetadata = localGet env name, setJSON = localSetJSON env name\<rparr>"

definition localDeps :: "localEnv \<Rightarrow> (ustring \<Rightarrow> int option) \<Rightarrow> (rat \<Rightarrow> ustring) \<Rightarrow> fsWorld controlDeps" where
  "localDeps env parseDate numberText =
     \<lparr>records = createLocalBlobStores env (recordsStore env), operations = createLocalBlobStores env (operationsStore env),
      clock = fs_now, diagnostic = (\<lambda>_ w. w), writeDiagnostic = (\<lambda>_ w. w), dateParse = parseDate,
      sha256 = le_sha256 env, numText = numberText\<rparr>"

definition localLedger :: "localEnv \<Rightarrow> fsWorld \<Rightarrow> ustring \<Rightarrow> blob option" where
  "localLedger env w key = map_option (\<lambda>f. \<lparr>bl_data = st_data f, bl_etag = Some (st_etag f)\<rparr>)
     (fs_files w (pathFor env (operationsStore env) key))"

section \<open>What other processes cannot change\<close>

definition ledgerLe :: "localEnv \<Rightarrow> fsWorld \<Rightarrow> fsWorld \<Rightarrow> bool" where
  "ledgerLe env w w' \<longleftrightarrow> (\<forall>p f. fst p = folderFor env (operationsStore env) \<longrightarrow> fs_files w p = Some f
     \<longrightarrow> fs_files w' p = Some f)"

definition calm :: "localEnv \<Rightarrow> fsWorld \<Rightarrow> fsWorld \<Rightarrow> bool" where
  "calm env w w' \<longleftrightarrow> ledgerLe env w w' \<and> (\<forall>p. fs_locks w p = Some True \<longrightarrow>
     fs_locks w' p = Some True \<and> fs_files w' p = fs_files w p)"

lemma ledgerLe_refl [simp]: "ledgerLe env w w"
  by (simp add: ledgerLe_def)

lemma ledgerLe_trans: "ledgerLe env u v \<Longrightarrow> ledgerLe env v w \<Longrightarrow> ledgerLe env u w"
  by (simp add: ledgerLe_def)

lemma calm_refl [simp]: "calm env w w"
  by (simp add: calm_def)

lemma calm_trans: "calm env u v \<Longrightarrow> calm env v w \<Longrightarrow> calm env u w"
  by (auto simp: calm_def intro: ledgerLe_trans)

lemma foreignStep_calm: "calm env w (foreignStep env w a)"
  by (cases a) (auto simp: calm_def ledgerLe_def condFails_def)

lemma foreigns_calm: "calm env w (foldl (foreignStep env) w as)"
  by (induction as arbitrary: w) (auto intro: calm_trans[OF foreignStep_calm])

definition stable :: "localEnv \<Rightarrow> (fsWorld \<Rightarrow> bool) \<Rightarrow> bool" where
  "stable env I \<longleftrightarrow> (\<forall>w w'. I w \<longrightarrow> calm env w w' \<longrightarrow> I w')"

lemma sys_cases:
  obtains w1 where "calm env w w1" and "sys env call w = call w1 \<or> (\<exists>e. sys env call w = (Inl e, w1))"
proof (cases "fs_script w")
  case Nil
  then show ?thesis using that[of w] by (simp add: sys_def)
next
  case (Cons x rest)
  obtain fs fault where x: "x = (fs, fault)" by (cases x)
  let ?w = "foldl (foreignStep env) (w\<lparr>fs_script := rest\<rparr>) fs"
  have "calm env w (w\<lparr>fs_script := rest\<rparr>)" by (simp add: calm_def ledgerLe_def)
  then have "calm env w ?w" by (rule calm_trans[OF _ foreigns_calm])
  then show ?thesis
    using that[of ?w] Cons x by (cases fault) (simp_all add: sys_def Let_def)
qed

lemma triple_sys:
  assumes "stable env I" and "triple I call Q E" and "\<And>e w. I w \<Longrightarrow> E e w"
  shows "triple I (sys env call) Q E"
  unfolding triple_def
proof (intro allI impI)
  fix w
  assume "I w"
  obtain w1 where w1: "calm env w w1" "sys env call w = call w1 \<or> (\<exists>e. sys env call w = (Inl e, w1))"
    by (rule sys_cases)
  then have "I w1" using assms(1) \<open>I w\<close> by (auto simp: stable_def)
  then show "case sys env call w of (Inr x, s') \<Rightarrow> Q x s' | (Inl e, s') \<Rightarrow> E e s'"
    using w1(2) assms(2,3) by (auto simp: triple_def)
qed

lemma triple_finally:
  assumes "triple P m R F" and "triple (\<lambda>s. \<exists>x. R x s) c (\<lambda>_ s. \<forall>x. Q x s) E" and "triple (\<lambda>s. \<exists>e. F e s) c (\<lambda>_ s. \<forall>e. E e s) E"
  shows "triple P (finallyS m c) Q E"
  unfolding triple_def
proof (intro allI impI)
  fix s
  assume P: "P s"
  obtain r t where m: "m s = (r, t)" by (cases "m s")
  obtain q u where c: "c t = (q, u)" by (cases "c t")
  show "case finallyS m c s of (Inr x, s') \<Rightarrow> Q x s' | (Inl e, s') \<Rightarrow> E e s'"
  proof (cases r)
    case (Inl e)
    then have "F e t" using tripleD(2)[OF assms(1) P] m by simp
    then have "\<exists>e. F e t" by blast
    from assms(3)[unfolded triple_def, rule_format, OF this] show ?thesis
      using Inl m c by (cases q) (auto simp: finallyS_def)
  next
    case (Inr x)
    then have "R x t" using tripleD(1)[OF assms(1) P] m by simp
    then have "\<exists>x. R x t" by blast
    from assms(2)[unfolded triple_def, rule_format, OF this] show ?thesis
      using Inr m c by (cases q) (auto simp: finallyS_def)
  qed
qed

section \<open>The ledger only grows\<close>

text \<open>\<open>since env w0\<close>: every ledger entry of \<open>w0\<close> is still there; \<open>holding\<close> adds that this process holds the
  lock of \<open>p\<close>, and that \<open>p\<close> has no content yet when it is a ledger file.\<close>

definition holding :: "localEnv \<Rightarrow> fsWorld \<Rightarrow> fpath \<Rightarrow> fsWorld \<Rightarrow> bool" where
  "holding env w0 p w \<longleftrightarrow> ledgerLe env w0 w \<and> fs_locks w p = Some True"

definition fresh :: "localEnv \<Rightarrow> fsWorld \<Rightarrow> fpath \<Rightarrow> fsWorld \<Rightarrow> bool" where
  "fresh env w0 p w \<longleftrightarrow> holding env w0 p w
     \<and> (fst p = folderFor env (operationsStore env) \<longrightarrow> fs_files w p = None)"

lemma stable_since: "stable env (ledgerLe env w0)"
  by (auto simp: stable_def calm_def intro: ledgerLe_trans)

lemma stable_holding: "stable env (holding env w0 p)"
  by (cases p) (auto simp: stable_def calm_def holding_def intro: ledgerLe_trans)

lemma stable_fresh: "stable env (fresh env w0 p)"
  by (cases p) (auto simp: stable_def calm_def fresh_def holding_def intro: ledgerLe_trans)

lemma fresh_since: "fresh env w0 p w \<Longrightarrow> ledgerLe env w0 w" "holding env w0 p w \<Longrightarrow> ledgerLe env w0 w"
  by (simp_all add: fresh_def holding_def)

lemma ledgerLe_update [simp]:
  "ledgerLe env w0 (w\<lparr>fs_temps := t\<rparr>) = ledgerLe env w0 w" "ledgerLe env w0 (w\<lparr>fs_locks := l\<rparr>) = ledgerLe env w0 w"
  "ledgerLe env w0 (w\<lparr>fs_uuids := n\<rparr>) = ledgerLe env w0 w"
  by (simp_all add: ledgerLe_def)

lemma fresh_update [simp]:
  "fresh env w0 p (w\<lparr>fs_temps := t\<rparr>) = fresh env w0 p w" "fresh env w0 p (w\<lparr>fs_uuids := n\<rparr>) = fresh env w0 p w"
  by (simp_all add: fresh_def holding_def)

lemma fresh_rename: "fresh env w0 p w \<Longrightarrow> ledgerLe env w0 (w\<lparr>fs_files := (fs_files w)(p := f)\<rparr>)"
  by (auto simp: fresh_def holding_def ledgerLe_def)

lemma triple_writeAndRename:
  "triple (fresh env w0 p) (writeAndRename env p d) (\<lambda>_. ledgerLe env w0) (\<lambda>_. ledgerLe env w0)"
proof -
  have temp: "triple (fresh env w0 p) (sys env (updateS (\<lambda>w. w\<lparr>fs_temps := t w\<rparr>))) (\<lambda>_. fresh env w0 p) (\<lambda>_. fresh env w0 p)" for t
    by (rule triple_sys[OF stable_fresh]) (simp_all add: triple_def)
  have close: "triple (fresh env w0 p) (sys env (retS ())) (\<lambda>_. fresh env w0 p) (\<lambda>_. fresh env w0 p)"
    by (rule triple_sys[OF stable_fresh]) (simp_all add: triple_def)
  have rename: "triple (fresh env w0 p) (sys env (updateS (\<lambda>w. w\<lparr>fs_files := (fs_files w)(p := fs_temps w e)\<rparr>)))
      (\<lambda>_. ledgerLe env w0) (\<lambda>_. ledgerLe env w0)" for e
    by (rule triple_sys[OF stable_fresh]) (auto simp: triple_def fresh_rename fresh_since)
  have cleanup: "triple (ledgerLe env w0) (sys env (updateS (\<lambda>w. w\<lparr>fs_temps := t w\<rparr>))) (\<lambda>_. ledgerLe env w0) (\<lambda>_. ledgerLe env w0)" for t
    by (rule triple_sys[OF stable_since]) (simp_all add: triple_def)
  have put: "triple (fresh env w0 p) (finallyS (sys env (updateS (\<lambda>w. w\<lparr>fs_temps := t w\<rparr>))) (sys env (retS ())))
      (\<lambda>_. fresh env w0 p) (\<lambda>_. fresh env w0 p)" for t
    by (rule triple_finally[OF temp]) (simp_all add: close)
  have body: "triple (fresh env w0 p)
      (bindS (sys env (updateS (\<lambda>w. w\<lparr>fs_temps := (fs_temps w)(e := None)\<rparr>))) (\<lambda>_.
       bindS (finallyS (sys env (updateS (\<lambda>w. w\<lparr>fs_temps := (fs_temps w)(e \<mapsto> \<lparr>st_data = d, st_etag = e\<rparr>)\<rparr>)))
                (sys env (retS ()))) (\<lambda>_.
       bindS (sys env (updateS (\<lambda>w. w\<lparr>fs_files := (fs_files w)(p := fs_temps w e)\<rparr>))) (\<lambda>_. retS e))))
      (\<lambda>_. ledgerLe env w0) (\<lambda>_. ledgerLe env w0)" for e
  proof -
    have temp': "triple (fresh env w0 p) (sys env (updateS (\<lambda>w. w\<lparr>fs_temps := t w\<rparr>))) (\<lambda>_. fresh env w0 p) (\<lambda>_. ledgerLe env w0)" for t
      by (rule triple_post[OF temp]) (simp_all add: fresh_since)
    have put': "triple (fresh env w0 p) (finallyS (sys env (updateS (\<lambda>w. w\<lparr>fs_temps := t w\<rparr>))) (sys env (retS ())))
      (\<lambda>_. fresh env w0 p) (\<lambda>_. ledgerLe env w0)" for t
      by (rule triple_post[OF put]) (simp_all add: fresh_since)
    show ?thesis by (intro triple_bind[OF temp'] triple_bind[OF put'] triple_bind[OF rename] triple_ret)
  qed
  show ?thesis
    unfolding writeAndRename_def
    by (rule triple_bind[where R = "\<lambda>_. fresh env w0 p"], simp add: triple_def,
        rule triple_finally[OF body]) (simp_all add: cleanup)
qed

lemma triple_lockedWrite:
  assumes "fst p = folderFor env (operationsStore env) \<Longrightarrow> c = OnlyIfNew"
  shows "triple (holding env w0 p) (lockedWrite env p d c) (\<lambda>_. ledgerLe env w0) (\<lambda>_. ledgerLe env w0)"
  unfolding lockedWrite_def
proof (rule triple_bind[where R = "\<lambda>current w. holding env w0 p w \<and> fs_files w p = current"])
  show "triple (holding env w0 p) (readFile env p) (\<lambda>current w. holding env w0 p w \<and> fs_files w p = current) (\<lambda>_. ledgerLe env w0)"
    unfolding readFile_def by (rule triple_sys[OF stable_holding]) (simp_all add: triple_def fresh_since)
  fix current
  have "triple (\<lambda>w. holding env w0 p w \<and> fs_files w p = current) (writeAndRename env p d) (\<lambda>_. ledgerLe env w0) (\<lambda>_. ledgerLe env w0)"
    if "\<not> condFails c current"
    by (rule triple_pre[OF triple_writeAndRename]) (use that assms in \<open>auto simp: fresh_def condFails_def\<close>)
  then show "triple (\<lambda>w. holding env w0 p w \<and> fs_files w p = current)
     (if condFails c current then retS \<lparr>sr_modified = False, sr_etag = map_option st_etag current\<rparr>
      else bindS (writeAndRename env p d) (\<lambda>etag. retS \<lparr>sr_modified = True, sr_etag = Some etag\<rparr>))
     (\<lambda>_. ledgerLe env w0) (\<lambda>_. ledgerLe env w0)"
    by (auto intro!: triple_bind triple_ret simp: fresh_since)
qed

lemma triple_acquireLock:
  "triple (ledgerLe env w0) (acquireLock env p n)
     (\<lambda>got w. if got then holding env w0 p w else ledgerLe env w0 w) (\<lambda>_. ledgerLe env w0)"
proof (induction n)
  case (Suc n)
  have "triple (ledgerLe env w0) (mkdirLock env p)
     (\<lambda>got w. if got then holding env w0 p w else ledgerLe env w0 w) (\<lambda>_. ledgerLe env w0)"
    unfolding mkdirLock_def by (rule triple_sys[OF stable_since]) (simp_all add: triple_def holding_def)
  then show ?case
    unfolding acquireLock.simps
  proof (rule triple_bind)
    show "triple (\<lambda>w. if got then holding env w0 p w else ledgerLe env w0 w) (if got then retS True else acquireLock env p n)
       (\<lambda>got w. if got then holding env w0 p w else ledgerLe env w0 w) (\<lambda>_. ledgerLe env w0)" for got
      using Suc by (cases got) (simp_all add: triple_ret)
  qed
qed (simp add: triple_def)

lemma triple_localSetJSON:
  assumes "name = operationsStore env \<Longrightarrow> c = OnlyIfNew"
    and "le_sha256 env (recordsStore env) \<noteq> le_sha256 env (operationsStore env)"
    and "name = recordsStore env \<or> name = operationsStore env"
  shows "triple (ledgerLe env w0) (localSetJSON env name key d c) (\<lambda>_. ledgerLe env w0) (\<lambda>_. ledgerLe env w0)"
proof -
  let ?p = "pathFor env name key"
  have c: "fst ?p = folderFor env (operationsStore env) \<Longrightarrow> c = OnlyIfNew"
    using assms by (auto simp: pathFor_def folderFor_def)
  have mk: "triple (ledgerLe env w0) (sys env (retS ())) (\<lambda>_. ledgerLe env w0) (\<lambda>_. ledgerLe env w0)"
    by (rule triple_sys[OF stable_since]) (simp_all add: triple_def)
  have rel: "triple (ledgerLe env w0) (releaseLock env ?p) (\<lambda>_. ledgerLe env w0) (\<lambda>_. ledgerLe env w0)"
    unfolding releaseLock_def by (rule triple_sys[OF stable_since]) (simp_all add: triple_def)
  have crit: "triple (holding env w0 ?p) (finallyS (lockedWrite env ?p d c) (releaseLock env ?p))
      (\<lambda>_. ledgerLe env w0) (\<lambda>_. ledgerLe env w0)"
    by (rule triple_finally[OF triple_lockedWrite[OF c]]) (simp_all add: rel)
  show ?thesis
    unfolding localSetJSON_def Let_def
  proof (rule triple_bind[OF mk], rule triple_bind[OF triple_acquireLock])
    show "triple (\<lambda>w. if got then holding env w0 ?p w else ledgerLe env w0 w)
        (if \<not> got then throwS lockUnavailable else finallyS (lockedWrite env ?p d c) (releaseLock env ?p))
        (\<lambda>_. ledgerLe env w0) (\<lambda>_. ledgerLe env w0)" for got
      using crit by (cases got) (simp_all add: triple_throw)
  qed
qed

lemma triple_grows:
  assumes "\<And>w0. triple (ledgerLe env w0) m (\<lambda>_. ledgerLe env w0) (\<lambda>_. ledgerLe env w0)" and "m w = (r, w')"
  shows "ledgerLe env w w'"
  using assms(1)[of w] assms(2) by (cases r) (auto simp: triple_def dest: spec[of _ w])

lemma ledgerLe_map_le: "ledgerLe env w w' \<Longrightarrow> localLedger env w \<subseteq>\<^sub>m localLedger env w'"
  by (auto simp: map_le_def localLedger_def ledgerLe_def pathFor_def)

lemma localGet_cases:
  obtains w1 where "calm env w w1" and "(\<exists>e. localGet env name key w = (Inl e, w1))
    \<or> localGet env name key w = (Inr (map_option (\<lambda>f. \<lparr>bl_data = st_data f, bl_etag = Some (st_etag f)\<rparr>)
         (fs_files w1 (pathFor env name key))), w1)"
proof -
  let ?call = "readS (\<lambda>w. fs_files w (pathFor env name key)) :: (fsWorld, stored option) act"
  obtain w1 where w1: "calm env w w1" "sys env ?call w = ?call w1 \<or> (\<exists>e. sys env ?call w = (Inl e, w1))"
    by (rule sys_cases)
  then show ?thesis
    using that[OF w1(1)] by (auto simp: localGet_def readFile_def bindS_def tryS_def)
qed

text \<open>The local store keeps the ledger's promises for every script of foreign actions and faults, when
  the two store names hash to different folders.\<close>

locale local_store =
  fixes env :: localEnv and parseDate :: "ustring \<Rightarrow> int option" and numberText :: "rat \<Rightarrow> ustring"
  assumes folders_differ: "le_sha256 env (recordsStore env) \<noteq> le_sha256 env (operationsStore env)"

lemma localGet_grows: "localGet env name key w = (r, w') \<Longrightarrow> localLedger env w \<subseteq>\<^sub>m localLedger env w'"
  by (rule localGet_cases[of env w name key]) (auto simp: calm_def intro!: ledgerLe_map_le)

lemma localGet_ledger:
  "localGet env (operationsStore env) key w = (Inr (Some b), w') \<Longrightarrow> localLedger env w' key = Some b"
  by (rule localGet_cases[of env w "operationsStore env" key]) (auto simp: localLedger_def)

lemma localGet_absent:
  "localGet env (operationsStore env) key w = (Inr None, w') \<Longrightarrow> localLedger env w key = None"
  by (rule localGet_cases[of env w "operationsStore env" key])
    (auto simp: localLedger_def calm_def ledgerLe_def pathFor_def intro: ccontr)

lemma localDeps_simps [simp]:
  "getWithMetadata (records (localDeps env pd nt)) = localGet env (recordsStore env)"
  "getWithMetadata (operations (localDeps env pd nt)) = localGet env (operationsStore env)"
  "setJSON (records (localDeps env pd nt)) = localSetJSON env (recordsStore env)"
  "setJSON (operations (localDeps env pd nt)) = localSetJSON env (operationsStore env)"
  "diagnostic (localDeps env pd nt) = (\<lambda>_ w. w)" "writeDiagnostic (localDeps env pd nt) = (\<lambda>_ w. w)"
  "clock (localDeps env pd nt) = fs_now" "dateParse (localDeps env pd nt) = pd" "numText (localDeps env pd nt) = nt"
  "sha256 (localDeps env pd nt) = le_sha256 env"
  by (simp_all add: localDeps_def createLocalBlobStores_def)

sublocale local_store \<subseteq> claim_ledger "localDeps env parseDate numberText" "localLedger env"
proof unfold_locales
  have names: "recordsStore env \<noteq> operationsStore env" using folders_differ by auto
  show "setJSON (operations (localDeps env parseDate numberText)) k d OnlyIfNew w = (r', w') \<Longrightarrow>
      localLedger env w \<subseteq>\<^sub>m localLedger env w'" for k d w r' w'
    by (rule ledgerLe_map_le, rule triple_grows[OF triple_localSetJSON[OF _ folders_differ]]) auto
  show "setJSON (records (localDeps env parseDate numberText)) k d c w = (r', w') \<Longrightarrow>
      localLedger env w \<subseteq>\<^sub>m localLedger env w'" for k d c w r' w'
    by (rule ledgerLe_map_le, rule triple_grows[OF triple_localSetJSON[OF _ folders_differ]]) (use names in auto)
qed (auto intro: localGet_grows localGet_ledger localGet_absent)

section \<open>A quiet machine\<close>

definition localRecords :: "localEnv \<Rightarrow> fsWorld \<Rightarrow> ustring \<Rightarrow> blob option" where
  "localRecords env w key = map_option (\<lambda>f. \<lparr>bl_data = st_data f, bl_etag = Some (st_etag f)\<rparr>)
     (fs_files w (pathFor env (recordsStore env) key))"

definition quietMachine :: "fsWorld \<Rightarrow> bool" where
  "quietMachine w \<longleftrightarrow> fs_script w = [] \<and> fs_locks w = (\<lambda>_. None) \<and> (\<forall>p f. fs_files w p = Some f \<longrightarrow> st_etag f \<noteq> [])"

lemma sys_quiet: "fs_script w = [] \<Longrightarrow> sys env call w = call w"
  by (simp add: sys_def)

lemma localGet_quiet:
  "quietMachine w \<Longrightarrow> localGet env name key w
     = (Inr (map_option (\<lambda>f. \<lparr>bl_data = st_data f, bl_etag = Some (st_etag f)\<rparr>) (fs_files w (pathFor env name key))), w)"
  by (simp add: localGet_def readFile_def sys_quiet quietMachine_def bindS_def tryS_def)

lemma writeAndRename_quiet:
  assumes "fs_script w = []"
  shows "writeAndRename env p d w = (Inr (le_uuid env (fs_uuids w)), w\<lparr>fs_uuids := Suc (fs_uuids w),
     fs_files := (fs_files w)(p \<mapsto> \<lparr>st_data = d, st_etag = le_uuid env (fs_uuids w)\<rparr>),
     fs_temps := (fs_temps w)(le_uuid env (fs_uuids w) := None)\<rparr>)"
  using assms by (simp add: writeAndRename_def bindS_def tryS_def finallyS_def sys_quiet)

lemma localSetJSON_quiet:
  assumes "quietMachine w"
  shows "localSetJSON env name key d c w =
    (if condFails c (fs_files w (pathFor env name key))
     then (Inr \<lparr>sr_modified = False, sr_etag = map_option st_etag (fs_files w (pathFor env name key))\<rparr>, w)
     else (Inr \<lparr>sr_modified = True, sr_etag = Some (le_uuid env (fs_uuids w))\<rparr>, w\<lparr>fs_uuids := Suc (fs_uuids w),
       fs_files := (fs_files w)(pathFor env name key \<mapsto> \<lparr>st_data = d, st_etag = le_uuid env (fs_uuids w)\<rparr>),
       fs_temps := (fs_temps w)(le_uuid env (fs_uuids w) := None)\<rparr>))"
proof -
  let ?p = "pathFor env name key"
  let ?w = "w\<lparr>fs_locks := (fs_locks w)(?p \<mapsto> True)\<rparr>"
  have q: "fs_script w = []" "fs_locks w = (\<lambda>_. None)" using assms by (simp_all add: quietMachine_def)
  have acquire: "acquireLock env ?p 100 w = (Inr True, ?w)"
    using q by (simp add: numeral_eq_Suc bindS_def tryS_def mkdirLock_def sys_quiet)
  have locked: "lockedWrite env ?p d c ?w = (if condFails c (fs_files w ?p)
     then (Inr \<lparr>sr_modified = False, sr_etag = map_option st_etag (fs_files w ?p)\<rparr>, ?w)
     else (Inr \<lparr>sr_modified = True, sr_etag = Some (le_uuid env (fs_uuids w))\<rparr>, ?w\<lparr>fs_uuids := Suc (fs_uuids w),
       fs_files := (fs_files w)(?p \<mapsto> \<lparr>st_data = d, st_etag = le_uuid env (fs_uuids w)\<rparr>),
       fs_temps := (fs_temps w)(le_uuid env (fs_uuids w) := None)\<rparr>))"
    using q by (simp add: lockedWrite_def readFile_def bindS_def tryS_def sys_quiet writeAndRename_quiet)
  have unlock: "(\<lambda>_. None)(?p := None) = (\<lambda>_. None)" by auto
  show ?thesis
    using q acquire locked unlock
    by (simp add: localSetJSON_def bindS_def tryS_def sys_quiet Let_def finallyS_def releaseLock_def)
qed

text \<open>Without hash collisions and with non-empty identifiers the local store is exact on a quiet machine.\<close>

locale ideal_local_store =
  fixes env :: localEnv and parseDate :: "ustring \<Rightarrow> int option" and numberText :: "rat \<Rightarrow> ustring"
  assumes sha_inj: "inj (le_sha256 env)" and uuid_text: "le_uuid env n \<noteq> []"
begin

lemma names_differ: "recordsStore env \<noteq> operationsStore env"
  by (simp add: recordsStore_def operationsStore_def)

lemma paths:
  "pathFor env name k = pathFor env name k' \<longleftrightarrow> k = k'"
  "pathFor env (recordsStore env) k \<noteq> pathFor env (operationsStore env) k'"
  using sha_inj names_differ by (auto simp: pathFor_def folderFor_def inj_eq)

lemma quiet_write:
  assumes "quietMachine w" and "\<not> condFails c (fs_files w (pathFor env name k))"
  shows "quietMachine (snd (localSetJSON env name k d c w))"
  using assms uuid_text by (auto simp: localSetJSON_quiet quietMachine_def)

end

sublocale ideal_local_store \<subseteq> local_store env parseDate numberText
  using sha_inj names_differ by unfold_locales (auto simp: inj_eq)

sublocale ideal_local_store \<subseteq> quiet_provider "localDeps env parseDate numberText" "localRecords env" "localLedger env" quietMachine
proof unfold_locales
  fix w k
  assume q: "quietMachine w"
  show "getWithMetadata (records (localDeps env parseDate numberText)) k w = (Inr (localRecords env w k), w)"
    "getWithMetadata (operations (localDeps env parseDate numberText)) k w = (Inr (localLedger env w k), w)"
    using q by (simp_all add: localGet_quiet localRecords_def localLedger_def)
next
  fix w c k d
  assume q: "quietMachine w" and c: "condHolds c (localRecords env w k)" "c \<noteq> OnlyIfMatch []"
  have nf: "\<not> condFails c (fs_files w (pathFor env (recordsStore env) k))"
    using c by (cases c) (auto simp: condHolds_def condFails_def localRecords_def split: option.splits)
  show "\<exists>e w'. e \<noteq> [] \<and> quietMachine w'
        \<and> setJSON (records (localDeps env parseDate numberText)) k d c w = (Inr \<lparr>sr_modified = True, sr_etag = Some e\<rparr>, w')
        \<and> localRecords env w' = (localRecords env w)(k \<mapsto> \<lparr>bl_data = d, bl_etag = Some e\<rparr>)
        \<and> localLedger env w' = localLedger env w
        \<and> clock (localDeps env parseDate numberText) w' = clock (localDeps env parseDate numberText) w"
    using localSetJSON_quiet[OF q, of env "recordsStore env" k d c] nf quiet_write[OF q nf, of d] uuid_text paths paths(2)[symmetric]
    by (intro exI[of _ "le_uuid env (fs_uuids w)"] exI[of _ "snd (localSetJSON env (recordsStore env) k d c w)"])
      (auto simp: localRecords_def localLedger_def)
next
  fix w k d
  assume q: "quietMachine w" and n: "localLedger env w k = None"
  have nf: "\<not> condFails OnlyIfNew (fs_files w (pathFor env (operationsStore env) k))"
    using n by (auto simp: condFails_def localLedger_def)
  show "\<exists>e w'. e \<noteq> [] \<and> quietMachine w'
        \<and> setJSON (operations (localDeps env parseDate numberText)) k d OnlyIfNew w = (Inr \<lparr>sr_modified = True, sr_etag = Some e\<rparr>, w')
        \<and> localLedger env w' = (localLedger env w)(k \<mapsto> \<lparr>bl_data = d, bl_etag = Some e\<rparr>)
        \<and> localRecords env w' = localRecords env w
        \<and> clock (localDeps env parseDate numberText) w' = clock (localDeps env parseDate numberText) w"
    using localSetJSON_quiet[OF q, of env "operationsStore env" k d OnlyIfNew] nf quiet_write[OF q nf, of d] uuid_text paths
    by (intro exI[of _ "le_uuid env (fs_uuids w)"] exI[of _ "snd (localSetJSON env (operationsStore env) k d OnlyIfNew w)"])
      (auto simp: localRecords_def localLedger_def)
next
  fix w k d
  assume q: "quietMachine w" and n: "localLedger env w k \<noteq> None"
  then show "\<exists>r. \<not> sr_modified r \<and> setJSON (operations (localDeps env parseDate numberText)) k d OnlyIfNew w = (Inr r, w)"
    using localSetJSON_quiet[OF q, of env "operationsStore env" k d OnlyIfNew]
    by (auto simp: condFails_def localLedger_def)
next
  fix w k b
  assume q: "quietMachine w"
  show "localRecords env w k = Some b \<Longrightarrow> validEtag (bl_etag b)" "localLedger env w k = Some b \<Longrightarrow> validEtag (bl_etag b)"
    using q by (auto simp: localRecords_def localLedger_def quietMachine_def validEtag_def pathFor_def)
qed

context local_store
begin

lemma is_claim_ledger: "claim_ledger (localDeps env parseDate numberText) (localLedger env)"
  by unfold_locales

end

context ideal_local_store
begin

lemma is_quiet_provider:
  "quiet_provider (localDeps env parseDate numberText) (localRecords env) (localLedger env) quietMachine"
  by unfold_locales

end

section \<open>A concrete machine\<close>

text \<open>An environment whose hash is the identity: the parameters can be instantiated.\<close>

definition sampleEnv :: localEnv where
  "sampleEnv = \<lparr>le_directory = js ''d'', le_namespace = js ''n'', le_sha256 = (\<lambda>s. s),
     le_uuid = (\<lambda>n. js ''u'' @ dec_digits n)\<rparr>"

definition sampleDeps :: "fsWorld controlDeps" where
  "sampleDeps = localDeps sampleEnv (\<lambda>_. None) sampleNumText"

definition emptyWorld :: fsWorld where
  "emptyWorld = \<lparr>fs_files = (\<lambda>_. None), fs_temps = (\<lambda>_. None), fs_locks = (\<lambda>_. None), fs_uuids = 0, fs_now = 0,
     fs_script = []\<rparr>"

interpretation sample_store: ideal_local_store sampleEnv "\<lambda>_. None" sampleNumText
  by unfold_locales (simp_all add: sampleEnv_def)

end
