(* ===== verification/StoreProperties.thy ===== *)
theory StoreProperties
  imports LocalBlobs
begin

text \<open>
  What the control store promises: facts for every provider, the uniqueness of operation identifiers
  on the local store under any interleaving and any faults, and the sequential specification on a
  quiet machine.
\<close>

section \<open>Sample request\<close>

definition sampleInput :: compareAndSetInput where
  "sampleInput = \<lparr>ci_key = js ''k'', ci_expectedRevision = None, ci_operationId = js ''op'', ci_value = JStr (js ''v''),
     ci_expiresAt = None\<rparr>"

lemma sampleInput_ok:
  "isSafeKey (ci_key sampleInput)" "isSafeKey (ci_operationId sampleInput)" "isJsonValue 0 (ci_value sampleInput)"
  "wf_js (ci_value sampleInput)" "plainJson (ci_value sampleInput)" "ci_expectedRevision sampleInput = None"
  by (simp_all add: sampleInput_def plainJson_def) code_simp+

lemma emptyWorld_ok:
  "quietMachine emptyWorld" "localRecords env emptyWorld k = None" "localLedger env emptyWorld k = None"
  by (simp_all add: emptyWorld_def quietMachine_def localRecords_def localLedger_def)

lemma sample_created:
  obtains e w where "compareAndSet sampleDeps sampleInput emptyWorld = (Inr (W_applied (newRecord sampleInput e)), w)"
    and "\<exists>w'. compareAndSet sampleDeps sampleInput w = (Inr (W_applied (newRecord sampleInput e)), w')"
proof -
  have "isRecordLive (dateParse sampleDeps) (ci_expiresAt sampleInput) (clock sampleDeps emptyWorld)"
    by (simp add: sampleInput_def isRecordLive_def)
  then show ?thesis
    using that sample_store.create_read[OF emptyWorld_ok(1) sampleInput_ok(1,2) emptyWorld_ok(2,3) sampleInput_ok(6,3,4)]
    unfolding sampleDeps_def by auto
qed

section \<open>Every provider\<close>

text \<open>C29: \<open>compareAndSet\<close> reports \<open>applied\<close> only for a record that a strong read of the key returned, live, with this
  operation's identifier, value and expiry and a non-empty revision; whatever the provider answers to
  the write itself, and whatever other processes do.\<close>

theorem compareAndSet_applied_observed:
  assumes "compareAndSet deps input w = (Inr (W_applied record), w')"
  shows "(\<exists>v r v'. readLive deps (ci_key input) v = (Inr r, v') \<and> lr_live r = Some record)
    \<and> cr_key record = ci_key input \<and> cr_revision record \<noteq> []
    \<and> cr_operationId record = ci_operationId input \<and> cr_expiresAt record = ci_expiresAt input
    \<and> sameJsonValue (cr_value record) (ci_value input)"
proof -
  have "appliedOk deps input (W_applied record)" using tripleD(1)[OF triple_compareAndSet TrueI assms] .
  then show ?thesis using observed_record[of deps "ci_key input" "record"] by (auto simp: appliedOk_def sameWrite_def observed_def)
qed

theorem compareAndSet_applied_observed_witness:
  "\<exists>record w. compareAndSet sampleDeps sampleInput emptyWorld = (Inr (W_applied record), w)
     \<and> cr_operationId record = js ''op''"
proof -
  obtain e w where "compareAndSet sampleDeps sampleInput emptyWorld = (Inr (W_applied (newRecord sampleInput e)), w)"
    by (rule sample_created)
  then show ?thesis using compareAndSet_applied_observed by (fastforce simp: sampleInput_def)
qed

text \<open>No operation of the store ever throws: \<open>read\<close>, \<open>compareAndSet\<close> and \<open>resolve\<close> return a result for every
  provider behaviour, failures included.\<close>

theorem controlStore_total:
  "(\<exists>r w'. storeRead deps key w = (Inr r, w')) \<and> (\<exists>r w'. compareAndSet deps input w = (Inr r, w'))
   \<and> (\<exists>r w'. storeResolve deps key operationId w = (Inr r, w'))"
proof -
  have "nothrow (storeRead deps key)"
    unfolding storeRead_def by (auto intro!: nothrow_try nothrow_bind split: option.split)
  moreover have "nothrow (storeResolve deps key operationId)"
    unfolding storeResolve_def by (auto intro!: nothrow_try)
  ultimately show ?thesis using nothrow_compareAndSet[of deps input] by (simp add: nothrow_def)
qed

text \<open>A definite \<open>conflict\<close> is only reported by the invocation that created the operation's ledger claim
  itself. A retry, whose earlier attempt may have landed and been superseded, never reports one.\<close>

theorem conflict_only_from_fresh_claim:
  assumes "compareAndSet deps input w = (Inr (W_conflict current), w')"
  shows "\<exists>w1. claimOperation deps (ci_operationId input) (ci_key input)
    (digestOf (numText deps) (ci_value input) (ci_expiresAt input)) w = (Inr (Claimed False), w1)"
  by (rule conflict_claim[OF assms])

theorem conflict_only_from_fresh_claim_witness:
  "\<exists>w w' current w1. compareAndSet sampleDeps (sampleInput\<lparr>ci_expectedRevision := Some (js ''u9'')\<rparr>) w = (Inr (W_conflict current), w')
     \<and> claimOperation sampleDeps (js ''op'') (js ''k'') (digestOf (numText sampleDeps) (JStr (js ''v'')) None) w = (Inr (Claimed False), w1)"
proof -
  let ?i = "sampleInput\<lparr>ci_expectedRevision := Some (js ''u9'')\<rparr>"
  have "\<exists>w' current. compareAndSet sampleDeps ?i emptyWorld = (Inr (W_conflict current), w')"
  proof -
    have "isSafeKey (ci_key ?i)" "isSafeKey (ci_operationId ?i)" "isJsonValue 0 (ci_value ?i)" "wf_js (ci_value ?i)"
      using sampleInput_ok by simp_all
    moreover have "sample_store.liveAt emptyWorld (ci_key ?i) = \<lparr>lr_raw = None, lr_live = None, lr_corrupt = False,
        lr_envelope = None, lr_legacy = False\<rparr>"
      by (simp add: sample_store.liveAt_def interpretRaw_def emptyWorld_ok)
    ultimately show ?thesis
      using sample_store.compareAndSet_quiet[of emptyWorld ?i] emptyWorld_ok
      by (auto simp: sampleDeps_def specCas_def claimOf_def sameWrite_def)
  qed
  then show ?thesis using conflict_only_from_fresh_claim[of sampleDeps ?i emptyWorld] by (fastforce simp: sampleInput_def)
qed

section \<open>Operation identifiers\<close>



section \<open>A quiet machine\<close>

text \<open>C22: On a quiet machine one \<open>compareAndSet\<close> implements its sequential specification on every branch: mismatch
  against another claim of the identifier, idempotent success, conflict or unknown outcome on a stale
  revision, and the write; the record changes exactly when the specification writes, the identifier's
  claim is kept or made, and no other claim is touched.\<close>

theorem compareAndSet_refines_spec:
  assumes "inj (le_sha256 env)" and "\<And>n. le_uuid env n \<noteq> []" and "quietMachine w"
    and "isSafeKey (ci_key i)" and "isSafeKey (ci_operationId i)"
    and "localLedger env w (ci_operationId i) = None \<or> claimOf (localLedger env w (ci_operationId i)) \<noteq> None"
    and "cur = interpretRaw (localDeps env pd nt) (ci_key i) (localRecords env w (ci_key i)) False (fs_now w)"
    and "\<not> lr_corrupt cur" and "isJsonValue 0 (ci_value i)" and "wf_js (ci_value i)"
    and "spec = specCas (claimOf (localLedger env w (ci_operationId i))) (lr_live cur)
      (isRecordLive pd (ci_expiresAt i) (fs_now w)) (digestOf nt (ci_value i) (ci_expiresAt i)) i"
  shows "\<exists>w' revision. revision \<noteq> [] \<and> quietMachine w'
    \<and> compareAndSet (localDeps env pd nt) i w = (Inr (fst (spec revision)), w')
    \<and> localRecords env w' = (if snd (spec revision)
       then (localRecords env w)(ci_key i \<mapsto> \<lparr>bl_data = encodeEnvelope \<lparr>se_operationId = ci_operationId i,
          se_value = ci_value i, se_expiresAt = ci_expiresAt i\<rparr>, bl_etag = Some revision\<rparr>)
       else localRecords env w)
    \<and> claimOf (localLedger env w' (ci_operationId i)) = (case claimOf (localLedger env w (ci_operationId i)) of
         None \<Rightarrow> Some (ci_key i, digestOf nt (ci_value i) (ci_expiresAt i)) | Some kd \<Rightarrow> Some kd)
    \<and> (\<forall>k. k \<noteq> ci_operationId i \<longrightarrow> localLedger env w' k = localLedger env w k)"
proof -
  note s = ideal_local_store.is_quiet_provider[OF ideal_local_store.intro[OF assms(1,2)], of pd nt]
  have cur: "cur = quiet_provider.liveAt (localDeps env pd nt) (localRecords env) w (ci_key i)"
    using assms(7) by (simp add: quiet_provider.liveAt_def[OF s])
  show ?thesis
    using quiet_provider.compareAndSet_quiet[OF s assms(3-6) assms(8)[unfolded cur] assms(9,10)]
    unfolding assms(11) cur localDeps_simps by blast
qed

text \<open>A created record is read back: on a quiet machine a create of a new key with a new operation
  identifier is applied, \<open>read\<close> returns exactly that record, \<open>resolve\<close> finds the operation applied, and the same
  request sent again is answered \<open>applied\<close> with the same record and changes no record.\<close>

theorem created_record_reads_back:
  assumes "inj (le_sha256 env)" and "\<And>n. le_uuid env n \<noteq> []" and "quietMachine w"
    and "isSafeKey (ci_key i)" and "isSafeKey (ci_operationId i)"
    and "localRecords env w (ci_key i) = None" and "localLedger env w (ci_operationId i) = None"
    and "ci_expectedRevision i = None" and "isJsonValue 0 (ci_value i)" and "wf_js (ci_value i)"
    and "isRecordLive pd (ci_expiresAt i) (fs_now w)"
  shows "\<exists>e w'. compareAndSet (localDeps env pd nt) i w = (Inr (W_applied (newRecord i e)), w')
    \<and> storeRead (localDeps env pd nt) (ci_key i) w' = (Inr (Read_record (newRecord i e)), w')
    \<and> storeResolve (localDeps env pd nt) (ci_key i) (ci_operationId i) w' = (Inr (Res_applied (newRecord i e)), w')
    \<and> (\<exists>w''. compareAndSet (localDeps env pd nt) i w' = (Inr (W_applied (newRecord i e)), w'')
         \<and> localRecords env w'' = localRecords env w')"
proof -
  note s = ideal_local_store.is_quiet_provider[OF ideal_local_store.intro[OF assms(1,2)], of pd nt]
  show ?thesis using quiet_provider.create_read[OF s assms(3-10)] assms(11) by auto
qed

theorem created_record_reads_back_witness:
  "\<exists>e w'. compareAndSet sampleDeps sampleInput emptyWorld = (Inr (W_applied (newRecord sampleInput e)), w')
     \<and> storeRead sampleDeps (js ''k'') w' = (Inr (Read_record (newRecord sampleInput e)), w')"
proof -
  have "isRecordLive (\<lambda>_. None) (ci_expiresAt sampleInput) (fs_now emptyWorld)" by (simp add: sampleInput_def isRecordLive_def)
  moreover have "ci_key sampleInput = js ''k''" by (simp add: sampleInput_def)
  ultimately show ?thesis
    using created_record_reads_back[OF sample_store.sha_inj sample_store.uuid_text emptyWorld_ok(1) sampleInput_ok(1,2)
        emptyWorld_ok(2,3) sampleInput_ok(6,3,4)] unfolding sampleDeps_def by metis
qed

theorem compareAndSet_refines_spec_witness:
  "\<exists>w'. compareAndSet sampleDeps (sampleInput\<lparr>ci_expectedRevision := Some (js ''u9'')\<rparr>) emptyWorld = (Inr (W_conflict None), w')"
proof -
  let ?i = "sampleInput\<lparr>ci_expectedRevision := Some (js ''u9'')\<rparr>"
  let ?cur = "interpretRaw (localDeps sampleEnv (\<lambda>_. None) sampleNumText) (ci_key ?i) (localRecords sampleEnv emptyWorld (ci_key ?i)) False (fs_now emptyWorld)"
  have cur: "\<not> lr_corrupt ?cur" "lr_live ?cur = None" by (simp_all add: emptyWorld_ok interpretRaw_def)
  show ?thesis
    using compareAndSet_refines_spec[OF sample_store.sha_inj sample_store.uuid_text emptyWorld_ok(1) _ _ _ refl cur(1) _ _ refl]
      sampleInput_ok emptyWorld_ok cur(2)
    unfolding sampleDeps_def by (fastforce simp: specCas_def claimOf_def sameWrite_def)
qed

end
