(* ===== verification/InvitePolicy.thy ===== *)
theory InvitePolicy
  imports Json Identity
begin

text \<open>
  Admission policies, stored invitations and share links
  (\<^verbatim>\<open>apps/control/src/invitations/policy.ts\<close> and \<^verbatim>\<open>link.ts\<close>). A stored invitation is JSON in the
  control store; \<open>encodeInvite\<close> is the object the code writes and \<open>readInviteRecord\<close> the reader every
  consumer applies. \<open>toLowerCase\<close>, \<open>Date.parse\<close>, the keyed digest and URI decoding are parameters.
\<close>

datatype admissionHistory = History_none | History_full

datatype admissionPolicy = Policy_link admissionHistory | Policy_named_email ustring

definition DEFAULT_ADMISSION_POLICY :: admissionPolicy where
  "DEFAULT_ADMISSION_POLICY = Policy_link History_none"

datatype storedAdmissionPolicy = Stored_link admissionHistory | Stored_named_email ustring

definition policyHistory :: "storedAdmissionPolicy \<Rightarrow> admissionHistory" where
  "policyHistory p = (case p of Stored_link h \<Rightarrow> h | Stored_named_email _ \<Rightarrow> History_none)"

datatype inviteStatus = Invite_active | Invite_revoked

record inviteRecord =
  inv_roomId :: ustring
  inv_creatorOwnerId :: ustring
  inv_inviteRefDigest :: ustring
  inv_removalGeneration :: "nat option"
  inv_policy :: storedAdmissionPolicy
  inv_status :: inviteStatus
  inv_expiresAt :: "ustring option"
  inv_lastAuthorizedOperationDigest :: "ustring option"

section \<open>Policies\<close>

definition normalizeEmail :: "(ustring \<Rightarrow> ustring) \<Rightarrow> ustring \<Rightarrow> ustring option" where
  "normalizeEmail toLowerCase email =
     (let normalized = toLowerCase (trim email) in if matchesEmail normalized then Some normalized else None)"

definition storePolicy :: "(ustring \<Rightarrow> ustring) \<Rightarrow> (ustring \<Rightarrow> ustring) \<Rightarrow> admissionPolicy option \<Rightarrow> storedAdmissionPolicy option" where
  "storePolicy toLowerCase emailDigest policy =
     (case (case policy of None \<Rightarrow> DEFAULT_ADMISSION_POLICY | Some p \<Rightarrow> p) of
        Policy_link history \<Rightarrow> Some (Stored_link history)
      | Policy_named_email email \<Rightarrow>
          (case normalizeEmail toLowerCase email of
             None \<Rightarrow> None
           | Some e \<Rightarrow> Some (Stored_named_email (emailDigest e))))"

definition policyAllows :: "(ustring \<Rightarrow> ustring) \<Rightarrow> (ustring \<Rightarrow> ustring) \<Rightarrow> storedAdmissionPolicy \<Rightarrow> authPrincipal \<Rightarrow> bool" where
  "policyAllows toLowerCase emailDigest policy who =
     (case policy of
        Stored_link _ \<Rightarrow> True
      | Stored_named_email d \<Rightarrow> d = emailDigest (toLowerCase (ap_verifiedEmail who)))"

section \<open>Stored invitations\<close>

definition nonemptyText :: "jsval \<Rightarrow> ustring option" where
  "nonemptyText v = (case v of JStr s \<Rightarrow> if length s > 0 then Some s else None | _ \<Rightarrow> None)"

definition historyText :: "admissionHistory \<Rightarrow> jsval" where
  "historyText h = JStr (case h of History_none \<Rightarrow> js ''none'' | History_full \<Rightarrow> js ''full'')"

definition readHistory :: "jsval \<Rightarrow> admissionHistory option" where
  "readHistory v = (if v = JStr (js ''none'') then Some History_none
     else if v = JStr (js ''full'') then Some History_full else None)"

definition readStoredPolicy :: "jsval \<Rightarrow> storedAdmissionPolicy option" where
  "readStoredPolicy value = (case value of
     JObj plain ps \<Rightarrow>
       if getProp value (js ''v'') \<noteq> jnat 1 then None
       else if getProp value (js ''kind'') = JStr (js ''link'') \<and> readHistory (getProp value (js ''history'')) \<noteq> None
       then map_option Stored_link (readHistory (getProp value (js ''history'')))
       else if getProp value (js ''kind'') = JStr (js ''named_email'') \<and> getProp value (js ''history'') = JStr (js ''none'')
       then map_option Stored_named_email (nonemptyText (getProp value (js ''emailDigest'')))
       else None
   | _ \<Rightarrow> None)"

definition readStatus :: "jsval \<Rightarrow> inviteStatus option" where
  "readStatus v = (if v = JStr (js ''active'') then Some Invite_active
     else if v = JStr (js ''revoked'') then Some Invite_revoked else None)"

text \<open>\<open>null\<close>, or a non-empty string: \<open>None\<close> of the outer option is a refusal.\<close>

definition nullOrText :: "jsval \<Rightarrow> ustring option option" where
  "nullOrText v = (if v = JNull then Some None else map_option Some (nonemptyText v))"

definition readGeneration :: "jsval \<Rightarrow> nat option" where
  "readGeneration v = (case v of JNum x \<Rightarrow> if isSafeInteger x \<and> \<not> negativeNum x then Some (natOfNum x) else None | _ \<Rightarrow> None)"

definition readInviteRecord :: "(ustring \<Rightarrow> int option) \<Rightarrow> jsval \<Rightarrow> inviteRecord option" where
  "readInviteRecord dateParse value = (case value of
     JObj plain ps \<Rightarrow>
       if getProp value (js ''v'') \<noteq> jnat 1 \<or> getProp value (js ''policyRevision'') \<noteq> jnat 1 then None
       else
         Option.bind (nonemptyText (getProp value (js ''roomId''))) (\<lambda>roomId.
         Option.bind (nonemptyText (getProp value (js ''creatorOwnerId''))) (\<lambda>creatorOwnerId.
         Option.bind (nonemptyText (getProp value (js ''inviteRefDigest''))) (\<lambda>inviteRefDigest.
         Option.bind (readStatus (getProp value (js ''status''))) (\<lambda>status.
         Option.bind (nullOrText (getProp value (js ''expiresAt''))) (\<lambda>expiresAt.
         if (case expiresAt of None \<Rightarrow> False | Some e \<Rightarrow> dateParse e = None) then None
         else Option.bind (nullOrText (getProp value (js ''lastAuthorizedOperationDigest''))) (\<lambda>lastOperation.
         Option.bind (readStoredPolicy (getProp value (js ''policy''))) (\<lambda>policy.
         Some \<lparr>inv_roomId = roomId, inv_creatorOwnerId = creatorOwnerId, inv_inviteRefDigest = inviteRefDigest,
              inv_removalGeneration = readGeneration (getProp value (js ''removalGeneration'')),
              inv_policy = policy, inv_status = status, inv_expiresAt = expiresAt,
              inv_lastAuthorizedOperationDigest = lastOperation\<rparr>)))))))
   | _ \<Rightarrow> None)"

definition encodePolicy :: "storedAdmissionPolicy \<Rightarrow> jsval" where
  "encodePolicy p = (case p of
     Stored_link h \<Rightarrow> JObj True [(js ''v'', jnat 1), (js ''kind'', JStr (js ''link'')), (js ''history'', historyText h)]
   | Stored_named_email d \<Rightarrow> JObj True [(js ''v'', jnat 1), (js ''kind'', JStr (js ''named_email'')),
       (js ''emailDigest'', JStr d), (js ''history'', JStr (js ''none''))])"

definition encodeInvite :: "inviteRecord \<Rightarrow> jsval" where
  "encodeInvite r = JObj True ([(js ''v'', jnat 1), (js ''roomId'', JStr (inv_roomId r)),
     (js ''creatorOwnerId'', JStr (inv_creatorOwnerId r)), (js ''inviteRefDigest'', JStr (inv_inviteRefDigest r)),
     (js ''policyRevision'', jnat 1)]
     @ (case inv_removalGeneration r of None \<Rightarrow> [] | Some n \<Rightarrow> [(js ''removalGeneration'', jnat n)])
     @ [(js ''policy'', encodePolicy (inv_policy r)),
        (js ''status'', JStr (case inv_status r of Invite_active \<Rightarrow> js ''active'' | Invite_revoked \<Rightarrow> js ''revoked'')),
        (js ''expiresAt'', jnullable JStr (inv_expiresAt r)),
        (js ''lastAuthorizedOperationDigest'', jnullable JStr (inv_lastAuthorizedOperationDigest r))])"

section \<open>Share links\<close>

text \<open>The components of a parsed \<open>URL\<close> the code looks at; \<open>decodeURIComponent\<close> is a parameter whose
  \<open>None\<close> is its \<open>URIError\<close>.\<close>

record urlParts =
  url_origin :: ustring
  url_protocol :: ustring
  url_hostname :: ustring
  url_username :: ustring
  url_password :: ustring
  url_pathname :: ustring
  url_search :: ustring
  url_hash :: ustring

definition isTokenUnit :: "cunit \<Rightarrow> bool" where
  "isTokenUnit u \<longleftrightarrow> isDigit u \<or> (0x41 \<le> u \<and> u \<le> 0x5A) \<or> (0x61 \<le> u \<and> u \<le> 0x7A) \<or> u = 0x5F \<or> u = 0x2D"

definition isInviteToken :: "ustring \<Rightarrow> bool" where
  "isInviteToken s \<longleftrightarrow> 8 \<le> length s \<and> length s \<le> 256 \<and> list_all isTokenUnit s"

definition inviteFromShareLink :: "(ustring \<Rightarrow> ustring option) \<Rightarrow> urlParts \<Rightarrow> ustring \<Rightarrow> ustring option" where
  "inviteFromShareLink decodeURIComponent url origin =
     (if url_origin url \<noteq> origin \<or> url_username url \<noteq> [] \<or> url_password url \<noteq> [] \<or> url_search url \<noteq> []
        \<or> url_hash url \<noteq> [] \<or> \<not> startsWith (url_pathname url) (js ''/join/'') then None
      else
        let encoded = drop 6 (url_pathname url) in
        if encoded = [] \<or> 0x2F \<in> set encoded then None
        else (case decodeURIComponent encoded of
            None \<Rightarrow> None
          | Some invite \<Rightarrow> if isInviteToken invite then Some invite else None))"

section \<open>Lemmas\<close>

definition wfPolicy :: "storedAdmissionPolicy \<Rightarrow> bool" where
  "wfPolicy p = (case p of Stored_link _ \<Rightarrow> True | Stored_named_email d \<Rightarrow> d \<noteq> [])"

definition wfInvite :: "(ustring \<Rightarrow> int option) \<Rightarrow> inviteRecord \<Rightarrow> bool" where
  "wfInvite dateParse r \<longleftrightarrow> inv_roomId r \<noteq> [] \<and> inv_creatorOwnerId r \<noteq> [] \<and> inv_inviteRefDigest r \<noteq> []
     \<and> (\<forall>n. inv_removalGeneration r = Some n \<longrightarrow> safeNat n) \<and> wfPolicy (inv_policy r)
     \<and> (\<forall>e. inv_expiresAt r = Some e \<longrightarrow> e \<noteq> [] \<and> dateParse e \<noteq> None)
     \<and> inv_lastAuthorizedOperationDigest r \<noteq> Some []"

lemma nonemptyText_iff: "nonemptyText v = Some s \<longleftrightarrow> v = JStr s \<and> s \<noteq> []"
  by (auto simp: nonemptyText_def split: jsval.splits)

lemma nullOrText_jnullable: "x \<noteq> Some [] \<Longrightarrow> nullOrText (jnullable JStr x) = Some x"
  by (cases x) (auto simp: nullOrText_def nonemptyText_def)

lemma nullOrText_wf: "nullOrText v = Some x \<Longrightarrow> x \<noteq> Some []"
  by (auto simp: nullOrText_def nonemptyText_def split: jsval.splits if_splits)

lemma readHistory_text [simp]: "readHistory (historyText h) = Some h"
  by (cases h) (simp_all add: readHistory_def historyText_def)

lemma readStoredPolicy_encode: "wfPolicy p \<Longrightarrow> readStoredPolicy (encodePolicy p) = Some p"
  by (cases p) (auto simp: readStoredPolicy_def encodePolicy_def wfPolicy_def nonemptyText_def)

lemma readStoredPolicy_wf: "readStoredPolicy v = Some p \<Longrightarrow> wfPolicy p"
  by (auto simp: readStoredPolicy_def wfPolicy_def nonemptyText_def split: jsval.splits if_splits)

lemma readGeneration_jnat: "safeNat n \<Longrightarrow> readGeneration (jnat n) = Some n"
  by (simp add: readGeneration_def jnat_def)

lemma readGeneration_safe: "readGeneration v = Some n \<Longrightarrow> safeNat n"
  using natOfNum_safe by (auto simp: readGeneration_def split: jsval.splits if_splits)

lemma encodeInvite_props:
  "getProp (encodeInvite r) (js ''v'') = jnat 1"
  "getProp (encodeInvite r) (js ''roomId'') = JStr (inv_roomId r)"
  "getProp (encodeInvite r) (js ''creatorOwnerId'') = JStr (inv_creatorOwnerId r)"
  "getProp (encodeInvite r) (js ''inviteRefDigest'') = JStr (inv_inviteRefDigest r)"
  "getProp (encodeInvite r) (js ''policyRevision'') = jnat 1"
  "getProp (encodeInvite r) (js ''policy'') = encodePolicy (inv_policy r)"
  "getProp (encodeInvite r) (js ''status'') = JStr (case inv_status r of Invite_active \<Rightarrow> js ''active'' | Invite_revoked \<Rightarrow> js ''revoked'')"
  "getProp (encodeInvite r) (js ''expiresAt'') = jnullable JStr (inv_expiresAt r)"
  "getProp (encodeInvite r) (js ''lastAuthorizedOperationDigest'') = jnullable JStr (inv_lastAuthorizedOperationDigest r)"
  "getProp (encodeInvite r) (js ''removalGeneration'') = (case inv_removalGeneration r of None \<Rightarrow> JUndef | Some n \<Rightarrow> jnat n)"
  by (cases "inv_removalGeneration r"; simp add: encodeInvite_def)+

lemma readInviteRecord_encode:
  assumes "wfInvite dp r"
  shows "readInviteRecord dp (encodeInvite r) = Some r"
proof -
  obtain ps where ps: "encodeInvite r = JObj True ps" by (simp add: encodeInvite_def)
  have parts: "nonemptyText (JStr (inv_roomId r)) = Some (inv_roomId r)"
    "nonemptyText (JStr (inv_creatorOwnerId r)) = Some (inv_creatorOwnerId r)"
    "nonemptyText (JStr (inv_inviteRefDigest r)) = Some (inv_inviteRefDigest r)"
    "readStatus (JStr (case inv_status r of Invite_active \<Rightarrow> js ''active'' | Invite_revoked \<Rightarrow> js ''revoked'')) = Some (inv_status r)"
    "nullOrText (jnullable JStr (inv_expiresAt r)) = Some (inv_expiresAt r)"
    "nullOrText (jnullable JStr (inv_lastAuthorizedOperationDigest r)) = Some (inv_lastAuthorizedOperationDigest r)"
    "readStoredPolicy (encodePolicy (inv_policy r)) = Some (inv_policy r)"
    using assms
    by (auto simp: wfInvite_def nonemptyText_def readStoredPolicy_encode readStatus_def
        intro!: nullOrText_jnullable split: inviteStatus.split)
  have gen: "readGeneration (case inv_removalGeneration r of None \<Rightarrow> JUndef | Some n \<Rightarrow> jnat n) = inv_removalGeneration r"
    using assms by (cases "inv_removalGeneration r") (auto simp: wfInvite_def readGeneration_jnat, simp add: readGeneration_def)
  have "\<not> (case inv_expiresAt r of None \<Rightarrow> False | Some e \<Rightarrow> dp e = None)"
    using assms by (auto simp: wfInvite_def split: option.splits)
  then show ?thesis
    using parts gen encodeInvite_props[of r] unfolding ps readInviteRecord_def by simp
qed

lemma readInviteRecord_wf:
  assumes "readInviteRecord dp v = Some r"
  shows "wfInvite dp r"
proof -
  obtain p ps where "v = JObj p ps" using assms by (cases v) (simp_all add: readInviteRecord_def)
  then obtain roomId owner digest status expiry operation policy where
    "nonemptyText (getProp v (js ''roomId'')) = Some roomId" "nonemptyText (getProp v (js ''creatorOwnerId'')) = Some owner"
    "nonemptyText (getProp v (js ''inviteRefDigest'')) = Some digest" "nullOrText (getProp v (js ''expiresAt'')) = Some expiry"
    "\<not> (case expiry of None \<Rightarrow> False | Some e \<Rightarrow> dp e = None)"
    "nullOrText (getProp v (js ''lastAuthorizedOperationDigest'')) = Some operation"
    "readStoredPolicy (getProp v (js ''policy'')) = Some policy"
    and r: "r = \<lparr>inv_roomId = roomId, inv_creatorOwnerId = owner, inv_inviteRefDigest = digest,
      inv_removalGeneration = readGeneration (getProp v (js ''removalGeneration'')), inv_policy = policy, inv_status = status,
      inv_expiresAt = expiry, inv_lastAuthorizedOperationDigest = operation\<rparr>"
    using assms unfolding readInviteRecord_def
    by (simp add: bind_eq_Some_conv del: getProp.simps split: if_splits) blast
  then have "roomId \<noteq> []" "owner \<noteq> []" "digest \<noteq> []" "expiry \<noteq> Some []" "operation \<noteq> Some []" "wfPolicy policy"
    "\<And>e. expiry = Some e \<Longrightarrow> dp e \<noteq> None"
    by (auto simp: nonemptyText_iff dest: nullOrText_wf readStoredPolicy_wf)
  then show ?thesis unfolding r wfInvite_def using readGeneration_safe by auto
qed

end
