(* ===== verification/StorePort.thy ===== *)
theory StorePort
  imports StoreProperties InvitePolicy
begin

text \<open>
  The \<open>ControlStore\<close> port as its clients see it, and the helpers every client shares
  (\<^verbatim>\<open>apps/control/src/invitations/internal.ts\<close>): purpose-separated digests, the origin check, the
  current principal, and reads and writes that turn a failing store into a result. The port's laws are
  the locales \<open>applied_port\<close> (any provider) and \<open>serial_store\<close> (a quiet machine); both are interpreted on
  the adapter of theory \<open>ControlStore\<close>. HMAC, URL parsing and the identity provider are parameters.
\<close>

section \<open>The port\<close>

record 'w controlStore =
  cs_read :: "ustring \<Rightarrow> ('w, controlRead) act"
  cs_compareAndSet :: "compareAndSetInput \<Rightarrow> ('w, writeResult) act"
  cs_resolve :: "ustring \<Rightarrow> ustring \<Rightarrow> ('w, resolveResult) act"

definition createControlStore :: "'w controlDeps \<Rightarrow> 'w controlStore" where
  "createControlStore deps =
     \<lparr>cs_read = storeRead deps, cs_compareAndSet = compareAndSet deps, cs_resolve = storeResolve deps\<rparr>"

section \<open>Digests\<close>

text \<open>\<open>hmac key text\<close> is the base64url SHA-256 HMAC. The secret is given as its bytes.\<close>

record digests =
  dg_token :: "ustring \<Rightarrow> ustring"
  dg_inviteKey :: "ustring \<Rightarrow> ustring"
  dg_inviteRef :: "ustring \<Rightarrow> ustring"
  dg_operation :: "ustring \<Rightarrow> ustring"
  dg_personal :: "ustring \<Rightarrow> ustring \<Rightarrow> nat \<Rightarrow> ustring"
  dg_personalKey :: "ustring \<Rightarrow> ustring \<Rightarrow> ustring"
  dg_email :: "ustring \<Rightarrow> ustring"

definition purposeDigest :: "(nat list \<Rightarrow> ustring \<Rightarrow> ustring) \<Rightarrow> nat list \<Rightarrow> string \<Rightarrow> ustring \<Rightarrow> ustring" where
  "purposeDigest hmac secret purpose value = hmac secret (js purpose @ [0] @ value)"

definition createDigests :: "(nat list \<Rightarrow> ustring \<Rightarrow> ustring) \<Rightarrow> nat list \<Rightarrow> jsval + digests" where
  "createDigests hmac secret =
     (if length secret < 32 then Inl (JStr (js ''invitation secret must contain at least 32 bytes''))
      else let digest = purposeDigest hmac secret in
        Inr \<lparr>dg_token = (\<lambda>operationId. js ''inv_'' @ digest ''invite-token'' operationId),
             dg_inviteKey = (\<lambda>inviteRef. js ''invitations.invite.'' @ digest ''invite-key'' inviteRef),
             dg_inviteRef = (\<lambda>inviteRef. digest ''invite-reference'' inviteRef),
             dg_operation = (\<lambda>operationId. digest ''operation'' operationId),
             dg_personal = (\<lambda>ownerId roomId generation.
               js ''personal_'' @ digest ''personal-link'' (ownerId @ [0] @ roomId @ [0] @ dec_digits generation)),
             dg_personalKey = (\<lambda>ownerId roomId.
               js ''invitations.personal.'' @ digest ''personal-pointer'' (ownerId @ [0] @ roomId)),
             dg_email = (\<lambda>email. digest ''named-email'' email)\<rparr>)"

section \<open>Origins\<close>

text \<open>\<open>parseUrl s = None\<close> is the \<open>TypeError\<close> of \<open>new URL(s)\<close>.\<close>

definition loopbackHosts :: "ustring list" where
  "loopbackHosts = map js [''localhost'', ''127.0.0.1'', ''[::1]'']"

definition validateOrigin :: "(ustring \<Rightarrow> urlParts option) \<Rightarrow> ustring \<Rightarrow> ustring list \<Rightarrow> jsval + ustring" where
  "validateOrigin parseUrl origin allowedOrigins = (case parseUrl origin of
     None \<Rightarrow> Inl (JStr (js ''invitation origin must be a valid allowlisted origin''))
   | Some parsed \<Rightarrow>
       if url_username parsed \<noteq> [] \<or> url_password parsed \<noteq> [] \<or> url_pathname parsed \<noteq> js ''/''
         \<or> url_search parsed \<noteq> [] \<or> url_hash parsed \<noteq> []
         \<or> \<not> (url_protocol parsed = js ''https:''
              \<or> (url_protocol parsed = js ''http:'' \<and> url_hostname parsed \<in> set loopbackHosts))
       then Inl (JStr (js ''invitation origin must be a valid allowlisted origin''))
       else
         let allowlist = map (\<lambda>value. case parseUrl value of None \<Rightarrow> [] | Some u \<Rightarrow> url_origin u) allowedOrigins in
         if url_origin parsed \<notin> set allowlist then Inl (JStr (js ''invitation origin must be allowlisted''))
         else Inr (url_origin parsed))"

section \<open>Principal, reads and writes\<close>

datatype identityState = Signed_in authPrincipal | Signed_out | Identity_unavailable

datatype principalState = Is_signed_in authPrincipal | Is_auth_required | Is_unavailable

definition currentPrincipal :: "('w, identityState) act \<Rightarrow> ('w, principalState) act" where
  "currentPrincipal current =
     tryS current
       (\<lambda>state. retS (case state of
            Signed_in who \<Rightarrow> Is_signed_in who
          | Signed_out \<Rightarrow> Is_auth_required
          | Identity_unavailable \<Rightarrow> Is_unavailable))
       (\<lambda>error. retS Is_unavailable)"

definition safeRead :: "'w controlStore \<Rightarrow> ustring \<Rightarrow> ('w, controlRead) act" where
  "safeRead store key = catchS (cs_read store key) (\<lambda>error. retS Read_unavailable)"

definition writeAndResolve :: "'w controlStore \<Rightarrow> compareAndSetInput \<Rightarrow> ('w, writeResult) act" where
  "writeAndResolve store input =
     tryS (cs_compareAndSet store input)
       (\<lambda>result. case result of
          W_outcome_unknown u \<Rightarrow>
            tryS (cs_resolve store (ci_key input) (ci_operationId input))
              (\<lambda>resolved. case resolved of
                 Res_applied r \<Rightarrow> retS (W_applied r)
               | Res_not_applied \<Rightarrow> catchS (cs_compareAndSet store input) (\<lambda>error. retS result)
               | _ \<Rightarrow> retS result)
              (\<lambda>error. retS result)
        | _ \<Rightarrow> retS result)
       (\<lambda>error. retS (W_outcome_unknown (ci_operationId input)))"

text \<open>Property access on a stored value: \<open>null\<close> throws.\<close>

definition typeError :: jsval where
  "typeError = JObj False [(js ''name'', JStr (js ''TypeError''))]"

definition fieldOf :: "jsval \<Rightarrow> string \<Rightarrow> ('w, jsval) act" where
  "fieldOf v k = (if v = JNull \<or> v = JUndef then throwS typeError else retS (getProp v (js k)))"

definition revisionOf :: "controlRead \<Rightarrow> ustring option" where
  "revisionOf r = (case r of Read_record record \<Rightarrow> Some (cr_revision record) | _ \<Rightarrow> None)"

section \<open>Lemmas\<close>

lemma nothrow_safeRead [simp]: "nothrow (safeRead store key)"
  unfolding safeRead_def catchS_def by (intro nothrow_try) simp_all

lemma nothrow_writeAndResolve [simp]: "nothrow (writeAndResolve store input)"
  unfolding writeAndResolve_def catchS_def
  by (intro nothrow_try) (auto intro!: nothrow_try split: writeResult.split resolveResult.split)

lemma nothrow_currentPrincipal [simp]: "nothrow (currentPrincipal current)"
  unfolding currentPrincipal_def by (intro nothrow_try) simp_all

lemma purpose_prefix:
  assumes "js p @ [0] @ x = js q @ [0] @ y" and "0 \<notin> set (js p)" and "0 \<notin> set (js q)"
  shows "p = q \<and> x = y"
proof -
  have split: "takeWhile (\<lambda>c. c \<noteq> 0) (s @ [0] @ z) = s" "dropWhile (\<lambda>c. c \<noteq> 0) (s @ [0] @ z) = [0] @ z"
    if "0 \<notin> set s" for s z :: ustring
  proof -
    have "\<And>c. c \<in> set s \<Longrightarrow> c \<noteq> 0" using that by auto
    then show "takeWhile (\<lambda>c. c \<noteq> 0) (s @ [0] @ z) = s" "dropWhile (\<lambda>c. c \<noteq> 0) (s @ [0] @ z) = [0] @ z"
      by (simp_all add: takeWhile_append2 dropWhile_append2)
  qed
  have "js p = js q" using split(1)[OF assms(2), of x] split(1)[OF assms(3), of y] assms(1) by simp
  moreover have "[0] @ x = [0] @ y" using split(2)[OF assms(2), of x] split(2)[OF assms(3), of y] assms(1) by simp
  ultimately show ?thesis by simp
qed

section \<open>The port's laws\<close>

text \<open>What \<open>applied\<close> promises, for every provider.\<close>

locale applied_port =
  fixes store :: "'w controlStore"
  assumes applied_write: "cs_compareAndSet store input w = (Inr (W_applied r), w') \<Longrightarrow>
      cr_key r = ci_key input \<and> sameWrite (Some r) (ci_operationId input) (ci_value input) (ci_expiresAt input)"
    and resolved_write: "cs_resolve store key operationId w = (Inr (Res_applied r), w') \<Longrightarrow>
      cr_key r = key \<and> cr_operationId r = operationId"
begin

lemma writeAndResolve_applied:
  assumes "writeAndResolve store input w = (Inr (W_applied r), w')"
  shows "cr_key r = ci_key input \<and> cr_operationId r = ci_operationId input"
  using assms unfolding writeAndResolve_def catchS_def tryS_def
  by (auto dest!: applied_write resolved_write simp: sameWrite_def retS_def
      split: sum.splits prod.splits writeResult.splits resolveResult.splits)

end

interpretation adapter: applied_port "createControlStore deps" for deps
proof
  fix input r and w w'
  assume "cs_compareAndSet (createControlStore deps) input w = (Inr (W_applied r), w')"
  then have "appliedOk deps input (W_applied r)"
    using tripleD(1)[OF triple_compareAndSet[of deps input] TrueI] by (simp add: createControlStore_def)
  then show "cr_key r = ci_key input \<and> sameWrite (Some r) (ci_operationId input) (ci_value input) (ci_expiresAt input)"
    using observed_record[of deps "ci_key input" r] by (auto simp: appliedOk_def)
next
  fix key operationId r and w w'
  assume "cs_resolve (createControlStore deps) key operationId w = (Inr (Res_applied r), w')"
  then have "storeResolve deps key operationId w = (Inr (Res_applied r), w')" by (simp add: createControlStore_def)
  then obtain c v where c: "readLive deps key w = (Inr c, v)"
    and r: "(lr_live c = Some r \<and> cr_operationId r = operationId)
      \<or> (\<exists>e. lr_live c = None \<and> lr_envelope c = Some e \<and> se_operationId e = operationId \<and>
           r = toRecord key (case lr_raw c of None \<Rightarrow> None | Some b \<Rightarrow> bl_etag b) e)"
    by (auto simp: storeResolve_def tryS_def split: prod.splits sum.splits option.splits if_splits)
  show "cr_key r = key \<and> cr_operationId r = operationId"
    using r observed_record[of deps key r] c by (auto simp: observed_def toRecord_def)
qed

text \<open>A quiet machine: a map from keys to live records, written under fresh operation identifiers. The values are
  JSON without expiry and the keys need no escaping.\<close>

definition usableInput :: "compareAndSetInput \<Rightarrow> bool" where
  "usableInput i \<longleftrightarrow> isSafeKey (ci_key i) \<and> isSafeKey (ci_operationId i) \<and> ci_expiresAt i = None
     \<and> isJsonValue 0 (ci_value i) \<and> wf_js (ci_value i)"

text \<open>The same with an expiry: what may be written is a live record.\<close>

definition storableInput :: "compareAndSetInput \<Rightarrow> bool" where
  "storableInput i \<longleftrightarrow> isSafeKey (ci_key i) \<and> isSafeKey (ci_operationId i) \<and> isJsonValue 0 (ci_value i) \<and> wf_js (ci_value i)"

locale serial_store =
  fixes store :: "'w controlStore" and quiet :: "'w \<Rightarrow> bool" and view :: "'w \<Rightarrow> ustring \<rightharpoonup> controlRecord"
    and unused :: "'w \<Rightarrow> ustring \<Rightarrow> bool" and moment :: "'w \<Rightarrow> int"
  assumes read_view: "quiet w \<Longrightarrow> isSafeKey k \<Longrightarrow>
      cs_read store k w = (Inr (case view w k of None \<Rightarrow> Read_absent | Some r \<Rightarrow> Read_record r), w)"
    and cas_view: "quiet w \<Longrightarrow> usableInput i \<Longrightarrow> unused w (ci_operationId i) \<Longrightarrow> \<exists>e w'. e \<noteq> [] \<and> quiet w'
      \<and> moment w' = moment w \<and> (\<forall>u. u \<noteq> ci_operationId i \<longrightarrow> unused w' u = unused w u)
      \<and> (if ci_expectedRevision i = map_option cr_revision (view w (ci_key i))
         then cs_compareAndSet store i w = (Inr (W_applied (newRecord i e)), w') \<and> view w' = (view w)(ci_key i \<mapsto> newRecord i e)
         else cs_compareAndSet store i w = (Inr (W_conflict (view w (ci_key i))), w') \<and> view w' = view w)"
begin

lemma cas_applies:
  assumes "quiet w" "usableInput i" "unused w (ci_operationId i)" "ci_expectedRevision i = map_option cr_revision (view w (ci_key i))"
  shows "\<exists>e w'. quiet w' \<and> moment w' = moment w \<and> (\<forall>u. u \<noteq> ci_operationId i \<longrightarrow> unused w' u = unused w u)
    \<and> cs_compareAndSet store i w = (Inr (W_applied (newRecord i e)), w') \<and> view w' = (view w)(ci_key i \<mapsto> newRecord i e)"
  using cas_view[OF assms(1-3)] assms(4) by auto

end

locale expiring_store = serial_store store quiet view unused moment
  for store :: "'w controlStore" and quiet :: "'w \<Rightarrow> bool" and view :: "'w \<Rightarrow> ustring \<rightharpoonup> controlRecord"
    and unused :: "'w \<Rightarrow> ustring \<Rightarrow> bool" and moment :: "'w \<Rightarrow> int" +
  fixes parse :: "ustring \<Rightarrow> int option"
  assumes cas_expiring: "quiet w \<Longrightarrow> storableInput i \<Longrightarrow> isRecordLive parse (ci_expiresAt i) (moment w)
      \<Longrightarrow> unused w (ci_operationId i) \<Longrightarrow> \<exists>e w'. e \<noteq> [] \<and> quiet w'
      \<and> moment w' = moment w \<and> (\<forall>u. u \<noteq> ci_operationId i \<longrightarrow> unused w' u = unused w u)
      \<and> (if ci_expectedRevision i = map_option cr_revision (view w (ci_key i))
         then cs_compareAndSet store i w = (Inr (W_applied (newRecord i e)), w') \<and> view w' = (view w)(ci_key i \<mapsto> newRecord i e)
         else cs_compareAndSet store i w = (Inr (W_conflict (view w (ci_key i))), w') \<and> view w' = view w)"
begin

lemma live_cas_applies:
  assumes "quiet w" "storableInput i" "isRecordLive parse (ci_expiresAt i) (moment w)" "unused w (ci_operationId i)"
    "ci_expectedRevision i = map_option cr_revision (view w (ci_key i))"
  shows "\<exists>e w'. quiet w' \<and> moment w' = moment w \<and> (\<forall>u. u \<noteq> ci_operationId i \<longrightarrow> unused w' u = unused w u)
    \<and> cs_compareAndSet store i w = (Inr (W_applied (newRecord i e)), w') \<and> view w' = (view w)(ci_key i \<mapsto> newRecord i e)"
  using cas_expiring[OF assms(1-4)] assms(5) by auto

end

text \<open>The local store on a machine where every stored record decodes, every ledger entry decodes, and every record's
  operation is claimed.\<close>

definition localLive :: "localEnv \<Rightarrow> (ustring \<Rightarrow> int option) \<Rightarrow> (rat \<Rightarrow> ustring) \<Rightarrow> fsWorld \<Rightarrow> ustring \<Rightarrow> liveRead" where
  "localLive env pd nt w key = interpretRaw (localDeps env pd nt) key (localRecords env w key) False (fs_now w)"

definition localView :: "localEnv \<Rightarrow> (ustring \<Rightarrow> int option) \<Rightarrow> (rat \<Rightarrow> ustring) \<Rightarrow> fsWorld \<Rightarrow> ustring \<rightharpoonup> controlRecord" where
  "localView env pd nt w key = lr_live (localLive env pd nt w key)"

definition soundMachine :: "localEnv \<Rightarrow> (ustring \<Rightarrow> int option) \<Rightarrow> (rat \<Rightarrow> ustring) \<Rightarrow> fsWorld \<Rightarrow> bool" where
  "soundMachine env pd nt w \<longleftrightarrow> quietMachine w \<and> (\<forall>key. \<not> lr_corrupt (localLive env pd nt w key))
     \<and> (\<forall>u. localLedger env w u = None \<or> claimOf (localLedger env w u) \<noteq> None)
     \<and> (\<forall>key r. localView env pd nt w key = Some r \<longrightarrow> localLedger env w (cr_operationId r) \<noteq> None)"

context ideal_local_store
begin

lemma cas_sound:
  assumes sound: "soundMachine env parseDate numberText w" and i: "storableInput i"
    and unexpired: "isRecordLive parseDate (ci_expiresAt i) (fs_now w)"
    and new: "localLedger env w (ci_operationId i) = None"
  shows "\<exists>e w'. e \<noteq> [] \<and> soundMachine env parseDate numberText w' \<and> fs_now w' = fs_now w
    \<and> (\<forall>u. u \<noteq> ci_operationId i \<longrightarrow> (localLedger env w' u = None) = (localLedger env w u = None))
    \<and> (if ci_expectedRevision i = map_option cr_revision (localView env parseDate numberText w (ci_key i))
       then compareAndSet (localDeps env parseDate numberText) i w = (Inr (W_applied (newRecord i e)), w')
         \<and> localView env parseDate numberText w' = (localView env parseDate numberText w)(ci_key i \<mapsto> newRecord i e)
       else compareAndSet (localDeps env parseDate numberText) i w = (Inr (W_conflict (localView env parseDate numberText w (ci_key i))), w')
         \<and> localView env parseDate numberText w' = localView env parseDate numberText w)"
proof -
  let ?k = "ci_key i" and ?op = "ci_operationId i" and ?v = "localView env parseDate numberText"
  let ?live = "localLive env parseDate numberText"
  have at: "liveAt v k = ?live v k" for v k by (simp add: liveAt_def localLive_def)
  have q: "quietMachine w" and safe: "isSafeKey ?k" "isSafeKey ?op" and json: "isJsonValue 0 (ci_value i)" "wf_js (ci_value i)"
    and ok: "\<not> lr_corrupt (liveAt w ?k)"
    and dec: "localLedger env w ?op = None \<or> claimOf (localLedger env w ?op) \<noteq> None"
    using sound i new by (auto simp: soundMachine_def storableInput_def at)
  have op: "?op \<noteq> []" using safe(2) by (simp add: isSafeKey_def)
  have other: "\<not> sameWrite (?v w ?k) ?op (ci_value i) (ci_expiresAt i)"
  proof (cases "?v w ?k")
    case (Some r)
    then have "localLedger env w (cr_operationId r) \<noteq> None" using sound unfolding soundMachine_def by blast
    then show ?thesis using Some new by (auto simp: sameWrite_def)
  qed (simp add: sameWrite_def)
  have spec: "specCas (claimOf (localLedger env w ?op)) (?v w ?k) True dig i e
    = (if map_option cr_revision (?v w ?k) \<noteq> ci_expectedRevision i
       then (W_conflict (?v w ?k), False) else (W_applied (newRecord i e), True))" for dig e
    using new other by (simp add: specCas_def claimOf_def)
  have live: "isRecordLive (dateParse (localDeps env parseDate numberText)) (ci_expiresAt i) t" if "t = fs_now w" for t
    using unexpired that by simp
  obtain w' e where w': "quietMachine w'" "e \<noteq> []" "fs_now w' = fs_now w"
    "compareAndSet (localDeps env parseDate numberText) i w
      = (Inr (if map_option cr_revision (?v w ?k) \<noteq> ci_expectedRevision i then W_conflict (?v w ?k) else W_applied (newRecord i e)), w')"
    "localRecords env w' = (if map_option cr_revision (?v w ?k) \<noteq> ci_expectedRevision i then localRecords env w
      else (localRecords env w)(?k \<mapsto> \<lparr>bl_data = encodeEnvelope \<lparr>se_operationId = ?op, se_value = ci_value i,
        se_expiresAt = ci_expiresAt i\<rparr>, bl_etag = Some e\<rparr>))"
    "claimOf (localLedger env w' ?op) \<noteq> None" "\<forall>u. u \<noteq> ?op \<longrightarrow> localLedger env w' u = localLedger env w u"
  proof -
    have none: "claimOf (localLedger env w ?op) = None" by (simp add: new claimOf_def)
    from compareAndSet_quiet[OF q safe dec ok json] obtain w' e where "quietMachine w'" "e \<noteq> []" "fs_now w' = fs_now w"
      and run: "compareAndSet (localDeps env parseDate numberText) i w = (Inr (fst (specCas (claimOf (localLedger env w ?op))
        (?v w ?k) True (digestOf (numText (localDeps env parseDate numberText)) (ci_value i) (ci_expiresAt i)) i e)), w')"
      and recs: "localRecords env w' = (if snd (specCas (claimOf (localLedger env w ?op)) (?v w ?k) True
          (digestOf (numText (localDeps env parseDate numberText)) (ci_value i) (ci_expiresAt i)) i e)
        then (localRecords env w)(?k \<mapsto> \<lparr>bl_data = encodeEnvelope \<lparr>se_operationId = ?op, se_value = ci_value i,
          se_expiresAt = ci_expiresAt i\<rparr>, bl_etag = Some e\<rparr>) else localRecords env w)"
      and "claimOf (localLedger env w' ?op) \<noteq> None" "\<forall>u. u \<noteq> ?op \<longrightarrow> localLedger env w' u = localLedger env w u"
      unfolding at localView_def[symmetric] using live none by auto
    then show ?thesis by (intro that[of w' e]) (auto simp: spec)
  qed
  have same: "?live w' u = ?live w u" if "localRecords env w' u = localRecords env w u" for u
    using that w'(3) by (simp add: localLive_def)
  have stored: "?v w' ?k = Some (newRecord i e) \<and> \<not> lr_corrupt (?live w' ?k)"
    if "map_option cr_revision (?v w ?k) = ci_expectedRevision i"
    using liveAt_stored[of w' i e] that w'(2,5) op json(1) live[OF w'(3)] w'(3) by (simp add: at localView_def)
  have view: "?v w' = (if map_option cr_revision (?v w ?k) \<noteq> ci_expectedRevision i then ?v w else (?v w)(?k \<mapsto> newRecord i e))"
    using stored same w'(5) by (auto simp: fun_eq_iff localView_def)
  have "\<not> lr_corrupt (?live w' u)" for u
    using stored same[of u] w'(5) sound by (cases "u = ?k"; cases "map_option cr_revision (?v w ?k) = ci_expectedRevision i")
      (auto simp: soundMachine_def)
  moreover have "localLedger env w' u = None \<or> claimOf (localLedger env w' u) \<noteq> None" for u
    using w'(6,7) sound by (cases "u = ?op") (auto simp: soundMachine_def)
  moreover have "localLedger env w' (cr_operationId r) \<noteq> None" if "?v w' u = Some r" for u r
  proof (cases "cr_operationId r = ?op")
    case True
    then show ?thesis using w'(6) by (cases "localLedger env w' ?op") (simp_all add: claimOf_def)
  next
    case False
    then have "?v w u = Some r" using that unfolding view by (auto simp: newRecord_def split: if_splits)
    then have "localLedger env w (cr_operationId r) \<noteq> None" using sound unfolding soundMachine_def by blast
    then show ?thesis using False w'(7) by simp
  qed
  ultimately have "soundMachine env parseDate numberText w'" using w'(1) by (simp add: soundMachine_def)
  then show ?thesis using w' view by (intro exI[of _ e] exI[of _ w']) auto
qed

end

sublocale ideal_local_store \<subseteq> serial: expiring_store "createControlStore (localDeps env parseDate numberText)"
  "soundMachine env parseDate numberText" "localView env parseDate numberText" "\<lambda>w u. localLedger env w u = None" fs_now parseDate
proof unfold_locales
  fix w k
  assume "soundMachine env parseDate numberText w" "isSafeKey k"
  then show "cs_read (createControlStore (localDeps env parseDate numberText)) k w
      = (Inr (case localView env parseDate numberText w k of None \<Rightarrow> Read_absent | Some r \<Rightarrow> Read_record r), w)"
    using storeRead_quiet[of w k] by (simp add: createControlStore_def soundMachine_def localView_def localLive_def liveAt_def)
next
  fix w i
  assume "soundMachine env parseDate numberText w" "usableInput i" "localLedger env w (ci_operationId i) = None"
  then show "\<exists>e w'. e \<noteq> [] \<and> soundMachine env parseDate numberText w'
      \<and> fs_now w' = fs_now w \<and> (\<forall>u. u \<noteq> ci_operationId i \<longrightarrow> (localLedger env w' u = None) = (localLedger env w u = None))
      \<and> (if ci_expectedRevision i = map_option cr_revision (localView env parseDate numberText w (ci_key i))
         then cs_compareAndSet (createControlStore (localDeps env parseDate numberText)) i w = (Inr (W_applied (newRecord i e)), w')
           \<and> localView env parseDate numberText w' = (localView env parseDate numberText w)(ci_key i \<mapsto> newRecord i e)
         else cs_compareAndSet (createControlStore (localDeps env parseDate numberText)) i w
             = (Inr (W_conflict (localView env parseDate numberText w (ci_key i))), w')
           \<and> localView env parseDate numberText w' = localView env parseDate numberText w)"
    using cas_sound[of w i] unfolding createControlStore_def controlStore.simps
    by (simp add: usableInput_def storableInput_def isRecordLive_def)
next
  fix w i
  assume "soundMachine env parseDate numberText w" "storableInput i" "isRecordLive parseDate (ci_expiresAt i) (fs_now w)"
    "localLedger env w (ci_operationId i) = None"
  from cas_sound[OF this] show "\<exists>e w'. e \<noteq> [] \<and> soundMachine env parseDate numberText w'
      \<and> fs_now w' = fs_now w \<and> (\<forall>u. u \<noteq> ci_operationId i \<longrightarrow> (localLedger env w' u = None) = (localLedger env w u = None))
      \<and> (if ci_expectedRevision i = map_option cr_revision (localView env parseDate numberText w (ci_key i))
         then cs_compareAndSet (createControlStore (localDeps env parseDate numberText)) i w = (Inr (W_applied (newRecord i e)), w')
           \<and> localView env parseDate numberText w' = (localView env parseDate numberText w)(ci_key i \<mapsto> newRecord i e)
         else cs_compareAndSet (createControlStore (localDeps env parseDate numberText)) i w
             = (Inr (W_conflict (localView env parseDate numberText w (ci_key i))), w')
           \<and> localView env parseDate numberText w' = localView env parseDate numberText w)"
    unfolding createControlStore_def controlStore.simps .
qed

context ideal_local_store
begin

lemma is_serial_store: "serial_store (createControlStore (localDeps env parseDate numberText))
  (soundMachine env parseDate numberText) (localView env parseDate numberText) (\<lambda>w u. localLedger env w u = None) fs_now"
  by unfold_locales

lemma is_expiring_store: "expiring_store (createControlStore (localDeps env parseDate numberText))
  (soundMachine env parseDate numberText) (localView env parseDate numberText) (\<lambda>w u. localLedger env w u = None) fs_now parseDate"
  by unfold_locales

end

lemma emptyWorld_sound: "soundMachine env pd nt emptyWorld" "localView env pd nt emptyWorld k = None"
  by (simp_all add: soundMachine_def emptyWorld_ok localView_def localLive_def interpretRaw_def)

end
