(* ===== verification/Membership.thy ===== *)
theory Membership
  imports StorePort
begin

text \<open>
  Who has been removed from a channel, and the leases and settings around it
  (\<^verbatim>\<open>apps/control/src/invitations/removals.ts\<close>, \<^verbatim>\<open>membership-lock.ts\<close>, \<^verbatim>\<open>approve-joins.ts\<close>). The records
  are kept as the JSON values the store holds, as the code does: a spread keeps properties the reader does not
  know. Owner identifiers are \<open>own_\<dots>\<close> tokens, never the name of a member of \<open>Object.prototype\<close>, so that an
  index into \<open>owners\<close> finds own properties only.
\<close>

record 'w memberEnv =
  me_store :: "'w controlStore"
  me_sha256 :: "ustring \<Rightarrow> ustring"
  me_uuid :: "'w \<Rightarrow> ustring \<times> 'w"
  me_now :: "'w \<Rightarrow> int"
  me_toNumber :: "jsval \<Rightarrow> jsnum"

definition randomUUID :: "'w memberEnv \<Rightarrow> ('w, ustring) act" where
  "randomUUID env w = (case me_uuid env w of (u, w') \<Rightarrow> (Inr u, w'))"

section \<open>Removals\<close>

definition isPositiveGeneration :: "jsval \<Rightarrow> bool" where
  "isPositiveGeneration v = (case readGeneration v of None \<Rightarrow> False | Some n \<Rightarrow> 0 < n)"

definition generationOf :: "jsval \<Rightarrow> nat" where
  "generationOf v = (case readGeneration (getProp v (js ''generation'')) of None \<Rightarrow> 0 | Some n \<Rightarrow> n)"

definition isStr :: "jsval \<Rightarrow> bool" where
  "isStr v = (case v of JStr _ \<Rightarrow> True | _ \<Rightarrow> False)"

definition isBool :: "jsval \<Rightarrow> bool" where
  "isBool v = (case v of JBool _ \<Rightarrow> True | _ \<Rightarrow> False)"

definition validRemovalEntry :: "nat \<Rightarrow> jsval \<Rightarrow> bool" where
  "validRemovalEntry roomGeneration entry \<longleftrightarrow>
     isPositiveGeneration (getProp entry (js ''generation'')) \<and> generationOf entry \<le> roomGeneration
     \<and> isStr (getProp entry (js ''label'')) \<and> isBool (getProp entry (js ''complete''))
     \<and> (case getProp entry (js ''agents'') of JArr agents \<Rightarrow> list_all isStr agents | _ \<Rightarrow> False)"

definition validRemovals :: "jsval \<Rightarrow> bool" where
  "validRemovals value = (case value of
     JObj plain ps \<Rightarrow>
       getProp value (js ''v'') = jnat 1 \<and> isStr (getProp value (js ''creatorOwnerId''))
       \<and> isPositiveGeneration (getProp value (js ''generation''))
       \<and> (case getProp value (js ''owners'') of
            JObj _ owners \<Rightarrow> list_all (\<lambda>(k, entry). validRemovalEntry (generationOf value) entry) owners
          | _ \<Rightarrow> False)
   | _ \<Rightarrow> False)"

definition removalsKey :: "'w memberEnv \<Rightarrow> ustring \<Rightarrow> ustring" where
  "removalsKey env roomId = js ''channel.removals.v1.'' @ me_sha256 env roomId"

text \<open>\<open>Inl ()\<close> is \<open>'unavailable'\<close>.\<close>

definition readRoomRemovals :: "'w controlStore \<Rightarrow> (ustring \<Rightarrow> ustring) \<Rightarrow> ustring \<Rightarrow> ('w, unit + jsval option) act" where
  "readRoomRemovals store hash roomId =
     tryS (cs_read store (js ''channel.removals.v1.'' @ hash roomId))
       (\<lambda>read. retS (case read of
            Read_absent \<Rightarrow> Inr None
          | Read_unavailable \<Rightarrow> Inl ()
          | Read_record r \<Rightarrow> if validRemovals (cr_value r) then Inr (Some (cr_value r)) else Inl ()))
       (\<lambda>error. retS (Inl ()))"

definition ownerEntry :: "jsval \<Rightarrow> ustring \<Rightarrow> jsval option" where
  "ownerEntry removals ownerId = (case getProp (getProp removals (js ''owners'')) ownerId of
     JUndef \<Rightarrow> None
   | entry \<Rightarrow> Some entry)"

definition isComplete :: "jsval \<Rightarrow> bool" where
  "isComplete entry = (getProp entry (js ''complete'') = JBool True)"

definition objectProps :: "jsval \<Rightarrow> (ustring \<times> jsval) list" where
  "objectProps v = (case v of JObj _ ps \<Rightarrow> ps | _ \<Rightarrow> [])"

definition arrayItems :: "jsval \<Rightarrow> jsval list" where
  "arrayItems v = (case v of JArr xs \<Rightarrow> xs | _ \<Rightarrow> [])"

text \<open>\<open>[...new Set(xs)]\<close>: the first occurrences, in order.\<close>

definition setOrder :: "'a list \<Rightarrow> 'a list" where
  "setOrder xs = rev (remdups (rev xs))"

text \<open>The value a removal writes over the previous one; \<open>None\<close> when there is no previous record.\<close>

definition nextGeneration :: "jsval option \<Rightarrow> ustring \<Rightarrow> nat" where
  "nextGeneration previous ownerId =
     (case Option.bind previous (\<lambda>p. ownerEntry p ownerId) of
        Some pending \<Rightarrow>
          if \<not> isComplete pending then generationOf pending else (case previous of None \<Rightarrow> 0 | Some p \<Rightarrow> generationOf p) + 1
      | None \<Rightarrow> (case previous of None \<Rightarrow> 0 | Some p \<Rightarrow> generationOf p) + 1)"

definition nextRemovals :: "jsval option \<Rightarrow> ustring \<Rightarrow> ustring \<Rightarrow> ustring list \<Rightarrow> ustring \<Rightarrow> jsval" where
  "nextRemovals previous creatorOwnerId ownerId agents name =
     (let generation = nextGeneration previous ownerId;
          known = (case Option.bind previous (\<lambda>p. ownerEntry p ownerId) of
                     None \<Rightarrow> [] | Some e \<Rightarrow> arrayItems (getProp e (js ''agents'')));
          entry = JObj True [(js ''generation'', jnat generation), (js ''label'', JStr name), (js ''complete'', JBool False),
                    (js ''agents'', JArr (setOrder (known @ map JStr agents)))];
          owners = (case previous of None \<Rightarrow> [] | Some p \<Rightarrow> objectProps (getProp p (js ''owners''))) in
      JObj True [(js ''v'', jnat 1), (js ''creatorOwnerId'', JStr creatorOwnerId),
        (js ''generation'', jnat (max generation (case previous of None \<Rightarrow> 0 | Some p \<Rightarrow> generationOf p))),
        (js ''owners'', JObj True (insertProp ownerId entry owners))])"

definition falsy :: "jsval \<Rightarrow> bool" where
  "falsy v \<longleftrightarrow> v \<in> {JUndef, JNull, JBool False, JNum (Fin 0), JNum NaN, JStr []}"

text \<open>The stored value as \<open>previous\<close>: \<open>null\<close> counts as none, and \<open>owners\<close> of another falsy value throws.\<close>

definition previousOf :: "controlRead \<Rightarrow> ('w, jsval option) act" where
  "previousOf read = (case read of
     Read_record r \<Rightarrow>
       if cr_value r = JNull then retS None
       else if falsy (cr_value r) then throwS typeError
       else retS (Some (cr_value r))
   | _ \<Rightarrow> retS None)"

fun recordRemovalFrom :: "'w memberEnv \<Rightarrow> ustring \<Rightarrow> ustring \<Rightarrow> ustring \<Rightarrow> ustring list \<Rightarrow> ustring \<Rightarrow> nat \<Rightarrow> ('w, jsval option) act" where
  "recordRemovalFrom env roomId creatorOwnerId ownerId agents name 0 = retS None"
| "recordRemovalFrom env roomId creatorOwnerId ownerId agents name (Suc n) =
     bindS (cs_read (me_store env) (removalsKey env roomId)) (\<lambda>read.
     if read = Read_unavailable then retS None
     else bindS (previousOf read) (\<lambda>previous.
       if (case previous of None \<Rightarrow> False
           | Some p \<Rightarrow> \<not> validRemovals p \<or> getProp p (js ''creatorOwnerId'') \<noteq> JStr creatorOwnerId)
       then retS None
       else bindS (randomUUID env) (\<lambda>uuid.
         bindS (cs_compareAndSet (me_store env) \<lparr>ci_key = removalsKey env roomId, ci_expectedRevision = revisionOf read,
             ci_operationId = js ''channel.remove.'' @ uuid,
             ci_value = nextRemovals previous creatorOwnerId ownerId agents name, ci_expiresAt = None\<rparr>) (\<lambda>written.
         case written of
           W_applied r \<Rightarrow> retS (Some (cr_value r))
         | W_conflict _ \<Rightarrow> recordRemovalFrom env roomId creatorOwnerId ownerId agents name n
         | _ \<Rightarrow> retS None))))"

definition recordRemoval :: "'w memberEnv \<Rightarrow> ustring \<Rightarrow> ustring \<Rightarrow> ustring \<Rightarrow> ustring list \<Rightarrow> ustring \<Rightarrow> ('w, jsval option) act" where
  "recordRemoval env roomId creatorOwnerId ownerId agents name = recordRemovalFrom env roomId creatorOwnerId ownerId agents name 5"

datatype removalState = Removal_allowed | Removal_revoked | Removal_unavailable

definition removalDecision :: "jsval option \<Rightarrow> inviteRecord \<Rightarrow> ustring option \<Rightarrow> removalState" where
  "removalDecision removals invite ownerId = (case removals of
     None \<Rightarrow> Removal_allowed
   | Some rs \<Rightarrow>
       let generation = (case inv_removalGeneration invite of None \<Rightarrow> 0 | Some n \<Rightarrow> n) in
       if (case ownerEntry rs (inv_creatorOwnerId invite) of None \<Rightarrow> False | Some issuer \<Rightarrow> generation < generationOf issuer)
       then Removal_revoked
       else (case (case ownerId of None \<Rightarrow> None | Some u \<Rightarrow> if u = [] then None else ownerEntry rs u) of
           None \<Rightarrow> Removal_allowed
         | Some target \<Rightarrow>
             if \<not> isComplete target \<or> generation < generationOf target
               \<or> JStr (inv_creatorOwnerId invite) \<noteq> getProp rs (js ''creatorOwnerId'')
             then Removal_revoked else Removal_allowed))"

definition inviteRemovalState ::
  "'w controlStore \<Rightarrow> (ustring \<Rightarrow> ustring) \<Rightarrow> inviteRecord \<Rightarrow> ustring option \<Rightarrow> ('w, removalState) act" where
  "inviteRemovalState store hash invite ownerId =
     bindS (readRoomRemovals store hash (inv_roomId invite)) (\<lambda>removals.
     retS (case removals of Inl _ \<Rightarrow> Removal_unavailable | Inr rs \<Rightarrow> removalDecision rs invite ownerId))"

text \<open>\<open>{ ...object, [key]: value }\<close>\<close>

definition withProp :: "jsval \<Rightarrow> ustring \<Rightarrow> jsval \<Rightarrow> jsval" where
  "withProp v k x = JObj True (insertProp k x (objectProps v))"

definition completedRemovals :: "jsval \<Rightarrow> ustring \<Rightarrow> jsval \<Rightarrow> jsval" where
  "completedRemovals current ownerId entry =
     withProp current (js ''owners'')
       (withProp (getProp current (js ''owners'')) ownerId (withProp entry (js ''complete'') (JBool True)))"

fun completeRemovalFrom :: "'w memberEnv \<Rightarrow> ustring \<Rightarrow> ustring \<Rightarrow> nat \<Rightarrow> nat \<Rightarrow> ('w, bool) act" where
  "completeRemovalFrom env roomId ownerId generation 0 = retS False"
| "completeRemovalFrom env roomId ownerId generation (Suc n) =
     bindS (cs_read (me_store env) (removalsKey env roomId)) (\<lambda>read.
     case read of
       Read_record r \<Rightarrow>
         if \<not> validRemovals (cr_value r) then retS False
         else (case ownerEntry (cr_value r) ownerId of
             None \<Rightarrow> retS False
           | Some entry \<Rightarrow>
               if generationOf entry \<noteq> generation then retS False
               else if isComplete entry then retS True
               else bindS (randomUUID env) (\<lambda>uuid.
                 bindS (cs_compareAndSet (me_store env) \<lparr>ci_key = removalsKey env roomId,
                     ci_expectedRevision = Some (cr_revision r), ci_operationId = js ''channel.remove.complete.'' @ uuid,
                     ci_value = completedRemovals (cr_value r) ownerId entry, ci_expiresAt = None\<rparr>) (\<lambda>result.
                 case result of
                   W_applied _ \<Rightarrow> retS True
                 | W_conflict _ \<Rightarrow> completeRemovalFrom env roomId ownerId generation n
                 | _ \<Rightarrow> retS False)))
     | _ \<Rightarrow> retS False)"

definition completeRemoval :: "'w memberEnv \<Rightarrow> ustring \<Rightarrow> ustring \<Rightarrow> nat \<Rightarrow> ('w, bool) act" where
  "completeRemoval env roomId ownerId generation = completeRemovalFrom env roomId ownerId generation 5"

section \<open>Removed agents\<close>

text \<open>\<open>JSON.stringify\<close> of two strings needs no number printer.\<close>

definition pairText :: "ustring \<Rightarrow> ustring \<Rightarrow> ustring" where
  "pairText a b = jsonText (\<lambda>_. []) (JArr [JStr a, JStr b])"

definition agentKey :: "'w memberEnv \<Rightarrow> ustring \<Rightarrow> ustring \<Rightarrow> ustring" where
  "agentKey env roomId userId = js ''channel.agent-removed.v1.'' @ me_sha256 env (pairText roomId userId)"

text \<open>The outer \<open>None\<close> is \<open>'unavailable'\<close>.\<close>

definition agentRemoved :: "'w memberEnv \<Rightarrow> ustring \<Rightarrow> ustring \<Rightarrow> ('w, bool option) act" where
  "agentRemoved env roomId userId =
     catchS (bindS (cs_read (me_store env) (agentKey env roomId userId)) (\<lambda>read.
       case read of
         Read_absent \<Rightarrow> retS (Some False)
       | Read_record r \<Rightarrow> bindS (fieldOf (cr_value r) ''removed'') (\<lambda>removed. retS (Some (removed = JBool True)))
       | Read_unavailable \<Rightarrow> retS None))
       (\<lambda>error. retS None)"

definition storedRemoved :: "controlRead \<Rightarrow> ('w, bool) act" where
  "storedRemoved read = (case read of
     Read_record r \<Rightarrow> bindS (fieldOf (cr_value r) ''removed'') (\<lambda>removed. retS (removed = JBool True))
   | _ \<Rightarrow> retS False)"

fun setAgentRemovedFrom :: "'w memberEnv \<Rightarrow> ustring \<Rightarrow> ustring \<Rightarrow> bool \<Rightarrow> nat \<Rightarrow> ('w, bool) act" where
  "setAgentRemovedFrom env roomId userId removed 0 = retS False"
| "setAgentRemovedFrom env roomId userId removed (Suc n) =
     bindS (cs_read (me_store env) (agentKey env roomId userId)) (\<lambda>read.
     if read = Read_unavailable then retS False
     else bindS (storedRemoved read) (\<lambda>current.
       if current = removed then retS True
       else bindS (randomUUID env) (\<lambda>uuid.
         bindS (cs_compareAndSet (me_store env) \<lparr>ci_key = agentKey env roomId userId, ci_expectedRevision = revisionOf read,
             ci_operationId = js ''channel.agent-removed.'' @ uuid,
             ci_value = JObj True [(js ''removed'', JBool removed)], ci_expiresAt = None\<rparr>) (\<lambda>written.
         case written of
           W_applied _ \<Rightarrow> retS True
         | W_conflict _ \<Rightarrow> setAgentRemovedFrom env roomId userId removed n
         | _ \<Rightarrow> retS False))))"

definition setAgentRemoved :: "'w memberEnv \<Rightarrow> ustring \<Rightarrow> ustring \<Rightarrow> bool \<Rightarrow> ('w, bool) act" where
  "setAgentRemoved env roomId userId removed = setAgentRemovedFrom env roomId userId removed 5"

section \<open>Approve joins\<close>

definition approveKey :: "'w memberEnv \<Rightarrow> ustring \<Rightarrow> ustring" where
  "approveKey env roomId = js ''channel.approve-joins.v1.'' @ me_sha256 env roomId"

definition approveSetting :: "bool \<Rightarrow> jsval" where
  "approveSetting on = JObj True [(js ''v'', jnat 1), (js ''on'', JBool on)]"

definition readApproveJoins :: "'w memberEnv \<Rightarrow> ustring \<Rightarrow> ('w, bool option) act" where
  "readApproveJoins env roomId =
     tryS (cs_read (me_store env) (approveKey env roomId))
       (\<lambda>read. retS (case read of
            Read_absent \<Rightarrow> Some False
          | Read_unavailable \<Rightarrow> None
          | Read_record r \<Rightarrow>
              if getProp (cr_value r) (js ''v'') = jnat 1
              then (case getProp (cr_value r) (js ''on'') of JBool on \<Rightarrow> Some on | _ \<Rightarrow> None) else None))
       (\<lambda>error. retS None)"

fun writeApproveJoinsFrom :: "'w memberEnv \<Rightarrow> ustring \<Rightarrow> bool \<Rightarrow> nat \<Rightarrow> ('w, bool) act" where
  "writeApproveJoinsFrom env roomId on 0 = retS False"
| "writeApproveJoinsFrom env roomId on (Suc n) =
     bindS (cs_read (me_store env) (approveKey env roomId)) (\<lambda>read.
     if read = Read_unavailable then retS False
     else bindS (randomUUID env) (\<lambda>uuid.
       bindS (cs_compareAndSet (me_store env) \<lparr>ci_key = approveKey env roomId, ci_expectedRevision = revisionOf read,
           ci_operationId = js ''channel.approve-joins.'' @ uuid, ci_value = approveSetting on, ci_expiresAt = None\<rparr>) (\<lambda>written.
       case written of
         W_applied _ \<Rightarrow> retS True
       | W_conflict _ \<Rightarrow> writeApproveJoinsFrom env roomId on n
       | _ \<Rightarrow> retS False)))"

definition writeApproveJoins :: "'w memberEnv \<Rightarrow> ustring \<Rightarrow> bool \<Rightarrow> ('w, bool) act" where
  "writeApproveJoins env roomId on = catchS (writeApproveJoinsFrom env roomId on 5) (\<lambda>error. retS False)"

section \<open>Membership leases\<close>

definition LEASE_MS :: int where
  "LEASE_MS = 300000"

definition leaseKey :: "'w memberEnv \<Rightarrow> ustring \<Rightarrow> ustring \<Rightarrow> ustring" where
  "leaseKey env roomId ownerId = js ''membership-lease.v1.'' @ me_sha256 env (pairText roomId ownerId)"

definition leaseRecord :: "ustring option \<Rightarrow> int \<Rightarrow> jsval" where
  "leaseRecord leaseId expiresAt = JObj True [(js ''v'', jnat 1), (js ''leaseId'', jnullable JStr leaseId),
     (js ''expiresAt'', JNum (Fin (of_int expiresAt)))]"

text \<open>\<open>v > t\<close> and \<open>v <= t\<close> for a stored value and a time.\<close>

definition numberOf :: "'w memberEnv \<Rightarrow> jsval \<Rightarrow> jsnum" where
  "numberOf env v = (case v of JNum x \<Rightarrow> x | _ \<Rightarrow> me_toNumber env v)"

fun laterThan :: "jsnum \<Rightarrow> int \<Rightarrow> bool" where
  "laterThan (Fin q) t = (of_int t < q)"
| "laterThan PosInf t = True"
| "laterThan _ t = False"

fun notLaterThan :: "jsnum \<Rightarrow> int \<Rightarrow> bool" where
  "notLaterThan (Fin q) t = (q \<le> of_int t)"
| "notLaterThan NegInf t = True"
| "notLaterThan _ t = False"

definition leaseHeld :: "'w memberEnv \<Rightarrow> jsval \<Rightarrow> ('w, bool) act" where
  "leaseHeld env value =
     bindS (fieldOf value ''v'') (\<lambda>v.
     if v \<noteq> jnat 1 then retS True
     else if getProp value (js ''leaseId'') = JNull then retS False
     else bindS (readS (me_now env)) (\<lambda>now.
       retS (laterThan (numberOf env (getProp value (js ''expiresAt''))) now)))"

definition renewLease :: "'w memberEnv \<Rightarrow> ustring \<Rightarrow> ustring \<Rightarrow> ('w, bool) act" where
  "renewLease env key leaseId =
     bindS (cs_read (me_store env) key) (\<lambda>current.
     case current of
       Read_record r \<Rightarrow>
         bindS (fieldOf (cr_value r) ''leaseId'') (\<lambda>held.
         if held \<noteq> JStr leaseId then retS False
         else bindS (readS (me_now env)) (\<lambda>now.
           if notLaterThan (numberOf env (getProp (cr_value r) (js ''expiresAt''))) now then retS False
           else bindS (randomUUID env) (\<lambda>uuid. bindS (readS (me_now env)) (\<lambda>later.
             bindS (cs_compareAndSet (me_store env) \<lparr>ci_key = key, ci_expectedRevision = Some (cr_revision r),
                 ci_operationId = js ''membership-lease.renew.'' @ uuid,
                 ci_value = leaseRecord (Some leaseId) (later + LEASE_MS), ci_expiresAt = None\<rparr>) (\<lambda>renewed.
             retS (case renewed of W_applied _ \<Rightarrow> True | _ \<Rightarrow> False))))))
     | _ \<Rightarrow> retS False)"

definition releaseLease :: "'w memberEnv \<Rightarrow> ustring \<Rightarrow> ustring \<Rightarrow> ('w, unit) act" where
  "releaseLease env key leaseId =
     catchS (bindS (cs_read (me_store env) key) (\<lambda>current.
       case current of
         Read_record r \<Rightarrow>
           bindS (fieldOf (cr_value r) ''leaseId'') (\<lambda>held.
           if held = JStr leaseId
           then bindS (cs_compareAndSet (me_store env) \<lparr>ci_key = key, ci_expectedRevision = Some (cr_revision r),
               ci_operationId = js ''membership-lease.release.'' @ leaseId, ci_value = leaseRecord None 0,
               ci_expiresAt = None\<rparr>) (\<lambda>_. retS ())
           else retS ())
       | _ \<Rightarrow> retS ()))
       (\<lambda>error. retS ())"

text \<open>\<open>None\<close> is the \<open>unavailable\<close> of the lock itself; \<open>work\<close> gets the lease's \<open>renew\<close>.\<close>

definition withMembershipLease ::
  "'w memberEnv \<Rightarrow> ustring \<Rightarrow> ustring \<Rightarrow> (('w, bool) act \<Rightarrow> ('w, 't) act) \<Rightarrow> ('w, 't option) act" where
  "withMembershipLease env roomId ownerId work =
     (let key = leaseKey env roomId ownerId in
      bindS (randomUUID env) (\<lambda>leaseId.
      bindS (cs_read (me_store env) key) (\<lambda>read.
      if read = Read_unavailable then retS None
      else bindS (case read of Read_record r \<Rightarrow> leaseHeld env (cr_value r) | _ \<Rightarrow> retS False) (\<lambda>held.
        if held then retS None
        else bindS (readS (me_now env)) (\<lambda>now.
          bindS (cs_compareAndSet (me_store env) \<lparr>ci_key = key, ci_expectedRevision = revisionOf read,
              ci_operationId = js ''membership-lease.claim.'' @ leaseId,
              ci_value = leaseRecord (Some leaseId) (now + LEASE_MS), ci_expiresAt = None\<rparr>) (\<lambda>claimed.
          case claimed of
            W_applied _ \<Rightarrow>
              finallyS (bindS (work (renewLease env key leaseId)) (\<lambda>x. retS (Some x))) (releaseLease env key leaseId)
          | _ \<Rightarrow> retS None))))))"

section \<open>Removal records\<close>

lemma getProp_withProp [simp]:
  "getProp (withProp (JObj pl ps) k x) j = (if j = k then x else getProp (JObj pl ps) j)"
  by (simp add: withProp_def objectProps_def map_of_insertProp)

lemma set_setOrder [simp]: "set (setOrder xs) = set xs"
  by (simp add: setOrder_def)

lemma list_all_insertProp:
  "list_all (\<lambda>(k, v). P v) ps \<Longrightarrow> P v \<Longrightarrow> list_all (\<lambda>(k, v). P v) (insertProp k v ps)"
  by (induction k v ps rule: insertProp.induct) (auto split: option.splits)

lemma generationOf_positive:
  "isPositiveGeneration (getProp v (js ''generation'')) \<Longrightarrow> 0 < generationOf v \<and> safeNat (generationOf v)"
  by (auto simp: isPositiveGeneration_def generationOf_def dest: readGeneration_safe split: option.splits)

lemma isPositiveGeneration_jnat: "0 < n \<Longrightarrow> safeNat n \<Longrightarrow> isPositiveGeneration (jnat n)"
  by (simp add: isPositiveGeneration_def readGeneration_jnat)

lemma generationOf_jnat: "getProp v (js ''generation'') = jnat n \<Longrightarrow> safeNat n \<Longrightarrow> generationOf v = n"
  by (simp add: generationOf_def readGeneration_jnat)

lemma validRemovalEntry_object: "validRemovalEntry n e \<Longrightarrow> \<exists>pl ps. e = JObj pl ps"
  by (cases e) (auto simp: validRemovalEntry_def isPositiveGeneration_def readGeneration_def)

lemma validRemovalEntry_mono: "validRemovalEntry n e \<Longrightarrow> n \<le> m \<Longrightarrow> validRemovalEntry m e"
  by (auto simp: validRemovalEntry_def)

text \<open>The parts of a valid record.\<close>

lemma validRemovalsE:
  assumes "validRemovals p"
  obtains pl ps creator op owners where "p = JObj pl ps" "getProp p (js ''creatorOwnerId'') = JStr creator"
    "getProp p (js ''owners'') = JObj op owners" "0 < generationOf p" "safeNat (generationOf p)"
    "list_all (\<lambda>(k, e). validRemovalEntry (generationOf p) e) owners" "getProp p (js ''v'') = jnat 1"
    "isPositiveGeneration (getProp p (js ''generation''))"
proof -
  obtain pl ps where p: "p = JObj pl ps" using assms by (cases p) (simp_all add: validRemovals_def)
  have v: "getProp p (js ''v'') = jnat 1" "isStr (getProp p (js ''creatorOwnerId''))"
    "isPositiveGeneration (getProp p (js ''generation''))"
    "case getProp p (js ''owners'') of JObj _ owners \<Rightarrow> list_all (\<lambda>(k, e). validRemovalEntry (generationOf p) e) owners | _ \<Rightarrow> False"
    using assms unfolding p validRemovals_def by (simp_all del: getProp.simps)
  obtain creator where c: "getProp p (js ''creatorOwnerId'') = JStr creator" using v(2) by (auto simp: isStr_def split: jsval.splits)
  obtain op owners where o: "getProp p (js ''owners'') = JObj op owners" using v(4) by (auto split: jsval.splits)
  show thesis using that[OF p c o] v o generationOf_positive[OF v(3)] by simp
qed

lemma validRemovalsI:
  assumes "p = JObj pl ps" "getProp p (js ''v'') = jnat 1" "isStr (getProp p (js ''creatorOwnerId''))"
    "isPositiveGeneration (getProp p (js ''generation''))" "getProp p (js ''owners'') = JObj op owners"
    "list_all (\<lambda>(k, e). validRemovalEntry (generationOf p) e) owners"
  shows "validRemovals p"
  using assms(2-) unfolding validRemovals_def assms(1) by (simp del: getProp.simps)

lemma ownerEntry_lookup:
  assumes "getProp p (js ''owners'') = JObj op owners" and "list_all (\<lambda>(k, e). validRemovalEntry n e) owners"
  shows "ownerEntry p u = map_of owners u"
proof (cases "map_of owners u")
  case (Some e)
  then have "validRemovalEntry n e" using assms(2) map_of_SomeD[OF Some] by (auto simp: list_all_iff)
  then obtain pl ps where "e = JObj pl ps" using validRemovalEntry_object by blast
  then show ?thesis using Some assms(1) by (simp add: ownerEntry_def)
qed (use assms(1) in \<open>simp add: ownerEntry_def\<close>)

lemma ownerEntry_valid:
  assumes "validRemovals p" and "ownerEntry p u = Some e"
  shows "validRemovalEntry (generationOf p) e"
proof -
  obtain op owners where o: "getProp p (js ''owners'') = JObj op owners" "list_all (\<lambda>(k, e). validRemovalEntry (generationOf p) e) owners"
    using assms(1) by (rule validRemovalsE)
  then have "map_of owners u = Some e" using assms(2) ownerEntry_lookup[OF o] by simp
  then show ?thesis using o(2) map_of_SomeD[of owners u e] by (auto simp: list_all_iff)
qed

text \<open>Properties of an entry that later steps keep.\<close>

definition entryAgents :: "jsval \<Rightarrow> jsval set" where
  "entryAgents e = set (arrayItems (getProp e (js ''agents'')))"

definition okPrevious :: "jsval option \<Rightarrow> bool" where
  "okPrevious previous = (case previous of None \<Rightarrow> True | Some p \<Rightarrow> validRemovals p)"

definition roomGeneration :: "jsval option \<Rightarrow> nat" where
  "roomGeneration previous = (case previous of None \<Rightarrow> 0 | Some p \<Rightarrow> generationOf p)"

definition entryOf :: "jsval option \<Rightarrow> ustring \<Rightarrow> jsval option" where
  "entryOf previous u = Option.bind previous (\<lambda>p. ownerEntry p u)"

lemma entryOf_valid:
  assumes "okPrevious s" and "entryOf s u = Some e"
  shows "validRemovalEntry (roomGeneration s) e" "0 < generationOf e" "generationOf e \<le> roomGeneration s"
proof -
  obtain p where p: "s = Some p" using assms(2) by (cases s) (simp_all add: entryOf_def)
  show v: "validRemovalEntry (roomGeneration s) e"
    using ownerEntry_valid[of p u e] assms by (simp add: p okPrevious_def entryOf_def roomGeneration_def)
  then show "0 < generationOf e" "generationOf e \<le> roomGeneration s"
    using generationOf_positive[of e] by (auto simp: validRemovalEntry_def)
qed

lemma nextGeneration_alt:
  "nextGeneration s u = (case entryOf s u of
     Some e \<Rightarrow> if isComplete e then roomGeneration s + 1 else generationOf e | None \<Rightarrow> roomGeneration s + 1)"
  by (auto simp: nextGeneration_def entryOf_def roomGeneration_def split: option.splits)

lemma nextGeneration_bounds:
  assumes "okPrevious s"
  shows "0 < nextGeneration s u" "\<And>e. entryOf s u = Some e \<Longrightarrow> generationOf e \<le> nextGeneration s u"
    "safeNat (nextGeneration s u) \<Longrightarrow> safeNat (max (nextGeneration s u) (roomGeneration s))"
proof -
  show "0 < nextGeneration s u" using entryOf_valid(2)[OF assms] by (auto simp: nextGeneration_alt split: option.splits)
  show "generationOf e \<le> nextGeneration s u" if "entryOf s u = Some e" for e
    using entryOf_valid(3)[OF assms that] that by (simp add: nextGeneration_alt)
  have "safeNat (roomGeneration s)"
    using assms by (cases s) (auto simp: okPrevious_def roomGeneration_def safeNat_def elim: validRemovalsE)
  then show "safeNat (nextGeneration s u) \<Longrightarrow> safeNat (max (nextGeneration s u) (roomGeneration s))" by (simp add: max_def)
qed

text \<open>What a recorded removal stores.\<close>

lemma nextRemovals_facts:
  assumes ok: "okPrevious s" and safe: "safeNat (nextGeneration s u)"
  shows "validRemovals (nextRemovals s c u agents name)"
    and "generationOf (nextRemovals s c u agents name) = max (nextGeneration s u) (roomGeneration s)"
    and "\<exists>e. ownerEntry (nextRemovals s c u agents name) u = Some e \<and> generationOf e = nextGeneration s u
      \<and> \<not> isComplete e \<and> entryAgents e = JStr ` set agents \<union> (case entryOf s u of None \<Rightarrow> {} | Some e \<Rightarrow> entryAgents e)"
    and "v \<noteq> u \<Longrightarrow> ownerEntry (nextRemovals s c u agents name) v = entryOf s v"
    and "getProp (nextRemovals s c u agents name) (js ''creatorOwnerId'') = JStr c"
proof -
  let ?n = "nextRemovals s c u agents name" and ?g = "nextGeneration s u"
  let ?known = "case entryOf s u of None \<Rightarrow> [] | Some e \<Rightarrow> arrayItems (getProp e (js ''agents''))"
  let ?e = "JObj True [(js ''generation'', jnat ?g), (js ''label'', JStr name), (js ''complete'', JBool False),
    (js ''agents'', JArr (setOrder (?known @ map JStr agents)))]"
  let ?owners = "case s of None \<Rightarrow> [] | Some p \<Rightarrow> objectProps (getProp p (js ''owners''))"
  have n: "?n = JObj True [(js ''v'', jnat 1), (js ''creatorOwnerId'', JStr c), (js ''generation'', jnat (max ?g (roomGeneration s))),
      (js ''owners'', JObj True (insertProp u ?e ?owners))]"
    by (simp add: nextRemovals_def Let_def entryOf_def roomGeneration_def)
  have big: "safeNat (max ?g (roomGeneration s))" by (rule nextGeneration_bounds(3)[OF ok safe])
  show gen: "generationOf ?n = max ?g (roomGeneration s)" by (rule generationOf_jnat[OF _ big]) (simp add: n)
  show "getProp ?n (js ''creatorOwnerId'') = JStr c" by (simp add: n)
  have ge: "generationOf ?e = ?g" by (rule generationOf_jnat[OF _ safe]) simp
  have known: "list_all isStr ?known"
  proof (cases "entryOf s u")
    case (Some e)
    then show ?thesis using entryOf_valid(1)[OF ok Some]
      by (auto simp: validRemovalEntry_def arrayItems_def split: jsval.splits)
  qed simp
  then have ve: "validRemovalEntry (max ?g (roomGeneration s)) ?e"
    using isPositiveGeneration_jnat[OF nextGeneration_bounds(1)[OF ok] safe] ge
    by (auto simp: validRemovalEntry_def isStr_def isBool_def list_all_iff)
  have old: "list_all (\<lambda>(k, e). validRemovalEntry (roomGeneration s) e) ?owners \<and> (\<forall>v. map_of ?owners v = entryOf s v)"
  proof (cases s)
    case (Some p)
    then have "validRemovals p" using ok by (simp add: okPrevious_def)
    then obtain op owners where o: "getProp p (js ''owners'') = JObj op owners"
        "list_all (\<lambda>(k, e). validRemovalEntry (generationOf p) e) owners"
      by (rule validRemovalsE)
    then show ?thesis using Some ownerEntry_lookup[OF o] by (simp add: objectProps_def roomGeneration_def entryOf_def)
  qed (simp add: entryOf_def)
  have wide: "validRemovalEntry (roomGeneration s) x \<Longrightarrow> validRemovalEntry (max ?g (roomGeneration s)) x" for x
    by (erule validRemovalEntry_mono) simp
  have "list_all (\<lambda>(k, e). validRemovalEntry (max ?g (roomGeneration s)) e) ?owners"
    using conjunct1[OF old] by (rule list.pred_mono_strong) (clarify, rule wide)
  then have all: "list_all (\<lambda>(k, e). validRemovalEntry (generationOf ?n) e) (insertProp u ?e ?owners)"
    using ve unfolding gen by (rule list_all_insertProp)
  have owners: "getProp ?n (js ''owners'') = JObj True (insertProp u ?e ?owners)" by (simp add: n)
  have pos: "isPositiveGeneration (getProp ?n (js ''generation''))"
    using isPositiveGeneration_jnat[OF _ big] nextGeneration_bounds(1)[OF ok, of u] by (simp add: n)
  show "validRemovals ?n" by (rule validRemovalsI[OF n _ _ pos owners all]) (simp_all add: n isStr_def)
  have look: "ownerEntry ?n v = (if v = u then Some ?e else entryOf s v)" for v
    using ownerEntry_lookup[OF owners all] old by (simp add: map_of_insertProp)
  then show "v \<noteq> u \<Longrightarrow> ownerEntry ?n v = entryOf s v" by simp
  have "entryAgents ?e = JStr ` set agents \<union> (case entryOf s u of None \<Rightarrow> {} | Some e \<Rightarrow> entryAgents e)"
    by (auto simp: entryAgents_def arrayItems_def split: option.splits)
  then show "\<exists>e. ownerEntry ?n u = Some e \<and> generationOf e = ?g \<and> \<not> isComplete e
      \<and> entryAgents e = JStr ` set agents \<union> (case entryOf s u of None \<Rightarrow> {} | Some e \<Rightarrow> entryAgents e)"
    using look[of u] ge by (simp add: isComplete_def)
qed

lemma completedRemovals_facts:
  assumes p: "validRemovals p" and e: "ownerEntry p u = Some e"
  shows "validRemovals (completedRemovals p u e)" "generationOf (completedRemovals p u e) = generationOf p"
    "ownerEntry (completedRemovals p u e) v = (if v = u then Some (withProp e (js ''complete'') (JBool True)) else ownerEntry p v)"
    "getProp (completedRemovals p u e) (js ''creatorOwnerId'') = getProp p (js ''creatorOwnerId'')"
proof -
  obtain pl ps c op owners where o: "p = JObj pl ps" "getProp p (js ''creatorOwnerId'') = JStr c" "getProp p (js ''owners'') = JObj op owners"
    "list_all (\<lambda>(k, e). validRemovalEntry (generationOf p) e) owners" "getProp p (js ''v'') = jnat 1"
    "isPositiveGeneration (getProp p (js ''generation''))" using p by (rule validRemovalsE)
  let ?c = "completedRemovals p u e" and ?e = "withProp e (js ''complete'') (JBool True)"
  have ve: "validRemovalEntry (generationOf p) e" by (rule ownerEntry_valid[OF p e])
  then obtain el es where es: "e = JObj el es" using validRemovalEntry_object by blast
  have other: "getProp ?c k = getProp p k" if "k \<noteq> js ''owners''" for k
    using that by (simp add: completedRemovals_def o(1))
  have owners: "getProp ?c (js ''owners'') = JObj True (insertProp u ?e owners)"
    unfolding completedRemovals_def o(1) using o(3) by (simp add: withProp_def objectProps_def map_of_insertProp o(1))
  show gen: "generationOf ?c = generationOf p" using other by (simp add: generationOf_def)
  show "getProp ?c (js ''creatorOwnerId'') = getProp p (js ''creatorOwnerId'')" using other by simp
  have "validRemovalEntry (generationOf p) ?e"
    using ve unfolding es by (simp add: validRemovalEntry_def isBool_def generationOf_def del: getProp.simps)
  then have all: "list_all (\<lambda>(k, e). validRemovalEntry (generationOf ?c) e) (insertProp u ?e owners)"
    using o(4) unfolding gen by (rule list_all_insertProp[rotated])
  obtain cs where "?c = JObj True cs" by (simp add: completedRemovals_def withProp_def)
  then show "validRemovals ?c"
    by (rule validRemovalsI[OF _ _ _ _ owners all]) (use other o(2,5,6) in \<open>simp_all add: isStr_def del: getProp.simps\<close>)
  show "ownerEntry ?c v = (if v = u then Some ?e else ownerEntry p v)"
    using ownerEntry_lookup[OF owners all] ownerEntry_lookup[OF o(3,4)] by (simp add: map_of_insertProp)
qed

text \<open>The life of a room's removal record: what \<open>recordRemoval\<close> and \<open>completeRemoval\<close> write over what they read.
  Generations stay below \<open>2^53\<close>.\<close>

inductive removalStep :: "jsval option \<Rightarrow> jsval option \<Rightarrow> bool" where
  step_record: "okPrevious s \<Longrightarrow> safeNat (nextGeneration s u) \<Longrightarrow> removalStep s (Some (nextRemovals s c u agents name))"
| step_complete: "validRemovals p \<Longrightarrow> ownerEntry p u = Some e \<Longrightarrow> removalStep (Some p) (Some (completedRemovals p u e))"

inductive_cases removalStepE: "removalStep s t"

definition entryLe :: "jsval option \<Rightarrow> jsval option \<Rightarrow> bool" where
  "entryLe a b = (case a of None \<Rightarrow> True
     | Some e \<Rightarrow> (case b of None \<Rightarrow> False
         | Some f \<Rightarrow> generationOf e \<le> generationOf f \<and> entryAgents e \<subseteq> entryAgents f))"

lemma entryLe_refl [simp]: "entryLe a a"
  by (auto simp: entryLe_def split: option.split)

lemma entryLe_trans: "entryLe a b \<Longrightarrow> entryLe b c \<Longrightarrow> entryLe a c"
  by (auto simp: entryLe_def split: option.splits)

definition laterRemovals :: "jsval option \<Rightarrow> jsval option \<Rightarrow> bool" where
  "laterRemovals s t \<longleftrightarrow> okPrevious t \<and> roomGeneration s \<le> roomGeneration t \<and> (\<forall>v. entryLe (entryOf s v) (entryOf t v))"

lemma nextRemovals_later:
  assumes ok: "okPrevious s" and safe: "safeNat (nextGeneration s u)"
  shows "laterRemovals s (Some (nextRemovals s c u agents name))"
proof -
  let ?t = "Some (nextRemovals s c u agents name)"
  note f = nextRemovals_facts[OF ok safe, where c = c and agents = agents and name = name]
  have "entryLe (entryOf s v) (entryOf ?t v)" for v
  proof (cases "v = u")
    case True
    then show ?thesis using f(3) nextGeneration_bounds(2)[OF ok]
      by (auto simp: entryLe_def entryOf_def[of "Some _"] split: option.splits)
  next
    case False
    then show ?thesis using f(4)[OF False] by (simp add: entryOf_def[of "Some _"])
  qed
  then show ?thesis using f(1,2) by (simp add: laterRemovals_def okPrevious_def roomGeneration_def[of "Some _"])
qed

lemma completedRemovals_later:
  assumes p: "validRemovals p" and e: "ownerEntry p u = Some e"
  shows "laterRemovals (Some p) (Some (completedRemovals p u e))"
proof -
  note f = completedRemovals_facts[OF p e]
  obtain el es where "e = JObj el es" using validRemovalEntry_object[OF ownerEntry_valid[OF p e]] by blast
  then have "entryLe (Some e) (Some (withProp e (js ''complete'') (JBool True)))"
    by (simp add: entryLe_def generationOf_def entryAgents_def del: getProp.simps)
  then show ?thesis using f e by (simp add: laterRemovals_def okPrevious_def roomGeneration_def entryOf_def)
qed

lemma removalStep_later: "removalStep s t \<Longrightarrow> laterRemovals s t"
  by (erule removalStepE) (simp_all add: nextRemovals_later completedRemovals_later)

lemma removalSteps_later:
  assumes "removalStep\<^sup>*\<^sup>* s t" and "okPrevious s"
  shows "laterRemovals s t"
  using assms
proof (induction rule: rtranclp_induct)
  case (step y z)
  then show ?case using removalStep_later[OF step.hyps(2)] entryLe_trans unfolding laterRemovals_def by (meson order_trans)
qed (simp add: laterRemovals_def)

end
