(* ===== verification/MembershipProperties.thy ===== *)
theory MembershipProperties
  imports Membership
begin

text \<open>
  Properties of removals and leases. The history of a room's removal record and the decision on an invitation hold
  for every sequence of writes; that a removal takes effect and that a lease excludes other work are proved over the
  laws of a quiet store (locale \<open>member_store\<close>) and hold for the local store by interpretation.
\<close>

section \<open>Stored values are JSON\<close>

lemma isJsonValue_mono: "isJsonValue d v \<Longrightarrow> d' \<le> d \<Longrightarrow> isJsonValue d' v"
  by (induction d v arbitrary: d' rule: isJsonValue.induct) (fastforce simp: list_all_iff split: if_splits)+

lemma distinct_insertProp_name:
  "distinct (map fst ps) \<Longrightarrow> arrayIndex k = None \<Longrightarrow> distinct (map fst (insertProp k v ps))"
  by (induction ps) (auto simp: set_insertProp[unfolded image_def] image_def)

lemma isJsonValue_insertProp:
  "list_all (\<lambda>(k, v). isJsonValue d v) ps \<Longrightarrow> isJsonValue d v \<Longrightarrow> list_all (\<lambda>(k, v). isJsonValue d v) (insertProp k v ps)"
  by (rule list_all_insertProp)

lemma jsonProps:
  assumes "isJsonValue d v" "wf_js v" "getProp v k = JObj pl ps"
  shows "list_all (\<lambda>(k, v). isJsonValue (Suc (Suc d)) v) ps \<and> distinct (map fst ps) \<and> list_all (\<lambda>(k, v). wf_js v) ps"
proof -
  obtain q qs where q: "v = JObj q qs" using assms(3) by (cases v) auto
  then have "(k, JObj pl ps) \<in> set qs" using assms(3) by (auto split: option.splits dest: map_of_SomeD)
  then have "isJsonValue (Suc d) (JObj pl ps)" "wf_js (JObj pl ps)"
    using bspec[of "set qs" "\<lambda>(k, v). isJsonValue (Suc d) v" "(k, JObj pl ps)"]
      bspec[of "set qs" "\<lambda>(k, v). wf_js v" "(k, JObj pl ps)"] assms(1,2)
    by (simp_all add: q list_all_iff split: if_splits)
  then show ?thesis by (simp split: if_splits)
qed

lemma entry_strings: "validRemovalEntry n e \<Longrightarrow> list_all isStr (arrayItems (getProp e (js ''agents'')))"
  by (auto simp: validRemovalEntry_def arrayItems_def split: jsval.splits)

lemma isStr_json: "isStr x \<Longrightarrow> isJsonValue 4 x" "isStr x \<Longrightarrow> wf_js x"
  by (cases x; simp add: isStr_def)+

lemma list_all_strings: "list_all isStr xs \<Longrightarrow> list_all (isJsonValue 4) xs" "list_all isStr xs \<Longrightarrow> list_all wf_js xs"
  by (induction xs) (simp_all add: isStr_json)

lemma nextRemovals_json:
  assumes ok: "okPrevious s" and json: "\<forall>p. s = Some p \<longrightarrow> isJsonValue 0 p \<and> wf_js p" and name: "arrayIndex u = None"
  shows "isJsonValue 0 (nextRemovals s c u agents name)" "wf_js (nextRemovals s c u agents name)"
proof -
  let ?known = "case Option.bind s (\<lambda>p. ownerEntry p u) of None \<Rightarrow> [] | Some e \<Rightarrow> arrayItems (getProp e (js ''agents''))"
  let ?owners = "case s of None \<Rightarrow> [] | Some p \<Rightarrow> objectProps (getProp p (js ''owners''))"
  have o: "list_all (\<lambda>(k, v). isJsonValue 2 v) ?owners \<and> distinct (map fst ?owners) \<and> list_all (\<lambda>(k, v). wf_js v) ?owners"
  proof (cases s)
    case (Some p)
    then have "validRemovals p" using ok by (simp add: okPrevious_def)
    then obtain op owners where "getProp p (js ''owners'') = JObj op owners" by (rule validRemovalsE)
    then show ?thesis using jsonProps[of 0 p] json Some by (simp add: objectProps_def numeral_2_eq_2)
  qed simp
  have "x \<in> set ?known \<Longrightarrow> isStr x" for x
    using entry_strings[OF entryOf_valid(1)[OF ok, of u]]
    by (cases "Option.bind s (\<lambda>p. ownerEntry p u)") (simp_all add: entryOf_def list_all_iff)
  then have strs: "list_all isStr (setOrder (?known @ map JStr agents))" by (auto simp: list_all_iff isStr_def)
  have "list_all (isJsonValue 4) (setOrder (?known @ map JStr agents)) \<and> list_all wf_js (setOrder (?known @ map JStr agents))"
    using strs by (blast intro: list_all_strings)
  then have e: "isJsonValue 2 (JObj True [(js ''generation'', jnat (nextGeneration s u)), (js ''label'', JStr name),
      (js ''complete'', JBool False), (js ''agents'', JArr (setOrder (?known @ map JStr agents)))])"
    "wf_js (JObj True [(js ''generation'', jnat (nextGeneration s u)), (js ''label'', JStr name),
      (js ''complete'', JBool False), (js ''agents'', JArr (setOrder (?known @ map JStr agents)))])"
    by (simp_all add: jnat_def)
  show "isJsonValue 0 (nextRemovals s c u agents name)"
    using list_all_insertProp[where P = "isJsonValue 2", OF conjunct1[OF o] e(1), of u]
    by (simp add: nextRemovals_def Let_def jnat_def numeral_2_eq_2)
  show "wf_js (nextRemovals s c u agents name)"
    using list_all_insertProp[where P = wf_js, OF conjunct2[OF conjunct2[OF o]] e(2), of u]
      distinct_insertProp_name[OF conjunct1[OF conjunct2[OF o]] name]
    by (simp add: nextRemovals_def Let_def jnat_def)
qed

section \<open>The history of removals\<close>

definition inviteGeneration :: "inviteRecord \<Rightarrow> nat" where
  "inviteGeneration invite = (case inv_removalGeneration invite of None \<Rightarrow> 0 | Some n \<Rightarrow> n)"

lemma removalDecision_issuer:
  assumes "ownerEntry t (inv_creatorOwnerId invite) = Some e" and "inviteGeneration invite < generationOf e"
  shows "removalDecision (Some t) invite v = Removal_revoked"
  using assms by (simp add: removalDecision_def inviteGeneration_def Let_def)

lemma removalDecision_target:
  assumes "ownerEntry t u = Some e" and "u \<noteq> []" and "\<not> isComplete e \<or> inviteGeneration invite < generationOf e"
  shows "removalDecision (Some t) invite (Some u) = Removal_revoked"
  using assms by (auto simp: removalDecision_def inviteGeneration_def Let_def)

lemma recorded_entry:
  assumes "okPrevious s" and "safeNat (nextGeneration s u)"
    and "removalStep\<^sup>*\<^sup>* (Some (nextRemovals s c u agents name)) (Some t)"
  obtains e where "ownerEntry t u = Some e" "nextGeneration s u \<le> generationOf e"
proof -
  note f = nextRemovals_facts[OF assms(1,2), where c = c and agents = agents and name = name]
  have "okPrevious (Some (nextRemovals s c u agents name))" using f(1) by (simp add: okPrevious_def)
  then have "entryLe (entryOf (Some (nextRemovals s c u agents name)) u) (entryOf (Some t) u)"
    using removalSteps_later[OF assms(3)] by (simp add: laterRemovals_def)
  then show thesis using f(3) that by (auto simp: entryOf_def entryLe_def split: option.splits)
qed

text \<open>Every sequence of recorded and completed removals keeps the room's record well-formed, never lowers the
  room's generation, and never loses an owner's entry: its generation and its set of agents only grow.\<close>

theorem removals_history:
  assumes "removalStep\<^sup>*\<^sup>* None (Some p)" and "removalStep\<^sup>*\<^sup>* (Some p) (Some t)"
  shows "validRemovals p \<and> validRemovals t \<and> generationOf p \<le> generationOf t
    \<and> (\<forall>u e. ownerEntry p u = Some e \<longrightarrow> (\<exists>f. ownerEntry t u = Some f \<and> generationOf e \<le> generationOf f
         \<and> set (arrayItems (getProp e (js ''agents''))) \<subseteq> set (arrayItems (getProp f (js ''agents'')))))"
proof -
  have p: "validRemovals p" using removalSteps_later[OF assms(1)] by (simp add: laterRemovals_def okPrevious_def)
  then have l: "laterRemovals (Some p) (Some t)" using removalSteps_later[OF assms(2)] by (simp add: okPrevious_def)
  have "\<exists>f. ownerEntry t u = Some f \<and> generationOf e \<le> generationOf f
      \<and> set (arrayItems (getProp e (js ''agents''))) \<subseteq> set (arrayItems (getProp f (js ''agents'')))"
    if "ownerEntry p u = Some e" for u e
  proof -
    have "entryLe (ownerEntry p u) (ownerEntry t u)" using l by (simp add: laterRemovals_def entryOf_def)
    then show ?thesis using that by (cases "ownerEntry t u") (simp_all add: entryLe_def entryAgents_def)
  qed
  then show ?thesis using p l by (simp add: laterRemovals_def okPrevious_def roomGeneration_def)
qed

text \<open>C35: A removed human stays out. Once a removal is recorded, in every later state of the room's record, an
  invitation issued before that removal admits neither the removed human nor, when the removed human issued it,
  anyone else; and until the removal is completed no invitation of any generation admits them.\<close>

theorem removed_owner_stays_out:
  assumes "okPrevious s" and "safeNat (nextGeneration s u)" and "u \<noteq> []"
    and "removalStep\<^sup>*\<^sup>* (Some (nextRemovals s c u agents name)) (Some t)"
    and "inviteGeneration invite < nextGeneration s u"
  shows "removalDecision (Some t) invite (Some u) = Removal_revoked
    \<and> (inv_creatorOwnerId invite = u \<longrightarrow> removalDecision (Some t) invite v = Removal_revoked)
    \<and> removalDecision (Some (nextRemovals s c u agents name)) anyInvite (Some u) = Removal_revoked"
proof -
  obtain e where e: "ownerEntry t u = Some e" "nextGeneration s u \<le> generationOf e"
    using recorded_entry[OF assms(1,2,4)] .
  obtain e0 where "ownerEntry (nextRemovals s c u agents name) u = Some e0" "\<not> isComplete e0"
    using nextRemovals_facts(3)[OF assms(1,2)] by blast
  then show ?thesis using e assms(3,5) removalDecision_issuer removalDecision_target by auto
qed

section \<open>On a quiet store\<close>

locale member_store = serial_store store quiet view unused moment
  for store :: "'w controlStore" and quiet :: "'w \<Rightarrow> bool" and view :: "'w \<Rightarrow> ustring \<rightharpoonup> controlRecord"
    and unused :: "'w \<Rightarrow> ustring \<Rightarrow> bool" and moment :: "'w \<Rightarrow> int" +
  fixes env :: "'w memberEnv"
  assumes env_store: "me_store env = store" and env_now: "me_now env = moment"
    and draw: "quiet w \<Longrightarrow> me_uuid env w = (u, w') \<Longrightarrow>
      quiet w' \<and> view w' = view w \<and> unused w' = unused w \<and> moment w' = moment w"
begin

lemma recordRemoval_quiet:
  assumes q: "quiet w" and key: "isSafeKey (removalsKey env roomId)"
    and uuid: "me_uuid env w = (x, w1)" "isSafeKey (js ''channel.remove.'' @ x)" "unused w (js ''channel.remove.'' @ x)"
    and s: "s = map_option cr_value (view w (removalsKey env roomId))" and ok: "okPrevious s"
    and creator: "\<forall>p. s = Some p \<longrightarrow> getProp p (js ''creatorOwnerId'') = JStr c"
    and json: "isJsonValue 0 (nextRemovals s c u agents name)" "wf_js (nextRemovals s c u agents name)"
  shows "\<exists>w2 r. recordRemoval env roomId c u agents name w = (Inr (Some (nextRemovals s c u agents name)), w2)
    \<and> quiet w2 \<and> view w2 (removalsKey env roomId) = Some r \<and> cr_value r = nextRemovals s c u agents name"
proof -
  let ?k = "removalsKey env roomId"
  let ?read = "case view w ?k of None \<Rightarrow> Read_absent | Some r \<Rightarrow> Read_record r"
  let ?i = "\<lparr>ci_key = ?k, ci_expectedRevision = revisionOf ?read, ci_operationId = js ''channel.remove.'' @ x,
     ci_value = nextRemovals s c u agents name, ci_expiresAt = None\<rparr>"
  have w1: "quiet w1" "view w1 = view w" "unused w1 = unused w" using draw[OF q uuid(1)] by auto
  have pre: "ci_expectedRevision ?i = map_option cr_revision (view w1 (ci_key ?i))"
    using w1(2) by (simp add: revisionOf_def split: option.split)
  have usable: "usableInput ?i" "unused w1 (ci_operationId ?i)"
    using w1(3) uuid json key by (simp_all add: usableInput_def)
  obtain e w2 where w2: "quiet w2" "cs_compareAndSet store ?i w1 = (Inr (W_applied (newRecord ?i e)), w2)"
      "view w2 = (view w1)(?k \<mapsto> newRecord ?i e)"
    using cas_applies[OF w1(1) usable pre] by auto
  have prev: "previousOf ?read w = (Inr s, w) \<and> ?read \<noteq> Read_unavailable"
    using ok by (auto simp: s previousOf_def okPrevious_def falsy_def split: option.splits elim!: validRemovalsE)
  have guard: "\<not> (case s of None \<Rightarrow> False | Some p \<Rightarrow> \<not> validRemovals p \<or> getProp p (js ''creatorOwnerId'') \<noteq> JStr c)"
    using ok creator by (auto simp: okPrevious_def split: option.splits)
  have loop: "recordRemovalFrom env roomId c u agents name (Suc n) w = (Inr (Some (nextRemovals s c u agents name)), w2)" for n
    using read_view[OF q key] prev guard uuid(1) w2(2)
    by (simp add: env_store bindS_def tryS_def randomUUID_def newRecord_def)
  have five: "(5::nat) = Suc 4" by simp
  have "recordRemoval env roomId c u agents name w = (Inr (Some (nextRemovals s c u agents name)), w2)"
    unfolding recordRemoval_def five by (rule loop)
  then show ?thesis using w2 by (intro exI[of _ w2] exI[of _ "newRecord ?i e"]) (simp add: newRecord_def)
qed

lemma inviteRemovalState_quiet:
  assumes "quiet w" "isSafeKey (removalsKey env (inv_roomId invite))" "view w (removalsKey env (inv_roomId invite)) = Some r"
    "validRemovals (cr_value r)"
  shows "inviteRemovalState store (me_sha256 env) invite v w = (Inr (removalDecision (Some (cr_value r)) invite v), w)"
  using read_view[OF assms(1,2)] assms(3,4)
  by (simp add: inviteRemovalState_def readRoomRemovals_def bindS_def tryS_def removalsKey_def)

lemma leaseHeld_free: "leaseHeld env (leaseRecord None t) w = (Inr False, w)"
  by (simp add: leaseHeld_def fieldOf_def leaseRecord_def bindS_def tryS_def jnullable_def)

lemma leaseHeld_taken: "me_now env w < t \<Longrightarrow> leaseHeld env (leaseRecord (Some x) t) w = (Inr True, w)"
  by (simp add: leaseHeld_def fieldOf_def leaseRecord_def bindS_def tryS_def jnullable_def numberOf_def)

lemma leaseRecord_json: "isJsonValue 0 (leaseRecord x t)" "wf_js (leaseRecord x t)"
  by (cases x; simp add: leaseRecord_def jnat_def jnullable_def)+

text \<open>While an unexpired lease stands, no other work runs.\<close>

lemma lease_refuses:
  assumes q: "quiet w" and key: "isSafeKey (leaseKey env roomId ownerId)"
    and held: "view w (leaseKey env roomId ownerId) = Some r" "cr_value r = leaseRecord (Some x) t" and time: "moment w < t"
  shows "\<exists>w'. withMembershipLease env roomId ownerId work w = (Inr None, w') \<and> quiet w' \<and> view w' = view w"
proof -
  obtain y w1 where u: "me_uuid env w = (y, w1)" by (cases "me_uuid env w")
  have w1: "quiet w1" "view w1 = view w" "moment w1 = moment w" using draw[OF q u] by auto
  have "leaseHeld env (cr_value r) w1 = (Inr True, w1)"
    unfolding held(2) by (rule leaseHeld_taken) (use time w1 env_now in simp)
  then have "withMembershipLease env roomId ownerId work w = (Inr None, w1)"
    using u held(1) read_view[OF w1(1) key] w1(2)
    by (simp add: withMembershipLease_def Let_def bindS_def tryS_def randomUUID_def env_store)
  then show ?thesis using w1 by blast
qed

text \<open>A free lease is claimed before the work starts.\<close>

lemma lease_runs:
  assumes q: "quiet w" and key: "isSafeKey (leaseKey env roomId ownerId)"
    and free: "view w (leaseKey env roomId ownerId) = None
      \<or> (\<exists>r t. view w (leaseKey env roomId ownerId) = Some r \<and> cr_value r = leaseRecord None t)"
    and uuid: "me_uuid env w = (x, w1)" "isSafeKey (js ''membership-lease.claim.'' @ x)"
      "unused w (js ''membership-lease.claim.'' @ x)"
  shows "\<exists>w2 r. quiet w2 \<and> moment w2 = moment w \<and> view w2 (leaseKey env roomId ownerId) = Some r
    \<and> cr_value r = leaseRecord (Some x) (moment w + LEASE_MS)
    \<and> (\<forall>v. v \<noteq> js ''membership-lease.claim.'' @ x \<longrightarrow> unused w2 v = unused w v)
    \<and> (\<forall>work :: ('w, bool) act \<Rightarrow> ('w, 't) act. withMembershipLease env roomId ownerId work w
        = finallyS (bindS (work (renewLease env (leaseKey env roomId ownerId) x)) (\<lambda>y. retS (Some y)))
            (releaseLease env (leaseKey env roomId ownerId) x) w2)"
proof -
  let ?k = "leaseKey env roomId ownerId"
  let ?read = "case view w ?k of None \<Rightarrow> Read_absent | Some r \<Rightarrow> Read_record r"
  let ?i = "\<lparr>ci_key = ?k, ci_expectedRevision = revisionOf ?read, ci_operationId = js ''membership-lease.claim.'' @ x,
     ci_value = leaseRecord (Some x) (moment w + LEASE_MS), ci_expiresAt = None\<rparr>"
  have w1: "quiet w1" "view w1 = view w" "unused w1 = unused w" "moment w1 = moment w" using draw[OF q uuid(1)] by auto
  have pre: "ci_expectedRevision ?i = map_option cr_revision (view w1 (ci_key ?i))"
    using w1(2) by (simp add: revisionOf_def split: option.split)
  have usable: "usableInput ?i" "unused w1 (ci_operationId ?i)"
    using w1(3) uuid leaseRecord_json key by (simp_all add: usableInput_def)
  obtain e w2 where w2: "quiet w2" "moment w2 = moment w1" "\<forall>v. v \<noteq> ci_operationId ?i \<longrightarrow> unused w2 v = unused w1 v"
      "cs_compareAndSet store ?i w1 = (Inr (W_applied (newRecord ?i e)), w2)" "view w2 = (view w1)(?k \<mapsto> newRecord ?i e)"
    using cas_applies[OF w1(1) usable pre] by auto
  have held: "(case ?read of Read_record r \<Rightarrow> leaseHeld env (cr_value r) | _ \<Rightarrow> retS False) w1 = (Inr False, w1)"
    using free leaseHeld_free by auto
  have "?read \<noteq> Read_unavailable" by (simp split: option.split)
  then have "withMembershipLease env roomId ownerId work w
      = finallyS (bindS (work (renewLease env ?k x)) (\<lambda>y. retS (Some y))) (releaseLease env ?k x) w2" for work :: "('w, bool) act \<Rightarrow> ('w, 't) act"
    using uuid(1) read_view[OF w1(1) key] w1(2,4) held w2(4)
    by (simp add: withMembershipLease_def Let_def bindS_def tryS_def randomUUID_def env_store env_now)
  then show ?thesis using w2 w1 by (intro exI[of _ w2] exI[of _ "newRecord ?i e"]) (simp add: newRecord_def)
qed

lemma release_frees:
  assumes q: "quiet w" and key: "isSafeKey k" and held: "view w k = Some r" "cr_value r = leaseRecord (Some x) t"
    and op: "isSafeKey (js ''membership-lease.release.'' @ x)" "unused w (js ''membership-lease.release.'' @ x)"
  shows "\<exists>w' r'. releaseLease env k x w = (Inr (), w') \<and> quiet w' \<and> view w' k = Some r' \<and> cr_value r' = leaseRecord None 0"
proof -
  let ?i = "\<lparr>ci_key = k, ci_expectedRevision = Some (cr_revision r), ci_operationId = js ''membership-lease.release.'' @ x,
     ci_value = leaseRecord None 0, ci_expiresAt = None\<rparr>"
  have usable: "usableInput ?i" "unused w (ci_operationId ?i)" "ci_expectedRevision ?i = map_option cr_revision (view w (ci_key ?i))"
    using op leaseRecord_json key held(1) by (simp_all add: usableInput_def)
  obtain e w2 where w2: "quiet w2" "cs_compareAndSet store ?i w = (Inr (W_applied (newRecord ?i e)), w2)"
      "view w2 = (view w)(k \<mapsto> newRecord ?i e)"
    using cas_applies[OF q usable] by auto
  have "releaseLease env k x w = (Inr (), w2)"
    using read_view[OF q key] held w2(2)
    by (simp add: releaseLease_def catchS_def bindS_def tryS_def env_store fieldOf_def leaseRecord_def jnullable_def)
  then show ?thesis using w2 by (intro exI[of _ w2] exI[of _ "newRecord ?i e"]) (simp add: newRecord_def)
qed

end

section \<open>On the local store\<close>

definition localMember :: "localEnv \<Rightarrow> (ustring \<Rightarrow> int option) \<Rightarrow> (rat \<Rightarrow> ustring) \<Rightarrow> (jsval \<Rightarrow> jsnum) \<Rightarrow> fsWorld memberEnv" where
  "localMember env pd nt toNumber = \<lparr>me_store = createControlStore (localDeps env pd nt), me_sha256 = le_sha256 env,
     me_uuid = (\<lambda>w. (le_uuid env (fs_uuids w), w\<lparr>fs_uuids := Suc (fs_uuids w)\<rparr>)), me_now = fs_now, me_toNumber = toNumber\<rparr>"

context ideal_local_store
begin

lemma is_member_store: "member_store (createControlStore (localDeps env parseDate numberText))
  (soundMachine env parseDate numberText) (localView env parseDate numberText) (\<lambda>w u. localLedger env w u = None) fs_now
  (localMember env parseDate numberText toNumber)"
proof (intro member_store.intro[OF is_serial_store] member_store_axioms.intro)
  fix w u w'
  assume s: "soundMachine env parseDate numberText w" and "me_uuid (localMember env parseDate numberText toNumber) w = (u, w')"
  then have w': "w' = w\<lparr>fs_uuids := Suc (fs_uuids w)\<rparr>" by (simp add: localMember_def)
  have "localRecords env w' = localRecords env w" "localLedger env w' = localLedger env w" "quietMachine w' = quietMachine w"
    "fs_now w' = fs_now w" by (simp_all add: w' localRecords_def localLedger_def quietMachine_def fun_eq_iff)
  then show "soundMachine env parseDate numberText w' \<and> localView env parseDate numberText w' = localView env parseDate numberText w
      \<and> (\<lambda>u. localLedger env w' u = None) = (\<lambda>u. localLedger env w u = None) \<and> fs_now w' = fs_now w"
    using s by (simp add: soundMachine_def localView_def localLive_def fun_eq_iff)
qed (simp_all add: localMember_def)

end

interpretation sample_member: member_store "createControlStore (localDeps sampleEnv (\<lambda>_. None) sampleNumText)"
  "soundMachine sampleEnv (\<lambda>_. None) sampleNumText" "localView sampleEnv (\<lambda>_. None) sampleNumText"
  "\<lambda>w u. localLedger sampleEnv w u = None" fs_now "localMember sampleEnv (\<lambda>_. None) sampleNumText (\<lambda>_. NaN)"
  by (rule sample_store.is_member_store)

text \<open>Recording a removal succeeds and takes effect. On a quiet machine with a fresh UUID, \<open>recordRemoval\<close>
  answers with the record it computed from the one it read, and from then on the check of any invitation to that room
  for the removed human answers \<open>revoked\<close>.\<close>

theorem removal_takes_effect:
  assumes "inj (le_sha256 env)" and "\<And>n. le_uuid env n \<noteq> []" and "soundMachine env pd nt w"
    and "m = localMember env pd nt toNumber" and "isSafeKey (removalsKey m roomId)"
    and "isSafeKey (js ''channel.remove.'' @ le_uuid env (fs_uuids w))"
    and "localLedger env w (js ''channel.remove.'' @ le_uuid env (fs_uuids w)) = None"
    and "s = map_option cr_value (localView env pd nt w (removalsKey m roomId))" and "okPrevious s"
    and "safeNat (nextGeneration s u)" and "\<forall>p. s = Some p \<longrightarrow> isJsonValue 0 p \<and> wf_js p \<and> getProp p (js ''creatorOwnerId'') = JStr c"
    and "u \<noteq> []" and "arrayIndex u = None"
  shows "\<exists>w'. recordRemoval m roomId c u agents name w = (Inr (Some (nextRemovals s c u agents name)), w')
    \<and> (\<forall>invite. inv_roomId invite = roomId \<longrightarrow>
        inviteRemovalState (me_store m) (me_sha256 m) invite (Some u) w' = (Inr Removal_revoked, w'))"
proof -
  note ms = ideal_local_store.is_member_store[OF ideal_local_store.intro[OF assms(1,2)], of pd nt toNumber, folded assms(4)]
  let ?n = "nextRemovals s c u agents name"
  have store: "me_store m = createControlStore (localDeps env pd nt)" by (simp add: assms(4) localMember_def)
  have json: "isJsonValue 0 ?n" "wf_js ?n" using nextRemovals_json[OF assms(9) _ assms(13)] assms(11) by blast+
  have uuid: "me_uuid m w = (le_uuid env (fs_uuids w), w\<lparr>fs_uuids := Suc (fs_uuids w)\<rparr>)" by (simp add: assms(4) localMember_def)
  have creator: "\<forall>p. s = Some p \<longrightarrow> getProp p (js ''creatorOwnerId'') = JStr c" using assms(11) by blast
  note quiet = member_store.recordRemoval_quiet[OF ms assms(3,5)]
  note quiet = quiet[OF uuid]
  note quiet = quiet[OF assms(6)]
  note quiet = quiet[OF assms(7)]
  note quiet = quiet[OF assms(8,9)]
  obtain w' r where w': "recordRemoval m roomId c u agents name w = (Inr (Some ?n), w')" "soundMachine env pd nt w'"
    "localView env pd nt w' (removalsKey m roomId) = Some r" "cr_value r = ?n"
    using quiet[OF creator json] by blast
  note f = nextRemovals_facts[OF assms(9,10), where c = c and agents = agents and name = name]
  obtain e where e: "ownerEntry ?n u = Some e" "\<not> isComplete e" using f(3) by blast
  have "inviteRemovalState (me_store m) (me_sha256 m) invite (Some u) w' = (Inr Removal_revoked, w')"
    if "inv_roomId invite = roomId" for invite
    using member_store.inviteRemovalState_quiet[OF ms w'(2), of invite r "Some u"] that assms(5) w'(3,4) f(1)
      removalDecision_target[OF e(1) assms(12), of invite] e(2) by (simp add: store)
  then show ?thesis using w'(1) by blast
qed

text \<open>C36: A membership lease excludes other work. On a quiet machine with a free lease, \<open>withMembershipLease\<close> runs its
  work from a state in which, as long as the lease record stands and its five minutes have not passed, every other
  attempt for the same room and human is refused without running its work; releasing the lease makes it free.\<close>

theorem lease_excludes:
  assumes "inj (le_sha256 env)" and "\<And>n. le_uuid env n \<noteq> []" and "soundMachine env pd nt w"
    and "m = localMember env pd nt toNumber" and "x = le_uuid env (fs_uuids w)" and "k = leaseKey m roomId ownerId"
    and "isSafeKey k" and "isSafeKey (js ''membership-lease.claim.'' @ x)" and "isSafeKey (js ''membership-lease.release.'' @ x)"
    and "localLedger env w (js ''membership-lease.claim.'' @ x) = None"
    and "localView env pd nt w k = None \<or> (\<exists>r t. localView env pd nt w k = Some r \<and> cr_value r = leaseRecord None t)"
  shows "\<exists>w1. soundMachine env pd nt w1 \<and> fs_now w1 = fs_now w
    \<and> withMembershipLease m roomId ownerId (work :: _ \<Rightarrow> (fsWorld, 't) act) w
        = finallyS (bindS (work (renewLease m k x)) (\<lambda>y. retS (Some y))) (releaseLease m k x) w1
    \<and> (\<forall>w2. soundMachine env pd nt w2 \<and> localView env pd nt w2 k = localView env pd nt w1 k \<longrightarrow>
        (fs_now w2 < fs_now w + 300000 \<longrightarrow>
          (\<exists>w3. withMembershipLease m roomId ownerId (other :: _ \<Rightarrow> (fsWorld, 't) act) w2 = (Inr None, w3)))
        \<and> (localLedger env w2 (js ''membership-lease.release.'' @ x) = None \<longrightarrow>
          (\<exists>w3 r. releaseLease m k x w2 = (Inr (), w3) \<and> localView env pd nt w3 k = Some r \<and> cr_value r = leaseRecord None 0)))"
proof -
  note ms = ideal_local_store.is_member_store[OF ideal_local_store.intro[OF assms(1,2)], of pd nt toNumber, folded assms(4)]
  have uuid: "me_uuid m w = (x, w\<lparr>fs_uuids := Suc (fs_uuids w)\<rparr>)" by (simp add: assms(4,5) localMember_def)
  note run = member_store.lease_runs[OF ms assms(3) assms(7)[unfolded assms(6)]]
  note run = run[OF assms(11)[unfolded assms(6)]]
  note run = run[OF uuid]
  note run = run[OF assms(8)]
  obtain w1 r where w1: "soundMachine env pd nt w1" "fs_now w1 = fs_now w" "localView env pd nt w1 k = Some r"
    "cr_value r = leaseRecord (Some x) (fs_now w + LEASE_MS)"
    "\<forall>work :: _ \<Rightarrow> (fsWorld, 't) act. withMembershipLease m roomId ownerId work w
        = finallyS (bindS (work (renewLease m k x)) (\<lambda>y. retS (Some y))) (releaseLease m k x) w1"
    using run[OF assms(10)] unfolding assms(6) by blast
  have refuse: "\<exists>w3. withMembershipLease m roomId ownerId (other :: _ \<Rightarrow> (fsWorld, 't) act) w2 = (Inr None, w3)"
    if "soundMachine env pd nt w2" "localView env pd nt w2 k = Some r" "fs_now w2 < fs_now w + LEASE_MS" for w2
    using member_store.lease_refuses[OF ms that(1) assms(7)[unfolded assms(6)] that(2)[unfolded assms(6)] w1(4) that(3), of other] by blast
  have free: "\<exists>w3 r. releaseLease m k x w2 = (Inr (), w3) \<and> localView env pd nt w3 k = Some r \<and> cr_value r = leaseRecord None 0"
    if "soundMachine env pd nt w2" "localView env pd nt w2 k = Some r" "localLedger env w2 (js ''membership-lease.release.'' @ x) = None" for w2
  proof -
    note release = member_store.release_frees[OF ms that(1) assms(7) that(2) w1(4)]
    note release = release[OF assms(9)]
    show ?thesis using release[OF that(3)] by blast
  qed
  show ?thesis using w1 refuse free by (intro exI[of _ w1]) (simp add: LEASE_MS_def)
qed

section \<open>Witnesses\<close>

theorem removals_history_witness:
  "validRemovals (nextRemovals None (js ''own_c'') (js ''own_a'') [js ''@a''] (js ''A''))"
proof -
  have "removalStep None (Some (nextRemovals None (js ''own_c'') (js ''own_a'') [js ''@a''] (js ''A'')))"
    by (rule step_record) (simp_all add: okPrevious_def nextGeneration_def safeNat_def)
  then show ?thesis using removals_history[OF r_into_rtranclp rtranclp.rtrancl_refl] by blast
qed

theorem removed_owner_stays_out_witness:
  "removalDecision (Some (nextRemovals None (js ''own_c'') (js ''own_a'') [] (js ''A'')))
     \<lparr>inv_roomId = js ''r'', inv_creatorOwnerId = js ''own_c'', inv_inviteRefDigest = js ''d'', inv_removalGeneration = None,
       inv_policy = Stored_link History_none, inv_status = Invite_active, inv_expiresAt = None,
       inv_lastAuthorizedOperationDigest = None\<rparr> (Some (js ''own_a'')) = Removal_revoked"
  (is "removalDecision (Some ?n) ?i _ = _")
proof -
  have "okPrevious None" "safeNat (nextGeneration None (js ''own_a''))" "js ''own_a'' \<noteq> []"
    "inviteGeneration ?i < nextGeneration None (js ''own_a'')"
    by (simp_all add: okPrevious_def nextGeneration_def safeNat_def inviteGeneration_def)
  then show ?thesis using removed_owner_stays_out[OF _ _ _ rtranclp.rtrancl_refl] by blast
qed

theorem removal_takes_effect_witness:
  "\<exists>w'. recordRemoval (localMember sampleEnv (\<lambda>_. None) sampleNumText (\<lambda>_. NaN)) (js ''r'') (js ''own_c'') (js ''own_a'') [] (js ''A'')
     emptyWorld = (Inr (Some (nextRemovals None (js ''own_c'') (js ''own_a'') [] (js ''A''))), w')"
proof -
  have none: "None = map_option cr_value (localView sampleEnv (\<lambda>_. None) sampleNumText emptyWorld k)" for k
    by (simp add: emptyWorld_sound)
  have keys: "isSafeKey (removalsKey (localMember sampleEnv (\<lambda>_. None) sampleNumText (\<lambda>_. NaN)) (js ''r''))"
    "isSafeKey (js ''channel.remove.'' @ le_uuid sampleEnv (fs_uuids emptyWorld))"
    by (simp_all add: removalsKey_def localMember_def sampleEnv_def emptyWorld_def js_append[symmetric]) code_simp+
  have "okPrevious None" "safeNat (nextGeneration None (js ''own_a''))" "js ''own_a'' \<noteq> []" "arrayIndex (js ''own_a'') = None"
    by (simp_all add: okPrevious_def nextGeneration_def safeNat_def) code_simp
  then show ?thesis
    using removal_takes_effect[OF sample_store.sha_inj sample_store.uuid_text emptyWorld_sound(1) refl keys emptyWorld_ok(3) none]
    by blast
qed

text \<open>A hash whose text is hexadecimal.\<close>

definition hexText :: "ustring \<Rightarrow> ustring" where
  "hexText s = concat (map (\<lambda>u. drop 2 (unicodeEscape u)) s)"

lemma hexText_inj: "inj hexText"
proof
  fix s t
  have four: "length (drop 2 (unicodeEscape u)) = 4" for u by (simp add: unicodeEscape_def)
  have unit: "drop 2 (unicodeEscape u) = drop 2 (unicodeEscape v) \<Longrightarrow> u = v" for u v
  proof -
    assume "drop 2 (unicodeEscape u) = drop 2 (unicodeEscape v)"
    then have "unicodeEscape u = unicodeEscape v" by (simp add: unicodeEscape_def)
    then have "map_option (apfst ((#) u)) (unquote [0x22]) = map_option (apfst ((#) v)) (unquote [0x22])"
      using unquote_escape[of u "[0x22]"] unquote_escape[of v "[0x22]"] by metis
    moreover have "unquote [0x22] = Some ([], [])" by simp
    ultimately show "u = v" by (simp only: option.map option.inject apfst_conv prod.inject list.inject)
  qed
  show "hexText s = hexText t \<Longrightarrow> s = t"
  proof (induction s arbitrary: t)
    case Nil
    then show ?case using four by (cases t) (auto simp: hexText_def unicodeEscape_def)
  next
    case (Cons u s)
    show ?case
    proof (cases t)
      case Nil
      then show ?thesis using Cons.prems by (simp add: hexText_def unicodeEscape_def)
    next
      case t: (Cons v t')
      then have "drop 2 (unicodeEscape u) @ hexText s = drop 2 (unicodeEscape v) @ hexText t'"
        using Cons.prems by (simp add: hexText_def)
      then show ?thesis using Cons.IH unit four t by (metis append_eq_append_conv)
    qed
  qed
qed

definition hexMember :: "fsWorld memberEnv" where
  "hexMember = localMember (sampleEnv\<lparr>le_sha256 := hexText\<rparr>) (\<lambda>_. None) sampleNumText (\<lambda>_. NaN)"

theorem lease_excludes_witness:
  "\<exists>w1. withMembershipLease hexMember (js ''r'') (js ''own_a'') (\<lambda>_. retS True) emptyWorld
     = finallyS (bindS (retS True) (\<lambda>y. retS (Some y)))
         (releaseLease hexMember (leaseKey hexMember (js ''r'') (js ''own_a'')) (js ''u0'')) w1"
proof -
  let ?env = "sampleEnv\<lparr>le_sha256 := hexText\<rparr>"
  have x: "js ''u0'' = le_uuid ?env (fs_uuids emptyWorld)" by code_simp
  have keys: "isSafeKey (leaseKey hexMember (js ''r'') (js ''own_a''))"
    "isSafeKey (js ''membership-lease.claim.'' @ js ''u0'')" "isSafeKey (js ''membership-lease.release.'' @ js ''u0'')"
    by (simp add: leaseKey_def hexMember_def localMember_def) code_simp+
  have inj: "inj (le_sha256 ?env)" using hexText_inj by simp
  have uuid: "le_uuid ?env n \<noteq> []" for n using sample_store.uuid_text by simp
  note run = lease_excludes[OF inj uuid emptyWorld_sound(1) hexMember_def x refl keys emptyWorld_ok(3)]
  show ?thesis using run[OF disjI1[OF emptyWorld_sound(2)], where work = "\<lambda>_. retS True"] by blast
qed

end
