(* ===== verification/Images.thy ===== *)
theory Images
  imports Json InvitePolicy
begin

text \<open>
  Image attachments (\<^verbatim>\<open>packages/contracts/src/m1/image.ts\<close>): type sniffing from magic bytes, removal of
  metadata from JPEG, PNG and WebP bytes, and the image reference a message carries. Bytes are \<open>8 word\<close>, the
  bit operations are those of 32-bit integers, file positions are unbounded numbers. The Unicode category \<open>Cf\<close> is a
  parameter. \<open>jpegSegments\<close> and \<open>pngChunks\<close> read a file as its list of segments; the strippers are proved to be
  filters on those lists.
\<close>

unbundle bit_operations_syntax

type_synonym byte = "8 word"
type_synonym bytes = "byte list"

datatype imageMimeType = Image_jpeg | Image_png | Image_gif | Image_webp

definition IMAGE_MIME_TYPES :: "(string \<times> imageMimeType) list" where
  "IMAGE_MIME_TYPES = [(''image/jpeg'', Image_jpeg), (''image/png'', Image_png), (''image/gif'', Image_gif), (''image/webp'', Image_webp)]"

definition IMAGE_MAX_BYTES :: nat where
  "IMAGE_MAX_BYTES = 10 * 1024 * 1024"

definition MAX_DIMENSION :: nat where
  "MAX_DIMENSION = 65535"

record sniffedImage =
  sn_mimetype :: imageMimeType
  sn_w :: nat
  sn_h :: nat

section \<open>Reading bytes\<close>

definition wide :: "byte \<Rightarrow> 32 word" where
  "wide b = ucast b"

definition u16be :: "bytes \<Rightarrow> nat \<Rightarrow> 32 word" where
  "u16be b i = push_bit 8 (wide (b ! i)) OR wide (b ! (i + 1))"

definition u16le :: "bytes \<Rightarrow> nat \<Rightarrow> 32 word" where
  "u16le b i = wide (b ! i) OR push_bit 8 (wide (b ! (i + 1)))"

definition u24le :: "bytes \<Rightarrow> nat \<Rightarrow> 32 word" where
  "u24le b i = wide (b ! i) OR push_bit 8 (wide (b ! (i + 1))) OR push_bit 16 (wide (b ! (i + 2)))"

definition u32 :: "bytes \<Rightarrow> nat \<Rightarrow> 32 word" where
  "u32 b i = push_bit 16 (u16be b i) OR u16be b (i + 2)"

definition u32le :: "bytes \<Rightarrow> nat \<Rightarrow> 32 word" where
  "u32le b i = u16le b i OR push_bit 16 (u16le b (i + 2))"

definition asciiBytes :: "string \<Rightarrow> bytes" where
  "asciiBytes s = map (\<lambda>c. of_nat (of_char c)) s"

text \<open>\<open>ascii(b, i, text)\<close>: past the end a byte is \<open>undefined\<close> and never matches.\<close>

definition asciiAt :: "bytes \<Rightarrow> nat \<Rightarrow> bytes \<Rightarrow> bool" where
  "asciiAt b i t \<longleftrightarrow> take (length t) (drop i b) = t"

definition fourcc :: "bytes \<Rightarrow> nat \<Rightarrow> bytes" where
  "fourcc b i = take 4 (drop i b)"

definition subarray :: "bytes \<Rightarrow> nat \<Rightarrow> nat \<Rightarrow> bytes" where
  "subarray b i j = take (j - i) (drop i b)"

section \<open>Sniffing\<close>

definition isFrameMarker :: "byte \<Rightarrow> bool" where
  "isFrameMarker m \<longleftrightarrow> 0xC0 \<le> m \<and> m \<le> 0xCF \<and> m \<noteq> 0xC4 \<and> m \<noteq> 0xC8 \<and> m \<noteq> 0xCC"

function sniffJpeg :: "bytes \<Rightarrow> nat \<Rightarrow> sniffedImage option" where
  "sniffJpeg b i =
     (if i + 9 < length b then
        if b ! i \<noteq> 0xFF then None
        else
          let marker = b ! (i + 1) in
          if marker = 0xFF then sniffJpeg b (i + 1)
          else if isFrameMarker marker
          then Some \<lparr>sn_mimetype = Image_jpeg, sn_w = unat (u16be b (i + 7)), sn_h = unat (u16be b (i + 5))\<rparr>
          else if marker = 0xDA \<or> marker = 0xD9 then None
          else sniffJpeg b (i + 2 + unat (u16be b (i + 2)))
      else None)"
  by pat_completeness auto
termination
  by (relation "measure (\<lambda>(b, i). length b - i)") auto

declare sniffJpeg.simps [simp del]

definition sniffWebp :: "bytes \<Rightarrow> sniffedImage option" where
  "sniffWebp b =
     (if asciiAt b 12 (asciiBytes ''VP8 '')
      then Some \<lparr>sn_mimetype = Image_webp, sn_w = unat (u16le b 26 AND 0x3FFF), sn_h = unat (u16le b 28 AND 0x3FFF)\<rparr>
      else if asciiAt b 12 (asciiBytes ''VP8L'')
      then Some \<lparr>sn_mimetype = Image_webp,
             sn_w = 1 + unat (push_bit 8 (wide (b ! 22) AND 0x3F) OR wide (b ! 21)),
             sn_h = 1 + unat (push_bit 10 (wide (b ! 24) AND 0x0F) OR push_bit 2 (wide (b ! 23))
                         OR drop_bit 6 (wide (b ! 22) AND 0xC0))\<rparr>
      else if asciiAt b 12 (asciiBytes ''VP8X'')
      then Some \<lparr>sn_mimetype = Image_webp, sn_w = 1 + unat (u24le b 24), sn_h = 1 + unat (u24le b 27)\<rparr>
      else None)"

definition sniffType :: "bytes \<Rightarrow> sniffedImage option" where
  "sniffType b =
     (if 24 \<le> length b \<and> b ! 0 = 0x89 \<and> asciiAt b 1 (asciiBytes ''PNG'' @ [0x0D, 0x0A, 0x1A, 0x0A]) \<and> asciiAt b 12 (asciiBytes ''IHDR'')
      then Some \<lparr>sn_mimetype = Image_png, sn_w = unat (push_bit 16 (u16be b 16) OR u16be b 18),
             sn_h = unat (push_bit 16 (u16be b 20) OR u16be b 22)\<rparr>
      else if 10 \<le> length b \<and> (asciiAt b 0 (asciiBytes ''GIF87a'') \<or> asciiAt b 0 (asciiBytes ''GIF89a''))
      then Some \<lparr>sn_mimetype = Image_gif, sn_w = unat (u16le b 6), sn_h = unat (u16le b 8)\<rparr>
      else if 30 \<le> length b \<and> asciiAt b 0 (asciiBytes ''RIFF'') \<and> asciiAt b 8 (asciiBytes ''WEBP'')
      then sniffWebp b
      else if 4 \<le> length b \<and> b ! 0 = 0xFF \<and> b ! 1 = 0xD8
      then sniffJpeg b 2
      else None)"

definition sniffImage :: "bytes \<Rightarrow> sniffedImage option" where
  "sniffImage b = (case sniffType b of
     None \<Rightarrow> None
   | Some found \<Rightarrow>
       if 1 \<le> sn_w found \<and> 1 \<le> sn_h found \<and> sn_w found \<le> MAX_DIMENSION \<and> sn_h found \<le> MAX_DIMENSION
       then Some found else None)"

datatype imageRefusal = Unsupported_type | Heic | Too_large | Empty_image

definition HEIF_BRANDS :: "bytes list" where
  "HEIF_BRANDS = map asciiBytes [''heic'', ''heix'', ''hevc'', ''hevx'', ''heim'', ''heis'', ''mif1'', ''msf1'']"

definition isHeif :: "bytes \<Rightarrow> bool" where
  "isHeif b \<longleftrightarrow> 12 \<le> length b \<and> asciiAt b 4 (asciiBytes ''ftyp'') \<and> list_ex (asciiAt b 8) HEIF_BRANDS"

definition checkImage :: "bytes \<Rightarrow> imageRefusal + sniffedImage" where
  "checkImage b =
     (if length b = 0 then Inl Empty_image
      else if length b > IMAGE_MAX_BYTES then Inl Too_large
      else case sniffImage b of
        Some found \<Rightarrow> Inr found
      | None \<Rightarrow> Inl (if isHeif b then Heic else Unsupported_type))"

section \<open>Removing metadata\<close>

text \<open>The segment loop of \<open>stripJpeg\<close>; \<open>None\<close> is its early return of the input.\<close>

definition jpegMetadata :: "byte list" where
  "jpegMetadata = [0xE1, 0xED, 0xFE]"

function stripJpegFrom :: "bytes \<Rightarrow> nat \<Rightarrow> bytes list \<Rightarrow> bytes list option" where
  "stripJpegFrom b i parts =
     (if i + 3 < length b \<and> b ! i = 0xFF then
        let marker = b ! (i + 1) in
        if marker = 0xDA then Some (parts @ [drop i b])
        else
          let end = i + 2 + unat (u16be b (i + 2)) in
          if end > length b then None
          else stripJpegFrom b end (if marker \<notin> set jpegMetadata then parts @ [subarray b i end] else parts)
      else Some (parts @ [drop i b]))"
  by pat_completeness auto
termination
  by (relation "measure (\<lambda>(b, i, parts). length b - i)") auto

declare stripJpegFrom.simps [simp del]

definition stripJpeg :: "bytes \<Rightarrow> bytes" where
  "stripJpeg b = (case stripJpegFrom b 2 [subarray b 0 2] of None \<Rightarrow> b | Some parts \<Rightarrow> concat parts)"

definition PNG_METADATA :: "bytes list" where
  "PNG_METADATA = map asciiBytes [''eXIf'', ''tEXt'', ''zTXt'', ''iTXt'', ''tIME'']"

function stripPngFrom :: "bytes \<Rightarrow> nat \<Rightarrow> bytes list \<Rightarrow> bytes list option" where
  "stripPngFrom b i parts =
     (if i + 12 \<le> length b then
        let end = i + 12 + unat (u32 b i) in
        if end > length b then None
        else
          let type = fourcc b (i + 4);
              parts' = (if type \<notin> set PNG_METADATA then parts @ [subarray b i end] else parts) in
          if type = asciiBytes ''IEND'' then Some parts' else stripPngFrom b end parts'
      else Some parts)"
  by pat_completeness auto
termination
  by (relation "measure (\<lambda>(b, i, parts). length b - i)") auto

declare stripPngFrom.simps [simp del]

definition stripPng :: "bytes \<Rightarrow> bytes" where
  "stripPng b = (case stripPngFrom b 8 [subarray b 0 8] of None \<Rightarrow> b | Some parts \<Rightarrow> concat parts)"

function stripWebpFrom :: "bytes \<Rightarrow> nat \<Rightarrow> bytes list \<Rightarrow> bytes list option" where
  "stripWebpFrom b i parts =
     (if i + 8 \<le> length b then
        let size = unat (u32le b (i + 4)) in
        if i + 8 + size > length b then None
        else
          let end = min (length b) (i + 8 + size + size mod 2);
              type = fourcc b i in
          stripWebpFrom b end (if type \<noteq> asciiBytes ''EXIF'' \<and> type \<noteq> asciiBytes ''XMP '' then parts @ [subarray b i end] else parts)
      else Some parts)"
  by pat_completeness auto
termination
  by (relation "measure (\<lambda>(b, i, parts). length b - i)") auto

declare stripWebpFrom.simps [simp del]

definition riffSize :: "nat \<Rightarrow> bytes" where
  "riffSize n = (let riff = (of_nat n :: 32 word) in
     [ucast (riff AND 0xFF), ucast (drop_bit 8 riff AND 0xFF), ucast (drop_bit 16 riff AND 0xFF), ucast (drop_bit 24 riff)])"

text \<open>\<open>None\<close> is the \<open>RangeError\<close> of writing the size into fewer than eight bytes.\<close>

definition fixWebp :: "bytes \<Rightarrow> bytes option" where
  "fixWebp out =
     (if length out < 8 then None
      else
        let out = take 4 out @ riffSize (length out - 8) @ drop 8 out in
        Some (if fourcc out 12 = asciiBytes ''VP8X'' \<and> 20 < length out then out[20 := out ! 20 AND NOT 0x0C] else out))"

definition stripWebp :: "bytes \<Rightarrow> bytes option" where
  "stripWebp b = (case stripWebpFrom b 12 [subarray b 0 12] of None \<Rightarrow> Some b | Some parts \<Rightarrow> fixWebp (concat parts))"

definition stripImageMetadata :: "bytes \<Rightarrow> imageMimeType \<Rightarrow> bytes option" where
  "stripImageMetadata b mimetype = (case mimetype of
     Image_jpeg \<Rightarrow> Some (stripJpeg b)
   | Image_png \<Rightarrow> Some (stripPng b)
   | Image_webp \<Rightarrow> stripWebp b
   | Image_gif \<Rightarrow> Some b)"

section \<open>Image references\<close>

record imageRef =
  img_name :: ustring
  img_mimetype :: imageMimeType
  img_size :: nat
  img_w :: nat
  img_h :: nat
  img_url :: ustring
  img_key :: ustring
  img_iv :: ustring
  img_sha256 :: ustring

definition isControlPoint :: "nat \<Rightarrow> bool" where
  "isControlPoint c \<longleftrightarrow> c \<le> 0x1F \<or> (0x7F \<le> c \<and> c \<le> 0x9F)"

text \<open>\<open>/^[^\p{Cc}\p{Cf}/\\]{1,255}$/u\<close>\<close>

definition matchesName :: "(nat \<Rightarrow> bool) \<Rightarrow> ustring \<Rightarrow> bool" where
  "matchesName isFormat s \<longleftrightarrow> 1 \<le> length (code_points s) \<and> length (code_points s) \<le> 255
     \<and> list_all (\<lambda>c. \<not> isControlPoint c \<and> \<not> isFormat c \<and> c \<noteq> 0x2F \<and> c \<noteq> 0x5C) (code_points s)"

definition isAlnum :: "cunit \<Rightarrow> bool" where
  "isAlnum u \<longleftrightarrow> isDigit u \<or> (0x41 \<le> u \<and> u \<le> 0x5A) \<or> (0x61 \<le> u \<and> u \<le> 0x7A)"

definition isHostUnit :: "cunit \<Rightarrow> bool" where
  "isHostUnit u \<longleftrightarrow> isAlnum u \<or> u \<in> set (js ''.:[]-'')"

definition matchesMxc :: "ustring \<Rightarrow> bool" where
  "matchesMxc s \<longleftrightarrow> startsWith s (js ''mxc://'') \<and>
     (let rest = drop 6 s; host = takeWhile (\<lambda>u. u \<noteq> 0x2F) rest; media = drop (length host + 1) rest in
      1 \<le> length host \<and> length host \<le> 255 \<and> list_all isHostUnit host \<and> length host < length rest
      \<and> 1 \<le> length media \<and> length media \<le> 255 \<and> list_all isTokenUnit media)"

definition isBase64Unit :: "cunit \<Rightarrow> bool" where
  "isBase64Unit u \<longleftrightarrow> isAlnum u \<or> u = 0x2B \<or> u = 0x2F"

definition matchesKey :: "ustring \<Rightarrow> bool" where
  "matchesKey s \<longleftrightarrow> length s = 43 \<and> list_all isTokenUnit s"

definition matchesIv :: "ustring \<Rightarrow> bool" where
  "matchesIv s \<longleftrightarrow> list_all isBase64Unit (take 22 s) \<and> (length s = 22 \<or> (length s = 24 \<and> drop 22 s = js ''==''))"

definition matchesSha :: "ustring \<Rightarrow> bool" where
  "matchesSha s \<longleftrightarrow> length s = 43 \<and> list_all isBase64Unit s"

definition intUpTo :: "jsval \<Rightarrow> nat \<Rightarrow> nat option" where
  "intUpTo v limit = (case v of
     JNum (Fin q) \<Rightarrow> if of_int \<lfloor>q\<rfloor> = q \<and> 1 \<le> q \<and> q \<le> of_nat limit then Some (nat \<lfloor>q\<rfloor>) else None
   | _ \<Rightarrow> None)"

definition readMime :: "jsval \<Rightarrow> imageMimeType option" where
  "readMime v = (case v of JStr s \<Rightarrow> map_of (map (\<lambda>(k, m). (js k, m)) IMAGE_MIME_TYPES) s | _ \<Rightarrow> None)"

definition textMatching :: "(ustring \<Rightarrow> bool) \<Rightarrow> jsval \<Rightarrow> ustring option" where
  "textMatching ok v = (case v of JStr s \<Rightarrow> if ok s then Some s else None | _ \<Rightarrow> None)"

definition readImageRef :: "(nat \<Rightarrow> bool) \<Rightarrow> jsval \<Rightarrow> imageRef option" where
  "readImageRef isFormat value = (case value of
     JObj plain ps \<Rightarrow>
       if joinWith 0x2C (sort (map fst ps)) \<noteq> js ''h,iv,key,mimetype,name,sha256,size,url,w'' then None
       else
         Option.bind (textMatching (matchesName isFormat) (getProp value (js ''name''))) (\<lambda>name.
         Option.bind (readMime (getProp value (js ''mimetype''))) (\<lambda>mimetype.
         Option.bind (intUpTo (getProp value (js ''size'')) (IMAGE_MAX_BYTES * 2)) (\<lambda>size.
         Option.bind (intUpTo (getProp value (js ''w'')) MAX_DIMENSION) (\<lambda>w.
         Option.bind (intUpTo (getProp value (js ''h'')) MAX_DIMENSION) (\<lambda>h.
         Option.bind (textMatching matchesMxc (getProp value (js ''url''))) (\<lambda>url.
         Option.bind (textMatching matchesKey (getProp value (js ''key''))) (\<lambda>key.
         Option.bind (textMatching matchesIv (getProp value (js ''iv''))) (\<lambda>iv.
         Option.bind (textMatching matchesSha (getProp value (js ''sha256''))) (\<lambda>sha.
         Some \<lparr>img_name = name, img_mimetype = mimetype, img_size = size, img_w = w, img_h = h, img_url = url,
              img_key = key, img_iv = iv, img_sha256 = sha\<rparr>)))))))))
   | _ \<Rightarrow> None)"

definition mimeText :: "imageMimeType \<Rightarrow> ustring" where
  "mimeText m = js (case m of Image_jpeg \<Rightarrow> ''image/jpeg'' | Image_png \<Rightarrow> ''image/png'' | Image_gif \<Rightarrow> ''image/gif''
     | Image_webp \<Rightarrow> ''image/webp'')"

text \<open>An \<open>ImageRef\<close> as the object it is at run time.\<close>

definition imageObject :: "imageRef \<Rightarrow> jsval" where
  "imageObject r = JObj True [(js ''name'', JStr (img_name r)), (js ''mimetype'', JStr (mimeText (img_mimetype r))),
     (js ''size'', jnat (img_size r)), (js ''w'', jnat (img_w r)), (js ''h'', jnat (img_h r)), (js ''url'', JStr (img_url r)),
     (js ''key'', JStr (img_key r)), (js ''iv'', JStr (img_iv r)), (js ''sha256'', JStr (img_sha256 r))]"

definition imageEventContent :: "imageRef \<Rightarrow> ustring \<Rightarrow> jsval" where
  "imageEventContent ref caption =
     JObj True [(js ''msgtype'', JStr (js ''m.image'')),
       (js ''body'', JStr (if caption = [] then img_name ref else caption)), (js ''filename'', JStr (img_name ref)),
       (js ''info'', JObj True [(js ''mimetype'', JStr (mimeText (img_mimetype ref))), (js ''size'', jnat (img_size ref)),
          (js ''w'', jnat (img_w ref)), (js ''h'', jnat (img_h ref))]),
       (js ''file'', JObj True [(js ''v'', JStr (js ''v2'')), (js ''url'', JStr (img_url ref)), (js ''iv'', JStr (img_iv ref)),
          (js ''hashes'', JObj True [(js ''sha256'', JStr (img_sha256 ref))]),
          (js ''key'', JObj True [(js ''kty'', JStr (js ''oct'')),
             (js ''key_ops'', JArr [JStr (js ''encrypt''), JStr (js ''decrypt'')]), (js ''alg'', JStr (js ''A256CTR'')),
             (js ''k'', JStr (img_key ref)), (js ''ext'', JBool True)])])]"

definition readImageEvent :: "(nat \<Rightarrow> bool) \<Rightarrow> jsval \<Rightarrow> (imageRef \<times> ustring) option" where
  "readImageEvent isFormat content = (case getProp content (js ''body'') of
     JStr body \<Rightarrow>
       if getProp content (js ''msgtype'') \<noteq> JStr (js ''m.image'') then None
       else
         let file = getProp content (js ''file''); info = getProp content (js ''info'');
             key = getProp file (js ''key''); hashes = getProp file (js ''hashes'') in
         if getProp file (js ''v'') \<noteq> JStr (js ''v2'') \<or> getProp key (js ''alg'') \<noteq> JStr (js ''A256CTR'')
           \<or> getProp key (js ''kty'') \<noteq> JStr (js ''oct'') then None
         else
           let name = (case getProp content (js ''filename'') of JStr f \<Rightarrow> f | _ \<Rightarrow> body) in
           map_option (\<lambda>ref. (ref, if body = name then [] else body))
             (readImageRef isFormat (JObj True [(js ''name'', JStr name), (js ''mimetype'', getProp info (js ''mimetype'')),
                (js ''size'', getProp info (js ''size'')), (js ''w'', getProp info (js ''w'')), (js ''h'', getProp info (js ''h'')),
                (js ''url'', getProp file (js ''url'')), (js ''key'', getProp key (js ''k'')), (js ''iv'', getProp file (js ''iv'')),
                (js ''sha256'', getProp hashes (js ''sha256''))]))
   | _ \<Rightarrow> None)"

text \<open>\<open>name.replace(/[\p{Cc}\p{Cf}/\\]/gu, '')\<close>, then \<open>.replace(/\.[^.]*$/u, '')\<close>.\<close>

definition dropFormat :: "(nat \<Rightarrow> bool) \<Rightarrow> ustring \<Rightarrow> ustring" where
  "dropFormat isFormat s = concat (filter (\<lambda>c. case code_points c of
     [p] \<Rightarrow> \<not> (isControlPoint p \<or> isFormat p \<or> p = 0x2F \<or> p = 0x5C) | _ \<Rightarrow> True) (char_strings s))"

definition dropExtension :: "ustring \<Rightarrow> ustring" where
  "dropExtension s = (if 0x2E \<in> set s then rev (tl (dropWhile (\<lambda>u. u \<noteq> 0x2E) (rev s))) else s)"

definition imageFileName :: "(nat \<Rightarrow> bool) \<Rightarrow> ustring \<Rightarrow> imageMimeType \<Rightarrow> ustring" where
  "imageFileName isFormat name mimetype =
     (let stem = dropExtension (dropFormat isFormat name);
          stem = (if stem = [] then js ''image'' else stem) in
      stem @ js ''.'' @ (if mimetype = Image_jpeg then js ''jpg'' else drop 6 (mimeText mimetype)))"

definition imageLabel :: "imageRef \<Rightarrow> ustring" where
  "imageLabel ref = js ''[image: '' @ img_name ref @ js '', '' @ dec_digits (img_w ref) @ js ''x'' @ dec_digits (img_h ref) @ js '']''"

end
