(* ===== verification/ImageProperties.thy ===== *)
theory ImageProperties
  imports Images
begin

text \<open>
  Metadata removal as a filter on the segments of a file, and the round trip of image references. \<open>jpegSegments\<close> and
  \<open>pngChunks\<close> are the reference readings of the formats, on the remaining bytes instead of a position.
\<close>

section \<open>Two bytes as a number\<close>

lemma u16be_value: "unat (u16be b i) = 256 * unat (b ! i) + unat (b ! (i + 1))"
proof -
  have lt: "unat (x :: byte) < 256" for x using unsigned_less[of x, where ?'a = nat] by simp
  have "push_bit 8 (wide (b ! i)) AND wide (b ! (i + 1)) = 0"
    by (rule bit_eqI) (auto simp: bit_simps wide_def dest: bit_imp_le_length)
  then have "u16be b i = push_bit 8 (wide (b ! i)) + wide (b ! (i + 1))"
    unfolding u16be_def by (rule disjunctive_add_eq_or[symmetric])
  also have "\<dots> = of_nat (256 * unat (b ! i) + unat (b ! (i + 1)))"
    by (simp add: push_bit_eq_mult wide_def unsigned_of_nat mult.commute)
  finally have sum: "u16be b i = of_nat (256 * unat (b ! i) + unat (b ! (i + 1)))" .
  have "unat (of_nat k :: 32 word) = k" if "k < 65536" for k using that by (simp add: unat_of_nat take_bit_eq_mod)
  moreover have "256 * unat (b ! i) + unat (b ! (i + 1)) < 65536" using lt[of "b ! i"] lt[of "b ! (i + 1)"] by simp
  ultimately show ?thesis unfolding sum by blast
qed

section \<open>JPEG\<close>

function jpegSegments :: "bytes \<Rightarrow> (bytes list \<times> bytes) option" where
  "jpegSegments s =
     (if 3 < length s \<and> s ! 0 = 0xFF \<and> s ! 1 \<noteq> 0xDA then
        let n = 2 + unat (u16be s 2) in
        if n > length s then None
        else map_option (apfst ((#) (take n s))) (jpegSegments (drop n s))
      else Some ([], s))"
  by pat_completeness auto
termination
  by (relation "measure length") auto

declare jpegSegments.simps [simp del]

definition jpegKept :: "bytes \<Rightarrow> bool" where
  "jpegKept seg \<longleftrightarrow> seg ! 1 \<notin> {0xE1, 0xED, 0xFE}"

lemma stripJpegFrom_segments:
  "i \<le> length b \<Longrightarrow> stripJpegFrom b i parts
     = map_option (\<lambda>(segs, rest). parts @ filter jpegKept segs @ [rest]) (jpegSegments (drop i b))"
proof (induction b i parts rule: stripJpegFrom.induct)
  case (1 b i parts)
  let ?s = "drop i b"
  show ?case
  proof (cases "i + 3 < length b \<and> b ! i = 0xFF \<and> b ! (i + 1) \<noteq> 0xDA")
    case seg: True
    let ?n = "2 + unat (u16be b (i + 2))"
    have nth: "?s ! 0 = b ! i" "?s ! 1 = b ! (i + 1)" "u16be ?s 2 = u16be b (i + 2)"
      using seg by (simp_all add: u16be_def ac_simps)
    have step: "stripJpegFrom b i parts = (if i + ?n > length b then None
        else stripJpegFrom b (i + ?n) (if b ! (i + 1) \<notin> set jpegMetadata then parts @ [subarray b i (i + ?n)] else parts))"
      using seg by (subst stripJpegFrom.simps) (simp add: Let_def)
    have segs: "jpegSegments ?s = (if ?n > length ?s then None
        else map_option (apfst ((#) (take ?n ?s))) (jpegSegments (drop ?n ?s)))"
    proof -
      have "3 < length ?s" using seg by (simp add: less_diff_conv)
      then show ?thesis using seg nth by (subst jpegSegments.simps) (simp add: Let_def)
    qed
    have kept: "jpegKept (take ?n ?s) = (b ! (i + 1) \<notin> set jpegMetadata)"
      using seg by (simp add: jpegKept_def jpegMetadata_def)
    have fit: "length ?s < ?n \<longleftrightarrow> length b < i + ?n"
      unfolding length_drop using seg by linarith
    show ?thesis
    proof (cases "i + ?n > length b")
      case True
      then show ?thesis unfolding step segs fit by simp
    next
      case False
      have "stripJpegFrom b (i + ?n) (if b ! (i + 1) \<notin> set jpegMetadata then parts @ [subarray b i (i + ?n)] else parts)
        = map_option (\<lambda>(segs, rest). (if b ! (i + 1) \<notin> set jpegMetadata then parts @ [subarray b i (i + ?n)] else parts)
            @ filter jpegKept segs @ [rest]) (jpegSegments (drop (i + ?n) b))"
        using 1 seg False by (simp add: Let_def ac_simps)
      then show ?thesis
        unfolding step segs fit using False kept
        by (cases "jpegSegments (drop (i + ?n) b)") (auto simp: subarray_def ac_simps)
    qed
  next
    case False
    then have "jpegSegments ?s = Some ([], ?s)" using 1(2) by (subst jpegSegments.simps) auto
    moreover have "stripJpegFrom b i parts = Some (parts @ [?s])" using False by (subst stripJpegFrom.simps) (auto simp: Let_def)
    ultimately show ?thesis by simp
  qed
qed

lemma stripJpeg_segments:
  "stripJpeg b = (case jpegSegments (drop 2 b) of None \<Rightarrow> b
     | Some (segs, rest) \<Rightarrow> take 2 b @ concat (filter jpegKept segs) @ rest)"
proof (cases "2 \<le> length b")
  case True
  then show ?thesis by (simp add: stripJpeg_def stripJpegFrom_segments subarray_def split: option.split)
next
  case False
  then show ?thesis by (simp add: stripJpeg_def stripJpegFrom.simps[of b 2] subarray_def jpegSegments.simps[of "[]"])
qed

text \<open>Dropping segments does not change how the others are read.\<close>

lemma jpegSegments_append:
  assumes "4 \<le> length c" "c ! 0 = 0xFF" "c ! 1 \<noteq> 0xDA" "length c = 2 + unat (u16be c 2)"
  shows "jpegSegments (c @ t) = map_option (apfst ((#) c)) (jpegSegments t)"
proof -
  have "u16be (c @ t) 2 = u16be c 2" using assms(1) by (simp add: u16be_def nth_append)
  then show ?thesis using assms by (subst jpegSegments.simps) (simp add: nth_append)
qed

lemma jpegSegments_filter:
  "jpegSegments s = Some (segs, rest) \<Longrightarrow> jpegSegments (concat (filter P segs) @ rest) = Some (filter P segs, rest)"
proof (induction s arbitrary: segs rest rule: jpegSegments.induct)
  case (1 s)
  show ?case
  proof (cases "3 < length s \<and> s ! 0 = 0xFF \<and> s ! 1 \<noteq> 0xDA")
    case seg: True
    define n where "n = 2 + unat (u16be s 2)"
    obtain segs' where fits: "n \<le> length s" and tail: "jpegSegments (drop n s) = Some (segs', rest)" and segs: "segs = take n s # segs'"
      using "1.prems" seg by (subst (asm) jpegSegments.simps) (auto simp: Let_def n_def split: if_splits)
    have IH: "jpegSegments (concat (filter P segs') @ rest) = Some (filter P segs', rest)"
      using "1.IH"[OF seg n_def] fits tail by simp
    show ?thesis
    proof (cases "P (take n s)")
      case False
      then show ?thesis using IH segs by simp
    next
      case P: True
      show ?thesis
      proof (cases "4 \<le> n")
        case True
        have "u16be (take n s) 2 = u16be s 2" using True fits by (simp add: u16be_def)
        then have "jpegSegments (take n s @ concat (filter P segs') @ rest)
            = map_option (apfst ((#) (take n s))) (jpegSegments (concat (filter P segs') @ rest))"
          using True fits seg by (intro jpegSegments_append) (simp_all add: n_def)
        then show ?thesis using P IH segs by simp
      next
        case False
        have "256 * unat (s ! 2) + unat (s ! 3) < 2" "n = 2 + (256 * unat (s ! 2) + unat (s ! 3))"
          using False u16be_value[of s 2] by (simp_all add: n_def numeral_3_eq_3)
        then have "unat (s ! 2) = 0" "n = 2 \<or> (n = 3 \<and> unat (s ! 3) = 1)" by auto
        then have "s ! 2 = 0" "n = 2 \<or> (n = 3 \<and> s ! 3 = 1)" by (simp_all add: word_unat_eq_iff)
        then have "drop n s ! 0 \<noteq> 0xFF" using seg fits by auto
        then have "jpegSegments (drop n s) = Some ([], drop n s)" by (subst jpegSegments.simps) simp
        then have "segs' = []" "rest = drop n s" using tail by simp_all
        then show ?thesis using P segs "1.prems" by simp
      qed
    qed
  next
    case False
    then have "segs = [] \<and> rest = s" using "1.prems" by (subst (asm) jpegSegments.simps) auto
    then show ?thesis using "1.prems" by simp
  qed
qed

section \<open>PNG\<close>

function pngChunks :: "bytes \<Rightarrow> bytes list option" where
  "pngChunks s =
     (if 12 \<le> length s then
        let n = 12 + unat (u32 s 0) in
        if n > length s then None
        else if fourcc s 4 = asciiBytes ''IEND'' then Some [take n s]
        else map_option ((#) (take n s)) (pngChunks (drop n s))
      else Some [])"
  by pat_completeness auto
termination
  by (relation "measure length") auto

declare pngChunks.simps [simp del]

definition pngKept :: "bytes \<Rightarrow> bool" where
  "pngKept chunk \<longleftrightarrow> fourcc chunk 4 \<notin> set PNG_METADATA"

lemma u32_drop: "i + 4 \<le> length b \<Longrightarrow> u32 (drop i b) 0 = u32 b i"
  by (simp add: u32_def u16be_def ac_simps)

lemma fourcc_take: "8 \<le> n \<Longrightarrow> fourcc (take n s) 4 = fourcc s 4"
  by (simp add: fourcc_def drop_take)

lemma stripPngFrom_chunks:
  "i \<le> length b \<Longrightarrow> stripPngFrom b i parts = map_option (\<lambda>cs. parts @ filter pngKept cs) (pngChunks (drop i b))"
proof (induction b i parts rule: stripPngFrom.induct)
  case (1 b i parts)
  let ?s = "drop i b"
  show ?case
  proof (cases "i + 12 \<le> length b")
    case seg: True
    let ?n = "12 + unat (u32 b i)"
    let ?parts = "if fourcc b (i + 4) \<notin> set PNG_METADATA then parts @ [subarray b i (i + ?n)] else parts"
    have fit: "length ?s < ?n \<longleftrightarrow> length b < i + ?n" unfolding length_drop using seg by linarith
    have four: "fourcc ?s 4 = fourcc b (i + 4)" by (simp add: fourcc_def ac_simps)
    have step: "stripPngFrom b i parts = (if i + ?n > length b then None
        else if fourcc b (i + 4) = asciiBytes ''IEND'' then Some ?parts else stripPngFrom b (i + ?n) ?parts)"
      using seg by (subst stripPngFrom.simps) (simp add: Let_def ac_simps)
    have "12 \<le> length ?s" using seg by simp
    then have chunks: "pngChunks ?s = (if length b < i + ?n then None
        else if fourcc b (i + 4) = asciiBytes ''IEND'' then Some [take ?n ?s]
        else map_option ((#) (take ?n ?s)) (pngChunks (drop ?n ?s)))"
      using u32_drop[of i b] seg unfolding fit[symmetric] four[symmetric] by (subst pngChunks.simps) (simp add: Let_def)
    have kept: "pngKept (take ?n ?s) = (fourcc b (i + 4) \<notin> set PNG_METADATA)"
      using four fourcc_take[of ?n ?s] by (simp add: pngKept_def)
    have parts: "?parts = parts @ filter pngKept [take ?n ?s]" using kept by (simp add: subarray_def)
    show ?thesis
    proof (cases "length b < i + ?n \<or> fourcc b (i + 4) = asciiBytes ''IEND''")
      case True
      then show ?thesis unfolding step chunks parts by auto
    next
      case False
      have "stripPngFrom b (i + ?n) ?parts = map_option (\<lambda>cs. ?parts @ filter pngKept cs) (pngChunks (drop (i + ?n) b))"
        using 1 seg False by (simp add: Let_def ac_simps)
      then show ?thesis unfolding step chunks parts using False
        by (cases "pngChunks (drop (i + ?n) b)") (auto simp: ac_simps)
    qed
  next
    case False
    then show ?thesis by (simp add: stripPngFrom.simps[of b i] pngChunks.simps[of ?s])
  qed
qed

lemma stripPng_chunks:
  "stripPng b = (case pngChunks (drop 8 b) of None \<Rightarrow> b | Some cs \<Rightarrow> take 8 b @ concat (filter pngKept cs))"
proof (cases "8 \<le> length b")
  case True
  then show ?thesis by (simp add: stripPng_def stripPngFrom_chunks subarray_def split: option.split)
next
  case False
  then show ?thesis by (simp add: stripPng_def stripPngFrom.simps[of b 8] subarray_def pngChunks.simps[of "[]"])
qed

lemma pngChunks_append:
  assumes "12 \<le> length c" "length c = 12 + unat (u32 c 0)"
  shows "pngChunks (c @ t) = (if fourcc c 4 = asciiBytes ''IEND'' then Some [c] else map_option ((#) c) (pngChunks t))"
proof -
  have "0 < length c" using assms(1) by linarith
  then have "u32 (c @ t) 0 = u32 c 0" "fourcc (c @ t) 4 = fourcc c 4"
    using assms(1) by (auto simp: u32_def u16be_def nth_append fourcc_def)
  then show ?thesis using assms by (subst pngChunks.simps) (simp add: Let_def)
qed

lemma pngChunks_filter:
  "pngChunks s = Some cs \<Longrightarrow> pngChunks (concat (filter P cs)) = Some (filter P cs)"
proof (induction s arbitrary: cs rule: pngChunks.induct)
  case (1 s)
  show ?case
  proof (cases "12 \<le> length s")
    case seg: True
    define n where "n = 12 + unat (u32 s 0)"
    have fits: "n \<le> length s" and cases: "fourcc s 4 = asciiBytes ''IEND'' \<and> cs = [take n s]
        \<or> fourcc s 4 \<noteq> asciiBytes ''IEND'' \<and> (\<exists>cs'. pngChunks (drop n s) = Some cs' \<and> cs = take n s # cs')"
      using "1.prems" seg unfolding pngChunks.simps[of s] by (auto simp: Let_def n_def split: if_splits)
    have "u32 (take n s) 0 = u32 s 0" using fits by (simp add: u32_def u16be_def n_def)
    then have head: "pngChunks (take n s @ t)
        = (if fourcc s 4 = asciiBytes ''IEND'' then Some [take n s] else map_option ((#) (take n s)) (pngChunks t))" for t
      using pngChunks_append[of "take n s" t] fourcc_take[of n s] fits by (simp add: n_def)
    from cases show ?thesis
    proof (elim disjE conjE exE)
      assume "cs = [take n s]" "fourcc s 4 = asciiBytes ''IEND''"
      then show ?thesis using head[of "[]"] by (simp add: pngChunks.simps[of "[]"])
    next
      fix cs' assume *: "fourcc s 4 \<noteq> asciiBytes ''IEND''" "pngChunks (drop n s) = Some cs'" "cs = take n s # cs'"
      then have "pngChunks (concat (filter P cs')) = Some (filter P cs')" using "1.IH"[OF seg n_def] fits by simp
      then show ?thesis using * head by simp
    qed
  next
    case False
    then have "cs = []" using "1.prems" by (simp add: pngChunks.simps[of s])
    then show ?thesis by (simp add: pngChunks.simps[of "[]"])
  qed
qed

section \<open>Properties\<close>

text \<open>Stripping a JPEG removes its metadata and nothing else. When the segments before the scan are readable,
  reading the result gives exactly the original segments without those of types APP1, APP13 and COM, followed by
  the same scan bytes, behind the same two first bytes; and stripping again changes nothing.\<close>

theorem stripJpeg_filters_segments:
  assumes "jpegSegments (drop 2 b) = Some (segs, rest)" and "2 \<le> length b"
  shows "take 2 (stripJpeg b) = take 2 b
    \<and> jpegSegments (drop 2 (stripJpeg b)) = Some (filter (\<lambda>seg. seg ! 1 \<notin> {0xE1, 0xED, 0xFE}) segs, rest)
    \<and> stripJpeg (stripJpeg b) = stripJpeg b"
proof -
  have eq: "stripJpeg b = take 2 b @ concat (filter jpegKept segs) @ rest" using assms by (simp add: stripJpeg_segments)
  have len: "length (take 2 b) = 2" using assms(2) by simp
  have out: "jpegSegments (drop 2 (stripJpeg b)) = Some (filter jpegKept segs, rest)"
    unfolding eq using jpegSegments_filter[OF assms(1)] len by simp
  have "stripJpeg (stripJpeg b) = take 2 (stripJpeg b) @ concat (filter jpegKept (filter jpegKept segs)) @ rest"
    using out by (simp add: stripJpeg_segments[of "stripJpeg b"])
  then show ?thesis using out eq len by (simp add: jpegKept_def[abs_def])
qed

text \<open>Stripping a PNG removes its metadata chunks and nothing else. When the chunks are readable, reading the
  result gives exactly the chunks up to \<open>IEND\<close> without those of types eXIf, tEXt, zTXt, iTXt and tIME, behind the same
  signature; and stripping again changes nothing.\<close>

theorem stripPng_filters_chunks:
  assumes "pngChunks (drop 8 b) = Some cs" and "8 \<le> length b"
  shows "take 8 (stripPng b) = take 8 b
    \<and> pngChunks (drop 8 (stripPng b)) = Some (filter (\<lambda>c. fourcc c 4 \<notin> set PNG_METADATA) cs)
    \<and> stripPng (stripPng b) = stripPng b"
proof -
  have eq: "stripPng b = take 8 b @ concat (filter pngKept cs)" using assms by (simp add: stripPng_chunks)
  have len: "length (take 8 b) = 8" using assms(2) by simp
  have out: "pngChunks (drop 8 (stripPng b)) = Some (filter pngKept cs)"
    unfolding eq using pngChunks_filter[OF assms(1)] len by simp
  have "stripPng (stripPng b) = take 8 (stripPng b) @ concat (filter pngKept (filter pngKept cs))"
    using out by (simp add: stripPng_chunks[of "stripPng b"])
  then show ?thesis using out eq len by (simp add: pngKept_def[abs_def])
qed

section \<open>Sniffing and references\<close>

lemma sniffJpeg_type: "sniffJpeg b i = Some f \<Longrightarrow> sn_mimetype f = Image_jpeg"
  by (induction b i rule: sniffJpeg.induct) (subst (asm) (3) sniffJpeg.simps, auto simp: Let_def split: if_splits)

lemma sniffType_magic:
  assumes "sniffType b = Some f"
  shows "case sn_mimetype f of
      Image_jpeg \<Rightarrow> take 2 b = [0xFF, 0xD8]
    | Image_png \<Rightarrow> take 8 b = 0x89 # asciiBytes ''PNG'' @ [0x0D, 0x0A, 0x1A, 0x0A]
    | Image_gif \<Rightarrow> take 6 b \<in> {asciiBytes ''GIF87a'', asciiBytes ''GIF89a''}
    | Image_webp \<Rightarrow> take 4 b = asciiBytes ''RIFF'' \<and> take 4 (drop 8 b) = asciiBytes ''WEBP''"
proof -
  have png: "take 8 b = 0x89 # t" if "24 \<le> length b" "b ! 0 = 0x89" "take 7 (drop 1 b) = t" for t
    using that by (cases b) (simp_all add: numeral_eq_Suc)
  have jpeg: "take 2 b = [0xFF, 0xD8]" if "4 \<le> length b" "b ! 0 = 0xFF" "b ! 1 = 0xD8"
    using that by (cases b; cases "tl b") (simp_all add: numeral_2_eq_2)
  have lens: "length (asciiBytes ''PNG'' @ [0x0D, 0x0A, 0x1A, 0x0A]) = 7" "length (asciiBytes ''GIF87a'') = 6"
    "length (asciiBytes ''GIF89a'') = 6" "length (asciiBytes ''RIFF'') = 4" "length (asciiBytes ''WEBP'') = 4"
    by (simp_all add: asciiBytes_def)
  consider (p) "24 \<le> length b" "b ! 0 = 0x89" "take 7 (drop 1 b) = asciiBytes ''PNG'' @ [0x0D, 0x0A, 0x1A, 0x0A]" "sn_mimetype f = Image_png"
    | (g) "take 6 b = asciiBytes ''GIF87a'' \<or> take 6 b = asciiBytes ''GIF89a''" "sn_mimetype f = Image_gif"
    | (w) "take 4 b = asciiBytes ''RIFF''" "take 4 (drop 8 b) = asciiBytes ''WEBP''" "sn_mimetype f = Image_webp"
    | (j) "4 \<le> length b" "b ! 0 = 0xFF" "b ! 1 = 0xD8" "sn_mimetype f = Image_jpeg"
    using assms sniffJpeg_type[of b 2 f] unfolding sniffType_def sniffWebp_def asciiAt_def lens drop_0
    by (auto split: if_splits)
  then show ?thesis
  proof cases
    case p
    then show ?thesis using png[OF p(1,2) refl] by simp
  next
    case j
    then show ?thesis using jpeg[OF j(1-3)] by simp
  qed auto
qed

text \<open>What the gate lets through. An image accepted by \<open>checkImage\<close> has between one byte and ten mebibytes, between
  1 and 65535 pixels in each direction, and begins with the magic bytes of the type it is said to have.\<close>

theorem checkImage_sound:
  assumes "checkImage b = Inr f"
  shows "0 < length b \<and> length b \<le> 10485760 \<and> 1 \<le> sn_w f \<and> sn_w f \<le> 65535 \<and> 1 \<le> sn_h f \<and> sn_h f \<le> 65535
    \<and> (case sn_mimetype f of
        Image_jpeg \<Rightarrow> take 2 b = [0xFF, 0xD8]
      | Image_png \<Rightarrow> take 8 b = 0x89 # asciiBytes ''PNG'' @ [0x0D, 0x0A, 0x1A, 0x0A]
      | Image_gif \<Rightarrow> take 6 b \<in> {asciiBytes ''GIF87a'', asciiBytes ''GIF89a''}
      | Image_webp \<Rightarrow> take 4 b = asciiBytes ''RIFF'' \<and> take 4 (drop 8 b) = asciiBytes ''WEBP'')"
proof -
  have "sniffImage b = Some f" "0 < length b" "length b \<le> 10485760"
    using assms by (auto simp: checkImage_def IMAGE_MAX_BYTES_def split: if_splits option.splits)
  then have "sniffType b = Some f" and "1 \<le> sn_w f \<and> sn_w f \<le> 65535 \<and> 1 \<le> sn_h f \<and> sn_h f \<le> 65535"
    by (auto simp: sniffImage_def MAX_DIMENSION_def split: option.splits if_splits)
  then show ?thesis using sniffType_magic[of b f] \<open>0 < length b\<close> \<open>length b \<le> 10485760\<close> by simp
qed

definition wfImageRef :: "(nat \<Rightarrow> bool) \<Rightarrow> imageRef \<Rightarrow> bool" where
  "wfImageRef isFormat r \<longleftrightarrow> matchesName isFormat (img_name r) \<and> 1 \<le> img_size r \<and> img_size r \<le> 2 * IMAGE_MAX_BYTES
     \<and> 1 \<le> img_w r \<and> img_w r \<le> MAX_DIMENSION \<and> 1 \<le> img_h r \<and> img_h r \<le> MAX_DIMENSION \<and> matchesMxc (img_url r)
     \<and> matchesKey (img_key r) \<and> matchesIv (img_iv r) \<and> matchesSha (img_sha256 r)"

lemma intUpTo_jnat: "1 \<le> n \<Longrightarrow> n \<le> limit \<Longrightarrow> intUpTo (jnat n) limit = Some n"
  by (simp add: intUpTo_def jnat_def)

lemma readMime_text: "readMime (JStr (mimeText m)) = Some m"
  by (cases m) (simp_all add: readMime_def mimeText_def IMAGE_MIME_TYPES_def)

lemma image_keys:
  "joinWith 0x2C (sort (map js [''name'', ''mimetype'', ''size'', ''w'', ''h'', ''url'', ''key'', ''iv'', ''sha256'']))
   = js ''h,iv,key,mimetype,name,sha256,size,url,w''"
  by code_simp

lemma readImageRef_object: "wfImageRef isFormat r \<Longrightarrow> readImageRef isFormat (imageObject r) = Some r"
  using image_keys
  by (simp add: readImageRef_def imageObject_def wfImageRef_def textMatching_def intUpTo_jnat readMime_text mult.commute)

text \<open>An image message reads back as the reference and caption it was written from, for every valid reference and
  every caption other than the file name itself.\<close>

theorem imageEvent_roundtrip:
  assumes "wfImageRef isFormat r" and "caption \<noteq> img_name r"
  shows "readImageEvent isFormat (imageEventContent r caption) = Some (r, caption)"
  using readImageRef_object[OF assms(1)] assms(2)
  by (auto simp: readImageEvent_def imageEventContent_def imageObject_def Let_def)


section \<open>Witnesses\<close>

definition sampleJpeg :: bytes where
  "sampleJpeg = [0xFF, 0xD8, 0xFF, 0xE1, 0, 4, 1, 2, 0xFF, 0xC0, 0, 11, 8, 0, 2, 0, 3, 1, 1, 1, 0, 0xFF, 0xDA, 9, 9]"

theorem stripJpeg_filters_segments_witness:
  "drop 2 (stripJpeg sampleJpeg) = [0xFF, 0xC0, 0, 11, 8, 0, 2, 0, 3, 1, 1, 1, 0, 0xFF, 0xDA, 9, 9]
   \<and> stripJpeg (stripJpeg sampleJpeg) = stripJpeg sampleJpeg"
proof -
  have s: "jpegSegments (drop 2 sampleJpeg) = Some ([[0xFF, 0xE1, 0, 4, 1, 2], [0xFF, 0xC0, 0, 11, 8, 0, 2, 0, 3, 1, 1, 1, 0]],
      [0xFF, 0xDA, 9, 9])" by code_simp
  have "2 \<le> length sampleJpeg" by (simp add: sampleJpeg_def)
  then show ?thesis using stripJpeg_filters_segments[OF s] by (simp add: stripJpeg_segments s jpegKept_def)
qed

definition samplePng :: bytes where
  "samplePng = [0x89, 0x50, 0x4E, 0x47, 13, 10, 26, 10] @ [0, 0, 0, 1] @ asciiBytes ''tEXt'' @ [7, 0, 0, 0, 0]
     @ [0, 0, 0, 0] @ asciiBytes ''IEND'' @ [0, 0, 0, 0]"

theorem stripPng_filters_chunks_witness: "stripPng (stripPng samplePng) = stripPng samplePng"
proof -
  have "pngChunks (drop 8 samplePng) = Some [[0, 0, 0, 1] @ asciiBytes ''tEXt'' @ [7, 0, 0, 0, 0],
      [0, 0, 0, 0] @ asciiBytes ''IEND'' @ [0, 0, 0, 0]]" by code_simp
  moreover have "8 \<le> length samplePng" by code_simp
  ultimately show ?thesis using stripPng_filters_chunks by blast
qed

theorem checkImage_sound_witness:
  "checkImage sampleJpeg = Inr \<lparr>sn_mimetype = Image_jpeg, sn_w = 3, sn_h = 2\<rparr> \<and> take 2 sampleJpeg = [0xFF, 0xD8]"
proof -
  have "sniffType sampleJpeg = Some \<lparr>sn_mimetype = Image_jpeg, sn_w = 3, sn_h = 2\<rparr>" by code_simp
  then have c: "checkImage sampleJpeg = Inr \<lparr>sn_mimetype = Image_jpeg, sn_w = 3, sn_h = 2\<rparr>"
    by (simp add: checkImage_def sniffImage_def MAX_DIMENSION_def IMAGE_MAX_BYTES_def) (simp add: sampleJpeg_def)
  show ?thesis using checkImage_sound[OF c] c by simp
qed

definition sampleRef :: imageRef where
  "sampleRef = \<lparr>img_name = js ''a.png'', img_mimetype = Image_png, img_size = 10, img_w = 1, img_h = 1, img_url = js ''mxc://h/m'',
     img_key = replicate 43 0x41, img_iv = replicate 22 0x41, img_sha256 = replicate 43 0x41\<rparr>"

theorem imageEvent_roundtrip_witness:
  "readImageEvent (\<lambda>_. False) (imageEventContent sampleRef (js ''hi'')) = Some (sampleRef, js ''hi'')"
proof -
  have "matchesName (\<lambda>_. False) (img_name sampleRef)" "matchesMxc (img_url sampleRef)" "matchesKey (img_key sampleRef)"
    "matchesIv (img_iv sampleRef)" "matchesSha (img_sha256 sampleRef)" by code_simp+
  then have "wfImageRef (\<lambda>_. False) sampleRef" "js ''hi'' \<noteq> img_name sampleRef"
    by (simp_all add: wfImageRef_def sampleRef_def IMAGE_MAX_BYTES_def MAX_DIMENSION_def)
  then show ?thesis by (rule imageEvent_roundtrip)
qed


end
