(* ===== verification/AgentNames.thy ===== *)
theory AgentNames
  imports Identity
begin

text \<open>
  Agent names and their replay from a channel's history
  (\<^verbatim>\<open>packages/contracts/src/messaging/agent-names.ts\<close>). Unicode normalisation (NFC and NFKC) is a parameter. The
  maps of the code are only looked up, so they are partial functions here.
\<close>

definition MAX_AGENT_NAME_BYTES :: nat where
  "MAX_AGENT_NAME_BYTES = 80"

datatype agentNameError = Name_blank | Name_too_long | Name_invalid_characters | Name_reserved

text \<open>\<open>/[\u0000-\u001f\u007f-\u009f\u061c\u200b-\u200f\u2028-\u202e\u2060-\u2069\ufeff]/u\<close>\<close>

definition isUnsafeUnit :: "cunit \<Rightarrow> bool" where
  "isUnsafeUnit u \<longleftrightarrow> u \<le> 0x1F \<or> (0x7F \<le> u \<and> u \<le> 0x9F) \<or> u = 0x061C \<or> (0x200B \<le> u \<and> u \<le> 0x200F)
     \<or> (0x2028 \<le> u \<and> u \<le> 0x202E) \<or> (0x2060 \<le> u \<and> u \<le> 0x2069) \<or> u = 0xFEFF"

text \<open>Matching with the flags \<open>iu\<close>: letters compare by simple case folding, under which U+017F folds to s and
  U+212A to k; both are word characters.\<close>

definition foldPoint :: "nat \<Rightarrow> nat" where
  "foldPoint c = (if 0x41 \<le> c \<and> c \<le> 0x5A then c + 0x20 else if c = 0x17F then 0x73 else if c = 0x212A then 0x6B else c)"

definition isWordPoint :: "nat \<Rightarrow> bool" where
  "isWordPoint c \<longleftrightarrow> (0x30 \<le> c \<and> c \<le> 0x39) \<or> (0x41 \<le> c \<and> c \<le> 0x5A) \<or> (0x61 \<le> c \<and> c \<le> 0x7A) \<or> c = 0x5F
     \<or> c = 0x17F \<or> c = 0x212A"

text \<open>\<open>\b(?:\<dots>)\b\<close> with alternatives of letters matches exactly a maximal run of word characters.\<close>

fun wordRuns :: "nat list \<Rightarrow> nat list \<Rightarrow> nat list list" where
  "wordRuns run [] = [run]"
| "wordRuns run (c # cs) = (if isWordPoint c then wordRuns (run @ [c]) cs else run # wordRuns [] cs)"

definition reservedWords :: "nat list list" where
  "reservedWords = map (map of_char) [''admin'', ''administrator'', ''system'', ''moderator'', ''owner'', ''human'',
     ''security'', ''support'', ''official'']"

definition isReserved :: "ustring \<Rightarrow> bool" where
  "isReserved s \<longleftrightarrow> map foldPoint (code_points s) = map of_char ''khala''
     \<or> list_ex (\<lambda>run. map foldPoint run \<in> set reservedWords) (wordRuns [] (code_points s))"

record normalizer =
  nfc :: "ustring \<Rightarrow> ustring"
  nfkc :: "ustring \<Rightarrow> ustring"

definition validateAgentName :: "normalizer \<Rightarrow> jsval \<Rightarrow> agentNameError + ustring" where
  "validateAgentName nf input = (case input of
     JStr s \<Rightarrow>
       let name = nfc nf (trim s) in
       if name = [] then Inl Name_blank
       else if list_ex isUnsafeUnit name then Inl Name_invalid_characters
       else if length (textEncode name) > MAX_AGENT_NAME_BYTES then Inl Name_too_long
       else if isReserved (nfkc nf name) then Inl Name_reserved
       else Inr name
   | _ \<Rightarrow> Inl Name_blank)"

section \<open>Replaying names\<close>

datatype nameTimelineEvent =
    Name_message (nameEventId: ustring) (nameAuthor: ustring)
  | Name_rename (nameEventId: ustring) (nameActor: ustring) (nameTarget: ustring) (nameText: ustring)
  | Name_snapshot (nameEventId: ustring) (nameActor: ustring) (nameTarget: ustring) (nameText: ustring)
      (nameSource: "ustring option")

datatype projectedNameEvent =
    Projected_message (projectedId: ustring) ustring ustring
  | Projected_rename (projectedId: ustring) ustring ustring ustring ustring ustring

record nameParticipant =
  np_participantId :: ustring
  np_ownerId :: ustring
  np_kind :: participantKind
  np_initialName :: ustring

record nameState =
  ns_current :: "ustring \<rightharpoonup> ustring"
  ns_latest :: "ustring \<rightharpoonup> ustring option"

text \<open>\<open>new Map(participants.map(p => [p.participantId, p]))\<close>: a later entry replaces an earlier one.\<close>

definition identityMap :: "nameParticipant list \<Rightarrow> ustring \<rightharpoonup> nameParticipant" where
  "identityMap ps = map_of (rev (map (\<lambda>p. (np_participantId p, p)) ps))"

definition initialNames :: "nameParticipant list \<Rightarrow> ustring \<rightharpoonup> ustring" where
  "initialNames ps = map_of (rev (map (\<lambda>p. (np_participantId p, np_initialName p)) ps))"

definition visibleRenames :: "nameTimelineEvent list \<Rightarrow> ustring list" where
  "visibleRenames events = [nameEventId e. e \<leftarrow> events, case e of Name_rename _ _ _ _ \<Rightarrow> True | _ \<Rightarrow> False]"

text \<open>The check both loops make: a human actor of the same owner names an agent with a valid name.\<close>

definition ownerMayName :: "normalizer \<Rightarrow> (ustring \<rightharpoonup> nameParticipant) \<Rightarrow> ustring \<Rightarrow> ustring \<Rightarrow> ustring
    \<Rightarrow> (nameParticipant \<times> nameParticipant \<times> ustring) option" where
  "ownerMayName nf ident actorId targetId name = (case (ident actorId, ident targetId, validateAgentName nf (JStr name)) of
     (Some actor, Some target, Inr checked) \<Rightarrow>
       if np_kind actor = Human \<and> np_kind target = Agent \<and> np_ownerId actor = np_ownerId target
       then Some (actor, target, checked) else None
   | _ \<Rightarrow> None)"

definition baselineStep :: "normalizer \<Rightarrow> (ustring \<rightharpoonup> nameParticipant) \<Rightarrow> ustring list \<Rightarrow> nameState \<Rightarrow> nameTimelineEvent \<Rightarrow> nameState" where
  "baselineStep nf ident visible st e = (case e of
     Name_snapshot eventId actorId targetId name (Some source) \<Rightarrow>
       if source \<in> set visible then st
       else (case ownerMayName nf ident actorId targetId name of
           Some (actor, target, checked) \<Rightarrow>
             if ns_latest st (np_participantId target) = None
             then st\<lparr>ns_current := (ns_current st)(np_participantId target \<mapsto> checked),
                     ns_latest := (ns_latest st)(np_participantId target \<mapsto> Some source)\<rparr>
             else st
         | None \<Rightarrow> st)
   | _ \<Rightarrow> st)"

record projection =
  pj_seen :: "ustring list"
  pj_events :: "projectedNameEvent list"
  pj_names :: nameState

definition nameOr :: "nameState \<Rightarrow> nameParticipant \<Rightarrow> ustring \<Rightarrow> ustring" where
  "nameOr st p participantId = (case ns_current st participantId of Some n \<Rightarrow> n | None \<Rightarrow> np_initialName p)"

definition replayRename :: "projection \<Rightarrow> ustring \<Rightarrow> nameParticipant \<Rightarrow> nameParticipant \<Rightarrow> ustring \<Rightarrow> projection" where
  "replayRename pj eventId actor target checked =
     (let st = (pj_names pj)\<lparr>ns_latest := (ns_latest (pj_names pj))(np_participantId target \<mapsto> Some eventId)\<rparr>;
          previousName = nameOr st target (np_participantId target) in
      if previousName = checked then pj\<lparr>pj_names := st\<rparr>
      else pj\<lparr>pj_events := pj_events pj @ [Projected_rename eventId (np_participantId actor)
                (nameOr st actor (np_participantId actor)) (np_participantId target) previousName checked],
             pj_names := st\<lparr>ns_current := (ns_current st)(np_participantId target \<mapsto> checked)\<rparr>\<rparr>)"

definition replaySnapshot :: "projection \<Rightarrow> nameParticipant \<Rightarrow> ustring \<Rightarrow> ustring option \<Rightarrow> projection" where
  "replaySnapshot pj target checked source =
     (let st = pj_names pj; t = np_participantId target in
      if ns_latest st t = None \<or> (ns_latest st t = Some source \<and> ns_current st t = Some checked)
      then pj\<lparr>pj_names := \<lparr>ns_current = (ns_current st)(t \<mapsto> checked), ns_latest = (ns_latest st)(t \<mapsto> source)\<rparr>\<rparr>
      else pj)"

definition projectStep :: "normalizer \<Rightarrow> (ustring \<rightharpoonup> nameParticipant) \<Rightarrow> projection \<Rightarrow> nameTimelineEvent \<Rightarrow> projection" where
  "projectStep nf ident pj e =
     (if nameEventId e \<in> set (pj_seen pj) then pj
      else
        let pj = pj\<lparr>pj_seen := nameEventId e # pj_seen pj\<rparr> in
        (case e of
           Name_message eventId authorId \<Rightarrow>
             (case ident authorId of
                Some author \<Rightarrow> pj\<lparr>pj_events := pj_events pj @ [Projected_message eventId authorId (nameOr (pj_names pj) author authorId)]\<rparr>
              | None \<Rightarrow> pj)
         | Name_rename eventId actorId targetId name \<Rightarrow>
             (case ownerMayName nf ident actorId targetId name of
                Some (actor, target, checked) \<Rightarrow> replayRename pj eventId actor target checked
              | None \<Rightarrow> pj)
         | Name_snapshot eventId actorId targetId name source \<Rightarrow>
             (case ownerMayName nf ident actorId targetId name of
                Some (actor, target, checked) \<Rightarrow> replaySnapshot pj target checked source
              | None \<Rightarrow> pj)))"

definition baseline :: "normalizer \<Rightarrow> nameParticipant list \<Rightarrow> nameTimelineEvent list \<Rightarrow> nameState" where
  "baseline nf participants events =
     foldl (baselineStep nf (identityMap participants) (visibleRenames events))
       \<lparr>ns_current = initialNames participants, ns_latest = Map.empty\<rparr> events"

definition projectNamesInOrder :: "normalizer \<Rightarrow> nameParticipant list \<Rightarrow> nameTimelineEvent list \<Rightarrow> projectedNameEvent list \<times> nameState" where
  "projectNamesInOrder nf participants events =
     (let pj = foldl (projectStep nf (identityMap participants))
            \<lparr>pj_seen = [], pj_events = [], pj_names = baseline nf participants events\<rparr> events in
      (pj_events pj, pj_names pj))"

section \<open>Who may name an agent\<close>

definition namedBy :: "normalizer \<Rightarrow> (ustring \<rightharpoonup> nameParticipant) \<Rightarrow> nameTimelineEvent list \<Rightarrow> ustring \<Rightarrow> ustring \<Rightarrow> bool" where
  "namedBy nf ident events p n \<longleftrightarrow> (\<exists>e actor target. e \<in> set events \<and> (case e of Name_message _ _ \<Rightarrow> False | _ \<Rightarrow> True)
     \<and> ident (nameActor e) = Some actor \<and> ident (nameTarget e) = Some target \<and> np_participantId target = p
     \<and> np_kind actor = Human \<and> np_kind target = Agent \<and> np_ownerId actor = np_ownerId target
     \<and> validateAgentName nf (JStr (nameText e)) = Inr n)"

definition namesJustified :: "normalizer \<Rightarrow> nameParticipant list \<Rightarrow> nameTimelineEvent list \<Rightarrow> nameState \<Rightarrow> bool" where
  "namesJustified nf ps events st \<longleftrightarrow>
     (\<forall>p n. ns_current st p = Some n \<longrightarrow> initialNames ps p = Some n \<or> namedBy nf (identityMap ps) events p n)"

lemma ownerMayName_named:
  assumes "ownerMayName nf ident (nameActor e) (nameTarget e) (nameText e) = Some (actor, target, n)" and "e \<in> set events"
    and "case e of Name_message _ _ \<Rightarrow> False | _ \<Rightarrow> True"
  shows "namedBy nf ident events (np_participantId target) n"
  using assms unfolding namedBy_def ownerMayName_def by (fastforce split: option.splits sum.splits if_splits)

lemma baselineStep_justified:
  assumes "namesJustified nf ps events st" and "e \<in> set events"
  shows "namesJustified nf ps events (baselineStep nf (identityMap ps) visible st e)"
proof (cases e)
  case (Name_snapshot eventId actorId targetId name source)
  then show ?thesis
    using assms ownerMayName_named[of nf "identityMap ps" e _ _ _ events]
    by (auto simp: baselineStep_def namesJustified_def split: option.splits)
qed (use assms in \<open>simp_all add: baselineStep_def\<close>)

lemma projectStep_justified:
  assumes "namesJustified nf ps events (pj_names pj)" and "e \<in> set events"
  shows "namesJustified nf ps events (pj_names (projectStep nf (identityMap ps) pj e))"
proof (cases e)
  case (Name_message eventId authorId)
  then show ?thesis using assms by (simp add: projectStep_def Let_def split: option.split)
next
  case (Name_rename eventId actorId targetId name)
  then show ?thesis
    using assms ownerMayName_named[of nf "identityMap ps" e _ _ _ events]
    by (auto simp: projectStep_def replayRename_def Let_def namesJustified_def split: option.split)
next
  case (Name_snapshot eventId actorId targetId name source)
  then show ?thesis
    using assms ownerMayName_named[of nf "identityMap ps" e _ _ _ events]
    by (auto simp: projectStep_def replaySnapshot_def Let_def namesJustified_def split: option.split)
qed

lemma foldl_invariant:
  "I s \<Longrightarrow> (\<And>s x. I s \<Longrightarrow> x \<in> set xs \<Longrightarrow> I (f s x)) \<Longrightarrow> I (foldl f s xs)"
  by (induction xs arbitrary: s) auto

lemma baseline_justified: "namesJustified nf ps events (baseline nf ps events)"
  unfolding baseline_def
  by (rule foldl_invariant[where I = "namesJustified nf ps events"])
    (auto simp: namesJustified_def[of _ _ _ "\<lparr>ns_current = initialNames ps, ns_latest = Map.empty\<rparr>"] intro: baselineStep_justified)


section \<open>Repeated delivery\<close>

lemma projectStep_seen:
  "set (pj_seen pj) \<union> {nameEventId e} = set (pj_seen (projectStep nf ident pj e))"
  by (auto simp: projectStep_def replayRename_def replaySnapshot_def Let_def split: nameTimelineEvent.split option.split)

lemma foldl_project_seen:
  "set (pj_seen (foldl (projectStep nf ident) pj es)) = set (pj_seen pj) \<union> nameEventId ` set es"
proof (induction es arbitrary: pj)
  case (Cons e es)
  then show ?case using projectStep_seen[of pj e nf ident] by auto
qed simp

lemma foldl_project_known:
  "nameEventId ` set es \<subseteq> set (pj_seen pj) \<Longrightarrow> foldl (projectStep nf ident) pj es = pj"
  by (induction es) (simp_all add: projectStep_def)

text \<open>Whether a snapshot is eligible as a baseline does not depend on the state.\<close>

definition baselineTarget :: "normalizer \<Rightarrow> (ustring \<rightharpoonup> nameParticipant) \<Rightarrow> ustring list \<Rightarrow> nameTimelineEvent \<Rightarrow> ustring option" where
  "baselineTarget nf ident visible e = (case e of
     Name_snapshot eventId actorId targetId name (Some source) \<Rightarrow>
       if source \<in> set visible then None
       else map_option (\<lambda>(actor, target, checked). np_participantId target) (ownerMayName nf ident actorId targetId name)
   | _ \<Rightarrow> None)"

lemma baselineStep_target:
  "baselineTarget nf ident visible e = None \<or> ns_latest st (the (baselineTarget nf ident visible e)) \<noteq> None
   \<Longrightarrow> baselineStep nf ident visible st e = st"
  by (auto simp: baselineTarget_def baselineStep_def split: nameTimelineEvent.splits option.splits if_splits)

lemma baselineStep_latest:
  "ns_latest st p \<noteq> None \<Longrightarrow> ns_latest (baselineStep nf ident visible st e) p \<noteq> None"
  "baselineTarget nf ident visible e = Some p \<Longrightarrow> ns_latest (baselineStep nf ident visible st e) p \<noteq> None"
  by (auto simp: baselineTarget_def baselineStep_def split: nameTimelineEvent.splits option.splits if_splits)

lemma foldl_baseline_latest:
  "ns_latest st p \<noteq> None \<or> (\<exists>e \<in> set es. baselineTarget nf ident visible e = Some p)
   \<Longrightarrow> ns_latest (foldl (baselineStep nf ident visible) st es) p \<noteq> None"
proof (induction es arbitrary: st)
  case (Cons e es)
  then have "ns_latest (baselineStep nf ident visible st e) p \<noteq> None \<or> (\<exists>e \<in> set es. baselineTarget nf ident visible e = Some p)"
    using baselineStep_latest(1)[of st p nf] baselineStep_latest(2)[of nf ident visible e p st] by auto
  then show ?case using Cons.IH by simp
qed simp

lemma foldl_baseline_known:
  "(\<And>e p. e \<in> set es \<Longrightarrow> baselineTarget nf ident visible e = Some p \<Longrightarrow> ns_latest st p \<noteq> None)
   \<Longrightarrow> foldl (baselineStep nf ident visible) st es = st"
proof (induction es)
  case (Cons e es)
  have "baselineTarget nf ident visible e = None \<or> ns_latest st (the (baselineTarget nf ident visible e)) \<noteq> None"
    using Cons.prems[of e] by (cases "baselineTarget nf ident visible e") auto
  then have "baselineStep nf ident visible st e = st" by (rule baselineStep_target)
  moreover have "foldl (baselineStep nf ident visible) st es = st" using Cons.prems by (intro Cons.IH) auto
  ultimately show ?case by simp
qed simp

lemma baselineStep_visible:
  "set v = set v' \<Longrightarrow> baselineStep nf ident v = baselineStep nf ident v'"
  by (auto simp: baselineStep_def fun_eq_iff split: nameTimelineEvent.split)

text \<open>Replaying a history in which events are delivered again changes nothing: appending any events that already
  occur in it gives the same projection, the same current names and the same rename bookkeeping.\<close>

theorem projectNames_redelivery:
  assumes "set again \<subseteq> set events"
  shows "projectNamesInOrder nf ps (events @ again) = projectNamesInOrder nf ps events"
proof -
  let ?id = "identityMap ps" and ?v = "visibleRenames events"
  let ?st = "foldl (baselineStep nf ?id ?v) \<lparr>ns_current = initialNames ps, ns_latest = Map.empty\<rparr> events"
  have "set (visibleRenames (events @ again)) = set ?v" using assms by (auto simp: visibleRenames_def)
  then have v: "baselineStep nf ?id (visibleRenames (events @ again)) = baselineStep nf ?id ?v" by (rule baselineStep_visible)
  have "foldl (baselineStep nf ?id ?v) ?st again = ?st"
    using assms by (intro foldl_baseline_known foldl_baseline_latest) blast
  then have base: "baseline nf ps (events @ again) = baseline nf ps events" by (simp add: baseline_def v)
  have "nameEventId ` set again \<subseteq> set (pj_seen (foldl (projectStep nf ?id) pj events))" for pj
    using assms foldl_project_seen[of nf ?id pj events] by auto
  then have "foldl (projectStep nf ?id) pj (events @ again) = foldl (projectStep nf ?id) pj events" for pj
    using foldl_project_known by simp
  then show ?thesis by (simp add: projectNamesInOrder_def base)
qed

text \<open>A projected rename is a change, and no event is projected twice.\<close>

definition projectionOk :: "projection \<Rightarrow> bool" where
  "projectionOk pj \<longleftrightarrow> distinct (map projectedId (pj_events pj)) \<and> projectedId ` set (pj_events pj) \<subseteq> set (pj_seen pj)
     \<and> (\<nexists>i a an t n. Projected_rename i a an t n n \<in> set (pj_events pj))"

lemma projectStep_ok: "projectionOk pj \<Longrightarrow> projectionOk (projectStep nf ident pj e)"
  by (auto simp: projectStep_def replayRename_def replaySnapshot_def Let_def projectionOk_def
      split: nameTimelineEvent.splits option.splits)

text \<open>The projected history mentions each event at most once, and every rename it shows changes the name.\<close>

theorem projected_events_distinct:
  "distinct (map projectedId (fst (projectNamesInOrder nf ps events)))
   \<and> (\<nexists>i a an t n. Projected_rename i a an t n n \<in> set (fst (projectNamesInOrder nf ps events)))"
proof -
  have "projectionOk (foldl (projectStep nf (identityMap ps))
      \<lparr>pj_seen = [], pj_events = [], pj_names = baseline nf ps events\<rparr> events)"
    by (rule foldl_invariant) (auto simp: projectionOk_def[of "\<lparr>pj_seen = [], pj_events = [], pj_names = x\<rparr>" for x] intro: projectStep_ok)
  then show ?thesis unfolding projectionOk_def projectNamesInOrder_def Let_def by simp
qed

section \<open>Witnesses\<close>

definition sampleNames :: "nameParticipant list" where
  "sampleNames = [\<lparr>np_participantId = js ''h'', np_ownerId = js ''o'', np_kind = Human, np_initialName = js ''Ann''\<rparr>,
     \<lparr>np_participantId = js ''a'', np_ownerId = js ''o'', np_kind = Agent, np_initialName = js ''bot''\<rparr>]"

definition sampleRename :: "nameTimelineEvent list" where
  "sampleRename = [Name_rename (js ''e1'') (js ''h'') (js ''a'') (js ''Zed'')]"


theorem projectNames_redelivery_witness:
  "projectNamesInOrder \<lparr>nfc = id, nfkc = id\<rparr> sampleNames (sampleRename @ sampleRename)
   = projectNamesInOrder \<lparr>nfc = id, nfkc = id\<rparr> sampleNames sampleRename"
  by (rule projectNames_redelivery) simp

end
