(* ===== verification/JsonBytes.thy ===== *)
theory JsonBytes
  imports JsonText
begin

text \<open>
  From JSON text to bytes: what \<open>JSON.stringify\<close> prints is well-formed UTF-16, because unpaired surrogates are escaped,
  and \<open>TextEncoder\<close> is injective on well-formed strings. Together with the injectivity of the printer, two JSON values
  with the same UTF-8 bytes are the same value (\<open>jsonBytes_inj\<close>).
\<close>

definition jsonBytes :: "(rat \<Rightarrow> ustring) \<Rightarrow> jsval \<Rightarrow> nat list" where
  "jsonBytes nt v = textEncode (jsonText nt v)"

section \<open>UTF-8 is a prefix code\<close>

definition scalarPoint :: "nat \<Rightarrow> bool" where
  "scalarPoint c \<longleftrightarrow> c < 0x110000 \<and> \<not> (0xD800 \<le> c \<and> c \<le> 0xDFFF)"

text \<open>The number of bytes of a character, read off its first byte, and the character of those bytes.\<close>

definition decodeLead :: "nat list \<Rightarrow> nat \<times> nat" where
  "decodeLead bs = (let b = bs ! 0 in
     if b < 0x80 then (b, 1)
     else if b < 0xE0 then ((b - 0xC0) * 64 + (bs ! 1 - 0x80), 2)
     else if b < 0xF0 then ((b - 0xE0) * 4096 + (bs ! 1 - 0x80) * 64 + (bs ! 2 - 0x80), 3)
     else ((b - 0xF0) * 262144 + (bs ! 1 - 0x80) * 4096 + (bs ! 2 - 0x80) * 64 + (bs ! 3 - 0x80), 4))"

lemma split4096: "c div 4096 * 4096 + (c div 64) mod 64 * 64 + c mod 64 = (c :: nat)"
proof -
  define d where "d = c div 64"
  have "c div 4096 = d div 64" by (simp add: d_def div_mult2_eq[symmetric])
  moreover have "d = d div 64 * 64 + d mod 64" by simp
  moreover have "c = d * 64 + c mod 64" by (simp add: d_def)
  ultimately show ?thesis unfolding d_def[symmetric] by linarith
qed

lemma split262144: "c div 262144 * 262144 + (c div 4096) mod 64 * 4096 + (c div 64) mod 64 * 64 + c mod 64 = (c :: nat)"
proof -
  define d where "d = c div 4096"
  have "c div 262144 = d div 64" by (simp add: d_def div_mult2_eq[symmetric])
  moreover have "d = d div 64 * 64 + d mod 64" by simp
  moreover have "d * 4096 + (c div 64) mod 64 * 64 + c mod 64 = c" using split4096[of c] by (simp only: d_def)
  ultimately show ?thesis unfolding d_def[symmetric] by linarith
qed

lemma decodeLead_utf8:
  assumes "scalarPoint c"
  shows "decodeLead (utf8_bytes c @ r) = (c, length (utf8_bytes c))"
proof -
  obtain x y z w where v: "x = c mod 64" "y = c div 64 mod 64" "z = c div 4096 mod 64" "w = c div 262144" by blast
  have b: "\<not> (0xD800 \<le> c \<and> c \<le> 0xDFFF)" using assms by (simp add: scalarPoint_def)
  consider "c < 0x80" | "0x80 \<le> c" "c < 0x800" | "0x800 \<le> c" "c < 0x10000" | "0x10000 \<le> c" by linarith
  then show ?thesis
  proof cases
    case 1
    then show ?thesis by (simp add: utf8_bytes_def decodeLead_def)
  next
    case 2
    obtain a where a: "a = c div 64" by blast
    then have "a < 32" "a * 64 + x = c" using 2 v by (simp_all add: less_mult_imp_div_less)
    moreover have "utf8_bytes c = [0xC0 + a, 0x80 + x]" using 2 a v by (simp add: utf8_bytes_def)
    ultimately show ?thesis by (simp add: decodeLead_def)
  next
    case 3
    obtain a where a: "a = c div 4096" by blast
    then have "a < 16" "a * 4096 + y * 64 + x = c" using 3 v split4096[of c] by (simp_all add: less_mult_imp_div_less)
    moreover have "utf8_bytes c = [0xE0 + a, 0x80 + y, 0x80 + x]" using 3 b a v unfolding utf8_bytes_def by auto
    ultimately show ?thesis by (simp add: decodeLead_def)
  next
    case 4
    then have "utf8_bytes c = [0xF0 + w, 0x80 + z, 0x80 + y, 0x80 + x]" using v b by (simp add: utf8_bytes_def)
    moreover have "w * 262144 + z * 4096 + y * 64 + x = c" using split262144[of c] by (simp only: v)
    ultimately show ?thesis by (simp add: decodeLead_def)
  qed
qed

lemma utf8_prefix:
  assumes "scalarPoint c" "scalarPoint d" "utf8_bytes c @ r = utf8_bytes d @ r'"
  shows "c = d \<and> r = r'"
proof -
  have "c = d" using decodeLead_utf8[OF assms(1), of r] decodeLead_utf8[OF assms(2), of r'] assms(3) by simp
  then show ?thesis using assms(3) by simp
qed

lemma utf8_concat_inj:
  "list_all scalarPoint cs \<Longrightarrow> list_all scalarPoint ds \<Longrightarrow> concat (map utf8_bytes cs) = concat (map utf8_bytes ds) \<Longrightarrow> cs = ds"
proof (induction cs arbitrary: ds)
  case Nil
  then show ?case by (cases ds) (simp_all add: utf8_bytes_def split: if_splits)
next
  case (Cons c cs)
  then obtain d es where d: "ds = d # es" by (cases ds) (simp_all add: utf8_bytes_def split: if_splits)
  with Cons.prems have "c = d \<and> concat (map utf8_bytes cs) = concat (map utf8_bytes es)"
    by (intro utf8_prefix) simp_all
  then show ?case using Cons.IH[of es] Cons.prems d by simp
qed

lemma high_low: "isHigh u \<Longrightarrow> 0xD800 \<le> unat u \<and> unat u \<le> 0xDBFF" "isLow v \<Longrightarrow> 0xDC00 \<le> unat v \<and> unat v \<le> 0xDFFF"
  by (auto simp: isHigh_def isLow_def word_le_nat_alt)

lemma unat_small: "unat (u :: cunit) < 0x10000"
  using unsigned_less[of u, where ?'a = nat] by simp

lemma mixed_radix: "b < k \<Longrightarrow> b' < k \<Longrightarrow> a * k + b = a' * k + b' \<Longrightarrow> a = a' \<and> b = b'" for a b k :: nat
  by (metis add.commute div_mult_self3 div_less add.left_neutral mod_mult_self3 mod_less not_less_zero)

lemma pair_point_inj:
  assumes "isHigh u" "isLow v" "isHigh u'" "isLow v'"
    and "(unat u - 0xD800) * 0x400 + (unat v - 0xDC00) = (unat u' - 0xD800) * 0x400 + (unat v' - 0xDC00)"
  shows "u = u' \<and> v = v'"
proof -
  have "unat v - 0xDC00 < 0x400" "unat v' - 0xDC00 < 0x400" using high_low(2)[OF assms(2)] high_low(2)[OF assms(4)] by auto
  from mixed_radix[OF this assms(5)] have "unat u - 0xD800 = unat u' - 0xD800" "unat v - 0xDC00 = unat v' - 0xDC00" by simp_all
  then have "unat u = unat u'" "unat v = unat v'"
    using high_low(1)[OF assms(1)] high_low(2)[OF assms(2)] high_low(1)[OF assms(3)] high_low(2)[OF assms(4)] by linarith+
  then show ?thesis by (simp only: word_unat_eq_iff)
qed

lemma code_points_cons: "isWellFormed (u # s) \<Longrightarrow> \<not> isHigh u \<Longrightarrow> code_points (u # s) = unat u # code_points s \<and> isWellFormed s"
proof -
  assume "isWellFormed (u # s)" "\<not> isHigh u"
  then have "isWellFormed s" by (simp split: if_split_asm)
  then show ?thesis using \<open>\<not> isHigh u\<close> by (cases s) simp_all
qed

lemma code_points_pair:
  "isWellFormed (u # s) \<Longrightarrow> isHigh u \<Longrightarrow> \<exists>v t. s = v # t \<and> isLow v \<and> isWellFormed t
     \<and> code_points (u # s) = (0x10000 + (unat u - 0xD800) * 0x400 + (unat v - 0xDC00)) # code_points t"
  by (cases s) (auto split: if_splits)

lemma code_points_nonempty: "code_points (u # s) \<noteq> []"
  by (cases s) simp_all

lemma code_points_inj: "isWellFormed s \<Longrightarrow> isWellFormed t \<Longrightarrow> code_points s = code_points t \<Longrightarrow> s = t"
proof (induction "length s" arbitrary: s t rule: less_induct)
  case less
  show ?case
  proof (cases s)
    case Nil
    then show ?thesis using less.prems by (cases t rule: code_points.cases) (auto split: if_splits)
  next
    case (Cons u s')
    have "code_points t \<noteq> []" using less.prems(3) code_points_nonempty[of u s'] Cons by simp
    then obtain w t' where t: "t = w # t'" by (cases t) simp_all
    note wf = less.prems(1)[unfolded Cons] less.prems(2)[unfolded t]
    note eq = less.prems(3)[unfolded Cons t]
    show ?thesis
    proof (cases "isHigh u"; cases "isHigh w")
      assume h: "isHigh u" "isHigh w"
      obtain v x where v: "s' = v # x" "isLow v" "isWellFormed x"
          "code_points (u # s') = (0x10000 + (unat u - 0xD800) * 0x400 + (unat v - 0xDC00)) # code_points x"
        using code_points_pair[OF wf(1) h(1)] by blast
      obtain v' x' where v': "t' = v' # x'" "isLow v'" "isWellFormed x'"
          "code_points (w # t') = (0x10000 + (unat w - 0xD800) * 0x400 + (unat v' - 0xDC00)) # code_points x'"
        using code_points_pair[OF wf(2) h(2)] by blast
      have "u = w \<and> v = v'" using eq v v' by (intro pair_point_inj h) simp_all
      moreover have "x = x'" using less.hyps[of x x'] v v' eq Cons by simp
      ultimately show ?thesis using Cons t v v' by simp
    next
      assume "\<not> isHigh u" "\<not> isHigh w"
      then have "unat u = unat w \<and> code_points s' = code_points t'" "isWellFormed s'" "isWellFormed t'"
        using code_points_cons[OF wf(1)] code_points_cons[OF wf(2)] eq by auto
      then show ?thesis using less.hyps[of s' t'] Cons t by (simp add: word_unat_eq_iff)
    next
      assume "isHigh u" "\<not> isHigh w"
      then show ?thesis using code_points_pair[OF wf(1)] code_points_cons[OF wf(2)] eq unat_small[of w] by auto
    next
      assume "\<not> isHigh u" "isHigh w"
      then show ?thesis using code_points_pair[OF wf(2)] code_points_cons[OF wf(1)] eq unat_small[of u] by auto
    qed
  qed
qed

lemma wellFormed_scalars: "isWellFormed s \<Longrightarrow> list_all scalarPoint (code_points s)"
  using isWellFormed_no_surrogate[of s] code_points_bound[of _ s] by (auto simp: list_all_iff scalarPoint_def)

lemma textEncode_inj: "isWellFormed s \<Longrightarrow> isWellFormed t \<Longrightarrow> textEncode s = textEncode t \<Longrightarrow> s = t"
  unfolding textEncode_def using utf8_concat_inj code_points_inj wellFormed_scalars by blast

section \<open>Printed JSON is well-formed\<close>

lemma wellFormed_append: "isWellFormed s \<Longrightarrow> isWellFormed t \<Longrightarrow> isWellFormed (s @ t)"
  by (induction s rule: isWellFormed.induct) (auto split: list.splits if_splits)

lemma hexDigit_plain: "n < 16 \<Longrightarrow> \<not> isHigh (hexDigit n) \<and> \<not> isLow (hexDigit n)"
proof -
  assume "n < 16"
  then have "n \<in> set [0..<16]" by simp
  moreover have "list_all (\<lambda>n. \<not> isHigh (hexDigit n) \<and> \<not> isLow (hexDigit n)) [0..<16]" by code_simp
  ultimately show ?thesis by (auto simp: list_all_iff)
qed

lemma wellFormed_quoteUnit: "isWellFormed (quoteUnit u)"
proof -
  have "unat u div 4096 < 16" using unat_small[of u] by (simp add: less_mult_imp_div_less)
  then have "isWellFormed (unicodeEscape u)"
    by (intro wellFormed_plain) (simp add: unicodeEscape_def hexDigit_plain, simp add: isHigh_def isLow_def)
  then show ?thesis by (simp add: quoteUnit_def isHigh_def isLow_def)
qed

lemma wellFormed_quote: "isWellFormed (quoteString s)"
proof -
  have "isWellFormed (quoteBody s)"
    by (induction s rule: quoteBody.induct) (auto simp: wellFormed_quoteUnit intro: wellFormed_append)
  then show ?thesis unfolding quoteString_def
    by (intro wellFormed_append) (simp_all add: isHigh_def isLow_def)
qed

lemma wellFormed_joinWith: "\<not> isHigh c \<Longrightarrow> \<not> isLow c \<Longrightarrow> list_all isWellFormed xs \<Longrightarrow> isWellFormed (joinWith c xs)"
  by (induction c xs rule: joinWith.induct) (auto intro!: wellFormed_append)

lemma num_plain: "numUnit u \<Longrightarrow> \<not> isHigh u \<and> \<not> isLow u"
proof -
  assume "numUnit u"
  then have "unat u \<le> 0x65" by (auto simp: numUnit_def isDigit_def word_le_nat_alt)
  then show ?thesis using high_low(1)[of u] high_low(2)[of u] by linarith
qed

lemma wellFormed_number: "goodNumText nt \<Longrightarrow> isWellFormed (nt q)"
proof (rule wellFormed_plain)
  assume "goodNumText nt"
  then have "list_all numUnit (nt q)" by (simp add: goodNumText_def)
  then show "list_all (\<lambda>u. \<not> isHigh u \<and> \<not> isLow u) (nt q)"
    using num_plain by (simp add: list_all_iff)
qed

lemma wellFormed_words: "isWellFormed (js ''null'')" "isWellFormed (js ''true'')" "isWellFormed (js ''false'')"
  by code_simp+

lemma wellFormed_bracket:
  "\<not> isHigh a \<Longrightarrow> \<not> isLow a \<Longrightarrow> \<not> isHigh b \<Longrightarrow> \<not> isLow b \<Longrightarrow> isWellFormed s \<Longrightarrow> isWellFormed ([a] @ s @ [b])"
  by (intro wellFormed_append) simp_all

lemma punctuation: "\<not> isHigh 0x5B" "\<not> isLow 0x5B" "\<not> isHigh 0x5D" "\<not> isLow 0x5D" "\<not> isHigh 0x7B" "\<not> isLow 0x7B"
  "\<not> isHigh 0x7D" "\<not> isLow 0x7D" "\<not> isHigh 0x2C" "\<not> isLow 0x2C" "\<not> isHigh 0x3A" "\<not> isLow 0x3A"
  by (simp_all add: isHigh_def isLow_def)

lemma wellFormed_stringify: "goodNumText nt \<Longrightarrow> stringify nt v = Some t \<Longrightarrow> isWellFormed t"
proof (induction nt v arbitrary: t rule: stringify.induct)
  case (1 nt vs)
  then have "list_all isWellFormed (map (\<lambda>v. case stringify nt v of None \<Rightarrow> js ''null'' | Some t \<Rightarrow> t) vs)"
    by (auto simp: list_all_iff wellFormed_words split: option.splits)
  then have "isWellFormed (joinWith 0x2C (map (\<lambda>v. case stringify nt v of None \<Rightarrow> js ''null'' | Some t \<Rightarrow> t) vs))"
    by (rule wellFormed_joinWith[OF punctuation(9,10)])
  then have "isWellFormed ([0x5B] @ joinWith 0x2C (map (\<lambda>v. case stringify nt v of None \<Rightarrow> js ''null'' | Some t \<Rightarrow> t) vs) @ [0x5D])"
    by (rule wellFormed_bracket[OF punctuation(1,2,3,4)])
  then show ?case using "1.prems"(2) by (simp only: stringify.simps option.inject)
next
  case (2 nt p ps)
  have "isWellFormed (quoteString k @ [0x3A] @ x)" if "(k, v) \<in> set ps" "stringify nt v = Some x" for k v x
    using "2.IH"[OF that(1) refl "2.prems"(1) that(2)] punctuation wellFormed_quote by (intro wellFormed_append) simp_all
  then have "list_all isWellFormed (concat (map (\<lambda>(k, v). case stringify nt v of None \<Rightarrow> [] | Some t \<Rightarrow> [quoteString k @ [0x3A] @ t]) ps))"
    by (auto simp: list_all_iff split: option.splits)
  note wellFormed_bracket[OF punctuation(5,6,7,8) wellFormed_joinWith[OF punctuation(9,10) this]]
  then show ?case using "2.prems"(2) by (simp only: stringify.simps option.inject)
qed (auto simp: wellFormed_words wellFormed_quote wellFormed_number)

lemma jsonBytes_inj:
  assumes "goodNumText nt" "normalJson a" "normalJson b" "jsonBytes nt a = jsonBytes nt b"
  shows "a = b"
proof -
  have "isWellFormed (jsonText nt v)" if "normalJson v" for v
    using normal_stringify[OF that, of nt] wellFormed_stringify[OF assms(1)] by (auto simp: jsonText_def)
  then have "jsonText nt a = jsonText nt b" using assms textEncode_inj by (simp add: jsonBytes_def)
  then show ?thesis using jsonText_inj assms by blast
qed

end
