(* ===== verification/Events.thy ===== *)
theory Events
  imports Identity AgentNames Images JsonBytes
begin

text \<open>
  Event references and the content they identify (\<^verbatim>\<open>packages/contracts/src/messaging/events.ts\<close>): the content
  encoding and its digest, the readers of references, contents and timeline items, and the recomputation of the digest.
  Unicode normalisation, the format characters of Unicode, the decimal text of a number and SHA-256 are the parameters
  of \<open>platform\<close>; a missing Web Crypto is \<open>None\<close>. A \<open>TypeError\<close> of the encoder is a value of \<open>contentError\<close>.
\<close>

section \<open>References and contents\<close>

record platform =
  pf_normalizer :: normalizer
  pf_isFormat :: "nat \<Rightarrow> bool"
  pf_numText :: "rat \<Rightarrow> ustring"
  pf_sha256 :: "nat list \<Rightarrow> (8 word list) option"

record eventIdentity =
  ev_roomId :: ustring
  ev_eventId :: ustring
  ev_authorParticipantId :: ustring
  ev_authorDeviceId :: ustring

record eventRef = eventIdentity +
  ev_contentDigest :: ustring

datatype messageContent =
    is_Text_message: Text_message (msg_body: ustring) (msg_inReplyTo: "ustring option") (msg_image: "imageRef option")
  | Agent_rename (msg_agentParticipantId: ustring) (msg_body: ustring)
  | Agent_name_snapshot (msg_agentParticipantId: ustring) (msg_body: ustring) (msg_sourceEventId: "ustring option")

datatype unavailableReason = Missing_keys | Withheld_unverified | Withheld | Decrypt_failed | Unsupported

definition UNAVAILABLE_REASONS :: "(string \<times> unavailableReason) list" where
  "UNAVAILABLE_REASONS = [(''missing_keys'', Missing_keys), (''withheld_unverified'', Withheld_unverified),
     (''withheld'', Withheld), (''decrypt_failed'', Decrypt_failed), (''unsupported'', Unsupported)]"

datatype timelineContent = Message_content messageContent | Unavailable_content unavailableReason

datatype timelineRef = Event_ref eventRef | Unavailable_ref eventIdentity

record timelineItem =
  ti_ref :: timelineRef
  ti_content :: timelineContent
  ti_participant :: participantView
  ti_targetParticipant :: "participantView option"
  ti_clientTxnId :: "ustring option"
  ti_receivedAt :: ustring

definition refIdentity :: "timelineRef \<Rightarrow> eventIdentity" where
  "refIdentity r = (case r of Event_ref e \<Rightarrow> eventIdentity.truncate e | Unavailable_ref e \<Rightarrow> e)"

section \<open>The content encoding\<close>

definition MESSAGE_ENCODING_V1 :: ustring where
  "MESSAGE_ENCODING_V1 = js ''khala.message.v1''"

definition isLowerHex :: "cunit \<Rightarrow> bool" where
  "isLowerHex u \<longleftrightarrow> isDigit u \<or> (0x61 \<le> u \<and> u \<le> 0x66)"

text \<open>\<open>/^sha256:[0-9a-f]{64}$/\<close>\<close>

definition isContentDigest :: "ustring \<Rightarrow> bool" where
  "isContentDigest s \<longleftrightarrow> startsWith s (js ''sha256:'') \<and> length s = 71 \<and> list_all isLowerHex (drop 7 s)"

datatype contentError = Invalid_rename | Invalid_source | Invalid_body decodeFailure | Invalid_image | Invalid_reply

definition nameUnchanged :: "normalizer \<Rightarrow> jsval \<Rightarrow> bool" where
  "nameUnchanged nf v = (case validateAgentName nf v of Inr name \<Rightarrow> v = JStr name | Inl _ \<Rightarrow> False)"

definition isId :: "ustring \<Rightarrow> string \<Rightarrow> bool" where
  "isId s p = (case readId (JStr s) (js p) of Inr _ \<Rightarrow> True | Inl _ \<Rightarrow> False)"

definition imageParts :: "imageRef \<Rightarrow> jsval" where
  "imageParts i = JArr [JStr (img_name i), JStr (mimeText (img_mimetype i)), jnat (img_size i), jnat (img_w i),
     jnat (img_h i), JStr (img_url i), JStr (img_key i), JStr (img_iv i), JStr (img_sha256 i)]"

text \<open>The array that the encoder prints.\<close>

definition contentArray :: "platform \<Rightarrow> messageContent \<Rightarrow> contentError + jsval" where
  "contentArray pf content = (case content of
     Agent_rename agent body \<Rightarrow>
       if \<not> isId agent ''agentParticipantId'' \<or> \<not> nameUnchanged (pf_normalizer pf) (JStr body) then Inl Invalid_rename
       else Inr (JArr [JStr MESSAGE_ENCODING_V1, JStr (js ''agent_rename''), JStr agent, JStr body])
   | Agent_name_snapshot agent body source \<Rightarrow>
       if \<not> isId agent ''agentParticipantId'' \<or> \<not> nameUnchanged (pf_normalizer pf) (JStr body) then Inl Invalid_rename
       else if (case source of None \<Rightarrow> False | Some s \<Rightarrow> \<not> isId s ''sourceEventId'') then Inl Invalid_source
       else Inr (JArr [JStr MESSAGE_ENCODING_V1, JStr (js ''agent_name_snapshot''), JStr agent, JStr body, jnullable JStr source])
   | Text_message body reply img \<Rightarrow>
       (case textField (JStr body) (js ''body'') (Fin MAX_SAFE_INTEGER) of
          Inl e \<Rightarrow> Inl (Invalid_body e)
        | Inr _ \<Rightarrow>
            (case img of
               Some i \<Rightarrow>
                 (case readImageRef (pf_isFormat pf) (imageObject i) of
                    None \<Rightarrow> Inl Invalid_image
                  | Some ref \<Rightarrow>
                      if (case reply of None \<Rightarrow> False | Some s \<Rightarrow> \<not> isId s ''inReplyTo'') then Inl Invalid_reply
                      else Inr (JArr [JStr MESSAGE_ENCODING_V1, JStr (js ''text''), JStr body, jnullable JStr reply, imageParts ref]))
             | None \<Rightarrow>
                 (case reply of
                    None \<Rightarrow> Inr (JArr [JStr MESSAGE_ENCODING_V1, JStr (js ''text''), JStr body])
                  | Some s \<Rightarrow>
                      if \<not> isId s ''inReplyTo'' then Inl Invalid_reply
                      else Inr (JArr [JStr MESSAGE_ENCODING_V1, JStr (js ''text''), JStr body, JStr s])))))"

definition encodeMessageContent :: "platform \<Rightarrow> messageContent \<Rightarrow> contentError + nat list" where
  "encodeMessageContent pf content = bindE (contentArray pf content) (\<lambda>a. Inr (jsonBytes (pf_numText pf) a))"

datatype digestError = Invalid_content | Crypto_unavailable

definition hexByte :: "8 word \<Rightarrow> ustring" where
  "hexByte b = [hexDigit (unat b div 16), hexDigit (unat b mod 16)]"

definition digestText :: "8 word list \<Rightarrow> ustring" where
  "digestText bs = js ''sha256:'' @ concat (map hexByte bs)"

definition digestMessageContent :: "platform \<Rightarrow> messageContent \<Rightarrow> digestError + ustring" where
  "digestMessageContent pf content = (case encodeMessageContent pf content of
     Inl _ \<Rightarrow> Inl Invalid_content
   | Inr bytes \<Rightarrow> (case pf_sha256 pf bytes of None \<Rightarrow> Inl Crypto_unavailable | Some d \<Rightarrow> Inr (digestText d)))"

section \<open>Readers\<close>

definition readEventIdentity :: "reader \<Rightarrow> eventIdentity decoded" where
  "readEventIdentity r =
     bindE (version (field r ''v'') (atPath r ''v'')) (\<lambda>_.
     bindE (readId (field r ''roomId'') (atPath r ''roomId'')) (\<lambda>roomId.
     bindE (readId (field r ''eventId'') (atPath r ''eventId'')) (\<lambda>eventId.
     bindE (readId (field r ''authorParticipantId'') (atPath r ''authorParticipantId'')) (\<lambda>author.
     bindE (readId (field r ''authorDeviceId'') (atPath r ''authorDeviceId'')) (\<lambda>device.
     Inr \<lparr>ev_roomId = roomId, ev_eventId = eventId, ev_authorParticipantId = author, ev_authorDeviceId = device\<rparr>)))))"

definition readEventRef :: "jsval \<Rightarrow> ustring \<Rightarrow> eventRef decoded" where
  "readEventRef input p =
     bindE (object input p [''v'', ''roomId'', ''eventId'', ''authorParticipantId'', ''authorDeviceId'', ''contentDigest'']) (\<lambda>r.
     bindE (readEventIdentity r) (\<lambda>e.
     bindE (identifierField (field r ''contentDigest'') (atPath r ''contentDigest'')) (\<lambda>digest.
     bindE (check (isContentDigest digest) (atPath r ''contentDigest'') Invalid_value) (\<lambda>_.
     Inr (eventIdentity.extend e \<lparr>ev_contentDigest = digest\<rparr>)))))"

definition decodeEventRef :: "jsval \<Rightarrow> eventRef decoded" where
  "decodeEventRef input = readEventRef input []"

definition sameEventRef :: "eventRef \<Rightarrow> eventRef \<Rightarrow> bool" where
  "sameEventRef a b \<longleftrightarrow> ev_roomId a = ev_roomId b \<and> ev_eventId a = ev_eventId b
     \<and> ev_authorParticipantId a = ev_authorParticipantId b \<and> ev_authorDeviceId a = ev_authorDeviceId b
     \<and> ev_contentDigest a = ev_contentDigest b"

definition readUnavailableEventRef :: "jsval \<Rightarrow> ustring \<Rightarrow> eventIdentity decoded" where
  "readUnavailableEventRef input p =
     bindE (object input p [''v'', ''roomId'', ''eventId'', ''authorParticipantId'', ''authorDeviceId'']) readEventIdentity"

definition decodeUnavailableEventRef :: "jsval \<Rightarrow> eventIdentity decoded" where
  "decodeUnavailableEventRef input = readUnavailableEventRef input []"

definition readRenameContent :: "platform \<Rightarrow> jsval \<Rightarrow> ustring \<Rightarrow> messageContent decoded" where
  "readRenameContent pf input p =
     (let snapshot = (getProp input (js ''kind'') = JStr (js ''agent_name_snapshot'')) in
     bindE (object input p (if snapshot then [''v'', ''kind'', ''agentParticipantId'', ''body'', ''sourceEventId'']
                            else [''v'', ''kind'', ''agentParticipantId'', ''body''])) (\<lambda>r.
     bindE (version (field r ''v'') (atPath r ''v'')) (\<lambda>_.
     bindE (literal (field r ''kind'') (atPath r ''kind'') [(''agent_rename'', False), (''agent_name_snapshot'', True)]) (\<lambda>isSnapshot.
     bindE (readId (field r ''agentParticipantId'') (atPath r ''agentParticipantId'')) (\<lambda>agent.
     bindE (case validateAgentName (pf_normalizer pf) (field r ''body'') of
              Inr name \<Rightarrow> if field r ''body'' = JStr name then Inr name else fail (atPath r ''body'') Invalid_value
            | Inl _ \<Rightarrow> fail (atPath r ''body'') Invalid_value) (\<lambda>name.
     if isSnapshot then
       bindE (nullable (field r ''sourceEventId'') (\<lambda>value. readId value (atPath r ''sourceEventId''))) (\<lambda>source.
       Inr (Agent_name_snapshot agent name source))
     else Inr (Agent_rename agent name)))))))"

definition readTextContent :: "platform \<Rightarrow> jsval \<Rightarrow> ustring \<Rightarrow> contentLimits \<Rightarrow> messageContent decoded" where
  "readTextContent pf input p limits =
     (let reply = hasOwn input (js ''inReplyTo''); hasImage = hasOwn input (js ''image'') in
     bindE (object input p ([''v'', ''kind'', ''body''] @ (if reply then [''inReplyTo''] else [])
              @ (if hasImage then [''image''] else []))) (\<lambda>r.
     bindE (if hasImage then
              (case readImageRef (pf_isFormat pf) (field r ''image'') of
                 Some i \<Rightarrow> Inr (Some i) | None \<Rightarrow> fail (atPath r ''image'') Invalid_value)
            else Inr None) (\<lambda>img.
     bindE (version (field r ''v'') (atPath r ''v'')) (\<lambda>_.
     bindE (literal (field r ''kind'') (atPath r ''kind'') [(''text'', ())]) (\<lambda>_.
     bindE (textField (field r ''body'') (atPath r ''body'') (Fin (of_nat (maxBodyBytes limits)))) (\<lambda>body.
     bindE (if reply then bindE (readId (field r ''inReplyTo'') (atPath r ''inReplyTo'')) (\<lambda>e. Inr (Some e)) else Inr None) (\<lambda>parent.
     Inr (Text_message body parent img))))))))"

definition readMessageContent :: "platform \<Rightarrow> jsval \<Rightarrow> ustring \<Rightarrow> contentLimits \<Rightarrow> messageContent decoded" where
  "readMessageContent pf input p limits =
     (if getProp input (js ''kind'') \<in> {JStr (js ''agent_rename''), JStr (js ''agent_name_snapshot'')}
      then readRenameContent pf input p else readTextContent pf input p limits)"

definition decodeMessageContent :: "platform \<Rightarrow> jsval \<Rightarrow> contentLimits \<Rightarrow> messageContent decoded" where
  "decodeMessageContent pf input limits = readMessageContent pf input [] limits"

definition readUnavailableContent :: "jsval \<Rightarrow> ustring \<Rightarrow> unavailableReason decoded" where
  "readUnavailableContent input p =
     bindE (object input p [''v'', ''kind'', ''reason'']) (\<lambda>r.
     bindE (version (field r ''v'') (atPath r ''v'')) (\<lambda>_.
     bindE (literal (field r ''kind'') (atPath r ''kind'') [(''unavailable'', ())]) (\<lambda>_.
     literal (field r ''reason'') (atPath r ''reason'') UNAVAILABLE_REASONS)))"

definition decodeUnavailableContent :: "jsval \<Rightarrow> unavailableReason decoded" where
  "decodeUnavailableContent input = readUnavailableContent input []"

definition readTimelineContent :: "platform \<Rightarrow> jsval \<Rightarrow> ustring \<Rightarrow> contentLimits \<Rightarrow> timelineContent decoded" where
  "readTimelineContent pf input p limits = (case input of
     JObj _ _ \<Rightarrow>
       if getProp input (js ''kind'') = JStr (js ''unavailable'')
       then bindE (readUnavailableContent input p) (\<lambda>reason. Inr (Unavailable_content reason))
       else bindE (readMessageContent pf input p limits) (\<lambda>content. Inr (Message_content content))
   | _ \<Rightarrow> fail p Not_object)"

definition decodeTimelineContent :: "platform \<Rightarrow> jsval \<Rightarrow> contentLimits \<Rightarrow> timelineContent decoded" where
  "decodeTimelineContent pf input limits = readTimelineContent pf input [] limits"

definition targetMatches :: "timelineContent \<Rightarrow> participantView \<Rightarrow> bool" where
  "targetMatches content target = (case content of
     Message_content (Agent_rename agent _) \<Rightarrow> pv_kind target = Agent \<and> pv_participantId target = agent
   | Message_content (Agent_name_snapshot agent _ _) \<Rightarrow> pv_kind target = Agent \<and> pv_participantId target = agent
   | _ \<Rightarrow> False)"

definition readTimelineItem :: "platform \<Rightarrow> jsval \<Rightarrow> ustring \<Rightarrow> contentLimits \<Rightarrow> timelineItem decoded" where
  "readTimelineItem pf input p limits =
     (let hasTarget = hasOwn input (js ''targetParticipant'') in
     bindE (object input p ([''ref'', ''content'', ''participant'', ''clientTxnId'', ''receivedAt'']
              @ (if hasTarget then [''targetParticipant''] else []))) (\<lambda>r.
     bindE (readTimelineContent pf (field r ''content'') (atPath r ''content'') limits) (\<lambda>content.
     bindE (case content of
              Unavailable_content _ \<Rightarrow> bindE (readUnavailableEventRef (field r ''ref'') (atPath r ''ref'')) (\<lambda>e. Inr (Unavailable_ref e))
            | Message_content _ \<Rightarrow> bindE (readEventRef (field r ''ref'') (atPath r ''ref'')) (\<lambda>e. Inr (Event_ref e))) (\<lambda>ref.
     bindE (readParticipantView (field r ''participant'') (atPath r ''participant'') limits) (\<lambda>participant.
     bindE (check (pv_participantId participant = ev_authorParticipantId (refIdentity ref)) (atPath r ''participant'') Mismatch) (\<lambda>_.
     bindE (if hasTarget then bindE (readParticipantView (field r ''targetParticipant'') (atPath r ''targetParticipant'') limits) (\<lambda>t. Inr (Some t))
            else Inr None) (\<lambda>target.
     bindE (check (case target of None \<Rightarrow> True | Some t \<Rightarrow> targetMatches content t) (atPath r ''targetParticipant'') Mismatch) (\<lambda>_.
     bindE (nullable (field r ''clientTxnId'') (\<lambda>value. identifierField value (atPath r ''clientTxnId''))) (\<lambda>txn.
     bindE (utcTimestamp (field r ''receivedAt'') (atPath r ''receivedAt'')) (\<lambda>received.
     Inr \<lparr>ti_ref = ref, ti_content = content, ti_participant = participant, ti_targetParticipant = target,
          ti_clientTxnId = txn, ti_receivedAt = received\<rparr>))))))))))"

text \<open>\<open>None\<close> when the reference digests the content, or there is nothing to digest.\<close>

definition verifyContentDigest :: "platform \<Rightarrow> timelineItem \<Rightarrow> ustring \<Rightarrow> decodeFailure option" where
  "verifyContentDigest pf item p = (case ti_content item of
     Unavailable_content _ \<Rightarrow> None
   | Message_content content \<Rightarrow>
       (case digestMessageContent pf content of
          Inl Crypto_unavailable \<Rightarrow> Some (DecodeFailure p Digest_unavailable)
        | Inl Invalid_content \<Rightarrow> Some (DecodeFailure p Invalid_value)
        | Inr digest \<Rightarrow>
            if (case ti_ref item of Event_ref ref \<Rightarrow> digest = ev_contentDigest ref | Unavailable_ref _ \<Rightarrow> False)
            then None else Some (DecodeFailure p Mismatch)))"

definition decodeTimelineItem :: "platform \<Rightarrow> jsval \<Rightarrow> contentLimits \<Rightarrow> timelineItem decoded" where
  "decodeTimelineItem pf input limits = bindE (readTimelineItem pf input [] limits) (\<lambda>item.
     case verifyContentDigest pf item (js ''ref.contentDigest'') of Some e \<Rightarrow> Inl e | None \<Rightarrow> Inr item)"

end
