(* ===== verification/EventProperties.thy ===== *)
theory EventProperties
  imports Events ImageProperties
begin

text \<open>
  What a content digest binds: the encoding is injective on the contents it accepts, everything the decoder accepts has
  an encoding, and a decoded timeline item carries the digest of exactly its content and the participant its reference
  names. Two items under one reference have one content, or their encodings collide under SHA-256.
\<close>

section \<open>The encoding\<close>

lemma isId_iff: "isId s p \<longleftrightarrow> wfId s"
proof (cases "readId (JStr s) (js p)")
  case (Inl e)
  then show ?thesis using readId_eq_Inr[of "JStr s" "js p" s] by (simp add: isId_def)
next
  case (Inr t)
  then show ?thesis using readId_eq_Inr[of "JStr s" "js p" t] by (simp add: isId_def)
qed

lemma nameUnchanged_iff: "nameUnchanged nf (JStr s) \<longleftrightarrow> validateAgentName nf (JStr s) = Inr s"
  by (auto simp: nameUnchanged_def split: sum.splits)

lemma intUpTo_Some: "intUpTo v limit = Some n \<longleftrightarrow> v = jnat n \<and> 1 \<le> n \<and> n \<le> limit"
proof
  assume "intUpTo v limit = Some n"
  then obtain q where q: "v = JNum (Fin q)" "of_int \<lfloor>q\<rfloor> = q" "1 \<le> q" "q \<le> of_nat limit" "n = nat \<lfloor>q\<rfloor>"
    by (auto simp: intUpTo_def split: jsval.splits jsnum.splits if_splits)
  then have "1 \<le> \<lfloor>q\<rfloor>" by (simp add: le_floor_iff)
  then have "(of_nat n :: rat) = of_int \<lfloor>q\<rfloor>" using q(5) by simp
  then have n: "(of_nat n :: rat) = q" using q(2) by simp
  then have "(of_nat n :: rat) \<le> of_nat limit" "(1 :: rat) \<le> of_nat n" using q(3,4) by (simp_all only:)
  then show "v = jnat n \<and> 1 \<le> n \<and> n \<le> limit" using q(1) n by (simp add: jnat_def)
qed (simp add: intUpTo_jnat)

lemma textMatching_Some: "textMatching ok v = Some s \<longleftrightarrow> v = JStr s \<and> ok s"
  by (auto simp: textMatching_def split: jsval.splits)

lemma readImageRef_wf: "readImageRef isFormat v = Some i \<Longrightarrow> wfImageRef isFormat i"
  by (auto simp: readImageRef_def wfImageRef_def bind_eq_Some_conv intUpTo_Some textMatching_Some mult.commute
      split: jsval.splits if_splits)

lemma imageObject_props:
  "getProp (imageObject i) (js ''name'') = JStr (img_name i)" "getProp (imageObject i) (js ''mimetype'') = JStr (mimeText (img_mimetype i))"
  "getProp (imageObject i) (js ''size'') = jnat (img_size i)" "getProp (imageObject i) (js ''w'') = jnat (img_w i)"
  "getProp (imageObject i) (js ''h'') = jnat (img_h i)" "getProp (imageObject i) (js ''url'') = JStr (img_url i)"
  "getProp (imageObject i) (js ''key'') = JStr (img_key i)" "getProp (imageObject i) (js ''iv'') = JStr (img_iv i)"
  "getProp (imageObject i) (js ''sha256'') = JStr (img_sha256 i)"
  by (simp_all add: imageObject_def)

lemma readImageRef_imageObject: "readImageRef isFormat (imageObject i) = (if wfImageRef isFormat i then Some i else None)"
proof (cases "wfImageRef isFormat i")
  case True
  then show ?thesis by (simp add: readImageRef_object)
next
  case False
  have "readImageRef isFormat (imageObject i) \<noteq> Some k" for k
  proof
    assume k: "readImageRef isFormat (imageObject i) = Some k"
    have e: "\<exists>ps. imageObject i = JObj True ps" by (simp add: imageObject_def)
    then have "i = k" using k imageObject_props[of i]
      by (auto simp: readImageRef_def bind_eq_Some_conv intUpTo_Some textMatching_Some readMime_text split: if_splits
          simp del: getProp.simps)
    then show False using False readImageRef_wf[OF k] by simp
  qed
  then show ?thesis using False by auto
qed

lemma mimeText_inj: "mimeText a = mimeText b \<longleftrightarrow> a = b"
  by (metis readMime_text option.inject)

lemma imageParts_inj: "imageParts i = imageParts k \<Longrightarrow> i = k"
  by (cases i; cases k) (simp add: imageParts_def mimeText_inj)

text \<open>The contents that have an encoding.\<close>

definition wfContent :: "platform \<Rightarrow> messageContent \<Rightarrow> bool" where
  "wfContent pf c = (case c of
     Text_message body reply img \<Rightarrow> wfText 9007199254740991 body \<and> (\<forall>s. reply = Some s \<longrightarrow> wfId s)
       \<and> (\<forall>i. img = Some i \<longrightarrow> wfImageRef (pf_isFormat pf) i)
   | Agent_rename agent body \<Rightarrow> wfId agent \<and> validateAgentName (pf_normalizer pf) (JStr body) = Inr body
   | Agent_name_snapshot agent body source \<Rightarrow> wfId agent \<and> validateAgentName (pf_normalizer pf) (JStr body) = Inr body
       \<and> (\<forall>s. source = Some s \<longrightarrow> wfId s))"

definition plainArray :: "messageContent \<Rightarrow> jsval" where
  "plainArray c = JArr (JStr MESSAGE_ENCODING_V1 # (case c of
     Text_message body reply img \<Rightarrow> [JStr (js ''text''), JStr body] @
       (case img of Some i \<Rightarrow> [jnullable JStr reply, imageParts i] | None \<Rightarrow> (case reply of Some s \<Rightarrow> [JStr s] | None \<Rightarrow> []))
   | Agent_rename agent body \<Rightarrow> [JStr (js ''agent_rename''), JStr agent, JStr body]
   | Agent_name_snapshot agent body source \<Rightarrow> [JStr (js ''agent_name_snapshot''), JStr agent, JStr body, jnullable JStr source]))"

lemma max_safe: "isSafeInteger (Fin MAX_SAFE_INTEGER)" "\<not> negativeNum (Fin MAX_SAFE_INTEGER)" "natOfNum (Fin MAX_SAFE_INTEGER) = 9007199254740991"
  by (simp_all add: MAX_SAFE_INTEGER_def isSafeInteger.simps(1) negativeNum.simps(1) natOfNum.simps(1))

lemma body_field: "(\<exists>x. textField (JStr body) p (Fin MAX_SAFE_INTEGER) = Inr x) \<longleftrightarrow> wfText 9007199254740991 body"
  by (simp add: textField_eq_Inr max_safe)

lemma contentArray_iff: "contentArray pf c = Inr a \<longleftrightarrow> wfContent pf c \<and> a = plainArray c"
proof (cases c)
  case (Text_message body reply img)
  show ?thesis
  proof (cases "textField (JStr body) (js ''body'') (Fin MAX_SAFE_INTEGER)")
    case (Inl e)
    then have "\<not> wfText 9007199254740991 body" using body_field[of body "js ''body''"] by simp
    then show ?thesis using Inl Text_message by (simp add: contentArray_def wfContent_def)
  next
    case (Inr x)
    then have "wfText 9007199254740991 body" using body_field[of body "js ''body''"] by simp
    then show ?thesis using Inr Text_message
      by (cases img; cases reply)
        (auto simp: contentArray_def wfContent_def plainArray_def isId_iff readImageRef_imageObject)
  qed
qed (auto simp: contentArray_def wfContent_def plainArray_def isId_iff nameUnchanged_iff split: option.splits)

lemma plainArray_inj: "plainArray c = plainArray d \<Longrightarrow> c = d"
  by (cases c; cases d)
    (auto simp: plainArray_def jnullable_def imageParts_inj imageParts_def[of _] split: option.splits dest: imageParts_inj)

lemma plainArray_normal: "normalJson (plainArray c)"
  by (cases c) (auto simp: plainArray_def jnullable_def imageParts_def jnat_def split: option.splits)

lemma encodeMessageContent_iff:
  "encodeMessageContent pf c = Inr b \<longleftrightarrow> wfContent pf c \<and> b = jsonBytes (pf_numText pf) (plainArray c)"
  by (auto simp: encodeMessageContent_def bindE_eq_Inr contentArray_iff)

lemma encode_inj:
  assumes "goodNumText (pf_numText pf)" "encodeMessageContent pf c = Inr b" "encodeMessageContent pf d = Inr b"
  shows "c = d"
proof -
  have "plainArray c = plainArray d"
    using assms by (intro jsonBytes_inj[OF assms(1)]) (simp_all add: plainArray_normal encodeMessageContent_iff)
  then show ?thesis by (rule plainArray_inj)
qed

section \<open>The digest\<close>

lemma hexByte_inj: "hexByte a = hexByte b \<Longrightarrow> a = b"
proof -
  assume eq: "hexByte a = hexByte b"
  have lt: "unat x div 16 < 16" "unat x mod 16 < 16" for x :: "8 word"
    using unsigned_less[of x, where ?'a = nat] by (simp_all add: less_mult_imp_div_less)
  have "unat a div 16 = unat b div 16" "unat a mod 16 = unat b mod 16"
    using arg_cong[OF eq, of "\<lambda>s. hexVal (s ! 0)"] arg_cong[OF eq, of "\<lambda>s. hexVal (s ! 1)"]
    by (simp_all only: hexByte_def nth_Cons_0 nth_Cons_Suc One_nat_def hexVal_hexDigit[OF lt(1)] hexVal_hexDigit[OF lt(2)])
  then have "unat a = unat b" by (metis div_mult_mod_eq)
  then show ?thesis by (simp only: word_unat_eq_iff)
qed

lemma digestText_inj: "digestText a = digestText b \<Longrightarrow> a = b"
proof -
  assume "digestText a = digestText b"
  then have "concat (map hexByte a) = concat (map hexByte b)" by (simp add: digestText_def)
  then show ?thesis
  proof (induction a arbitrary: b)
    case Nil
    then show ?case by (cases b) (simp_all add: hexByte_def)
  next
    case (Cons x a)
    then obtain y b' where "b = y # b'" by (cases b) (simp_all add: hexByte_def)
    with Cons show ?case using hexByte_inj[of x y] by (simp add: hexByte_def)
  qed
qed

lemma digest_ok:
  "digestMessageContent pf c = Inr x \<longleftrightarrow> (\<exists>b d. encodeMessageContent pf c = Inr b \<and> pf_sha256 pf b = Some d \<and> x = digestText d)"
  by (auto simp: digestMessageContent_def split: sum.splits option.splits)

text \<open>Two distinct contents whose encodings have the same SHA-256.\<close>

definition collides :: "platform \<Rightarrow> messageContent \<Rightarrow> messageContent \<Rightarrow> bool" where
  "collides pf c d \<longleftrightarrow> (case (encodeMessageContent pf c, encodeMessageContent pf d) of
     (Inr x, Inr y) \<Rightarrow> x \<noteq> y \<and> pf_sha256 pf x = pf_sha256 pf y | _ \<Rightarrow> False)"

lemma digest_binds:
  assumes "goodNumText (pf_numText pf)" "digestMessageContent pf c = Inr x" "digestMessageContent pf d = Inr x"
  shows "c = d \<or> collides pf c d"
proof -
  obtain b h b' h' where e: "encodeMessageContent pf c = Inr b" "pf_sha256 pf b = Some h" "x = digestText h"
    "encodeMessageContent pf d = Inr b'" "pf_sha256 pf b' = Some h'" "x = digestText h'"
    using assms(2,3) by (auto simp: digest_ok)
  then have "h = h'" using digestText_inj by simp
  then show ?thesis using e encode_inj[OF assms(1), of c b d] by (cases "b = b'") (simp_all add: collides_def)
qed

section \<open>Decoded contents and items\<close>

lemma wfText_mono: "wfText m s \<Longrightarrow> m \<le> n \<Longrightarrow> wfText n s"
  by (simp add: wfText_def)

lemma readTextContent_wf: "readTextContent pf j p limits = Inr c \<Longrightarrow> wfContent pf c"
proof -
  assume "readTextContent pf j p limits = Inr c"
  then obtain b reply img where c: "c = Text_message b reply img"
    and b: "textField (propOf j ''body'') (joinPath p (js ''body'')) (Fin (of_nat (maxBodyBytes limits))) = Inr b"
    and r: "(if hasOwn j (js ''inReplyTo'') then bindE (readId (propOf j ''inReplyTo'') (joinPath p (js ''inReplyTo''))) (\<lambda>e. Inr (Some e))
      else Inr None) = Inr reply"
    and i: "(if hasOwn j (js ''image'') then (case readImageRef (pf_isFormat pf) (propOf j ''image'') of Some i \<Rightarrow> Inr (Some i)
      | None \<Rightarrow> fail (joinPath p (js ''image'')) Invalid_value) else Inr None) = Inr img"
    unfolding readTextContent_def Let_def bind_object_iff field_readerOf readerOf_simps(2)
    unfolding bindE_eq_Inr[of "version v q" for v q] bindE_eq_Inr[of "literal v q l" for v q l]
      bindE_eq_Inr[of "textField v q l" for v q l] bindE_eq_Inr[of "if b then x else y" for b x y] by blast
  have "safeNat (maxBodyBytes limits)" "wfText (maxBodyBytes limits) b" using b by (simp_all add: textField_eq_Inr)
  then have "wfText 9007199254740991 b" by (auto simp: safeNat_def intro: wfText_mono)
  moreover have "\<And>s. reply = Some s \<Longrightarrow> wfId s" using r by (auto simp: bindE_eq_Inr readId_eq_Inr split: if_split_asm)
  moreover have "\<And>k. img = Some k \<Longrightarrow> wfImageRef (pf_isFormat pf) k"
    using i by (auto split: if_split_asm option.split_asm dest: readImageRef_wf)
  ultimately show ?thesis using c by (simp add: wfContent_def)
qed

lemma readRenameContent_wf: "readRenameContent pf j p = Inr c \<Longrightarrow> wfContent pf c"
  unfolding readRenameContent_def Let_def bind_object_iff
    unfolding bindE_eq_Inr
  by (auto simp: wfContent_def result_simps split: if_split_asm sum.split_asm)

lemma readMessageContent_wf: "readMessageContent pf j p limits = Inr c \<Longrightarrow> wfContent pf c"
  by (auto simp: readMessageContent_def split: if_split_asm dest: readRenameContent_wf readTextContent_wf)

lemma readTimelineContent_wf: "readTimelineContent pf j p limits = Inr (Message_content c) \<Longrightarrow> wfContent pf c"
  by (auto simp: readTimelineContent_def bindE_eq_Inr split: jsval.splits if_split_asm dest: readMessageContent_wf)

lemma readTimelineItem_facts:
  assumes "readTimelineItem pf j p limits = Inr item"
  shows "pv_participantId (ti_participant item) = ev_authorParticipantId (refIdentity (ti_ref item))"
    and "ti_targetParticipant item = Some t \<Longrightarrow> targetMatches (ti_content item) t"
    and "ti_content item = Message_content c \<Longrightarrow> wfContent pf c \<and> (\<exists>e. ti_ref item = Event_ref e)"
    and "ti_content item = Unavailable_content r \<Longrightarrow> \<exists>e. ti_ref item = Unavailable_ref e"
proof -
  obtain content ref part target txn received where
    i: "item = \<lparr>ti_ref = ref, ti_content = content, ti_participant = part, ti_targetParticipant = target,
      ti_clientTxnId = txn, ti_receivedAt = received\<rparr>"
    and k: "readTimelineContent pf (propOf j ''content'') (joinPath p (js ''content'')) limits = Inr content"
    and ref: "(case content of
        Unavailable_content _ \<Rightarrow> bindE (readUnavailableEventRef (propOf j ''ref'') (joinPath p (js ''ref''))) (\<lambda>e. Inr (Unavailable_ref e))
      | Message_content _ \<Rightarrow> bindE (readEventRef (propOf j ''ref'') (joinPath p (js ''ref''))) (\<lambda>e. Inr (Event_ref e))) = Inr ref"
    and a: "pv_participantId part = ev_authorParticipantId (refIdentity ref)"
    and t: "case target of None \<Rightarrow> True | Some t \<Rightarrow> targetMatches content t"
    using assms unfolding readTimelineItem_def Let_def bind_object_iff field_readerOf readerOf_simps(2)
    unfolding bindE_eq_Inr[of "case c of Message_content x \<Rightarrow> f x | Unavailable_content y \<Rightarrow> g y" for c f g]
      bindE_eq_Inr[of "readTimelineContent a b c d" for a b c d] bindE_eq_Inr[of "readParticipantView a b c" for a b c]
      bindE_eq_Inr[of "check a b c" for a b c] bindE_eq_Inr[of "nullable a b" for a b] bindE_eq_Inr[of "utcTimestamp a b" for a b]
      bindE_eq_Inr[of "if b then x else y" for b x y] check_eq_Inr by blast
  show "pv_participantId (ti_participant item) = ev_authorParticipantId (refIdentity (ti_ref item))" using a i by simp
  show "ti_targetParticipant item = Some t \<Longrightarrow> targetMatches (ti_content item) t" using t i by simp
  show "ti_content item = Message_content c \<Longrightarrow> wfContent pf c \<and> (\<exists>e. ti_ref item = Event_ref e)"
    using k ref i readTimelineContent_wf by (auto simp: bindE_eq_Inr)
  show "ti_content item = Unavailable_content r \<Longrightarrow> \<exists>e. ti_ref item = Unavailable_ref e"
    using ref i by (auto simp: bindE_eq_Inr)
qed

lemma decodeTimelineItem_iff:
  "decodeTimelineItem pf j limits = Inr item \<longleftrightarrow>
     readTimelineItem pf j [] limits = Inr item \<and> verifyContentDigest pf item (js ''ref.contentDigest'') = None"
  by (auto simp: decodeTimelineItem_def bindE_eq_Inr split: option.splits)

lemma verify_None:
  assumes "verifyContentDigest pf item p = None" "ti_content item = Message_content c"
  obtains e where "ti_ref item = Event_ref e" "digestMessageContent pf c = Inr (ev_contentDigest e)"
proof -
  have "\<exists>e. ti_ref item = Event_ref e \<and> digestMessageContent pf c = Inr (ev_contentDigest e)"
    using assms by (auto simp: verifyContentDigest_def split: sum.splits digestError.splits timelineRef.splits if_splits)
  then show ?thesis using that by blast
qed

text \<open>Every content the decoder accepts can be encoded and digested: the digest of a decoded content is that of its
  encoding and fails only where the platform has no SHA-256, never as invalid content.\<close>

theorem decoded_content_digests:
  assumes "decodeMessageContent pf input limits = Inr content"
  shows "\<exists>bytes. encodeMessageContent pf content = Inr bytes
    \<and> digestMessageContent pf content = (case pf_sha256 pf bytes of None \<Rightarrow> Inl Crypto_unavailable | Some h \<Rightarrow> Inr (digestText h))"
proof -
  have "wfContent pf content" using assms readMessageContent_wf by (simp add: decodeMessageContent_def)
  then have "encodeMessageContent pf content = Inr (jsonBytes (pf_numText pf) (plainArray content))"
    by (simp add: encodeMessageContent_iff)
  then show ?thesis by (simp add: digestMessageContent_def)
qed

text \<open>A decoded timeline item is attributed as its reference says: the participant shown is the author the reference
  names, a target participant is the agent the rename is about, content that cannot be shown has a reference without a
  digest, and content that can be shown has exactly the digest of its encoding.\<close>

theorem decodeTimelineItem_binds:
  assumes "decodeTimelineItem pf input limits = Inr item"
  shows "pv_participantId (ti_participant item) = ev_authorParticipantId (refIdentity (ti_ref item))
    \<and> (case ti_targetParticipant item of None \<Rightarrow> True
        | Some t \<Rightarrow> pv_kind t = Agent \<and> (\<exists>c. ti_content item = Message_content c \<and> \<not> is_Text_message c
            \<and> pv_participantId t = msg_agentParticipantId c))
    \<and> (case ti_content item of
         Unavailable_content reason \<Rightarrow> \<exists>e. ti_ref item = Unavailable_ref e
       | Message_content c \<Rightarrow> \<exists>ref bytes hash. ti_ref item = Event_ref ref \<and> encodeMessageContent pf c = Inr bytes
            \<and> pf_sha256 pf bytes = Some hash \<and> ev_contentDigest ref = digestText hash)"
proof -
  note d = assms[unfolded decodeTimelineItem_iff]
  note f = readTimelineItem_facts[OF d[THEN conjunct1]]
  have t: "case ti_targetParticipant item of None \<Rightarrow> True
        | Some t \<Rightarrow> pv_kind t = Agent \<and> (\<exists>c. ti_content item = Message_content c \<and> \<not> is_Text_message c
            \<and> pv_participantId t = msg_agentParticipantId c)"
    using f(2) by (auto simp: targetMatches_def split: option.splits timelineContent.splits messageContent.splits)
  have "\<exists>ref bytes hash. ti_ref item = Event_ref ref \<and> encodeMessageContent pf c = Inr bytes
            \<and> pf_sha256 pf bytes = Some hash \<and> ev_contentDigest ref = digestText hash" if "ti_content item = Message_content c" for c
    by (rule verify_None[OF d[THEN conjunct2] that]) (auto simp: digest_ok)
  then show ?thesis using f(1) t f(4) by (simp split: timelineContent.split)
qed

text \<open>C33: Approving a reference approves one content: two timeline items that decode under the same reference, whatever
  their inputs, carry the same content, or their two encodings are a SHA-256 collision. It rests on the encoding being
  injective, reply parents, images and rename metadata included.\<close>

theorem same_reference_same_content:
  assumes "goodNumText (pf_numText pf)"
    and "decodeTimelineItem pf input limits = Inr item" "decodeTimelineItem pf input' limits' = Inr item'"
    and "ti_ref item = Event_ref ref" "ti_ref item' = Event_ref ref'" "sameEventRef ref ref'"
  shows "\<exists>c c'. ti_content item = Message_content c \<and> ti_content item' = Message_content c' \<and> (c = c' \<or> collides pf c c')"
proof -
  have m: "\<exists>c. ti_content i = Message_content c \<and> digestMessageContent pf c = Inr (ev_contentDigest r)"
    if dec: "decodeTimelineItem pf j l = Inr i" and ref: "ti_ref i = Event_ref r" for i r j l
  proof -
    note d = dec[unfolded decodeTimelineItem_iff]
    obtain c where c: "ti_content i = Message_content c"
      using readTimelineItem_facts(4)[OF d[THEN conjunct1]] ref by (cases "ti_content i") auto
    obtain e where "ti_ref i = Event_ref e" "digestMessageContent pf c = Inr (ev_contentDigest e)"
      by (rule verify_None[OF d[THEN conjunct2] c])
    then show ?thesis using c ref by simp
  qed
  obtain c where c: "ti_content item = Message_content c" "digestMessageContent pf c = Inr (ev_contentDigest ref)"
    using m[OF assms(2,4)] by blast
  obtain c' where c': "ti_content item' = Message_content c'" "digestMessageContent pf c' = Inr (ev_contentDigest ref')"
    using m[OF assms(3,5)] by blast
  have "ev_contentDigest ref = ev_contentDigest ref'" using assms(6) by (simp add: sameEventRef_def)
  then show ?thesis using digest_binds[OF assms(1) c(2)] c c' by auto
qed

section \<open>Witnesses\<close>

definition samplePlatform :: platform where
  "samplePlatform = \<lparr>pf_normalizer = \<lparr>nfc = id, nfkc = id\<rparr>, pf_isFormat = (\<lambda>c. c = 0x202E), pf_numText = sampleNumText,
     pf_sha256 = (\<lambda>bytes. Some (map of_nat (take 32 (drop 20 bytes @ replicate 32 0))))\<rparr>"

definition sampleLimits :: contentLimits where
  "sampleLimits = \<lparr>maxBodyBytes = 64, maxDisplayNameBytes = 16, maxRoomTitleBytes = 16\<rparr>"

definition sampleContent :: jsval where
  "sampleContent = JObj True [(js ''v'', jnat 1), (js ''kind'', JStr (js ''text'')), (js ''body'', JStr (js ''hi''))]"

definition sampleHash :: "8 word list" where
  "sampleHash = map of_nat (take 32 (drop 20 (jsonBytes sampleNumText (plainArray (Text_message (js ''hi'') None None))) @ replicate 32 0))"

definition sampleDigest :: ustring where
  "sampleDigest = digestText sampleHash"

definition sampleItem :: jsval where
  "sampleItem = JObj True [
     (js ''ref'', JObj True [(js ''v'', jnat 1), (js ''roomId'', JStr (js ''r'')), (js ''eventId'', JStr (js ''e'')),
        (js ''authorParticipantId'', JStr (js ''p'')), (js ''authorDeviceId'', JStr (js ''d'')), (js ''contentDigest'', JStr sampleDigest)]),
     (js ''content'', sampleContent),
     (js ''participant'', JObj True [(js ''participantId'', JStr (js ''p'')), (js ''kind'', JStr (js ''human'')), (js ''ownerId'', JStr (js ''o'')),
        (js ''displayName'', JStr (js ''Ann'')), (js ''deviceIds'', JArr [JStr (js ''d'')])]),
     (js ''clientTxnId'', JNull), (js ''receivedAt'', JStr (js ''2026-01-02T03:04:05Z''))]"

definition decodedItem :: timelineItem where
  "decodedItem = \<lparr>ti_ref = Event_ref \<lparr>ev_roomId = js ''r'', ev_eventId = js ''e'', ev_authorParticipantId = js ''p'',
       ev_authorDeviceId = js ''d'', ev_contentDigest = sampleDigest\<rparr>,
     ti_content = Message_content (Text_message (js ''hi'') None None),
     ti_participant = \<lparr>pv_participantId = js ''p'', pv_kind = Human, pv_ownerId = js ''o'', pv_displayName = js ''Ann'', pv_deviceIds = [js ''d'']\<rparr>,
     ti_targetParticipant = None, ti_clientTxnId = None, ti_receivedAt = js ''2026-01-02T03:04:05Z''\<rparr>"

lemma sample_wf: "wfContent samplePlatform (Text_message (js ''hi'') None None)"
proof -
  have "isWellFormed (js ''hi'')" "utf8Length (js ''hi'') = 2" "0 \<notin> set (js ''hi'')" by code_simp+
  then show ?thesis by (simp add: wfContent_def wfText_def)
qed

lemma sample_digest: "digestMessageContent samplePlatform (Text_message (js ''hi'') None None) = Inr sampleDigest"
  using sample_wf encodeMessageContent_iff[of samplePlatform "Text_message (js ''hi'') None None"]
  by (auto simp: digest_ok sampleDigest_def sampleHash_def samplePlatform_def)

lemma sampleItem_ids: "wfId (js ''r'')" "wfId (js ''e'')" "wfId (js ''p'')" "wfId (js ''d'')" "wfId (js ''o'')" "wfDisplay 16 (js ''Ann'')"
  by code_simp+

lemma sampleDigest_wf: "wfId sampleDigest" "isContentDigest sampleDigest"
  by code_simp+

lemma sampleRef_reads:
  "readEventRef (propOf sampleItem ''ref'') p = Inr \<lparr>ev_roomId = js ''r'', ev_eventId = js ''e'', ev_authorParticipantId = js ''p'',
     ev_authorDeviceId = js ''d'', ev_contentDigest = sampleDigest\<rparr>"
  unfolding readEventRef_def bind_object_iff
  by (simp add: readEventIdentity_def sampleItem_def exactObject_def propOf_def bindE_eq_Inr check_eq_Inr version_eq_Inr
      readId_eq_Inr identifier_eq_Inr sampleItem_ids sampleDigest_wf eventIdentity.extend_def)

lemma sample_limit: "isSafeInteger (Fin 16)" "\<not> negativeNum (Fin 16)" "natOfNum (Fin 16) = 16"
  by (simp_all add: isSafeInteger.simps(1) negativeNum.simps(1) natOfNum.simps(1) MAX_SAFE_INTEGER_def)

lemma sampleParticipant_reads:
  "readParticipantView (propOf sampleItem ''participant'') p sampleLimits = Inr (ti_participant decodedItem)"
  unfolding readParticipantView_def bind_object_iff
  by (simp add: sampleItem_def exactObject_def propOf_def array_def mapE_def bindE_eq_Inr check_eq_Inr literal_eq_Inr displayText_eq_Inr
      readId_eq_Inr sampleItem_ids sampleLimits_def sample_limit participantKinds_def decodedItem_def)

lemma readMessage_timeline:
  "j = JObj plain ps \<Longrightarrow> getProp j (js ''kind'') \<noteq> JStr (js ''unavailable'') \<Longrightarrow>
     readTimelineContent pf j p limits = bindE (readMessageContent pf j p limits) (\<lambda>content. Inr (Message_content content))"
  by (simp add: readTimelineContent_def)

lemma sampleContent_reads:
  "readTimelineContent samplePlatform (propOf sampleItem ''content'') p sampleLimits = Inr (ti_content decodedItem)"
proof -
  have e: "exactObject sampleContent [''v'', ''kind'', ''body'']" "propOf sampleContent ''v'' = jnat 1"
    "propOf sampleContent ''kind'' = JStr (js ''text'')" "propOf sampleContent ''body'' = JStr (js ''hi'')"
    "hasOwn sampleContent (js ''inReplyTo'') = False" "hasOwn sampleContent (js ''image'') = False"
    by (simp_all add: exactObject_def propOf_def sampleContent_def)
  have t: "textField (JStr (js ''hi'')) q (Fin 64) = Inr (js ''hi'')" for q
    by (subst textField_eq_Inr) code_simp
  have "readTextContent samplePlatform sampleContent p sampleLimits = Inr (Text_message (js ''hi'') None None)"
    unfolding readTextContent_def Let_def bind_object_iff field_readerOf readerOf_simps(2) e
    by (simp add: e bindE_eq_Inr version_eq_Inr literal_eq_Inr sampleLimits_def t)
  moreover have "getProp sampleContent (js ''kind'') = JStr (js ''text'')" using e(3) by (simp add: propOf_def)
  ultimately have "readMessageContent samplePlatform sampleContent p sampleLimits = Inr (Text_message (js ''hi'') None None)"
    by (simp add: readMessageContent_def)
  moreover have "\<exists>ps. sampleContent = JObj True ps" "propOf sampleItem ''content'' = sampleContent"
    by (simp_all add: sampleContent_def sampleItem_def propOf_def)
  ultimately show ?thesis using e(3) readMessage_timeline[of sampleContent True _ samplePlatform p sampleLimits]
    by (auto simp: propOf_def decodedItem_def simp del: getProp.simps)
qed


lemma sampleItem_reads: "readTimelineItem samplePlatform sampleItem p sampleLimits = Inr decodedItem"
proof -
  have t: "wfTimestamp (js ''2026-01-02T03:04:05Z'')" by code_simp
  have p: "propOf sampleItem ''clientTxnId'' = JNull" "propOf sampleItem ''receivedAt'' = JStr (js ''2026-01-02T03:04:05Z'')"
    "hasOwn sampleItem (js ''targetParticipant'') = False" by (simp_all add: sampleItem_def propOf_def)
  have o: "exactObject sampleItem [''ref'', ''content'', ''participant'', ''clientTxnId'', ''receivedAt'']"
    by (simp add: sampleItem_def exactObject_def)
  show ?thesis
    unfolding readTimelineItem_def Let_def bind_object_iff field_readerOf readerOf_simps(2) p
    by (simp add: sampleContent_reads sampleRef_reads sampleParticipant_reads o check_eq_Inr bindE_eq_Inr nullable_def utcTimestamp_eq_Inr t)
      (simp add: decodedItem_def bindE_eq_Inr sampleRef_reads check_eq_Inr refIdentity_def eventIdentity.truncate_def)
qed

lemma sampleItem_decodes: "decodeTimelineItem samplePlatform sampleItem sampleLimits = Inr decodedItem"
  by (simp add: decodeTimelineItem_iff sampleItem_reads)
    (simp add: verifyContentDigest_def decodedItem_def sample_digest)

theorem decoded_content_digests_witness:
  "\<exists>bytes. encodeMessageContent samplePlatform (Text_message (js ''hi'') None None) = Inr bytes
    \<and> digestMessageContent samplePlatform (Text_message (js ''hi'') None None)
        = (case pf_sha256 samplePlatform bytes of None \<Rightarrow> Inl Crypto_unavailable | Some h \<Rightarrow> Inr (digestText h))"
proof -
  have "decodeMessageContent samplePlatform sampleContent sampleLimits = Inr (Text_message (js ''hi'') None None)" by code_simp
  then show ?thesis by (rule decoded_content_digests)
qed

theorem decodeTimelineItem_binds_witness:
  "pv_participantId (ti_participant decodedItem) = ev_authorParticipantId (refIdentity (ti_ref decodedItem))"
  using decodeTimelineItem_binds[OF sampleItem_decodes] by blast

theorem same_reference_same_content_witness:
  "\<exists>c c'. ti_content decodedItem = Message_content c \<and> ti_content decodedItem = Message_content c' \<and> (c = c' \<or> collides samplePlatform c c')"
proof -
  have "goodNumText (pf_numText samplePlatform)" by (simp add: samplePlatform_def sampleNumText_good)
  from same_reference_same_content[OF this sampleItem_decodes sampleItem_decodes] show ?thesis
    by (simp add: decodedItem_def sameEventRef_def)
qed

end
