(* ===== verification/Channels.thy ===== *)
theory Channels
  imports EventProperties InvitePolicy
begin

text \<open>
  Channel views and admission results of the messaging contracts (\<^verbatim>\<open>packages/contracts/src/messaging/channels.ts\<close>
  and \<^verbatim>\<open>admission.ts\<close>): summaries, send states, timeline pages and snapshots with their digests recomputed, share
  grants, invitation states and admissions. \<open>new URL\<close> is the parameter \<open>parseUrl\<close>.
\<close>

section \<open>Channels\<close>

datatype channelMembership = Member_joining | Member_joined | Member_left | Member_revoked

definition channelMemberships :: "(string \<times> channelMembership) list" where
  "channelMemberships = [(''joining'', Member_joining), (''joined'', Member_joined), (''left'', Member_left), (''revoked'', Member_revoked)]"

record channelSummary =
  ch_roomId :: ustring
  ch_title :: "ustring option"
  ch_membership :: channelMembership
  ch_revision :: ustring

record timelinePage =
  tp_items :: "timelineItem list"
  tp_unavailableEventIds :: "(ustring list) option"
  tp_nextCursor :: "ustring option"
  tp_snapshotRevision :: ustring

datatype sendProgress = Send_pending | Send_accepted | Send_failed | Send_outcome_unknown

definition sendStates :: "(string \<times> sendProgress) list" where
  "sendStates = [(''pending'', Send_pending), (''accepted'', Send_accepted), (''failed'', Send_failed), (''outcome_unknown'', Send_outcome_unknown)]"

record sendState =
  ss_clientTxnId :: ustring
  ss_state :: sendProgress
  ss_eventRef :: "eventRef option"

record channelSnapshot =
  sn_room :: channelSummary
  sn_items :: "timelineItem list"
  sn_snapshotRevision :: ustring
  sn_generation :: nat

definition readChannelSummary :: "jsval \<Rightarrow> ustring \<Rightarrow> contentLimits \<Rightarrow> channelSummary decoded" where
  "readChannelSummary input p limits =
     bindE (object input p [''roomId'', ''title'', ''membership'', ''revision'']) (\<lambda>r.
     bindE (nullable (field r ''title'') (\<lambda>value. displayText value (atPath r ''title'') (Fin (of_nat (maxRoomTitleBytes limits))))) (\<lambda>title.
     bindE (readId (field r ''roomId'') (atPath r ''roomId'')) (\<lambda>roomId.
     bindE (literal (field r ''membership'') (atPath r ''membership'') channelMemberships) (\<lambda>membership.
     bindE (identifierField (field r ''revision'') (atPath r ''revision'')) (\<lambda>revision.
     Inr \<lparr>ch_roomId = roomId, ch_title = (if title = Some [] then None else title), ch_membership = membership,
          ch_revision = revision\<rparr>)))))"

definition decodeChannelSummary :: "jsval \<Rightarrow> contentLimits \<Rightarrow> channelSummary decoded" where
  "decodeChannelSummary input limits = readChannelSummary input [] limits"

definition readSendState :: "jsval \<Rightarrow> ustring \<Rightarrow> sendState decoded" where
  "readSendState input p =
     bindE (object input p [''clientTxnId'', ''state'', ''eventRef'']) (\<lambda>r.
     bindE (identifierField (field r ''clientTxnId'') (atPath r ''clientTxnId'')) (\<lambda>txn.
     bindE (literal (field r ''state'') (atPath r ''state'') sendStates) (\<lambda>state.
     bindE (nullable (field r ''eventRef'') (\<lambda>ref. readEventRef ref (atPath r ''eventRef''))) (\<lambda>ref.
     bindE (check ((state = Send_accepted) = (ref \<noteq> None)) (atPath r ''eventRef'') Mismatch) (\<lambda>_.
     Inr \<lparr>ss_clientTxnId = txn, ss_state = state, ss_eventRef = ref\<rparr>)))))"

definition decodeSendState :: "jsval \<Rightarrow> sendState decoded" where
  "decodeSendState input = readSendState input []"

definition itemEventId :: "timelineItem \<Rightarrow> ustring" where
  "itemEventId item = ev_eventId (refIdentity (ti_ref item))"

fun readItemsFrom :: "platform \<Rightarrow> contentLimits \<Rightarrow> ustring \<Rightarrow> ustring list \<Rightarrow> nat \<Rightarrow> jsval list \<Rightarrow> timelineItem list decoded" where
  "readItemsFrom pf limits p seen i [] = Inr []"
| "readItemsFrom pf limits p seen i (v # vs) =
     bindE (readTimelineItem pf v (elementPath p i) limits) (\<lambda>item.
     bindE (check (itemEventId item \<notin> set seen) (elementPath p i @ js ''.ref.eventId'') Duplicate) (\<lambda>_.
     bindE (readItemsFrom pf limits p (itemEventId item # seen) (Suc i) vs) (\<lambda>items.
     Inr (item # items))))"

definition readItems :: "platform \<Rightarrow> jsval \<Rightarrow> ustring \<Rightarrow> contentLimits \<Rightarrow> timelineItem list decoded" where
  "readItems pf input p limits = bindE (array input p) (\<lambda>vs. readItemsFrom pf limits p [] 0 vs)"

fun verifyItemsFrom :: "platform \<Rightarrow> ustring \<Rightarrow> nat \<Rightarrow> timelineItem list \<Rightarrow> decodeFailure option" where
  "verifyItemsFrom pf p i [] = None"
| "verifyItemsFrom pf p i (item # items) =
     (case verifyContentDigest pf item (elementPath p i @ js ''.ref.contentDigest'') of
        Some mismatch \<Rightarrow> Some mismatch
      | None \<Rightarrow> verifyItemsFrom pf p (Suc i) items)"

definition verifyItems :: "platform \<Rightarrow> timelineItem list \<Rightarrow> ustring \<Rightarrow> decodeFailure option" where
  "verifyItems pf items p = verifyItemsFrom pf p 0 items"

definition decodeTimelinePage :: "platform \<Rightarrow> jsval \<Rightarrow> contentLimits \<Rightarrow> timelinePage decoded" where
  "decodeTimelinePage pf input limits =
     (let hasUnavailable = hasOwn input (js ''unavailableEventIds'') in
     bindE (bindE (object input [] ([''items'', ''nextCursor'', ''snapshotRevision'']
                @ (if hasUnavailable then [''unavailableEventIds''] else []))) (\<lambda>r.
       bindE (readItems pf (field r ''items'') (atPath r ''items'') limits) (\<lambda>items.
       bindE (if hasUnavailable then
                bindE (array (field r ''unavailableEventIds'') (atPath r ''unavailableEventIds'')) (\<lambda>vs.
                bindE (mapE (\<lambda>i v. readId v (elementPath (atPath r ''unavailableEventIds'') i)) vs) (\<lambda>ids. Inr (Some ids)))
              else Inr None) (\<lambda>unavailable.
       bindE (nullable (field r ''nextCursor'') (\<lambda>value. identifierField value (atPath r ''nextCursor''))) (\<lambda>cursor.
       bindE (identifierField (field r ''snapshotRevision'') (atPath r ''snapshotRevision'')) (\<lambda>revision.
       Inr \<lparr>tp_items = items, tp_unavailableEventIds = unavailable, tp_nextCursor = cursor, tp_snapshotRevision = revision\<rparr>)))))) (\<lambda>page.
     case verifyItems pf (tp_items page) (js ''items'') of Some e \<Rightarrow> Inl e | None \<Rightarrow> Inr page))"

definition firstOutside :: "ustring \<Rightarrow> timelineItem list \<Rightarrow> nat option" where
  "firstOutside roomId items = map_option fst (find (\<lambda>(i, item). ev_roomId (refIdentity (ti_ref item)) \<noteq> roomId) (enumerate 0 items))"

definition decodeChannelSnapshot :: "platform \<Rightarrow> jsval \<Rightarrow> contentLimits \<Rightarrow> channelSnapshot decoded" where
  "decodeChannelSnapshot pf input limits =
     bindE (bindE (object input [] [''room'', ''items'', ''snapshotRevision'', ''generation'']) (\<lambda>r.
       bindE (readChannelSummary (field r ''room'') (atPath r ''room'') limits) (\<lambda>room.
       bindE (readItems pf (field r ''items'') (atPath r ''items'') limits) (\<lambda>items.
       bindE (identifierField (field r ''snapshotRevision'') (atPath r ''snapshotRevision'')) (\<lambda>revision.
       bindE (safeInteger (field r ''generation'') (atPath r ''generation'')) (\<lambda>generation.
       bindE (case firstOutside (ch_roomId room) items of
                Some i \<Rightarrow> fail (elementPath (atPath r ''items'') i @ js ''.ref.roomId'') Mismatch | None \<Rightarrow> Inr ()) (\<lambda>_.
       Inr \<lparr>sn_room = room, sn_items = items, sn_snapshotRevision = revision, sn_generation = generation\<rparr>)))))))
     (\<lambda>snapshot. case verifyItems pf (sn_items snapshot) (js ''items'') of Some e \<Rightarrow> Inl e | None \<Rightarrow> Inr snapshot)"

section \<open>Admission\<close>

record shareGrant =
  sg_inviteRef :: ustring
  sg_shareUrl :: ustring
  sg_expiresAt :: "ustring option"

datatype inviteState = State_auth_required | State_eligible | State_already_joined | State_expired | State_revoked
  | State_identity_mismatch | State_unavailable

definition inviteStates :: "(string \<times> inviteState) list" where
  "inviteStates = [(''auth_required'', State_auth_required), (''eligible'', State_eligible), (''already_joined'', State_already_joined),
     (''expired'', State_expired), (''revoked'', State_revoked), (''identity_mismatch'', State_identity_mismatch),
     (''unavailable'', State_unavailable)]"

datatype admissionOutcome = Outcome_joined | Outcome_already_joined

record admission =
  ad_outcome :: admissionOutcome
  ad_room :: channelSummary

datatype admissionRejection = Reject_auth_required | Reject_expired | Reject_revoked | Reject_identity_mismatch
  | Reject_forbidden | Reject_operation_mismatch

definition LOOPBACK :: "ustring list" where
  "LOOPBACK = map js [''localhost'', ''127.0.0.1'', ''[::1]'']"

definition safeShareUrl :: "(ustring \<Rightarrow> urlParts option) \<Rightarrow> ustring \<Rightarrow> bool" where
  "safeShareUrl parseUrl s = (case parseUrl s of
     None \<Rightarrow> False
   | Some url \<Rightarrow> url_username url = [] \<and> url_password url = []
       \<and> (url_protocol url = js ''https:'' \<or> (url_protocol url = js ''http:'' \<and> url_hostname url \<in> set LOOPBACK)))"

definition decodeShareGrant :: "(ustring \<Rightarrow> urlParts option) \<Rightarrow> jsval \<Rightarrow> shareGrant decoded" where
  "decodeShareGrant parseUrl input =
     bindE (object input [] [''inviteRef'', ''shareUrl'', ''expiresAt'']) (\<lambda>r.
     bindE (identifierField (field r ''shareUrl'') (atPath r ''shareUrl'')) (\<lambda>shareUrl.
     bindE (check (safeShareUrl parseUrl shareUrl) (atPath r ''shareUrl'') Invalid_value) (\<lambda>_.
     bindE (identifierField (field r ''inviteRef'') (atPath r ''inviteRef'')) (\<lambda>inviteRef.
     bindE (nullable (field r ''expiresAt'') (\<lambda>value. utcTimestamp value (atPath r ''expiresAt''))) (\<lambda>expiresAt.
     Inr \<lparr>sg_inviteRef = inviteRef, sg_shareUrl = shareUrl, sg_expiresAt = expiresAt\<rparr>)))))"

definition decodeInviteState :: "jsval \<Rightarrow> inviteState decoded" where
  "decodeInviteState input = literal input [] inviteStates"

definition decodeAdmission :: "jsval \<Rightarrow> contentLimits \<Rightarrow> admission decoded" where
  "decodeAdmission input limits =
     bindE (object input [] [''outcome'', ''room'']) (\<lambda>r.
     bindE (literal (field r ''outcome'') (atPath r ''outcome'') [(''joined'', Outcome_joined), (''already_joined'', Outcome_already_joined)]) (\<lambda>outcome.
     bindE (readChannelSummary (field r ''room'') (atPath r ''room'') limits) (\<lambda>room.
     bindE (check (ch_membership room = Member_joined) (atPath r ''room.membership'') Mismatch) (\<lambda>_.
     Inr \<lparr>ad_outcome = outcome, ad_room = room\<rparr>))))"

section \<open>Pages and snapshots\<close>

lemma readItemsFrom_iff:
  "readItemsFrom pf limits p seen i vs = Inr items \<longleftrightarrow>
     mapE_from i (\<lambda>i v. readTimelineItem pf v (elementPath p i) limits) vs = Inr items
     \<and> distinct (map itemEventId items) \<and> (\<forall>item \<in> set items. itemEventId item \<notin> set seen)"
proof (induction vs arbitrary: seen i items)
  case (Cons v vs)
  show ?case by (auto simp: bindE_eq_Inr check_eq_Inr Cons.IH image_iff) metis+
qed auto

lemma readItems_iff:
  "readItems pf input p limits = Inr items \<longleftrightarrow>
     (\<exists>vs. input = JArr vs \<and> mapE (\<lambda>i v. readTimelineItem pf v (elementPath p i) limits) vs = Inr items)
     \<and> distinct (map itemEventId items)"
  by (auto simp: readItems_def bindE_eq_Inr array_eq_Inr readItemsFrom_iff mapE_def)

lemma verifyItemsFrom_None:
  "verifyItemsFrom pf p i items = None \<Longrightarrow> item \<in> set items \<Longrightarrow> \<exists>q. verifyContentDigest pf item q = None"
  by (induction items arbitrary: i) (auto split: option.splits)

lemma firstOutside_None: "firstOutside roomId items = None \<longleftrightarrow> (\<forall>item \<in> set items. ev_roomId (refIdentity (ti_ref item)) = roomId)"
proof -
  have "firstOutside roomId items = None \<longleftrightarrow> (\<forall>x \<in> set (map snd (enumerate 0 items)). ev_roomId (refIdentity (ti_ref x)) = roomId)"
    unfolding set_map by (auto simp: firstOutside_def find_None_iff)
  then show ?thesis by (simp only: map_snd_enumerate)
qed

text \<open>What a verified item guarantees: its content is digested by its reference, or cannot be shown and has no digest.\<close>

definition authenticItem :: "platform \<Rightarrow> timelineItem \<Rightarrow> bool" where
  "authenticItem pf item \<longleftrightarrow> pv_participantId (ti_participant item) = ev_authorParticipantId (refIdentity (ti_ref item))
     \<and> (case (ti_content item, ti_ref item) of
          (Message_content c, Event_ref ref) \<Rightarrow> digestMessageContent pf c = Inr (ev_contentDigest ref)
        | (Unavailable_content _, Unavailable_ref _) \<Rightarrow> True
        | _ \<Rightarrow> False)"

lemma verified_authentic:
  assumes "readTimelineItem pf v p limits = Inr item" and "verifyContentDigest pf item q = None"
  shows "authenticItem pf item"
proof (cases "ti_content item")
  case (Message_content c)
  obtain e where "ti_ref item = Event_ref e" "digestMessageContent pf c = Inr (ev_contentDigest e)"
    by (rule verify_None[OF assms(2) Message_content])
  then show ?thesis using Message_content readTimelineItem_facts(1)[OF assms(1)] by (simp add: authenticItem_def)
next
  case (Unavailable_content r)
  then show ?thesis using readTimelineItem_facts(1,4)[OF assms(1)] by (auto simp: authenticItem_def)
qed

lemma items_authentic:
  assumes "readItems pf v p limits = Inr items" and "verifyItems pf items q = None"
  shows "\<forall>item \<in> set items. authenticItem pf item"
proof
  fix item assume i: "item \<in> set items"
  have "\<exists>w r. readTimelineItem pf w r limits = Inr item"
    using assms(1) i by (auto simp: readItems_iff mapE_eq_Inr in_set_conv_nth) metis
  then show "authenticItem pf item"
    using verifyItemsFrom_None[OF assms(2)[unfolded verifyItems_def] i] verified_authentic by blast
qed

text \<open>C34: A decoded channel snapshot or timeline page shows each event once, and every item in it is authentic: the digest
  its reference carries was recomputed from the content shown and the participant is the referenced author. Every item of
  a snapshot belongs to the snapshot's own channel.\<close>

theorem channel_views_authentic:
  "(decodeChannelSnapshot pf input limits = Inr snapshot \<longrightarrow>
      distinct (map itemEventId (sn_items snapshot))
      \<and> (\<forall>item \<in> set (sn_items snapshot). authenticItem pf item \<and> ev_roomId (refIdentity (ti_ref item)) = ch_roomId (sn_room snapshot)))
   \<and> (decodeTimelinePage pf input limits = Inr page \<longrightarrow>
      distinct (map itemEventId (tp_items page)) \<and> (\<forall>item \<in> set (tp_items page). authenticItem pf item))"
proof (intro conjI impI)
  assume "decodeChannelSnapshot pf input limits = Inr snapshot"
  then have i: "readItems pf (propOf input ''items'') (joinPath [] (js ''items'')) limits = Inr (sn_items snapshot)"
    and o: "firstOutside (ch_roomId (sn_room snapshot)) (sn_items snapshot) = None"
    and v: "verifyItems pf (sn_items snapshot) (js ''items'') = None"
    unfolding decodeChannelSnapshot_def bindE_assoc bind_object_iff field_readerOf readerOf_simps(2)
    by (auto simp: bindE_eq_Inr split: option.split_asm)
  show "distinct (map itemEventId (sn_items snapshot))" using i by (simp add: readItems_iff)
  show "\<forall>item \<in> set (sn_items snapshot). authenticItem pf item \<and> ev_roomId (refIdentity (ti_ref item)) = ch_roomId (sn_room snapshot)"
    using items_authentic[OF i v] o by (simp add: firstOutside_None)
next
  assume "decodeTimelinePage pf input limits = Inr page"
  then have i: "readItems pf (propOf input ''items'') (joinPath [] (js ''items'')) limits = Inr (tp_items page)"
    and v: "verifyItems pf (tp_items page) (js ''items'') = None"
    unfolding decodeTimelinePage_def Let_def bindE_assoc bind_object_iff field_readerOf readerOf_simps(2)
    by (auto simp: bindE_eq_Inr split: option.split_asm)
  show "distinct (map itemEventId (tp_items page))" using i by (simp add: readItems_iff)
  show "\<forall>item \<in> set (tp_items page). authenticItem pf item" by (rule items_authentic[OF i v])
qed

text \<open>Only transport acceptance carries a reference, only a joined channel is an admission, and a share link is HTTPS or
  plain HTTP on a loopback host, without credentials.\<close>

theorem contract_values_consistent:
  "(decodeSendState input = Inr st \<longrightarrow> (ss_state st = Send_accepted \<longleftrightarrow> ss_eventRef st \<noteq> None))
   \<and> (decodeAdmission input limits = Inr adm \<longrightarrow> ch_membership (ad_room adm) = Member_joined \<and> ch_title (ad_room adm) \<noteq> Some [])
   \<and> (decodeShareGrant parseUrl input = Inr grant \<longrightarrow> (\<exists>url. parseUrl (sg_shareUrl grant) = Some url \<and> url_username url = [] \<and> url_password url = []
        \<and> (url_protocol url = js ''https:'' \<or> url_protocol url = js ''http:'' \<and> url_hostname url \<in> set LOOPBACK)))"
proof (intro conjI impI)
  assume "decodeSendState input = Inr st"
  then show "ss_state st = Send_accepted \<longleftrightarrow> ss_eventRef st \<noteq> None"
    by (auto simp: decodeSendState_def readSendState_def bindE_eq_Inr check_eq_Inr)
next
  assume a: "decodeAdmission input limits = Inr adm"
  then show "ch_membership (ad_room adm) = Member_joined"
    by (auto simp: decodeAdmission_def bindE_eq_Inr check_eq_Inr)
  obtain v p where "readChannelSummary v p limits = Inr (ad_room adm)"
    using a by (auto simp: decodeAdmission_def bindE_eq_Inr)
  then have "\<exists>title. ch_title (ad_room adm) = (if title = Some [] then None else title)"
    by (cases "ad_room adm") (auto simp: readChannelSummary_def bindE_eq_Inr)
  then show "ch_title (ad_room adm) \<noteq> Some []" by (auto split: if_splits)
next
  assume "decodeShareGrant parseUrl input = Inr grant"
  then have "safeShareUrl parseUrl (sg_shareUrl grant)" by (auto simp: decodeShareGrant_def bindE_eq_Inr check_eq_Inr)
  then show "\<exists>url. parseUrl (sg_shareUrl grant) = Some url \<and> url_username url = [] \<and> url_password url = []
        \<and> (url_protocol url = js ''https:'' \<or> url_protocol url = js ''http:'' \<and> url_hostname url \<in> set LOOPBACK)"
    by (auto simp: safeShareUrl_def split: option.splits)
qed

section \<open>Witnesses\<close>

definition sampleSummary :: jsval where
  "sampleSummary = JObj True [(js ''roomId'', JStr (js ''r'')), (js ''title'', JNull), (js ''membership'', JStr (js ''joined'')), (js ''revision'', JStr (js ''e''))]"

definition sampleSnapshot :: jsval where
  "sampleSnapshot = JObj True [(js ''room'', sampleSummary), (js ''items'', JArr [sampleItem]), (js ''snapshotRevision'', JStr (js ''e'')), (js ''generation'', jnat 3)]"

definition decodedSummary :: channelSummary where
  "decodedSummary = \<lparr>ch_roomId = js ''r'', ch_title = None, ch_membership = Member_joined, ch_revision = js ''e''\<rparr>"

lemma sampleSummary_reads: "readChannelSummary sampleSummary p limits = Inr decodedSummary"
  unfolding readChannelSummary_def bind_object_iff
  by (simp add: sampleSummary_def exactObject_def propOf_def nullable_def readId_eq_Inr identifier_eq_Inr literal_eq_Inr bindE_eq_Inr
      sampleItem_ids channelMemberships_def decodedSummary_def)

lemma sampleSnapshot_decodes:
  "decodeChannelSnapshot samplePlatform sampleSnapshot sampleLimits
   = Inr \<lparr>sn_room = decodedSummary, sn_items = [decodedItem], sn_snapshotRevision = js ''e'', sn_generation = 3\<rparr>"
proof -
  have r: "readTimelineItem samplePlatform sampleItem p sampleLimits = Inr decodedItem" for p
    by (rule sampleItem_reads)
  have p: "propOf sampleSnapshot ''room'' = sampleSummary" "propOf sampleSnapshot ''items'' = JArr [sampleItem]"
    "propOf sampleSnapshot ''snapshotRevision'' = JStr (js ''e'')" "propOf sampleSnapshot ''generation'' = jnat 3"
    "exactObject sampleSnapshot [''room'', ''items'', ''snapshotRevision'', ''generation'']"
    by (simp_all add: sampleSnapshot_def propOf_def exactObject_def)
  have i: "readItems samplePlatform (JArr [sampleItem]) q sampleLimits = Inr [decodedItem]" for q
    by (simp add: readItems_def array_def r check_def)
  have v: "verifyItems samplePlatform [decodedItem] q = None" for q
    by (simp add: verifyItems_def verifyContentDigest_def decodedItem_def sample_digest)
  have o: "firstOutside (js ''r'') [decodedItem] = None"
    by (simp add: firstOutside_None decodedItem_def refIdentity_def eventIdentity.truncate_def)
  show ?thesis
    unfolding decodeChannelSnapshot_def bindE_assoc bind_object_iff field_readerOf readerOf_simps(2) p
    by (simp add: p(5) sampleSummary_reads i v o bindE_eq_Inr identifier_eq_Inr safeInteger_eq_Inr safeNat_def sampleItem_ids decodedSummary_def)
qed

theorem channel_views_authentic_witness: "authenticItem samplePlatform decodedItem"
  using channel_views_authentic[of samplePlatform sampleSnapshot sampleLimits] sampleSnapshot_decodes by simp

theorem contract_values_consistent_witness:
  "ch_membership (ad_room \<lparr>ad_outcome = Outcome_joined, ad_room = decodedSummary\<rparr>) = Member_joined"
proof -
  let ?j = "JObj True [(js ''outcome'', JStr (js ''joined'')), (js ''room'', sampleSummary)]"
  have "decodeAdmission ?j sampleLimits = Inr \<lparr>ad_outcome = Outcome_joined, ad_room = decodedSummary\<rparr>"
    unfolding decodeAdmission_def bind_object_iff
    by (simp add: exactObject_def propOf_def literal_eq_Inr bindE_eq_Inr sampleSummary_reads check_eq_Inr decodedSummary_def)
  then show ?thesis using contract_values_consistent[of ?j _ sampleLimits] by blast
qed

end
