(* ===== verification/Admission.thy ===== *)
theory Admission
  imports Membership Channels
begin

text \<open>
  Issuing, inspecting, revoking and accepting invitations (\<^verbatim>\<open>apps/control/src/invitations/index.ts\<close>, \<^verbatim>\<open>share.ts\<close>,
  \<^verbatim>\<open>inspect.ts\<close>, \<^verbatim>\<open>personal.ts\<close>, \<^verbatim>\<open>journal.ts\<close>, \<^verbatim>\<open>admit.ts\<close>). Everything the service is given is a field of
  \<open>admissionRuntime\<close>: the control store, the identity port, the authority, the gateway, the clock, the digests, and the
  library functions \<open>Date.parse\<close>, \<open>toISOString\<close>, \<open>toLowerCase\<close>, SHA-256 and the share URL. A record the store reports as
  applied is used as the JSON value it is, as the code does; one it reads is decoded first. The retry loops of the code
  are bounded and have the code's bound as fuel.
\<close>

section \<open>The service's ports\<close>

record shareInput =
  si_operationId :: ustring
  si_roomId :: ustring
  si_policy :: "admissionPolicy option"

datatype shareAuthority = Share_allowed | Share_forbidden | Share_unavailable

datatype gatewayAdmission = Gw_joined channelSummary | Gw_unavailable | Gw_outcome_unknown | Gw_forbidden

datatype gatewayLookup = Look_joined channelSummary | Look_absent | Look_unavailable | Look_outcome_unknown

datatype gatewayInspection = Insp_joined | Insp_absent | Insp_unavailable

record gatewayRequest =
  gq_operationId :: ustring
  gq_roomId :: jsval
  gq_principal :: authPrincipal
  gq_deviceId :: jsval
  gq_history :: jsval
  gq_inviteRevision :: jsval
  gq_removalGeneration :: nat
  gq_inviteCreatorOwnerId :: ustring

datatype shareDiagnosticStage = Identity_required | Diag_identity_unavailable | Policy_invalid
  | Authority_forbidden | Authority_unavailable | Authority_error
  | Invite_read_unavailable | Invite_record_invalid
  | Invite_write_unavailable | Invite_write_unknown | Invite_write_mismatch

record 'w admissionRuntime =
  rt_store :: "'w controlStore"
  rt_identity :: "('w, identityState) act"
  rt_canShare :: "authPrincipal \<Rightarrow> ustring \<Rightarrow> ('w, shareAuthority) act"
  rt_inspectMembership :: "ustring \<Rightarrow> authPrincipal \<Rightarrow> admissionHistory \<Rightarrow> ('w, gatewayInspection) act"
  rt_admit :: "gatewayRequest \<Rightarrow> ('w, gatewayAdmission) act"
  rt_lookup :: "gatewayRequest \<Rightarrow> ('w, gatewayLookup) act"
  rt_clock :: "('w, int) act"
  rt_diagnostic :: "shareDiagnosticStage \<Rightarrow> ('w, unit) act"
  rt_origin :: ustring
  rt_digests :: digests
  rt_inviteLifetimeMs :: "nat option"
  rt_dateParse :: "ustring \<Rightarrow> int option"
  rt_toISOString :: "int \<Rightarrow> ustring option"
  rt_toLowerCase :: "ustring \<Rightarrow> ustring"
  rt_sha256 :: "ustring \<Rightarrow> ustring"
  rt_joinUrl :: "ustring \<Rightarrow> ustring \<Rightarrow> ustring option"

definition rangeError :: jsval where
  "rangeError = JObj False [(js ''name'', JStr (js ''RangeError''))]"

definition orThrow :: "jsval \<Rightarrow> 'a option \<Rightarrow> ('w, 'a) act" where
  "orThrow e x = (case x of None \<Rightarrow> throwS e | Some y \<Rightarrow> retS y)"

text \<open>\<open>invite.expiresAt !== null && runtime.clock() >= Date.parse(invite.expiresAt)\<close>\<close>

definition inviteExpired :: "'w admissionRuntime \<Rightarrow> inviteRecord \<Rightarrow> ('w, bool) act" where
  "inviteExpired rt invite = (case inv_expiresAt invite of
     None \<Rightarrow> retS False
   | Some e \<Rightarrow> bindS (rt_clock rt) (\<lambda>now. retS (case rt_dateParse rt e of None \<Rightarrow> False | Some t \<Rightarrow> t \<le> now)))"

definition removalOf :: "'w admissionRuntime \<Rightarrow> inviteRecord \<Rightarrow> ustring \<Rightarrow> ('w, removalState) act" where
  "removalOf rt invite ownerId = inviteRemovalState (rt_store rt) (rt_sha256 rt) invite (Some ownerId)"

section \<open>Sharing\<close>

type_synonym 'a outcome = "('a, admissionRejection) operationResult"

definition diagnostic :: "'w admissionRuntime \<Rightarrow> shareDiagnosticStage \<Rightarrow> ('w, unit) act" where
  "diagnostic rt stage = catchS (rt_diagnostic rt stage) (\<lambda>error. retS ())"

definition withDiagnostic :: "'w admissionRuntime \<Rightarrow> shareDiagnosticStage \<Rightarrow> 'a \<Rightarrow> ('w, 'a) act" where
  "withDiagnostic rt stage result = bindS (diagnostic rt stage) (\<lambda>_. retS result)"

text \<open>\<open>new URL(`/join/${encodeURIComponent(inviteRef)}`, runtime.origin).href\<close> is \<open>rt_joinUrl\<close>.\<close>

definition grant :: "'w admissionRuntime \<Rightarrow> ustring \<Rightarrow> ustring option \<Rightarrow> ('w, shareGrant outcome) act" where
  "grant rt inviteRef expiresAt = bindS (orThrow typeError (rt_joinUrl rt inviteRef (rt_origin rt))) (\<lambda>href.
     retS (Op_ok \<lparr>sg_inviteRef = inviteRef, sg_shareUrl = href, sg_expiresAt = expiresAt\<rparr>))"

definition sameShare :: "'w admissionRuntime \<Rightarrow> jsval \<Rightarrow> ustring \<Rightarrow> ustring \<Rightarrow> storedAdmissionPolicy \<Rightarrow> ustring \<Rightarrow> bool" where
  "sameShare rt invite creatorOwnerId roomId policy inviteRef \<longleftrightarrow>
     getProp invite (js ''creatorOwnerId'') = JStr creatorOwnerId \<and> getProp invite (js ''roomId'') = JStr roomId
     \<and> getProp invite (js ''inviteRefDigest'') = JStr (dg_inviteRef (rt_digests rt) inviteRef)
     \<and> sameJsonValue (getProp invite (js ''policy'')) (encodePolicy policy)"

definition shareExisting :: "'w admissionRuntime \<Rightarrow> inviteRecord \<Rightarrow> ustring \<Rightarrow> ustring \<Rightarrow> storedAdmissionPolicy \<Rightarrow> ustring \<Rightarrow> ('w, shareGrant outcome) act" where
  "shareExisting rt invite ownerId roomId policy inviteRef =
     (if sameShare rt (encodeInvite invite) ownerId roomId policy inviteRef then grant rt inviteRef (inv_expiresAt invite)
      else retS (Op_rejected Reject_operation_mismatch))"

definition shareNew :: "'w admissionRuntime \<Rightarrow> shareInput \<Rightarrow> ustring \<Rightarrow> storedAdmissionPolicy \<Rightarrow> ustring \<Rightarrow> ustring option \<Rightarrow> jsval option \<Rightarrow> ('w, shareGrant outcome) act" where
  "shareNew rt input ownerId policy inviteRef expiresAt removals =
     bindS (writeAndResolve (rt_store rt) \<lparr>ci_key = dg_inviteKey (rt_digests rt) inviteRef, ci_expectedRevision = None,
         ci_operationId = js ''invitation.share.'' @ dg_operation (rt_digests rt) (si_operationId input),
         ci_value = encodeInvite \<lparr>inv_roomId = si_roomId input, inv_creatorOwnerId = ownerId,
            inv_inviteRefDigest = dg_inviteRef (rt_digests rt) inviteRef,
            inv_removalGeneration = Some (case removals of None \<Rightarrow> 0 | Some rs \<Rightarrow> generationOf rs), inv_policy = policy,
            inv_status = Invite_active, inv_expiresAt = expiresAt, inv_lastAuthorizedOperationDigest = None\<rparr>,
         ci_expiresAt = None\<rparr>) (\<lambda>write.
     case write of
       W_conflict (Some current) \<Rightarrow>
         (case readInviteRecord (rt_dateParse rt) (cr_value current) of
            None \<Rightarrow> retS (Op_rejected Reject_operation_mismatch)
          | Some invite \<Rightarrow> shareExisting rt invite ownerId (si_roomId input) policy inviteRef)
     | W_conflict None \<Rightarrow> withDiagnostic rt Invite_write_mismatch (Op_rejected Reject_operation_mismatch)
     | W_operation_mismatch \<Rightarrow> withDiagnostic rt Invite_write_mismatch (Op_rejected Reject_operation_mismatch)
     | W_unavailable \<Rightarrow> withDiagnostic rt Invite_write_unavailable Op_unavailable
     | W_outcome_unknown _ \<Rightarrow> withDiagnostic rt Invite_write_unknown (Op_outcome_unknown (si_operationId input))
     | W_applied stored \<Rightarrow>
         if cr_value stored = JNull then throwS typeError
         else if \<not> sameShare rt (cr_value stored) ownerId (si_roomId input) policy inviteRef then retS (Op_rejected Reject_operation_mismatch)
         else grant rt inviteRef expiresAt)"

definition shareStored :: "'w admissionRuntime \<Rightarrow> shareInput \<Rightarrow> ustring \<Rightarrow> storedAdmissionPolicy \<Rightarrow> ('w, shareGrant outcome) act" where
  "shareStored rt input ownerId policy =
     (let inviteRef = dg_token (rt_digests rt) (si_operationId input) in
     bindS (safeRead (rt_store rt) (dg_inviteKey (rt_digests rt) inviteRef)) (\<lambda>existing.
     case existing of
       Read_unavailable \<Rightarrow> withDiagnostic rt Invite_read_unavailable Op_unavailable
     | Read_record r \<Rightarrow>
         (case readInviteRecord (rt_dateParse rt) (cr_value r) of
            None \<Rightarrow> withDiagnostic rt Invite_record_invalid Op_unavailable
          | Some invite \<Rightarrow> shareExisting rt invite ownerId (si_roomId input) policy inviteRef)
     | Read_absent \<Rightarrow>
         bindS (readRoomRemovals (rt_store rt) (rt_sha256 rt) (si_roomId input)) (\<lambda>removals.
         case removals of
           Inl _ \<Rightarrow> retS Op_unavailable
         | Inr rs \<Rightarrow>
             if (case Option.bind rs (\<lambda>v. ownerEntry v ownerId) of None \<Rightarrow> False | Some removal \<Rightarrow> \<not> isComplete removal)
             then retS (Op_rejected Reject_forbidden)
             else bindS (case rt_inviteLifetimeMs rt of
                           None \<Rightarrow> retS None
                         | Some ms \<Rightarrow> bindS (rt_clock rt) (\<lambda>now.
                             bindS (orThrow rangeError (rt_toISOString rt (now + int ms))) (\<lambda>e. retS (Some e)))) (\<lambda>expiresAt.
               shareNew rt input ownerId policy inviteRef expiresAt rs))))"

definition shareInvite :: "'w admissionRuntime \<Rightarrow> shareInput \<Rightarrow> ustring option \<Rightarrow> ('w, shareGrant outcome) act" where
  "shareInvite rt input expectedOwnerId =
     bindS (currentPrincipal (rt_identity rt)) (\<lambda>identity.
     case identity of
       Is_auth_required \<Rightarrow> withDiagnostic rt Identity_required (Op_rejected Reject_auth_required)
     | Is_unavailable \<Rightarrow> withDiagnostic rt Diag_identity_unavailable Op_unavailable
     | Is_signed_in who \<Rightarrow>
         if (case expectedOwnerId of None \<Rightarrow> False | Some u \<Rightarrow> ap_ownerId who \<noteq> u) then retS (Op_rejected Reject_identity_mismatch)
         else (case storePolicy (rt_toLowerCase rt) (dg_email (rt_digests rt)) (si_policy input) of
             None \<Rightarrow> withDiagnostic rt Policy_invalid (Op_rejected Reject_forbidden)
           | Some policy \<Rightarrow>
               tryS (rt_canShare rt who (si_roomId input))
                 (\<lambda>authority. case authority of
                    Share_forbidden \<Rightarrow> withDiagnostic rt Authority_forbidden (Op_rejected Reject_forbidden)
                  | Share_unavailable \<Rightarrow> withDiagnostic rt Authority_unavailable Op_unavailable
                  | Share_allowed \<Rightarrow> shareStored rt input (ap_ownerId who) policy)
                 (\<lambda>error. withDiagnostic rt Authority_error Op_unavailable)))"

section \<open>Revoking\<close>

fun revokeInviteFrom :: "'w admissionRuntime \<Rightarrow> ustring \<Rightarrow> ustring \<Rightarrow> authPrincipal \<Rightarrow> nat \<Rightarrow> ('w, unit outcome) act" where
  "revokeInviteFrom rt operationId inviteRef who 0 = retS Op_unavailable"
| "revokeInviteFrom rt operationId inviteRef who (Suc n) =
     bindS (safeRead (rt_store rt) (dg_inviteKey (rt_digests rt) inviteRef)) (\<lambda>read.
     case read of
       Read_unavailable \<Rightarrow> retS Op_unavailable
     | Read_absent \<Rightarrow> retS (Op_rejected Reject_revoked)
     | Read_record r \<Rightarrow>
         (case readInviteRecord (rt_dateParse rt) (cr_value r) of
            None \<Rightarrow> retS Op_unavailable
          | Some invite \<Rightarrow>
              if inv_inviteRefDigest invite \<noteq> dg_inviteRef (rt_digests rt) inviteRef then retS Op_unavailable
              else if inv_creatorOwnerId invite \<noteq> ap_ownerId who then retS (Op_rejected Reject_forbidden)
              else bindS (inviteExpired rt invite) (\<lambda>expired.
                if expired then retS (Op_rejected Reject_expired)
                else if inv_status invite = Invite_revoked then retS (Op_ok ())
                else bindS (writeAndResolve (rt_store rt) \<lparr>ci_key = dg_inviteKey (rt_digests rt) inviteRef,
                    ci_expectedRevision = Some (cr_revision r),
                    ci_operationId = js ''invitation.revoke.'' @ dg_operation (rt_digests rt) operationId,
                    ci_value = encodeInvite (invite\<lparr>inv_status := Invite_revoked, inv_lastAuthorizedOperationDigest := None\<rparr>),
                    ci_expiresAt = None\<rparr>) (\<lambda>write.
                  case write of
                    W_applied _ \<Rightarrow> retS (Op_ok ())
                  | W_operation_mismatch \<Rightarrow> retS (Op_rejected Reject_operation_mismatch)
                  | W_unavailable \<Rightarrow> retS Op_unavailable
                  | W_outcome_unknown _ \<Rightarrow> retS (Op_outcome_unknown operationId)
                  | W_conflict _ \<Rightarrow> revokeInviteFrom rt operationId inviteRef who n))))"

definition revokeInvite :: "'w admissionRuntime \<Rightarrow> ustring \<Rightarrow> ustring \<Rightarrow> ('w, unit outcome) act" where
  "revokeInvite rt operationId inviteRef =
     bindS (currentPrincipal (rt_identity rt)) (\<lambda>identity.
     case identity of
       Is_auth_required \<Rightarrow> retS (Op_rejected Reject_auth_required)
     | Is_unavailable \<Rightarrow> retS Op_unavailable
     | Is_signed_in who \<Rightarrow> revokeInviteFrom rt operationId inviteRef who 3)"

section \<open>Inspecting\<close>

definition inspectAllowed :: "'w admissionRuntime \<Rightarrow> authPrincipal \<Rightarrow> inviteRecord \<Rightarrow> ('w, inviteState) act" where
  "inspectAllowed rt who invite =
     (if inv_status invite = Invite_revoked then retS State_revoked
      else if \<not> policyAllows (rt_toLowerCase rt) (dg_email (rt_digests rt)) (inv_policy invite) who then retS State_identity_mismatch
      else tryS (rt_inspectMembership rt (inv_roomId invite) who (policyHistory (inv_policy invite)))
        (\<lambda>membership. retS (case membership of
             Insp_unavailable \<Rightarrow> State_unavailable
           | Insp_absent \<Rightarrow> State_eligible
           | Insp_joined \<Rightarrow> State_already_joined))
        (\<lambda>error. retS State_unavailable))"

definition inspectStored :: "'w admissionRuntime \<Rightarrow> authPrincipal \<Rightarrow> ustring \<Rightarrow> inviteRecord \<Rightarrow> ('w, inviteState) act" where
  "inspectStored rt who inviteRef invite =
     (if inv_inviteRefDigest invite \<noteq> dg_inviteRef (rt_digests rt) inviteRef then retS State_unavailable
      else bindS (inviteExpired rt invite) (\<lambda>expired.
        if expired then retS State_expired
        else bindS (removalOf rt invite (ap_ownerId who)) (\<lambda>removal.
          case removal of
            Removal_revoked \<Rightarrow> retS State_revoked
          | Removal_unavailable \<Rightarrow> retS State_unavailable
          | Removal_allowed \<Rightarrow> inspectAllowed rt who invite)))"

definition inspectInvite :: "'w admissionRuntime \<Rightarrow> ustring \<Rightarrow> ('w, inviteState) act" where
  "inspectInvite rt inviteRef =
     bindS (currentPrincipal (rt_identity rt)) (\<lambda>identity.
     case identity of
       Is_auth_required \<Rightarrow> retS State_auth_required
     | Is_unavailable \<Rightarrow> retS State_unavailable
     | Is_signed_in who \<Rightarrow>
         bindS (safeRead (rt_store rt) (dg_inviteKey (rt_digests rt) inviteRef)) (\<lambda>stored.
         case stored of
           Read_unavailable \<Rightarrow> retS State_unavailable
         | Read_absent \<Rightarrow> retS State_revoked
         | Read_record r \<Rightarrow>
             (case readInviteRecord (rt_dateParse rt) (cr_value r) of
                None \<Rightarrow> retS State_unavailable
              | Some invite \<Rightarrow> inspectStored rt who inviteRef invite)))"

section \<open>Personal links\<close>

definition readPointer :: "jsval \<Rightarrow> nat option" where
  "readPointer value = (case value of
     JObj _ _ \<Rightarrow> if getProp value (js ''v'') = jnat 1 then readGeneration (getProp value (js ''generation'')) else None
   | _ \<Rightarrow> None)"

definition pointerOperation :: "'w admissionRuntime \<Rightarrow> ustring \<Rightarrow> nat \<Rightarrow> ustring" where
  "pointerOperation rt key generation = js ''personal.pointer.'' @ dg_operation (rt_digests rt) (key @ [0] @ dec_digits generation)"

definition pointerWrite :: "'w admissionRuntime \<Rightarrow> ustring \<Rightarrow> ustring option \<Rightarrow> nat \<Rightarrow> compareAndSetInput" where
  "pointerWrite rt key expected generation =
     \<lparr>ci_key = key, ci_expectedRevision = expected, ci_operationId = pointerOperation rt key generation,
      ci_value = JObj True [(js ''v'', jnat 1), (js ''generation'', jnat generation)], ci_expiresAt = None\<rparr>"

text \<open>A removal since the invitation was issued, a revocation or the expiry makes a link unusable.\<close>

definition linkUnusable :: "'w admissionRuntime \<Rightarrow> inviteRecord \<Rightarrow> nat \<Rightarrow> ('w, bool) act" where
  "linkUnusable rt invite channelGen =
     (if (case inv_removalGeneration invite of None \<Rightarrow> 0 | Some n \<Rightarrow> n) < channelGen \<or> inv_status invite = Invite_revoked
      then retS True else inviteExpired rt invite)"

text \<open>\<open>Inl\<close> is a return of the function; \<open>Inr ()\<close> is \<open>continue\<close>.\<close>

definition afterPointerWrite :: "writeResult \<Rightarrow> shareGrant outcome + unit" where
  "afterPointerWrite result = (case result of
     W_unavailable \<Rightarrow> Inl Op_unavailable
   | W_outcome_unknown u \<Rightarrow> Inl (Op_outcome_unknown u)
   | W_operation_mismatch \<Rightarrow> Inl (Op_rejected Reject_operation_mismatch)
   | _ \<Rightarrow> Inr ())"

definition writePointer :: "'w admissionRuntime \<Rightarrow> compareAndSetInput \<Rightarrow> ('w, shareGrant outcome + unit) act" where
  "writePointer rt input = bindS (writeAndResolve (rt_store rt) input) (\<lambda>result. retS (afterPointerWrite result))"

definition personalShare :: "'w admissionRuntime \<Rightarrow> ustring \<Rightarrow> ustring \<Rightarrow> nat \<Rightarrow> ustring \<Rightarrow> ('w, shareGrant outcome + unit) act" where
  "personalShare rt ownerId roomId channelGen operationId =
     bindS (shareInvite rt \<lparr>si_operationId = operationId, si_roomId = roomId, si_policy = None\<rparr> (Some ownerId)) (\<lambda>shared.
     case shared of
       Op_ok g \<Rightarrow>
         bindS (safeRead (rt_store rt) (dg_inviteKey (rt_digests rt) (sg_inviteRef g))) (\<lambda>current.
         case current of
           Read_record r \<Rightarrow>
             (case readInviteRecord (rt_dateParse rt) (cr_value r) of
                None \<Rightarrow> retS (Inl Op_unavailable)
              | Some invite \<Rightarrow>
                  if inv_creatorOwnerId invite \<noteq> ownerId \<or> inv_roomId invite \<noteq> roomId then retS (Inl Op_unavailable)
                  else bindS (linkUnusable rt invite channelGen) (\<lambda>unusable.
                    retS (if unusable then Inr () else Inl (Op_ok g))))
         | _ \<Rightarrow> retS (Inl Op_unavailable))
     | _ \<Rightarrow> retS (Inl shared))"

definition personalAttempt :: "'w admissionRuntime \<Rightarrow> ustring \<Rightarrow> ustring \<Rightarrow> nat \<Rightarrow> ustring \<Rightarrow> ('w, shareGrant outcome + unit) act" where
  "personalAttempt rt ownerId roomId channelGen pointerKey =
     bindS (safeRead (rt_store rt) pointerKey) (\<lambda>pointerRead.
     case pointerRead of
       Read_unavailable \<Rightarrow> retS (Inl Op_unavailable)
     | Read_absent \<Rightarrow> writePointer rt (pointerWrite rt pointerKey None 0)
     | Read_record p \<Rightarrow>
         (case readPointer (cr_value p) of
            None \<Rightarrow> retS (Inl Op_unavailable)
          | Some generation \<Rightarrow>
              let operationId = dg_personal (rt_digests rt) ownerId roomId generation;
                  inviteRef = dg_token (rt_digests rt) operationId in
              bindS (safeRead (rt_store rt) (dg_inviteKey (rt_digests rt) inviteRef)) (\<lambda>inviteRead.
              case inviteRead of
                Read_unavailable \<Rightarrow> retS (Inl Op_unavailable)
              | Read_absent \<Rightarrow> personalShare rt ownerId roomId channelGen operationId
              | Read_record r \<Rightarrow>
                  (case readInviteRecord (rt_dateParse rt) (cr_value r) of
                     None \<Rightarrow> retS (Inl Op_unavailable)
                   | Some invite \<Rightarrow>
                       if inv_creatorOwnerId invite \<noteq> ownerId \<or> inv_roomId invite \<noteq> roomId
                         \<or> inv_inviteRefDigest invite \<noteq> dg_inviteRef (rt_digests rt) inviteRef
                       then retS (Inl Op_unavailable)
                       else bindS (linkUnusable rt invite channelGen) (\<lambda>unusable.
                         if unusable then
                           (if \<not> safeNat (generation + 1) then retS (Inl Op_unavailable)
                            else writePointer rt (pointerWrite rt pointerKey (Some (cr_revision p)) (generation + 1)))
                         else personalShare rt ownerId roomId channelGen operationId)))))"

fun personalLinkFrom :: "'w admissionRuntime \<Rightarrow> ustring \<Rightarrow> ustring \<Rightarrow> nat \<Rightarrow> ustring \<Rightarrow> nat \<Rightarrow> ('w, shareGrant outcome) act" where
  "personalLinkFrom rt ownerId roomId channelGen pointerKey 0 = retS Op_unavailable"
| "personalLinkFrom rt ownerId roomId channelGen pointerKey (Suc n) =
     bindS (personalAttempt rt ownerId roomId channelGen pointerKey) (\<lambda>step.
     case step of
       Inl result \<Rightarrow> retS result
     | Inr _ \<Rightarrow> personalLinkFrom rt ownerId roomId channelGen pointerKey n)"

definition personalLink :: "'w admissionRuntime \<Rightarrow> ustring \<Rightarrow> ('w, shareGrant outcome) act" where
  "personalLink rt roomId =
     bindS (currentPrincipal (rt_identity rt)) (\<lambda>identity.
     case identity of
       Is_auth_required \<Rightarrow> retS (Op_rejected Reject_auth_required)
     | Is_unavailable \<Rightarrow> retS Op_unavailable
     | Is_signed_in who \<Rightarrow>
         bindS (readRoomRemovals (rt_store rt) (rt_sha256 rt) roomId) (\<lambda>removals.
         case removals of
           Inl _ \<Rightarrow> retS Op_unavailable
         | Inr rs \<Rightarrow> personalLinkFrom rt (ap_ownerId who) roomId (case rs of None \<Rightarrow> 0 | Some v \<Rightarrow> generationOf v)
             (dg_personalKey (rt_digests rt) (ap_ownerId who) roomId) 8))"

section \<open>The admission journal\<close>

datatype journalState = Journal_admitting | Journal_outcome_unknown | Journal_joined

definition journalStates :: "(string \<times> journalState) list" where
  "journalStates = [(''admitting'', Journal_admitting), (''outcome_unknown'', Journal_outcome_unknown), (''joined'', Journal_joined)]"

definition stateText :: "journalState \<Rightarrow> ustring" where
  "stateText s = js (case s of Journal_admitting \<Rightarrow> ''admitting'' | Journal_outcome_unknown \<Rightarrow> ''outcome_unknown'' | Journal_joined \<Rightarrow> ''joined'')"

text \<open>The revision, the room and the history of a binding come from the record the store applied.\<close>

record admissionBinding =
  bd_inviteRefDigest :: jsval
  bd_inviteRevision :: jsval
  bd_roomId :: jsval
  bd_ownerId :: jsval
  bd_deviceId :: jsval
  bd_history :: jsval

record journalEntry =
  je_record :: jsval
  je_revision :: ustring

definition summaryObject :: "channelSummary \<Rightarrow> jsval" where
  "summaryObject c = JObj True [(js ''roomId'', JStr (ch_roomId c)), (js ''title'', jnullable JStr (ch_title c)),
     (js ''membership'', JStr (js (litStr channelMemberships (ch_membership c)))), (js ''revision'', JStr (ch_revision c))]"

definition readRoom :: "jsval \<Rightarrow> channelSummary option" where
  "readRoom value = (case value of
     JObj _ _ \<Rightarrow>
       Option.bind (nonemptyText (getProp value (js ''roomId''))) (\<lambda>roomId.
       Option.bind (case getProp value (js ''title'') of JNull \<Rightarrow> Some None | JStr t \<Rightarrow> Some (Some t) | _ \<Rightarrow> None) (\<lambda>title.
       if getProp value (js ''membership'') \<noteq> JStr (js ''joined'') then None
       else Option.bind (nonemptyText (getProp value (js ''revision''))) (\<lambda>revision.
         Some \<lparr>ch_roomId = roomId, ch_title = title, ch_membership = Member_joined, ch_revision = revision\<rparr>)))
   | _ \<Rightarrow> None)"

definition journalObject :: "admissionBinding \<Rightarrow> journalState \<Rightarrow> channelSummary option \<Rightarrow> jsval" where
  "journalObject b st room = JObj True [(js ''v'', jnat 1), (js ''inviteRefDigest'', bd_inviteRefDigest b),
     (js ''inviteRevision'', bd_inviteRevision b), (js ''policyRevision'', jnat 1), (js ''roomId'', bd_roomId b),
     (js ''ownerId'', bd_ownerId b), (js ''deviceId'', bd_deviceId b), (js ''history'', bd_history b),
     (js ''state'', JStr (stateText st)), (js ''room'', jnullable summaryObject room)]"

definition textProp :: "jsval \<Rightarrow> string \<Rightarrow> jsval option" where
  "textProp value k = map_option JStr (nonemptyText (getProp value (js k)))"

definition readJournalRecord :: "jsval \<Rightarrow> (admissionBinding \<times> journalState \<times> channelSummary option) option" where
  "readJournalRecord value = (case value of
     JObj _ _ \<Rightarrow>
       if getProp value (js ''v'') \<noteq> jnat 1 \<or> getProp value (js ''policyRevision'') \<noteq> jnat 1 then None
       else
         Option.bind (textProp value ''inviteRefDigest'') (\<lambda>digest.
         Option.bind (textProp value ''inviteRevision'') (\<lambda>revision.
         Option.bind (textProp value ''roomId'') (\<lambda>roomId.
         Option.bind (textProp value ''ownerId'') (\<lambda>ownerId.
         Option.bind (textProp value ''deviceId'') (\<lambda>deviceId.
         Option.bind (readHistory (getProp value (js ''history''))) (\<lambda>history.
         Option.bind (case getProp value (js ''state'') of
             JStr s \<Rightarrow> map_of (map (\<lambda>(k, v). (js k, v)) journalStates) s | _ \<Rightarrow> None) (\<lambda>st.
         Option.bind (case getProp value (js ''room'') of JNull \<Rightarrow> Some None | v \<Rightarrow> map_option Some (readRoom v)) (\<lambda>room.
         if st = Journal_joined \<and> room = None then None
         else Some (\<lparr>bd_inviteRefDigest = digest, bd_inviteRevision = revision, bd_roomId = roomId, bd_ownerId = ownerId,
                bd_deviceId = deviceId, bd_history = historyText history\<rparr>, st, room)))))))))
   | _ \<Rightarrow> None)"

definition entryFrom :: "controlRecord \<Rightarrow> journalEntry" where
  "entryFrom r = \<lparr>je_record = cr_value r, je_revision = cr_revision r\<rparr>"

definition journalKey :: "digests \<Rightarrow> ustring \<Rightarrow> ustring" where
  "journalKey d operationId = js ''invitations.admission.'' @ dg_operation d operationId"

datatype journalRead = Jr_entry journalEntry | Jr_absent | Jr_unavailable

definition journalReadEntry :: "'w controlStore \<Rightarrow> digests \<Rightarrow> ustring \<Rightarrow> ('w, journalRead) act" where
  "journalReadEntry store d operationId =
     bindS (safeRead store (journalKey d operationId)) (\<lambda>result. retS (case result of
         Read_absent \<Rightarrow> Jr_absent
       | Read_unavailable \<Rightarrow> Jr_unavailable
       | Read_record r \<Rightarrow> (case readJournalRecord (cr_value r) of
             None \<Rightarrow> Jr_unavailable
           | Some (b, st, room) \<Rightarrow> Jr_entry \<lparr>je_record = journalObject b st room, je_revision = cr_revision r\<rparr>)))"

datatype journalWrite = Jw_entry journalEntry | Jw_operation_mismatch | Jw_unavailable | Jw_outcome_unknown

definition sameBinding :: "admissionBinding \<Rightarrow> admissionBinding \<Rightarrow> bool" where
  "sameBinding a b \<longleftrightarrow> bd_inviteRefDigest a = bd_inviteRefDigest b \<and> bd_inviteRevision a = bd_inviteRevision b
     \<and> bd_roomId a = bd_roomId b \<and> bd_ownerId a = bd_ownerId b \<and> bd_deviceId a = bd_deviceId b \<and> bd_history a = bd_history b"

definition journalClaim :: "'w controlStore \<Rightarrow> digests \<Rightarrow> ustring \<Rightarrow> admissionBinding \<Rightarrow> ('w, journalWrite) act" where
  "journalClaim store d operationId binding =
     bindS (writeAndResolve store \<lparr>ci_key = journalKey d operationId, ci_expectedRevision = None,
         ci_operationId = js ''invitation.admission.claim.'' @ dg_operation d operationId,
         ci_value = journalObject binding Journal_admitting None, ci_expiresAt = None\<rparr>) (\<lambda>result.
     retS (case result of
         W_applied r \<Rightarrow> Jw_entry (entryFrom r)
       | W_conflict (Some current) \<Rightarrow>
           (case readJournalRecord (cr_value current) of
              Some (b, _, _) \<Rightarrow> if sameBinding b binding then Jw_entry (entryFrom current) else Jw_operation_mismatch
            | None \<Rightarrow> Jw_operation_mismatch)
       | W_operation_mismatch \<Rightarrow> Jw_operation_mismatch
       | W_outcome_unknown _ \<Rightarrow> Jw_outcome_unknown
       | _ \<Rightarrow> Jw_unavailable))"

text \<open>Equality of a stored room, as the JSON it is, with a summary.\<close>

definition sameRoom :: "jsval \<Rightarrow> channelSummary option \<Rightarrow> bool" where
  "sameRoom a b = (case b of
     None \<Rightarrow> a = JNull
   | Some room \<Rightarrow> a \<noteq> JNull \<and> getProp a (js ''roomId'') = JStr (ch_roomId room) \<and> getProp a (js ''title'') = jnullable JStr (ch_title room)
       \<and> getProp a (js ''membership'') = JStr (js (litStr channelMemberships (ch_membership room)))
       \<and> getProp a (js ''revision'') = JStr (ch_revision room))"

definition entryBinding :: "jsval \<Rightarrow> admissionBinding" where
  "entryBinding v = \<lparr>bd_inviteRefDigest = getProp v (js ''inviteRefDigest''), bd_inviteRevision = getProp v (js ''inviteRevision''),
     bd_roomId = getProp v (js ''roomId''), bd_ownerId = getProp v (js ''ownerId''), bd_deviceId = getProp v (js ''deviceId''),
     bd_history = getProp v (js ''history'')\<rparr>"

definition settled :: "journalEntry \<Rightarrow> journalState \<Rightarrow> channelSummary option \<Rightarrow> controlRecord \<Rightarrow> bool" where
  "settled entry st room current = (case readJournalRecord (cr_value current) of
     None \<Rightarrow> False
   | Some (b, st', room') \<Rightarrow> sameBinding b (entryBinding (je_record entry)) \<and> getProp (je_record entry) (js ''policyRevision'') = jnat 1
       \<and> st' = st \<and> sameRoom (jnullable summaryObject room') room)"

definition journalSetState :: "'w controlStore \<Rightarrow> digests \<Rightarrow> ustring \<Rightarrow> journalEntry \<Rightarrow> journalState \<Rightarrow> channelSummary option \<Rightarrow> ('w, journalWrite) act" where
  "journalSetState store d operationId entry st room =
     (let stored = getProp (je_record entry) (js ''room''); unchanged = (getProp (je_record entry) (js ''state'') = JStr (stateText st)) in
      if unchanged \<and> room \<noteq> None \<and> stored = JUndef then throwS typeError
      else if unchanged \<and> sameRoom stored room then retS (Jw_entry entry)
      else bindS (writeAndResolve store \<lparr>ci_key = journalKey d operationId, ci_expectedRevision = Some (je_revision entry),
          ci_operationId = js ''invitation.admission.'' @ stateText st @ js ''.'' @ dg_operation d operationId,
          ci_value = withProp (withProp (je_record entry) (js ''state'') (JStr (stateText st))) (js ''room'') (jnullable summaryObject room),
          ci_expiresAt = None\<rparr>) (\<lambda>result.
        retS (case result of
            W_applied r \<Rightarrow> Jw_entry (entryFrom r)
          | W_conflict (Some current) \<Rightarrow> if settled entry st room current then Jw_entry (entryFrom current) else Jw_unavailable
          | W_outcome_unknown _ \<Rightarrow> Jw_outcome_unknown
          | _ \<Rightarrow> Jw_unavailable)))"

section \<open>Admitting\<close>

record admitInput =
  ai_operationId :: ustring
  ai_inviteRef :: ustring
  ai_deviceId :: ustring

text \<open>A successful admission; a room the journal already held is returned as stored.\<close>

record admissionResult =
  ar_outcome :: admissionOutcome
  ar_room :: jsval

definition checkInvite :: "'w admissionRuntime \<Rightarrow> authPrincipal \<Rightarrow> inviteRecord \<Rightarrow> ustring
    \<Rightarrow> ('w, admissionResult outcome + inviteRecord \<times> ustring) act" where
  "checkInvite rt who invite revision =
     bindS (inviteExpired rt invite) (\<lambda>expired.
     if expired then retS (Inl (Op_rejected Reject_expired))
     else bindS (removalOf rt invite (ap_ownerId who)) (\<lambda>removal.
       case removal of
         Removal_unavailable \<Rightarrow> retS (Inl Op_unavailable)
       | Removal_revoked \<Rightarrow> retS (Inl (Op_rejected Reject_revoked))
       | Removal_allowed \<Rightarrow>
           if inv_status invite = Invite_revoked then retS (Inl (Op_rejected Reject_revoked))
           else if \<not> policyAllows (rt_toLowerCase rt) (dg_email (rt_digests rt)) (inv_policy invite) who
           then retS (Inl (Op_rejected Reject_identity_mismatch))
           else retS (Inr (invite, revision))))"

definition readEligibleInvite :: "'w admissionRuntime \<Rightarrow> admitInput \<Rightarrow> authPrincipal
    \<Rightarrow> ('w, admissionResult outcome + inviteRecord \<times> ustring) act" where
  "readEligibleInvite rt input who =
     bindS (safeRead (rt_store rt) (dg_inviteKey (rt_digests rt) (ai_inviteRef input))) (\<lambda>read.
     case read of
       Read_unavailable \<Rightarrow> retS (Inl Op_unavailable)
     | Read_absent \<Rightarrow> retS (Inl (Op_rejected Reject_revoked))
     | Read_record r \<Rightarrow>
         (case readInviteRecord (rt_dateParse rt) (cr_value r) of
            None \<Rightarrow> retS (Inl Op_unavailable)
          | Some invite \<Rightarrow>
              if inv_inviteRefDigest invite \<noteq> dg_inviteRef (rt_digests rt) (ai_inviteRef input) then retS (Inl Op_unavailable)
              else checkInvite rt who invite (cr_revision r)))"

fun authorizeInviteFrom :: "'w admissionRuntime \<Rightarrow> admitInput \<Rightarrow> authPrincipal \<Rightarrow> nat
    \<Rightarrow> ('w, admissionResult outcome + jsval \<times> ustring) act" where
  "authorizeInviteFrom rt input who 0 = retS (Inl Op_unavailable)"
| "authorizeInviteFrom rt input who (Suc n) =
     bindS (readEligibleInvite rt input who) (\<lambda>eligible.
     case eligible of
       Inl failure \<Rightarrow> retS (Inl failure)
     | Inr (invite, revision) \<Rightarrow>
         bindS (writeAndResolve (rt_store rt) \<lparr>ci_key = dg_inviteKey (rt_digests rt) (ai_inviteRef input), ci_expectedRevision = Some revision,
             ci_operationId = js ''invitation.authorize.'' @ dg_operation (rt_digests rt) (ai_operationId input),
             ci_value = encodeInvite (invite\<lparr>inv_lastAuthorizedOperationDigest := Some (dg_operation (rt_digests rt) (ai_operationId input))\<rparr>),
             ci_expiresAt = None\<rparr>) (\<lambda>write.
         case write of
           W_applied r \<Rightarrow> retS (Inr (cr_value r, cr_revision r))
         | W_operation_mismatch \<Rightarrow> retS (Inl (Op_rejected Reject_operation_mismatch))
         | W_unavailable \<Rightarrow> retS (Inl Op_unavailable)
         | W_outcome_unknown _ \<Rightarrow> retS (Inl (Op_outcome_unknown (ai_operationId input)))
         | W_conflict _ \<Rightarrow> authorizeInviteFrom rt input who n))"

definition authorizeInvite :: "'w admissionRuntime \<Rightarrow> admitInput \<Rightarrow> authPrincipal
    \<Rightarrow> ('w, admissionResult outcome + jsval \<times> ustring) act" where
  "authorizeInvite rt input who = authorizeInviteFrom rt input who 3"

definition complete :: "'w admissionRuntime \<Rightarrow> ustring \<Rightarrow> journalEntry \<Rightarrow> channelSummary \<Rightarrow> ('w, admissionResult outcome) act" where
  "complete rt operationId entry room =
     (if ch_membership room \<noteq> Member_joined then retS Op_unavailable
      else bindS (journalSetState (rt_store rt) (rt_digests rt) operationId entry Journal_joined (Some room)) (\<lambda>saved.
        retS (case saved of
            Jw_entry _ \<Rightarrow> Op_ok \<lparr>ar_outcome = Outcome_joined, ar_room = summaryObject room\<rparr>
          | Jw_outcome_unknown \<Rightarrow> Op_outcome_unknown operationId
          | _ \<Rightarrow> Op_unavailable)))"

definition callLookup :: "'w admissionRuntime \<Rightarrow> gatewayRequest \<Rightarrow> ('w, gatewayLookup) act" where
  "callLookup rt request = catchS (rt_lookup rt request) (\<lambda>error. retS Look_unavailable)"

text \<open>\<open>None\<close> is \<open>threw\<close>.\<close>

definition callAdmit :: "'w admissionRuntime \<Rightarrow> gatewayRequest \<Rightarrow> ('w, gatewayAdmission option) act" where
  "callAdmit rt request = tryS (rt_admit rt request) (\<lambda>r. retS (Some r)) (\<lambda>error. retS None)"

definition reconcileAmbiguous :: "'w admissionRuntime \<Rightarrow> gatewayRequest \<Rightarrow> journalEntry \<Rightarrow> ('w, admissionResult outcome) act" where
  "reconcileAmbiguous rt request entry =
     bindS (callLookup rt request) (\<lambda>reconciled.
     case reconciled of
       Look_joined room \<Rightarrow> complete rt (gq_operationId request) entry room
     | _ \<Rightarrow>
         bindS (journalSetState (rt_store rt) (rt_digests rt) (gq_operationId request) entry Journal_outcome_unknown None) (\<lambda>_.
         retS (Op_outcome_unknown (gq_operationId request))))"

definition requestOf :: "admitInput \<Rightarrow> journalEntry \<Rightarrow> authPrincipal \<Rightarrow> inviteRecord \<Rightarrow> gatewayRequest" where
  "requestOf input entry who invite =
     \<lparr>gq_operationId = ai_operationId input, gq_roomId = getProp (je_record entry) (js ''roomId''), gq_principal = who,
      gq_deviceId = getProp (je_record entry) (js ''deviceId''), gq_history = getProp (je_record entry) (js ''history''),
      gq_inviteRevision = getProp (je_record entry) (js ''inviteRevision''),
      gq_removalGeneration = (case inv_removalGeneration invite of None \<Rightarrow> 0 | Some n \<Rightarrow> n),
      gq_inviteCreatorOwnerId = inv_creatorOwnerId invite\<rparr>"

definition performAdmission :: "'w admissionRuntime \<Rightarrow> gatewayRequest \<Rightarrow> journalEntry \<Rightarrow> ('w, admissionResult outcome) act" where
  "performAdmission rt request entry =
     bindS (callAdmit rt request) (\<lambda>admitted.
     case admitted of
       Some Gw_forbidden \<Rightarrow> retS (Op_rejected Reject_forbidden)
     | Some Gw_unavailable \<Rightarrow> retS Op_unavailable
     | Some (Gw_joined room) \<Rightarrow> complete rt (gq_operationId request) entry room
     | _ \<Rightarrow> reconcileAmbiguous rt request entry)"

definition reconcileThenAdmit :: "'w admissionRuntime \<Rightarrow> admitInput \<Rightarrow> authPrincipal \<Rightarrow> gatewayRequest \<Rightarrow> journalEntry
    \<Rightarrow> ('w, admissionResult outcome) act" where
  "reconcileThenAdmit rt input who request entry =
     bindS (callLookup rt request) (\<lambda>reconciled.
     case reconciled of
       Look_joined room \<Rightarrow> complete rt (ai_operationId input) entry room
     | Look_unavailable \<Rightarrow> retS (if getProp (je_record entry) (js ''state'') = JStr (js ''outcome_unknown'')
         then Op_outcome_unknown (ai_operationId input) else Op_unavailable)
     | Look_outcome_unknown \<Rightarrow> retS (Op_outcome_unknown (ai_operationId input))
     | Look_absent \<Rightarrow>
         bindS (readEligibleInvite rt input who) (\<lambda>eligible.
         case eligible of
           Inl failure \<Rightarrow> retS failure
         | Inr (invite, _) \<Rightarrow>
             if JStr (inv_roomId invite) \<noteq> getProp (je_record entry) (js ''roomId'')
               \<or> jnat 1 \<noteq> getProp (je_record entry) (js ''policyRevision'')
               \<or> historyText (policyHistory (inv_policy invite)) \<noteq> getProp (je_record entry) (js ''history'')
             then retS Op_unavailable
             else performAdmission rt request entry))"

definition resumeAdmission :: "'w admissionRuntime \<Rightarrow> admitInput \<Rightarrow> journalEntry \<Rightarrow> authPrincipal \<Rightarrow> bool
    \<Rightarrow> ('w, admissionResult outcome) act" where
  "resumeAdmission rt input entry who reconcileFirst =
     bindS (safeRead (rt_store rt) (dg_inviteKey (rt_digests rt) (ai_inviteRef input))) (\<lambda>inviteRead.
     case (case inviteRead of Read_record r \<Rightarrow> readInviteRecord (rt_dateParse rt) (cr_value r) | _ \<Rightarrow> None) of
       None \<Rightarrow> retS Op_unavailable
     | Some invite \<Rightarrow>
         bindS (removalOf rt invite (ap_ownerId who)) (\<lambda>removal.
         case removal of
           Removal_unavailable \<Rightarrow> retS Op_unavailable
         | Removal_revoked \<Rightarrow> retS (Op_rejected Reject_revoked)
         | Removal_allowed \<Rightarrow>
             if reconcileFirst then reconcileThenAdmit rt input who (requestOf input entry who invite) entry
             else performAdmission rt (requestOf input entry who invite) entry))"

definition sameRequest :: "'w admissionRuntime \<Rightarrow> journalEntry \<Rightarrow> admitInput \<Rightarrow> ustring \<Rightarrow> bool" where
  "sameRequest rt entry input ownerId \<longleftrightarrow>
     getProp (je_record entry) (js ''inviteRefDigest'') = JStr (dg_inviteRef (rt_digests rt) (ai_inviteRef input))
     \<and> getProp (je_record entry) (js ''ownerId'') = JStr ownerId
     \<and> getProp (je_record entry) (js ''deviceId'') = JStr (ai_deviceId input)"

definition admitExisting :: "'w admissionRuntime \<Rightarrow> admitInput \<Rightarrow> journalEntry \<Rightarrow> authPrincipal \<Rightarrow> ('w, admissionResult outcome) act" where
  "admitExisting rt input entry who =
     (if \<not> sameRequest rt entry input (ap_ownerId who) then retS (Op_rejected Reject_operation_mismatch)
      else bindS (safeRead (rt_store rt) (dg_inviteKey (rt_digests rt) (ai_inviteRef input))) (\<lambda>inviteRead.
        case inviteRead of
          Read_record r \<Rightarrow>
            (case readInviteRecord (rt_dateParse rt) (cr_value r) of
               None \<Rightarrow> retS Op_unavailable
             | Some invite \<Rightarrow>
                 bindS (removalOf rt invite (ap_ownerId who)) (\<lambda>removal.
                 case removal of
                   Removal_unavailable \<Rightarrow> retS Op_unavailable
                 | Removal_revoked \<Rightarrow> retS (Op_rejected Reject_revoked)
                 | Removal_allowed \<Rightarrow>
                     if getProp (je_record entry) (js ''state'') = JStr (js ''joined'')
                     then retS (Op_ok \<lparr>ar_outcome = Outcome_already_joined, ar_room = getProp (je_record entry) (js ''room'')\<rparr>)
                     else resumeAdmission rt input entry who True))
        | _ \<Rightarrow> retS Op_unavailable))"

definition admitAuthorized :: "'w admissionRuntime \<Rightarrow> admitInput \<Rightarrow> authPrincipal \<Rightarrow> jsval \<Rightarrow> ustring \<Rightarrow> ('w, admissionResult outcome) act" where
  "admitAuthorized rt input who invite revision =
     bindS (fieldOf invite ''roomId'') (\<lambda>roomId.
     bindS (fieldOf invite ''policy'') (\<lambda>policy.
     bindS (fieldOf policy ''history'') (\<lambda>history.
     bindS (journalClaim (rt_store rt) (rt_digests rt) (ai_operationId input)
         \<lparr>bd_inviteRefDigest = JStr (dg_inviteRef (rt_digests rt) (ai_inviteRef input)), bd_inviteRevision = JStr revision,
          bd_roomId = roomId, bd_ownerId = JStr (ap_ownerId who), bd_deviceId = JStr (ai_deviceId input), bd_history = history\<rparr>) (\<lambda>claimed.
     case claimed of
       Jw_operation_mismatch \<Rightarrow> retS (Op_rejected Reject_operation_mismatch)
     | Jw_unavailable \<Rightarrow> retS Op_unavailable
     | Jw_outcome_unknown \<Rightarrow> retS (Op_outcome_unknown (ai_operationId input))
     | Jw_entry entry \<Rightarrow>
         bindS (fieldOf (je_record entry) ''state'') (\<lambda>st.
         if st = JStr (js ''joined'')
         then retS (Op_ok \<lparr>ar_outcome = Outcome_already_joined, ar_room = getProp (je_record entry) (js ''room'')\<rparr>)
         else resumeAdmission rt input entry who False)))))"

definition admitInvite :: "'w admissionRuntime \<Rightarrow> admitInput \<Rightarrow> ('w, admissionResult outcome) act" where
  "admitInvite rt input =
     bindS (currentPrincipal (rt_identity rt)) (\<lambda>identity.
     case identity of
       Is_auth_required \<Rightarrow> retS (Op_rejected Reject_auth_required)
     | Is_unavailable \<Rightarrow> retS Op_unavailable
     | Is_signed_in who \<Rightarrow>
         bindS (journalReadEntry (rt_store rt) (rt_digests rt) (ai_operationId input)) (\<lambda>existing.
         case existing of
           Jr_unavailable \<Rightarrow> retS Op_unavailable
         | Jr_entry entry \<Rightarrow> admitExisting rt input entry who
         | Jr_absent \<Rightarrow>
             bindS (authorizeInvite rt input who) (\<lambda>authorized.
             case authorized of
               Inl failure \<Rightarrow> retS failure
             | Inr (invite, revision) \<Rightarrow> admitAuthorized rt input who invite revision)))"

section \<open>The service\<close>

record 'w admissionService =
  as_share :: "shareInput \<Rightarrow> ('w, shareGrant outcome) act"
  as_personalLink :: "ustring \<Rightarrow> ('w, shareGrant outcome) act"
  as_inspect :: "ustring \<Rightarrow> ('w, inviteState) act"
  as_admit :: "admitInput \<Rightarrow> ('w, admissionResult outcome) act"
  as_revoke :: "ustring \<Rightarrow> ustring \<Rightarrow> ('w, unit outcome) act"

text \<open>The options a runtime is made from: \<open>rt\<close> carries the ports; its origin, digests and lifetime are replaced by the checked
  ones. \<open>Inl\<close> is what the constructor throws.\<close>

definition createAdmissionService :: "'w admissionRuntime \<Rightarrow> (nat list \<Rightarrow> ustring \<Rightarrow> ustring) \<Rightarrow> (ustring \<Rightarrow> urlParts option)
    \<Rightarrow> nat list \<Rightarrow> ustring \<Rightarrow> ustring list \<Rightarrow> jsnum option \<Rightarrow> jsval + 'w admissionService" where
  "createAdmissionService rt hmac parseUrl secret origin allowedOrigins lifetime =
     (if (case lifetime of None \<Rightarrow> False | Some x \<Rightarrow> \<not> isSafeInteger x \<or> negativeNum x \<or> natOfNum x = 0)
      then Inl (JStr (js ''inviteLifetimeMs must be a positive safe integer or null''))
      else bindE (validateOrigin parseUrl origin allowedOrigins) (\<lambda>validOrigin.
        bindE (createDigests hmac secret) (\<lambda>d.
        let runtime = rt\<lparr>rt_origin := validOrigin, rt_digests := d, rt_inviteLifetimeMs := map_option natOfNum lifetime\<rparr> in
        Inr \<lparr>as_share = (\<lambda>input. shareInvite runtime input None), as_personalLink = personalLink runtime,
             as_inspect = inspectInvite runtime, as_admit = admitInvite runtime, as_revoke = revokeInvite runtime\<rparr>)))"

end
