(* ===== verification/AdmissionTrace.thy ===== *)
theory AdmissionTrace
  imports Admission
begin

text \<open>
  The audit trail of the invitation service. \<open>traceRuntime\<close> wraps every port of a runtime so that each call is appended, with
  its result, to a log carried beside the world; the lemmas \<open>*_erases\<close> show that the wrapped service computes exactly what the
  service computes. \<open>traces ok K m Q\<close> is the program logic over logs: started after the events \<open>K\<close>, the computation \<open>m\<close> only
  extends the log, calls \<open>gateway.admit\<close> only where \<open>ok\<close> holds of the request and the events so far, and a result satisfies \<open>Q\<close>
  together with all events.
\<close>

datatype traceEvent =
    Tr_identity "jsval + identityState"
  | Tr_read ustring "jsval + controlRead"
  | Tr_write compareAndSetInput "jsval + writeResult"
  | Tr_resolve ustring ustring "jsval + resolveResult"
  | Tr_canShare authPrincipal ustring "jsval + shareAuthority"
  | Tr_inspect ustring authPrincipal "jsval + gatewayInspection"
  | Tr_admit gatewayRequest "jsval + gatewayAdmission"
  | Tr_lookup gatewayRequest "jsval + gatewayLookup"
  | Tr_clock "jsval + int"
  | Tr_diagnostic shareDiagnosticStage

type_synonym 'w traced = "'w \<times> traceEvent list"

definition logged :: "(jsval + 'a \<Rightarrow> traceEvent) \<Rightarrow> ('w, 'a) act \<Rightarrow> ('w traced, 'a) act" where
  "logged ev m s = (case m (fst s) of (r, w) \<Rightarrow> (r, (w, snd s @ [ev r])))"

definition traceStore :: "'w controlStore \<Rightarrow> 'w traced controlStore" where
  "traceStore store = \<lparr>cs_read = (\<lambda>k. logged (Tr_read k) (cs_read store k)),
     cs_compareAndSet = (\<lambda>i. logged (Tr_write i) (cs_compareAndSet store i)),
     cs_resolve = (\<lambda>k u. logged (Tr_resolve k u) (cs_resolve store k u))\<rparr>"

definition traceRuntime :: "'w admissionRuntime \<Rightarrow> 'w traced admissionRuntime" where
  "traceRuntime rt = \<lparr>rt_store = traceStore (rt_store rt), rt_identity = logged Tr_identity (rt_identity rt),
     rt_canShare = (\<lambda>who room. logged (Tr_canShare who room) (rt_canShare rt who room)),
     rt_inspectMembership = (\<lambda>room who history. logged (Tr_inspect room who) (rt_inspectMembership rt room who history)),
     rt_admit = (\<lambda>q. logged (Tr_admit q) (rt_admit rt q)), rt_lookup = (\<lambda>q. logged (Tr_lookup q) (rt_lookup rt q)),
     rt_clock = logged Tr_clock (rt_clock rt), rt_diagnostic = (\<lambda>stage. logged (\<lambda>_. Tr_diagnostic stage) (rt_diagnostic rt stage)),
     rt_origin = rt_origin rt, rt_digests = rt_digests rt, rt_inviteLifetimeMs = rt_inviteLifetimeMs rt,
     rt_dateParse = rt_dateParse rt, rt_toISOString = rt_toISOString rt, rt_toLowerCase = rt_toLowerCase rt,
     rt_sha256 = rt_sha256 rt, rt_joinUrl = rt_joinUrl rt\<rparr>"

lemma traceRuntime_simps [simp]:
  "rt_store (traceRuntime rt) = traceStore (rt_store rt)" "rt_digests (traceRuntime rt) = rt_digests rt"
  "rt_dateParse (traceRuntime rt) = rt_dateParse rt" "rt_toLowerCase (traceRuntime rt) = rt_toLowerCase rt"
  "rt_sha256 (traceRuntime rt) = rt_sha256 rt" "rt_origin (traceRuntime rt) = rt_origin rt"
  "rt_joinUrl (traceRuntime rt) = rt_joinUrl rt" "rt_inviteLifetimeMs (traceRuntime rt) = rt_inviteLifetimeMs rt"
  "rt_toISOString (traceRuntime rt) = rt_toISOString rt"
  by (simp_all add: traceRuntime_def)

section \<open>The logic\<close>

definition traces :: "(gatewayRequest \<Rightarrow> traceEvent set \<Rightarrow> bool) \<Rightarrow> traceEvent set \<Rightarrow> ('w traced, 'a) act
    \<Rightarrow> ('a \<Rightarrow> traceEvent set \<Rightarrow> bool) \<Rightarrow> bool" where
  "traces ok K m Q \<longleftrightarrow> (\<forall>w t r w' t'. set t = K \<longrightarrow> m (w, t) = (r, (w', t')) \<longrightarrow> (\<exists>u. t' = t @ u
     \<and> (\<forall>u1 q x u2. u = u1 @ Tr_admit q x # u2 \<longrightarrow> ok q (K \<union> set u1)) \<and> (\<forall>x. r = Inr x \<longrightarrow> Q x (K \<union> set u))))"

lemma tracesD:
  assumes "traces ok K m Q" "set t = K" "m (w, t) = (r, (w', t'))"
  obtains u where "t' = t @ u" "\<And>u1 q x u2. u = u1 @ Tr_admit q x # u2 \<Longrightarrow> ok q (K \<union> set u1)" "\<And>x. r = Inr x \<Longrightarrow> Q x (K \<union> set u)"
  using assms unfolding traces_def by (elim allE impE) (assumption+, blast)

lemma traces_ret: "Q x K \<Longrightarrow> traces ok K (retS x) Q"
  by (simp add: traces_def)

lemma traces_pair: "Q x K \<Longrightarrow> traces ok K (Pair (Inr x)) Q"
  by (simp add: traces_def)

lemma traces_throw: "traces ok K (throwS e) Q"
  by (simp add: traces_def)

lemma traces_conseq: "traces ok K m R \<Longrightarrow> (\<And>x K'. K \<subseteq> K' \<Longrightarrow> R x K' \<Longrightarrow> Q x K') \<Longrightarrow> traces ok K m Q"
  unfolding traces_def by (elim all_forward imp_forward ex_forward conj_forward, assumption+) auto

lemma admit_split:
  assumes "u @ v = u1 @ Tr_admit q x # u2"
  obtains (left) v2 where "u = u1 @ Tr_admit q x # v2" | (right) v1 where "v = v1 @ Tr_admit q x # u2" "u1 = u @ v1"
  using assms by (auto simp: append_eq_append_conv2 append_eq_Cons_conv) 

lemma traces_try:
  assumes m: "traces ok K m R" and k: "\<And>x K'. K \<subseteq> K' \<Longrightarrow> R x K' \<Longrightarrow> traces ok K' (k x) Q" and h: "\<And>e K'. K \<subseteq> K' \<Longrightarrow> traces ok K' (h e) Q"
  shows "traces ok K (tryS m k h) Q"
  unfolding traces_def
proof (intro allI impI)
  fix w t r w' t'
  assume t: "set t = K" and run: "tryS m k h (w, t) = (r, w', t')"
  obtain r1 w1 t1 where r1: "m (w, t) = (r1, (w1, t1))" by (metis prod.exhaust)
  obtain u where u: "t1 = t @ u" "\<And>u1 q x u2. u = u1 @ Tr_admit q x # u2 \<Longrightarrow> ok q (K \<union> set u1)" "\<And>x. r1 = Inr x \<Longrightarrow> R x (K \<union> set u)"
    by (rule tracesD[OF m t r1]) blast
  have s: "set t1 = K \<union> set u" using t u(1) by simp
  define n where "n = (case r1 of Inl e \<Rightarrow> h e | Inr x \<Rightarrow> k x)"
  have n: "traces ok (K \<union> set u) n Q" using k h u(3) by (cases r1) (simp_all add: n_def)
  have run': "n (w1, t1) = (r, (w', t'))" using run r1 by (cases r1) (simp_all add: n_def tryS_def)
  obtain v where v: "t' = t1 @ v" "\<And>u1 q x u2. v = u1 @ Tr_admit q x # u2 \<Longrightarrow> ok q (K \<union> set u \<union> set u1)" "\<And>x. r = Inr x \<Longrightarrow> Q x (K \<union> set u \<union> set v)"
    by (rule tracesD[OF n s run']) blast
  have "ok q (K \<union> set u1)" if "u @ v = u1 @ Tr_admit q x # u2" for u1 q x u2
    using that
  proof (cases rule: admit_split)
    case (left v2)
    then show ?thesis by (rule u(2))
  next
    case (right v1)
    then show ?thesis using v(2)[OF right(1)] by (simp add: Un_assoc)
  qed
  then show "\<exists>u. t' = t @ u \<and> (\<forall>u1 q x u2. u = u1 @ Tr_admit q x # u2 \<longrightarrow> ok q (K \<union> set u1)) \<and> (\<forall>x. r = Inr x \<longrightarrow> Q x (K \<union> set u))"
    using u(1) v(1,3) by (intro exI[of _ "u @ v"]) (auto simp: Un_assoc)
qed

lemma traces_bind:
  assumes "traces ok K m R" and "\<And>x K'. K \<subseteq> K' \<Longrightarrow> R x K' \<Longrightarrow> traces ok K' (f x) Q"
  shows "traces ok K (bindS m f) Q"
  unfolding bindS_def by (rule traces_try[OF assms(1)]) (auto intro: assms(2) traces_throw)

lemma traces_catch:
  assumes "traces ok K m Q" and "\<And>e K'. K \<subseteq> K' \<Longrightarrow> traces ok K' (h e) Q"
  shows "traces ok K (catchS m h) Q"
  unfolding catchS_def by (rule traces_try[OF assms(1)]) (auto intro: assms(2) traces_ret)

lemma traces_if: "(b \<Longrightarrow> traces ok K m Q) \<Longrightarrow> (\<not> b \<Longrightarrow> traces ok K n Q) \<Longrightarrow> traces ok K (if b then m else n) Q"
  by simp

lemma traces_option: "(x = None \<Longrightarrow> traces ok K m Q) \<Longrightarrow> (\<And>y. x = Some y \<Longrightarrow> traces ok K (f y) Q)
    \<Longrightarrow> traces ok K (case x of None \<Rightarrow> m | Some y \<Rightarrow> f y) Q"
  by (cases x) simp_all

lemma traces_logged:
  assumes "\<And>r. case ev r of Tr_admit q x \<Rightarrow> ok q K | _ \<Rightarrow> True"
  shows "traces ok K (logged ev m) (\<lambda>x K'. ev (Inr x) \<in> K')"
  unfolding traces_def
proof (intro allI impI)
  fix w t r w' t'
  assume t: "set t = K" and run: "logged ev m (w, t) = (r, w', t')"
  have "t' = t @ [ev r]" using run by (simp add: logged_def split: prod.splits)
  moreover have "ok q (K \<union> set u1)" if "[ev r] = u1 @ Tr_admit q x # u2" for u1 q x u2
    using that assms[of r] by (auto simp: Cons_eq_append_conv)
  ultimately show "\<exists>u. t' = t @ u \<and> (\<forall>u1 q x u2. u = u1 @ Tr_admit q x # u2 \<longrightarrow> ok q (K \<union> set u1))
      \<and> (\<forall>x. r = Inr x \<longrightarrow> ev (Inr x) \<in> K \<union> set u)" by (intro exI[of _ "[ev r]"]) auto
qed

section \<open>The ports and shared helpers\<close>

lemma traces_ports:
  "traces ok K (cs_read (traceStore store) k) (\<lambda>x K'. Tr_read k (Inr x) \<in> K')"
  "traces ok K (cs_compareAndSet (traceStore store) i) (\<lambda>x K'. Tr_write i (Inr x) \<in> K')"
  "traces ok K (cs_resolve (traceStore store) k u) (\<lambda>x K'. Tr_resolve k u (Inr x) \<in> K')"
  "traces ok K (rt_identity (traceRuntime rt)) (\<lambda>x K'. Tr_identity (Inr x) \<in> K')"
  "traces ok K (rt_canShare (traceRuntime rt) who room) (\<lambda>x K'. Tr_canShare who room (Inr x) \<in> K')"
  "traces ok K (rt_inspectMembership (traceRuntime rt) room who history) (\<lambda>x K'. Tr_inspect room who (Inr x) \<in> K')"
  "traces ok K (rt_lookup (traceRuntime rt) q) (\<lambda>x K'. Tr_lookup q (Inr x) \<in> K')"
  "traces ok K (rt_clock (traceRuntime rt)) (\<lambda>x K'. Tr_clock (Inr x) \<in> K')"
  "traces ok K (rt_diagnostic (traceRuntime rt) stage) (\<lambda>x K'. True)"
  "ok q K \<Longrightarrow> traces ok K (rt_admit (traceRuntime rt) q) (\<lambda>x K'. Tr_admit q (Inr x) \<in> K')"
  unfolding traceStore_def traceRuntime_def controlStore.simps admissionRuntime.simps
  by (rule traces_logged traces_conseq[OF traces_logged]; simp)+

lemma traces_safeRead:
  "traces ok K (safeRead (traceStore store) k) (\<lambda>x K'. x \<noteq> Read_unavailable \<longrightarrow> Tr_read k (Inr x) \<in> K')"
  unfolding safeRead_def by (rule traces_catch) (auto intro: traces_conseq[OF traces_ports(1)] traces_ret)

text \<open>How the store may confirm a write: it was applied, or an ambiguous outcome was resolved to it.\<close>

definition confirmed :: "compareAndSetInput \<Rightarrow> controlRecord \<Rightarrow> traceEvent set \<Rightarrow> bool" where
  "confirmed i r K \<longleftrightarrow> Tr_write i (Inr (W_applied r)) \<in> K \<or> Tr_resolve (ci_key i) (ci_operationId i) (Inr (Res_applied r)) \<in> K"

lemma confirmed_mono: "confirmed i r K \<Longrightarrow> K \<subseteq> K' \<Longrightarrow> confirmed i r K'"
  by (auto simp: confirmed_def)

definition writeEvidence :: "compareAndSetInput \<Rightarrow> writeResult \<Rightarrow> traceEvent set \<Rightarrow> bool" where
  "writeEvidence i result K = (case result of
     W_applied r \<Rightarrow> confirmed i r K
   | W_conflict c \<Rightarrow> Tr_write i (Inr (W_conflict c)) \<in> K
   | _ \<Rightarrow> True)"

lemma traces_writeAndResolve:
  "traces ok K (writeAndResolve (traceStore store) i) (\<lambda>x K'. writeEvidence i x K')"
  unfolding writeAndResolve_def
proof (rule traces_try[OF traces_ports(2)])
  fix x K'
  assume x: "Tr_write i (Inr x) \<in> K'"
  show "traces ok K' (case x of W_outcome_unknown u \<Rightarrow>
        tryS (cs_resolve (traceStore store) (ci_key i) (ci_operationId i))
          (\<lambda>resolved. case resolved of Res_applied r \<Rightarrow> retS (W_applied r)
             | Res_not_applied \<Rightarrow> catchS (cs_compareAndSet (traceStore store) i) (\<lambda>error. retS x) | _ \<Rightarrow> retS x)
          (\<lambda>error. retS x)
      | _ \<Rightarrow> retS x) (writeEvidence i)"
  proof (cases x)
    case (W_outcome_unknown u)
    have again: "traces ok K'' (catchS (cs_compareAndSet (traceStore store) i) (\<lambda>error. retS x)) (writeEvidence i)" for K''
      by (rule traces_catch, rule traces_conseq[OF traces_ports(2)])
        (auto simp: writeEvidence_def confirmed_def W_outcome_unknown intro: traces_ret split: writeResult.splits)
    show ?thesis unfolding W_outcome_unknown writeResult.case
      by (rule traces_try[OF traces_ports(3)])
        (auto simp: writeEvidence_def confirmed_def intro: traces_ret again[unfolded W_outcome_unknown] split: resolveResult.split)
  qed (use x in \<open>auto simp: writeEvidence_def confirmed_def intro!: traces_ret\<close>)
qed (auto simp: writeEvidence_def intro: traces_ret)

lemma traces_currentPrincipal:
  "traces ok K (currentPrincipal (rt_identity (traceRuntime rt)))
     (\<lambda>x K'. \<forall>who. x = Is_signed_in who \<longrightarrow> Tr_identity (Inr (Signed_in who)) \<in> K')"
  unfolding currentPrincipal_def
  by (rule traces_try[OF traces_ports(4)]) (auto intro!: traces_ret split: identityState.splits)

definition removalRead :: "'w admissionRuntime \<Rightarrow> ustring \<Rightarrow> jsval option \<Rightarrow> traceEvent set \<Rightarrow> bool" where
  "removalRead rt roomId rs K \<longleftrightarrow> (case rs of
     None \<Rightarrow> Tr_read (js ''channel.removals.v1.'' @ rt_sha256 rt roomId) (Inr Read_absent) \<in> K
   | Some v \<Rightarrow> \<exists>r. Tr_read (js ''channel.removals.v1.'' @ rt_sha256 rt roomId) (Inr (Read_record r)) \<in> K \<and> cr_value r = v \<and> validRemovals v)"

lemma removalRead_mono: "removalRead rt roomId rs K \<Longrightarrow> K \<subseteq> K' \<Longrightarrow> removalRead rt roomId rs K'"
  by (auto simp: removalRead_def split: option.splits)

lemma traces_readRoomRemovals:
  "traces ok K (readRoomRemovals (traceStore (rt_store rt)) (rt_sha256 rt) roomId)
     (\<lambda>x K'. \<forall>rs. x = Inr rs \<longrightarrow> removalRead rt roomId rs K')"
  unfolding readRoomRemovals_def
  by (rule traces_try[OF traces_ports(1)]) (auto intro!: traces_ret simp: removalRead_def split: controlRead.splits if_splits)

text \<open>The store's removals, as last read, let the owner use the invitation.\<close>

definition removalsAllow :: "'w admissionRuntime \<Rightarrow> inviteRecord \<Rightarrow> ustring \<Rightarrow> traceEvent set \<Rightarrow> bool" where
  "removalsAllow rt invite ownerId K \<longleftrightarrow>
     (\<exists>rs. removalRead rt (inv_roomId invite) rs K \<and> removalDecision rs invite (Some ownerId) = Removal_allowed)"

lemma traces_removalOf:
  "traces ok K (removalOf (traceRuntime rt) invite ownerId) (\<lambda>x K'. x = Removal_allowed \<longrightarrow> removalsAllow rt invite ownerId K')"
  unfolding removalOf_def inviteRemovalState_def traceRuntime_simps
  by (rule traces_bind[OF traces_readRoomRemovals]) (auto intro!: traces_ret simp: removalsAllow_def split: sum.splits)

definition unexpired :: "'w admissionRuntime \<Rightarrow> inviteRecord \<Rightarrow> traceEvent set \<Rightarrow> bool" where
  "unexpired rt invite K \<longleftrightarrow> (case inv_expiresAt invite of None \<Rightarrow> True
     | Some e \<Rightarrow> \<exists>now. Tr_clock (Inr now) \<in> K \<and> (case rt_dateParse rt e of None \<Rightarrow> True | Some t \<Rightarrow> now < t))"

lemma traces_inviteExpired:
  "traces ok K (inviteExpired (traceRuntime rt) invite) (\<lambda>x K'. \<not> x \<longrightarrow> unexpired rt invite K')"
proof (cases "inv_expiresAt invite")
  case None
  then show ?thesis by (auto simp: inviteExpired_def unexpired_def intro: traces_ret)
next
  case (Some e)
  show ?thesis unfolding inviteExpired_def Some option.case
    by (rule traces_bind[OF traces_ports(8)]) (auto simp: unexpired_def Some intro!: traces_ret split: option.splits)
qed

lemma evidence_mono:
  "removalsAllow rt invite u K \<Longrightarrow> K \<subseteq> K' \<Longrightarrow> removalsAllow rt invite u K'"
  "unexpired rt invite K \<Longrightarrow> K \<subseteq> K' \<Longrightarrow> unexpired rt invite K'"
  by (auto simp: removalsAllow_def unexpired_def dest: removalRead_mono split: option.splits)

section \<open>The log changes nothing\<close>

named_theorems erases_intros
  \<open>the traced version of a computation computes the same\<close>

definition erases :: "('w, 'a) act \<Rightarrow> ('w traced, 'a) act \<Rightarrow> bool" where
  "erases m m' \<longleftrightarrow> (\<forall>w t. \<exists>u. m' (w, t) = (fst (m w), (snd (m w), t @ u)))"

lemma erases_ret [erases_intros]: "erases (retS x) (retS x)"
  by (simp add: erases_def)

lemma erases_throw [erases_intros]: "erases (throwS e) (throwS e)"
  by (simp add: erases_def)

lemma erases_pair [erases_intros]: "erases (Pair r) (Pair r)"
  by (simp add: erases_def)

lemma erases_logged [erases_intros]: "erases m (logged ev m)"
  by (auto simp: erases_def logged_def split: prod.splits)

lemma erases_try [erases_intros]:
  assumes "erases m m'" "\<And>x. erases (k x) (k' x)" "\<And>e. erases (h e) (h' e)"
  shows "erases (tryS m k h) (tryS m' k' h')"
  unfolding erases_def
proof (intro allI)
  fix w t
  obtain r w1 where r: "m w = (r, w1)" by (cases "m w")
  obtain u where u: "m' (w, t) = (r, (w1, t @ u))" using assms(1) r unfolding erases_def by (metis fst_conv snd_conv)
  show "\<exists>u. tryS m' k' h' (w, t) = (fst (tryS m k h w), snd (tryS m k h w), t @ u)"
  proof (cases r)
    case (Inl e)
    obtain v where "h' e (w1, t @ u) = (fst (h e w1), snd (h e w1), (t @ u) @ v)" using assms(3) unfolding erases_def by blast
    then show ?thesis using u r Inl by (intro exI[of _ "u @ v"]) (simp add: tryS_def)
  next
    case (Inr x)
    obtain v where "k' x (w1, t @ u) = (fst (k x w1), snd (k x w1), (t @ u) @ v)" using assms(2) unfolding erases_def by blast
    then show ?thesis using u r Inr by (intro exI[of _ "u @ v"]) (simp add: tryS_def)
  qed
qed

lemma erases_bind [erases_intros]: "erases m m' \<Longrightarrow> (\<And>x. erases (f x) (f' x)) \<Longrightarrow> erases (bindS m f) (bindS m' f')"
  unfolding bindS_def by (intro erases_intros)

lemma erases_catch [erases_intros]: "erases m m' \<Longrightarrow> (\<And>e. erases (h e) (h' e)) \<Longrightarrow> erases (catchS m h) (catchS m' h')"
  unfolding catchS_def by (intro erases_intros)

lemma erases_ports [erases_intros]:
  "erases (cs_read store k) (cs_read (traceStore store) k)"
  "erases (cs_compareAndSet store i) (cs_compareAndSet (traceStore store) i)"
  "erases (cs_resolve store k u) (cs_resolve (traceStore store) k u)"
  "erases (rt_identity rt) (rt_identity (traceRuntime rt))"
  "erases (rt_canShare rt who room) (rt_canShare (traceRuntime rt) who room)"
  "erases (rt_inspectMembership rt room who history) (rt_inspectMembership (traceRuntime rt) room who history)"
  "erases (rt_lookup rt q) (rt_lookup (traceRuntime rt) q)"
  "erases (rt_clock rt) (rt_clock (traceRuntime rt))"
  "erases (rt_diagnostic rt stage) (rt_diagnostic (traceRuntime rt) stage)"
  "erases (rt_admit rt q) (rt_admit (traceRuntime rt) q)"
  by (simp_all add: traceStore_def traceRuntime_def erases_logged)

lemma erases_if [erases_intros]: "(b \<Longrightarrow> erases m m') \<Longrightarrow> (\<not> b \<Longrightarrow> erases n n') \<Longrightarrow> erases (if b then m else n) (if b then m' else n')"
  by simp

lemma erases_store [erases_intros]:
  "erases (safeRead store k) (safeRead (traceStore store) k)"
  "erases (writeAndResolve store i) (writeAndResolve (traceStore store) i)"
  "erases (readRoomRemovals store hash room) (readRoomRemovals (traceStore store) hash room)"
  unfolding safeRead_def writeAndResolve_def readRoomRemovals_def
  by (auto intro!: erases_intros split: writeResult.split resolveResult.split)

lemma erases_helpers [erases_intros]:
  "erases (currentPrincipal (rt_identity rt)) (currentPrincipal (rt_identity (traceRuntime rt)))"
  "erases (inviteExpired rt invite) (inviteExpired (traceRuntime rt) invite)"
  "erases (removalOf rt invite ownerId) (removalOf (traceRuntime rt) invite ownerId)"
  "erases (fieldOf v k) (fieldOf v k)" "erases (orThrow e x) (orThrow e x)"
  "erases (withDiagnostic rt stage result) (withDiagnostic (traceRuntime rt) stage result)"
  unfolding currentPrincipal_def inviteExpired_def removalOf_def inviteRemovalState_def fieldOf_def orThrow_def withDiagnostic_def diagnostic_def
    traceRuntime_simps
  by (auto intro!: erases_intros split: option.split)

lemma erases_share [erases_intros]:
  "erases (grant rt ref e) (grant (traceRuntime rt) ref e)"
  "erases (shareExisting rt invite owner room policy ref) (shareExisting (traceRuntime rt) invite owner room policy ref)"
  "erases (shareNew rt input owner policy ref e rs) (shareNew (traceRuntime rt) input owner policy ref e rs)"
proof -
  show g: "erases (grant rt ref e) (grant (traceRuntime rt) ref e)" for ref e
    unfolding grant_def traceRuntime_simps by (intro erases_intros)
  show x: "erases (shareExisting rt invite owner room policy ref) (shareExisting (traceRuntime rt) invite owner room policy ref)" for invite owner room policy ref
    unfolding shareExisting_def sameShare_def traceRuntime_simps by (intro erases_intros g)
  show "erases (shareNew rt input owner policy ref e rs) (shareNew (traceRuntime rt) input owner policy ref e rs)"
    unfolding shareNew_def sameShare_def traceRuntime_simps
    by (intro erases_bind erases_store) (auto intro!: erases_intros g x split: writeResult.split option.split)
qed

lemma erases_shareInvite [erases_intros]: "erases (shareInvite rt input owner) (shareInvite (traceRuntime rt) input owner)"
proof -
  have "erases (shareStored rt input owner policy) (shareStored (traceRuntime rt) input owner policy)" for owner policy
    unfolding shareStored_def traceRuntime_simps Let_def
    by (intro erases_bind erases_store) (auto intro!: erases_intros split: controlRead.split option.split sum.split)
  then show ?thesis unfolding shareInvite_def traceRuntime_simps
    by (intro erases_bind erases_helpers) (auto intro!: erases_intros split: principalState.split option.split shareAuthority.split)
qed

lemma erases_revokeInvite: "erases (revokeInvite rt operation ref) (revokeInvite (traceRuntime rt) operation ref)"
proof -
  have "erases (revokeInviteFrom rt operation ref who n) (revokeInviteFrom (traceRuntime rt) operation ref who n)" for who n
    by (induction n) (auto intro!: erases_intros split: controlRead.split option.split writeResult.split)
  then show ?thesis unfolding revokeInvite_def
    by (intro erases_bind erases_helpers) (auto intro!: erases_intros split: principalState.split)
qed

lemma erases_inspectInvite: "erases (inspectInvite rt ref) (inspectInvite (traceRuntime rt) ref)"
  unfolding inspectInvite_def inspectStored_def inspectAllowed_def traceRuntime_simps
  by (intro erases_bind erases_helpers)
    (auto intro!: erases_intros split: principalState.split controlRead.split option.split removalState.split)

lemma erases_personal [erases_intros]:
  "erases (linkUnusable rt invite gen) (linkUnusable (traceRuntime rt) invite gen)"
  "erases (writePointer rt i) (writePointer (traceRuntime rt) i)"
  unfolding linkUnusable_def writePointer_def traceRuntime_simps by (intro erases_intros)+

lemma erases_personalLink: "erases (personalLink rt room) (personalLink (traceRuntime rt) room)"
proof -
  have s: "erases (personalShare rt owner room gen op) (personalShare (traceRuntime rt) owner room gen op)" for owner room gen op
    unfolding personalShare_def traceRuntime_simps
    by (intro erases_bind erases_shareInvite) (auto intro!: erases_intros split: operationResult.split controlRead.split option.split)
  have p: "pointerWrite (traceRuntime rt) k e n = pointerWrite rt k e n" for k e n
    by (simp add: pointerWrite_def pointerOperation_def)
  have a: "erases (personalAttempt rt owner room gen key) (personalAttempt (traceRuntime rt) owner room gen key)" for owner gen key
    unfolding personalAttempt_def traceRuntime_simps Let_def p
    by (intro erases_bind erases_store) (auto intro!: erases_intros s split: controlRead.split option.split)
  have "erases (personalLinkFrom rt owner room gen key n) (personalLinkFrom (traceRuntime rt) owner room gen key n)" for owner gen key n
    by (induction n) (auto intro!: erases_intros a split: sum.split)
  then show ?thesis unfolding personalLink_def traceRuntime_simps
    by (intro erases_bind erases_helpers) (auto intro!: erases_intros split: principalState.split sum.split)
qed

lemma erases_journal [erases_intros]:
  "erases (journalReadEntry store d op) (journalReadEntry (traceStore store) d op)"
  "erases (journalClaim store d op b) (journalClaim (traceStore store) d op b)"
  "erases (journalSetState store d op entry st room) (journalSetState (traceStore store) d op entry st room)"
  unfolding journalReadEntry_def journalClaim_def journalSetState_def Let_def by (intro erases_intros)+

lemma erases_perform [erases_intros]:
  "erases (complete rt op entry room) (complete (traceRuntime rt) op entry room)"
  "erases (performAdmission rt q entry) (performAdmission (traceRuntime rt) q entry)"
proof -
  show c: "erases (complete rt op entry room) (complete (traceRuntime rt) op entry room)" for op entry room
    unfolding complete_def traceRuntime_simps by (intro erases_intros)
  have "erases (reconcileAmbiguous rt q entry) (reconcileAmbiguous (traceRuntime rt) q entry)" for q entry
    unfolding reconcileAmbiguous_def callLookup_def traceRuntime_simps
    by (intro erases_bind) (auto intro!: erases_intros c split: gatewayLookup.split)
  then show "erases (performAdmission rt q entry) (performAdmission (traceRuntime rt) q entry)"
    unfolding performAdmission_def callAdmit_def
    by (intro erases_bind) (auto intro!: erases_intros c split: gatewayAdmission.split option.split)
qed

lemma erases_eligible [erases_intros]: "erases (readEligibleInvite rt input who) (readEligibleInvite (traceRuntime rt) input who)"
  unfolding readEligibleInvite_def checkInvite_def traceRuntime_simps
  by (intro erases_bind erases_store) (auto intro!: erases_intros split: controlRead.split option.split removalState.split)

lemma erases_resume [erases_intros]: "erases (resumeAdmission rt input entry who b) (resumeAdmission (traceRuntime rt) input entry who b)"
proof -
  have "erases (reconcileThenAdmit rt input who q entry) (reconcileThenAdmit (traceRuntime rt) input who q entry)" for q
    unfolding reconcileThenAdmit_def callLookup_def
    by (intro erases_bind) (auto intro!: erases_intros split: gatewayLookup.split sum.split)
  then show ?thesis unfolding resumeAdmission_def traceRuntime_simps
    by (intro erases_bind erases_store) (auto intro!: erases_intros split: controlRead.split option.split removalState.split)
qed

lemma erases_admitInvite: "erases (admitInvite rt input) (admitInvite (traceRuntime rt) input)"
proof -
  have a: "erases (authorizeInviteFrom rt input who n) (authorizeInviteFrom (traceRuntime rt) input who n)" for who n
    by (induction n) (auto intro!: erases_intros split: sum.split writeResult.split)
  have e: "erases (admitExisting rt input entry who) (admitExisting (traceRuntime rt) input entry who)" for entry who
    unfolding admitExisting_def sameRequest_def traceRuntime_simps
    by (auto intro!: erases_intros split: controlRead.split option.split removalState.split)
  have n: "erases (admitAuthorized rt input who invite revision) (admitAuthorized (traceRuntime rt) input who invite revision)" for who invite revision
    unfolding admitAuthorized_def traceRuntime_simps
    by (intro erases_bind erases_helpers erases_journal) (auto intro!: erases_intros split: journalWrite.split)
  show ?thesis unfolding admitInvite_def authorizeInvite_def traceRuntime_simps
    by (intro erases_bind erases_helpers)
      (auto intro!: erases_intros a e n split: principalState.split journalRead.split sum.split)
qed

end
