(* ===== verification/AdmissionProperties.thy ===== *)
theory AdmissionProperties
  imports AdmissionTrace
begin

text \<open>
  What the audit trail of the invitation service shows: the gateway is asked to admit only on evidence read in the same call,
  success is reported only after the journal has it, inspection and sharing answer from what they read, and digests of different
  purposes or different values never share an HMAC input.
\<close>

section \<open>Evidence\<close>

definition inviteSeen :: "'w admissionRuntime \<Rightarrow> ustring \<Rightarrow> inviteRecord \<Rightarrow> traceEvent set \<Rightarrow> bool" where
  "inviteSeen rt inviteRef invite K \<longleftrightarrow> (\<exists>r. Tr_read (dg_inviteKey (rt_digests rt) inviteRef) (Inr (Read_record r)) \<in> K
     \<and> readInviteRecord (rt_dateParse rt) (cr_value r) = Some invite)"

definition eligibleEvidence :: "'w admissionRuntime \<Rightarrow> ustring \<Rightarrow> authPrincipal \<Rightarrow> traceEvent set \<Rightarrow> bool" where
  "eligibleEvidence rt inviteRef who K \<longleftrightarrow> (\<exists>invite. inviteSeen rt inviteRef invite K
     \<and> inv_inviteRefDigest invite = dg_inviteRef (rt_digests rt) inviteRef \<and> inv_status invite = Invite_active
     \<and> policyAllows (rt_toLowerCase rt) (dg_email (rt_digests rt)) (inv_policy invite) who
     \<and> unexpired rt invite K \<and> removalsAllow rt invite (ap_ownerId who) K)"

definition notRemoved :: "'w admissionRuntime \<Rightarrow> ustring \<Rightarrow> ustring \<Rightarrow> inviteRecord \<Rightarrow> traceEvent set \<Rightarrow> bool" where
  "notRemoved rt inviteRef ownerId invite K \<longleftrightarrow> inviteSeen rt inviteRef invite K \<and> removalsAllow rt invite ownerId K"

definition mayAdmit :: "'w admissionRuntime \<Rightarrow> admitInput \<Rightarrow> gatewayRequest \<Rightarrow> traceEvent set \<Rightarrow> bool" where
  "mayAdmit rt input q K \<longleftrightarrow> Tr_identity (Inr (Signed_in (gq_principal q))) \<in> K \<and> gq_operationId q = ai_operationId input
     \<and> eligibleEvidence rt (ai_inviteRef input) (gq_principal q) K
     \<and> (\<exists>invite. notRemoved rt (ai_inviteRef input) (ap_ownerId (gq_principal q)) invite K
          \<and> gq_inviteCreatorOwnerId q = inv_creatorOwnerId invite
          \<and> gq_removalGeneration q = (case inv_removalGeneration invite of None \<Rightarrow> 0 | Some n \<Rightarrow> n))"

text \<open>The store confirmed a journal record in state \<open>joined\<close> with this room, or showed that it already held it.\<close>

definition journalConfirms :: "'w admissionRuntime \<Rightarrow> ustring \<Rightarrow> channelSummary \<Rightarrow> traceEvent set \<Rightarrow> bool" where
  "journalConfirms rt operationId room K \<longleftrightarrow> (\<exists>i. ci_key i = journalKey (rt_digests rt) operationId
     \<and> getProp (ci_value i) (js ''state'') = JStr (js ''joined'') \<and> getProp (ci_value i) (js ''room'') = summaryObject room
     \<and> ((\<exists>r. confirmed i r K)
        \<or> (\<exists>c b. Tr_write i (Inr (W_conflict (Some c))) \<in> K \<and> readJournalRecord (cr_value c) = Some (b, Journal_joined, Some room))))"

definition admittedRoom :: "'w admissionRuntime \<Rightarrow> admitInput \<Rightarrow> admissionResult \<Rightarrow> traceEvent set \<Rightarrow> bool" where
  "admittedRoom rt input a K \<longleftrightarrow> ar_outcome a = Outcome_joined \<and> (\<exists>room q. ar_room a = summaryObject room \<and> ch_membership room = Member_joined
     \<and> (Tr_admit q (Inr (Gw_joined room)) \<in> K \<or> Tr_lookup q (Inr (Look_joined room)) \<in> K)
     \<and> journalConfirms rt (ai_operationId input) room K)"

definition admissionReported :: "'w admissionRuntime \<Rightarrow> admitInput \<Rightarrow> admissionResult \<Rightarrow> traceEvent set \<Rightarrow> bool" where
  "admissionReported rt input a K \<longleftrightarrow> (\<exists>who invite. Tr_identity (Inr (Signed_in who)) \<in> K
       \<and> notRemoved rt (ai_inviteRef input) (ap_ownerId who) invite K)
     \<and> (ar_outcome a = Outcome_already_joined \<or> admittedRoom rt input a K)"

lemma evidence_monos:
  "inviteSeen rt ref invite K \<Longrightarrow> K \<subseteq> K' \<Longrightarrow> inviteSeen rt ref invite K'"
  "notRemoved rt ref owner invite K \<Longrightarrow> K \<subseteq> K' \<Longrightarrow> notRemoved rt ref owner invite K'"
  "eligibleEvidence rt ref who K \<Longrightarrow> K \<subseteq> K' \<Longrightarrow> eligibleEvidence rt ref who K'"
  by (auto simp: inviteSeen_def notRemoved_def eligibleEvidence_def dest: evidence_mono)

section \<open>The steps of an admission\<close>

lemma inviteStatus_cases: "st \<noteq> Invite_revoked \<longleftrightarrow> st = Invite_active"
  by (cases st) simp_all

definition eligibleResult :: "'w admissionRuntime \<Rightarrow> admitInput \<Rightarrow> authPrincipal \<Rightarrow> admissionResult outcome + 'x \<Rightarrow> traceEvent set \<Rightarrow> bool" where
  "eligibleResult rt input who x K = (case x of
     Inl f \<Rightarrow> (\<nexists>a. f = Op_ok a) | Inr _ \<Rightarrow> eligibleEvidence rt (ai_inviteRef input) who K)"

lemma eligibleResult_Inl: "(\<And>a. f \<noteq> Op_ok a) \<Longrightarrow> eligibleResult rt input who (Inl f) K"
  by (simp add: eligibleResult_def)

lemma traces_checkInvite:
  assumes "inviteSeen rt (ai_inviteRef input) invite K"
    and "inv_inviteRefDigest invite = dg_inviteRef (rt_digests rt) (ai_inviteRef input)"
  shows "traces ok K (checkInvite (traceRuntime rt) who invite revision) (eligibleResult rt input who)"
  unfolding checkInvite_def traceRuntime_simps
proof (rule traces_bind[OF traces_inviteExpired], rule traces_if)
  fix expired K1
  assume k: "K \<subseteq> K1" and u: "\<not> expired \<longrightarrow> unexpired rt invite K1" and e: "\<not> expired"
  have r: "eligibleResult rt input who (Inr (invite, revision)) K2" if "K1 \<subseteq> K2" "removalsAllow rt invite (ap_ownerId who) K2"
      "inv_status invite \<noteq> Invite_revoked" "policyAllows (rt_toLowerCase rt) (dg_email (rt_digests rt)) (inv_policy invite) who" for K2
    using that u e k assms evidence_mono(2)[of rt invite K1 K2] evidence_monos(1)[of rt "ai_inviteRef input" invite K K2]
    by (auto simp: eligibleResult_def eligibleEvidence_def inviteStatus_cases)
  show "traces ok K1 (bindS (removalOf (traceRuntime rt) invite (ap_ownerId who)) (\<lambda>removal. case removal of
          Removal_unavailable \<Rightarrow> retS (Inl Op_unavailable)
        | Removal_revoked \<Rightarrow> retS (Inl (Op_rejected Reject_revoked))
        | Removal_allowed \<Rightarrow> if inv_status invite = Invite_revoked then retS (Inl (Op_rejected Reject_revoked))
            else if \<not> policyAllows (rt_toLowerCase rt) (dg_email (rt_digests rt)) (inv_policy invite) who
            then retS (Inl (Op_rejected Reject_identity_mismatch)) else retS (Inr (invite, revision))))
    (eligibleResult rt input who)"
    apply (rule traces_bind[OF traces_removalOf])
    subgoal for removal K2 using r[of K2]
      by (cases removal) (auto intro!: traces_ret eligibleResult_Inl)
    done
qed (auto intro!: traces_ret eligibleResult_Inl)

lemma traces_readEligible:
  "traces ok K (readEligibleInvite (traceRuntime rt) input who) (eligibleResult rt input who)"
  unfolding readEligibleInvite_def traceRuntime_simps
  apply (rule traces_bind[OF traces_safeRead])
  subgoal for x K1
    by (cases x) (auto intro!: traces_ret traces_option traces_if eligibleResult_Inl traces_checkInvite simp: inviteSeen_def)
  done

lemma eligibleResult_mono: "eligibleResult rt input who (Inr x) K \<Longrightarrow> K \<subseteq> K' \<Longrightarrow> eligibleResult rt input who (Inr y) K'"
  by (auto simp: eligibleResult_def dest: evidence_monos(3))

lemma traces_authorize:
  "traces ok K (authorizeInviteFrom (traceRuntime rt) input who n) (eligibleResult rt input who)"
proof (induction n arbitrary: K)
  case 0
  show ?case unfolding authorizeInviteFrom.simps by (rule traces_ret) (simp add: eligibleResult_def)
next
  case (Suc n)
  show ?case unfolding authorizeInviteFrom.simps
    apply (rule traces_bind[OF traces_readEligible])
    subgoal for x K1
      using Suc.IH eligibleResult_mono[of rt input who _ K1]
      by (cases x) (auto intro!: traces_ret eligibleResult_Inl traces_bind[OF traces_writeAndResolve]
        simp: eligibleResult_def split: writeResult.split)
    done
qed

lemma getProp_withProp_any: "getProp (withProp v k x) l = (if l = k then x else getProp (JObj True (objectProps v)) l)"
  by (simp add: withProp_def map_of_insertProp)

lemma getProp_JObj_objectProps: "getProp (JObj True (objectProps (withProp v k x))) l = getProp (withProp v k x) l"
  by (simp add: withProp_def objectProps_def)

lemma membership_text_inj: "litStr channelMemberships a = litStr channelMemberships b \<longleftrightarrow> a = b"
  by (cases a; cases b) (simp_all add: litStr_def channelMemberships_def)

lemma sameRoom_summary: "sameRoom (jnullable summaryObject r) (Some room) \<longleftrightarrow> r = Some room"
proof (cases r)
  case (Some s)
  have "jnullable JStr x = jnullable JStr y \<longleftrightarrow> x = y" for x y by (cases x; cases y) simp_all
  then show ?thesis using Some by (cases s; cases room) (auto simp: sameRoom_def summaryObject_def membership_text_inj)
qed (simp add: sameRoom_def)

lemma traces_complete:
  assumes "getProp (je_record entry) (js ''state'') \<noteq> JStr (js ''joined'')"
  shows "traces ok K (complete (traceRuntime rt) operationId entry room)
    (\<lambda>x K'. \<forall>a. x = Op_ok a \<longrightarrow> ar_outcome a = Outcome_joined \<and> ar_room a = summaryObject room \<and> ch_membership room = Member_joined
      \<and> journalConfirms rt operationId room K')"
proof (cases "ch_membership room = Member_joined")
  case False
  then show ?thesis by (simp add: complete_def traces_ret)
next
  case True
  define i where "i = \<lparr>ci_key = journalKey (rt_digests rt) operationId, ci_expectedRevision = Some (je_revision entry),
      ci_operationId = js ''invitation.admission.'' @ stateText Journal_joined @ js ''.'' @ dg_operation (rt_digests rt) operationId,
      ci_value = withProp (withProp (je_record entry) (js ''state'') (JStr (stateText Journal_joined))) (js ''room'') (jnullable summaryObject (Some room)),
      ci_expiresAt = None\<rparr>"
  have i: "ci_key i = journalKey (rt_digests rt) operationId" "getProp (ci_value i) (js ''state'') = JStr (js ''joined'')"
    "getProp (ci_value i) (js ''room'') = summaryObject room"
    by (simp_all add: i_def getProp_withProp_any getProp_JObj_objectProps stateText_def del: getProp.simps)
  have c: "readJournalRecord (cr_value c) = Some (fst (the (readJournalRecord (cr_value c))), Journal_joined, Some room)"
    if "settled entry Journal_joined (Some room) c" for c
    using that by (auto simp: settled_def sameRoom_summary split: option.splits)
  have e: "journalConfirms rt operationId room K'" if "writeEvidence i w K'"
      "(\<exists>r. w = W_applied r) \<or> (\<exists>c. w = W_conflict (Some c) \<and> settled entry Journal_joined (Some room) c)" for w K'
    unfolding journalConfirms_def using that i by (intro exI[of _ i] conjI) (auto simp: writeEvidence_def dest: c)
  show ?thesis unfolding complete_def traceRuntime_simps
    apply (simp only: True simp_thms if_False)
    apply (rule traces_bind[where R = "\<lambda>x K'. (\<exists>en. x = Jw_entry en) \<longrightarrow> journalConfirms rt operationId room K'"])
     apply (simp only: journalSetState_def Let_def assms stateText_def journalState.case simp_thms if_False)
     apply (rule traces_bind[OF traces_writeAndResolve])
     apply (rule traces_ret)
    subgoal for x K' using e[of x K'] unfolding i_def stateText_def journalState.case by (auto split: writeResult.splits option.splits if_splits)
    by (auto intro!: traces_ret simp: True split: journalWrite.splits)
qed

text \<open>The result of an admission step: failures carry no claim, success is an admitted room.\<close>

definition roomResult :: "'w admissionRuntime \<Rightarrow> admitInput \<Rightarrow> admissionResult outcome \<Rightarrow> traceEvent set \<Rightarrow> bool" where
  "roomResult rt input x K \<longleftrightarrow> (\<forall>a. x = Op_ok a \<longrightarrow> admittedRoom rt input a K)"

lemma roomResult_fail: "(\<And>a. x \<noteq> Op_ok a) \<Longrightarrow> roomResult rt input x K"
  by (simp add: roomResult_def)

lemma traces_completeJoined:
  assumes "getProp (je_record entry) (js ''state'') \<noteq> JStr (js ''joined'')" and "operationId = ai_operationId input"
    and "Tr_admit q (Inr (Gw_joined room)) \<in> K \<or> Tr_lookup q (Inr (Look_joined room)) \<in> K"
  shows "traces ok K (complete (traceRuntime rt) operationId entry room) (roomResult rt input)"
  by (rule traces_conseq[OF traces_complete[OF assms(1)]]) (use assms(2,3) in \<open>auto simp: roomResult_def admittedRoom_def\<close>)

lemma traces_setState: "traces ok K (journalSetState (traceStore store) d op entry st room) (\<lambda>_ _. True)"
  unfolding journalSetState_def Let_def
  by (auto intro!: traces_if traces_throw traces_ret traces_bind[OF traces_writeAndResolve])

lemma traces_callLookup:
  "traces ok K (callLookup (traceRuntime rt) q) (\<lambda>x K'. x \<noteq> Look_unavailable \<longrightarrow> Tr_lookup q (Inr x) \<in> K')"
  unfolding callLookup_def by (rule traces_catch) (auto intro: traces_conseq[OF traces_ports(7)] traces_ret)

lemma traces_reconcileAmbiguous:
  assumes "getProp (je_record entry) (js ''state'') \<noteq> JStr (js ''joined'')" and "gq_operationId q = ai_operationId input"
  shows "traces ok K (reconcileAmbiguous (traceRuntime rt) q entry) (roomResult rt input)"
  unfolding reconcileAmbiguous_def traceRuntime_simps
  apply (rule traces_bind[OF traces_callLookup])
  subgoal for x K1
    using traces_completeJoined[OF assms, of q _ K1]
    by (cases x) (auto intro!: traces_bind[OF traces_setState] traces_ret roomResult_fail)
  done

lemma traces_performAdmission:
  assumes st: "getProp (je_record entry) (js ''state'') \<noteq> JStr (js ''joined'')" and may: "mayAdmit rt input q K"
  shows "traces (mayAdmit rt input) K (performAdmission (traceRuntime rt) q entry) (roomResult rt input)"
proof -
  have op: "gq_operationId q = ai_operationId input" using may by (simp add: mayAdmit_def)
  have call: "traces (mayAdmit rt input) K (callAdmit (traceRuntime rt) q) (\<lambda>x K'. \<forall>y. x = Some y \<longrightarrow> Tr_admit q (Inr y) \<in> K')"
    unfolding callAdmit_def by (rule traces_try[OF traces_ports(10)[of "mayAdmit rt input", OF may]]) (auto intro!: traces_ret)
  note amb = traces_reconcileAmbiguous[OF st op] and joined = traces_completeJoined[OF st op, of q]
  show ?thesis unfolding performAdmission_def
    apply (rule traces_bind[OF call])
    subgoal for x K1
      by (auto intro!: traces_ret roomResult_fail amb joined split: option.split gatewayAdmission.split)
    done
qed

lemma traces_reconcileThenAdmit:
  assumes st: "getProp (je_record entry) (js ''state'') \<noteq> JStr (js ''joined'')"
    and q: "q = requestOf input entry who invite"
    and who: "Tr_identity (Inr (Signed_in who)) \<in> K" and seen: "notRemoved rt (ai_inviteRef input) (ap_ownerId who) invite K"
  shows "traces (mayAdmit rt input) K (reconcileThenAdmit (traceRuntime rt) input who q entry) (roomResult rt input)"
proof -
  have may: "mayAdmit rt input q K2" if "K \<subseteq> K2" "eligibleEvidence rt (ai_inviteRef input) who K2" for K2
    using that who evidence_monos(2)[OF seen that(1)] by (auto simp: mayAdmit_def q requestOf_def)
  have eligible: "traces (mayAdmit rt input) K1 (bindS (readEligibleInvite (traceRuntime rt) input who) (\<lambda>eligible.
         case eligible of
           Inl failure \<Rightarrow> retS failure
         | Inr (invite, _) \<Rightarrow>
             if JStr (inv_roomId invite) \<noteq> getProp (je_record entry) (js ''roomId'')
               \<or> jnat 1 \<noteq> getProp (je_record entry) (js ''policyRevision'')
               \<or> historyText (policyHistory (inv_policy invite)) \<noteq> getProp (je_record entry) (js ''history'')
             then retS Op_unavailable
             else performAdmission (traceRuntime rt) q entry)) (roomResult rt input)" if "K \<subseteq> K1" for K1
    apply (rule traces_bind[OF traces_readEligible])
    subgoal for x K2 using may[of K2] that
      by (cases x) (auto simp: eligibleResult_def intro!: traces_ret traces_if roomResult_fail traces_performAdmission[OF st])
    done
  show ?thesis unfolding reconcileThenAdmit_def
    apply (rule traces_bind[OF traces_callLookup])
    subgoal for x K1
      using eligible[of K1] by (cases x) (auto intro!: traces_ret roomResult_fail traces_completeJoined[OF st refl, of q])
    done
qed

definition resumeResult :: "'w admissionRuntime \<Rightarrow> admitInput \<Rightarrow> authPrincipal \<Rightarrow> admissionResult outcome \<Rightarrow> traceEvent set \<Rightarrow> bool" where
  "resumeResult rt input who x K \<longleftrightarrow> roomResult rt input x K
     \<and> (\<forall>a. x = Op_ok a \<longrightarrow> (\<exists>invite. notRemoved rt (ai_inviteRef input) (ap_ownerId who) invite K))"

lemma traces_resume:
  assumes st: "getProp (je_record entry) (js ''state'') \<noteq> JStr (js ''joined'')"
    and who: "Tr_identity (Inr (Signed_in who)) \<in> K" and fresh: "\<not> reconcileFirst \<Longrightarrow> eligibleEvidence rt (ai_inviteRef input) who K"
  shows "traces (mayAdmit rt input) K (resumeAdmission (traceRuntime rt) input entry who reconcileFirst)
    (resumeResult rt input who)" (is "traces ?ok K _ ?Q")
proof -
  have go: "traces ?ok K2 (if reconcileFirst then reconcileThenAdmit (traceRuntime rt) input who (requestOf input entry who invite) entry
      else performAdmission (traceRuntime rt) (requestOf input entry who invite) entry) ?Q"
    if k: "K \<subseteq> K2" and n: "notRemoved rt (ai_inviteRef input) (ap_ownerId who) invite K2" for K2 invite
  proof (rule traces_conseq[where R = "roomResult rt input"], rule traces_if)
    show "traces ?ok K2 (reconcileThenAdmit (traceRuntime rt) input who (requestOf input entry who invite) entry) (roomResult rt input)"
      by (rule traces_reconcileThenAdmit[OF st refl]) (use who k n in auto)
    assume "\<not> reconcileFirst"
    then have "mayAdmit rt input (requestOf input entry who invite) K2"
      using evidence_monos(3)[OF fresh k] who k n by (auto simp: mayAdmit_def requestOf_def)
    then show "traces ?ok K2 (performAdmission (traceRuntime rt) (requestOf input entry who invite) entry) (roomResult rt input)"
      by (rule traces_performAdmission[OF st])
  qed (auto simp: resumeResult_def intro: evidence_monos(2)[OF n])
  have fail: "?Q x K'" if "\<And>a. x \<noteq> Op_ok a" for x K' using that by (simp add: resumeResult_def roomResult_def)
  show ?thesis unfolding resumeAdmission_def traceRuntime_simps
    apply (rule traces_bind[OF traces_safeRead])
    subgoal for x K1
    proof (rule traces_option, rule traces_ret, rule fail)
      fix invite
      assume k1: "K \<subseteq> K1" and x: "x \<noteq> Read_unavailable \<longrightarrow> Tr_read (dg_inviteKey (rt_digests rt) (ai_inviteRef input)) (Inr x) \<in> K1"
        and i: "(case x of Read_record r \<Rightarrow> readInviteRecord (rt_dateParse rt) (cr_value r) | _ \<Rightarrow> None) = Some invite"
      then have seen: "inviteSeen rt (ai_inviteRef input) invite K1" by (auto simp: inviteSeen_def split: controlRead.splits)
      show "traces ?ok K1 (bindS (removalOf (traceRuntime rt) invite (ap_ownerId who)) (\<lambda>removal. case removal of
           Removal_unavailable \<Rightarrow> retS Op_unavailable
         | Removal_revoked \<Rightarrow> retS (Op_rejected Reject_revoked)
         | Removal_allowed \<Rightarrow>
             if reconcileFirst then reconcileThenAdmit (traceRuntime rt) input who (requestOf input entry who invite) entry
             else performAdmission (traceRuntime rt) (requestOf input entry who invite) entry)) ?Q"
        apply (rule traces_bind[OF traces_removalOf])
        subgoal for removal K2 using go[of K2 invite] k1 evidence_monos(1)[OF seen, of K2]
          by (cases removal) (auto simp: notRemoved_def intro!: traces_ret fail)
        done
    qed simp
    done
qed

definition admitResult :: "'w admissionRuntime \<Rightarrow> admitInput \<Rightarrow> admissionResult outcome \<Rightarrow> traceEvent set \<Rightarrow> bool" where
  "admitResult rt input x K \<longleftrightarrow> (\<forall>a. x = Op_ok a \<longrightarrow> admissionReported rt input a K)"

lemma admitResult_fail: "(\<And>a. x \<noteq> Op_ok a) \<Longrightarrow> admitResult rt input x K"
  by (simp add: admitResult_def)

lemma admitResult_simps [simp]:
  "admitResult rt input Op_unavailable K" "admitResult rt input (Op_rejected c) K" "admitResult rt input (Op_outcome_unknown u) K"
  by (simp_all add: admitResult_def)

lemma resume_admitResult:
  "resumeResult rt input who x K \<Longrightarrow> Tr_identity (Inr (Signed_in who)) \<in> K \<Longrightarrow> admitResult rt input x K"
  by (auto simp: resumeResult_def roomResult_def admitResult_def admissionReported_def)

lemma traces_admitExisting:
  assumes who: "Tr_identity (Inr (Signed_in who)) \<in> K"
  shows "traces (mayAdmit rt input) K (admitExisting (traceRuntime rt) input entry who) (admitResult rt input)"
proof -
  have resume: "traces (mayAdmit rt input) K2 (resumeAdmission (traceRuntime rt) input entry who True) (admitResult rt input)"
    if "K \<subseteq> K2" "getProp (je_record entry) (js ''state'') \<noteq> JStr (js ''joined'')" for K2
    by (rule traces_conseq[OF traces_resume[OF that(2)]]) (use who that(1) in \<open>auto intro!: resume_admitResult\<close>)
  have removal: "traces (mayAdmit rt input) K1 (bindS (removalOf (traceRuntime rt) invite (ap_ownerId who)) (\<lambda>removal. case removal of
         Removal_unavailable \<Rightarrow> retS Op_unavailable
       | Removal_revoked \<Rightarrow> retS (Op_rejected Reject_revoked)
       | Removal_allowed \<Rightarrow>
           if getProp (je_record entry) (js ''state'') = JStr (js ''joined'')
           then retS (Op_ok \<lparr>ar_outcome = Outcome_already_joined, ar_room = getProp (je_record entry) (js ''room'')\<rparr>)
           else resumeAdmission (traceRuntime rt) input entry who True)) (admitResult rt input)"
    if k: "K \<subseteq> K1" and seen: "inviteSeen rt (ai_inviteRef input) invite K1" for K1 invite
    apply (rule traces_bind[OF traces_removalOf])
    subgoal for removal K2
    proof (cases removal)
      case Removal_allowed
      assume k2: "K1 \<subseteq> K2" and allow: "removal = Removal_allowed \<longrightarrow> removalsAllow rt invite (ap_ownerId who) K2"
      then have "admissionReported rt input \<lparr>ar_outcome = Outcome_already_joined, ar_room = x\<rparr> K2" for x
        using Removal_allowed who k evidence_monos(1)[OF seen k2] by (auto simp: admissionReported_def notRemoved_def)
      then show ?thesis unfolding Removal_allowed removalState.case
        using k k2 by (intro traces_if traces_ret resume) (auto simp: admitResult_def)
    qed (auto intro!: traces_ret admitResult_fail)
    done
  show ?thesis unfolding admitExisting_def traceRuntime_simps
    apply (intro traces_if traces_ret admitResult_fail traces_bind[OF traces_safeRead])
     apply simp
    subgoal for x K1
    proof (cases x)
      case (Read_record r)
      assume k: "K \<subseteq> K1" and x: "x \<noteq> Read_unavailable \<longrightarrow> Tr_read (dg_inviteKey (rt_digests rt) (ai_inviteRef input)) (Inr x) \<in> K1"
      then have "inviteSeen rt (ai_inviteRef input) invite K1" if "readInviteRecord (rt_dateParse rt) (cr_value r) = Some invite" for invite
        using that Read_record by (auto simp: inviteSeen_def)
      then show ?thesis unfolding Read_record controlRead.case by (intro traces_option traces_ret removal k) simp_all
    qed (auto intro!: traces_ret)
    done
qed

lemma traces_admitAuthorized:
  assumes who: "Tr_identity (Inr (Signed_in who)) \<in> K" and e: "eligibleEvidence rt (ai_inviteRef input) who K"
  shows "traces (mayAdmit rt input) K (admitAuthorized (traceRuntime rt) input who invite revision) (admitResult rt input)"
proof -
  have f: "traces (mayAdmit rt input) K' (fieldOf v k) (\<lambda>x K''. x = getProp v (js k))" for v k K'
    by (simp add: fieldOf_def traces_throw traces_ret)
  have resume: "traces (mayAdmit rt input) K2 (resumeAdmission (traceRuntime rt) input entry who False) (admitResult rt input)"
    if "K \<subseteq> K2" "getProp (je_record entry) (js ''state'') \<noteq> JStr (js ''joined'')" for K2 entry
    by (rule traces_conseq[OF traces_resume[OF that(2)]])
      (use who that(1) evidence_monos(3)[OF e that(1)] in \<open>auto intro!: resume_admitResult\<close>)
  have claim: "traces (mayAdmit rt input) K' (journalClaim (traceStore store) d op b) (\<lambda>_ _. True)" for store d op b K'
    unfolding journalClaim_def by (auto intro!: traces_bind[OF traces_writeAndResolve] traces_ret)
  have reported: "admitResult rt input (Op_ok \<lparr>ar_outcome = Outcome_already_joined, ar_room = x\<rparr>) K2" if "K \<subseteq> K2" for x K2
    using that who evidence_monos(3)[OF e that]
    by (auto simp: admitResult_def admissionReported_def eligibleEvidence_def notRemoved_def)
  show ?thesis unfolding admitAuthorized_def traceRuntime_simps
    apply (rule traces_bind[OF f], rule traces_bind[OF f], rule traces_bind[OF f], rule traces_bind[OF claim])
    subgoal for _ K1 _ K2 _ K3 x K4
      using resume reported
      by (cases x) (auto intro!: traces_ret traces_if traces_bind[OF f])
    done
qed

lemma traces_admitInvite: "traces (mayAdmit rt input) K (admitInvite (traceRuntime rt) input) (admitResult rt input)"
proof -
  have signed: "traces (mayAdmit rt input) K1 (bindS (journalReadEntry (rt_store (traceRuntime rt)) (rt_digests (traceRuntime rt)) (ai_operationId input)) (\<lambda>existing.
         case existing of
           Jr_unavailable \<Rightarrow> retS Op_unavailable
         | Jr_entry entry \<Rightarrow> admitExisting (traceRuntime rt) input entry who
         | Jr_absent \<Rightarrow>
             bindS (authorizeInvite (traceRuntime rt) input who) (\<lambda>authorized.
             case authorized of
               Inl failure \<Rightarrow> retS failure
             | Inr (invite, revision) \<Rightarrow> admitAuthorized (traceRuntime rt) input who invite revision))) (admitResult rt input)"
    if who: "Tr_identity (Inr (Signed_in who)) \<in> K1" for K1 who
  proof -
    have r: "traces (mayAdmit rt input) K1 (journalReadEntry (traceStore (rt_store rt)) (rt_digests rt) (ai_operationId input)) (\<lambda>_ _. True)"
      unfolding journalReadEntry_def by (auto intro!: traces_bind[OF traces_safeRead] traces_ret)
    have a: "traces (mayAdmit rt input) K2 (bindS (authorizeInvite (traceRuntime rt) input who) (\<lambda>authorized. case authorized of
               Inl failure \<Rightarrow> retS failure
             | Inr (invite, revision) \<Rightarrow> admitAuthorized (traceRuntime rt) input who invite revision)) (admitResult rt input)" if "K1 \<subseteq> K2" for K2
      unfolding authorizeInvite_def
      apply (rule traces_bind[OF traces_authorize])
      subgoal for x K3 using who that
        by (cases x) (auto simp: eligibleResult_def intro!: traces_ret admitResult_fail traces_admitAuthorized)
      done
    show ?thesis unfolding traceRuntime_simps
      apply (rule traces_bind[OF r])
      subgoal for x K2 using who a[of K2] by (cases x) (auto intro!: traces_ret admitResult_fail traces_admitExisting)
      done
  qed
  show ?thesis unfolding admitInvite_def
    apply (rule traces_bind[OF traces_currentPrincipal])
    subgoal for x K1 using signed by (cases x) (auto intro!: traces_ret admitResult_fail)
    done
qed

section \<open>Inspecting and sharing\<close>

definition inspectResult :: "'w admissionRuntime \<Rightarrow> ustring \<Rightarrow> inviteState \<Rightarrow> traceEvent set \<Rightarrow> bool" where
  "inspectResult rt inviteRef x K \<longleftrightarrow> (x = State_eligible \<longrightarrow>
     (\<exists>who room. Tr_identity (Inr (Signed_in who)) \<in> K \<and> eligibleEvidence rt inviteRef who K \<and> Tr_inspect room who (Inr Insp_absent) \<in> K))"

lemma inspectResult_simps [simp]:
  "inspectResult rt ref State_revoked K" "inspectResult rt ref State_unavailable K" "inspectResult rt ref State_expired K"
  "inspectResult rt ref State_identity_mismatch K" "inspectResult rt ref State_auth_required K" "inspectResult rt ref State_already_joined K"
  by (simp_all add: inspectResult_def)

lemma traces_inspectStored:
  assumes who: "Tr_identity (Inr (Signed_in who)) \<in> K" and seen: "inviteSeen rt inviteRef invite K"
  shows "traces ok K (inspectStored (traceRuntime rt) who inviteRef invite) (inspectResult rt inviteRef)"
proof -
  have allowed: "traces ok K2 (inspectAllowed (traceRuntime rt) who invite) (inspectResult rt inviteRef)"
    if k: "K \<subseteq> K2" and "unexpired rt invite K2" "removalsAllow rt invite (ap_ownerId who) K2"
      "inv_inviteRefDigest invite = dg_inviteRef (rt_digests rt) inviteRef" for K2
  proof -
    have e: "eligibleEvidence rt inviteRef who K2" if "inv_status invite \<noteq> Invite_revoked"
      "policyAllows (rt_toLowerCase rt) (dg_email (rt_digests rt)) (inv_policy invite) who"
      unfolding eligibleEvidence_def using that \<open>unexpired rt invite K2\<close> \<open>removalsAllow rt invite (ap_ownerId who) K2\<close>
        \<open>inv_inviteRefDigest invite = _\<close> evidence_monos(1)[OF seen k] by (auto simp: inviteStatus_cases)
    show ?thesis unfolding inspectAllowed_def traceRuntime_simps
      using k who e evidence_monos(3)[of rt inviteRef who K2]
      by (auto intro!: traces_if traces_ret traces_try[OF traces_ports(6)] simp: inspectResult_def split: gatewayInspection.splits) blast+
  qed
  have removal: "traces ok K1 (bindS (removalOf (traceRuntime rt) invite (ap_ownerId who)) (\<lambda>removal. case removal of
        Removal_revoked \<Rightarrow> retS State_revoked | Removal_unavailable \<Rightarrow> retS State_unavailable
      | Removal_allowed \<Rightarrow> inspectAllowed (traceRuntime rt) who invite)) (inspectResult rt inviteRef)"
    if "K \<subseteq> K1" "unexpired rt invite K1" "inv_inviteRefDigest invite = dg_inviteRef (rt_digests rt) inviteRef" for K1
    apply (rule traces_bind[OF traces_removalOf])
    subgoal for removal K2 using allowed[of K2] that evidence_mono(2)[of rt invite K1 K2]
      by (cases removal) (auto intro!: traces_ret)
    done
  show ?thesis unfolding inspectStored_def traceRuntime_simps
    by (intro traces_if traces_ret traces_bind[OF traces_inviteExpired] removal) auto
qed

lemma traces_inspect: "traces ok K (inspectInvite (traceRuntime rt) inviteRef) (inspectResult rt inviteRef)"
  unfolding inspectInvite_def traceRuntime_simps
proof (rule traces_bind[OF traces_currentPrincipal])
  fix x K1
  assume id: "\<forall>who. x = Is_signed_in who \<longrightarrow> Tr_identity (Inr (Signed_in who)) \<in> K1"
  have signed: "traces ok K1 (bindS (safeRead (traceStore (rt_store rt)) (dg_inviteKey (rt_digests rt) inviteRef)) (\<lambda>stored.
       case stored of Read_unavailable \<Rightarrow> retS State_unavailable | Read_absent \<Rightarrow> retS State_revoked
       | Read_record r \<Rightarrow> (case readInviteRecord (rt_dateParse rt) (cr_value r) of None \<Rightarrow> retS State_unavailable
           | Some invite \<Rightarrow> inspectStored (traceRuntime rt) who inviteRef invite))) (inspectResult rt inviteRef)"
    if "Tr_identity (Inr (Signed_in who)) \<in> K1" for who
    apply (rule traces_bind[OF traces_safeRead])
    subgoal for y K2 using that
      by (cases y) (auto intro!: traces_ret traces_option traces_inspectStored simp: inviteSeen_def)
    done
  show "traces ok K1 (case x of Is_auth_required \<Rightarrow> retS State_auth_required | Is_unavailable \<Rightarrow> retS State_unavailable
     | Is_signed_in who \<Rightarrow> bindS (safeRead (traceStore (rt_store rt)) (dg_inviteKey (rt_digests rt) inviteRef)) (\<lambda>stored.
       case stored of Read_unavailable \<Rightarrow> retS State_unavailable | Read_absent \<Rightarrow> retS State_revoked
       | Read_record r \<Rightarrow> (case readInviteRecord (rt_dateParse rt) (cr_value r) of None \<Rightarrow> retS State_unavailable
           | Some invite \<Rightarrow> inspectStored (traceRuntime rt) who inviteRef invite))) (inspectResult rt inviteRef)"
    using id signed by (cases x) (auto intro!: traces_ret)
qed

text \<open>A stored invitation the service saw: read, reported as the current one of a lost race, or confirmed as written.\<close>

definition recordSeen :: "ustring \<Rightarrow> controlRecord \<Rightarrow> traceEvent set \<Rightarrow> bool" where
  "recordSeen key r K \<longleftrightarrow> Tr_read key (Inr (Read_record r)) \<in> K
     \<or> (\<exists>i. ci_key i = key \<and> (Tr_write i (Inr (W_conflict (Some r))) \<in> K \<or> confirmed i r K))"

lemma recordSeen_mono: "recordSeen key r K \<Longrightarrow> K \<subseteq> K' \<Longrightarrow> recordSeen key r K'"
  unfolding recordSeen_def using confirmed_mono by blast

definition shareBacked :: "'w admissionRuntime \<Rightarrow> shareInput \<Rightarrow> ustring \<Rightarrow> shareGrant outcome \<Rightarrow> traceEvent set \<Rightarrow> bool" where
  "shareBacked rt input ownerId x K \<longleftrightarrow> (\<forall>g. x = Op_ok g \<longrightarrow> sg_inviteRef g = dg_token (rt_digests rt) (si_operationId input)
     \<and> (\<exists>r. recordSeen (dg_inviteKey (rt_digests rt) (sg_inviteRef g)) r K
         \<and> getProp (cr_value r) (js ''creatorOwnerId'') = JStr ownerId \<and> getProp (cr_value r) (js ''roomId'') = JStr (si_roomId input)))"

lemma shareBacked_simps [simp]:
  "shareBacked rt input owner Op_unavailable K" "shareBacked rt input owner (Op_rejected c) K" "shareBacked rt input owner (Op_outcome_unknown u) K"
  by (simp_all add: shareBacked_def)

lemma readInviteRecord_owner:
  assumes "readInviteRecord dp v = Some invite"
  shows "getProp v (js ''creatorOwnerId'') = JStr (inv_creatorOwnerId invite) \<and> getProp v (js ''roomId'') = JStr (inv_roomId invite)"
proof -
  obtain p ps where "v = JObj p ps" using assms by (cases v) (simp_all add: readInviteRecord_def)
  then show ?thesis using assms unfolding readInviteRecord_def
    by (auto simp: bind_eq_Some_conv nonemptyText_iff simp del: getProp.simps split: if_splits)
qed

lemma traces_diagnostic: "Q x K \<Longrightarrow> (\<And>K'. K \<subseteq> K' \<Longrightarrow> Q x K') \<Longrightarrow> traces ok K (withDiagnostic (traceRuntime rt) stage x) Q"
  unfolding withDiagnostic_def diagnostic_def
  by (rule traces_bind[where R = "\<lambda>_ _. True"]) (auto intro!: traces_catch traces_ports(9) traces_ret)

lemma traces_grant:
  assumes "recordSeen (dg_inviteKey (rt_digests rt) inviteRef) r K" "inviteRef = dg_token (rt_digests rt) (si_operationId input)"
    and "getProp (cr_value r) (js ''creatorOwnerId'') = JStr owner" "getProp (cr_value r) (js ''roomId'') = JStr (si_roomId input)"
  shows "traces ok K (grant (traceRuntime rt) inviteRef e) (shareBacked rt input owner)"
  using assms by (auto simp: grant_def orThrow_def shareBacked_def intro!: traces_pair traces_throw split: option.split)

lemma traces_shareExisting:
  assumes "recordSeen (dg_inviteKey (rt_digests rt) inviteRef) r K" "inviteRef = dg_token (rt_digests rt) (si_operationId input)"
    and "readInviteRecord (rt_dateParse rt) (cr_value r) = Some invite"
  shows "traces ok K (shareExisting (traceRuntime rt) invite owner (si_roomId input) policy inviteRef) (shareBacked rt input owner)"
proof -
  have "getProp (cr_value r) (js ''creatorOwnerId'') = JStr owner \<and> getProp (cr_value r) (js ''roomId'') = JStr (si_roomId input)"
    if "sameShare (traceRuntime rt) (encodeInvite invite) owner (si_roomId input) policy inviteRef"
    using that readInviteRecord_owner[OF assms(3)] encodeInvite_props(2,3)[of invite] by (auto simp: sameShare_def simp del: getProp.simps)
  then show ?thesis unfolding shareExisting_def using assms(1,2)
    by (auto intro!: traces_if traces_ret traces_grant)
qed

lemma writeEvidence_seen:
  "writeEvidence i (W_applied r) K \<Longrightarrow> recordSeen (ci_key i) r K" "writeEvidence i (W_conflict (Some r)) K \<Longrightarrow> recordSeen (ci_key i) r K"
  by (auto simp: writeEvidence_def recordSeen_def)

lemma traces_shareNew:
  assumes ref: "inviteRef = dg_token (rt_digests rt) (si_operationId input)"
  shows "traces ok K (shareNew (traceRuntime rt) input owner policy inviteRef e removals) (shareBacked rt input owner)"
  unfolding shareNew_def traceRuntime_simps
  apply (rule traces_bind[OF traces_writeAndResolve])
  subgoal premises p for x K1
  proof (cases x)
    case (W_applied r)
    then have "recordSeen (dg_inviteKey (rt_digests rt) inviteRef) r K1" using writeEvidence_seen(1) p(2) by fastforce
    then show ?thesis unfolding W_applied writeResult.case using ref
      by (auto intro!: traces_if traces_throw traces_ret traces_grant simp: sameShare_def simp del: getProp.simps)
  next
    case (W_conflict c)
    show ?thesis
    proof (cases c)
      case (Some r)
      then have "recordSeen (dg_inviteKey (rt_digests rt) inviteRef) r K1" using writeEvidence_seen(2) p(2) W_conflict by fastforce
      then show ?thesis unfolding W_conflict Some writeResult.case option.case
        by (auto intro!: traces_option traces_ret traces_shareExisting[OF _ ref])
    qed (auto simp: W_conflict intro!: traces_diagnostic)
  qed (auto intro!: traces_diagnostic)
  done

lemma traces_shareStored: "traces ok K (shareStored (traceRuntime rt) input owner policy) (shareBacked rt input owner)"
proof -
  have orThrow: "traces ok K1 (orThrow err y) (\<lambda>_ _. True)" for err and y :: "'b option" and K1
    by (auto simp: orThrow_def intro!: traces_ret traces_throw split: option.split)
  have expiry: "traces ok K1 (case rt_inviteLifetimeMs rt of None \<Rightarrow> retS None
      | Some ms \<Rightarrow> bindS (rt_clock (traceRuntime rt)) (\<lambda>now. bindS (orThrow rangeError (rt_toISOString rt (now + int ms))) (\<lambda>e. retS (Some e))))
      (\<lambda>_ _. True)" for K1
    by (intro traces_option traces_ret traces_bind[OF traces_ports(8)] traces_bind[OF orThrow] TrueI)
  have seen: "recordSeen key r K1" if "Tr_read key (Inr (Read_record r)) \<in> K1" for key r K1 using that by (simp add: recordSeen_def)
  have absent: "traces ok K1 (bindS (readRoomRemovals (traceStore (rt_store rt)) (rt_sha256 rt) (si_roomId input)) (\<lambda>removals.
       case removals of
         Inl _ \<Rightarrow> retS Op_unavailable
       | Inr rs \<Rightarrow>
           if (case Option.bind rs (\<lambda>v. ownerEntry v owner) of None \<Rightarrow> False | Some removal \<Rightarrow> \<not> isComplete removal)
           then retS (Op_rejected Reject_forbidden)
           else bindS (case rt_inviteLifetimeMs rt of None \<Rightarrow> retS None
               | Some ms \<Rightarrow> bindS (rt_clock (traceRuntime rt)) (\<lambda>now. bindS (orThrow rangeError (rt_toISOString rt (now + int ms))) (\<lambda>e. retS (Some e))))
             (\<lambda>expiresAt. shareNew (traceRuntime rt) input owner policy (dg_token (rt_digests rt) (si_operationId input)) expiresAt rs)))
     (shareBacked rt input owner)" for K1
    apply (rule traces_bind[OF traces_readRoomRemovals])
    subgoal for x K2
    proof (cases x)
      case (Inr rs)
      show ?thesis unfolding Inr sum.case
        by (intro traces_if traces_ret traces_bind[OF expiry] traces_shareNew refl) simp
    qed (auto intro!: traces_ret)
    done
  show ?thesis unfolding shareStored_def traceRuntime_simps Let_def
    apply (rule traces_bind[OF traces_safeRead])
    subgoal for x K1 using absent
      by (cases x) (auto intro!: traces_option traces_diagnostic traces_shareExisting seen)
    done
qed

text \<open>A grant given in this call: the signed-in human, the authority's consent and the stored invitation are all in the log.\<close>

definition shareResult :: "'w admissionRuntime \<Rightarrow> shareInput \<Rightarrow> ustring option \<Rightarrow> shareGrant outcome \<Rightarrow> traceEvent set \<Rightarrow> bool" where
  "shareResult rt input expected x K \<longleftrightarrow> (\<forall>g. x = Op_ok g \<longrightarrow> (\<exists>who. Tr_identity (Inr (Signed_in who)) \<in> K
     \<and> (case expected of None \<Rightarrow> True | Some u \<Rightarrow> ap_ownerId who = u)
     \<and> Tr_canShare who (si_roomId input) (Inr Share_allowed) \<in> K \<and> shareBacked rt input (ap_ownerId who) x K))"

lemma shareResult_simps [simp]:
  "shareResult rt input u Op_unavailable K" "shareResult rt input u (Op_rejected c) K" "shareResult rt input u (Op_outcome_unknown v) K"
  by (simp_all add: shareResult_def)

lemma traces_shareInvite: "traces ok K (shareInvite (traceRuntime rt) input expected) (shareResult rt input expected)"
proof -
  have allowed: "traces ok K2 (shareStored (traceRuntime rt) input (ap_ownerId who) policy) (shareResult rt input expected)"
    if "Tr_identity (Inr (Signed_in who)) \<in> K2" "Tr_canShare who (si_roomId input) (Inr Share_allowed) \<in> K2"
      "\<not> (case expected of None \<Rightarrow> False | Some u \<Rightarrow> ap_ownerId who \<noteq> u)" for K2 who policy
    by (rule traces_conseq[OF traces_shareStored]) (use that in \<open>auto simp: shareResult_def split: option.splits\<close>)
  have authority: "traces ok K1 (tryS (rt_canShare (traceRuntime rt) who (si_roomId input))
         (\<lambda>authority. case authority of
            Share_forbidden \<Rightarrow> withDiagnostic (traceRuntime rt) Authority_forbidden (Op_rejected Reject_forbidden)
          | Share_unavailable \<Rightarrow> withDiagnostic (traceRuntime rt) Authority_unavailable Op_unavailable
          | Share_allowed \<Rightarrow> shareStored (traceRuntime rt) input (ap_ownerId who) policy)
         (\<lambda>error. withDiagnostic (traceRuntime rt) Authority_error Op_unavailable)) (shareResult rt input expected)"
    if "Tr_identity (Inr (Signed_in who)) \<in> K1" "\<not> (case expected of None \<Rightarrow> False | Some u \<Rightarrow> ap_ownerId who \<noteq> u)" for K1 who policy
    apply (rule traces_try[OF traces_ports(5)])
    subgoal for x K2 using that allowed[of who K2 policy] by (cases x) (auto intro!: traces_diagnostic)
    by (auto intro!: traces_diagnostic)
  show ?thesis unfolding shareInvite_def traceRuntime_simps
    apply (rule traces_bind[OF traces_currentPrincipal])
    subgoal for x K1
    proof (cases x)
      case (Is_signed_in who)
      assume "\<forall>who. x = Is_signed_in who \<longrightarrow> Tr_identity (Inr (Signed_in who)) \<in> K1"
      then show ?thesis unfolding Is_signed_in principalState.case
        by (intro traces_if traces_ret traces_option authority traces_diagnostic) (simp_all add: Is_signed_in)
    qed (auto intro!: traces_diagnostic)
    done
qed

section \<open>Personal links\<close>

text \<open>The link a call returns was, in that call, read back as an invitation of the same human and room, neither revoked nor expired
  nor older than the last removal the call saw, after the authority consented.\<close>

definition usableLink :: "'w admissionRuntime \<Rightarrow> ustring \<Rightarrow> ustring \<Rightarrow> nat \<Rightarrow> shareGrant \<Rightarrow> traceEvent set \<Rightarrow> bool" where
  "usableLink rt ownerId roomId generation g K \<longleftrightarrow> (\<exists>who. Tr_canShare who roomId (Inr Share_allowed) \<in> K \<and> ap_ownerId who = ownerId)
     \<and> (\<exists>invite. inviteSeen rt (sg_inviteRef g) invite K \<and> inv_creatorOwnerId invite = ownerId \<and> inv_roomId invite = roomId
        \<and> inv_status invite = Invite_active \<and> unexpired rt invite K
        \<and> generation \<le> (case inv_removalGeneration invite of None \<Rightarrow> 0 | Some n \<Rightarrow> n))"

definition attemptResult :: "'w admissionRuntime \<Rightarrow> ustring \<Rightarrow> ustring \<Rightarrow> nat \<Rightarrow> shareGrant outcome + unit \<Rightarrow> traceEvent set \<Rightarrow> bool" where
  "attemptResult rt ownerId roomId generation x K \<longleftrightarrow> (\<forall>g. x = Inl (Op_ok g) \<longrightarrow> usableLink rt ownerId roomId generation g K)"

lemma attemptResult_simps [simp]:
  "attemptResult rt u room n (Inl Op_unavailable) K" "attemptResult rt u room n (Inl (Op_rejected c)) K"
  "attemptResult rt u room n (Inl (Op_outcome_unknown v)) K" "attemptResult rt u room n (Inr y) K"
  by (simp_all add: attemptResult_def)

lemma traces_linkUnusable:
  "traces ok K (linkUnusable (traceRuntime rt) invite generation) (\<lambda>x K'. \<not> x \<longrightarrow> inv_status invite = Invite_active \<and> unexpired rt invite K'
     \<and> generation \<le> (case inv_removalGeneration invite of None \<Rightarrow> 0 | Some n \<Rightarrow> n))"
  unfolding linkUnusable_def
  by (intro traces_if traces_ret) (auto intro!: traces_conseq[OF traces_inviteExpired] simp: inviteStatus_cases)

lemma traces_personalShare:
  "traces ok K (personalShare (traceRuntime rt) ownerId roomId generation operationId) (attemptResult rt ownerId roomId generation)"
  unfolding personalShare_def traceRuntime_simps
  apply (rule traces_bind[OF traces_shareInvite])
  subgoal premises p for x K1
  proof (cases x)
    case (Op_ok g)
    then obtain who where who: "Tr_canShare who roomId (Inr Share_allowed) \<in> K1" "ap_ownerId who = ownerId"
      using p(2) by (auto simp: shareResult_def)
    have link: "traces ok K2 (bindS (linkUnusable (traceRuntime rt) invite generation) (\<lambda>unusable.
        retS (if unusable then Inr () else Inl (Op_ok g)))) (attemptResult rt ownerId roomId generation)"
      if "K1 \<subseteq> K2" "inviteSeen rt (sg_inviteRef g) invite K2" "inv_creatorOwnerId invite = ownerId" "inv_roomId invite = roomId" for K2 invite
      apply (rule traces_bind[OF traces_linkUnusable])
      subgoal for y K3 using that who evidence_monos(1)[OF that(2), of K3]
        by (auto intro!: traces_ret exI[of _ who] exI[of _ invite] simp: attemptResult_def usableLink_def)
      done
    show ?thesis unfolding Op_ok operationResult.case
      apply (rule traces_bind[OF traces_safeRead])
      subgoal for y K2 using link
        by (cases y) (auto intro!: traces_ret traces_option traces_if simp: inviteSeen_def)
      done
  qed (auto intro!: traces_ret)
  done

lemma traces_writePointer: "traces ok K (writePointer (traceRuntime rt) i) (attemptResult rt u room n)"
  unfolding writePointer_def traceRuntime_simps
  by (rule traces_bind[OF traces_writeAndResolve])
    (auto intro!: traces_ret simp: afterPointerWrite_def split: writeResult.split)

lemma traces_personalAttempt:
  "traces ok K (personalAttempt (traceRuntime rt) ownerId roomId generation key) (attemptResult rt ownerId roomId generation)"
proof -
  have rotate: "traces ok K1 (bindS (linkUnusable (traceRuntime rt) invite generation) (\<lambda>unusable.
      if unusable then (if \<not> safeNat (n + 1) then retS (Inl Op_unavailable) else writePointer (traceRuntime rt) i)
      else personalShare (traceRuntime rt) ownerId roomId generation op)) (attemptResult rt ownerId roomId generation)" for K1 invite n i op
    by (rule traces_bind[OF traces_linkUnusable])
      (intro traces_if traces_ret traces_writePointer traces_personalShare attemptResult_simps)
  show ?thesis unfolding personalAttempt_def traceRuntime_simps Let_def
    apply (rule traces_bind[OF traces_safeRead])
    subgoal for x K1
    proof (cases x)
      case (Read_record p)
      show ?thesis unfolding Read_record controlRead.case
        apply (intro traces_option traces_ret attemptResult_simps)
        apply (rule traces_bind[OF traces_safeRead])
        subgoal for n y K2
          by (cases y) (intro traces_option traces_ret traces_if rotate traces_personalShare attemptResult_simps
              | simp only: controlRead.case)+
        done
    qed (auto intro!: traces_ret traces_writePointer)
    done
qed

lemma traces_personalLinkFrom:
  "traces ok K (personalLinkFrom (traceRuntime rt) ownerId roomId generation key n)
     (\<lambda>x K'. \<forall>g. x = Op_ok g \<longrightarrow> usableLink rt ownerId roomId generation g K')"
proof (induction n arbitrary: K)
  case 0
  show ?case unfolding personalLinkFrom.simps by (rule traces_ret) simp
next
  case (Suc n)
  show ?case unfolding personalLinkFrom.simps
    apply (rule traces_bind[OF traces_personalAttempt])
    subgoal for x K1 using Suc.IH[of K1] by (cases x) (auto intro!: traces_ret simp: attemptResult_def)
    done
qed

definition personalResult :: "'w admissionRuntime \<Rightarrow> ustring \<Rightarrow> shareGrant outcome \<Rightarrow> traceEvent set \<Rightarrow> bool" where
  "personalResult rt roomId x K \<longleftrightarrow> (\<forall>g. x = Op_ok g \<longrightarrow> (\<exists>who rs. Tr_identity (Inr (Signed_in who)) \<in> K \<and> removalRead rt roomId rs K
     \<and> usableLink rt (ap_ownerId who) roomId (case rs of None \<Rightarrow> 0 | Some v \<Rightarrow> generationOf v) g K))"

lemma personalResult_simps [simp]:
  "personalResult rt room Op_unavailable K" "personalResult rt room (Op_rejected c) K"
  by (simp_all add: personalResult_def)

lemma traces_personalLink: "traces ok K (personalLink (traceRuntime rt) roomId) (personalResult rt roomId)"
proof -
  have go: "traces ok K2 (personalLinkFrom (traceRuntime rt) (ap_ownerId who) roomId (case rs of None \<Rightarrow> 0 | Some v \<Rightarrow> generationOf v) key n) (personalResult rt roomId)"
    if "Tr_identity (Inr (Signed_in who)) \<in> K2" "removalRead rt roomId rs K2" for who rs key n K2
    by (rule traces_conseq[OF traces_personalLinkFrom])
      (use that removalRead_mono[OF that(2)] in \<open>auto simp: personalResult_def intro!: exI[of _ who] exI[of _ rs]\<close>)
  have signed: "traces ok K1 (bindS (readRoomRemovals (traceStore (rt_store rt)) (rt_sha256 rt) roomId) (\<lambda>removals. case removals of
       Inl _ \<Rightarrow> retS Op_unavailable
     | Inr rs \<Rightarrow> personalLinkFrom (traceRuntime rt) (ap_ownerId who) roomId (case rs of None \<Rightarrow> 0 | Some v \<Rightarrow> generationOf v)
         (dg_personalKey (rt_digests rt) (ap_ownerId who) roomId) 8)) (personalResult rt roomId)"
    if "Tr_identity (Inr (Signed_in who)) \<in> K1" for who K1
    apply (rule traces_bind[OF traces_readRoomRemovals])
    subgoal for x K2
    proof (cases x)
      case (Inr rs)
      assume "K1 \<subseteq> K2" "\<forall>rs. x = Inr rs \<longrightarrow> removalRead rt roomId rs K2"
      then show ?thesis unfolding Inr sum.case using that Inr by (intro go) auto
    qed (auto intro!: traces_ret)
    done
  show ?thesis unfolding personalLink_def traceRuntime_simps
    apply (rule traces_bind[OF traces_currentPrincipal])
    subgoal for x K1 using signed by (cases x) (auto intro!: traces_ret)
    done
qed

section \<open>Properties\<close>

lemma erased_run: "erases m m' \<Longrightarrow> m' (w, []) = (r, (w', t)) \<Longrightarrow> m w = (r, w')"
  unfolding erases_def by (metis fst_conv snd_conv prod.collapse)

lemma traced_run:
  assumes "traces ok {} m Q" "m (w, []) = (r, (w', t))"
  shows "t = t1 @ Tr_admit q x # t2 \<Longrightarrow> ok q (set t1)" "r = Inr y \<Longrightarrow> Q y (set t)"
proof -
  obtain u where u: "t = [] @ u" "\<And>u1 q x u2. u = u1 @ Tr_admit q x # u2 \<Longrightarrow> ok q ({} \<union> set u1)" "\<And>x. r = Inr x \<Longrightarrow> Q x ({} \<union> set u)"
    by (rule tracesD[OF assms(1) _ assms(2)]) (auto intro: that)
  show "t = t1 @ Tr_admit q x # t2 \<Longrightarrow> ok q (set t1)" using u by simp
  show "r = Inr y \<Longrightarrow> Q y (set t)" using u by simp
qed

text \<open>C1: The gateway is asked to admit a human only on evidence read before, in the same call: the request's principal is the
  human the identity port just reported; an invitation with the given reference was read from the store, active, unexpired by the
  clock, allowed for that human by its policy and by the channel's removals; and the issuer and removal generation in the request
  are those of an invitation read and checked against the removals. The logged run is the run of the service itself.\<close>

theorem admission_only_on_evidence:
  assumes "admitInvite (traceRuntime rt) input (w, []) = (r, (w', t))"
  shows "admitInvite rt input w = (r, w')
    \<and> (\<forall>t1 q x t2. t = t1 @ Tr_admit q x # t2 \<longrightarrow> mayAdmit rt input q (set t1))"
  using erased_run[OF erases_admitInvite assms] traced_run(1)[OF traces_admitInvite assms] by blast

text \<open>C2: Success is durable before it is reported: an answer \<open>joined\<close> names a room the gateway reported as joined, whose
  membership is \<open>joined\<close>, after the store confirmed the journal record with this room or showed that it already held it. No
  answer of success, the repeated \<open>already_joined\<close> included, goes to a human whom the removals read in that call exclude.\<close>

theorem admission_reported_when_journaled:
  assumes "admitInvite (traceRuntime rt) input (w, []) = (Inr (Op_ok a), (w', t))"
  shows "admitInvite rt input w = (Inr (Op_ok a), w') \<and> admissionReported rt input a (set t)"
  using erased_run[OF erases_admitInvite assms] traced_run(2)[OF traces_admitInvite assms refl] by (simp add: admitResult_def)

text \<open>An invitation is shown as eligible only on the same evidence an admission needs, and only where the gateway reported
  that the human is not yet a member.\<close>

theorem inspect_eligible_evidence:
  assumes "inspectInvite (traceRuntime rt) inviteRef (w, []) = (Inr State_eligible, (w', t))"
  shows "inspectInvite rt inviteRef w = (Inr State_eligible, w')
    \<and> (\<exists>who room. Tr_identity (Inr (Signed_in who)) \<in> set t \<and> eligibleEvidence rt inviteRef who (set t)
        \<and> Tr_inspect room who (Inr Insp_absent) \<in> set t)"
  using erased_run[OF erases_inspectInvite assms] traced_run(2)[OF traces_inspect assms refl] by (simp add: inspectResult_def)

text \<open>C5: A share link is granted only to the signed-in human (the expected one, where one is expected) with the authority's
  consent given in that call, and only backed by a stored invitation of that human for that room under the link's reference. A
  personal link is moreover read back as active, unexpired and not older than the channel's last removal.\<close>

theorem grants_authorized:
  "(shareInvite (traceRuntime rt) input expected (w, []) = (Inr (Op_ok g), (w', t)) \<longrightarrow>
      shareInvite rt input expected w = (Inr (Op_ok g), w') \<and> shareResult rt input expected (Op_ok g) (set t))
   \<and> (personalLink (traceRuntime rt) roomId (w, []) = (Inr (Op_ok g), (w', t)) \<longrightarrow>
      personalLink rt roomId w = (Inr (Op_ok g), w') \<and> personalResult rt roomId (Op_ok g) (set t))"
  using erased_run[OF erases_shareInvite[of rt input expected]] traced_run(2)[OF traces_shareInvite[of _ _ rt input expected] _ refl]
    erased_run[OF erases_personalLink[of rt roomId]] traced_run(2)[OF traces_personalLink[of _ _ rt roomId] _ refl]
  by meson

text \<open>The service's digests as HMAC inputs: two digests can agree only if purpose and value do.\<close>

datatype digestUse = Use_token ustring | Use_inviteKey ustring | Use_inviteRef ustring | Use_operation ustring
  | Use_personal ustring ustring nat | Use_personalKey ustring ustring | Use_email ustring

definition digestInput :: "digestUse \<Rightarrow> ustring" where
  "digestInput u = (case u of
     Use_token x \<Rightarrow> js ''invite-token'' @ [0] @ x
   | Use_inviteKey x \<Rightarrow> js ''invite-key'' @ [0] @ x
   | Use_inviteRef x \<Rightarrow> js ''invite-reference'' @ [0] @ x
   | Use_operation x \<Rightarrow> js ''operation'' @ [0] @ x
   | Use_personal owner room n \<Rightarrow> js ''personal-link'' @ [0] @ (owner @ [0] @ room @ [0] @ dec_digits n)
   | Use_personalKey owner room \<Rightarrow> js ''personal-pointer'' @ [0] @ (owner @ [0] @ room)
   | Use_email x \<Rightarrow> js ''named-email'' @ [0] @ x)"

definition digestValue :: "digests \<Rightarrow> digestUse \<Rightarrow> ustring" where
  "digestValue d u = (case u of
     Use_token x \<Rightarrow> dg_token d x | Use_inviteKey x \<Rightarrow> dg_inviteKey d x | Use_inviteRef x \<Rightarrow> dg_inviteRef d x
   | Use_operation x \<Rightarrow> dg_operation d x | Use_personal owner room n \<Rightarrow> dg_personal d owner room n
   | Use_personalKey owner room \<Rightarrow> dg_personalKey d owner room | Use_email x \<Rightarrow> dg_email d x)"

definition digestPrefix :: "digestUse \<Rightarrow> ustring" where
  "digestPrefix u = (case u of Use_token _ \<Rightarrow> js ''inv_'' | Use_inviteKey _ \<Rightarrow> js ''invitations.invite.''
   | Use_personal _ _ _ \<Rightarrow> js ''personal_'' | Use_personalKey _ _ \<Rightarrow> js ''invitations.personal.'' | _ \<Rightarrow> [])"

text \<open>Identifiers carry no NUL.\<close>

definition plainUse :: "digestUse \<Rightarrow> bool" where
  "plainUse u = (case u of Use_personal owner room _ \<Rightarrow> 0 \<notin> set owner \<and> 0 \<notin> set room
   | Use_personalKey owner room \<Rightarrow> 0 \<notin> set owner \<and> 0 \<notin> set room | _ \<Rightarrow> True)"

lemma zero_split: "x @ [0] @ y = x' @ [0] @ y' \<Longrightarrow> 0 \<notin> set x \<Longrightarrow> 0 \<notin> set x' \<Longrightarrow> x = x' \<and> y = y'" for x :: ustring
proof -
  assume eq: "x @ [0] @ y = x' @ [0] @ y'" and n: "0 \<notin> set x" "0 \<notin> set x'"
  have "takeWhile (\<lambda>c. c \<noteq> 0) (z @ [0] @ v) = z" if "0 \<notin> set z" for z v :: ustring
  proof -
    have "\<And>c. c \<in> set z \<Longrightarrow> c \<noteq> 0" using that by auto
    then show ?thesis by (simp add: takeWhile_append2)
  qed
  from this[OF n(1), of y] this[OF n(2), of y'] have "x = x'" using eq by simp
  then show ?thesis using eq by simp
qed

lemma dec_digits_inj: "dec_digits a = dec_digits b \<Longrightarrow> a = b"
  using dec_digits_props[of a] dec_digits_props[of b] by metis

lemma purposes_plain: "0 \<notin> set (js ''invite-token'')" "0 \<notin> set (js ''invite-key'')" "0 \<notin> set (js ''invite-reference'')" "0 \<notin> set (js ''operation'')"
  "0 \<notin> set (js ''personal-link'')" "0 \<notin> set (js ''personal-pointer'')" "0 \<notin> set (js ''named-email'')"
  by (simp_all add: js_def)

lemma digestInput_inj: "plainUse u \<Longrightarrow> plainUse v \<Longrightarrow> digestInput u = digestInput v \<Longrightarrow> u = v"
  by (cases u; cases v)
    (auto simp: digestInput_def plainUse_def purposes_plain simp del: append_Cons append.simps
      dest!: purpose_prefix[OF _ purposes_plain(1) purposes_plain(1)] zero_split dec_digits_inj)

lemma digestValue_input:
  assumes "createDigests hmac secret = Inr d"
  shows "digestValue d u = digestPrefix u @ hmac secret (digestInput u)"
proof -
  have "d = \<lparr>dg_token = (\<lambda>operationId. js ''inv_'' @ purposeDigest hmac secret ''invite-token'' operationId),
      dg_inviteKey = (\<lambda>inviteRef. js ''invitations.invite.'' @ purposeDigest hmac secret ''invite-key'' inviteRef),
      dg_inviteRef = (\<lambda>inviteRef. purposeDigest hmac secret ''invite-reference'' inviteRef),
      dg_operation = (\<lambda>operationId. purposeDigest hmac secret ''operation'' operationId),
      dg_personal = (\<lambda>ownerId roomId generation. js ''personal_'' @ purposeDigest hmac secret ''personal-link'' (ownerId @ [0] @ roomId @ [0] @ dec_digits generation)),
      dg_personalKey = (\<lambda>ownerId roomId. js ''invitations.personal.'' @ purposeDigest hmac secret ''personal-pointer'' (ownerId @ [0] @ roomId)),
      dg_email = (\<lambda>email. purposeDigest hmac secret ''named-email'' email)\<rparr>"
    using assms by (simp add: createDigests_def Let_def split: if_splits)
  then show ?thesis by (cases u) (simp_all add: digestValue_def digestPrefix_def digestInput_def purposeDigest_def)
qed

text \<open>Digests are separated by purpose: two uses of the service's secret whose keyed digests agree are the same use of the same
  value, or exhibit an HMAC collision. So, collisions apart, the digest in a link token is not that of an operation key, and the
  personal link of one human and channel is not that of another.\<close>

theorem digests_separate_purposes:
  assumes "createDigests hmac secret = Inr d" and "plainUse u" and "plainUse v"
    and "drop (length (digestPrefix u)) (digestValue d u) = drop (length (digestPrefix v)) (digestValue d v)"
  shows "u = v \<or> (digestInput u \<noteq> digestInput v \<and> hmac secret (digestInput u) = hmac secret (digestInput v))"
proof -
  have "hmac secret (digestInput u) = hmac secret (digestInput v)" using assms(4) by (simp add: digestValue_input[OF assms(1)])
  then show ?thesis using digestInput_inj[OF assms(2,3)] by blast
qed

section \<open>Witnesses\<close>

definition sampleDigests :: digests where
  "sampleDigests = \<lparr>dg_token = Cons 1, dg_inviteKey = Cons 2, dg_inviteRef = Cons 3, dg_operation = Cons 4,
     dg_personal = (\<lambda>owner room n. 5 # owner @ room), dg_personalKey = (\<lambda>owner room. 6 # owner @ room), dg_email = Cons 7\<rparr>"

definition sampleWho :: authPrincipal where
  "sampleWho = \<lparr>ap_ownerId = js ''own_b'', ap_providerIssuer = js ''i'', ap_providerSubject = js ''s'', ap_verifiedEmail = js ''b@x'', ap_sessionExpiresAt = js ''z''\<rparr>"

definition sampleInvite :: inviteRecord where
  "sampleInvite = \<lparr>inv_roomId = js ''r'', inv_creatorOwnerId = js ''own_a'', inv_inviteRefDigest = dg_inviteRef sampleDigests ([9]),
     inv_removalGeneration = None, inv_policy = Stored_link History_none, inv_status = Invite_active, inv_expiresAt = None,
     inv_lastAuthorizedOperationDigest = None\<rparr>"

definition sampleStore :: "unit controlStore" where
  "sampleStore = \<lparr>cs_read = (\<lambda>k. retS (if k = dg_inviteKey sampleDigests ([9]) then Read_record \<lparr>cr_key = k, cr_revision = js ''1'',
       cr_operationId = js ''o'', cr_value = encodeInvite sampleInvite, cr_expiresAt = None\<rparr> else Read_absent)),
     cs_compareAndSet = (\<lambda>i. retS (W_applied (newRecord i (js ''2'')))), cs_resolve = (\<lambda>k u. retS Res_unavailable)\<rparr>"

definition sampleChannel :: channelSummary where
  "sampleChannel = \<lparr>ch_roomId = js ''r'', ch_title = None, ch_membership = Member_joined, ch_revision = js ''v''\<rparr>"

definition sampleRuntime :: "unit admissionRuntime" where
  "sampleRuntime = \<lparr>rt_store = sampleStore, rt_identity = retS (Signed_in sampleWho), rt_canShare = (\<lambda>who room. retS Share_allowed),
     rt_inspectMembership = (\<lambda>room who h. retS Insp_absent), rt_admit = (\<lambda>q. retS (Gw_joined sampleChannel)),
     rt_lookup = (\<lambda>q. retS Look_absent), rt_clock = retS 0, rt_diagnostic = (\<lambda>_. retS ()), rt_origin = js ''https://x'',
     rt_digests = sampleDigests, rt_inviteLifetimeMs = None, rt_dateParse = (\<lambda>_. None), rt_toISOString = (\<lambda>_. None),
     rt_toLowerCase = id, rt_sha256 = id, rt_joinUrl = (\<lambda>ref base. Some (base @ js ''/join/'' @ ref))\<rparr>"

definition sampleAdmit :: admitInput where
  "sampleAdmit = \<lparr>ai_operationId = [8], ai_inviteRef = [9], ai_deviceId = js ''d''\<rparr>"

fun isAdmission :: "traceEvent \<Rightarrow> bool" where
  "isAdmission (Tr_admit _ _) = True"
| "isAdmission _ = False"

lemma isAdmission_iff: "isAdmission e \<longleftrightarrow> (\<exists>q x. e = Tr_admit q x)"
  by (cases e) auto

lemma sample_admits: "case admitInvite (traceRuntime sampleRuntime) sampleAdmit ((), []) of (r, w, t) \<Rightarrow>
    r = Inr (Op_ok \<lparr>ar_outcome = Outcome_joined, ar_room = summaryObject sampleChannel\<rparr>) \<and> list_ex isAdmission t"
  by code_simp

definition sampleTrace :: "traceEvent list" where
  "sampleTrace = snd (snd (admitInvite (traceRuntime sampleRuntime) sampleAdmit ((), [])))"

lemma sample_run: "admitInvite (traceRuntime sampleRuntime) sampleAdmit ((), [])
    = (Inr (Op_ok \<lparr>ar_outcome = Outcome_joined, ar_room = summaryObject sampleChannel\<rparr>), ((), sampleTrace))"
  using sample_admits by (simp add: sampleTrace_def prod_eq_iff split_beta)

theorem admission_reported_when_journaled_witness:
  "admissionReported sampleRuntime sampleAdmit \<lparr>ar_outcome = Outcome_joined, ar_room = summaryObject sampleChannel\<rparr> (set sampleTrace)"
  using admission_reported_when_journaled[OF sample_run] by blast

theorem admission_only_on_evidence_witness:
  "admitInvite sampleRuntime sampleAdmit () = (Inr (Op_ok \<lparr>ar_outcome = Outcome_joined, ar_room = summaryObject sampleChannel\<rparr>), ())
   \<and> (\<exists>t1 q x t2. sampleTrace = t1 @ Tr_admit q x # t2 \<and> mayAdmit sampleRuntime sampleAdmit q (set t1))"
proof -
  note e = admission_only_on_evidence[OF sample_run]
  have "list_ex isAdmission sampleTrace" using sample_admits by (simp add: sampleTrace_def split_beta)
  then obtain q x where "Tr_admit q x \<in> set sampleTrace" by (auto simp: list_ex_iff isAdmission_iff)
  then obtain t1 t2 where "sampleTrace = t1 @ Tr_admit q x # t2" by (auto simp: in_set_conv_decomp)
  then show ?thesis using e by blast
qed

theorem grants_authorized_witness:
  "\<exists>g t. shareResult sampleRuntime \<lparr>si_operationId = [8], si_roomId = js ''r'', si_policy = None\<rparr> None (Op_ok g) (set t)"
proof -
  let ?i = "\<lparr>si_operationId = [8], si_roomId = js ''r'', si_policy = None\<rparr>"
  have f: "case fst (shareInvite (traceRuntime sampleRuntime) ?i None ((), [])) of Inr (Op_ok _) \<Rightarrow> True | _ \<Rightarrow> False" by code_simp
  obtain r w t where rt: "shareInvite (traceRuntime sampleRuntime) ?i None ((), []) = (r, (w, t))" by (metis prod.exhaust)
  then obtain g where "r = Inr (Op_ok g)" using f by (auto split: sum.splits operationResult.splits)
  then show ?thesis using rt grants_authorized[of sampleRuntime ?i None "()"] by blast
qed

definition weakHmac :: "nat list \<Rightarrow> ustring \<Rightarrow> ustring" where
  "weakHmac secret s = [of_nat (length s)]"

theorem digests_separate_purposes_witness:
  "digestInput (Use_token [1]) \<noteq> digestInput (Use_operation [1, 2, 3, 4])
   \<and> weakHmac (replicate 32 7) (digestInput (Use_token [1])) = weakHmac (replicate 32 7) (digestInput (Use_operation [1, 2, 3, 4]))"
proof -
  have "createDigests weakHmac (replicate 32 7) \<noteq> Inl e" for e by (simp add: createDigests_def Let_def)
  then obtain d where d: "createDigests weakHmac (replicate 32 7) = Inr d" by (metis sumE)
  have "drop (length (digestPrefix (Use_token [1]))) (digestValue d (Use_token [1]))
      = drop (length (digestPrefix (Use_operation [1, 2, 3, 4]))) (digestValue d (Use_operation [1, 2, 3, 4]))"
    by (simp add: digestValue_input[OF d] weakHmac_def digestInput_def)
  from digests_separate_purposes[OF d _ _ this] show ?thesis by (simp add: plainUse_def)
qed

end
