(* ===== verification/ChannelClient.thy ===== *)
theory ChannelClient
  imports Channels Effects
begin

text \<open>
  Channel commands of the messaging client (\<^verbatim>\<open>packages/messaging/src/channels/\<close>: \<^verbatim>\<open>context.ts\<close>, \<^verbatim>\<open>substrate.ts\<close>,
  \<^verbatim>\<open>journal.ts\<close>, \<^verbatim>\<open>create.ts\<close>, \<^verbatim>\<open>send.ts\<close>, \<^verbatim>\<open>intro.ts\<close>). The messaging SDK (\<open>substrate\<close>), the device, the clock, the
  journal and the observers are operations on a world \<open>'w\<close>; what other tabs do while a command waits is part of how
  a port changes the world. A rejected promise of a port that the code does not catch is the thrown value of the command.
  The process-memory journal is \<open>createMemoryChannelJournal\<close>, over the place its closure has in the world.
\<close>

type_synonym ('w, 'a) command = "('w, jsval, 'a) eff"

section \<open>The journal\<close>

datatype createProgress = Create_attempting | Create_unknown | Create_not_applied | Create_created

record createRecord =
  jc_ownerId :: ustring
  jc_title :: "ustring option"
  jc_state :: createProgress
  jc_leaseUntilMs :: "int option"
  jc_room :: "channelSummary option"

record sendItem =
  it_clientTxnId :: ustring
  it_content :: messageContent
  it_contentDigest :: ustring
  it_state :: sendProgress
  it_eventRef :: "eventRef option"

record sendAuthor =
  sa_ownerId :: ustring
  sa_participantId :: ustring
  sa_deviceId :: ustring

record sendRecord =
  js_roomId :: ustring
  js_author :: sendAuthor
  js_item :: sendItem

record introRecord =
  ji_roomId :: ustring
  ji_author :: sendAuthor
  ji_items :: "sendItem list"

datatype journalRecord = Create_record createRecord | Send_record sendRecord | Intro_record introRecord

datatype journalReading = Jr_absent | Jr_record journalRecord ustring | Jr_unavailable

datatype journalClaiming = Jc_claimed ustring | Jc_exists journalRecord ustring | Jc_unavailable

datatype journalWriting = Jw_stored ustring | Jw_conflict | Jw_no_answer

record 'w channelJournal =
  cj_read :: "ustring \<Rightarrow> ('w, journalReading) command"
  cj_claim :: "ustring \<Rightarrow> journalRecord \<Rightarrow> ('w, journalClaiming) command"
  cj_replace :: "ustring \<Rightarrow> ustring \<Rightarrow> journalRecord \<Rightarrow> ('w, journalWriting) command"

definition createKey :: "ustring \<Rightarrow> ustring" where
  "createKey operationId = js ''room.create:'' @ operationId"

definition introKey :: "ustring \<Rightarrow> ustring" where
  "introKey batchId = js ''room.intro:'' @ batchId"

definition sendKey :: "ustring \<Rightarrow> ustring" where
  "sendKey clientTxnId = js ''room.send:'' @ clientTxnId"

record memoryJournal =
  mj_records :: "ustring \<rightharpoonup> journalRecord \<times> ustring"
  mj_sequence :: nat

definition memoryStore :: "ustring \<Rightarrow> journalRecord \<Rightarrow> memoryJournal \<Rightarrow> memoryJournal" where
  "memoryStore key value m =
     (let revision = dec_digits (Suc (mj_sequence m)) in
      \<lparr>mj_records = (mj_records m)(key \<mapsto> (value, revision)), mj_sequence = Suc (mj_sequence m)\<rparr>)"

text \<open>The operations of the process-memory journal on its own state.\<close>

definition memoryRead :: "ustring \<Rightarrow> memoryJournal \<Rightarrow> journalReading" where
  "memoryRead key m = (case mj_records m key of None \<Rightarrow> Jr_absent | Some (v, r) \<Rightarrow> Jr_record v r)"

definition memoryClaim :: "ustring \<Rightarrow> journalRecord \<Rightarrow> memoryJournal \<Rightarrow> journalClaiming \<times> memoryJournal" where
  "memoryClaim key value m = (case mj_records m key of
     Some (v, r) \<Rightarrow> (Jc_exists v r, m)
   | None \<Rightarrow> (Jc_claimed (dec_digits (Suc (mj_sequence m))), memoryStore key value m))"

definition memoryReplace :: "ustring \<Rightarrow> ustring \<Rightarrow> journalRecord \<Rightarrow> memoryJournal \<Rightarrow> journalWriting \<times> memoryJournal" where
  "memoryReplace key expectedRevision value m =
     (if map_option snd (mj_records m key) \<noteq> Some expectedRevision then (Jw_conflict, m)
      else (Jw_stored (dec_digits (Suc (mj_sequence m))), memoryStore key value m))"

definition createMemoryChannelJournal :: "('w \<Rightarrow> memoryJournal) \<Rightarrow> (memoryJournal \<Rightarrow> 'w \<Rightarrow> 'w) \<Rightarrow> 'w channelJournal" where
  "createMemoryChannelJournal get put =
     \<lparr>cj_read = (\<lambda>key w. (Inr (memoryRead key (get w)), w)),
      cj_claim = (\<lambda>key value w. let (r, m) = memoryClaim key value (get w) in (Inr r, put m w)),
      cj_replace = (\<lambda>key expected value w. let (r, m) = memoryReplace key expected value (get w) in (Inr r, put m w))\<rparr>"

section \<open>The ports and the context\<close>

datatype channelRejection = Chan_forbidden | Chan_not_found | Chan_not_joined | Chan_too_large | Chan_invalid_request
  | Chan_operation_mismatch

datatype 'a substrateEffect = Eff_done 'a | Eff_rejected channelRejection | Eff_unavailable | Eff_unknown

datatype 'a substrateRead = Sub_done 'a | Sub_rejected channelRejection | Sub_unavailable

datatype createLookup = Created_found channelSummary | Created_absent | Created_unknown | Created_unavailable

record acceptedEvent =
  ac_eventId :: ustring
  ac_authorDeviceId :: ustring

record 'w channelContext =
  cx_principal :: authPrincipal
  cx_actor :: participantView
  cx_device :: "'w \<Rightarrow> deviceView"
  cx_createRoom :: "ustring \<Rightarrow> ustring option \<Rightarrow> ('w, channelSummary substrateEffect) command"
  cx_findCreatedRoom :: "ustring \<Rightarrow> ('w, createLookup) command"
  cx_room :: "ustring \<Rightarrow> ('w, channelSummary substrateRead) command"
  cx_sendEvent :: "ustring \<Rightarrow> ustring \<Rightarrow> messageContent \<Rightarrow> ('w, acceptedEvent substrateEffect) command"
  cx_journal :: "'w channelJournal"
  cx_limits :: contentLimits
  cx_platform :: platform
  cx_newId :: "('w, ustring) command"
  cx_clock :: "'w \<Rightarrow> int"
  cx_stopped :: "'w \<Rightarrow> bool"
  cx_echo :: "ustring \<Rightarrow> sendItem \<Rightarrow> nat \<Rightarrow> 'w \<Rightarrow> 'w"

text \<open>A refusal is an operation result without a value.\<close>

datatype refusal = Refuse_rejected channelRejection | Refuse_unavailable

definition refuse :: "refusal \<Rightarrow> ('a, channelRejection) operationResult" where
  "refuse r = (case r of Refuse_rejected c \<Rightarrow> Op_rejected c | Refuse_unavailable \<Rightarrow> Op_unavailable)"

text \<open>The abort signal of a call's options, where it has one.\<close>

type_synonym 'w callSignal = "('w \<Rightarrow> bool) option"

definition deviceGate :: "'w channelContext \<Rightarrow> 'w callSignal \<Rightarrow> 'w \<Rightarrow> refusal + ustring" where
  "deviceGate ctx signal w =
     (if cx_stopped ctx w \<or> (case signal of None \<Rightarrow> False | Some aborted \<Rightarrow> aborted w) then Inl Refuse_unavailable
      else let view = cx_device ctx w in
        if dv_state view = Dev_revoked \<or> dv_state view = Dev_lost then Inl (Refuse_rejected Chan_forbidden)
        else if dv_state view \<noteq> Dev_ready then Inl Refuse_unavailable
        else (case dv_deviceId view of None \<Rightarrow> Inl Refuse_unavailable | Some d \<Rightarrow> Inr d))"

definition authorOf :: "'w channelContext \<Rightarrow> ustring \<Rightarrow> sendAuthor" where
  "authorOf ctx deviceId = \<lparr>sa_ownerId = pv_ownerId (cx_actor ctx), sa_participantId = pv_participantId (cx_actor ctx),
     sa_deviceId = deviceId\<rparr>"

definition sameAuthor :: "sendAuthor \<Rightarrow> sendAuthor \<Rightarrow> bool" where
  "sameAuthor a b \<longleftrightarrow> sa_ownerId a = sa_ownerId b \<and> sa_participantId a = sa_participantId b \<and> sa_deviceId a = sa_deviceId b"

definition isIdentifier :: "ustring \<Rightarrow> bool" where
  "isIdentifier value = (case identifierField (JStr value) [] of Inr _ \<Rightarrow> True | Inl _ \<Rightarrow> False)"

definition digestContent :: "'w channelContext \<Rightarrow> jsval \<Rightarrow> refusal + messageContent \<times> ustring" where
  "digestContent ctx content = (case decodeMessageContent (cx_platform ctx) content (cx_limits ctx) of
     Inl (DecodeFailure _ c) \<Rightarrow> Inl (Refuse_rejected (if c = Too_long then Chan_too_large else Chan_invalid_request))
   | Inr m \<Rightarrow> (case digestMessageContent (cx_platform ctx) m of
        Inl Crypto_unavailable \<Rightarrow> Inl Refuse_unavailable
      | Inl Invalid_content \<Rightarrow> Inl (Refuse_rejected Chan_invalid_request)
      | Inr digest \<Rightarrow> Inr (m, digest)))"

definition safeEffect :: "('w, 'a substrateEffect) command \<Rightarrow> ('w, 'a substrateEffect) command" where
  "safeEffect run = catchS run (\<lambda>error. retS Eff_unknown)"

definition safeSubstrateRead :: "('w, 'a substrateRead) command \<Rightarrow> ('w, 'a substrateRead) command" where
  "safeSubstrateRead run = catchS run (\<lambda>error. retS Sub_unavailable)"

definition membershipGate :: "'w channelContext \<Rightarrow> ustring \<Rightarrow> ('w, refusal + channelSummary) command" where
  "membershipGate ctx roomId = bindS (safeSubstrateRead (cx_room ctx roomId)) (\<lambda>room. retS (case room of
     Sub_unavailable \<Rightarrow> Inl Refuse_unavailable
   | Sub_rejected c \<Rightarrow> Inl (Refuse_rejected c)
   | Sub_done summary \<Rightarrow>
       if ch_membership summary = Member_revoked then Inl (Refuse_rejected Chan_forbidden)
       else if ch_membership summary \<noteq> Member_joined then Inl (Refuse_rejected Chan_not_joined)
       else Inr summary))"

section \<open>Creating a channel\<close>

definition CREATE_LEASE_MS :: int where
  "CREATE_LEASE_MS = 120000"

text \<open>\<open>None\<close> is \<open>absent\<close>: the earlier attempt provably created nothing.\<close>

definition reconcile :: "'w channelContext \<Rightarrow> ustring \<Rightarrow> createRecord \<Rightarrow> ustring
    \<Rightarrow> ('w, (channelSummary, channelRejection) operationResult option) command" where
  "reconcile ctx operationId found revision =
     tryS (cx_findCreatedRoom ctx operationId)
       (\<lambda>lookup. case lookup of
          Created_found room \<Rightarrow>
            bindS (cj_replace (cx_journal ctx) (createKey operationId) revision
                (Create_record (found\<lparr>jc_state := Create_created, jc_leaseUntilMs := None, jc_room := Some room\<rparr>)))
              (\<lambda>_. retS (Some (Op_ok room)))
        | Created_absent \<Rightarrow> retS None
        | Created_unknown \<Rightarrow> retS (Some (Op_outcome_unknown operationId))
        | Created_unavailable \<Rightarrow> retS (Some (Op_outcome_unknown operationId)))
       (\<lambda>error. retS (Some (Op_outcome_unknown operationId)))"

text \<open>The intent that a call writes before the effect, and the record that ends it.\<close>

definition createAttempt :: "'w channelContext \<Rightarrow> ustring option \<Rightarrow> 'w \<Rightarrow> journalRecord" where
  "createAttempt ctx title w = Create_record \<lparr>jc_ownerId = ap_ownerId (cx_principal ctx), jc_title = title,
     jc_state = Create_attempting, jc_leaseUntilMs = Some (cx_clock ctx w + CREATE_LEASE_MS), jc_room = None\<rparr>"

definition createEnd :: "'w channelContext \<Rightarrow> ustring option \<Rightarrow> createProgress \<Rightarrow> channelSummary option \<Rightarrow> journalRecord" where
  "createEnd ctx title st room = Create_record \<lparr>jc_ownerId = ap_ownerId (cx_principal ctx), jc_title = title,
     jc_state = st, jc_leaseUntilMs = None, jc_room = room\<rparr>"

definition performCreate :: "'w channelContext \<Rightarrow> ustring \<Rightarrow> ustring option \<Rightarrow> ustring
    \<Rightarrow> ('w, (channelSummary, channelRejection) operationResult) command" where
  "performCreate ctx operationId title revision =
     bindS (safeEffect (cx_createRoom ctx operationId title)) (\<lambda>result.
     let finish = (\<lambda>st room. cj_replace (cx_journal ctx) (createKey operationId) revision (createEnd ctx title st room)) in
     case result of
       Eff_done room \<Rightarrow> bindS (finish Create_created (Some room)) (\<lambda>_. retS (Op_ok room))
     | Eff_rejected c \<Rightarrow> bindS (finish Create_not_applied None) (\<lambda>_. retS (Op_rejected c))
     | Eff_unavailable \<Rightarrow> bindS (finish Create_not_applied None) (\<lambda>_. retS Op_unavailable)
     | Eff_unknown \<Rightarrow> bindS (finish Create_unknown None) (\<lambda>_. retS (Op_outcome_unknown operationId)))"

definition takeLease :: "'w channelContext \<Rightarrow> ustring \<Rightarrow> ustring option \<Rightarrow> ustring
    \<Rightarrow> ('w, (channelSummary, channelRejection) operationResult) command" where
  "takeLease ctx operationId title revision =
     bindS (readS (createAttempt ctx title)) (\<lambda>attempt.
     bindS (cj_replace (cx_journal ctx) (createKey operationId) revision attempt) (\<lambda>taken. case taken of
       Jw_no_answer \<Rightarrow> retS Op_unavailable
     | Jw_conflict \<Rightarrow> retS (Op_outcome_unknown operationId)
     | Jw_stored renewed \<Rightarrow> performCreate ctx operationId title renewed))"

definition resumeCreate :: "'w channelContext \<Rightarrow> ustring \<Rightarrow> ustring option \<Rightarrow> journalRecord \<Rightarrow> ustring
    \<Rightarrow> ('w, (channelSummary, channelRejection) operationResult) command" where
  "resumeCreate ctx operationId title value revision = (case value of
     Create_record found \<Rightarrow>
       if jc_ownerId found \<noteq> ap_ownerId (cx_principal ctx) \<or> jc_title found \<noteq> title then retS (Op_rejected Chan_operation_mismatch)
       else if jc_state found = Create_created \<and> jc_room found \<noteq> None then retS (Op_ok (the (jc_room found)))
       else bindS (readS (\<lambda>w. jc_state found = Create_attempting
                \<and> (case jc_leaseUntilMs found of None \<Rightarrow> False | Some until \<Rightarrow> cx_clock ctx w < until))) (\<lambda>outstanding.
         if outstanding then retS (Op_outcome_unknown operationId)
         else if jc_state found \<noteq> Create_not_applied
         then bindS (reconcile ctx operationId found revision) (\<lambda>resolved. case resolved of
             Some r \<Rightarrow> retS r
           | None \<Rightarrow> takeLease ctx operationId title revision)
         else takeLease ctx operationId title revision)
   | _ \<Rightarrow> retS (Op_rejected Chan_operation_mismatch))"

definition decodeTitle :: "'w channelContext \<Rightarrow> ustring option \<Rightarrow> ustring option decoded" where
  "decodeTitle ctx title =
     nullable (jnullable JStr title) (\<lambda>value. displayText value (js ''title'') (Fin (of_nat (maxRoomTitleBytes (cx_limits ctx)))))"

definition createChannel :: "'w channelContext \<Rightarrow> 'w callSignal \<Rightarrow> ustring \<Rightarrow> ustring option
    \<Rightarrow> ('w, (channelSummary, channelRejection) operationResult) command" where
  "createChannel ctx signal operationId inputTitle =
     (if pv_kind (cx_actor ctx) \<noteq> Human \<or> pv_ownerId (cx_actor ctx) \<noteq> ap_ownerId (cx_principal ctx)
      then retS (Op_rejected Chan_forbidden)
      else if \<not> isIdentifier operationId then retS (Op_rejected Chan_invalid_request)
      else case decodeTitle ctx inputTitle of
        Inl (DecodeFailure _ c) \<Rightarrow> retS (Op_rejected (if c = Too_long then Chan_too_large else Chan_invalid_request))
      | Inr decoded \<Rightarrow>
        (let title = (if decoded = Some [] then None else decoded) in
         bindS (readS (deviceGate ctx signal)) (\<lambda>gate. case gate of
           Inl r \<Rightarrow> retS (refuse r)
         | Inr _ \<Rightarrow>
             bindS (readS (createAttempt ctx title)) (\<lambda>attempt.
             bindS (cj_claim (cx_journal ctx) (createKey operationId) attempt) (\<lambda>claim. case claim of
               Jc_unavailable \<Rightarrow> retS Op_unavailable
             | Jc_exists value revision \<Rightarrow> resumeCreate ctx operationId title value revision
             | Jc_claimed revision \<Rightarrow> performCreate ctx operationId title revision)))))"

section \<open>Sending a message\<close>

definition toSendState :: "sendItem \<Rightarrow> sendState" where
  "toSendState item = \<lparr>ss_clientTxnId = it_clientTxnId item, ss_state = it_state item, ss_eventRef = it_eventRef item\<rparr>"

text \<open>The new state of an item after the transport answered, and the refusal of the transport.\<close>

definition sentItem :: "'w channelContext \<Rightarrow> ustring \<Rightarrow> sendItem \<Rightarrow> acceptedEvent substrateEffect
    \<Rightarrow> sendItem \<times> channelRejection option" where
  "sentItem ctx roomId item result = (case result of
     Eff_done accepted \<Rightarrow>
       (item\<lparr>it_state := Send_accepted, it_eventRef := Some
          \<lparr>ev_roomId = roomId, ev_eventId = ac_eventId accepted, ev_authorParticipantId = pv_participantId (cx_actor ctx),
           ev_authorDeviceId = ac_authorDeviceId accepted, ev_contentDigest = it_contentDigest item\<rparr>\<rparr>, None)
   | Eff_rejected c \<Rightarrow> (item\<lparr>it_state := Send_failed, it_eventRef := None\<rparr>, Some c)
   | Eff_unavailable \<Rightarrow> (item\<lparr>it_state := Send_failed, it_eventRef := None\<rparr>, None)
   | Eff_unknown \<Rightarrow> (item\<lparr>it_state := Send_outcome_unknown, it_eventRef := None\<rparr>, None))"

definition transmit :: "'w channelContext \<Rightarrow> ustring \<Rightarrow> sendItem \<Rightarrow> ('w, sendItem \<times> channelRejection option) command" where
  "transmit ctx roomId item =
     bindS (readS (\<lambda>w. dv_generation (cx_device ctx w))) (\<lambda>generation.
     bindS (updateS (cx_echo ctx roomId (item\<lparr>it_state := Send_pending, it_eventRef := None\<rparr>) generation)) (\<lambda>_.
     bindS (safeEffect (cx_sendEvent ctx roomId (it_clientTxnId item) (it_content item))) (\<lambda>result.
     bindS (updateS (cx_echo ctx roomId (fst (sentItem ctx roomId item result)) generation)) (\<lambda>_.
     retS (sentItem ctx roomId item result)))))"

definition sendIntent :: "'w channelContext \<Rightarrow> ustring \<Rightarrow> ustring \<Rightarrow> ustring \<Rightarrow> messageContent \<Rightarrow> ustring \<Rightarrow> sendRecord" where
  "sendIntent ctx roomId clientTxnId deviceId content digest =
     \<lparr>js_roomId = roomId, js_author = authorOf ctx deviceId,
      js_item = \<lparr>it_clientTxnId = clientTxnId, it_content = content, it_contentDigest = digest, it_state = Send_pending,
                 it_eventRef = None\<rparr>\<rparr>"

definition deliverSend :: "'w channelContext \<Rightarrow> ustring \<Rightarrow> ustring \<Rightarrow> sendRecord \<Rightarrow> ustring
    \<Rightarrow> ('w, (sendState, channelRejection) operationResult) command" where
  "deliverSend ctx roomId clientTxnId rec revision =
     bindS (membershipGate ctx roomId) (\<lambda>room. case room of
       Inl r \<Rightarrow> retS (refuse r)
     | Inr _ \<Rightarrow>
         bindS (transmit ctx roomId (js_item rec)) (\<lambda>(item, rejection).
         bindS (cj_replace (cx_journal ctx) (sendKey clientTxnId) revision (Send_record (rec\<lparr>js_item := item\<rparr>))) (\<lambda>_.
         retS (case rejection of
            Some c \<Rightarrow> Op_rejected c
          | None \<Rightarrow> (case it_state item of
               Send_accepted \<Rightarrow> Op_ok (toSendState item)
             | Send_outcome_unknown \<Rightarrow> Op_outcome_unknown clientTxnId
             | _ \<Rightarrow> Op_unavailable)))))"

definition resumeSend :: "'w channelContext \<Rightarrow> ustring \<Rightarrow> ustring \<Rightarrow> sendRecord \<Rightarrow> journalRecord \<Rightarrow> ustring
    \<Rightarrow> ('w, (sendState, channelRejection) operationResult) command" where
  "resumeSend ctx roomId clientTxnId intent value revision = (case value of
     Send_record found \<Rightarrow>
       if js_roomId found \<noteq> roomId \<or> it_contentDigest (js_item found) \<noteq> it_contentDigest (js_item intent)
         \<or> sa_participantId (js_author found) \<noteq> sa_participantId (js_author intent)
         \<or> sa_ownerId (js_author found) \<noteq> sa_ownerId (js_author intent)
       then retS (Op_rejected Chan_operation_mismatch)
       else if it_state (js_item found) = Send_accepted then retS (Op_ok (toSendState (js_item found)))
       else if \<not> sameAuthor (js_author found) (js_author intent) then retS (Op_rejected Chan_forbidden)
       else deliverSend ctx roomId clientTxnId found revision
   | _ \<Rightarrow> retS (Op_rejected Chan_operation_mismatch))"

definition sendMessage :: "'w channelContext \<Rightarrow> 'w callSignal \<Rightarrow> ustring \<Rightarrow> ustring \<Rightarrow> jsval
    \<Rightarrow> ('w, (sendState, channelRejection) operationResult) command" where
  "sendMessage ctx signal roomId clientTxnId content =
     (if \<not> isIdentifier clientTxnId \<or> \<not> isIdentifier roomId then retS (Op_rejected Chan_invalid_request)
      else case digestContent ctx content of
        Inl r \<Rightarrow> retS (refuse r)
      | Inr (m, digest) \<Rightarrow>
        bindS (readS (deviceGate ctx signal)) (\<lambda>gate. case gate of
          Inl r \<Rightarrow> retS (refuse r)
        | Inr deviceId \<Rightarrow>
            (let intent = sendIntent ctx roomId clientTxnId deviceId m digest in
             bindS (cj_claim (cx_journal ctx) (sendKey clientTxnId) (Send_record intent)) (\<lambda>claim. case claim of
               Jc_unavailable \<Rightarrow> retS Op_unavailable
             | Jc_exists value revision \<Rightarrow> resumeSend ctx roomId clientTxnId intent value revision
             | Jc_claimed revision \<Rightarrow> deliverSend ctx roomId clientTxnId intent revision))))"

section \<open>Intro batches\<close>

text \<open>The loop over the items: \<open>done\<close> are those already passed, in order.\<close>

primrec introLoop :: "'w channelContext \<Rightarrow> ustring \<Rightarrow> introRecord \<Rightarrow> ustring \<Rightarrow> sendItem list \<Rightarrow> sendItem list
    \<Rightarrow> ('w, (sendState list, channelRejection) operationResult) command" where
  "introLoop ctx batchId rec current passed [] = retS (Op_ok (map toSendState passed))"
| "introLoop ctx batchId rec current passed (item # rest) =
     (if it_state item = Send_accepted then introLoop ctx batchId rec current (passed @ [item]) rest
      else bindS (transmit ctx (ji_roomId rec) item) (\<lambda>(sent, rejection).
        bindS (cj_replace (cx_journal ctx) (introKey batchId) current (Intro_record (rec\<lparr>ji_items := passed @ sent # rest\<rparr>)))
          (\<lambda>stored. case rejection of
             Some c \<Rightarrow> retS (Op_rejected c)
           | None \<Rightarrow> (case stored of
               Jw_stored renewed \<Rightarrow>
                 if it_state sent = Send_accepted then introLoop ctx batchId rec renewed (passed @ [sent]) rest
                 else retS (Op_ok (map toSendState (passed @ sent # rest)))
             | _ \<Rightarrow> retS (Op_ok (map toSendState (passed @ sent # rest)))))))"

definition runIntro :: "'w channelContext \<Rightarrow> ustring \<Rightarrow> introRecord \<Rightarrow> ustring
    \<Rightarrow> ('w, (sendState list, channelRejection) operationResult) command" where
  "runIntro ctx batchId rec revision =
     bindS (membershipGate ctx (ji_roomId rec)) (\<lambda>room. case room of
       Inl r \<Rightarrow> retS (refuse r)
     | Inr _ \<Rightarrow> introLoop ctx batchId rec revision [] (ji_items rec))"

definition resumeRecord :: "'w channelContext \<Rightarrow> 'w callSignal \<Rightarrow> ustring \<Rightarrow> introRecord \<Rightarrow> ustring
    \<Rightarrow> ('w, (sendState list, channelRejection) operationResult) command" where
  "resumeRecord ctx signal batchId rec revision =
     (if list_all (\<lambda>item. it_state item = Send_accepted) (ji_items rec) then retS (Op_ok (map toSendState (ji_items rec)))
      else bindS (readS (deviceGate ctx signal)) (\<lambda>gate. case gate of
        Inl r \<Rightarrow> retS (refuse r)
      | Inr deviceId \<Rightarrow>
          if \<not> sameAuthor (ji_author rec) (authorOf ctx deviceId) then retS (Op_rejected Chan_forbidden)
          else runIntro ctx batchId rec revision))"

text \<open>The selection digested in order, each message under a fresh transaction identifier.\<close>

primrec introItems :: "'w channelContext \<Rightarrow> jsval list \<Rightarrow> ('w, refusal + sendItem list) command" where
  "introItems ctx [] = retS (Inr [])"
| "introItems ctx (m # ms) = (case digestContent ctx m of
     Inl r \<Rightarrow> retS (Inl r)
   | Inr (content, digest) \<Rightarrow>
       bindS (cx_newId ctx) (\<lambda>txn.
       bindS (introItems ctx ms) (\<lambda>rest. retS (case rest of
         Inl r \<Rightarrow> Inl r
       | Inr items \<Rightarrow> Inr (\<lparr>it_clientTxnId = txn, it_content = content, it_contentDigest = digest, it_state = Send_pending,
                            it_eventRef = None\<rparr> # items)))))"

definition prepareIntro :: "'w channelContext \<Rightarrow> 'w callSignal \<Rightarrow> ustring \<Rightarrow> ustring \<Rightarrow> jsval list
    \<Rightarrow> ('w, (sendState list, channelRejection) operationResult) command" where
  "prepareIntro ctx signal roomId batchId messages =
     (if \<not> isIdentifier batchId \<or> \<not> isIdentifier roomId \<or> messages = [] then retS (Op_rejected Chan_invalid_request)
      else bindS (introItems ctx messages) (\<lambda>prepared. case prepared of
        Inl r \<Rightarrow> retS (refuse r)
      | Inr items \<Rightarrow>
        bindS (readS (deviceGate ctx signal)) (\<lambda>gate. case gate of
          Inl r \<Rightarrow> retS (refuse r)
        | Inr deviceId \<Rightarrow>
            if \<not> distinct (map it_clientTxnId items) \<or> \<not> list_all (\<lambda>item. isIdentifier (it_clientTxnId item)) items
            then retS Op_unavailable
            else (let intent = \<lparr>ji_roomId = roomId, ji_author = authorOf ctx deviceId, ji_items = items\<rparr> in
              bindS (cj_claim (cx_journal ctx) (introKey batchId) (Intro_record intent)) (\<lambda>claim. case claim of
                Jc_unavailable \<Rightarrow> retS Op_unavailable
              | Jc_claimed revision \<Rightarrow> runIntro ctx batchId intent revision
              | Jc_exists value revision \<Rightarrow> (case value of
                  Intro_record found \<Rightarrow>
                    if ji_roomId found \<noteq> roomId \<or> map it_contentDigest (ji_items found) \<noteq> map it_contentDigest items
                    then retS (Op_rejected Chan_operation_mismatch)
                    else resumeRecord ctx signal batchId found revision
                | _ \<Rightarrow> retS (Op_rejected Chan_operation_mismatch)))))))"

definition resumeIntro :: "'w channelContext \<Rightarrow> 'w callSignal \<Rightarrow> ustring
    \<Rightarrow> ('w, (sendState list, channelRejection) operationResult) command" where
  "resumeIntro ctx signal batchId =
     (if \<not> isIdentifier batchId then retS (Op_rejected Chan_invalid_request)
      else bindS (cj_read (cx_journal ctx) (introKey batchId)) (\<lambda>reading. case reading of
        Jr_unavailable \<Rightarrow> retS Op_unavailable
      | Jr_record (Intro_record found) revision \<Rightarrow> resumeRecord ctx signal batchId found revision
      | _ \<Rightarrow> retS (Op_rejected Chan_not_found)))"

end
