(* ===== verification/ChannelClientProperties.thy ===== *)
theory ChannelClientProperties
  imports ChannelClient
begin

text \<open>
  What the journal of the channel client buys: however commands of any number of tabs follow each other, and whatever
  answers get lost, an operation identifier creates at most one channel, and a client transaction identifier names one
  message. The locale \<open>channel_journal\<close> states what a journal promises, writes that may be lost included; its
  client lemmas follow the commands through it, and it is interpreted on the process-memory journal. The messaging
  SDK is a parameter: \<open>honestProvider\<close> is the documentation of \<^verbatim>\<open>substrate.ts\<close> as a predicate, over a log of
  the channels it created and the events it was handed.
\<close>

lemma triple_pure: "(\<And>s. P s \<Longrightarrow> b) \<Longrightarrow> (b \<Longrightarrow> triple P m Q E) \<Longrightarrow> triple P m Q E"
  by (auto simp: triple_def)

section \<open>The provider's side\<close>

record sentEvent =
  se_roomId :: ustring
  se_clientTxnId :: ustring
  se_content :: messageContent
  se_accepted :: bool

record providerLog =
  pl_created :: "ustring \<Rightarrow> channelSummary list"
  pl_sent :: "sentEvent list"

definition addCreated :: "ustring \<Rightarrow> channelSummary \<Rightarrow> providerLog \<Rightarrow> providerLog" where
  "addCreated op room l = l\<lparr>pl_created := (pl_created l)(op := pl_created l op @ [room])\<rparr>"

definition addSent :: "sentEvent \<Rightarrow> providerLog \<Rightarrow> providerLog" where
  "addSent e l = l\<lparr>pl_sent := pl_sent l @ [e]\<rparr>"

lemma log_updates [simp]:
  "pl_created (addCreated op room l) = (pl_created l)(op := pl_created l op @ [room])"
  "pl_sent (addCreated op room l) = pl_sent l"
  "pl_created (addSent e l) = pl_created l"
  "pl_sent (addSent e l) = pl_sent l @ [e]"
  by (simp_all add: addCreated_def addSent_def)

text \<open>What a call of \<open>createRoom\<close> may have done, by its answer: done means created, a refusal or \<open>unavailable\<close> that
  nothing was done, and otherwise the effect may have landed.\<close>

definition createdBy :: "ustring \<Rightarrow> jsval + channelSummary substrateEffect \<Rightarrow> providerLog \<Rightarrow> providerLog \<Rightarrow> bool" where
  "createdBy op answer l l' = (case answer of
     Inr (Eff_done room) \<Rightarrow> l' = addCreated op room l
   | Inr (Eff_rejected _) \<Rightarrow> l' = l
   | Inr Eff_unavailable \<Rightarrow> l' = l
   | _ \<Rightarrow> l' = l \<or> (\<exists>room. l' = addCreated op room l))"

definition accepted :: "jsval + acceptedEvent substrateEffect \<Rightarrow> bool" where
  "accepted answer = (case answer of Inr (Eff_done _) \<Rightarrow> True | _ \<Rightarrow> False)"

text \<open>Nothing of the journal or the log changes.\<close>

definition keepsAll :: "('w \<Rightarrow> 'j) \<Rightarrow> ('w \<Rightarrow> 'l) \<Rightarrow> ('w, 'a) command \<Rightarrow> bool" where
  "keepsAll stored plog m \<longleftrightarrow> (\<forall>w r w'. m w = (r, w') \<longrightarrow> stored w' = stored w \<and> plog w' = plog w)"

definition honestProvider :: "('w \<Rightarrow> (ustring \<rightharpoonup> journalRecord \<times> ustring)) \<Rightarrow> ('w \<Rightarrow> providerLog) \<Rightarrow> 'w channelContext \<Rightarrow> bool" where
  "honestProvider stored plog ctx \<longleftrightarrow>
     (\<forall>op title w r w'. cx_createRoom ctx op title w = (r, w') \<longrightarrow> stored w' = stored w \<and> createdBy op r (plog w) (plog w'))
   \<and> (\<forall>op. keepsAll stored plog (cx_findCreatedRoom ctx op))
   \<and> (\<forall>op w w' room. cx_findCreatedRoom ctx op w = (Inr (Created_found room), w') \<longrightarrow> room \<in> set (pl_created (plog w) op))
   \<and> (\<forall>op w w'. cx_findCreatedRoom ctx op w = (Inr Created_absent, w') \<longrightarrow> pl_created (plog w) op = [])
   \<and> (\<forall>room. keepsAll stored plog (cx_room ctx room))
   \<and> (\<forall>room txn c w r w'. cx_sendEvent ctx room txn c w = (r, w') \<longrightarrow> stored w' = stored w
        \<and> plog w' = addSent \<lparr>se_roomId = room, se_clientTxnId = txn, se_content = c, se_accepted = accepted r\<rparr> (plog w))
   \<and> keepsAll stored plog (cx_newId ctx)
   \<and> (\<forall>room item g. keepsAll stored plog (updateS (cx_echo ctx room item g)))"

lemma honestProviderD:
  assumes "honestProvider stored plog ctx"
  shows "cx_createRoom ctx op title w = (r, w') \<Longrightarrow> stored w' = stored w \<and> createdBy op r (plog w) (plog w')"
    and "keepsAll stored plog (cx_findCreatedRoom ctx op)"
    and "cx_findCreatedRoom ctx op w = (Inr (Created_found room), w') \<Longrightarrow> room \<in> set (pl_created (plog w) op)"
    and "cx_findCreatedRoom ctx op w = (Inr Created_absent, w') \<Longrightarrow> pl_created (plog w) op = []"
    and "keepsAll stored plog (cx_room ctx roomId)"
    and "cx_sendEvent ctx roomId txn c w = (s, w') \<Longrightarrow> stored w' = stored w
        \<and> plog w' = addSent \<lparr>se_roomId = roomId, se_clientTxnId = txn, se_content = c, se_accepted = accepted s\<rparr> (plog w)"
    and "keepsAll stored plog (cx_newId ctx)"
    and "keepsAll stored plog (updateS (cx_echo ctx roomId item g))"
  using assms unfolding honestProvider_def by simp_all

lemma triple_keepsAll:
  "keepsAll stored plog m \<Longrightarrow> triple (\<lambda>w. P (stored w) (plog w)) m (\<lambda>_ w. P (stored w) (plog w)) (\<lambda>_ w. P (stored w) (plog w))"
  by (auto simp: keepsAll_def intro: tripleI)

section \<open>One channel for an operation\<close>

text \<open>What the record of an operation says of the channels created under it.\<close>

definition oneRoom :: "(ustring \<rightharpoonup> journalRecord \<times> ustring) \<Rightarrow> providerLog \<Rightarrow> ustring \<Rightarrow> bool" where
  "oneRoom st l op = (case st (createKey op) of
     Some (Create_record c, _) \<Rightarrow> length (pl_created l op) \<le> 1
       \<and> (jc_state c = Create_not_applied \<longrightarrow> pl_created l op = [])
       \<and> (\<forall>room. jc_room c = Some room \<longrightarrow> pl_created l op = [room])
   | _ \<Rightarrow> pl_created l op = [])"

definition oneRoomEach :: "(ustring \<rightharpoonup> journalRecord \<times> ustring) \<Rightarrow> providerLog \<Rightarrow> bool" where
  "oneRoomEach st l \<longleftrightarrow> (\<forall>op. oneRoom st l op)"

text \<open>The record of an attempt that has not reported a room.\<close>

definition attempting :: "(ustring \<rightharpoonup> journalRecord \<times> ustring) \<Rightarrow> ustring \<Rightarrow> bool" where
  "attempting st op \<longleftrightarrow> (\<exists>c tag. st (createKey op) = Some (Create_record c, tag) \<and> jc_state c = Create_attempting \<and> jc_room c = None)"

lemma createKey_inj [simp]: "createKey a = createKey b \<longleftrightarrow> a = b"
  by (simp add: createKey_def)

lemma oneRoom_other [simp]: "createKey op \<noteq> k \<Longrightarrow> oneRoom (st(k \<mapsto> x)) l op = oneRoom st l op"
  by (auto simp: oneRoom_def)

lemma oneRoom_addCreated [simp]: "op \<noteq> op' \<Longrightarrow> oneRoom st (addCreated op' room l) op = oneRoom st l op"
  by (simp add: oneRoom_def split: option.split journalRecord.split prod.split)

lemma oneRoomEach_update:
  "oneRoomEach (st(createKey op \<mapsto> (Create_record c, tag))) l \<longleftrightarrow>
     (\<forall>op'. op' \<noteq> op \<longrightarrow> oneRoom st l op') \<and> length (pl_created l op) \<le> 1
     \<and> (jc_state c = Create_not_applied \<longrightarrow> pl_created l op = [])
     \<and> (\<forall>room. jc_room c = Some room \<longrightarrow> pl_created l op = [room])"
proof -
  have "oneRoom (st(createKey op \<mapsto> (Create_record c, tag))) l op' = (if op' = op then length (pl_created l op) \<le> 1
     \<and> (jc_state c = Create_not_applied \<longrightarrow> pl_created l op = [])
     \<and> (\<forall>room. jc_room c = Some room \<longrightarrow> pl_created l op = [room]) else oneRoom st l op')" for op'
    by (simp add: oneRoom_def)
  then show ?thesis by (auto simp: oneRoomEach_def)
qed

lemma oneRoomEach_created:
  assumes "oneRoomEach st l" "attempting st op" "pl_created l op = []" "l' = l \<or> (\<exists>room. l' = addCreated op room l)"
  shows "oneRoomEach st l'"
  unfolding oneRoomEach_def
proof
  fix op'
  show "oneRoom st l' op'"
  proof (cases "op' = op")
    case True
    then show ?thesis using assms by (auto simp: oneRoom_def attempting_def)
  next
    case False
    then have "oneRoom st l' op' = oneRoom st l op'" using assms(4) by auto
    then show ?thesis using assms(1) by (simp add: oneRoomEach_def)
  qed
qed

section \<open>What a journal promises\<close>

locale channel_journal =
  fixes journal :: "'w channelJournal"
    and stored :: "'w \<Rightarrow> (ustring \<rightharpoonup> journalRecord \<times> ustring)"
    and plog :: "'w \<Rightarrow> providerLog"
  assumes read_law: "cj_read journal k w = (r, w') \<Longrightarrow> stored w' = stored w \<and> plog w' = plog w
      \<and> (\<forall>v tag. r = Inr (Jr_record v tag) \<longrightarrow> stored w k = Some (v, tag))"
    and claim_law: "cj_claim journal k v w = (c, w') \<Longrightarrow> plog w' = plog w \<and> (case c of
        Inr (Jc_claimed tag) \<Rightarrow> stored w k = None \<and> stored w' = (stored w)(k \<mapsto> (v, tag))
      | Inr (Jc_exists v' tag) \<Rightarrow> stored w k = Some (v', tag) \<and> stored w' = stored w
      | _ \<Rightarrow> stored w' = stored w \<or> (stored w k = None \<and> (\<exists>tag. stored w' = (stored w)(k \<mapsto> (v, tag)))))"
    and replace_law: "cj_replace journal k expected v w = (x, w') \<Longrightarrow> plog w' = plog w \<and> (case x of
        Inr (Jw_stored tag) \<Rightarrow> map_option snd (stored w k) = Some expected \<and> stored w' = (stored w)(k \<mapsto> (v, tag))
      | Inr Jw_conflict \<Rightarrow> stored w' = stored w
      | _ \<Rightarrow> stored w' = stored w
          \<or> (map_option snd (stored w k) = Some expected \<and> (\<exists>tag. stored w' = (stored w)(k \<mapsto> (v, tag)))))"
begin

text \<open>A claim or a replacement, seen from an assertion over the stored records and the rest of the world.\<close>

lemma triple_claim:
  "triple (\<lambda>w. P (stored w) (plog w)
      \<and> (\<forall>tag. stored w k = None \<longrightarrow> P ((stored w)(k \<mapsto> (v, tag))) (plog w)))
    (cj_claim journal k v)
    (\<lambda>c w. P (stored w) (plog w) \<and> (case c of Jc_claimed tag \<Rightarrow> stored w k = Some (v, tag)
        | Jc_exists v' tag \<Rightarrow> stored w k = Some (v', tag) | Jc_unavailable \<Rightarrow> True))
    (\<lambda>_ w. P (stored w) (plog w))"
  by (rule tripleI; drule claim_law) (auto split: journalClaiming.splits)

lemma triple_replace:
  "triple (\<lambda>w. P (stored w) (plog w)
      \<and> (\<forall>tag. map_option snd (stored w k) = Some expected \<longrightarrow> P ((stored w)(k \<mapsto> (v, tag))) (plog w)))
    (cj_replace journal k expected v)
    (\<lambda>x w. P (stored w) (plog w) \<and> (\<forall>tag. x = Jw_stored tag \<longrightarrow> stored w k = Some (v, tag)))
    (\<lambda>_ w. P (stored w) (plog w))"
  by (rule tripleI; drule replace_law) (auto split: journalWriting.splits)

lemma triple_readJournal:
  "triple (\<lambda>w. P (stored w) (plog w)) (cj_read journal k)
    (\<lambda>x w. P (stored w) (plog w) \<and> (\<forall>v tag. x = Jr_record v tag \<longrightarrow> stored w k = Some (v, tag)))
    (\<lambda>_ w. P (stored w) (plog w))"
  by (rule tripleI; drule read_law) auto

lemma triple_findRoom:
  assumes "honestProvider stored plog ctx"
  shows "triple (\<lambda>w. P (stored w) (plog w)) (cx_findCreatedRoom ctx op)
    (\<lambda>r w. P (stored w) (plog w) \<and> (\<forall>room. r = Created_found room \<longrightarrow> room \<in> set (pl_created (plog w) op))
      \<and> (r = Created_absent \<longrightarrow> pl_created (plog w) op = []))
    (\<lambda>_ w. P (stored w) (plog w))"
proof (rule tripleI)
  fix w r w'
  assume P: "P (stored w) (plog w)" and m: "cx_findCreatedRoom ctx op w = (Inr r, w')"
  have "stored w' = stored w" "plog w' = plog w" using honestProviderD(2)[OF assms] m unfolding keepsAll_def by blast+
  then show "P (stored w') (plog w') \<and> (\<forall>room. r = Created_found room \<longrightarrow> room \<in> set (pl_created (plog w') op))
      \<and> (r = Created_absent \<longrightarrow> pl_created (plog w') op = [])"
    using P m honestProviderD(3,4)[OF assms] by auto
next
  fix w e w'
  assume P: "P (stored w) (plog w)" and m: "cx_findCreatedRoom ctx op w = (Inl e, w')"
  have "stored w' = stored w" "plog w' = plog w" using honestProviderD(2)[OF assms] m unfolding keepsAll_def by blast+
  then show "P (stored w') (plog w')" using P by simp
qed

lemma triple_createRoom:
  assumes "honestProvider stored plog ctx"
  shows "triple (\<lambda>w. oneRoomEach (stored w) (plog w) \<and> attempting (stored w) op \<and> pl_created (plog w) op = [])
    (safeEffect (cx_createRoom ctx op title))
    (\<lambda>r w. oneRoomEach (stored w) (plog w) \<and> length (pl_created (plog w) op) \<le> 1 \<and> (case r of
        Eff_done room \<Rightarrow> pl_created (plog w) op = [room] | Eff_unknown \<Rightarrow> True | _ \<Rightarrow> pl_created (plog w) op = []))
    (\<lambda>_ w. oneRoomEach (stored w) (plog w))"
  unfolding safeEffect_def
  apply (rule triple_catch[where F = "\<lambda>_ w. oneRoomEach (stored w) (plog w) \<and> length (pl_created (plog w) op) \<le> 1"])
   apply (rule tripleI)
  subgoal for w x w'
    using honestProviderD(1)[OF assms, of op title w "Inr x" w'] oneRoomEach_created[of "stored w" "plog w" op "plog w'"]
    by (cases x) (auto simp: createdBy_def)
  subgoal for w e w'
    using honestProviderD(1)[OF assms, of op title w "Inl e" w'] oneRoomEach_created[of "stored w" "plog w" op "plog w'"]
    by (auto simp: createdBy_def)
  apply (rule triple_ret)
  apply simp
  done

text \<open>A record written for an operation, where it says no more than what was created.\<close>

lemma triple_replaceCreate:
  assumes "\<And>l. G l \<Longrightarrow> length (pl_created l op) \<le> 1 \<and> (jc_state c = Create_not_applied \<longrightarrow> pl_created l op = [])
      \<and> (\<forall>room. jc_room c = Some room \<longrightarrow> pl_created l op = [room])"
  shows "triple (\<lambda>w. oneRoomEach (stored w) (plog w) \<and> G (plog w)) (cj_replace journal (createKey op) tag (Create_record c))
    (\<lambda>x w. (oneRoomEach (stored w) (plog w) \<and> G (plog w)) \<and> (\<forall>t. x = Jw_stored t \<longrightarrow> stored w (createKey op) = Some (Create_record c, t)))
    (\<lambda>_ w. oneRoomEach (stored w) (plog w))"
  apply (rule triple_post[OF triple_pre[OF triple_replace[where P = "\<lambda>st l. oneRoomEach st l \<and> G l"]]])
  using assms by (auto simp: oneRoomEach_update) (auto simp: oneRoomEach_def)

lemma triple_finishCreate:
  assumes "\<And>l. G l \<Longrightarrow> length (pl_created l op) \<le> 1 \<and> (jc_state c = Create_not_applied \<longrightarrow> pl_created l op = [])
      \<and> (\<forall>room. jc_room c = Some room \<longrightarrow> pl_created l op = [room])"
    and "\<And>l room. G l \<Longrightarrow> f = Op_ok room \<Longrightarrow> pl_created l op = [room]" and "\<And>w. P w \<Longrightarrow> oneRoomEach (stored w) (plog w) \<and> G (plog w)"
  shows "triple P (bindS (cj_replace journal (createKey op) tag (Create_record c)) (\<lambda>_. retS f))
    (\<lambda>r w. oneRoomEach (stored w) (plog w) \<and> (\<forall>room. r = Op_ok room \<longrightarrow> pl_created (plog w) op = [room]))
    (\<lambda>_ w. oneRoomEach (stored w) (plog w))"
  apply (rule triple_bind[OF triple_pre[OF triple_replaceCreate[where G = G and c = c and op = op, OF assms(1)]]])
    apply assumption
   apply (rule assms(3), assumption)
  apply (rule triple_ret)
  using assms(2) by blast

lemma triple_performCreate:
  assumes "cx_journal ctx = journal" "honestProvider stored plog ctx"
  shows "triple (\<lambda>w. oneRoomEach (stored w) (plog w) \<and> attempting (stored w) op \<and> pl_created (plog w) op = [])
    (performCreate ctx op title tag)
    (\<lambda>r w. oneRoomEach (stored w) (plog w) \<and> (\<forall>room. r = Op_ok room \<longrightarrow> pl_created (plog w) op = [room]))
    (\<lambda>_ w. oneRoomEach (stored w) (plog w))"
  unfolding performCreate_def Let_def assms(1) createEnd_def
  apply (rule triple_bind[OF triple_createRoom[OF assms(2)]])
  subgoal for r
  proof (cases r)
    case (Eff_done room)
    then show ?thesis
      by simp (rule triple_finishCreate[where G = "\<lambda>l. pl_created l op = [room]"]; simp)
  next
    case (Eff_rejected c)
    then show ?thesis
      by simp (rule triple_finishCreate[where G = "\<lambda>l. pl_created l op = []"]; simp)
  next
    case Eff_unavailable
    then show ?thesis
      by simp (rule triple_finishCreate[where G = "\<lambda>l. pl_created l op = []"]; simp)
  next
    case Eff_unknown
    then show ?thesis
      by simp (rule triple_finishCreate[where G = "\<lambda>l. length (pl_created l op) \<le> 1"]; simp)
  qed
  done

lemma triple_takeLease:
  assumes "cx_journal ctx = journal" "honestProvider stored plog ctx"
  shows "triple (\<lambda>w. oneRoomEach (stored w) (plog w) \<and> pl_created (plog w) op = [])
    (takeLease ctx op title tag)
    (\<lambda>r w. oneRoomEach (stored w) (plog w) \<and> (\<forall>room. r = Op_ok room \<longrightarrow> pl_created (plog w) op = [room]))
    (\<lambda>_ w. oneRoomEach (stored w) (plog w))"
  unfolding takeLease_def assms(1)
  apply (rule triple_bind[where R = "\<lambda>a w. (\<exists>c. a = Create_record c \<and> jc_state c = Create_attempting \<and> jc_room c = None)
      \<and> oneRoomEach (stored w) (plog w) \<and> pl_created (plog w) op = []"])
   apply (rule triple_read)
   apply (simp add: createAttempt_def)
  apply (rule triple_pure[where b = "\<exists>c. a = Create_record c \<and> jc_state c = Create_attempting \<and> jc_room c = None" for a])
   apply blast
  apply (elim exE conjE)
  subgoal for a c
    apply simp
    apply (rule triple_bind[OF triple_replaceCreate[where G = "\<lambda>l. pl_created l op = []"]])
     apply simp
    subgoal for x
      by (cases x; simp) (rule triple_pre[OF triple_performCreate[OF assms]] triple_ret, simp add: attempting_def)+
    done
  done

lemma triple_reconcile:
  assumes "cx_journal ctx = journal" "honestProvider stored plog ctx"
  shows "triple (\<lambda>w. oneRoomEach (stored w) (plog w) \<and> length (pl_created (plog w) op) \<le> 1)
    (reconcile ctx op found tag)
    (\<lambda>r w. oneRoomEach (stored w) (plog w) \<and> (\<forall>room. r = Some (Op_ok room) \<longrightarrow> pl_created (plog w) op = [room])
      \<and> (r = None \<longrightarrow> pl_created (plog w) op = []))
    (\<lambda>_ w. oneRoomEach (stored w) (plog w))"
  unfolding reconcile_def assms(1)
  apply (rule triple_try[OF triple_findRoom[OF assms(2), where P = "\<lambda>st l. oneRoomEach st l \<and> length (pl_created l op) \<le> 1"]])
  subgoal for r
  proof (cases r)
    case (Created_found room)
    have one: "xs = [room]" if "room \<in> set xs" "length xs \<le> 1" for xs using that by (cases xs) auto
    show ?thesis unfolding Created_found
      apply simp
      apply (rule triple_bind[OF triple_pre[OF triple_replaceCreate[where G = "\<lambda>l. pl_created l op = [room]"]]])
        apply simp
       apply (simp add: one)
      apply (rule triple_ret)
      apply simp
      done
  qed (simp; rule triple_ret; simp)+
  by (rule triple_ret) simp

lemma triple_resumeCreate:
  assumes "cx_journal ctx = journal" "honestProvider stored plog ctx"
  shows "triple (\<lambda>w. oneRoomEach (stored w) (plog w) \<and> stored w (createKey op) = Some (entry, tag))
    (resumeCreate ctx op title entry tag)
    (\<lambda>r w. oneRoomEach (stored w) (plog w) \<and> (\<forall>room. r = Op_ok room \<longrightarrow> pl_created (plog w) op = [room]))
    (\<lambda>_ w. oneRoomEach (stored w) (plog w))"
proof (cases entry)
  case (Create_record found)
  have facts: "length (pl_created (plog w) op) \<le> 1 \<and> (jc_state found = Create_not_applied \<longrightarrow> pl_created (plog w) op = [])
      \<and> (\<forall>room. jc_room found = Some room \<longrightarrow> pl_created (plog w) op = [room])"
    if "oneRoomEach (stored w) (plog w)" "stored w (createKey op) = Some (Create_record found, tag)" for w
    using spec[OF that(1)[unfolded oneRoomEach_def], of op] that(2) by (simp add: oneRoom_def)
  show ?thesis
    unfolding resumeCreate_def Create_record journalRecord.case
    apply (intro triple_if triple_ret)
      apply simp
     apply (auto dest: facts)[1]
    apply (rule triple_bind[OF triple_read[where Q = "\<lambda>_ w. oneRoomEach (stored w) (plog w) \<and> stored w (createKey op) = Some (Create_record found, tag)"]])
     apply assumption
    apply (intro triple_if triple_ret)
      apply simp
     apply (rule triple_bind[OF triple_pre[OF triple_reconcile[OF assms]]])
      apply (auto dest: facts)[1]
    subgoal for _ r by (cases r; simp) (rule triple_pre[OF triple_takeLease[OF assms]] triple_ret, simp)+
    apply (rule triple_pre[OF triple_takeLease[OF assms]])
    apply (auto dest: facts)
    done
qed (simp add: resumeCreate_def, rule triple_ret, simp)+

lemma triple_claimCreate:
  assumes "jc_state c = Create_attempting" "jc_room c = None"
  shows "triple (\<lambda>w. oneRoomEach (stored w) (plog w)) (cj_claim journal (createKey op) (Create_record c))
    (\<lambda>x w. oneRoomEach (stored w) (plog w) \<and> (case x of
        Jc_claimed tag \<Rightarrow> stored w (createKey op) = Some (Create_record c, tag) \<and> pl_created (plog w) op = []
      | Jc_exists v tag \<Rightarrow> stored w (createKey op) = Some (v, tag) | Jc_unavailable \<Rightarrow> True))
    (\<lambda>_ w. oneRoomEach (stored w) (plog w))"
proof -
  have none: "pl_created l op = []" if "oneRoomEach st l" "st (createKey op) = None" for st l
    using that spec[OF that(1)[unfolded oneRoomEach_def], of op] by (simp add: oneRoom_def)
  have upd: "oneRoomEach (st(createKey op \<mapsto> (Create_record c, t))) l" if "oneRoomEach st l" "st (createKey op) = None" for st l t
    using none[OF that] that(1) assms by (simp add: oneRoomEach_update) (simp add: oneRoomEach_def)
  show ?thesis
    by (rule tripleI; drule claim_law) (auto simp: none upd split: journalClaiming.splits)
qed

lemma triple_createChannel:
  assumes "cx_journal ctx = journal" "honestProvider stored plog ctx"
  shows "triple (\<lambda>w. oneRoomEach (stored w) (plog w)) (createChannel ctx signal op inputTitle)
    (\<lambda>r w. oneRoomEach (stored w) (plog w) \<and> (\<forall>room. r = Op_ok room \<longrightarrow> pl_created (plog w) op = [room]))
    (\<lambda>_ w. oneRoomEach (stored w) (plog w))"
proof -
  have attempt: "triple (\<lambda>w. oneRoomEach (stored w) (plog w))
    (bindS (readS (createAttempt ctx title)) (\<lambda>attempt.
     bindS (cj_claim (cx_journal ctx) (createKey op) attempt) (\<lambda>claim. case claim of
       Jc_unavailable \<Rightarrow> retS Op_unavailable
     | Jc_exists value revision \<Rightarrow> resumeCreate ctx op title value revision
     | Jc_claimed revision \<Rightarrow> performCreate ctx op title revision)))
    (\<lambda>r w. oneRoomEach (stored w) (plog w) \<and> (\<forall>room. r = Op_ok room \<longrightarrow> pl_created (plog w) op = [room]))
    (\<lambda>_ w. oneRoomEach (stored w) (plog w))" for title
    unfolding assms(1)
    apply (rule triple_bind[where R = "\<lambda>a w. (\<exists>c. a = Create_record c \<and> jc_state c = Create_attempting \<and> jc_room c = None)
        \<and> oneRoomEach (stored w) (plog w)"])
     apply (rule triple_read)
     apply (simp add: createAttempt_def)
    apply (rule triple_pure[where b = "\<exists>c. a = Create_record c \<and> jc_state c = Create_attempting \<and> jc_room c = None" for a])
     apply blast
    apply (elim exE conjE)
    subgoal for a c
      apply simp
      apply (rule triple_bind[OF triple_claimCreate])
        apply assumption+
      subgoal for x
        by (cases x; simp) (rule triple_pre[OF triple_performCreate[OF assms]] triple_pre[OF triple_resumeCreate[OF assms]] triple_ret,
          auto simp: attempting_def)+
      done
    done
  show ?thesis
    unfolding createChannel_def Let_def
    apply (intro triple_if triple_ret)
      apply simp
     apply simp
    apply (cases "decodeTitle ctx inputTitle")
    subgoal for e by (cases e) (simp add: triple_ret)
    apply (simp only: sum.case)
    apply (rule triple_bind[OF triple_read[where Q = "\<lambda>_ w. oneRoomEach (stored w) (plog w)"]])
     apply assumption
    subgoal for t gate
      apply (cases gate)
       apply (simp add: refuse_def triple_ret split: refusal.split)
      apply (simp only: sum.case)
      apply (rule attempt)
      done
    done
qed

section \<open>Commands keep what they do not touch\<close>

lemma triple_keeps:
  "keepsAll stored plog m \<Longrightarrow> triple (\<lambda>w. P (stored w) (plog w)) m (\<lambda>_ w. P (stored w) (plog w)) (\<lambda>_ w. P (stored w) (plog w))"
  by (auto simp: keepsAll_def intro!: tripleI)

text \<open>A command that creates a channel preserves whatever survives the records and the rooms it adds.\<close>

lemma triple_createKeeps:
  assumes journal: "cx_journal ctx = journal" and honest: "honestProvider stored plog ctx"
    and records: "\<And>st l k c tag. P st l \<Longrightarrow> P (st(createKey k \<mapsto> (Create_record c, tag))) l"
    and rooms: "\<And>st l k room. P st l \<Longrightarrow> P st (addCreated k room l)"
  shows "triple (\<lambda>w. P (stored w) (plog w)) (createChannel ctx signal op inputTitle) (\<lambda>_ w. P (stored w) (plog w)) (\<lambda>_ w. P (stored w) (plog w))"
proof -
  let ?K = "\<lambda>m. triple (\<lambda>w. P (stored w) (plog w)) m (\<lambda>_ w. P (stored w) (plog w)) (\<lambda>_ w. P (stored w) (plog w))"
  have replace: "?K (cj_replace journal (createKey op) tag (Create_record c))" for tag c
    by (rule triple_post[OF triple_pre[OF triple_replace[where P = P]]]) (auto intro: records)
  have claim: "?K (cj_claim journal (createKey op) (Create_record c))" for c
    by (rule triple_post[OF triple_pre[OF triple_claim[where P = P]]]) (auto intro: records)
  have room: "?K (safeEffect (cx_createRoom ctx op title))" for title
    unfolding safeEffect_def
    apply (rule triple_catch[where F = "\<lambda>_ w. P (stored w) (plog w)"])
     apply (rule tripleI; drule honestProviderD(1)[OF honest])
      apply (auto simp: createdBy_def intro: rooms triple_ret split: substrateEffect.splits)
    done
  have perform: "?K (performCreate ctx op title tag)" for title tag
    unfolding performCreate_def Let_def journal createEnd_def
    apply (rule triple_bind[OF room])
    subgoal for r by (cases r; simp; rule triple_bind[OF replace]; rule triple_ret)
    done
  have pure: "\<exists>c. createAttempt ctx title w = Create_record c" for title w by (simp add: createAttempt_def)
  have take: "?K (takeLease ctx op title tag)" for title tag
    unfolding takeLease_def journal
    apply (rule triple_bind[where R = "\<lambda>a w. (\<exists>c. a = Create_record c) \<and> P (stored w) (plog w)"])
     apply (rule triple_read)
     apply (simp add: pure)
    apply (rule triple_pure[where b = "\<exists>c. a = Create_record c" for a])
     apply blast
    apply (elim exE)
    apply simp
    apply (rule triple_bind[OF replace])
    subgoal for _ _ x by (cases x) (auto intro: perform triple_ret)
    done
  have find: "?K (cx_findCreatedRoom ctx op)"
    by (rule triple_keeps[OF honestProviderD(2)[OF honest]])
  have reconcile: "?K (reconcile ctx op found tag)" for found tag
    unfolding reconcile_def journal
    apply (rule triple_try[OF find])
    subgoal for r by (cases r) (auto intro!: triple_ret triple_bind[OF replace])
    by (rule triple_ret)
  have resume: "?K (resumeCreate ctx op title entry tag)" for title entry tag
    unfolding resumeCreate_def
    apply (cases entry; simp only: journalRecord.case)
      apply (intro conjI triple_ret triple_if)
        apply assumption+
      apply (rule triple_bind[OF triple_read[where Q = "\<lambda>_ w. P (stored w) (plog w)"]])
       apply assumption
      apply (intro triple_if triple_ret)
        apply assumption
       apply (rule triple_bind[OF reconcile])
    subgoal for _ _ r by (cases r) (auto intro: take triple_ret)
      apply (rule take)
     apply (rule triple_ret, assumption)+
    done
  have attempt: "?K (bindS (readS (createAttempt ctx title)) (\<lambda>attempt.
     bindS (cj_claim (cx_journal ctx) (createKey op) attempt) (\<lambda>claim. case claim of
       Jc_unavailable \<Rightarrow> retS Op_unavailable
     | Jc_exists value revision \<Rightarrow> resumeCreate ctx op title value revision
     | Jc_claimed revision \<Rightarrow> performCreate ctx op title revision)))" for title
    unfolding journal
    apply (rule triple_bind[where R = "\<lambda>a w. (\<exists>c. a = Create_record c) \<and> P (stored w) (plog w)"])
     apply (rule triple_read)
     apply (simp add: pure)
    apply (rule triple_pure[where b = "\<exists>c. a = Create_record c" for a])
     apply blast
    apply (elim exE)
    apply simp
    apply (rule triple_bind[OF claim])
    subgoal for _ _ x by (cases x) (auto intro: perform resume triple_ret)
    done
  show ?thesis
    unfolding createChannel_def Let_def
    apply (intro triple_if triple_ret)
      apply assumption+
    apply (cases "decodeTitle ctx inputTitle")
    subgoal for e by (cases e) (simp add: triple_ret)
    apply (simp only: sum.case)
    apply (rule triple_bind[OF triple_read[where Q = "\<lambda>_ w. P (stored w) (plog w)"]])
     apply assumption
    subgoal for t gate
      apply (cases gate)
       apply (simp add: triple_ret)
      apply (simp only: sum.case)
      apply (rule attempt)
      done
    done
qed

end

end
