(* ===== verification/ChannelMessages.thy ===== *)
theory ChannelMessages
  imports ChannelClientProperties
begin

text \<open>
  Messages and intro batches over the journal: \<open>messagesOk\<close> is the invariant that the records, the transaction
  identifiers and the provider's log keep under every command (the identifiers \<open>newId\<close> yields satisfy \<open>generated\<close>),
  \<open>clientRun\<close> the runs of any number of tabs that share the process-memory journal, and the properties of those runs
  follow: one channel per operation, one message per transaction, success only for what the transport accepted, and
  intro batches attempted strictly in order.
\<close>

section \<open>The invariant of the messages\<close>

abbreviation introTxns :: "introRecord \<Rightarrow> ustring list" where
  "introTxns i \<equiv> map it_clientTxnId (ji_items i)"

text \<open>What the transport was asked of a set of transactions, in order.\<close>

definition attempts :: "providerLog \<Rightarrow> ustring set \<Rightarrow> ustring list" where
  "attempts l T = filter (\<lambda>t. t \<in> T) (map se_clientTxnId (pl_sent l))"

definition wasAccepted :: "providerLog \<Rightarrow> ustring \<Rightarrow> bool" where
  "wasAccepted l t \<longleftrightarrow> (\<exists>e \<in> set (pl_sent l). se_accepted e \<and> se_clientTxnId e = t)"

text \<open>An intro in progress: its first \<open>a\<close> items are recorded as accepted, its first \<open>n\<close> were attempted, one after the
  other, and nothing beyond the first unaccepted item.\<close>

definition introOk :: "providerLog \<Rightarrow> introRecord \<Rightarrow> bool" where
  "introOk l i \<longleftrightarrow> distinct (introTxns i) \<and> (\<exists>a n. a \<le> n \<and> n \<le> Suc a \<and> n \<le> length (ji_items i)
     \<and> (\<forall>j < length (ji_items i). it_state (ji_items i ! j) = Send_accepted \<longleftrightarrow> j < a)
     \<and> remdups_adj (attempts l (set (introTxns i))) = take n (introTxns i)
     \<and> (\<forall>j < a. wasAccepted l (introTxns i ! j)))"

definition eventFrom :: "(ustring \<rightharpoonup> journalRecord \<times> ustring) \<Rightarrow> sentEvent \<Rightarrow> bool" where
  "eventFrom st e \<longleftrightarrow>
     (\<exists>r tag. st (sendKey (se_clientTxnId e)) = Some (Send_record r, tag) \<and> js_roomId r = se_roomId e
        \<and> it_clientTxnId (js_item r) = se_clientTxnId e \<and> it_content (js_item r) = se_content e)
   \<or> (\<exists>k i tag. st k = Some (Intro_record i, tag) \<and> ji_roomId i = se_roomId e
        \<and> (se_clientTxnId e, se_content e) \<in> set (map (\<lambda>x. (it_clientTxnId x, it_content x)) (ji_items i)))"

text \<open>A send record under its own key, with the digest of its content.\<close>

definition sendOk :: "platform \<Rightarrow> (ustring \<Rightarrow> bool) \<Rightarrow> providerLog \<Rightarrow> ustring \<Rightarrow> sendRecord \<Rightarrow> bool" where
  "sendOk pf generated l k r \<longleftrightarrow> k = sendKey (it_clientTxnId (js_item r)) \<and> \<not> generated (it_clientTxnId (js_item r))
     \<and> digestMessageContent pf (it_content (js_item r)) = Inr (it_contentDigest (js_item r))
     \<and> (it_state (js_item r) = Send_accepted \<longrightarrow> wasAccepted l (it_clientTxnId (js_item r)))"

definition messagesOk :: "platform \<Rightarrow> (ustring \<Rightarrow> bool) \<Rightarrow> (ustring \<rightharpoonup> journalRecord \<times> ustring) \<Rightarrow> providerLog \<Rightarrow> bool" where
  "messagesOk pf generated st l \<longleftrightarrow>
     (\<forall>k r tag. st k = Some (Send_record r, tag) \<longrightarrow> sendOk pf generated l k r)
   \<and> (\<forall>k i tag. st k = Some (Intro_record i, tag) \<longrightarrow> k \<in> range introKey \<and> list_all generated (introTxns i) \<and> introOk l i)
   \<and> (\<forall>k i tag k' i' tag'. st k = Some (Intro_record i, tag) \<longrightarrow> st k' = Some (Intro_record i', tag') \<longrightarrow> k \<noteq> k'
        \<longrightarrow> set (introTxns i) \<inter> set (introTxns i') = {})
   \<and> (\<forall>e \<in> set (pl_sent l). eventFrom st e)"

lemma messagesOkD:
  assumes "messagesOk pf generated st l"
  shows "st k = Some (Send_record r, tag) \<Longrightarrow> sendOk pf generated l k r"
    and "st k = Some (Intro_record i, tag) \<Longrightarrow> k \<in> range introKey \<and> list_all generated (introTxns i) \<and> introOk l i"
    and "st k = Some (Intro_record i, tag) \<Longrightarrow> st k' = Some (Intro_record i', tag') \<Longrightarrow> k \<noteq> k'
        \<Longrightarrow> set (introTxns i) \<inter> set (introTxns i') = {}"
    and "e \<in> set (pl_sent l) \<Longrightarrow> eventFrom st e"
  using assms unfolding messagesOk_def by blast+

lemma messagesOkI:
  assumes "\<And>k r tag. st k = Some (Send_record r, tag) \<Longrightarrow> sendOk pf generated l k r"
    and "\<And>k i tag. st k = Some (Intro_record i, tag) \<Longrightarrow> k \<in> range introKey \<and> list_all generated (introTxns i) \<and> introOk l i"
    and "\<And>k i tag k' i' tag'. st k = Some (Intro_record i, tag) \<Longrightarrow> st k' = Some (Intro_record i', tag') \<Longrightarrow> k \<noteq> k'
        \<Longrightarrow> set (introTxns i) \<inter> set (introTxns i') = {}"
    and "\<And>e. e \<in> set (pl_sent l) \<Longrightarrow> eventFrom st e"
  shows "messagesOk pf generated st l"
  using assms unfolding messagesOk_def by blast

lemma key_kinds [simp]:
  "createKey a \<noteq> introKey b" "createKey a \<noteq> sendKey b" "introKey a \<noteq> createKey b" "introKey a \<noteq> sendKey b"
  "sendKey a \<noteq> createKey b" "sendKey a \<noteq> introKey b"
  by (simp_all add: createKey_def introKey_def sendKey_def js_def)

lemma key_injs [simp]: "introKey a = introKey b \<longleftrightarrow> a = b" "sendKey a = sendKey b \<longleftrightarrow> a = b"
  by (simp_all add: introKey_def sendKey_def)

subsection \<open>Steps that keep it\<close>

lemma messagesOk_createRecord:
  assumes "messagesOk pf generated st l"
  shows "messagesOk pf generated (st(createKey k \<mapsto> (Create_record c, tag))) l"
proof (rule messagesOkI)
  let ?st = "st(createKey k \<mapsto> (Create_record c, tag))"
  have old: "?st x = Some (Send_record r, t) \<Longrightarrow> st x = Some (Send_record r, t)"
    "?st x = Some (Intro_record i, t) \<Longrightarrow> st x = Some (Intro_record i, t)" for x r i t
    by (auto split: if_splits)
  note d = messagesOkD[OF assms]
  show "sendOk pf generated l x r" if "?st x = Some (Send_record r, t)" for x r t using d(1)[OF old(1)[OF that]] .
  show "x \<in> range introKey \<and> list_all generated (introTxns i) \<and> introOk l i" if "?st x = Some (Intro_record i, t)" for x i t
    using d(2)[OF old(2)[OF that]] .
  show "set (introTxns i) \<inter> set (introTxns i') = {}"
    if "?st x = Some (Intro_record i, t)" "?st x' = Some (Intro_record i', t')" "x \<noteq> x'" for x i t x' i' t'
    using d(3)[OF old(2)[OF that(1)] old(2)[OF that(2)] that(3)] .
  show "eventFrom ?st e" if "e \<in> set (pl_sent l)" for e
    using d(4)[OF that] unfolding eventFrom_def
  proof (elim disjE exE conjE)
    fix x i t
    assume i: "st x = Some (Intro_record i, t)" "ji_roomId i = se_roomId e"
      "(se_clientTxnId e, se_content e) \<in> set (map (\<lambda>x. (it_clientTxnId x, it_content x)) (ji_items i))"
    have "x \<noteq> createKey k" using d(2)[OF i(1)] by auto
    then have "?st x = Some (Intro_record i, t)" using i(1) by simp
    then show "(\<exists>r tag. ?st (sendKey (se_clientTxnId e)) = Some (Send_record r, tag) \<and> js_roomId r = se_roomId e
        \<and> it_clientTxnId (js_item r) = se_clientTxnId e \<and> it_content (js_item r) = se_content e)
      \<or> (\<exists>k i tag. ?st k = Some (Intro_record i, tag) \<and> ji_roomId i = se_roomId e
        \<and> (se_clientTxnId e, se_content e) \<in> set (map (\<lambda>x. (it_clientTxnId x, it_content x)) (ji_items i)))"
      using i by blast
  qed auto
qed

lemma introOk_log: "pl_sent l = pl_sent l' \<Longrightarrow> introOk l i = introOk l' i"
  by (simp add: introOk_def attempts_def wasAccepted_def)

lemma messagesOk_log: "pl_sent l = pl_sent l' \<Longrightarrow> messagesOk pf generated st l = messagesOk pf generated st l'"
  using introOk_log[of l l'] by (simp add: messagesOk_def sendOk_def wasAccepted_def)

lemma wasAccepted_addSent [simp]:
  "wasAccepted (addSent e l) t \<longleftrightarrow> wasAccepted l t \<or> (se_accepted e \<and> se_clientTxnId e = t)"
  by (auto simp: wasAccepted_def)

lemma attempts_addSent [simp]:
  "attempts (addSent e l) T = attempts l T @ (if se_clientTxnId e \<in> T then [se_clientTxnId e] else [])"
  by (simp add: attempts_def)

lemma introOk_other:
  assumes "introOk l i" "se_clientTxnId e \<notin> set (introTxns i)"
  shows "introOk (addSent e l) i"
proof -
  have a: "attempts (addSent e l) (set (introTxns i)) = attempts l (set (introTxns i))" using assms(2) by simp
  show ?thesis using assms(1) unfolding introOk_def a by (auto simp: wasAccepted_addSent)
qed

lemma sendOk_addSent: "sendOk pf generated l k r \<Longrightarrow> sendOk pf generated (addSent e l) k r"
  by (auto simp: sendOk_def)

text \<open>The transport is handed the message of a send record.\<close>

lemma messagesOk_sendEvent:
  assumes ok: "messagesOk pf generated st l" and r: "st (sendKey t) = Some (Send_record r, tag)"
    and e: "se_roomId e = js_roomId r" "se_clientTxnId e = it_clientTxnId (js_item r)" "se_content e = it_content (js_item r)"
  shows "messagesOk pf generated st (addSent e l)"
proof (rule messagesOkI)
  note d = messagesOkD[OF ok]
  have t: "it_clientTxnId (js_item r) = t" "\<not> generated t" using d(1)[OF r] by (auto simp: sendOk_def)
  show "sendOk pf generated (addSent e l) x s" if "st x = Some (Send_record s, g)" for x s g
    using d(1)[OF that] by (rule sendOk_addSent)
  show "x \<in> range introKey \<and> list_all generated (introTxns i) \<and> introOk (addSent e l) i"
    if "st x = Some (Intro_record i, g)" for x i g
  proof -
    have "se_clientTxnId e \<notin> set (introTxns i)" using d(2)[OF that] t e(2) by (auto simp: list_all_iff)
    then show ?thesis using d(2)[OF that] introOk_other by blast
  qed
  show "set (introTxns i) \<inter> set (introTxns i') = {}"
    if "st x = Some (Intro_record i, g)" "st x' = Some (Intro_record i', g')" "x \<noteq> x'" for x i g x' i' g'
    using d(3)[OF that] .
  show "eventFrom st e'" if "e' \<in> set (pl_sent (addSent e l))" for e'
    using that d(4)[of e'] r e t by (auto simp: eventFrom_def)
qed

text \<open>Writing a record of the same message, or of a new one.\<close>

lemma messagesOk_sendRecord:
  assumes ok: "messagesOk pf generated st l" and new: "sendOk pf generated l (sendKey t) r"
    and old: "\<And>r' tag'. st (sendKey t) = Some (Send_record r', tag') \<Longrightarrow>
        js_roomId r = js_roomId r' \<and> it_content (js_item r) = it_content (js_item r')"
  shows "messagesOk pf generated (st(sendKey t \<mapsto> (Send_record r, tag))) l"
proof (rule messagesOkI)
  let ?st = "st(sendKey t \<mapsto> (Send_record r, tag))"
  note d = messagesOkD[OF ok]
  have t: "it_clientTxnId (js_item r) = t" using new by (simp add: sendOk_def)
  have intro: "?st x = Some (Intro_record i, g) \<Longrightarrow> st x = Some (Intro_record i, g)" for x i g by (auto split: if_splits)
  show "sendOk pf generated l x s" if "?st x = Some (Send_record s, g)" for x s g
    using that new d(1)[of x s g] by (auto split: if_splits)
  show "x \<in> range introKey \<and> list_all generated (introTxns i) \<and> introOk l i" if "?st x = Some (Intro_record i, g)" for x i g
    using d(2)[OF intro[OF that]] .
  show "set (introTxns i) \<inter> set (introTxns i') = {}"
    if "?st x = Some (Intro_record i, g)" "?st x' = Some (Intro_record i', g')" "x \<noteq> x'" for x i g x' i' g'
    using d(3)[OF intro[OF that(1)] intro[OF that(2)] that(3)] .
  show "eventFrom ?st e" if "e \<in> set (pl_sent l)" for e
    using d(4)[OF that] unfolding eventFrom_def
  proof (elim disjE exE conjE)
    fix s g
    assume s: "st (sendKey (se_clientTxnId e)) = Some (Send_record s, g)" "js_roomId s = se_roomId e"
      "it_clientTxnId (js_item s) = se_clientTxnId e" "it_content (js_item s) = se_content e"
    show "(\<exists>r tag. ?st (sendKey (se_clientTxnId e)) = Some (Send_record r, tag) \<and> js_roomId r = se_roomId e
        \<and> it_clientTxnId (js_item r) = se_clientTxnId e \<and> it_content (js_item r) = se_content e)
      \<or> (\<exists>k i tag. ?st k = Some (Intro_record i, tag) \<and> ji_roomId i = se_roomId e
        \<and> (se_clientTxnId e, se_content e) \<in> set (map (\<lambda>x. (it_clientTxnId x, it_content x)) (ji_items i)))"
      using s old[of s g] t by (cases "se_clientTxnId e = t") auto
  next
    fix x i g
    assume i: "st x = Some (Intro_record i, g)" "ji_roomId i = se_roomId e"
      "(se_clientTxnId e, se_content e) \<in> set (map (\<lambda>x. (it_clientTxnId x, it_content x)) (ji_items i))"
    have "x \<noteq> sendKey t" using d(2)[OF i(1)] by auto
    then have "?st x = Some (Intro_record i, g)" using i(1) by simp
    then show "(\<exists>r tag. ?st (sendKey (se_clientTxnId e)) = Some (Send_record r, tag) \<and> js_roomId r = se_roomId e
        \<and> it_clientTxnId (js_item r) = se_clientTxnId e \<and> it_content (js_item r) = se_content e)
      \<or> (\<exists>k i tag. ?st k = Some (Intro_record i, tag) \<and> ji_roomId i = se_roomId e
        \<and> (se_clientTxnId e, se_content e) \<in> set (map (\<lambda>x. (it_clientTxnId x, it_content x)) (ji_items i)))"
      using i by blast
  qed
qed

text \<open>The transport is handed the first item of an intro that is not recorded as accepted.\<close>

lemma remdups_adj_snoc:
  "remdups_adj (xs @ [t]) = (if xs \<noteq> [] \<and> last xs = t then remdups_adj xs else remdups_adj xs @ [t])"
  by (induction xs rule: remdups_adj.induct) auto

lemma last_remdups: "xs \<noteq> [] \<Longrightarrow> last (remdups_adj xs) = last xs"
  by (induction xs rule: remdups_adj.induct) auto

lemma introOk_attempt:
  assumes ok: "introOk l i" and split: "ji_items i = passed @ item # rest"
    and passed: "\<forall>x \<in> set passed. it_state x = Send_accepted" and item: "it_state item \<noteq> Send_accepted"
    and e: "se_clientTxnId e = it_clientTxnId item"
  shows "introOk (addSent e l) i"
    and "se_accepted e \<Longrightarrow> introOk (addSent e l) (i\<lparr>ji_items := passed @ item\<lparr>it_state := Send_accepted, it_eventRef := ref\<rparr> # rest\<rparr>)"
    and "st \<noteq> Send_accepted \<Longrightarrow> introOk (addSent e l) (i\<lparr>ji_items := passed @ item\<lparr>it_state := st, it_eventRef := ref\<rparr> # rest\<rparr>)"
proof -
  let ?ts = "introTxns i" and ?A = "attempts l (set (introTxns i))" and ?t = "it_clientTxnId item" and ?p = "length passed"
  obtain a n where an: "a \<le> n" "n \<le> Suc a" "n \<le> length (ji_items i)"
    "\<forall>j < length (ji_items i). it_state (ji_items i ! j) = Send_accepted \<longleftrightarrow> j < a"
    "remdups_adj ?A = take n ?ts" "\<forall>j < a. wasAccepted l (?ts ! j)" and dist: "distinct ?ts"
    using ok unfolding introOk_def by blast
  have a: "a = ?p"
  proof (rule ccontr)
    assume "a \<noteq> ?p"
    then consider "a < ?p" | "?p < a" by linarith
    then show False
    proof cases
      case 1
      then have "it_state (ji_items i ! a) = Send_accepted" using passed by (simp add: split nth_append)
      then show False using an(4) 1 by (simp add: split)
    next
      case 2
      have "it_state (ji_items i ! ?p) = Send_accepted" using spec[OF an(4), of ?p] 2 by (simp add: split)
      then show False using item by (simp add: split)
    qed
  qed
  have ts: "?ts = map it_clientTxnId passed @ ?t # map it_clientTxnId rest" by (simp add: split)
  have t: "?t \<in> set ?ts" "?t \<notin> set (map it_clientTxnId passed)" using dist by (simp_all add: ts)
  have tk: "take ?p ?ts = map it_clientTxnId passed" "take (Suc ?p) ?ts = map it_clientTxnId passed @ [?t]" by (simp_all add: ts)
  have len: "Suc ?p \<le> length (ji_items i)" by (simp add: split)
  have log: "attempts (addSent e l) (set ?ts) = ?A @ [?t]" using t(1) e by simp
  have adj: "remdups_adj (?A @ [?t]) = take (Suc ?p) ?ts"
  proof (cases "n = ?p")
    case True
    have "?A \<noteq> [] \<longrightarrow> last ?A \<noteq> ?t"
    proof
      assume ne: "?A \<noteq> []"
      then have "last ?A = last (map it_clientTxnId passed)" "map it_clientTxnId passed \<noteq> []"
        using last_remdups[OF ne] an(5) True tk(1) by (metis remdups_adj_Nil_iff)+
      then show "last ?A \<noteq> ?t" using t(2) by (metis last_in_set)
    qed
    then show ?thesis using an(5) True tk by (auto simp: remdups_adj_snoc)
  next
    case False
    then have n: "n = Suc ?p" using an(1,2) a by simp
    then have ne: "?A \<noteq> []" using an(5) tk(2) by (metis remdups_adj_Nil_iff append_is_Nil_conv not_Cons_self2)
    have "last ?A = ?t" by (metis last_remdups[OF ne] an(5) n tk(2) last_snoc)
    then show ?thesis using ne an(5) n by (simp add: remdups_adj_snoc)
  qed
  have acc: "\<forall>j < ?p. wasAccepted (addSent e l) (?ts ! j)" using an(6) a by simp
  show "introOk (addSent e l) i"
    unfolding introOk_def log adj using dist an(4) a acc len by (intro conjI exI[of _ ?p] exI[of _ "Suc ?p"]) auto
  have txns: "introTxns (i\<lparr>ji_items := passed @ item\<lparr>it_state := s, it_eventRef := ref\<rparr> # rest\<rparr>) = ?ts" for s by (simp add: split)
  have rest: "it_state (rest ! j) \<noteq> Send_accepted" if "j < length rest" for j
    using an(4)[rule_format, of "Suc ?p + j"] that a by (simp add: split nth_append)
  have pattern: "\<forall>j < length (passed @ item\<lparr>it_state := s, it_eventRef := ref\<rparr> # rest).
      it_state ((passed @ item\<lparr>it_state := s, it_eventRef := ref\<rparr> # rest) ! j) = Send_accepted
        \<longleftrightarrow> j < (if s = Send_accepted then Suc ?p else ?p)" for s
  proof (intro allI impI)
    fix j
    assume j: "j < length (passed @ item\<lparr>it_state := s, it_eventRef := ref\<rparr> # rest)"
    consider "j < ?p" | "j = ?p" | m where "j = Suc ?p + m" using less_imp_Suc_add[of ?p j] by (metis add_Suc add_Suc_right nat_neq_iff)
    then show "it_state ((passed @ item\<lparr>it_state := s, it_eventRef := ref\<rparr> # rest) ! j) = Send_accepted
        \<longleftrightarrow> j < (if s = Send_accepted then Suc ?p else ?p)"
    proof cases
      case 1
      then show ?thesis using passed by (simp add: nth_append)
    next
      case 2
      then show ?thesis by simp
    next
      case 3
      then show ?thesis using rest[of m] j by (simp add: nth_append)
    qed
  qed
  show "introOk (addSent e l) (i\<lparr>ji_items := passed @ item\<lparr>it_state := Send_accepted, it_eventRef := ref\<rparr> # rest\<rparr>)" if "se_accepted e"
  proof -
    have "wasAccepted (addSent e l) (?ts ! j)" if "j < Suc ?p" for j
      using acc that \<open>se_accepted e\<close> e by (cases "j = ?p") (auto simp: ts nth_append)
    then show ?thesis
      unfolding introOk_def txns log adj using dist pattern[of Send_accepted] len
      by (intro conjI exI[of _ "Suc ?p"]) (auto simp: split)
  qed
  show "introOk (addSent e l) (i\<lparr>ji_items := passed @ item\<lparr>it_state := st, it_eventRef := ref\<rparr> # rest\<rparr>)" if "st \<noteq> Send_accepted"
    unfolding introOk_def txns log adj using dist pattern[of st] len acc that
    by (intro conjI exI[of _ ?p] exI[of _ "Suc ?p"]) (auto simp: split)
qed

lemma messagesOk_introEvent:
  assumes ok: "messagesOk pf generated st l" and i: "st k = Some (Intro_record i, tag)"
    and split: "ji_items i = passed @ item # rest"
    and passed: "\<forall>x \<in> set passed. it_state x = Send_accepted" and item: "it_state item \<noteq> Send_accepted"
    and e: "se_roomId e = ji_roomId i" "se_clientTxnId e = it_clientTxnId item" "se_content e = it_content item"
  shows "messagesOk pf generated st (addSent e l)"
proof (rule messagesOkI)
  note d = messagesOkD[OF ok]
  have t: "it_clientTxnId item \<in> set (introTxns i)" by (simp add: split)
  show "sendOk pf generated (addSent e l) x s" if "st x = Some (Send_record s, g)" for x s g
    using d(1)[OF that] by (rule sendOk_addSent)
  show "x \<in> range introKey \<and> list_all generated (introTxns j) \<and> introOk (addSent e l) j"
    if "st x = Some (Intro_record j, g)" for x j g
  proof (cases "x = k")
    case True
    then show ?thesis using d(2)[OF that] that i introOk_attempt(1)[OF _ split passed item e(2)] by simp
  next
    case False
    then have "se_clientTxnId e \<notin> set (introTxns j)" using d(3)[OF that i] t e(2) by auto
    then show ?thesis using d(2)[OF that] introOk_other by blast
  qed
  show "set (introTxns j) \<inter> set (introTxns j') = {}"
    if "st x = Some (Intro_record j, g)" "st x' = Some (Intro_record j', g')" "x \<noteq> x'" for x j g x' j' g'
    using d(3)[OF that] .
  show "eventFrom st e'" if "e' \<in> set (pl_sent (addSent e l))" for e'
  proof (cases "e' = e")
    case True
    have "(se_clientTxnId e, se_content e) \<in> set (map (\<lambda>x. (it_clientTxnId x, it_content x)) (ji_items i))"
      by (simp add: split e)
    then have "\<exists>k i tag. st k = Some (Intro_record i, tag) \<and> ji_roomId i = se_roomId e
        \<and> (se_clientTxnId e, se_content e) \<in> set (map (\<lambda>x. (it_clientTxnId x, it_content x)) (ji_items i))"
      using i e(1) by (intro exI[of _ k] exI[of _ i] exI[of _ tag] conjI) simp_all
    then show ?thesis unfolding eventFrom_def True by (rule disjI2)
  next
    case False
    then show ?thesis using that d(4)[of e'] by simp
  qed
qed

text \<open>An intro record is replaced by one of the same messages, or a new selection is recorded.\<close>

lemma messagesOk_introRecord:
  assumes ok: "messagesOk pf generated st l" and i: "st (introKey b) = Some (Intro_record i, tag)" and new: "introOk l i'"
    and same: "ji_roomId i' = ji_roomId i" "map (\<lambda>x. (it_clientTxnId x, it_content x)) (ji_items i')
      = map (\<lambda>x. (it_clientTxnId x, it_content x)) (ji_items i)"
  shows "messagesOk pf generated (st(introKey b \<mapsto> (Intro_record i', tag'))) l"
proof (rule messagesOkI)
  let ?st = "st(introKey b \<mapsto> (Intro_record i', tag'))"
  note d = messagesOkD[OF ok]
  have txns: "introTxns i' = introTxns i" using arg_cong[OF same(2), of "map fst"] by (simp add: comp_def)
  have old: "\<exists>j' g'. st x = Some (Intro_record j', g') \<and> introTxns j' = introTxns j" if "?st x = Some (Intro_record j, g)" for x j g
    using that i txns by (auto split: if_splits)
  show "sendOk pf generated l x s" if "?st x = Some (Send_record s, g)" for x s g
    using that d(1)[of x s g] by (auto split: if_splits)
  show "x \<in> range introKey \<and> list_all generated (introTxns j) \<and> introOk l j" if "?st x = Some (Intro_record j, g)" for x j g
    using that new d(2)[OF i] d(2)[of x j g] txns by (auto split: if_splits)
  show "set (introTxns j) \<inter> set (introTxns j') = {}"
    if "?st x = Some (Intro_record j, g)" "?st x' = Some (Intro_record j', g')" "x \<noteq> x'" for x j g x' j' g'
    using old[OF that(1)] old[OF that(2)] d(3) that(3) by metis
  show "eventFrom ?st e" if "e \<in> set (pl_sent l)" for e
    using d(4)[OF that] unfolding eventFrom_def
  proof (elim disjE exE conjE)
    fix x j g
    assume j: "st x = Some (Intro_record j, g)" "ji_roomId j = se_roomId e"
      "(se_clientTxnId e, se_content e) \<in> set (map (\<lambda>x. (it_clientTxnId x, it_content x)) (ji_items j))"
    have "\<exists>k j g. ?st k = Some (Intro_record j, g) \<and> ji_roomId j = se_roomId e
        \<and> (se_clientTxnId e, se_content e) \<in> set (map (\<lambda>x. (it_clientTxnId x, it_content x)) (ji_items j))"
    proof (cases "x = introKey b")
      case True
      then have "j = i" using j(1) i by simp
      then show ?thesis using j(2,3) same by (intro exI[of _ "introKey b"] exI[of _ i'] exI[of _ tag']) simp
    next
      case False
      then show ?thesis using j by (intro exI[of _ x] exI[of _ j] exI[of _ g]) simp
    qed
    then show "(\<exists>r tag. ?st (sendKey (se_clientTxnId e)) = Some (Send_record r, tag) \<and> js_roomId r = se_roomId e
        \<and> it_clientTxnId (js_item r) = se_clientTxnId e \<and> it_content (js_item r) = se_content e)
      \<or> (\<exists>k i tag. ?st k = Some (Intro_record i, tag) \<and> ji_roomId i = se_roomId e
        \<and> (se_clientTxnId e, se_content e) \<in> set (map (\<lambda>x. (it_clientTxnId x, it_content x)) (ji_items i)))" by blast
  qed auto
qed

text \<open>Identifiers that no record and no event carries.\<close>

definition freshTxn :: "(ustring \<rightharpoonup> journalRecord \<times> ustring) \<Rightarrow> providerLog \<Rightarrow> ustring \<Rightarrow> bool" where
  "freshTxn st l t \<longleftrightarrow> (\<forall>k i tag. st k = Some (Intro_record i, tag) \<longrightarrow> t \<notin> set (introTxns i)) \<and> t \<notin> se_clientTxnId ` set (pl_sent l)"

lemma messagesOk_newIntro:
  assumes ok: "messagesOk pf generated st l" and k: "st (introKey b) = None" and dist: "distinct (introTxns i)"
    and ids: "\<forall>t \<in> set (introTxns i). generated t \<and> freshTxn st l t" and new: "\<forall>x \<in> set (ji_items i). it_state x \<noteq> Send_accepted"
  shows "messagesOk pf generated (st(introKey b \<mapsto> (Intro_record i, tag))) l"
proof (rule messagesOkI)
  let ?st = "st(introKey b \<mapsto> (Intro_record i, tag))"
  note d = messagesOkD[OF ok]
  have "attempts l (set (introTxns i)) = []" using ids by (force simp: attempts_def filter_empty_conv freshTxn_def)
  then have intro: "introOk l i"
    unfolding introOk_def using dist new by (intro conjI exI[of _ "0::nat"]) (auto simp: nth_mem)
  show "sendOk pf generated l x s" if "?st x = Some (Send_record s, g)" for x s g
    using that d(1)[of x s g] by (auto split: if_splits)
  show "x \<in> range introKey \<and> list_all generated (introTxns j) \<and> introOk l j" if "?st x = Some (Intro_record j, g)" for x j g
    using that intro ids d(2)[of x j g] by (auto simp: list_all_iff split: if_splits)
  have sep: "set (introTxns i) \<inter> set (introTxns j) = {}" if "st x = Some (Intro_record j, g)" for x j g
    using ids that unfolding freshTxn_def by blast
  show "set (introTxns j) \<inter> set (introTxns j') = {}"
    if "?st x = Some (Intro_record j, g)" "?st x' = Some (Intro_record j', g')" "x \<noteq> x'" for x j g x' j' g'
    using that d(3)[of x j g x' j' g'] sep[of x j g] sep[of x' j' g'] by (auto split: if_splits)
  show "eventFrom ?st e" if "e \<in> set (pl_sent l)" for e
    using d(4)[OF that] unfolding eventFrom_def
  proof (elim disjE exE conjE)
    fix x j g
    assume j: "st x = Some (Intro_record j, g)" "ji_roomId j = se_roomId e"
      "(se_clientTxnId e, se_content e) \<in> set (map (\<lambda>x. (it_clientTxnId x, it_content x)) (ji_items j))"
    then have "x \<noteq> introKey b" using k by auto
    then have "?st x = Some (Intro_record j, g)" using j(1) by simp
    then show "(\<exists>r tag. ?st (sendKey (se_clientTxnId e)) = Some (Send_record r, tag) \<and> js_roomId r = se_roomId e
        \<and> it_clientTxnId (js_item r) = se_clientTxnId e \<and> it_content (js_item r) = se_content e)
      \<or> (\<exists>k i tag. ?st k = Some (Intro_record i, tag) \<and> ji_roomId i = se_roomId e
        \<and> (se_clientTxnId e, se_content e) \<in> set (map (\<lambda>x. (it_clientTxnId x, it_content x)) (ji_items i)))"
      using j by blast
  qed auto
qed

section \<open>The commands over the journal\<close>

text \<open>Identifiers from \<open>newId\<close> are of their own kind and unused (\<^verbatim>\<open>crypto.randomUUID\<close>).\<close>

definition freshIds :: "(ustring \<Rightarrow> bool) \<Rightarrow> ('w \<Rightarrow> (ustring \<rightharpoonup> journalRecord \<times> ustring)) \<Rightarrow> ('w \<Rightarrow> providerLog)
    \<Rightarrow> 'w channelContext \<Rightarrow> bool" where
  "freshIds generated stored plog ctx \<longleftrightarrow>
     (\<forall>w t w'. cx_newId ctx w = (Inr t, w') \<longrightarrow> generated t \<and> freshTxn (stored w) (plog w) t)"

text \<open>What a successful send promises.\<close>

definition delivered :: "platform \<Rightarrow> ustring \<Rightarrow> ustring \<Rightarrow> ustring \<Rightarrow> (sendState, channelRejection) operationResult \<Rightarrow> providerLog \<Rightarrow> bool" where
  "delivered pf roomId t digest r l \<longleftrightarrow> (\<forall>s. r = Op_ok s \<longrightarrow> (\<exists>e \<in> set (pl_sent l). se_accepted e \<and> se_roomId e = roomId
     \<and> se_clientTxnId e = t \<and> digestMessageContent pf (se_content e) = Inr digest))"

context channel_journal begin

lemma triple_transmit:
  assumes honest: "honestProvider stored plog ctx"
    and sent: "\<And>a st l. P st l \<Longrightarrow>
        Q a st (addSent \<lparr>se_roomId = roomId, se_clientTxnId = it_clientTxnId item, se_content = it_content item, se_accepted = a\<rparr> l)"
  shows "triple (\<lambda>w. P (stored w) (plog w)) (transmit ctx roomId item)
    (\<lambda>(x, rejection) w. x = item\<lparr>it_state := it_state x, it_eventRef := it_eventRef x\<rparr>
        \<and> (rejection \<noteq> None \<longrightarrow> it_state x \<noteq> Send_accepted) \<and> Q (it_state x = Send_accepted) (stored w) (plog w))
    (\<lambda>_ _. False)"
proof -
  let ?R = "\<lambda>r w. Q (accepted (Inr r)) (stored w) (plog w)"
  have send: "triple (\<lambda>w. P (stored w) (plog w)) (safeEffect (cx_sendEvent ctx roomId (it_clientTxnId item) (it_content item))) ?R (\<lambda>_ _. False)"
    unfolding safeEffect_def
    apply (rule triple_catch[where F = "\<lambda>_ w. Q False (stored w) (plog w)"])
     apply (rule tripleI)
    subgoal for w r w'
      using honestProviderD(6)[OF honest, of roomId "it_clientTxnId item" "it_content item" w "Inr r" w'] sent by simp
    subgoal for w e w'
      using honestProviderD(6)[OF honest, of roomId "it_clientTxnId item" "it_content item" w "Inl e" w'] sent[of "stored w" "plog w" False]
      by (simp add: accepted_def)
    apply (rule triple_ret)
    apply (simp add: accepted_def)
    done
  have echo: "triple (\<lambda>w. S (stored w) (plog w)) (updateS (cx_echo ctx roomId x g)) (\<lambda>_ w. S (stored w) (plog w)) (\<lambda>_ _. False)" for S x g
    using honestProviderD(8)[OF honest, of roomId x g] by (auto simp: keepsAll_def intro!: triple_update)
  have answer: "x = item\<lparr>it_state := it_state x, it_eventRef := it_eventRef x\<rparr>
      \<and> (rejection \<noteq> None \<longrightarrow> it_state x \<noteq> Send_accepted) \<and> (it_state x = Send_accepted) = accepted (Inr r)"
    if "sentItem ctx roomId item r = (x, rejection)" for r x rejection
    using that
    by (cases r) (auto simp: sentItem_def accepted_def)
  show ?thesis
    unfolding transmit_def
    apply (rule triple_bind[OF triple_read[where Q = "\<lambda>_ w. P (stored w) (plog w)"]])
     apply assumption
    apply (rule triple_bind[OF echo])
    apply (rule triple_bind[OF send])
    apply (rule triple_bind[OF echo])
    apply (rule triple_ret)
    subgoal for _ _ r _ w using answer[of r] by (cases "sentItem ctx roomId item r") auto
    done
qed

lemma triple_membershipGate:
  assumes "honestProvider stored plog ctx"
  shows "triple (\<lambda>w. P (stored w) (plog w)) (membershipGate ctx roomId) (\<lambda>_ w. P (stored w) (plog w)) (\<lambda>_ _. False)"
  unfolding membershipGate_def safeSubstrateRead_def
  apply (rule triple_bind[where R = "\<lambda>_ w. P (stored w) (plog w)"])
   apply (rule triple_catch[OF triple_post[OF triple_keeps[OF honestProviderD(5)[OF assms]]]])
     apply assumption+
   apply (rule triple_ret, assumption)+
  done

lemma triple_deliverSend:
  assumes journal: "cx_journal ctx = journal" and honest: "honestProvider stored plog ctx"
  shows "triple (\<lambda>w. messagesOk pf generated (stored w) (plog w) \<and> stored w (sendKey t) = Some (Send_record r, tag) \<and> js_roomId r = roomId)
    (deliverSend ctx roomId t r tag)
    (\<lambda>x w. messagesOk pf generated (stored w) (plog w) \<and> delivered pf roomId t (it_contentDigest (js_item r)) x (plog w))
    (\<lambda>_ w. messagesOk pf generated (stored w) (plog w))"
proof -
  let ?P = "\<lambda>st l. messagesOk pf generated st l \<and> st (sendKey t) = Some (Send_record r, tag) \<and> js_roomId r = roomId"
  let ?e = "\<lambda>a. \<lparr>se_roomId = roomId, se_clientTxnId = it_clientTxnId (js_item r), se_content = it_content (js_item r), se_accepted = a\<rparr>"
  let ?Q = "\<lambda>a st l. ?P st l \<and> ?e a \<in> set (pl_sent l)"
  let ?good = "\<lambda>l. it_clientTxnId (js_item r) = t \<and> digestMessageContent pf (it_content (js_item r)) = Inr (it_contentDigest (js_item r))"
  have sent: "?Q a st (addSent (?e a) l)" if "?P st l" for a st l
    using that messagesOk_sendEvent[of pf generated st l t r tag "?e a"] by simp
  have rewrite: "messagesOk pf generated (st(sendKey t \<mapsto> (Send_record (r\<lparr>js_item := (js_item r)\<lparr>it_state := s, it_eventRef := ref\<rparr>\<rparr>), tag'))) l"
    if "?Q a st l" "s = Send_accepted \<longleftrightarrow> a" for st l a s ref tag'
  proof (rule messagesOk_sendRecord)
    have "sendOk pf generated l (sendKey t) r" using messagesOkD(1) that(1) by blast
    then show "sendOk pf generated l (sendKey t) (r\<lparr>js_item := (js_item r)\<lparr>it_state := s, it_eventRef := ref\<rparr>\<rparr>)"
      using that by (cases a) (force simp: sendOk_def wasAccepted_def)+
  qed (use that in auto)
  have good: "?good l" if "?P st l" for st l
    using messagesOkD(1)[of pf generated st l "sendKey t" r tag] that by (auto simp: sendOk_def)
  show ?thesis
    unfolding deliverSend_def journal
    apply (rule triple_bind[where R = "\<lambda>_ w. ?P (stored w) (plog w)"])
     apply (rule triple_post[OF triple_membershipGate[OF honest, where P = ?P]])
      apply simp
     apply simp
    subgoal for room
    proof (cases room)
      case (Inl e)
      then show ?thesis by (auto intro!: triple_ret simp: delivered_def refuse_def split: refusal.split)
    next
      case (Inr summary)
      show ?thesis
        unfolding Inr sum.case
        apply (rule triple_bind[where E = "\<lambda>_ w. messagesOk pf generated (stored w) (plog w)"])
         apply (rule triple_post[OF triple_transmit[OF honest, where P = ?P and Q = ?Q, OF sent]])
           apply assumption+
         apply simp
        subgoal for x
        proof (cases x)
          case (Pair item rejection)
          show ?thesis
            unfolding Pair prod.case
            apply (rule triple_bind[where R = "\<lambda>_ w. messagesOk pf generated (stored w) (plog w) \<and> ?good (plog w)
                \<and> (rejection \<noteq> None \<longrightarrow> it_state item \<noteq> Send_accepted) \<and> (it_state item = Send_accepted \<longrightarrow> ?e True \<in> set (pl_sent (plog w)))"])
             apply (rule triple_post[OF triple_pre[OF triple_replace[where P = "\<lambda>st l. messagesOk pf generated st l \<and> ?good l
                \<and> (rejection \<noteq> None \<longrightarrow> it_state item \<noteq> Send_accepted) \<and> (it_state item = Send_accepted \<longrightarrow> ?e True \<in> set (pl_sent l))"]]])
            subgoal for w
              using good[of "stored w" "plog w"] rewrite[of "stored w" "plog w" "it_state item = Send_accepted" "it_state item" "it_eventRef item"]
              by (cases "it_state item = Send_accepted") auto
              apply blast
             apply blast
            apply (rule triple_ret)
            apply (force simp: delivered_def split: option.splits sendProgress.splits)
            done
        qed
        done
    qed
    done
qed

lemma accepted_delivered:
  assumes ok: "messagesOk pf generated st l" and r: "st (sendKey t) = Some (Send_record r, tag)"
    and acc: "it_state (js_item r) = Send_accepted" and room: "js_roomId r = roomId"
  shows "delivered pf roomId t (it_contentDigest (js_item r)) x l"
proof -
  note d = messagesOkD[OF ok]
  have s: "it_clientTxnId (js_item r) = t" "\<not> generated t" "digestMessageContent pf (it_content (js_item r)) = Inr (it_contentDigest (js_item r))"
    using d(1)[OF r] by (auto simp: sendOk_def)
  obtain e where e: "e \<in> set (pl_sent l)" "se_accepted e" "se_clientTxnId e = t"
    using d(1)[OF r] acc s(1) by (auto simp: sendOk_def wasAccepted_def)
  have "\<not> (se_clientTxnId e, se_content e) \<in> set (map (\<lambda>x. (it_clientTxnId x, it_content x)) (ji_items i))"
    if "st k = Some (Intro_record i, g)" for k i g
    using d(2)[OF that] s(2) e(3) by (auto simp: list_all_iff)
  then have "se_roomId e = roomId" "se_content e = it_content (js_item r)"
    using d(4)[OF e(1)] r e(3) room unfolding eventFrom_def by auto
  then show ?thesis using e s(3) by (auto simp: delivered_def)
qed

lemma triple_resumeSend:
  assumes journal: "cx_journal ctx = journal" and honest: "honestProvider stored plog ctx"
  shows "triple (\<lambda>w. messagesOk pf generated (stored w) (plog w) \<and> stored w (sendKey t) = Some (entry, tag))
    (resumeSend ctx roomId t intent entry tag)
    (\<lambda>x w. messagesOk pf generated (stored w) (plog w) \<and> delivered pf roomId t (it_contentDigest (js_item intent)) x (plog w))
    (\<lambda>_ w. messagesOk pf generated (stored w) (plog w))"
proof (cases entry)
  case (Send_record found)
  show ?thesis
    unfolding resumeSend_def Send_record journalRecord.case
    apply (intro triple_if triple_ret)
       apply (simp add: delivered_def)
      apply (auto dest: accepted_delivered)[1]
     apply (simp add: delivered_def)
    apply (rule triple_post[OF triple_pre[OF triple_deliverSend[OF journal honest]]])
      apply auto
    done
qed (simp add: resumeSend_def, rule triple_ret, simp add: delivered_def)+

lemma triple_sendMessage:
  assumes journal: "cx_journal ctx = journal" and honest: "honestProvider stored plog ctx" and t: "\<not> generated t"
  shows "triple (\<lambda>w. messagesOk (cx_platform ctx) generated (stored w) (plog w))
    (sendMessage ctx signal roomId t content)
    (\<lambda>x w. messagesOk (cx_platform ctx) generated (stored w) (plog w)
        \<and> (\<forall>s. x = Op_ok s \<longrightarrow> (\<exists>m digest. digestContent ctx content = Inr (m, digest) \<and> delivered (cx_platform ctx) roomId t digest x (plog w))))
    (\<lambda>_ w. messagesOk (cx_platform ctx) generated (stored w) (plog w))"
proof (cases "digestContent ctx content")
  case (Inl r)
  then show ?thesis by (auto simp: sendMessage_def refuse_def intro!: triple_ret split: refusal.split)
next
  case (Inr md)
  obtain m digest where md: "digestContent ctx content = Inr (m, digest)" using Inr by (cases md) simp
  let ?intent = "\<lambda>d. sendIntent ctx roomId t d m digest"
  have digest: "digestMessageContent (cx_platform ctx) m = Inr digest"
    using md by (auto simp: digestContent_def split: sum.splits decodeFailure.splits digestError.splits)
  have new: "messagesOk (cx_platform ctx) generated (st(sendKey t \<mapsto> (Send_record (?intent d), tag))) l"
    if "messagesOk (cx_platform ctx) generated st l" "st (sendKey t) = None" for st l d tag
    by (rule messagesOk_sendRecord[OF that(1)]) (use that t digest in \<open>simp_all add: sendOk_def sendIntent_def\<close>)
  have claim: "triple (\<lambda>w. messagesOk (cx_platform ctx) generated (stored w) (plog w)) (cj_claim journal (sendKey t) (Send_record (?intent d)))
     (\<lambda>c w. messagesOk (cx_platform ctx) generated (stored w) (plog w) \<and> (case c of Jc_claimed tag \<Rightarrow> stored w (sendKey t) = Some (Send_record (?intent d), tag)
        | Jc_exists v' tag \<Rightarrow> stored w (sendKey t) = Some (v', tag) | Jc_unavailable \<Rightarrow> True))
     (\<lambda>_ w. messagesOk (cx_platform ctx) generated (stored w) (plog w))" for d
    by (rule triple_pre[OF triple_claim[where P = "messagesOk (cx_platform ctx) generated"]]) (auto intro: new)
  have intent: "js_roomId (?intent d) = roomId" "it_contentDigest (js_item (?intent d)) = digest" for d
    by (simp_all add: sendIntent_def)
  show ?thesis
    unfolding sendMessage_def md sum.case prod.case Let_def journal
    apply (rule triple_if)
     apply (rule triple_ret)
     apply simp
    apply (rule triple_bind[OF triple_read[where Q = "\<lambda>_ w. messagesOk (cx_platform ctx) generated (stored w) (plog w)"]])
     apply assumption
    subgoal for gate
      apply (cases gate)
       apply (simp add: refuse_def triple_ret split: refusal.split)
      subgoal for d
        apply (simp only: sum.case)
        apply (rule triple_bind[OF claim])
        subgoal for c
          apply (cases c; simp only: journalClaiming.case)
            apply (rule triple_post[OF triple_pre[OF triple_deliverSend[OF journal honest, where pf = "cx_platform ctx" and generated = generated]]])
              apply (simp add: intent)
            subgoal for _ x by (cases x) (simp_all add: intent)
            apply assumption
           apply (rule triple_post[OF triple_pre[OF triple_resumeSend[OF journal honest, where pf = "cx_platform ctx" and generated = generated]]])
             apply simp
           subgoal for _ _ x by (cases x) (simp_all add: intent)
           apply assumption
          apply (rule triple_ret)
          apply simp
          done
        done
      done
    done
qed

section \<open>Intro batches over the journal\<close>

lemma triple_introLoop:
  assumes journal: "cx_journal ctx = journal" and honest: "honestProvider stored plog ctx"
  shows "triple (\<lambda>w. messagesOk pf generated (stored w) (plog w)
      \<and> stored w (introKey b) = Some (Intro_record (i\<lparr>ji_items := passed @ rest\<rparr>), tag)
      \<and> (\<forall>x \<in> set passed. it_state x = Send_accepted))
    (introLoop ctx b i tag passed rest)
    (\<lambda>_ w. messagesOk pf generated (stored w) (plog w))
    (\<lambda>_ w. messagesOk pf generated (stored w) (plog w))"
proof (induction rest arbitrary: passed tag)
  case Nil
  show ?case unfolding introLoop.simps by (rule triple_ret) blast
next
  case (Cons item rest)
  let ?P = "\<lambda>st l. messagesOk pf generated st l \<and> st (introKey b) = Some (Intro_record (i\<lparr>ji_items := passed @ item # rest\<rparr>), tag)
      \<and> (\<forall>x \<in> set passed. it_state x = Send_accepted)"
  let ?e = "\<lambda>a. \<lparr>se_roomId = ji_roomId i, se_clientTxnId = it_clientTxnId item, se_content = it_content item, se_accepted = a\<rparr>"
  let ?new = "\<lambda>x. i\<lparr>ji_items := passed @ item\<lparr>it_state := it_state x, it_eventRef := it_eventRef x\<rparr> # rest\<rparr>"
  let ?Q = "\<lambda>a st l. ?P st l \<and> (\<forall>s ref. (s = Send_accepted) = a \<longrightarrow>
      introOk l (i\<lparr>ji_items := passed @ item\<lparr>it_state := s, it_eventRef := ref\<rparr> # rest\<rparr>))"
  show ?case
  proof (cases "it_state item = Send_accepted")
    case True
    then show ?thesis
      by simp (rule triple_pre[OF Cons.IH], auto)
  next
    case False
    have sent: "?Q a st (addSent (?e a) l)" if "?P st l" for a st l
    proof -
      let ?i = "i\<lparr>ji_items := passed @ item # rest\<rparr>"
      have ok: "introOk l ?i" using messagesOkD(2) that by blast
      note step = introOk_attempt[OF ok _ _ False, of passed rest "?e a"]
      have "messagesOk pf generated st (addSent (?e a) l)"
        by (rule messagesOk_introEvent[where i = ?i and passed = passed and item = item and rest = rest and k = "introKey b"])
          (use that False in auto)
      moreover have "introOk (addSent (?e a) l) (i\<lparr>ji_items := passed @ item\<lparr>it_state := s, it_eventRef := ref\<rparr> # rest\<rparr>)"
        if "(s = Send_accepted) = a" for s ref
        using step(2)[of ref] step(3)[of s ref] \<open>?P st l\<close> that by (cases a) auto
      ultimately show ?thesis using that by simp
    qed
    have rewrite: "messagesOk pf generated (st(introKey b \<mapsto> (Intro_record (?new x), tag'))) l"
      if "?Q (it_state x = Send_accepted) st l" for st l x tag'
      by (rule messagesOk_introRecord[where i = "i\<lparr>ji_items := passed @ item # rest\<rparr>" and tag = tag]) (use that in auto)
    show ?thesis
      unfolding introLoop.simps if_not_P[OF False]
      apply (rule triple_bind[where E = "\<lambda>_ w. messagesOk pf generated (stored w) (plog w)"])
       apply (rule triple_post[OF triple_transmit[OF honest, where P = ?P and Q = ?Q, OF sent]])
         apply assumption+
       apply simp
      subgoal for x
      proof (cases x)
        case (Pair y rejection)
        show ?thesis
          unfolding Pair prod.case journal
          apply (rule triple_bind[where R = "\<lambda>x w. messagesOk pf generated (stored w) (plog w) \<and> (\<forall>x \<in> set passed. it_state x = Send_accepted)
              \<and> (\<forall>tag'. x = Jw_stored tag' \<longrightarrow> stored w (introKey b) = Some (Intro_record (i\<lparr>ji_items := passed @ y # rest\<rparr>), tag'))"])
           apply (rule triple_post[OF triple_pre[OF triple_replace[where P = "\<lambda>st l. messagesOk pf generated st l \<and> (\<forall>x \<in> set passed. it_state x = Send_accepted)"]]])
          subgoal for w
            using rewrite[of "stored w" "plog w" y] by auto
            apply blast
           apply blast
          subgoal for z
            apply (cases rejection; simp only: option.case)
             apply (cases z; simp only: journalWriting.case)
               apply (rule triple_if)
                apply (rule triple_pre[OF Cons.IH])
                apply auto[1]
               apply (rule triple_ret, blast)+
            done
          done
      qed
      done
  qed
qed

lemma triple_runIntro:
  assumes journal: "cx_journal ctx = journal" and honest: "honestProvider stored plog ctx"
  shows "triple (\<lambda>w. messagesOk pf generated (stored w) (plog w) \<and> stored w (introKey b) = Some (Intro_record i, tag))
    (runIntro ctx b i tag)
    (\<lambda>_ w. messagesOk pf generated (stored w) (plog w))
    (\<lambda>_ w. messagesOk pf generated (stored w) (plog w))"
  unfolding runIntro_def
  apply (rule triple_bind)
   apply (rule triple_post[OF triple_membershipGate[OF honest, where P = "\<lambda>st l. messagesOk pf generated st l \<and> st (introKey b) = Some (Intro_record i, tag)"]])
    apply assumption
   apply simp
  subgoal for room
    apply (cases room; simp only: sum.case)
     apply (rule triple_ret, blast)
    apply (rule triple_pre[OF triple_introLoop[OF assms]])
    apply simp
    done
  done

lemma triple_resumeRecord:
  assumes journal: "cx_journal ctx = journal" and honest: "honestProvider stored plog ctx"
  shows "triple (\<lambda>w. messagesOk pf generated (stored w) (plog w) \<and> stored w (introKey b) = Some (Intro_record i, tag))
    (resumeRecord ctx signal b i tag)
    (\<lambda>_ w. messagesOk pf generated (stored w) (plog w))
    (\<lambda>_ w. messagesOk pf generated (stored w) (plog w))"
  unfolding resumeRecord_def
  apply (rule triple_if)
   apply (rule triple_ret, blast)
  apply (rule triple_bind[OF triple_read[where Q = "\<lambda>_ w. messagesOk pf generated (stored w) (plog w) \<and> stored w (introKey b) = Some (Intro_record i, tag)"]])
   apply assumption
  subgoal for gate
    apply (cases gate; simp only: sum.case)
     apply (rule triple_ret, blast)
    apply (rule triple_if)
     apply (rule triple_ret, blast)
    apply (rule triple_runIntro[OF assms])
    done
  done

lemma triple_introItems:
  assumes honest: "honestProvider stored plog ctx" and ids: "freshIds generated stored plog ctx"
  shows "triple (\<lambda>w. stored w = st \<and> plog w = l) (introItems ctx ms)
    (\<lambda>x w. (stored w = st \<and> plog w = l) \<and> (\<forall>items. x = Inr items \<longrightarrow>
        (\<forall>item \<in> set items. generated (it_clientTxnId item) \<and> freshTxn st l (it_clientTxnId item) \<and> it_state item \<noteq> Send_accepted)))
    (\<lambda>_ w. stored w = st \<and> plog w = l)"
proof (induction ms)
  case Nil
  show ?case unfolding introItems.simps by (rule triple_ret) simp
next
  case (Cons m ms)
  have new: "triple (\<lambda>w. stored w = st \<and> plog w = l) (cx_newId ctx)
      (\<lambda>t w. (stored w = st \<and> plog w = l) \<and> generated t \<and> freshTxn st l t) (\<lambda>_ w. stored w = st \<and> plog w = l)"
    using honestProviderD(7)[OF honest] ids unfolding keepsAll_def freshIds_def by (intro tripleI) blast+
  show ?case
  proof (cases "digestContent ctx m")
    case (Inl r)
    show ?thesis unfolding introItems.simps Inl sum.case by (rule triple_ret) simp
  next
    case (Inr md)
    then obtain c d where md: "digestContent ctx m = Inr (c, d)" by (cases md) simp
    show ?thesis
      unfolding introItems.simps md sum.case prod.case
      apply (rule triple_bind[OF new])
      subgoal for t
        apply (rule triple_pure[where b = "generated t \<and> freshTxn st l t"])
         apply blast
        apply (rule triple_bind[OF triple_pre[OF Cons.IH]])
         apply blast
        apply (rule triple_ret)
        apply (auto split: sum.splits)
        done
      done
  qed
qed

lemma triple_prepareIntro:
  assumes journal: "cx_journal ctx = journal" and honest: "honestProvider stored plog ctx" and ids: "freshIds generated stored plog ctx"
  shows "triple (\<lambda>w. messagesOk pf generated (stored w) (plog w)) (prepareIntro ctx signal roomId b ms)
    (\<lambda>_ w. messagesOk pf generated (stored w) (plog w))
    (\<lambda>_ w. messagesOk pf generated (stored w) (plog w))"
proof -
  let ?ok = "\<lambda>w. messagesOk pf generated (stored w) (plog w)"
  let ?fresh = "\<lambda>w items. \<forall>item \<in> set items. generated (it_clientTxnId item) \<and> freshTxn (stored w) (plog w) (it_clientTxnId item) \<and> it_state item \<noteq> Send_accepted"
  have items: "triple ?ok (introItems ctx ms) (\<lambda>x w. ?ok w \<and> (\<forall>items. x = Inr items \<longrightarrow> ?fresh w items)) (\<lambda>_ w. ?ok w)"
  proof (rule tripleI)
    fix w x w'
    assume ok: "?ok w" and run: "introItems ctx ms w = (Inr x, w')"
    show "?ok w' \<and> (\<forall>items. x = Inr items \<longrightarrow> ?fresh w' items)"
      using tripleD(1)[OF triple_introItems[OF honest ids] _ run, of "stored w" "plog w"] ok by simp
  next
    fix w e w'
    assume ok: "?ok w" and run: "introItems ctx ms w = (Inl e, w')"
    show "?ok w'" using tripleD(2)[OF triple_introItems[OF honest ids] _ run, of "stored w" "plog w"] ok by simp
  qed
  have claim: "triple (\<lambda>w. ?ok w \<and> ?fresh w items)
      (cj_claim journal (introKey b) (Intro_record \<lparr>ji_roomId = roomId, ji_author = a, ji_items = items\<rparr>))
      (\<lambda>c w. ?ok w \<and> (case c of Jc_claimed tag \<Rightarrow> stored w (introKey b) = Some (Intro_record \<lparr>ji_roomId = roomId, ji_author = a, ji_items = items\<rparr>, tag)
        | Jc_exists v' tag \<Rightarrow> stored w (introKey b) = Some (v', tag) | Jc_unavailable \<Rightarrow> True))
      (\<lambda>_ w. ?ok w)" if "distinct (map it_clientTxnId items)" for a items
    by (rule triple_pre[OF triple_claim[where P = "messagesOk pf generated"]]) (use that in \<open>auto intro!: messagesOk_newIntro\<close>)
  show ?thesis
    unfolding prepareIntro_def Let_def journal
    apply (rule triple_if)
     apply (rule triple_ret, assumption)
    apply (rule triple_bind[OF items])
    subgoal for prepared
      apply (cases prepared; simp only: sum.case)
       apply (rule triple_ret, blast)
      subgoal for items
        apply (rule triple_bind[OF triple_read[where Q = "\<lambda>_ w. ?ok w \<and> ?fresh w items"]])
         apply simp
        subgoal for gate
          apply (cases gate; simp only: sum.case)
           apply (rule triple_ret, blast)
          apply (rule triple_if)
           apply (rule triple_ret, blast)
          apply (rule triple_bind[OF claim])
           apply simp
          subgoal for d c
            apply (cases c; simp only: journalClaiming.case)
              apply (rule triple_runIntro[OF journal honest])
            subgoal for entry tag
              apply (cases entry; simp only: journalRecord.case)
                apply (rule triple_ret, blast)+
              apply (rule triple_if)
               apply (rule triple_ret, blast)
              apply (rule triple_resumeRecord[OF journal honest])
              done
            apply (rule triple_ret, blast)
            done
          done
        done
      done
    done
qed

lemma triple_resumeIntro:
  assumes journal: "cx_journal ctx = journal" and honest: "honestProvider stored plog ctx"
  shows "triple (\<lambda>w. messagesOk pf generated (stored w) (plog w)) (resumeIntro ctx signal b)
    (\<lambda>_ w. messagesOk pf generated (stored w) (plog w))
    (\<lambda>_ w. messagesOk pf generated (stored w) (plog w))"
  unfolding resumeIntro_def journal
  apply (rule triple_if)
   apply (rule triple_ret, assumption)
  apply (rule triple_bind[OF triple_readJournal[where P = "messagesOk pf generated"]])
  subgoal for x
    apply (cases x; simp only: journalReading.case)
      apply (rule triple_ret, blast)
    subgoal for entry tag
      apply (cases entry; simp only: journalRecord.case)
        apply (rule triple_ret, blast)+
      apply (rule triple_pre[OF triple_resumeRecord[OF journal honest]])
      apply blast
      done
    apply (rule triple_ret, blast)
    done
  done

end

end
