(* ===== verification/ChannelRuns.thy ===== *)
theory ChannelRuns
  imports ChannelMessages
begin

text \<open>
  The runs of the channel client over the process-memory journal, and what holds in every one of them.
\<close>

section \<open>Sends and intros leave the channels alone\<close>

context channel_journal begin

lemma triple_transmitKeeps:
  assumes honest: "honestProvider stored plog ctx" and sent: "\<And>st l e. P st l \<Longrightarrow> P st (addSent e l)"
  shows "triple (\<lambda>w. P (stored w) (plog w)) (transmit ctx roomId item) (\<lambda>_ w. P (stored w) (plog w)) (\<lambda>_ w. P (stored w) (plog w))"
  by (rule triple_post[OF triple_transmit[OF honest, where P = P and Q = "\<lambda>_. P"]]) (auto intro: sent)

lemma triple_writesKeep:
  assumes records: "\<And>st l tag. P st l \<Longrightarrow> P (st(k \<mapsto> (v, tag))) l"
  shows "triple (\<lambda>w. P (stored w) (plog w)) (cj_claim journal k v) (\<lambda>_ w. P (stored w) (plog w)) (\<lambda>_ w. P (stored w) (plog w))"
    and "triple (\<lambda>w. P (stored w) (plog w)) (cj_replace journal k e v) (\<lambda>_ w. P (stored w) (plog w)) (\<lambda>_ w. P (stored w) (plog w))"
    and "triple (\<lambda>w. P (stored w) (plog w)) (cj_read journal k) (\<lambda>_ w. P (stored w) (plog w)) (\<lambda>_ w. P (stored w) (plog w))"
  by (rule triple_post[OF triple_pre[OF triple_claim[where P = P]]], auto intro: records)
    (rule triple_post[OF triple_pre[OF triple_replace[where P = P]]] triple_post[OF triple_readJournal[where P = P]], auto intro: records)+

lemma triple_gateKeeps:
  assumes "honestProvider stored plog ctx"
  shows "triple (\<lambda>w. P (stored w) (plog w)) (membershipGate ctx roomId) (\<lambda>_ w. P (stored w) (plog w)) (\<lambda>_ w. P (stored w) (plog w))"
  by (rule triple_post[OF triple_membershipGate[OF assms]]) auto

lemma triple_readKeeps:
  "triple (\<lambda>w. P (stored w) (plog w)) (readS f) (\<lambda>_ w. P (stored w) (plog w)) (\<lambda>_ w. P (stored w) (plog w))"
  by (rule triple_read)

lemma triple_sendKeeps:
  assumes journal: "cx_journal ctx = journal" and honest: "honestProvider stored plog ctx"
    and sent: "\<And>st l e. P st l \<Longrightarrow> P st (addSent e l)" and records: "\<And>st l k r tag. P st l \<Longrightarrow> P (st(sendKey k \<mapsto> (Send_record r, tag))) l"
  shows "triple (\<lambda>w. P (stored w) (plog w)) (sendMessage ctx signal roomId t content) (\<lambda>_ w. P (stored w) (plog w)) (\<lambda>_ w. P (stored w) (plog w))"
proof -
  let ?K = "\<lambda>m. triple (\<lambda>w. P (stored w) (plog w)) m (\<lambda>_ w. P (stored w) (plog w)) (\<lambda>_ w. P (stored w) (plog w))"
  have deliver: "?K (deliverSend ctx roomId t r tag)" for r tag
    unfolding deliverSend_def journal
    apply (rule triple_bind[OF triple_gateKeeps[where P = P, OF honest]])
    subgoal for x
      apply (cases x; simp only: sum.case)
       apply (rule triple_ret, assumption)
      apply (rule triple_bind[OF triple_transmitKeeps[where P = P, OF honest sent]], assumption)
      apply (simp only: split_beta)
      apply (rule triple_bind[OF triple_writesKeep(2)[where P = P, OF records]], assumption)
      apply (rule triple_ret, assumption)
      done
    done
  have resume: "?K (resumeSend ctx roomId t intent entry tag)" for intent entry tag
    unfolding resumeSend_def
    by (cases entry; simp only: journalRecord.case; intro triple_if deliver triple_ret, assumption+)
  show ?thesis
    unfolding sendMessage_def Let_def journal
    apply (rule triple_if)
     apply (rule triple_ret, assumption)
    apply (cases "digestContent ctx content"; simp only: sum.case)
     apply (rule triple_ret, assumption)
    apply (simp only: split_beta)
    apply (rule triple_bind[OF triple_readKeeps[where P = P]])
    subgoal for md gate
      apply (cases gate; simp only: sum.case)
       apply (rule triple_ret, assumption)
      apply (rule triple_bind[OF triple_writesKeep(1)[where P = P, OF records]], assumption)
      subgoal for d c
        by (cases c; simp only: journalClaiming.case) (rule deliver resume triple_ret, assumption?)+
      done
    done
qed

lemma triple_introKeeps:
  assumes journal: "cx_journal ctx = journal" and honest: "honestProvider stored plog ctx"
    and sent: "\<And>st l e. P st l \<Longrightarrow> P st (addSent e l)" and records: "\<And>st l k r tag. P st l \<Longrightarrow> P (st(introKey k \<mapsto> (Intro_record r, tag))) l"
  shows "triple (\<lambda>w. P (stored w) (plog w)) (prepareIntro ctx signal roomId b ms) (\<lambda>_ w. P (stored w) (plog w)) (\<lambda>_ w. P (stored w) (plog w))"
    and "triple (\<lambda>w. P (stored w) (plog w)) (resumeIntro ctx signal b) (\<lambda>_ w. P (stored w) (plog w)) (\<lambda>_ w. P (stored w) (plog w))"
proof -
  let ?K = "\<lambda>m. triple (\<lambda>w. P (stored w) (plog w)) m (\<lambda>_ w. P (stored w) (plog w)) (\<lambda>_ w. P (stored w) (plog w))"
  have loop: "?K (introLoop ctx b i tag passed rest)" for i tag passed rest
  proof (induction rest arbitrary: passed tag)
    case Nil
    show ?case unfolding introLoop.simps by (rule triple_ret)
  next
    case (Cons item rest)
    show ?case
      unfolding introLoop.simps journal split_beta
      apply (rule triple_if)
       apply (rule Cons.IH)
      apply (rule triple_bind[OF triple_transmitKeeps[where P = P, OF honest sent]], assumption)
      apply (rule triple_bind[OF triple_writesKeep(2)[where P = P, OF records]], assumption)
      subgoal for x z
        apply (cases "snd x"; simp only: option.case)
         apply (cases z; simp only: journalWriting.case)
           apply (rule triple_if)
            apply (rule Cons.IH)
           apply (rule triple_ret, assumption)+
        done
      done
  qed
  have run: "?K (runIntro ctx b i tag)" for i tag
    unfolding runIntro_def
    apply (rule triple_bind[OF triple_gateKeeps[where P = P, OF honest]])
    subgoal for x by (cases x; simp only: sum.case) (rule loop triple_ret, assumption?)+
    done
  have resume: "?K (resumeRecord ctx signal b i tag)" for i tag
    unfolding resumeRecord_def
    apply (rule triple_if)
     apply (rule triple_ret, assumption)
    apply (rule triple_bind[OF triple_readKeeps[where P = P]])
    subgoal for gate
      apply (cases gate; simp only: sum.case)
       apply (rule triple_ret, assumption)
      apply (intro triple_if run triple_ret, assumption)
      done
    done
  have items: "?K (introItems ctx ms)"
  proof (induction ms)
    case Nil
    show ?case unfolding introItems.simps by (rule triple_ret)
  next
    case (Cons m ms)
    show ?case
      unfolding introItems.simps split_beta
      apply (cases "digestContent ctx m"; simp only: sum.case)
       apply (rule triple_ret, assumption)
      apply (rule triple_bind[OF triple_keeps[where P = P, OF honestProviderD(7)[OF honest]]])
      apply (rule triple_bind[OF Cons.IH])
      apply (rule triple_ret, assumption)
      done
  qed
  show "?K (prepareIntro ctx signal roomId b ms)"
    unfolding prepareIntro_def Let_def journal
    apply (rule triple_if)
     apply (rule triple_ret, assumption)
    apply (rule triple_bind[OF items])
    subgoal for prepared
      apply (cases prepared; simp only: sum.case)
       apply (rule triple_ret, assumption)
      apply (rule triple_bind[OF triple_readKeeps[where P = P]])
      subgoal for xs gate
        apply (cases gate; simp only: sum.case)
         apply (rule triple_ret, assumption)
        apply (rule triple_if)
         apply (rule triple_ret, assumption)
        apply (rule triple_bind[OF triple_writesKeep(1)[where P = P, OF records]], assumption)
        subgoal for d c
          apply (cases c; simp only: journalClaiming.case)
            apply (rule run)
          subgoal for entry tag
            by (cases entry; simp only: journalRecord.case) (intro triple_if resume triple_ret, assumption+)+
          apply (rule triple_ret, assumption)
          done
        done
      done
    done
  show "?K (resumeIntro ctx signal b)"
    unfolding resumeIntro_def journal
    apply (rule triple_if)
     apply (rule triple_ret, assumption)
    apply (rule triple_bind[OF triple_writesKeep(3)[where P = P, OF records]], assumption)
    subgoal for x
      apply (cases x; simp only: journalReading.case)
        apply (rule triple_ret, assumption)
      subgoal for entry tag
        by (cases entry; simp only: journalRecord.case) (rule resume triple_ret, assumption?)+
      apply (rule triple_ret, assumption)
      done
    done
qed

end

lemma one_message:
  assumes ok: "messagesOk pf generated st l" and e: "e \<in> set (pl_sent l)" "e' \<in> set (pl_sent l)" "se_clientTxnId e = se_clientTxnId e'"
  shows "se_roomId e = se_roomId e' \<and> se_content e = se_content e'"
proof -
  note d = messagesOkD[OF ok]
  have send: "\<not> generated (se_clientTxnId e)" if "st (sendKey (se_clientTxnId e)) = Some (Send_record r, tag)" for r tag
    using d(1)[OF that] by (auto simp: sendOk_def)
  have intro: "generated (se_clientTxnId x) \<and> se_clientTxnId x \<in> set (introTxns i)" if "st k = Some (Intro_record i, tag)"
    "(se_clientTxnId x, se_content x) \<in> set (map (\<lambda>x. (it_clientTxnId x, it_content x)) (ji_items i))" for k i tag x
    using d(2)[OF that(1)] that(2) by (auto simp: list_all_iff)
  have item: "c = c'" if "st k = Some (Intro_record i, tag)" "(t, c) \<in> set (map (\<lambda>x. (it_clientTxnId x, it_content x)) (ji_items i))"
    "(t, c') \<in> set (map (\<lambda>x. (it_clientTxnId x, it_content x)) (ji_items i))" for k i tag t c c'
  proof -
    have "distinct (map fst (map (\<lambda>x. (it_clientTxnId x, it_content x)) (ji_items i)))"
      using d(2)[OF that(1)] by (simp add: introOk_def comp_def)
    then show ?thesis using that(2,3) by (rule eq_key_imp_eq_value)
  qed
  from d(4)[OF e(1)] d(4)[OF e(2)] show ?thesis
    unfolding eventFrom_def
  proof (elim disjE exE conjE)
    fix k i tag k' i' tag'
    assume a: "st k = Some (Intro_record i, tag)" "(se_clientTxnId e, se_content e) \<in> set (map (\<lambda>x. (it_clientTxnId x, it_content x)) (ji_items i))"
      "st k' = Some (Intro_record i', tag')" "(se_clientTxnId e', se_content e') \<in> set (map (\<lambda>x. (it_clientTxnId x, it_content x)) (ji_items i'))"
      "ji_roomId i = se_roomId e" "ji_roomId i' = se_roomId e'"
    have "k = k'" using d(3)[OF a(1,3)] intro[OF a(1,2)] intro[OF a(3,4)] e(3) by auto
    then have "i' = i" using a(1,3) by simp
    then show ?thesis using item[OF a(1,2), of "se_content e'"] a(4-6) e(3) by simp
  next
    fix r tag k i tag'
    assume "st (sendKey (se_clientTxnId e)) = Some (Send_record r, tag)" "st k = Some (Intro_record i, tag')"
      "(se_clientTxnId e', se_content e') \<in> set (map (\<lambda>x. (it_clientTxnId x, it_content x)) (ji_items i))"
    then show ?thesis using send intro[of k i tag' e'] e(3) by auto
  next
    fix r tag k i tag'
    assume "st (sendKey (se_clientTxnId e')) = Some (Send_record r, tag)" "st k = Some (Intro_record i, tag')"
      "(se_clientTxnId e, se_content e) \<in> set (map (\<lambda>x. (it_clientTxnId x, it_content x)) (ji_items i))"
    then show ?thesis using send[of r tag] intro[of k i tag' e] e(3) by auto
  qed (use e(3) in auto)
qed

section \<open>Runs over the process-memory journal\<close>

text \<open>The tabs' common world: the provider's part and the journal's map.\<close>

type_synonym 'p clientWorld = "'p \<times> memoryJournal"

definition sharedJournal :: "'p clientWorld channelJournal" where
  "sharedJournal = createMemoryChannelJournal snd (\<lambda>m w. (fst w, m))"

interpretation memory: channel_journal sharedJournal "\<lambda>w. mj_records (snd w)" "\<lambda>w. plog (fst w)" for plog
proof
  show "mj_records (snd w') = mj_records (snd w) \<and> plog (fst w') = plog (fst w)
      \<and> (\<forall>v tag. r = Inr (Jr_record v tag) \<longrightarrow> mj_records (snd w) k = Some (v, tag))"
    if "cj_read sharedJournal k w = (r, w')" for k w r w'
    using that by (auto simp: sharedJournal_def createMemoryChannelJournal_def memoryRead_def split: option.splits)
  show "plog (fst w') = plog (fst w) \<and> (case c of
        Inr (Jc_claimed tag) \<Rightarrow> mj_records (snd w) k = None \<and> mj_records (snd w') = (mj_records (snd w))(k \<mapsto> (v, tag))
      | Inr (Jc_exists v' tag) \<Rightarrow> mj_records (snd w) k = Some (v', tag) \<and> mj_records (snd w') = mj_records (snd w)
      | _ \<Rightarrow> mj_records (snd w') = mj_records (snd w)
          \<or> (mj_records (snd w) k = None \<and> (\<exists>tag. mj_records (snd w') = (mj_records (snd w))(k \<mapsto> (v, tag)))))"
    if "cj_claim sharedJournal k v w = (c, w')" for k v w c w'
    using that by (auto simp: sharedJournal_def createMemoryChannelJournal_def memoryClaim_def memoryStore_def Let_def split: option.splits)
  show "plog (fst w') = plog (fst w) \<and> (case x of
        Inr (Jw_stored tag) \<Rightarrow> map_option snd (mj_records (snd w) k) = Some expected \<and> mj_records (snd w') = (mj_records (snd w))(k \<mapsto> (v, tag))
      | Inr Jw_conflict \<Rightarrow> mj_records (snd w') = mj_records (snd w)
      | _ \<Rightarrow> mj_records (snd w') = mj_records (snd w)
          \<or> (map_option snd (mj_records (snd w) k) = Some expected \<and> (\<exists>tag. mj_records (snd w') = (mj_records (snd w))(k \<mapsto> (v, tag)))))"
    if "cj_replace sharedJournal k expected v w = (x, w')" for k expected v w x w'
    using that by (auto simp: sharedJournal_def createMemoryChannelJournal_def memoryReplace_def memoryStore_def Let_def split: if_splits)
qed

text \<open>A tab: a context over the common journal and an honest provider.\<close>

definition clientTab :: "platform \<Rightarrow> (ustring \<Rightarrow> bool) \<Rightarrow> ('p \<Rightarrow> providerLog) \<Rightarrow> 'p clientWorld channelContext \<Rightarrow> bool" where
  "clientTab pf generated plog ctx \<longleftrightarrow> cx_journal ctx = sharedJournal \<and> cx_platform ctx = pf
     \<and> honestProvider (\<lambda>w. mj_records (snd w)) (\<lambda>w. plog (fst w)) ctx
     \<and> freshIds generated (\<lambda>w. mj_records (snd w)) (\<lambda>w. plog (fst w)) ctx"

text \<open>The worlds that the commands of any tabs reach, one command after the other; between commands anything may happen that
  leaves the journal and the provider's log alone. The user's transaction identifiers are not of the generated kind.\<close>

inductive clientRun :: "platform \<Rightarrow> (ustring \<Rightarrow> bool) \<Rightarrow> ('p \<Rightarrow> providerLog) \<Rightarrow> 'p clientWorld \<Rightarrow> bool"
  for pf generated plog where
  start: "mj_records (snd w) = Map.empty \<Longrightarrow> pl_created (plog (fst w)) = (\<lambda>_. []) \<Longrightarrow> pl_sent (plog (fst w)) = []
    \<Longrightarrow> clientRun pf generated plog w"
| create: "clientRun pf generated plog w \<Longrightarrow> clientTab pf generated plog ctx
    \<Longrightarrow> createChannel ctx signal op title w = (r, w') \<Longrightarrow> clientRun pf generated plog w'"
| send: "clientRun pf generated plog w \<Longrightarrow> clientTab pf generated plog ctx \<Longrightarrow> \<not> generated t
    \<Longrightarrow> sendMessage ctx signal roomId t content w = (s, w') \<Longrightarrow> clientRun pf generated plog w'"
| prepare: "clientRun pf generated plog w \<Longrightarrow> clientTab pf generated plog ctx
    \<Longrightarrow> prepareIntro ctx signal roomId b ms w = (x, w') \<Longrightarrow> clientRun pf generated plog w'"
| resume: "clientRun pf generated plog w \<Longrightarrow> clientTab pf generated plog ctx
    \<Longrightarrow> resumeIntro ctx signal b w = (x, w') \<Longrightarrow> clientRun pf generated plog w'"
| pass: "clientRun pf generated plog w \<Longrightarrow> snd w' = snd w \<Longrightarrow> plog (fst w') = plog (fst w) \<Longrightarrow> clientRun pf generated plog w'"

definition runOk :: "platform \<Rightarrow> (ustring \<Rightarrow> bool) \<Rightarrow> ('p \<Rightarrow> providerLog) \<Rightarrow> 'p clientWorld \<Rightarrow> bool" where
  "runOk pf generated plog w \<longleftrightarrow> oneRoomEach (mj_records (snd w)) (plog (fst w)) \<and> messagesOk pf generated (mj_records (snd w)) (plog (fst w))"

lemma triple_both:
  assumes "triple P m (\<lambda>_. Q) (\<lambda>_. Q)" "P w" "m w = (r, w')"
  shows "Q w'"
  using assms by (cases r) (auto dest: tripleD)

lemma oneRoom_addSent: "oneRoom st (addSent e l) op = oneRoom st l op"
  unfolding oneRoom_def log_updates ..

lemma oneRoom_length: "oneRoom st l op \<Longrightarrow> length (pl_created l op) \<le> 1"
  by (auto simp: oneRoom_def split: option.splits journalRecord.splits)

lemma oneRoomEach_keeps:
  "oneRoomEach st l \<Longrightarrow> oneRoomEach st (addSent e l)"
  "oneRoomEach st l \<Longrightarrow> oneRoomEach (st(sendKey t \<mapsto> x)) l"
  "oneRoomEach st l \<Longrightarrow> oneRoomEach (st(introKey b \<mapsto> x)) l"
  by (simp_all add: oneRoomEach_def oneRoom_addSent)

lemma clientRun_ok: "clientRun pf generated plog w \<Longrightarrow> runOk pf generated plog w"
proof (induction rule: clientRun.induct)
  case (start w)
  then show ?case by (simp add: runOk_def oneRoomEach_def oneRoom_def messagesOk_def)
next
  case (create w ctx signal op title r w')
  have t: "cx_journal ctx = sharedJournal" "honestProvider (\<lambda>w. mj_records (snd w)) (\<lambda>w. plog (fst w)) ctx"
    using create.hyps by (simp_all add: clientTab_def)
  have "oneRoomEach (mj_records (snd w')) (plog (fst w'))"
    by (rule triple_both[OF triple_post[OF memory.triple_createChannel[OF t]] _ create.hyps(3)]) (use create.IH in \<open>simp_all add: runOk_def\<close>)
  moreover have "messagesOk pf generated (mj_records (snd w')) (plog (fst w'))"
    by (rule triple_both[OF memory.triple_createKeeps[OF t, where P = "messagesOk pf generated"] _ create.hyps(3)])
      (use create.IH in \<open>simp_all add: runOk_def messagesOk_createRecord messagesOk_log[of "addCreated k room l" l for k room l]\<close>)
  ultimately show ?case by (simp add: runOk_def)
next
  case (send w ctx t signal roomId content s w')
  have t: "cx_journal ctx = sharedJournal" "honestProvider (\<lambda>w. mj_records (snd w)) (\<lambda>w. plog (fst w)) ctx" "cx_platform ctx = pf"
    using send.hyps by (simp_all add: clientTab_def)
  have "messagesOk pf generated (mj_records (snd w')) (plog (fst w'))"
    by (rule triple_both[OF triple_post[OF memory.triple_sendMessage[where generated = generated, OF t(1,2) send.hyps(3)]] _ send.hyps(4)])
      (use send.IH t(3) in \<open>simp_all add: runOk_def\<close>)
  moreover have "oneRoomEach (mj_records (snd w')) (plog (fst w'))"
    by (rule triple_both[OF memory.triple_sendKeeps[OF t(1,2), where P = oneRoomEach] _ send.hyps(4)])
      (use send.IH in \<open>simp_all add: runOk_def oneRoomEach_keeps\<close>)
  ultimately show ?case by (simp add: runOk_def)
next
  case (prepare w ctx signal roomId b ms x w')
  have t: "cx_journal ctx = sharedJournal" "honestProvider (\<lambda>w. mj_records (snd w)) (\<lambda>w. plog (fst w)) ctx"
    "freshIds generated (\<lambda>w. mj_records (snd w)) (\<lambda>w. plog (fst w)) ctx"
    using prepare.hyps by (simp_all add: clientTab_def)
  have "messagesOk pf generated (mj_records (snd w')) (plog (fst w'))"
    by (rule triple_both[OF memory.triple_prepareIntro[OF t] _ prepare.hyps(3)]) (use prepare.IH in \<open>simp add: runOk_def\<close>)
  moreover have "oneRoomEach (mj_records (snd w')) (plog (fst w'))"
    by (rule triple_both[OF memory.triple_introKeeps(1)[OF t(1,2), where P = oneRoomEach] _ prepare.hyps(3)])
      (use prepare.IH in \<open>simp_all add: runOk_def oneRoomEach_keeps\<close>)
  ultimately show ?case by (simp add: runOk_def)
next
  case (resume w ctx signal b x w')
  have t: "cx_journal ctx = sharedJournal" "honestProvider (\<lambda>w. mj_records (snd w)) (\<lambda>w. plog (fst w)) ctx"
    using resume.hyps by (simp_all add: clientTab_def)
  have "messagesOk pf generated (mj_records (snd w')) (plog (fst w'))"
    by (rule triple_both[OF memory.triple_resumeIntro[OF t] _ resume.hyps(3)]) (use resume.IH in \<open>simp add: runOk_def\<close>)
  moreover have "oneRoomEach (mj_records (snd w')) (plog (fst w'))"
    by (rule triple_both[OF memory.triple_introKeeps(2)[OF t, where P = oneRoomEach] _ resume.hyps(3)])
      (use resume.IH in \<open>simp_all add: runOk_def oneRoomEach_keeps\<close>)
  ultimately show ?case by (simp add: runOk_def)
next
  case (pass w w')
  then show ?case by (simp add: runOk_def)
qed

section \<open>Properties of every run\<close>


text \<open>C12: A transaction identifier names one message: whatever the transport was handed under it, by sends, retries and resumed
  intros of any tab, is the same content for the same channel.\<close>

theorem transaction_names_one_message:
  assumes "clientRun pf generated plog w" and "e \<in> set (pl_sent (plog (fst w)))" "e' \<in> set (pl_sent (plog (fst w)))"
    and "se_clientTxnId e = se_clientTxnId e'"
  shows "se_roomId e = se_roomId e' \<and> se_content e = se_content e'"
proof -
  let ?st = "mj_records (snd w)"
  have ok: "messagesOk pf generated ?st (plog (fst w))" using clientRun_ok[OF assms(1)] by (simp add: runOk_def)
  show ?thesis by (rule one_message[OF ok assms(2-4)])
qed

text \<open>C13: A send that reports success was accepted by the transport, in the requested channel, under the requested transaction, with
  content that has the digest of the requested content.\<close>

theorem send_success_delivers:
  assumes "clientRun pf generated plog w" and "clientTab pf generated plog ctx" and "\<not> generated t"
    and "sendMessage ctx signal roomId t content w = (Inr (Op_ok s), w')"
  shows "\<exists>m digest e. digestContent ctx content = Inr (m, digest) \<and> e \<in> set (pl_sent (plog (fst w'))) \<and> se_accepted e
    \<and> se_roomId e = roomId \<and> se_clientTxnId e = t \<and> digestMessageContent pf (se_content e) = Inr digest"
proof -
  have t: "cx_journal ctx = sharedJournal" "honestProvider (\<lambda>w. mj_records (snd w)) (\<lambda>w. plog (fst w)) ctx" "cx_platform ctx = pf"
    using assms(2) by (simp_all add: clientTab_def)
  have ok: "messagesOk (cx_platform ctx) generated (mj_records (snd w)) (plog (fst w))"
    using clientRun_ok[OF assms(1)] t(3) by (simp add: runOk_def)
  show ?thesis
    using tripleD(1)[OF memory.triple_sendMessage[where generated = generated, OF t(1,2) assms(3)] ok assms(4)] t(3)
    unfolding delivered_def by blast
qed


section \<open>Witnesses\<close>

definition sampleRoom :: channelSummary where
  "sampleRoom = \<lparr>ch_roomId = js ''r'', ch_title = None, ch_membership = Member_joined, ch_revision = js ''v''\<rparr>"

definition sampleGenerated :: "ustring \<Rightarrow> bool" where
  "sampleGenerated t \<longleftrightarrow> t = js ''g''"

definition sampleTab :: "providerLog clientWorld channelContext" where
  "sampleTab = \<lparr>cx_principal = \<lparr>ap_ownerId = js ''o'', ap_providerIssuer = js ''i'', ap_providerSubject = js ''s'',
       ap_verifiedEmail = js ''a@b'', ap_sessionExpiresAt = js ''t''\<rparr>,
     cx_actor = \<lparr>pv_participantId = js ''p'', pv_kind = Human, pv_ownerId = js ''o'', pv_displayName = js ''Ann'', pv_deviceIds = []\<rparr>,
     cx_device = (\<lambda>_. \<lparr>dv_deviceId = Some (js ''d''), dv_state = Dev_ready, dv_generation = 1, dv_reason = None\<rparr>),
     cx_createRoom = (\<lambda>op title (l, m). (Inr (Eff_done sampleRoom), (addCreated op sampleRoom l, m))),
     cx_findCreatedRoom = (\<lambda>op (l, m). (Inr (case pl_created l op of [] \<Rightarrow> Created_absent | room # _ \<Rightarrow> Created_found room), (l, m))),
     cx_room = (\<lambda>roomId. retS (Sub_done sampleRoom)),
     cx_sendEvent = (\<lambda>roomId t c (l, m). (Inr (Eff_done \<lparr>ac_eventId = js ''e'', ac_authorDeviceId = js ''d''\<rparr>),
        (addSent \<lparr>se_roomId = roomId, se_clientTxnId = t, se_content = c, se_accepted = True\<rparr> l, m))),
     cx_journal = sharedJournal, cx_limits = sampleLimits, cx_platform = samplePlatform,
     cx_newId = (\<lambda>w. (if freshTxn (mj_records (snd w)) (fst w) (js ''g'') then Inr (js ''g'') else Inl JUndef, w)),
     cx_clock = (\<lambda>_. 0), cx_stopped = (\<lambda>_. False), cx_echo = (\<lambda>_ _ _ w. w)\<rparr>"

definition sampleStart :: "providerLog clientWorld" where
  "sampleStart = (\<lparr>pl_created = (\<lambda>_. []), pl_sent = []\<rparr>, \<lparr>mj_records = Map.empty, mj_sequence = 0\<rparr>)"

lemma sampleTab_fields [simp]:
  "ap_ownerId (cx_principal sampleTab) = js ''o''" "pv_kind (cx_actor sampleTab) = Human" "pv_ownerId (cx_actor sampleTab) = js ''o''"
  "dv_state (cx_device sampleTab w) = Dev_ready" "dv_deviceId (cx_device sampleTab w) = Some (js ''d'')"
  "cx_createRoom sampleTab op title w = (Inr (Eff_done sampleRoom), (addCreated op sampleRoom (fst w), snd w))"
  "cx_findCreatedRoom sampleTab op w
     = (Inr (case pl_created (fst w) op of [] \<Rightarrow> Created_absent | room # _ \<Rightarrow> Created_found room), w)"
  "cx_room sampleTab roomId = retS (Sub_done sampleRoom)"
  "cx_sendEvent sampleTab roomId t c w = (Inr (Eff_done \<lparr>ac_eventId = js ''e'', ac_authorDeviceId = js ''d''\<rparr>),
     (addSent \<lparr>se_roomId = roomId, se_clientTxnId = t, se_content = c, se_accepted = True\<rparr> (fst w), snd w))"
  "cx_journal sampleTab = sharedJournal" "cx_limits sampleTab = sampleLimits" "cx_platform sampleTab = samplePlatform"
  "cx_newId sampleTab w = (if freshTxn (mj_records (snd w)) (fst w) (js ''g'') then Inr (js ''g'') else Inl JUndef, w)"
  "cx_stopped sampleTab w = False" "cx_echo sampleTab roomId item g w = w" "cx_clock sampleTab w = 0"
  by (simp_all add: sampleTab_def split: prod.split)

lemma sharedJournal_run [simp]:
  "cj_read sharedJournal k w = (Inr (memoryRead k (snd w)), w)"
  "cj_claim sharedJournal k v w = (Inr (fst (memoryClaim k v (snd w))), (fst w, snd (memoryClaim k v (snd w))))"
  "cj_replace sharedJournal k e v w = (Inr (fst (memoryReplace k e v (snd w))), (fst w, snd (memoryReplace k e v (snd w))))"
  by (simp_all add: sharedJournal_def createMemoryChannelJournal_def split_beta)

lemma sampleTab_ok: "clientTab samplePlatform sampleGenerated (\<lambda>l. l) sampleTab"
  unfolding clientTab_def honestProvider_def keepsAll_def freshIds_def
  by (auto simp: createdBy_def accepted_def sampleGenerated_def split: list.splits if_splits)

lemma sampleStart_run: "clientRun samplePlatform sampleGenerated (\<lambda>l. l) sampleStart"
  by (rule clientRun.start) (simp_all add: sampleStart_def)

lemma isIdentifier_wf: "isIdentifier s \<longleftrightarrow> wfId s"
proof (cases "identifierField (JStr s) []")
  case (Inl e)
  then have "\<not> wfId s" using identifier_eq_Inr[of "JStr s" "[]" s] by simp
  then show ?thesis using Inl by (simp add: isIdentifier_def)
next
  case (Inr t)
  then have "wfId s" using identifier_eq_Inr[of "JStr s" "[]" t] by simp
  then show ?thesis using Inr by (simp add: isIdentifier_def)
qed

lemma sample_identifiers: "isIdentifier (js ''o'')" "isIdentifier (js ''r'')" "isIdentifier (js ''t'')" "isIdentifier (js ''g'')"
proof -
  have "wfId (js ''t'')" "wfId (js ''g'')" by code_simp+
  then show "isIdentifier (js ''o'')" "isIdentifier (js ''r'')" "isIdentifier (js ''t'')" "isIdentifier (js ''g'')"
    using sampleItem_ids by (simp_all add: isIdentifier_wf)
qed

lemma sample_content: "digestContent sampleTab sampleContent = Inr (Text_message (js ''hi'') None None, sampleDigest)"
proof -
  have "decodeMessageContent samplePlatform sampleContent sampleLimits = Inr (Text_message (js ''hi'') None None)" by code_simp
  then show ?thesis by (simp add: digestContent_def sample_digest)
qed

lemmas sample_runs = bindS_def tryS_def catchS_def safeEffect_def safeSubstrateRead_def deviceGate_def membershipGate_def
  memoryClaim_def memoryReplace_def memoryStore_def memoryRead_def sample_identifiers Let_def

lemma sample_create:
  "\<exists>w. createChannel sampleTab None (js ''o'') None sampleStart = (Inr (Op_ok sampleRoom), w)"
  by (simp add: createChannel_def decodeTitle_def nullable_def createAttempt_def performCreate_def createEnd_def sample_runs sampleStart_def)

lemma sample_send:
  "\<exists>s l m. sendMessage sampleTab None (js ''r'') (js ''t'') sampleContent sampleStart = (Inr (Op_ok s), (l, m))
    \<and> pl_sent l = [\<lparr>se_roomId = js ''r'', se_clientTxnId = js ''t'', se_content = Text_message (js ''hi'') None None, se_accepted = True\<rparr>]"
  unfolding sendMessage_def sample_content sum.case prod.case
  by (simp add: sendIntent_def deliverSend_def transmit_def sentItem_def sample_runs sampleStart_def sampleRoom_def)

lemma sample_intro:
  "\<exists>s l m i tag. prepareIntro sampleTab None (js ''r'') (js ''o'') [sampleContent] sampleStart = (Inr (Op_ok s), (l, m))
    \<and> mj_records m (introKey (js ''o'')) = Some (Intro_record i, tag) \<and> length (ji_items i) = 1"
  by (simp add: prepareIntro_def sample_content runIntro_def transmit_def sentItem_def sample_runs sampleStart_def sampleRoom_def freshTxn_def)


theorem transaction_names_one_message_witness:
  "\<exists>s w e e'. sendMessage sampleTab None (js ''r'') (js ''t'') sampleContent sampleStart = (Inr (Op_ok s), w)
    \<and> e \<in> set (pl_sent (fst w)) \<and> e' \<in> set (pl_sent (fst w)) \<and> se_roomId e = se_roomId e' \<and> se_content e = se_content e'"
proof -
  obtain s l m where run: "sendMessage sampleTab None (js ''r'') (js ''t'') sampleContent sampleStart = (Inr (Op_ok s), (l, m))"
    and l: "pl_sent l = [\<lparr>se_roomId = js ''r'', se_clientTxnId = js ''t'', se_content = Text_message (js ''hi'') None None, se_accepted = True\<rparr>]"
    using sample_send by blast
  have "clientRun samplePlatform sampleGenerated (\<lambda>l. l) (l, m)"
    by (rule clientRun.send[OF sampleStart_run sampleTab_ok _ run]) (simp add: sampleGenerated_def)
  from transaction_names_one_message[OF this, of "hd (pl_sent l)" "hd (pl_sent l)"] show ?thesis
    using run by (intro exI[of _ s] exI[of _ "(l, m)"] exI[of _ "hd (pl_sent l)"]) (simp add: l)
qed

theorem send_success_delivers_witness:
  "\<exists>s w e. sendMessage sampleTab None (js ''r'') (js ''t'') sampleContent sampleStart = (Inr (Op_ok s), w)
    \<and> e \<in> set (pl_sent (fst w)) \<and> se_accepted e \<and> se_clientTxnId e = js ''t''"
proof -
  obtain s w where run: "sendMessage sampleTab None (js ''r'') (js ''t'') sampleContent sampleStart = (Inr (Op_ok s), w)"
    using sample_send by blast
  have "\<not> sampleGenerated (js ''t'')" by (simp add: sampleGenerated_def)
  from send_success_delivers[OF sampleStart_run sampleTab_ok this run] show ?thesis using run by blast
qed


end
