(* ===== verification/TimelineView.thy ===== *)
theory TimelineView
  imports ChannelClient
begin

text \<open>
  Timeline views of the channel client (\<^verbatim>\<open>packages/messaging/src/channels/timeline.ts\<close>): the entry of an SDK event, the
  contract page of \<open>timeline\<close>, and \<open>ChannelProjection\<close>, the live state of one channel. A JavaScript \<open>Map\<close> or \<open>Set\<close> is
  the list of its entries in insertion order. The content of a channel event passes through unread.
\<close>

section \<open>Maps in insertion order\<close>

definition mapHas :: "'k \<Rightarrow> ('k \<times> 'v) list \<Rightarrow> bool" where
  "mapHas k m \<longleftrightarrow> k \<in> set (map fst m)"

fun mapSet :: "'k \<Rightarrow> 'v \<Rightarrow> ('k \<times> 'v) list \<Rightarrow> ('k \<times> 'v) list" where
  "mapSet k v [] = [(k, v)]"
| "mapSet k v ((k', v') # m) = (if k' = k then (k, v) # m else (k', v') # mapSet k v m)"

definition mapDelete :: "'k \<Rightarrow> ('k \<times> 'v) list \<Rightarrow> ('k \<times> 'v) list" where
  "mapDelete k m = filter (\<lambda>x. fst x \<noteq> k) m"

definition setAdd :: "'k \<Rightarrow> 'k list \<Rightarrow> 'k list" where
  "setAdd k s = (if k \<in> set s then s else s @ [k])"

section \<open>Events and entries\<close>

datatype undecryptable = Missing_key | Decryption_failed

datatype placeholderReason = Not_decrypted undecryptable | Not_digested

datatype substrateEvent =
    Channel_event (sv_eventId: ustring) participantView jsval ustring
  | Message_event (sv_eventId: ustring) (sv_authorDeviceId: ustring) (sv_participant: participantView)
      (sv_target: "participantView option") (sv_content: messageContent) (sv_clientTxnId: "ustring option") (sv_receivedAt: ustring)
  | Undecryptable_event (sv_eventId: ustring) ustring undecryptable ustring

datatype remoteEntry =
    Channel_entry ustring participantView jsval ustring
  | Message_entry (en_item: timelineItem)
  | Unavailable_entry ustring ustring placeholderReason ustring

datatype timelineEntry = Remote_row remoteEntry | Local_row sendState messageContent

definition toEntry :: "platform \<Rightarrow> ustring \<Rightarrow> substrateEvent \<Rightarrow> remoteEntry" where
  "toEntry pf roomId event = (case event of
     Channel_event e p content received \<Rightarrow> Channel_entry e p content received
   | Undecryptable_event e author reason received \<Rightarrow> Unavailable_entry e author (Not_decrypted reason) received
   | Message_event e device p target content txn received \<Rightarrow> (case digestMessageContent pf content of
        Inl Crypto_unavailable \<Rightarrow> Unavailable_entry e (pv_participantId p) Not_digested received
      | Inl Invalid_content \<Rightarrow> Unavailable_entry e (pv_participantId p) (Not_decrypted Decryption_failed) received
      | Inr digest \<Rightarrow> Message_entry
          \<lparr>ti_ref = Event_ref \<lparr>ev_roomId = roomId, ev_eventId = e, ev_authorParticipantId = pv_participantId p,
             ev_authorDeviceId = device, ev_contentDigest = digest\<rparr>,
           ti_content = Message_content content, ti_participant = p, ti_targetParticipant = target, ti_clientTxnId = txn,
           ti_receivedAt = received\<rparr>))"

definition eventIdOf :: "remoteEntry \<Rightarrow> ustring" where
  "eventIdOf entry = (case entry of
     Message_entry item \<Rightarrow> itemEventId item | Channel_entry e _ _ _ \<Rightarrow> e | Unavailable_entry e _ _ _ \<Rightarrow> e)"

definition isUnavailable :: "remoteEntry \<Rightarrow> bool" where
  "isUnavailable entry = (case entry of Unavailable_entry _ _ _ _ \<Rightarrow> True | _ \<Rightarrow> False)"

text \<open>A duplicate never adds a row; only a late decryption replaces its placeholder.\<close>

definition supersedes :: "remoteEntry option \<Rightarrow> remoteEntry \<Rightarrow> bool" where
  "supersedes existing entry = (case existing of None \<Rightarrow> True | Some old \<Rightarrow> isUnavailable old \<and> \<not> isUnavailable entry)"

definition messageItem :: "remoteEntry \<Rightarrow> timelineItem option" where
  "messageItem entry = (case entry of Message_entry item \<Rightarrow> Some item | _ \<Rightarrow> None)"

section \<open>Pages\<close>

record substratePage =
  sp_events :: "substrateEvent list"
  sp_nextCursor :: "ustring option"
  sp_revision :: ustring

record 'w timelineContext = "'w channelContext" +
  cx_timeline :: "ustring \<Rightarrow> ustring option \<Rightarrow> jsnum \<Rightarrow> ('w, substratePage substrateRead) command"
  cx_historyRead :: "ustring \<Rightarrow> ustring list \<Rightarrow> nat \<Rightarrow> 'w \<Rightarrow> 'w"

text \<open>The loop over the events of a page.\<close>

definition addEntry :: "remoteEntry \<Rightarrow> (ustring \<times> remoteEntry) list \<Rightarrow> (ustring \<times> remoteEntry) list" where
  "addEntry entry m = (if supersedes (map_of m (eventIdOf entry)) entry then mapSet (eventIdOf entry) entry m else m)"

definition pageEntries :: "platform \<Rightarrow> ustring \<Rightarrow> substrateEvent list \<Rightarrow> (ustring \<times> remoteEntry) list" where
  "pageEntries pf roomId events = foldl (\<lambda>m event. addEntry (toEntry pf roomId event) m) [] events"

definition contractPage :: "(ustring \<times> remoteEntry) list \<Rightarrow> substratePage \<Rightarrow> timelinePage" where
  "contractPage entries page =
     (let unavailable = map eventIdOf (filter isUnavailable (map snd entries)) in
      \<lparr>tp_items = List.map_filter messageItem (map snd entries),
       tp_unavailableEventIds = (if unavailable = [] then None else Some unavailable),
       tp_nextCursor = sp_nextCursor page, tp_snapshotRevision = sp_revision page\<rparr>)"

definition timelineCommand :: "'w timelineContext \<Rightarrow> ustring \<Rightarrow> ustring option \<Rightarrow> jsnum
    \<Rightarrow> ('w, (timelinePage, channelRejection) operationResult) command" where
  "timelineCommand ctx roomId cursor limit =
     (if \<not> isIdentifier roomId \<or> (case cursor of None \<Rightarrow> False | Some c \<Rightarrow> \<not> isIdentifier c)
        \<or> \<not> isSafeInteger limit \<or> natOfNum limit < 1
      then retS (Op_rejected Chan_invalid_request)
      else bindS (readS (cx_stopped ctx)) (\<lambda>stopped. if stopped then retS Op_unavailable
      else bindS (readS (\<lambda>w. dv_generation (cx_device ctx w))) (\<lambda>generation.
        bindS (safeSubstrateRead (cx_timeline ctx roomId cursor limit)) (\<lambda>page. case page of
          Sub_unavailable \<Rightarrow> retS Op_unavailable
        | Sub_rejected c \<Rightarrow> retS (Op_rejected c)
        | Sub_done p \<Rightarrow>
            bindS (updateS (cx_historyRead ctx roomId (map sv_eventId (sp_events p)) generation)) (\<lambda>_.
            retS (Op_ok (contractPage (pageEntries (cx_platform ctx) roomId (sp_events p)) p)))))))"

section \<open>The projection of one channel\<close>

record channelProjection =
  pj_roomId :: ustring
  pj_self :: participantView
  pj_remote :: "(ustring \<times> remoteEntry) list"
  pj_ignored :: "ustring list"
  pj_local :: "(ustring \<times> sendState \<times> messageContent) list"
  pj_room :: "channelSummary option"
  pj_revision :: nat

definition newProjection :: "ustring \<Rightarrow> participantView \<Rightarrow> channelProjection" where
  "newProjection roomId self = \<lparr>pj_roomId = roomId, pj_self = self, pj_remote = [], pj_ignored = [], pj_local = [],
     pj_room = None, pj_revision = 0\<rparr>"

definition applyRoom :: "channelSummary option \<Rightarrow> channelProjection \<Rightarrow> channelProjection" where
  "applyRoom room p = (case room of
     None \<Rightarrow> p
   | Some r \<Rightarrow> if ch_roomId r \<noteq> pj_roomId p then p else p\<lparr>pj_room := Some r, pj_revision := pj_revision p + 1\<rparr>)"

definition ignoreEvent :: "ustring \<Rightarrow> channelProjection \<Rightarrow> channelProjection" where
  "ignoreEvent e p = p\<lparr>pj_remote := (case map_of (pj_remote p) e of
        Some old \<Rightarrow> if isUnavailable old then mapDelete e (pj_remote p) else pj_remote p | None \<Rightarrow> pj_remote p),
     pj_ignored := setAdd e (pj_ignored p)\<rparr>"

text \<open>One entry of an update: its row, and the local send it answers.\<close>

definition mergeEntry :: "remoteEntry \<Rightarrow> channelProjection \<Rightarrow> channelProjection" where
  "mergeEntry entry p =
     (if eventIdOf entry \<in> set (pj_ignored p) \<or> \<not> supersedes (map_of (pj_remote p) (eventIdOf entry)) entry then p
      else p\<lparr>pj_remote := mapSet (eventIdOf entry) entry (pj_remote p),
             pj_local := (case Option.bind (messageItem entry) ti_clientTxnId of
                None \<Rightarrow> pj_local p | Some txn \<Rightarrow> mapDelete txn (pj_local p))\<rparr>)"

text \<open>The rows placed before each known row, the rows after all of them, the next known row and what is placed already.\<close>

record placement =
  pm_before :: "ustring \<Rightarrow> remoteEntry list"
  pm_tail :: "remoteEntry list"
  pm_successor :: "ustring option"
  pm_placed :: "ustring list"

definition placeEntry :: "ustring set \<Rightarrow> (ustring \<times> remoteEntry) list \<Rightarrow> remoteEntry \<Rightarrow> placement \<Rightarrow> placement" where
  "placeEntry known remote e s =
     (let i = eventIdOf e in
      if i \<in> known then s\<lparr>pm_successor := Some i\<rparr>
      else case map_of remote i of
        None \<Rightarrow> s
      | Some entry \<Rightarrow>
          if i \<in> set (pm_placed s) then s
          else let s' = s\<lparr>pm_placed := i # pm_placed s\<rparr> in
            (case pm_successor s of
               None \<Rightarrow> s'\<lparr>pm_tail := entry # pm_tail s\<rparr>
             | Some k \<Rightarrow> s'\<lparr>pm_before := (pm_before s)(k := entry # pm_before s k)\<rparr>))"

definition placeEntries :: "ustring set \<Rightarrow> (ustring \<times> remoteEntry) list \<Rightarrow> remoteEntry list \<Rightarrow> placement" where
  "placeEntries known remote entries =
     foldr (placeEntry known remote) entries \<lparr>pm_before = (\<lambda>_. []), pm_tail = [], pm_successor = None, pm_placed = []\<rparr>"

definition orderEntries :: "ustring set \<Rightarrow> (ustring \<times> remoteEntry) list \<Rightarrow> remoteEntry list \<Rightarrow> remoteEntry list" where
  "orderEntries known remote entries =
     (let s = placeEntries known remote entries in
      concat (map (\<lambda>(i, entry). pm_before s i @ [entry]) (filter (\<lambda>(i, _). i \<in> known) remote)) @ pm_tail s)"

definition applyRemote :: "remoteEntry list \<Rightarrow> ustring list \<Rightarrow> channelProjection \<Rightarrow> channelProjection" where
  "applyRemote entries ignoredEventIds p =
     (let p1 = foldl (\<lambda>p e. ignoreEvent e p) p ignoredEventIds;
          known = set (map fst (pj_remote p1));
          p2 = foldl (\<lambda>p entry. mergeEntry entry p) p1 entries in
      p2\<lparr>pj_remote := foldl (\<lambda>m entry. mapSet (eventIdOf entry) entry m) [] (orderEntries known (pj_remote p2) entries),
         pj_revision := pj_revision p2 + 1\<rparr>)"

definition applyLocal :: "ustring \<Rightarrow> sendItem \<Rightarrow> channelProjection \<Rightarrow> channelProjection" where
  "applyLocal now item p =
     (let p' = (case it_eventRef item of
        Some ref \<Rightarrow> p\<lparr>pj_local := mapDelete (it_clientTxnId item) (pj_local p),
          pj_remote := (if mapHas (ev_eventId ref) (pj_remote p) then pj_remote p
            else mapSet (ev_eventId ref) (Message_entry \<lparr>ti_ref = Event_ref ref, ti_content = Message_content (it_content item),
              ti_participant = pj_self p, ti_targetParticipant = None, ti_clientTxnId = Some (it_clientTxnId item),
              ti_receivedAt = now\<rparr>) (pj_remote p))\<rparr>
      | None \<Rightarrow>
          if list_ex (\<lambda>(_, entry). (case messageItem entry of None \<Rightarrow> False | Some i \<Rightarrow> ti_clientTxnId i = Some (it_clientTxnId item))) (pj_remote p)
          then p
          else p\<lparr>pj_local := mapSet (it_clientTxnId item)
            (\<lparr>ss_clientTxnId = it_clientTxnId item, ss_state = it_state item, ss_eventRef = None\<rparr>, it_content item) (pj_local p)\<rparr>) in
      p'\<lparr>pj_revision := pj_revision p' + 1\<rparr>)"

record entriesView =
  vw_roomId :: ustring
  vw_room :: "channelSummary option"
  vw_entries :: "timelineEntry list"
  vw_snapshotRevision :: ustring
  vw_generation :: nat
  vw_historicalEventIds :: "ustring list option"
  vw_ignoredEventIds :: "ustring list option"

definition projectionEntries :: "nat \<Rightarrow> channelProjection \<Rightarrow> entriesView" where
  "projectionEntries generation p =
     \<lparr>vw_roomId = pj_roomId p, vw_room = pj_room p,
      vw_entries = map (\<lambda>(_, entry). Remote_row entry) (pj_remote p) @ map (\<lambda>(_, s, content). Local_row s content) (pj_local p),
      vw_snapshotRevision = dec_digits (pj_revision p), vw_generation = generation,
      vw_historicalEventIds = None, vw_ignoredEventIds = (if pj_ignored p = [] then None else Some (pj_ignored p))\<rparr>"

definition projectionSnapshot :: "nat \<Rightarrow> channelProjection \<Rightarrow> channelSnapshot option" where
  "projectionSnapshot generation p = (case pj_room p of
     None \<Rightarrow> None
   | Some room \<Rightarrow> Some \<lparr>sn_room = room, sn_items = List.map_filter messageItem (map snd (pj_remote p)),
       sn_snapshotRevision = dec_digits (pj_revision p), sn_generation = generation\<rparr>)"

end
