(* ===== verification/TimelineProperties.thy ===== *)
theory TimelineProperties
  imports TimelineView
begin

text \<open>
  What the timeline projection guarantees under every sequence of updates: one row for an event, no own send shown twice,
  readable rows that stay, redelivery that changes nothing, and history merged into timeline order.
\<close>

section \<open>Maps\<close>

lemma map_of_mapSet [simp]: "map_of (mapSet k v m) = (map_of m)(k \<mapsto> v)"
  by (induction k v m rule: mapSet.induct) auto

lemma keys_mapSet: "map fst (mapSet k v m) = (if k \<in> set (map fst m) then map fst m else map fst m @ [k])"
  by (induction k v m rule: mapSet.induct) auto

lemma keys_mapDelete: "map fst (mapDelete k m) = filter (\<lambda>x. x \<noteq> k) (map fst m)"
  by (simp add: mapDelete_def filter_map comp_def)

lemma map_of_mapDelete [simp]: "map_of (mapDelete k m) = (map_of m)(k := None)"
  by (induction m) (auto simp: mapDelete_def fun_eq_iff)

lemma map_of_Some_key: "map_of m k = Some v \<Longrightarrow> k \<in> fst ` set m"
  by (force dest: map_of_SomeD)

section \<open>The rows after an update\<close>

text \<open>The rows of a map are under their own identifiers.\<close>

definition keyed :: "(ustring \<times> remoteEntry) list \<Rightarrow> bool" where
  "keyed m \<longleftrightarrow> distinct (map fst m) \<and> (\<forall>x \<in> set m. eventIdOf (snd x) = fst x)"

lemma set_mapSet: "distinct (map fst m) \<Longrightarrow> set (mapSet k v m) = insert (k, v) {x \<in> set m. fst x \<noteq> k}"
  by (induction k v m rule: mapSet.induct) (auto simp: image_iff)

lemma keyed_mapSet: "keyed m \<Longrightarrow> keyed (mapSet (eventIdOf e) e m)"
  by (auto simp: keyed_def keys_mapSet set_mapSet)

lemma keyed_mapDelete: "keyed m \<Longrightarrow> keyed (mapDelete k m)"
  unfolding keyed_def keys_mapDelete by (auto simp: mapDelete_def)

lemma keyed_lookup: "keyed m \<Longrightarrow> map_of m i = Some e \<longleftrightarrow> (i, e) \<in> set m"
  by (simp add: keyed_def)

lemma keyed_id: "keyed m \<Longrightarrow> map_of m i = Some e \<Longrightarrow> eventIdOf e = i"
  using keyed_lookup by (fastforce simp: keyed_def)

abbreviation rebuilt :: "remoteEntry list \<Rightarrow> (ustring \<times> remoteEntry) list" where
  "rebuilt xs \<equiv> foldl (\<lambda>m entry. mapSet (eventIdOf entry) entry m) [] xs"

lemma keyed_rebuilt: "keyed (rebuilt xs)"
  by (induction xs rule: rev_induct) (simp_all add: keyed_mapSet, simp add: keyed_def)

lemma rebuilt_lookup:
  "(\<And>e. e \<in> set xs \<Longrightarrow> map_of m (eventIdOf e) = Some e)
   \<Longrightarrow> map_of (rebuilt xs) i = (if i \<in> eventIdOf ` set xs then map_of m i else None)"
  by (induction xs rule: rev_induct) auto

lemma rebuilt_distinct: "distinct (map eventIdOf xs) \<Longrightarrow> rebuilt xs = map (\<lambda>e. (eventIdOf e, e)) xs"
proof (induction xs rule: rev_induct)
  case (snoc x xs)
  have new: "mapSet k v m = m @ [(k, v)]" if "k \<notin> set (map fst m)" for k and v :: remoteEntry and m
    using that by (induction k v m rule: mapSet.induct) auto
  show ?case using snoc by (simp add: new image_image)
qed simp

subsection \<open>Placement\<close>

lemma placeEntries_simps:
  "placeEntries known remote [] = \<lparr>pm_before = (\<lambda>_. []), pm_tail = [], pm_successor = None, pm_placed = []\<rparr>"
  "placeEntries known remote (e # es) = placeEntry known remote e (placeEntries known remote es)"
  by (simp_all add: placeEntries_def)

text \<open>What is placed: rows of the map that are not known, before a known row of the update or at the end.\<close>

lemma placed_entries:
  fixes known :: "ustring set" and entries :: "remoteEntry list"
  assumes "\<And>i e. map_of remote i = Some e \<Longrightarrow> eventIdOf e = i"
  defines "s \<equiv> placeEntries known remote entries"
  shows "\<And>k e. e \<in> set (pm_before s k) \<or> e \<in> set (pm_tail s) \<Longrightarrow> map_of remote (eventIdOf e) = Some e \<and> eventIdOf e \<notin> known"
    and "set (pm_placed s) = {i \<in> eventIdOf ` set entries. i \<notin> known \<and> map_of remote i \<noteq> None}"
    and "\<And>i e. i \<in> set (pm_placed s) \<Longrightarrow> map_of remote i = Some e \<Longrightarrow> e \<in> set (pm_tail s) \<or> (\<exists>k \<in> known. e \<in> set (pm_before s k))"
    and "\<And>k. pm_successor s = Some k \<Longrightarrow> k \<in> known"
  unfolding s_def
proof (induction entries)
  case Nil
  { case 1 show ?case using 1 by (simp add: placeEntries_simps) next
    case 2 show ?case by (simp add: placeEntries_simps) next
    case 3 show ?case using 3 by (simp add: placeEntries_simps) next
    case 4 show ?case using 4 by (simp add: placeEntries_simps) }
next
  case (Cons x entries)
  let ?s = "placeEntries known remote entries" and ?i = "eventIdOf x"
  note ih = Cons.IH
  have id: "map_of remote ?i = Some e \<Longrightarrow> eventIdOf e = ?i" for e using assms(1) .
  { case 1 then show ?case
      using ih(1) id unfolding placeEntries_simps placeEntry_def Let_def
      by (auto split: if_splits option.splits)
  next
    case 2 show ?case
      using ih(2) unfolding placeEntries_simps placeEntry_def Let_def
      by (auto split: if_splits option.splits)
  next
    case (3 i e) then show ?case
      using ih(3)[of i e] ih(4) id unfolding placeEntries_simps placeEntry_def Let_def
      by (auto split: if_splits option.splits)
  next
    case (4 k) then show ?case
      using ih(4) unfolding placeEntries_simps placeEntry_def Let_def
      by (auto split: if_splits option.splits) }
qed

lemma orderEntries_rows:
  assumes k: "keyed remote" and known: "known \<subseteq> fst ` set remote" and rows: "fst ` set remote \<subseteq> known \<union> eventIdOf ` set entries"
  shows "map_of (rebuilt (orderEntries known remote entries)) = map_of remote"
proof -
  let ?s = "placeEntries known remote entries" and ?xs = "orderEntries known remote entries"
  note id = keyed_id[OF k]
  have placed: "e \<in> set (pm_before ?s j) \<or> e \<in> set (pm_tail ?s) \<Longrightarrow> map_of remote (eventIdOf e) = Some e" for e j
    using placed_entries(1)[OF id] by blast
  have order: "set ?xs = (\<Union>(i, e) \<in> {x \<in> set remote. fst x \<in> known}. set (pm_before ?s i) \<union> {e}) \<union> set (pm_tail ?s)"
    by (auto simp: orderEntries_def Let_def)
  have sound: "map_of remote (eventIdOf e) = Some e" if "e \<in> set ?xs" for e
    using that placed k by (auto simp: order keyed_def)
  have complete: "i \<in> eventIdOf ` set ?xs" if "map_of remote i = Some e" for i e
  proof (cases "i \<in> known")
    case True
    then have "e \<in> set ?xs" using that keyed_lookup[OF k] by (force simp: order)
    then show ?thesis using id[OF that] by blast
  next
    case False
    then have "i \<in> set (pm_placed ?s)"
      using that rows map_of_Some_key[OF that] by (auto simp: placed_entries(2)[OF id])
    from placed_entries(3)[OF id this that]
    consider "e \<in> set (pm_tail ?s)" | j where "j \<in> known" "e \<in> set (pm_before ?s j)" by blast
    then have "e \<in> set ?xs"
    proof cases
      case 2
      then obtain e' where "(j, e') \<in> set remote" using known by force
      then show ?thesis using 2 by (force simp: order)
    qed (simp add: order)
    then show ?thesis using id[OF that] by blast
  qed
  show ?thesis
  proof
    fix i
    show "map_of (rebuilt ?xs) i = map_of remote i"
      using rebuilt_lookup[of ?xs remote i] sound complete[of i] by (cases "map_of remote i") auto
  qed
qed

section \<open>Every sequence of updates\<close>

datatype projectionUpdate = Up_room "channelSummary option" | Up_remote "remoteEntry list" "ustring list" | Up_local ustring sendItem

definition applyUpdate :: "channelProjection \<Rightarrow> projectionUpdate \<Rightarrow> channelProjection" where
  "applyUpdate p u = (case u of
     Up_room room \<Rightarrow> applyRoom room p
   | Up_remote entries ignored \<Rightarrow> applyRemote entries ignored p
   | Up_local now item \<Rightarrow> applyLocal now item p)"

text \<open>Rows under their identifiers, each once; own sends under their transactions, none of which a shown message carries.\<close>

definition entryTxn :: "remoteEntry \<Rightarrow> ustring option" where
  "entryTxn e = Option.bind (messageItem e) ti_clientTxnId"

definition shownTxns :: "(ustring \<times> remoteEntry) list \<Rightarrow> ustring set" where
  "shownTxns m = {t. \<exists>x \<in> set m. entryTxn (snd x) = Some t}"

definition projectionOk :: "channelProjection \<Rightarrow> bool" where
  "projectionOk p \<longleftrightarrow> keyed (pj_remote p) \<and> distinct (map fst (pj_local p)) \<and> fst ` set (pj_local p) \<inter> shownTxns (pj_remote p) = {}"

lemma shownTxns_delete: "shownTxns (mapDelete k m) \<subseteq> shownTxns m"
  by (force simp: shownTxns_def mapDelete_def)

lemma shownTxns_set: "keyed m \<Longrightarrow> shownTxns (mapSet k e m) \<subseteq> shownTxns m \<union> {t. entryTxn e = Some t}"
  by (force simp: shownTxns_def keyed_def set_mapSet)

lemma keys_after:
  "fst ` set (mapSet k v m) = insert k (fst ` set m)" "fst ` set (mapDelete k m) = fst ` set m - {k}"
  "distinct (map fst m) \<Longrightarrow> distinct (map fst (mapSet k v m))" "distinct (map fst m) \<Longrightarrow> distinct (map fst (mapDelete k m))"
proof -
  have "set (map fst (mapSet k v m)) = insert k (set (map fst m))" unfolding keys_mapSet by auto
  then show "fst ` set (mapSet k v m) = insert k (fst ` set m)" by simp
  have "set (map fst (mapDelete k m)) = set (map fst m) - {k}" unfolding keys_mapDelete by auto
  then show "fst ` set (mapDelete k m) = fst ` set m - {k}" by simp
qed (auto simp: keys_mapSet keys_mapDelete)

lemma ignoreEvent_ok:
  assumes "projectionOk p"
  shows "projectionOk (ignoreEvent e p)"
proof -
  have rows: "pj_remote (ignoreEvent e p) \<in> {pj_remote p, mapDelete e (pj_remote p)}" "pj_local (ignoreEvent e p) = pj_local p"
    by (simp_all add: ignoreEvent_def split: option.split)
  then have "keyed (pj_remote (ignoreEvent e p)) \<and> shownTxns (pj_remote (ignoreEvent e p)) \<subseteq> shownTxns (pj_remote p)"
    using assms keyed_mapDelete shownTxns_delete[of e "pj_remote p"] by (auto simp: projectionOk_def)
  then show ?thesis using assms rows(2) by (auto simp: projectionOk_def)
qed

lemma mergeEntry_ok:
  assumes "projectionOk p"
  shows "projectionOk (mergeEntry e p)"
proof (cases "eventIdOf e \<in> set (pj_ignored p) \<or> \<not> supersedes (map_of (pj_remote p) (eventIdOf e)) e")
  case False
  let ?p = "mergeEntry e p"
  have k: "keyed (pj_remote p)" using assms by (simp add: projectionOk_def)
  have rows: "pj_remote ?p = mapSet (eventIdOf e) e (pj_remote p)"
    "pj_local ?p = (case entryTxn e of None \<Rightarrow> pj_local p | Some t \<Rightarrow> mapDelete t (pj_local p))"
    using False by (simp_all add: mergeEntry_def entryTxn_def)
  have "distinct (map fst (pj_local ?p)) \<and> fst ` set (pj_local ?p) \<subseteq> fst ` set (pj_local p) - {t. entryTxn e = Some t}"
    using assms by (cases "entryTxn e") (auto simp: rows(2) keys_after projectionOk_def)
  moreover have "shownTxns (pj_remote ?p) \<subseteq> shownTxns (pj_remote p) \<union> {t. entryTxn e = Some t}"
    using shownTxns_set[OF k] by (simp add: rows(1))
  ultimately show ?thesis using assms keyed_mapSet[OF k] unfolding projectionOk_def rows(1) by blast
qed (use assms in \<open>simp add: mergeEntry_def\<close>)

lemma foldl_keeps: "I x \<Longrightarrow> (\<And>x y. I x \<Longrightarrow> I (f x y)) \<Longrightarrow> I (foldl f x ys)"
  by (induction ys arbitrary: x) auto

lemma mergeEntry_keys:
  "fst ` set (pj_remote (mergeEntry e p)) = fst ` set (pj_remote p) \<union>
     (if eventIdOf e \<in> set (pj_ignored p) \<or> \<not> supersedes (map_of (pj_remote p) (eventIdOf e)) e then {} else {eventIdOf e})"
  using arg_cong[OF keys_mapSet[of "eventIdOf e" e "pj_remote p"], of set] by (auto simp: mergeEntry_def)

lemma merged_keys:
  "fst ` set (pj_remote p) \<subseteq> fst ` set (pj_remote (foldl (\<lambda>p e. mergeEntry e p) p es))"
  "fst ` set (pj_remote (foldl (\<lambda>p e. mergeEntry e p) p es)) \<subseteq> fst ` set (pj_remote p) \<union> eventIdOf ` set es"
proof (induction es arbitrary: p)
  case (Cons e es)
  { case 1 show ?case using Cons.IH(1)[of "mergeEntry e p"] mergeEntry_keys[of e p] by auto next
    case 2 show ?case using Cons.IH(2)[of "mergeEntry e p"] mergeEntry_keys[of e p] by (auto split: if_splits) }
qed auto

text \<open>The parts of \<open>applyRemote\<close>: what is ignored and merged, and the rows put in order.\<close>

definition mergedProjection :: "remoteEntry list \<Rightarrow> ustring list \<Rightarrow> channelProjection \<Rightarrow> channelProjection" where
  "mergedProjection es ignored p = foldl (\<lambda>p e. mergeEntry e p) (foldl (\<lambda>p e. ignoreEvent e p) p ignored) es"

lemma merged_ok: "projectionOk p \<Longrightarrow> projectionOk (mergedProjection es ignored p)"
  unfolding mergedProjection_def
  by (rule foldl_keeps[where I = projectionOk], rule foldl_keeps[where I = projectionOk]) (simp_all add: mergeEntry_ok ignoreEvent_ok)

lemma applyRemote_alt:
  "applyRemote es ignored p = (let q = mergedProjection es ignored p in q\<lparr>pj_remote := rebuilt (orderEntries
      (fst ` set (pj_remote (foldl (\<lambda>p e. ignoreEvent e p) p ignored))) (pj_remote q) es), pj_revision := pj_revision q + 1\<rparr>)"
  by (simp add: applyRemote_def mergedProjection_def Let_def)

lemma applyRemote_rows:
  assumes "projectionOk p"
  shows "map_of (pj_remote (applyRemote es ignored p)) = map_of (pj_remote (mergedProjection es ignored p))"
proof -
  have "keyed (pj_remote (mergedProjection es ignored p))" using merged_ok[OF assms] by (simp add: projectionOk_def)
  then show ?thesis
    unfolding applyRemote_alt Let_def
    using orderEntries_rows[of "pj_remote (mergedProjection es ignored p)" "fst ` set (pj_remote (foldl (\<lambda>p e. ignoreEvent e p) p ignored))" es]
      merged_keys[of "foldl (\<lambda>p e. ignoreEvent e p) p ignored" es]
    by (simp add: mergedProjection_def)
qed

lemma applyRemote_ok:
  assumes "projectionOk p"
  shows "projectionOk (applyRemote es ignored p)"
proof -
  let ?q = "mergedProjection es ignored p" and ?r = "applyRemote es ignored p"
  have k: "keyed (pj_remote ?r)" by (simp add: applyRemote_alt Let_def keyed_rebuilt)
  have q: "projectionOk ?q" using merged_ok[OF assms] .
  then have "set (pj_remote ?r) = set (pj_remote ?q)"
    using keyed_lookup[OF k] keyed_lookup[of "pj_remote ?q"] applyRemote_rows[OF assms, of es ignored] by (auto simp: projectionOk_def)
  then have "shownTxns (pj_remote ?r) = shownTxns (pj_remote ?q)" by (simp add: shownTxns_def)
  moreover have "pj_local ?r = pj_local ?q" by (simp add: applyRemote_alt Let_def)
  ultimately show ?thesis using q k by (simp add: projectionOk_def)
qed

lemma applyLocal_ok:
  assumes "projectionOk p"
  shows "projectionOk (applyLocal now item p)"
proof (cases "it_eventRef item")
  case None
  have "it_clientTxnId item \<in> shownTxns (pj_remote p)"
    if "list_ex (\<lambda>(_, entry). (case messageItem entry of None \<Rightarrow> False | Some i \<Rightarrow> ti_clientTxnId i = Some (it_clientTxnId item))) (pj_remote p)
        = True"
    using that by (force simp: shownTxns_def entryTxn_def list_ex_iff split: option.splits)
  moreover have "it_clientTxnId item \<notin> shownTxns (pj_remote p)"
    if "\<not> list_ex (\<lambda>(_, entry). (case messageItem entry of None \<Rightarrow> False | Some i \<Rightarrow> ti_clientTxnId i = Some (it_clientTxnId item))) (pj_remote p)"
    using that by (auto simp: shownTxns_def entryTxn_def list_ex_iff split: option.splits bind_splits)
  ultimately show ?thesis
    using assms None unfolding projectionOk_def applyLocal_def Let_def by (auto simp: keys_after)
next
  case (Some ref)
  let ?e = "Message_entry \<lparr>ti_ref = Event_ref ref, ti_content = Message_content (it_content item), ti_participant = pj_self p,
      ti_targetParticipant = None, ti_clientTxnId = Some (it_clientTxnId item), ti_receivedAt = now\<rparr>"
  have id: "eventIdOf ?e = ev_eventId ref" by (simp add: eventIdOf_def itemEventId_def refIdentity_def eventIdentity.truncate_def)
  have k: "keyed (pj_remote p)" using assms by (simp add: projectionOk_def)
  have "keyed (mapSet (ev_eventId ref) ?e (pj_remote p))" using keyed_mapSet[OF k, of ?e] by (simp add: id)
  moreover have "shownTxns (mapSet (ev_eventId ref) ?e (pj_remote p)) \<subseteq> insert (it_clientTxnId item) (shownTxns (pj_remote p))"
    using shownTxns_set[OF k, of "ev_eventId ref" ?e] by (auto simp: entryTxn_def messageItem_def)
  ultimately show ?thesis
    using assms Some unfolding projectionOk_def applyLocal_def Let_def by (auto simp: keys_after)
qed

lemma applyUpdate_ok: "projectionOk p \<Longrightarrow> projectionOk (applyUpdate p u)"
proof (cases u)
  case (Up_room room)
  assume "projectionOk p"
  then show ?thesis using Up_room by (simp add: applyUpdate_def applyRoom_def projectionOk_def split: option.split)
qed (simp_all add: applyUpdate_def applyRemote_ok applyLocal_ok)

lemma newProjection_ok: "projectionOk (newProjection roomId self)"
  by (simp add: projectionOk_def newProjection_def keyed_def)

lemma updates_ok: "projectionOk (foldl applyUpdate (newProjection roomId self) us)"
  by (rule foldl_keeps[where I = projectionOk]) (simp_all add: newProjection_ok applyUpdate_ok)


section \<open>Properties\<close>

definition rowEvent :: "timelineEntry \<Rightarrow> ustring option" where
  "rowEvent row = (case row of Remote_row e \<Rightarrow> Some (eventIdOf e) | Local_row _ _ \<Rightarrow> None)"

definition rowShownTxn :: "timelineEntry \<Rightarrow> ustring option" where
  "rowShownTxn row = (case row of Remote_row e \<Rightarrow> entryTxn e | Local_row _ _ \<Rightarrow> None)"

definition localTxns :: "channelProjection \<Rightarrow> ustring list" where
  "localTxns p = map fst (pj_local p)"

lemma map_filter_rows:
  "List.map_filter rowEvent (vw_entries (projectionEntries g p)) = map (\<lambda>x. eventIdOf (snd x)) (pj_remote p)"
  "set (List.map_filter rowShownTxn (vw_entries (projectionEntries g p))) = shownTxns (pj_remote p)"
proof -
  have none: "List.map_filter (\<lambda>(_, s, content). rowEvent (Local_row s content)) xs = []"
    "List.map_filter (\<lambda>(_, s, content). rowShownTxn (Local_row s content)) xs = []" for xs :: "(ustring \<times> sendState \<times> messageContent) list"
    by (induction xs) (auto simp: rowEvent_def rowShownTxn_def)
  have some: "List.map_filter (\<lambda>(_, e). rowEvent (Remote_row e)) xs = map (\<lambda>x. eventIdOf (snd x)) xs"
    "set (List.map_filter (\<lambda>(_, e). rowShownTxn (Remote_row e)) xs) = shownTxns xs" for xs :: "(ustring \<times> remoteEntry) list"
    by (induction xs) (auto simp: rowEvent_def rowShownTxn_def shownTxns_def split: option.splits)
  show "List.map_filter rowEvent (vw_entries (projectionEntries g p)) = map (\<lambda>x. eventIdOf (snd x)) (pj_remote p)"
    using none(1)[of "pj_local p"] some(1)[of "pj_remote p"]
    by (simp add: projectionEntries_def map_filter_def comp_def case_prod_unfold filter_map)
  show "set (List.map_filter rowShownTxn (vw_entries (projectionEntries g p))) = shownTxns (pj_remote p)"
    using none(2)[of "pj_local p"] some(2)[of "pj_remote p"]
    by (simp add: projectionEntries_def map_filter_def comp_def case_prod_unfold filter_map)
qed

text \<open>C16: In every view of a channel, however room updates, SDK deliveries and send responses were interleaved, no event has two
  rows, no own transaction has two pending rows, and no pending row is shown for a transaction a message row already carries.\<close>
theorem view_shows_each_once:
  fixes roomId self us
  defines "p \<equiv> foldl applyUpdate (newProjection roomId self) us"
  shows "distinct (List.map_filter rowEvent (vw_entries (projectionEntries g p))) \<and> distinct (localTxns p)
    \<and> set (localTxns p) \<inter> set (List.map_filter rowShownTxn (vw_entries (projectionEntries g p))) = {}"
proof -
  have ok: "projectionOk p" unfolding p_def by (rule updates_ok)
  then have "map (\<lambda>x. eventIdOf (snd x)) (pj_remote p) = map fst (pj_remote p)"
    by (auto simp: projectionOk_def keyed_def)
  then show ?thesis using ok by (simp only: map_filter_rows localTxns_def projectionOk_def keyed_def set_map simp_thms)
qed

subsection \<open>Readable rows stay\<close>

lemma readable_ignore:
  "map_of (pj_remote p) i = Some e \<Longrightarrow> \<not> isUnavailable e \<Longrightarrow> map_of (pj_remote (ignoreEvent j p)) i = Some e"
  by (auto simp: ignoreEvent_def split: option.splits)

lemma readable_merge:
  "map_of (pj_remote p) i = Some e \<Longrightarrow> \<not> isUnavailable e \<Longrightarrow> map_of (pj_remote (mergeEntry x p)) i = Some e"
  by (auto simp: mergeEntry_def supersedes_def)

lemma readable_update:
  assumes "projectionOk p" "map_of (pj_remote p) i = Some e" "\<not> isUnavailable e"
  shows "map_of (pj_remote (applyUpdate p u)) i = Some e"
proof (cases u)
  case (Up_room r)
  then show ?thesis using assms by (simp add: applyUpdate_def applyRoom_def split: option.split)
next
  case (Up_remote es ig)
  have "map_of (pj_remote (foldl (\<lambda>p e. ignoreEvent e p) p ig)) i = Some e"
    by (rule foldl_keeps[where I = "\<lambda>p. map_of (pj_remote p) i = Some e"]) (simp_all add: assms readable_ignore)
  then have "map_of (pj_remote (mergedProjection es ig p)) i = Some e"
    unfolding mergedProjection_def
    by (rule foldl_keeps[where I = "\<lambda>p. map_of (pj_remote p) i = Some e"]) (simp_all add: assms readable_merge)
  then show ?thesis using Up_remote applyRemote_rows[OF assms(1)] by (simp add: applyUpdate_def)
next
  case (Up_local now item)
  have key: "i \<in> set (map fst (pj_remote p))" using map_of_Some_key[OF assms(2)] by simp
  show ?thesis
  proof (cases "it_eventRef item")
    case (Some ref)
    then show ?thesis using assms key unfolding Up_local applyUpdate_def applyLocal_def Let_def mapHas_def
      by (cases "ev_eventId ref = i") (simp_all add: fun_upd_other)
  qed (simp add: assms Up_local applyUpdate_def applyLocal_def Let_def)
qed

text \<open>C19: A row that was once readable is in every later view with the same content: no placeholder, replayed event, ignore
  list, room update or send response removes or changes it.\<close>
theorem readable_rows_stay:
  assumes "map_of (pj_remote (foldl applyUpdate (newProjection roomId self) us)) i = Some e" and "\<not> isUnavailable e"
  shows "map_of (pj_remote (foldl applyUpdate (newProjection roomId self) (us @ vs))) i = Some e"
proof (induction vs rule: rev_induct)
  case (snoc v vs)
  then show ?case using readable_update[OF updates_ok, of roomId self "us @ vs" i e v] assms(2) by simp
qed (simp add: assms)

subsection \<open>Redelivery changes nothing\<close>

lemma ignore_again:
  fixes p ig
  defines "p1 \<equiv> foldl (\<lambda>p e. ignoreEvent e p) p ig"
  shows "set (pj_ignored p1) = set (pj_ignored p) \<union> set ig"
    and "\<And>i e. i \<in> set ig \<Longrightarrow> map_of (pj_remote p1) i = Some e \<Longrightarrow> \<not> isUnavailable e"
    and "\<And>i. map_of (pj_remote p) i = None \<Longrightarrow> map_of (pj_remote p1) i = None"
  unfolding p1_def
proof (induction ig rule: rev_induct)
  case (snoc j ig)
  { case 1 show ?case using snoc by (auto simp: ignoreEvent_def setAdd_def) next
    case (2 i e) then show ?case using snoc by (auto simp: ignoreEvent_def split: option.splits if_splits) next
    case (3 i) then show ?case using snoc by (auto simp: ignoreEvent_def split: option.splits if_splits) }
qed simp_all

lemma merge_ignored:
  "pj_ignored (foldl (\<lambda>p e. mergeEntry e p) p es) = pj_ignored p"
  by (induction es arbitrary: p) (simp_all add: mergeEntry_def)

lemma merge_ignored_row:
  "i \<in> set (pj_ignored p) \<Longrightarrow> map_of (pj_remote (foldl (\<lambda>p e. mergeEntry e p) p es)) i = map_of (pj_remote p) i"
  by (induction es arbitrary: p) (auto simp: mergeEntry_def)

text \<open>An entry that was merged, or is ignored, is not merged again.\<close>

definition settledEntry :: "channelProjection \<Rightarrow> remoteEntry \<Rightarrow> bool" where
  "settledEntry p e \<longleftrightarrow> eventIdOf e \<in> set (pj_ignored p) \<or> \<not> supersedes (map_of (pj_remote p) (eventIdOf e)) e"

lemma settled_merge: "settledEntry p e \<Longrightarrow> settledEntry (mergeEntry x p) e"
  by (auto simp: settledEntry_def mergeEntry_def supersedes_def split: option.splits)

lemma settled_now: "settledEntry (mergeEntry e p) e"
  by (auto simp: settledEntry_def mergeEntry_def supersedes_def split: option.splits)

lemma merged_settled: "e \<in> set es \<Longrightarrow> settledEntry (foldl (\<lambda>p e. mergeEntry e p) p es) e"
  by (induction es rule: rev_induct) (auto simp: settled_merge settled_now)

lemma merge_settled: "(\<And>e. e \<in> set es \<Longrightarrow> settledEntry p e) \<Longrightarrow> foldl (\<lambda>p e. mergeEntry e p) p es = p"
  by (induction es) (auto simp: settledEntry_def mergeEntry_def)

lemma ignore_settled:
  "(\<And>i. i \<in> set ig \<Longrightarrow> i \<in> set (pj_ignored p)) \<Longrightarrow> (\<And>i e. i \<in> set ig \<Longrightarrow> map_of (pj_remote p) i = Some e \<Longrightarrow> \<not> isUnavailable e)
   \<Longrightarrow> foldl (\<lambda>p e. ignoreEvent e p) p ig = p"
proof (induction ig)
  case (Cons i ig)
  have "ignoreEvent i p = p"
    using Cons.prems(1)[of i] Cons.prems(2)[of i] by (auto simp: ignoreEvent_def setAdd_def split: option.split)
  moreover have "foldl (\<lambda>p e. ignoreEvent e p) p ig = p"
    by (rule Cons.IH) (simp add: Cons.prems(1), rule Cons.prems(2), simp_all)
  ultimately show ?case by simp
qed simp

lemma place_known: "(\<And>e. e \<in> set es \<Longrightarrow> eventIdOf e \<in> known \<or> map_of remote (eventIdOf e) = None) \<Longrightarrow>
   pm_before (placeEntries known remote es) = (\<lambda>_. []) \<and> pm_tail (placeEntries known remote es) = []"
proof (induction es)
  case (Cons e es)
  have rest: "pm_before (placeEntries known remote es) = (\<lambda>_. []) \<and> pm_tail (placeEntries known remote es) = []"
    by (rule Cons.IH) (simp add: Cons.prems)
  have "eventIdOf e \<in> known \<or> map_of remote (eventIdOf e) = None" by (rule Cons.prems) simp
  then show ?case
    by (elim disjE; cases "eventIdOf e \<in> known") (simp_all add: placeEntries_simps placeEntry_def rest)
qed (simp add: placeEntries_simps)

lemma order_known:
  assumes "keyed remote" "\<And>e. e \<in> set es \<Longrightarrow> eventIdOf e \<in> fst ` set remote \<or> map_of remote (eventIdOf e) = None"
  shows "rebuilt (orderEntries (fst ` set remote) remote es) = remote"
proof -
  have all: "filter (\<lambda>(i, _). i \<in> fst ` set remote) remote = remote" by (rule filter_True) force
  have single: "concat (map (\<lambda>(i, entry). [entry]) xs) = map snd xs" for xs :: "(ustring \<times> remoteEntry) list"
    by (induction xs) auto
  have "orderEntries (fst ` set remote) remote es = map snd remote"
    using place_known[of es "fst ` set remote" remote] assms(2) by (simp add: orderEntries_def Let_def all single)
  moreover have ids: "map (\<lambda>x. eventIdOf (snd x)) remote = map fst remote" using assms(1) by (simp add: keyed_def)
  moreover have "map (\<lambda>x. (eventIdOf (snd x), snd x)) remote = remote"
    by (rule map_idI) (use assms(1) in \<open>auto simp: keyed_def prod_eq_iff\<close>)
  moreover have "distinct (map eventIdOf (map snd remote))" using assms(1) unfolding map_map comp_def ids by (simp add: keyed_def)
  ultimately show ?thesis by (simp only: rebuilt_distinct map_map comp_def)
qed

text \<open>A delivery that is applied a second time, as the SDK does on every resync, changes nothing in the view but its
  revision: the rows, their order, the pending sends and the ignored events are those of the first delivery.\<close>
theorem redelivery_is_idempotent:
  fixes roomId self us
  defines "p \<equiv> foldl applyUpdate (newProjection roomId self) us"
  shows "applyRemote es ignored (applyRemote es ignored p)
    = (applyRemote es ignored p)\<lparr>pj_revision := pj_revision (applyRemote es ignored p) + 1\<rparr>"
proof -
  let ?r = "applyRemote es ignored p" and ?p1 = "foldl (\<lambda>p e. ignoreEvent e p) p ignored"
  have ok: "projectionOk p" unfolding p_def by (rule updates_ok)
  have lookup: "map_of (pj_remote ?r) = map_of (pj_remote (mergedProjection es ignored p))" by (rule applyRemote_rows[OF ok])
  have ign: "pj_ignored ?r = pj_ignored ?p1" by (simp add: applyRemote_alt Let_def mergedProjection_def merge_ignored)
  have keyed: "keyed (pj_remote ?r)" using applyRemote_ok[OF ok] by (simp add: projectionOk_def)
  have settled: "settledEntry ?r e" if "e \<in> set es" for e
    using merged_settled[OF that, of ?p1] by (simp add: settledEntry_def lookup ign mergedProjection_def merge_ignored)
  have ignored: "foldl (\<lambda>p e. ignoreEvent e p) ?r ignored = ?r"
  proof (rule ignore_settled)
    fix i assume "i \<in> set ignored"
    then show i: "i \<in> set (pj_ignored ?r)" using ignore_again(1)[of p ignored] by (simp add: ign)
    fix e assume "map_of (pj_remote ?r) i = Some e"
    then have "map_of (pj_remote ?p1) i = Some e"
      using merge_ignored_row[of i ?p1 es] i by (simp add: lookup mergedProjection_def ign)
    then show "\<not> isUnavailable e" using ignore_again(2)[of i ignored p e] \<open>i \<in> set ignored\<close> by simp
  qed
  have merged: "mergedProjection es ignored ?r = ?r"
    unfolding mergedProjection_def ignored by (rule merge_settled) (rule settled)
  have "rebuilt (orderEntries (fst ` set (pj_remote ?r)) (pj_remote ?r) es) = pj_remote ?r"
    by (rule order_known[OF keyed]) (metis map_of_Some_key not_None_eq)
  then show ?thesis by (subst applyRemote_alt) (simp add: merged ignored Let_def)
qed

subsection \<open>History in timeline order\<close>

text \<open>A timeline position orders the events. A delivery leaves no gap when the shown row that follows a new event is itself
  delivered with it, as in the cached timeline of the SDK.\<close>

definition inOrder :: "(ustring \<Rightarrow> nat) \<Rightarrow> ustring list \<Rightarrow> bool" where
  "inOrder pos ids \<longleftrightarrow> sorted_wrt (\<lambda>i j. pos i < pos j) ids"

definition noGap :: "(ustring \<Rightarrow> nat) \<Rightarrow> ustring set \<Rightarrow> ustring set \<Rightarrow> bool" where
  "noGap pos known ids \<longleftrightarrow> (\<forall>k \<in> known. \<forall>i \<in> ids. i \<notin> known \<and> pos i \<le> pos k \<longrightarrow> (\<exists>s \<in> ids \<inter> known. pos i < pos s \<and> pos s \<le> pos k))"

definition bucketOk :: "(ustring \<Rightarrow> nat) \<Rightarrow> ustring set \<Rightarrow> ustring set \<Rightarrow> ustring \<Rightarrow> remoteEntry list \<Rightarrow> bool" where
  "bucketOk pos known ids k es \<longleftrightarrow> inOrder pos (map eventIdOf es) \<and> (\<forall>i \<in> eventIdOf ` set es. i \<in> ids \<and> i \<notin> known \<and> pos i < pos k
     \<and> (\<forall>j \<in> ids \<inter> known. pos i < pos j \<longrightarrow> pos k \<le> pos j))"

definition tailOk :: "(ustring \<Rightarrow> nat) \<Rightarrow> ustring set \<Rightarrow> ustring set \<Rightarrow> remoteEntry list \<Rightarrow> bool" where
  "tailOk pos known ids es \<longleftrightarrow> inOrder pos (map eventIdOf es) \<and> (\<forall>i \<in> eventIdOf ` set es. i \<in> ids \<and> i \<notin> known \<and> (\<forall>j \<in> ids \<inter> known. pos j < pos i))"

definition successorOk :: "(ustring \<Rightarrow> nat) \<Rightarrow> ustring set \<Rightarrow> ustring option \<Rightarrow> bool" where
  "successorOk pos ids successor \<longleftrightarrow> (case successor of None \<Rightarrow> ids = {} | Some k \<Rightarrow> k \<in> ids \<and> (\<forall>j \<in> ids. pos k \<le> pos j))"

lemma bucket_extend:
  assumes "bucketOk pos known ids k es" "\<forall>j \<in> ids. pos i < pos j"
  shows "bucketOk pos known (insert i ids) k es"
    and "eventIdOf x = i \<Longrightarrow> i \<notin> known \<Longrightarrow> k \<in> ids \<Longrightarrow> \<forall>j \<in> ids \<inter> known. pos k \<le> pos j \<Longrightarrow> bucketOk pos known (insert i ids) k (x # es)"
  using assms unfolding bucketOk_def inOrder_def by (force, force)

lemma tail_extend:
  assumes "tailOk pos known ids es" "\<forall>j \<in> ids. pos i < pos j"
  shows "tailOk pos known (insert i ids) es"
    and "eventIdOf x = i \<Longrightarrow> i \<notin> known \<Longrightarrow> ids \<inter> known = {} \<Longrightarrow> tailOk pos known (insert i ids) (x # es)"
  using assms unfolding tailOk_def inOrder_def by (force, force)

lemma placed_order:
  fixes known remote
  assumes id: "\<And>i e. map_of remote i = Some e \<Longrightarrow> eventIdOf e = i"
  shows "inOrder pos (map eventIdOf entries) \<Longrightarrow> successorOk pos (eventIdOf ` set entries \<inter> known) (pm_successor (placeEntries known remote entries))
    \<and> (\<forall>k. bucketOk pos known (eventIdOf ` set entries) k (pm_before (placeEntries known remote entries) k))
    \<and> tailOk pos known (eventIdOf ` set entries) (pm_tail (placeEntries known remote entries))"
proof (induction entries)
  case Nil
  show ?case by (simp add: placeEntries_simps successorOk_def bucketOk_def tailOk_def inOrder_def)
next
  case (Cons x es)
  let ?s = "placeEntries known remote es" and ?i = "eventIdOf x" and ?ids = "eventIdOf ` set es"
  have lt: "\<forall>j \<in> ?ids. pos ?i < pos j" using Cons.prems by (simp add: inOrder_def)
  have s: "successorOk pos (?ids \<inter> known) (pm_successor ?s)"
    and b: "\<And>k. bucketOk pos known ?ids k (pm_before ?s k)" and t: "tailOk pos known ?ids (pm_tail ?s)"
    using Cons by (simp_all add: inOrder_def)
  note kept = bucket_extend(1)[OF b lt] tail_extend(1)[OF t lt]
  have ids: "eventIdOf ` set (x # es) = insert ?i ?ids" by simp
  show ?case
  proof (cases "?i \<in> known")
    case True
    then have "successorOk pos (insert ?i ?ids \<inter> known) (Some ?i)" using lt by (auto simp: successorOk_def intro: less_imp_le)
    then show ?thesis using True kept unfolding ids by (simp add: placeEntries_simps placeEntry_def)
  next
    case fresh: False
    then have s': "successorOk pos (insert ?i ?ids \<inter> known) (pm_successor ?s)" using s by simp
    show ?thesis
    proof (cases "map_of remote ?i = None \<or> ?i \<in> set (pm_placed ?s)")
      case True
      then have "placeEntries known remote (x # es) = ?s"
        using fresh by (auto simp: placeEntries_simps placeEntry_def Let_def split: option.split)
      then show ?thesis using s' kept unfolding ids by simp
    next
      case False
      then obtain e where e: "map_of remote ?i = Some e" "?i \<notin> set (pm_placed ?s)" by auto
      show ?thesis
      proof (cases "pm_successor ?s")
        case None
        then have "tailOk pos known (insert ?i ?ids) (e # pm_tail ?s)"
          using s by (intro tail_extend(2)[OF t lt id[OF e(1)] fresh]) (simp add: successorOk_def)
        then show ?thesis using None fresh e s' kept unfolding ids by (simp add: placeEntries_simps placeEntry_def Let_def)
      next
        case (Some k)
        then have "bucketOk pos known (insert ?i ?ids) k (e # pm_before ?s k)"
          using s by (intro bucket_extend(2)[OF b lt id[OF e(1)] fresh]) (simp_all add: successorOk_def)
        then show ?thesis using Some fresh e s' kept unfolding ids by (simp add: placeEntries_simps placeEntry_def Let_def)
      qed
    qed
  qed
qed

lemma sorted_buckets:
  assumes "inOrder pos ks" "\<And>k i. k \<in> set ks \<Longrightarrow> i \<in> set (B k) \<Longrightarrow> pos i < pos k" "\<And>k. inOrder pos (B k)"
    and "\<And>k k' i. k \<in> set ks \<Longrightarrow> k' \<in> set ks \<Longrightarrow> pos k' < pos k \<Longrightarrow> i \<in> set (B k) \<Longrightarrow> pos k' < pos i"
  shows "inOrder pos (concat (map (\<lambda>k. B k @ [k]) ks))"
  using assms(1,2,4)
proof (induction ks)
  case (Cons k ks)
  have head: "inOrder pos (B k @ [k])" using Cons.prems(2)[of k] assms(3) by (simp add: inOrder_def sorted_wrt_append)
  have rest: "inOrder pos (concat (map (\<lambda>k. B k @ [k]) ks))"
  proof (rule Cons.IH)
    show "inOrder pos ks" using Cons.prems(1) by (simp add: inOrder_def)
    show "pos i < pos k'" if "k' \<in> set ks" "i \<in> set (B k')" for k' i using Cons.prems(2)[of k' i] that by simp
    show "pos k'' < pos i" if "k' \<in> set ks" "k'' \<in> set ks" "pos k'' < pos k'" "i \<in> set (B k')" for k' k'' i
      using Cons.prems(3)[of k' k'' i] that by simp
  qed
  have first: "pos k < pos j" if "j \<in> set (concat (map (\<lambda>k. B k @ [k]) ks))" for j
    using that Cons.prems(1) Cons.prems(3)[of _ k] by (auto simp: inOrder_def)
  have "pos i < pos j" if "i \<in> set (B k @ [k])" "j \<in> set (concat (map (\<lambda>k. B k @ [k]) ks))" for i j
    using that(1) first[OF that(2)] Cons.prems(2)[of k i] by auto
  then show ?case using head rest by (auto simp: inOrder_def sorted_wrt_append)
qed (simp add: inOrder_def)

lemma merged_key_order:
  "filter (\<lambda>i. i \<in> fst ` set (pj_remote p)) (map fst (pj_remote (foldl (\<lambda>p e. mergeEntry e p) p es))) = map fst (pj_remote p)"
proof (induction es rule: rev_induct)
  case Nil
  show ?case by (auto intro: filter_True)
next
  case (snoc e es)
  let ?q = "foldl (\<lambda>p e. mergeEntry e p) p es"
  have "fst ` set (pj_remote p) \<subseteq> fst ` set (pj_remote ?q)" by (rule merged_keys)
  moreover have "map fst (pj_remote (mergeEntry e ?q)) \<in> {map fst (pj_remote ?q), map fst (pj_remote (mergeEntry e ?q))}
    \<and> (map fst (pj_remote (mergeEntry e ?q)) = map fst (pj_remote ?q)
      \<or> eventIdOf e \<notin> fst ` set (pj_remote ?q) \<and> map fst (pj_remote (mergeEntry e ?q)) = map fst (pj_remote ?q) @ [eventIdOf e])"
    by (simp add: mergeEntry_def keys_mapSet)
  ultimately show ?case using snoc.IH by auto
qed

lemma ordered_ids:
  assumes "keyed remote"
  shows "map eventIdOf (orderEntries known remote entries)
    = concat (map (\<lambda>k. map eventIdOf (pm_before (placeEntries known remote entries) k) @ [k]) (filter (\<lambda>i. i \<in> known) (map fst remote)))
      @ map eventIdOf (pm_tail (placeEntries known remote entries))"
proof -
  have "map eventIdOf (concat (map (\<lambda>(i, e). B i @ [e]) (filter (\<lambda>(i, _). i \<in> known) xs)))
      = concat (map (\<lambda>k. map eventIdOf (B k) @ [k]) (filter (\<lambda>i. i \<in> known) (map fst xs)))"
    if "\<forall>x \<in> set xs. eventIdOf (snd x) = fst x" for xs and B :: "ustring \<Rightarrow> remoteEntry list"
    using that by (induction xs) auto
  from this[of remote "pm_before (placeEntries known remote entries)"] show ?thesis
    using assms by (simp add: orderEntries_def Let_def keyed_def)
qed

lemma orderEntries_inOrder:
  assumes k: "keyed remote" and ks: "inOrder pos (filter (\<lambda>i. i \<in> known) (map fst remote))" and known: "known \<subseteq> fst ` set remote"
    and es: "inOrder pos (map eventIdOf entries)" and gap: "noGap pos known (eventIdOf ` set entries)"
  shows "inOrder pos (map eventIdOf (orderEntries known remote entries))"
proof -
  let ?s = "placeEntries known remote entries" and ?ids = "eventIdOf ` set entries" and ?ks = "filter (\<lambda>i. i \<in> known) (map fst remote)"
  have b: "bucketOk pos known ?ids j (pm_before ?s j)" and t: "tailOk pos known ?ids (pm_tail ?s)" for j
    using placed_order[OF keyed_id[OF k] es] by blast+
  have sorted: "inOrder pos (concat (map (\<lambda>k. map eventIdOf (pm_before ?s k) @ [k]) ?ks))"
  proof (rule sorted_buckets[OF ks])
    show "pos i < pos j" if "i \<in> set (map eventIdOf (pm_before ?s j))" for i j using that b[of j] by (auto simp: bucketOk_def)
    show "inOrder pos (map eventIdOf (pm_before ?s j))" for j using b[of j] by (simp add: bucketOk_def)
    show "pos k' < pos i" if i: "i \<in> set (map eventIdOf (pm_before ?s j))" and ks': "k' \<in> set ?ks" "pos k' < pos j" for i j k'
    proof (rule ccontr)
      assume "\<not> pos k' < pos i"
      have i': "i \<in> ?ids" "i \<notin> known" "\<forall>s \<in> ?ids \<inter> known. pos i < pos s \<longrightarrow> pos j \<le> pos s"
        using i b[of j] unfolding bucketOk_def set_map by blast+
      with gap ks'(1) \<open>\<not> pos k' < pos i\<close> obtain s where "s \<in> ?ids \<inter> known" "pos i < pos s" "pos s \<le> pos k'"
        unfolding noGap_def by fastforce
      then show False using i'(3) ks'(2) by fastforce
    qed
  qed
  have after: "pos j < pos i" if i: "i \<in> eventIdOf ` set (pm_tail ?s)" and j: "j \<in> known" for i j
  proof (rule ccontr)
    assume "\<not> pos j < pos i"
    have i': "i \<in> ?ids" "i \<notin> known" "\<forall>s \<in> ?ids \<inter> known. pos s < pos i" using i t unfolding tailOk_def by blast+
    with gap j \<open>\<not> pos j < pos i\<close> obtain s where "s \<in> ?ids \<inter> known" "pos i < pos s"
      unfolding noGap_def by fastforce
    then show False using i'(3) less_asym by blast
  qed
  have "pos i < pos j" if i: "i \<in> set (concat (map (\<lambda>k. map eventIdOf (pm_before ?s k) @ [k]) ?ks))" and j: "j \<in> eventIdOf ` set (pm_tail ?s)" for i j
  proof -
    obtain k' where k': "k' \<in> known" "i = k' \<or> i \<in> eventIdOf ` set (pm_before ?s k')" using i by auto
    then have "pos i \<le> pos k'" using b[of k'] by (auto simp: bucketOk_def)
    then show ?thesis using after[OF j k'(1)] by simp
  qed
  moreover have "inOrder pos (map eventIdOf (pm_tail ?s))" using t by (simp add: tailOk_def)
  ultimately show ?thesis using sorted unfolding ordered_ids[OF k] inOrder_def by (auto simp: sorted_wrt_append)
qed

lemma inOrder_distinct: "inOrder pos ids \<Longrightarrow> distinct ids"
  by (induction ids) (auto simp: inOrder_def)

definition rowIds :: "channelProjection \<Rightarrow> ustring list" where
  "rowIds p = map fst (pj_remote p)"

text \<open>C20: Paginated history lands in its place. When the rows shown are in timeline order, the delivered events are in timeline
  order and every shown row after a new event has a delivered shown row in between or is delivered itself, the rows after the
  delivery are in timeline order, however many old and new events are interleaved.\<close>
theorem history_in_timeline_order:
  fixes roomId self us ignored
  defines "p \<equiv> foldl (\<lambda>p e. ignoreEvent e p) (foldl applyUpdate (newProjection roomId self) us) ignored"
  assumes "inOrder pos (rowIds p)" and "inOrder pos (map eventIdOf es)" and "noGap pos (set (rowIds p)) (set (map eventIdOf es))"
  shows "inOrder pos (rowIds (applyRemote es ignored (foldl applyUpdate (newProjection roomId self) us)))"
proof -
  let ?p = "foldl applyUpdate (newProjection roomId self) us"
  let ?q = "mergedProjection es ignored ?p"
  have q: "?q = foldl (\<lambda>p e. mergeEntry e p) p es" by (simp add: mergedProjection_def p_def)
  have k: "keyed (pj_remote ?q)" using merged_ok[OF updates_ok] by (simp add: projectionOk_def)
  have "inOrder pos (map eventIdOf (orderEntries (fst ` set (pj_remote p)) (pj_remote ?q) es))"
    by (rule orderEntries_inOrder[OF k])
      (use assms(2-4) merged_keys(1)[of p es] merged_key_order[of p es] in \<open>simp_all add: q rowIds_def\<close>)
  then show ?thesis
    using rebuilt_distinct[OF inOrder_distinct] by (simp add: rowIds_def applyRemote_alt Let_def p_def comp_def)
qed

subsection \<open>Witnesses\<close>

definition sampleReader :: participantView where
  "sampleReader = \<lparr>pv_participantId = [112], pv_kind = Human, pv_ownerId = [111], pv_displayName = [110], pv_deviceIds = []\<rparr>"

definition sampleRow :: "16 word \<Rightarrow> remoteEntry" where
  "sampleRow n = Channel_entry [n] sampleReader JNull []"

definition samplePos :: "ustring \<Rightarrow> nat" where
  "samplePos i = unat (hd i)"

lemma readable_rows_stay_witness:
  "map_of (pj_remote (foldl applyUpdate (newProjection [114] sampleReader)
     ([Up_remote [sampleRow 1] []] @ [Up_remote [Unavailable_entry [1] [112] Not_digested []] [[1]]]))) [1] = Some (sampleRow 1)"
  by (rule readable_rows_stay) code_simp+

lemma history_in_timeline_order_witness:
  "inOrder samplePos (rowIds (applyRemote (map sampleRow [1, 2, 3, 4, 5]) [] (foldl applyUpdate (newProjection [114] sampleReader)
     [Up_remote (map sampleRow [2, 4]) []])))"
  by (rule history_in_timeline_order) code_simp+

end
