(* ===== verification/ImportedHistory.thy ===== *)
theory ImportedHistory
  imports Events
begin

text \<open>
  Imported history (\<^verbatim>\<open>packages/contracts/src/messaging/imported-history.ts\<close>): the limits, the encodings and digests of
  records, chunks and manifests, the verifying readers, and the sealing of source records into bounded chunks. A reader
  that awaits a digest fails with a \<open>DecodeFailure\<close>, because Web Crypto is missing, or with a \<open>TypeError\<close>;
  \<open>decodeAsync\<close> turns the first two into results and rejects (\<open>None\<close>) on the third.
\<close>

section \<open>Data\<close>

definition IMPORTED_RECORD_ENCODING_V1 :: ustring where
  "IMPORTED_RECORD_ENCODING_V1 = js ''khala.imported-history.record.v1''"

definition IMPORTED_CHUNK_ENCODING_V1 :: ustring where
  "IMPORTED_CHUNK_ENCODING_V1 = js ''khala.imported-history.chunk.v1''"

definition IMPORTED_MANIFEST_ENCODING_V1 :: ustring where
  "IMPORTED_MANIFEST_ENCODING_V1 = js ''khala.imported-history.manifest.v1''"

record importedLimits =
  hl_maxBodyBytes :: nat
  hl_maxAuthorLabelBytes :: nat
  hl_maxRecordsPerChunk :: nat
  hl_maxChunkBytes :: nat
  hl_maxChunks :: nat
  hl_maxPageRecords :: nat
  hl_maxPageBytes :: nat

definition LIMIT_KEYS :: "string list" where
  "LIMIT_KEYS = [''maxBodyBytes'', ''maxAuthorLabelBytes'', ''maxRecordsPerChunk'', ''maxChunkBytes'', ''maxChunks'',
     ''maxPageRecords'', ''maxPageBytes'']"

definition decodeImportedHistoryLimits :: "jsval \<Rightarrow> importedLimits decoded" where
  "decodeImportedHistoryLimits input =
     bindE (object input [] LIMIT_KEYS) (\<lambda>r.
     bindE (positiveLimit r ''maxBodyBytes'') (\<lambda>body.
     bindE (positiveLimit r ''maxAuthorLabelBytes'') (\<lambda>author.
     bindE (positiveLimit r ''maxRecordsPerChunk'') (\<lambda>perChunk.
     bindE (positiveLimit r ''maxChunkBytes'') (\<lambda>chunkBytes.
     bindE (positiveLimit r ''maxChunks'') (\<lambda>chunks.
     bindE (positiveLimit r ''maxPageRecords'') (\<lambda>pageRecords.
     bindE (positiveLimit r ''maxPageBytes'') (\<lambda>pageBytes.
     if pageBytes < body then fail (atPath r ''maxPageBytes'') Invalid_limits
     else Inr \<lparr>hl_maxBodyBytes = body, hl_maxAuthorLabelBytes = author, hl_maxRecordsPerChunk = perChunk,
       hl_maxChunkBytes = chunkBytes, hl_maxChunks = chunks, hl_maxPageRecords = pageRecords, hl_maxPageBytes = pageBytes\<rparr>))))))))"

record importedSource =
  hs_channelId :: ustring
  hs_revision :: ustring

record importedActor =
  ha_ownerId :: ustring
  ha_participantId :: ustring

record originalAuthor =
  oa_label :: ustring
  oa_kind :: participantKind

record importedInput =
  hr_sourceRecordId :: ustring
  hr_sequence :: nat
  hr_author :: originalAuthor
  hr_sentAt :: ustring
  hr_body :: ustring

record importedRecord = importedInput +
  hr_digest :: ustring

record chunkEntry =
  he_index :: nat
  he_recordCount :: nat
  he_firstSequence :: nat
  he_lastSequence :: nat
  he_chunkDigest :: ustring

record importedManifest =
  hm_archiveId :: ustring
  hm_source :: importedSource
  hm_importedBy :: importedActor
  hm_importedAt :: ustring
  hm_recordCount :: nat
  hm_chunks :: "chunkEntry list"

record importedChunk =
  hk_archiveId :: ustring
  hk_index :: nat
  hk_records :: "importedRecord list"
  hk_digest :: ustring

section \<open>Encodings and digests\<close>

definition kindText :: "participantKind \<Rightarrow> ustring" where
  "kindText k = (case k of Human \<Rightarrow> js ''human'' | Agent \<Rightarrow> js ''agent'')"

definition recordArray :: "ustring \<Rightarrow> 'a importedInput_scheme \<Rightarrow> jsval" where
  "recordArray channelId r = JArr [JStr IMPORTED_RECORD_ENCODING_V1, JStr channelId, JStr (hr_sourceRecordId r), jnat (hr_sequence r),
     JStr (oa_label (hr_author r)), JStr (kindText (oa_kind (hr_author r))), JStr (hr_sentAt r), JStr (hr_body r)]"

definition encodeImportedRecord :: "platform \<Rightarrow> ustring \<Rightarrow> 'a importedInput_scheme \<Rightarrow> nat list" where
  "encodeImportedRecord pf channelId r = jsonBytes (pf_numText pf) (recordArray channelId r)"

definition chunkRecordTuple :: "importedRecord \<Rightarrow> jsval" where
  "chunkRecordTuple r = JArr [JStr (hr_sourceRecordId r), jnat (hr_sequence r), JStr (oa_label (hr_author r)),
     JStr (kindText (oa_kind (hr_author r))), JStr (hr_sentAt r), JStr (hr_body r), JStr (hr_digest r)]"

definition chunkArray :: "ustring \<Rightarrow> nat \<Rightarrow> importedRecord list \<Rightarrow> jsval" where
  "chunkArray archiveId index rs = JArr [JStr IMPORTED_CHUNK_ENCODING_V1, JStr archiveId, jnat index, JArr (map chunkRecordTuple rs)]"

definition encodeImportedHistoryChunk :: "platform \<Rightarrow> ustring \<Rightarrow> nat \<Rightarrow> importedRecord list \<Rightarrow> nat list" where
  "encodeImportedHistoryChunk pf archiveId index rs = jsonBytes (pf_numText pf) (chunkArray archiveId index rs)"

definition manifestArray :: "importedManifest \<Rightarrow> jsval" where
  "manifestArray m = JArr [JStr IMPORTED_MANIFEST_ENCODING_V1, JStr (hm_archiveId m), JStr (hs_channelId (hm_source m)),
     JStr (hs_revision (hm_source m)), JStr (ha_ownerId (hm_importedBy m)), JStr (ha_participantId (hm_importedBy m)),
     JStr (hm_importedAt m), jnat (hm_recordCount m),
     JArr (map (\<lambda>e. JArr [jnat (he_index e), jnat (he_recordCount e), jnat (he_firstSequence e), jnat (he_lastSequence e),
       JStr (he_chunkDigest e)]) (hm_chunks m))]"

definition encodeImportedHistoryManifest :: "platform \<Rightarrow> importedManifest \<Rightarrow> nat list" where
  "encodeImportedHistoryManifest pf m = jsonBytes (pf_numText pf) (manifestArray m)"

datatype archiveThrow = Failed decodeFailure | Digest_missing | Type_error

definition sha256Text :: "platform \<Rightarrow> nat list \<Rightarrow> archiveThrow + ustring" where
  "sha256Text pf bytes = (case pf_sha256 pf bytes of None \<Rightarrow> Inl Digest_missing | Some d \<Rightarrow> Inr (digestText d))"

definition decodeAsync :: "archiveThrow + 'a \<Rightarrow> 'a decoded option" where
  "decodeAsync run = (case run of
     Inr x \<Rightarrow> Some (Inr x)
   | Inl Digest_missing \<Rightarrow> Some (fail [] Digest_unavailable)
   | Inl (Failed e) \<Rightarrow> Some (Inl e)
   | Inl Type_error \<Rightarrow> None)"

definition digestImportedHistoryManifest :: "platform \<Rightarrow> importedManifest \<Rightarrow> ustring decoded option" where
  "digestImportedHistoryManifest pf m = decodeAsync (sha256Text pf (encodeImportedHistoryManifest pf m))"

text \<open>A reader that fails inside an asynchronous one.\<close>

definition liftD :: "'a decoded \<Rightarrow> archiveThrow + 'a" where
  "liftD m = (case m of Inl e \<Rightarrow> Inl (Failed e) | Inr x \<Rightarrow> Inr x)"

section \<open>Readers\<close>

definition digestField :: "jsval \<Rightarrow> ustring \<Rightarrow> ustring decoded" where
  "digestField input p = bindE (identifierField input p) (\<lambda>v. if \<not> isContentDigest v then fail p Invalid_value else Inr v)"

definition readSource :: "jsval \<Rightarrow> ustring \<Rightarrow> importedSource decoded" where
  "readSource input p =
     bindE (object input p [''channelId'', ''revision'']) (\<lambda>r.
     bindE (identifierField (field r ''channelId'') (atPath r ''channelId'')) (\<lambda>channelId.
     bindE (identifierField (field r ''revision'') (atPath r ''revision'')) (\<lambda>revision.
     Inr \<lparr>hs_channelId = channelId, hs_revision = revision\<rparr>)))"

definition readActor :: "jsval \<Rightarrow> ustring \<Rightarrow> importedActor decoded" where
  "readActor input p =
     bindE (object input p [''ownerId'', ''participantId'']) (\<lambda>r.
     bindE (readId (field r ''ownerId'') (atPath r ''ownerId'')) (\<lambda>ownerId.
     bindE (readId (field r ''participantId'') (atPath r ''participantId'')) (\<lambda>participantId.
     Inr \<lparr>ha_ownerId = ownerId, ha_participantId = participantId\<rparr>)))"

definition RECORD_INPUT_KEYS :: "string list" where
  "RECORD_INPUT_KEYS = [''sourceRecordId'', ''sequence'', ''originalAuthor'', ''originalSentAt'', ''body'']"

definition readRecordFields :: "reader \<Rightarrow> importedLimits \<Rightarrow> importedInput decoded" where
  "readRecordFields r limits =
     bindE (object (field r ''originalAuthor'') (atPath r ''originalAuthor'') [''label'', ''kind'']) (\<lambda>author.
     bindE (displayText (field author ''label'') (atPath author ''label'') (Fin (of_nat (hl_maxAuthorLabelBytes limits)))) (\<lambda>name.
     bindE (check (length name \<noteq> 0) (atPath author ''label'') Empty) (\<lambda>_.
     bindE (identifierField (field r ''sourceRecordId'') (atPath r ''sourceRecordId'')) (\<lambda>sourceRecordId.
     bindE (safeInteger (field r ''sequence'') (atPath r ''sequence'')) (\<lambda>sequence.
     bindE (literal (field author ''kind'') (atPath author ''kind'') participantKinds) (\<lambda>kind.
     bindE (utcTimestamp (field r ''originalSentAt'') (atPath r ''originalSentAt'')) (\<lambda>sentAt.
     bindE (textField (field r ''body'') (atPath r ''body'') (Fin (of_nat (hl_maxBodyBytes limits)))) (\<lambda>body.
     Inr \<lparr>hr_sourceRecordId = sourceRecordId, hr_sequence = sequence, hr_author = \<lparr>oa_label = name, oa_kind = kind\<rparr>,
       hr_sentAt = sentAt, hr_body = body\<rparr>))))))))"

definition readRecord :: "jsval \<Rightarrow> ustring \<Rightarrow> importedLimits \<Rightarrow> importedRecord decoded" where
  "readRecord input p limits =
     bindE (object input p ([''v'', ''kind''] @ RECORD_INPUT_KEYS @ [''recordDigest''])) (\<lambda>r.
     bindE (version (field r ''v'') (atPath r ''v'')) (\<lambda>_.
     bindE (literal (field r ''kind'') (atPath r ''kind'') [(''imported'', ())]) (\<lambda>_.
     bindE (readRecordFields r limits) (\<lambda>fields.
     bindE (digestField (field r ''recordDigest'') (atPath r ''recordDigest'')) (\<lambda>digest.
     Inr (importedInput.extend fields \<lparr>hr_digest = digest\<rparr>))))))"

definition readChunkEntry :: "jsval \<Rightarrow> ustring \<Rightarrow> chunkEntry decoded" where
  "readChunkEntry input p =
     bindE (object input p [''index'', ''recordCount'', ''firstSequence'', ''lastSequence'', ''chunkDigest'']) (\<lambda>r.
     bindE (safeInteger (field r ''index'') (atPath r ''index'')) (\<lambda>index.
     bindE (safeInteger (field r ''recordCount'') (atPath r ''recordCount'')) (\<lambda>count.
     bindE (safeInteger (field r ''firstSequence'') (atPath r ''firstSequence'')) (\<lambda>first.
     bindE (safeInteger (field r ''lastSequence'') (atPath r ''lastSequence'')) (\<lambda>last.
     bindE (digestField (field r ''chunkDigest'') (atPath r ''chunkDigest'')) (\<lambda>digest.
     bindE (check (count \<noteq> 0) (atPath r ''recordCount'') Invalid_value) (\<lambda>_.
     bindE (check (\<not> last < first) (atPath r ''lastSequence'') Invalid_value) (\<lambda>_.
     bindE (check (\<not> count > last - first + 1) (atPath r ''recordCount'') Invalid_value) (\<lambda>_.
     Inr \<lparr>he_index = index, he_recordCount = count, he_firstSequence = first, he_lastSequence = last,
       he_chunkDigest = digest\<rparr>)))))))))"

text \<open>The loop over the entries of a manifest.\<close>

fun readEntriesFrom :: "importedLimits \<Rightarrow> ustring \<Rightarrow> nat \<Rightarrow> chunkEntry option \<Rightarrow> jsval list \<Rightarrow> chunkEntry list decoded" where
  "readEntriesFrom limits p index previous [] = Inr []"
| "readEntriesFrom limits p index previous (v # vs) =
     bindE (readChunkEntry v (elementPath p index)) (\<lambda>entry.
     bindE (check (he_index entry = index) (elementPath p index @ js ''.index'') Mismatch) (\<lambda>_.
     bindE (check (\<not> he_recordCount entry > hl_maxRecordsPerChunk limits) (elementPath p index @ js ''.recordCount'') Too_long) (\<lambda>_.
     bindE (check (case previous of None \<Rightarrow> True | Some e \<Rightarrow> \<not> he_firstSequence entry \<le> he_lastSequence e)
       (elementPath p index @ js ''.firstSequence'') Invalid_value) (\<lambda>_.
     bindE (readEntriesFrom limits p (index + 1) (Some entry) vs) (\<lambda>rest. Inr (entry # rest))))))"

definition decodeImportedHistoryManifest :: "jsval \<Rightarrow> importedLimits \<Rightarrow> importedManifest decoded" where
  "decodeImportedHistoryManifest input limits =
     bindE (object input [] [''v'', ''archiveId'', ''source'', ''importedBy'', ''importedAt'', ''recordCount'', ''chunks'']) (\<lambda>r.
     bindE (array (field r ''chunks'') (atPath r ''chunks'')) (\<lambda>vals.
     bindE (check (\<not> length vals > hl_maxChunks limits) (atPath r ''chunks'') Too_long) (\<lambda>_.
     bindE (readEntriesFrom limits (atPath r ''chunks'') 0 None vals) (\<lambda>chunks.
     bindE (version (field r ''v'') (atPath r ''v'')) (\<lambda>_.
     bindE (identifierField (field r ''archiveId'') (atPath r ''archiveId'')) (\<lambda>archiveId.
     bindE (readSource (field r ''source'') (atPath r ''source'')) (\<lambda>source.
     bindE (readActor (field r ''importedBy'') (atPath r ''importedBy'')) (\<lambda>importedBy.
     bindE (utcTimestamp (field r ''importedAt'') (atPath r ''importedAt'')) (\<lambda>importedAt.
     bindE (safeInteger (field r ''recordCount'') (atPath r ''recordCount'')) (\<lambda>count.
     bindE (check (count = sum_list (map he_recordCount chunks)) (atPath r ''recordCount'') Mismatch) (\<lambda>_.
     Inr \<lparr>hm_archiveId = archiveId, hm_source = source, hm_importedBy = importedBy, hm_importedAt = importedAt,
       hm_recordCount = count, hm_chunks = chunks\<rparr>)))))))))))"

text \<open>The loop over the records of a chunk: order, then the digest of each record.\<close>

fun readRecordsFrom :: "platform \<Rightarrow> importedManifest \<Rightarrow> importedLimits \<Rightarrow> ustring \<Rightarrow> nat \<Rightarrow> importedRecord option \<Rightarrow> jsval list
    \<Rightarrow> archiveThrow + importedRecord list" where
  "readRecordsFrom pf m limits p position previous [] = Inr []"
| "readRecordsFrom pf m limits p position previous (v # vs) =
     bindE (liftD (readRecord v (elementPath p position) limits)) (\<lambda>rcd.
     bindE (liftD (check (case previous of None \<Rightarrow> True | Some r \<Rightarrow> \<not> hr_sequence rcd \<le> hr_sequence r)
       (elementPath p position @ js ''.sequence'') Invalid_value)) (\<lambda>_.
     bindE (sha256Text pf (encodeImportedRecord pf (hs_channelId (hm_source m)) rcd)) (\<lambda>digest.
     bindE (liftD (check (digest = hr_digest rcd) (elementPath p position @ js ''.recordDigest'') Mismatch)) (\<lambda>_.
     bindE (readRecordsFrom pf m limits p (position + 1) (Some rcd) vs) (\<lambda>rest. Inr (rcd # rest))))))"

definition readChunk :: "platform \<Rightarrow> jsval \<Rightarrow> ustring \<Rightarrow> importedManifest \<Rightarrow> importedLimits \<Rightarrow> archiveThrow + importedChunk" where
  "readChunk pf input p m limits =
     bindE (liftD (object input p [''v'', ''archiveId'', ''index'', ''records'', ''chunkDigest''])) (\<lambda>r.
     bindE (liftD (version (field r ''v'') (atPath r ''v''))) (\<lambda>_.
     bindE (liftD (identifierField (field r ''archiveId'') (atPath r ''archiveId''))) (\<lambda>archiveId.
     bindE (liftD (check (archiveId = hm_archiveId m) (atPath r ''archiveId'') Mismatch)) (\<lambda>_.
     bindE (liftD (safeInteger (field r ''index'') (atPath r ''index''))) (\<lambda>index.
     bindE (liftD (check (index < length (hm_chunks m)) (atPath r ''index'') Invalid_value)) (\<lambda>_.
     let entry = hm_chunks m ! index in
     bindE (liftD (digestField (field r ''chunkDigest'') (atPath r ''chunkDigest''))) (\<lambda>chunkDigest.
     bindE (liftD (array (field r ''records'') (atPath r ''records''))) (\<lambda>vals.
     bindE (liftD (check (\<not> length vals > hl_maxRecordsPerChunk limits) (atPath r ''records'') Too_long)) (\<lambda>_.
     bindE (liftD (check (length vals = he_recordCount entry) (atPath r ''records'') Mismatch)) (\<lambda>_.
     bindE (readRecordsFrom pf m limits (atPath r ''records'') 0 None vals) (\<lambda>rs.
     bindE (if rs = [] then Inl Type_error
            else liftD (check (hr_sequence (hd rs) = he_firstSequence entry \<and> hr_sequence (last rs) = he_lastSequence entry)
              (atPath r ''records'') Mismatch)) (\<lambda>_.
     let bytes = encodeImportedHistoryChunk pf archiveId index rs in
     bindE (liftD (check (\<not> length bytes > hl_maxChunkBytes limits) (atPath r ''records'') Too_long)) (\<lambda>_.
     bindE (sha256Text pf bytes) (\<lambda>digest.
     bindE (liftD (check (digest = chunkDigest \<and> digest = he_chunkDigest entry) (atPath r ''chunkDigest'') Mismatch)) (\<lambda>_.
     Inr \<lparr>hk_archiveId = archiveId, hk_index = index, hk_records = rs, hk_digest = chunkDigest\<rparr>)))))))))))))))"

definition decodeImportedHistoryChunk :: "platform \<Rightarrow> jsval \<Rightarrow> importedManifest \<Rightarrow> importedLimits \<Rightarrow> importedChunk decoded option" where
  "decodeImportedHistoryChunk pf input m limits = decodeAsync (readChunk pf input [] m limits)"

text \<open>The records of one chunk join the archive unless their source record was seen.\<close>

fun addRecords :: "ustring \<Rightarrow> importedRecord list \<Rightarrow> importedRecord list \<Rightarrow> ustring list \<Rightarrow> (importedRecord list \<times> ustring list) decoded" where
  "addRecords p [] records seen = Inr (records, seen)"
| "addRecords p (r # rs) records seen =
     (if hr_sourceRecordId r \<in> set seen then fail (p @ js ''.records'') Duplicate
      else addRecords p rs (records @ [r]) (hr_sourceRecordId r # seen))"

fun openChunksFrom :: "platform \<Rightarrow> importedManifest \<Rightarrow> importedLimits \<Rightarrow> nat \<Rightarrow> importedRecord list \<Rightarrow> ustring list \<Rightarrow> jsval list
    \<Rightarrow> archiveThrow + importedRecord list" where
  "openChunksFrom pf m limits position records seen [] = Inr records"
| "openChunksFrom pf m limits position records seen (v # vs) =
     (let p = elementPath (js ''chunks'') position in
     bindE (readChunk pf v p m limits) (\<lambda>chunk.
     bindE (liftD (check (hk_index chunk = position) (p @ js ''.index'') Mismatch)) (\<lambda>_.
     bindE (liftD (addRecords p (hk_records chunk) records seen)) (\<lambda>(records', seen').
     openChunksFrom pf m limits (position + 1) records' seen' vs))))"

record verifiedHistory =
  vh_manifest :: importedManifest
  vh_records :: "importedRecord list"

definition openImportedHistory :: "platform \<Rightarrow> jsval \<Rightarrow> jsval \<Rightarrow> importedLimits \<Rightarrow> verifiedHistory decoded option" where
  "openImportedHistory pf manifestInput chunkInputs limits = (case decodeImportedHistoryManifest manifestInput limits of
     Inl (DecodeFailure p c) \<Rightarrow> Some (fail (js ''manifest'' @ (if p \<noteq> [] then js ''.'' @ p else [])) c)
   | Inr m \<Rightarrow> decodeAsync (
       bindE (liftD (array chunkInputs (js ''chunks''))) (\<lambda>vals.
       bindE (liftD (check (length vals = length (hm_chunks m)) (js ''chunks'') Mismatch)) (\<lambda>_.
       bindE (openChunksFrom pf m limits 0 [] [] vals) (\<lambda>records.
       Inr \<lparr>vh_manifest = m, vh_records = records\<rparr>)))))"

section \<open>Sealing\<close>

type_synonym chunkGroup = "importedRecord list \<times> nat"

definition previousRecord :: "chunkGroup list \<Rightarrow> importedRecord option" where
  "previousRecord groups = (if groups = [] \<or> fst (last groups) = [] then None else Some (last (fst (last groups))))"

text \<open>A sealed record goes to the current group, or opens the next.\<close>

definition packRecord :: "platform \<Rightarrow> importedLimits \<Rightarrow> ustring \<Rightarrow> ustring \<Rightarrow> ustring \<Rightarrow> importedRecord \<Rightarrow> chunkGroup list \<Rightarrow> chunkGroup list decoded" where
  "packRecord pf limits archiveId p pathRecords rcd groups =
     (let recordBytes = length (jsonBytes (pf_numText pf) (chunkRecordTuple rcd)) in
      if groups \<noteq> [] \<and> length (fst (last groups)) < hl_maxRecordsPerChunk limits
         \<and> snd (last groups) + 1 + recordBytes \<le> hl_maxChunkBytes limits
      then Inr (butlast groups @ [(fst (last groups) @ [rcd], snd (last groups) + 1 + recordBytes)])
      else let bytes = length (encodeImportedHistoryChunk pf archiveId (length groups) []) + recordBytes in
        if bytes > hl_maxChunkBytes limits then fail p Too_long
        else if length groups = hl_maxChunks limits then fail pathRecords Too_long
        else Inr (groups @ [([rcd], bytes)]))"

fun sealFrom :: "platform \<Rightarrow> importedLimits \<Rightarrow> ustring \<Rightarrow> ustring \<Rightarrow> ustring \<Rightarrow> nat \<Rightarrow> chunkGroup list \<Rightarrow> ustring list \<Rightarrow> jsval list
    \<Rightarrow> archiveThrow + chunkGroup list" where
  "sealFrom pf limits archiveId channelId p position groups seen [] = Inr groups"
| "sealFrom pf limits archiveId channelId p position groups seen (v # vs) =
     (let q = elementPath p position in
     bindE (liftD (object v q RECORD_INPUT_KEYS)) (\<lambda>r.
     bindE (liftD (readRecordFields r limits)) (\<lambda>fields.
     bindE (liftD (check (case previousRecord groups of None \<Rightarrow> True | Some x \<Rightarrow> \<not> hr_sequence fields \<le> hr_sequence x)
       (q @ js ''.sequence'') Invalid_value)) (\<lambda>_.
     bindE (liftD (check (hr_sourceRecordId fields \<notin> set seen) (q @ js ''.sourceRecordId'') Duplicate)) (\<lambda>_.
     bindE (sha256Text pf (encodeImportedRecord pf channelId fields)) (\<lambda>digest.
     bindE (liftD (packRecord pf limits archiveId q p (importedInput.extend fields \<lparr>hr_digest = digest\<rparr>) groups)) (\<lambda>groups'.
     sealFrom pf limits archiveId channelId p (position + 1) groups' (hr_sourceRecordId fields # seen) vs)))))))"

definition sealChunk :: "platform \<Rightarrow> ustring \<Rightarrow> nat \<Rightarrow> chunkGroup \<Rightarrow> archiveThrow + importedChunk" where
  "sealChunk pf archiveId index grp =
     bindE (sha256Text pf (encodeImportedHistoryChunk pf archiveId index (fst grp))) (\<lambda>digest.
     Inr \<lparr>hk_archiveId = archiveId, hk_index = index, hk_records = fst grp, hk_digest = digest\<rparr>)"

definition chunkEntryOf :: "importedChunk \<Rightarrow> chunkEntry" where
  "chunkEntryOf chunk = \<lparr>he_index = hk_index chunk, he_recordCount = length (hk_records chunk),
     he_firstSequence = hr_sequence (hd (hk_records chunk)), he_lastSequence = hr_sequence (last (hk_records chunk)),
     he_chunkDigest = hk_digest chunk\<rparr>"

definition sealImportedHistory :: "platform \<Rightarrow> jsval \<Rightarrow> importedLimits \<Rightarrow> (importedManifest \<times> importedChunk list) decoded option" where
  "sealImportedHistory pf input limits = decodeAsync (
     bindE (liftD (object input [] [''archiveId'', ''source'', ''importedBy'', ''importedAt'', ''records''])) (\<lambda>r.
     bindE (liftD (identifierField (field r ''archiveId'') (atPath r ''archiveId''))) (\<lambda>archiveId.
     bindE (liftD (readSource (field r ''source'') (atPath r ''source''))) (\<lambda>source.
     bindE (liftD (readActor (field r ''importedBy'') (atPath r ''importedBy''))) (\<lambda>importedBy.
     bindE (liftD (utcTimestamp (field r ''importedAt'') (atPath r ''importedAt''))) (\<lambda>importedAt.
     bindE (liftD (array (field r ''records'') (atPath r ''records''))) (\<lambda>vals.
     bindE (sealFrom pf limits archiveId (hs_channelId source) (atPath r ''records'') 0 [] [] vals) (\<lambda>groups.
     bindE (mapE (sealChunk pf archiveId) groups) (\<lambda>chunks.
     Inr (\<lparr>hm_archiveId = archiveId, hm_source = source, hm_importedBy = importedBy, hm_importedAt = importedAt,
       hm_recordCount = length vals, hm_chunks = map chunkEntryOf chunks\<rparr>, chunks))))))))))"

text \<open>The object literals that sealing returns.\<close>

definition sourceObject :: "importedSource \<Rightarrow> jsval" where
  "sourceObject s = JObj True [(js ''channelId'', JStr (hs_channelId s)), (js ''revision'', JStr (hs_revision s))]"

definition actorObject :: "importedActor \<Rightarrow> jsval" where
  "actorObject a = JObj True [(js ''ownerId'', JStr (ha_ownerId a)), (js ''participantId'', JStr (ha_participantId a))]"

definition inputProps :: "'a importedInput_scheme \<Rightarrow> (ustring \<times> jsval) list" where
  "inputProps r = [(js ''sourceRecordId'', JStr (hr_sourceRecordId r)), (js ''sequence'', jnat (hr_sequence r)),
     (js ''originalAuthor'', JObj True [(js ''label'', JStr (oa_label (hr_author r))), (js ''kind'', JStr (kindText (oa_kind (hr_author r))))]),
     (js ''originalSentAt'', JStr (hr_sentAt r)), (js ''body'', JStr (hr_body r))]"

definition recordObject :: "importedRecord \<Rightarrow> jsval" where
  "recordObject r = JObj True ([(js ''v'', jnat 1), (js ''kind'', JStr (js ''imported''))] @ inputProps r @ [(js ''recordDigest'', JStr (hr_digest r))])"

definition chunkObject :: "importedChunk \<Rightarrow> jsval" where
  "chunkObject c = JObj True [(js ''v'', jnat 1), (js ''archiveId'', JStr (hk_archiveId c)), (js ''index'', jnat (hk_index c)),
     (js ''records'', JArr (map recordObject (hk_records c))), (js ''chunkDigest'', JStr (hk_digest c))]"

definition entryObject :: "chunkEntry \<Rightarrow> jsval" where
  "entryObject e = JObj True [(js ''index'', jnat (he_index e)), (js ''recordCount'', jnat (he_recordCount e)),
     (js ''firstSequence'', jnat (he_firstSequence e)), (js ''lastSequence'', jnat (he_lastSequence e)), (js ''chunkDigest'', JStr (he_chunkDigest e))]"

definition manifestObject :: "importedManifest \<Rightarrow> jsval" where
  "manifestObject m = JObj True [(js ''v'', jnat 1), (js ''archiveId'', JStr (hm_archiveId m)), (js ''source'', sourceObject (hm_source m)),
     (js ''importedBy'', actorObject (hm_importedBy m)), (js ''importedAt'', JStr (hm_importedAt m)),
     (js ''recordCount'', jnat (hm_recordCount m)), (js ''chunks'', JArr (map entryObject (hm_chunks m)))]"

end
