(* ===== verification/HistoryImport.thy ===== *)
theory HistoryImport
  imports ImportedHistory ChannelClient
begin

text \<open>
  Imported history in the messaging client: the read-only view of a verified archive and its bounded context pages
  (\<^verbatim>\<open>packages/messaging/src/channels/imported-history.ts\<close>), and the delivery and reading of archive parts over a transport
  of the channel (\<^verbatim>\<open>history-import.ts\<close>). The transport is operations on a world \<open>'w\<close>, as in \<open>ChannelClient\<close>.
\<close>

section \<open>The view\<close>

record importedView =
  iv_archiveId :: ustring
  iv_source :: importedSource
  iv_importedBy :: importedActor
  iv_importedAt :: ustring
  iv_records :: "importedRecord list"

text \<open>\<open>freeze\<close> and the copies have no effect on the value.\<close>

definition viewOf :: "verifiedHistory \<Rightarrow> importedView" where
  "viewOf opened = \<lparr>iv_archiveId = hm_archiveId (vh_manifest opened), iv_source = hm_source (vh_manifest opened),
     iv_importedBy = hm_importedBy (vh_manifest opened), iv_importedAt = hm_importedAt (vh_manifest opened),
     iv_records = vh_records opened\<rparr>"

definition projectImportedHistory :: "platform \<Rightarrow> jsval \<Rightarrow> jsval \<Rightarrow> importedLimits \<Rightarrow> importedView decoded option" where
  "projectImportedHistory pf manifest chunks limits = (case openImportedHistory pf manifest chunks limits of
     None \<Rightarrow> None
   | Some (Inl e) \<Rightarrow> Some (Inl e)
   | Some (Inr opened) \<Rightarrow> Some (Inr (viewOf opened)))"

section \<open>Context pages\<close>

record contextPage =
  cp_archiveId :: ustring
  cp_records :: "importedRecord list"
  cp_nextCursor :: "ustring option"

text \<open>\<open>/^(0|[1-9][0-9]*)$/\<close>\<close>

definition isCursor :: "ustring \<Rightarrow> bool" where
  "isCursor s \<longleftrightarrow> s = js ''0'' \<or> s \<noteq> [] \<and> list_all isDigit s \<and> hd s \<noteq> 0x30"

text \<open>The last sequence already read; a number beyond the safe integers reads as an unsafe one.\<close>

definition cursorPosition :: "ustring option \<Rightarrow> int option" where
  "cursorPosition cursor = (case cursor of
     None \<Rightarrow> Some (- 1)
   | Some s \<Rightarrow> if \<not> isCursor s then None else if \<not> safeNat (digitsVal s) then None else Some (int (digitsVal s)))"

fun takePage :: "nat \<Rightarrow> nat \<Rightarrow> importedRecord list \<Rightarrow> nat \<Rightarrow> importedRecord list \<Rightarrow> importedRecord list \<times> importedRecord list" where
  "takePage maxRecords maxBytes records bytes [] = (records, [])"
| "takePage maxRecords maxBytes records bytes (r # rs) =
     (if length records < maxRecords then
        let size = length (textEncode (hr_body r)) in
        if length records > 0 \<and> bytes + size > maxBytes then (records, r # rs)
        else takePage maxRecords maxBytes (records @ [r]) (bytes + size) rs
      else (records, r # rs))"

definition importedContextPage :: "importedView \<Rightarrow> ustring option \<Rightarrow> jsnum \<Rightarrow> importedLimits \<Rightarrow> contextPage option" where
  "importedContextPage view cursor limit limits =
     (if \<not> isSafeInteger limit \<or> natOfNum limit < 1 then None
      else case cursorPosition cursor of
        None \<Rightarrow> None
      | Some after \<Rightarrow>
          (let (records, rest) = takePage (min (natOfNum limit) (hl_maxPageRecords limits)) (hl_maxPageBytes limits) [] 0
                 (dropWhile (\<lambda>r. \<not> int (hr_sequence r) > after) (iv_records view)) in
           Some \<lparr>cp_archiveId = iv_archiveId view, cp_records = records,
             cp_nextCursor = (if rest \<noteq> [] \<and> records \<noteq> [] then Some (dec_digits (hr_sequence (last records))) else None)\<rparr>))"

section \<open>Archive parts\<close>

datatype importedPart = Chunk_part ustring nat importedChunk | Manifest_part ustring importedManifest

datatype partLookup = Part_found ustring | Part_absent | Part_unknown | Part_unavailable

text \<open>What is stored, unread: the manifest or \<open>JNull\<close>, and the chunks.\<close>

record archiveParts =
  ap_manifest :: jsval
  ap_chunks :: "jsval list"

record 'w historyTransport =
  ht_putPart :: "ustring \<Rightarrow> ustring \<Rightarrow> importedPart \<Rightarrow> ('w, ustring substrateEffect) command"
  ht_findPart :: "ustring \<Rightarrow> ustring \<Rightarrow> ('w, partLookup) command"
  ht_readParts :: "ustring \<Rightarrow> ustring \<Rightarrow> ('w, archiveParts substrateRead) command"

definition importedPartTxnId :: "importedPart \<Rightarrow> ustring" where
  "importedPartTxnId part = (case part of
     Manifest_part archiveId _ \<Rightarrow> archiveId @ js ''.manifest''
   | Chunk_part archiveId index _ \<Rightarrow> archiveId @ js ''.chunk.'' @ dec_digits index)"

definition settle :: "('w, 'a) command \<Rightarrow> 'a \<Rightarrow> ('w, 'a) command" where
  "settle run fallback = catchS run (\<lambda>error. retS fallback)"

record partDelivery =
  pd_partId :: ustring
  pd_reconciled :: bool

definition deliverImportedPart :: "'w historyTransport \<Rightarrow> ustring \<Rightarrow> importedPart
    \<Rightarrow> ('w, (partDelivery, channelRejection) operationResult) command" where
  "deliverImportedPart transport roomId part =
     (let clientTxnId = importedPartTxnId part in
      bindS (settle (ht_findPart transport roomId clientTxnId) Part_unavailable) (\<lambda>found. case found of
        Part_found partId \<Rightarrow> retS (Op_ok \<lparr>pd_partId = partId, pd_reconciled = True\<rparr>)
      | Part_unavailable \<Rightarrow> retS Op_unavailable
      | _ \<Rightarrow> bindS (settle (ht_putPart transport roomId clientTxnId part) Eff_unknown) (\<lambda>put. retS (case put of
            Eff_done partId \<Rightarrow> Op_ok \<lparr>pd_partId = partId, pd_reconciled = False\<rparr>
          | Eff_rejected c \<Rightarrow> Op_rejected c
          | Eff_unavailable \<Rightarrow> Op_unavailable
          | Eff_unknown \<Rightarrow> Op_outcome_unknown clientTxnId))))"

datatype openArchive = Archive_view importedView | Archive_unavailable | Archive_incomplete | Archive_mismatch | Archive_invalid decodeFailure

text \<open>\<open>None\<close>: a projection that rejects.\<close>

definition openParts :: "platform \<Rightarrow> ustring \<Rightarrow> ustring \<Rightarrow> importedLimits \<Rightarrow> archiveParts \<Rightarrow> openArchive option" where
  "openParts pf archiveId manifestDigest limits parts =
     (if ap_manifest parts = JNull then Some Archive_incomplete
      else case decodeImportedHistoryManifest (ap_manifest parts) limits of
        Inl e \<Rightarrow> Some (Archive_invalid e)
      | Inr m \<Rightarrow> (case digestImportedHistoryManifest pf m of
          None \<Rightarrow> None
        | Some digest \<Rightarrow>
            if digest \<noteq> Inr manifestDigest \<or> hm_archiveId m \<noteq> archiveId then Some Archive_mismatch
            else (case projectImportedHistory pf (ap_manifest parts) (JArr (ap_chunks parts)) limits of
              None \<Rightarrow> None
            | Some (Inl e) \<Rightarrow> Some (Archive_invalid e)
            | Some (Inr v) \<Rightarrow> Some (Archive_view v))))"

definition openImportedArchive :: "platform \<Rightarrow> 'w historyTransport \<Rightarrow> ustring \<Rightarrow> ustring \<Rightarrow> ustring \<Rightarrow> importedLimits
    \<Rightarrow> ('w, openArchive) command" where
  "openImportedArchive pf transport roomId archiveId manifestDigest limits =
     bindS (settle (ht_readParts transport roomId archiveId) Sub_unavailable) (\<lambda>stored. case stored of
       Sub_done parts \<Rightarrow> (case openParts pf archiveId manifestDigest limits parts of
         Some result \<Rightarrow> retS result | None \<Rightarrow> throwS JOther)
     | _ \<Rightarrow> retS Archive_unavailable)"

end
