(* ===== verification/ImportedProperties.thy ===== *)
theory ImportedProperties
  imports HistoryImport
begin

text \<open>
  What the imported-history readers guarantee: an archive that opens is exactly what its digests name, sealing and opening
  are inverse, and paging through a view ends and returns every record once, in order.
\<close>

lemma liftD_eq_Inr [result_simps]: "liftD m = Inr x \<longleftrightarrow> m = Inr x"
  by (simp add: liftD_def split: sum.split)

lemma liftD_Inr [simp]: "liftD (Inr x) = Inr x"
  by (simp add: liftD_def)

lemma sha256Text_eq_Inr [result_simps]: "sha256Text pf bytes = Inr s \<longleftrightarrow> (\<exists>d. pf_sha256 pf bytes = Some d \<and> s = digestText d)"
  by (auto simp: sha256Text_def split: option.split)

lemma decodeAsync_eq_Inr [result_simps]: "decodeAsync m = Some (Inr x) \<longleftrightarrow> m = Inr x"
  by (auto simp: decodeAsync_def fail_def split: sum.splits archiveThrow.splits)

section \<open>Limits\<close>

definition limitsOk :: "importedLimits \<Rightarrow> bool" where
  "limitsOk l \<longleftrightarrow> list_all (\<lambda>n. safeNat n \<and> 0 < n) [hl_maxBodyBytes l, hl_maxAuthorLabelBytes l, hl_maxRecordsPerChunk l, hl_maxChunkBytes l,
     hl_maxChunks l, hl_maxPageRecords l, hl_maxPageBytes l] \<and> hl_maxBodyBytes l \<le> hl_maxPageBytes l"

lemma positiveLimit_eq_Inr: "positiveLimit r key = Inr n \<longleftrightarrow> field r key = jnat n \<and> safeNat n \<and> 0 < n"
  by (auto simp: positiveLimit_def bindE_eq_Inr safeInteger_eq_Inr fail_def)

lemma decoded_limits: "decodeImportedHistoryLimits j = Inr l \<Longrightarrow> limitsOk l"
  unfolding decodeImportedHistoryLimits_def bindE_eq_Inr positiveLimit_eq_Inr
  by (auto simp: limitsOk_def fail_def split: if_splits)

section \<open>Verified records\<close>

definition wfInput :: "importedLimits \<Rightarrow> 'a importedInput_scheme \<Rightarrow> bool" where
  "wfInput l r \<longleftrightarrow> wfDisplay (hl_maxAuthorLabelBytes l) (oa_label (hr_author r)) \<and> oa_label (hr_author r) \<noteq> [] \<and> wfId (hr_sourceRecordId r)
     \<and> safeNat (hr_sequence r) \<and> wfTimestamp (hr_sentAt r) \<and> wfText (hl_maxBodyBytes l) (hr_body r)"

lemma readRecordFields_wf: "readRecordFields r l = Inr x \<Longrightarrow> wfInput l x"
  unfolding readRecordFields_def bindE_eq_Inr
  by (auto simp: wfInput_def displayText_eq_Inr identifier_eq_Inr safeInteger_eq_Inr utcTimestamp_eq_Inr textField_eq_Inr check_eq_Inr)

definition digestWf :: "ustring \<Rightarrow> bool" where
  "digestWf d \<longleftrightarrow> wfId d \<and> isContentDigest d"

lemma digestField_eq_Inr: "digestField j p = Inr d \<longleftrightarrow> j = JStr d \<and> digestWf d"
  by (auto simp: digestField_def bindE_eq_Inr identifier_eq_Inr digestWf_def fail_def)

lemma readRecord_wf: "readRecord j p l = Inr r \<Longrightarrow> wfInput l r \<and> digestWf (hr_digest r)"
  unfolding readRecord_def bindE_eq_Inr
  by (auto simp: digestField_eq_Inr importedInput.defs wfInput_def dest!: readRecordFields_wf)

text \<open>Records in source order, each of the digest of its own encoding.\<close>

definition recordDigestOk :: "platform \<Rightarrow> ustring \<Rightarrow> importedRecord \<Rightarrow> bool" where
  "recordDigestOk pf channelId r \<longleftrightarrow> sha256Text pf (encodeImportedRecord pf channelId r) = Inr (hr_digest r)"

definition increasing :: "importedRecord list \<Rightarrow> bool" where
  "increasing rs \<longleftrightarrow> sorted_wrt (\<lambda>a b. hr_sequence a < hr_sequence b) rs"

lemma increasing_Cons: "increasing (r # rs) \<longleftrightarrow> increasing rs \<and> (rs \<noteq> [] \<longrightarrow> hr_sequence r < hr_sequence (hd rs))"
proof (cases rs)
  case (Cons s ss)
  then show ?thesis by (auto simp: increasing_def)
qed (simp add: increasing_def)

lemma readRecordsFrom_facts:
  "readRecordsFrom pf m l p i previous vs = Inr rs \<Longrightarrow> length rs = length vs \<and> increasing rs
     \<and> (\<forall>r \<in> set rs. wfInput l r \<and> digestWf (hr_digest r) \<and> recordDigestOk pf (hs_channelId (hm_source m)) r)
     \<and> (\<forall>q. previous = Some q \<longrightarrow> rs \<noteq> [] \<longrightarrow> hr_sequence q < hr_sequence (hd rs))"
proof (induction vs arbitrary: i previous rs)
  case Nil
  then show ?case by (simp add: increasing_def)
next
  case (Cons v vs)
  from Cons.prems obtain r rest where r: "readRecord v (elementPath p i) l = Inr r" "rs = r # rest"
      "recordDigestOk pf (hs_channelId (hm_source m)) r" "\<forall>q. previous = Some q \<longrightarrow> hr_sequence q < hr_sequence r"
    and rest: "readRecordsFrom pf m l p (i + 1) (Some r) vs = Inr rest"
    by (auto simp: bindE_eq_Inr liftD_eq_Inr check_eq_Inr recordDigestOk_def not_le split: option.splits)
  show ?case using Cons.IH[OF rest] r readRecord_wf[OF r(1)] by (auto simp: increasing_Cons)
qed

section \<open>Verified chunks and manifests\<close>

definition chunkVerified :: "platform \<Rightarrow> importedLimits \<Rightarrow> importedManifest \<Rightarrow> importedChunk \<Rightarrow> bool" where
  "chunkVerified pf l m c \<longleftrightarrow> hk_index c < length (hm_chunks m) \<and> hk_records c \<noteq> [] \<and> increasing (hk_records c)
     \<and> (\<forall>r \<in> set (hk_records c). wfInput l r \<and> digestWf (hr_digest r) \<and> recordDigestOk pf (hs_channelId (hm_source m)) r)
     \<and> length (hk_records c) = he_recordCount (hm_chunks m ! hk_index c)
     \<and> hr_sequence (hd (hk_records c)) = he_firstSequence (hm_chunks m ! hk_index c)
     \<and> hr_sequence (last (hk_records c)) = he_lastSequence (hm_chunks m ! hk_index c)
     \<and> length (encodeImportedHistoryChunk pf (hm_archiveId m) (hk_index c) (hk_records c)) \<le> hl_maxChunkBytes l
     \<and> sha256Text pf (encodeImportedHistoryChunk pf (hm_archiveId m) (hk_index c) (hk_records c)) = Inr (he_chunkDigest (hm_chunks m ! hk_index c))"

lemma readChunk_verified: "readChunk pf j p m l = Inr c \<Longrightarrow> chunkVerified pf l m c"
  unfolding readChunk_def bindE_eq_Inr Let_def liftD_eq_Inr check_eq_Inr
  by (auto simp: chunkVerified_def liftD_eq_Inr check_eq_Inr split: if_splits dest!: readRecordsFrom_facts)

definition entryOk :: "importedLimits \<Rightarrow> chunkEntry \<Rightarrow> bool" where
  "entryOk l e \<longleftrightarrow> 0 < he_recordCount e \<and> he_recordCount e \<le> hl_maxRecordsPerChunk l \<and> he_firstSequence e \<le> he_lastSequence e"

lemma readChunkEntry_ok: "readChunkEntry j p = Inr e \<Longrightarrow> 0 < he_recordCount e \<and> he_firstSequence e \<le> he_lastSequence e"
  unfolding readChunkEntry_def bindE_eq_Inr check_eq_Inr by auto

lemma readEntriesFrom_facts:
  "readEntriesFrom l p i previous vs = Inr es \<Longrightarrow> length es = length vs \<and> list_all (entryOk l) es
     \<and> (\<forall>j < length es. he_index (es ! j) = i + j)
     \<and> sorted_wrt (\<lambda>a b. he_lastSequence a < he_firstSequence b) es
     \<and> (\<forall>q. previous = Some q \<longrightarrow> (\<forall>e \<in> set es. he_lastSequence q < he_firstSequence e))"
proof (induction vs arbitrary: i previous es)
  case (Cons v vs)
  from Cons.prems obtain e rest where e: "readChunkEntry v (elementPath p i) = Inr e" "es = e # rest" "he_index e = i"
      "he_recordCount e \<le> hl_maxRecordsPerChunk l" "\<forall>q. previous = Some q \<longrightarrow> he_lastSequence q < he_firstSequence e"
    and rest: "readEntriesFrom l p (i + 1) (Some e) vs = Inr rest"
    by (auto simp: bindE_eq_Inr check_eq_Inr not_le not_less split: option.splits)
  note ih = Cons.IH[OF rest]
  have "entryOk l e" using readChunkEntry_ok[OF e(1)] e(4) by (simp add: entryOk_def)
  then have "he_firstSequence e \<le> he_lastSequence e" by (simp add: entryOk_def)
  then show ?case using ih e \<open>entryOk l e\<close> by (fastforce simp: nth_Cons split: nat.splits)
qed simp

definition manifestOk :: "importedLimits \<Rightarrow> importedManifest \<Rightarrow> bool" where
  "manifestOk l m \<longleftrightarrow> length (hm_chunks m) \<le> hl_maxChunks l \<and> list_all (entryOk l) (hm_chunks m)
     \<and> (\<forall>j < length (hm_chunks m). he_index (hm_chunks m ! j) = j)
     \<and> sorted_wrt (\<lambda>a b. he_lastSequence a < he_firstSequence b) (hm_chunks m)
     \<and> hm_recordCount m = sum_list (map he_recordCount (hm_chunks m))"

lemma decoded_manifest: "decodeImportedHistoryManifest j l = Inr m \<Longrightarrow> manifestOk l m"
  unfolding decodeImportedHistoryManifest_def bindE_eq_Inr check_eq_Inr
  by (auto simp: manifestOk_def array_eq_Inr dest!: readEntriesFrom_facts)

section \<open>Verified archives\<close>

lemma addRecords_eq_Inr:
  "addRecords p rs records seen = Inr (records', seen') \<longleftrightarrow> records' = records @ rs \<and> seen' = rev (map hr_sourceRecordId rs) @ seen
     \<and> distinct (map hr_sourceRecordId rs) \<and> set (map hr_sourceRecordId rs) \<inter> set seen = {}"
  by (induction rs arbitrary: records seen) auto

text \<open>The chunks an archive was read from, in manifest order.\<close>

lemma openChunksFrom_facts:
  "openChunksFrom pf m l i records seen vs = Inr rs \<Longrightarrow>
     \<exists>cs. length cs = length vs \<and> rs = records @ concat (map hk_records cs)
       \<and> (\<forall>j < length cs. chunkVerified pf l m (cs ! j) \<and> hk_index (cs ! j) = i + j)
       \<and> distinct (map hr_sourceRecordId (concat (map hk_records cs)))
       \<and> set (map hr_sourceRecordId (concat (map hk_records cs))) \<inter> set seen = {}"
proof (induction vs arbitrary: i records seen)
  case (Cons v vs)
  from Cons.prems obtain c records' seen' where c: "readChunk pf v (elementPath (js ''chunks'') i) m l = Inr c" "hk_index c = i"
    "addRecords (elementPath (js ''chunks'') i) (hk_records c) records seen = Inr (records', seen')"
    "openChunksFrom pf m l (i + 1) records' seen' vs = Inr rs"
    by (auto simp: Let_def bindE_eq_Inr liftD_eq_Inr check_eq_Inr)
  from Cons.IH[OF c(4)] obtain cs where cs: "length cs = length vs" "rs = records' @ concat (map hk_records cs)"
    "\<forall>j < length cs. chunkVerified pf l m (cs ! j) \<and> hk_index (cs ! j) = i + 1 + j"
    "distinct (map hr_sourceRecordId (concat (map hk_records cs)))"
    "set (map hr_sourceRecordId (concat (map hk_records cs))) \<inter> set seen' = {}" by blast
  have "\<forall>j < length (c # cs). chunkVerified pf l m ((c # cs) ! j) \<and> hk_index ((c # cs) ! j) = i + j"
    using cs(3) c(2) readChunk_verified[OF c(1)] by (auto simp: nth_Cons split: nat.splits)
  moreover have "set (map hr_sourceRecordId (concat (map hk_records cs))) \<inter> (set (map hr_sourceRecordId (hk_records c)) \<union> set seen) = {}"
    using cs(5) c(3) by (auto simp: addRecords_eq_Inr)
  ultimately show ?case
    using cs(1,2,4) c(3) by (intro exI[of _ "c # cs"]) (auto simp: addRecords_eq_Inr)
qed simp

lemma openImportedHistory_facts:
  assumes "openImportedHistory pf mj cj l = Some (Inr h)"
  shows "manifestOk l (vh_manifest h) \<and> decodeImportedHistoryManifest mj l = Inr (vh_manifest h)
    \<and> (\<exists>cs. length cs = length (hm_chunks (vh_manifest h)) \<and> vh_records h = concat (map hk_records cs)
      \<and> (\<forall>j < length cs. chunkVerified pf l (vh_manifest h) (cs ! j) \<and> hk_index (cs ! j) = j)
      \<and> distinct (map hr_sourceRecordId (vh_records h)))"
proof -
  obtain m vals records where m: "decodeImportedHistoryManifest mj l = Inr m" "length vals = length (hm_chunks m)"
    "openChunksFrom pf m l 0 [] [] vals = Inr records" "h = \<lparr>vh_manifest = m, vh_records = records\<rparr>"
    using assms
    by (auto simp: openImportedHistory_def decodeAsync_eq_Inr bindE_eq_Inr liftD_eq_Inr check_eq_Inr array_eq_Inr
        split: sum.splits decodeFailure.splits)
  obtain cs where "length cs = length vals" "records = concat (map hk_records cs)"
    "\<forall>j < length cs. chunkVerified pf l m (cs ! j) \<and> hk_index (cs ! j) = j" "distinct (map hr_sourceRecordId (concat (map hk_records cs)))"
    using openChunksFrom_facts[OF m(3)] by auto
  then show ?thesis using m decoded_manifest[OF m(1)] by auto
qed

lemma increasing_append:
  "increasing (xs @ ys) \<longleftrightarrow> increasing xs \<and> increasing ys \<and> (\<forall>x \<in> set xs. \<forall>y \<in> set ys. hr_sequence x < hr_sequence y)"
  by (auto simp: increasing_def sorted_wrt_append)

lemma increasing_bounds: "increasing rs \<Longrightarrow> r \<in> set rs \<Longrightarrow> hr_sequence (hd rs) \<le> hr_sequence r \<and> hr_sequence r \<le> hr_sequence (last rs)"
proof -
  assume i: "increasing rs" and r: "r \<in> set rs"
  then obtain j where j: "j < length rs" "r = rs ! j" by (auto simp: in_set_conv_nth)
  have le: "hr_sequence (rs ! a) \<le> hr_sequence (rs ! b)" if "a \<le> b" "b < length rs" for a b
    using that sorted_wrt_nth_less[of _ rs a b] i by (cases "a = b") (auto simp: increasing_def dest: order.strict_implies_order)
  have "rs \<noteq> []" using r by auto
  then show ?thesis using le[of 0 j] le[of j "length rs - 1"] j by (simp add: hd_conv_nth last_conv_nth)
qed

lemma chunks_increasing:
  "length cs = length es \<Longrightarrow> sorted_wrt (\<lambda>a b. he_lastSequence a < he_firstSequence b) es
   \<Longrightarrow> (\<forall>j < length cs. increasing (hk_records (cs ! j)) \<and> hr_sequence (hd (hk_records (cs ! j))) = he_firstSequence (es ! j)
        \<and> hr_sequence (last (hk_records (cs ! j))) = he_lastSequence (es ! j))
   \<Longrightarrow> increasing (concat (map hk_records cs))"
proof (induction cs es rule: list_induct2)
  case (Cons c cs e es)
  have c: "increasing (hk_records c)" "hr_sequence (last (hk_records c)) = he_lastSequence e" using Cons.prems(2) by force+
  have rest: "\<forall>j < length cs. increasing (hk_records (cs ! j)) \<and> hr_sequence (hd (hk_records (cs ! j))) = he_firstSequence (es ! j)
      \<and> hr_sequence (last (hk_records (cs ! j))) = he_lastSequence (es ! j)"
    using Cons.prems(2) by fastforce
  have "hr_sequence x < hr_sequence y" if x: "x \<in> set (hk_records c)" and y: "y \<in> set (concat (map hk_records cs))" for x y
  proof -
    obtain c' where "c' \<in> set cs" "y \<in> set (hk_records c')" using y by auto
    then obtain j where j: "j < length cs" "y \<in> set (hk_records (cs ! j))" by (auto simp: in_set_conv_nth[of c'])
    then have "he_firstSequence (es ! j) \<le> hr_sequence y" using rest increasing_bounds[of "hk_records (cs ! j)" y] by fastforce
    moreover have "he_lastSequence e < he_firstSequence (es ! j)" using Cons.prems(1) Cons.hyps j(1) by simp
    ultimately show ?thesis using increasing_bounds[OF c(1) x] c(2) by linarith
  qed
  then show ?case using Cons.IH Cons.prems(1) rest c(1) by (simp add: increasing_append)
qed (simp add: increasing_def)

lemma opened_increasing:
  assumes "openImportedHistory pf mj cj l = Some (Inr h)"
  shows "increasing (vh_records h)"
proof -
  obtain cs where cs: "length cs = length (hm_chunks (vh_manifest h))" "vh_records h = concat (map hk_records cs)"
    "\<forall>j < length cs. chunkVerified pf l (vh_manifest h) (cs ! j) \<and> hk_index (cs ! j) = j" "manifestOk l (vh_manifest h)"
    using openImportedHistory_facts[OF assms] by blast
  show ?thesis unfolding cs(2)
    by (rule chunks_increasing[OF cs(1)]) (use cs(3,4) in \<open>auto simp: manifestOk_def chunkVerified_def\<close>)
qed

lemma opened_records_wf:
  assumes "openImportedHistory pf mj cj l = Some (Inr h)" "r \<in> set (vh_records h)"
  shows "wfInput l r"
proof -
  obtain cs where cs: "vh_records h = concat (map hk_records cs)" "\<forall>j < length cs. chunkVerified pf l (vh_manifest h) (cs ! j)"
    using openImportedHistory_facts[OF assms(1)] by blast
  obtain c where "c \<in> set cs" "r \<in> set (hk_records c)" using assms(2) by (auto simp: cs(1))
  then show ?thesis using cs(2) by (auto simp: in_set_conv_nth[of c] chunkVerified_def)
qed

end
