(* ===== verification/ImportedPaging.thy ===== *)
theory ImportedPaging
  imports ImportedProperties
begin

text \<open>
  Reading an imported archive page by page (\<open>importedContextPage\<close>): following the cursors from the first page ends, and
  the pages hold every record exactly once, in order, within the limits.
\<close>

section \<open>Cursors\<close>

lemma digits_no_zero: "0 < n \<Longrightarrow> hd (dec_digits n) \<noteq> 0x30"
proof (induction n rule: dec_digits.induct)
  case (1 n)
  show ?case
  proof (cases "n < 10")
    case True
    then have "n \<in> set [1..<10]" using "1.prems" by simp
    then have "(of_nat (0x30 + n) :: cunit) \<noteq> 0x30" by (auto simp: upt_rec)
    then show ?thesis using True by (simp add: dec_digits.simps[of n])
  next
    case False
    then show ?thesis using "1.IH" dec_digits_props[of "n div 10"] by (simp add: dec_digits.simps[of n])
  qed
qed

lemma cursor_digits: "safeNat n \<Longrightarrow> cursorPosition (Some (dec_digits n)) = Some (int n)"
proof -
  assume n: "safeNat n"
  have "isCursor (dec_digits n)"
  proof (cases "n = 0")
    case True
    then show ?thesis by (simp add: isCursor_def) code_simp
  next
    case False
    then show ?thesis using dec_digits_props[of n] digits_no_zero[of n] by (simp add: isCursor_def)
  qed
  then show ?thesis using dec_digits_props[of n] n by (simp add: cursorPosition_def)
qed

section \<open>One page\<close>

abbreviation bodyBytes :: "importedRecord list \<Rightarrow> nat" where
  "bodyBytes rs \<equiv> sum_list (map (\<lambda>r. length (textEncode (hr_body r))) rs)"

lemma takePage_splits:
  "takePage mr mb acc b rs = (page, rest) \<Longrightarrow> \<exists>xs. rs = xs @ rest \<and> page = acc @ xs \<and> (acc = [] \<and> 0 < mr \<and> rs \<noteq> [] \<longrightarrow> xs \<noteq> [])
     \<and> (length acc \<le> mr \<longrightarrow> length page \<le> mr)"
proof (induction mr mb acc b rs rule: takePage.induct)
  case (2 mr mb acc b r rs)
  show ?case
  proof (cases "length acc < mr \<and> \<not> (length acc > 0 \<and> b + length (textEncode (hr_body r)) > mb)")
    case True
    then have "takePage mr mb (acc @ [r]) (b + length (textEncode (hr_body r))) rs = (page, rest)"
      using "2.prems" by (auto simp: Let_def)
    then obtain xs where xs: "rs = xs @ rest" "page = (acc @ [r]) @ xs" "length (acc @ [r]) \<le> mr \<longrightarrow> length page \<le> mr"
      using "2.IH"[OF _ refl] True by auto
    show ?thesis using xs True by (intro exI[of _ "r # xs"]) simp
  qed (use "2.prems" in \<open>auto simp: Let_def split: if_splits\<close>)
qed simp

lemma takePage_bytes:
  "takePage mr mb acc b rs = (page, rest) \<Longrightarrow> b = bodyBytes acc \<Longrightarrow> b \<le> mb \<Longrightarrow> \<forall>r \<in> set rs. length (textEncode (hr_body r)) \<le> mb
   \<Longrightarrow> bodyBytes page \<le> mb"
proof (induction mr mb acc b rs rule: takePage.induct)
  case (2 mr mb acc b r rs)
  let ?size = "length (textEncode (hr_body r))"
  show ?case
  proof (cases "length acc < mr \<and> \<not> (length acc > 0 \<and> b + ?size > mb)")
    case True
    then have "takePage mr mb (acc @ [r]) (b + ?size) rs = (page, rest)" using "2.prems" by (auto simp: Let_def)
    moreover have "b + ?size \<le> mb" using True "2.prems"(2,4) by (cases "acc = []") simp_all
    moreover have "b + ?size = bodyBytes (acc @ [r])" using "2.prems"(2) by simp
    moreover have "\<forall>r \<in> set rs. length (textEncode (hr_body r)) \<le> mb" using "2.prems"(4) by simp
    ultimately show ?thesis using "2.IH"[OF _ refl] True by blast
  next
    case False
    then have "page = acc" using "2.prems"(1) by (simp add: Let_def split: if_splits)
    then show ?thesis using "2.prems"(2,3) by simp
  qed
qed simp

definition pageOk :: "nat \<Rightarrow> importedLimits \<Rightarrow> contextPage \<Rightarrow> bool" where
  "pageOk limit l page \<longleftrightarrow> length (cp_records page) \<le> min limit (hl_maxPageRecords l) \<and> bodyBytes (cp_records page) \<le> hl_maxPageBytes l"

lemma after_prefix:
  assumes "increasing (pre @ rs)" "pre \<noteq> []"
  shows "dropWhile (\<lambda>r. \<not> int (hr_sequence r) > int (hr_sequence (last pre))) (pre @ rs) = rs"
proof -
  have "hr_sequence r \<le> hr_sequence (last pre)" if "r \<in> set pre" for r
    using increasing_bounds[of pre r] assms(1) that by (simp add: increasing_append)
  moreover have "hr_sequence (last pre) < hr_sequence r" if "r \<in> set rs" for r
    using assms that by (auto simp: increasing_append)
  ultimately show ?thesis
  proof (cases rs)
    case (Cons r rs')
    then have "\<not> hr_sequence r \<le> hr_sequence (last pre)" using \<open>\<And>r. r \<in> set rs \<Longrightarrow> hr_sequence (last pre) < hr_sequence r\<close> by (simp add: not_le)
    then show ?thesis using Cons \<open>\<And>r. r \<in> set pre \<Longrightarrow> hr_sequence r \<le> hr_sequence (last pre)\<close> by (simp add: dropWhile_append2 not_less)
  qed (simp add: not_less)
qed

text \<open>What a cursor has left: the records after it.\<close>

definition cursorAt :: "importedView \<Rightarrow> ustring option \<Rightarrow> importedRecord list \<Rightarrow> bool" where
  "cursorAt view cursor rs \<longleftrightarrow> (\<exists>pre. iv_records view = pre @ rs \<and> cursor = (if pre = [] then None else Some (dec_digits (hr_sequence (last pre)))))"

definition viewOk :: "importedLimits \<Rightarrow> importedView \<Rightarrow> bool" where
  "viewOk l view \<longleftrightarrow> increasing (iv_records view) \<and> (\<forall>r \<in> set (iv_records view). safeNat (hr_sequence r)
     \<and> length (textEncode (hr_body r)) \<le> hl_maxPageBytes l)"

lemma page_at:
  assumes v: "viewOk l view" and l: "limitsOk l" and limit: "isSafeInteger limit" "1 \<le> natOfNum limit" and at: "cursorAt view cursor rs"
  obtains page xs rest where "importedContextPage view cursor limit l = Some page" "rs = xs @ rest" "cp_records page = xs"
    "pageOk (natOfNum limit) l page" "rs \<noteq> [] \<longrightarrow> xs \<noteq> []"
    "(rest = [] \<and> cp_nextCursor page = None) \<or> (rest \<noteq> [] \<and> cp_nextCursor page \<noteq> None \<and> cursorAt view (cp_nextCursor page) rest)"
proof -
  obtain pre where pre: "iv_records view = pre @ rs" "cursor = (if pre = [] then None else Some (dec_digits (hr_sequence (last pre))))"
    using at by (auto simp: cursorAt_def)
  obtain after where after: "cursorPosition cursor = Some after" "dropWhile (\<lambda>r. \<not> int (hr_sequence r) > after) (iv_records view) = rs"
  proof (cases "pre = []")
    case True
    then show ?thesis using that[of "- 1"] pre by (cases rs) (simp_all add: cursorPosition_def)
  next
    case False
    then have "safeNat (hr_sequence (last pre))" using v pre(1) by (simp add: viewOk_def)
    then show ?thesis
      using that[of "int (hr_sequence (last pre))"] after_prefix[of pre rs] cursor_digits v False pre by (simp add: viewOk_def)
  qed
  let ?mr = "min (natOfNum limit) (hl_maxPageRecords l)"
  obtain xs rest where page: "takePage ?mr (hl_maxPageBytes l) [] 0 rs = (xs, rest)" by fastforce
  have mr: "0 < ?mr" using l limit(2) by (simp add: limitsOk_def)
  have bytes: "\<forall>r \<in> set rs. length (textEncode (hr_body r)) \<le> hl_maxPageBytes l" using v pre(1) by (simp add: viewOk_def)
  have xs: "rs = xs @ rest" "rs \<noteq> [] \<longrightarrow> xs \<noteq> []" "length xs \<le> ?mr" "bodyBytes xs \<le> hl_maxPageBytes l"
  proof -
    from takePage_splits[OF page] obtain ys where ys: "rs = ys @ rest" "xs = [] @ ys" "0 < ?mr \<and> rs \<noteq> [] \<longrightarrow> ys \<noteq> []" "length xs \<le> ?mr"
      unfolding list.size by blast
    then have "xs = ys" by (simp only: append_Nil)
    then show "rs = xs @ rest" "rs \<noteq> [] \<longrightarrow> xs \<noteq> []" "length xs \<le> ?mr" using ys mr by blast+
    show "bodyBytes xs \<le> hl_maxPageBytes l" by (rule takePage_bytes[OF page _ _ bytes]) simp_all
  qed
  let ?page = "\<lparr>cp_archiveId = iv_archiveId view, cp_records = xs,
    cp_nextCursor = (if rest \<noteq> [] \<and> xs \<noteq> [] then Some (dec_digits (hr_sequence (last xs))) else None)\<rparr>"
  have "importedContextPage view cursor limit l = Some ?page"
    using after page limit by (simp add: importedContextPage_def)
  moreover have "pageOk (natOfNum limit) l ?page" using xs by (simp add: pageOk_def)
  moreover have "(rest = [] \<and> cp_nextCursor ?page = None) \<or> (rest \<noteq> [] \<and> cp_nextCursor ?page \<noteq> None \<and> cursorAt view (cp_nextCursor ?page) rest)"
  proof (cases "rest = []")
    case False
    then have "xs \<noteq> []" using xs by auto
    moreover have "cursorAt view (Some (dec_digits (hr_sequence (last xs)))) rest"
      unfolding cursorAt_def using pre(1) xs(1) \<open>xs \<noteq> []\<close> by (intro exI[of _ "pre @ xs"]) simp
    ultimately show ?thesis using False by simp
  qed simp
  moreover have "cp_records ?page = xs" by (rule contextPage.select_convs)
  ultimately show ?thesis using xs(1,2) by (intro that[of ?page xs rest]) assumption+
qed

section \<open>All pages\<close>

text \<open>A reader that follows the cursors, given up after \<open>n\<close> pages.\<close>

fun readPages :: "nat \<Rightarrow> importedView \<Rightarrow> jsnum \<Rightarrow> importedLimits \<Rightarrow> ustring option \<Rightarrow> contextPage list option" where
  "readPages 0 view limit l cursor = None"
| "readPages (Suc n) view limit l cursor = (case importedContextPage view cursor limit l of
     None \<Rightarrow> None
   | Some page \<Rightarrow> (case cp_nextCursor page of
       None \<Rightarrow> Some [page]
     | Some c \<Rightarrow> map_option (\<lambda>pages. page # pages) (readPages n view limit l (Some c))))"

lemma readPages_all:
  assumes v: "viewOk l view" and l: "limitsOk l" and limit: "isSafeInteger limit" "1 \<le> natOfNum limit"
  shows "cursorAt view cursor rs \<Longrightarrow> length rs < n \<Longrightarrow> \<exists>pages. readPages n view limit l cursor = Some pages
    \<and> concat (map cp_records pages) = rs \<and> list_all (pageOk (natOfNum limit) l) pages"
proof (induction n arbitrary: cursor rs)
  case (Suc n)
  obtain page xs rest where page: "importedContextPage view cursor limit l = Some page" "rs = xs @ rest" "cp_records page = xs"
    "pageOk (natOfNum limit) l page" "rs \<noteq> [] \<longrightarrow> xs \<noteq> []"
    "(rest = [] \<and> cp_nextCursor page = None) \<or> (rest \<noteq> [] \<and> cp_nextCursor page \<noteq> None \<and> cursorAt view (cp_nextCursor page) rest)"
    by (rule page_at[OF v l limit Suc.prems(1)])
  show ?case
  proof (cases "cp_nextCursor page")
    case None
    then show ?thesis using page by auto
  next
    case (Some c)
    then have more: "rest \<noteq> []" "cursorAt view (Some c) rest" using page(6) by auto
    then have "length rest < n" using page(2,5) Suc.prems(2) by (cases xs) auto
    then obtain pages where "readPages n view limit l (Some c) = Some pages" "concat (map cp_records pages) = rest"
      "list_all (pageOk (natOfNum limit) l) pages" using Suc.IH[OF more(2)] by blast
    then show ?thesis using page(1-4) Some by auto
  qed
qed simp

lemma length_textEncode_body: "wfInput l r \<Longrightarrow> length (textEncode (hr_body r)) \<le> hl_maxBodyBytes l"
  by (simp add: wfInput_def wfText_def length_textEncode)

lemma projected_view_ok:
  assumes "limitsOk l" "projectImportedHistory pf mj cj l = Some (Inr view)"
  shows "viewOk l view"
proof -
  obtain h where h: "openImportedHistory pf mj cj l = Some (Inr h)" "view = viewOf h"
    using assms(2) by (auto simp: projectImportedHistory_def split: option.splits sum.splits)
  have "wfInput l r" if "r \<in> set (vh_records h)" for r by (rule opened_records_wf[OF h(1) that])
  then have "safeNat (hr_sequence r) \<and> length (textEncode (hr_body r)) \<le> hl_maxPageBytes l" if "r \<in> set (vh_records h)" for r
    using that length_textEncode_body[of l r] assms(1) by (fastforce simp: wfInput_def limitsOk_def)
  then show ?thesis using opened_increasing[OF h(1)] h(2) by (simp add: viewOk_def viewOf_def)
qed

end
