(* ===== verification/ImportedDigests.thy ===== *)
theory ImportedDigests
  imports ImportedPaging
begin

text \<open>
  The digests of an imported archive bind its contents: the encodings of records, chunks and manifests are injective, so an
  archive that is opened for a manifest digest is the one archive of that digest, up to a collision of SHA-256.
\<close>

section \<open>Injective encodings\<close>

lemma kindText_inj: "kindText a = kindText b \<Longrightarrow> a = b"
  by (cases a; cases b) (simp_all add: kindText_def)

lemma normal_arrays:
  "normalJson (chunkRecordTuple r)" "normalJson (chunkArray aid i rs)" "normalJson (manifestArray m)" "normalJson (recordArray cid q)"
  by (auto simp: chunkRecordTuple_def chunkArray_def manifestArray_def recordArray_def jnat_def list_all_iff)

lemma author_eq: "oa_label (a :: originalAuthor) = oa_label b \<Longrightarrow> kindText (oa_kind a) = kindText (oa_kind b) \<Longrightarrow> a = b"
  by (cases a; cases b) (auto dest: kindText_inj)

lemma chunkRecordTuple_inj: "chunkRecordTuple r = chunkRecordTuple s \<Longrightarrow> r = s"
proof -
  assume eq: "chunkRecordTuple r = chunkRecordTuple s"
  then have "hr_author r = hr_author s" by (intro author_eq) (simp_all add: chunkRecordTuple_def)
  then show ?thesis using eq by (cases r; cases s) (simp add: chunkRecordTuple_def)
qed

lemma chunkArray_inj: "chunkArray aid i rs = chunkArray aid' i' ss \<Longrightarrow> rs = ss"
proof -
  assume "chunkArray aid i rs = chunkArray aid' i' ss"
  then have "map chunkRecordTuple rs = map chunkRecordTuple ss" by (simp add: chunkArray_def)
  moreover have "inj chunkRecordTuple" by (rule injI) (rule chunkRecordTuple_inj)
  ultimately show ?thesis by (simp add: inj_map_eq_map)
qed

lemma manifestArray_inj: "manifestArray m = manifestArray n \<Longrightarrow> m = n"
proof -
  assume eq: "manifestArray m = manifestArray n"
  have "inj (\<lambda>e :: chunkEntry. JArr [jnat (he_index e), jnat (he_recordCount e), jnat (he_firstSequence e), jnat (he_lastSequence e), JStr (he_chunkDigest e)])"
    by (rule injI) (auto intro!: chunkEntry.equality)
  moreover have "map (\<lambda>e. JArr [jnat (he_index e), jnat (he_recordCount e), jnat (he_firstSequence e), jnat (he_lastSequence e), JStr (he_chunkDigest e)]) (hm_chunks m)
    = map (\<lambda>e. JArr [jnat (he_index e), jnat (he_recordCount e), jnat (he_firstSequence e), jnat (he_lastSequence e), JStr (he_chunkDigest e)]) (hm_chunks n)"
    using eq by (simp add: manifestArray_def)
  ultimately have "hm_chunks m = hm_chunks n" by (simp only: inj_map_eq_map)
  moreover have "hm_source m = hm_source n" "hm_importedBy m = hm_importedBy n"
    using eq by (auto simp: manifestArray_def intro: importedSource.equality importedActor.equality)
  ultimately show ?thesis using eq by (intro importedManifest.equality) (simp_all add: manifestArray_def)
qed

section \<open>Collisions\<close>

definition hashCollision :: "platform \<Rightarrow> nat list \<Rightarrow> nat list \<Rightarrow> bool" where
  "hashCollision pf x y \<longleftrightarrow> x \<noteq> y \<and> pf_sha256 pf x \<noteq> None \<and> pf_sha256 pf x = pf_sha256 pf y"

lemma same_digest: "sha256Text pf x = Inr d \<Longrightarrow> sha256Text pf y = Inr d \<Longrightarrow> x = y \<or> hashCollision pf x y"
  by (auto simp: sha256Text_eq_Inr hashCollision_def dest: digestText_inj)

text \<open>The records of chunk \<open>k\<close>, cut from the archive by the counts of its manifest.\<close>

definition chunkRecords :: "verifiedHistory \<Rightarrow> nat \<Rightarrow> importedRecord list" where
  "chunkRecords h k = (let counts = map he_recordCount (hm_chunks (vh_manifest h)) in
     take (counts ! k) (drop (sum_list (take k counts)) (vh_records h)))"

definition archiveCollision :: "platform \<Rightarrow> verifiedHistory \<Rightarrow> verifiedHistory \<Rightarrow> bool" where
  "archiveCollision pf h h' \<longleftrightarrow>
     hashCollision pf (encodeImportedHistoryManifest pf (vh_manifest h)) (encodeImportedHistoryManifest pf (vh_manifest h'))
     \<or> list_ex (\<lambda>k. hashCollision pf (encodeImportedHistoryChunk pf (hm_archiveId (vh_manifest h)) k (chunkRecords h k))
         (encodeImportedHistoryChunk pf (hm_archiveId (vh_manifest h')) k (chunkRecords h' k))) [0..<length (hm_chunks (vh_manifest h))]"

lemma concat_cut: "k < length xss \<Longrightarrow> take (length (xss ! k)) (drop (sum_list (map length (take k xss))) (concat xss)) = xss ! k"
proof (induction xss arbitrary: k)
  case (Cons xs xss)
  then show ?case by (cases k) simp_all
qed simp

lemma opened_chunks:
  assumes "openImportedHistory pf mj cj l = Some (Inr h)"
  obtains "vh_records h = concat (map (chunkRecords h) [0..<length (hm_chunks (vh_manifest h))])"
    "\<And>k. k < length (hm_chunks (vh_manifest h)) \<Longrightarrow>
       sha256Text pf (encodeImportedHistoryChunk pf (hm_archiveId (vh_manifest h)) k (chunkRecords h k)) = Inr (he_chunkDigest (hm_chunks (vh_manifest h) ! k))"
proof -
  let ?es = "hm_chunks (vh_manifest h)"
  obtain cs where cs: "length cs = length ?es" "vh_records h = concat (map hk_records cs)"
    "\<And>j. j < length cs \<Longrightarrow> chunkVerified pf l (vh_manifest h) (cs ! j) \<and> hk_index (cs ! j) = j"
    using openImportedHistory_facts[OF assms] by blast
  have counts: "map he_recordCount ?es = map length (map hk_records cs)"
    by (rule nth_equalityI) (use cs(1,3) in \<open>auto simp: chunkVerified_def\<close>)
  have cut: "chunkRecords h k = hk_records (cs ! k)" if "k < length ?es" for k
    using concat_cut[of k "map hk_records cs"] that cs(1) unfolding chunkRecords_def Let_def counts cs(2)
    by (simp add: take_map[symmetric])
  have "map (chunkRecords h) [0..<length ?es] = map hk_records cs"
    by (rule nth_equalityI) (use cs(1) cut in simp_all)
  then have records: "vh_records h = concat (map (chunkRecords h) [0..<length ?es])" using cs(2) by simp
  have "sha256Text pf (encodeImportedHistoryChunk pf (hm_archiveId (vh_manifest h)) k (chunkRecords h k)) = Inr (he_chunkDigest (?es ! k))"
    if "k < length ?es" for k
    using cs(3)[of k] that cs(1) unfolding chunkVerified_def cut[OF that] by auto
  then show ?thesis by (rule that[OF records])
qed

lemma digest_names_archive:
  assumes nt: "goodNumText (pf_numText pf)"
    and h: "openImportedHistory pf mj cj l = Some (Inr h)" and h': "openImportedHistory pf mj' cj' l' = Some (Inr h')"
    and d: "digestImportedHistoryManifest pf (vh_manifest h) = Some (Inr d)" "digestImportedHistoryManifest pf (vh_manifest h') = Some (Inr d)"
  shows "h = h' \<or> archiveCollision pf h h'"
proof (rule disjCI)
  assume none: "\<not> archiveCollision pf h h'"
  have "encodeImportedHistoryManifest pf (vh_manifest h) = encodeImportedHistoryManifest pf (vh_manifest h')"
    using same_digest[of pf _ d] d none by (auto simp: digestImportedHistoryManifest_def decodeAsync_eq_Inr archiveCollision_def)
  then have m: "vh_manifest h = vh_manifest h'"
    by (intro manifestArray_inj jsonBytes_inj[OF nt]) (simp_all add: normal_arrays encodeImportedHistoryManifest_def)
  have "chunkRecords h k = chunkRecords h' k" if k: "k < length (hm_chunks (vh_manifest h))" for k
  proof -
    let ?e = "\<lambda>h. encodeImportedHistoryChunk pf (hm_archiveId (vh_manifest h)) k (chunkRecords h k)"
    have "sha256Text pf (?e h) = Inr (he_chunkDigest (hm_chunks (vh_manifest h) ! k))"
      "sha256Text pf (?e h') = Inr (he_chunkDigest (hm_chunks (vh_manifest h) ! k))"
      using opened_chunks[OF h] opened_chunks[OF h'] k m by metis+
    from same_digest[OF this] have "?e h = ?e h'" using none k by (auto simp: archiveCollision_def list_ex_iff)
    then show ?thesis
      unfolding encodeImportedHistoryChunk_def using normal_arrays(2) by (intro chunkArray_inj jsonBytes_inj[OF nt]) simp_all
  qed
  then have "map (chunkRecords h) [0..<length (hm_chunks (vh_manifest h))] = map (chunkRecords h') [0..<length (hm_chunks (vh_manifest h))]" by simp
  then have "vh_records h = vh_records h'" using opened_chunks[OF h] opened_chunks[OF h'] m by metis
  then show "h = h'" using m by (simp add: verifiedHistory.equality)
qed

lemma openParts_view:
  assumes "openParts pf aid d l parts = Some (Archive_view v)"
  obtains h where "openImportedHistory pf (ap_manifest parts) (JArr (ap_chunks parts)) l = Some (Inr h)" "v = viewOf h"
    "digestImportedHistoryManifest pf (vh_manifest h) = Some (Inr d)" "hm_archiveId (vh_manifest h) = aid"
proof -
  obtain m where m: "decodeImportedHistoryManifest (ap_manifest parts) l = Inr m" "digestImportedHistoryManifest pf m = Some (Inr d)"
      "hm_archiveId m = aid" "projectImportedHistory pf (ap_manifest parts) (JArr (ap_chunks parts)) l = Some (Inr v)"
    using assms by (auto simp: openParts_def split: if_splits sum.splits option.splits)
  then obtain h where h: "openImportedHistory pf (ap_manifest parts) (JArr (ap_chunks parts)) l = Some (Inr h)" "v = viewOf h"
    by (auto simp: projectImportedHistory_def split: option.splits sum.splits)
  then have "vh_manifest h = m" using openImportedHistory_facts[OF h(1)] m(1) by simp
  then show ?thesis using that[OF h] m by simp
qed

end
