(* ===== verification/ImportedSealing.thy ===== *)
theory ImportedSealing
  imports ImportedDigests
begin

text \<open>
  Sealing and opening an archive are inverse: what \<open>sealImportedHistory\<close> returns is accepted by \<open>openImportedHistory\<close> under
  the same limits, with the source records in source order.
\<close>

section \<open>Sizes of encodings\<close>

lemma code_points_append: "isWellFormed s \<Longrightarrow> code_points (s @ t) = code_points s @ code_points t"
proof (induction s rule: isWellFormed.induct)
  case (2 u s)
  show ?case
  proof (cases "isHigh u")
    case True
    then obtain v s' where "s = v # s'" "isLow v" "isWellFormed s'" using "2.prems" by (cases s) (auto split: if_splits)
    then show ?thesis using True "2.IH"(1) by simp
  next
    case False
    then have s: "isWellFormed s" using "2.prems" by (auto split: if_splits)
    then have "code_points (s @ t) = code_points s @ code_points t" using "2.IH"(2) False "2.prems" by (auto split: if_splits)
    moreover have "code_points (u # r) = unat u # code_points r" for r using False by (cases r) simp_all
    ultimately show ?thesis by simp
  qed
qed simp

lemma utf8Length_append: "isWellFormed s \<Longrightarrow> utf8Length (s @ t) = utf8Length s + utf8Length t"
  by (simp add: utf8Length_def code_points_append)

lemma joinWith_snoc: "xs \<noteq> [] \<Longrightarrow> joinWith c (xs @ [y]) = joinWith c xs @ [c] @ y"
proof (induction c xs rule: joinWith.induct)
  case (3 c x y' zs)
  then show ?case by (cases zs) simp_all
qed simp_all

definition tupleText :: "platform \<Rightarrow> importedRecord \<Rightarrow> ustring" where
  "tupleText pf r = jsonText (pf_numText pf) (chunkRecordTuple r)"

definition chunkPrefix :: "platform \<Rightarrow> ustring \<Rightarrow> nat \<Rightarrow> ustring" where
  "chunkPrefix pf aid i = [0x5B] @ quoteString IMPORTED_CHUNK_ENCODING_V1 @ [0x2C] @ quoteString aid @ [0x2C] @ pf_numText pf (of_nat i) @ [0x2C, 0x5B]"

lemma chunkText: "jsonText (pf_numText pf) (chunkArray aid i rs) = chunkPrefix pf aid i @ joinWith 0x2C (map (tupleText pf) rs) @ [0x5D, 0x5D]"
proof -
  have t: "stringify (pf_numText pf) (chunkRecordTuple r) = Some (tupleText pf r)" for r
    using normal_stringify[OF normal_arrays(1), of "pf_numText pf" r] by (auto simp: jsonText_def tupleText_def)
  show ?thesis by (simp add: jsonText_def chunkArray_def chunkPrefix_def jnat_def comp_def t)
qed

lemma wellFormed_pieces:
  assumes "goodNumText (pf_numText pf)"
  shows "isWellFormed (tupleText pf r)" "isWellFormed (chunkPrefix pf aid i)" "isWellFormed (joinWith 0x2C (map (tupleText pf) rs))"
proof -
  show t: "isWellFormed (tupleText pf r)" for r
    using normal_stringify[OF normal_arrays(1), of "pf_numText pf" r] wellFormed_stringify[OF assms]
    by (auto simp: tupleText_def jsonText_def)
  then show "isWellFormed (joinWith 0x2C (map (tupleText pf) rs))"
    by (intro wellFormed_joinWith punctuation) (simp add: list_all_iff)
  show "isWellFormed (chunkPrefix pf aid i)"
    unfolding chunkPrefix_def by (intro wellFormed_append wellFormed_quote wellFormed_number[OF assms]) (simp_all add: punctuation)
qed

definition chunkBytes :: "platform \<Rightarrow> ustring \<Rightarrow> nat \<Rightarrow> importedRecord list \<Rightarrow> nat" where
  "chunkBytes pf aid i rs = length (encodeImportedHistoryChunk pf aid i rs)"

definition tupleBytes :: "platform \<Rightarrow> importedRecord \<Rightarrow> nat" where
  "tupleBytes pf r = length (jsonBytes (pf_numText pf) (chunkRecordTuple r))"

lemma chunkBytes_sum:
  assumes "goodNumText (pf_numText pf)"
  shows "chunkBytes pf aid i rs = utf8Length (chunkPrefix pf aid i) + utf8Length (joinWith 0x2C (map (tupleText pf) rs)) + utf8Length [0x5D, 0x5D]"
  using wellFormed_pieces[OF assms]
  by (simp add: chunkBytes_def encodeImportedHistoryChunk_def jsonBytes_def chunkText length_textEncode utf8Length_append)

lemma chunkBytes_first:
  assumes "goodNumText (pf_numText pf)"
  shows "chunkBytes pf aid i [r] = chunkBytes pf aid i [] + tupleBytes pf r"
  by (simp add: chunkBytes_sum[OF assms] tupleBytes_def jsonBytes_def length_textEncode tupleText_def) (simp add: utf8Length_def)

lemma chunkBytes_next:
  assumes "goodNumText (pf_numText pf)" "rs \<noteq> []"
  shows "chunkBytes pf aid i (rs @ [r]) = chunkBytes pf aid i rs + 1 + tupleBytes pf r"
proof -
  have "utf8Length (joinWith 0x2C (map (tupleText pf) rs) @ [0x2C] @ tupleText pf r)
      = utf8Length (joinWith 0x2C (map (tupleText pf) rs)) + 1 + utf8Length (tupleText pf r)"
    using wellFormed_pieces[OF assms(1)] utf8Length_append[of "[0x2C]" "tupleText pf r"]
    by (simp add: utf8Length_append punctuation) (simp add: utf8Length_def)
  then show ?thesis
    using assms(2) by (simp add: chunkBytes_sum[OF assms(1)] joinWith_snoc tupleBytes_def jsonBytes_def length_textEncode tupleText_def)
qed

section \<open>Reading object literals\<close>

lemma object_exact: "exactObject j keys \<Longrightarrow> object j p keys = Inr (readerOf j p)"
proof -
  assume "exactObject j keys"
  then obtain props where "j = JObj True props" "fst ` set props = js ` set keys" unfolding exactObject_def by blast
  then show ?thesis by (simp add: object_eq_Inr readerOf_def)
qed

lemma read_valid:
  "wfId s \<Longrightarrow> identifierField (JStr s) p = Inr s" "wfId s \<Longrightarrow> readId (JStr s) p = Inr s" "digestWf s \<Longrightarrow> digestField (JStr s) p = Inr s"
  "array (JArr vs) p = Inr vs"
  by (simp_all add: identifier_eq_Inr readId_eq_Inr digestField_eq_Inr array_eq_Inr)

lemma read_participantKind: "literal (JStr (kindText k)) p participantKinds = Inr k"
  by (cases k) (simp_all add: literal_def kindText_def participantKinds_def)

lemma readRecordFields_inputProps:
  assumes "field r ''originalAuthor'' = JObj True [(js ''label'', JStr (oa_label (hr_author x))), (js ''kind'', JStr (kindText (oa_kind (hr_author x))))]"
    "field r ''sourceRecordId'' = JStr (hr_sourceRecordId x)" "field r ''sequence'' = jnat (hr_sequence x)"
    "field r ''originalSentAt'' = JStr (hr_sentAt x)" "field r ''body'' = JStr (hr_body x)" and "limitsOk l" "wfInput l x"
  shows "readRecordFields r l = Inr x"
proof -
  let ?a = "JObj True [(js ''label'', JStr (oa_label (hr_author x))), (js ''kind'', JStr (kindText (oa_kind (hr_author x))))]"
  have a: "exactObject ?a [''label'', ''kind'']" by (simp add: exactObject_def)
  have f: "field (readerOf ?a p) ''label'' = JStr (oa_label (hr_author x))" "field (readerOf ?a p) ''kind'' = JStr (kindText (oa_kind (hr_author x)))" for p
    by (simp_all add: propOf_def)
  have 1: "displayText (JStr (oa_label (hr_author x))) p (Fin (of_nat (hl_maxAuthorLabelBytes l))) = Inr (oa_label (hr_author x))"
    "textField (JStr (hr_body x)) p (Fin (of_nat (hl_maxBodyBytes l))) = Inr (hr_body x)"
    "identifierField (JStr (hr_sourceRecordId x)) p = Inr (hr_sourceRecordId x)" "safeInteger (jnat (hr_sequence x)) p = Inr (hr_sequence x)"
    "utcTimestamp (JStr (hr_sentAt x)) p = Inr (hr_sentAt x)" for p
    using assms(6,7) by (simp_all add: displayText_eq_Inr textField_eq_Inr identifier_eq_Inr safeInteger_eq_Inr utcTimestamp_eq_Inr wfInput_def limitsOk_def)
  have 2: "check (length (oa_label (hr_author x)) \<noteq> 0) p Empty = Inr ()" for p using assms(7) by (simp add: check_def wfInput_def)
  show ?thesis
    unfolding readRecordFields_def assms(1-5) object_exact[OF a] bindE_simps f 1 2 read_participantKind
    by (simp add: importedInput.equality originalAuthor.equality)
qed

lemma readRecord_recordObject:
  assumes "limitsOk l" "wfInput l r" "digestWf (hr_digest r)"
  shows "readRecord (recordObject r) p l = Inr r"
proof -
  let ?j = "recordObject r"
  have o: "exactObject ?j ([''v'', ''kind''] @ RECORD_INPUT_KEYS @ [''recordDigest''])"
    by (auto simp: exactObject_def recordObject_def RECORD_INPUT_KEYS_def inputProps_def)
  have f: "field (readerOf ?j p) ''v'' = jnat 1" "field (readerOf ?j p) ''kind'' = JStr (js ''imported'')"
    "field (readerOf ?j p) ''recordDigest'' = JStr (hr_digest r)"
    by (simp_all add: propOf_def recordObject_def inputProps_def)
  have fields: "readRecordFields (readerOf ?j p) l = Inr (importedInput.truncate r)"
    by (rule readRecordFields_inputProps) (simp_all add: propOf_def recordObject_def inputProps_def importedInput.defs assms(1), use assms(2) in \<open>simp add: wfInput_def\<close>)
  show ?thesis
    using assms(3) unfolding readRecord_def object_exact[OF o] bindE_simps f
    by (simp add: version_def jnat_def literal_def read_valid fields importedInput.defs)
qed

lemma readChunkEntry_entryObject:
  assumes "digestWf (he_chunkDigest e)" "list_all safeNat [he_index e, he_recordCount e, he_firstSequence e, he_lastSequence e]"
    "0 < he_recordCount e" "he_firstSequence e \<le> he_lastSequence e" "he_recordCount e \<le> he_lastSequence e - he_firstSequence e + 1"
  shows "readChunkEntry (entryObject e) p = Inr e"
proof -
  let ?j = "entryObject e"
  have o: "exactObject ?j [''index'', ''recordCount'', ''firstSequence'', ''lastSequence'', ''chunkDigest'']"
    by (auto simp: exactObject_def entryObject_def)
  have f: "field (readerOf ?j p) ''index'' = jnat (he_index e)" "field (readerOf ?j p) ''recordCount'' = jnat (he_recordCount e)"
    "field (readerOf ?j p) ''firstSequence'' = jnat (he_firstSequence e)" "field (readerOf ?j p) ''lastSequence'' = jnat (he_lastSequence e)"
    "field (readerOf ?j p) ''chunkDigest'' = JStr (he_chunkDigest e)"
    by (simp_all add: propOf_def entryObject_def)
  have i: "safeInteger (jnat n) q = Inr n" if "safeNat n" for n q using that by (simp add: safeInteger_eq_Inr)
  show ?thesis
    using assms unfolding readChunkEntry_def object_exact[OF o] bindE_simps f
    by (simp add: i read_valid check_def not_less)
qed

lemma readEntriesFrom_entryObjects:
  "(\<And>j. j < length es \<Longrightarrow> he_index (es ! j) = i + j \<and> readChunkEntry (entryObject (es ! j)) (elementPath p (i + j)) = Inr (es ! j)
      \<and> he_recordCount (es ! j) \<le> hl_maxRecordsPerChunk l)
   \<Longrightarrow> sorted_wrt (\<lambda>a b. he_lastSequence a < he_firstSequence b) es
   \<Longrightarrow> (case previous of None \<Rightarrow> True | Some q \<Rightarrow> \<forall>e \<in> set es. he_lastSequence q < he_firstSequence e)
   \<Longrightarrow> readEntriesFrom l p i previous (map entryObject es) = Inr es"
proof (induction es arbitrary: i previous)
  case (Cons e es)
  have e: "he_index e = i" "readChunkEntry (entryObject e) (elementPath p i) = Inr e" "he_recordCount e \<le> hl_maxRecordsPerChunk l"
    using Cons.prems(1)[of 0] by auto
  have "readEntriesFrom l p (i + 1) (Some e) (map entryObject es) = Inr es"
  proof (rule Cons.IH)
    fix j assume "j < length es"
    then show "he_index (es ! j) = i + 1 + j \<and> readChunkEntry (entryObject (es ! j)) (elementPath p (i + 1 + j)) = Inr (es ! j)
      \<and> he_recordCount (es ! j) \<le> hl_maxRecordsPerChunk l"
      using Cons.prems(1)[of "Suc j"] by simp
  qed (use Cons.prems(2) in simp_all)
  moreover have "case previous of None \<Rightarrow> True | Some q \<Rightarrow> \<not> he_firstSequence e \<le> he_lastSequence q"
    using Cons.prems(3) by (auto split: option.splits)
  ultimately show ?case using e by (simp add: check_def)
qed simp

definition manifestWf :: "importedLimits \<Rightarrow> importedManifest \<Rightarrow> bool" where
  "manifestWf l m \<longleftrightarrow> manifestOk l m \<and> wfId (hm_archiveId m) \<and> wfId (hs_channelId (hm_source m)) \<and> wfId (hs_revision (hm_source m))
     \<and> wfId (ha_ownerId (hm_importedBy m)) \<and> wfId (ha_participantId (hm_importedBy m)) \<and> wfTimestamp (hm_importedAt m) \<and> safeNat (hm_recordCount m)
     \<and> (\<forall>e \<in> set (hm_chunks m). digestWf (he_chunkDigest e) \<and> safeNat (he_index e) \<and> safeNat (he_recordCount e) \<and> safeNat (he_firstSequence e)
       \<and> safeNat (he_lastSequence e) \<and> he_recordCount e \<le> he_lastSequence e - he_firstSequence e + 1)"

lemma read_manifestObject:
  assumes "manifestWf l m"
  shows "decodeImportedHistoryManifest (manifestObject m) l = Inr m"
proof -
  let ?j = "manifestObject m"
  have o: "exactObject ?j [''v'', ''archiveId'', ''source'', ''importedBy'', ''importedAt'', ''recordCount'', ''chunks'']"
    by (auto simp: exactObject_def manifestObject_def)
  have f: "field (readerOf ?j p) ''v'' = jnat 1" "field (readerOf ?j p) ''archiveId'' = JStr (hm_archiveId m)"
    "field (readerOf ?j p) ''source'' = sourceObject (hm_source m)" "field (readerOf ?j p) ''importedBy'' = actorObject (hm_importedBy m)"
    "field (readerOf ?j p) ''importedAt'' = JStr (hm_importedAt m)" "field (readerOf ?j p) ''recordCount'' = jnat (hm_recordCount m)"
    "field (readerOf ?j p) ''chunks'' = JArr (map entryObject (hm_chunks m))" for p
    by (simp_all add: propOf_def manifestObject_def)
  have so: "exactObject (sourceObject x) [''channelId'', ''revision'']" "field (readerOf (sourceObject x) q) ''channelId'' = JStr (hs_channelId x)"
    "field (readerOf (sourceObject x) q) ''revision'' = JStr (hs_revision x)" for x q
    by (auto simp: exactObject_def sourceObject_def propOf_def)
  have ao: "exactObject (actorObject x) [''ownerId'', ''participantId'']" "field (readerOf (actorObject x) q) ''ownerId'' = JStr (ha_ownerId x)"
    "field (readerOf (actorObject x) q) ''participantId'' = JStr (ha_participantId x)" for x q
    by (auto simp: exactObject_def actorObject_def propOf_def)
  have source: "readSource (sourceObject (hm_source m)) q = Inr (hm_source m)" and actor: "readActor (actorObject (hm_importedBy m)) q = Inr (hm_importedBy m)" for q
    using assms by (simp_all add: readSource_def readActor_def object_exact so ao manifestWf_def read_valid
        del: field_readerOf)
  have scalars: "version (jnat 1) q = Inr ()" "identifierField (JStr (hm_archiveId m)) q = Inr (hm_archiveId m)"
    "utcTimestamp (JStr (hm_importedAt m)) q = Inr (hm_importedAt m)" "safeInteger (jnat (hm_recordCount m)) q = Inr (hm_recordCount m)" for q
    using assms by (simp_all add: version_def jnat_def identifier_eq_Inr utcTimestamp_eq_Inr safeInteger_eq_Inr[unfolded jnat_def] manifestWf_def)
  have entries: "readEntriesFrom l q 0 None (map entryObject (hm_chunks m)) = Inr (hm_chunks m)" for q
    by (rule readEntriesFrom_entryObjects)
      (use assms in \<open>auto simp: manifestWf_def manifestOk_def list_all_iff entryOk_def intro!: readChunkEntry_entryObject\<close>)
  have checks: "check (\<not> length (map entryObject (hm_chunks m)) > hl_maxChunks l) q Too_long = Inr ()"
    "check (hm_recordCount m = sum_list (map he_recordCount (hm_chunks m))) q Mismatch = Inr ()" for q
    using assms by (simp_all add: manifestWf_def manifestOk_def check_def)
  show ?thesis
    unfolding decodeImportedHistoryManifest_def object_exact[OF o] bindE_simps f read_valid(4) checks entries source actor scalars
    by simp
qed

lemma readRecordsFrom_recordObjects:
  "limitsOk l \<Longrightarrow> increasing rs \<Longrightarrow> (\<And>r. r \<in> set rs \<Longrightarrow> wfInput l r \<and> digestWf (hr_digest r) \<and> recordDigestOk pf (hs_channelId (hm_source m)) r)
   \<Longrightarrow> (case previous of None \<Rightarrow> True | Some q \<Rightarrow> rs \<noteq> [] \<longrightarrow> hr_sequence q < hr_sequence (hd rs))
   \<Longrightarrow> readRecordsFrom pf m l p i previous (map recordObject rs) = Inr rs"
proof (induction rs arbitrary: i previous)
  case (Cons r rs)
  have "readRecordsFrom pf m l p (i + 1) (Some r) (map recordObject rs) = Inr rs"
    by (rule Cons.IH) (use Cons.prems in \<open>auto simp: increasing_Cons\<close>)
  moreover have "readRecord (recordObject r) q l = Inr r" for q
    by (rule readRecord_recordObject) (use Cons.prems in auto)
  moreover have "case previous of None \<Rightarrow> True | Some q \<Rightarrow> \<not> hr_sequence r \<le> hr_sequence q"
    using Cons.prems(4) by (auto split: option.splits)
  moreover have "sha256Text pf (encodeImportedRecord pf (hs_channelId (hm_source m)) r) = Inr (hr_digest r)"
    using Cons.prems(3)[of r] by (simp add: recordDigestOk_def)
  ultimately show ?case by (simp add: check_def)
qed simp

lemma read_chunkObject:
  assumes l: "limitsOk l" and m: "manifestWf l m" and c: "chunkVerified pf l m c" "hk_archiveId c = hm_archiveId m"
    "hk_digest c = he_chunkDigest (hm_chunks m ! hk_index c)"
  shows "readChunk pf (chunkObject c) p m l = Inr c"
proof -
  let ?j = "chunkObject c"
  have o: "exactObject ?j [''v'', ''archiveId'', ''index'', ''records'', ''chunkDigest'']" by (auto simp: exactObject_def chunkObject_def)
  have f: "field (readerOf ?j q) ''v'' = jnat 1" "field (readerOf ?j q) ''archiveId'' = JStr (hk_archiveId c)"
    "field (readerOf ?j q) ''index'' = jnat (hk_index c)" "field (readerOf ?j q) ''records'' = JArr (map recordObject (hk_records c))"
    "field (readerOf ?j q) ''chunkDigest'' = JStr (hk_digest c)" for q
    by (simp_all add: propOf_def chunkObject_def)
  have i: "hk_index c < length (hm_chunks m)" using c(1) by (simp add: chunkVerified_def)
  then have entry: "hm_chunks m ! hk_index c \<in> set (hm_chunks m)" by simp
  have e: "he_index (hm_chunks m ! hk_index c) = hk_index c" "entryOk l (hm_chunks m ! hk_index c)"
    using m i by (simp_all add: manifestWf_def manifestOk_def list_all_length)
  then have "safeNat (hk_index c)" using m entry by (auto simp: manifestWf_def)
  then have scalars: "version (jnat 1) q = Inr ()" "identifierField (JStr (hk_archiveId c)) q = Inr (hk_archiveId c)"
    "safeInteger (jnat (hk_index c)) q = Inr (hk_index c)" "digestField (JStr (hk_digest c)) q = Inr (hk_digest c)" for q
    using m c(2,3) entry
    by (auto simp: version_def jnat_def identifier_eq_Inr safeInteger_eq_Inr[unfolded jnat_def] digestField_eq_Inr manifestWf_def)
  have rs: "readRecordsFrom pf m l q 0 None (map recordObject (hk_records c)) = Inr (hk_records c)" for q
    by (rule readRecordsFrom_recordObjects[OF l]) (use c(1) in \<open>auto simp: chunkVerified_def\<close>)
  have k: "hk_records c \<noteq> []" "length (hk_records c) = he_recordCount (hm_chunks m ! hk_index c)" "length (hk_records c) \<le> hl_maxRecordsPerChunk l"
    "hr_sequence (hd (hk_records c)) = he_firstSequence (hm_chunks m ! hk_index c)"
    "hr_sequence (last (hk_records c)) = he_lastSequence (hm_chunks m ! hk_index c)"
    "length (encodeImportedHistoryChunk pf (hk_archiveId c) (hk_index c) (hk_records c)) \<le> hl_maxChunkBytes l"
    "sha256Text pf (encodeImportedHistoryChunk pf (hk_archiveId c) (hk_index c) (hk_records c)) = Inr (hk_digest c)"
    using c e(2) by (simp_all add: chunkVerified_def entryOk_def)
  show ?thesis
    unfolding readChunk_def object_exact[OF o] bindE_simps f Let_def liftD_Inr scalars
    using i k c(2,3) by (simp add: read_valid rs check_def not_less)
qed

lemma open_chunkObjects:
  "(\<And>j. j < length cs \<Longrightarrow> hk_index (cs ! j) = i + j \<and> (\<forall>p. readChunk pf (chunkObject (cs ! j)) p m l = Inr (cs ! j)))
   \<Longrightarrow> distinct (map hr_sourceRecordId (concat (map hk_records cs)))
   \<Longrightarrow> set (map hr_sourceRecordId (concat (map hk_records cs))) \<inter> set seen = {}
   \<Longrightarrow> openChunksFrom pf m l i records seen (map chunkObject cs) = Inr (records @ concat (map hk_records cs))"
proof (induction cs arbitrary: i records seen)
  case (Cons c cs)
  let ?seen = "rev (map hr_sourceRecordId (hk_records c)) @ seen"
  have c: "hk_index c = i" "readChunk pf (chunkObject c) p m l = Inr c" for p using Cons.prems(1)[of 0] by auto
  have add: "addRecords p (hk_records c) records seen = Inr (records @ hk_records c, ?seen)" for p
    using Cons.prems(2,3) by (auto simp: addRecords_eq_Inr)
  have "openChunksFrom pf m l (i + 1) (records @ hk_records c) ?seen (map chunkObject cs)
      = Inr ((records @ hk_records c) @ concat (map hk_records cs))"
  proof (rule Cons.IH)
    fix j assume "j < length cs"
    then show "hk_index (cs ! j) = i + 1 + j \<and> (\<forall>p. readChunk pf (chunkObject (cs ! j)) p m l = Inr (cs ! j))"
      using Cons.prems(1)[of "Suc j"] by simp
  qed (use Cons.prems(2,3) in auto)
  then show ?case by (simp add: Let_def c check_def add)
qed simp

end
