(* ===== verification/SealedArchive.thy ===== *)
theory SealedArchive
  imports ImportedSealing
begin

text \<open>
  The round trip of an imported archive: the groups that sealing packs, and the proof that the sealed archive opens to the
  source records.
\<close>

section \<open>Packing\<close>

definition groupsOk :: "platform \<Rightarrow> importedLimits \<Rightarrow> ustring \<Rightarrow> ustring \<Rightarrow> chunkGroup list \<Rightarrow> bool" where
  "groupsOk pf l aid cid groups \<longleftrightarrow> length groups \<le> hl_maxChunks l \<and> increasing (concat (map fst groups))
     \<and> (\<forall>i < length groups. fst (groups ! i) \<noteq> [] \<and> length (fst (groups ! i)) \<le> hl_maxRecordsPerChunk l
         \<and> snd (groups ! i) = chunkBytes pf aid i (fst (groups ! i)) \<and> snd (groups ! i) \<le> hl_maxChunkBytes l)
     \<and> (\<forall>r \<in> set (concat (map fst groups)). wfInput l r \<and> digestWf (hr_digest r) \<and> recordDigestOk pf cid r)"

lemma previousRecord_last:
  assumes "groupsOk pf l aid cid groups"
  shows "previousRecord groups = (if concat (map fst groups) = [] then None else Some (last (concat (map fst groups))))"
proof (cases "groups = []")
  case False
  then have "fst (last groups) \<noteq> []" using assms by (simp add: groupsOk_def last_conv_nth)
  moreover obtain gs g where "groups = gs @ [g]" using False by (cases groups rule: rev_cases) auto
  ultimately show ?thesis by (simp add: previousRecord_def)
qed (simp add: previousRecord_def)

lemma increasing_snoc: "increasing xs \<Longrightarrow> (xs \<noteq> [] \<Longrightarrow> hr_sequence (last xs) < hr_sequence r) \<Longrightarrow> increasing (xs @ [r])"
proof -
  assume xs: "increasing xs" and r: "xs \<noteq> [] \<Longrightarrow> hr_sequence (last xs) < hr_sequence r"
  have "hr_sequence x < hr_sequence r" if "x \<in> set xs" for x
    using increasing_bounds[OF xs that] r that by (cases "xs = []") auto
  then show ?thesis using xs by (simp add: increasing_append increasing_Cons) (simp add: increasing_def)
qed

lemma packRecord_ok:
  assumes nt: "goodNumText (pf_numText pf)" and l: "limitsOk l" and ok: "groupsOk pf l aid cid groups"
    and r: "wfInput l r" "digestWf (hr_digest r)" "recordDigestOk pf cid r"
    and after: "concat (map fst groups) \<noteq> [] \<Longrightarrow> hr_sequence (last (concat (map fst groups))) < hr_sequence r"
    and pack: "packRecord pf l aid p q r groups = Inr groups'"
  shows "groupsOk pf l aid cid groups' \<and> concat (map fst groups') = concat (map fst groups) @ [r]"
proof -
  let ?bytes = "tupleBytes pf r"
  have inc: "increasing (concat (map fst groups) @ [r])" using increasing_snoc[OF _ after] ok by (simp add: groupsOk_def)
  show ?thesis
  proof (cases "groups \<noteq> [] \<and> length (fst (last groups)) < hl_maxRecordsPerChunk l \<and> snd (last groups) + 1 + ?bytes \<le> hl_maxChunkBytes l")
    case True
    then obtain gs g where g: "groups = gs @ [g]" by (cases groups rule: rev_cases) auto
    have "fst g \<noteq> []" "snd g = chunkBytes pf aid (length gs) (fst g)"
      using ok g by (auto simp: groupsOk_def dest: spec[of _ "length gs"])
    note next_bytes = chunkBytes_next[OF nt this(1), of aid "length gs" r] this
    have new: "groups' = gs @ [(fst g @ [r], snd g + 1 + ?bytes)]"
      using pack True g by (simp add: packRecord_def Let_def tupleBytes_def)
    have c: "concat (map fst groups') = concat (map fst groups) @ [r]" by (simp add: new g)
    have "groupsOk pf l aid cid groups'"
      unfolding groupsOk_def
    proof (intro conjI allI impI)
      show "length groups' \<le> hl_maxChunks l" using ok by (simp add: new g groupsOk_def)
      show "increasing (concat (map fst groups'))" using inc c by simp
      show "\<forall>x \<in> set (concat (map fst groups')). wfInput l x \<and> digestWf (hr_digest x) \<and> recordDigestOk pf cid x"
        using ok r unfolding c by (auto simp: groupsOk_def)
      fix i assume i: "i < length groups'"
      have old: "i < length gs \<Longrightarrow> groups' ! i = groups ! i" by (simp add: new g nth_append)
      have last: "\<not> i < length gs \<Longrightarrow> i = length gs \<and> groups' ! i = (fst g @ [r], snd g + 1 + ?bytes)" using i by (simp add: new nth_append)
      have g_last: "last groups = g" by (simp add: g)
      show "fst (groups' ! i) \<noteq> []" "length (fst (groups' ! i)) \<le> hl_maxRecordsPerChunk l"
        "snd (groups' ! i) = chunkBytes pf aid i (fst (groups' ! i))" "snd (groups' ! i) \<le> hl_maxChunkBytes l"
        using ok old last True next_bytes g by (cases "i < length gs"; auto simp: groupsOk_def g_last)+
    qed
    then show ?thesis using c by simp
  next
    case False
    then have new: "length (encodeImportedHistoryChunk pf aid (length groups) []) + ?bytes \<le> hl_maxChunkBytes l"
      "length groups \<noteq> hl_maxChunks l" "groups' = groups @ [([r], length (encodeImportedHistoryChunk pf aid (length groups) []) + ?bytes)]"
      using pack by (auto simp: packRecord_def Let_def tupleBytes_def fail_def split: if_splits)
    have c: "concat (map fst groups') = concat (map fst groups) @ [r]" by (simp add: new(3))
    have "groupsOk pf l aid cid groups'"
      unfolding groupsOk_def
    proof (intro conjI allI impI)
      show "length groups' \<le> hl_maxChunks l" using ok new(2) by (simp add: new(3) groupsOk_def)
      show "increasing (concat (map fst groups'))" using inc c by simp
      show "\<forall>x \<in> set (concat (map fst groups')). wfInput l x \<and> digestWf (hr_digest x) \<and> recordDigestOk pf cid x"
        using ok r unfolding c by (auto simp: groupsOk_def)
      fix i assume i: "i < length groups'"
      have old: "i < length groups \<Longrightarrow> groups' ! i = groups ! i" by (simp add: new(3) nth_append)
      have last: "\<not> i < length groups \<Longrightarrow> i = length groups
          \<and> groups' ! i = ([r], length (encodeImportedHistoryChunk pf aid (length groups) []) + ?bytes)"
        using i by (simp add: new(3) nth_append)
      show "fst (groups' ! i) \<noteq> []" "length (fst (groups' ! i)) \<le> hl_maxRecordsPerChunk l"
        "snd (groups' ! i) = chunkBytes pf aid i (fst (groups' ! i))" "snd (groups' ! i) \<le> hl_maxChunkBytes l"
        using ok old last new(1) l chunkBytes_first[OF nt, of aid "length groups" r]
        by (cases "i < length groups"; auto simp: groupsOk_def limitsOk_def chunkBytes_def)+
    qed
    then show ?thesis using c by simp
  qed
qed

section \<open>Source records\<close>

text \<open>The record carries what the source value holds.\<close>

definition carries :: "jsval \<Rightarrow> importedRecord \<Rightarrow> bool" where
  "carries v r \<longleftrightarrow> propOf v ''sourceRecordId'' = JStr (hr_sourceRecordId r) \<and> propOf v ''sequence'' = jnat (hr_sequence r)
     \<and> propOf (propOf v ''originalAuthor'') ''label'' = JStr (oa_label (hr_author r))
     \<and> propOf (propOf v ''originalAuthor'') ''kind'' = JStr (kindText (oa_kind (hr_author r)))
     \<and> propOf v ''originalSentAt'' = JStr (hr_sentAt r) \<and> propOf v ''body'' = JStr (hr_body r)"

lemma literal_kind: "literal j p participantKinds = Inr k \<longleftrightarrow> j = JStr (kindText k)"
proof -
  have "map_of (map (\<lambda>(k, v). (js k, v)) participantKinds) s = Some k \<longleftrightarrow> s = kindText k" for s
    by (cases k) (auto simp: participantKinds_def kindText_def)
  then show ?thesis by (auto simp: literal_eq_Inr)
qed

lemma readRecordFields_carries:
  assumes "readRecordFields (readerOf v q) l = Inr x"
  shows "carries v (importedInput.extend x \<lparr>hr_digest = d\<rparr>)"
proof -
  have "readRecordFields (readerOf v q) l = Inr x" by (rule assms)
  then show ?thesis
    unfolding readRecordFields_def bind_object_iff field_readerOf readerOf_simps(2)
    unfolding bindE_eq_Inr displayText_eq_Inr identifier_eq_Inr safeInteger_eq_Inr utcTimestamp_eq_Inr textField_eq_Inr literal_kind
    by (auto simp: carries_def importedInput.defs)
qed

lemma sha_wf:
  assumes sha: "\<And>bytes d. pf_sha256 pf bytes = Some d \<Longrightarrow> length d = 32" and d: "sha256Text pf bytes = Inr s"
  shows "digestWf s"
proof -
  obtain h where h: "length h = 32" "s = digestText h" using assms by (auto simp: sha256Text_eq_Inr)
  have hex: "list_all isLowerHex (hexByte b)" for b
  proof -
    have "unat b div 16 < 16" "unat b mod 16 < 16"
      using unsigned_less[of b, where ?'a = nat] by (simp_all add: less_mult_imp_div_less)
    then have n: "unat b div 16 \<in> set [0..<16]" "unat b mod 16 \<in> set [0..<16]" by simp_all
    have "list_all (\<lambda>n. isLowerHex (hexDigit n)) [0..<16]" by code_simp
    then show ?thesis using n by (simp only: list_all_iff hexByte_def list.set) auto
  qed
  let ?x = "concat (map hexByte h)"
  have x: "list_all isLowerHex ?x" using hex by (auto simp: list_all_iff)
  have len: "length ?x = 64" using h(1) by (simp add: length_concat comp_def hexByte_def sum_list_triv)
  have s: "s = js ''sha256:'' @ ?x" by (simp add: h(2) digestText_def)
  have range: "0x30 \<le> unat u \<and> unat u \<le> 0x7A" if "u \<in> set s" for u
  proof -
    have "u \<in> set (js ''sha256:'') \<or> isLowerHex u" using that x by (auto simp: s list_all_iff)
    moreover have "list_all (\<lambda>u. 0x30 \<le> unat u \<and> unat u \<le> 0x7A) (js ''sha256:'')" by code_simp
    ultimately show ?thesis by (auto simp: list_all_iff isLowerHex_def isDigit_def word_le_nat_alt)
  qed
  have plain: "\<not> isHigh u \<and> \<not> isLow u \<and> \<not> isControl u \<and> u \<noteq> 0" if "u \<in> set s" for u
    using range[OF that] by (auto simp: isHigh_def isLow_def isControl_def word_le_nat_alt)
  have wf: "isWellFormed s" using plain by (intro wellFormed_plain) (simp add: list_all_iff)
  have "code_points s = map unat s"
    using plain by (induction s rule: code_points.induct) auto
  then have "utf8Length s = sum_list (map (\<lambda>u. 1) s)"
    unfolding utf8Length_def using range by (simp add: comp_def cong: map_cong) (rule arg_cong[of _ _ sum_list], force)
  then have "utf8Length s = 71" using len by (simp add: s sum_list_triv)
  then show ?thesis
    using wf plain x len by (auto simp: digestWf_def wfId_def wfLabel_def wfText_def MAX_IDENTIFIER_BYTES_def isContentDigest_def startsWith_def s)
qed

lemma sealFrom_ok:
  assumes nt: "goodNumText (pf_numText pf)" and l: "limitsOk l" and sha: "\<And>bytes d. pf_sha256 pf bytes = Some d \<Longrightarrow> length d = 32"
  shows "sealFrom pf l aid cid p i groups seen vs = Inr result \<Longrightarrow> groupsOk pf l aid cid groups
    \<Longrightarrow> set seen = set (map hr_sourceRecordId (concat (map fst groups))) \<Longrightarrow> distinct (map hr_sourceRecordId (concat (map fst groups)))
    \<Longrightarrow> groupsOk pf l aid cid result \<and> distinct (map hr_sourceRecordId (concat (map fst result)))
      \<and> (\<exists>rs. concat (map fst result) = concat (map fst groups) @ rs \<and> list_all2 carries vs rs)"
proof (induction vs arbitrary: i groups seen)
  case (Cons v vs)
  let ?q = "elementPath p i"
  from Cons.prems(1) obtain r x d groups' where r: "object v ?q RECORD_INPUT_KEYS = Inr r" and x: "readRecordFields r l = Inr x"
    and order: "\<forall>y. previousRecord groups = Some y \<longrightarrow> hr_sequence y < hr_sequence x" and fresh: "hr_sourceRecordId x \<notin> set seen"
    and d: "sha256Text pf (encodeImportedRecord pf cid x) = Inr d"
    and pack: "packRecord pf l aid ?q p (importedInput.extend x \<lparr>hr_digest = d\<rparr>) groups = Inr groups'"
    and rest: "sealFrom pf l aid cid p (i + 1) groups' (hr_sourceRecordId x # seen) vs = Inr result"
    by (auto simp: Let_def bindE_eq_Inr liftD_eq_Inr check_eq_Inr not_le split: option.splits)
  let ?r = "importedInput.extend x \<lparr>hr_digest = d\<rparr>"
  have "r = readerOf v ?q" using r by (auto simp: object_eq_Inr readerOf_def)
  then have carried: "carries v ?r" using readRecordFields_carries x by simp
  have wf: "wfInput l ?r" "digestWf (hr_digest ?r)" using readRecordFields_wf[OF x] sha_wf[OF sha d] by (simp_all add: wfInput_def importedInput.defs)
  have dig: "recordDigestOk pf cid ?r" using d by (simp add: recordDigestOk_def encodeImportedRecord_def recordArray_def importedInput.defs)
  have after: "hr_sequence (last (concat (map fst groups))) < hr_sequence ?r" if "concat (map fst groups) \<noteq> []"
    using order that previousRecord_last[OF Cons.prems(2)] by (simp add: importedInput.defs)
  note packed = packRecord_ok[OF nt l Cons.prems(2) wf dig after pack]
  have ids: "set (hr_sourceRecordId x # seen) = set (map hr_sourceRecordId (concat (map fst groups')))"
    "distinct (map hr_sourceRecordId (concat (map fst groups')))"
    using packed Cons.prems(3,4) fresh by (auto simp: importedInput.defs)
  from Cons.IH[OF rest packed[THEN conjunct1] ids] obtain rs where
    "groupsOk pf l aid cid result" "distinct (map hr_sourceRecordId (concat (map fst result)))"
    "concat (map fst result) = concat (map fst groups') @ rs" "list_all2 carries vs rs" by blast
  moreover from this(3) have "concat (map fst result) = concat (map fst groups) @ (?r # rs)" using packed by simp
  moreover have "list_all2 carries (v # vs) (?r # rs)" using \<open>list_all2 carries vs rs\<close> carried by simp
  ultimately show ?case by blast
qed simp

section \<open>The round trip\<close>

lemma increasing_span: "increasing rs \<Longrightarrow> rs \<noteq> [] \<Longrightarrow> length rs \<le> hr_sequence (last rs) - hr_sequence (hd rs) + 1
    \<and> hr_sequence (hd rs) \<le> hr_sequence (last rs)"
proof (induction rs)
  case (Cons r rs)
  then show ?case by (cases "rs = []") (auto simp: increasing_Cons)
qed simp

lemma increasing_concat:
  "increasing (concat xss) \<Longrightarrow> (\<forall>xs \<in> set xss. increasing xs)
     \<and> sorted_wrt (\<lambda>xs ys. \<forall>x \<in> set xs. \<forall>y \<in> set ys. hr_sequence x < hr_sequence y) xss"
  by (induction xss) (auto simp: increasing_append)

lemma group_facts:
  assumes "groupsOk pf l aid cid groups" "i < length groups"
  shows "fst (groups ! i) \<noteq> []" "length (fst (groups ! i)) \<le> hl_maxRecordsPerChunk l" "increasing (fst (groups ! i))"
    "length (encodeImportedHistoryChunk pf aid i (fst (groups ! i))) \<le> hl_maxChunkBytes l"
    "\<And>r. r \<in> set (fst (groups ! i)) \<Longrightarrow> wfInput l r \<and> digestWf (hr_digest r) \<and> recordDigestOk pf cid r"
    "\<And>j. j < i \<Longrightarrow> hr_sequence (last (fst (groups ! j))) < hr_sequence (hd (fst (groups ! i)))"
proof -
  have mem: "fst (groups ! j) \<in> set (map fst groups)" if "j < length groups" for j using that by simp
  have ne: "fst (groups ! j) \<noteq> []" if "j < length groups" for j using that assms(1) by (simp add: groupsOk_def)
  show "fst (groups ! i) \<noteq> []" by (rule ne[OF assms(2)])
  show "length (fst (groups ! i)) \<le> hl_maxRecordsPerChunk l" using assms by (simp add: groupsOk_def)
  show "length (encodeImportedHistoryChunk pf aid i (fst (groups ! i))) \<le> hl_maxChunkBytes l"
    using assms by (auto simp: groupsOk_def chunkBytes_def)
  note inc = increasing_concat[of "map fst groups"]
  show "increasing (fst (groups ! i))" using inc nth_mem[OF assms(2)] assms(1) by (simp add: groupsOk_def)
  show "wfInput l r \<and> digestWf (hr_digest r) \<and> recordDigestOk pf cid r" if "r \<in> set (fst (groups ! i))" for r
    using assms that nth_mem[OF assms(2)] by (auto simp: groupsOk_def)
  show "hr_sequence (last (fst (groups ! j))) < hr_sequence (hd (fst (groups ! i)))" if "j < i" for j
  proof -
    have "\<forall>x \<in> set (fst (groups ! j)). \<forall>y \<in> set (fst (groups ! i)). hr_sequence x < hr_sequence y"
      using sorted_wrt_nth_less[OF inc[THEN conjunct2], of j i] that assms by (simp add: groupsOk_def)
    then show ?thesis using ne[of j] ne[OF assms(2)] that assms(2) by simp
  qed
qed

lemma sealed_manifest_wf:
  assumes l: "limitsOk l" and sha: "\<And>bytes d. pf_sha256 pf bytes = Some d \<Longrightarrow> length d = 32" and ok: "groupsOk pf l (hm_archiveId m) cid groups"
    and chunk: "\<And>i. i < length groups \<Longrightarrow> hk_index (cs ! i) = i \<and> hk_records (cs ! i) = fst (groups ! i)
      \<and> sha256Text pf (encodeImportedHistoryChunk pf (hm_archiveId m) i (fst (groups ! i))) = Inr (hk_digest (cs ! i))"
    and len: "length cs = length groups" and m: "hm_recordCount m = length (concat (map fst groups))" "hm_chunks m = map chunkEntryOf cs"
    and ids: "wfId (hm_archiveId m)" "wfId (hs_channelId (hm_source m))" "wfId (hs_revision (hm_source m))"
    "wfId (ha_ownerId (hm_importedBy m))" "wfId (ha_participantId (hm_importedBy m))" "wfTimestamp (hm_importedAt m)" and count: "safeNat (hm_recordCount m)"
  shows "manifestWf l m"
proof -
  let ?g = "\<lambda>i. fst (groups ! i)"
  have es: "length (hm_chunks m) = length groups" by (simp add: m(2) len)
  have e: "hm_chunks m ! i = \<lparr>he_index = i, he_recordCount = length (?g i), he_firstSequence = hr_sequence (hd (?g i)),
      he_lastSequence = hr_sequence (last (?g i)), he_chunkDigest = hk_digest (cs ! i)\<rparr>" if "i < length groups" for i
    using that chunk[OF that] by (simp add: m(2) len chunkEntryOf_def)
  note g = group_facts[OF ok]
  have span: "length (?g i) \<le> hr_sequence (last (?g i)) - hr_sequence (hd (?g i)) + 1" "hr_sequence (hd (?g i)) \<le> hr_sequence (last (?g i))"
    if "i < length groups" for i using increasing_span[OF g(3) g(1), OF that that] by simp_all
  have maxes: "length groups \<le> hl_maxChunks l" "safeNat (hl_maxChunks l)" "safeNat (hl_maxRecordsPerChunk l)"
    using ok l by (simp_all add: groupsOk_def limitsOk_def)
  have manifest: "manifestOk l m"
    unfolding manifestOk_def
  proof (intro conjI)
    show "length (hm_chunks m) \<le> hl_maxChunks l" using maxes es by simp
    show "list_all (entryOk l) (hm_chunks m)" using g(1,2) span by (simp add: list_all_length es e entryOk_def)
    show "\<forall>j < length (hm_chunks m). he_index (hm_chunks m ! j) = j" by (simp add: es e)
    show "sorted_wrt (\<lambda>a b. he_lastSequence a < he_firstSequence b) (hm_chunks m)"
      using g(6) by (simp add: sorted_wrt_iff_nth_less es e)
    have "map he_recordCount (hm_chunks m) = map length (map fst groups)" by (rule nth_equalityI) (simp_all add: es e)
    then show "hm_recordCount m = sum_list (map he_recordCount (hm_chunks m))" by (simp add: m(1) length_concat)
  qed
  have "digestWf (he_chunkDigest x) \<and> safeNat (he_index x) \<and> safeNat (he_recordCount x) \<and> safeNat (he_firstSequence x) \<and> safeNat (he_lastSequence x)
      \<and> he_recordCount x \<le> he_lastSequence x - he_firstSequence x + 1" if x: "x \<in> set (hm_chunks m)" for x
  proof -
    obtain i where i: "i < length groups" "x = hm_chunks m ! i" using x by (auto simp: in_set_conv_nth es)
    have "digestWf (hk_digest (cs ! i))" by (rule sha_wf[OF sha]) (use chunk[OF i(1)] in auto)
    moreover have "safeNat i" "safeNat (length (?g i))" using maxes i(1) g(2)[OF i(1)] by (simp_all add: safeNat_def)
    moreover have "safeNat (hr_sequence (hd (?g i)))" "safeNat (hr_sequence (last (?g i)))"
      using g(5)[OF i(1), of "hd (?g i)"] g(5)[OF i(1), of "last (?g i)"] g(1)[OF i(1)] by (simp_all add: wfInput_def)
    ultimately show ?thesis using span[OF i(1)] by (simp add: i(2) e[OF i(1)])
  qed
  then show ?thesis using manifest ids count by (simp add: manifestWf_def)
qed

lemma sealed_groups:
  assumes "sealImportedHistory pf input l = Some (Inr (m, cs))"
  obtains vs groups where "propOf input ''records'' = JArr vs" "sealFrom pf l (hm_archiveId m) (hs_channelId (hm_source m)) (js ''records'') 0 [] [] vs = Inr groups"
    "mapE (sealChunk pf (hm_archiveId m)) groups = Inr cs" "hm_chunks m = map chunkEntryOf cs" "hm_recordCount m = length vs"
    "wfId (hm_archiveId m)" "wfId (hs_channelId (hm_source m))" "wfId (hs_revision (hm_source m))"
    "wfId (ha_ownerId (hm_importedBy m))" "wfId (ha_participantId (hm_importedBy m))" "wfTimestamp (hm_importedAt m)"
proof -
  have "sealImportedHistory pf input l = Some (Inr (m, cs))" by (rule assms)
  then obtain r aid s a t vs groups where
    r: "object input [] [''archiveId'', ''source'', ''importedBy'', ''importedAt'', ''records''] = Inr r"
    and aid: "wfId aid" and s: "readSource (field r ''source'') (atPath r ''source'') = Inr s"
    and a: "readActor (field r ''importedBy'') (atPath r ''importedBy'') = Inr a" and t: "wfTimestamp t"
    and vs: "field r ''records'' = JArr vs" and groups: "sealFrom pf l aid (hs_channelId s) (atPath r ''records'') 0 [] [] vs = Inr groups"
    and cs: "mapE (sealChunk pf aid) groups = Inr cs"
    and m: "m = \<lparr>hm_archiveId = aid, hm_source = s, hm_importedBy = a, hm_importedAt = t, hm_recordCount = length vs, hm_chunks = map chunkEntryOf cs\<rparr>"
    unfolding sealImportedHistory_def decodeAsync_eq_Inr bindE_eq_Inr liftD_eq_Inr identifier_eq_Inr utcTimestamp_eq_Inr array_eq_Inr sum.inject prod.inject
    by blast
  have p: "atPath r ''records'' = js ''records''" "field r ''records'' = propOf input ''records''"
    using object_reads[OF r] by (simp_all add: joinPath_def)
  have "wfId (hs_channelId s)" "wfId (hs_revision s)" "wfId (ha_ownerId a)" "wfId (ha_participantId a)"
    using s a by (auto simp: readSource_def readActor_def bindE_eq_Inr identifier_eq_Inr readId_eq_Inr)
  then show ?thesis using that[of vs groups] vs groups cs aid t by (simp add: m p)
qed

lemma seal_then_open:
  assumes lj: "decodeImportedHistoryLimits lj = Inr l" and nt: "goodNumText (pf_numText pf)"
    and sha: "\<And>bytes d. pf_sha256 pf bytes = Some d \<Longrightarrow> length d = 32"
    and sealed: "sealImportedHistory pf input l = Some (Inr (m, cs))" and count: "safeNat (hm_recordCount m)"
  shows "\<exists>vs. propOf input ''records'' = JArr vs \<and> list_all2 carries vs (concat (map hk_records cs))
    \<and> openImportedHistory pf (manifestObject m) (JArr (map chunkObject cs)) l
      = Some (Inr \<lparr>vh_manifest = m, vh_records = concat (map hk_records cs)\<rparr>)"
proof -
  have l: "limitsOk l" by (rule decoded_limits[OF lj])
  obtain vs groups where vs: "propOf input ''records'' = JArr vs"
    and groups: "sealFrom pf l (hm_archiveId m) (hs_channelId (hm_source m)) (js ''records'') 0 [] [] vs = Inr groups"
    and cs: "mapE (sealChunk pf (hm_archiveId m)) groups = Inr cs" and m: "hm_chunks m = map chunkEntryOf cs" "hm_recordCount m = length vs"
    and ids: "wfId (hm_archiveId m)" "wfId (hs_channelId (hm_source m))" "wfId (hs_revision (hm_source m))"
    "wfId (ha_ownerId (hm_importedBy m))" "wfId (ha_participantId (hm_importedBy m))" "wfTimestamp (hm_importedAt m)"
    by (rule sealed_groups[OF sealed])
  have "groupsOk pf l (hm_archiveId m) (hs_channelId (hm_source m)) []" by (simp add: groupsOk_def increasing_def)
  from sealFrom_ok[OF nt l sha groups this] have ok: "groupsOk pf l (hm_archiveId m) (hs_channelId (hm_source m)) groups"
    "distinct (map hr_sourceRecordId (concat (map fst groups)))" "list_all2 carries vs (concat (map fst groups))"
    by auto
  have len: "length cs = length groups" using cs by (simp add: mapE_eq_Inr)
  have chunk: "hk_archiveId (cs ! i) = hm_archiveId m" "hk_index (cs ! i) = i" "hk_records (cs ! i) = fst (groups ! i)"
    "sha256Text pf (encodeImportedHistoryChunk pf (hm_archiveId m) i (fst (groups ! i))) = Inr (hk_digest (cs ! i))" if "i < length groups" for i
  proof -
    have "sealChunk pf (hm_archiveId m) i (groups ! i) = Inr (cs ! i)" using cs that by (simp add: mapE_eq_Inr)
    then obtain d where "sha256Text pf (encodeImportedHistoryChunk pf (hm_archiveId m) i (fst (groups ! i))) = Inr d"
      "cs ! i = \<lparr>hk_archiveId = hm_archiveId m, hk_index = i, hk_records = fst (groups ! i), hk_digest = d\<rparr>"
      by (auto simp: sealChunk_def bindE_eq_Inr)
    then show "hk_archiveId (cs ! i) = hm_archiveId m" "hk_index (cs ! i) = i" "hk_records (cs ! i) = fst (groups ! i)"
      "sha256Text pf (encodeImportedHistoryChunk pf (hm_archiveId m) i (fst (groups ! i))) = Inr (hk_digest (cs ! i))" by simp_all
  qed
  have recs: "map hk_records cs = map fst groups" by (rule nth_equalityI) (simp_all add: len chunk)
  have count': "hm_recordCount m = length (concat (map fst groups))" using m(2) list_all2_lengthD[OF ok(3)] by simp
  have wf: "manifestWf l m"
    by (rule sealed_manifest_wf[where groups = groups and cs = cs and cid = "hs_channelId (hm_source m)" and pf = pf])
      (use l sha ok(1) len count' m(1) ids count in \<open>simp_all add: chunk\<close>)
  note g = group_facts[OF ok(1)]
  have read: "readChunk pf (chunkObject (cs ! i)) p m l = Inr (cs ! i)" if i: "i < length cs" for i p
  proof (rule read_chunkObject[OF l wf])
    have i': "i < length groups" using i len by simp
    have e: "hm_chunks m ! i = chunkEntryOf (cs ! i)" using i by (simp add: m(1))
    show "hk_digest (cs ! i) = he_chunkDigest (hm_chunks m ! hk_index (cs ! i))" using i' by (simp add: chunk e chunkEntryOf_def)
    show "hk_archiveId (cs ! i) = hm_archiveId m" using i' by (simp add: chunk)
    show "chunkVerified pf l m (cs ! i)"
      using g(1-5)[OF i'] i i' unfolding chunkVerified_def chunk(2,3)[OF i'] e by (simp add: m(1) chunkEntryOf_def chunk)
  qed
  have "openChunksFrom pf m l 0 [] [] (map chunkObject cs) = Inr (concat (map hk_records cs))"
    using open_chunkObjects[of cs 0 pf m l "[]" "[]"] ok(2) read by (simp add: recs chunk len)
  then have "openImportedHistory pf (manifestObject m) (JArr (map chunkObject cs)) l
      = Some (Inr \<lparr>vh_manifest = m, vh_records = concat (map hk_records cs)\<rparr>)"
    by (simp add: openImportedHistory_def read_manifestObject[OF wf] read_valid check_def m(1) decodeAsync_def)
  then show ?thesis using vs ok(3) by (simp add: recs)
qed


section \<open>Properties\<close>

text \<open>C24: A sealed archive opens. What \<open>sealImportedHistory\<close> returns, stored and read back as it is, passes every check of
  \<open>openImportedHistory\<close> under the same limits: the manifest and every chunk are accepted, and the records that come out are
  the source records, each with the values of its source, in source order, with none dropped or repeated. SHA-256 digests have
  32 bytes, and the archive has no more records than an integer can count.\<close>
theorem sealed_archive_opens:
  assumes lj: "decodeImportedHistoryLimits lj = Inr l" and nt: "goodNumText (pf_numText pf)"
    and sha: "\<And>bytes d. pf_sha256 pf bytes = Some d \<Longrightarrow> length d = 32"
    and sealed: "sealImportedHistory pf input l = Some (Inr (m, cs))" and count: "safeNat (hm_recordCount m)"
  shows "\<exists>vs. propOf input ''records'' = JArr vs \<and> list_all2 carries vs (concat (map hk_records cs))
    \<and> openImportedHistory pf (manifestObject m) (JArr (map chunkObject cs)) l
      = Some (Inr \<lparr>vh_manifest = m, vh_records = concat (map hk_records cs)\<rparr>)"
  by (rule seal_then_open[OF assms])

text \<open>C25: Paging through an imported archive ends. For every view of a verified archive and every page size of at least one,
  a reader that starts without a cursor and follows \<open>nextCursor\<close> reaches the last page after at most one page per record (and
  one), no page is refused, the pages together hold every record of the archive exactly once and in source order, and no page
  is larger than the limits allow.\<close>
theorem paging_ends_with_every_record:
  assumes "decodeImportedHistoryLimits lj = Inr l" and "projectImportedHistory pf mj cj l = Some (Inr view)"
    and "isSafeInteger limit" and "1 \<le> natOfNum limit"
  shows "\<exists>pages. readPages (length (iv_records view) + 1) view limit l None = Some pages
    \<and> concat (map cp_records pages) = iv_records view \<and> list_all (pageOk (natOfNum limit) l) pages"
  by (rule readPages_all[OF projected_view_ok[OF decoded_limits[OF assms(1)] assms(2)] decoded_limits[OF assms(1)] assms(3,4)])
    (simp_all add: cursorAt_def)

text \<open>C26: A manifest digest names one archive. Whatever the transport returned, at any two times and under any limits: two
  archives that open for the same manifest digest show the same view, record for record, or the openings exhibit a SHA-256
  collision between their manifests or between their chunks of one index.\<close>
theorem manifest_digest_names_one_archive:
  assumes "goodNumText (pf_numText pf)"
    and "openParts pf aid d l parts = Some (Archive_view v)" and "openParts pf aid' d l' parts' = Some (Archive_view v')"
  shows "v = v' \<or> (\<exists>h h'. openImportedHistory pf (ap_manifest parts) (JArr (ap_chunks parts)) l = Some (Inr h)
    \<and> openImportedHistory pf (ap_manifest parts') (JArr (ap_chunks parts')) l' = Some (Inr h') \<and> archiveCollision pf h h')"
proof -
  obtain h where h: "openImportedHistory pf (ap_manifest parts) (JArr (ap_chunks parts)) l = Some (Inr h)" "v = viewOf h"
    "digestImportedHistoryManifest pf (vh_manifest h) = Some (Inr d)" by (rule openParts_view[OF assms(2)])
  obtain h' where h': "openImportedHistory pf (ap_manifest parts') (JArr (ap_chunks parts')) l' = Some (Inr h')" "v' = viewOf h'"
    "digestImportedHistoryManifest pf (vh_manifest h') = Some (Inr d)" by (rule openParts_view[OF assms(3)])
  show ?thesis using digest_names_archive[OF assms(1) h(1) h'(1) h(3) h'(3)] h h' by blast
qed

section \<open>Witnesses\<close>

definition sampleLimitsObject :: jsval where
  "sampleLimitsObject = JObj True (map (\<lambda>k. (js k, jnat 200)) LIMIT_KEYS)"

definition sampleArchiveLimits :: importedLimits where
  "sampleArchiveLimits = \<lparr>hl_maxBodyBytes = 200, hl_maxAuthorLabelBytes = 200, hl_maxRecordsPerChunk = 200, hl_maxChunkBytes = 200, hl_maxChunks = 200,
     hl_maxPageRecords = 200, hl_maxPageBytes = 200\<rparr>"

definition sampleTime :: ustring where
  "sampleTime = js ''2024-01-01T00:00:00Z''"

definition sampleValue :: jsval where
  "sampleValue = JObj True [(js ''sourceRecordId'', JStr (js ''m'')), (js ''sequence'', jnat 0),
     (js ''originalAuthor'', JObj True [(js ''label'', JStr (js ''A'')), (js ''kind'', JStr (js ''human''))]),
     (js ''originalSentAt'', JStr sampleTime), (js ''body'', JStr (js ''hi''))]"

definition sampleSource :: jsval where
  "sampleSource = JObj True [(js ''archiveId'', JStr (js ''a'')),
     (js ''source'', JObj True [(js ''channelId'', JStr (js ''c'')), (js ''revision'', JStr (js ''v''))]),
     (js ''importedBy'', JObj True [(js ''ownerId'', JStr (js ''o'')), (js ''participantId'', JStr (js ''p''))]),
     (js ''importedAt'', JStr sampleTime), (js ''records'', JArr [sampleValue])]"

text \<open>A platform whose digest does not read its input keeps the evaluation small.\<close>

definition constantPlatform :: platform where
  "constantPlatform = samplePlatform\<lparr>pf_sha256 := (\<lambda>_. Some (replicate 32 0))\<rparr>"

definition sampleFields :: importedInput where
  "sampleFields = \<lparr>hr_sourceRecordId = js ''m'', hr_sequence = 0, hr_author = \<lparr>oa_label = js ''A'', oa_kind = Human\<rparr>,
     hr_sentAt = sampleTime, hr_body = js ''hi''\<rparr>"

definition sampleRecord :: importedRecord where
  "sampleRecord = importedInput.extend sampleFields \<lparr>hr_digest = digestText (replicate 32 0)\<rparr>"

definition sampleChunk :: importedChunk where
  "sampleChunk = \<lparr>hk_archiveId = js ''a'', hk_index = 0, hk_records = [sampleRecord], hk_digest = digestText (replicate 32 0)\<rparr>"

definition sampleManifest :: importedManifest where
  "sampleManifest = \<lparr>hm_archiveId = js ''a'', hm_source = \<lparr>hs_channelId = js ''c'', hs_revision = js ''v''\<rparr>,
     hm_importedBy = \<lparr>ha_ownerId = js ''o'', ha_participantId = js ''p''\<rparr>, hm_importedAt = sampleTime, hm_recordCount = 1,
     hm_chunks = [chunkEntryOf sampleChunk]\<rparr>"

lemma sample_sizes: "length (encodeImportedHistoryChunk constantPlatform (js ''a'') 0 []) = 46"
  "length (jsonBytes (pf_numText constantPlatform) (chunkRecordTuple sampleRecord)) = 123"
  by code_simp+

lemma sample_time: "utcTimestamp (JStr sampleTime) p = Inr sampleTime"
proof -
  have "wfTimestamp sampleTime" by code_simp
  then show ?thesis by (simp add: utcTimestamp_eq_Inr)
qed

lemma archive_ids: "identifierField (JStr (js ''a'')) q = Inr (js ''a'')" "identifierField (JStr (js ''c'')) q = Inr (js ''c'')"
  "identifierField (JStr (js ''v'')) q = Inr (js ''v'')" "readId (JStr (js ''o'')) q = Inr (js ''o'')" "readId (JStr (js ''p'')) q = Inr (js ''p'')"
proof -
  have "wfId (js ''a'')" "wfId (js ''c'')" "wfId (js ''v'')" "wfId (js ''o'')" "wfId (js ''p'')"
    by (rule ascii_id; simp add: js_def)+
  then show "identifierField (JStr (js ''a'')) q = Inr (js ''a'')" "identifierField (JStr (js ''c'')) q = Inr (js ''c'')"
    "identifierField (JStr (js ''v'')) q = Inr (js ''v'')" "readId (JStr (js ''o'')) q = Inr (js ''o'')" "readId (JStr (js ''p'')) q = Inr (js ''p'')"
    by (simp_all add: read_valid)
qed

lemma sample_limits: "decodeImportedHistoryLimits sampleLimitsObject = Inr sampleArchiveLimits" "limitsOk sampleArchiveLimits"
proof -
  have o: "exactObject sampleLimitsObject LIMIT_KEYS" by (auto simp: exactObject_def sampleLimitsObject_def LIMIT_KEYS_def)
  have "positiveLimit (readerOf sampleLimitsObject []) k = Inr 200" if "k \<in> set LIMIT_KEYS" for k
    using that by (auto simp: positiveLimit_eq_Inr propOf_def sampleLimitsObject_def LIMIT_KEYS_def safeNat_def)
  then show dec: "decodeImportedHistoryLimits sampleLimitsObject = Inr sampleArchiveLimits"
    unfolding decodeImportedHistoryLimits_def object_exact[OF o] bindE_simps by (simp add: LIMIT_KEYS_def sampleArchiveLimits_def)
  show "limitsOk sampleArchiveLimits" by (rule decoded_limits[OF dec])
qed

lemma sample_record: "readRecordFields (readerOf sampleValue q) sampleArchiveLimits = Inr sampleFields"
proof (rule readRecordFields_inputProps)
  have "wfDisplay 200 (js ''A'')" "wfText 200 (js ''hi'')"
    by (rule wfText_le(2)[OF ascii_wf(3)] wfText_le(1)[OF ascii_wf(2)]; simp add: js_def)+
  moreover have "wfId (js ''m'')" by (rule ascii_id; simp add: js_def)
  moreover have "wfTimestamp sampleTime" using sample_time by (simp add: utcTimestamp_eq_Inr)
  ultimately show "wfInput sampleArchiveLimits sampleFields"
    by (simp add: wfInput_def sampleArchiveLimits_def sampleFields_def safeNat_def)
qed (simp_all add: propOf_def sampleValue_def sampleFields_def kindText_def sample_limits)

lemma sample_sealed: "sealImportedHistory constantPlatform sampleSource sampleArchiveLimits = Some (Inr (sampleManifest, [sampleChunk]))"
proof -
  have o: "exactObject sampleSource [''archiveId'', ''source'', ''importedBy'', ''importedAt'', ''records'']"
    by (auto simp: exactObject_def sampleSource_def)
  have v: "exactObject sampleValue RECORD_INPUT_KEYS" by (auto simp: exactObject_def sampleValue_def RECORD_INPUT_KEYS_def)
  have f: "field (readerOf sampleSource q) ''archiveId'' = JStr (js ''a'')" "field (readerOf sampleSource q) ''importedAt'' = JStr sampleTime"
    "field (readerOf sampleSource q) ''records'' = JArr [sampleValue]"
    "field (readerOf sampleSource q) ''source'' = sourceObject \<lparr>hs_channelId = js ''c'', hs_revision = js ''v''\<rparr>"
    "field (readerOf sampleSource q) ''importedBy'' = actorObject \<lparr>ha_ownerId = js ''o'', ha_participantId = js ''p''\<rparr>" for q
    by (simp_all add: propOf_def sampleSource_def sourceObject_def actorObject_def)
  have s: "readSource (sourceObject \<lparr>hs_channelId = js ''c'', hs_revision = js ''v''\<rparr>) q = Inr \<lparr>hs_channelId = js ''c'', hs_revision = js ''v''\<rparr>"
    and a: "readActor (actorObject \<lparr>ha_ownerId = js ''o'', ha_participantId = js ''p''\<rparr>) q = Inr \<lparr>ha_ownerId = js ''o'', ha_participantId = js ''p''\<rparr>" for q
    by (simp_all add: readSource_def readActor_def sourceObject_def actorObject_def object_exact exactObject_def archive_ids propOf_def insert_commute)
  have sha: "sha256Text constantPlatform b = Inr (digestText (replicate 32 0))" for b by (simp add: sha256Text_def constantPlatform_def)
  have pack: "packRecord constantPlatform sampleArchiveLimits (js ''a'') q r sampleRecord [] = Inr [([sampleRecord], 169)]" for q r
    by (simp add: packRecord_def sample_sizes sampleArchiveLimits_def)
  have "sealFrom constantPlatform sampleArchiveLimits (js ''a'') (js ''c'') q 0 [] [] [sampleValue] = Inr [([sampleRecord], 169)]" for q
    using pack by (simp add: Let_def object_exact[OF v] sample_record previousRecord_def check_def sha sampleRecord_def[symmetric])
  then show ?thesis
    unfolding sealImportedHistory_def object_exact[OF o] bindE_simps liftD_Inr f s a archive_ids sample_time read_valid(4) importedSource.select_convs
    by (simp add: mapE_def sealChunk_def sha decodeAsync_def sampleManifest_def sampleChunk_def)
qed

lemma constant_platform: "goodNumText (pf_numText constantPlatform)" "pf_sha256 constantPlatform b = Some d \<Longrightarrow> length d = 32"
  by (auto simp: constantPlatform_def samplePlatform_def sampleNumText_good)

lemma sample_safe: "safeNat (hm_recordCount sampleManifest)"
  by (simp add: sampleManifest_def safeNat_def)

lemma sealed_archive_opens_witness:
  "\<exists>vs. propOf sampleSource ''records'' = JArr vs \<and> list_all2 carries vs (concat (map hk_records [sampleChunk]))
    \<and> openImportedHistory constantPlatform (manifestObject sampleManifest) (JArr (map chunkObject [sampleChunk])) sampleArchiveLimits
      = Some (Inr \<lparr>vh_manifest = sampleManifest, vh_records = concat (map hk_records [sampleChunk])\<rparr>)"
  by (rule sealed_archive_opens[OF sample_limits(1) constant_platform(1) _ sample_sealed sample_safe]) (rule constant_platform(2))

definition sampleHistory :: verifiedHistory where
  "sampleHistory = \<lparr>vh_manifest = sampleManifest, vh_records = [sampleRecord]\<rparr>"

lemma sample_opened:
  "openImportedHistory constantPlatform (manifestObject sampleManifest) (JArr [chunkObject sampleChunk]) sampleArchiveLimits = Some (Inr sampleHistory)"
proof -
  have "\<exists>vs. propOf sampleSource ''records'' = JArr vs \<and> list_all2 carries vs (concat (map hk_records [sampleChunk]))
    \<and> openImportedHistory constantPlatform (manifestObject sampleManifest) (JArr (map chunkObject [sampleChunk])) sampleArchiveLimits
      = Some (Inr \<lparr>vh_manifest = sampleManifest, vh_records = concat (map hk_records [sampleChunk])\<rparr>)"
    by (rule seal_then_open[OF sample_limits(1) constant_platform(1) _ sample_sealed sample_safe]) (rule constant_platform(2))
  moreover have "concat (map hk_records [sampleChunk]) = [sampleRecord]" by (simp add: sampleChunk_def)
  ultimately show ?thesis by (auto simp: sampleHistory_def)
qed

lemma sample_projected:
  "projectImportedHistory constantPlatform (manifestObject sampleManifest) (JArr [chunkObject sampleChunk]) sampleArchiveLimits = Some (Inr (viewOf sampleHistory))"
  by (simp add: projectImportedHistory_def sample_opened)

lemma paging_ends_with_every_record_witness:
  "\<exists>pages. readPages (length (iv_records (viewOf sampleHistory)) + 1) (viewOf sampleHistory) (Fin (of_nat 1)) sampleArchiveLimits None = Some pages
    \<and> concat (map cp_records pages) = iv_records (viewOf sampleHistory) \<and> list_all (pageOk (natOfNum (Fin (of_nat 1))) sampleArchiveLimits) pages"
proof (rule paging_ends_with_every_record[OF sample_limits(1) sample_projected])
  show "isSafeInteger (Fin (of_nat 1))" unfolding jnat_safe by (simp add: safeNat_def)
  show "1 \<le> natOfNum (Fin (of_nat 1))" unfolding jnat_safe by simp
qed

definition sampleParts :: archiveParts where
  "sampleParts = \<lparr>ap_manifest = manifestObject sampleManifest, ap_chunks = [chunkObject sampleChunk]\<rparr>"

lemma sample_parts:
  "openParts constantPlatform (js ''a'') (digestText (replicate 32 0)) sampleArchiveLimits sampleParts = Some (Archive_view (viewOf sampleHistory))"
proof -
  have "decodeImportedHistoryManifest (manifestObject sampleManifest) sampleArchiveLimits = Inr sampleManifest"
    using openImportedHistory_facts[OF sample_opened] by (simp add: sampleHistory_def)
  moreover have "digestImportedHistoryManifest constantPlatform m = Some (Inr (digestText (replicate 32 0)))" for m
    by (simp add: digestImportedHistoryManifest_def sha256Text_def constantPlatform_def decodeAsync_def)
  moreover have "manifestObject sampleManifest \<noteq> JNull" by (simp add: manifestObject_def)
  moreover have "hm_archiveId sampleManifest = js ''a''" by (simp add: sampleManifest_def)
  ultimately show ?thesis by (simp add: openParts_def sampleParts_def sample_projected)
qed

lemma manifest_digest_names_one_archive_witness:
  "viewOf sampleHistory = viewOf sampleHistory \<or> (\<exists>h h'. openImportedHistory constantPlatform (ap_manifest sampleParts) (JArr (ap_chunks sampleParts)) sampleArchiveLimits = Some (Inr h)
    \<and> openImportedHistory constantPlatform (ap_manifest sampleParts) (JArr (ap_chunks sampleParts)) sampleArchiveLimits = Some (Inr h')
    \<and> archiveCollision constantPlatform h h')"
  by (rule manifest_digest_names_one_archive[OF constant_platform(1) sample_parts sample_parts])

end
