(* ===== verification/HistoryDelivery.thy ===== *)
theory HistoryDelivery
  imports HistoryImport
begin

text \<open>
  Delivery of archive parts over a transport that deduplicates on the transaction identifier, as its interface documents:
  the identifier names one part, so however often parts are delivered again, every part is stored at most once.
\<close>

section \<open>Transaction identifiers\<close>

text \<open>What a part is of its archive: a chunk of an index, or the manifest.\<close>

definition partName :: "importedPart \<Rightarrow> ustring \<times> nat option" where
  "partName part = (case part of Chunk_part archiveId index _ \<Rightarrow> (archiveId, Some index) | Manifest_part archiveId _ \<Rightarrow> (archiveId, None))"

lemma digits_suffix:
  assumes "x @ [0x2E] @ dec_digits i = y @ [0x2E] @ dec_digits j"
  shows "x = y \<and> i = j"
proof -
  have dot: "\<not> isDigit 0x2E" by (simp add: isDigit_def)
  have run: "takeWhile isDigit (rev (z @ [0x2E] @ dec_digits n)) = rev (dec_digits n)" for z n
    using takeWhile_delim[of isDigit "rev (dec_digits n)" "0x2E # rev z"] dec_digits_props[of n] dot by (simp add: list_all_iff)
  from run[of x i] run[of y j] have "rev (dec_digits i) = rev (dec_digits j)" by (simp only: assms)
  then have d: "dec_digits i = dec_digits j" by simp
  then have "i = j" using dec_digits_props[of i] dec_digits_props[of j] by metis
  then show ?thesis using assms by simp
qed

lemma txn_chunk: "importedPartTxnId (Chunk_part aid i c) = (aid @ js ''.chunk'') @ [0x2E] @ dec_digits i"
  by (simp add: importedPartTxnId_def js_def)

lemma txn_manifest: "importedPartTxnId (Manifest_part aid m) = aid @ js ''.manifest''"
  by (simp add: importedPartTxnId_def)

lemma txn_last: "isDigit (last (importedPartTxnId (Chunk_part aid i c)))" "\<not> isDigit (last (importedPartTxnId (Manifest_part aid m)))"
proof -
  show "isDigit (last (importedPartTxnId (Chunk_part aid i c)))"
    using dec_digits_props[of i] by (simp add: txn_chunk list_all_iff)
  have "\<not> isDigit (last (js ''.manifest''))" "js ''.manifest'' \<noteq> []" by code_simp simp
  then show "\<not> isDigit (last (importedPartTxnId (Manifest_part aid m)))" by (simp add: txn_manifest)
qed

lemma txn_names_part: "importedPartTxnId p = importedPartTxnId q \<longleftrightarrow> partName p = partName q"
proof (cases p; cases q)
  fix aid i c aid' i' c' assume p: "p = Chunk_part aid i c" "q = Chunk_part aid' i' c'"
  show ?thesis using digits_suffix[of "aid @ js ''.chunk''" i "aid' @ js ''.chunk''" i'] unfolding p txn_chunk by (auto simp: partName_def)
next
  fix aid m aid' m' assume p: "p = Manifest_part aid m" "q = Manifest_part aid' m'"
  show ?thesis unfolding p txn_manifest by (simp add: partName_def)
next
  fix aid i c aid' m' assume p: "p = Chunk_part aid i c" "q = Manifest_part aid' m'"
  show ?thesis using txn_last(1)[of aid i c] txn_last(2)[of aid' m'] unfolding p by (auto simp: partName_def)
next
  fix aid m aid' i' c' assume p: "p = Manifest_part aid m" "q = Chunk_part aid' i' c'"
  show ?thesis using txn_last(1)[of aid' i' c'] txn_last(2)[of aid m] unfolding p by (auto simp: partName_def)
qed

section \<open>Deliveries\<close>

text \<open>What the transport stores: room, transaction identifier, part. It stores a part only under an identifier that the room does
  not have, reports an identifier as found only when it is stored, and acknowledges only what is stored; its answer may be lost.\<close>

type_synonym storedPart = "ustring \<times> ustring \<times> importedPart"

definition storedKeys :: "storedPart list \<Rightarrow> (ustring \<times> ustring) list" where
  "storedKeys s = map (\<lambda>(room, txn, _). (room, txn)) s"

definition dedupTransport :: "('w \<Rightarrow> storedPart list) \<Rightarrow> 'w historyTransport \<Rightarrow> bool" where
  "dedupTransport stored t \<longleftrightarrow>
     (\<forall>room txn w r w'. ht_findPart t room txn w = (r, w') \<longrightarrow> stored w' = stored w
        \<and> (\<forall>i. r = Inr (Part_found i) \<longrightarrow> (room, txn) \<in> set (storedKeys (stored w))))
   \<and> (\<forall>room txn part w r w'. ht_putPart t room txn part w = (r, w') \<longrightarrow>
        (stored w' = stored w \<or> (room, txn) \<notin> set (storedKeys (stored w)) \<and> stored w' = stored w @ [(room, txn, part)])
        \<and> (\<forall>i. r = Inr (Eff_done i) \<longrightarrow> (room, txn) \<in> set (storedKeys (stored w'))))"

lemma dedup_find:
  assumes "dedupTransport stored t" "ht_findPart t room txn w = (r, w')"
  shows "stored w' = stored w" "r = Inr (Part_found i) \<Longrightarrow> (room, txn) \<in> set (storedKeys (stored w))"
  using assms unfolding dedupTransport_def by blast+

lemma dedup_put:
  assumes "dedupTransport stored t" "ht_putPart t room txn part w = (r, w')"
  shows "stored w' = stored w \<or> (room, txn) \<notin> set (storedKeys (stored w)) \<and> stored w' = stored w @ [(room, txn, part)]"
    "r = Inr (Eff_done i) \<Longrightarrow> (room, txn) \<in> set (storedKeys (stored w'))"
  using assms unfolding dedupTransport_def by blast+

definition storedOk :: "(ustring \<times> importedPart) set \<Rightarrow> storedPart list \<Rightarrow> bool" where
  "storedOk jobs s \<longleftrightarrow> distinct (storedKeys s) \<and> (\<forall>(room, txn, part) \<in> set s. txn = importedPartTxnId part \<and> (room, part) \<in> jobs)"

lemma storedOk_snoc:
  "storedOk jobs s \<Longrightarrow> (room, importedPartTxnId part) \<notin> set (storedKeys s) \<Longrightarrow> (room, part) \<in> jobs
   \<Longrightarrow> storedOk jobs (s @ [(room, importedPartTxnId part, part)])"
  by (auto simp: storedOk_def storedKeys_def)

lemma storedKeys_snoc: "storedKeys (s @ [(room, txn, part)]) = storedKeys s @ [(room, txn)]"
  by (simp add: storedKeys_def)

lemma deliver_step:
  assumes t: "dedupTransport stored t" and ok: "storedOk jobs (stored w)" "(room, part) \<in> jobs"
    and run: "deliverImportedPart t room part w = (r, w')"
  shows "storedOk jobs (stored w') \<and> set (storedKeys (stored w)) \<subseteq> set (storedKeys (stored w'))
    \<and> (\<forall>d. r = Inr (Op_ok d) \<longrightarrow> (room, importedPartTxnId part) \<in> set (storedKeys (stored w')))"
proof -
  let ?txn = "importedPartTxnId part"
  obtain f w1 where f: "ht_findPart t room ?txn w = (f, w1)" by fastforce
  note found = dedup_find[OF t f]
  obtain p w2 where p: "ht_putPart t room ?txn part w1 = (p, w2)" by fastforce
  note put = dedup_put[OF t p, unfolded found(1)]
  have w2: "storedOk jobs (stored w2)" "set (storedKeys (stored w)) \<subseteq> set (storedKeys (stored w2))"
    using put(1) ok storedOk_snoc[OF ok(1) _ ok(2)] by (auto simp: storedKeys_snoc)
  have cases: "(w' = w1 \<and> ((\<exists>i. f = Inr (Part_found i)) \<or> r = Inr Op_unavailable)) \<or> (w' = w2 \<and> ((\<exists>i. p = Inr (Eff_done i)) \<or> (\<forall>d. r \<noteq> Inr (Op_ok d))))"
    using run f p
    by (auto simp: deliverImportedPart_def settle_def catchS_def tryS_def bindS_def Let_def
        split: sum.splits partLookup.splits substrateEffect.splits)
  then show ?thesis using found put w2 ok by auto
qed

text \<open>Parts delivered one after another, retries included.\<close>

fun deliverAll :: "'w historyTransport \<Rightarrow> (ustring \<times> importedPart) list \<Rightarrow> 'w
    \<Rightarrow> (jsval + (partDelivery, channelRejection) operationResult) list \<times> 'w" where
  "deliverAll t [] w = ([], w)"
| "deliverAll t ((room, part) # jobs) w =
     (let (r, w1) = deliverImportedPart t room part w; (rs, w2) = deliverAll t jobs w1 in (r # rs, w2))"

lemma deliverAll_ok:
  assumes t: "dedupTransport stored t"
  shows "storedOk jobs (stored w) \<Longrightarrow> set todo \<subseteq> jobs \<Longrightarrow> deliverAll t todo w = (rs, w') \<Longrightarrow> storedOk jobs (stored w')
    \<and> set (storedKeys (stored w)) \<subseteq> set (storedKeys (stored w')) \<and> length rs = length todo
    \<and> list_all2 (\<lambda>(room, part) r. (\<forall>d. r = Inr (Op_ok d) \<longrightarrow> (room, importedPartTxnId part) \<in> set (storedKeys (stored w')))) todo rs"
proof (induction todo arbitrary: w rs)
  case (Cons j todo)
  obtain room part where j: "j = (room, part)" by fastforce
  obtain r w1 where r: "deliverImportedPart t room part w = (r, w1)" by fastforce
  obtain rs' where rs': "deliverAll t todo w1 = (rs', w')" and e: "rs = r # rs'"
    using Cons.prems(3) by (auto simp: j r split: prod.splits)
  have job: "(room, part) \<in> jobs" "set todo \<subseteq> jobs" using Cons.prems(2) j by auto
  note step = deliver_step[OF t Cons.prems(1) job(1) r]
  note rest = Cons.IH[OF step[THEN conjunct1] job(2) rs']
  show ?case using step rest unfolding e j by auto
qed simp

text \<open>C27: However often the parts of archives are delivered again, and whichever answers are lost, every part is stored at most once:
  no room ever holds two parts of one archive and index, nor two manifests of one archive; every stored part is one that was
  delivered to that room; and a delivery that reports success names a part that the room stores.\<close>
theorem parts_stored_once:
  assumes "dedupTransport stored t" and "stored w = []" and "deliverAll t jobs w = (rs, w')"
  shows "distinct (map (\<lambda>(room, _, part). (room, partName part)) (stored w'))
    \<and> (\<forall>(room, _, part) \<in> set (stored w'). (room, part) \<in> set jobs)
    \<and> list_all2 (\<lambda>(room, part) r. (\<exists>d. r = Inr (Op_ok d)) \<longrightarrow> (room, partName part) \<in> (\<lambda>(room, _, part). (room, partName part)) ` set (stored w')) jobs rs"
proof -
  have "storedOk (set jobs) (stored w)" by (simp add: assms(2) storedOk_def storedKeys_def)
  from deliverAll_ok[OF assms(1) this subset_refl assms(3)] have ok: "storedOk (set jobs) (stored w')"
    "list_all2 (\<lambda>(room, part) r. (\<forall>d. r = Inr (Op_ok d) \<longrightarrow> (room, importedPartTxnId part) \<in> set (storedKeys (stored w')))) jobs rs" by blast+
  have part: "\<And>room txn part. (room, txn, part) \<in> set (stored w') \<Longrightarrow> txn = importedPartTxnId part \<and> (room, part) \<in> set jobs"
    using ok(1) by (auto simp: storedOk_def)
  have "inj_on (\<lambda>(room, _, part). (room, partName part)) (set (stored w'))" if "distinct (storedKeys (stored w'))"
  proof (rule inj_onI; clarsimp)
    fix r x p y q assume "(r, x, p) \<in> set (stored w')" "(r, y, q) \<in> set (stored w')" "partName p = partName q"
    moreover from this have "x = y" using part txn_names_part[of p q] by auto
    moreover from that have "inj_on (\<lambda>(room, txn, _). (room, txn)) (set (stored w'))" by (simp add: storedKeys_def distinct_map)
    ultimately show "x = y \<and> p = q" using inj_onD[of "\<lambda>(room, txn, _). (room, txn)" "set (stored w')" "(r, x, p)" "(r, y, q)"] by simp
  qed
  moreover have "distinct (storedKeys (stored w'))" "distinct (stored w')" using ok(1) by (auto simp: storedOk_def storedKeys_def distinct_map)
  ultimately have "distinct (map (\<lambda>(room, _, part). (room, partName part)) (stored w'))" by (simp add: distinct_map)
  moreover have "list_all2 (\<lambda>(room, part) r. (\<exists>d. r = Inr (Op_ok d)) \<longrightarrow> (room, partName part) \<in> (\<lambda>(room, _, part). (room, partName part)) ` set (stored w')) jobs rs"
  proof (rule list_all2_mono[OF ok(2)], clarify)
    fix room p r d assume "\<forall>d'. Inr (Op_ok d) = Inr (Op_ok d') \<longrightarrow> (room, importedPartTxnId p) \<in> set (storedKeys (stored w'))"
    then obtain q where "(room, importedPartTxnId p, q) \<in> set (stored w')" by (auto simp: storedKeys_def)
    moreover from this have "partName q = partName p" using part txn_names_part[of p q] by auto
    ultimately show "(room, partName p) \<in> (\<lambda>(room, _, part). (room, partName part)) ` set (stored w')" by force
  qed
  ultimately show ?thesis using part by auto
qed

text \<open>A transport over a log whose acknowledgements of chunk 1 are lost.\<close>

definition sampleTransport :: "storedPart list historyTransport" where
  "sampleTransport = \<lparr>ht_putPart = (\<lambda>room txn part s.
       if (room, txn) \<in> set (storedKeys s) then (Inr (Eff_done txn), s)
       else ((case part of Chunk_part _ (Suc 0) _ \<Rightarrow> Inr Eff_unknown | _ \<Rightarrow> Inr (Eff_done txn)), s @ [(room, txn, part)])),
     ht_findPart = (\<lambda>room txn s. (Inr (if (room, txn) \<in> set (storedKeys s) then Part_found txn else Part_absent), s)),
     ht_readParts = (\<lambda>room aid s. (Inr Sub_unavailable, s))\<rparr>"

lemma sampleTransport_dedup: "dedupTransport (\<lambda>s. s) sampleTransport"
  by (auto simp: dedupTransport_def sampleTransport_def storedKeys_snoc split: if_splits)

definition sampleJobs :: "(ustring \<times> importedPart) list" where
  "sampleJobs = (let part = \<lambda>i. Chunk_part (js ''a'') i \<lparr>hk_archiveId = js ''a'', hk_index = i, hk_records = [], hk_digest = []\<rparr> in
     [(js ''r'', part 0), (js ''r'', part 1), (js ''r'', part 1), (js ''r'', part 0)])"

lemma parts_stored_once_witness:
  "\<exists>rs w'. deliverAll sampleTransport sampleJobs [] = (rs, w') \<and> distinct (map (\<lambda>(room, _, part). (room, partName part)) w')"
proof -
  obtain rs w' where run: "deliverAll sampleTransport sampleJobs [] = (rs, w')" by fastforce
  then show ?thesis using parts_stored_once[OF sampleTransport_dedup refl run] by blast
qed

end
