(* ===== verification/BrowserDevice.thy ===== *)
theory BrowserDevice
  imports Identity StorePort
begin

text \<open>
  The browser device service (\<^verbatim>\<open>packages/messaging/src/browser-device/\<close>: \<^verbatim>\<open>lifecycle.ts\<close>, \<^verbatim>\<open>ownership.ts\<close>,
  \<^verbatim>\<open>transitions.ts\<close>, \<^verbatim>\<open>service.ts\<close>). Its asynchronous functions run interleaved, so every \<open>await\<close> is a state of the
  task that waits, and one event of \<open>devEvent\<close> is what resumes it: the answer of a port, a timer, or (\<open>Continue\<close>) the
  queue of settled promises reaching it. The code between two awaits is one step of \<open>devStep\<close>. The ports (identity,
  locks, credentials, stores, engines, markers) only appear through the answers that events carry.
\<close>

section \<open>Ports and views\<close>

record substrateSession =
  se_deviceId :: ustring
  se_publishedFingerprint :: "ustring option"
  se_credentials :: jsval

datatype credentialResolution =
    Credentials_ok substrateSession
  | Credentials_expired
  | Credentials_revoked ustring
  | Credentials_unavailable (recovery_required: bool)

datatype engineSignal = Signal_revoked | Signal_session_expired | Signal_storage_failed

record localIdentity =
  li_fingerprint :: ustring
  li_created :: bool

record identityMarker =
  im_deviceId :: ustring
  im_fingerprint :: ustring

datatype lockAcquisition = Lock_acquired | Lock_timeout | Lock_aborted | Lock_unsupported

text \<open>
  \<open>createWebLockProvider\<close>: what \<open>acquire\<close> resolves to, given whether the browser has a lock manager, whether the signal
  was aborted at the call, and how the request ended: granted, or rejected with the signal and the wait aborted or not.
\<close>

datatype lockRequest = Request_granted | Request_rejected (signal_aborted: bool) (wait_aborted: bool)

fun acquireWebLock :: "bool \<Rightarrow> bool \<Rightarrow> lockRequest \<Rightarrow> lockAcquisition" where
  "acquireWebLock manager aborted request =
     (if \<not> manager then Lock_unsupported
      else if aborted then Lock_aborted
      else case request of
        Request_granted \<Rightarrow> Lock_acquired
      | Request_rejected signalAborted waitAborted \<Rightarrow>
          if signalAborted then Lock_aborted else if waitAborted then Lock_timeout else Lock_unsupported)"

datatype deviceRejection = Device_owner_mismatch | Device_unsupported_environment

type_synonym deviceResult = "(deviceView, deviceRejection) operationResult"

definition makeView :: "deviceState \<Rightarrow> nat \<Rightarrow> ustring option \<Rightarrow> deviceReason option \<Rightarrow> deviceView" where
  "makeView state n deviceId reason =
     \<lparr>dv_deviceId = deviceId, dv_state = state, dv_generation = n, dv_reason = reason\<rparr>"

datatype identityDecision = Enrol | Resume | Lost deviceReason

definition checkIdentity :: "identityMarker option \<Rightarrow> substrateSession \<Rightarrow> localIdentity \<Rightarrow> identityDecision" where
  "checkIdentity marker session local =
     (let enrolled = (case marker of None \<Rightarrow> False | Some m \<Rightarrow> im_deviceId m = se_deviceId session) in
      if enrolled \<and> (im_fingerprint (the marker) \<noteq> li_fingerprint local \<or> li_created local) then Lost Storage_cleared
      else if se_publishedFingerprint session \<noteq> None \<and> se_publishedFingerprint session \<noteq> Some (li_fingerprint local)
        then Lost Key_material_missing
      else if enrolled then Resume else Enrol)"

definition sameSignedIn :: "identityState \<Rightarrow> authPrincipal \<Rightarrow> bool" where
  "sameSignedIn state holder \<longleftrightarrow>
     (case state of
        Signed_in who \<Rightarrow> ap_ownerId who = ap_ownerId holder \<and> sameProviderIdentity who holder
      | _ \<Rightarrow> False)"

section \<open>One generation\<close>

text \<open>
  The steps of a setup that run under \<open>step\<close>, with the variables the code after them still reads; how such a step
  settles; and where the setup of a generation stands. \<open>Settled\<close>, \<open>Confirmed_\<dots>\<close>, \<open>Adopted_\<dots>\<close> and \<open>Started\<close> wait for
  nothing but their turn in the queue.
\<close>

datatype stage =
    Stage_credentials
  | Stage_store substrateSession
  | Stage_engine substrateSession
  | Stage_identity substrateSession
  | Stage_marker substrateSession localIdentity

datatype stepValue =
    Got_credentials credentialResolution
  | Got_resource
  | Got_identity localIdentity "identityMarker option"
  | Got_stored

datatype stepOutcome = Fulfilled stepValue | Step_superseded | Step_failed

datatype setupState =
    Awaiting_lock
  | Confirming_lock
  | Confirmed_lock
  | Awaiting stage
  | Settled stage stepOutcome
  | Late_closing
  | Adopted_store substrateSession
  | Adopted_engine substrateSession
  | Starting substrateSession
  | Started substrateSession bool
  | Confirming_ready substrateSession
  | Confirmed_ready substrateSession
  | Finishing deviceResult
  | Setup_done deviceResult

datatype stepKind = For_credentials | For_store | For_engine | For_identity | For_marker

fun stageKind :: "stage \<Rightarrow> stepKind" where
  "stageKind Stage_credentials = For_credentials"
| "stageKind (Stage_store _) = For_store"
| "stageKind (Stage_engine _) = For_engine"
| "stageKind (Stage_identity _) = For_identity"
| "stageKind (Stage_marker _ _) = For_marker"

text \<open>
  A step's promise as a straggler of its generation: running (given up on after the time limit or not), closing a
  resource that came too late, or ending; a settled one has left the set.
\<close>

datatype stepState = Step_none | Step_running bool | Step_closing | Step_ending | Step_settled

text \<open>
  \<open>closeResources\<close>: waiting for the engine, for the stragglers, or for the store (detached from its caller or not), each
  with what is still held; given up on an engine that does not close; finished.
\<close>

datatype closing =
    Not_closing
  | Closing_engine bool bool
  | Closing_steps bool bool
  | Closing_store bool bool
  | Close_stuck
  | Closed

text \<open>
  A generation. \<open>g_lease\<close>, \<open>g_store\<close> and \<open>g_engine\<close> are the fields of the code. The last six fields observe the world:
  whether the adopted resources are still held or open, whether an engine was opened after the generation had ended,
  what the identity check was given when it accepted, which marker was stored, and whether \<open>start\<close> was called.
\<close>

record devGeneration =
  g_principal :: authPrincipal
  g_generation :: nat
  g_aborted :: bool
  g_deviceId :: "ustring option"
  g_lease :: bool
  g_store :: bool
  g_engine :: bool
  g_disposers :: "nat list"
  g_steps :: "stepKind \<Rightarrow> stepState"
  g_setup :: setupState
  g_closing :: closing
  g_leaseHeld :: bool
  g_storeOpen :: bool
  g_engineOpen :: bool
  g_leaked :: bool
  g_checked :: "(identityMarker option \<times> substrateSession \<times> localIdentity) option"
  g_enrolled :: "identityMarker option"
  g_started :: bool

abbreviation g_ownerId :: "devGeneration \<Rightarrow> ustring" where
  "g_ownerId g \<equiv> ap_ownerId (g_principal g)"

definition openGeneration :: "authPrincipal \<Rightarrow> nat \<Rightarrow> ustring option \<Rightarrow> devGeneration" where
  "openGeneration holder n deviceId =
     \<lparr>g_principal = holder, g_generation = n, g_aborted = False, g_deviceId = deviceId,
      g_lease = False, g_store = False, g_engine = False, g_disposers = [], g_steps = (\<lambda>_. Step_none),
      g_setup = Awaiting_lock, g_closing = Not_closing, g_leaseHeld = False, g_storeOpen = False,
      g_engineOpen = False, g_leaked = False, g_checked = None, g_enrolled = None, g_started = False\<rparr>"

definition genLive :: "devGeneration \<Rightarrow> bool" where
  "genLive g \<longleftrightarrow> \<not> g_aborted g"

text \<open>\<open>onEnd\<close>: a projection wipe is registered, or runs at once when the generation has ended (second component).\<close>

definition onEnd :: "nat \<Rightarrow> devGeneration \<Rightarrow> devGeneration \<times> bool" where
  "onEnd dispose g = (if \<not> genLive g then (g, True) else (g\<lparr>g_disposers := g_disposers g @ [dispose]\<rparr>, False))"

fun straggling :: "stepState \<Rightarrow> bool" where
  "straggling Step_none = False"
| "straggling Step_settled = False"
| "straggling _ = True"

definition hasStragglers :: "devGeneration \<Rightarrow> bool" where
  "hasStragglers g \<longleftrightarrow>
     list_ex (\<lambda>k. straggling (g_steps g k)) [For_credentials, For_store, For_engine, For_identity, For_marker]"

definition dropLease :: "bool \<Rightarrow> devGeneration \<Rightarrow> devGeneration" where
  "dropLease lease g = g\<lparr>g_leaseHeld := (g_leaseHeld g \<and> \<not> lease), g_closing := Closed\<rparr>"

text \<open>The inner \<open>finish\<close> of \<open>closeResources\<close>, and what follows once the engine has closed.\<close>

definition closeStore :: "bool \<Rightarrow> bool \<Rightarrow> bool \<Rightarrow> devGeneration \<Rightarrow> devGeneration" where
  "closeStore detached store lease g =
     (if store then g\<lparr>g_closing := Closing_store detached lease\<rparr> else dropLease lease g)"

definition closeRest :: "bool \<Rightarrow> bool \<Rightarrow> devGeneration \<Rightarrow> devGeneration" where
  "closeRest store lease g =
     (if hasStragglers g then g\<lparr>g_closing := Closing_steps store lease\<rparr> else closeStore False store lease g)"

definition closeResources :: "devGeneration \<Rightarrow> devGeneration" where
  "closeResources g =
     (let g' = g\<lparr>g_engine := False, g_store := False, g_lease := False\<rparr> in
      if g_engine g then g'\<lparr>g_closing := Closing_engine (g_store g) (g_lease g)\<rparr>
      else closeRest (g_store g) (g_lease g) g')"

definition endGeneration :: "devGeneration \<Rightarrow> devGeneration" where
  "endGeneration g = closeResources (g\<lparr>g_aborted := True, g_disposers := []\<rparr>)"

text \<open>Whether the promise of \<open>endGeneration\<close> has settled: it does not wait for stragglers.\<close>

fun closeSettled :: "closing \<Rightarrow> bool" where
  "closeSettled (Closing_steps _ _) = True"
| "closeSettled (Closing_store detached _) = detached"
| "closeSettled Close_stuck = True"
| "closeSettled Closed = True"
| "closeSettled _ = False"

fun closeLate :: "stepKind \<Rightarrow> bool" where
  "closeLate For_store = True"
| "closeLate For_engine = True"
| "closeLate _ = False"

text \<open>
  \<open>step\<close>: registered as a straggler, or refused when the generation has ended. The port was called either way: an engine
  that a refused step had begun to open is nobody's to close.
\<close>

definition startStep :: "stage \<Rightarrow> devGeneration \<Rightarrow> devGeneration" where
  "startStep st g =
     (if \<not> genLive g then g\<lparr>g_leaked := (g_leaked g \<or> stageKind st = For_engine), g_setup := Settled st Step_superseded\<rparr>
      else g\<lparr>g_steps := (g_steps g)(stageKind st := Step_running False), g_setup := Awaiting st\<rparr>)"

text \<open>The promise settles: first the straggler's callback, then the one that settles the step unless it was given up on.\<close>

definition stepSettles :: "stepKind \<Rightarrow> stepValue option \<Rightarrow> devGeneration \<Rightarrow> devGeneration option" where
  "stepSettles k answer g =
     (case g_steps g k of
        Step_running abandoned \<Rightarrow>
          (let g' = g\<lparr>g_steps := (g_steps g)(k :=
               (if answer \<noteq> None \<and> closeLate k \<and> (abandoned \<or> \<not> genLive g) then Step_closing else Step_ending))\<rparr> in
           if abandoned then Some g'
           else case g_setup g of
             Awaiting st \<Rightarrow>
               Some (g'\<lparr>g_setup := Settled st (case answer of
                 Some v \<Rightarrow> if genLive g then Fulfilled v else Step_superseded | None \<Rightarrow> Step_failed)\<rparr>)
           | _ \<Rightarrow> None)
      | _ \<Rightarrow> None)"

definition stepTimesOut :: "devGeneration \<Rightarrow> devGeneration option" where
  "stepTimesOut g =
     (case g_setup g of
        Awaiting st \<Rightarrow>
          Some (g\<lparr>g_steps := (g_steps g)(stageKind st := Step_running True), g_setup := Settled st Step_failed\<rparr>)
      | _ \<Rightarrow> None)"

text \<open>The late resource has closed, and the straggler leaves the set a turn of the queue later.\<close>

definition stragglerMoves :: "stepKind \<Rightarrow> devGeneration \<Rightarrow> devGeneration option" where
  "stragglerMoves k g =
     (case g_steps g k of
        Step_closing \<Rightarrow> Some (g\<lparr>g_steps := (g_steps g)(k := Step_ending)\<rparr>)
      | Step_ending \<Rightarrow> Some (g\<lparr>g_steps := (g_steps g)(k := Step_settled)\<rparr>)
      | _ \<Rightarrow> None)"

text \<open>The waits of \<open>closeResources\<close>: \<open>engine.close()\<close> settling or its bound elapsing, the stragglers, \<open>store.close()\<close>.\<close>

definition engineCloses :: "bool \<Rightarrow> devGeneration \<Rightarrow> devGeneration option" where
  "engineCloses settled g =
     (case g_closing g of
        Closing_engine store lease \<Rightarrow>
          Some (if settled then closeRest store lease (g\<lparr>g_engineOpen := False\<rparr>) else g\<lparr>g_closing := Close_stuck\<rparr>)
      | _ \<Rightarrow> None)"

definition stragglersSettle :: "devGeneration \<Rightarrow> devGeneration option" where
  "stragglersSettle g =
     (case g_closing g of
        Closing_steps store lease \<Rightarrow> if hasStragglers g then None else Some (closeStore True store lease g)
      | _ \<Rightarrow> None)"

definition storeCloses :: "devGeneration \<Rightarrow> devGeneration option" where
  "storeCloses g =
     (case g_closing g of
        Closing_store _ lease \<Rightarrow> Some (dropLease lease (g\<lparr>g_storeOpen := False\<rparr>))
      | _ \<Rightarrow> None)"

text \<open>\<open>adopt\<close>: a resource is attached, or closed at once when the generation has ended.\<close>

definition adoptStore :: "substrateSession \<Rightarrow> devGeneration \<Rightarrow> devGeneration" where
  "adoptStore session g =
     (if genLive g then g\<lparr>g_store := True, g_storeOpen := True, g_setup := Adopted_store session\<rparr>
      else g\<lparr>g_setup := Late_closing\<rparr>)"

definition adoptEngine :: "substrateSession \<Rightarrow> devGeneration \<Rightarrow> devGeneration" where
  "adoptEngine session g =
     (if genLive g then g\<lparr>g_engine := True, g_engineOpen := True, g_setup := Adopted_engine session\<rparr>
      else g\<lparr>g_setup := Late_closing\<rparr>)"

section \<open>The service\<close>

text \<open>
  Calls of \<open>ensureReady\<close> run in requests: waiting for the identity, for a generation of somebody else to close, in the loops of
  \<open>signedOut\<close> and \<open>initialise\<close> for the previous generation to close, or in the setup of the generation they opened.
  \<open>acceptLoss\<close> waits for the marker store, \<open>use\<close> for a pending request, the identity, its operation and the identity again.
\<close>

datatype devRequest =
    Req_identity ustring nat
  | Req_dropping nat
  | Req_signing_out nat "ustring option" "ustring option" nat
  | Req_retiring authPrincipal nat bool nat
  | Req_setup nat
  | Req_done deviceResult

datatype lossRejection = Loss_owner_mismatch | Loss_not_lost

datatype lossTask = Loss_clearing ustring nat | Loss_done "(deviceView, lossRejection) operationResult"

datatype useRejection = Use_not_ready | Use_owner_mismatch | Use_operation_failed

type_synonym useResult = "(jsval, useRejection) operationResult"

datatype useTask =
    Use_waiting ustring nat
  | Use_before ustring nat
  | Use_confirmed ustring nat
  | Use_running ustring nat
  | Use_after ustring nat jsval
  | Use_refusing nat useRejection
  | Use_done useResult

record devService =
  ds_view :: deviceView
  ds_viewOwner :: "ustring option"
  ds_live :: "nat option"
  ds_inflight :: "(ustring \<times> nat) option"
  ds_epoch :: nat
  ds_gens :: "devGeneration list"
  ds_requests :: "devRequest list"
  ds_losses :: "lossTask list"
  ds_uses :: "useTask list"
  ds_published :: "deviceView list"

definition createBrowserDeviceService :: devService where
  "createBrowserDeviceService =
     \<lparr>ds_view = makeView Dev_new 0 None None, ds_viewOwner = None, ds_live = None, ds_inflight = None, ds_epoch = 0,
      ds_gens = [], ds_requests = [], ds_losses = [], ds_uses = [], ds_published = []\<rparr>"

abbreviation genOf :: "devService \<Rightarrow> nat \<Rightarrow> devGeneration" where
  "genOf S i \<equiv> ds_gens S ! i"

definition updGen :: "nat \<Rightarrow> (devGeneration \<Rightarrow> devGeneration) \<Rightarrow> devService \<Rightarrow> devService" where
  "updGen i f S = S\<lparr>ds_gens := (ds_gens S)[i := f (genOf S i)]\<rparr>"

definition setSetup :: "nat \<Rightarrow> setupState \<Rightarrow> devService \<Rightarrow> devService" where
  "setSetup i st = updGen i (\<lambda>g. g\<lparr>g_setup := st\<rparr>)"

definition setRequest :: "nat \<Rightarrow> devRequest \<Rightarrow> devService \<Rightarrow> devService" where
  "setRequest q r S = S\<lparr>ds_requests := (ds_requests S)[q := r]\<rparr>"

text \<open>Every listener registered by \<open>observe\<close> receives the views in the order of \<open>ds_published\<close>.\<close>

definition publish :: "deviceView \<Rightarrow> ustring option \<Rightarrow> devService \<Rightarrow> devService" where
  "publish v owner S = S\<lparr>ds_view := v, ds_viewOwner := owner, ds_published := ds_published S @ [v]\<rparr>"

definition locked :: "nat \<Rightarrow> ustring option \<Rightarrow> deviceView" where
  "locked n deviceId =
     (if deviceId \<noteq> None then makeView Dev_locked n deviceId (Some deviceReason.Signed_out)
      else makeView Dev_failed n None (Some deviceReason.Signed_out))"

definition cleared :: "devGeneration \<Rightarrow> deviceView" where
  "cleared g = makeView Dev_new (g_generation g + 1) None None"

definition settleOrphan :: "devService \<Rightarrow> devService" where
  "settleOrphan S =
     (if ds_live S = None \<and> (dv_state (ds_view S) = Dev_ready \<or> dv_state (ds_view S) = Dev_initializing)
      then publish (makeView Dev_new (dv_generation (ds_view S) + 1) None None) None S else S)"

definition retireGeneration :: "nat \<Rightarrow> devService \<Rightarrow> devService" where
  "retireGeneration i S = updGen i endGeneration (S\<lparr>ds_live := None\<rparr>)"

text \<open>\<open>finish\<close> up to its await, or None where it throws \<open>Superseded\<close>.\<close>

definition finish :: "nat \<Rightarrow> deviceView \<Rightarrow> ustring option \<Rightarrow> devService \<Rightarrow> devService option" where
  "finish i v owner S =
     (if ds_live S \<noteq> Some i then None else Some (publish v owner (retireGeneration i S)))"

definition onEngineSignal :: "nat \<Rightarrow> engineSignal \<Rightarrow> devService \<Rightarrow> devService" where
  "onEngineSignal i sig S =
     (let g = genOf S i;
          v = (case sig of
            Signal_revoked \<Rightarrow> makeView Dev_revoked (g_generation g + 1) (g_deviceId g) (Some Revoked_by_owner)
          | Signal_session_expired \<Rightarrow> locked (g_generation g) (g_deviceId g)
          | Signal_storage_failed \<Rightarrow> makeView Dev_failed (g_generation g) (g_deviceId g) (Some Storage_unavailable)) in
      case finish i v (Some (g_ownerId g)) S of None \<Rightarrow> S | Some S' \<Rightarrow> S')"

section \<open>The setup of a generation\<close>

text \<open>The \<open>catch\<close> of \<open>initialise\<close>, for \<open>Superseded\<close> and for any other error.\<close>

definition superseded :: "nat \<Rightarrow> devService \<Rightarrow> devService" where
  "superseded i S =
     setSetup i (Setup_done (if ds_viewOwner S = Some (g_ownerId (genOf S i)) \<and> dv_state (ds_view S) \<noteq> Dev_initializing
       then Op_ok (ds_view S) else Op_unavailable)) S"

definition finishSetup :: "nat \<Rightarrow> deviceView \<Rightarrow> ustring option \<Rightarrow> deviceResult \<Rightarrow> devService \<Rightarrow> devService" where
  "finishSetup i v owner result S =
     (case finish i v owner S of None \<Rightarrow> superseded i S | Some S' \<Rightarrow> setSetup i (Finishing result) S')"

definition failView :: "devGeneration \<Rightarrow> deviceReason \<Rightarrow> deviceView" where
  "failView g reason = makeView Dev_failed (g_generation g) (g_deviceId g) (Some reason)"

definition failSetup :: "nat \<Rightarrow> deviceReason \<Rightarrow> deviceResult \<Rightarrow> devService \<Rightarrow> devService" where
  "failSetup i reason result S =
     finishSetup i (failView (genOf S i) reason) (Some (g_ownerId (genOf S i))) result S"

text \<open>\<open>return ok(await finish(\<dots>))\<close> for a view of the generation's own owner.\<close>

definition finishOk :: "nat \<Rightarrow> deviceView \<Rightarrow> devService \<Rightarrow> devService" where
  "finishOk i v S = finishSetup i v (Some (g_ownerId (genOf S i))) (Op_ok v) S"

definition caught :: "nat \<Rightarrow> devService \<Rightarrow> devService" where
  "caught i S =
     (if ds_live S \<noteq> Some i then superseded i S
      else finishOk i (failView (genOf S i) Initialization_failed) S)"

definition afterLock :: "nat \<Rightarrow> lockAcquisition \<Rightarrow> devService \<Rightarrow> devService" where
  "afterLock i acquisition S =
     (case acquisition of
        Lock_unsupported \<Rightarrow> failSetup i Unsupported_environment (Op_rejected Device_unsupported_environment) S
      | Lock_aborted \<Rightarrow> superseded i S
      | Lock_timeout \<Rightarrow> failSetup i Lease_unavailable Op_unavailable S
      | Lock_acquired \<Rightarrow>
          if genLive (genOf S i)
          then updGen i (\<lambda>g. g\<lparr>g_lease := True, g_leaseHeld := True, g_setup := Confirming_lock\<rparr>) S
          else superseded i S)"

definition confirmIdentity :: "nat \<Rightarrow> setupState \<Rightarrow> identityState \<Rightarrow> devService \<Rightarrow> devService" where
  "confirmIdentity i confirmed state S =
     (let g = genOf S i in
      if \<not> genLive g then superseded i S
      else if sameSignedIn state (g_principal g) then setSetup i confirmed S
      else case state of
        identityState.Signed_out \<Rightarrow> finishOk i (locked (g_generation g) (g_deviceId g)) S
      | Identity_unavailable \<Rightarrow> failSetup i Initialization_failed Op_unavailable S
      | Signed_in _ \<Rightarrow> finishSetup i (cleared g) None (Op_rejected Device_owner_mismatch) S)"

definition afterCredentials :: "nat \<Rightarrow> credentialResolution \<Rightarrow> devService \<Rightarrow> devService" where
  "afterCredentials i credentials S =
     (let g = genOf S i in
      if \<not> genLive g then superseded i S
      else case credentials of
        Credentials_expired \<Rightarrow> finishOk i (locked (g_generation g) (g_deviceId g)) S
      | Credentials_revoked deviceId \<Rightarrow>
          finishOk i (makeView Dev_revoked (g_generation g + 1) (Some deviceId) (Some Revoked_by_owner))
            (updGen i (\<lambda>g. g\<lparr>g_deviceId := Some deviceId\<rparr>) S)
      | Credentials_unavailable recovery \<Rightarrow>
          failSetup i (if recovery then Recovery_required else Initialization_failed) Op_unavailable S
      | Credentials_ok session \<Rightarrow>
          updGen i (\<lambda>g. startStep (Stage_store session) (g\<lparr>g_deviceId := Some (se_deviceId session)\<rparr>)) S)"

definition startEngine :: "nat \<Rightarrow> substrateSession \<Rightarrow> devService \<Rightarrow> devService" where
  "startEngine i session = updGen i (\<lambda>g. g\<lparr>g_started := True, g_setup := Starting session\<rparr>)"

definition afterIdentity :: "nat \<Rightarrow> substrateSession \<Rightarrow> localIdentity \<Rightarrow> identityMarker option \<Rightarrow> devService \<Rightarrow> devService" where
  "afterIdentity i session local marker S =
     (let g = genOf S i in
      if \<not> genLive g then superseded i S
      else case checkIdentity marker session local of
        Lost reason \<Rightarrow> finishOk i (makeView Dev_lost (g_generation g) (Some (se_deviceId session)) (Some reason)) S
      | Enrol \<Rightarrow> updGen i (\<lambda>g. startStep (Stage_marker session local) (g\<lparr>g_checked := Some (marker, session, local)\<rparr>)) S
      | Resume \<Rightarrow> startEngine i session (updGen i (\<lambda>g. g\<lparr>g_checked := Some (marker, session, local)\<rparr>) S))"

text \<open>The \<open>catch\<close> blocks around the store, the engine and the marker.\<close>

definition failedStep :: "nat \<Rightarrow> deviceReason \<Rightarrow> devService \<Rightarrow> devService" where
  "failedStep i reason S =
     (if \<not> genLive (genOf S i) then superseded i S else finishOk i (failView (genOf S i) reason) S)"

fun afterStep :: "nat \<Rightarrow> stage \<Rightarrow> stepOutcome \<Rightarrow> devService \<Rightarrow> devService option" where
  "afterStep i Stage_credentials (Fulfilled (Got_credentials c)) S = Some (afterCredentials i c S)"
| "afterStep i (Stage_store session) (Fulfilled Got_resource) S = Some (updGen i (adoptStore session) S)"
| "afterStep i (Stage_engine session) (Fulfilled Got_resource) S = Some (updGen i (adoptEngine session) S)"
| "afterStep i (Stage_identity session) (Fulfilled (Got_identity local marker)) S =
     Some (afterIdentity i session local marker S)"
| "afterStep i (Stage_marker session local) (Fulfilled Got_stored) S =
     (let S' = updGen i (\<lambda>g. g\<lparr>g_enrolled := Some \<lparr>im_deviceId = se_deviceId session, im_fingerprint = li_fingerprint local\<rparr>\<rparr>) S in
      Some (if \<not> genLive (genOf S i) then superseded i S' else startEngine i session S'))"
| "afterStep i _ (Fulfilled _) S = None"
| "afterStep i Stage_credentials Step_superseded S = Some (superseded i S)"
| "afterStep i Stage_credentials Step_failed S = Some (caught i S)"
| "afterStep i (Stage_identity _) Step_superseded S = Some (superseded i S)"
| "afterStep i (Stage_identity _) Step_failed S = Some (caught i S)"
| "afterStep i (Stage_store _) _ S = Some (failedStep i Storage_unavailable S)"
| "afterStep i (Stage_engine _) _ S = Some (failedStep i Initialization_failed S)"
| "afterStep i (Stage_marker _ _) _ S = Some (failedStep i Storage_unavailable S)"

text \<open>The queue reaches the setup of a generation; after the last confirmation the view is published without another check.\<close>

definition continueSetup :: "nat \<Rightarrow> devService \<Rightarrow> devService option" where
  "continueSetup i S =
     (let g = genOf S i in
      case g_setup g of
        Confirmed_lock \<Rightarrow> Some (updGen i (startStep Stage_credentials) S)
      | Settled st outcome \<Rightarrow> afterStep i st outcome S
      | Adopted_store session \<Rightarrow> Some (updGen i (startStep (Stage_engine session)) S)
      | Adopted_engine session \<Rightarrow> Some (updGen i (startStep (Stage_identity session)) S)
      | Started session fulfilled \<Rightarrow>
          Some (if \<not> fulfilled then caught i S
                else if \<not> genLive g then superseded i S
                else setSetup i (Confirming_ready session) S)
      | Confirmed_ready session \<Rightarrow>
          (let v = makeView Dev_ready (g_generation g) (Some (se_deviceId session)) None in
           Some (setSetup i (Setup_done (Op_ok v)) (publish v (Some (g_ownerId g)) S)))
      | Finishing result \<Rightarrow>
          if closeSettled (g_closing g) then Some (setSetup i (Setup_done result) S) else None
      | _ \<Rightarrow> None)"

definition setupIdentity :: "nat \<Rightarrow> identityState \<Rightarrow> devService \<Rightarrow> devService option" where
  "setupIdentity i state S =
     (case g_setup (genOf S i) of
        Confirming_lock \<Rightarrow> Some (confirmIdentity i Confirmed_lock state S)
      | Confirming_ready session \<Rightarrow> Some (confirmIdentity i (Confirmed_ready session) state S)
      | _ \<Rightarrow> None)"

text \<open>\<open>engine.start\<close> fulfils or rejects in time, or (None) its bound elapses.\<close>

definition engineStarts :: "nat \<Rightarrow> bool option \<Rightarrow> devService \<Rightarrow> devService option" where
  "engineStarts i answer S =
     (case g_setup (genOf S i) of
        Starting session \<Rightarrow>
          Some (case answer of
            Some fulfilled \<Rightarrow> setSetup i (Started session fulfilled) S
          | None \<Rightarrow> finishOk i (failView (genOf S i) Initialization_failed) S)
      | _ \<Rightarrow> None)"

section \<open>Requests\<close>

text \<open>The loop of \<open>signedOut\<close>, entered and after each \<open>await retire()\<close>.\<close>

definition signedOutLoop :: "nat \<Rightarrow> nat \<Rightarrow> ustring option \<Rightarrow> ustring option \<Rightarrow> devService \<Rightarrow> devService" where
  "signedOutLoop q requested deviceId owner S =
     (case ds_live S of
        Some i \<Rightarrow>
          if requested \<noteq> ds_epoch S then setRequest q (Req_done Op_unavailable) S
          else setRequest q (Req_signing_out requested deviceId owner i) (retireGeneration i S)
      | None \<Rightarrow>
          if requested \<noteq> ds_epoch S then setRequest q (Req_done Op_unavailable) (settleOrphan S)
          else if dv_state (ds_view S) = Dev_lost \<or> dv_state (ds_view S) = Dev_revoked
            then setRequest q (Req_done (Op_ok (ds_view S))) S
          else (let v = locked (dv_generation (ds_view S)) deviceId in
                setRequest q (Req_done (Op_ok v)) (publish v owner S)))"

definition signedOut :: "nat \<Rightarrow> nat \<Rightarrow> devService \<Rightarrow> devService" where
  "signedOut q requested S =
     signedOutLoop q requested (if ds_viewOwner S \<noteq> None then dv_deviceId (ds_view S) else None) (ds_viewOwner S) S"

text \<open>The loop of \<open>initialise\<close>, and the generation it opens.\<close>

definition initialiseLoop :: "nat \<Rightarrow> authPrincipal \<Rightarrow> nat \<Rightarrow> bool \<Rightarrow> devService \<Rightarrow> devService" where
  "initialiseLoop q holder requested sameOwner S =
     (case ds_live S of
        Some i \<Rightarrow>
          if requested \<noteq> ds_epoch S then setRequest q (Req_done Op_unavailable) S
          else setRequest q (Req_retiring holder requested sameOwner i) (retireGeneration i S)
      | None \<Rightarrow>
          if requested \<noteq> ds_epoch S then setRequest q (Req_done Op_unavailable) (settleOrphan S)
          else
            (let i = length (ds_gens S);
                 g = openGeneration holder (dv_generation (ds_view S) + 1)
                   (if sameOwner then dv_deviceId (ds_view S) else None) in
             setRequest q (Req_setup i)
               (publish (makeView Dev_initializing (g_generation g) (g_deviceId g) None) (Some (g_ownerId g))
                 (S\<lparr>ds_gens := ds_gens S @ [g], ds_live := Some i\<rparr>))))"

definition initialise :: "nat \<Rightarrow> authPrincipal \<Rightarrow> nat \<Rightarrow> devService \<Rightarrow> devService" where
  "initialise q holder requested S =
     (let sameOwner = (ds_viewOwner S = Some (ap_ownerId holder)) in
      if sameOwner \<and> (case ds_live S of None \<Rightarrow> False | Some i \<Rightarrow>
             dv_state (ds_view S) = Dev_ready \<and> sameProviderIdentity (g_principal (genOf S i)) holder)
        then setRequest q (Req_done (Op_ok (ds_view S))) S
      else if sameOwner \<and> (dv_state (ds_view S) = Dev_lost \<or> dv_state (ds_view S) = Dev_revoked)
        then setRequest q (Req_done (Op_ok (ds_view S))) S
      else initialiseLoop q holder requested sameOwner S)"

text \<open>\<open>dropOthers\<close> and the refusal after it; its wait for the ended generation is a state of the request.\<close>

definition dropOthers :: "nat \<Rightarrow> authPrincipal \<Rightarrow> devService \<Rightarrow> devService" where
  "dropOthers q holder S =
     (let refused = Req_done (Op_rejected Device_owner_mismatch) in
      case ds_live S of
        Some i \<Rightarrow>
          (let g = genOf S i in
           if g_ownerId g = ap_ownerId holder \<and> sameProviderIdentity (g_principal g) holder then setRequest q refused S
           else case finish i (cleared g) None S of
             None \<Rightarrow> setRequest q refused S
           | Some S' \<Rightarrow> setRequest q (Req_dropping i) S')
      | None \<Rightarrow>
          if ds_viewOwner S \<noteq> None \<and> ds_viewOwner S \<noteq> Some (ap_ownerId holder)
          then setRequest q refused (publish (makeView Dev_new (dv_generation (ds_view S) + 1) None None) None S)
          else setRequest q refused S)"

text \<open>\<open>ensure\<close> once the identity is known.\<close>

definition ensure :: "nat \<Rightarrow> ustring \<Rightarrow> nat \<Rightarrow> identityState \<Rightarrow> devService \<Rightarrow> devService" where
  "ensure q owner requested identity S =
     (if requested \<noteq> ds_epoch S then setRequest q (Req_done Op_unavailable) S
      else case identity of
        Identity_unavailable \<Rightarrow> setRequest q (Req_done Op_unavailable) S
      | identityState.Signed_out \<Rightarrow> signedOut q requested S
      | Signed_in who \<Rightarrow>
          if ap_ownerId who \<noteq> owner then dropOthers q who S else initialise q who requested S)"

text \<open>\<open>track\<close>: the call joins the owner's request in flight or starts one.\<close>

definition track :: "ustring \<Rightarrow> devService \<Rightarrow> devService" where
  "track owner S =
     (if (case ds_inflight S of None \<Rightarrow> False | Some (u, _) \<Rightarrow> u = owner) then S
      else S\<lparr>ds_epoch := ds_epoch S + 1, ds_inflight := Some (owner, length (ds_requests S)),
             ds_requests := ds_requests S @ [Req_identity owner (ds_epoch S + 1)]\<rparr>)"

definition continueRequest :: "nat \<Rightarrow> devService \<Rightarrow> devService option" where
  "continueRequest q S =
     (case ds_requests S ! q of
        Req_dropping i \<Rightarrow>
          if closeSettled (g_closing (genOf S i))
          then Some (setRequest q (Req_done (Op_rejected Device_owner_mismatch)) S) else None
      | Req_signing_out requested deviceId owner i \<Rightarrow>
          if closeSettled (g_closing (genOf S i)) then Some (signedOutLoop q requested deviceId owner S) else None
      | Req_retiring holder requested sameOwner i \<Rightarrow>
          if closeSettled (g_closing (genOf S i)) then Some (initialiseLoop q holder requested sameOwner S) else None
      | Req_setup i \<Rightarrow>
          (case g_setup (genOf S i) of
             Setup_done result \<Rightarrow> Some (setRequest q (Req_done result) S)
           | _ \<Rightarrow> None)
      | _ \<Rightarrow> None)"

text \<open>The \<open>finally\<close> of \<open>track\<close>.\<close>

definition settleRequest :: "nat \<Rightarrow> devService \<Rightarrow> devService option" where
  "settleRequest q S =
     (case ds_requests S ! q of
        Req_done _ \<Rightarrow>
          Some (if (case ds_inflight S of None \<Rightarrow> False | Some (_, r) \<Rightarrow> r = q) then S\<lparr>ds_inflight := None\<rparr> else S)
      | _ \<Rightarrow> None)"

definition stop :: "devService \<Rightarrow> devService" where
  "stop S =
     (let v = makeView Dev_new (dv_generation (ds_view S) + 1) None None;
          S' = S\<lparr>ds_epoch := ds_epoch S + 1, ds_inflight := None\<rparr> in
      publish v None (case ds_live S of None \<Rightarrow> S' | Some i \<Rightarrow> retireGeneration i S'))"

definition acceptLoss :: "ustring \<Rightarrow> devService \<Rightarrow> devService" where
  "acceptLoss owner S =
     (if ds_viewOwner S \<noteq> Some owner then S\<lparr>ds_losses := ds_losses S @ [Loss_done (Op_rejected Loss_owner_mismatch)]\<rparr>
      else if dv_state (ds_view S) \<noteq> Dev_lost then S\<lparr>ds_losses := ds_losses S @ [Loss_done (Op_rejected Loss_not_lost)]\<rparr>
      else S\<lparr>ds_epoch := ds_epoch S + 1, ds_losses := ds_losses S @ [Loss_clearing owner (ds_epoch S + 1)]\<rparr>)"

definition markerCleared :: "nat \<Rightarrow> bool \<Rightarrow> devService \<Rightarrow> devService option" where
  "markerCleared a fulfilled S =
     (case ds_losses S ! a of
        Loss_clearing owner requested \<Rightarrow>
          Some (if \<not> fulfilled \<or> requested \<noteq> ds_epoch S \<or> ds_viewOwner S \<noteq> Some owner \<or> dv_state (ds_view S) \<noteq> Dev_lost
                then S\<lparr>ds_losses := (ds_losses S)[a := Loss_done Op_unavailable]\<rparr>
                else (let v = makeView Dev_new (dv_generation (ds_view S)) None None in
                      publish v (Some owner) (S\<lparr>ds_losses := (ds_losses S)[a := Loss_done (Op_ok v)]\<rparr>)))
      | Loss_done _ \<Rightarrow> None)"

section \<open>Using the engine\<close>

definition setUse :: "nat \<Rightarrow> useTask \<Rightarrow> devService \<Rightarrow> devService" where
  "setUse u t S = S\<lparr>ds_uses := (ds_uses S)[u := t]\<rparr>"

text \<open>\<open>use\<close> from the point where no request of the owner is pending to the first confirmation.\<close>

definition enterUse :: "ustring \<Rightarrow> devService \<Rightarrow> useTask" where
  "enterUse owner S =
     (let refused = Use_done (Op_rejected
        (if ds_viewOwner S \<noteq> None \<and> ds_viewOwner S \<noteq> Some owner then Use_owner_mismatch else Use_not_ready)) in
      case ds_live S of
        None \<Rightarrow> refused
      | Some i \<Rightarrow>
          (let g = genOf S i in
           if dv_state (ds_view S) \<noteq> Dev_ready \<or> \<not> g_engine g \<or> g_deviceId g = None then refused
           else if g_ownerId g \<noteq> owner then Use_done (Op_rejected Use_owner_mismatch)
           else Use_before owner i))"

definition startUse :: "ustring \<Rightarrow> devService \<Rightarrow> devService" where
  "startUse owner S =
     S\<lparr>ds_uses := ds_uses S @ [
        (case ds_inflight S of
           Some (u, q) \<Rightarrow> if u = owner then Use_waiting owner q else enterUse owner S
         | None \<Rightarrow> enterUse owner S)]\<rparr>"

text \<open>\<open>confirmHolder\<close>: \<open>confirmed\<close> is where the task goes when the holder is confirmed.\<close>

definition confirmHolder :: "nat \<Rightarrow> nat \<Rightarrow> useTask \<Rightarrow> identityState \<Rightarrow> devService \<Rightarrow> devService" where
  "confirmHolder u i confirmed state S =
     (let g = genOf S i in
      if \<not> genLive g then setUse u (Use_done (Op_rejected Use_not_ready)) S
      else if sameSignedIn state (g_principal g) then setUse u confirmed S
      else if state = Identity_unavailable then setUse u (Use_done Op_unavailable) S
      else
        (let signedOut = (state = identityState.Signed_out);
             v = (if signedOut then locked (g_generation g) (g_deviceId g) else cleared g);
             owner = (if signedOut then Some (g_ownerId g) else None);
             refusal = (if signedOut then Use_not_ready else Use_owner_mismatch) in
         case finish i v owner S of
           None \<Rightarrow> setUse u (Use_done (Op_rejected refusal)) S
         | Some S' \<Rightarrow> setUse u (Use_refusing i refusal) S'))"

definition useIdentity :: "nat \<Rightarrow> identityState \<Rightarrow> devService \<Rightarrow> devService option" where
  "useIdentity u state S =
     (case ds_uses S ! u of
        Use_before owner i \<Rightarrow> Some (confirmHolder u i (Use_confirmed owner i) state S)
      | Use_after owner i output \<Rightarrow> Some (confirmHolder u i (Use_done (Op_ok output)) state S)
      | _ \<Rightarrow> None)"

definition continueUse :: "nat \<Rightarrow> devService \<Rightarrow> devService option" where
  "continueUse u S =
     (case ds_uses S ! u of
        Use_waiting owner q \<Rightarrow>
          (case ds_requests S ! q of Req_done _ \<Rightarrow> Some (setUse u (enterUse owner S) S) | _ \<Rightarrow> None)
      | Use_confirmed owner i \<Rightarrow> Some (setUse u (Use_running owner i) S)
      | Use_refusing i refusal \<Rightarrow>
          if closeSettled (g_closing (genOf S i)) then Some (setUse u (Use_done (Op_rejected refusal)) S) else None
      | _ \<Rightarrow> None)"

text \<open>The caller's signal aborts while \<open>use\<close> waits for the request.\<close>

definition abortUse :: "nat \<Rightarrow> devService \<Rightarrow> devService option" where
  "abortUse u S =
     (case ds_uses S ! u of
        Use_waiting _ _ \<Rightarrow> Some (setUse u (Use_done Op_unavailable) S)
      | _ \<Rightarrow> None)"

text \<open>The operation resolves with an output or (None) throws.\<close>

definition operationEnds :: "nat \<Rightarrow> jsval option \<Rightarrow> devService \<Rightarrow> devService option" where
  "operationEnds u answer S =
     (case ds_uses S ! u of
        Use_running owner i \<Rightarrow>
          Some (setUse u (case answer of
             Some output \<Rightarrow> Use_after owner i output
           | None \<Rightarrow> Use_done (Op_rejected (if genLive (genOf S i) then Use_operation_failed else Use_not_ready))) S)
      | _ \<Rightarrow> None)"

section \<open>Events and runs\<close>

datatype devEvent =
    Ensure_ready ustring
  | Stop
  | Accept_loss ustring
  | Start_use ustring
  | Request_identity nat identityState
  | Request_continues nat
  | Request_settles nat
  | Marker_cleared nat bool
  | Lock_answers nat lockAcquisition
  | Lock_throws nat
  | Setup_identity nat identityState
  | Setup_continues nat
  | Late_closes nat
  | Step_settles nat stepKind "stepValue option"
  | Step_times_out nat
  | Straggler_moves nat stepKind
  | Engine_starts nat "bool option"
  | Engine_signals nat engineSignal
  | Engine_closes nat bool
  | Stragglers_settle nat
  | Store_closes nat
  | Register_wipe nat nat
  | Use_identity nat identityState
  | Use_continues nat
  | Use_aborts nat
  | Operation_ends nat "jsval option"

text \<open>A web lock is exclusive: no lease is granted while another generation of the owner still holds one.\<close>

definition lockFree :: "nat \<Rightarrow> devService \<Rightarrow> bool" where
  "lockFree i S \<longleftrightarrow>
     list_all (\<lambda>j. j \<noteq> i \<and> g_ownerId (genOf S j) = g_ownerId (genOf S i) \<longrightarrow> \<not> g_leaseHeld (genOf S j)) [0..<length (ds_gens S)]"

definition genMoves :: "nat \<Rightarrow> (devGeneration \<Rightarrow> devGeneration option) \<Rightarrow> devService \<Rightarrow> devService option" where
  "genMoves i f S = map_option (\<lambda>g. updGen i (\<lambda>_. g) S) (f (genOf S i))"

definition onGen :: "nat \<Rightarrow> devService \<Rightarrow> devService option \<Rightarrow> devService option" where
  "onGen i S r = (if i < length (ds_gens S) then r else None)"

fun devStep :: "devEvent \<Rightarrow> devService \<Rightarrow> devService option" where
  "devStep (Ensure_ready owner) S = Some (track owner S)"
| "devStep Stop S = Some (stop S)"
| "devStep (Accept_loss owner) S = Some (acceptLoss owner S)"
| "devStep (Start_use owner) S = Some (startUse owner S)"
| "devStep (Request_identity q state) S =
     (if q < length (ds_requests S)
      then (case ds_requests S ! q of
          Req_identity owner requested \<Rightarrow> Some (ensure q owner requested state S)
        | _ \<Rightarrow> None) else None)"
| "devStep (Request_continues q) S = (if q < length (ds_requests S) then continueRequest q S else None)"
| "devStep (Request_settles q) S = (if q < length (ds_requests S) then settleRequest q S else None)"
| "devStep (Marker_cleared a fulfilled) S = (if a < length (ds_losses S) then markerCleared a fulfilled S else None)"
| "devStep (Lock_answers i acquisition) S =
     onGen i S (if g_setup (genOf S i) = Awaiting_lock \<and> (acquisition = Lock_acquired \<longrightarrow> lockFree i S)
                then Some (afterLock i acquisition S) else None)"
| "devStep (Lock_throws i) S =
     onGen i S (if g_setup (genOf S i) = Awaiting_lock then Some (caught i S) else None)"
| "devStep (Setup_identity i state) S = onGen i S (setupIdentity i state S)"
| "devStep (Setup_continues i) S = onGen i S (continueSetup i S)"
| "devStep (Late_closes i) S =
     onGen i S (if g_setup (genOf S i) = Late_closing then Some (superseded i S) else None)"
| "devStep (Step_settles i k answer) S = onGen i S (genMoves i (stepSettles k answer) S)"
| "devStep (Step_times_out i) S = onGen i S (genMoves i stepTimesOut S)"
| "devStep (Straggler_moves i k) S = onGen i S (genMoves i (stragglerMoves k) S)"
| "devStep (Engine_starts i answer) S = onGen i S (engineStarts i answer S)"
| "devStep (Engine_signals i sig) S =
     onGen i S (if g_steps (genOf S i) For_engine = Step_none \<and> \<not> g_leaked (genOf S i) then None
                else Some (if genLive (genOf S i) then onEngineSignal i sig S else S))"
| "devStep (Engine_closes i settled) S = onGen i S (genMoves i (engineCloses settled) S)"
| "devStep (Stragglers_settle i) S = onGen i S (genMoves i stragglersSettle S)"
| "devStep (Store_closes i) S = onGen i S (genMoves i storeCloses S)"
| "devStep (Register_wipe i dispose) S = onGen i S (Some (updGen i (fst \<circ> onEnd dispose) S))"
| "devStep (Use_identity u state) S = (if u < length (ds_uses S) then useIdentity u state S else None)"
| "devStep (Use_continues u) S = (if u < length (ds_uses S) then continueUse u S else None)"
| "devStep (Use_aborts u) S = (if u < length (ds_uses S) then abortUse u S else None)"
| "devStep (Operation_ends u answer) S = (if u < length (ds_uses S) then operationEnds u answer S else None)"

primrec devRun :: "devEvent list \<Rightarrow> devService \<Rightarrow> devService option" where
  "devRun [] S = Some S"
| "devRun (e # es) S = (case devStep e S of None \<Rightarrow> None | Some S' \<Rightarrow> devRun es S')"

inductive devReachable :: "devService \<Rightarrow> bool" where
  devStart: "devReachable createBrowserDeviceService"
| devNext: "devReachable S \<Longrightarrow> devStep e S = Some S' \<Longrightarrow> devReachable S'"

text \<open>
  A setup that passed its last confirmation waits one turn of the queue before it publishes \<open>ready\<close>; when its generation
  ends in that turn, it publishes all the same.
\<close>

definition racedReady :: "devService \<Rightarrow> devEvent \<Rightarrow> bool" where
  "racedReady S e \<longleftrightarrow>
     (case e of
        Setup_continues i \<Rightarrow> i < length (ds_gens S) \<and> g_aborted (genOf S i)
          \<and> (case g_setup (genOf S i) of Confirmed_ready _ \<Rightarrow> True | _ \<Rightarrow> False)
      | _ \<Rightarrow> False)"

end
