(* ===== verification/BrowserDeviceProperties.thy ===== *)
theory BrowserDeviceProperties
  imports BrowserDevice
begin

text \<open>
  What holds of the browser device service in every interleaving. The first invariant concerns the generations: their
  resources are closed in order, at most one generation of an owner holds the lock, and an engine is started only after
  the identity check. The second concerns the view, in runs without the raced publication of \<open>ready\<close>.
\<close>

named_theorems dev_simps

section \<open>Invariants of one generation\<close>

text \<open>What the setup has adopted and which session it works for.\<close>

fun setupLease :: "setupState \<Rightarrow> bool" where
  "setupLease Awaiting_lock = False"
| "setupLease Late_closing = False"
| "setupLease (Finishing _) = False"
| "setupLease (Setup_done _) = False"
| "setupLease _ = True"

fun stageStore :: "stage \<Rightarrow> bool" where
  "stageStore Stage_credentials = False"
| "stageStore (Stage_store _) = False"
| "stageStore _ = True"

fun setupStore :: "setupState \<Rightarrow> bool" where
  "setupStore (Awaiting st) = stageStore st"
| "setupStore (Settled st _) = stageStore st"
| "setupStore (Adopted_store _) = True"
| "setupStore (Adopted_engine _) = True"
| "setupStore (Starting _) = True"
| "setupStore (Started _ _) = True"
| "setupStore (Confirming_ready _) = True"
| "setupStore (Confirmed_ready _) = True"
| "setupStore _ = False"

fun stageSession :: "stage \<Rightarrow> substrateSession option" where
  "stageSession Stage_credentials = None"
| "stageSession (Stage_store s) = Some s"
| "stageSession (Stage_engine s) = Some s"
| "stageSession (Stage_identity s) = Some s"
| "stageSession (Stage_marker s _) = Some s"

fun setupSession :: "setupState \<Rightarrow> substrateSession option" where
  "setupSession (Awaiting st) = stageSession st"
| "setupSession (Settled st _) = stageSession st"
| "setupSession (Adopted_store s) = Some s"
| "setupSession (Adopted_engine s) = Some s"
| "setupSession (Starting s) = Some s"
| "setupSession (Started s _) = Some s"
| "setupSession (Confirming_ready s) = Some s"
| "setupSession (Confirmed_ready s) = Some s"
| "setupSession _ = None"

fun setupStarted :: "setupState \<Rightarrow> substrateSession option" where
  "setupStarted (Starting s) = Some s"
| "setupStarted (Started s _) = Some s"
| "setupStarted (Confirming_ready s) = Some s"
| "setupStarted (Confirmed_ready s) = Some s"
| "setupStarted _ = None"

fun setupEnrolling :: "setupState \<Rightarrow> (substrateSession \<times> localIdentity) option" where
  "setupEnrolling (Awaiting (Stage_marker s l)) = Some (s, l)"
| "setupEnrolling (Settled (Stage_marker s l) _) = Some (s, l)"
| "setupEnrolling _ = None"

text \<open>What an ended generation still has open: the engine, the store and the lease.\<close>

fun closingHolds :: "closing \<Rightarrow> bool \<Rightarrow> bool \<Rightarrow> bool \<Rightarrow> bool" where
  "closingHolds Not_closing e s l = False"
| "closingHolds (Closing_engine store lease) e s l = (s = store \<and> l = lease \<and> (s \<longrightarrow> l) \<and> (e \<longrightarrow> s))"
| "closingHolds (Closing_steps store lease) e s l = (s = store \<and> l = lease \<and> (s \<longrightarrow> l) \<and> \<not> e)"
| "closingHolds (Closing_store _ lease) e s l = (l \<and> lease \<and> \<not> e)"
| "closingHolds Close_stuck e s l = ((s \<longrightarrow> l) \<and> (e \<longrightarrow> s))"
| "closingHolds Closed e s l = (\<not> l \<and> \<not> s \<and> \<not> e)"

definition heldInv :: "devGeneration \<Rightarrow> bool" where
  "heldInv g \<longleftrightarrow>
     (if genLive g then g_closing g = Not_closing \<and> g_leaseHeld g = g_lease g \<and> g_storeOpen g = g_store g
        \<and> g_engineOpen g = g_engine g \<and> (g_store g \<longrightarrow> g_lease g) \<and> (g_engine g \<longrightarrow> g_store g)
        \<and> (setupLease (g_setup g) \<longrightarrow> g_lease g) \<and> (setupStore (g_setup g) \<longrightarrow> g_store g)
      else closingHolds (g_closing g) (g_engineOpen g) (g_storeOpen g) (g_leaseHeld g))"

definition markerFor :: "substrateSession \<Rightarrow> localIdentity \<Rightarrow> identityMarker" where
  "markerFor s l = \<lparr>im_deviceId = se_deviceId s, im_fingerprint = li_fingerprint l\<rparr>"

definition passed :: "devGeneration \<Rightarrow> substrateSession \<Rightarrow> bool" where
  "passed g s \<longleftrightarrow> (\<exists>m l. g_checked g = Some (m, s, l)
     \<and> (checkIdentity m s l = Resume \<or> checkIdentity m s l = Enrol \<and> g_enrolled g = Some (markerFor s l)))"

definition checkedInv :: "devGeneration \<Rightarrow> bool" where
  "checkedInv g \<longleftrightarrow>
     (g_started g \<longrightarrow> (\<exists>s. passed g s))
     \<and> (\<forall>s. setupStarted (g_setup g) = Some s \<longrightarrow> g_started g \<and> passed g s)
     \<and> (\<forall>s l. setupEnrolling (g_setup g) = Some (s, l) \<longrightarrow> \<not> g_started g \<and> (\<exists>m. g_checked g = Some (m, s, l) \<and> checkIdentity m s l = Enrol))
     \<and> (setupLease (g_setup g) \<and> setupStarted (g_setup g) = None \<longrightarrow> \<not> g_started g)
     \<and> (g_setup g = Awaiting_lock \<longrightarrow> \<not> g_started g)"

definition idInv :: "devGeneration \<Rightarrow> bool" where
  "idInv g \<longleftrightarrow>
     (\<forall>s. setupSession (g_setup g) = Some s \<longrightarrow> g_deviceId g = Some (se_deviceId s))
     \<and> (g_steps g For_engine \<noteq> Step_none \<or> g_leaked g \<longrightarrow> g_deviceId g \<noteq> None)"

definition genOk :: "devGeneration \<Rightarrow> bool" where
  "genOk g \<longleftrightarrow> heldInv g \<and> checkedInv g \<and> idInv g"

text \<open>An operation that neither acquires the lease nor ends the generation.\<close>

definition steady :: "devGeneration \<Rightarrow> devGeneration \<Rightarrow> bool" where
  "steady g g' \<longleftrightarrow> g_principal g' = g_principal g \<and> g_generation g' = g_generation g \<and> g_aborted g' = g_aborted g
     \<and> (g_leaseHeld g' \<longrightarrow> g_leaseHeld g)"

lemmas gen_defs = genOk_def heldInv_def checkedInv_def idInv_def passed_def genLive_def

lemma steady_refl: "steady g g"
  by (simp add: steady_def)

lemma open_ok: "genOk (openGeneration p n d)"
  by (simp add: gen_defs openGeneration_def)

lemma steady_close:
  "steady g (dropLease l g)" "steady g (closeStore d s l g)" "steady g (closeRest s l g)"
  by (simp_all add: steady_def dropLease_def closeStore_def closeRest_def)

lemma close_frame [simp]:
  "g_setup (closeRest s l g) = g_setup g" "g_started (closeRest s l g) = g_started g"
  "g_checked (closeRest s l g) = g_checked g" "g_enrolled (closeRest s l g) = g_enrolled g"
  "g_deviceId (closeRest s l g) = g_deviceId g" "g_steps (closeRest s l g) = g_steps g"
  "g_leaked (closeRest s l g) = g_leaked g" "g_aborted (closeRest s l g) = g_aborted g"
  "g_principal (closeRest s l g) = g_principal g" "g_generation (closeRest s l g) = g_generation g"
  by (simp_all add: dropLease_def closeStore_def closeRest_def)

lemma closeRest_held:
  "g_aborted g \<Longrightarrow> g_storeOpen g = s \<Longrightarrow> g_leaseHeld g = l \<Longrightarrow> s \<longrightarrow> l \<Longrightarrow> \<not> g_engineOpen g \<Longrightarrow> heldInv (closeRest s l g)"
  by (auto simp: heldInv_def genLive_def closeRest_def closeStore_def dropLease_def)

lemma end_frame [simp]:
  "g_setup (endGeneration g) = g_setup g" "g_started (endGeneration g) = g_started g"
  "g_checked (endGeneration g) = g_checked g" "g_enrolled (endGeneration g) = g_enrolled g"
  "g_deviceId (endGeneration g) = g_deviceId g" "g_steps (endGeneration g) = g_steps g"
  "g_leaked (endGeneration g) = g_leaked g" "g_aborted (endGeneration g)"
  "g_principal (endGeneration g) = g_principal g" "g_generation (endGeneration g) = g_generation g"
  by (simp_all add: endGeneration_def closeResources_def Let_def)

lemma end_lease: "g_leaseHeld (endGeneration g) \<Longrightarrow> g_leaseHeld g"
  by (auto simp: endGeneration_def closeResources_def Let_def closeRest_def closeStore_def dropLease_def split: if_splits)

lemma end_ok: "genOk g \<Longrightarrow> genLive g \<Longrightarrow> genOk (endGeneration g)"
proof -
  assume ok: "genOk g" and live: "genLive g"
  have "heldInv (endGeneration g)"
    using ok live by (auto simp: genOk_def heldInv_def genLive_def endGeneration_def closeResources_def Let_def
        closeRest_def closeStore_def dropLease_def)
  then show ?thesis using ok by (simp add: genOk_def checkedInv_def idInv_def passed_def)
qed

text \<open>Moves of one generation on its own keep its invariants.\<close>

lemma genOk_setup:
  assumes "genOk g" and "genLive g \<Longrightarrow> setupLease st \<Longrightarrow> g_lease g" and "genLive g \<Longrightarrow> setupStore st \<Longrightarrow> g_store g"
    and "\<And>s. setupSession st = Some s \<Longrightarrow> g_deviceId g = Some (se_deviceId s)"
    and "\<And>s. setupStarted st = Some s \<Longrightarrow> g_started g \<and> passed g s"
    and "\<And>s l. setupEnrolling st = Some (s, l) \<Longrightarrow> \<exists>m. g_checked g = Some (m, s, l) \<and> checkIdentity m s l = Enrol"
    and "setupLease st \<Longrightarrow> setupStarted st = None \<Longrightarrow> \<not> g_started g" and "st \<noteq> Awaiting_lock"
  shows "genOk (g\<lparr>g_setup := st\<rparr>)"
proof -
  have "heldInv (g\<lparr>g_setup := st\<rparr>)"
    using assms(1-3) by (simp add: genOk_def heldInv_def genLive_def)
  moreover have "setupEnrolling st = Some (s, l) \<Longrightarrow> \<not> g_started g" for s l
    using assms(7) by (cases "(st)" rule: setupEnrolling.cases) auto
  ultimately show ?thesis
    using assms by (simp add: genOk_def checkedInv_def idInv_def passed_def)
qed

lemma inv_frame [simp]:
  "heldInv (g\<lparr>g_steps := h\<rparr>) = heldInv g" "heldInv (g\<lparr>g_leaked := x\<rparr>) = heldInv g"
  "heldInv (g\<lparr>g_deviceId := d\<rparr>) = heldInv g" "heldInv (g\<lparr>g_checked := c\<rparr>) = heldInv g"
  "heldInv (g\<lparr>g_enrolled := m\<rparr>) = heldInv g" "heldInv (g\<lparr>g_disposers := ds\<rparr>) = heldInv g"
  "checkedInv (g\<lparr>g_steps := h\<rparr>) = checkedInv g" "checkedInv (g\<lparr>g_leaked := x\<rparr>) = checkedInv g"
  "checkedInv (g\<lparr>g_deviceId := d\<rparr>) = checkedInv g" "checkedInv (g\<lparr>g_disposers := ds\<rparr>) = checkedInv g"
  "idInv (g\<lparr>g_checked := c\<rparr>) = idInv g" "idInv (g\<lparr>g_enrolled := m\<rparr>) = idInv g" "idInv (g\<lparr>g_disposers := ds\<rparr>) = idInv g"
  by (simp_all add: heldInv_def genLive_def checkedInv_def passed_def idInv_def)

lemma genOk_steps:
  "genOk g \<Longrightarrow> (h For_engine \<noteq> Step_none \<Longrightarrow> g_deviceId g \<noteq> None) \<Longrightarrow> genOk (g\<lparr>g_steps := h\<rparr>)"
  by (auto simp: genOk_def idInv_def)

lemma genOk_leaked: "genOk g \<Longrightarrow> (x \<Longrightarrow> g_deviceId g \<noteq> None) \<Longrightarrow> genOk (g\<lparr>g_leaked := x\<rparr>)"
  by (auto simp: genOk_def idInv_def)

text \<open>A step that settles leaves the setup at the same stage.\<close>

lemma settled_like [simp]:
  "setupEnrolling (Settled st out) = setupEnrolling (Awaiting st)"
  by (cases st) simp_all

lemma genOk_settled: "genOk g \<Longrightarrow> g_setup g = Awaiting st \<Longrightarrow> genOk (g\<lparr>g_setup := Settled st out\<rparr>)"
  by (rule genOk_setup) (simp_all add: genOk_def heldInv_def checkedInv_def idInv_def)

lemma step_known: "genOk g \<Longrightarrow> g_steps g For_engine \<noteq> Step_none \<Longrightarrow> g_deviceId g \<noteq> None"
  by (simp add: genOk_def idInv_def)

lemma genOk_step_upd: "genOk g \<Longrightarrow> g_steps g k \<noteq> Step_none \<Longrightarrow> genOk (g\<lparr>g_steps := (g_steps g)(k := x)\<rparr>)"
  by (rule genOk_steps) (auto dest: step_known split: if_splits)

lemma stepSettles_ok: "genOk g \<Longrightarrow> stepSettles k v g = Some g' \<Longrightarrow> genOk g' \<and> steady g g'"
  by (auto simp: stepSettles_def Let_def steady_def genOk_step_upd intro!: genOk_settled
      split: stepState.splits if_splits setupState.splits)

lemma stragglerMoves_ok: "genOk g \<Longrightarrow> stragglerMoves k g = Some g' \<Longrightarrow> genOk g' \<and> steady g g'"
  by (auto simp: stragglerMoves_def steady_def genOk_step_upd split: stepState.splits)

lemma stepTimesOut_ok: "genOk g \<Longrightarrow> stepTimesOut g = Some g' \<Longrightarrow> genOk g' \<and> steady g g'"
proof -
  assume ok: "genOk g" and t: "stepTimesOut g = Some g'"
  then obtain st where st: "g_setup g = Awaiting st"
    and g': "g' = (g\<lparr>g_steps := (g_steps g)(stageKind st := Step_running True)\<rparr>)\<lparr>g_setup := Settled st Step_failed\<rparr>"
    by (auto simp: stepTimesOut_def split: setupState.splits)
  have "stageKind st = For_engine \<Longrightarrow> g_deviceId g \<noteq> None"
    using ok st by (cases st) (auto simp: genOk_def idInv_def)
  then have "genOk (g\<lparr>g_steps := (g_steps g)(stageKind st := Step_running True)\<rparr>)"
    by (intro genOk_steps[OF ok]) (auto dest: step_known[OF ok] split: if_splits)
  then show ?thesis unfolding g' using st by (auto simp: steady_def intro!: genOk_settled)
qed

lemma startStep_steady: "steady g (startStep st g)"
  by (simp add: steady_def startStep_def)

lemma startStep_ok:
  assumes ok: "genOk g" and "setupLease (g_setup g)" "setupStarted (g_setup g) = None"
    and "stageStore st \<Longrightarrow> setupStore (g_setup g)"
    and known: "\<And>s. stageSession st = Some s \<Longrightarrow> g_deviceId g = Some (se_deviceId s)"
    and "\<And>s l. st = Stage_marker s l \<Longrightarrow> \<exists>m. g_checked g = Some (m, s, l) \<and> checkIdentity m s l = Enrol"
  shows "genOk (startStep st g)"
proof -
  have e: "stageKind st = For_engine \<Longrightarrow> g_deviceId g \<noteq> None"
    using known by (cases st) auto
  have m: "setupEnrolling (Awaiting st) = Some (s, l) \<Longrightarrow> st = Stage_marker s l" for s l
    by (cases st) auto
  have enrol: "setupEnrolling (Awaiting st) = Some (s, l) \<Longrightarrow> \<exists>m. g_checked g = Some (m, s, l) \<and> checkIdentity m s l = Enrol" for s l
    using m assms(6) by blast
  have enrol': "setupEnrolling (Settled st x) = setupEnrolling (Awaiting st)" for x
    by (cases st) auto
  have held: "genLive g \<Longrightarrow> g_lease g" "genLive g \<Longrightarrow> stageStore st \<Longrightarrow> g_store g" "\<not> g_started g"
    using ok assms(2-4) by (simp_all add: genOk_def heldInv_def checkedInv_def)
  have place: "genOk (g'\<lparr>g_setup := Awaiting st\<rparr>)" "genOk (g'\<lparr>g_setup := Settled st x\<rparr>)"
    if "genOk g'" "g_lease g' = g_lease g" "g_store g' = g_store g" "genLive g' = genLive g"
      "g_deviceId g' = g_deviceId g" "g_started g' = g_started g" "g_checked g' = g_checked g" for g' x
    by (rule genOk_setup[OF that(1)]; use that(2-) held known enrol enrol' in simp)+
  have "genOk (g\<lparr>g_steps := (g_steps g)(stageKind st := Step_running False)\<rparr>)"
    by (intro genOk_steps[OF ok]) (use step_known[OF ok] e in \<open>auto split: if_splits\<close>)
  moreover have "genOk (g\<lparr>g_leaked := g_leaked g \<or> stageKind st = For_engine\<rparr>)"
    using ok e by (intro genOk_leaked) (auto simp: genOk_def idInv_def)
  ultimately show ?thesis
    using place(1)[of "g\<lparr>g_steps := (g_steps g)(stageKind st := Step_running False)\<rparr>"]
      place(2)[of "g\<lparr>g_leaked := g_leaked g \<or> stageKind st = For_engine\<rparr>" Step_superseded]
    by (simp add: startStep_def genLive_def)
qed

lemma engineCloses_ok: "genOk g \<Longrightarrow> engineCloses b g = Some g' \<Longrightarrow> genOk g' \<and> steady g g'"
proof -
  assume ok: "genOk g" and e: "engineCloses b g = Some g'"
  then obtain s l where c: "g_closing g = Closing_engine s l" and g': "g' = (if b then closeRest s l (g\<lparr>g_engineOpen := False\<rparr>)
      else g\<lparr>g_closing := Close_stuck\<rparr>)"
    by (auto simp: engineCloses_def split: closing.splits)
  have a: "g_aborted g" "g_storeOpen g = s" "g_leaseHeld g = l" "s \<longrightarrow> l" "g_engineOpen g \<longrightarrow> s"
    using ok c by (auto simp: genOk_def heldInv_def genLive_def split: if_splits)
  have "heldInv g'"
    unfolding g' using a closeRest_held[of "g\<lparr>g_engineOpen := False\<rparr>" s l]
    by (cases b) (simp_all add: heldInv_def genLive_def)
  then show ?thesis
    using ok steady_close(3)[of "g\<lparr>g_engineOpen := False\<rparr>" s l] by (auto simp: g' genOk_def checkedInv_def idInv_def passed_def steady_def)
qed

lemma close_inv_frame [simp]:
  "checkedInv (g\<lparr>g_closing := c\<rparr>) = checkedInv g" "checkedInv (g\<lparr>g_leaseHeld := x\<rparr>) = checkedInv g"
  "checkedInv (g\<lparr>g_storeOpen := x\<rparr>) = checkedInv g"
  "idInv (g\<lparr>g_closing := c\<rparr>) = idInv g" "idInv (g\<lparr>g_leaseHeld := x\<rparr>) = idInv g" "idInv (g\<lparr>g_storeOpen := x\<rparr>) = idInv g"
  by (simp_all add: checkedInv_def passed_def idInv_def)

lemma held_closing: "heldInv g \<Longrightarrow> g_closing g \<noteq> Not_closing \<Longrightarrow> g_aborted g \<and> closingHolds (g_closing g) (g_engineOpen g) (g_storeOpen g) (g_leaseHeld g)"
  by (auto simp: heldInv_def genLive_def split: if_splits)

lemma storeCloses_ok:
  assumes ok: "genOk g" and s: "storeCloses g = Some g'"
  shows "genOk g' \<and> steady g g'"
proof -
  obtain d l where c: "g_closing g = Closing_store d l" and g': "g' = dropLease l (g\<lparr>g_storeOpen := False\<rparr>)"
    using s by (auto simp: storeCloses_def split: closing.splits)
  have "g_aborted g" "l" "\<not> g_engineOpen g"
    using held_closing[of g] ok c by (auto simp: genOk_def)
  then have "heldInv g'" by (simp add: g' dropLease_def heldInv_def genLive_def)
  then show ?thesis using ok by (simp add: g' dropLease_def genOk_def steady_def)
qed

lemma stragglersSettle_ok:
  assumes ok: "genOk g" and s: "stragglersSettle g = Some g'"
  shows "genOk g' \<and> steady g g'"
proof -
  obtain d l where c: "g_closing g = Closing_steps d l" and g': "g' = closeStore True d l g"
    using s by (auto simp: stragglersSettle_def split: closing.splits if_splits)
  have "g_aborted g" "g_storeOpen g = d" "g_leaseHeld g = l" "d \<longrightarrow> l" "\<not> g_engineOpen g"
    using held_closing[of g] ok c by (auto simp: genOk_def)
  then have "heldInv g'" by (simp add: g' closeStore_def dropLease_def heldInv_def genLive_def)
  then show ?thesis using ok by (simp add: g' closeStore_def dropLease_def genOk_def steady_def)
qed

lemma adopt_ok:
  assumes ok: "genOk g" and st: "g_setup g = Settled st out"
  shows "st = Stage_store s \<Longrightarrow> genOk (adoptStore s g)" "st = Stage_engine s \<Longrightarrow> genOk (adoptEngine s g)"
  using ok st by (auto simp: adoptStore_def adoptEngine_def genOk_def heldInv_def checkedInv_def idInv_def passed_def genLive_def)

lemma adopt_steady: "genOk g \<Longrightarrow> steady g (adoptStore s g)" "genOk g \<Longrightarrow> steady g (adoptEngine s g)"
  by (simp_all add: adoptStore_def adoptEngine_def steady_def)

section \<open>The service keeps its generations\<close>

definition resInv :: "devService \<Rightarrow> bool" where
  "resInv S \<longleftrightarrow>
     (\<forall>i < length (ds_gens S). genOk (genOf S i) \<and> (genLive (genOf S i) \<longleftrightarrow> ds_live S = Some i))
     \<and> (\<forall>i. ds_live S = Some i \<longrightarrow> i < length (ds_gens S))
     \<and> (\<forall>i < length (ds_gens S). \<forall>j < length (ds_gens S). g_leaseHeld (genOf S i) \<longrightarrow> g_leaseHeld (genOf S j)
          \<longrightarrow> g_ownerId (genOf S i) = g_ownerId (genOf S j) \<longrightarrow> i = j)"

text \<open>The invariant only reads the generations and which of them is live.\<close>

lemma resInv_cong: "ds_gens S' = ds_gens S \<Longrightarrow> ds_live S' = ds_live S \<Longrightarrow> resInv S' = resInv S"
  by (simp add: resInv_def)

lemma res_frame [simp]:
  "resInv (publish v owner S) = resInv S" "resInv (setRequest q r S) = resInv S" "resInv (setUse u t S) = resInv S"
  "ds_gens (publish v owner S) = ds_gens S" "ds_gens (setRequest q r S) = ds_gens S" "ds_gens (setUse u t S) = ds_gens S"
  "ds_live (publish v owner S) = ds_live S" "ds_live (setRequest q r S) = ds_live S" "ds_live (setUse u t S) = ds_live S"
  by (simp_all add: resInv_def publish_def setRequest_def setUse_def)

lemma updGen_simps [simp]:
  "ds_gens (updGen i f S) = (ds_gens S)[i := f (genOf S i)]" "ds_live (updGen i f S) = ds_live S"
  "ds_view (updGen i f S) = ds_view S" "ds_viewOwner (updGen i f S) = ds_viewOwner S"
  "ds_epoch (updGen i f S) = ds_epoch S" "ds_requests (updGen i f S) = ds_requests S"
  "ds_published (updGen i f S) = ds_published S" "ds_uses (updGen i f S) = ds_uses S" "ds_losses (updGen i f S) = ds_losses S"
  by (simp_all add: updGen_def)

lemma res_set:
  assumes inv: "resInv S" and i: "i < length (ds_gens S)" and ok: "genOk g"
    and same: "g_aborted g = g_aborted (genOf S i)" "g_principal g = g_principal (genOf S i)"
    and alone: "g_leaseHeld g \<Longrightarrow> g_leaseHeld (genOf S i)
      \<or> (\<forall>j < length (ds_gens S). j \<noteq> i \<longrightarrow> g_ownerId (genOf S j) = g_ownerId (genOf S i) \<longrightarrow> \<not> g_leaseHeld (genOf S j))"
  shows "resInv (S\<lparr>ds_gens := (ds_gens S)[i := g]\<rparr>)"
proof -
  let ?gs = "(ds_gens S)[i := g]"
  have one: "j = k" if "j < length (ds_gens S)" "k < length (ds_gens S)" "g_leaseHeld (genOf S j)" "g_leaseHeld (genOf S k)"
    "g_ownerId (genOf S j) = g_ownerId (genOf S k)" for j k
    using inv that by (simp add: resInv_def)
  have new: "j = i" if "j < length (ds_gens S)" "g_leaseHeld g" "g_leaseHeld (genOf S j)" "g_ownerId (genOf S j) = g_ownerId (genOf S i)" for j
    using alone[OF that(2)] one[OF that(1) i that(3)] that by blast
  have "j = k" if "j < length ?gs" "k < length ?gs" "g_leaseHeld (?gs ! j)" "g_leaseHeld (?gs ! k)" "g_ownerId (?gs ! j) = g_ownerId (?gs ! k)" for j k
    using that one[of j k] new[of j] new[of k] same by (cases "j = i"; cases "k = i") simp_all
  moreover have "genOk (?gs ! j) \<and> (genLive (?gs ! j) \<longleftrightarrow> ds_live S = Some j)" if "j < length ?gs" for j
    using inv that ok same by (cases "j = i") (simp_all add: resInv_def genLive_def)
  ultimately show ?thesis using inv by (simp add: resInv_def)
qed

lemma res_updGen:
  assumes inv: "resInv S" and i: "i < length (ds_gens S)" and ok: "genOk (f (genOf S i))" and c: "steady (genOf S i) (f (genOf S i))"
  shows "resInv (updGen i f S)"
  unfolding updGen_def using c by (intro res_set[OF inv i ok]) (auto simp: steady_def)

lemma res_gen: "resInv S \<Longrightarrow> i < length (ds_gens S) \<Longrightarrow> genOk (genOf S i)"
  by (simp add: resInv_def)

lemma res_genMoves:
  assumes "resInv S" "i < length (ds_gens S)" "genMoves i f S = Some S'" "\<And>g g'. genOk g \<Longrightarrow> f g = Some g' \<Longrightarrow> genOk g' \<and> steady g g'"
  shows "resInv S'"
  using assms res_gen[OF assms(1,2)] by (auto simp: genMoves_def intro!: res_updGen)

lemma res_live: "resInv S \<Longrightarrow> ds_live S = Some i \<Longrightarrow> i < length (ds_gens S) \<and> genLive (genOf S i)"
  by (auto simp: resInv_def)

lemma res_retire:
  assumes inv: "resInv S" and l: "ds_live S = Some i"
  shows "resInv (retireGeneration i S)"
proof -
  note i = res_live[OF inv l]
  have g: "genOk (endGeneration (genOf S i))" using inv i by (simp add: end_ok res_gen)
  have "resInv (S\<lparr>ds_live := None, ds_gens := (ds_gens S)[i := g']\<rparr>)"
    if "genOk g'" "g_aborted g'" "g_leaseHeld g' \<longrightarrow> g_leaseHeld (genOf S i)" "g_principal g' = g_principal (genOf S i)" for g'
    using inv i l that unfolding resInv_def genLive_def by (simp add: nth_list_update) blast
  from this[OF g] show ?thesis using end_lease by (auto simp: retireGeneration_def updGen_def)
qed

lemma res_open:
  "resInv S \<Longrightarrow> ds_live S = None \<Longrightarrow>
   resInv (S\<lparr>ds_gens := ds_gens S @ [openGeneration p n d], ds_live := Some (length (ds_gens S))\<rparr>)"
  using open_ok[of p n d] unfolding resInv_def genLive_def
  by (auto simp: nth_append less_Suc_eq openGeneration_def)

text \<open>A setup may always finish.\<close>

fun setupOver :: "setupState \<Rightarrow> bool" where
  "setupOver (Finishing _) = True"
| "setupOver (Setup_done _) = True"
| "setupOver _ = False"

lemma res_setSetup:
  "resInv S \<Longrightarrow> i < length (ds_gens S) \<Longrightarrow> genOk ((genOf S i)\<lparr>g_setup := st\<rparr>) \<Longrightarrow> resInv (setSetup i st S)"
  unfolding setSetup_def by (rule res_updGen) (simp_all add: steady_def)

lemma genOk_over: "genOk g \<Longrightarrow> setupOver st \<Longrightarrow> genOk (g\<lparr>g_setup := st\<rparr>)"
  by (rule genOk_setup) (cases st; simp)+

lemma res_over: "resInv S \<Longrightarrow> i < length (ds_gens S) \<Longrightarrow> setupOver st \<Longrightarrow> resInv (setSetup i st S)"
  by (simp add: res_setSetup genOk_over res_gen)

lemma finish_eq: "finish i v owner S = Some S' \<longleftrightarrow> ds_live S = Some i \<and> S' = publish v owner (retireGeneration i S)"
  by (auto simp: finish_def)

lemma res_finish: "resInv S \<Longrightarrow> finish i v owner S = Some S' \<Longrightarrow> resInv S' \<and> length (ds_gens S') = length (ds_gens S)"
  by (auto simp: finish_eq res_retire) (simp add: retireGeneration_def)

lemma res_superseded: "resInv S \<Longrightarrow> i < length (ds_gens S) \<Longrightarrow> resInv (superseded i S)"
  by (simp add: superseded_def res_over)

lemma res_finishSetup: "resInv S \<Longrightarrow> i < length (ds_gens S) \<Longrightarrow> resInv (finishSetup i v owner result S)"
  using res_finish[of S i v owner] by (cases "finish i v owner S") (simp_all add: finishSetup_def res_superseded res_over)

lemma res_ends:
  assumes "resInv S" "i < length (ds_gens S)"
  shows "resInv (failSetup i reason result S)" "resInv (finishOk i v S)" "resInv (caught i S)" "resInv (failedStep i reason S)"
  using assms by (simp_all add: failSetup_def finishOk_def caught_def failedStep_def res_finishSetup res_superseded)

lemma res_signal: "resInv S \<Longrightarrow> resInv (onEngineSignal i sig S)"
  using res_finish[of S i] unfolding onEngineSignal_def Let_def by (simp split: option.split)

lemma res_afterLock:
  assumes inv: "resInv S" and i: "i < length (ds_gens S)" and st: "g_setup (genOf S i) = Awaiting_lock"
    and free: "acquisition = Lock_acquired \<Longrightarrow> lockFree i S"
  shows "resInv (afterLock i acquisition S)"
proof (cases "acquisition = Lock_acquired \<and> genLive (genOf S i)")
  case True
  let ?g = "(genOf S i)\<lparr>g_lease := True, g_leaseHeld := True, g_setup := Confirming_lock\<rparr>"
  have ok: "genOk ?g"
    using res_gen[OF inv i] True st by (simp add: genOk_def heldInv_def genLive_def checkedInv_def passed_def idInv_def)
  have "\<forall>j < length (ds_gens S). j \<noteq> i \<longrightarrow> g_ownerId (genOf S j) = g_ownerId (genOf S i) \<longrightarrow> \<not> g_leaseHeld (genOf S j)"
    using free True by (simp add: lockFree_def list_all_iff)
  then have "resInv (S\<lparr>ds_gens := (ds_gens S)[i := ?g]\<rparr>)"
    using True by (intro res_set[OF inv i ok]) simp_all
  then show ?thesis using True by (simp add: afterLock_def updGen_def)
next
  case False
  then show ?thesis
    using inv i by (cases acquisition) (simp_all add: afterLock_def res_ends res_superseded)
qed

lemma res_confirm:
  assumes inv: "resInv S" and i: "i < length (ds_gens S)" and ok: "genOk ((genOf S i)\<lparr>g_setup := confirmed\<rparr>)"
  shows "resInv (confirmIdentity i confirmed state S)"
  using assms by (auto simp: confirmIdentity_def Let_def res_superseded res_ends res_finishSetup res_setSetup split: identityState.splits)

lemma res_setupIdentity:
  assumes inv: "resInv S" and i: "i < length (ds_gens S)" and s: "setupIdentity i state S = Some S'"
  shows "resInv S'"
proof -
  note ok = res_gen[OF inv i]
  have l: "genOk ((genOf S i)\<lparr>g_setup := Confirmed_lock\<rparr>)" if "g_setup (genOf S i) = Confirming_lock"
    using ok that by (intro genOk_setup) (auto simp: genOk_def heldInv_def checkedInv_def)
  have r: "genOk ((genOf S i)\<lparr>g_setup := Confirmed_ready session\<rparr>)" if "g_setup (genOf S i) = Confirming_ready session" for session
    using ok that by (intro genOk_setup) (auto simp: genOk_def heldInv_def checkedInv_def idInv_def)
  show ?thesis
    using s res_confirm[OF inv i l, of state] res_confirm[OF inv i r, of _ state]
    by (cases "g_setup (genOf S i)") (simp_all add: setupIdentity_def)
qed

lemma res_starts:
  assumes inv: "resInv S" and i: "i < length (ds_gens S)" and s: "engineStarts i answer S = Some S'"
  shows "resInv S'"
proof -
  note ok = res_gen[OF inv i]
  have "genOk ((genOf S i)\<lparr>g_setup := Started session b\<rparr>)" if "g_setup (genOf S i) = Starting session" for session b
    using ok that by (intro genOk_setup) (auto simp: genOk_def heldInv_def checkedInv_def idInv_def)
  then show ?thesis
    using s inv i by (cases "g_setup (genOf S i)"; cases answer) (auto simp: engineStarts_def res_setSetup res_ends)
qed

lemma deviceId_ok: "genOk g \<Longrightarrow> setupSession (g_setup g) = None \<Longrightarrow> genOk (g\<lparr>g_deviceId := Some d\<rparr>)"
  by (simp add: genOk_def idInv_def)

lemma res_deviceId:
  "resInv S \<Longrightarrow> i < length (ds_gens S) \<Longrightarrow> setupSession (g_setup (genOf S i)) = None \<Longrightarrow>
   resInv (updGen i (\<lambda>g. g\<lparr>g_deviceId := Some d\<rparr>) S)"
  by (rule res_updGen) (simp_all add: deviceId_ok res_gen steady_def)

lemma res_afterCredentials:
  assumes inv: "resInv S" and i: "i < length (ds_gens S)" and st: "g_setup (genOf S i) = Settled Stage_credentials out"
  shows "resInv (afterCredentials i c S)"
proof (cases "genLive (genOf S i)")
  case True
  note ok = res_gen[OF inv i]
  have d: "resInv (updGen i (\<lambda>g. g\<lparr>g_deviceId := Some x\<rparr>) S)" for x using inv i st by (simp add: res_deviceId)
  have "resInv (updGen i (\<lambda>g. startStep (Stage_store session) (g\<lparr>g_deviceId := Some (se_deviceId session)\<rparr>)) S)" for session
  proof (rule res_updGen[OF inv i])
    show "genOk (startStep (Stage_store session) ((genOf S i)\<lparr>g_deviceId := Some (se_deviceId session)\<rparr>))"
      using ok st by (intro startStep_ok deviceId_ok) simp_all
    show "steady (genOf S i) (startStep (Stage_store session) ((genOf S i)\<lparr>g_deviceId := Some (se_deviceId session)\<rparr>))"
      by (simp add: steady_def startStep_def)
  qed
  then show ?thesis
    using inv i d True by (cases c) (simp_all add: afterCredentials_def Let_def res_ends)
qed (simp add: afterCredentials_def Let_def res_superseded inv i)

lemma res_afterIdentity:
  assumes inv: "resInv S" and i: "i < length (ds_gens S)" and st: "g_setup (genOf S i) = Settled (Stage_identity session) out"
  shows "resInv (afterIdentity i session local marker S)"
proof (cases "genLive (genOf S i)")
  case live: True
  let ?c = "\<lambda>g. g\<lparr>g_checked := Some (marker, session, local)\<rparr>"
  have ok: "genOk (genOf S i)" "\<not> g_started (genOf S i)"
    using res_gen[OF inv i] st by (simp_all add: genOk_def checkedInv_def)
  have c: "genOk (?c (genOf S i))"
    using ok st by (simp add: genOk_def checkedInv_def)
  show ?thesis
  proof (cases "checkIdentity marker session local")
    case Enrol
    have "resInv (updGen i (\<lambda>g. startStep (Stage_marker session local) (?c g)) S)"
      using c st ok Enrol by (intro res_updGen[OF inv i] startStep_ok) (auto simp: genOk_def idInv_def steady_def startStep_def)
    then show ?thesis using Enrol live by (simp add: afterIdentity_def Let_def)
  next
    case Resume
    have "genOk ((genOf S i)\<lparr>g_checked := Some (marker, session, local), g_started := True, g_setup := Starting session\<rparr>)"
      using ok st Resume by (simp add: genOk_def heldInv_def genLive_def checkedInv_def passed_def idInv_def)
    then have "resInv (updGen i (\<lambda>g. (?c g)\<lparr>g_started := True, g_setup := Starting session\<rparr>) S)"
      by (intro res_updGen[OF inv i]) (simp_all add: steady_def)
    then show ?thesis using Resume live i by (simp add: afterIdentity_def Let_def startEngine_def updGen_def)
  next
    case (Lost r)
    then show ?thesis using inv i live by (simp add: afterIdentity_def Let_def res_ends)
  qed
qed (simp add: afterIdentity_def Let_def res_superseded inv i)

lemma res_enrolled:
  assumes inv: "resInv S" and i: "i < length (ds_gens S)" and st: "g_setup (genOf S i) = Settled (Stage_marker session local) out"
    and a: "afterStep i (Stage_marker session local) (Fulfilled Got_stored) S = Some S'"
  shows "resInv S'"
proof -
  let ?e = "\<lambda>g. g\<lparr>g_enrolled := Some \<lparr>im_deviceId = se_deviceId session, im_fingerprint = li_fingerprint local\<rparr>\<rparr>"
  note ok = res_gen[OF inv i]
  have e: "genOk (?e (genOf S i))"
    using ok st by (simp add: genOk_def checkedInv_def)
  have "resInv (updGen i ?e S)" using e by (intro res_updGen[OF inv i]) (simp_all add: steady_def)
  then have s: "resInv (superseded i (updGen i ?e S))" using i by (simp add: res_superseded)
  have "genOk ((?e (genOf S i))\<lparr>g_started := True, g_setup := Starting session\<rparr>)"
    using ok st by (auto simp: genOk_def heldInv_def genLive_def checkedInv_def passed_def idInv_def markerFor_def)
  then have "resInv (updGen i (\<lambda>g. (?e g)\<lparr>g_started := True, g_setup := Starting session\<rparr>) S)"
    by (intro res_updGen[OF inv i]) (simp_all add: steady_def)
  then show ?thesis using a s i by (auto simp: Let_def startEngine_def updGen_def split: if_splits)
qed

lemma res_afterStep:
  assumes inv: "resInv S" and i: "i < length (ds_gens S)" and st: "g_setup (genOf S i) = Settled st out"
    and a: "afterStep i st out S = Some S'"
  shows "resInv S'"
proof -
  note ok = res_gen[OF inv i]
  have adopts: "st = Stage_store s \<Longrightarrow> resInv (updGen i (adoptStore s) S)" "st = Stage_engine s \<Longrightarrow> resInv (updGen i (adoptEngine s) S)" for s
    using adopt_ok[OF ok st] adopt_steady[OF ok] by (auto intro: res_updGen[OF inv i])
  note ends = res_ends[OF inv i] res_superseded[OF inv i]
  show ?thesis
  proof (cases out)
    case (Fulfilled v)
    then show ?thesis
      using a st adopts res_afterCredentials[OF inv i] res_afterIdentity[OF inv i] res_enrolled[OF inv i]
      by (cases st; cases v) (auto simp del: afterStep.simps(5) simp: afterStep.simps(1-4))
  qed (use a ends in \<open>cases st; auto\<close>)+
qed

lemma res_continueSetup:
  assumes inv: "resInv S" and i: "i < length (ds_gens S)" and c: "continueSetup i S = Some S'"
  shows "resInv S'"
proof -
  note ok = res_gen[OF inv i]
  have begins: "resInv (updGen i (startStep st) S)"
    if "setupLease (g_setup (genOf S i))" "setupStarted (g_setup (genOf S i)) = None"
      "stageStore st \<Longrightarrow> setupStore (g_setup (genOf S i))" "stageSession st = setupSession (g_setup (genOf S i))"
      "\<And>s l. st \<noteq> Stage_marker s l" for st
    using that ok by (intro res_updGen[OF inv i] startStep_ok startStep_steady) (auto simp: genOk_def idInv_def)
  have ready: "resInv (setSetup i (Confirming_ready session) S)" if "g_setup (genOf S i) = Started session b" for session b
    using ok that by (intro res_setSetup[OF inv i] genOk_setup) (auto simp: genOk_def heldInv_def checkedInv_def idInv_def)
  show ?thesis
    using c begins[of Stage_credentials] begins[of "Stage_engine _"] begins[of "Stage_identity _"] ready
      res_afterStep[OF inv i] res_ends[OF inv i] res_superseded[OF inv i]
    by (cases "g_setup (genOf S i)") (auto simp: continueSetup_def Let_def res_over inv i split: if_splits)
qed

text \<open>Requests and uses change generations only by ending the live one or opening a new one.\<close>

lemma res_settleOrphan: "resInv S \<Longrightarrow> resInv (settleOrphan S)"
  by (simp add: settleOrphan_def)

lemma res_signedOut: "resInv S \<Longrightarrow> resInv (signedOutLoop q requested d owner S)"
  by (simp add: signedOutLoop_def Let_def res_settleOrphan res_retire split: option.split)

lemma res_initialise: "resInv S \<Longrightarrow> resInv (initialiseLoop q p requested same S)"
  by (simp add: initialiseLoop_def Let_def res_settleOrphan res_retire res_open split: option.split)

lemma res_dropOthers: "resInv S \<Longrightarrow> resInv (dropOthers q p S)"
  by (simp add: dropOthers_def Let_def finish_def res_retire split: option.split)

lemma res_ensure: "resInv S \<Longrightarrow> resInv (ensure q owner requested state S)"
  by (simp add: ensure_def signedOut_def initialise_def Let_def res_signedOut res_initialise res_dropOthers split: identityState.split)

lemma res_continueRequest: "resInv S \<Longrightarrow> continueRequest q S = Some S' \<Longrightarrow> resInv S'"
  by (cases "ds_requests S ! q")
    (auto simp: continueRequest_def res_signedOut res_initialise split: if_splits setupState.splits)

lemma res_stop: "resInv S \<Longrightarrow> resInv (stop S)"
proof -
  assume inv: "resInv S"
  let ?S = "S\<lparr>ds_epoch := ds_epoch S + 1, ds_inflight := None\<rparr>"
  have e: "resInv ?S" using inv by (rule iffD2[OF resInv_cong, rotated -1]) simp_all
  then show ?thesis using res_retire[OF e] by (simp add: stop_def Let_def split: option.split)
qed

lemma res_acceptLoss: "resInv S \<Longrightarrow> resInv (acceptLoss owner S)"
  by (simp add: acceptLoss_def resInv_def)

lemma res_markerCleared: "resInv S \<Longrightarrow> markerCleared a b S = Some S' \<Longrightarrow> resInv S'"
proof -
  assume inv: "resInv S" and m: "markerCleared a b S = Some S'"
  have "resInv (S\<lparr>ds_losses := x\<rparr>)" for x using inv by (simp add: resInv_def)
  then show ?thesis using m by (auto simp: markerCleared_def Let_def split: lossTask.splits if_splits)
qed

lemma res_confirmHolder: "resInv S \<Longrightarrow> resInv (confirmHolder u i confirmed state S)"
  by (simp add: confirmHolder_def Let_def finish_def res_retire split: option.split)

lemma res_uses:
  assumes "resInv S"
  shows "useIdentity u state S = Some S' \<Longrightarrow> resInv S'" "continueUse u S = Some S' \<Longrightarrow> resInv S'"
    "abortUse u S = Some S' \<Longrightarrow> resInv S'" "operationEnds u answer S = Some S' \<Longrightarrow> resInv S'" "resInv (startUse owner S)"
  using assms by (auto simp: useIdentity_def continueUse_def abortUse_def operationEnds_def res_confirmHolder
      split: useTask.splits devRequest.splits if_splits) (simp add: startUse_def resInv_def)

lemma res_track: "resInv S \<Longrightarrow> resInv (track owner S)"
  by (simp add: track_def resInv_def)

lemma res_settles: "resInv S \<Longrightarrow> settleRequest q S = Some S' \<Longrightarrow> resInv S'"
proof -
  assume inv: "resInv S" and s: "settleRequest q S = Some S'"
  have "S' = S \<or> S' = S\<lparr>ds_inflight := None\<rparr>" using s by (auto simp: settleRequest_def split: devRequest.splits if_splits)
  moreover have "resInv (S\<lparr>ds_inflight := None\<rparr>)" using inv by (simp add: resInv_def)
  ultimately show ?thesis using inv by auto
qed

lemma res_wipe: "resInv S \<Longrightarrow> i < length (ds_gens S) \<Longrightarrow> resInv (updGen i (fst \<circ> onEnd d) S)"
proof (rule res_updGen)
  assume "resInv S" "i < length (ds_gens S)"
  then show "genOk ((fst \<circ> onEnd d) (genOf S i))" using res_gen[of S i] by (simp add: onEnd_def genOk_def)
qed (simp_all add: onEnd_def steady_def)

lemma res_step:
  assumes inv: "resInv S" and s: "devStep e S = Some S'"
  shows "resInv S'"
proof (cases e)
  case (Step_settles i k v)
  then show ?thesis using s by (auto simp: onGen_def intro: res_genMoves[OF inv _ _ stepSettles_ok] split: if_splits)
next
  case (Step_times_out i)
  then show ?thesis using s by (auto simp: onGen_def intro: res_genMoves[OF inv _ _ stepTimesOut_ok] split: if_splits)
next
  case (Straggler_moves i k)
  then show ?thesis using s by (auto simp: onGen_def intro: res_genMoves[OF inv _ _ stragglerMoves_ok] split: if_splits)
next
  case (Engine_closes i b)
  then show ?thesis using s by (auto simp: onGen_def intro: res_genMoves[OF inv _ _ engineCloses_ok] split: if_splits)
next
  case (Stragglers_settle i)
  then show ?thesis using s by (auto simp: onGen_def intro: res_genMoves[OF inv _ _ stragglersSettle_ok] split: if_splits)
next
  case (Store_closes i)
  then show ?thesis using s by (auto simp: onGen_def intro: res_genMoves[OF inv _ _ storeCloses_ok] split: if_splits)
next
  case (Lock_answers i a)
  then show ?thesis using s by (auto simp: onGen_def intro!: res_afterLock[OF inv] split: if_splits)
next
  case (Setup_continues i)
  then show ?thesis using s by (auto simp: onGen_def intro: res_continueSetup[OF inv] split: if_splits)
next
  case (Request_identity q st)
  then show ?thesis using s by (auto simp: res_ensure[OF inv] split: if_splits devRequest.splits)
next
  case (Ensure_ready o1)
  then show ?thesis using s res_track[OF inv] by (auto simp: onGen_def inv split: if_splits)
next
  case Stop
  then show ?thesis using s res_stop[OF inv] by (auto simp: onGen_def inv split: if_splits)
next
  case (Accept_loss o1)
  then show ?thesis using s res_acceptLoss[OF inv] by (auto simp: onGen_def inv split: if_splits)
next
  case (Start_use o1)
  then show ?thesis using s res_uses(5)[OF inv] by (auto simp: onGen_def inv split: if_splits)
next
  case (Request_continues q)
  then show ?thesis using s res_continueRequest[OF inv] by (auto simp: onGen_def inv split: if_splits)
next
  case (Request_settles q)
  then show ?thesis using s res_settles[OF inv] by (auto simp: onGen_def inv split: if_splits)
next
  case (Marker_cleared a b)
  then show ?thesis using s res_markerCleared[OF inv] by (auto simp: onGen_def inv split: if_splits)
next
  case (Lock_throws i)
  then show ?thesis using s res_ends(3)[OF inv] by (auto simp: onGen_def inv split: if_splits)
next
  case (Setup_identity i st)
  then show ?thesis using s res_setupIdentity[OF inv] by (auto simp: onGen_def inv split: if_splits)
next
  case (Late_closes i)
  then show ?thesis using s res_superseded[OF inv] by (auto simp: onGen_def inv split: if_splits)
next
  case (Engine_starts i v)
  then show ?thesis using s res_starts[OF inv] by (auto simp: onGen_def inv split: if_splits)
next
  case (Engine_signals i sig)
  then show ?thesis using s inv res_signal[OF inv] by (auto simp: onGen_def split: if_splits)
next
  case (Register_wipe i d)
  then show ?thesis using s res_wipe[OF inv] by (auto simp: onGen_def inv split: if_splits)
next
  case (Use_identity u st)
  then show ?thesis using s res_uses(1)[OF inv] by (auto simp: onGen_def inv split: if_splits)
next
  case (Use_continues u)
  then show ?thesis using s res_uses(2)[OF inv] by (auto simp: onGen_def inv split: if_splits)
next
  case (Use_aborts u)
  then show ?thesis using s res_uses(3)[OF inv] by (auto simp: onGen_def inv split: if_splits)
next
  case (Operation_ends u v)
  then show ?thesis using s res_uses(4)[OF inv] by (auto simp: onGen_def inv split: if_splits)
qed

lemma res_reachable: "devReachable S \<Longrightarrow> resInv S"
proof (induction rule: devReachable.induct)
  case devStart
  show ?case by (simp add: resInv_def createBrowserDeviceService_def)
qed (rule res_step)

section \<open>How views change\<close>

definition consistentView :: "deviceView \<Rightarrow> bool" where
  "consistentView v \<longleftrightarrow> (dv_state v \<in> set NEEDS_ID \<longrightarrow> dv_deviceId v \<noteq> None)
     \<and> (dv_state v \<in> set NEEDS_REASON \<longleftrightarrow> dv_reason v \<noteq> None)"

abbreviation terminalView :: "deviceView \<Rightarrow> bool" where
  "terminalView v \<equiv> dv_state v = Dev_lost \<or> dv_state v = Dev_revoked"

text \<open>The views that end a generation, and with whom they leave the service.\<close>

definition finishView :: "devGeneration \<Rightarrow> deviceView \<Rightarrow> ustring option \<Rightarrow> bool" where
  "finishView g v owner \<longleftrightarrow> consistentView v \<and> (dv_generation v = g_generation g \<or> dv_generation v = g_generation g + 1)
     \<and> dv_state v \<noteq> Dev_ready \<and> dv_state v \<noteq> Dev_initializing
     \<and> (owner = Some (g_ownerId g) \<or> owner = None \<and> dv_state v = Dev_new)"

definition sameGens :: "devService \<Rightarrow> devService \<Rightarrow> bool" where
  "sameGens S S' \<longleftrightarrow> length (ds_gens S') = length (ds_gens S)
     \<and> (\<forall>i < length (ds_gens S). g_principal (genOf S' i) = g_principal (genOf S i) \<and> g_generation (genOf S' i) = g_generation (genOf S i))"

text \<open>A move of a setup, a signal or a use: nothing is published, or the live generation is finished.\<close>

definition sameView :: "devService \<Rightarrow> devService \<Rightarrow> bool" where
  "sameView S S' \<longleftrightarrow> ds_view S' = ds_view S \<and> ds_viewOwner S' = ds_viewOwner S \<and> ds_published S' = ds_published S"

definition published :: "devService \<Rightarrow> devService \<Rightarrow> deviceView \<Rightarrow> ustring option \<Rightarrow> bool" where
  "published S S' v owner \<longleftrightarrow> ds_view S' = v \<and> ds_viewOwner S' = owner \<and> ds_published S' = ds_published S @ [v]"

definition genMove :: "devService \<Rightarrow> devService \<Rightarrow> bool" where
  "genMove S S' \<longleftrightarrow> sameGens S S' \<and> ds_requests S' = ds_requests S \<and> ds_epoch S' = ds_epoch S
     \<and> (ds_live S' = ds_live S \<and> sameView S S'
        \<or> (\<exists>i v owner. ds_live S = Some i \<and> ds_live S' = None \<and> finishView (genOf S i) v owner \<and> published S S' v owner))"

lemmas move_defs = genMove_def sameGens_def sameView_def published_def

lemma consistent_simps [simp]:
  "consistentView (makeView Dev_new n x None)" "consistentView (makeView Dev_initializing n x None)"
  "consistentView (makeView Dev_ready n (Some d) None)" "consistentView (locked n x)"
  "consistentView (failView g r)" "consistentView (makeView Dev_failed n x (Some r))"
  "consistentView (makeView Dev_lost n (Some d) (Some r))"
  "consistentView (makeView Dev_revoked n x (Some r)) \<longleftrightarrow> x \<noteq> None"
  by (simp_all add: consistentView_def makeView_def locked_def failView_def NEEDS_ID_def NEEDS_REASON_def)

lemma view_simps [simp]:
  "dv_state (makeView st n d r) = st" "dv_generation (makeView st n d r) = n" "dv_deviceId (makeView st n d r) = d"
  "dv_generation (locked n x) = n" "dv_generation (failView g c) = g_generation g" "dv_generation (cleared g) = g_generation g + 1"
  "dv_state (locked n x) \<noteq> Dev_ready" "dv_state (locked n x) \<noteq> Dev_initializing" "dv_state (locked n x) \<noteq> Dev_lost"
  "dv_state (locked n x) \<noteq> Dev_revoked" "dv_state (failView g c) = Dev_failed" "dv_state (cleared g) = Dev_new"
  "consistentView (cleared g)"
  by (simp_all add: makeView_def locked_def failView_def cleared_def consistentView_def NEEDS_ID_def NEEDS_REASON_def)

lemma nth_upd: "j < length xs \<Longrightarrow> xs[i := y] ! j = (if i = j then y else xs ! j)"
  by (cases "i = j") simp_all

lemma genMove_refl: "genMove S S"
  by (simp add: move_defs)

lemma genMove_upd:
  "genMove S S' \<Longrightarrow> (\<And>g. g_principal (f g) = g_principal g \<and> g_generation (f g) = g_generation g) \<Longrightarrow> genMove S (updGen i f S')"
  by (auto simp: move_defs nth_upd)

lemma genMove_setSetup: "genMove S S' \<Longrightarrow> genMove S (setSetup i st S')"
  unfolding setSetup_def by (rule genMove_upd) simp_all

lemma genMove_after:
  assumes f: "\<And>g. g_principal (f g) = g_principal g \<and> g_generation (f g) = g_generation g" and m: "genMove (updGen i f S) S'"
  shows "genMove S S'"
proof -
  have "g_principal (genOf (updGen i f S) j) = g_principal (genOf S j) \<and> g_generation (genOf (updGen i f S) j) = g_generation (genOf S j)"
    if "j < length (ds_gens S)" for j
    using f that by (simp add: nth_upd)
  moreover have "finishView (genOf (updGen i f S) j) v owner = finishView (genOf S j) v owner" for j v owner
    using f by (cases "j = i \<and> i < length (ds_gens S)") (auto simp: finishView_def nth_upd list_update_beyond not_less)
  ultimately show ?thesis using m by (auto simp: move_defs)
qed

lemma genMove_finish:
  "finish i v owner S = Some S' \<Longrightarrow> finishView (genOf S i) v owner \<Longrightarrow> genMove S S'"
  by (auto simp: finish_eq move_defs publish_def retireGeneration_def updGen_def nth_upd)

lemma genMove_superseded: "genMove S (superseded i S)"
  by (simp add: superseded_def genMove_setSetup genMove_refl)

lemma genMove_finishSetup: "finishView (genOf S i) v owner \<Longrightarrow> genMove S (finishSetup i v owner result S)"
  using genMove_finish[of i v owner S]
  by (cases "finish i v owner S") (simp_all add: finishSetup_def genMove_superseded genMove_setSetup)

lemma genMove_ends:
  "genMove S (failSetup i reason result S)" "genMove S (caught i S)" "genMove S (failedStep i reason S)"
  "consistentView v \<Longrightarrow> dv_generation v = g_generation (genOf S i) \<or> dv_generation v = g_generation (genOf S i) + 1 \<Longrightarrow>
   dv_state v \<noteq> Dev_ready \<Longrightarrow> dv_state v \<noteq> Dev_initializing \<Longrightarrow> genMove S (finishOk i v S)"
  by (simp_all add: failSetup_def caught_def failedStep_def finishOk_def genMove_superseded genMove_finishSetup finishView_def)

lemma genMove_signal:
  assumes inv: "resInv S" and i: "i < length (ds_gens S)" and begun: "g_steps (genOf S i) For_engine \<noteq> Step_none \<or> g_leaked (genOf S i)"
  shows "genMove S (onEngineSignal i sig S)"
proof -
  have "g_deviceId (genOf S i) \<noteq> None" using res_gen[OF inv i] begun by (auto simp: genOk_def idInv_def)
  then show ?thesis
    unfolding onEngineSignal_def Let_def
    by (cases sig) (auto simp: genMove_refl finishView_def split: option.split intro: genMove_finish)
qed

lemma startStep_same: "g_principal (startStep st g) = g_principal g \<and> g_generation (startStep st g) = g_generation g"
  by (simp add: startStep_def)

lemma adopt_same:
  "g_principal (adoptStore s g) = g_principal g \<and> g_generation (adoptStore s g) = g_generation g"
  "g_principal (adoptEngine s g) = g_principal g \<and> g_generation (adoptEngine s g) = g_generation g"
  by (simp_all add: adoptStore_def adoptEngine_def)

lemma genMove_startEngine: "genMove S S' \<Longrightarrow> genMove S (startEngine i session S')"
  unfolding startEngine_def by (rule genMove_upd) simp_all

lemma genMove_afterLock: "genMove S (afterLock i acquisition S)"
  by (cases acquisition) (auto simp: afterLock_def genMove_superseded genMove_ends intro: genMove_upd[OF genMove_refl])

lemma genMove_confirm: "genMove S (confirmIdentity i confirmed state S)"
  by (auto simp: confirmIdentity_def Let_def genMove_superseded genMove_ends genMove_finishSetup finishView_def
      intro: genMove_setSetup genMove_refl split: identityState.split)

lemma genMove_afterCredentials: "genMove S (afterCredentials i c S)"
proof (cases c)
  case (Credentials_revoked d)
  have "genMove S (finishOk i (makeView Dev_revoked (g_generation (genOf S i) + 1) (Some d) (Some Revoked_by_owner))
      (updGen i (\<lambda>g. g\<lparr>g_deviceId := Some d\<rparr>) S))"
    by (rule genMove_after[where f = "\<lambda>g. g\<lparr>g_deviceId := Some d\<rparr>" and i = i], simp)
      (rule genMove_ends(4); cases "i < length (ds_gens S)"; simp add: list_update_beyond)
  then show ?thesis using Credentials_revoked by (simp add: afterCredentials_def Let_def genMove_superseded)
next
  case (Credentials_ok session)
  then show ?thesis
    by (auto simp: afterCredentials_def Let_def genMove_superseded startStep_def intro!: genMove_upd[OF genMove_refl])
qed (simp_all add: afterCredentials_def Let_def genMove_superseded genMove_ends)

lemma genMove_afterIdentity: "genMove S (afterIdentity i session local marker S)"
proof (cases "checkIdentity marker session local")
  case Enrol
  then show ?thesis
    by (auto simp: afterIdentity_def Let_def genMove_superseded startStep_def intro!: genMove_upd[OF genMove_refl])
next
  case Resume
  then show ?thesis
    by (auto simp: afterIdentity_def Let_def genMove_superseded intro!: genMove_startEngine genMove_upd[OF genMove_refl])
qed (simp add: afterIdentity_def Let_def genMove_superseded genMove_ends)

lemma genMove_afterStep: "afterStep i st out S = Some S' \<Longrightarrow> genMove S S'"
proof (cases out)
  case (Fulfilled v)
  assume a: "afterStep i st out S = Some S'"
  have e: "genMove S (superseded i (updGen i (\<lambda>g. g\<lparr>g_enrolled := m\<rparr>) S))" for m
    by (simp add: superseded_def genMove_setSetup genMove_upd genMove_refl)
  show ?thesis
    using a Fulfilled e genMove_afterCredentials genMove_afterIdentity
    by (cases st; cases v) (auto simp: Let_def intro!: genMove_startEngine genMove_upd[OF genMove_refl] simp: adopt_same split: if_splits)
qed (cases st; auto simp: genMove_ends genMove_superseded)+

text \<open>The one publication of a setup that does not end its generation.\<close>

definition readyMove :: "nat \<Rightarrow> devService \<Rightarrow> devService \<Rightarrow> bool" where
  "readyMove i S S' \<longleftrightarrow> (\<exists>session v. g_setup (genOf S i) = Confirmed_ready session
     \<and> v = makeView Dev_ready (g_generation (genOf S i)) (Some (se_deviceId session)) None
     \<and> sameGens S S' \<and> ds_requests S' = ds_requests S \<and> ds_epoch S' = ds_epoch S \<and> ds_live S' = ds_live S
     \<and> published S S' v (Some (g_ownerId (genOf S i))))"

lemma move_continueSetup: "continueSetup i S = Some S' \<Longrightarrow> genMove S S' \<or> readyMove i S S'"
proof (cases "g_setup (genOf S i)")
  case (Confirmed_ready session)
  assume "continueSetup i S = Some S'"
  then have "readyMove i S S'"
    using Confirmed_ready by (auto simp: continueSetup_def Let_def readyMove_def setSetup_def move_defs publish_def updGen_def nth_upd)
  then show ?thesis by simp
next
  case (Settled st out)
  assume "continueSetup i S = Some S'"
  then show ?thesis using Settled genMove_afterStep by (simp add: continueSetup_def)
qed (auto simp: continueSetup_def Let_def genMove_superseded genMove_ends genMove_setSetup genMove_refl startStep_same
    intro!: genMove_upd[OF genMove_refl] split: if_splits)

lemma genMove_genMoves:
  assumes m: "genMoves i f S = Some S'" and i: "i < length (ds_gens S)" and inv: "resInv S"
    and f: "\<And>g g'. genOk g \<Longrightarrow> f g = Some g' \<Longrightarrow> genOk g' \<and> steady g g'"
  shows "genMove S S'"
proof -
  obtain g where g: "f (genOf S i) = Some g" and S': "S' = updGen i (\<lambda>_. g) S"
    using m by (auto simp: genMoves_def)
  have "steady (genOf S i) g" using f[OF res_gen[OF inv i] g] by simp
  then show ?thesis unfolding S' steady_def by (auto simp: move_defs nth_upd)
qed

lemma genMove_setUse: "genMove S S' \<Longrightarrow> genMove S (setUse u t S')"
  by (simp add: setUse_def move_defs)

lemma genMove_confirmHolder: "genMove S (confirmHolder u i confirmed state S)"
  unfolding confirmHolder_def Let_def
  using genMove_finish[of i "locked (g_generation (genOf S i)) (g_deviceId (genOf S i))" "Some (g_ownerId (genOf S i))" S]
    genMove_finish[of i "cleared (genOf S i)" None S]
  by (simp add: finishView_def genMove_setUse genMove_refl split: option.split)

lemma genMove_uses:
  "useIdentity u state S = Some S' \<Longrightarrow> genMove S S'" "continueUse u S = Some S' \<Longrightarrow> genMove S S'"
  "abortUse u S = Some S' \<Longrightarrow> genMove S S'" "operationEnds u answer S = Some S' \<Longrightarrow> genMove S S'" "genMove S (startUse owner S)"
  by (auto simp: useIdentity_def continueUse_def abortUse_def operationEnds_def genMove_confirmHolder genMove_setUse genMove_refl
      split: useTask.splits devRequest.splits if_splits) (simp add: startUse_def move_defs)

lemma genMove_setups:
  "setupIdentity i state S = Some S' \<Longrightarrow> genMove S S'" "engineStarts i answer S = Some S' \<Longrightarrow> genMove S S'"
  by (cases "g_setup (genOf S i)"; auto simp: setupIdentity_def engineStarts_def genMove_confirm genMove_ends genMove_setSetup
      genMove_refl split: option.splits)+

text \<open>The events of requests, of \<open>stop\<close> and of \<open>acceptLoss\<close>; every other event moves a generation.\<close>

fun requestEvent :: "devEvent \<Rightarrow> bool" where
  "requestEvent (Ensure_ready _) = True"
| "requestEvent Stop = True"
| "requestEvent (Accept_loss _) = True"
| "requestEvent (Request_identity _ _) = True"
| "requestEvent (Request_continues _) = True"
| "requestEvent (Request_settles _) = True"
| "requestEvent (Marker_cleared _ _) = True"
| "requestEvent _ = False"

lemma step_moves:
  assumes inv: "resInv S" and s: "devStep e S = Some S'" and r: "\<not> requestEvent e"
  shows "genMove S S' \<or> (\<exists>i. e = Setup_continues i \<and> i < length (ds_gens S) \<and> readyMove i S S')"
proof (cases e)
  case (Step_settles i k v)
  then show ?thesis using s genMove_genMoves[OF _ _ inv stepSettles_ok] by (auto simp: onGen_def split: if_splits)
next
  case (Step_times_out i)
  then show ?thesis using s genMove_genMoves[OF _ _ inv stepTimesOut_ok] by (auto simp: onGen_def split: if_splits)
next
  case (Straggler_moves i k)
  then show ?thesis using s genMove_genMoves[OF _ _ inv stragglerMoves_ok] by (auto simp: onGen_def split: if_splits)
next
  case (Engine_closes i b)
  then show ?thesis using s genMove_genMoves[OF _ _ inv engineCloses_ok] by (auto simp: onGen_def split: if_splits)
next
  case (Stragglers_settle i)
  then show ?thesis using s genMove_genMoves[OF _ _ inv stragglersSettle_ok] by (auto simp: onGen_def split: if_splits)
next
  case (Store_closes i)
  then show ?thesis using s genMove_genMoves[OF _ _ inv storeCloses_ok] by (auto simp: onGen_def split: if_splits)
next
  case (Lock_answers i a)
  then show ?thesis using s genMove_afterLock by (auto simp: onGen_def split: if_splits)
next
  case (Lock_throws i)
  then show ?thesis using s genMove_ends by (auto simp: onGen_def split: if_splits)
next
  case (Setup_identity i st)
  then show ?thesis using s genMove_setups by (auto simp: onGen_def split: if_splits)
next
  case (Setup_continues i)
  then show ?thesis using s move_continueSetup by (auto simp: onGen_def split: if_splits)
next
  case (Late_closes i)
  then show ?thesis using s genMove_superseded by (auto simp: onGen_def split: if_splits)
next
  case (Engine_starts i a)
  then show ?thesis using s genMove_setups by (auto simp: onGen_def split: if_splits)
next
  case (Engine_signals i sig)
  then show ?thesis using s genMove_signal[OF inv, of i sig] genMove_refl by (auto simp: onGen_def split: if_splits)
next
  case (Register_wipe i d)
  have "g_principal ((fst \<circ> onEnd d) g) = g_principal g \<and> g_generation ((fst \<circ> onEnd d) g) = g_generation g" for g
    by (simp add: onEnd_def)
  then show ?thesis using Register_wipe s genMove_upd[OF genMove_refl, of "fst \<circ> onEnd d"] by (auto simp: onGen_def split: if_splits)
qed (use s r genMove_uses in \<open>auto split: if_splits\<close>)

text \<open>What a step publishes, and when.\<close>

inductive publishes :: "devService \<Rightarrow> devEvent \<Rightarrow> deviceView \<Rightarrow> ustring option \<Rightarrow> bool" where
  by_finish: "ds_live S = Some i \<Longrightarrow> finishView (genOf S i) v owner \<Longrightarrow> publishes S e v owner"
| by_orphan: "ds_live S = None \<Longrightarrow> dv_state (ds_view S) = Dev_ready \<or> dv_state (ds_view S) = Dev_initializing \<Longrightarrow>
    publishes S e (makeView Dev_new (Suc (dv_generation (ds_view S))) None None) None"
| by_drop: "ds_viewOwner S \<noteq> Some (ap_ownerId p) \<Longrightarrow>
    publishes S (Request_identity q (Signed_in p)) (makeView Dev_new (Suc (dv_generation (ds_view S))) None None) None"
| by_sign_out: "\<not> terminalView (ds_view S) \<Longrightarrow> publishes S e (locked (dv_generation (ds_view S)) d) owner"
| by_open: "ds_live S = None \<Longrightarrow> \<not> (ds_viewOwner S = Some (ap_ownerId p) \<and> terminalView (ds_view S)) \<Longrightarrow>
    publishes S (Request_identity q (Signed_in p)) (makeView Dev_initializing (Suc (dv_generation (ds_view S))) d None) owner"
| by_reopen: "ds_live S = None \<Longrightarrow> q < length (ds_requests S) \<Longrightarrow> ds_requests S ! q = Req_retiring p (ds_epoch S) same i \<Longrightarrow>
    publishes S (Request_continues q) (makeView Dev_initializing (Suc (dv_generation (ds_view S))) d None) owner"
| by_ready: "i < length (ds_gens S) \<Longrightarrow> g_setup (genOf S i) = Confirmed_ready session \<Longrightarrow>
    publishes S (Setup_continues i) (makeView Dev_ready (g_generation (genOf S i)) (Some (se_deviceId session)) None)
      (Some (g_ownerId (genOf S i)))"
| by_stop: "publishes S Stop (makeView Dev_new (Suc (dv_generation (ds_view S))) None None) None"
| by_accept: "dv_state (ds_view S) = Dev_lost \<Longrightarrow>
    publishes S (Marker_cleared a True) (makeView Dev_new (dv_generation (ds_view S)) None None) (ds_viewOwner S)"

text \<open>A step leaves the view alone or publishes for one of these reasons.\<close>

definition viewMove :: "devService \<Rightarrow> devEvent \<Rightarrow> devService \<Rightarrow> bool" where
  "viewMove S e S' \<longleftrightarrow> sameView S S' \<or> (\<exists>v owner. publishes S e v owner \<and> published S S' v owner)"

lemma viewMove_publish:
  "publishes S e v owner \<Longrightarrow> sameView S S0 \<Longrightarrow> viewMove S e (publish v owner S0)"
  by (auto simp: viewMove_def sameView_def published_def publish_def)

lemma sameView_simps [simp]:
  "sameView S S" "sameView S (retireGeneration i S)" "sameView S (setRequest q r S)"
  "sameView S (retireGeneration i (S\<lparr>ds_epoch := n, ds_inflight := x\<rparr>))" "sameView S (S\<lparr>ds_epoch := n, ds_inflight := x\<rparr>)"
  "sameView S (S\<lparr>ds_gens := gs, ds_live := l\<rparr>)" "sameView S (S\<lparr>ds_losses := ls\<rparr>)" "sameView S (S\<lparr>ds_inflight := x\<rparr>)"
  by (simp_all add: sameView_def retireGeneration_def updGen_def setRequest_def)

lemma viewMove_simps [simp]:
  "viewMove S e (setRequest q r S') \<longleftrightarrow> viewMove S e S'" "viewMove S e S" "viewMove S e (retireGeneration i S)"
  by (auto simp: viewMove_def sameView_def published_def setRequest_def retireGeneration_def updGen_def)

lemma view_orphan: "ds_live S = None \<Longrightarrow> viewMove S e (settleOrphan S)"
  by (auto simp: settleOrphan_def intro!: viewMove_publish by_orphan)

lemma view_signedOut: "viewMove S e (signedOutLoop q requested d owner S)"
  by (simp add: signedOutLoop_def Let_def view_orphan viewMove_publish by_sign_out split: option.split)

lemma view_open:
  assumes "\<And>d owner. ds_live S = None \<Longrightarrow> requested = ds_epoch S \<Longrightarrow>
    publishes S e (makeView Dev_initializing (Suc (dv_generation (ds_view S))) d None) owner"
  shows "viewMove S e (initialiseLoop q p requested same S)"
  using assms by (simp add: initialiseLoop_def Let_def view_orphan openGeneration_def viewMove_publish split: option.split)

lemma view_dropOthers: "viewMove S (Request_identity q (Signed_in p)) (dropOthers q p S)"
  using by_drop[of S p q] by_finish[of S _ "cleared _" None]
  by (auto simp: dropOthers_def Let_def finish_def finishView_def intro!: viewMove_publish split: option.split)

lemma view_ensure: "viewMove S (Request_identity q state) (ensure q owner requested state S)"
proof (cases state)
  case (Signed_in p)
  have "viewMove S (Request_identity q (Signed_in p)) (initialise q p r S)" for r
    unfolding initialise_def Let_def using by_open[of S p q] by (auto intro!: view_open)
  then show ?thesis using Signed_in by (simp add: ensure_def view_dropOthers)
qed (simp_all add: ensure_def signedOut_def view_signedOut)

lemma view_continueRequest:
  "q < length (ds_requests S) \<Longrightarrow> continueRequest q S = Some S' \<Longrightarrow> viewMove S (Request_continues q) S'"
proof (cases "ds_requests S ! q")
  case (Req_retiring p requested same i)
  assume q: "q < length (ds_requests S)" and c: "continueRequest q S = Some S'"
  have "viewMove S (Request_continues q) (initialiseLoop q p requested same S)"
    using Req_retiring q by (auto intro!: view_open by_reopen)
  then show ?thesis using c Req_retiring by (auto simp: continueRequest_def split: if_splits)
qed (auto simp: continueRequest_def view_signedOut split: if_splits setupState.splits)

lemma view_step:
  assumes inv: "resInv S" and s: "devStep e S = Some S'"
  shows "viewMove S e S'"
proof (cases "requestEvent e")
  case False
  from step_moves[OF inv s False] show ?thesis
  proof (elim disjE exE conjE)
    assume "genMove S S'"
    then show ?thesis by (auto simp: genMove_def viewMove_def intro: by_finish)
  next
    fix i
    assume "e = Setup_continues i" "i < length (ds_gens S)" "readyMove i S S'"
    then show ?thesis by (auto simp: readyMove_def viewMove_def intro: by_ready)
  qed
next
  case True
  then show ?thesis
  proof (cases e)
    case (Request_identity q st)
    then show ?thesis using s view_ensure by (auto split: if_splits devRequest.splits)
  next
    case (Request_continues q)
    then show ?thesis using s view_continueRequest by (auto split: if_splits)
  next
    case Stop
    then show ?thesis using s by (auto simp: stop_def Let_def intro!: viewMove_publish by_stop split: option.split)
  next
    case (Marker_cleared a b)
    then show ?thesis using s by_accept[of S a]
      by (auto simp: markerCleared_def Let_def viewMove_def sameView_def published_def publish_def split: if_splits lossTask.splits)
  next
    case (Request_settles q)
    then show ?thesis using s by (auto simp: settleRequest_def viewMove_def split: if_splits devRequest.splits)
  next
    case (Ensure_ready owner)
    then show ?thesis using s by (auto simp: track_def viewMove_def sameView_def)
  next
    case (Accept_loss owner)
    then show ?thesis using s by (auto simp: acceptLoss_def viewMove_def sameView_def)
  qed simp_all
qed

end
