(* ===== verification/BrowserDeviceRuns.thy ===== *)
theory BrowserDeviceRuns
  imports BrowserDeviceProperties
begin

text \<open>
  Properties of the browser device service over all runs: what its views say, that a lost or revoked device stays so, that
  only one engine of an owner is open, and a run from \<open>ensureReady\<close> to \<open>ready\<close>. \<open>devOrderly\<close> are the runs without the raced
  publication; the last section shows what the raced one does.
\<close>

section \<open>Views\<close>

text \<open>The object \<open>deviceView\<close> freezes.\<close>

definition viewObject :: "deviceView \<Rightarrow> jsval" where
  "viewObject v = JObj True
     [(js ''deviceId'', jnullable JStr (dv_deviceId v)),
      (js ''state'', JStr (js (litStr deviceStates (dv_state v)))),
      (js ''generation'', jnat (dv_generation v)),
      (js ''reason'', jnullable (\<lambda>r. JStr (js (litStr DEVICE_REASONS r))) (dv_reason v))]"

lemma viewObject_decodes:
  assumes c: "consistentView v" and d: "\<And>d. dv_deviceId v = Some d \<Longrightarrow> wfId d" and n: "safeNat (dv_generation v)"
  shows "decodeDeviceView (viewObject v) = Inr v"
proof -
  have "exactObject (viewObject v) [''deviceId'', ''state'', ''generation'', ''reason'']"
    by (simp add: viewObject_def exactObject_def)
  then show ?thesis
    using c d n unfolding decodeDeviceView_eq
    by (auto simp: viewObject_def propOf_def consistentView_def NEEDS_ID_def NEEDS_REASON_def)
qed

lemma published_consistent: "publishes S e v owner \<Longrightarrow> consistentView v"
  by (cases rule: publishes.cases) (auto simp: finishView_def)

lemma views_consistent: "devReachable S \<Longrightarrow> consistentView (ds_view S) \<and> (\<forall>v \<in> set (ds_published S). consistentView v)"
proof (induction rule: devReachable.induct)
  case devStart
  show ?case by (simp add: createBrowserDeviceService_def)
next
  case (devNext S e S')
  have "viewMove S e S'" using res_reachable[OF devNext(1)] devNext(2) by (rule view_step)
  then show ?case using devNext published_consistent by (auto simp: viewMove_def sameView_def published_def)
qed

lemma ready_published:
  assumes r: "devReachable S" and s: "devStep e S = Some S'" and p: "ds_published S' = ds_published S @ [v]"
    and ready: "dv_state v = Dev_ready"
  shows "\<exists>i session. e = Setup_continues i \<and> i < length (ds_gens S) \<and> g_setup (genOf S i) = Confirmed_ready session
    \<and> v = makeView Dev_ready (g_generation (genOf S i)) (Some (se_deviceId session)) None
    \<and> ds_viewOwner S' = Some (g_ownerId (genOf S i)) \<and> passed (genOf S i) session"
proof -
  note inv = res_reachable[OF r]
  obtain owner where w: "publishes S e v owner" "ds_viewOwner S' = owner"
    using view_step[OF inv s] p by (auto simp: viewMove_def sameView_def published_def)
  from w(1) show ?thesis
  proof cases
    case (by_ready i session)
    then have "passed (genOf S i) session" using res_gen[OF inv, of i] by (simp add: genOk_def checkedInv_def)
    then show ?thesis using by_ready w by auto
  qed (use ready in \<open>auto simp: finishView_def\<close>)
qed

text \<open>What the identity check accepts: the published keys, and those of the marker when there is one for the device.\<close>

definition sameKeys :: "identityMarker option \<Rightarrow> substrateSession \<Rightarrow> localIdentity \<Rightarrow> bool" where
  "sameKeys marker session local \<longleftrightarrow>
     (\<forall>f. se_publishedFingerprint session = Some f \<longrightarrow> f = li_fingerprint local)
     \<and> (\<forall>m. marker = Some m \<longrightarrow> im_deviceId m = se_deviceId session \<longrightarrow> im_fingerprint m = li_fingerprint local \<and> \<not> li_created local)"

lemma check_accepts: "checkIdentity m s l = Enrol \<or> checkIdentity m s l = Resume \<Longrightarrow> sameKeys m s l"
  by (auto simp: checkIdentity_def sameKeys_def Let_def split: option.splits if_splits)

lemma check_resumes: "checkIdentity m s l = Resume \<Longrightarrow> m = Some (markerFor s l)"
  by (cases m) (auto simp: checkIdentity_def markerFor_def Let_def split: if_splits)

lemma passed_keys:
  "passed g s \<Longrightarrow> \<exists>m l. g_checked g = Some (m, s, l) \<and> sameKeys m s l \<and> (m = Some (markerFor s l) \<or> g_enrolled g = Some (markerFor s l))"
  unfolding passed_def using check_accepts check_resumes by blast

lemma open_held: "genOk g \<Longrightarrow> g_engineOpen g \<or> g_storeOpen g \<Longrightarrow> g_leaseHeld g"
  by (cases "g_closing g") (auto simp: genOk_def heldInv_def split: if_splits)

section \<open>Orderly runs\<close>

inductive devOrderly :: "devService \<Rightarrow> bool" where
  orderlyStart: "devOrderly createBrowserDeviceService"
| orderlyNext: "devOrderly S \<Longrightarrow> devStep e S = Some S' \<Longrightarrow> \<not> racedReady S e \<Longrightarrow> devOrderly S'"

lemma orderly_reachable: "devOrderly S \<Longrightarrow> devReachable S"
  by (induction rule: devOrderly.induct) (auto intro: devReachable.intros)

text \<open>The view describes the live generation.\<close>

definition viewInv :: "devService \<Rightarrow> bool" where
  "viewInv S \<longleftrightarrow> (\<forall>i. ds_live S = Some i \<longrightarrow> ds_viewOwner S = Some (g_ownerId (genOf S i))
     \<and> dv_generation (ds_view S) = g_generation (genOf S i)
     \<and> (dv_state (ds_view S) = Dev_initializing \<or> dv_state (ds_view S) = Dev_ready))"

text \<open>The number of a request that still waits; only the newest may retire or open a generation.\<close>

fun reqNo :: "devRequest \<Rightarrow> nat option" where
  "reqNo (Req_identity _ n) = Some n"
| "reqNo (Req_signing_out n _ _ _) = Some n"
| "reqNo (Req_retiring _ n _ _) = Some n"
| "reqNo _ = None"

text \<open>What a step does to waiting requests: their numbers stay, and a new request has a new epoch.\<close>

definition reqMove :: "devService \<Rightarrow> devService \<Rightarrow> bool" where
  "reqMove S S' \<longleftrightarrow> ds_epoch S \<le> ds_epoch S'
     \<and> (\<forall>q < length (ds_requests S'). \<forall>n. reqNo (ds_requests S' ! q) = Some n \<longrightarrow>
          q < length (ds_requests S) \<and> reqNo (ds_requests S ! q) = Some n
          \<or> q = length (ds_requests S) \<and> n = ds_epoch S' \<and> ds_epoch S' = ds_epoch S + 1)"

definition numbered :: "devService \<Rightarrow> bool" where
  "numbered S \<longleftrightarrow>
     (\<forall>q < length (ds_requests S). \<forall>n. reqNo (ds_requests S ! q) = Some n \<longrightarrow> n \<le> ds_epoch S)
     \<and> (\<forall>q < length (ds_requests S). \<forall>r < length (ds_requests S).
          reqNo (ds_requests S ! q) = Some (ds_epoch S) \<longrightarrow> reqNo (ds_requests S ! r) = Some (ds_epoch S) \<longrightarrow> q = r)"

lemma numbered_move:
  assumes m: "reqMove S S'" and n: "numbered S"
  shows "numbered S'"
proof -
  let ?old = "\<lambda>q n. q < length (ds_requests S) \<and> reqNo (ds_requests S ! q) = Some n"
  have old: "?old q n \<Longrightarrow> n \<le> ds_epoch S" for q n using n unfolding numbered_def by blast
  have one: "?old q (ds_epoch S) \<Longrightarrow> ?old r (ds_epoch S) \<Longrightarrow> q = r" for q r using n unfolding numbered_def by blast
  have e: "ds_epoch S \<le> ds_epoch S'" using m by (simp add: reqMove_def)
  have step: "?old q n \<or> q = length (ds_requests S) \<and> n = ds_epoch S' \<and> ds_epoch S' = ds_epoch S + 1"
    if "q < length (ds_requests S')" "reqNo (ds_requests S' ! q) = Some n" for q n
    using m that by (simp add: reqMove_def)
  have "n \<le> ds_epoch S'" if "q < length (ds_requests S')" "reqNo (ds_requests S' ! q) = Some n" for q n
    using step[OF that] old[of q n] e by linarith
  moreover have "q = r" if q: "q < length (ds_requests S')" "reqNo (ds_requests S' ! q) = Some (ds_epoch S')"
    and r: "r < length (ds_requests S')" "reqNo (ds_requests S' ! r) = Some (ds_epoch S')" for q r
    using step[OF q] step[OF r] old[of q "ds_epoch S'"] old[of r "ds_epoch S'"] one[of q r] e
    by (cases "ds_epoch S' = ds_epoch S") auto
  ultimately show ?thesis by (simp add: numbered_def)
qed

lemma reqMove_same: "ds_requests S' = ds_requests S \<Longrightarrow> ds_epoch S \<le> ds_epoch S' \<Longrightarrow> reqMove S S'"
  by (simp add: reqMove_def)

lemma reqMove_set:
  "ds_requests S' = (ds_requests S)[q := r] \<Longrightarrow> ds_epoch S' = ds_epoch S \<Longrightarrow> q < length (ds_requests S) \<Longrightarrow>
   reqNo r = None \<or> reqNo r = reqNo (ds_requests S ! q) \<Longrightarrow> reqMove S S'"
  by (auto simp: reqMove_def nth_list_update)

lemma frames [simp]:
  "ds_requests (publish v owner S) = ds_requests S" "ds_epoch (publish v owner S) = ds_epoch S"
  "ds_requests (settleOrphan S) = ds_requests S" "ds_epoch (settleOrphan S) = ds_epoch S"
  "ds_requests (retireGeneration i S) = ds_requests S" "ds_epoch (retireGeneration i S) = ds_epoch S"
  "ds_requests (setRequest q r S) = (ds_requests S)[q := r]" "ds_epoch (setRequest q r S) = ds_epoch S"
  "ds_live (retireGeneration i S) = None" "ds_live (settleOrphan S) = ds_live S" "ds_gens (settleOrphan S) = ds_gens S"
  "ds_view (setRequest q r S) = ds_view S" "ds_viewOwner (setRequest q r S) = ds_viewOwner S" "ds_view (publish v owner S) = v"
  "ds_viewOwner (publish v owner S) = owner" "ds_view (retireGeneration i S) = ds_view S"
  "ds_viewOwner (retireGeneration i S) = ds_viewOwner S"
  by (simp_all add: publish_def settleOrphan_def retireGeneration_def setRequest_def)

lemma sameView_set [simp]: "sameView S (setRequest q r S') \<longleftrightarrow> sameView S S'"
  by (simp add: sameView_def setRequest_def)

text \<open>Moves of one request, from where it waits with its number.\<close>

definition liveOpened :: "devService \<Rightarrow> nat \<Rightarrow> devService \<Rightarrow> bool" where
  "liveOpened S q S' \<longleftrightarrow> (\<exists>p d. reqNo (ds_requests S ! q) = Some (ds_epoch S) \<and> ds_live S = None
     \<and> ds_live S' = Some (length (ds_gens S)) \<and> ds_requests S' = (ds_requests S)[q := Req_setup (length (ds_gens S))]
     \<and> ds_gens S' = ds_gens S @ [openGeneration p (dv_generation (ds_view S) + 1) d]
     \<and> ds_view S' = makeView Dev_initializing (dv_generation (ds_view S) + 1) d None \<and> ds_viewOwner S' = Some (ap_ownerId p))"

definition retiring :: "devService \<Rightarrow> nat \<Rightarrow> bool" where
  "retiring S q \<longleftrightarrow> (\<exists>p n same i. ds_requests S ! q = Req_retiring p n same i)"

definition reqStep :: "nat \<Rightarrow> devService \<Rightarrow> devService \<Rightarrow> bool" where
  "reqStep q S S' \<longleftrightarrow> reqMove S S' \<and> ds_epoch S' = ds_epoch S
     \<and> (\<forall>r. r \<noteq> q \<longrightarrow> ds_requests S' ! r = ds_requests S ! r) \<and> length (ds_requests S') = length (ds_requests S)
     \<and> (liveOpened S q S'
        \<or> ds_gens S' = ds_gens S \<and> ds_live S' = ds_live S \<and> \<not> retiring S' q \<and> (ds_live S = None \<or> sameView S S')
        \<or> (\<exists>i. ds_live S = Some i \<and> ds_live S' = None \<and> sameGens S S' \<and> (retiring S' q \<longrightarrow> sameView S S')))"

lemma sameGens_retire: "sameGens S (retireGeneration i S)"
  by (simp add: sameGens_def retireGeneration_def nth_upd)

lemma loop_step:
  assumes q: "q < length (ds_requests S)" and n: "reqNo (ds_requests S ! q) = Some n"
  shows "reqStep q S (signedOutLoop q n d owner S)" "reqStep q S (initialiseLoop q p n same S)"
proof -
  show "reqStep q S (signedOutLoop q n d owner S)"
    using q n sameGens_retire by (auto simp: signedOutLoop_def Let_def reqStep_def retiring_def sameGens_def split: option.split intro!: reqMove_set)
  show "reqStep q S (initialiseLoop q p n same S)"
    using q n sameGens_retire by (auto simp: initialiseLoop_def Let_def reqStep_def retiring_def liveOpened_def openGeneration_def sameGens_def
        split: option.split intro!: reqMove_set)
qed

lemma done_step:
  "q < length (ds_requests S) \<Longrightarrow> reqNo r = None \<Longrightarrow> ds_requests S' = (ds_requests S)[q := r] \<Longrightarrow> ds_epoch S' = ds_epoch S \<Longrightarrow>
   ds_gens S' = ds_gens S \<Longrightarrow> ds_live S' = ds_live S \<Longrightarrow> ds_live S = None \<or> sameView S S' \<Longrightarrow> reqStep q S S'"
  by (auto simp: reqStep_def retiring_def intro!: reqMove_set)

lemma finish_step:
  "q < length (ds_requests S) \<Longrightarrow> reqNo r = None \<Longrightarrow> ds_live S = Some i \<Longrightarrow>
   reqStep q S (setRequest q r (publish v owner (retireGeneration i S)))"
  using sameGens_retire[of S i] by (auto simp: reqStep_def retiring_def sameGens_def intro!: reqMove_set)

lemma refuse_steps:
  assumes "q < length (ds_requests S)"
  shows "reqStep q S (setRequest q (Req_done x) S)" "ds_live S = None \<Longrightarrow> reqStep q S (setRequest q (Req_done x) (publish v owner S))"
  by (rule done_step[OF assms]; simp)+

lemma dropOthers_step: "q < length (ds_requests S) \<Longrightarrow> reqStep q S (dropOthers q p S)"
  by (simp add: dropOthers_def Let_def finish_def refuse_steps finish_step split: option.split)

lemma ensure_step:
  assumes q: "q < length (ds_requests S)" and n: "ds_requests S ! q = Req_identity owner n"
  shows "reqStep q S (ensure q owner n state S)"
proof -
  have no: "reqNo (ds_requests S ! q) = Some n" using n by simp
  show ?thesis
    unfolding ensure_def signedOut_def initialise_def Let_def
    using dropOthers_step[OF q] loop_step[OF q no]
    by (cases "n = ds_epoch S") (simp_all add: refuse_steps[OF q] split: identityState.split)
qed

lemma continueRequest_step:
  assumes q: "q < length (ds_requests S)" and c: "continueRequest q S = Some S'"
  shows "reqStep q S S'"
proof -
  have d: "reqStep q S (setRequest q (Req_done x) S)" for x by (rule done_step[OF q]) simp_all
  show ?thesis
    using c d loop_step[OF q] by (cases "ds_requests S ! q") (auto simp: continueRequest_def split: if_splits setupState.splits)
qed

text \<open>While the newest request waits for a generation to close, nothing is live and the device is neither lost nor revoked.\<close>

definition retInv :: "devService \<Rightarrow> bool" where
  "retInv S \<longleftrightarrow> (\<forall>q < length (ds_requests S). \<forall>p same i. ds_requests S ! q = Req_retiring p (ds_epoch S) same i \<longrightarrow>
     ds_live S = None \<and> \<not> terminalView (ds_view S))"

definition devInv :: "devService \<Rightarrow> bool" where
  "devInv S \<longleftrightarrow> resInv S \<and> viewInv S \<and> numbered S \<and> retInv S"

lemma viewMove_terminal:
  assumes m: "viewMove S e S'" and "ds_live S = None" "\<not> terminalView (ds_view S)"
  shows "\<not> terminalView (ds_view S')"
proof -
  have "publishes S e v owner \<Longrightarrow> \<not> terminalView v" for v owner
    by (cases rule: publishes.cases) (use assms(2) in auto)
  then show ?thesis using assms by (auto simp: viewMove_def sameView_def published_def)
qed

lemma devInv_request:
  assumes inv: "devInv S" and r: "reqStep q S S'" and q: "q < length (ds_requests S)" and v: "viewMove S e S'" and res: "resInv S'"
  shows "devInv S'"
proof -
  have n: "numbered S'" using r inv numbered_move by (auto simp: reqStep_def devInv_def)
  have live: "ds_live S = Some i \<Longrightarrow> i < length (ds_gens S)" for i using inv by (auto simp: devInv_def resInv_def)
  have w: "viewInv S'"
    using r inv live by (auto simp: reqStep_def devInv_def viewInv_def liveOpened_def sameView_def openGeneration_def nth_append)
  have "ds_live S' = None \<and> \<not> terminalView (ds_view S')"
    if k: "k < length (ds_requests S')" and e: "ds_requests S' ! k = Req_retiring p (ds_epoch S') same i" for k p same i
  proof (cases "k = q")
    case True
    have "retiring S' q" using e True by (auto simp: retiring_def)
    then have "\<exists>i. ds_live S = Some i \<and> ds_live S' = None \<and> sameView S S'"
      using r q by (auto simp: reqStep_def liveOpened_def retiring_def)
    then show ?thesis using inv by (auto simp: devInv_def viewInv_def sameView_def)
  next
    case False
    have old: "k < length (ds_requests S)" "ds_requests S ! k = Req_retiring p (ds_epoch S) same i"
      using r k e False by (auto simp: reqStep_def)
    then have idle: "ds_live S = None" "\<not> terminalView (ds_view S)" using inv by (auto simp: devInv_def retInv_def)
    have "\<not> liveOpened S q S'"
      using inv old q False by (auto simp: liveOpened_def devInv_def numbered_def)
    then have "ds_live S' = None" using r idle by (auto simp: reqStep_def)
    then show ?thesis using viewMove_terminal[OF v idle] by simp
  qed
  then show ?thesis using n w res by (simp add: devInv_def retInv_def)
qed

text \<open>A step that leaves the requests and their epoch alone.\<close>

lemma devInv_still:
  assumes inv: "devInv S" and e: "ds_requests S' = ds_requests S" "ds_epoch S' = ds_epoch S" and v: "viewMove S ev S'" and res: "resInv S'"
    and l: "ds_live S' = ds_live S \<or> ds_live S' = None" and w: "viewInv S'"
  shows "devInv S'"
proof -
  have "numbered S'" using numbered_move[OF reqMove_same] inv e by (simp add: devInv_def)
  moreover have "retInv S'"
    using inv e l viewMove_terminal[OF v] unfolding devInv_def retInv_def by fastforce
  ultimately show ?thesis using w res by (simp add: devInv_def)
qed

text \<open>A step that starts a new epoch.\<close>

lemma devInv_epoch:
  assumes inv: "devInv S" and m: "reqMove S S'" and e: "ds_epoch S' = ds_epoch S + 1" and res: "resInv S'" and w: "viewInv S'"
    and r: "\<And>q. q < length (ds_requests S') \<Longrightarrow> q = length (ds_requests S) \<Longrightarrow> \<not> retiring S' q"
  shows "devInv S'"
proof -
  have "\<not> reqNo (ds_requests S ! q) = Some (ds_epoch S')" if "q < length (ds_requests S)" for q
    using inv e that by (auto simp: devInv_def numbered_def)
  then have "retInv S'"
    using m r unfolding reqMove_def retInv_def retiring_def by (metis reqNo.simps(3))
  then show ?thesis using numbered_move[OF m] inv w res by (simp add: devInv_def)
qed

lemma devInv_step:
  assumes inv: "devInv S" and s: "devStep e S = Some S'" and race: "\<not> racedReady S e"
  shows "devInv S'"
proof -
  have ri: "resInv S" using inv by (simp add: devInv_def)
  note res = res_step[OF ri s] and v = view_step[OF ri s]
  have w0: "viewInv S" using inv by (simp add: devInv_def)
  show ?thesis
  proof (cases "requestEvent e")
    case False
    from step_moves[OF ri s False] show ?thesis
    proof (elim disjE exE conjE)
      assume m: "genMove S S'"
      have "viewInv S'" using m w0 ri by (auto simp: move_defs viewInv_def resInv_def)
      then show ?thesis using m by (intro devInv_still[OF inv _ _ v res]) (auto simp: genMove_def)
    next
      fix i
      assume i: "e = Setup_continues i" "i < length (ds_gens S)" and m: "readyMove i S S'"
      have "genLive (genOf S i)" using race i m by (auto simp: racedReady_def readyMove_def genLive_def)
      then have "ds_live S = Some i" using ri i by (simp add: resInv_def)
      then have "viewInv S'" using m i by (auto simp: readyMove_def viewInv_def sameGens_def published_def)
      then show ?thesis using m by (intro devInv_still[OF inv _ _ v res]) (auto simp: readyMove_def)
    qed
  next
    case True
    then show ?thesis
    proof (cases e)
      case (Request_identity q st)
      then obtain owner n where q: "q < length (ds_requests S)" "ds_requests S ! q = Req_identity owner n" "S' = ensure q owner n st S"
        using s by (auto split: if_splits devRequest.splits)
      show ?thesis using ensure_step[OF q(1,2)] q by (intro devInv_request[OF inv _ q(1) v res]) simp
    next
      case (Request_continues q)
      then have q: "q < length (ds_requests S)" "continueRequest q S = Some S'" using s by (auto split: if_splits)
      show ?thesis by (rule devInv_request[OF inv continueRequest_step[OF q] q(1) v res])
    next
      case Stop
      then have S': "S' = stop S" using s by simp
      have f: "ds_live S' = None" "ds_epoch S' = ds_epoch S + 1" "ds_requests S' = ds_requests S"
        unfolding S' stop_def Let_def by (simp_all split: option.split)
      then show ?thesis by (intro devInv_epoch[OF inv _ _ res]) (auto intro: reqMove_same simp: viewInv_def)
    next
      case (Marker_cleared a b)
      have live: "ds_live S = Some i \<Longrightarrow> dv_state (ds_view S) \<noteq> Dev_lost" for i using w0 by (auto simp: viewInv_def)
      have f: "ds_live S' = ds_live S" "ds_epoch S' = ds_epoch S" "ds_requests S' = ds_requests S" "ds_gens S' = ds_gens S"
        "ds_live S \<noteq> None \<Longrightarrow> sameView S S'"
        using s Marker_cleared live by (auto simp: markerCleared_def Let_def sameView_def split: if_splits lossTask.splits)
      then have "viewInv S'" using w0 by (auto simp: viewInv_def sameView_def)
      then show ?thesis using f by (intro devInv_still[OF inv _ _ v res]) simp_all
    next
      case (Request_settles q)
      have f: "ds_live S' = ds_live S" "ds_epoch S' = ds_epoch S" "ds_requests S' = ds_requests S" "ds_gens S' = ds_gens S" "sameView S S'"
        using s Request_settles by (auto simp: settleRequest_def sameView_def split: if_splits devRequest.splits)
      then have "viewInv S'" using w0 by (auto simp: viewInv_def sameView_def)
      then show ?thesis using f by (intro devInv_still[OF inv _ _ v res]) simp_all
    next
      case (Ensure_ready owner)
      show ?thesis
      proof (cases "S' = S")
        case False
        then have S': "S' = S\<lparr>ds_epoch := ds_epoch S + 1, ds_inflight := Some (owner, length (ds_requests S)),
             ds_requests := ds_requests S @ [Req_identity owner (ds_epoch S + 1)]\<rparr>"
          using s Ensure_ready by (auto simp: track_def split: if_splits)
        then show ?thesis
          using w0 by (intro devInv_epoch[OF inv _ _ res])
            (auto simp: reqMove_def viewInv_def retiring_def nth_append less_Suc_eq split: if_splits)
      qed (use inv in simp)
    next
      case (Accept_loss owner)
      have f: "ds_live S' = ds_live S" "ds_requests S' = ds_requests S" "ds_gens S' = ds_gens S" "sameView S S'"
        "ds_epoch S' = ds_epoch S \<or> ds_epoch S' = ds_epoch S + 1"
        using s Accept_loss by (auto simp: acceptLoss_def sameView_def split: if_splits)
      have w: "viewInv S'" using w0 f by (auto simp: viewInv_def sameView_def)
      show ?thesis using f(5)
      proof
        assume "ds_epoch S' = ds_epoch S"
        then show ?thesis using f w by (intro devInv_still[OF inv _ _ v res]) simp_all
      next
        assume "ds_epoch S' = ds_epoch S + 1"
        then show ?thesis using f w by (intro devInv_epoch[OF inv _ _ res]) (auto intro: reqMove_same)
      qed
    qed simp_all
  qed
qed

lemma devInv_orderly: "devOrderly S \<Longrightarrow> devInv S"
proof (induction rule: devOrderly.induct)
  case orderlyStart
  show ?case by (simp add: devInv_def resInv_def viewInv_def numbered_def retInv_def createBrowserDeviceService_def)
qed (rule devInv_step)

lemma terminal_step:
  assumes r: "devOrderly S" and s: "devStep e S = Some S'" and race: "\<not> racedReady S e" and t: "terminalView (ds_view S)"
  shows "sameView S S' \<or> e = Stop \<or> dv_state (ds_view S) = Dev_lost \<and> (\<exists>a. e = Marker_cleared a True)
    \<or> (\<exists>q p. e = Request_identity q (Signed_in p) \<and> ds_viewOwner S \<noteq> Some (ap_ownerId p))"
proof -
  note inv = devInv_orderly[OF r]
  have dead: "ds_live S = None" using inv t by (cases "ds_live S") (auto simp: devInv_def viewInv_def)
  have ri: "resInv S" using inv by (simp add: devInv_def)
  show ?thesis
  proof (cases "sameView S S'")
    case False
    then obtain v owner where "publishes S e v owner" using view_step[OF ri s] by (auto simp: viewMove_def)
    then show ?thesis
    proof cases
      case (by_reopen q p same i d)
      then show ?thesis using inv t by (auto simp: devInv_def retInv_def)
    next
      case (by_ready i session)
      then have "genLive (genOf S i)" using race by (auto simp: racedReady_def genLive_def)
      then show ?thesis using ri dead by_ready by (simp add: resInv_def)
    qed (use dead t in auto)
  qed simp
qed

lemma generation_step:
  assumes r: "devOrderly S" and s: "devStep e S = Some S'" and race: "\<not> racedReady S e"
  shows "dv_generation (ds_view S) \<le> dv_generation (ds_view S')"
proof -
  note inv = devInv_orderly[OF r]
  have ri: "resInv S" using inv by (simp add: devInv_def)
  have "dv_generation (ds_view S) \<le> dv_generation v" if "publishes S e v owner" for v owner
    using that
  proof cases
    case (by_ready i session)
    then have "ds_live S = Some i" using race ri by (auto simp: racedReady_def resInv_def genLive_def)
    then show ?thesis using inv by_ready by (simp add: devInv_def viewInv_def)
  next
    case (by_finish i)
    then show ?thesis using inv by (auto simp: devInv_def viewInv_def finishView_def)
  qed auto
  then show ?thesis using view_step[OF ri s] by (auto simp: viewMove_def sameView_def published_def)
qed

section \<open>Tasks that use the engine\<close>

text \<open>From its first confirmation on, a task works with a generation of the owner it was called for.\<close>

fun useGen :: "useTask \<Rightarrow> (ustring \<times> nat) option" where
  "useGen (Use_before owner i) = Some (owner, i)"
| "useGen (Use_confirmed owner i) = Some (owner, i)"
| "useGen (Use_running owner i) = Some (owner, i)"
| "useGen (Use_after owner i _) = Some (owner, i)"
| "useGen _ = None"

definition useInv :: "devService \<Rightarrow> bool" where
  "useInv S \<longleftrightarrow> (\<forall>u < length (ds_uses S). \<forall>owner i. useGen (ds_uses S ! u) = Some (owner, i) \<longrightarrow>
     i < length (ds_gens S) \<and> g_ownerId (genOf S i) = owner)"

definition gensKept :: "devService \<Rightarrow> devService \<Rightarrow> bool" where
  "gensKept S S' \<longleftrightarrow> length (ds_gens S) \<le> length (ds_gens S')
     \<and> (\<forall>i < length (ds_gens S). g_principal (genOf S' i) = g_principal (genOf S i))"

lemma gensKept_same: "ds_gens S' = ds_gens S \<Longrightarrow> gensKept S S'"
  by (simp add: gensKept_def)

lemma gensKept_sameGens: "sameGens S S' \<Longrightarrow> gensKept S S'"
  by (simp add: sameGens_def gensKept_def)

lemma gensKept_retire: "gensKept S (retireGeneration i S)" "gensKept S (retireGeneration i (S\<lparr>ds_epoch := n, ds_inflight := x\<rparr>))"
  by (simp_all add: gensKept_def retireGeneration_def nth_upd)

lemma gensKept_request: "reqStep q S S' \<Longrightarrow> gensKept S S'"
  by (auto simp: reqStep_def liveOpened_def gensKept_def sameGens_def nth_append)

lemma gensKept_step:
  assumes ri: "resInv S" and s: "devStep e S = Some S'"
  shows "gensKept S S'"
proof (cases "requestEvent e")
  case False
  from step_moves[OF ri s False] show ?thesis
    by (auto simp: genMove_def readyMove_def intro: gensKept_sameGens)
next
  case True
  then show ?thesis
  proof (cases e)
    case (Request_identity q st)
    then obtain owner n where "q < length (ds_requests S)" "ds_requests S ! q = Req_identity owner n" "S' = ensure q owner n st S"
      using s by (auto split: if_splits devRequest.splits)
    then show ?thesis using gensKept_request[OF ensure_step] by simp
  next
    case (Request_continues q)
    then have "q < length (ds_requests S)" "continueRequest q S = Some S'" using s by (auto split: if_splits)
    then show ?thesis by (rule gensKept_request[OF continueRequest_step])
  next
    case Stop
    then show ?thesis using s gensKept_retire by (auto simp: stop_def Let_def gensKept_def split: option.splits)
  qed (use s in \<open>auto simp: track_def acceptLoss_def settleRequest_def markerCleared_def Let_def intro!: gensKept_same
      split: if_splits devRequest.splits lossTask.splits\<close>)
qed

text \<open>Only the events of a use move it.\<close>

lemma uses_kept [simp]:
  "ds_uses (publish v owner S) = ds_uses S" "ds_uses (setRequest q r S) = ds_uses S" "ds_uses (retireGeneration i S) = ds_uses S"
  "ds_uses (settleOrphan S) = ds_uses S" "ds_uses (setSetup i st S) = ds_uses S" "ds_uses (superseded i S) = ds_uses S"
  "ds_uses (startEngine i session S) = ds_uses S"
  by (simp_all add: publish_def setRequest_def retireGeneration_def settleOrphan_def setSetup_def superseded_def startEngine_def)

lemma uses_finish: "finish i v owner S = Some S' \<Longrightarrow> ds_uses S' = ds_uses S"
  by (auto simp: finish_eq)

lemma uses_ends [simp]:
  "ds_uses (finishSetup i v owner result S) = ds_uses S" "ds_uses (failSetup i reason result S) = ds_uses S"
  "ds_uses (finishOk i v S) = ds_uses S" "ds_uses (caught i S) = ds_uses S" "ds_uses (failedStep i reason S) = ds_uses S"
  "ds_uses (onEngineSignal i sig S) = ds_uses S"
  by (simp_all add: finishSetup_def failSetup_def finishOk_def caught_def failedStep_def onEngineSignal_def Let_def uses_finish split: option.split)

lemma uses_setup [simp]:
  "ds_uses (afterLock i a S) = ds_uses S" "ds_uses (confirmIdentity i st state S) = ds_uses S"
  "ds_uses (afterCredentials i c S) = ds_uses S" "ds_uses (afterIdentity i session local marker S) = ds_uses S"
  by (simp_all add: afterLock_def confirmIdentity_def afterCredentials_def afterIdentity_def Let_def split: lockAcquisition.split
      identityState.split credentialResolution.split identityDecision.split)

lemma uses_afterStep: "afterStep i st out S = Some S' \<Longrightarrow> ds_uses S' = ds_uses S"
proof (cases out)
  case (Fulfilled v)
  assume "afterStep i st out S = Some S'"
  then show ?thesis using Fulfilled by (cases st; cases v) (auto simp: Let_def split: if_splits)
qed (cases st; auto)+

lemma uses_continueSetup: "continueSetup i S = Some S' \<Longrightarrow> ds_uses S' = ds_uses S"
  by (cases "g_setup (genOf S i)") (auto simp: continueSetup_def Let_def uses_afterStep split: if_splits)

lemma uses_requests [simp]:
  "ds_uses (signedOutLoop q n d owner S) = ds_uses S" "ds_uses (initialiseLoop q p n same S) = ds_uses S" "ds_uses (dropOthers q p S) = ds_uses S"
  by (simp_all add: signedOutLoop_def initialiseLoop_def dropOthers_def Let_def uses_finish split: option.split)

lemma uses_ensure [simp]: "ds_uses (ensure q owner n state S) = ds_uses S"
  by (simp add: ensure_def signedOut_def initialise_def Let_def split: identityState.split)

fun useEvent :: "devEvent \<Rightarrow> bool" where
  "useEvent (Start_use _) = True"
| "useEvent (Use_identity _ _) = True"
| "useEvent (Use_continues _) = True"
| "useEvent (Use_aborts _) = True"
| "useEvent (Operation_ends _ _) = True"
| "useEvent _ = False"

lemma uses_step: "devStep e S = Some S' \<Longrightarrow> \<not> useEvent e \<Longrightarrow> ds_uses S' = ds_uses S"
proof (cases e)
  case (Request_continues q)
  assume "devStep e S = Some S'"
  then show ?thesis using Request_continues
    by (cases "ds_requests S ! q") (auto simp: continueRequest_def split: if_splits setupState.splits)
next
  case (Setup_identity i st)
  assume "devStep e S = Some S'"
  then show ?thesis using Setup_identity
    by (cases "g_setup (genOf S i)") (auto simp: onGen_def setupIdentity_def split: if_splits)
next
  case (Engine_starts i b)
  assume "devStep e S = Some S'"
  then show ?thesis using Engine_starts
    by (cases "g_setup (genOf S i)") (auto simp: onGen_def engineStarts_def split: if_splits option.splits)
next
  case Stop
  assume "devStep e S = Some S'"
  then show ?thesis using Stop by (auto simp: stop_def Let_def split: option.split)
qed (auto simp: onGen_def track_def acceptLoss_def settleRequest_def markerCleared_def Let_def genMoves_def uses_continueSetup
      split: if_splits devRequest.splits lossTask.splits)

lemma useGen_enter: "useGen (enterUse owner S) = Some (o', i) \<Longrightarrow> ds_live S = Some i \<and> g_ownerId (genOf S i) = owner \<and> o' = owner"
  by (auto simp: enterUse_def Let_def split: option.splits if_splits)

lemma uses_set: "u < length ts \<Longrightarrow> v < length ts \<Longrightarrow> ts[v := t] ! u = (if u = v then t else ts ! u)"
  by simp

text \<open>A use that works with a generation did so before, or has just entered the live one.\<close>

lemma use_changes:
  assumes s: "devStep e S = Some S'" and u: "u < length (ds_uses S')" "useGen (ds_uses S' ! u) = Some (owner, i)"
  shows "u < length (ds_uses S) \<and> useGen (ds_uses S ! u) = Some (owner, i) \<or> ds_live S = Some i \<and> g_ownerId (genOf S i) = owner"
proof (cases "useEvent e")
  case False
  then show ?thesis using uses_step[OF s] u by simp
next
  case True
  then show ?thesis
  proof (cases e)
    case (Start_use owner')
    then have S': "S' = startUse owner' S" using s by simp
    show ?thesis using u unfolding S' startUse_def
      by (auto simp: nth_append less_Suc_eq dest: useGen_enter split: option.splits if_splits)
  next
    case (Use_identity w st)
    then have w: "w < length (ds_uses S)" and c: "useIdentity w st S = Some S'" using s by (auto split: if_splits)
    have "\<exists>t. ds_uses S' = (ds_uses S)[w := t] \<and> (useGen t = None \<or> useGen t = useGen (ds_uses S ! w))"
      using c by (cases "ds_uses S ! w")
        (auto simp: useIdentity_def confirmHolder_def Let_def setUse_def uses_finish split: if_splits option.splits dest!: uses_finish intro!: exI)
    then show ?thesis using u w by (auto simp: nth_list_update split: if_splits)
  next
    case (Use_continues w)
    then have w: "w < length (ds_uses S)" and c: "continueUse w S = Some S'" using s by (auto split: if_splits)
    then show ?thesis using u
      by (cases "ds_uses S ! w") (auto simp: continueUse_def setUse_def nth_list_update dest: useGen_enter split: if_splits devRequest.splits)
  next
    case (Use_aborts w)
    then have w: "w < length (ds_uses S)" and c: "abortUse w S = Some S'" using s by (auto split: if_splits)
    then show ?thesis using u by (cases "ds_uses S ! w") (auto simp: abortUse_def setUse_def nth_list_update split: if_splits)
  next
    case (Operation_ends w b)
    then have w: "w < length (ds_uses S)" and c: "operationEnds w b S = Some S'" using s by (auto split: if_splits)
    then show ?thesis using u by (cases "ds_uses S ! w") (auto simp: operationEnds_def setUse_def nth_list_update split: if_splits option.splits)
  qed simp_all
qed

lemma useInv_reachable: "devReachable S \<Longrightarrow> useInv S"
proof (induction rule: devReachable.induct)
  case devStart
  show ?case by (simp add: useInv_def createBrowserDeviceService_def)
next
  case (devNext S e S')
  note ri = res_reachable[OF devNext(1)]
  have kept: "gensKept S S'" by (rule gensKept_step[OF ri devNext(2)])
  have "i < length (ds_gens S') \<and> g_ownerId (genOf S' i) = owner"
    if u: "u < length (ds_uses S')" "useGen (ds_uses S' ! u) = Some (owner, i)" for u owner i
  proof -
    have "i < length (ds_gens S) \<and> g_ownerId (genOf S i) = owner"
      using use_changes[OF devNext(2) u] devNext(3) res_live[OF ri] by (auto simp: useInv_def)
    then show ?thesis using kept by (auto simp: gensKept_def)
  qed
  then show ?case by (simp add: useInv_def)
qed

lemma use_output:
  assumes r: "devReachable S" and s: "devStep e S = Some S'" and u: "u < length (ds_uses S)"
    and out: "ds_uses S' ! u = Use_done (Op_ok output)" and before: "ds_uses S ! u \<noteq> Use_done (Op_ok output)"
  shows "\<exists>owner i p. ds_uses S ! u = Use_after owner i output \<and> e = Use_identity u (Signed_in p) \<and> ds_live S = Some i
    \<and> g_ownerId (genOf S i) = owner \<and> ap_ownerId p = owner \<and> sameProviderIdentity p (g_principal (genOf S i))"
proof -
  have e: "useEvent e"
  proof (rule ccontr)
    assume "\<not> useEvent e"
    then show False using uses_step[OF s] out before by simp
  qed
  note ri = res_reachable[OF r] and ui = useInv_reachable[OF r]
  have "\<exists>owner i st. ds_uses S ! u = Use_after owner i output \<and> e = Use_identity u st \<and> genLive (genOf S i) \<and> sameSignedIn st (g_principal (genOf S i))"
  proof (cases e)
    case (Start_use owner')
    then show ?thesis using s out before u by (auto simp: startUse_def nth_append)
  next
    case (Use_identity w st)
    then have w: "w < length (ds_uses S)" and c: "useIdentity w st S = Some S'" using s by (auto split: if_splits)
    then show ?thesis using out before u Use_identity
      by (cases "ds_uses S ! w") (auto simp: useIdentity_def confirmHolder_def Let_def setUse_def nth_list_update split: if_splits option.splits dest!: uses_finish)
  next
    case (Use_continues w)
    then have w: "w < length (ds_uses S)" and c: "continueUse w S = Some S'" using s by (auto split: if_splits)
    then show ?thesis using out before u
      by (cases "ds_uses S ! w") (auto simp: continueUse_def setUse_def nth_list_update enterUse_def Let_def split: if_splits devRequest.splits option.splits)
  next
    case (Use_aborts w)
    then show ?thesis using s out before u
      by (cases "ds_uses S ! w") (auto simp: abortUse_def setUse_def nth_list_update split: if_splits)
  next
    case (Operation_ends w b)
    then show ?thesis using s out before u
      by (cases "ds_uses S ! w") (auto simp: operationEnds_def setUse_def nth_list_update split: if_splits option.splits)
  qed (use e in simp_all)
  then show ?thesis using ri ui u by (fastforce simp: sameSignedIn_def useInv_def resInv_def split: identityState.splits)
qed

section \<open>A setup that nothing disturbs\<close>

text \<open>The events from \<open>ensureReady\<close> to \<open>ready\<close> when every port answers well; the marker is stored when the check enrols.\<close>

definition quietSetup :: "nat \<Rightarrow> nat \<Rightarrow> authPrincipal \<Rightarrow> substrateSession \<Rightarrow> localIdentity \<Rightarrow> identityMarker option \<Rightarrow> devEvent list" where
  "quietSetup q i p session local marker =
     [Ensure_ready (ap_ownerId p), Request_identity q (Signed_in p), Lock_answers i Lock_acquired,
      Setup_identity i (Signed_in p), Setup_continues i,
      Step_settles i For_credentials (Some (Got_credentials (Credentials_ok session))), Setup_continues i,
      Step_settles i For_store (Some Got_resource), Setup_continues i, Setup_continues i,
      Step_settles i For_engine (Some Got_resource), Setup_continues i, Setup_continues i,
      Step_settles i For_identity (Some (Got_identity local marker)), Setup_continues i]
     @ (if checkIdentity marker session local = Enrol then [Step_settles i For_marker (Some Got_stored), Setup_continues i] else [])
     @ [Engine_starts i (Some True), Setup_continues i, Setup_identity i (Signed_in p)]"

lemma devRun_append: "devRun (xs @ ys) S = (case devRun xs S of None \<Rightarrow> None | Some T \<Rightarrow> devRun ys T)"
  by (induction xs arbitrary: S) (simp_all split: option.split)

lemmas step_defs = track_def ensure_def initialise_def initialiseLoop_def Let_def setRequest_def publish_def openGeneration_def
  onGen_def genMoves_def setupIdentity_def confirmIdentity_def sameSignedIn_def sameProviderIdentity_def setSetup_def updGen_def
  afterLock_def genLive_def continueSetup_def startStep_def stepSettles_def afterCredentials_def adoptStore_def adoptEngine_def
  afterIdentity_def startEngine_def engineStarts_def lockFree_def list_all_iff nth_append

lemma quiet_run:
  assumes idle: "ds_live S = None" "ds_inflight S = None" and keep: "\<not> (ds_viewOwner S = Some (ap_ownerId p) \<and> terminalView (ds_view S))"
    and free: "\<forall>j < length (ds_gens S). g_ownerId (genOf S j) = ap_ownerId p \<longrightarrow> \<not> g_leaseHeld (genOf S j)"
    and ok: "checkIdentity marker session local = Enrol \<or> checkIdentity marker session local = Resume"
  shows "\<exists>T. devRun (quietSetup (length (ds_requests S)) (length (ds_gens S)) p session local marker) S = Some T
    \<and> g_setup (genOf T (length (ds_gens S))) = Confirmed_ready session \<and> ds_live T = Some (length (ds_gens S))
    \<and> length (ds_gens T) = Suc (length (ds_gens S)) \<and> length (ds_requests T) = Suc (length (ds_requests S))
    \<and> ds_requests T ! length (ds_requests S) = Req_setup (length (ds_gens S))
    \<and> g_principal (genOf T (length (ds_gens S))) = p \<and> g_generation (genOf T (length (ds_gens S))) = dv_generation (ds_view S) + 1
    \<and> g_started (genOf T (length (ds_gens S))) \<and> g_engineOpen (genOf T (length (ds_gens S)))
    \<and> dv_generation (ds_view T) = dv_generation (ds_view S) + 1"
  using ok
proof
  assume "checkIdentity marker session local = Enrol"
  then show ?thesis using idle keep free by (simp add: quietSetup_def step_defs)
next
  assume "checkIdentity marker session local = Resume"
  then show ?thesis using idle keep free by (simp add: quietSetup_def step_defs)
qed

lemma devRun_reachable: "devReachable S \<Longrightarrow> devRun es S = Some T \<Longrightarrow> devReachable T"
  by (induction es arbitrary: S) (auto split: option.splits intro: devReachable.intros)

primrec orderlyRun :: "devEvent list \<Rightarrow> devService \<Rightarrow> devService option" where
  "orderlyRun [] S = Some S"
| "orderlyRun (e # es) S =
     (if racedReady S e then None else case devStep e S of None \<Rightarrow> None | Some T \<Rightarrow> orderlyRun es T)"

lemma orderlyRun_orderly: "devOrderly S \<Longrightarrow> orderlyRun es S = Some T \<Longrightarrow> devOrderly T"
  by (induction es arbitrary: S) (auto split: option.splits if_splits intro: devOrderly.intros)

section \<open>The properties\<close>

text \<open>C6: whatever tasks and closings of ended generations are still running, at most one generation of an owner has an adopted
  crypto store or engine that is not closed yet, and that generation holds the owner's lock.
\<close>

theorem single_writer:
  assumes "devReachable S" and "i < length (ds_gens S)" "j < length (ds_gens S)" and "g_ownerId (genOf S i) = g_ownerId (genOf S j)"
    and "g_engineOpen (genOf S i) \<or> g_storeOpen (genOf S i)" "g_engineOpen (genOf S j) \<or> g_storeOpen (genOf S j)"
  shows "i = j \<and> g_leaseHeld (genOf S i)"
proof -
  note inv = res_reachable[OF assms(1)]
  have "g_leaseHeld (genOf S i)" "g_leaseHeld (genOf S j)"
    using assms open_held res_gen[OF inv] by blast+
  then show ?thesis using inv assms by (simp add: resInv_def)
qed

text \<open>C7: an engine is only started after its identity was compared: its keys are the ones the server has published for the
  device, if any, and those of this browser's marker for the device, if any; and such a marker existed or was stored first.
\<close>

theorem engine_started_with_its_keys:
  assumes "devReachable S" and "i < length (ds_gens S)" and "g_started (genOf S i)"
  shows "\<exists>marker session local. g_checked (genOf S i) = Some (marker, session, local) \<and> sameKeys marker session local
    \<and> (marker = Some (markerFor session local) \<or> g_enrolled (genOf S i) = Some (markerFor session local))"
proof -
  have "genOk (genOf S i)" using res_reachable[OF assms(1)] assms(2) by (rule res_gen)
  then obtain session where "passed (genOf S i) session" using assms(3) by (auto simp: genOk_def checkedInv_def)
  then show ?thesis by (blast dest: passed_keys)
qed



text \<open>C17: every view the service ever publishes is a device view of the contract: its JSON form is decoded to that view, when its
  device identifier is one and its generation is a safe integer.
\<close>

theorem published_views_decode:
  assumes "devReachable S" and "v \<in> set (ds_published S)" and "\<And>d. dv_deviceId v = Some d \<Longrightarrow> wfId d" and "safeNat (dv_generation v)"
  shows "decodeDeviceView (viewObject v) = Inr v"
  using assms views_consistent by (intro viewObject_decodes) blast+

text \<open>C18: from any state with nothing live and no request in flight, unless the owner's device is lost or revoked or an old
  generation still holds the lock, the setup in which every port answers well ends with a ready view of the next generation,
  a live generation of the caller's principal, and the view as the result of the request.
\<close>

theorem quiet_setup_is_ready:
  assumes "ds_live S = None" "ds_inflight S = None" and "\<not> (ds_viewOwner S = Some (ap_ownerId p) \<and> terminalView (ds_view S))"
    and "\<forall>j < length (ds_gens S). g_ownerId (genOf S j) = ap_ownerId p \<longrightarrow> \<not> g_leaseHeld (genOf S j)"
    and "checkIdentity marker session local = Enrol \<or> checkIdentity marker session local = Resume"
  shows "\<exists>T. devRun (quietSetup (length (ds_requests S)) (length (ds_gens S)) p session local marker
      @ [Setup_continues (length (ds_gens S)), Request_continues (length (ds_requests S))]) S = Some T
    \<and> ds_view T = makeView Dev_ready (dv_generation (ds_view S) + 1) (Some (se_deviceId session)) None
    \<and> ds_viewOwner T = Some (ap_ownerId p) \<and> ds_live T = Some (length (ds_gens S))
    \<and> ds_requests T ! length (ds_requests S) = Req_done (Op_ok (ds_view T))"
proof -
  from quiet_run[OF assms] obtain T where T: "devRun (quietSetup (length (ds_requests S)) (length (ds_gens S)) p session local marker) S = Some T"
    "g_setup (genOf T (length (ds_gens S))) = Confirmed_ready session" "ds_live T = Some (length (ds_gens S))"
    "length (ds_gens T) = Suc (length (ds_gens S))" "length (ds_requests T) = Suc (length (ds_requests S))"
    "ds_requests T ! length (ds_requests S) = Req_setup (length (ds_gens S))"
    "g_principal (genOf T (length (ds_gens S))) = p" "g_generation (genOf T (length (ds_gens S))) = dv_generation (ds_view S) + 1"
    by blast
  then show ?thesis
    by (simp add: devRun_append onGen_def continueSetup_def continueRequest_def Let_def setSetup_def updGen_def publish_def setRequest_def)
qed

text \<open>C40: a setup that has been told by its last confirmation that the owner is signed in publishes \<open>ready\<close> a turn of the queue
  later without asking again whether its generation is live. When \<open>stop\<close> runs in that turn, the service ends with a ready
  view that has no live generation behind it and whose generation is older than the one \<open>stop\<close> published.
\<close>

theorem ready_after_stop:
  "\<exists>T. devRun (quietSetup 0 0 p \<lparr>se_deviceId = d, se_publishedFingerprint = None, se_credentials = c\<rparr> local None
      @ [Stop, Setup_continues 0]) createBrowserDeviceService = Some T
    \<and> dv_state (ds_view T) = Dev_ready \<and> ds_live T = None \<and> (\<exists>v \<in> set (ds_published T). dv_generation (ds_view T) < dv_generation v)"
proof -
  let ?s = "\<lparr>se_deviceId = d, se_publishedFingerprint = None, se_credentials = c\<rparr>"
  have ok: "checkIdentity None ?s local = Enrol" by (simp add: checkIdentity_def)
  from quiet_run[of createBrowserDeviceService p None ?s local] ok obtain T
    where T: "devRun (quietSetup 0 0 p ?s local None) createBrowserDeviceService = Some T" "g_setup (genOf T 0) = Confirmed_ready ?s"
      "ds_live T = Some 0" "length (ds_gens T) = 1" "g_generation (genOf T 0) = 1" "dv_generation (ds_view T) = 1"
    by (auto simp: createBrowserDeviceService_def)
  then show ?thesis
    by (simp add: devRun_append onGen_def continueSetup_def Let_def setSetup_def updGen_def publish_def stop_def retireGeneration_def)
qed

section \<open>Sample runs\<close>

definition samplePerson :: "nat \<Rightarrow> authPrincipal" where
  "samplePerson n = \<lparr>ap_ownerId = [of_nat n], ap_providerIssuer = [], ap_providerSubject = [], ap_verifiedEmail = [], ap_sessionExpiresAt = []\<rparr>"

definition sampleSession :: substrateSession where
  "sampleSession = \<lparr>se_deviceId = [2], se_publishedFingerprint = None, se_credentials = JNull\<rparr>"

definition sampleLocal :: localIdentity where
  "sampleLocal = \<lparr>li_fingerprint = [3], li_created = True\<rparr>"

lemma sample_enrols: "checkIdentity None sampleSession sampleLocal = Enrol"
  by (simp add: checkIdentity_def sampleSession_def)

lemma sample_idle:
  "ds_live createBrowserDeviceService = None" "ds_inflight createBrowserDeviceService = None" "ds_gens createBrowserDeviceService = []"
  "ds_requests createBrowserDeviceService = []" "ds_viewOwner createBrowserDeviceService = None"
  by (simp_all add: createBrowserDeviceService_def)

lemma device_sample_run:
  obtains T where "devReachable T" "length (ds_gens T) = 1" "g_started (genOf T 0)" "g_engineOpen (genOf T 0)"
  using quiet_run[of createBrowserDeviceService "samplePerson 0" None sampleSession sampleLocal] sample_enrols
    devRun_reachable[OF devStart] by (auto simp: sample_idle)

theorem single_writer_witness:
  "\<exists>S. devReachable S \<and> length (ds_gens S) = 1 \<and> g_engineOpen (genOf S 0) \<and> g_leaseHeld (genOf S 0)"
proof -
  obtain T where T: "devReachable T" "length (ds_gens T) = 1" "g_engineOpen (genOf T 0)" using device_sample_run by blast
  then show ?thesis using single_writer[of T 0 0] by auto
qed

theorem engine_started_with_its_keys_witness:
  "\<exists>S. devReachable S \<and> g_started (genOf S 0) \<and> (\<exists>marker session local. g_checked (genOf S 0) = Some (marker, session, local)
    \<and> sameKeys marker session local)"
proof -
  obtain T where T: "devReachable T" "length (ds_gens T) = 1" "g_started (genOf T 0)" using device_sample_run by blast
  then show ?thesis using engine_started_with_its_keys[of T 0] by auto
qed

text \<open>A device whose credentials turn out to be revoked, and the owner's next request.\<close>

definition revokedRun :: "devEvent list" where
  "revokedRun = [Ensure_ready [0], Request_identity 0 (Signed_in (samplePerson 0)), Lock_answers 0 Lock_acquired,
     Setup_identity 0 (Signed_in (samplePerson 0)), Setup_continues 0,
     Step_settles 0 For_credentials (Some (Got_credentials (Credentials_revoked [2]))), Setup_continues 0,
     Straggler_moves 0 For_credentials, Stragglers_settle 0, Setup_continues 0, Request_continues 0, Request_settles 0,
     Ensure_ready [0]]"

lemmas end_defs = finishOk_def finishSetup_def finish_def retireGeneration_def endGeneration_def closeResources_def closeRest_def
  closeStore_def dropLease_def hasStragglers_def stragglerMoves_def stragglersSettle_def continueRequest_def settleRequest_def
  racedReady_def superseded_def

lemma revoked_run:
  "\<exists>S. orderlyRun revokedRun createBrowserDeviceService = Some S \<and> dv_state (ds_view S) = Dev_revoked
     \<and> length (ds_requests S) = 2 \<and> ds_requests S ! 1 = Req_identity [0] 2 \<and> ds_epoch S = 2"
  by (simp add: revokedRun_def samplePerson_def createBrowserDeviceService_def step_defs end_defs)


text \<open>An operation that runs to its end on the engine of the sample run.\<close>

definition sampleUse :: "devEvent list" where
  "sampleUse = quietSetup 0 0 (samplePerson 0) sampleSession sampleLocal None
     @ [Setup_continues 0, Request_continues 0, Request_settles 0, Start_use [0], Use_identity 0 (Signed_in (samplePerson 0)),
        Use_continues 0, Operation_ends 0 (Some JNull)]"

lemmas use_defs = startUse_def enterUse_def useIdentity_def confirmHolder_def continueUse_def operationEnds_def setUse_def

lemma use_run:
  "\<exists>S. devRun sampleUse createBrowserDeviceService = Some S \<and> ds_uses S = [Use_after [0] 0 JNull] \<and> genLive (genOf S 0)
     \<and> g_principal (genOf S 0) = samplePerson 0"
  using sample_enrols
  by (simp add: sampleUse_def quietSetup_def samplePerson_def createBrowserDeviceService_def step_defs continueRequest_def
      settleRequest_def use_defs makeView_def)


theorem published_views_decode_witness:
  "decodeDeviceView (viewObject (makeView Dev_new 1 None None)) = Inr (makeView Dev_new 1 None None)"
proof -
  let ?S = "stop createBrowserDeviceService"
  have "devReachable ?S" by (rule devNext[OF devStart, of Stop]) simp
  moreover have "makeView Dev_new 1 None None \<in> set (ds_published ?S)"
    by (simp add: stop_def createBrowserDeviceService_def publish_def Let_def)
  ultimately show ?thesis by (rule published_views_decode) (simp_all add: makeView_def safeNat_def)
qed

theorem quiet_setup_is_ready_witness:
  "\<exists>T. devRun (quietSetup 0 0 (samplePerson 0) sampleSession sampleLocal None @ [Setup_continues 0, Request_continues 0])
      createBrowserDeviceService = Some T \<and> dv_state (ds_view T) = Dev_ready"
  using quiet_setup_is_ready[of createBrowserDeviceService "samplePerson 0" None sampleSession sampleLocal] sample_enrols
  by (auto simp: sample_idle)

end
