(* ===== verification/DeviceGate.thy ===== *)
theory DeviceGate
  imports ChannelRuns BrowserDeviceRuns
begin

text \<open>
  The channel commands over the browser device service: \<open>deviceGate\<close> (\<^verbatim>\<open>channels/context.ts\<close>) asks the device for its current
  view before a command touches the journal or the transport. The locale states what a device promises its clients, that a
  lost or revoked view stays, and what the commands do on it; the service of \<open>BrowserDevice\<close> interprets it.
\<close>

section \<open>The interface of the device\<close>

locale device_source =
  fixes moves :: "'s \<Rightarrow> 's \<Rightarrow> bool" and current :: "'s \<Rightarrow> deviceView"
  assumes terminal_stays: "moves s t \<Longrightarrow> terminalView (current s) \<Longrightarrow> terminalView (current t)"
begin

lemma terminal_run: "moves\<^sup>*\<^sup>* s t \<Longrightarrow> terminalView (current s) \<Longrightarrow> terminalView (current t)"
  by (induction rule: rtranclp_induct) (auto dest: terminal_stays)

lemma gate_closed:
  assumes "moves\<^sup>*\<^sup>* s t" "terminalView (current s)" "cx_device ctx w = current t"
  shows "\<exists>r. deviceGate ctx signal w = Inl r"
  using terminal_run[OF assms(1,2)] assms(3) by (auto simp: deviceGate_def Let_def)

lemma send_refused:
  assumes "moves\<^sup>*\<^sup>* s t" "terminalView (current s)" "cx_device ctx w = current t"
  shows "\<exists>r. sendMessage ctx signal roomId txn content w = (Inr (refuse r), w)"
proof -
  obtain r where r: "deviceGate ctx signal w = Inl r" using gate_closed[OF assms] by blast
  have invalid: "\<exists>r. Op_rejected Chan_invalid_request = refuse r"
    by (rule exI[of _ "Refuse_rejected Chan_invalid_request"]) (simp add: refuse_def)
  show ?thesis
  proof (cases "digestContent ctx content")
    case (Inl a)
    then show ?thesis using invalid by (auto simp: sendMessage_def)
  next
    case (Inr b)
    then show ?thesis using r invalid by (cases b) (auto simp: sendMessage_def bindS_def tryS_def)
  qed
qed

lemma create_refused:
  assumes "moves\<^sup>*\<^sup>* s t" "terminalView (current s)" "cx_device ctx w = current t"
  shows "\<exists>r. createChannel ctx signal operationId title w = (Inr (refuse r), w)"
proof -
  obtain r where r: "deviceGate ctx signal w = Inl r" using gate_closed[OF assms] by blast
  have rejected: "\<exists>r. Op_rejected c = refuse r" for c
    by (rule exI[of _ "Refuse_rejected c"]) (simp add: refuse_def)
  show ?thesis
  proof (cases "decodeTitle ctx title")
    case (Inl a)
    then show ?thesis using rejected by (cases a) (auto simp: createChannel_def)
  next
    case (Inr b)
    then show ?thesis using r rejected by (auto simp: createChannel_def bindS_def tryS_def Let_def)
  qed
qed

end

section \<open>The browser device service as a device\<close>

text \<open>
  One step of an orderly run that is none of the three that may replace a lost or revoked view: \<open>stop\<close>, a cleared marker
  after \<open>acceptLoss\<close>, and an identity answer for another owner.
\<close>

definition deviceKept :: "devService \<Rightarrow> devService \<Rightarrow> bool" where
  "deviceKept S T \<longleftrightarrow> devOrderly S \<and> (\<exists>e. devStep e S = Some T \<and> \<not> racedReady S e \<and> e \<noteq> Stop
     \<and> (\<forall>a. e \<noteq> Marker_cleared a True) \<and> (\<forall>q p. e = Request_identity q (Signed_in p) \<longrightarrow> ds_viewOwner S = Some (ap_ownerId p)))"

lemma kept_terminal: "deviceKept S T \<Longrightarrow> terminalView (ds_view S) \<Longrightarrow> terminalView (ds_view T)"
proof -
  assume "deviceKept S T" and t: "terminalView (ds_view S)"
  then obtain e where e: "devOrderly S" "devStep e S = Some T" "\<not> racedReady S e" "e \<noteq> Stop" "\<forall>a. e \<noteq> Marker_cleared a True"
    "\<forall>q p. e = Request_identity q (Signed_in p) \<longrightarrow> ds_viewOwner S = Some (ap_ownerId p)"
    unfolding deviceKept_def by blast
  have "sameView S T" using terminal_step[OF e(1,2,3) t] e(4,5,6) by blast
  then show ?thesis using t by (simp add: sameView_def)
qed

interpretation browser: device_source deviceKept ds_view
  by unfold_locales (rule kept_terminal)



end
