(* ===== verification/Base64.thy ===== *)
theory Base64
  imports InvitePolicy
begin

text \<open>
  Unpadded base64url, as \<open>Buffer.toString('base64url')\<close> prints it and the token and key readers accept it. Bytes are natural
  numbers. A text is the encoding of at most one byte list, and of one exactly when its last character has no unused bits set.
\<close>

section \<open>Encoding\<close>

definition base64urlUnit :: "nat \<Rightarrow> cunit" where
  "base64urlUnit n =
     (if n < 26 then of_nat (0x41 + n) else if n < 52 then of_nat (0x61 + (n - 26)) else if n < 62 then of_nat (0x30 + (n - 52))
      else if n = 62 then 0x2D else 0x5F)"

fun base64url :: "nat list \<Rightarrow> ustring" where
  "base64url [] = []"
| "base64url [a] = map base64urlUnit [a div 4, (a mod 4) * 16]"
| "base64url [a, b] = map base64urlUnit [a div 4, (a mod 4) * 16 + b div 16, (b mod 16) * 4]"
| "base64url (a # b # c # rest) =
     map base64urlUnit [a div 4, (a mod 4) * 16 + b div 16, (b mod 16) * 4 + c div 64, c mod 64] @ base64url rest"

text \<open>The index of a character in the alphabet.\<close>

definition alphabetIndex :: "cunit \<Rightarrow> nat" where
  "alphabetIndex u =
     (if 0x41 \<le> u \<and> u \<le> 0x5A then unat u - 0x41 else if 0x61 \<le> u \<and> u \<le> 0x7A then unat u - 0x61 + 26
      else if isDigit u then unat u - 0x30 + 52 else if u = 0x2D then 62 else 63)"

definition isByte :: "nat \<Rightarrow> bool" where
  "isByte b \<longleftrightarrow> b < 256"

section \<open>Characters\<close>

lemma base64url_token: "n < 64 \<Longrightarrow> isTokenUnit (base64urlUnit n)"
proof -
  assume "n < 64"
  then have "n \<in> set (upt 0 64)" by simp
  then show ?thesis by (simp add: upt_rec base64urlUnit_def isTokenUnit_def isDigit_def) (elim disjE; simp)
qed

lemma base64url_index: "n < 64 \<Longrightarrow> alphabetIndex (base64urlUnit n) = n"
proof -
  assume "n < 64"
  then have "n \<in> set (upt 0 64)" by simp
  moreover have "list_all (\<lambda>n. alphabetIndex (base64urlUnit n) = n) (upt 0 64)" by code_simp
  ultimately show ?thesis by (auto simp: list_all_iff)
qed

lemmas base64url_unit = base64url_token base64url_index

lemma unit_index: "isTokenUnit u \<Longrightarrow> \<exists>n < 64. u = base64urlUnit n"
proof -
  assume "isTokenUnit u"
  then consider (upper) "0x41 \<le> unat u" "unat u \<le> 0x5A" | (lower) "0x61 \<le> unat u" "unat u \<le> 0x7A"
    | (digit) "0x30 \<le> unat u" "unat u \<le> 0x39" | (dash) "u = 0x2D" | (line) "u = 0x5F"
    by (auto simp: isTokenUnit_def isDigit_def word_le_nat_alt)
  then show ?thesis
  proof cases
    case upper
    define d where "d = unat u - 0x41"
    have "u = of_nat (0x41 + d)" "d < 26" using upper by (simp_all add: d_def del: of_nat_add)
    then show ?thesis by (intro exI[of _ d]) (simp add: base64urlUnit_def)
  next
    case lower
    define d where "d = unat u - 0x61"
    have "u = of_nat (0x61 + d)" "d < 26" using lower by (simp_all add: d_def del: of_nat_add)
    then show ?thesis by (intro exI[of _ "26 + d"]) (simp add: base64urlUnit_def)
  next
    case digit
    define d where "d = unat u - 0x30"
    have "u = of_nat (0x30 + d)" "d < 10" using digit by (simp_all add: d_def del: of_nat_add)
    then show ?thesis by (intro exI[of _ "52 + d"]) (simp add: base64urlUnit_def)
  next
    case dash
    then show ?thesis by (intro exI[of _ 62]) (simp add: base64urlUnit_def)
  next
    case line
    then show ?thesis by (intro exI[of _ 63]) (simp add: base64urlUnit_def)
  qed
qed

lemma index_unit: "isTokenUnit u \<Longrightarrow> alphabetIndex u < 64 \<and> base64urlUnit (alphabetIndex u) = u"
  using unit_index[of u] base64url_unit by auto

lemma base64url_units: "list_all isByte bs \<Longrightarrow> list_all isTokenUnit (base64url bs)"
  by (induction bs rule: base64url.induct) (auto simp: isByte_def base64url_unit)

lemma base64url_length: "length (base64url bs) = (length bs * 4 + 2) div 3"
  by (induction bs rule: base64url.induct) auto

section \<open>Decoding\<close>

fun unbase64 :: "nat list \<Rightarrow> nat list" where
  "unbase64 [] = []"
| "unbase64 [a] = []"
| "unbase64 [a, b] = [a * 4 + b div 16]"
| "unbase64 [a, b, c] = [a * 4 + b div 16, (b mod 16) * 16 + c div 4]"
| "unbase64 (a # b # c # d # rest) = [a * 4 + b div 16, (b mod 16) * 16 + c div 4, (c mod 4) * 64 + d] @ unbase64 rest"

lemma byte_split: "isByte b \<Longrightarrow> b div 4 < 64" "isByte b \<Longrightarrow> b div 16 < 16" "isByte b \<Longrightarrow> b div 64 < 4"
  by (auto simp: isByte_def)

lemma unbase64_inverse: "list_all isByte bs \<Longrightarrow> unbase64 (map alphabetIndex (base64url bs)) = bs"
proof (induction bs rule: base64url.induct)
  case (4 a b c rest)
  then have "isByte a" "isByte b" "isByte c" "unbase64 (map alphabetIndex (base64url rest)) = rest" by simp_all
  then show ?case by (auto simp: base64url_unit isByte_def)
qed (auto simp: base64url_unit isByte_def)

lemma base64url_inj: "list_all isByte xs \<Longrightarrow> list_all isByte ys \<Longrightarrow> base64url xs = base64url ys \<Longrightarrow> xs = ys"
  by (metis unbase64_inverse)

text \<open>Text that is an encoding: token characters, no stray character, no unused bits.\<close>

definition isBase64url :: "ustring \<Rightarrow> bool" where
  "isBase64url s \<longleftrightarrow> list_all isTokenUnit s \<and> length s mod 4 \<noteq> 1
     \<and> (length s * 6 mod 8 > 0 \<longrightarrow> alphabetIndex (last s) mod 2 ^ (length s * 6 mod 8) = 0)"

definition spareBits :: "nat list \<Rightarrow> bool" where
  "spareBits ks \<longleftrightarrow> length ks mod 4 \<noteq> 1 \<and> (length ks * 6 mod 8 > 0 \<longrightarrow> last ks mod 2 ^ (length ks * 6 mod 8) = 0)"

lemma spareBits_step: "spareBits (a # b # c # d # rest) \<longleftrightarrow> spareBits rest"
proof -
  have "length (a # b # c # d # rest) mod 4 = length rest mod 4" by simp
  moreover have "length (a # b # c # d # rest) * 6 mod 8 = length rest * 6 mod 8"
  proof -
    have "(length rest * 6 + 8 * 3) mod 8 = length rest * 6 mod 8" by (rule mod_mult_self2)
    then show ?thesis by (simp add: algebra_simps)
  qed
  ultimately show ?thesis unfolding spareBits_def by (cases "rest = []") simp_all
qed

lemma spareBits_short:
  "spareBits [a, b] \<longleftrightarrow> b mod 16 = 0" "spareBits [a, b, c] \<longleftrightarrow> c mod 4 = 0" "\<not> spareBits [a]" "spareBits []"
  by (simp_all add: spareBits_def)

lemma group_bytes:
  assumes "a < 64" "b < 64" "c < 64" "d < (64 :: nat)"
  shows "isByte (a * 4 + b div 16)" "isByte ((b mod 16) * 16 + c div 4)" "isByte ((c mod 4) * 64 + d)"
  using assms by (auto simp: isByte_def)

lemma decode_group:
  assumes "a < 64" "b < 64" "c < 64" "d < (64 :: nat)"
  shows "(a * 4 + b div 16) div 4 = a" "((a * 4 + b div 16) mod 4) * 16 + ((b mod 16) * 16 + c div 4) div 16 = b"
    "(((b mod 16) * 16 + c div 4) mod 16) * 4 + ((c mod 4) * 64 + d) div 64 = c" "((c mod 4) * 64 + d) mod 64 = d"
proof -
  have q: "b div 16 < 4" "c div 4 < 16" using assms by auto
  have "(a * 4 + b div 16) mod 4 = b div 16" using q(1) by simp
  moreover have "((b mod 16) * 16 + c div 4) div 16 = b mod 16" using q(2) by simp
  ultimately show "((a * 4 + b div 16) mod 4) * 16 + ((b mod 16) * 16 + c div 4) div 16 = b" by simp
  have "((b mod 16) * 16 + c div 4) mod 16 = c div 4" using q(2) by simp
  moreover have "((c mod 4) * 64 + d) div 64 = c mod 4" using assms(4) by simp
  ultimately show "(((b mod 16) * 16 + c div 4) mod 16) * 4 + ((c mod 4) * 64 + d) div 64 = c" by simp
qed (use assms in auto)

lemma unbase64_encodes:
  "list_all (\<lambda>k. k < 64) ks \<Longrightarrow> spareBits ks \<Longrightarrow> list_all isByte (unbase64 ks) \<and> base64url (unbase64 ks) = map base64urlUnit ks"
proof (induction ks rule: unbase64.induct)
  case (3 a b)
  then have "b mod 16 = 0" "a < 64" "b < 64" by (simp_all add: spareBits_short)
  then show ?case using group_bytes(1)[of a b 0 0] decode_group(1,2)[of a b 0 0] by simp
next
  case (4 a b c)
  then have s: "c mod 4 = 0" "a < 64" "b < 64" "c < 64" by (simp_all add: spareBits_short)
  then show ?case using group_bytes(1,2)[of a b c 0] decode_group(1-3)[of a b c 0] by simp
next
  case (5 a b c d rest)
  then have s: "a < 64" "b < 64" "c < 64" "d < 64" "list_all isByte (unbase64 rest) \<and> base64url (unbase64 rest) = map base64urlUnit rest"
    by (simp_all add: spareBits_step)
  show ?case using s(5) group_bytes[OF s(1-4)] decode_group[OF s(1-4)] by simp
qed (simp_all add: spareBits_short)

lemma isBase64url_spare: "isBase64url s \<longleftrightarrow> list_all isTokenUnit s \<and> spareBits (map alphabetIndex s)"
  by (cases "s = []") (simp_all add: isBase64url_def spareBits_def last_map)

lemma decoded_encodes:
  assumes "isBase64url s"
  shows "list_all isByte (unbase64 (map alphabetIndex s)) \<and> base64url (unbase64 (map alphabetIndex s)) = s"
proof -
  have units: "\<forall>u \<in> set s. alphabetIndex u < 64 \<and> base64urlUnit (alphabetIndex u) = u"
    using assms index_unit by (auto simp: isBase64url_def list_all_iff)
  then have "map base64urlUnit (map alphabetIndex s) = s" by (simp add: map_idI)
  then show ?thesis
    using unbase64_encodes[of "map alphabetIndex s"] assms units by (simp add: isBase64url_spare list_all_iff)
qed

lemma encoded_spare: "list_all isByte bs \<Longrightarrow> spareBits (map alphabetIndex (base64url bs))"
  by (induction bs rule: base64url.induct) (auto simp: spareBits_short spareBits_step base64url_unit isByte_def)

lemma encoded_is_base64url: "list_all isByte bs \<Longrightarrow> isBase64url (base64url bs)"
  by (simp add: isBase64url_spare base64url_units encoded_spare)

theorem base64url_exact: "isBase64url s \<longleftrightarrow> (\<exists>bs. list_all isByte bs \<and> s = base64url bs)"
  using decoded_encodes[of s] encoded_is_base64url by metis

end
