(* ===== verification/AuthSessions.thy ===== *)
theory AuthSessions
  imports Membership Base64
begin

text \<open>
  Browser sessions of the control application (\<^verbatim>\<open>apps/control/src/auth/\<close>: \<^verbatim>\<open>store.ts\<close>, \<^verbatim>\<open>csrf.ts\<close>, \<^verbatim>\<open>sessions.ts\<close>).
  The session store is the port of theory \<open>StorePort\<close>; SHA-256, the random source, \<open>Date.parse\<close>, \<open>toISOString\<close> and
  \<open>toUpperCase\<close> are parameters. Bytes are natural numbers.
\<close>

section \<open>Hashing and tokens\<close>

record 'w authEnv =
  au_store :: "'w controlStore"
  au_random :: "nat \<Rightarrow> ('w, nat list) act"
  au_clock :: "('w, int) act"
  au_sha256 :: "ustring \<Rightarrow> nat list"
  au_dateParse :: "ustring \<Rightarrow> int option"
  au_toISOString :: "int \<Rightarrow> ustring option"
  au_toUpperCase :: "ustring \<Rightarrow> ustring"

definition hexBytes :: "nat list \<Rightarrow> ustring" where
  "hexBytes bs = concat (map (\<lambda>b. [hexDigit (b div 16), hexDigit (b mod 16)]) bs)"

definition randomToken :: "'w authEnv \<Rightarrow> nat \<Rightarrow> ('w, ustring) act" where
  "randomToken env n = bindS (au_random env n) (\<lambda>value.
     if length value \<noteq> n then throwS (JStr (js ''random source returned the wrong length'')) else retS (base64url value))"

datatype tokenPurpose = For_session | For_csrf | For_login

fun purposeText :: "tokenPurpose \<Rightarrow> string" where
  "purposeText For_session = ''session''"
| "purposeText For_csrf = ''csrf''"
| "purposeText For_login = ''login''"

definition derive :: "'w authEnv \<Rightarrow> tokenPurpose \<Rightarrow> ustring \<Rightarrow> ustring" where
  "derive env purpose token =
     hexBytes (au_sha256 env (js ''khala.auth.'' @ js (purposeText purpose) @ js ''.v1'' @ [0] @ token))"

definition isToken :: "ustring \<Rightarrow> bool" where
  "isToken s \<longleftrightarrow> length s = 43 \<and> list_all isTokenUnit s"

section \<open>Store helpers\<close>

definition guardStore :: "'w controlStore \<Rightarrow> 'w controlStore" where
  "guardStore store =
     \<lparr>cs_read = (\<lambda>key. catchS (cs_read store key) (\<lambda>error. retS Read_unavailable)),
      cs_compareAndSet = (\<lambda>input. catchS (cs_compareAndSet store input) (\<lambda>error. retS W_unavailable)),
      cs_resolve = (\<lambda>key operationId. catchS (cs_resolve store key operationId) (\<lambda>error. retS Res_unavailable))\<rparr>"

datatype settledWrite = Settled_applied controlRecord | Settled_conflict "controlRecord option" | Settled_unavailable

definition settleWrite :: "'w controlStore \<Rightarrow> compareAndSetInput \<Rightarrow> ('w, settledWrite) act" where
  "settleWrite store input = bindS (cs_compareAndSet store input) (\<lambda>write. case write of
     W_applied r \<Rightarrow> retS (Settled_applied r)
   | W_conflict c \<Rightarrow> retS (Settled_conflict c)
   | W_outcome_unknown _ \<Rightarrow>
       bindS (cs_resolve store (ci_key input) (ci_operationId input)) (\<lambda>resolved. case resolved of
         Res_applied r \<Rightarrow> retS (Settled_applied r)
       | Res_not_applied \<Rightarrow> bindS (cs_compareAndSet store input) (\<lambda>again. case again of
           W_applied r \<Rightarrow> retS (Settled_applied r)
         | W_conflict c \<Rightarrow> retS (Settled_conflict c)
         | _ \<Rightarrow> retS Settled_unavailable)
       | _ \<Rightarrow> retS Settled_unavailable)
   | _ \<Rightarrow> retS Settled_unavailable)"

section \<open>Requests\<close>

text \<open>\<open>headers.get\<close> is a function; the URL is only read by the callback.\<close>

record authRequest =
  rq_method :: ustring
  rq_url :: ustring
  rq_header :: "ustring \<Rightarrow> ustring option"

datatype originCheck = Origin_ok | Not_a_mutation | Forbidden_origin

definition checkMutationOrigin :: "'w authEnv \<Rightarrow> authRequest \<Rightarrow> ustring \<Rightarrow> originCheck" where
  "checkMutationOrigin env request origin =
     (if au_toUpperCase env (rq_method request) \<in> {js ''GET'', js ''HEAD'', js ''OPTIONS''} then Not_a_mutation
      else if rq_header request (js ''origin'') \<noteq> Some origin then Forbidden_origin
      else case rq_header request (js ''sec-fetch-site'') of
        Some site \<Rightarrow> if site \<noteq> js ''same-origin'' then Forbidden_origin else Origin_ok
      | None \<Rightarrow> Origin_ok)"

text \<open>\<open>Buffer.from\<close> is the UTF-8 encoding; \<open>timingSafeEqual\<close> compares buffers of one length.\<close>

definition safeEqual :: "ustring \<Rightarrow> ustring \<Rightarrow> bool" where
  "safeEqual presented expected \<longleftrightarrow> textEncode presented = textEncode expected"

text \<open>The same where the expected text is a stored value: \<open>Buffer.from\<close> throws on \<open>null\<close>, booleans and numbers. A stored array
  or array-like object, which no writer of this module stores there, is taken to throw too.\<close>

definition safeEqualTo :: "ustring \<Rightarrow> jsval \<Rightarrow> ('w, bool) act" where
  "safeEqualTo presented expected = (case expected of JStr s \<Rightarrow> retS (safeEqual presented s) | _ \<Rightarrow> throwS typeError)"

definition csrfMatches :: "ustring option \<Rightarrow> ustring \<Rightarrow> bool" where
  "csrfMatches presented expected = (case presented of None \<Rightarrow> False | Some p \<Rightarrow> safeEqual p expected)"

section \<open>Cookies\<close>

definition SESSION_COOKIE :: ustring where
  "SESSION_COOKIE = js ''__Host-khala_session''"

definition readCookie :: "ustring option \<Rightarrow> ustring \<Rightarrow> ustring option" where
  "readCookie header name =
     (case header of
        None \<Rightarrow> None
      | Some [] \<Rightarrow> None
      | Some h \<Rightarrow>
          (case filter (\<lambda>part. startsWith part (name @ js ''='')) (map trim (splitOn 0x3B h)) of
             [value] \<Rightarrow> Some (drop (length name + 1) value)
           | _ \<Rightarrow> None))"

definition sessionCookie :: "ustring \<Rightarrow> nat \<Rightarrow> ustring" where
  "sessionCookie token maxAgeSeconds =
     SESSION_COOKIE @ js ''='' @ token @ js ''; Path=/; Secure; HttpOnly; SameSite=Lax; Max-Age='' @ dec_digits maxAgeSeconds"

definition clearCookie :: "ustring \<Rightarrow> ustring" where
  "clearCookie name = name @ js ''=; Path=/; Secure; HttpOnly; SameSite=Lax; Max-Age=0''"

section \<open>Sessions\<close>

record providerIdentity =
  pi_issuer :: ustring
  pi_subject :: ustring
  pi_verifiedEmail :: ustring

definition sessionValue :: "ustring \<Rightarrow> providerIdentity \<Rightarrow> ustring \<Rightarrow> bool \<Rightarrow> jsval" where
  "sessionValue ownerId identity expiresAt revoked = JObj True
     [(js ''v'', jnat 1), (js ''ownerId'', JStr ownerId), (js ''providerIssuer'', JStr (pi_issuer identity)),
      (js ''providerSubject'', JStr (pi_subject identity)), (js ''verifiedEmail'', JStr (pi_verifiedEmail identity)),
      (js ''expiresAt'', JStr expiresAt), (js ''revoked'', JBool revoked)]"

definition sessionKey :: "'w authEnv \<Rightarrow> ustring \<Rightarrow> ustring" where
  "sessionKey env token = js ''auth.session.v1.'' @ derive env For_session token"

definition csrfTokenFor :: "'w authEnv \<Rightarrow> ustring \<Rightarrow> ustring" where
  "csrfTokenFor env sessionToken = derive env For_csrf sessionToken"

text \<open>\<open>typeof session === 'object'\<close> also holds of an array, whose named properties are undefined.\<close>

definition principalOf :: "jsval \<Rightarrow> authPrincipal option" where
  "principalOf session =
     (case session of
        JObj _ _ \<Rightarrow>
          (case decodeAuthPrincipal (JObj True
             [(js ''v'', jnat 1), (js ''ownerId'', getProp session (js ''ownerId'')),
              (js ''providerIssuer'', getProp session (js ''providerIssuer'')),
              (js ''providerSubject'', getProp session (js ''providerSubject'')),
              (js ''verifiedEmail'', getProp session (js ''verifiedEmail'')),
              (js ''sessionExpiresAt'', getProp session (js ''expiresAt''))]) of
             Inr who \<Rightarrow> Some who | Inl _ \<Rightarrow> None)
      | _ \<Rightarrow> None)"

definition invalidTime :: jsval where
  "invalidTime = JObj False [(js ''name'', JStr (js ''RangeError''))]"

definition isoTime :: "'w authEnv \<Rightarrow> int \<Rightarrow> ('w, ustring) act" where
  "isoTime env ms = (case au_toISOString env ms of None \<Rightarrow> throwS invalidTime | Some t \<Rightarrow> retS t)"

definition createSession :: "'w authEnv \<Rightarrow> ustring \<Rightarrow> providerIdentity \<Rightarrow> int \<Rightarrow> ('w, (ustring \<times> authPrincipal) option) act" where
  "createSession env ownerId identity expiresAtMs =
     bindS (randomToken env 32) (\<lambda>token.
     bindS (isoTime env expiresAtMs) (\<lambda>expiresAt.
       (let session = sessionValue ownerId identity expiresAt False in
        case principalOf session of
          None \<Rightarrow> retS None
        | Some who \<Rightarrow>
            bindS (settleWrite (au_store env) \<lparr>ci_key = sessionKey env token, ci_expectedRevision = None,
                ci_operationId = js ''auth.session.create.'' @ derive env For_session token, ci_value = session,
                ci_expiresAt = Some expiresAt\<rparr>) (\<lambda>write. case write of
              Settled_applied _ \<Rightarrow> retS (Some (token, who))
            | _ \<Rightarrow> retS None))))"

datatype sessionLookupStage =
    Cookie_absent | Cookie_invalid | Record_absent | Store_unavailable | Record_invalid | Session_revoked | Session_expired

datatype sessionLookup = Authenticated authPrincipal ustring controlRecord | Session_signed_out | Session_unavailable

text \<open>\<open>note\<close> is the diagnostic callback.\<close>

definition lookupSession :: "'w authEnv \<Rightarrow> (sessionLookupStage \<Rightarrow> 'w \<Rightarrow> 'w) \<Rightarrow> ustring option \<Rightarrow> int \<Rightarrow> ('w, sessionLookup) act" where
  "lookupSession env note cookieHeader nowMs =
     (let answer = (\<lambda>stage x. bindS (updateS (note stage)) (\<lambda>_. retS x)) in
      case readCookie cookieHeader SESSION_COOKIE of
        None \<Rightarrow> answer Cookie_absent Session_signed_out
      | Some token \<Rightarrow>
          if \<not> isToken token then answer Cookie_invalid Session_signed_out
          else bindS (cs_read (au_store env) (sessionKey env token)) (\<lambda>read. case read of
            Read_unavailable \<Rightarrow> answer Store_unavailable Session_unavailable
          | Read_absent \<Rightarrow> answer Record_absent Session_signed_out
          | Read_record r \<Rightarrow>
              (case (principalOf (cr_value r), getProp (cr_value r) (js ''revoked'')) of
                 (Some who, JBool revoked) \<Rightarrow>
                   if revoked then answer Session_revoked Session_signed_out
                   else if \<not> (case au_dateParse env (ap_sessionExpiresAt who) of None \<Rightarrow> False | Some t \<Rightarrow> nowMs < t)
                     then answer Session_expired Session_signed_out
                   else retS (Authenticated who token r)
               | _ \<Rightarrow> answer Record_invalid Session_unavailable)))"

datatype revocation = Session_is_revoked | Revocation_unavailable | Revocation_unknown

definition jsTruthy :: "jsval \<Rightarrow> bool" where
  "jsTruthy v \<longleftrightarrow> \<not> falsy v"

fun revokeFrom :: "'w authEnv \<Rightarrow> ustring \<Rightarrow> ustring \<Rightarrow> nat \<Rightarrow> ('w, revocation) act" where
  "revokeFrom env key operationId 0 = retS Revocation_unknown"
| "revokeFrom env key operationId (Suc n) =
     bindS (cs_read (au_store env) key) (\<lambda>read. case read of
       Read_unavailable \<Rightarrow> retS Revocation_unavailable
     | Read_absent \<Rightarrow> retS Session_is_revoked
     | Read_record r \<Rightarrow>
         bindS (fieldOf (cr_value r) ''revoked'') (\<lambda>revoked.
         if jsTruthy revoked then retS Session_is_revoked
         else bindS (cs_compareAndSet (au_store env) \<lparr>ci_key = key, ci_expectedRevision = Some (cr_revision r),
             ci_operationId = operationId, ci_value = withProp (cr_value r) (js ''revoked'') (JBool True),
             ci_expiresAt = cr_expiresAt r\<rparr>) (\<lambda>write. case write of
           W_applied _ \<Rightarrow> retS Session_is_revoked
         | W_unavailable \<Rightarrow> retS Revocation_unavailable
         | W_operation_mismatch \<Rightarrow> retS Revocation_unknown
         | W_outcome_unknown _ \<Rightarrow>
             bindS (cs_resolve (au_store env) key operationId) (\<lambda>resolved. case resolved of
               Res_applied _ \<Rightarrow> retS Session_is_revoked
             | Res_not_applied \<Rightarrow> revokeFrom env key operationId n
             | _ \<Rightarrow> retS Revocation_unknown)
         | W_conflict _ \<Rightarrow> revokeFrom env key operationId n)))"

definition revokeSession :: "'w authEnv \<Rightarrow> ustring \<Rightarrow> ustring \<Rightarrow> ('w, revocation) act" where
  "revokeSession env token callerOperationId =
     revokeFrom env (sessionKey env token)
       (js ''auth.session.revoke.'' @ derive env For_session token @ js ''.'' @ hexBytes (au_sha256 env callerOperationId)) 3"

end
