(* ===== verification/SignIn.thy ===== *)
theory SignIn
  imports AuthSessions
begin

text \<open>
  Sign-in (\<^verbatim>\<open>apps/control/src/auth/\<close>: \<^verbatim>\<open>principal.ts\<close>, \<^verbatim>\<open>provisioning.ts\<close>, \<^verbatim>\<open>callback.ts\<close>). The OIDC client and the
  account directory of the messaging substrate are ports, \<open>new URL\<close> is a parameter. A claim number times 1000 is computed
  exactly.
\<close>

section \<open>Claims and owners\<close>

datatype claimRejection =
  Wrong_issuer | Wrong_audience | Claims_expired | Nonce_mismatch | Invalid_subject | Email_unverified | Invalid_email

definition claimIdentifier :: "jsval \<Rightarrow> ustring option" where
  "claimIdentifier value =
     (case value of
        JStr s \<Rightarrow>
          if s \<noteq> [] \<and> list_all (\<lambda>u. 0x20 \<le> u \<and> u \<noteq> 0x7F) s \<and> length (textEncode s) \<le> MAX_IDENTIFIER_BYTES then Some s else None
      | _ \<Rightarrow> None)"

definition audiencesOf :: "jsval \<Rightarrow> jsval list" where
  "audiencesOf audience = (case audience of JStr s \<Rightarrow> [JStr s] | JArr vs \<Rightarrow> vs | _ \<Rightarrow> [])"

definition endsWith :: "ustring \<Rightarrow> ustring \<Rightarrow> bool" where
  "endsWith s p \<longleftrightarrow> length p \<le> length s \<and> drop (length s - length p) s = p"

definition probePrincipal :: "ustring \<Rightarrow> ustring \<Rightarrow> ustring \<Rightarrow> ustring \<Rightarrow> jsval" where
  "probePrincipal issuer sub email now = JObj True
     [(js ''v'', jnat 1), (js ''ownerId'', JStr (js ''own_probe'')), (js ''providerIssuer'', JStr issuer),
      (js ''providerSubject'', JStr sub), (js ''verifiedEmail'', JStr email), (js ''sessionExpiresAt'', JStr now)]"

definition checkSubject :: "'w authEnv \<Rightarrow> jsval \<Rightarrow> ustring \<Rightarrow> int \<Rightarrow> ('w, claimRejection + providerIdentity) act" where
  "checkSubject env claims issuer nowMs =
     (case claimIdentifier (getProp claims (js ''sub'')) of
        None \<Rightarrow> retS (Inl Invalid_subject)
      | Some sub \<Rightarrow>
          if getProp claims (js ''email_verified'') \<noteq> JBool True then retS (Inl Email_unverified)
          else case claimIdentifier (getProp claims (js ''email'')) of
            None \<Rightarrow> retS (Inl Invalid_email)
          | Some email \<Rightarrow>
              if \<not> matchesEmail email then retS (Inl Invalid_email)
              else bindS (isoTime env nowMs) (\<lambda>now.
                retS (case decodeAuthPrincipal (probePrincipal issuer sub email now) of
                  Inl (DecodeFailure p _) \<Rightarrow> Inl (if endsWith p (js ''verifiedEmail'') then Invalid_email else Invalid_subject)
                | Inr _ \<Rightarrow> Inr \<lparr>pi_issuer = issuer, pi_subject = sub, pi_verifiedEmail = email\<rparr>)))"

definition checkClaims :: "'w authEnv \<Rightarrow> jsval \<Rightarrow> ustring \<Rightarrow> ustring \<Rightarrow> jsval \<Rightarrow> int \<Rightarrow> ('w, claimRejection + providerIdentity) act" where
  "checkClaims env claims issuer clientId nonce nowMs =
     (let audiences = audiencesOf (getProp claims (js ''aud'')) in
      if getProp claims (js ''iss'') \<noteq> JStr issuer then retS (Inl Wrong_issuer)
      else if JStr clientId \<notin> set audiences then retS (Inl Wrong_audience)
      else if length audiences > 1 \<and> getProp claims (js ''azp'') \<noteq> JStr clientId then retS (Inl Wrong_audience)
      else if (case getProp claims (js ''exp'') of JNum (Fin x) \<Rightarrow> x * 1000 \<le> of_int nowMs | _ \<Rightarrow> True) then retS (Inl Claims_expired)
      else case getProp claims (js ''nonce'') of
        JStr n \<Rightarrow> bindS (safeEqualTo n nonce) (\<lambda>same.
          if \<not> same then retS (Inl Nonce_mismatch) else checkSubject env claims issuer nowMs)
      | _ \<Rightarrow> retS (Inl Nonce_mismatch))"

text \<open>\<open>JSON.stringify\<close> of an array of strings.\<close>

definition ownerKey :: "'w authEnv \<Rightarrow> providerIdentity \<Rightarrow> ustring" where
  "ownerKey env identity = js ''auth.owner.v1.'' @ hexBytes (au_sha256 env
     (js ''['' @ quoteString (pi_issuer identity) @ js '','' @ quoteString (pi_subject identity) @ js '']''))"

definition ownerValue :: "ustring \<Rightarrow> providerIdentity \<Rightarrow> jsval" where
  "ownerValue ownerId identity = JObj True
     [(js ''v'', jnat 1), (js ''ownerId'', JStr ownerId), (js ''issuer'', JStr (pi_issuer identity)),
      (js ''subject'', JStr (pi_subject identity))]"

definition ownerFrom :: "jsval \<Rightarrow> providerIdentity \<Rightarrow> ('w, ustring option) act" where
  "ownerFrom stored identity =
     bindS (fieldOf stored ''ownerId'') (\<lambda>ownerId.
     retS (case readId ownerId [] of
       Inr owner \<Rightarrow>
         if getProp stored (js ''issuer'') \<noteq> JStr (pi_issuer identity) \<or> getProp stored (js ''subject'') \<noteq> JStr (pi_subject identity)
         then None else Some owner
     | Inl _ \<Rightarrow> None))"

fun resolveOwnerFrom :: "'w authEnv \<Rightarrow> providerIdentity \<Rightarrow> nat \<Rightarrow> ('w, ustring option) act" where
  "resolveOwnerFrom env identity 0 = retS None"
| "resolveOwnerFrom env identity (Suc n) =
     bindS (cs_read (au_store env) (ownerKey env identity)) (\<lambda>current. case current of
       Read_unavailable \<Rightarrow> retS None
     | Read_record r \<Rightarrow> ownerFrom (cr_value r) identity
     | Read_absent \<Rightarrow>
         bindS (randomToken env 18) (\<lambda>ownerToken.
         bindS (randomToken env 18) (\<lambda>operationToken.
         bindS (settleWrite (au_store env) \<lparr>ci_key = ownerKey env identity, ci_expectedRevision = None,
             ci_operationId = js ''auth.owner.create.'' @ operationToken,
             ci_value = ownerValue (js ''own_'' @ ownerToken) identity, ci_expiresAt = None\<rparr>) (\<lambda>write. case write of
           Settled_applied r \<Rightarrow> ownerFrom (cr_value r) identity
         | Settled_conflict _ \<Rightarrow> resolveOwnerFrom env identity n
         | Settled_unavailable \<Rightarrow> retS None))))"

definition resolveOwner :: "'w authEnv \<Rightarrow> providerIdentity \<Rightarrow> ('w, ustring option) act" where
  "resolveOwner env identity = resolveOwnerFrom env identity 3"

section \<open>Messaging accounts\<close>

datatype accountLookup = Account_found ustring | Account_absent | Lookup_unavailable

datatype accountCreation = Account_created ustring | Creation_unavailable | Creation_unknown

record 'w accountDirectory =
  ad_lookup :: "ustring \<Rightarrow> ('w, accountLookup) act"
  ad_create :: "ustring \<Rightarrow> ('w, accountCreation) act"

datatype messagingAccount = Account_active jsval | Account_unavailable | Account_conflict

definition mappingKey :: "'w authEnv \<Rightarrow> ustring \<Rightarrow> ustring" where
  "mappingKey env ownerId = js ''auth.mapping.v1.'' @ hexBytes (au_sha256 env ownerId)"

definition mappingValue :: "ustring \<Rightarrow> ustring option \<Rightarrow> jsval" where
  "mappingValue ownerId accountId = JObj True
     [(js ''v'', jnat 1), (js ''ownerId'', JStr ownerId),
      (js ''state'', JStr (js (if accountId = None then ''pending'' else ''active''))), (js ''accountId'', jnullable JStr accountId)]"

definition findOrCreate :: "'w accountDirectory \<Rightarrow> ustring \<Rightarrow> ('w, ustring option) act" where
  "findOrCreate directory ownerId =
     bindS (catchS (ad_lookup directory ownerId) (\<lambda>error. retS Lookup_unavailable)) (\<lambda>found. case found of
       Account_found accountId \<Rightarrow> retS (Some accountId)
     | Lookup_unavailable \<Rightarrow> retS None
     | Account_absent \<Rightarrow>
         bindS (catchS (ad_create directory ownerId) (\<lambda>error. retS Creation_unavailable)) (\<lambda>created. retS (case created of
           Account_created accountId \<Rightarrow> Some accountId | _ \<Rightarrow> None)))"

text \<open>The record \<open>ensureMessagingAccount\<close> continues from: read, or written as pending, or what a competing request wrote.\<close>

definition mappingRecord :: "'w authEnv \<Rightarrow> ustring \<Rightarrow> ('w, controlRecord option) act" where
  "mappingRecord env ownerId =
     bindS (cs_read (au_store env) (mappingKey env ownerId)) (\<lambda>current. case current of
       Read_unavailable \<Rightarrow> retS None
     | Read_record r \<Rightarrow> retS (Some r)
     | Read_absent \<Rightarrow>
         bindS (randomToken env 18) (\<lambda>token.
         bindS (settleWrite (au_store env) \<lparr>ci_key = mappingKey env ownerId, ci_expectedRevision = None,
             ci_operationId = js ''auth.mapping.'' @ token, ci_value = mappingValue ownerId None, ci_expiresAt = None\<rparr>) (\<lambda>write.
         retS (case write of
           Settled_applied r \<Rightarrow> Some r
         | Settled_conflict c \<Rightarrow> c
         | Settled_unavailable \<Rightarrow> None))))"

definition activateAccount :: "'w authEnv \<Rightarrow> 'w accountDirectory \<Rightarrow> ustring \<Rightarrow> controlRecord \<Rightarrow> ustring \<Rightarrow> ('w, messagingAccount) act" where
  "activateAccount env directory ownerId current accountId =
     bindS (randomToken env 18) (\<lambda>token.
     bindS (settleWrite (au_store env) \<lparr>ci_key = mappingKey env ownerId, ci_expectedRevision = Some (cr_revision current),
         ci_operationId = js ''auth.mapping.'' @ token, ci_value = mappingValue ownerId (Some accountId), ci_expiresAt = None\<rparr>) (\<lambda>write.
       case write of
         Settled_applied _ \<Rightarrow> retS (Account_active (JStr accountId))
       | Settled_conflict (Some c) \<Rightarrow>
           bindS (fieldOf (cr_value c) ''state'') (\<lambda>state.
           if state \<noteq> JStr (js ''active'') then retS Account_unavailable
           else (let winner = getProp (cr_value c) (js ''accountId'') in
             if winner = JStr accountId then retS (Account_active (JStr accountId))
             else bindS (catchS (ad_lookup directory ownerId) (\<lambda>error. retS Lookup_unavailable)) (\<lambda>again. retS (case again of
               Account_found a \<Rightarrow> if JStr a = winner then Account_active winner else Account_conflict
             | _ \<Rightarrow> Account_unavailable))))
       | _ \<Rightarrow> retS Account_unavailable))"

definition ensureMessagingAccount :: "'w authEnv \<Rightarrow> 'w accountDirectory \<Rightarrow> ustring \<Rightarrow> ('w, messagingAccount) act" where
  "ensureMessagingAccount env directory ownerId =
     bindS (mappingRecord env ownerId) (\<lambda>current. case current of
       None \<Rightarrow> retS Account_unavailable
     | Some r \<Rightarrow>
         bindS (fieldOf (cr_value r) ''ownerId'') (\<lambda>mapped.
         if mapped \<noteq> JStr ownerId then retS Account_unavailable
         else if getProp (cr_value r) (js ''state'') = JStr (js ''active'')
           then retS (Account_active (getProp (cr_value r) (js ''accountId'')))
         else bindS (findOrCreate directory ownerId) (\<lambda>found. case found of
           None \<Rightarrow> retS Account_unavailable
         | Some accountId \<Rightarrow> activateAccount env directory ownerId r accountId)))"

datatype accountView = View_active jsval | View_pending | View_absent | View_unavailable

definition readMessagingAccount :: "'w authEnv \<Rightarrow> ustring \<Rightarrow> ('w, accountView) act" where
  "readMessagingAccount env ownerId =
     bindS (cs_read (au_store env) (mappingKey env ownerId)) (\<lambda>current. case current of
       Read_unavailable \<Rightarrow> retS View_unavailable
     | Read_absent \<Rightarrow> retS View_absent
     | Read_record r \<Rightarrow>
         bindS (fieldOf (cr_value r) ''ownerId'') (\<lambda>mapped. retS (
           if mapped \<noteq> JStr ownerId then View_unavailable
           else if getProp (cr_value r) (js ''state'') = JStr (js ''active'')
             then View_active (getProp (cr_value r) (js ''accountId'')) else View_pending)))"

section \<open>Beginning a sign-in\<close>

datatype providerRejection = Provider_denied | Provider_invalid

datatype 'a providerResult = Provider_ok 'a | Provider_rejected providerRejection | Provider_unavailable

record authorizationRequest =
  az_redirectUri :: ustring
  az_state :: ustring
  az_nonce :: ustring
  az_codeChallenge :: ustring

text \<open>State, nonce and verifier are what the login record holds.\<close>

record codeExchange =
  ce_callbackUrl :: ustring
  ce_redirectUri :: ustring
  ce_expectedState :: jsval
  ce_nonce :: jsval
  ce_codeVerifier :: jsval

record 'w oidcClient =
  oc_issuer :: ustring
  oc_clientId :: ustring
  oc_authorizationUrl :: "authorizationRequest \<Rightarrow> ('w, ustring providerResult) act"
  oc_exchangeCode :: "codeExchange \<Rightarrow> ('w, jsval providerResult) act"

text \<open>What the callback reads of a URL: the parameters in the order of the query.\<close>

record callbackUrl =
  cu_origin :: ustring
  cu_pathname :: ustring
  cu_params :: "(ustring \<times> ustring) list"

record 'w signInDeps =
  sd_env :: "'w authEnv"
  sd_oidc :: "'w oidcClient"
  sd_messaging :: "'w accountDirectory"
  sd_origin :: ustring
  sd_sessionTtlMs :: nat
  sd_loginTtlMs :: nat
  sd_parseUrl :: "ustring \<Rightarrow> callbackUrl option"

definition LOGIN_PATH :: ustring where
  "LOGIN_PATH = js ''/api/human/auth/login''"

definition CALLBACK_PATH :: ustring where
  "CALLBACK_PATH = js ''/api/human/auth/callback''"

definition loginKey :: "'w authEnv \<Rightarrow> ustring \<Rightarrow> ustring" where
  "loginKey env handle = js ''auth.login.v1.'' @ derive env For_login handle"

definition loginCookie :: "'w authEnv \<Rightarrow> ustring \<Rightarrow> ustring" where
  "loginCookie env state = js ''__Host-khala_login-'' @ take 16 (derive env For_login (js ''state.'' @ state))"

record loginRecord =
  lg_state :: ustring
  lg_nonce :: ustring
  lg_codeVerifier :: ustring
  lg_returnPath :: ustring

definition loginValue :: "loginRecord \<Rightarrow> string \<Rightarrow> jsval" where
  "loginValue l status = JObj True
     [(js ''v'', jnat 1), (js ''state'', JStr (lg_state l)), (js ''nonce'', JStr (lg_nonce l)),
      (js ''codeVerifier'', JStr (lg_codeVerifier l)), (js ''returnPath'', JStr (lg_returnPath l)), (js ''status'', JStr (js status))]"

datatype startResult = Start_redirect ustring "ustring list" | Start_invalid_return_path | Start_unavailable

definition startSignIn :: "'w signInDeps \<Rightarrow> ustring \<Rightarrow> ('w, startResult) act" where
  "startSignIn deps returnPath =
     (let env = sd_env deps in
      if \<not> isSameOriginReturnPath returnPath then retS Start_invalid_return_path
      else
        bindS (randomToken env 32) (\<lambda>handle.
        bindS (randomToken env 32) (\<lambda>state.
        bindS (randomToken env 32) (\<lambda>nonce.
        bindS (randomToken env 32) (\<lambda>verifier.
        bindS (au_clock env) (\<lambda>now.
        bindS (isoTime env (now + int (sd_loginTtlMs deps))) (\<lambda>expiresAt.
          (let login = \<lparr>lg_state = state, lg_nonce = nonce, lg_codeVerifier = verifier, lg_returnPath = returnPath\<rparr> in
           bindS (settleWrite (au_store env) \<lparr>ci_key = loginKey env handle, ci_expectedRevision = None,
               ci_operationId = js ''auth.login.begin.'' @ derive env For_login handle,
               ci_value = loginValue login ''pending'', ci_expiresAt = Some expiresAt\<rparr>) (\<lambda>write. case write of
             Settled_applied _ \<Rightarrow>
               bindS (catchS (oc_authorizationUrl (sd_oidc deps) \<lparr>az_redirectUri = sd_origin deps @ CALLBACK_PATH,
                   az_state = state, az_nonce = nonce, az_codeChallenge = base64url (au_sha256 env verifier)\<rparr>)
                 (\<lambda>error. retS Provider_unavailable)) (\<lambda>url. retS (case url of
                   Provider_ok location \<Rightarrow> Start_redirect location
                     [loginCookie env state @ js ''='' @ handle @ js ''; Path=/; Secure; HttpOnly; SameSite=Lax; Max-Age=''
                        @ dec_digits (sd_loginTtlMs deps div 1000)]
                 | _ \<Rightarrow> Start_unavailable))
           | _ \<Rightarrow> retS Start_unavailable)))))))))"

section \<open>Completing a sign-in\<close>

datatype callbackRejection =
    Login_expired | Login_replayed | State_mismatch | Denied_by_provider | Provider_error | Invalid_response | Mapping_conflict
  | Claim_rejected claimRejection

datatype callbackStage =
  Stage_login_read | Stage_login_consume | Stage_oidc_exchange | Stage_owner_mapping | Stage_matrix_provisioning | Stage_session_create

datatype callbackResult =
    Callback_signed_in jsval "ustring list" authPrincipal
  | Callback_rejected callbackRejection "ustring list"
  | Callback_unavailable "ustring list"

definition paramValues :: "callbackUrl \<Rightarrow> string \<Rightarrow> ustring list" where
  "paramValues url name = map snd (filter (\<lambda>(k, v). k = js name) (cu_params url))"

text \<open>\<open>unavailable(stage, cookies)\<close>: the diagnostic cannot change the outcome.\<close>

definition unavailableAt :: "(callbackStage \<Rightarrow> 'w \<Rightarrow> 'w) \<Rightarrow> callbackStage \<Rightarrow> ustring list \<Rightarrow> ('w, callbackResult) act" where
  "unavailableAt note stage cookies = bindS (updateS (note stage)) (\<lambda>_. retS (Callback_unavailable cookies))"

text \<open>From the accepted claims on: owner, messaging account, session, and the revocation of the browser's previous session.\<close>

definition replacePrevious :: "'w authEnv \<Rightarrow> ustring option \<Rightarrow> ustring \<Rightarrow> ('w, unit) act" where
  "replacePrevious env cookieHeader token =
     (case readCookie cookieHeader SESSION_COOKIE of
        None \<Rightarrow> retS ()
      | Some previous \<Rightarrow>
          if isToken previous
          then bindS (revokeSession env previous (js ''sign-in.'' @ derive env For_session token)) (\<lambda>_. retS ())
          else retS ())"

definition openSession ::
  "'w signInDeps \<Rightarrow> (callbackStage \<Rightarrow> 'w \<Rightarrow> 'w) \<Rightarrow> ustring option \<Rightarrow> ustring list \<Rightarrow> jsval \<Rightarrow> providerIdentity \<Rightarrow> int
   \<Rightarrow> ('w, callbackResult) act" where
  "openSession deps note cookieHeader clear returnPath identity nowMs =
     (let env = sd_env deps in
      bindS (resolveOwner env identity) (\<lambda>owner. case owner of
        None \<Rightarrow> unavailableAt note Stage_owner_mapping clear
      | Some ownerId \<Rightarrow>
          bindS (ensureMessagingAccount env (sd_messaging deps) ownerId) (\<lambda>account. case account of
            Account_conflict \<Rightarrow> retS (Callback_rejected Mapping_conflict clear)
          | Account_unavailable \<Rightarrow> unavailableAt note Stage_matrix_provisioning clear
          | Account_active _ \<Rightarrow>
              bindS (createSession env ownerId identity (nowMs + int (sd_sessionTtlMs deps))) (\<lambda>session. case session of
                None \<Rightarrow> unavailableAt note Stage_session_create clear
              | Some (token, who) \<Rightarrow>
                  bindS (replacePrevious env cookieHeader token) (\<lambda>_.
                  retS (Callback_signed_in returnPath (sessionCookie token (sd_sessionTtlMs deps div 1000) # clear) who))))))"

definition exchangeCallback ::
  "'w signInDeps \<Rightarrow> (callbackStage \<Rightarrow> 'w \<Rightarrow> 'w) \<Rightarrow> authRequest \<Rightarrow> ustring list \<Rightarrow> jsval \<Rightarrow> ('w, callbackResult) act" where
  "exchangeCallback deps note request clear login =
     (let env = sd_env deps; oidc = sd_oidc deps; reject = (\<lambda>why. retS (Callback_rejected why clear));
          exchange = \<lparr>ce_callbackUrl = rq_url request, ce_redirectUri = sd_origin deps @ CALLBACK_PATH, ce_expectedState = getProp login (js ''state''),
            ce_nonce = getProp login (js ''nonce''), ce_codeVerifier = getProp login (js ''codeVerifier'')\<rparr> in
      bindS (catchS (oc_exchangeCode oidc exchange) (\<lambda>error. retS Provider_unavailable)) (\<lambda>exchanged. case exchanged of
        Provider_rejected refusal \<Rightarrow> reject (if refusal = Provider_denied then Denied_by_provider else Invalid_response)
      | Provider_unavailable \<Rightarrow> unavailableAt note Stage_oidc_exchange clear
      | Provider_ok claims \<Rightarrow>
          bindS (au_clock env) (\<lambda>nowMs.
          bindS (checkClaims env claims (oc_issuer oidc) (oc_clientId oidc) (getProp login (js ''nonce'')) nowMs) (\<lambda>checked.
          case checked of
            Inl refusal \<Rightarrow> reject (Claim_rejected refusal)
          | Inr identity \<Rightarrow>
              openSession deps note (rq_header request (js ''cookie'')) clear (getProp login (js ''returnPath'')) identity nowMs))))"

text \<open>From the consumed login on: an error-only callback, or the code exchange and the claims.\<close>

definition exchangeAndSignIn ::
  "'w signInDeps \<Rightarrow> (callbackStage \<Rightarrow> 'w \<Rightarrow> 'w) \<Rightarrow> authRequest \<Rightarrow> callbackUrl \<Rightarrow> ustring list \<Rightarrow> jsval \<Rightarrow> ('w, callbackResult) act" where
  "exchangeAndSignIn deps note request url clear login =
     (case paramValues url ''error'' of
        [e] \<Rightarrow>
          if e \<noteq> [] \<and> paramValues url ''code'' = []
          then retS (Callback_rejected (if e = js ''access_denied'' then Denied_by_provider else Provider_error) clear)
          else exchangeCallback deps note request clear login
      | _ \<Rightarrow> exchangeCallback deps note request clear login)"

text \<open>The one-time consume, under an operation identifier of its own.\<close>

definition consumeLogin :: "'w authEnv \<Rightarrow> ustring \<Rightarrow> controlRecord \<Rightarrow> ('w, settledWrite) act" where
  "consumeLogin env key r =
     bindS (randomToken env 18) (\<lambda>token.
       settleWrite (au_store env) \<lparr>ci_key = key, ci_expectedRevision = Some (cr_revision r),
         ci_operationId = js ''auth.login.consume.'' @ token,
         ci_value = withProp (cr_value r) (js ''status'') (JStr (js ''consumed'')), ci_expiresAt = cr_expiresAt r\<rparr>)"

definition completeSignIn ::
  "'w signInDeps \<Rightarrow> authRequest \<Rightarrow> (callbackStage \<Rightarrow> 'w \<Rightarrow> 'w) \<Rightarrow> ('w, callbackResult) act" where
  "completeSignIn deps request note =
     (let env = sd_env deps in
      case sd_parseUrl deps (rq_url request) of
        None \<Rightarrow> throwS typeError
      | Some url \<Rightarrow> (case paramValues url ''state'' of
          [state] \<Rightarrow>
            (let cookieName = loginCookie env state; clear = [clearCookie cookieName] in
             case readCookie (rq_header request (js ''cookie'')) cookieName of
               None \<Rightarrow> retS (Callback_rejected Login_expired [])
             | Some handle \<Rightarrow>
                 if \<not> isToken handle then retS (Callback_rejected Login_expired clear)
                 else bindS (cs_read (au_store env) (loginKey env handle)) (\<lambda>read. case read of
                   Read_unavailable \<Rightarrow> unavailableAt note Stage_login_read []
                 | Read_absent \<Rightarrow> retS (Callback_rejected Login_expired clear)
                 | Read_record r \<Rightarrow>
                     bindS (fieldOf (cr_value r) ''status'') (\<lambda>status.
                     if status \<noteq> JStr (js ''pending'') then retS (Callback_rejected Login_replayed clear)
                     else if cu_origin url @ cu_pathname url \<noteq> sd_origin deps @ CALLBACK_PATH
                       then retS (Callback_rejected State_mismatch [])
                     else bindS (safeEqualTo state (getProp (cr_value r) (js ''state''))) (\<lambda>bound.
                     if \<not> bound then retS (Callback_rejected State_mismatch [])
                     else bindS (consumeLogin env (loginKey env handle) r) (\<lambda>consume. case consume of
                       Settled_conflict _ \<Rightarrow> retS (Callback_rejected Login_replayed clear)
                     | Settled_unavailable \<Rightarrow> unavailableAt note Stage_login_consume clear
                     | Settled_applied _ \<Rightarrow>
                         exchangeAndSignIn deps note request url clear (cr_value r))))))
        | _ \<Rightarrow> retS (Callback_rejected State_mismatch [])))"

end
