(* ===== verification/AuthService.thy ===== *)
theory AuthService
  imports SignIn
begin

text \<open>
  The public surface of the human auth module (\<^verbatim>\<open>apps/control/src/auth/index.ts\<close>): the checks of \<open>createAuthService\<close>, the
  handlers over the guarded store, and the identity port the rest of the control application is given. \<open>new URL\<close> is a
  parameter; a diagnostic is an update of the world that cannot fail.
\<close>

section \<open>Construction\<close>

datatype authEvent = Ev_sign_in | Ev_callback | Ev_authenticate | Ev_mutation | Ev_sign_out

record authDiagnostic =
  dx_event :: authEvent
  dx_code :: string
  dx_requestId :: "ustring option"

record 'w authOptions =
  ao_env :: "'w authEnv"
  ao_oidc :: "'w oidcClient"
  ao_messaging :: "'w accountDirectory"
  ao_origin :: ustring
  ao_sessionTtlMs :: jsnum
  ao_loginTtlMs :: jsnum
  ao_allowInsecureLoopback :: bool
  ao_parseOrigin :: "ustring \<Rightarrow> urlParts option"
  ao_parseUrl :: "ustring \<Rightarrow> callbackUrl option"
  ao_log :: "authDiagnostic \<Rightarrow> 'w \<Rightarrow> 'w"

text \<open>What the handlers close over.\<close>

record 'w authService =
  as_deps :: "'w signInDeps"
  as_log :: "authDiagnostic \<Rightarrow> 'w \<Rightarrow> 'w"

definition validLifetime :: "jsnum \<Rightarrow> bool" where
  "validLifetime ttl \<longleftrightarrow> isSafeInteger ttl \<and> \<not> negativeNum ttl \<and> 1000 \<le> natOfNum ttl"

definition createAuthService :: "'w authOptions \<Rightarrow> jsval + 'w authService" where
  "createAuthService options =
     (case ao_parseOrigin options (ao_origin options) of
        None \<Rightarrow> Inl typeError
      | Some origin \<Rightarrow>
          if \<not> (url_protocol origin = js ''https:''
               \<or> ao_allowInsecureLoopback options \<and> url_protocol origin = js ''http:'' \<and> url_hostname origin \<in> set loopbackHosts)
             \<or> url_origin origin \<noteq> ao_origin options
          then Inl (JStr (js ''auth origin must be an exact https origin''))
          else if \<not> validLifetime (ao_sessionTtlMs options) \<or> \<not> validLifetime (ao_loginTtlMs options)
          then Inl (JStr (js ''auth lifetimes must be whole milliseconds of at least one second''))
          else Inr \<lparr>as_deps =
              \<lparr>sd_env = (ao_env options)\<lparr>au_store := guardStore (au_store (ao_env options))\<rparr>, sd_oidc = ao_oidc options,
               sd_messaging = ao_messaging options, sd_origin = ao_origin options, sd_sessionTtlMs = natOfNum (ao_sessionTtlMs options),
               sd_loginTtlMs = natOfNum (ao_loginTtlMs options), sd_parseUrl = ao_parseUrl options\<rparr>,
             as_log = ao_log options\<rparr>)"

section \<open>Diagnostics\<close>

definition isRequestId :: "ustring \<Rightarrow> bool" where
  "isRequestId s \<longleftrightarrow> 1 \<le> length s \<and> length s \<le> 128 \<and> list_all (\<lambda>u. isTokenUnit u \<or> u = 0x2E \<or> u = 0x3A) s"

definition requestIdOf :: "authRequest \<Rightarrow> ustring option" where
  "requestIdOf request =
     (case (case rq_header request (js ''x-nf-request-id'') of Some i \<Rightarrow> Some i | None \<Rightarrow> rq_header request (js ''x-request-id'')) of
        Some i \<Rightarrow> if isRequestId i then Some i else None
      | None \<Rightarrow> None)"

fun lookupStageText :: "sessionLookupStage \<Rightarrow> string" where
  "lookupStageText Cookie_absent = ''cookie_absent''"
| "lookupStageText Cookie_invalid = ''cookie_invalid''"
| "lookupStageText Record_absent = ''record_absent''"
| "lookupStageText Store_unavailable = ''store_unavailable''"
| "lookupStageText Record_invalid = ''record_invalid''"
| "lookupStageText Session_revoked = ''session_revoked''"
| "lookupStageText Session_expired = ''session_expired''"

fun claimRejectionText :: "claimRejection \<Rightarrow> string" where
  "claimRejectionText Wrong_issuer = ''wrong_issuer''"
| "claimRejectionText Wrong_audience = ''wrong_audience''"
| "claimRejectionText Claims_expired = ''expired''"
| "claimRejectionText Nonce_mismatch = ''nonce_mismatch''"
| "claimRejectionText Invalid_subject = ''invalid_subject''"
| "claimRejectionText Email_unverified = ''email_unverified''"
| "claimRejectionText Invalid_email = ''invalid_email''"

fun callbackRejectionText :: "callbackRejection \<Rightarrow> string" where
  "callbackRejectionText Login_expired = ''login_expired''"
| "callbackRejectionText Login_replayed = ''login_replayed''"
| "callbackRejectionText State_mismatch = ''state_mismatch''"
| "callbackRejectionText Denied_by_provider = ''provider_denied''"
| "callbackRejectionText Provider_error = ''provider_error''"
| "callbackRejectionText Invalid_response = ''invalid_response''"
| "callbackRejectionText Mapping_conflict = ''mapping_conflict''"
| "callbackRejectionText (Claim_rejected c) = claimRejectionText c"

fun callbackStageText :: "callbackStage \<Rightarrow> string" where
  "callbackStageText Stage_login_read = ''login_read''"
| "callbackStageText Stage_login_consume = ''login_consume''"
| "callbackStageText Stage_oidc_exchange = ''oidc_exchange''"
| "callbackStageText Stage_owner_mapping = ''owner_mapping''"
| "callbackStageText Stage_matrix_provisioning = ''matrix_provisioning''"
| "callbackStageText Stage_session_create = ''session_create''"

definition noteFor :: "'w authService \<Rightarrow> authRequest option \<Rightarrow> authEvent \<Rightarrow> string \<Rightarrow> 'w \<Rightarrow> 'w" where
  "noteFor svc request event text =
     as_log svc \<lparr>dx_event = event, dx_code = text, dx_requestId = (case request of None \<Rightarrow> None | Some r \<Rightarrow> requestIdOf r)\<rparr>"

definition noteS :: "'w authService \<Rightarrow> authRequest option \<Rightarrow> authEvent \<Rightarrow> string \<Rightarrow> 'a \<Rightarrow> ('w, 'a) act" where
  "noteS svc request event text x = bindS (updateS (noteFor svc request event text)) (\<lambda>_. retS x)"

section \<open>Requests\<close>

abbreviation serviceEnv :: "'w authService \<Rightarrow> 'w authEnv" where
  "serviceEnv svc \<equiv> sd_env (as_deps svc)"

record humanContext =
  hc_principal :: authPrincipal
  hc_csrfToken :: ustring

datatype authentication = Auth_authenticated humanContext | Auth_signed_out | Auth_unavailable

definition sessionOf ::
  "'w authService \<Rightarrow> (sessionLookupStage \<Rightarrow> 'w \<Rightarrow> 'w) \<Rightarrow> authRequest \<Rightarrow> ('w, sessionLookup) act" where
  "sessionOf svc note request =
     bindS (au_clock (serviceEnv svc)) (\<lambda>now. lookupSession (serviceEnv svc) note (rq_header request (js ''cookie'')) now)"

definition authenticateRequest :: "'w authService \<Rightarrow> authRequest \<Rightarrow> ('w, authentication) act" where
  "authenticateRequest svc request =
     bindS (sessionOf svc (\<lambda>st. noteFor svc (Some request) Ev_authenticate (lookupStageText st)) request) (\<lambda>session. retS (case session of
       Authenticated who token r \<Rightarrow> Auth_authenticated \<lparr>hc_principal = who, hc_csrfToken = csrfTokenFor (serviceEnv svc) token\<rparr>
     | Session_signed_out \<Rightarrow> Auth_signed_out
     | Session_unavailable \<Rightarrow> Auth_unavailable))"

definition CSRF_HEADER :: ustring where
  "CSRF_HEADER = js ''x-khala-csrf''"

datatype mutationRejection = Reject_not_a_mutation | Reject_forbidden_origin | Reject_signed_out | Reject_csrf_mismatch

datatype mutationAuthorization = Authorized humanContext | Mutation_rejected mutationRejection | Mutation_unavailable

definition requireHumanMutation :: "'w authService \<Rightarrow> authRequest \<Rightarrow> ('w, mutationAuthorization) act" where
  "requireHumanMutation svc request =
     (case checkMutationOrigin (serviceEnv svc) request (sd_origin (as_deps svc)) of
        Not_a_mutation \<Rightarrow> noteS svc (Some request) Ev_mutation ''not_a_mutation'' (Mutation_rejected Reject_not_a_mutation)
      | Forbidden_origin \<Rightarrow> noteS svc (Some request) Ev_mutation ''forbidden_origin'' (Mutation_rejected Reject_forbidden_origin)
      | Origin_ok \<Rightarrow>
          bindS (sessionOf svc (\<lambda>st. noteFor svc (Some request) Ev_mutation (lookupStageText st)) request) (\<lambda>session. case session of
            Session_unavailable \<Rightarrow> retS Mutation_unavailable
          | Session_signed_out \<Rightarrow> retS (Mutation_rejected Reject_signed_out)
          | Authenticated who token r \<Rightarrow>
              (let csrfToken = csrfTokenFor (serviceEnv svc) token in
               if \<not> csrfMatches (rq_header request CSRF_HEADER) csrfToken
               then noteS svc (Some request) Ev_mutation ''csrf_mismatch'' (Mutation_rejected Reject_csrf_mismatch)
               else retS (Authorized \<lparr>hc_principal = who, hc_csrfToken = csrfToken\<rparr>))))"

datatype signOutResult =
    Out_signed_out "ustring list"
  | Out_rejected mutationRejection
  | Out_unavailable
  | Out_unknown ustring

definition signOut :: "'w authService \<Rightarrow> authRequest \<Rightarrow> ustring \<Rightarrow> ('w, signOutResult) act" where
  "signOut svc request operationId =
     (let cleared = [clearCookie SESSION_COOKIE] in
      case checkMutationOrigin (serviceEnv svc) request (sd_origin (as_deps svc)) of
        Not_a_mutation \<Rightarrow> noteS svc (Some request) Ev_sign_out ''not_a_mutation'' (Out_rejected Reject_not_a_mutation)
      | Forbidden_origin \<Rightarrow> noteS svc (Some request) Ev_sign_out ''forbidden_origin'' (Out_rejected Reject_forbidden_origin)
      | Origin_ok \<Rightarrow>
          bindS (sessionOf svc (\<lambda>_ w. w) request) (\<lambda>session. case session of
            Session_unavailable \<Rightarrow> noteS svc (Some request) Ev_sign_out ''store_unavailable'' Out_unavailable
          | Session_signed_out \<Rightarrow> retS (Out_signed_out cleared)
          | Authenticated who token r \<Rightarrow>
              if \<not> csrfMatches (rq_header request CSRF_HEADER) (csrfTokenFor (serviceEnv svc) token)
              then noteS svc (Some request) Ev_sign_out ''csrf_mismatch'' (Out_rejected Reject_csrf_mismatch)
              else bindS (revokeSession (serviceEnv svc) token operationId) (\<lambda>revoked. case revoked of
                Session_is_revoked \<Rightarrow> retS (Out_signed_out cleared)
              | Revocation_unavailable \<Rightarrow> noteS svc (Some request) Ev_sign_out ''unavailable'' Out_unavailable
              | Revocation_unknown \<Rightarrow> noteS svc (Some request) Ev_sign_out ''outcome_unknown'' (Out_unknown operationId))))"

section \<open>Sign-in\<close>

definition beginSignIn :: "'w authService \<Rightarrow> ustring \<Rightarrow> authRequest option \<Rightarrow> ('w, startResult) act" where
  "beginSignIn svc returnPath request =
     bindS (startSignIn (as_deps svc) returnPath) (\<lambda>result. case result of
       Start_redirect _ _ \<Rightarrow> retS result
     | Start_invalid_return_path \<Rightarrow> noteS svc request Ev_sign_in ''invalid_return_path'' result
     | Start_unavailable \<Rightarrow> noteS svc request Ev_sign_in ''unavailable'' result)"

definition finishSignIn :: "'w authService \<Rightarrow> authRequest \<Rightarrow> ('w, callbackResult) act" where
  "finishSignIn svc request =
     bindS (completeSignIn (as_deps svc) request (\<lambda>stage. noteFor svc (Some request) Ev_callback (callbackStageText stage))) (\<lambda>result.
     case result of
       Callback_rejected why _ \<Rightarrow> noteS svc (Some request) Ev_callback (callbackRejectionText why) result
     | _ \<Rightarrow> retS result)"

definition serviceAccount :: "'w authService \<Rightarrow> ustring \<Rightarrow> ('w, accountView) act" where
  "serviceAccount svc ownerId = readMessagingAccount (serviceEnv svc) ownerId"

section \<open>The identity port\<close>

definition upperHex :: "nat \<Rightarrow> cunit" where
  "upperHex n = (if n < 10 then of_nat (0x30 + n) else of_nat (0x41 + (n - 10)))"

definition percentByte :: "nat \<Rightarrow> ustring" where
  "percentByte b =
     (if b < 0x80 \<and> (isTokenUnit (of_nat b) \<or> of_nat b \<in> set (js ''.!~*()'') \<or> b = 0x27) then [of_nat b]
      else [0x25, upperHex (b div 16), upperHex (b mod 16)])"

text \<open>\<open>None\<close> is the \<open>URIError\<close> of a lone surrogate.\<close>

definition encodeURIComponent :: "ustring \<Rightarrow> ustring option" where
  "encodeURIComponent s =
     (if list_ex (\<lambda>c. 0xD800 \<le> c \<and> c \<le> 0xDFFF) (code_points s) then None else Some (concat (map percentByte (textEncode s))))"

definition uriError :: jsval where
  "uriError = JObj False [(js ''name'', JStr (js ''URIError''))]"

definition identityCurrent :: "'w authService \<Rightarrow> authRequest \<Rightarrow> ('w, identityState) act" where
  "identityCurrent svc request =
     bindS (authenticateRequest svc request) (\<lambda>auth. retS (case auth of
       Auth_authenticated c \<Rightarrow> Signed_in (hc_principal c)
     | Auth_signed_out \<Rightarrow> identityState.Signed_out
     | Auth_unavailable \<Rightarrow> Identity_unavailable))"

definition identityBeginSignIn :: "'w authService \<Rightarrow> ustring \<Rightarrow> ('w, (ustring, unit) operationResult) act" where
  "identityBeginSignIn svc returnPath =
     (if \<not> isSameOriginReturnPath returnPath then retS (Op_rejected ())
      else case encodeURIComponent returnPath of
        None \<Rightarrow> throwS uriError
      | Some encoded \<Rightarrow> retS (Op_ok (sd_origin (as_deps svc) @ LOGIN_PATH @ js ''?return_to='' @ encoded)))"

definition identitySignOut :: "'w authService \<Rightarrow> authRequest \<Rightarrow> ustring \<Rightarrow> ('w, (unit, unit) operationResult) act" where
  "identitySignOut svc request operationId =
     bindS (signOut svc request operationId) (\<lambda>result. retS (case result of
       Out_signed_out _ \<Rightarrow> Op_ok ()
     | Out_unknown u \<Rightarrow> Op_outcome_unknown u
     | _ \<Rightarrow> Op_unavailable))"

end
