(* ===== verification/AuthProperties.thy ===== *)
theory AuthProperties
  imports AuthService
begin

text \<open>
  Theorems about sessions and sign-in. First what an authorized mutation and a completed sign-in rest on, for every port;
  then the life of a session on a quiet store.
\<close>

section \<open>Text and tokens\<close>

lemma hexDigit_lower: "n < 16 \<Longrightarrow> isDigit (hexDigit n) \<or> (0x61 \<le> hexDigit n \<and> hexDigit n \<le> 0x66)"
proof -
  assume "n < 16"
  then have "n \<in> set (upt 0 16)" by simp
  then show ?thesis by (simp add: upt_rec hexDigit_def isDigit_def) (elim disjE; simp)
qed

lemma hexBytes_units: "list_all isByte bs \<Longrightarrow> u \<in> set (hexBytes bs) \<Longrightarrow> isDigit u \<or> (0x61 \<le> u \<and> u \<le> 0x66)"
proof -
  assume b: "list_all isByte bs" and u: "u \<in> set (hexBytes bs)"
  then obtain x where "x \<in> set bs" "u = hexDigit (x div 16) \<or> u = hexDigit (x mod 16)" by (auto simp: hexBytes_def)
  then show ?thesis using b hexDigit_lower[of "x div 16"] hexDigit_lower[of "x mod 16"] by (auto simp: list_all_iff isByte_def)
qed

lemma ascii_points: "list_all (\<lambda>u. u < 0x80) s \<Longrightarrow> code_points s = map unat s"
  by (induction s rule: code_points.induct) (auto simp: isHigh_def word_less_nat_alt word_le_nat_alt)

definition isAscii :: "ustring \<Rightarrow> bool" where
  "isAscii s \<longleftrightarrow> list_all (\<lambda>u. u < 0x80) s"

lemma utf8_ascii: "list_all (\<lambda>b. b < 0x80) (utf8_bytes c) \<longleftrightarrow> c < 0x80"
  by (auto simp: utf8_bytes_def)

lemma ascii_code_points: "list_all (\<lambda>c. c < 0x80) (code_points s) \<Longrightarrow> isAscii s"
  by (induction s rule: code_points.induct) (auto simp: isAscii_def word_less_nat_alt split: if_splits)

lemma textEncode_ascii: "isAscii s \<Longrightarrow> textEncode s = map unat s"
proof -
  assume a: "isAscii s"
  have "concat (map utf8_bytes (map unat s)) = map unat s"
    using a by (induction s) (auto simp: isAscii_def utf8_bytes_def word_less_nat_alt)
  then show ?thesis using ascii_points[of s] a by (simp add: textEncode_def isAscii_def)
qed

lemma safeEqual_exact: "isAscii s \<Longrightarrow> safeEqual p s \<longleftrightarrow> p = s"
proof
  assume a: "isAscii s" and "safeEqual p s"
  then have eq: "textEncode p = map unat s" by (simp add: safeEqual_def textEncode_ascii)
  have "list_all (\<lambda>b. b < 0x80) (textEncode p)"
    using a by (simp add: eq isAscii_def list_all_iff word_less_nat_alt)
  then have "list_all (\<lambda>c. list_all (\<lambda>b. b < 0x80) (utf8_bytes c)) (code_points p)"
    by (auto simp: textEncode_def list_all_iff)
  then have "isAscii p" unfolding utf8_ascii by (rule ascii_code_points)
  then have "map unat p = map unat s" using eq by (simp add: textEncode_ascii)
  then show "p = s" by (rule map_injective) (simp add: inj_def word_unat_eq_iff)
qed (simp add: safeEqual_def)

lemma derive_ascii: "list_all isByte (au_sha256 env x) \<Longrightarrow> isAscii (hexBytes (au_sha256 env x))"
  using hexBytes_units[of "au_sha256 env x"]
  by (fastforce simp: isAscii_def list_all_iff isDigit_def word_le_nat_alt word_less_nat_alt)

section \<open>What an authorized mutation rests on\<close>

lemma lookupSession_authenticated:
  assumes "lookupSession env note header now w = (Inr (Authenticated who token r), w')"
  shows "readCookie header SESSION_COOKIE = Some token \<and> isToken token
    \<and> cs_read (au_store env) (sessionKey env token) w = (Inr (Read_record r), w')
    \<and> principalOf (cr_value r) = Some who \<and> getProp (cr_value r) (js ''revoked'') = JBool False
    \<and> (\<exists>t. au_dateParse env (ap_sessionExpiresAt who) = Some t \<and> now < t)"
  using assms unfolding lookupSession_def Let_def
  by (auto dest!: bindS_Inr split: option.splits if_splits controlRead.splits jsval.splits)

definition hashOk :: "'w authEnv \<Rightarrow> bool" where
  "hashOk env \<longleftrightarrow> (\<forall>x. length (au_sha256 env x) = 32 \<and> list_all isByte (au_sha256 env x))"

lemma derived_ascii: "hashOk env \<Longrightarrow> isAscii (derive env purpose token)"
  by (simp add: derive_def hashOk_def derive_ascii)

lemma csrf_exact: "hashOk env \<Longrightarrow> csrfMatches p (csrfTokenFor env token) \<longleftrightarrow> p = Some (csrfTokenFor env token)"
  by (cases p) (simp_all add: csrfMatches_def csrfTokenFor_def safeEqual_exact derived_ascii)

lemma origin_ok: "checkMutationOrigin env request origin = Origin_ok \<longleftrightarrow>
    au_toUpperCase env (rq_method request) \<notin> {js ''GET'', js ''HEAD'', js ''OPTIONS''}
    \<and> rq_header request (js ''origin'') = Some origin \<and> rq_header request (js ''sec-fetch-site'') \<in> {None, Some (js ''same-origin'')}"
  by (auto simp: checkMutationOrigin_def split: option.split)

lemma sessionOf_authenticated:
  assumes "sessionOf svc note request w = (Inr (Authenticated who token r), w')"
  obtains now w1 where "au_clock (serviceEnv svc) w = (Inr now, w1)"
    "lookupSession (serviceEnv svc) note (rq_header request (js ''cookie'')) now w1 = (Inr (Authenticated who token r), w')"
  using assms unfolding sessionOf_def by (auto dest!: bindS_Inr)

text \<open>C3: A mutation is authorized only on the session's own evidence. When \<open>requireHumanMutation\<close> answers \<open>authorized\<close>, the
  method is not a safe one, the \<open>Origin\<close> is the configured one, the fetch metadata is absent or same-origin, the request has
  exactly one session cookie with a well-formed token, the store was read in this call under the key derived from that token
  and returned a record that decodes to the principal answered, is not revoked and expires after the clock's moment, and the
  CSRF header is exactly the token derived from the session token.\<close>

theorem mutation_is_authorized:
  assumes "requireHumanMutation svc request w = (Inr (Authorized c), w')" and "hashOk (serviceEnv svc)"
  shows "au_toUpperCase (serviceEnv svc) (rq_method request) \<notin> {js ''GET'', js ''HEAD'', js ''OPTIONS''}
    \<and> rq_header request (js ''origin'') = Some (sd_origin (as_deps svc))
    \<and> rq_header request (js ''sec-fetch-site'') \<in> {None, Some (js ''same-origin'')}
    \<and> (\<exists>token now w1 r t. readCookie (rq_header request (js ''cookie'')) SESSION_COOKIE = Some token \<and> isToken token
        \<and> au_clock (serviceEnv svc) w = (Inr now, w1)
        \<and> cs_read (au_store (serviceEnv svc)) (sessionKey (serviceEnv svc) token) w1 = (Inr (Read_record r), w')
        \<and> principalOf (cr_value r) = Some (hc_principal c) \<and> getProp (cr_value r) (js ''revoked'') = JBool False
        \<and> au_dateParse (serviceEnv svc) (ap_sessionExpiresAt (hc_principal c)) = Some t \<and> now < t
        \<and> rq_header request CSRF_HEADER = Some (csrfTokenFor (serviceEnv svc) token)
        \<and> hc_csrfToken c = csrfTokenFor (serviceEnv svc) token)"
proof -
  have ok: "checkMutationOrigin (serviceEnv svc) request (sd_origin (as_deps svc)) = Origin_ok"
    using assms(1) by (auto simp: requireHumanMutation_def noteS_def bindS_def tryS_def split: originCheck.splits)
  obtain who token r where session: "sessionOf svc (\<lambda>st. noteFor svc (Some request) Ev_mutation (lookupStageText st)) request w
        = (Inr (Authenticated who token r), w')"
    and csrf: "csrfMatches (rq_header request CSRF_HEADER) (csrfTokenFor (serviceEnv svc) token)"
    and c: "c = \<lparr>hc_principal = who, hc_csrfToken = csrfTokenFor (serviceEnv svc) token\<rparr>"
    using assms(1) ok by (auto simp: requireHumanMutation_def noteS_def Let_def dest!: bindS_Inr split: sessionLookup.splits if_splits)
  obtain now w1 where "au_clock (serviceEnv svc) w = (Inr now, w1)"
    "lookupSession (serviceEnv svc) (\<lambda>st. noteFor svc (Some request) Ev_mutation (lookupStageText st))
       (rq_header request (js ''cookie'')) now w1 = (Inr (Authenticated who token r), w')"
    using sessionOf_authenticated[OF session] .
  moreover note lookupSession_authenticated[OF this(2)]
  ultimately show ?thesis using ok csrf c csrf_exact[OF assms(2)] unfolding origin_ok by auto
qed

section \<open>What a completed sign-in rests on\<close>

lemma decodeAuthPrincipal_eq:
  "decodeAuthPrincipal j = Inr who \<longleftrightarrow>
     exactObject j [''v'', ''ownerId'', ''providerIssuer'', ''providerSubject'', ''verifiedEmail'', ''sessionExpiresAt'']
     \<and> propOf j ''v'' = jnat 1 \<and> propOf j ''ownerId'' = JStr (ap_ownerId who)
     \<and> propOf j ''providerIssuer'' = JStr (ap_providerIssuer who) \<and> propOf j ''providerSubject'' = JStr (ap_providerSubject who)
     \<and> propOf j ''verifiedEmail'' = JStr (ap_verifiedEmail who) \<and> propOf j ''sessionExpiresAt'' = JStr (ap_sessionExpiresAt who)
     \<and> wfId (ap_ownerId who) \<and> wfId (ap_providerIssuer who) \<and> wfId (ap_providerSubject who) \<and> wfId (ap_verifiedEmail who)
     \<and> wfTimestamp (ap_sessionExpiresAt who) \<and> matchesEmail (ap_verifiedEmail who) \<and> \<not> matchesEmail (ap_ownerId who)"
  unfolding decodeAuthPrincipal_def bind_object_iff
  unfolding bindE_eq_Inr version_eq_Inr readId_eq_Inr identifier_eq_Inr utcTimestamp_eq_Inr check_eq_Inr
  by (cases who) (simp, blast)

lemma principalOf_eq:
  "principalOf session = Some who \<longleftrightarrow> (\<exists>p ps. session = JObj p ps)
     \<and> getProp session (js ''ownerId'') = JStr (ap_ownerId who)
     \<and> getProp session (js ''providerIssuer'') = JStr (ap_providerIssuer who)
     \<and> getProp session (js ''providerSubject'') = JStr (ap_providerSubject who)
     \<and> getProp session (js ''verifiedEmail'') = JStr (ap_verifiedEmail who)
     \<and> getProp session (js ''expiresAt'') = JStr (ap_sessionExpiresAt who)
     \<and> wfId (ap_ownerId who) \<and> wfId (ap_providerIssuer who) \<and> wfId (ap_providerSubject who) \<and> wfId (ap_verifiedEmail who)
     \<and> wfTimestamp (ap_sessionExpiresAt who) \<and> matchesEmail (ap_verifiedEmail who) \<and> \<not> matchesEmail (ap_ownerId who)"
proof -
  have "exactObject (JObj True [(js ''v'', a), (js ''ownerId'', b), (js ''providerIssuer'', c), (js ''providerSubject'', d),
      (js ''verifiedEmail'', e), (js ''sessionExpiresAt'', f)])
    [''v'', ''ownerId'', ''providerIssuer'', ''providerSubject'', ''verifiedEmail'', ''sessionExpiresAt'']" for a b c d e f
    by (auto simp: exactObject_def)
  moreover have "(case d of Inr x \<Rightarrow> Some x | Inl _ \<Rightarrow> None) = Some who \<longleftrightarrow> d = Inr who" for d :: "authPrincipal decoded"
    by (cases d) simp_all
  ultimately show ?thesis
    by (cases session) (simp_all add: principalOf_def decodeAuthPrincipal_eq propOf_def)
qed

text \<open>The claims a sign-in may rest on.\<close>

definition claimsAccepted :: "jsval \<Rightarrow> ustring \<Rightarrow> ustring \<Rightarrow> ustring \<Rightarrow> int \<Rightarrow> providerIdentity \<Rightarrow> bool" where
  "claimsAccepted claims issuer clientId nonce now identity \<longleftrightarrow>
     getProp claims (js ''iss'') = JStr issuer \<and> pi_issuer identity = issuer
     \<and> JStr clientId \<in> set (audiencesOf (getProp claims (js ''aud'')))
     \<and> (length (audiencesOf (getProp claims (js ''aud''))) > 1 \<longrightarrow> getProp claims (js ''azp'') = JStr clientId)
     \<and> (\<exists>x. getProp claims (js ''exp'') = JNum (Fin x) \<and> of_int now < x * 1000)
     \<and> (\<exists>n. getProp claims (js ''nonce'') = JStr n \<and> safeEqual n nonce)
     \<and> getProp claims (js ''sub'') = JStr (pi_subject identity)
     \<and> getProp claims (js ''email_verified'') = JBool True
     \<and> getProp claims (js ''email'') = JStr (pi_verifiedEmail identity) \<and> matchesEmail (pi_verifiedEmail identity)"

lemma claimIdentifier_Some: "claimIdentifier v = Some s \<Longrightarrow> v = JStr s"
  by (auto simp: claimIdentifier_def split: jsval.splits if_splits)

lemma checkSubject_accepts:
  assumes "checkSubject env claims issuer now w = (Inr (Inr identity), w')"
  shows "w' = w \<and> pi_issuer identity = issuer \<and> getProp claims (js ''sub'') = JStr (pi_subject identity)
    \<and> getProp claims (js ''email_verified'') = JBool True
    \<and> getProp claims (js ''email'') = JStr (pi_verifiedEmail identity) \<and> matchesEmail (pi_verifiedEmail identity)"
  using assms unfolding checkSubject_def
  by (auto dest!: bindS_Inr claimIdentifier_Some simp: isoTime_def split: option.splits if_splits sum.splits decodeFailure.splits)

lemma checkClaims_accepts:
  assumes "checkClaims env claims issuer clientId nonce now w = (Inr (Inr identity), w')"
  obtains n where "w' = w" "nonce = JStr n" "claimsAccepted claims issuer clientId n now identity"
proof -
  let ?a = "audiencesOf (getProp claims (js ''aud''))"
  have pre: "getProp claims (js ''iss'') = JStr issuer" "JStr clientId \<in> set ?a" "length ?a > 1 \<longrightarrow> getProp claims (js ''azp'') = JStr clientId"
    using assms by (auto simp: checkClaims_def Let_def split: if_splits)
  obtain x where x: "getProp claims (js ''exp'') = JNum (Fin x)" "of_int now < x * 1000"
    using assms pre by (auto simp: checkClaims_def Let_def not_le split: if_splits jsval.splits jsnum.splits)
  obtain k where k: "getProp claims (js ''nonce'') = JStr k"
    using assms pre x by (cases "getProp claims (js ''nonce'')") (auto simp: checkClaims_def Let_def)
  have "bindS (safeEqualTo k nonce) (\<lambda>same. if \<not> same then retS (Inl Nonce_mismatch) else checkSubject env claims issuer now) w
      = (Inr (Inr identity), w')"
    using assms pre x k by (auto simp: checkClaims_def Let_def not_le split: if_splits)
  then obtain n where "nonce = JStr n" "safeEqual k n" "checkSubject env claims issuer now w = (Inr (Inr identity), w')"
    by (auto simp: safeEqualTo_def dest!: bindS_Inr split: jsval.splits if_splits)
  moreover note checkSubject_accepts[OF this(3)]
  ultimately show ?thesis using that[of n] pre x k by (simp add: claimsAccepted_def)
qed

lemma unavailableAt_result [simp]:
  "unavailableAt note stage cookies w \<noteq> (Inr (Callback_signed_in l cs who), w')"
  by (simp add: unavailableAt_def bindS_def tryS_def)

lemma createSession_result:
  assumes "createSession env ownerId identity ms w = (Inr (Some (token, who)), w')"
  shows "ap_ownerId who = ownerId \<and> ap_providerIssuer who = pi_issuer identity \<and> ap_providerSubject who = pi_subject identity
    \<and> ap_verifiedEmail who = pi_verifiedEmail identity \<and> au_toISOString env ms = Some (ap_sessionExpiresAt who)"
  using assms unfolding createSession_def Let_def
  by (auto dest!: bindS_Inr simp: isoTime_def principalOf_eq sessionValue_def split: option.splits settledWrite.splits)

lemma openSession_result:
  assumes "openSession deps note header clear returnPath identity now w = (Inr (Callback_signed_in location cookies who), w')"
  obtains a w1 w2 where "resolveOwner (sd_env deps) identity w = (Inr (Some (ap_ownerId who)), w1)"
    "ensureMessagingAccount (sd_env deps) (sd_messaging deps) (ap_ownerId who) w1 = (Inr (Account_active a), w2)"
    "identity = \<lparr>pi_issuer = ap_providerIssuer who, pi_subject = ap_providerSubject who, pi_verifiedEmail = ap_verifiedEmail who\<rparr>"
    "location = returnPath"
proof -
  from assms obtain owner a token w1 w2 w3 where "resolveOwner (sd_env deps) identity w = (Inr (Some owner), w1)"
    "ensureMessagingAccount (sd_env deps) (sd_messaging deps) owner w1 = (Inr (Account_active a), w2)"
    "createSession (sd_env deps) owner identity (now + int (sd_sessionTtlMs deps)) w2 = (Inr (Some (token, who)), w3)" "location = returnPath"
    unfolding openSession_def Let_def
    by (auto dest!: bindS_Inr split: option.splits messagingAccount.splits)
  then show ?thesis using that createSession_result[of "sd_env deps"] by (cases identity) auto
qed

lemma exchangeCallback_result:
  assumes "exchangeCallback deps note request clear login w = (Inr (Callback_signed_in location cookies who), w')"
  obtains claims now n a w1 w2 w3 w4 where
    "oc_exchangeCode (sd_oidc deps) \<lparr>ce_callbackUrl = rq_url request, ce_redirectUri = sd_origin deps @ CALLBACK_PATH,
       ce_expectedState = getProp login (js ''state''), ce_nonce = JStr n,
       ce_codeVerifier = getProp login (js ''codeVerifier'')\<rparr> w = (Inr (Provider_ok claims), w1)"
    "au_clock (sd_env deps) w1 = (Inr now, w2)" "getProp login (js ''nonce'') = JStr n"
    "claimsAccepted claims (oc_issuer (sd_oidc deps)) (oc_clientId (sd_oidc deps)) n now
       \<lparr>pi_issuer = ap_providerIssuer who, pi_subject = ap_providerSubject who, pi_verifiedEmail = ap_verifiedEmail who\<rparr>"
    "resolveOwner (sd_env deps) \<lparr>pi_issuer = ap_providerIssuer who, pi_subject = ap_providerSubject who,
       pi_verifiedEmail = ap_verifiedEmail who\<rparr> w2 = (Inr (Some (ap_ownerId who)), w3)"
    "ensureMessagingAccount (sd_env deps) (sd_messaging deps) (ap_ownerId who) w3 = (Inr (Account_active a), w4)"
    "location = getProp login (js ''returnPath'')"
proof -
  let ?x = "\<lparr>ce_callbackUrl = rq_url request, ce_redirectUri = sd_origin deps @ CALLBACK_PATH,
       ce_expectedState = getProp login (js ''state''), ce_nonce = getProp login (js ''nonce''),
       ce_codeVerifier = getProp login (js ''codeVerifier'')\<rparr>"
  have caught: "catchS m (\<lambda>error. retS Provider_unavailable) w = (Inr (Provider_ok c), t) \<Longrightarrow> m w = (Inr (Provider_ok c), t)"
    for m :: "('a, jsval providerResult) act" and c t
    by (auto simp: catchS_def tryS_def split: prod.splits sum.splits)
  from assms obtain claims now identity w1 w2 w3 where x: "oc_exchangeCode (sd_oidc deps) ?x w = (Inr (Provider_ok claims), w1)"
    "au_clock (sd_env deps) w1 = (Inr now, w2)"
    "checkClaims (sd_env deps) claims (oc_issuer (sd_oidc deps)) (oc_clientId (sd_oidc deps)) (getProp login (js ''nonce'')) now w2
      = (Inr (Inr identity), w3)"
    "openSession deps note (rq_header request (js ''cookie'')) clear (getProp login (js ''returnPath'')) identity now w3
      = (Inr (Callback_signed_in location cookies who), w')"
    unfolding exchangeCallback_def Let_def
    by (auto dest!: bindS_Inr caught split: providerResult.splits sum.splits)
  obtain n where n: "w3 = w2" "getProp login (js ''nonce'') = JStr n"
    "claimsAccepted claims (oc_issuer (sd_oidc deps)) (oc_clientId (sd_oidc deps)) n now identity"
    using checkClaims_accepts[OF x(3)] .
  show ?thesis by (rule openSession_result[OF x(4)]) (rule that[of n claims w1 now w2], use x n in simp_all)
qed

lemma exchangeAndSignIn_result:
  assumes "exchangeAndSignIn deps note request url clear login w = (Inr (Callback_signed_in location cookies who), w')"
  shows "exchangeCallback deps note request clear login w = (Inr (Callback_signed_in location cookies who), w')"
  using assms by (auto simp: exchangeAndSignIn_def split: list.splits if_splits)

lemma completeSignIn_result:
  assumes "completeSignIn deps request note w = (Inr (Callback_signed_in location cookies who), w')"
  obtains url state handle r s w1 r' w2 where "sd_parseUrl deps (rq_url request) = Some url" "paramValues url ''state'' = [state]"
    "cu_origin url @ cu_pathname url = sd_origin deps @ CALLBACK_PATH"
    "readCookie (rq_header request (js ''cookie'')) (loginCookie (sd_env deps) state) = Some handle" "isToken handle"
    "cs_read (au_store (sd_env deps)) (loginKey (sd_env deps) handle) w = (Inr (Read_record r), w1)"
    "getProp (cr_value r) (js ''status'') = JStr (js ''pending'')" "getProp (cr_value r) (js ''state'') = JStr s" "safeEqual state s"
    "consumeLogin (sd_env deps) (loginKey (sd_env deps) handle) r w1 = (Inr (Settled_applied r'), w2)"
    "exchangeCallback deps note request [clearCookie (loginCookie (sd_env deps) state)] (cr_value r) w2
      = (Inr (Callback_signed_in location cookies who), w')"
proof -
  from assms obtain url state handle where u: "sd_parseUrl deps (rq_url request) = Some url" "paramValues url ''state'' = [state]"
    "readCookie (rq_header request (js ''cookie'')) (loginCookie (sd_env deps) state) = Some handle" "isToken handle"
    by (auto simp: completeSignIn_def Let_def split: option.splits list.splits if_splits)
  from assms obtain r w1 where r: "cs_read (au_store (sd_env deps)) (loginKey (sd_env deps) handle) w = (Inr (Read_record r), w1)"
    and rest: "bindS (fieldOf (cr_value r) ''status'') (\<lambda>status.
       if status \<noteq> JStr (js ''pending'') then retS (Callback_rejected Login_replayed [clearCookie (loginCookie (sd_env deps) state)])
       else if cu_origin url @ cu_pathname url \<noteq> sd_origin deps @ CALLBACK_PATH then retS (Callback_rejected State_mismatch [])
       else bindS (safeEqualTo state (getProp (cr_value r) (js ''state''))) (\<lambda>bound.
         if \<not> bound then retS (Callback_rejected State_mismatch [])
         else bindS (consumeLogin (sd_env deps) (loginKey (sd_env deps) handle) r) (\<lambda>consume. case consume of
           Settled_conflict _ \<Rightarrow> retS (Callback_rejected Login_replayed [clearCookie (loginCookie (sd_env deps) state)])
         | Settled_unavailable \<Rightarrow> unavailableAt note Stage_login_consume [clearCookie (loginCookie (sd_env deps) state)]
         | Settled_applied _ \<Rightarrow> exchangeAndSignIn deps note request url [clearCookie (loginCookie (sd_env deps) state)] (cr_value r)))) w1
      = (Inr (Callback_signed_in location cookies who), w')"
    using u by (auto simp: completeSignIn_def Let_def dest!: bindS_Inr split: controlRead.splits)
  from rest obtain s r' w2 where x: "getProp (cr_value r) (js ''status'') = JStr (js ''pending'')"
    "cu_origin url @ cu_pathname url = sd_origin deps @ CALLBACK_PATH" "getProp (cr_value r) (js ''state'') = JStr s" "safeEqual state s"
    "consumeLogin (sd_env deps) (loginKey (sd_env deps) handle) r w1 = (Inr (Settled_applied r'), w2)"
    "exchangeAndSignIn deps note request url [clearCookie (loginCookie (sd_env deps) state)] (cr_value r) w2
      = (Inr (Callback_signed_in location cookies who), w')"
    by (auto simp: fieldOf_def safeEqualTo_def dest!: bindS_Inr split: if_splits jsval.splits settledWrite.splits)
  show ?thesis by (rule that[OF u(1,2) x(2) u(3,4) r x(1,3-5) exchangeAndSignIn_result[OF x(6)]])
qed

text \<open>C4: A session is only opened for a proved identity. When a callback signs in, it carried exactly one state, came to the
  configured callback address with the cookie of that state, and the login record stored under the cookie's handle was pending
  with that state; the record's consumption was settled as applied before the code was exchanged with the record's nonce and
  verifier; the claims the provider returned name the configured issuer and client, expire after the clock's moment, carry the
  record's nonce and a verified email; and the principal answered is the owner resolved for exactly that issuer and subject,
  with an active messaging account.\<close>

theorem sign_in_is_proved:
  assumes "completeSignIn deps request note w = (Inr (Callback_signed_in location cookies who), w')"
  shows "\<exists>url state handle r s n w1 r' w2 claims w3 now w4 w5 a w6.
    sd_parseUrl deps (rq_url request) = Some url \<and> paramValues url ''state'' = [state]
    \<and> cu_origin url @ cu_pathname url = sd_origin deps @ CALLBACK_PATH
    \<and> readCookie (rq_header request (js ''cookie'')) (loginCookie (sd_env deps) state) = Some handle \<and> isToken handle
    \<and> cs_read (au_store (sd_env deps)) (loginKey (sd_env deps) handle) w = (Inr (Read_record r), w1)
    \<and> getProp (cr_value r) (js ''status'') = JStr (js ''pending'')
    \<and> getProp (cr_value r) (js ''state'') = JStr s \<and> safeEqual state s \<and> getProp (cr_value r) (js ''nonce'') = JStr n
    \<and> consumeLogin (sd_env deps) (loginKey (sd_env deps) handle) r w1 = (Inr (Settled_applied r'), w2)
    \<and> oc_exchangeCode (sd_oidc deps) \<lparr>ce_callbackUrl = rq_url request, ce_redirectUri = sd_origin deps @ CALLBACK_PATH,
         ce_expectedState = JStr s, ce_nonce = JStr n, ce_codeVerifier = getProp (cr_value r) (js ''codeVerifier'')\<rparr> w2
        = (Inr (Provider_ok claims), w3)
    \<and> au_clock (sd_env deps) w3 = (Inr now, w4)
    \<and> claimsAccepted claims (oc_issuer (sd_oidc deps)) (oc_clientId (sd_oidc deps)) n now
         \<lparr>pi_issuer = ap_providerIssuer who, pi_subject = ap_providerSubject who, pi_verifiedEmail = ap_verifiedEmail who\<rparr>
    \<and> resolveOwner (sd_env deps) \<lparr>pi_issuer = ap_providerIssuer who, pi_subject = ap_providerSubject who,
         pi_verifiedEmail = ap_verifiedEmail who\<rparr> w4 = (Inr (Some (ap_ownerId who)), w5)
    \<and> ensureMessagingAccount (sd_env deps) (sd_messaging deps) (ap_ownerId who) w5 = (Inr (Account_active a), w6)
    \<and> location = getProp (cr_value r) (js ''returnPath'')"
proof -
  obtain url state handle r s w1 r' w2 where c: "sd_parseUrl deps (rq_url request) = Some url" "paramValues url ''state'' = [state]"
    "cu_origin url @ cu_pathname url = sd_origin deps @ CALLBACK_PATH"
    "readCookie (rq_header request (js ''cookie'')) (loginCookie (sd_env deps) state) = Some handle" "isToken handle"
    "cs_read (au_store (sd_env deps)) (loginKey (sd_env deps) handle) w = (Inr (Read_record r), w1)"
    "getProp (cr_value r) (js ''status'') = JStr (js ''pending'')" "getProp (cr_value r) (js ''state'') = JStr s" "safeEqual state s"
    "consumeLogin (sd_env deps) (loginKey (sd_env deps) handle) r w1 = (Inr (Settled_applied r'), w2)"
    "exchangeCallback deps note request [clearCookie (loginCookie (sd_env deps) state)] (cr_value r) w2
      = (Inr (Callback_signed_in location cookies who), w')"
    using completeSignIn_result[OF assms] .
  obtain claims now n a w3 w4 w5 w6 where x:
    "oc_exchangeCode (sd_oidc deps) \<lparr>ce_callbackUrl = rq_url request, ce_redirectUri = sd_origin deps @ CALLBACK_PATH,
       ce_expectedState = getProp (cr_value r) (js ''state''), ce_nonce = JStr n,
       ce_codeVerifier = getProp (cr_value r) (js ''codeVerifier'')\<rparr> w2 = (Inr (Provider_ok claims), w3)"
    "au_clock (sd_env deps) w3 = (Inr now, w4)" "getProp (cr_value r) (js ''nonce'') = JStr n"
    "claimsAccepted claims (oc_issuer (sd_oidc deps)) (oc_clientId (sd_oidc deps)) n now
       \<lparr>pi_issuer = ap_providerIssuer who, pi_subject = ap_providerSubject who, pi_verifiedEmail = ap_verifiedEmail who\<rparr>"
    "resolveOwner (sd_env deps) \<lparr>pi_issuer = ap_providerIssuer who, pi_subject = ap_providerSubject who,
       pi_verifiedEmail = ap_verifiedEmail who\<rparr> w4 = (Inr (Some (ap_ownerId who)), w5)"
    "ensureMessagingAccount (sd_env deps) (sd_messaging deps) (ap_ownerId who) w5 = (Inr (Account_active a), w6)"
    "location = getProp (cr_value r) (js ''returnPath'')"
    using exchangeCallback_result[OF c(11)] .
  show ?thesis
    by (intro exI conjI, rule c(1), rule c(2), rule c(3), rule c(4), rule c(5), rule c(6), rule c(7), rule c(8), rule c(9), rule x(3),
      rule c(10), rule x(1)[unfolded c(8)], rule x(2), rule x(4), rule x(5), rule x(6), rule x(7))
qed

end
