(* ===== verification/SessionRuns.thy ===== *)
theory SessionRuns
  imports AuthProperties
begin

text \<open>
  Sessions on a quiet store: a created session authenticates until it expires or is revoked, and a revoked one never again.
  The store is any \<open>expiring_store\<close> of theory \<open>StorePort\<close>, guarded as \<open>createAuthService\<close> guards it, and the interpretation
  is the local store.
\<close>

section \<open>Tokens and cookies\<close>

lemma minted_token: "length bs = 32 \<Longrightarrow> list_all isByte bs \<Longrightarrow> isToken (base64url bs)"
  by (simp add: isToken_def base64url_units base64url_length)

lemma tokenUnit_plain: "isTokenUnit u \<Longrightarrow> u \<noteq> 0x3B \<and> \<not> isSpace u"
  by (auto simp: isTokenUnit_def isDigit_def isSpace_def word_le_nat_alt)

lemma splitOn_plain: "c \<notin> set s \<Longrightarrow> splitOn c s = [s]"
  by (induction s) auto

lemma dropWhile_none: "\<forall>u \<in> set s. \<not> P u \<Longrightarrow> dropWhile P s = s"
  by (cases s) auto

lemma trim_plain: "\<forall>u \<in> set s. \<not> isSpace u \<Longrightarrow> trim s = s"
  by (simp add: trim_def dropWhile_none)

definition sessionHeader :: "ustring \<Rightarrow> ustring option" where
  "sessionHeader token = Some (SESSION_COOKIE @ js ''='' @ token)"

lemma plain_header:
  assumes "\<forall>u \<in> set name. u \<noteq> 0x3B \<and> \<not> isSpace u" and "isToken token"
  shows "map trim (splitOn 0x3B (name @ js ''='' @ token)) = [name @ js ''='' @ token]"
proof -
  have "\<forall>u \<in> set (js ''=''). u \<noteq> 0x3B \<and> \<not> isSpace u" by (simp add: js_def isSpace_def)
  moreover have "\<forall>u \<in> set token. u \<noteq> 0x3B \<and> \<not> isSpace u" using assms(2) tokenUnit_plain by (auto simp: isToken_def list_all_iff)
  ultimately have plain: "\<forall>u \<in> set (name @ js ''='' @ token). u \<noteq> 0x3B \<and> \<not> isSpace u" using assms(1) by auto
  then have "splitOn 0x3B (name @ js ''='' @ token) = [name @ js ''='' @ token]" by (blast intro: splitOn_plain)
  moreover have "trim (name @ js ''='' @ token) = name @ js ''='' @ token" using plain by (blast intro: trim_plain)
  ultimately show ?thesis by simp
qed

lemma one_cookie:
  assumes "\<forall>u \<in> set name. u \<noteq> 0x3B \<and> \<not> isSpace u" and "isToken token"
  shows "readCookie (Some (name @ js ''='' @ token)) other
    = (if startsWith (name @ js ''='' @ token) (other @ js ''='') then Some (drop (length other + 1) (name @ js ''='' @ token)) else None)"
proof -
  let ?h = "name @ js ''='' @ token"
  have "?h \<noteq> []" by simp
  then have "readCookie (Some ?h) other = (case filter (\<lambda>part. startsWith part (other @ js ''=''))
      (map trim (splitOn 0x3B ?h)) of [x] \<Rightarrow> Some (drop (length other + 1) x) | _ \<Rightarrow> None)"
    unfolding readCookie_def by (cases ?h) simp_all
  then show ?thesis unfolding plain_header[OF assms] by simp
qed

lemma read_plain_cookie:
  assumes "\<forall>u \<in> set name. u \<noteq> 0x3B \<and> \<not> isSpace u" and "isToken token"
  shows "readCookie (Some (name @ js ''='' @ token)) name = Some token"
  unfolding one_cookie[OF assms] by (simp add: startsWith_def)

lemma session_name_plain: "\<forall>u \<in> set SESSION_COOKIE. u \<noteq> 0x3B \<and> \<not> isSpace u"
  by (simp add: SESSION_COOKIE_def js_def isSpace_def)

lemma read_session_cookie: "isToken token \<Longrightarrow> readCookie (sessionHeader token) SESSION_COOKIE = Some token"
  unfolding sessionHeader_def by (rule read_plain_cookie[OF session_name_plain])

section \<open>Keys\<close>

lemma safe_flat: "s \<noteq> [] \<Longrightarrow> list_all isSafeKeyUnit s \<Longrightarrow> 0x2F \<notin> set s \<Longrightarrow> 2 < length s \<Longrightarrow> isSafeKey s"
  by (auto simp: isSafeKey_def splitOn_plain)

lemma hex_safe: "list_all isByte bs \<Longrightarrow> list_all isSafeKeyUnit (hexBytes bs) \<and> 0x2F \<notin> set (hexBytes bs)"
  using hexBytes_units[of bs] by (fastforce simp: list_all_iff isSafeKeyUnit_def isDigit_def word_le_nat_alt)

lemma derived_safe: "hashOk env \<Longrightarrow> list_all isSafeKeyUnit (derive env p t) \<and> 0x2F \<notin> set (derive env p t)"
  by (simp add: derive_def hashOk_def hex_safe)

lemma session_keys_safe:
  assumes "hashOk env"
  shows "isSafeKey (sessionKey env token)" "isSafeKey (js ''auth.session.create.'' @ derive env For_session token)"
    "isSafeKey (js ''auth.session.revoke.'' @ derive env For_session token @ js ''.'' @ hexBytes (au_sha256 env u))"
proof -
  have pre: "list_all isSafeKeyUnit (js ''auth.session.v1.'')" "list_all isSafeKeyUnit (js ''auth.session.create.'')"
    "list_all isSafeKeyUnit (js ''auth.session.revoke.'')" "list_all isSafeKeyUnit (js ''.'')"
    "0x2F \<notin> set (js ''auth.session.v1.'')" "0x2F \<notin> set (js ''auth.session.create.'')" "0x2F \<notin> set (js ''auth.session.revoke.'')"
    "0x2F \<notin> set (js ''.'')"
    by (simp_all add: js_def isSafeKeyUnit_def isDigit_def)
  have hex: "list_all isSafeKeyUnit (hexBytes (au_sha256 env u)) \<and> 0x2F \<notin> set (hexBytes (au_sha256 env u))"
    using assms by (simp add: hashOk_def hex_safe)
  note parts = pre hex derived_safe[OF assms, of For_session token]
  show "isSafeKey (sessionKey env token)" unfolding sessionKey_def by (rule safe_flat) (use parts in \<open>simp_all\<close>)
  show "isSafeKey (js ''auth.session.create.'' @ derive env For_session token)" by (rule safe_flat) (use parts in \<open>simp_all\<close>)
  show "isSafeKey (js ''auth.session.revoke.'' @ derive env For_session token @ js ''.'' @ hexBytes (au_sha256 env u))"
    by (rule safe_flat) (use parts in \<open>simp_all\<close>)
qed

lemma session_json: "isJsonValue 0 (sessionValue o' i t b)" "wf_js (sessionValue o' i t b)"
  by (simp_all add: sessionValue_def jnat_def)

lemma revoked_value: "withProp (sessionValue o' i t False) (js ''revoked'') (JBool True) = sessionValue o' i t True"
  by (simp add: withProp_def objectProps_def sessionValue_def) code_simp

section \<open>On a quiet store\<close>

context expiring_store
begin

lemma guarded: "expiring_store (guardStore store) quiet view unused moment parse"
proof unfold_locales
  fix w k
  assume "quiet w" "isSafeKey k"
  then show "cs_read (guardStore store) k w = (Inr (case view w k of None \<Rightarrow> Read_absent | Some r \<Rightarrow> Read_record r), w)"
    using read_view by (simp add: guardStore_def catchS_def tryS_def)
next
  fix w i
  assume "quiet w" "usableInput i" "unused w (ci_operationId i)"
  from cas_view[OF this] show "\<exists>e w'. e \<noteq> [] \<and> quiet w'
      \<and> moment w' = moment w \<and> (\<forall>u. u \<noteq> ci_operationId i \<longrightarrow> unused w' u = unused w u)
      \<and> (if ci_expectedRevision i = map_option cr_revision (view w (ci_key i))
         then cs_compareAndSet (guardStore store) i w = (Inr (W_applied (newRecord i e)), w') \<and> view w' = (view w)(ci_key i \<mapsto> newRecord i e)
         else cs_compareAndSet (guardStore store) i w = (Inr (W_conflict (view w (ci_key i))), w') \<and> view w' = view w)"
    unfolding guardStore_def controlStore.simps catchS_def tryS_def by (elim exE conjE) (intro exI conjI; auto split: if_splits)
next
  fix w i
  assume "quiet w" "storableInput i" "isRecordLive parse (ci_expiresAt i) (moment w)" "unused w (ci_operationId i)"
  from cas_expiring[OF this] show "\<exists>e w'. e \<noteq> [] \<and> quiet w'
      \<and> moment w' = moment w \<and> (\<forall>u. u \<noteq> ci_operationId i \<longrightarrow> unused w' u = unused w u)
      \<and> (if ci_expectedRevision i = map_option cr_revision (view w (ci_key i))
         then cs_compareAndSet (guardStore store) i w = (Inr (W_applied (newRecord i e)), w') \<and> view w' = (view w)(ci_key i \<mapsto> newRecord i e)
         else cs_compareAndSet (guardStore store) i w = (Inr (W_conflict (view w (ci_key i))), w') \<and> view w' = view w)"
    unfolding guardStore_def controlStore.simps catchS_def tryS_def by (elim exE conjE) (intro exI conjI; auto split: if_splits)
qed

lemma settle_live:
  assumes "quiet w" "storableInput i" "isRecordLive parse (ci_expiresAt i) (moment w)" "unused w (ci_operationId i)"
    "ci_expectedRevision i = map_option cr_revision (view w (ci_key i))"
  shows "\<exists>e w'. quiet w' \<and> moment w' = moment w \<and> (\<forall>u. u \<noteq> ci_operationId i \<longrightarrow> unused w' u = unused w u)
    \<and> settleWrite store i w = (Inr (Settled_applied (newRecord i e)), w') \<and> view w' = (view w)(ci_key i \<mapsto> newRecord i e)"
  using live_cas_applies[OF assms] by (auto simp: settleWrite_def bindS_def tryS_def)

end

locale session_store = expiring_store store quiet view unused moment parse
  for store :: "'w controlStore" and quiet :: "'w \<Rightarrow> bool" and view :: "'w \<Rightarrow> ustring \<rightharpoonup> controlRecord"
    and unused :: "'w \<Rightarrow> ustring \<Rightarrow> bool" and moment :: "'w \<Rightarrow> int" and parse :: "ustring \<Rightarrow> int option" +
  fixes env :: "'w authEnv"
  assumes env_store: "au_store env = store" and env_date: "au_dateParse env = parse" and env_hash: "hashOk env"
begin

lemma lookup_stored:
  assumes "quiet w" "isToken token" "view w (sessionKey env token) = Some r" "cr_value r = sessionValue o' i t revoked"
    and "principalOf (cr_value r) = Some who" "parse t = Some ms"
  shows "lookupSession env note (sessionHeader token) now w =
    (if revoked then (Inr Session_signed_out, note Session_revoked w)
     else if now < ms then (Inr (Authenticated who token r), w) else (Inr Session_signed_out, note Session_expired w))"
proof -
  have t: "ap_sessionExpiresAt who = t" using assms(4,5) by (simp add: principalOf_eq sessionValue_def)
  have flag: "getProp (cr_value r) (js ''revoked'') = JBool revoked" by (simp add: assms(4) sessionValue_def)
  show ?thesis
    using read_view[OF assms(1) session_keys_safe(1)[OF env_hash]] assms(3)
    by (simp add: lookupSession_def Let_def read_session_cookie[OF assms(2)] assms(2) env_store bindS_def tryS_def assms(5,6) flag
        env_date t)
qed

lemma create_applies:
  assumes "quiet w" "au_random env 32 w = (Inr bytes, w)" "length bytes = 32"
    and "au_toISOString env ms = Some t" "parse t = Some ms" "moment w < ms"
    and "principalOf (sessionValue ownerId identity t False) = Some who"
    and "view w (sessionKey env (base64url bytes)) = None"
    and "unused w (js ''auth.session.create.'' @ derive env For_session (base64url bytes))"
  shows "\<exists>w1 r. createSession env ownerId identity ms w = (Inr (Some (base64url bytes, who)), w1) \<and> quiet w1 \<and> moment w1 = moment w
    \<and> (\<forall>u. u \<noteq> js ''auth.session.create.'' @ derive env For_session (base64url bytes) \<longrightarrow> unused w1 u = unused w u)
    \<and> view w1 (sessionKey env (base64url bytes)) = Some r \<and> cr_value r = sessionValue ownerId identity t False \<and> cr_expiresAt r = Some t"
proof -
  let ?token = "base64url bytes"
  let ?i = "\<lparr>ci_key = sessionKey env ?token, ci_expectedRevision = None, ci_operationId = js ''auth.session.create.'' @ derive env For_session ?token,
    ci_value = sessionValue ownerId identity t False, ci_expiresAt = Some t\<rparr>"
  have "storableInput ?i" by (simp add: storableInput_def session_keys_safe[OF env_hash] session_json)
  then obtain e w1 where w1: "quiet w1" "moment w1 = moment w" "\<forall>u. u \<noteq> ci_operationId ?i \<longrightarrow> unused w1 u = unused w u"
    "settleWrite store ?i w = (Inr (Settled_applied (newRecord ?i e)), w1)" "view w1 = (view w)(ci_key ?i \<mapsto> newRecord ?i e)"
    using settle_live[of w ?i] assms by (auto simp: isRecordLive_def)
  have "createSession env ownerId identity ms w = (Inr (Some (?token, who)), w1)"
    using assms(2-4,7) w1(4) by (simp add: createSession_def randomToken_def isoTime_def Let_def bindS_def tryS_def env_store)
  then show ?thesis using w1 by (intro exI[of _ w1] exI[of _ "newRecord ?i e"]) (simp add: newRecord_def)
qed

lemma revoke_applies:
  assumes "quiet w" "view w (sessionKey env token) = Some r" "cr_value r = sessionValue o' i t False" "cr_expiresAt r = Some t"
    and "parse t = Some ms" "moment w < ms"
    and "unused w (js ''auth.session.revoke.'' @ derive env For_session token @ js ''.'' @ hexBytes (au_sha256 env u))"
  shows "\<exists>w' r'. revokeSession env token u w = (Inr Session_is_revoked, w') \<and> quiet w' \<and> moment w' = moment w
    \<and> view w' (sessionKey env token) = Some r' \<and> cr_value r' = sessionValue o' i t True"
proof -
  let ?i = "\<lparr>ci_key = sessionKey env token, ci_expectedRevision = Some (cr_revision r),
    ci_operationId = js ''auth.session.revoke.'' @ derive env For_session token @ js ''.'' @ hexBytes (au_sha256 env u),
    ci_value = sessionValue o' i t True, ci_expiresAt = Some t\<rparr>"
  have "storableInput ?i" by (simp add: storableInput_def session_keys_safe[OF env_hash] session_json)
  then obtain e w1 where w1: "quiet w1" "moment w1 = moment w" "cs_compareAndSet store ?i w = (Inr (W_applied (newRecord ?i e)), w1)"
    "view w1 = (view w)(ci_key ?i \<mapsto> newRecord ?i e)"
    using live_cas_applies[of w ?i] assms by (auto simp: isRecordLive_def)
  have field: "fieldOf (cr_value r) ''revoked'' w = (Inr (JBool False), w)" by (simp add: assms(3) fieldOf_def sessionValue_def)
  have three: "(3 :: nat) = Suc 2" by simp
  have loop: "revokeFrom env (sessionKey env token) (ci_operationId ?i) (Suc n) w = (Inr Session_is_revoked, w1)" for n
    using read_view[OF assms(1) session_keys_safe(1)[OF env_hash]] assms(2,4) w1(3) field
    by (simp add: bindS_def tryS_def env_store jsTruthy_def falsy_def assms(3) revoked_value)
  have "revokeSession env token u w = (Inr Session_is_revoked, w1)"
    unfolding revokeSession_def three by (rule loop[unfolded compareAndSetInput.simps])
  then show ?thesis using w1 by (intro exI[of _ w1] exI[of _ "newRecord ?i e"]) (simp add: newRecord_def)
qed

lemma revoke_again:
  assumes "quiet w" "view w (sessionKey env token) = Some r" "cr_value r = sessionValue o' i t True"
  shows "revokeSession env token u w = (Inr Session_is_revoked, w)"
proof -
  have field: "fieldOf (cr_value r) ''revoked'' w = (Inr (JBool True), w)" by (simp add: assms(3) fieldOf_def sessionValue_def)
  have three: "(3 :: nat) = Suc 2" by simp
  have loop: "revokeFrom env (sessionKey env token) operationId (Suc n) w = (Inr Session_is_revoked, w)" for n operationId
    using read_view[OF assms(1) session_keys_safe(1)[OF env_hash]] assms(2) field
    by (simp add: bindS_def tryS_def env_store jsTruthy_def falsy_def)
  show ?thesis unfolding revokeSession_def three by (rule loop)
qed

end

section \<open>The life of a session\<close>

context ideal_local_store
begin

lemma is_session_store:
  assumes "au_store aenv = guardStore (createControlStore (localDeps env parseDate numberText))" "au_dateParse aenv = parseDate" "hashOk aenv"
  shows "session_store (guardStore (createControlStore (localDeps env parseDate numberText))) (soundMachine env parseDate numberText)
    (localView env parseDate numberText) (\<lambda>w u. localLedger env w u = None) fs_now parseDate aenv"
  by (rule session_store.intro[OF expiring_store.guarded[OF is_expiring_store] session_store_axioms.intro[OF assms]])

end

lemma other_operation: "js ''auth.session.revoke.'' @ x \<noteq> js ''auth.session.create.'' @ y"
  by (simp add: js_def)

text \<open>C23: A session lives from its creation to its expiry or revocation. On a quiet local store, with a random token no record
  or operation has used, \<open>createSession\<close> succeeds; the cookie with the token it returns then authenticates the principal at
  every moment before the expiry and at none after it; and revoking succeeds, after which the cookie is answered signed out at
  every moment and revoking again, under any operation identifier, succeeds without a change.\<close>

theorem session_life:
  assumes "inj (le_sha256 env)" and "\<And>n. le_uuid env n \<noteq> []" and "soundMachine env pd nt w"
    and "au_store aenv = guardStore (createControlStore (localDeps env pd nt))" and "au_dateParse aenv = pd" and "hashOk aenv"
    and "au_random aenv 32 w = (Inr bytes, w)" and "length bytes = 32" and "list_all isByte bytes" and "token = base64url bytes"
    and "au_toISOString aenv ms = Some t" and "pd t = Some ms" and "fs_now w < ms"
    and "principalOf (sessionValue ownerId identity t False) = Some who"
    and "localView env pd nt w (sessionKey aenv token) = None"
    and "localLedger env w (js ''auth.session.create.'' @ derive aenv For_session token) = None"
    and "localLedger env w (js ''auth.session.revoke.'' @ derive aenv For_session token @ js ''.'' @ hexBytes (au_sha256 aenv u)) = None"
  shows "\<exists>w1 w2. createSession aenv ownerId identity ms w = (Inr (Some (token, who)), w1)
    \<and> (\<forall>note now. now < ms \<longrightarrow> (\<exists>r. lookupSession aenv note (sessionHeader token) now w1 = (Inr (Authenticated who token r), w1)))
    \<and> (\<forall>note now. ms \<le> now \<longrightarrow> lookupSession aenv note (sessionHeader token) now w1 = (Inr Session_signed_out, note Session_expired w1))
    \<and> revokeSession aenv token u w1 = (Inr Session_is_revoked, w2)
    \<and> (\<forall>note now. lookupSession aenv note (sessionHeader token) now w2 = (Inr Session_signed_out, note Session_revoked w2))
    \<and> (\<forall>u. revokeSession aenv token u w2 = (Inr Session_is_revoked, w2))"
proof -
  note ss = ideal_local_store.is_session_store[OF ideal_local_store.intro[OF assms(1,2)] assms(4-6)]
  note store = session_store.create_applies[OF ss, where w = w and bytes = bytes, OF assms(3,7,8,11-14)]
  have token: "isToken token" using assms(8-10) by (simp add: minted_token)
  obtain w1 r where w1: "createSession aenv ownerId identity ms w = (Inr (Some (token, who)), w1)" "soundMachine env pd nt w1"
    "fs_now w1 = fs_now w" "localView env pd nt w1 (sessionKey aenv token) = Some r" "cr_value r = sessionValue ownerId identity t False"
    "cr_expiresAt r = Some t"
    "\<forall>u. u \<noteq> js ''auth.session.create.'' @ derive aenv For_session token \<longrightarrow> (localLedger env w1 u = None) = (localLedger env w u = None)"
    using store assms(15,16) unfolding assms(10) by blast
  have who: "principalOf (cr_value r) = Some who" by (simp add: w1(5) assms(14))
  have revoked: "principalOf (sessionValue ownerId identity t True) = Some who"
    using assms(14) by (simp add: principalOf_eq sessionValue_def)
  have unused: "localLedger env w1 (js ''auth.session.revoke.'' @ derive aenv For_session token @ js ''.'' @ hexBytes (au_sha256 aenv u)) = None"
    using w1(7) other_operation assms(17) by blast
  have soon: "fs_now w1 < ms" using w1(3) assms(13) by simp
  obtain w2 r' where w2: "revokeSession aenv token u w1 = (Inr Session_is_revoked, w2)" "soundMachine env pd nt w2"
    "localView env pd nt w2 (sessionKey aenv token) = Some r'" "cr_value r' = sessionValue ownerId identity t True"
    using session_store.revoke_applies[OF ss, where w = w1 and token = token and u = u, OF w1(2,4,5,6) assms(12) soon unused] by blast
  have who2: "principalOf (cr_value r') = Some who" by (simp add: w2(4) revoked)
  note before = session_store.lookup_stored[OF ss, where w = w1 and token = token, OF w1(2) token w1(4,5) who assms(12)]
  note after = session_store.lookup_stored[OF ss, where w = w2 and token = token, OF w2(2) token w2(3,4) who2 assms(12)]
  note again = session_store.revoke_again[OF ss, where w = w2 and token = token, OF w2(2-4)]
  show ?thesis using w1(1) w2(1) before after again by (intro exI[of _ w1] exI[of _ w2]) auto
qed

definition sampleAuth :: "fsWorld authEnv" where
  "sampleAuth =
     \<lparr>au_store = guardStore (createControlStore (localDeps sampleEnv (\<lambda>_. Some 1000) sampleNumText)),
      au_random = (\<lambda>n. retS (replicate n 0)), au_clock = readS fs_now, au_sha256 = (\<lambda>_. replicate 32 0),
      au_dateParse = (\<lambda>_. Some 1000), au_toISOString = (\<lambda>_. Some (js ''2026-01-01T00:00:00.000Z'')), au_toUpperCase = id\<rparr>"

lemma sampleAuth_ok:
  "au_store sampleAuth = guardStore (createControlStore (localDeps sampleEnv (\<lambda>_. Some 1000) sampleNumText))"
  "au_dateParse sampleAuth = (\<lambda>_. Some 1000)" "hashOk sampleAuth" "au_random sampleAuth n w = (Inr (replicate n 0), w)"
  "au_toISOString sampleAuth ms = Some (js ''2026-01-01T00:00:00.000Z'')"
  by (simp_all add: sampleAuth_def hashOk_def isByte_def list_all_iff)

lemma sample_local: "ideal_local_store sampleEnv"
  by (rule ideal_local_store.intro[OF sample_store.sha_inj sample_store.uuid_text])

interpretation sample_sessions: session_store "guardStore (createControlStore (localDeps sampleEnv (\<lambda>_. Some 1000) sampleNumText))"
  "soundMachine sampleEnv (\<lambda>_. Some 1000) sampleNumText" "localView sampleEnv (\<lambda>_. Some 1000) sampleNumText"
  "\<lambda>w u. localLedger sampleEnv w u = None" fs_now "\<lambda>_. Some 1000" sampleAuth
  by (rule ideal_local_store.is_session_store[OF sample_local sampleAuth_ok(1-3)])

definition sampleIdentity :: providerIdentity where
  "sampleIdentity = \<lparr>pi_issuer = js ''https://i'', pi_subject = js ''s'', pi_verifiedEmail = js ''a@b''\<rparr>"

lemma sample_principal:
  "principalOf (sessionValue (js ''own_a'') sampleIdentity (js ''2026-01-01T00:00:00.000Z'') False)
    = Some \<lparr>ap_ownerId = js ''own_a'', ap_providerIssuer = js ''https://i'', ap_providerSubject = js ''s'',
        ap_verifiedEmail = js ''a@b'', ap_sessionExpiresAt = js ''2026-01-01T00:00:00.000Z''\<rparr>"
proof -
  have "wfId (js ''own_a'') \<and> wfId (js ''https://i'') \<and> wfId (js ''s'') \<and> wfId (js ''a@b'')" by code_simp
  moreover have "wfTimestamp (js ''2026-01-01T00:00:00.000Z'')" by code_simp
  moreover have "matchesEmail (js ''a@b'') \<and> \<not> matchesEmail (js ''own_a'')" by code_simp
  ultimately show ?thesis by (simp add: principalOf_eq sessionValue_def sampleIdentity_def) (rule exI[of _ True], simp)
qed

theorem session_life_witness:
  "\<exists>w1 who. createSession sampleAuth (js ''own_a'') sampleIdentity 1000 emptyWorld = (Inr (Some (base64url (replicate 32 0), who)), w1)
    \<and> (\<exists>r. lookupSession sampleAuth (\<lambda>_ w. w) (sessionHeader (base64url (replicate 32 0))) 999 w1
        = (Inr (Authenticated who (base64url (replicate 32 0)) r), w1))"
proof -
  have bytes: "length (replicate 32 (0::nat)) = 32" "list_all isByte (replicate 32 0)" by (simp_all add: isByte_def list_all_iff)
  have time: "fs_now emptyWorld < 1000" by (simp add: emptyWorld_def)
  note life = session_life[OF sample_store.sha_inj sample_store.uuid_text emptyWorld_sound(1) sampleAuth_ok(1-3) sampleAuth_ok(4)
      bytes refl sampleAuth_ok(5) refl time sample_principal emptyWorld_sound(2) emptyWorld_ok(3) emptyWorld_ok(3), of "[]"]
  have "(999 :: int) < 1000" by simp
  then show ?thesis using life by blast
qed

end
