(* ===== verification/SignInRuns.thy ===== *)
theory SignInRuns
  imports SessionRuns
begin

text \<open>
  Sign-in on a quiet store: a login record is consumed once, and an issuer and subject keep their owner. The laws of the store
  are those of theory \<open>SessionRuns\<close>; the properties are stated for the local store.
\<close>

section \<open>Keys and values\<close>

lemma token_safe: "list_all isByte bs \<Longrightarrow> list_all isSafeKeyUnit (base64url bs) \<and> 0x2F \<notin> set (base64url bs)"
proof -
  assume "list_all isByte bs"
  moreover have "isTokenUnit u \<Longrightarrow> isSafeKeyUnit u \<and> u \<noteq> 0x2F" for u
    by (auto simp: isTokenUnit_def isSafeKeyUnit_def isDigit_def js_def word_le_nat_alt)
  ultimately show ?thesis using base64url_units by (fastforce simp: list_all_iff)
qed

lemma sign_in_keys_safe:
  assumes "hashOk env" "list_all isByte bytes"
  shows "isSafeKey (loginKey env handle)" "isSafeKey (ownerKey env identity)"
    "isSafeKey (js ''auth.login.consume.'' @ base64url bytes)" "isSafeKey (js ''auth.owner.create.'' @ base64url bytes)"
proof -
  have pre: "list_all isSafeKeyUnit (js ''auth.login.v1.'')" "list_all isSafeKeyUnit (js ''auth.owner.v1.'')"
    "list_all isSafeKeyUnit (js ''auth.login.consume.'')" "list_all isSafeKeyUnit (js ''auth.owner.create.'')"
    "0x2F \<notin> set (js ''auth.login.v1.'')" "0x2F \<notin> set (js ''auth.owner.v1.'')" "0x2F \<notin> set (js ''auth.login.consume.'')"
    "0x2F \<notin> set (js ''auth.owner.create.'')"
    by (simp_all add: js_def isSafeKeyUnit_def isDigit_def)
  have hex: "list_all isSafeKeyUnit (hexBytes (au_sha256 env u)) \<and> 0x2F \<notin> set (hexBytes (au_sha256 env u))" for u
    using assms by (simp add: hashOk_def hex_safe)
  note parts = pre hex derived_safe[OF assms(1), of For_login handle] token_safe[OF assms(2)]
  show "isSafeKey (loginKey env handle)" unfolding loginKey_def by (rule safe_flat) (use parts in \<open>simp_all\<close>)
  show "isSafeKey (ownerKey env identity)" unfolding ownerKey_def by (rule safe_flat) (use parts in \<open>simp_all\<close>)
  show "isSafeKey (js ''auth.login.consume.'' @ base64url bytes)" by (rule safe_flat) (use parts in \<open>simp_all\<close>)
  show "isSafeKey (js ''auth.owner.create.'' @ base64url bytes)" by (rule safe_flat) (use parts in \<open>simp_all\<close>)
qed

lemma login_json: "isJsonValue 0 (loginValue l s)" "wf_js (loginValue l s)"
  by (simp_all add: loginValue_def jnat_def)

lemma consumed_value: "withProp (loginValue l ''pending'') (js ''status'') (JStr (js ''consumed'')) = loginValue l ''consumed''"
  by (simp add: withProp_def objectProps_def loginValue_def) code_simp

lemma owner_json: "isJsonValue 0 (ownerValue ownerId identity)" "wf_js (ownerValue ownerId identity)"
  by (simp_all add: ownerValue_def jnat_def)

lemma randomToken_run: "au_random env n w = (Inr bytes, w') \<Longrightarrow> length bytes = n \<Longrightarrow> randomToken env n w = (Inr (base64url bytes), w')"
  by (simp add: randomToken_def bindS_def tryS_def)

text \<open>A minted owner identifier decodes.\<close>

lemma minted_owner: "length bs = 18 \<Longrightarrow> list_all isByte bs \<Longrightarrow> wfId (js ''own_'' @ base64url bs)"
proof -
  assume b: "length bs = 18" "list_all isByte bs"
  have unit: "isTokenUnit u \<Longrightarrow> 0x20 \<le> u \<and> u < 0x7F" for u
    by (auto simp: isTokenUnit_def isDigit_def word_le_nat_alt word_less_nat_alt)
  have "list_all (\<lambda>u. 0x20 \<le> u \<and> u < 0x7F) (base64url bs)"
    using base64url_units[OF b(2)] unit by (simp add: list_all_iff)
  then show ?thesis by (intro ascii_id) (simp_all add: js_def base64url_length b(1))
qed

section \<open>On a quiet store\<close>

context session_store
begin

lemma consume_applies:
  assumes "quiet w" "view w (loginKey env handle) = Some r" "cr_value r = loginValue l ''pending''" "cr_expiresAt r = Some t"
    and "parse t = Some ms" "moment w < ms"
    and "au_random env 18 w = (Inr bytes, w)" "length bytes = 18" "list_all isByte bytes"
    and "unused w (js ''auth.login.consume.'' @ base64url bytes)"
  shows "\<exists>w1 r'. consumeLogin env (loginKey env handle) r w = (Inr (Settled_applied r'), w1) \<and> quiet w1
    \<and> view w1 (loginKey env handle) = Some r' \<and> cr_value r' = loginValue l ''consumed''"
proof -
  let ?i = "\<lparr>ci_key = loginKey env handle, ci_expectedRevision = Some (cr_revision r),
    ci_operationId = js ''auth.login.consume.'' @ base64url bytes, ci_value = loginValue l ''consumed'', ci_expiresAt = Some t\<rparr>"
  have "storableInput ?i" by (simp add: storableInput_def sign_in_keys_safe[OF env_hash assms(9)] login_json)
  then obtain e w1 where w1: "quiet w1" "settleWrite store ?i w = (Inr (Settled_applied (newRecord ?i e)), w1)"
    "view w1 = (view w)(ci_key ?i \<mapsto> newRecord ?i e)"
    using settle_live[of w ?i] assms by (auto simp: isRecordLive_def)
  have "consumeLogin env (loginKey env handle) r w = (Inr (Settled_applied (newRecord ?i e)), w1)"
    using w1(2) randomToken_run[OF assms(7,8)]
    by (simp add: consumeLogin_def bindS_def tryS_def env_store assms(3,4) consumed_value)
  then show ?thesis using w1 by (intro exI[of _ w1] exI[of _ "newRecord ?i e"]) (simp add: newRecord_def)
qed

lemma replay_refused:
  assumes "quiet w" "sd_env deps = env" "view w (loginKey env handle) = Some r" "cr_value r = loginValue l ''consumed''"
    and "sd_parseUrl deps (rq_url request) = Some url" "paramValues url ''state'' = [state]"
    and "readCookie (rq_header request (js ''cookie'')) (loginCookie env state) = Some handle" "isToken handle"
  shows "completeSignIn deps request note w = (Inr (Callback_rejected Login_replayed [clearCookie (loginCookie env state)]), w)"
proof -
  have key: "isSafeKey (loginKey env handle)" by (rule sign_in_keys_safe(1)[OF env_hash, of "[]"]) simp
  have "fieldOf (cr_value r) ''status'' w = (Inr (JStr (js ''consumed'')), w)" by (simp add: assms(4) fieldOf_def loginValue_def)
  then show ?thesis
    using read_view[OF assms(1) key] assms(3)
    by (simp add: completeSignIn_def Let_def assms(2,5-8) bindS_def tryS_def env_store)
qed

lemma resolve_stored:
  assumes "quiet w" "view w (ownerKey env identity) = Some r" "cr_value r = ownerValue ownerId identity'" "wfId ownerId"
    and "pi_issuer identity' = pi_issuer identity" "pi_subject identity' = pi_subject identity"
  shows "resolveOwner env identity w = (Inr (Some ownerId), w)"
proof -
  have key: "isSafeKey (ownerKey env identity)" by (rule sign_in_keys_safe(2)[OF env_hash, of "[]"]) simp
  have three: "(3 :: nat) = Suc 2" by simp
  have decoded: "ownerFrom (cr_value r) identity w = (Inr (Some ownerId), w)"
  proof -
    have "readId (JStr ownerId) [] = Inr ownerId" using assms(4) by (simp add: readId_eq_Inr)
    then show ?thesis by (simp add: assms(3,5,6) ownerFrom_def ownerValue_def fieldOf_def bindS_def tryS_def)
  qed
  have loop: "resolveOwnerFrom env identity (Suc n) w = (Inr (Some ownerId), w)" for n
    using read_view[OF assms(1) key] assms(2) decoded by (simp add: bindS_def tryS_def env_store)
  show ?thesis unfolding resolveOwner_def three by (rule loop)
qed

lemma resolve_creates:
  assumes "quiet w" "view w (ownerKey env identity) = None"
    and "au_random env 18 w = (Inr b1, w1)" "length b1 = 18" "list_all isByte b1"
    and "au_random env 18 w1 = (Inr b2, w2)" "length b2 = 18" "list_all isByte b2"
    and "quiet w2" "view w2 = view w" "unused w2 (js ''auth.owner.create.'' @ base64url b2)" "wfId (js ''own_'' @ base64url b1)"
  shows "\<exists>w' r. resolveOwner env identity w = (Inr (Some (js ''own_'' @ base64url b1)), w') \<and> quiet w'
    \<and> view w' (ownerKey env identity) = Some r \<and> cr_value r = ownerValue (js ''own_'' @ base64url b1) identity"
proof -
  let ?o = "js ''own_'' @ base64url b1"
  let ?i = "\<lparr>ci_key = ownerKey env identity, ci_expectedRevision = None, ci_operationId = js ''auth.owner.create.'' @ base64url b2,
    ci_value = ownerValue ?o identity, ci_expiresAt = None\<rparr>"
  have "storableInput ?i" by (simp add: storableInput_def sign_in_keys_safe[OF env_hash assms(8)] owner_json)
  then obtain e w' where w': "quiet w'" "settleWrite store ?i w2 = (Inr (Settled_applied (newRecord ?i e)), w')"
    "view w' = (view w2)(ci_key ?i \<mapsto> newRecord ?i e)"
    using settle_live[of w2 ?i] assms(2,9-11) by (auto simp: isRecordLive_def)
  have key: "isSafeKey (ownerKey env identity)" by (rule sign_in_keys_safe(2)[OF env_hash assms(8)])
  have three: "(3 :: nat) = Suc 2" by simp
  have decoded: "ownerFrom (ownerValue ?o identity) identity s = (Inr (Some ?o), s)" for s
  proof -
    have "readId (JStr ?o) [] = Inr ?o" using assms(12) by (simp add: readId_eq_Inr)
    then show ?thesis by (simp add: ownerFrom_def ownerValue_def fieldOf_def bindS_def tryS_def)
  qed
  have stored: "cr_value (newRecord ?i e) = ownerValue ?o identity" by (simp add: newRecord_def)
  have loop: "resolveOwnerFrom env identity (Suc n) w = (Inr (Some ?o), w')" for n
    using read_view[OF assms(1) key] assms(2) w'(2) decoded randomToken_run[OF assms(3,4)] randomToken_run[OF assms(6,7)]
    by (simp add: bindS_def tryS_def env_store stored)
  have "resolveOwner env identity w = (Inr (Some ?o), w')" unfolding resolveOwner_def three by (rule loop)
  then show ?thesis using w' by (intro exI[of _ w'] exI[of _ "newRecord ?i e"]) (simp add: newRecord_def)
qed

end

section \<open>Properties\<close>


text \<open>C28: An owner is stable. On a quiet local store, the first sign-in of an issuer and subject creates an owner; in every later
  state in which that record stands, resolving the same issuer and subject, with any email, answers the same owner and changes
  nothing.\<close>

theorem owner_is_stable:
  assumes "inj (le_sha256 env)" and "\<And>n. le_uuid env n \<noteq> []" and "soundMachine env pd nt w"
    and "au_store aenv = guardStore (createControlStore (localDeps env pd nt))" and "au_dateParse aenv = pd" and "hashOk aenv"
    and "localView env pd nt w (ownerKey aenv identity) = None"
    and "au_random aenv 18 w = (Inr b1, w1)" and "length b1 = 18" and "list_all isByte b1"
    and "au_random aenv 18 w1 = (Inr b2, w2)" and "length b2 = 18" and "list_all isByte b2"
    and "soundMachine env pd nt w2" and "localView env pd nt w2 = localView env pd nt w"
    and "localLedger env w2 (js ''auth.owner.create.'' @ base64url b2) = None"
  shows "\<exists>w3 r. resolveOwner aenv identity w = (Inr (Some (js ''own_'' @ base64url b1)), w3)
    \<and> localView env pd nt w3 (ownerKey aenv identity) = Some r
    \<and> (\<forall>w4 email. soundMachine env pd nt w4 \<and> localView env pd nt w4 (ownerKey aenv identity) = Some r
      \<longrightarrow> resolveOwner aenv (identity\<lparr>pi_verifiedEmail := email\<rparr>) w4 = (Inr (Some (js ''own_'' @ base64url b1)), w4))"
proof -
  note ss = ideal_local_store.is_session_store[OF ideal_local_store.intro[OF assms(1,2)] assms(4-6)]
  have id: "wfId (js ''own_'' @ base64url b1)" using minted_owner assms(9,10) by blast
  obtain w3 r where w3: "resolveOwner aenv identity w = (Inr (Some (js ''own_'' @ base64url b1)), w3)"
    "localView env pd nt w3 (ownerKey aenv identity) = Some r" "cr_value r = ownerValue (js ''own_'' @ base64url b1) identity"
    using session_store.resolve_creates[OF ss, where w = w and ?w1.0 = w1 and ?w2.0 = w2 and ?b1.0 = b1 and ?b2.0 = b2 and identity = identity,
      OF assms(3,7-16) id] by blast
  have key: "ownerKey aenv (identity\<lparr>pi_verifiedEmail := email\<rparr>) = ownerKey aenv identity" for email by (simp add: ownerKey_def)
  have "resolveOwner aenv (identity\<lparr>pi_verifiedEmail := email\<rparr>) w4 = (Inr (Some (js ''own_'' @ base64url b1)), w4)"
    if "soundMachine env pd nt w4" "localView env pd nt w4 (ownerKey aenv identity) = Some r" for w4 email
    using session_store.resolve_stored[OF ss, where w = w4 and identity = "identity\<lparr>pi_verifiedEmail := email\<rparr>",
      OF that(1) that(2)[folded key[of email]] w3(3) id] by simp
  then show ?thesis using w3(1,2) by blast
qed

section \<open>Concrete runs\<close>

lemma eighteen: "length (replicate 18 (0::nat)) = 18" "list_all isByte (replicate 18 0)"
  by (simp_all add: isByte_def list_all_iff)

lemma emptyWorld_now: "fs_now emptyWorld = 0"
  by (simp add: emptyWorld_def)

theorem owner_is_stable_witness:
  "\<exists>w3. resolveOwner sampleAuth sampleIdentity emptyWorld = (Inr (Some (js ''own_'' @ base64url (replicate 18 0))), w3)"
  using owner_is_stable[OF sample_store.sha_inj sample_store.uuid_text emptyWorld_sound(1) sampleAuth_ok(1-3) emptyWorld_sound(2)
      sampleAuth_ok(4) eighteen sampleAuth_ok(4) eighteen emptyWorld_sound(1) refl emptyWorld_ok(3)]
  by blast

definition sampleLogin :: loginRecord where
  "sampleLogin = \<lparr>lg_state = js ''s'', lg_nonce = js ''n'', lg_codeVerifier = js ''v'', lg_returnPath = js ''/''\<rparr>"

definition sampleHandle :: ustring where
  "sampleHandle = replicate 43 0x41"

lemma sample_login_stored:
  obtains w r where "soundMachine sampleEnv (\<lambda>_. Some 1000) sampleNumText w" "fs_now w = 0"
    "localView sampleEnv (\<lambda>_. Some 1000) sampleNumText w (loginKey sampleAuth sampleHandle) = Some r"
    "cr_value r = loginValue sampleLogin ''pending''" "cr_expiresAt r = Some []"
    "localLedger sampleEnv w (js ''auth.login.consume.'' @ base64url (replicate 18 0)) = None"
proof -
  let ?i = "\<lparr>ci_key = loginKey sampleAuth sampleHandle, ci_expectedRevision = None, ci_operationId = js ''begin'',
    ci_value = loginValue sampleLogin ''pending'', ci_expiresAt = Some []\<rparr>"
  have "isSafeKey (js ''begin'')" by code_simp
  then have "storableInput ?i"
    by (simp add: storableInput_def sign_in_keys_safe(1)[OF sampleAuth_ok(3) eighteen(2)] login_json)
  then obtain e w where w: "soundMachine sampleEnv (\<lambda>_. Some 1000) sampleNumText w" "fs_now w = 0"
    "\<forall>u. u \<noteq> js ''begin'' \<longrightarrow> (localLedger sampleEnv w u = None) = (localLedger sampleEnv emptyWorld u = None)"
    "localView sampleEnv (\<lambda>_. Some 1000) sampleNumText w = (localView sampleEnv (\<lambda>_. Some 1000) sampleNumText emptyWorld)
      (loginKey sampleAuth sampleHandle \<mapsto> newRecord ?i e)"
    using sample_sessions.settle_live[of emptyWorld ?i]
    by (auto simp: emptyWorld_sound emptyWorld_ok isRecordLive_def emptyWorld_now)
  have "js ''auth.login.consume.'' @ base64url (replicate 18 0) \<noteq> js ''begin''" by (simp add: js_def)
  then have "localLedger sampleEnv w (js ''auth.login.consume.'' @ base64url (replicate 18 0)) = None"
    using w(3) emptyWorld_ok(3) by blast
  then show ?thesis using that[OF w(1,2), of "newRecord ?i e"] w(4) by (simp add: newRecord_def)
qed


definition sampleSignIn :: "fsWorld signInDeps" where
  "sampleSignIn =
     \<lparr>sd_env = sampleAuth,
      sd_oidc = \<lparr>oc_issuer = js ''https://i'', oc_clientId = js ''c'', oc_authorizationUrl = (\<lambda>_. retS Provider_unavailable),
        oc_exchangeCode = (\<lambda>_. retS Provider_unavailable)\<rparr>,
      sd_messaging = \<lparr>ad_lookup = (\<lambda>_. retS Account_absent), ad_create = (\<lambda>_. retS Creation_unavailable)\<rparr>,
      sd_origin = js ''https://k'', sd_sessionTtlMs = 1000, sd_loginTtlMs = 1000, sd_parseUrl = (\<lambda>_. None)\<rparr>"

definition sampleService :: "fsWorld authService" where
  "sampleService = \<lparr>as_deps = sampleSignIn, as_log = (\<lambda>_ w. w)\<rparr>"

definition sampleMutation :: authRequest where
  "sampleMutation = \<lparr>rq_method = js ''POST'', rq_url = [],
     rq_header = (\<lambda>name. if name = js ''origin'' then Some (js ''https://k'')
       else if name = js ''cookie'' then sessionHeader (base64url (replicate 32 0))
       else if name = CSRF_HEADER then Some (csrfTokenFor sampleAuth (base64url (replicate 32 0))) else None)\<rparr>"

lemma sample_authorized: "\<exists>w c w'. requireHumanMutation sampleService sampleMutation w = (Inr (Authorized c), w')"
proof -
  let ?token = "base64url (replicate 32 0)"
  have bytes: "length (replicate 32 (0::nat)) = 32" "list_all isByte (replicate 32 0)" by (simp_all add: isByte_def list_all_iff)
  obtain w1 r where w1: "soundMachine sampleEnv (\<lambda>_. Some 1000) sampleNumText w1" "fs_now w1 = 0"
    "localView sampleEnv (\<lambda>_. Some 1000) sampleNumText w1 (sessionKey sampleAuth ?token) = Some r"
    "cr_value r = sessionValue (js ''own_a'') sampleIdentity (js ''2026-01-01T00:00:00.000Z'') False"
    using sample_sessions.create_applies[of emptyWorld "replicate 32 0" 1000, OF emptyWorld_sound(1) sampleAuth_ok(4) bytes(1)
      sampleAuth_ok(5) refl _ sample_principal emptyWorld_sound(2) emptyWorld_ok(3)] by (auto simp: emptyWorld_now)
  have look: "lookupSession sampleAuth diag (sessionHeader ?token) 0 w1 = (Inr (Authenticated
      \<lparr>ap_ownerId = js ''own_a'', ap_providerIssuer = js ''https://i'', ap_providerSubject = js ''s'',
        ap_verifiedEmail = js ''a@b'', ap_sessionExpiresAt = js ''2026-01-01T00:00:00.000Z''\<rparr> ?token r), w1)" for diag
    using sample_sessions.lookup_stored[of w1 ?token r, OF w1(1) minted_token[OF bytes] w1(3,4), unfolded w1(4), OF sample_principal refl] by simp
  have env: "serviceEnv sampleService = sampleAuth" "sd_origin (as_deps sampleService) = js ''https://k''"
    by (simp_all add: sampleService_def sampleSignIn_def)
  have session: "sessionOf sampleService diag sampleMutation w1 = (Inr (Authenticated
      \<lparr>ap_ownerId = js ''own_a'', ap_providerIssuer = js ''https://i'', ap_providerSubject = js ''s'',
        ap_verifiedEmail = js ''a@b'', ap_sessionExpiresAt = js ''2026-01-01T00:00:00.000Z''\<rparr> ?token r), w1)" for diag
    using look by (simp add: sessionOf_def env bindS_def tryS_def sampleAuth_def w1(2) sampleMutation_def)
  have ok: "checkMutationOrigin sampleAuth sampleMutation (js ''https://k'') = Origin_ok"
    unfolding origin_ok by (simp add: sampleMutation_def sampleAuth_def CSRF_HEADER_def)
  have csrf: "csrfMatches (rq_header sampleMutation CSRF_HEADER) (csrfTokenFor sampleAuth ?token)"
    using csrf_exact[OF sampleAuth_ok(3)] by (simp add: sampleMutation_def CSRF_HEADER_def)
  have "requireHumanMutation sampleService sampleMutation w1 = (Inr (Authorized \<lparr>hc_principal =
      \<lparr>ap_ownerId = js ''own_a'', ap_providerIssuer = js ''https://i'', ap_providerSubject = js ''s'',
        ap_verifiedEmail = js ''a@b'', ap_sessionExpiresAt = js ''2026-01-01T00:00:00.000Z''\<rparr>,
      hc_csrfToken = csrfTokenFor sampleAuth ?token\<rparr>), w1)"
    using session csrf by (simp add: requireHumanMutation_def env ok bindS_def tryS_def Let_def)
  then show ?thesis by blast
qed

theorem mutation_is_authorized_witness:
  "\<exists>w c w'. requireHumanMutation sampleService sampleMutation w = (Inr (Authorized c), w')
    \<and> rq_header sampleMutation (js ''origin'') = Some (sd_origin (as_deps sampleService))"
proof -
  obtain w c w' where run: "requireHumanMutation sampleService sampleMutation w = (Inr (Authorized c), w')"
    using sample_authorized by blast
  have "hashOk (serviceEnv sampleService)" using sampleAuth_ok(3) by (simp add: sampleService_def sampleSignIn_def)
  from mutation_is_authorized[OF run this] run show ?thesis by blast
qed

text \<open>A store with a pending login, an owner and an active account, whose writes apply.\<close>

definition storedRecord :: "ustring \<Rightarrow> jsval \<Rightarrow> controlRecord" where
  "storedRecord key v = \<lparr>cr_key = key, cr_revision = js ''r'', cr_operationId = js ''o'', cr_value = v, cr_expiresAt = None\<rparr>"

definition signInStore :: "unit controlStore" where
  "signInStore =
     \<lparr>cs_read = (\<lambda>key. retS (
        if startsWith key (js ''auth.login'') then Read_record (storedRecord key (loginValue sampleLogin ''pending''))
        else if startsWith key (js ''auth.owner'') then Read_record (storedRecord key (ownerValue (js ''own_a'') sampleIdentity))
        else if startsWith key (js ''auth.mapping'') then Read_record (storedRecord key (mappingValue (js ''own_a'') (Some (js ''acc''))))
        else Read_absent)),
      cs_compareAndSet = (\<lambda>i. retS (W_applied (storedRecord (ci_key i) (ci_value i)))),
      cs_resolve = (\<lambda>_ _. retS Res_unavailable)\<rparr>"

definition sampleClaims :: jsval where
  "sampleClaims = JObj True [(js ''iss'', JStr (js ''https://i'')), (js ''aud'', JStr (js ''c'')), (js ''exp'', jnat 2),
     (js ''nonce'', JStr (js ''n'')), (js ''sub'', JStr (js ''s'')), (js ''email_verified'', JBool True), (js ''email'', JStr (js ''a@b''))]"

definition signInDepsSample :: "unit signInDeps" where
  "signInDepsSample =
     \<lparr>sd_env = \<lparr>au_store = signInStore, au_random = (\<lambda>n. retS (replicate n 0)), au_clock = retS 0, au_sha256 = (\<lambda>_. replicate 32 0),
        au_dateParse = (\<lambda>_. Some 1000), au_toISOString = (\<lambda>_. Some (js ''2026-01-01T00:00:00.000Z'')), au_toUpperCase = (\<lambda>s. s)\<rparr>,
      sd_oidc = \<lparr>oc_issuer = js ''https://i'', oc_clientId = js ''c'', oc_authorizationUrl = (\<lambda>_. retS Provider_unavailable),
        oc_exchangeCode = (\<lambda>_. retS (Provider_ok sampleClaims))\<rparr>,
      sd_messaging = \<lparr>ad_lookup = (\<lambda>_. retS Account_absent), ad_create = (\<lambda>_. retS Creation_unavailable)\<rparr>,
      sd_origin = js ''https://k'', sd_sessionTtlMs = 1000, sd_loginTtlMs = 1000,
      sd_parseUrl = (\<lambda>_. Some \<lparr>cu_origin = js ''https://k'', cu_pathname = CALLBACK_PATH,
        cu_params = [(js ''state'', js ''s''), (js ''code'', js ''x'')]\<rparr>)\<rparr>"

definition sampleCallback :: authRequest where
  "sampleCallback = \<lparr>rq_method = js ''GET'', rq_url = [],
     rq_header = (\<lambda>name. if name = js ''cookie'' then Some (loginCookie (sd_env signInDepsSample) (js ''s'') @ js ''='' @ sampleHandle) else None)\<rparr>"

lemma sample_env:
  "sd_env signInDepsSample = \<lparr>au_store = signInStore, au_random = (\<lambda>n. retS (replicate n 0)), au_clock = retS 0, au_sha256 = (\<lambda>_. replicate 32 0),
     au_dateParse = (\<lambda>_. Some 1000), au_toISOString = (\<lambda>_. Some (js ''2026-01-01T00:00:00.000Z'')), au_toUpperCase = (\<lambda>s. s)\<rparr>"
  by (simp add: signInDepsSample_def)

lemma sample_hash: "hashOk (sd_env signInDepsSample)"
  by (simp add: sample_env hashOk_def isByte_def list_all_iff)

lemma sample_reads:
  "cs_read signInStore (loginKey env h) w = (Inr (Read_record (storedRecord (loginKey env h) (loginValue sampleLogin ''pending''))), w)"
  "cs_read signInStore (ownerKey env i) w = (Inr (Read_record (storedRecord (ownerKey env i) (ownerValue (js ''own_a'') sampleIdentity))), w)"
  "cs_read signInStore (mappingKey env o') w
    = (Inr (Read_record (storedRecord (mappingKey env o') (mappingValue (js ''own_a'') (Some (js ''acc''))))), w)"
  by (simp_all add: signInStore_def loginKey_def ownerKey_def mappingKey_def startsWith_def js_def)

lemma sample_settle: "settleWrite signInStore i w = (Inr (Settled_applied (storedRecord (ci_key i) (ci_value i))), w)"
  by (simp add: settleWrite_def signInStore_def bindS_def tryS_def)

lemma sample_cookie:
  "readCookie (rq_header sampleCallback (js ''cookie'')) (loginCookie (sd_env signInDepsSample) (js ''s'')) = Some sampleHandle"
  "readCookie (rq_header sampleCallback (js ''cookie'')) SESSION_COOKIE = None" "isToken sampleHandle"
proof -
  let ?n = "loginCookie (sd_env signInDepsSample) (js ''s'')"
  show t: "isToken sampleHandle" by (simp add: sampleHandle_def isToken_def isTokenUnit_def isDigit_def list_all_iff)
  have hex: "u \<noteq> 0x3B \<and> \<not> isSpace u" if "u \<in> set (derive (sd_env signInDepsSample) p x)" for u p x
  proof -
    have "list_all isByte (au_sha256 (sd_env signInDepsSample) y)" for y using sample_hash by (simp add: hashOk_def)
    then have "isDigit u \<or> (0x61 \<le> u \<and> u \<le> 0x66)" using that hexBytes_units unfolding derive_def by blast
    then show ?thesis by (auto simp: isDigit_def isSpace_def word_le_nat_alt)
  qed
  have "\<forall>u \<in> set (js ''__Host-khala_login-''). u \<noteq> 0x3B \<and> \<not> isSpace u" by (simp add: js_def isSpace_def)
  then have name: "\<forall>u \<in> set ?n. u \<noteq> 0x3B \<and> \<not> isSpace u" using hex in_set_takeD unfolding loginCookie_def set_append Ball_def Un_iff by fast
  have header: "rq_header sampleCallback (js ''cookie'') = Some (?n @ js ''='' @ sampleHandle)" by (simp add: sampleCallback_def)
  show "readCookie (rq_header sampleCallback (js ''cookie'')) ?n = Some sampleHandle"
    unfolding header by (rule read_plain_cookie[OF name t])
  have "\<not> startsWith (?n @ js ''='' @ sampleHandle) (SESSION_COOKIE @ js ''='')"
    by (simp add: loginCookie_def SESSION_COOKIE_def startsWith_def js_def)
  then show "readCookie (rq_header sampleCallback (js ''cookie'')) SESSION_COOKIE = None"
    unfolding header one_cookie[OF name t] by simp
qed

lemma sample_claims:
  "checkClaims (sd_env signInDepsSample) sampleClaims (js ''https://i'') (js ''c'') (JStr (js ''n'')) 0 w = (Inr (Inr sampleIdentity), w)"
proof -
  have ids: "claimIdentifier (JStr (js ''s'')) = Some (js ''s'')" "claimIdentifier (JStr (js ''a@b'')) = Some (js ''a@b'')"
    "matchesEmail (js ''a@b'')" "wfId (js ''own_probe'') \<and> wfId (js ''https://i'') \<and> wfId (js ''s'') \<and> wfId (js ''a@b'')"
    "wfTimestamp (js ''2026-01-01T00:00:00.000Z'')" "\<not> matchesEmail (js ''own_probe'')"
    by code_simp+
  have "decodeAuthPrincipal (probePrincipal (js ''https://i'') (js ''s'') (js ''a@b'') (js ''2026-01-01T00:00:00.000Z''))
    = Inr \<lparr>ap_ownerId = js ''own_probe'', ap_providerIssuer = js ''https://i'', ap_providerSubject = js ''s'',
        ap_verifiedEmail = js ''a@b'', ap_sessionExpiresAt = js ''2026-01-01T00:00:00.000Z''\<rparr>"
    unfolding decodeAuthPrincipal_eq using ids by (auto simp: probePrincipal_def exactObject_def propOf_def)
  then show ?thesis
    using ids by (simp add: checkClaims_def checkSubject_def sampleClaims_def audiencesOf_def Let_def jnat_def safeEqualTo_def safeEqual_def
        isoTime_def sample_env sampleIdentity_def)
qed

theorem sign_in_is_proved_witness:
  "\<exists>location cookies who a w1 w2. completeSignIn signInDepsSample sampleCallback (\<lambda>_ w. w) () = (Inr (Callback_signed_in location cookies who), ())
    \<and> ensureMessagingAccount (sd_env signInDepsSample) (sd_messaging signInDepsSample) (ap_ownerId who) w1 = (Inr (Account_active a), w2)"
proof -
  let ?e = "sd_env signInDepsSample"
  let ?login = "loginValue sampleLogin ''pending''"
  have store: "au_store ?e = signInStore" "au_clock ?e = retS 0" "au_toISOString ?e ms = Some (js ''2026-01-01T00:00:00.000Z'')" for ms
    by (simp_all add: sample_env)
  have draw: "randomToken ?e n w = (Inr (base64url (replicate n 0)), w)" for n w by (simp add: randomToken_def sample_env bindS_def tryS_def)
  have own: "readId (JStr (js ''own_a'')) [] = Inr (js ''own_a'')" by code_simp
  have "resolveOwner ?e sampleIdentity () = (Inr (Some (js ''own_a'')), ())"
  proof -
    have three: "(3 :: nat) = Suc 2" by simp
    have "resolveOwnerFrom ?e sampleIdentity (Suc n) () = (Inr (Some (js ''own_a'')), ())" for n
      by (simp add: bindS_def tryS_def store sample_reads ownerFrom_def fieldOf_def ownerValue_def storedRecord_def own)
    then show ?thesis unfolding resolveOwner_def three .
  qed
  moreover have account: "ensureMessagingAccount ?e m (js ''own_a'') w = (Inr (Account_active (JStr (js ''acc''))), w)" for m w
    by (simp add: ensureMessagingAccount_def mappingRecord_def bindS_def tryS_def store sample_reads fieldOf_def mappingValue_def
        storedRecord_def)
  moreover have session: "createSession ?e (js ''own_a'') sampleIdentity ms () = (Inr (Some (base64url (replicate 32 0),
      \<lparr>ap_ownerId = js ''own_a'', ap_providerIssuer = js ''https://i'', ap_providerSubject = js ''s'',
        ap_verifiedEmail = js ''a@b'', ap_sessionExpiresAt = js ''2026-01-01T00:00:00.000Z''\<rparr>)), ())" for ms
    by (simp add: createSession_def Let_def bindS_def tryS_def draw store sample_settle sample_principal isoTime_def)
  ultimately have "\<exists>cookies who. openSession signInDepsSample diag (rq_header sampleCallback (js ''cookie'')) clear returnPath sampleIdentity 0 ()
      = (Inr (Callback_signed_in returnPath cookies who), ()) \<and> ap_ownerId who = js ''own_a''" for diag clear returnPath
    by (simp add: openSession_def Let_def bindS_def tryS_def replacePrevious_def sample_cookie)
  then obtain cookies who where opened: "openSession signInDepsSample (\<lambda>_ w. w) (rq_header sampleCallback (js ''cookie''))
      [clearCookie (loginCookie ?e (js ''s''))] (getProp ?login (js ''returnPath'')) sampleIdentity 0 ()
      = (Inr (Callback_signed_in (getProp ?login (js ''returnPath'')) cookies who), ())" "ap_ownerId who = js ''own_a''" by blast
  have nonce: "getProp ?login (js ''nonce'') = JStr (js ''n'')" by (simp add: loginValue_def sampleLogin_def)
  have deps: "oc_exchangeCode (sd_oidc signInDepsSample) x = retS (Provider_ok sampleClaims)" "oc_issuer (sd_oidc signInDepsSample) = js ''https://i''"
    "oc_clientId (sd_oidc signInDepsSample) = js ''c''" "sd_origin signInDepsSample = js ''https://k''" for x
    by (simp_all add: signInDepsSample_def)
  have exchanged: "exchangeCallback signInDepsSample (\<lambda>_ w. w) sampleCallback [clearCookie (loginCookie ?e (js ''s''))] ?login ()
      = (Inr (Callback_signed_in (getProp ?login (js ''returnPath'')) cookies who), ())"
    using opened(1) by (simp add: exchangeCallback_def Let_def bindS_def tryS_def catchS_def deps store sample_claims nonce)
  have url: "sd_parseUrl signInDepsSample (rq_url sampleCallback) = Some \<lparr>cu_origin = js ''https://k'', cu_pathname = CALLBACK_PATH,
        cu_params = [(js ''state'', js ''s''), (js ''code'', js ''x'')]\<rparr>"
    by (simp add: signInDepsSample_def)
  have "completeSignIn signInDepsSample sampleCallback (\<lambda>_ w. w) ()
      = (Inr (Callback_signed_in (getProp ?login (js ''returnPath'')) cookies who), ())"
    using exchanged
    by (simp add: completeSignIn_def Let_def url paramValues_def sample_cookie store sample_reads bindS_def tryS_def fieldOf_def
        storedRecord_def loginValue_def sampleLogin_def deps safeEqualTo_def safeEqual_def consumeLogin_def draw sample_settle
        exchangeAndSignIn_def)
  moreover from sign_in_is_proved[OF this] obtain w1 a w2 where
    "ensureMessagingAccount ?e (sd_messaging signInDepsSample) (ap_ownerId who) w1 = (Inr (Account_active a), w2)" by blast
  ultimately show ?thesis by blast
qed

end
