(* ===== verification/Pairing.thy ===== *)
theory Pairing
  imports InvitePolicy
begin

text \<open>
  The version-one pairing contracts (\<^verbatim>\<open>packages/contracts/src/messaging/pairing.ts\<close>): canonical codes, digests, handles and
  origins, and the strict decoders of every pairing message. \<open>new URL\<close> and \<open>Date.parse\<close> are parameters.
\<close>

section \<open>Scalars\<close>

text \<open>\<open>[0-9A-HJKMNP-TV-Z]\<close>\<close>

definition isCrockfordUnit :: "cunit \<Rightarrow> bool" where
  "isCrockfordUnit u \<longleftrightarrow> isDigit u \<or> (0x41 \<le> u \<and> u \<le> 0x5A) \<and> u \<notin> set (js ''ILOU'')"

definition isCanonicalCode :: "ustring \<Rightarrow> bool" where
  "isCanonicalCode s \<longleftrightarrow> length s = 11 \<and> list_all isCrockfordUnit (take 5 s) \<and> s ! 5 = 0x2D \<and> list_all isCrockfordUnit (drop 6 s)"

definition isDigest256 :: "ustring \<Rightarrow> bool" where
  "isDigest256 s \<longleftrightarrow> length s = 43 \<and> list_all isTokenUnit s"

definition isRequestHandle :: "ustring \<Rightarrow> bool" where
  "isRequestHandle s \<longleftrightarrow> startsWith s (js ''pair_'') \<and> isDigest256 (drop 5 s)"

definition readMatching :: "(ustring \<Rightarrow> bool) \<Rightarrow> jsval \<Rightarrow> ustring \<Rightarrow> ustring decoded" where
  "readMatching ok input p = (case input of
     JStr s \<Rightarrow> if \<not> ok s then fail p Invalid_value else Inr s
   | _ \<Rightarrow> fail p Wrong_type)"

definition readCanonicalCode :: "jsval \<Rightarrow> ustring \<Rightarrow> ustring decoded" where
  "readCanonicalCode = readMatching isCanonicalCode"

definition readDigest :: "jsval \<Rightarrow> ustring \<Rightarrow> ustring decoded" where
  "readDigest = readMatching isDigest256"

definition readRequestHandle :: "jsval \<Rightarrow> ustring \<Rightarrow> ustring decoded" where
  "readRequestHandle = readMatching isRequestHandle"

definition pairingLoopback :: "ustring list" where
  "pairingLoopback = map js [''localhost'', ''127.0.0.1'', ''[::1]'']"

definition readCanonicalOrigin :: "(ustring \<Rightarrow> 'u urlParts_scheme option) \<Rightarrow> jsval \<Rightarrow> ustring \<Rightarrow> ustring decoded" where
  "readCanonicalOrigin parseUrl input p = (case input of
     JStr s \<Rightarrow> (case parseUrl s of
         None \<Rightarrow> fail p Invalid_value
       | Some parsed \<Rightarrow>
           if url_username parsed \<noteq> [] \<or> url_password parsed \<noteq> [] \<or> url_pathname parsed \<noteq> js ''/'' \<or> url_search parsed \<noteq> []
             \<or> url_hash parsed \<noteq> [] \<or> s \<noteq> url_origin parsed
             \<or> \<not> (url_protocol parsed = js ''https:'' \<or> (url_protocol parsed = js ''http:'' \<and> url_hostname parsed \<in> set pairingLoopback))
           then fail p Invalid_value else Inr s)
   | _ \<Rightarrow> fail p Wrong_type)"

section \<open>Creating and claiming\<close>

record pairingCreateRequest =
  pcr_channelId :: ustring
  pcr_origin :: ustring
  pcr_descriptorId :: ustring
  pcr_operationId :: ustring

definition decodePairingCreateRequest :: "(ustring \<Rightarrow> 'u urlParts_scheme option) \<Rightarrow> jsval \<Rightarrow> pairingCreateRequest decoded" where
  "decodePairingCreateRequest parseUrl input =
     bindE (object input [] [''v'', ''channelId'', ''origin'', ''descriptorId'', ''operationId'']) (\<lambda>r.
     bindE (version (field r ''v'') (atPath r ''v'')) (\<lambda>_.
     bindE (readId (field r ''channelId'') (atPath r ''channelId'')) (\<lambda>channelId.
     bindE (readCanonicalOrigin parseUrl (field r ''origin'') (atPath r ''origin'')) (\<lambda>origin.
     bindE (identifierField (field r ''descriptorId'') (atPath r ''descriptorId'')) (\<lambda>descriptorId.
     bindE (identifierField (field r ''operationId'') (atPath r ''operationId'')) (\<lambda>operationId.
     Inr \<lparr>pcr_channelId = channelId, pcr_origin = origin, pcr_descriptorId = descriptorId, pcr_operationId = operationId\<rparr>))))))"

record pairingCreateResult =
  pcs_code :: ustring
  pcs_requestHandle :: ustring
  pcs_expiresAt :: ustring

definition decodePairingCreateResult :: "jsval \<Rightarrow> pairingCreateResult decoded" where
  "decodePairingCreateResult input =
     bindE (object input [] [''v'', ''state'', ''code'', ''requestHandle'', ''expiresAt'']) (\<lambda>r.
     bindE (version (field r ''v'') (atPath r ''v'')) (\<lambda>_.
     bindE (literal (field r ''state'') (atPath r ''state'') [(''issued'', ())]) (\<lambda>_.
     bindE (readCanonicalCode (field r ''code'') (atPath r ''code'')) (\<lambda>pairingCode.
     bindE (readRequestHandle (field r ''requestHandle'') (atPath r ''requestHandle'')) (\<lambda>handle.
     bindE (utcTimestamp (field r ''expiresAt'') (atPath r ''expiresAt'')) (\<lambda>expires.
     Inr \<lparr>pcs_code = pairingCode, pcs_requestHandle = handle, pcs_expiresAt = expires\<rparr>))))))"

text \<open>The evidence a claim carries.\<close>

record claimEvidence =
  pe_jkt :: ustring
  pe_harness :: ustring
  pe_sessionId :: ustring
  pe_generation :: nat
  pe_deviceId :: ustring
  pe_evidenceDigest :: ustring

record pairingClaimRequest = claimEvidence +
  pq_code :: ustring
  pq_operationId :: ustring

definition readEvidenceTail :: "reader \<Rightarrow> ustring \<Rightarrow> claimEvidence decoded" where
  "readEvidenceTail r jkt =
     bindE (identifierField (field r ''harness'') (atPath r ''harness'')) (\<lambda>harness.
     bindE (identifierField (field r ''sessionId'') (atPath r ''sessionId'')) (\<lambda>sessionId.
     bindE (safeInteger (field r ''generation'') (atPath r ''generation'')) (\<lambda>generation.
     bindE (readId (field r ''deviceId'') (atPath r ''deviceId'')) (\<lambda>deviceId.
     bindE (readDigest (field r ''evidenceDigest'') (atPath r ''evidenceDigest'')) (\<lambda>evidence.
     Inr \<lparr>pe_jkt = jkt, pe_harness = harness, pe_sessionId = sessionId, pe_generation = generation, pe_deviceId = deviceId,
          pe_evidenceDigest = evidence\<rparr>)))))"

definition decodePairingClaimRequest :: "jsval \<Rightarrow> pairingClaimRequest decoded" where
  "decodePairingClaimRequest input =
     bindE (object input [] [''v'', ''code'', ''operationId'', ''jkt'', ''harness'', ''sessionId'', ''generation'', ''deviceId'',
       ''evidenceDigest'']) (\<lambda>r.
     bindE (version (field r ''v'') (atPath r ''v'')) (\<lambda>_.
     bindE (readCanonicalCode (field r ''code'') (atPath r ''code'')) (\<lambda>pairingCode.
     bindE (identifierField (field r ''operationId'') (atPath r ''operationId'')) (\<lambda>operationId.
     bindE (readDigest (field r ''jkt'') (atPath r ''jkt'')) (\<lambda>jkt.
     bindE (readEvidenceTail r jkt) (\<lambda>evidence.
     Inr (claimEvidence.extend evidence \<lparr>pq_code = pairingCode, pq_operationId = operationId\<rparr>)))))))"

record pairingClaimResult =
  pcl_requestHandle :: ustring
  pcl_receipt :: ustring

definition decodePairingClaimResult :: "jsval \<Rightarrow> pairingClaimResult decoded" where
  "decodePairingClaimResult input =
     bindE (object input [] [''v'', ''state'', ''requestHandle'', ''receipt'']) (\<lambda>r.
     bindE (version (field r ''v'') (atPath r ''v'')) (\<lambda>_.
     bindE (literal (field r ''state'') (atPath r ''state'') [(''pending'', ())]) (\<lambda>_.
     bindE (readRequestHandle (field r ''requestHandle'') (atPath r ''requestHandle'')) (\<lambda>handle.
     bindE (readDigest (field r ''receipt'') (atPath r ''receipt'')) (\<lambda>receipt.
     Inr \<lparr>pcl_requestHandle = handle, pcl_receipt = receipt\<rparr>)))))"

record pairingResultRequest =
  prr_requestHandle :: ustring
  prr_receipt :: ustring
  prr_operationId :: ustring
  prr_jkt :: ustring

definition decodePairingResultRequest :: "jsval \<Rightarrow> pairingResultRequest decoded" where
  "decodePairingResultRequest input =
     bindE (object input [] [''v'', ''requestHandle'', ''receipt'', ''operationId'', ''jkt'']) (\<lambda>r.
     bindE (version (field r ''v'') (atPath r ''v'')) (\<lambda>_.
     bindE (readRequestHandle (field r ''requestHandle'') (atPath r ''requestHandle'')) (\<lambda>handle.
     bindE (readDigest (field r ''receipt'') (atPath r ''receipt'')) (\<lambda>receipt.
     bindE (identifierField (field r ''operationId'') (atPath r ''operationId'')) (\<lambda>operationId.
     bindE (readDigest (field r ''jkt'') (atPath r ''jkt'')) (\<lambda>jkt.
     Inr \<lparr>prr_requestHandle = handle, prr_receipt = receipt, prr_operationId = operationId, prr_jkt = jkt\<rparr>))))))"

section \<open>The owner's view\<close>

record pairingClaimProjection = claimEvidence +
  pj_fingerprint :: ustring

definition readClaimProjection :: "jsval \<Rightarrow> ustring \<Rightarrow> pairingClaimProjection decoded" where
  "readClaimProjection input p =
     bindE (object input p [''jkt'', ''harness'', ''sessionId'', ''generation'', ''deviceId'', ''evidenceDigest'', ''fingerprint'',
       ''verification'']) (\<lambda>r.
     bindE (readDigest (field r ''jkt'') (atPath r ''jkt'')) (\<lambda>jkt.
     bindE (readEvidenceTail r jkt) (\<lambda>evidence.
     bindE (readDigest (field r ''fingerprint'') (atPath r ''fingerprint'')) (\<lambda>fingerprint.
     bindE (literal (field r ''verification'') (atPath r ''verification'') [(''connector_verified'', ())]) (\<lambda>_.
     Inr (claimEvidence.extend evidence \<lparr>pj_fingerprint = fingerprint\<rparr>))))))"

datatype pairingState = Pair_issued | Pair_claimed | Pair_approved | Pair_denied | Pair_expired

definition pairingStates :: "(string \<times> pairingState) list" where
  "pairingStates = [(''issued'', Pair_issued), (''claimed'', Pair_claimed), (''approved'', Pair_approved), (''denied'', Pair_denied),
     (''expired'', Pair_expired)]"

record pairingOwnerProjection =
  po_requestHandle :: ustring
  po_state :: pairingState
  po_channelId :: ustring
  po_origin :: ustring
  po_descriptorId :: ustring
  po_createdAt :: ustring
  po_expiresAt :: ustring
  po_claim :: "pairingClaimProjection option"
  po_decidedAt :: "ustring option"

definition OWNER_PROJECTION_FIELDS :: "string list" where
  "OWNER_PROJECTION_FIELDS = [''v'', ''requestHandle'', ''state'', ''channelId'', ''origin'', ''descriptorId'', ''createdAt'',
     ''expiresAt'', ''claim'', ''decidedAt'']"

definition OWNER_RESULT_FIELDS :: "string list" where
  "OWNER_RESULT_FIELDS = OWNER_PROJECTION_FIELDS @ [''revision'']"

text \<open>A comparison with \<open>NaN\<close> is false.\<close>

definition notAfter :: "(ustring \<Rightarrow> int option) \<Rightarrow> ustring \<Rightarrow> ustring \<Rightarrow> bool" where
  "notAfter dateParse a b = (case (dateParse a, dateParse b) of (Some x, Some y) \<Rightarrow> x \<le> y | _ \<Rightarrow> False)"

definition isBefore :: "(ustring \<Rightarrow> int option) \<Rightarrow> ustring \<Rightarrow> ustring \<Rightarrow> bool" where
  "isBefore dateParse a b = (case (dateParse a, dateParse b) of (Some x, Some y) \<Rightarrow> x < y | _ \<Rightarrow> False)"

definition checkProjection :: "(ustring \<Rightarrow> int option) \<Rightarrow> reader \<Rightarrow> pairingOwnerProjection \<Rightarrow> pairingOwnerProjection decoded" where
  "checkProjection dateParse r x =
     bindE (check (\<not> notAfter dateParse (po_expiresAt x) (po_createdAt x)) (atPath r ''expiresAt'') Invalid_value) (\<lambda>_.
     bindE (check (case po_decidedAt x of None \<Rightarrow> True
         | Some d \<Rightarrow> \<not> isBefore dateParse d (po_createdAt x) \<and> \<not> notAfter dateParse (po_expiresAt x) d)
       (atPath r ''decidedAt'') Invalid_value) (\<lambda>_.
     bindE (check (\<not> (po_state x = Pair_issued \<and> po_claim x \<noteq> None
         \<or> po_state x \<in> {Pair_claimed, Pair_approved, Pair_denied} \<and> po_claim x = None))
       (atPath r ''claim'') Mismatch) (\<lambda>_.
     bindE (check ((po_state x \<in> {Pair_approved, Pair_denied}) = (po_decidedAt x \<noteq> None)) (atPath r ''decidedAt'') Mismatch) (\<lambda>_.
     Inr x))))"

definition readOwnerProjection ::
  "(ustring \<Rightarrow> 'u urlParts_scheme option) \<Rightarrow> (ustring \<Rightarrow> int option) \<Rightarrow> jsval \<Rightarrow> ustring \<Rightarrow> string list \<Rightarrow> pairingOwnerProjection decoded" where
  "readOwnerProjection parseUrl dateParse input p keys =
     bindE (object input p keys) (\<lambda>r.
     bindE (version (field r ''v'') (atPath r ''v'')) (\<lambda>_.
     bindE (readRequestHandle (field r ''requestHandle'') (atPath r ''requestHandle'')) (\<lambda>handle.
     bindE (literal (field r ''state'') (atPath r ''state'') pairingStates) (\<lambda>state.
     bindE (readId (field r ''channelId'') (atPath r ''channelId'')) (\<lambda>channelId.
     bindE (readCanonicalOrigin parseUrl (field r ''origin'') (atPath r ''origin'')) (\<lambda>origin.
     bindE (identifierField (field r ''descriptorId'') (atPath r ''descriptorId'')) (\<lambda>descriptorId.
     bindE (utcTimestamp (field r ''createdAt'') (atPath r ''createdAt'')) (\<lambda>createdAt.
     bindE (utcTimestamp (field r ''expiresAt'') (atPath r ''expiresAt'')) (\<lambda>expiresAt.
     bindE (nullable (field r ''claim'') (\<lambda>claim. readClaimProjection claim (atPath r ''claim''))) (\<lambda>claim.
     bindE (nullable (field r ''decidedAt'') (\<lambda>decidedAt. utcTimestamp decidedAt (atPath r ''decidedAt''))) (\<lambda>decidedAt.
     checkProjection dateParse r \<lparr>po_requestHandle = handle, po_state = state, po_channelId = channelId, po_origin = origin,
       po_descriptorId = descriptorId, po_createdAt = createdAt, po_expiresAt = expiresAt, po_claim = claim,
       po_decidedAt = decidedAt\<rparr>)))))))))))"

definition decodePairingOwnerProjection ::
  "(ustring \<Rightarrow> 'u urlParts_scheme option) \<Rightarrow> (ustring \<Rightarrow> int option) \<Rightarrow> jsval \<Rightarrow> pairingOwnerProjection decoded" where
  "decodePairingOwnerProjection parseUrl dateParse input = readOwnerProjection parseUrl dateParse input [] OWNER_PROJECTION_FIELDS"

definition decodePairingOwnerResult ::
  "(ustring \<Rightarrow> 'u urlParts_scheme option) \<Rightarrow> (ustring \<Rightarrow> int option) \<Rightarrow> jsval \<Rightarrow> (pairingOwnerProjection \<times> ustring) decoded" where
  "decodePairingOwnerResult parseUrl dateParse input =
     bindE (readOwnerProjection parseUrl dateParse input [] OWNER_RESULT_FIELDS) (\<lambda>projection.
     bindE (object input [] OWNER_RESULT_FIELDS) (\<lambda>r.
     bindE (identifierField (field r ''revision'') (atPath r ''revision'')) (\<lambda>revision. Inr (projection, revision))))"

section \<open>Decisions and results\<close>

record pairingDecisionRequest =
  pd_requestHandle :: ustring
  pd_revision :: ustring
  pd_claimFingerprint :: ustring
  pd_approve :: bool
  pd_operationId :: ustring

definition decodePairingDecisionRequest :: "jsval \<Rightarrow> pairingDecisionRequest decoded" where
  "decodePairingDecisionRequest input =
     bindE (object input [] [''v'', ''requestHandle'', ''revision'', ''claimFingerprint'', ''decision'', ''operationId'']) (\<lambda>r.
     bindE (version (field r ''v'') (atPath r ''v'')) (\<lambda>_.
     bindE (readRequestHandle (field r ''requestHandle'') (atPath r ''requestHandle'')) (\<lambda>handle.
     bindE (identifierField (field r ''revision'') (atPath r ''revision'')) (\<lambda>revision.
     bindE (readDigest (field r ''claimFingerprint'') (atPath r ''claimFingerprint'')) (\<lambda>fingerprint.
     bindE (literal (field r ''decision'') (atPath r ''decision'') [(''approve'', True), (''deny'', False)]) (\<lambda>approve.
     bindE (identifierField (field r ''operationId'') (atPath r ''operationId'')) (\<lambda>operationId.
     Inr \<lparr>pd_requestHandle = handle, pd_revision = revision, pd_claimFingerprint = fingerprint, pd_approve = approve,
          pd_operationId = operationId\<rparr>)))))))"

datatype pairingApproval = Approval_pending | Approval_denied ustring | Approval_expired | Approval_approved ustring ustring

definition decodePairingApprovalResult :: "jsval \<Rightarrow> pairingApproval decoded" where
  "decodePairingApprovalResult input =
     (let rawState = getProp input (js ''state'') in
      if rawState = JStr (js ''pending'') \<or> rawState = JStr (js ''expired'') then
        bindE (object input [] [''v'', ''state'']) (\<lambda>r.
        bindE (version (field r ''v'') (atPath r ''v'')) (\<lambda>_.
        Inr (if rawState = JStr (js ''pending'') then Approval_pending else Approval_expired)))
      else if rawState = JStr (js ''denied'') then
        bindE (object input [] [''v'', ''state'', ''decidedAt'']) (\<lambda>r.
        bindE (version (field r ''v'') (atPath r ''v'')) (\<lambda>_.
        bindE (utcTimestamp (field r ''decidedAt'') (atPath r ''decidedAt'')) (\<lambda>decidedAt. Inr (Approval_denied decidedAt))))
      else if rawState = JStr (js ''approved'') then
        bindE (object input [] [''v'', ''state'', ''grant'', ''expiresAt'']) (\<lambda>r.
        bindE (version (field r ''v'') (atPath r ''v'')) (\<lambda>_.
        bindE (readDigest (field r ''grant'') (atPath r ''grant'')) (\<lambda>token.
        bindE (utcTimestamp (field r ''expiresAt'') (atPath r ''expiresAt'')) (\<lambda>expiresAt. Inr (Approval_approved token expiresAt)))))
      else
        bindE (object input [] [''v'', ''state'']) (\<lambda>r.
        bindE (version (field r ''v'') (atPath r ''v'')) (\<lambda>_.
        literal (field r ''state'') (atPath r ''state'') [(''pending'', Approval_pending), (''expired'', Approval_expired)])))"

definition decodePairingGrantRedemptionRequest :: "jsval \<Rightarrow> (ustring \<times> ustring) decoded" where
  "decodePairingGrantRedemptionRequest input =
     bindE (object input [] [''v'', ''grant'', ''operationId'']) (\<lambda>r.
     bindE (version (field r ''v'') (atPath r ''v'')) (\<lambda>_.
     bindE (readDigest (field r ''grant'') (atPath r ''grant'')) (\<lambda>token.
     bindE (identifierField (field r ''operationId'') (atPath r ''operationId'')) (\<lambda>operationId. Inr (token, operationId)))))"

section \<open>Failures\<close>

datatype pairingRoute = Route_create | Route_claim | Route_inspect | Route_decide | Route_result | Route_redeem

fun PAIRING_FAILURE_CODES :: "pairingRoute \<Rightarrow> string list" where
  "PAIRING_FAILURE_CODES Route_create =
     [''invalid_request'', ''signed_out'', ''forbidden'', ''conflict'', ''feature_unavailable'', ''unavailable'']"
| "PAIRING_FAILURE_CODES Route_claim =
     [''invalid_request'', ''claim_refused'', ''rate_limited'', ''invalid_proof'', ''feature_unavailable'', ''unavailable'']"
| "PAIRING_FAILURE_CODES Route_inspect = [''signed_out'', ''forbidden'', ''not_found'', ''feature_unavailable'', ''unavailable'']"
| "PAIRING_FAILURE_CODES Route_decide =
     [''invalid_request'', ''signed_out'', ''forbidden'', ''stale_claim'', ''decision_conflict'', ''expired'', ''feature_unavailable'',
      ''unavailable'']"
| "PAIRING_FAILURE_CODES Route_result = [''invalid_request'', ''invalid_receipt'', ''invalid_proof'', ''feature_unavailable'', ''unavailable'']"
| "PAIRING_FAILURE_CODES Route_redeem = [''invalid_grant'', ''invalid_proof'', ''unavailable'']"

definition decodePairingFailure :: "pairingRoute \<Rightarrow> jsval \<Rightarrow> string decoded" where
  "decodePairingFailure route input =
     bindE (object input [] [''v'', ''kind'', ''code'']) (\<lambda>r.
     bindE (version (field r ''v'') (atPath r ''v'')) (\<lambda>_.
     bindE (literal (field r ''kind'') (atPath r ''kind'') [(''rejected'', ())]) (\<lambda>_.
     literal (field r ''code'') (atPath r ''code'') (map (\<lambda>c. (c, c)) (PAIRING_FAILURE_CODES route)))))"

end
