(* ===== verification/Discovery.thy ===== *)
theory Discovery
  imports Pairing Base64
begin

text \<open>
  The channel discovery contracts (\<^verbatim>\<open>packages/contracts/src/messaging/discovery.ts\<close>): titles, channel addresses and base64url
  text, the strict decoders of listings, requests, credentials and sealed grants, and the validators that bind a request to
  its authenticated context. \<open>new URL\<close>, \<open>Date.parse\<close> and the platform's SHA-256 are parameters; a digest of \<open>None\<close> is a
  platform without one.
\<close>

section \<open>Scalars\<close>

definition MAX_CHANNEL_TITLE_BYTES :: nat where
  "MAX_CHANNEL_TITLE_BYTES = 256"

definition MAX_CHANNEL_LIST_PAGE_SIZE :: nat where
  "MAX_CHANNEL_LIST_PAGE_SIZE = 25"

definition MAX_CHANNEL_URL_BYTES :: nat where
  "MAX_CHANNEL_URL_BYTES = 2048"

definition MAX_SEALED_GRANT_BYTES :: nat where
  "MAX_SEALED_GRANT_BYTES = 16384"

text \<open>Every unsafe character is a single code unit.\<close>

definition isUnsafeTitleUnit :: "cunit \<Rightarrow> bool" where
  "isUnsafeTitleUnit u \<longleftrightarrow> u \<le> 0x1F \<or> (0x7F \<le> u \<and> u \<le> 0x9F) \<or> u = 0x061C \<or> u = 0x200B \<or> u = 0x200E \<or> u = 0x200F
     \<or> (0x202A \<le> u \<and> u \<le> 0x202E) \<or> u = 0x2060 \<or> (0x2066 \<le> u \<and> u \<le> 0x2069) \<or> u = 0xFEFF"

definition readUntrustedTitle :: "jsval \<Rightarrow> ustring \<Rightarrow> ustring decoded" where
  "readUntrustedTitle input p = (case input of
     JStr s \<Rightarrow>
       if \<not> isWellFormed s then fail p Malformed_unicode
       else if utf8Length s > MAX_CHANNEL_TITLE_BYTES then fail p Too_long
       else if s = [] then fail p Empty
       else let normalized = map (\<lambda>u. if isUnsafeTitleUnit u then 0xFFFD else u) s in
         if utf8Length normalized > MAX_CHANNEL_TITLE_BYTES then fail p Too_long else Inr normalized
   | _ \<Rightarrow> fail p Wrong_type)"

record channelUrlParts = urlParts +
  url_href :: ustring

type_synonym urlParser = "ustring \<Rightarrow> channelUrlParts option"

definition readCanonicalChannelUrl :: "urlParser \<Rightarrow> jsval \<Rightarrow> ustring \<Rightarrow> ustring \<Rightarrow> ustring decoded" where
  "readCanonicalChannelUrl parseUrl input p trustedOrigin = (case input of
     JStr s \<Rightarrow>
       if utf8Length s > MAX_CHANNEL_URL_BYTES then fail p Too_long
       else (case parseUrl s of
           None \<Rightarrow> fail p Invalid_value
         | Some parsed \<Rightarrow>
             if url_username parsed \<noteq> [] \<or> url_password parsed \<noteq> [] \<or> url_search parsed \<noteq> [] \<or> url_hash parsed \<noteq> []
               \<or> url_pathname parsed = js ''/'' \<or> url_href parsed \<noteq> s
             then fail p Invalid_value
             else if url_origin parsed \<noteq> trustedOrigin then fail p Mismatch else Inr s)
   | _ \<Rightarrow> fail p Wrong_type)"

definition readBase64Url :: "jsval \<Rightarrow> ustring \<Rightarrow> nat \<Rightarrow> nat \<Rightarrow> ustring decoded" where
  "readBase64Url input p minBytes maxBytes = (case input of
     JStr s \<Rightarrow>
       if \<not> (s \<noteq> [] \<and> list_all isTokenUnit s) \<or> length s mod 4 = 1 then fail p Invalid_value
       else let byteLength = length s * 6 div 8; unusedBits = length s * 6 mod 8 in
         if byteLength < minBytes \<or> byteLength > maxBytes then fail p (if byteLength > maxBytes then Too_long else Invalid_value)
         else if unusedBits > 0 \<and> alphabetIndex (last s) mod 2 ^ unusedBits \<noteq> 0 then fail p Invalid_value
         else Inr s
   | _ \<Rightarrow> fail p Wrong_type)"

definition readThumbprint :: "jsval \<Rightarrow> ustring \<Rightarrow> ustring decoded" where
  "readThumbprint input p = readBase64Url input p 32 32"

section \<open>Keys and requesters\<close>

record publicKey =
  pk_publicKey :: ustring
  pk_thumbprint :: ustring

definition readPublicKey :: "string \<Rightarrow> jsval \<Rightarrow> ustring \<Rightarrow> publicKey decoded" where
  "readPublicKey algorithm input p =
     bindE (object input p [''algorithm'', ''publicKey'', ''thumbprint'']) (\<lambda>r.
     bindE (literal (field r ''algorithm'') (atPath r ''algorithm'') [(algorithm, ())]) (\<lambda>_.
     bindE (readBase64Url (field r ''publicKey'') (atPath r ''publicKey'') 32 32) (\<lambda>key.
     bindE (readThumbprint (field r ''thumbprint'') (atPath r ''thumbprint'')) (\<lambda>thumbprint.
     Inr \<lparr>pk_publicKey = key, pk_thumbprint = thumbprint\<rparr>))))"

definition readEd25519ProofKey :: "jsval \<Rightarrow> ustring \<Rightarrow> publicKey decoded" where
  "readEd25519ProofKey = readPublicKey ''Ed25519''"

definition readX25519EncryptionKey :: "jsval \<Rightarrow> ustring \<Rightarrow> publicKey decoded" where
  "readX25519EncryptionKey = readPublicKey ''X25519''"

record discoveryRequester =
  dr_principal :: ustring
  dr_origin :: ustring
  dr_proofKey :: publicKey
  dr_sessionGeneration :: nat

definition readDiscoveryRequester :: "urlParser \<Rightarrow> jsval \<Rightarrow> ustring \<Rightarrow> discoveryRequester decoded" where
  "readDiscoveryRequester parseUrl input p =
     bindE (object input p [''principal'', ''origin'', ''proofKey'', ''sessionGeneration'']) (\<lambda>r.
     bindE (identifierField (field r ''principal'') (atPath r ''principal'')) (\<lambda>who.
     bindE (readCanonicalOrigin parseUrl (field r ''origin'') (atPath r ''origin'')) (\<lambda>origin.
     bindE (readEd25519ProofKey (field r ''proofKey'') (atPath r ''proofKey'')) (\<lambda>proofKey.
     bindE (safeInteger (field r ''sessionGeneration'') (atPath r ''sessionGeneration'')) (\<lambda>generation.
     Inr \<lparr>dr_principal = who, dr_origin = origin, dr_proofKey = proofKey, dr_sessionGeneration = generation\<rparr>)))))"

section \<open>Listings\<close>

datatype channelVisibility = Vis_public | Vis_private | Vis_secret

datatype channelServiceKind = Service_internal | Service_external

datatype accessRequestOutcome =
    Access_pending_owner | Access_approved | Access_connecting | Access_connected | Access_repair_required | Access_denied
  | Access_expired | Access_revoked | Access_unavailable

definition ACCESS_REQUEST_OUTCOMES :: "(string \<times> accessRequestOutcome) list" where
  "ACCESS_REQUEST_OUTCOMES = [(''pending_owner'', Access_pending_owner), (''approved'', Access_approved),
     (''connecting'', Access_connecting), (''connected'', Access_connected), (''repair_required'', Access_repair_required),
     (''denied'', Access_denied), (''expired'', Access_expired), (''revoked'', Access_revoked), (''unavailable'', Access_unavailable)]"

record channelListing =
  cl_listingRef :: ustring
  cl_title :: ustring
  cl_visibility :: channelVisibility
  cl_serviceKind :: channelServiceKind
  cl_requestState :: "accessRequestOutcome option"

definition readChannelListing :: "jsval \<Rightarrow> ustring \<Rightarrow> channelListing decoded" where
  "readChannelListing input p =
     bindE (object input p [''v'', ''listingRef'', ''title'', ''visibility'', ''serviceKind'', ''requestState'']) (\<lambda>r.
     bindE (version (field r ''v'') (atPath r ''v'')) (\<lambda>_.
     bindE (identifierField (field r ''listingRef'') (atPath r ''listingRef'')) (\<lambda>listingRef.
     bindE (readUntrustedTitle (field r ''title'') (atPath r ''title'')) (\<lambda>title.
     bindE (literal (field r ''visibility'') (atPath r ''visibility'')
       [(''public'', Vis_public), (''private'', Vis_private), (''secret'', Vis_secret)]) (\<lambda>visibility.
     bindE (literal (field r ''serviceKind'') (atPath r ''serviceKind'')
       [(''internal'', Service_internal), (''external'', Service_external)]) (\<lambda>serviceKind.
     bindE (literal (field r ''requestState'') (atPath r ''requestState'')
       ((''not_requested'', None) # map (\<lambda>(k, v). (k, Some v)) ACCESS_REQUEST_OUTCOMES)) (\<lambda>requestState.
     Inr \<lparr>cl_listingRef = listingRef, cl_title = title, cl_visibility = visibility, cl_serviceKind = serviceKind,
          cl_requestState = requestState\<rparr>)))))))"

definition decodeChannelListing :: "jsval \<Rightarrow> channelListing decoded" where
  "decodeChannelListing input = readChannelListing input []"

fun readListings :: "ustring \<Rightarrow> nat \<Rightarrow> ustring list \<Rightarrow> jsval list \<Rightarrow> channelListing list decoded" where
  "readListings p index seen [] = Inr []"
| "readListings p index seen (item # items) =
     bindE (readChannelListing item (elementPath p index)) (\<lambda>listing.
     if cl_listingRef listing \<in> set seen then fail (elementPath p index @ js ''.listingRef'') Duplicate
     else bindE (readListings p (Suc index) (cl_listingRef listing # seen) items) (\<lambda>rest. Inr (listing # rest)))"

record channelListingPage =
  lp_items :: "channelListing list"
  lp_nextCursor :: "ustring option"

definition decodeChannelListingPage :: "jsval \<Rightarrow> channelListingPage decoded" where
  "decodeChannelListingPage input =
     bindE (object input [] [''v'', ''items'', ''nextCursor'']) (\<lambda>r.
     bindE (array (field r ''items'') (atPath r ''items'')) (\<lambda>rawItems.
     bindE (check (length rawItems \<le> MAX_CHANNEL_LIST_PAGE_SIZE) (atPath r ''items'') Too_long) (\<lambda>_.
     bindE (readListings (atPath r ''items'') 0 [] rawItems) (\<lambda>items.
     bindE (version (field r ''v'') (atPath r ''v'')) (\<lambda>_.
     bindE (nullable (field r ''nextCursor'') (\<lambda>v. identifierField v (atPath r ''nextCursor''))) (\<lambda>nextCursor.
     Inr \<lparr>lp_items = items, lp_nextCursor = nextCursor\<rparr>))))))"

definition decodeChannelListQuery :: "jsval \<Rightarrow> (ustring option \<times> nat) decoded" where
  "decodeChannelListQuery input =
     bindE (object input [] [''v'', ''cursor'', ''limit'']) (\<lambda>r.
     bindE (safeInteger (field r ''limit'') (atPath r ''limit'')) (\<lambda>limit.
     bindE (check (1 \<le> limit \<and> limit \<le> MAX_CHANNEL_LIST_PAGE_SIZE) (atPath r ''limit'') Invalid_value) (\<lambda>_.
     bindE (version (field r ''v'') (atPath r ''v'')) (\<lambda>_.
     bindE (nullable (field r ''cursor'') (\<lambda>v. identifierField v (atPath r ''cursor''))) (\<lambda>cursor.
     Inr (cursor, limit))))))"

section \<open>Requests\<close>

definition decodeAccessRequestStatus :: "jsval \<Rightarrow> (ustring \<times> accessRequestOutcome) decoded" where
  "decodeAccessRequestStatus input =
     bindE (object input [] [''v'', ''operationId'', ''outcome'']) (\<lambda>r.
     bindE (version (field r ''v'') (atPath r ''v'')) (\<lambda>_.
     bindE (identifierField (field r ''operationId'') (atPath r ''operationId'')) (\<lambda>operationId.
     bindE (literal (field r ''outcome'') (atPath r ''outcome'') ACCESS_REQUEST_OUTCOMES) (\<lambda>outcome.
     Inr (operationId, outcome)))))"

datatype accessTarget = By_listing ustring | By_url ustring

record channelAccessRequest =
  ca_operationId :: ustring
  ca_credentialRef :: ustring
  ca_target :: accessTarget

definition decodeChannelAccessRequest :: "urlParser \<Rightarrow> jsval \<Rightarrow> ustring \<Rightarrow> channelAccessRequest decoded" where
  "decodeChannelAccessRequest parseUrl input trustedOrigin =
     bindE (readCanonicalOrigin parseUrl (JStr trustedOrigin) (js ''trustedOrigin'')) (\<lambda>_.
     bindE (object input [] ([''v'', ''kind'', ''operationId'', ''credentialRef'']
       @ (if getProp input (js ''kind'') = JStr (js ''listing_ref'') then [''listingRef''] else [''channelUrl'']))) (\<lambda>r.
     bindE (literal (field r ''kind'') (atPath r ''kind'') [(''listing_ref'', True), (''channel_url'', False)]) (\<lambda>byRef.
     bindE (version (field r ''v'') (atPath r ''v'')) (\<lambda>_.
     bindE (identifierField (field r ''operationId'') (atPath r ''operationId'')) (\<lambda>operationId.
     bindE (identifierField (field r ''credentialRef'') (atPath r ''credentialRef'')) (\<lambda>credentialRef.
     bindE (if byRef then bindE (identifierField (field r ''listingRef'') (atPath r ''listingRef'')) (\<lambda>x. Inr (By_listing x))
       else bindE (readCanonicalChannelUrl parseUrl (field r ''channelUrl'') (atPath r ''channelUrl'') trustedOrigin) (\<lambda>x. Inr (By_url x)))
       (\<lambda>target.
     Inr \<lparr>ca_operationId = operationId, ca_credentialRef = credentialRef, ca_target = target\<rparr>)))))))"

record channelCreateIntent =
  cc_operationId :: ustring
  cc_credentialRef :: ustring
  cc_origin :: ustring
  cc_proposedTitle :: ustring

definition decodeChannelCreateIntent :: "urlParser \<Rightarrow> jsval \<Rightarrow> channelCreateIntent decoded" where
  "decodeChannelCreateIntent parseUrl input =
     bindE (object input [] [''v'', ''operationId'', ''credentialRef'', ''origin'', ''proposedTitle'']) (\<lambda>r.
     bindE (version (field r ''v'') (atPath r ''v'')) (\<lambda>_.
     bindE (identifierField (field r ''operationId'') (atPath r ''operationId'')) (\<lambda>operationId.
     bindE (identifierField (field r ''credentialRef'') (atPath r ''credentialRef'')) (\<lambda>credentialRef.
     bindE (readCanonicalOrigin parseUrl (field r ''origin'') (atPath r ''origin'')) (\<lambda>origin.
     bindE (readUntrustedTitle (field r ''proposedTitle'') (atPath r ''proposedTitle'')) (\<lambda>title.
     Inr \<lparr>cc_operationId = operationId, cc_credentialRef = credentialRef, cc_origin = origin, cc_proposedTitle = title\<rparr>))))))"

datatype channelCreateOutcome =
  Create_pending | Create_created | Create_already_created | Create_denied | Create_outcome_unknown | Create_unavailable

definition CHANNEL_CREATE_OUTCOMES :: "(string \<times> channelCreateOutcome) list" where
  "CHANNEL_CREATE_OUTCOMES = [(''pending'', Create_pending), (''created'', Create_created),
     (''already_created'', Create_already_created), (''denied'', Create_denied), (''outcome_unknown'', Create_outcome_unknown),
     (''unavailable'', Create_unavailable)]"

record channelCreateReconciliation =
  cx_idempotencyKey :: ustring
  cx_outcome :: channelCreateOutcome
  cx_channelRef :: "ustring option"

definition decodeChannelCreateReconciliation :: "jsval \<Rightarrow> channelCreateReconciliation decoded" where
  "decodeChannelCreateReconciliation input =
     bindE (object input [] [''v'', ''idempotencyKey'', ''outcome'', ''channelRef'']) (\<lambda>r.
     bindE (literal (field r ''outcome'') (atPath r ''outcome'') CHANNEL_CREATE_OUTCOMES) (\<lambda>outcome.
     bindE (nullable (field r ''channelRef'') (\<lambda>v. identifierField v (atPath r ''channelRef''))) (\<lambda>channelRef.
     bindE (check ((outcome = Create_created \<or> outcome = Create_already_created) = (channelRef \<noteq> None))
       (atPath r ''channelRef'') Invalid_value) (\<lambda>_.
     bindE (version (field r ''v'') (atPath r ''v'')) (\<lambda>_.
     bindE (identifierField (field r ''idempotencyKey'') (atPath r ''idempotencyKey'')) (\<lambda>key.
     Inr \<lparr>cx_idempotencyKey = key, cx_outcome = outcome, cx_channelRef = channelRef\<rparr>))))))"

section \<open>Credentials\<close>

definition CHANNEL_DISCOVERY_SCOPES :: "string list" where
  "CHANNEL_DISCOVERY_SCOPES = [''list_channels'', ''request_channel_access'', ''request_channel_create'']"

record discoveryCredential =
  dc_credentialRef :: ustring
  dc_requester :: discoveryRequester
  dc_expiresAt :: ustring

definition decodeDiscoveryCredential :: "urlParser \<Rightarrow> jsval \<Rightarrow> discoveryCredential decoded" where
  "decodeDiscoveryCredential parseUrl input =
     bindE (object input [] [''v'', ''credentialRef'', ''audience'', ''requester'', ''scopes'', ''expiresAt'']) (\<lambda>r.
     bindE (array (field r ''scopes'') (atPath r ''scopes'')) (\<lambda>scopes.
     bindE (check (scopes = map (\<lambda>s. JStr (js s)) CHANNEL_DISCOVERY_SCOPES) (atPath r ''scopes'') Invalid_value) (\<lambda>_.
     bindE (version (field r ''v'') (atPath r ''v'')) (\<lambda>_.
     bindE (identifierField (field r ''credentialRef'') (atPath r ''credentialRef'')) (\<lambda>credentialRef.
     bindE (literal (field r ''audience'') (atPath r ''audience'') [(''khala-channel-discovery'', ())]) (\<lambda>_.
     bindE (readDiscoveryRequester parseUrl (field r ''requester'') (atPath r ''requester'')) (\<lambda>requester.
     bindE (utcTimestamp (field r ''expiresAt'') (atPath r ''expiresAt'')) (\<lambda>expiresAt.
     Inr \<lparr>dc_credentialRef = credentialRef, dc_requester = requester, dc_expiresAt = expiresAt\<rparr>))))))))"

end
