(* ===== verification/SealedGrants.thy ===== *)
theory SealedGrants
  imports Discovery JsonBytes
begin

text \<open>
  Key thumbprints, grant exchange and sealed grants of the discovery contracts
  (\<^verbatim>\<open>packages/contracts/src/messaging/discovery.ts\<close>, from \<open>deriveOkpKeyThumbprint\<close> on), and what an accepted key text and a
  validated grant request guarantee. The platform's SHA-256 is a parameter; its \<open>None\<close> is a rejected digest.
\<close>

section \<open>Thumbprints\<close>

text \<open>\<open>JSON.stringify({ crv, kty: 'OKP', x })\<close>\<close>

definition canonicalJwk :: "string \<Rightarrow> ustring \<Rightarrow> ustring" where
  "canonicalJwk algorithm key =
     [0x7B] @ quoteString (js ''crv'') @ [0x3A] @ quoteString (js algorithm) @ [0x2C] @ quoteString (js ''kty'') @ [0x3A]
       @ quoteString (js ''OKP'') @ [0x2C] @ quoteString (js ''x'') @ [0x3A] @ quoteString key @ [0x7D]"

text \<open>\<open>btoa\<close> with the URL alphabet and without padding is \<open>base64url\<close>.\<close>

definition deriveOkpKeyThumbprint :: "(nat list \<Rightarrow> nat list option) \<Rightarrow> string \<Rightarrow> ustring \<Rightarrow> ustring option" where
  "deriveOkpKeyThumbprint sha256 algorithm key = map_option base64url (sha256 (textEncode (canonicalJwk algorithm key)))"

text \<open>\<open>nowMs >= Date.parse(e)\<close>\<close>

definition hasPassed :: "(ustring \<Rightarrow> int option) \<Rightarrow> ustring \<Rightarrow> int \<Rightarrow> bool" where
  "hasPassed dateParse e now = (case dateParse e of None \<Rightarrow> False | Some t \<Rightarrow> t \<le> now)"

datatype credentialValidity =
    Credential_valid | Credential_expired | Credential_wrong_origin | Credential_wrong_requester | Credential_wrong_generation
  | Credential_proof_mismatch | Credential_crypto_unavailable

record credentialContext =
  cq_requester :: ustring
  cq_origin :: ustring
  cq_proofKeyThumbprint :: ustring
  cq_sessionGeneration :: nat
  cq_nowMs :: int

definition validateDiscoveryCredential ::
  "(nat list \<Rightarrow> nat list option) \<Rightarrow> (ustring \<Rightarrow> int option) \<Rightarrow> discoveryCredential \<Rightarrow> credentialContext \<Rightarrow> credentialValidity" where
  "validateDiscoveryCredential sha256 dateParse credential current =
     (let requester = dc_requester credential in
      if hasPassed dateParse (dc_expiresAt credential) (cq_nowMs current) then Credential_expired
      else if dr_origin requester \<noteq> cq_origin current then Credential_wrong_origin
      else if dr_principal requester \<noteq> cq_requester current then Credential_wrong_requester
      else if dr_sessionGeneration requester \<noteq> cq_sessionGeneration current then Credential_wrong_generation
      else case deriveOkpKeyThumbprint sha256 ''Ed25519'' (pk_publicKey (dr_proofKey requester)) of
        None \<Rightarrow> Credential_crypto_unavailable
      | Some derived \<Rightarrow>
          if pk_thumbprint (dr_proofKey requester) \<noteq> derived \<or> derived \<noteq> cq_proofKeyThumbprint current
          then Credential_proof_mismatch else Credential_valid)"

section \<open>Grant exchange\<close>

record grantExchangeRequest =
  gx_operationId :: ustring
  gx_requester :: ustring
  gx_origin :: ustring
  gx_proofKey :: publicKey
  gx_encryptionKey :: publicKey
  gx_deviceId :: ustring
  gx_sessionGeneration :: nat
  gx_expiresAt :: ustring

definition decodeGrantExchangeRequest :: "urlParser \<Rightarrow> jsval \<Rightarrow> grantExchangeRequest decoded" where
  "decodeGrantExchangeRequest parseUrl input =
     bindE (object input [] [''v'', ''operationId'', ''requester'', ''origin'', ''proofKey'', ''encryptionKey'', ''deviceId'',
       ''sessionGeneration'', ''expiresAt'']) (\<lambda>r.
     bindE (readEd25519ProofKey (field r ''proofKey'') (atPath r ''proofKey'')) (\<lambda>proofKey.
     bindE (readX25519EncryptionKey (field r ''encryptionKey'') (atPath r ''encryptionKey'')) (\<lambda>encryptionKey.
     bindE (check (pk_publicKey proofKey \<noteq> pk_publicKey encryptionKey) (atPath r ''encryptionKey'' @ js ''.publicKey'') Mismatch) (\<lambda>_.
     bindE (check (pk_thumbprint proofKey \<noteq> pk_thumbprint encryptionKey) (atPath r ''encryptionKey'' @ js ''.thumbprint'') Mismatch) (\<lambda>_.
     bindE (version (field r ''v'') (atPath r ''v'')) (\<lambda>_.
     bindE (identifierField (field r ''operationId'') (atPath r ''operationId'')) (\<lambda>operationId.
     bindE (identifierField (field r ''requester'') (atPath r ''requester'')) (\<lambda>requester.
     bindE (readCanonicalOrigin parseUrl (field r ''origin'') (atPath r ''origin'')) (\<lambda>origin.
     bindE (readId (field r ''deviceId'') (atPath r ''deviceId'')) (\<lambda>deviceId.
     bindE (safeInteger (field r ''sessionGeneration'') (atPath r ''sessionGeneration'')) (\<lambda>generation.
     bindE (utcTimestamp (field r ''expiresAt'') (atPath r ''expiresAt'')) (\<lambda>expiresAt.
     Inr \<lparr>gx_operationId = operationId, gx_requester = requester, gx_origin = origin, gx_proofKey = proofKey,
          gx_encryptionKey = encryptionKey, gx_deviceId = deviceId, gx_sessionGeneration = generation,
          gx_expiresAt = expiresAt\<rparr>))))))))))))"

datatype grantExchangeRejection =
    Grant_closed | Grant_expired | Grant_proof_mismatch | Grant_encryption_key_mismatch | Grant_wrong_origin | Grant_wrong_requester
  | Grant_wrong_generation | Grant_wrong_device | Grant_operation_mismatch | Grant_key_reuse | Grant_crypto_unavailable

record grantContext =
  gc_operationId :: ustring
  gc_requester :: ustring
  gc_origin :: ustring
  gc_sessionGeneration :: nat
  gc_deviceId :: ustring
  gc_proofKeyThumbprint :: ustring
  gc_nowMs :: int

definition validateGrantExchangeRequest ::
  "(nat list \<Rightarrow> nat list option) \<Rightarrow> (ustring \<Rightarrow> int option) \<Rightarrow> grantExchangeRequest \<Rightarrow> grantContext
   \<Rightarrow> grantExchangeRejection + grantExchangeRequest" where
  "validateGrantExchangeRequest sha256 dateParse request current =
     (if hasPassed dateParse (gx_expiresAt request) (gc_nowMs current) then Inl Grant_expired
      else if gx_operationId request \<noteq> gc_operationId current then Inl Grant_operation_mismatch
      else if gx_requester request \<noteq> gc_requester current then Inl Grant_wrong_requester
      else if gx_origin request \<noteq> gc_origin current then Inl Grant_wrong_origin
      else if gx_sessionGeneration request \<noteq> gc_sessionGeneration current then Inl Grant_wrong_generation
      else if gx_deviceId request \<noteq> gc_deviceId current then Inl Grant_wrong_device
      else case (deriveOkpKeyThumbprint sha256 ''Ed25519'' (pk_publicKey (gx_proofKey request)),
                 deriveOkpKeyThumbprint sha256 ''X25519'' (pk_publicKey (gx_encryptionKey request))) of
        (Some proof, Some encryption) \<Rightarrow>
          if pk_thumbprint (gx_proofKey request) \<noteq> proof \<or> proof \<noteq> gc_proofKeyThumbprint current then Inl Grant_proof_mismatch
          else if pk_thumbprint (gx_encryptionKey request) \<noteq> encryption then Inl Grant_encryption_key_mismatch
          else Inr request
      | _ \<Rightarrow> Inl Grant_crypto_unavailable)"

record grantExchangeBinding =
  gb_encryptionKeyPublicKey :: ustring
  gb_encryptionKeyThumbprint :: ustring
  gb_proofKeyThumbprint :: ustring
  gb_operationId :: ustring
  gb_deviceId :: ustring
  gb_requester :: ustring
  gb_origin :: ustring
  gb_sessionGeneration :: nat

datatype bindingMatch = Binding_match | Binding_unbound | Binding_key_reuse

definition classifyGrantExchangeBinding :: "grantExchangeBinding \<Rightarrow> grantExchangeBinding \<Rightarrow> bindingMatch" where
  "classifyGrantExchangeBinding established candidate =
     (let samePublicKey = gb_encryptionKeyPublicKey established = gb_encryptionKeyPublicKey candidate;
          sameThumbprint = gb_encryptionKeyThumbprint established = gb_encryptionKeyThumbprint candidate in
      if \<not> samePublicKey \<and> \<not> sameThumbprint then Binding_unbound
      else if samePublicKey \<and> sameThumbprint \<and> gb_proofKeyThumbprint established = gb_proofKeyThumbprint candidate
        \<and> gb_operationId established = gb_operationId candidate \<and> gb_deviceId established = gb_deviceId candidate
        \<and> gb_requester established = gb_requester candidate \<and> gb_origin established = gb_origin candidate
        \<and> gb_sessionGeneration established = gb_sessionGeneration candidate
      then Binding_match else Binding_key_reuse)"

section \<open>Sealed grants\<close>

definition CHANNEL_SEALED_BOX_ALGORITHM :: string where
  "CHANNEL_SEALED_BOX_ALGORITHM = ''crypto_box_seal_x25519_xsalsa20poly1305''"

definition decodeSealedGrantEnvelope :: "jsval \<Rightarrow> (ustring \<times> ustring) decoded" where
  "decodeSealedGrantEnvelope input =
     bindE (object input [] [''v'', ''algorithm'', ''recipientKeyThumbprint'', ''ciphertext'']) (\<lambda>r.
     bindE (version (field r ''v'') (atPath r ''v'')) (\<lambda>_.
     bindE (literal (field r ''algorithm'') (atPath r ''algorithm'') [(CHANNEL_SEALED_BOX_ALGORITHM, ())]) (\<lambda>_.
     bindE (readThumbprint (field r ''recipientKeyThumbprint'') (atPath r ''recipientKeyThumbprint'')) (\<lambda>recipient.
     bindE (readBase64Url (field r ''ciphertext'') (atPath r ''ciphertext'') 48 MAX_SEALED_GRANT_BYTES) (\<lambda>ciphertext.
     Inr (recipient, ciphertext))))))"

record sealedGrantPayload =
  gp_operationId :: ustring
  gp_requester :: ustring
  gp_origin :: ustring
  gp_sessionGeneration :: nat
  gp_deviceId :: ustring
  gp_proofKeyThumbprint :: ustring
  gp_recipientKeyThumbprint :: ustring
  gp_expiresAt :: ustring
  gp_grant :: ustring

definition decodeSealedGrantPayload :: "urlParser \<Rightarrow> jsval \<Rightarrow> sealedGrantPayload decoded" where
  "decodeSealedGrantPayload parseUrl input =
     bindE (object input [] [''v'', ''operationId'', ''requester'', ''origin'', ''sessionGeneration'', ''deviceId'', ''proofKeyThumbprint'',
       ''recipientKeyThumbprint'', ''expiresAt'', ''grant'']) (\<lambda>r.
     bindE (version (field r ''v'') (atPath r ''v'')) (\<lambda>_.
     bindE (identifierField (field r ''operationId'') (atPath r ''operationId'')) (\<lambda>operationId.
     bindE (identifierField (field r ''requester'') (atPath r ''requester'')) (\<lambda>requester.
     bindE (readCanonicalOrigin parseUrl (field r ''origin'') (atPath r ''origin'')) (\<lambda>origin.
     bindE (safeInteger (field r ''sessionGeneration'') (atPath r ''sessionGeneration'')) (\<lambda>generation.
     bindE (readId (field r ''deviceId'') (atPath r ''deviceId'')) (\<lambda>deviceId.
     bindE (readThumbprint (field r ''proofKeyThumbprint'') (atPath r ''proofKeyThumbprint'')) (\<lambda>proof.
     bindE (readThumbprint (field r ''recipientKeyThumbprint'') (atPath r ''recipientKeyThumbprint'')) (\<lambda>recipient.
     bindE (utcTimestamp (field r ''expiresAt'') (atPath r ''expiresAt'')) (\<lambda>expiresAt.
     bindE (identifierField (field r ''grant'') (atPath r ''grant'')) (\<lambda>token.
     Inr \<lparr>gp_operationId = operationId, gp_requester = requester, gp_origin = origin, gp_sessionGeneration = generation,
          gp_deviceId = deviceId, gp_proofKeyThumbprint = proof, gp_recipientKeyThumbprint = recipient, gp_expiresAt = expiresAt,
          gp_grant = token\<rparr>)))))))))))"

datatype sealedPayloadValidity =
    Payload_valid | Payload_expired | Payload_operation_mismatch | Payload_wrong_requester | Payload_wrong_origin
  | Payload_wrong_generation | Payload_wrong_device | Payload_proof_mismatch | Payload_encryption_key_mismatch

definition validateSealedGrantPayload ::
  "(ustring \<Rightarrow> int option) \<Rightarrow> sealedGrantPayload \<Rightarrow> grantContext \<Rightarrow> ustring \<Rightarrow> sealedPayloadValidity" where
  "validateSealedGrantPayload dateParse payload expected recipientKeyThumbprint =
     (if hasPassed dateParse (gp_expiresAt payload) (gc_nowMs expected) then Payload_expired
      else if gp_operationId payload \<noteq> gc_operationId expected then Payload_operation_mismatch
      else if gp_requester payload \<noteq> gc_requester expected then Payload_wrong_requester
      else if gp_origin payload \<noteq> gc_origin expected then Payload_wrong_origin
      else if gp_sessionGeneration payload \<noteq> gc_sessionGeneration expected then Payload_wrong_generation
      else if gp_deviceId payload \<noteq> gc_deviceId expected then Payload_wrong_device
      else if gp_proofKeyThumbprint payload \<noteq> gc_proofKeyThumbprint expected then Payload_proof_mismatch
      else if gp_recipientKeyThumbprint payload \<noteq> recipientKeyThumbprint then Payload_encryption_key_mismatch
      else Payload_valid)"

record channelAccessReadiness =
  ar_operationId :: ustring
  ar_requester :: ustring
  ar_origin :: ustring
  ar_sessionGeneration :: nat
  ar_deviceId :: ustring
  ar_proofKeyThumbprint :: ustring
  ar_recipientKeyThumbprint :: ustring

definition decodeChannelAccessReadiness :: "urlParser \<Rightarrow> jsval \<Rightarrow> channelAccessReadiness decoded" where
  "decodeChannelAccessReadiness parseUrl input =
     bindE (object input [] [''v'', ''operationId'', ''requester'', ''origin'', ''sessionGeneration'', ''deviceId'', ''proofKeyThumbprint'',
       ''recipientKeyThumbprint'']) (\<lambda>r.
     bindE (readThumbprint (field r ''proofKeyThumbprint'') (atPath r ''proofKeyThumbprint'')) (\<lambda>proof.
     bindE (readThumbprint (field r ''recipientKeyThumbprint'') (atPath r ''recipientKeyThumbprint'')) (\<lambda>recipient.
     bindE (check (proof \<noteq> recipient) (atPath r ''recipientKeyThumbprint'') Mismatch) (\<lambda>_.
     bindE (version (field r ''v'') (atPath r ''v'')) (\<lambda>_.
     bindE (identifierField (field r ''operationId'') (atPath r ''operationId'')) (\<lambda>operationId.
     bindE (identifierField (field r ''requester'') (atPath r ''requester'')) (\<lambda>requester.
     bindE (readCanonicalOrigin parseUrl (field r ''origin'') (atPath r ''origin'')) (\<lambda>origin.
     bindE (safeInteger (field r ''sessionGeneration'') (atPath r ''sessionGeneration'')) (\<lambda>generation.
     bindE (readId (field r ''deviceId'') (atPath r ''deviceId'')) (\<lambda>deviceId.
     Inr \<lparr>ar_operationId = operationId, ar_requester = requester, ar_origin = origin, ar_sessionGeneration = generation,
          ar_deviceId = deviceId, ar_proofKeyThumbprint = proof, ar_recipientKeyThumbprint = recipient\<rparr>))))))))))"

section \<open>What an accepted key text is\<close>

lemma encoded_size: "length (base64url bs) * 6 div 8 = length bs"
proof -
  have "(n * 4 + 2) div 3 * 6 div 8 = n" for n :: nat by presburger
  then show ?thesis by (simp add: base64url_length)
qed

text \<open>C32: The strict base64url reader accepts exactly the encodings. It returns a text exactly when the input is that text and the
  text is the unpadded base64url encoding of a non-empty list of bytes whose number is within the bounds; no two byte lists have
  one text.\<close>

theorem readBase64Url_exact:
  "readBase64Url input p minBytes maxBytes = Inr s \<longleftrightarrow> input = JStr s \<and>
     (\<exists>!bs. list_all isByte bs \<and> base64url bs = s \<and> bs \<noteq> [] \<and> minBytes \<le> length bs \<and> length bs \<le> maxBytes)"
  (is "?l \<longleftrightarrow> _ \<and> (\<exists>!bs. ?ok bs)")
proof
  assume ?l
  then have j: "input = JStr s" and nonempty: "s \<noteq> []" and size: "minBytes \<le> length s * 6 div 8" "length s * 6 div 8 \<le> maxBytes"
    and ok: "isBase64url s"
    by (auto simp: readBase64Url_def isBase64url_def Let_def not_less split: jsval.splits if_splits)
  obtain bs where bs: "list_all isByte bs" "s = base64url bs" using ok base64url_exact by blast
  then have "?ok bs" using nonempty size encoded_size[of bs] by auto
  moreover have "bs' = bs" if "?ok bs'" for bs' using that base64url_inj bs by blast
  ultimately show "input = JStr s \<and> (\<exists>!bs. ?ok bs)" using j by blast
next
  assume r: "input = JStr s \<and> (\<exists>!bs. ?ok bs)"
  then obtain bs where bs: "?ok bs" by blast
  have ok: "isBase64url s" using bs base64url_exact by blast
  have "length s * 6 div 8 = length bs" using bs encoded_size by blast
  moreover have "s \<noteq> []" using bs by (cases bs rule: base64url.cases) auto
  ultimately show ?l using r bs ok by (auto simp: readBase64Url_def isBase64url_def Let_def)
qed

section \<open>What a validated grant request binds\<close>

lemma canonicalJwk_inj: "canonicalJwk a x = canonicalJwk a y \<Longrightarrow> x = y"
  unfolding canonicalJwk_def using quote_prefix[of x "[0x7D]" y "[0x7D]"] by simp

lemma canonicalJwk_wellFormed: "isWellFormed (canonicalJwk a x)"
proof -
  have "isWellFormed [0x7B]" "isWellFormed [0x3A]" "isWellFormed [0x2C]" "isWellFormed [0x7D]"
    by (auto intro: wellFormed_plain simp: isHigh_def isLow_def)
  then show ?thesis unfolding canonicalJwk_def by (intro wellFormed_append wellFormed_quote)
qed

definition digestsBytes :: "(nat list \<Rightarrow> nat list option) \<Rightarrow> bool" where
  "digestsBytes sha256 \<longleftrightarrow> (\<forall>x d. sha256 x = Some d \<longrightarrow> list_all isByte d)"

lemma thumbprint_binds:
  assumes "digestsBytes sha256" and "deriveOkpKeyThumbprint sha256 a x = Some t" and "deriveOkpKeyThumbprint sha256 a y = Some t"
  shows "x = y \<or> (\<exists>m n. m \<noteq> n \<and> sha256 m = sha256 n \<and> sha256 m \<noteq> None)"
proof -
  let ?m = "\<lambda>k. textEncode (canonicalJwk a k)"
  obtain d e where d: "sha256 (?m x) = Some d" "sha256 (?m y) = Some e" "base64url d = base64url e"
    using assms(2,3) by (auto simp: deriveOkpKeyThumbprint_def)
  have "d = e" using d base64url_inj assms(1) unfolding digestsBytes_def by blast
  moreover have "?m x = ?m y \<Longrightarrow> x = y" using textEncode_inj canonicalJwk_wellFormed canonicalJwk_inj by blast
  moreover have "?m x \<noteq> ?m y \<Longrightarrow> \<exists>m n. m \<noteq> n \<and> sha256 m = sha256 n \<and> sha256 m \<noteq> None"
    using d calculation(1) by (intro exI[of _ "?m x"] exI[of _ "?m y"]) simp
  ultimately show ?thesis by blast
qed


lemma read_encoded:
  "list_all isByte bs \<Longrightarrow> length bs = 32 \<Longrightarrow> readBase64Url (JStr (base64url bs)) p 32 32 = Inr (base64url bs)"
  unfolding readBase64Url_exact using base64url_inj by auto

definition sampleSha :: "nat list \<Rightarrow> nat list option" where
  "sampleSha m = Some (replicate 32 (length m mod 256))"

definition sampleKey :: "string \<Rightarrow> nat \<Rightarrow> publicKey" where
  "sampleKey algorithm n = \<lparr>pk_publicKey = base64url (replicate 32 n),
     pk_thumbprint = base64url (replicate 32 (length (textEncode (canonicalJwk algorithm (base64url (replicate 32 n)))) mod 256))\<rparr>"

definition keyObject :: "string \<Rightarrow> publicKey \<Rightarrow> jsval" where
  "keyObject algorithm k = JObj True [(js ''algorithm'', JStr (js algorithm)), (js ''publicKey'', JStr (pk_publicKey k)),
     (js ''thumbprint'', JStr (pk_thumbprint k))]"

definition sampleGrant :: grantExchangeRequest where
  "sampleGrant = \<lparr>gx_operationId = js ''op'', gx_requester = js ''r'', gx_origin = js ''https://k'', gx_proofKey = sampleKey ''Ed25519'' 1,
     gx_encryptionKey = sampleKey ''X25519'' 2, gx_deviceId = js ''d'', gx_sessionGeneration = 1,
     gx_expiresAt = js ''2026-01-01T00:00:00.000Z''\<rparr>"

definition grantObject :: jsval where
  "grantObject = JObj True [(js ''v'', jnat 1), (js ''operationId'', JStr (js ''op'')), (js ''requester'', JStr (js ''r'')),
     (js ''origin'', JStr (js ''https://k'')), (js ''proofKey'', keyObject ''Ed25519'' (sampleKey ''Ed25519'' 1)),
     (js ''encryptionKey'', keyObject ''X25519'' (sampleKey ''X25519'' 2)), (js ''deviceId'', JStr (js ''d'')),
     (js ''sessionGeneration'', jnat 1), (js ''expiresAt'', JStr (js ''2026-01-01T00:00:00.000Z''))]"

definition sampleUrl :: urlParser where
  "sampleUrl s = Some \<lparr>url_origin = s, url_protocol = js ''https:'', url_hostname = js ''k'', url_username = [], url_password = [],
     url_pathname = js ''/'', url_search = [], url_hash = [], url_href = s\<rparr>"

definition sampleContext :: grantContext where
  "sampleContext = \<lparr>gc_operationId = js ''op'', gc_requester = js ''r'', gc_origin = js ''https://k'', gc_sessionGeneration = 1,
     gc_deviceId = js ''d'', gc_proofKeyThumbprint = pk_thumbprint (sampleKey ''Ed25519'' 1), gc_nowMs = 0\<rparr>"

lemma replicate_bytes: "n < 256 \<Longrightarrow> list_all isByte (replicate k n)"
  by (simp add: isByte_def list_all_iff)

lemma sample_key_read: "n < 256 \<Longrightarrow> readPublicKey algorithm (keyObject algorithm (sampleKey algorithm n)) p = Inr (sampleKey algorithm n)"
proof -
  assume "n < 256"
  then have reads: "readBase64Url (JStr (pk_publicKey (sampleKey algorithm n))) q 32 32 = Inr (pk_publicKey (sampleKey algorithm n))"
    "readBase64Url (JStr (pk_thumbprint (sampleKey algorithm n))) q 32 32 = Inr (pk_thumbprint (sampleKey algorithm n))" for q
    by (simp_all add: sampleKey_def read_encoded replicate_bytes)
  have "exactObject (keyObject algorithm k) [''algorithm'', ''publicKey'', ''thumbprint'']" for k
    by (auto simp: keyObject_def exactObject_def)
  then show ?thesis
    unfolding readPublicKey_def bind_object_iff
    by (simp add: bindE_eq_Inr propOf_def keyObject_def readThumbprint_def reads literal_singleton_iff)
qed

lemma sample_keys_differ:
  "pk_publicKey (sampleKey ''Ed25519'' 1) \<noteq> pk_publicKey (sampleKey ''X25519'' 2)"
  "pk_thumbprint (sampleKey ''Ed25519'' 1) \<noteq> pk_thumbprint (sampleKey ''X25519'' 2)"
proof -
  show "pk_publicKey (sampleKey ''Ed25519'' 1) \<noteq> pk_publicKey (sampleKey ''X25519'' 2)"
    using base64url_inj[of "replicate 32 1" "replicate 32 2"] by (auto simp: sampleKey_def replicate_bytes)
  show "pk_thumbprint (sampleKey ''Ed25519'' 1) \<noteq> pk_thumbprint (sampleKey ''X25519'' 2)" by code_simp
qed

lemma sample_grant_decodes: "decodeGrantExchangeRequest sampleUrl grantObject = Inr sampleGrant"
proof -
  have "wfId (js ''op'')" "wfId (js ''r'')" "wfId (js ''d'')" "wfTimestamp (js ''2026-01-01T00:00:00.000Z'')" by code_simp+
  moreover have "exactObject grantObject [''v'', ''operationId'', ''requester'', ''origin'', ''proofKey'', ''encryptionKey'', ''deviceId'',
      ''sessionGeneration'', ''expiresAt'']"
    by (auto simp: grantObject_def exactObject_def)
  ultimately show ?thesis
    unfolding decodeGrantExchangeRequest_def bind_object_iff readEd25519ProofKey_def readX25519EncryptionKey_def
    by (simp add: bindE_eq_Inr propOf_def grantObject_def sample_key_read check_eq_Inr sample_keys_differ[unfolded One_nat_def] version_eq_Inr identifier_eq_Inr
        readId_eq_Inr safeInteger_eq_Inr utcTimestamp_eq_Inr readCanonicalOrigin_def sampleUrl_def sampleGrant_def safeNat_def)
qed

lemma sample_grant_valid: "validateGrantExchangeRequest sampleSha (\<lambda>_. Some 1000) sampleGrant sampleContext = Inr sampleGrant"
proof -
  have derived: "deriveOkpKeyThumbprint sampleSha a (pk_publicKey (sampleKey a n)) = Some (pk_thumbprint (sampleKey a n))" for a n
    by (simp add: deriveOkpKeyThumbprint_def sampleSha_def sampleKey_def)
  show ?thesis
    by (simp add: validateGrantExchangeRequest_def sampleGrant_def sampleContext_def hasPassed_def derived)
qed


end
