(* ===== verification/Spec2Isabelle.thy ===== *)
theory Spec2Isabelle
  imports Identity Listener Delivery ListeningMode StoreProperties InvitePolicy MembershipProperties
    ImageProperties AgentNames Channels AdmissionProperties ChannelRuns TimelineProperties SealedArchive HistoryDelivery
    DeviceGate SignInRuns SealedGrants
begin

text \<open>
  Khala: verification of the messaging core.

  \<^bold>\<open>The program.\<close> Khala lets humans and software agents share end-to-end encrypted channels. Its TypeScript sources are a set of
  contracts (\<^verbatim>\<open>packages/contracts/src\<close>: the strict decoders and digests every process applies to what it receives), a control
  application (\<^verbatim>\<open>apps/control/src\<close>: a store of versioned records, invitations, removals and names over it), and a messaging
  client (\<^verbatim>\<open>packages/messaging/src\<close>: channel commands, timelines and imported history over a messaging SDK). The client calls the
  SDK, the device and a journal through ports; the control application calls its blob store, clock, digests and gateway through
  ports; both exchange only values that the contracts decode.

  \<^bold>\<open>Foundations.\<close> \<open>Prelude\<close> holds the error monad (\<open>Inl\<close> is a thrown or returned failure) and the collections of rules;
  \<open>JsValue\<close> the part of JavaScript that the sources use (UTF-16 strings as lists of 16-bit words, numbers, values with the own
  properties of objects in enumeration order, the UTC calendar of \<open>Date\<close>); \<open>Effects\<close> explicit state passing with thrown values,
  \<open>await\<close> being sequencing, and total triples over both exits; \<open>Json\<close>, \<open>JsonText\<close> and \<open>JsonBytes\<close> canonical JSON, its printer
  and its UTF-8 bytes, with their injectivity. What is not in the repository is a parameter: the number printer, Unicode
  normalisation, SHA-256 and HMAC, \<open>Date.parse\<close>, clocks, the blob store, the gateway, the SDK.

  \<^bold>\<open>Contracts.\<close> \<open>MsgDecode\<close> (\<^verbatim>\<open>messaging/decode.ts\<close>), \<open>Identity\<close> (\<^verbatim>\<open>identity.ts\<close>, \<^verbatim>\<open>devices.ts\<close>, \<^verbatim>\<open>revocation.ts\<close>,
  \<^verbatim>\<open>recovery.ts\<close>), \<open>Events\<close> and \<open>EventProperties\<close> (\<^verbatim>\<open>events.ts\<close>), \<open>Channels\<close> (\<^verbatim>\<open>channels.ts\<close>, \<^verbatim>\<open>admission.ts\<close>),
  \<open>AgentNames\<close> (\<^verbatim>\<open>agent-names.ts\<close>), \<open>Images\<close> and \<open>ImageProperties\<close> (\<^verbatim>\<open>m1/image.ts\<close>), \<open>Listener\<close>, \<open>Delivery\<close> and
  \<open>ListeningMode\<close> (\<^verbatim>\<open>delivery\<close>), \<open>ImportedHistory\<close> (\<^verbatim>\<open>imported-history.ts\<close>). A reader is a function into
  \<open>decodeFailure + 'a\<close> that fails with the path and code of the source; its lemmas say which inputs it accepts, and the properties
  what an accepted value guarantees: attribution, digests that bind one content, bounded frames, exact receipts.

  \<^bold>\<open>Control application.\<close> \<open>ControlStore\<close> and \<open>StoreProperties\<close> are the record store of \<^verbatim>\<open>runtime/control-store.ts\<close> over a blob
  store (\<open>LocalBlobs\<close>: \<^verbatim>\<open>runtime/local-blob-store.ts\<close>, whose compare-and-swap discharges the locale of the blob store), with the
  refinement of an abstract store by \<open>compareAndSet\<close>. \<open>StorePort\<close>, \<open>InvitePolicy\<close>, \<open>Membership\<close>, \<open>MembershipProperties\<close>,
  \<open>Admission\<close>, \<open>AdmissionTrace\<close> and \<open>AdmissionProperties\<close> are the invitations, removals and admissions; an audit trail that
  wraps every port states on what evidence the service acts.

  \<^bold>\<open>Messaging client.\<close> \<open>ChannelClient\<close> is the journaled commands of \<^verbatim>\<open>channels/create.ts\<close>, \<^verbatim>\<open>send.ts\<close> and \<^verbatim>\<open>intro.ts\<close> over
  \<^verbatim>\<open>context.ts\<close>, \<^verbatim>\<open>substrate.ts\<close> and \<^verbatim>\<open>journal.ts\<close>. The locale \<open>channel_journal\<close> of \<open>ChannelClientProperties\<close> states what a
  journal promises; \<open>ChannelMessages\<close> proves the invariants of the commands in it, and \<open>ChannelRuns\<close> interprets it on the journal
  of \<open>createMemoryChannelJournal\<close> and closes the commands of any number of tabs under \<open>clientRun\<close>. \<open>TimelineView\<close> and
  \<open>TimelineProperties\<close> are \<^verbatim>\<open>timeline.ts\<close>: the live projection of a channel as a function on its state, and what holds after
  every sequence of updates. \<open>HistoryImport\<close> is \<^verbatim>\<open>imported-history.ts\<close> and \<^verbatim>\<open>history-import.ts\<close>; \<open>ImportedProperties\<close>,
  \<open>ImportedPaging\<close>, \<open>ImportedDigests\<close>, \<open>ImportedSealing\<close>, \<open>SealedArchive\<close> and \<open>HistoryDelivery\<close> show that sealing and opening
  are inverse, that digests bind an archive, that paging ends with every record, and that parts are stored once.

  \<^bold>\<open>Browser device.\<close> \<open>BrowserDevice\<close> is the service of \<^verbatim>\<open>packages/messaging/src/browser-device\<close>: generations of the device,
  each with its lease, its store and its engine, and the epoch that ends them. Every \<open>await\<close> of the source is a state, so that the
  events \<open>devEvent\<close> (calls, answers of ports, notifications) interleave as in the source, and \<open>devStep\<close> runs one turn.
  \<open>BrowserDeviceProperties\<close> proves the invariants of the generations and of what is published in every reachable state,
  \<open>BrowserDeviceRuns\<close> the properties of whole runs: one writer per owner, terminal views, uses that end with their generation,
  and a run from \<open>ensureReady\<close> to \<open>ready\<close>. The locale of \<open>DeviceGate\<close> states what a channel command relies on when it asks for
  the device, and its interpretation on the device service shows that a lost device sends nothing.

  \<^bold>\<open>Accounts and sessions.\<close> \<open>AuthSessions\<close>, \<open>SignIn\<close> and \<open>AuthService\<close> are \<^verbatim>\<open>apps/control/src/auth\<close>: sessions and their CSRF
  proofs, the login transaction with its callback and owner records, and the service of \<^verbatim>\<open>index.ts\<close>. \<open>AuthProperties\<close> states, for
  every port, on what evidence a mutation is authorized and a sign-in completed. The locale \<open>expiring_store\<close> of \<open>StorePort\<close> adds
  expiry to the store's laws; \<open>SessionRuns\<close> and \<open>SignInRuns\<close> prove in it the life of a session, that a login completes once and
  that an issuer and subject keep their owner, and interpret it on the local store.

  \<^bold>\<open>Discovery and pairing.\<close> \<open>Base64\<close> is unpadded base64url with its round trip, \<open>Pairing\<close> and \<open>Discovery\<close> the readers of
  \<^verbatim>\<open>messaging/pairing.ts\<close> and \<^verbatim>\<open>messaging/discovery.ts\<close>, and \<open>SealedGrants\<close> the key thumbprints, grant requests and sealed
  grants: one text per byte sequence, and a request that binds the two keys it names.

  \<^bold>\<open>Bounds.\<close> Loops over data recurse on the data. \<open>retry\<close> loops of the store have the bound of the source. \<open>readPages\<close> is given one
  page more than there are records, which the property shows to be enough; no other definition has fuel. Integers are natural
  numbers with the safe-integer bound of the readers, characters 16-bit words; bytes are 8-bit words in images and texts, and natural
  numbers below 256 in base64url.

  \<^bold>\<open>Not modelled.\<close> Web and agent user interfaces, HTTP routing, the adapters to the Matrix SDK and to OpenID Connect, the local
  agent's sockets, SQLite store and harness hooks, deployment scripts: they are input/output around the modelled core, and its ports
  stand for them. So do the IndexedDB stores, the lock and the engine of the device service; the registration and the disposers of its
  observers are left out. The local contracts of \<^verbatim>\<open>m1\<close> (\<^verbatim>\<open>local.ts\<close>, \<^verbatim>\<open>channel-event.ts\<close>, \<^verbatim>\<open>agent-join.ts\<close>) are further readers
  over the modelled primitives. The content of a channel event passes through the timeline unread. \<open>AbortSignal\<close> is a predicate on
  the world, and a promise that never settles is not a value: outside the device service, an operation is described by what it does
  when its ports answer.
\<close>

end
